(* ===== verification/Zap_Prelude.thy ===== *)
theory Zap_Prelude
  imports
    Complex_Main
    "HOL-Library.AList"
    "HOL-Library.Char_ord"
    "HOL-Library.List_Lexorder"
    "HOL-Library.Product_Lexorder"
    "HOL-Library.Sublist"
begin

text \<open>
  Shared vocabulary of the development: the Python values the components of
  \<^verbatim>\<open>src/zaptrace\<close> use, and the lemmas on them that every component needs.

  \<^item> A Python \<^verbatim>\<open>str\<close> is a HOL \<open>string\<close>; the texts the model computes with (net
    names, component types, pin names) are ASCII, and \<open>lower\<close>, \<open>upper\<close>,
    \<open>strip\<close> and \<open>split_ws\<close> are Python's methods on ASCII text.
  \<^item> A Python \<^verbatim>\<open>dict\<close> is an association list in insertion order, changed only by
    \<open>dict_set\<close> and \<open>dict_pop\<close>, whose interface is the locale \<open>kv_store\<close>.
  \<^item> A Python \<^verbatim>\<open>set\<close> is a HOL set; \<open>sorted(s)\<close> of a set given by a list is
    \<open>sorted_set\<close>.
  \<^item> A Python \<^verbatim>\<open>float\<close> that is only stored and compared is the rational it
    denotes (every finite binary64 value is one, and comparisons are exact).
  \<^item> An exception is a value of \<open>py_error\<close>; a fallible function returns
    \<open>py_error + 'a\<close>.
\<close>

named_theorems zap_defs \<open>definitions that component proofs unfold\<close>
named_theorems zap_values \<open>value functions of enums\<close>

type_synonym pyfloat = rat
type_synonym ('k, 'v) dict = "('k \<times> 'v) list"

section \<open>Errors and results\<close>

datatype py_error =
    ValueError string
  | KeyError string
  | RuntimeError string
  | TypeError string
  | IndexError string
  | ReviewTransitionError string
  | SexpParseError string nat nat
  | IntegrityError string \<comment> \<open>raised by SQLite on a violated constraint\<close>
  | StateStoreCorruptionError string
  | AdapterError string string \<comment> \<open>exception class name and text, raised by an adapter\<close>

type_synonym 'a result = "py_error + 'a"

definition is_ok :: "'a result \<Rightarrow> bool" where
  "is_ok r = (case r of Inl _ \<Rightarrow> False | Inr _ \<Rightarrow> True)"

lemma is_ok_simps [simp]: "is_ok (Inr x)" "\<not> is_ok (Inl e)"
  by (simp_all add: is_ok_def)

lemma is_ok_iff: "is_ok r \<longleftrightarrow> (\<exists>x. r = Inr x)"
  by (cases r) simp_all

fun rbind :: "'a result \<Rightarrow> ('a \<Rightarrow> 'b result) \<Rightarrow> 'b result" where
  "rbind (Inl e) f = Inl e"
| "rbind (Inr x) f = f x"

lemma is_ok_rbind: "is_ok (rbind r f) \<longleftrightarrow> (\<exists>x. r = Inr x \<and> is_ok (f x))"
  by (cases r) simp_all

lemma rbind_eq_Inr: "rbind r f = Inr y \<longleftrightarrow> (\<exists>x. r = Inr x \<and> f x = Inr y)"
  by (cases r) simp_all

section \<open>Python values of arbitrary shape\<close>

datatype pyval =
    PNone
  | PBool bool
  | PInt int
  | PFloat pyfloat
  | PStr string
  | PList "pyval list"
  | PDict "(string \<times> pyval) list"

text \<open>Python's truth of a value.\<close>

fun truthy :: "pyval \<Rightarrow> bool" where
  "truthy PNone = False"
| "truthy (PBool b) = b"
| "truthy (PInt i) = (i \<noteq> 0)"
| "truthy (PFloat x) = (x \<noteq> 0)"
| "truthy (PStr s) = (s \<noteq> [])"
| "truthy (PList xs) = (xs \<noteq> [])"
| "truthy (PDict kvs) = (kvs \<noteq> [])"

section \<open>Stateful operations that may raise\<close>

definition sbind :: "('s \<Rightarrow> 'a result \<times> 's) \<Rightarrow> ('a \<Rightarrow> 's \<Rightarrow> 'b result \<times> 's) \<Rightarrow> 's \<Rightarrow> 'b result \<times> 's" where
  "sbind m f s = (case m s of (Inl e, s') \<Rightarrow> (Inl e, s') | (Inr x, s') \<Rightarrow> f x s')"

definition sreturn :: "'a \<Rightarrow> 's \<Rightarrow> 'a result \<times> 's" where
  "sreturn x s = (Inr x, s)"

definition sraise :: "py_error \<Rightarrow> 's \<Rightarrow> 'a result \<times> 's" where
  "sraise e s = (Inl e, s)"

definition supdate :: "('s \<Rightarrow> 's) \<Rightarrow> 's \<Rightarrow> unit result \<times> 's" where
  "supdate f s = (Inr (), f s)"

text \<open>A \<^verbatim>\<open>for\<close> loop whose body only has effects.\<close>

primrec sfor :: "'a list \<Rightarrow> ('a \<Rightarrow> 's \<Rightarrow> unit result \<times> 's) \<Rightarrow> 's \<Rightarrow> unit result \<times> 's" where
  "sfor [] f = sreturn ()"
| "sfor (x # xs) f = sbind (f x) (\<lambda>_. sfor xs f)"

lemma sbind_simps:
  "m s = (Inr x, s') \<Longrightarrow> sbind m f s = f x s'"
  "m s = (Inl e, s') \<Longrightarrow> sbind m f s = (Inl e, s')"
  "sbind (sreturn y) f s = f y s" "sbind (supdate g) f s = f () (g s)" "sbind (sraise e) f s = (Inl e, s)"
  by (simp_all add: sbind_def sreturn_def supdate_def sraise_def)

section \<open>Strings\<close>

definition lower_char :: "char \<Rightarrow> char" where
  "lower_char c = (let n = (of_char c :: nat) in if 65 \<le> n \<and> n \<le> 90 then char_of (n + 32) else c)"

definition upper_char :: "char \<Rightarrow> char" where
  "upper_char c = (let n = (of_char c :: nat) in if 97 \<le> n \<and> n \<le> 122 then char_of (n - 32) else c)"

definition lower :: "string \<Rightarrow> string" where
  "lower = map lower_char"

definition upper :: "string \<Rightarrow> string" where
  "upper = map upper_char"

lemma lower_simps [simp]: "lower [] = []" "lower (c # cs) = lower_char c # lower cs"
  by (simp_all add: lower_def)

lemma upper_simps [simp]: "upper [] = []" "upper (c # cs) = upper_char c # upper cs"
  by (simp_all add: upper_def)

lemma lower_append [simp]: "lower (s @ t) = lower s @ lower t"
  by (simp add: lower_def)

lemma length_lower [simp]: "length (lower s) = length s"
  by (simp add: lower_def)

lemma lower_char_idem [simp]: "lower_char (lower_char c) = lower_char c"
proof -
  have "(of_char (char_of (of_char c + 32 :: nat) :: char) :: nat) = of_char c + 32"
    if "65 \<le> (of_char c :: nat)" "(of_char c :: nat) \<le> 90"
    using that by simp
  then show ?thesis
    by (auto simp: lower_char_def Let_def)
qed

lemma lower_idem [simp]: "lower (lower s) = lower s"
  by (simp add: lower_def)

text \<open>\<^verbatim>\<open>kw in s\<close> on strings.\<close>

fun contains :: "string \<Rightarrow> string \<Rightarrow> bool" where
  "contains k [] = (k = [])"
| "contains k (c # cs) = (prefix k (c # cs) \<or> contains k cs)"

lemma contains_iff: "contains k s \<longleftrightarrow> (\<exists>ps ss. s = ps @ k @ ss)"
proof (induction s)
  case Nil
  then show ?case by simp
next
  case (Cons c cs)
  show ?case
  proof
    assume "contains k (c # cs)"
    then show "\<exists>ps ss. c # cs = ps @ k @ ss"
    proof (cases "prefix k (c # cs)")
      case True
      then obtain zs where "c # cs = k @ zs" by (auto elim: prefixE)
      then have "c # cs = [] @ k @ zs" by simp
      then show ?thesis by blast
    next
      case False
      with \<open>contains k (c # cs)\<close> Cons.IH obtain ps ss where "cs = ps @ k @ ss" by auto
      then have "c # cs = (c # ps) @ k @ ss" by simp
      then show ?thesis by blast
    qed
  next
    assume "\<exists>ps ss. c # cs = ps @ k @ ss"
    then obtain ps ss where eq: "c # cs = ps @ k @ ss" by blast
    show "contains k (c # cs)"
    proof (cases ps)
      case Nil
      with eq have "prefix k (c # cs)" by simp
      then show ?thesis by simp
    next
      case (Cons p ps')
      with eq have "cs = ps' @ k @ ss" by simp
      with Cons.IH show ?thesis by auto
    qed
  qed
qed

text \<open>\<^verbatim>\<open>any(kw in s for kw in kws)\<close>.\<close>

definition contains_any :: "string list \<Rightarrow> string \<Rightarrow> bool" where
  "contains_any kws s = list_ex (\<lambda>kw. contains kw s) kws"

lemma contains_any_simps [simp]:
  "\<not> contains_any [] s"
  "contains_any (k # ks) s \<longleftrightarrow> contains k s \<or> contains_any ks s"
  by (simp_all add: contains_any_def)

lemma contains_any_append: "contains_any (xs @ ys) s \<longleftrightarrow> contains_any xs s \<or> contains_any ys s"
  by (simp add: contains_any_def)

text \<open>\<^verbatim>\<open>s.find(k)\<close>: the least index, \<open>None\<close> for Python's -1.\<close>

fun str_find :: "string \<Rightarrow> string \<Rightarrow> nat option" where
  "str_find k [] = (if k = [] then Some 0 else None)"
| "str_find k (c # cs) = (if prefix k (c # cs) then Some 0 else map_option Suc (str_find k cs))"

lemma str_find_None: "str_find k s = None \<longleftrightarrow> \<not> contains k s"
  by (induction s) auto

definition is_space :: "char \<Rightarrow> bool" where
  "is_space c = (let n = (of_char c :: nat) in n = 32 \<or> (9 \<le> n \<and> n \<le> 13) \<or> (28 \<le> n \<and> n \<le> 31))"

definition strip :: "string \<Rightarrow> string" where
  "strip s = rev (dropWhile is_space (rev (dropWhile is_space s)))"

text \<open>\<^verbatim>\<open>s.split()\<close>: maximal runs of non-whitespace.\<close>

fun split_ws_aux :: "string \<Rightarrow> string \<Rightarrow> string list" where
  "split_ws_aux acc [] = (if acc = [] then [] else [rev acc])"
| "split_ws_aux acc (c # cs) =
     (if is_space c then (if acc = [] then split_ws_aux [] cs else rev acc # split_ws_aux [] cs)
      else split_ws_aux (c # acc) cs)"

definition split_ws :: "string \<Rightarrow> string list" where
  "split_ws s = split_ws_aux [] s"

text \<open>\<^verbatim>\<open>s.replace(a, b)\<close> for one-character \<open>a\<close>.\<close>

definition replace_char :: "char \<Rightarrow> string \<Rightarrow> string \<Rightarrow> string" where
  "replace_char a b s = concat (map (\<lambda>c. if c = a then b else [c]) s)"

text \<open>\<^verbatim>\<open>sep.join(xs)\<close>.\<close>

fun str_join :: "string \<Rightarrow> string list \<Rightarrow> string" where
  "str_join sep [] = []"
| "str_join sep [x] = x"
| "str_join sep (x # y # ys) = x @ sep @ str_join sep (y # ys)"

text \<open>\<^verbatim>\<open>str(n)\<close> of an integer.\<close>

fun str_of_nat :: "nat \<Rightarrow> string" where
  "str_of_nat n =
     (if n < 10 then [char_of (48 + n)] else str_of_nat (n div 10) @ [char_of (48 + n mod 10)])"

declare str_of_nat.simps [simp del]

lemma str_of_nat_value: "foldl (\<lambda>v c. 10 * v + (of_char c - 48)) 0 (str_of_nat n) = (n :: nat)"
proof (induction n rule: str_of_nat.induct)
  case (1 n)
  show ?case
  proof (cases "n < 10")
    case True
    then show ?thesis by (subst str_of_nat.simps) simp
  next
    case False
    have m: "n mod 10 < 10" by simp
    have "foldl (\<lambda>v c. 10 * v + (of_char c - 48)) 0 (str_of_nat n) = 10 * (n div 10) + n mod 10"
      using 1 [OF False] m by (subst str_of_nat.simps) (simp add: False)
    then show ?thesis by simp
  qed
qed

lemma str_of_nat_inj: "str_of_nat m = str_of_nat n \<longleftrightarrow> m = n"
  by (metis str_of_nat_value)

definition str_of_int :: "int \<Rightarrow> string" where
  "str_of_int i = (if i < 0 then CHR ''-'' # str_of_nat (nat (- i)) else str_of_nat (nat i))"

text \<open>\<^verbatim>\<open>repr(s)\<close> of a string and of a list of strings.\<close>

definition hex_digit :: "nat \<Rightarrow> char" where
  "hex_digit n = (if n < 10 then char_of (48 + n) else char_of (87 + n))"

definition quote_char :: char where "quote_char = char_of (39::nat)"
definition dquote_char :: char where "dquote_char = char_of (34::nat)"
definition backslash_char :: char where "backslash_char = char_of (92::nat)"

definition repr_char :: "char \<Rightarrow> char \<Rightarrow> string" where
  "repr_char q c =
     (let n = (of_char c :: nat) in
      if c = q \<or> n = 92 then [backslash_char, c]
      else if n = 9 then [backslash_char, CHR ''t'']
      else if n = 10 then [backslash_char, CHR ''n'']
      else if n = 13 then [backslash_char, CHR ''r'']
      else if n < 32 \<or> n = 127
        then [backslash_char, CHR ''x'', hex_digit (n div 16), hex_digit (n mod 16)]
      else [c])"

definition repr_str :: "string \<Rightarrow> string" where
  "repr_str s =
     (let q = (if quote_char \<in> set s \<and> dquote_char \<notin> set s then dquote_char else quote_char)
      in q # concat (map (repr_char q) s) @ [q])"

definition repr_str_list :: "string list \<Rightarrow> string" where
  "repr_str_list xs = ''['' @ str_join '', '' (map repr_str xs) @ '']''"

text \<open>The em dash of the messages, in UTF-8, and the single quote they print.\<close>

definition em_dash :: string where
  "em_dash = [char_of (226::nat), char_of (128::nat), char_of (148::nat)]"

definition sq :: string where "sq = [quote_char]"

definition is_digit :: "char \<Rightarrow> bool" where
  "is_digit c = (let n = (of_char c :: nat) in 48 \<le> n \<and> n \<le> 57)"

definition is_alpha :: "char \<Rightarrow> bool" where
  "is_alpha c = (let n = (of_char c :: nat) in (65 \<le> n \<and> n \<le> 90) \<or> (97 \<le> n \<and> n \<le> 122))"

definition is_alnum :: "char \<Rightarrow> bool" where
  "is_alnum c = (is_digit c \<or> is_alpha c)"

text \<open>\<^verbatim>\<open>str(exc)\<close>.\<close>

fun exc_str :: "py_error \<Rightarrow> string" where
  "exc_str (KeyError k) = repr_str k"
| "exc_str (ValueError m) = m"
| "exc_str (RuntimeError m) = m"
| "exc_str (TypeError m) = m"
| "exc_str (IndexError m) = m"
| "exc_str (ReviewTransitionError m) = m"
| "exc_str (SexpParseError m l c) =
     (if l = 0 then m else ''[line '' @ str_of_nat l @ '', col '' @ str_of_nat c @ ''] '' @ m)"
| "exc_str (IntegrityError m) = m"
| "exc_str (StateStoreCorruptionError m) = m"
| "exc_str (AdapterError _ m) = m"

text \<open>\<^verbatim>\<open>type(exc).__name__\<close>.\<close>

fun exc_name :: "py_error \<Rightarrow> string" where
  "exc_name (KeyError k) = ''KeyError''"
| "exc_name (ValueError m) = ''ValueError''"
| "exc_name (RuntimeError m) = ''RuntimeError''"
| "exc_name (TypeError m) = ''TypeError''"
| "exc_name (IndexError m) = ''IndexError''"
| "exc_name (ReviewTransitionError m) = ''ReviewTransitionError''"
| "exc_name (SexpParseError m l c) = ''SexpParseError''"
| "exc_name (IntegrityError m) = ''IntegrityError''"
| "exc_name (StateStoreCorruptionError m) = ''StateStoreCorruptionError''"
| "exc_name (AdapterError n m) = n"

section \<open>Lists and sets\<close>

text \<open>Distinct elements in first-seen order: the keys of a \<^verbatim>\<open>dict\<close> or \<^verbatim>\<open>Counter\<close> built from a list.\<close>

definition dedup :: "'a list \<Rightarrow> 'a list" where
  "dedup xs = rev (remdups (rev xs))"

lemma set_dedup [simp]: "set (dedup xs) = set xs"
  by (simp add: dedup_def)

lemma distinct_dedup [simp]: "distinct (dedup xs)"
  by (simp add: dedup_def)

text \<open>\<^verbatim>\<open>sorted(set(xs))\<close>.\<close>

definition sorted_set :: "'a::linorder list \<Rightarrow> 'a list" where
  "sorted_set xs = sort (remdups xs)"

lemma sorted_set_props [simp]:
  "set (sorted_set xs) = set xs" "sorted (sorted_set xs)" "distinct (sorted_set xs)"
  by (simp_all add: sorted_set_def)

lemma sorted_set_eq_iff: "sorted_set xs = sorted_set ys \<longleftrightarrow> set xs = set ys"
  by (metis sorted_set_props sorted_distinct_set_unique)

lemma sorted_set_Nil_iff [simp]: "sorted_set xs = [] \<longleftrightarrow> xs = []"
  by (metis sorted_set_props(1) set_empty)

definition count_if :: "('a \<Rightarrow> bool) \<Rightarrow> 'a list \<Rightarrow> nat" where
  "count_if P xs = length (filter P xs)"

lemma count_if_simps [simp]:
  "count_if P [] = 0"
  "count_if P (x # xs) = (if P x then Suc (count_if P xs) else count_if P xs)"
  "count_if P (xs @ ys) = count_if P xs + count_if P ys"
  by (simp_all add: count_if_def)

lemma count_if_0_iff: "count_if P xs = 0 \<longleftrightarrow> (\<forall>x\<in>set xs. \<not> P x)"
  by (simp add: count_if_def filter_empty_conv)

lemma count_if_partition:
  assumes "\<And>x. x \<in> set xs \<Longrightarrow> P x \<longleftrightarrow> \<not> Q x"
  shows "count_if P xs + count_if Q xs = length xs"
  using assms by (induction xs) auto

definition option_list :: "'a option list \<Rightarrow> 'a list" where
  "option_list xs = concat (map (\<lambda>x. case x of None \<Rightarrow> [] | Some y \<Rightarrow> [y]) xs)"

lemma set_option_list [simp]: "set (option_list xs) = {y. Some y \<in> set xs}"
  by (induction xs) (auto simp: option_list_def split: option.splits)

lemma option_list_simps [simp]:
  "option_list [] = []" "option_list (None # xs) = option_list xs"
  "option_list (Some y # xs) = y # option_list xs"
  by (simp_all add: option_list_def)

section \<open>Dictionaries\<close>

definition dict_get :: "('k, 'v) dict \<Rightarrow> 'k \<Rightarrow> 'v option" where
  "dict_get d k = map_of d k"

definition dict_set :: "'k \<Rightarrow> 'v \<Rightarrow> ('k, 'v) dict \<Rightarrow> ('k, 'v) dict" where
  "dict_set k v d = AList.update k v d"

definition dict_pop :: "'k \<Rightarrow> ('k, 'v) dict \<Rightarrow> ('k, 'v) dict" where
  "dict_pop k d = AList.delete k d"

definition dict_keys :: "('k, 'v) dict \<Rightarrow> 'k list" where
  "dict_keys d = map fst d"

definition dict_values :: "('k, 'v) dict \<Rightarrow> 'v list" where
  "dict_values d = map snd d"

definition dict_wf :: "('k, 'v) dict \<Rightarrow> bool" where
  "dict_wf d = distinct (map fst d)"

text \<open>\<^verbatim>\<open>{f(x): g(x) for x in xs}\<close>.\<close>

definition dict_comp :: "('a \<Rightarrow> 'k) \<Rightarrow> ('a \<Rightarrow> 'v) \<Rightarrow> 'a list \<Rightarrow> ('k, 'v) dict" where
  "dict_comp f g xs = fold (\<lambda>x. dict_set (f x) (g x)) xs []"

text \<open>
  The interface of a keyed store: what every client of a Python \<^verbatim>\<open>dict\<close> relies on
  (the session tables, the rate limiter's windows, the review cache).
\<close>

locale kv_store =
  fixes get :: "'s \<Rightarrow> 'k \<Rightarrow> 'v option"
    and put :: "'k \<Rightarrow> 'v \<Rightarrow> 's \<Rightarrow> 's"
    and pop :: "'k \<Rightarrow> 's \<Rightarrow> 's"
    and keys :: "'s \<Rightarrow> 'k list"
    and wf :: "'s \<Rightarrow> bool"
  assumes get_put: "get (put k v s) k' = (if k' = k then Some v else get s k')"
    and get_pop: "get (pop k s) k' = (if k' = k then None else get s k')"
    and set_keys: "set (keys s) = {k. get s k \<noteq> None}"
    and distinct_keys: "wf s \<Longrightarrow> distinct (keys s)"
    and wf_put: "wf s \<Longrightarrow> wf (put k v s)"
    and wf_pop: "wf s \<Longrightarrow> wf (pop k s)"
begin

lemma get_put_same [simp]: "get (put k v s) k = Some v"
  by (simp add: get_put)

lemma get_pop_same [simp]: "get (pop k s) k = None"
  by (simp add: get_pop)

lemma set_keys_put: "set (keys (put k v s)) = insert k (set (keys s))"
  by (auto simp: set_keys get_put)

lemma set_keys_pop: "set (keys (pop k s)) = set (keys s) - {k}"
  by (auto simp: set_keys get_pop)

lemma length_keys_put:
  assumes "wf s"
  shows "length (keys (put k v s)) = (if k \<in> set (keys s) then length (keys s) else Suc (length (keys s)))"
proof -
  have "length (keys (put k v s)) = card (insert k (set (keys s)))"
    using assms wf_put distinct_keys set_keys_put by (metis distinct_card)
  also have "\<dots> = (if k \<in> set (keys s) then length (keys s) else Suc (length (keys s)))"
    using assms distinct_keys by (simp add: distinct_card insert_absorb)
  finally show ?thesis .
qed

lemma length_keys_pop_le:
  assumes "wf s"
  shows "length (keys (pop k s)) \<le> length (keys s)"
proof -
  have "length (keys (pop k s)) = card (set (keys s) - {k})"
    using assms wf_pop distinct_keys set_keys_pop by (metis distinct_card)
  also have "\<dots> \<le> card (set (keys s))"
    by (simp add: card_mono)
  also have "\<dots> = length (keys s)"
    using assms distinct_keys by (simp add: distinct_card)
  finally show ?thesis .
qed

lemma get_fold_put_notin:
  "k \<notin> set ks \<Longrightarrow> get (fold (\<lambda>x. put x (f x)) ks s) k = get s k"
  by (induction ks arbitrary: s) (auto simp: get_put)

lemma get_fold_pop:
  "get (fold pop ks s) k = (if k \<in> set ks then None else get s k)"
  by (induction ks arbitrary: s) (auto simp: get_pop)

end

interpretation pydict: kv_store dict_get dict_set dict_pop dict_keys dict_wf
proof
  show "dict_get (dict_set k v s) k' = (if k' = k then Some v else dict_get s k')"
    for k k' :: 'a and v :: 'b and s
    by (simp add: dict_get_def dict_set_def AList.update_conv)
  show "dict_get (dict_pop k s) k' = (if k' = k then None else dict_get s k')"
    for k k' :: 'a and s :: "('a, 'b) dict"
    by (simp add: dict_get_def dict_pop_def AList.delete_conv)
  show "set (dict_keys s) = {k. dict_get s k \<noteq> None}" for s :: "('a, 'b) dict"
    by (auto simp: dict_keys_def dict_get_def map_of_eq_None_iff)
  show "distinct (dict_keys s)" if "dict_wf s" for s :: "('a, 'b) dict"
    using that by (simp add: dict_wf_def dict_keys_def)
  show "dict_wf (dict_set k v s)" if "dict_wf s" for k :: 'a and v :: 'b and s
    using that by (simp add: dict_wf_def dict_set_def AList.distinct_update)
  show "dict_wf (dict_pop k s)" if "dict_wf s" for k :: 'a and s :: "('a, 'b) dict"
    using that by (simp add: dict_wf_def dict_pop_def AList.distinct_delete)
qed

lemma dict_get_mem: "dict_get d k = Some v \<Longrightarrow> (k, v) \<in> set d"
  by (simp add: dict_get_def map_of_SomeD)

lemma dict_get_of_mem: "dict_wf d \<Longrightarrow> (k, v) \<in> set d \<Longrightarrow> dict_get d k = Some v"
  by (simp add: dict_get_def dict_wf_def)

lemma dict_get_values: "dict_get d k = Some v \<Longrightarrow> v \<in> set (dict_values d)"
  by (force simp: dict_values_def dest: dict_get_mem)

lemma set_dict_values: "set (dict_values d) = snd ` set d"
  by (simp add: dict_values_def)

lemma dict_wf_Nil [simp]: "dict_wf []"
  by (simp add: dict_wf_def)

lemma dict_get_Nil [simp]: "dict_get [] k = None"
  by (simp add: dict_get_def)

lemma find_append:
  "find P (xs @ ys) = (case find P xs of Some x \<Rightarrow> Some x | None \<Rightarrow> find P ys)"
  by (induction xs) auto

lemma dict_get_fold_set:
  "dict_get (fold (\<lambda>x. dict_set (f x) (g x)) xs d) k =
     (case find (\<lambda>x. f x = k) (rev xs) of Some x \<Rightarrow> Some (g x) | None \<Rightarrow> dict_get d k)"
  by (induction xs arbitrary: d)
     (auto simp: pydict.get_put find_append split: option.splits)

lemma dict_get_comp:
  "dict_get (dict_comp f g xs) k = map_option g (find (\<lambda>x. f x = k) (rev xs))"
  by (simp add: dict_comp_def dict_get_fold_set split: option.splits)

lemma dict_wf_fold_set: "dict_wf d \<Longrightarrow> dict_wf (fold (\<lambda>x. dict_set (f x) (g x)) xs d)"
  by (induction xs arbitrary: d) (auto intro: pydict.wf_put)

lemma dict_wf_comp [simp]: "dict_wf (dict_comp f g xs)"
  by (simp add: dict_comp_def dict_wf_fold_set)

lemma set_keys_comp: "set (dict_keys (dict_comp f g xs)) = f ` set xs"
  by (auto simp: pydict.set_keys dict_get_comp find_None_iff find_Some_iff)

text \<open>The first element with a property: Python's \<^verbatim>\<open>next((x for x in xs if p(x)), None)\<close>.\<close>

lemma find_Some_props: "find P xs = Some x \<Longrightarrow> x \<in> set xs \<and> P x"
  by (auto simp: find_Some_iff in_set_conv_nth)

lemma find_None_props: "find P xs = None \<longleftrightarrow> (\<forall>x\<in>set xs. \<not> P x)"
  by (auto simp: find_None_iff)

end
