(* ===== verification/Design_Model.thy ===== *)
theory Design_Model
  imports Zap_Prelude
begin

text \<open>
  The data model of \<^verbatim>\<open>src/zaptrace/core/models.py\<close>: every enum as a datatype,
  every pydantic model a \<open>Design\<close> is built from as a record with the source's
  fields (prefixed by the class), and the query methods of \<open>Design\<close>. The
  dictionaries \<open>components\<close>, \<open>nets\<close> and \<open>pins\<close> keep Python's insertion order, which
  the queries depend on. \<open>design_wf\<close> is what a parsed design satisfies: distinct
  keys, and every component and net stored under its own id.
\<close>

section \<open>Enums\<close>

datatype pin_type =
  PIN_POWER | PIN_INPUT | PIN_OUTPUT | PIN_BIDIRECTIONAL | PIN_PASSIVE | PIN_NO_CONNECT

fun pin_type_value :: "pin_type \<Rightarrow> string" where
  "pin_type_value PIN_POWER = ''power''"
| "pin_type_value PIN_INPUT = ''input''"
| "pin_type_value PIN_OUTPUT = ''output''"
| "pin_type_value PIN_BIDIRECTIONAL = ''bidirectional''"
| "pin_type_value PIN_PASSIVE = ''passive''"
| "pin_type_value PIN_NO_CONNECT = ''no_connect''"

datatype net_type =
  NET_POWER | NET_SIGNAL | NET_DIFFERENTIAL | NET_CLOCK | NET_DATA | NET_ANALOG | NET_GROUND

fun net_type_value :: "net_type \<Rightarrow> string" where
  "net_type_value NET_POWER = ''power''"
| "net_type_value NET_SIGNAL = ''signal''"
| "net_type_value NET_DIFFERENTIAL = ''differential''"
| "net_type_value NET_CLOCK = ''clock''"
| "net_type_value NET_DATA = ''data''"
| "net_type_value NET_ANALOG = ''analog''"
| "net_type_value NET_GROUND = ''ground''"

datatype lifecycle = LC_ACTIVE | LC_NRND | LC_OBSOLETE

datatype pad_shape = PAD_RECT | PAD_CIRCLE | PAD_OVAL | PAD_ROUNDRECT | PAD_CUSTOM

datatype layer_set = LAYER_TOP | LAYER_BOTTOM | LAYER_ALL | LAYER_INNER

datatype net_class =
  SIGNAL_LOW | SIGNAL_HIGH | SIGNAL_ANALOG | POWER_LOW | POWER_MED | POWER_HIGH
| CLASS_GROUND | CLASS_DIFFERENTIAL | CLASS_RF

datatype drc_severity = DRC_ERROR | DRC_WARNING | DRC_INFO

section \<open>Pins, nodes, nets\<close>

type_synonym point = "pyfloat \<times> pyfloat"

record pin =
  pin_name :: string
  pin_type :: pin_type
  pin_net :: "string option"
  pin_position :: "point option"
  pin_voltage_level :: "string option"
  pin_description :: string
  pin_function :: "string option"
  pin_current_domain :: "string option"

record net_node =
  node_component_ref :: string
  node_pin_name :: string

record net_constraints =
  nc_impedance_target :: "pyfloat option"
  nc_length_match_group :: "string option"
  nc_max_length_mm :: "pyfloat option"
  nc_diff_pair_partner :: "string option"
  nc_diff_pair_gap_mm :: "pyfloat option"
  nc_is_high_current :: bool
  nc_min_trace_width_mm :: "pyfloat option"
  nc_return_path_net :: "string option"
  nc_creepage_group :: "string option"

record net =
  net_id :: string
  net_name :: string
  net_type :: net_type
  net_nodes :: "net_node list"
  net_constraints :: "net_constraints option"

text \<open>The field validator of \<open>Net.name\<close>.\<close>

definition name_must_not_be_empty :: "string \<Rightarrow> string result" where
  "name_must_not_be_empty v =
     (if strip v = [] then Inl (ValueError ''Net name cannot be empty'') else Inr v)"

section \<open>Symbols, footprints, components\<close>

record draw_command =
  draw_type :: string
  draw_params :: "(string, pyval) dict"

record symbol_pin =
  spin_id :: string
  spin_name :: string
  spin_position :: point
  spin_length :: pyfloat
  spin_orientation :: string
  spin_electrical_type :: string

record symbol_def =
  sym_pins :: "symbol_pin list"
  sym_body :: "draw_command list"
  sym_origin :: point
  sym_height :: pyfloat
  sym_width :: pyfloat

record pad =
  pad_id :: string
  pad_layer :: layer_set
  pad_shape :: pad_shape
  pad_position :: point
  pad_size :: point
  pad_drill :: "pyfloat option"
  pad_drill_slot :: "point option"
  pad_roundrect_rratio :: "pyfloat option"
  pad_plated :: bool
  pad_solder_paste :: bool
  pad_rotation :: pyfloat

text \<open>The field validator of \<open>Pad.drill_slot\<close>; a model float is finite.\<close>

definition validate_slot :: "point option \<Rightarrow> point option result" where
  "validate_slot value =
     (case value of
        None \<Rightarrow> Inr None
      | Some (w, h) \<Rightarrow>
          if w \<le> 0 \<or> h \<le> 0 \<or> w = h
          then Inl (ValueError ''Oval drill must have distinct finite positive width/height'')
          else Inr (Some (w, h)))"

record footprint_def =
  fp_pads :: "pad list"
  fp_outline :: "draw_command list"
  fp_courtyard :: point
  fp_height :: pyfloat
  fp_thermal_pads :: "string list option"
  fp_description :: string
  fp_source :: string

record component =
  comp_id :: string
  comp_ref :: string
  comp_type :: string
  comp_value :: "string option"
  comp_footprint :: string
  comp_footprint_asset :: "string option"
  comp_pins :: "(string, pin) dict"
  comp_package_pin_map :: "(string, string) dict"
  comp_lifecycle :: lifecycle
  comp_datasheet_url :: "string option"
  comp_mpn :: "string option"
  comp_manufacturer :: "string option"
  comp_voltage_supply :: string
  comp_properties :: "(string, pyval) dict"
  comp_position :: "point option"
  comp_dnp :: bool
  comp_variants :: "(string, bool) dict"
  comp_lcsc_id :: "string option"
  comp_basic_part :: "bool option"
  comp_stock :: "int option"
  comp_alternates :: "string list"
  comp_distributor_links :: "(string, string) dict"
  comp_price_usd :: "pyfloat option"
  comp_supply_fetched_at :: "string option"
  comp_symbol :: "symbol_def option"
  comp_footprint_def :: "footprint_def option"
  comp_voltage_rating :: "pyfloat option"
  comp_current_rating :: "pyfloat option"
  comp_frequency_rating :: "pyfloat option"

record block =
  block_id :: string
  block_name :: string
  block_components :: "string list"
  block_position :: "point option"

section \<open>Board, routing, DRC records\<close>

record layer_spec =
  layer_name :: string
  layer_type :: string
  layer_thickness :: pyfloat
  layer_material :: string

record mounting_hole =
  mh_position :: point
  mh_diameter :: pyfloat
  mh_plated :: bool

record board_constraints =
  bc_min_trace :: pyfloat
  bc_min_trace_power :: pyfloat
  bc_min_clearance :: pyfloat
  bc_min_clearance_high_voltage :: pyfloat
  bc_min_hole :: pyfloat
  bc_min_annular_ring :: pyfloat
  bc_min_solder_mask_sliver :: pyfloat
  bc_via_pad :: pyfloat
  bc_via_hole :: pyfloat
  bc_default_trace_signal :: pyfloat
  bc_default_trace_power :: pyfloat

record board_definition =
  bd_width :: pyfloat
  bd_height :: pyfloat
  bd_layers :: int
  bd_layer_stack :: "layer_spec list"
  bd_outline :: "point list"
  bd_cutouts :: "point list list"
  bd_mounting_holes :: "mounting_hole list"
  bd_constraints :: board_constraints
  bd_copper_pour_gnd :: bool

record trace_segment =
  ts_layer :: string
  ts_start :: point
  ts_end :: point
  ts_width :: pyfloat
  ts_net_id :: string
  ts_via :: bool
  ts_via_diameter :: pyfloat
  ts_via_hole :: pyfloat

datatype via =
    Via4 pyfloat pyfloat pyfloat pyfloat
  | Via5 pyfloat pyfloat pyfloat pyfloat string

record route_result =
  rr_traces :: "trace_segment list"
  rr_vias :: "via list"
  rr_layers_used :: "string list"
  rr_total_trace_length_mm :: pyfloat
  rr_net_count :: int
  rr_routed_net_count :: int

record drc_violation =
  drcv_rule_id :: string
  drcv_severity :: drc_severity
  drcv_message :: string
  drcv_location :: "string option"
  drcv_net_id :: "string option"
  drcv_component_id :: "string option"

record drc_result =
  drcr_design_name :: string
  drcr_total_violations :: int
  drcr_errors :: int
  drcr_warnings :: int
  drcr_info :: int
  drcr_violations :: "drc_violation list"
  drcr_passed :: bool

record thermal_relief =
  tr_pad_position :: point
  tr_pad_diameter :: pyfloat
  tr_spoke_count :: int
  tr_spoke_width :: pyfloat
  tr_gap :: pyfloat

record copper_pour_area =
  cp_layer :: string
  cp_net_id :: string
  cp_polygon :: "point list"
  cp_cutouts :: "point list list"
  cp_thermal_reliefs :: "thermal_relief list"
  cp_stitching_vias :: "point list"

record board_config =
  board_width_mm :: pyfloat
  board_height_mm :: pyfloat
  board_layers :: int
  board_copper_pour_gnd :: bool
  board_min_trace_width_mm :: pyfloat
  board_min_clearance_mm :: pyfloat
  board_min_via_diameter_mm :: pyfloat

section \<open>Constraint intents, provenance, supply chain\<close>

record voltage_domain_constraint =
  vd_id :: string
  vd_nominal :: string
  vd_tolerance :: string

record placement_intent =
  pi_component :: string
  pi_edge :: "string option"
  pi_near :: "string option"
  pi_max_distance_mm :: "pyfloat option"
  pi_reason :: string

record routing_intent =
  ri_net :: string
  ri_differential_pair :: bool
  ri_impedance_ohm :: "pyfloat option"
  ri_length_match_mm :: "pyfloat option"
  ri_copper_pour :: bool
  ri_stitching_vias :: bool
  ri_reason :: string

datatype float_or_str = FloatVal pyfloat | StrVal string

record manufacturing_intent =
  mi_profile :: string
  mi_min_trace_mm :: "float_or_str option"
  mi_min_space_mm :: "float_or_str option"
  mi_reason :: string

record constraint_set =
  cs_voltage_domains :: "voltage_domain_constraint list"
  cs_placement :: "placement_intent list"
  cs_routing :: "routing_intent list"
  cs_manufacturing :: manufacturing_intent

record prov_record =
  prov_record_id :: string
  prov_tool :: string
  prov_tool_version :: string
  prov_input_artifact_ids :: "string list"
  prov_output_artifact_ids :: "string list"
  prov_artifact_hashes :: "(string, string) dict"
  prov_decision_summary :: string
  prov_timestamp :: "string option"
  prov_human_approval :: "string option"

record import_loss_record =
  loss_source_format :: string
  loss_field_path :: string
  loss_behavior :: string
  loss_original_value :: "string option"
  loss_degraded_value :: "string option"
  loss_note :: string

record hierarchy_sheet =
  sheet_id :: string
  sheet_name :: string
  sheet_parent_id :: "string option"
  sheet_component_ids :: "string list"
  sheet_annotation :: string

record supply_record =
  sup_mpn :: string
  sup_manufacturer :: string
  sup_lifecycle :: lifecycle
  sup_lcsc_id :: "string option"
  sup_basic_part :: "bool option"
  sup_stock :: "int option"
  sup_price_usd :: "pyfloat option"
  sup_moq :: "int option"
  sup_lead_time_days :: "int option"
  sup_alternates :: "string list"
  sup_distributor_links :: "(string, string) dict"
  sup_datasheet_url :: "string option"
  sup_rohs :: bool
  sup_msl :: "int option"
  sup_fetched_at :: "string option"

record manufacturing_record =
  mr_profile_id :: string
  mr_profile_version :: string
  mr_min_trace_mm :: pyfloat
  mr_min_clearance_mm :: pyfloat
  mr_min_hole_mm :: pyfloat
  mr_min_annular_ring_mm :: pyfloat
  mr_min_solder_mask_sliver_mm :: pyfloat
  mr_max_layers :: int
  mr_max_board_dim_mm :: pyfloat
  mr_supported_finish :: string
  mr_supported_solder_mask_colors :: "string list"
  mr_via_in_pad_allowed :: bool
  mr_blind_buried_vias_allowed :: bool
  mr_copper_weight_oz :: pyfloat
  mr_impedance_control :: bool
  mr_assembly_side :: string
  mr_panelization :: string
  mr_notes :: string

record cable_harness =
  ch_id :: string
  ch_name :: string
  ch_wire_count :: int
  ch_wire_gauge_awg :: "int option"
  ch_connector_a :: string
  ch_connector_b :: string
  ch_max_length_mm :: "pyfloat option"
  ch_rated_voltage_v :: "pyfloat option"
  ch_rated_current_a :: "pyfloat option"
  ch_shielding :: string
  ch_routing_notes :: string

record enclosure_def =
  enc_id :: string
  enc_name :: string
  enc_material :: string
  enc_color :: string
  enc_ip_rating :: string
  enc_flammability :: string
  enc_external_dimensions_mm :: "(pyfloat \<times> pyfloat \<times> pyfloat) option"
  enc_internal_dimensions_mm :: "(pyfloat \<times> pyfloat \<times> pyfloat) option"
  enc_mounting :: string
  enc_ventilation :: string
  enc_connector_cutouts :: "string list"
  enc_antenna_window :: "string option"
  enc_step_file_url :: "string option"
  enc_notes :: string

record board_to_board_connector =
  b2b_id :: string
  b2b_name :: string
  b2b_board_a :: string
  b2b_board_b :: string
  b2b_connector_on_a :: string
  b2b_connector_on_b :: string
  b2b_pin_count :: int
  b2b_signals :: "string list"
  b2b_max_current_a :: "pyfloat option"
  b2b_max_voltage_v :: "pyfloat option"

record multi_board_project =
  mb_name :: string
  mb_description :: string
  mb_boards :: "(string, string) dict"
  mb_board_to_board_connectors :: "board_to_board_connector list"
  mb_cable_harnesses :: "cable_harness list"
  mb_enclosure :: "enclosure_def option"
  mb_system_power_budget_w :: "pyfloat option"
  mb_system_ground_strategy :: string

section \<open>The design\<close>

record design_meta =
  meta_name :: string
  meta_version :: string
  meta_author :: string
  meta_description :: string
  meta_revision :: int
  meta_tags :: "string list"

record design =
  des_meta :: design_meta
  des_components :: "(string, component) dict"
  des_nets :: "(string, net) dict"
  des_blocks :: "block list"
  des_board :: board_config
  des_board_def :: "board_definition option"
  des_placement :: "(string, point) dict option"
  des_routing :: "route_result option"
  des_net_classes :: "(string, net_class) dict option"
  des_drc_result :: "drc_result option"
  des_copper_pours :: "(string, copper_pour_area) dict"
  des_constraints :: constraint_set
  des_prov_records :: "prov_record list"
  des_import_losses :: "import_loss_record list"
  des_sheets :: "hierarchy_sheet list"
  des_supply_chain :: "(string, supply_record) dict"
  des_manufacturing_records :: "manufacturing_record list"
  des_cable_harnesses :: "cable_harness list"
  des_enclosure :: "enclosure_def option"
  des_multi_board :: "multi_board_project option"

section \<open>Constructors with the models' defaults\<close>

definition mk_pin :: "string \<Rightarrow> pin_type \<Rightarrow> string option \<Rightarrow> pin" where
  "mk_pin n t nt = \<lparr> pin_name = n, pin_type = t, pin_net = nt, pin_position = None,
     pin_voltage_level = None, pin_description = [], pin_function = None,
     pin_current_domain = None \<rparr>"

definition mk_node :: "string \<Rightarrow> string \<Rightarrow> net_node" where
  "mk_node r p = \<lparr> node_component_ref = r, node_pin_name = p \<rparr>"

definition mk_net :: "string \<Rightarrow> string \<Rightarrow> net_type \<Rightarrow> net_node list \<Rightarrow> net" where
  "mk_net i n t ns = \<lparr> net_id = i, net_name = n, net_type = t, net_nodes = ns, net_constraints = None \<rparr>"

definition mk_component :: "string \<Rightarrow> string \<Rightarrow> string \<Rightarrow> component" where
  "mk_component i r t = \<lparr> comp_id = i, comp_ref = r, comp_type = t, comp_value = None,
     comp_footprint = [], comp_footprint_asset = None, comp_pins = [], comp_package_pin_map = [],
     comp_lifecycle = LC_ACTIVE, comp_datasheet_url = None, comp_mpn = None,
     comp_manufacturer = None, comp_voltage_supply = [], comp_properties = [],
     comp_position = None, comp_dnp = False, comp_variants = [], comp_lcsc_id = None,
     comp_basic_part = None, comp_stock = None, comp_alternates = [],
     comp_distributor_links = [], comp_price_usd = None, comp_supply_fetched_at = None,
     comp_symbol = None, comp_footprint_def = None, comp_voltage_rating = None,
     comp_current_rating = None, comp_frequency_rating = None \<rparr>"

definition default_board :: board_config where
  "default_board = \<lparr> board_width_mm = 100, board_height_mm = 80, board_layers = 2,
     board_copper_pour_gnd = True, board_min_trace_width_mm = 1/5,
     board_min_clearance_mm = 1/5, board_min_via_diameter_mm = 3/5 \<rparr>"

definition mk_meta :: "string \<Rightarrow> design_meta" where
  "mk_meta n = \<lparr> meta_name = n, meta_version = ''0.1.0'', meta_author = [], meta_description = [],
     meta_revision = 1, meta_tags = [] \<rparr>"

definition default_constraint_set :: constraint_set where
  "default_constraint_set = \<lparr> cs_voltage_domains = [], cs_placement = [], cs_routing = [],
     cs_manufacturing = \<lparr> mi_profile = [], mi_min_trace_mm = None, mi_min_space_mm = None,
       mi_reason = [] \<rparr> \<rparr>"

definition mk_design ::
  "string \<Rightarrow> (string, component) dict \<Rightarrow> (string, net) dict \<Rightarrow> design" where
  "mk_design n cs ns = \<lparr> des_meta = mk_meta n, des_components = cs, des_nets = ns, des_blocks = [],
     des_board = default_board, des_board_def = None, des_placement = None, des_routing = None,
     des_net_classes = None, des_drc_result = None, des_copper_pours = [],
     des_constraints = default_constraint_set, des_prov_records = [], des_import_losses = [],
     des_sheets = [], des_supply_chain = [], des_manufacturing_records = [],
     des_cable_harnesses = [], des_enclosure = None, des_multi_board = None \<rparr>"

lemmas mk_defs [zap_defs] =
  mk_pin_def mk_node_def mk_net_def mk_component_def mk_design_def mk_meta_def

section \<open>Queries\<close>

abbreviation components :: "design \<Rightarrow> component list" where
  "components d \<equiv> dict_values (des_components d)"

abbreviation nets :: "design \<Rightarrow> net list" where
  "nets d \<equiv> dict_values (des_nets d)"

definition get_component :: "design \<Rightarrow> string \<Rightarrow> component option" where
  "get_component d r =
     (case dict_get (des_components d) r of
        Some c \<Rightarrow> Some c
      | None \<Rightarrow> find (\<lambda>c. comp_ref c = r) (components d))"

definition net_has_pin :: "net \<Rightarrow> string \<Rightarrow> string \<Rightarrow> bool" where
  "net_has_pin n r p =
     list_ex (\<lambda>nd. node_component_ref nd = r \<and> node_pin_name nd = p) (net_nodes n)"

definition get_net_for_pin :: "design \<Rightarrow> string \<Rightarrow> string \<Rightarrow> net option" where
  "get_net_for_pin d r p = find (\<lambda>n. net_has_pin n r p) (nets d)"

definition get_components_on_net :: "design \<Rightarrow> string \<Rightarrow> component list" where
  "get_components_on_net d i =
     (case dict_get (des_nets d) i of
        None \<Rightarrow> []
      | Some n \<Rightarrow>
          filter (\<lambda>c. comp_ref c \<in> set (map node_component_ref (net_nodes n))) (components d))"

definition resolve_variant :: "design \<Rightarrow> string \<Rightarrow> (string, component) dict" where
  "resolve_variant d v =
     filter (\<lambda>(k, c). case dict_get (comp_variants c) v of
                        Some b \<Rightarrow> b
                      | None \<Rightarrow> \<not> comp_dnp c)
       (des_components d)"

definition design_wf :: "design \<Rightarrow> bool" where
  "design_wf d =
     (dict_wf (des_components d) \<and> dict_wf (des_nets d)
      \<and> list_all (\<lambda>(k, c). k = comp_id c \<and> dict_wf (comp_pins c)) (des_components d)
      \<and> list_all (\<lambda>(k, n). k = net_id n) (des_nets d))"

lemma design_wf_net: "design_wf d \<Longrightarrow> dict_get (des_nets d) k = Some n \<Longrightarrow> net_id n = k"
  by (auto simp: design_wf_def list_all_iff dest!: dict_get_mem)

lemma design_wf_get_net: "design_wf d \<Longrightarrow> n \<in> set (nets d) \<Longrightarrow> dict_get (des_nets d) (net_id n) = Some n"
  by (force simp: design_wf_def list_all_iff dict_values_def intro: dict_get_of_mem)

lemma design_wf_get_comp:
  "design_wf d \<Longrightarrow> c \<in> set (components d) \<Longrightarrow> dict_get (des_components d) (comp_id c) = Some c"
  by (force simp: design_wf_def list_all_iff dict_values_def intro: dict_get_of_mem)

lemma get_component_mem: "get_component d r = Some c \<Longrightarrow> c \<in> set (components d)"
  by (auto simp: get_component_def split: option.splits dest: dict_get_values find_Some_props)

lemma get_component_named:
  assumes "design_wf d" "get_component d r = Some c"
  shows "comp_id c = r \<or> comp_ref c = r"
  using assms
  by (auto simp: get_component_def design_wf_def list_all_iff split: option.splits
           dest!: dict_get_mem find_Some_props)

lemma get_component_None:
  "get_component d r = None \<longleftrightarrow>
     r \<notin> set (dict_keys (des_components d)) \<and> (\<forall>c\<in>set (components d). comp_ref c \<noteq> r)"
  by (auto simp: get_component_def pydict.set_keys find_None_props split: option.splits)

lemma get_net_for_pin_None:
  "get_net_for_pin d r p = None \<longleftrightarrow> (\<forall>n\<in>set (nets d). \<not> net_has_pin n r p)"
  by (simp add: get_net_for_pin_def find_None_props)

lemma get_net_for_pin_Some:
  "get_net_for_pin d r p = Some n \<Longrightarrow> n \<in> set (nets d) \<and> net_has_pin n r p"
  by (auto simp: get_net_for_pin_def dest: find_Some_props)

end
