(* ===== verification/ERC_Models.thy ===== *)
theory ERC_Models
  imports Design_Model
begin

text \<open>
  \<^verbatim>\<open>src/zaptrace/erc/models.py\<close> (violations, checks, results) and
  \<^verbatim>\<open>src/zaptrace/erc/graph.py\<close> (the electrical graph the rules query). The graph is
  built by the source's imperative loop, \<open>build\<close> below; the lemmas at the end
  characterise what the finished graph answers, so that the rules can be reasoned
  about without unfolding the loop.
\<close>

section \<open>Violations and results\<close>

datatype erc_severity = ERC_ERROR | ERC_WARNING | ERC_INFO

fun erc_severity_value :: "erc_severity \<Rightarrow> string" where
  "erc_severity_value ERC_ERROR = ''error''"
| "erc_severity_value ERC_WARNING = ''warning''"
| "erc_severity_value ERC_INFO = ''info''"

record erc_violation =
  v_rule_id :: string
  v_severity :: erc_severity
  v_message :: string
  v_component_refs :: "string list"
  v_net_refs :: "string list"
  v_patch_suggestion :: "string option"
  v_waiver_reason :: "string option"

definition is_waived :: "erc_violation \<Rightarrow> bool" where
  "is_waived v = (v_waiver_reason v \<noteq> None)"

text \<open>The constructor calls of the rules: no waiver, a patch suggestion.\<close>

definition mk_violation ::
  "string \<Rightarrow> erc_severity \<Rightarrow> string \<Rightarrow> string list \<Rightarrow> string list \<Rightarrow> string option \<Rightarrow> erc_violation" where
  "mk_violation rid sev msg crefs nrefs patch =
     \<lparr> v_rule_id = rid, v_severity = sev, v_message = msg, v_component_refs = crefs,
       v_net_refs = nrefs, v_patch_suggestion = patch, v_waiver_reason = None \<rparr>"

lemma mk_violation_sel [simp]:
  "v_rule_id (mk_violation r s m cs ns p) = r"
  "v_severity (mk_violation r s m cs ns p) = s"
  "v_message (mk_violation r s m cs ns p) = m"
  "v_component_refs (mk_violation r s m cs ns p) = cs"
  "v_net_refs (mk_violation r s m cs ns p) = ns"
  "v_patch_suggestion (mk_violation r s m cs ns p) = p"
  "v_waiver_reason (mk_violation r s m cs ns p) = None"
  "\<not> is_waived (mk_violation r s m cs ns p)"
  by (simp_all add: mk_violation_def is_waived_def)

record erc_check =
  chk_rule_id :: string
  chk_title :: string
  chk_category :: string
  chk_violation_count :: nat

record erc_result =
  res_violations :: "erc_violation list"
  res_design_name :: string
  res_total_errors :: nat
  res_total_warnings :: nat
  res_total_info :: nat
  res_checks_run :: "erc_check list"
  res_coverage_gaps :: "string list"
  res_total_waivers :: nat

definition from_violations ::
  "erc_violation list \<Rightarrow> string \<Rightarrow> erc_check list \<Rightarrow> string list \<Rightarrow> erc_result" where
  "from_violations vs nm checks gaps =
     (let active = filter (\<lambda>v. \<not> is_waived v) vs in
      \<lparr> res_violations = vs, res_design_name = nm,
        res_total_errors = count_if (\<lambda>v. v_severity v = ERC_ERROR) active,
        res_total_warnings = count_if (\<lambda>v. v_severity v = ERC_WARNING) active,
        res_total_info = count_if (\<lambda>v. v_severity v = ERC_INFO) active,
        res_checks_run = checks, res_coverage_gaps = gaps,
        res_total_waivers = count_if is_waived vs \<rparr>)"

definition active_violations :: "erc_result \<Rightarrow> erc_violation list" where
  "active_violations r = filter (\<lambda>v. \<not> is_waived v) (res_violations r)"

definition waived_violations :: "erc_result \<Rightarrow> erc_violation list" where
  "waived_violations r = filter is_waived (res_violations r)"

definition passed :: "erc_result \<Rightarrow> bool" where
  "passed r = (res_total_errors r = 0)"

definition categories_covered :: "erc_result \<Rightarrow> string list" where
  "categories_covered r = dedup (map chk_category (res_checks_run r))"

definition coverage_summary :: "erc_result \<Rightarrow> string" where
  "coverage_summary r =
     (let n = length (res_checks_run r);
          cats = categories_covered r;
          cat_str = (if cats \<noteq> [] then str_join '', '' cats else ''none'')
      in str_of_nat n @ '' check(s) run across '' @ str_of_nat (length cats) @ '' categor''
         @ (if length cats = 1 then ''y'' else ''ies'') @ '' ('' @ cat_str @ '')''
         @ (if res_total_waivers r \<noteq> 0
            then ''; '' @ str_of_nat (res_total_waivers r) @ '' violation(s) waived'' else [])
         @ (if res_coverage_gaps r \<noteq> []
            then ''; '' @ str_of_nat (length (res_coverage_gaps r)) @ '' coverage gap(s) noted'' else []))"

lemma severity_cases_sum:
  "count_if (\<lambda>v. v_severity v = ERC_ERROR) vs + count_if (\<lambda>v. v_severity v = ERC_WARNING) vs
   + count_if (\<lambda>v. v_severity v = ERC_INFO) vs = length vs"
proof (induction vs)
  case (Cons v vs)
  then show ?case by (cases "v_severity v") simp_all
qed simp

lemma from_violations_totals:
  "res_total_errors (from_violations vs n c g) + res_total_warnings (from_violations vs n c g)
   + res_total_info (from_violations vs n c g) + res_total_waivers (from_violations vs n c g)
   = length vs"
proof -
  have "length (filter (\<lambda>v. \<not> is_waived v) vs) + count_if is_waived vs = length vs"
    by (induction vs) auto
  then show ?thesis
    using severity_cases_sum [of "filter (\<lambda>v. \<not> is_waived v) vs"]
    by (simp add: from_violations_def Let_def)
qed

lemma passed_from_violations:
  "passed (from_violations vs n c g) \<longleftrightarrow>
     (\<forall>v\<in>set vs. is_waived v \<or> v_severity v \<noteq> ERC_ERROR)"
  by (auto simp: passed_def from_violations_def Let_def count_if_0_iff)

section \<open>The electrical graph\<close>

record pin_endpoint =
  ep_component_ref :: string
  ep_pin_name :: string
  ep_net_id :: string
  ep_pin_type :: string

record electrical_graph =
  g_design :: design
  g_net_nodes :: "(string, pin_endpoint list) dict"
  g_component_nets :: "(string, string set) dict"

definition endpoint_pin_type :: "component option \<Rightarrow> string \<Rightarrow> string" where
  "endpoint_pin_type c p =
     (case c of
        None \<Rightarrow> []
      | Some c \<Rightarrow> (case dict_get (comp_pins c) p of
                     None \<Rightarrow> []
                   | Some pn \<Rightarrow> pin_type_value (pin_type pn)))"

definition make_endpoint :: "design \<Rightarrow> string \<Rightarrow> net_node \<Rightarrow> pin_endpoint" where
  "make_endpoint d nid nd =
     \<lparr> ep_component_ref = node_component_ref nd, ep_pin_name = node_pin_name nd, ep_net_id = nid,
       ep_pin_type = endpoint_pin_type (get_component d (node_component_ref nd)) (node_pin_name nd) \<rparr>"

definition set_default :: "'k \<Rightarrow> 'v \<Rightarrow> ('k, 'v) dict \<Rightarrow> ('k, 'v) dict" where
  "set_default k v d = (case dict_get d k of None \<Rightarrow> dict_set k v d | Some _ \<Rightarrow> d)"

definition add_to_set :: "string \<Rightarrow> string \<Rightarrow> (string, string set) dict \<Rightarrow> (string, string set) dict" where
  "add_to_set k x d = dict_set k (insert x (case dict_get d k of None \<Rightarrow> {} | Some s \<Rightarrow> s)) d"

definition add_endpoint :: "string \<Rightarrow> net_node \<Rightarrow> electrical_graph \<Rightarrow> electrical_graph" where
  "add_endpoint nid nd g =
     (let c = get_component (g_design g) (node_component_ref nd);
          ep = make_endpoint (g_design g) nid nd;
          old = (case dict_get (g_net_nodes g) nid of None \<Rightarrow> [] | Some eps \<Rightarrow> eps);
          nn = dict_set nid (if ep \<in> set old then old else old @ [ep]) (g_net_nodes g);
          cn = (case c of
                  None \<Rightarrow> g_component_nets g
                | Some c \<Rightarrow> add_to_set (comp_id c) nid (add_to_set (comp_ref c) nid (g_component_nets g)))
      in g\<lparr> g_net_nodes := nn, g_component_nets := cn \<rparr>)"

definition sort_endpoints :: "pin_endpoint list \<Rightarrow> pin_endpoint list" where
  "sort_endpoints = sort_key (\<lambda>ep. (ep_component_ref ep, ep_pin_name ep, ep_net_id ep))"

text \<open>The nodes \<open>_build\<close> adds, in its order: first every net's nodes, then every pin's own net.\<close>

definition net_node_adds :: "design \<Rightarrow> (string \<times> net_node) list" where
  "net_node_adds d = concat (map (\<lambda>(nid, n). map (\<lambda>nd. (nid, nd)) (net_nodes n)) (des_nets d))"

definition pin_net_adds :: "design \<Rightarrow> (string \<times> net_node) list" where
  "pin_net_adds d =
     concat (map (\<lambda>c. option_list (map (\<lambda>(p, pn).
         case pin_net pn of
           None \<Rightarrow> None
         | Some nid \<Rightarrow>
             if nid \<noteq> [] \<and> dict_get (des_nets d) nid \<noteq> None
             then Some (nid, mk_node (comp_ref c) p) else None) (comp_pins c)))
       (components d))"

definition init_graph :: "design \<Rightarrow> electrical_graph" where
  "init_graph d =
     \<lparr> g_design = d,
       g_net_nodes = dict_comp (\<lambda>k. k) (\<lambda>_. []) (dict_keys (des_nets d)),
       g_component_nets =
         fold (\<lambda>c. dict_set (comp_id c) {}) (components d)
           (dict_comp comp_ref (\<lambda>_. {}) (components d)) \<rparr>"

definition build :: "electrical_graph \<Rightarrow> electrical_graph" where
  "build g =
     (let g' = fold (\<lambda>(nid, nd). add_endpoint nid nd)
                 (net_node_adds (g_design g) @ pin_net_adds (g_design g)) g
      in g'\<lparr> g_net_nodes := map (\<lambda>(k, eps). (k, sort_endpoints eps)) (g_net_nodes g') \<rparr>)"

definition from_design :: "design \<Rightarrow> electrical_graph" where
  "from_design d = build (init_graph d)"

definition endpoints :: "electrical_graph \<Rightarrow> string \<Rightarrow> pin_endpoint list" where
  "endpoints g nid = (case dict_get (g_net_nodes g) nid of None \<Rightarrow> [] | Some eps \<Rightarrow> eps)"

definition component_refs_on_net :: "electrical_graph \<Rightarrow> string \<Rightarrow> string set" where
  "component_refs_on_net g nid = ep_component_ref ` set (endpoints g nid)"

definition nets_for_component :: "electrical_graph \<Rightarrow> string \<Rightarrow> string set" where
  "nets_for_component g r = (case dict_get (g_component_nets g) r of None \<Rightarrow> {} | Some s \<Rightarrow> s)"

definition graph_net :: "electrical_graph \<Rightarrow> string \<Rightarrow> net option" where
  "graph_net g nid = dict_get (des_nets (g_design g)) nid"

definition is_power_net :: "electrical_graph \<Rightarrow> string \<Rightarrow> bool" where
  "is_power_net g nid =
     (case graph_net g nid of None \<Rightarrow> False | Some n \<Rightarrow> net_type n \<in> {NET_POWER, NET_GROUND})"

definition res_types :: "string list" where
  "res_types = [''RES'', ''R'', ''RESISTOR'']"

definition resistor_bridges_to_power ::
  "electrical_graph \<Rightarrow> string \<Rightarrow> string list option \<Rightarrow> component \<Rightarrow> bool" where
  "resistor_bridges_to_power g sid allowed c =
     (upper (comp_type c) \<in> set res_types
      \<and> (case allowed of None \<Rightarrow> True
                       | Some vs \<Rightarrow> (case comp_value c of None \<Rightarrow> False | Some v \<Rightarrow> v \<in> set vs))
      \<and> (\<exists>nid \<in> (nets_for_component g (comp_ref c) \<union> nets_for_component g (comp_id c)) - {sid}.
           is_power_net g nid))"

definition has_resistor_to_power ::
  "electrical_graph \<Rightarrow> string \<Rightarrow> string list option \<Rightarrow> bool" where
  "has_resistor_to_power g sid allowed =
     list_ex (\<lambda>ep. case get_component (g_design g) (ep_component_ref ep) of
                     None \<Rightarrow> False
                   | Some c \<Rightarrow> resistor_bridges_to_power g sid allowed c)
       (endpoints g sid)"

subsection \<open>What the finished graph answers\<close>

lemma g_design_add_endpoint [simp]: "g_design (add_endpoint nid nd g) = g_design g"
  by (simp add: add_endpoint_def Let_def)

lemma g_design_fold_add [simp]:
  "g_design (fold (\<lambda>(nid, nd). add_endpoint nid nd) adds g) = g_design g"
  by (induction adds arbitrary: g) (auto simp: case_prod_beta)

lemma g_design_from_design [simp]: "g_design (from_design d) = d"
  by (simp add: from_design_def build_def Let_def init_graph_def)

lemma endpoints_add_endpoint:
  "endpoints (add_endpoint nid nd g) k =
     (if k = nid \<and> make_endpoint (g_design g) nid nd \<notin> set (endpoints g nid)
      then endpoints g nid @ [make_endpoint (g_design g) nid nd] else endpoints g k)"
  by (auto simp: endpoints_def add_endpoint_def Let_def pydict.get_put split: option.splits)

lemma set_endpoints_fold:
  "set (endpoints (fold (\<lambda>(nid, nd). add_endpoint nid nd) adds g) k) =
     set (endpoints g k) \<union> make_endpoint (g_design g) k ` {nd. (k, nd) \<in> set adds}"
  by (induction adds arbitrary: g) (auto simp: endpoints_add_endpoint split: if_splits)

lemma distinct_endpoints_fold:
  "distinct (endpoints g k) \<Longrightarrow>
   distinct (endpoints (fold (\<lambda>(nid, nd). add_endpoint nid nd) adds g) k)"
proof (induction adds arbitrary: g)
  case (Cons a adds)
  obtain nid nd where a: "a = (nid, nd)" by (cases a)
  from Cons.prems have "distinct (endpoints (add_endpoint nid nd g) k)"
    by (auto simp: endpoints_add_endpoint)
  then show ?case using Cons.IH by (simp add: a)
qed simp

lemma endpoints_init [simp]: "endpoints (init_graph d) k = []"
  by (auto simp: endpoints_def init_graph_def dict_get_comp split: option.splits)

lemma dict_get_map_val: "dict_get (map (\<lambda>(k, v). (k, f v)) d) k = map_option f (dict_get d k)"
  by (induction d) (auto simp: dict_get_def)

lemma endpoints_from_design:
  "endpoints (from_design d) k =
     sort_endpoints (endpoints (fold (\<lambda>(nid, nd). add_endpoint nid nd)
                                  (net_node_adds d @ pin_net_adds d) (init_graph d)) k)"
  by (simp add: from_design_def build_def Let_def endpoints_def dict_get_map_val
        sort_endpoints_def init_graph_def split: option.splits)

definition connected_node :: "design \<Rightarrow> string \<Rightarrow> net_node \<Rightarrow> bool" where
  "connected_node d nid nd = ((nid, nd) \<in> set (net_node_adds d) \<or> (nid, nd) \<in> set (pin_net_adds d))"

lemma set_net_node_adds: "(nid, nd) \<in> set (net_node_adds d) \<longleftrightarrow> (\<exists>n. (nid, n) \<in> set (des_nets d) \<and> nd \<in> set (net_nodes n))"
  by (force simp: net_node_adds_def)

lemma set_pin_net_adds:
  "(nid, nd) \<in> set (pin_net_adds d) \<longleftrightarrow>
     (\<exists>c\<in>set (components d). \<exists>p pn. (p, pn) \<in> set (comp_pins c) \<and> pin_net pn = Some nid
        \<and> nid \<noteq> [] \<and> dict_get (des_nets d) nid \<noteq> None \<and> nd = mk_node (comp_ref c) p)"
  by (force simp: pin_net_adds_def split: option.splits if_splits)

lemma set_endpoints_from_design:
  "set (endpoints (from_design d) k) = make_endpoint d k ` {nd. connected_node d k nd}"
proof -
  have "g_design (init_graph d) = d" by (simp add: init_graph_def)
  then show ?thesis
    by (auto simp: endpoints_from_design sort_endpoints_def set_endpoints_fold connected_node_def
             simp del: fold_append)
qed

lemma distinct_endpoints_from_design: "distinct (endpoints (from_design d) k)"
  by (simp add: endpoints_from_design sort_endpoints_def distinct_endpoints_fold del: fold_append)

lemma sorted_endpoints_from_design:
  "sorted (map (\<lambda>ep. (ep_component_ref ep, ep_pin_name ep, ep_net_id ep)) (endpoints (from_design d) k))"
  by (simp add: endpoints_from_design sort_endpoints_def)

lemma nets_for_component_add_to_set:
  "(case dict_get (add_to_set k x cn) r of None \<Rightarrow> {} | Some s \<Rightarrow> s) =
     (if r = k then insert x (case dict_get cn r of None \<Rightarrow> {} | Some s \<Rightarrow> s)
      else (case dict_get cn r of None \<Rightarrow> {} | Some s \<Rightarrow> s))"
  by (simp add: add_to_set_def pydict.get_put)

lemma nets_for_component_add:
  "nets_for_component (add_endpoint nid nd g) r =
     (case get_component (g_design g) (node_component_ref nd) of
        None \<Rightarrow> nets_for_component g r
      | Some c \<Rightarrow> if r = comp_ref c \<or> r = comp_id c then insert nid (nets_for_component g r)
                  else nets_for_component g r)"
  by (auto simp: nets_for_component_def add_endpoint_def Let_def nets_for_component_add_to_set
           split: option.splits)

lemma nets_for_component_fold:
  "nets_for_component (fold (\<lambda>(nid, nd). add_endpoint nid nd) adds g) r =
     nets_for_component g r \<union>
     {nid. \<exists>nd c. (nid, nd) \<in> set adds \<and> get_component (g_design g) (node_component_ref nd) = Some c
                  \<and> (r = comp_ref c \<or> r = comp_id c)}"
proof (induction adds arbitrary: g)
  case Nil
  then show ?case by simp
next
  case (Cons a adds)
  obtain nid nd where a: "a = (nid, nd)" by (cases a)
  show ?case
    unfolding a
    by (cases "get_component (g_design g) (node_component_ref nd)")
       (auto simp: Cons.IH nets_for_component_add)
qed

lemma nets_for_component_init [simp]: "nets_for_component (init_graph d) r = {}"
  by (auto simp: nets_for_component_def init_graph_def dict_get_fold_set dict_get_comp
           split: option.splits)

lemma nets_for_component_from_design:
  "nets_for_component (from_design d) r =
     {nid. \<exists>nd c. connected_node d nid nd \<and> get_component d (node_component_ref nd) = Some c
                  \<and> (r = comp_ref c \<or> r = comp_id c)}"
proof -
  have "nets_for_component (from_design d) r =
          nets_for_component (fold (\<lambda>(nid, nd). add_endpoint nid nd)
            (net_node_adds d @ pin_net_adds d) (init_graph d)) r"
    by (simp add: from_design_def build_def Let_def nets_for_component_def init_graph_def)
  moreover have "g_design (init_graph d) = d" by (simp add: init_graph_def)
  ultimately show ?thesis
    by (auto simp: nets_for_component_fold connected_node_def simp del: fold_append)
qed

lemma is_power_net_from_design:
  "is_power_net (from_design d) nid \<longleftrightarrow>
     (\<exists>n. dict_get (des_nets d) nid = Some n \<and> net_type n \<in> {NET_POWER, NET_GROUND})"
  by (auto simp: is_power_net_def graph_net_def split: option.splits)

lemma make_endpoint_sel [simp]:
  "ep_component_ref (make_endpoint d k nd) = node_component_ref nd"
  "ep_pin_name (make_endpoint d k nd) = node_pin_name nd"
  "ep_net_id (make_endpoint d k nd) = k"
  by (simp_all add: make_endpoint_def)

lemmas graph_facts =
  set_endpoints_from_design nets_for_component_from_design is_power_net_from_design

end
