(* ===== verification/ERC_Rules.thy ===== *)
theory ERC_Rules
  imports ERC_Models
begin

text \<open>
  The electrical rules of \<^verbatim>\<open>src/zaptrace/erc/rules.py\<close>, one definition per Python
  function, in the order of the source, with its messages. A rule maps a design to
  its violations; \<open>rule_erc003\<close> can raise (\<^verbatim>\<open>design.nets[net_id]\<close> on an id that is not
  a key) and returns a result. Rules 014 and 028, which compute with voltages and
  currents parsed from free text, are not in this theory: the runner takes them as
  arguments.
\<close>

section \<open>Keyword tables and component classes\<close>

definition PASSIVE_TYPE_KEYWORDS :: "string list" where
  "PASSIVE_TYPE_KEYWORDS =
     [''res'', ''cap'', ''ind'', ''ferrite'', ''bead'', ''led'', ''diode'', ''zener'', ''tvs'',
      ''crystal'', ''xtal'', ''resonator'', ''oscillator'', ''fuse'', ''jumper'', ''testpoint'',
      ''antenna'', ''switch'', ''button'', ''relay'']"

definition CONNECTOR_TYPE_KEYWORDS :: "string list" where
  "CONNECTOR_TYPE_KEYWORDS =
     [''conn'', ''header'', ''usb'', ''jack'', ''socket'', ''terminal'', ''receptacle'']"

definition CAP_TYPES :: "string list" where
  "CAP_TYPES = [''CAP'', ''CAPACITOR'', ''C'']"

definition DECOUPLE_CAP_VALUES :: "string list" where
  "DECOUPLE_CAP_VALUES = [''100nf'', ''0.1uf'', ''10nf'', ''1uf'', ''4.7uf'', ''10uf'', ''22uf'']"

definition has_power_pin :: "component \<Rightarrow> bool" where
  "has_power_pin c = list_ex (\<lambda>p. pin_type p = PIN_POWER) (dict_values (comp_pins c))"

definition is_ic :: "component \<Rightarrow> bool" where
  "is_ic c =
     (if \<not> has_power_pin c then False
      else \<not> contains_any (PASSIVE_TYPE_KEYWORDS @ CONNECTOR_TYPE_KEYWORDS) (lower (comp_type c)))"

definition component_net_ids :: "design \<Rightarrow> string \<Rightarrow> string set" where
  "component_net_ids d r =
     net_id ` set (filter (\<lambda>n. list_ex (\<lambda>nd. node_component_ref nd = r) (net_nodes n)) (nets d))"

definition net_owns_decoupling :: "design \<Rightarrow> string \<Rightarrow> string set \<Rightarrow> bool" where
  "net_owns_decoupling d pid grounds =
     list_ex (\<lambda>c. upper (comp_type c) \<in> set CAP_TYPES
                  \<and> (component_net_ids d (comp_ref c) - {pid}) \<inter> grounds \<noteq> {})
       (get_components_on_net d pid)"

section \<open>ERC001 to ERC004\<close>

text \<open>Iterating over every pin of every component, in dictionary order.\<close>

definition for_pins ::
  "design \<Rightarrow> (component \<Rightarrow> string \<Rightarrow> pin \<Rightarrow> erc_violation option) \<Rightarrow> erc_violation list" where
  "for_pins d f =
     concat (map (\<lambda>c. option_list (map (\<lambda>(p, pn). f c p pn) (comp_pins c))) (components d))"

lemma set_for_pins:
  "set (for_pins d f) =
     {v. \<exists>c\<in>set (components d). \<exists>p pn. (p, pn) \<in> set (comp_pins c) \<and> f c p pn = Some v}"
  by (force simp: for_pins_def)

definition rule_erc001 :: "design \<Rightarrow> erc_violation list" where
  "rule_erc001 d =
     for_pins d (\<lambda>c p pn.
       if pin_type pn = PIN_POWER \<and> pin_net pn = None \<and> get_net_for_pin d (comp_ref c) p = None
       then Some (mk_violation ''ERC001'' ERC_ERROR
              (comp_ref c @ ''.'' @ p @ '' (power pin) is not connected to any net'')
              [comp_ref c] []
              (Some (''Connect '' @ comp_ref c @ ''.'' @ p @ '' to an appropriate power net'')))
       else None)"

definition rule_erc002 :: "design \<Rightarrow> erc_violation list" where
  "rule_erc002 d =
     for_pins d (\<lambda>c p pn.
       if pin_type pn = PIN_INPUT \<and> pin_net pn = None \<and> get_net_for_pin d (comp_ref c) p = None
       then Some (mk_violation ''ERC002'' ERC_WARNING
              (comp_ref c @ ''.'' @ p @ '' (input pin) is not connected to any net'')
              [comp_ref c] []
              (Some (''Connect '' @ comp_ref c @ ''.'' @ p @ '' or add a pull-up/pull-down resistor'')))
       else None)"

definition component_power_net_state :: "design \<Rightarrow> component \<Rightarrow> string list \<times> bool" where
  "component_power_net_state d c =
     (let pins = filter (\<lambda>(p, pn). pin_type pn = PIN_POWER) (comp_pins c);
          found = map (\<lambda>(p, pn). get_net_for_pin d (comp_ref c) p) pins
      in (dedup (map net_id (filter (\<lambda>n. net_type n = NET_POWER) (option_list found))),
          None \<in> set found))"

fun lookup_net_names :: "design \<Rightarrow> string list \<Rightarrow> string list result" where
  "lookup_net_names d [] = Inr []"
| "lookup_net_names d (i # is) =
     (case dict_get (des_nets d) i of
        None \<Rightarrow> Inl (KeyError i)
      | Some n \<Rightarrow> (case lookup_net_names d is of Inl e \<Rightarrow> Inl e | Inr ns \<Rightarrow> Inr (net_name n # ns)))"

definition erc003_violation ::
  "design \<Rightarrow> component \<Rightarrow> string list \<Rightarrow> bool \<Rightarrow> string set \<Rightarrow> bool \<Rightarrow> erc_violation option result" where
  "erc003_violation d c conn_nets has_unconnected grounds lenient_has_cap =
     (if conn_nets \<noteq> [] then
        (let missing = sorted_set (filter (\<lambda>i. \<not> net_owns_decoupling d i grounds) conn_nets) in
         if missing = [] then Inr None
         else (case lookup_net_names d missing of
                 Inl e \<Rightarrow> Inl e
               | Inr names \<Rightarrow> Inr (Some (mk_violation ''ERC003'' ERC_WARNING
                   (comp_ref c @ '' ('' @ comp_type c @ '') power net(s) '' @ repr_str_list names
                    @ '' have no decoupling capacitor to ground'')
                   [comp_ref c] missing
                   (Some ''Add a 100nF ceramic capacitor between each power pin and GND'')))))
      else if \<not> has_unconnected \<or> lenient_has_cap then Inr None
      else Inr (Some (mk_violation ''ERC003'' ERC_WARNING
             (comp_ref c @ '' ('' @ comp_type c @ '') may be missing a decoupling capacitor'')
             [comp_ref c] [] (Some ''Add a 100nF ceramic capacitor near each power pin''))))"

fun collect_results :: "'a option result list \<Rightarrow> 'a list result" where
  "collect_results [] = Inr []"
| "collect_results (Inl e # rs) = Inl e"
| "collect_results (Inr x # rs) =
     (case collect_results rs of
        Inl e \<Rightarrow> Inl e
      | Inr ys \<Rightarrow> Inr (case x of None \<Rightarrow> ys | Some y \<Rightarrow> y # ys))"

definition ground_net_ids :: "design \<Rightarrow> string set" where
  "ground_net_ids d = fst ` set (filter (\<lambda>(k, n). net_type n = NET_GROUND) (des_nets d))"

definition lenient_has_cap :: "design \<Rightarrow> bool" where
  "lenient_has_cap d =
     list_ex (\<lambda>c. lower (case comp_value c of None \<Rightarrow> [] | Some v \<Rightarrow> v) \<in> set DECOUPLE_CAP_VALUES
                  \<and> upper (comp_type c) \<in> set CAP_TYPES) (components d)"

definition rule_erc003 :: "design \<Rightarrow> erc_violation list result" where
  "rule_erc003 d =
     collect_results
       (map (\<lambda>c. let (conn_nets, unconnected) = component_power_net_state d c
                 in erc003_violation d c conn_nets unconnected (ground_net_ids d) (lenient_has_cap d))
          (filter is_ic (components d)))"

text \<open>\<^verbatim>\<open>Counter(xs).items()\<close>: each distinct element in first-seen order with its count.\<close>

definition counter_items :: "'a list \<Rightarrow> ('a \<times> nat) list" where
  "counter_items xs = map (\<lambda>x. (x, count_if (\<lambda>y. y = x) xs)) (dedup xs)"

definition rule_erc004 :: "design \<Rightarrow> erc_violation list" where
  "rule_erc004 d =
     concat (map (\<lambda>(nm, cnt).
       if cnt > 1 then
         (let ids = map net_id (filter (\<lambda>n. net_name n = nm) (nets d)) in
          [mk_violation ''ERC004'' ERC_ERROR
             (''Net name '' @ sq @ nm @ sq @ '' is used '' @ str_of_nat cnt @ '' times (IDs: ''
              @ repr_str_list ids @ '')'')
             [] ids (Some ''Rename duplicate nets with unique names'')])
       else []) (counter_items (map net_name (nets d))))"

section \<open>ERC005 to ERC009\<close>

definition is_i2c_net :: "net \<Rightarrow> bool" where
  "is_i2c_net n = (contains ''i2c'' (lower (net_name n)) \<or> net_name n \<in> {''I2C_SDA'', ''I2C_SCL''})"

definition pullup_values :: "string list" where
  "pullup_values = [''4.7k'', ''10k'', ''2.2k'', ''1k'']"

text \<open>Iterating over every net, in dictionary order.\<close>

definition for_nets :: "design \<Rightarrow> (net \<Rightarrow> erc_violation option) \<Rightarrow> erc_violation list" where
  "for_nets d f = option_list (map f (nets d))"

definition for_components :: "design \<Rightarrow> (component \<Rightarrow> erc_violation option) \<Rightarrow> erc_violation list" where
  "for_components d f = option_list (map f (components d))"

lemma set_for_nets: "set (for_nets d f) = {v. \<exists>n\<in>set (nets d). f n = Some v}"
  by (force simp: for_nets_def)

lemma set_for_components: "set (for_components d f) = {v. \<exists>c\<in>set (components d). f c = Some v}"
  by (force simp: for_components_def)

definition rule_erc005 :: "design \<Rightarrow> erc_violation list" where
  "rule_erc005 d =
     (let g = from_design d in
      for_nets d (\<lambda>n.
        if (net_name n \<in> {''I2C_SDA'', ''I2C_SCL''} \<or> contains ''i2c'' (lower (net_name n)))
           \<and> \<not> has_resistor_to_power g (net_id n) (Some pullup_values)
        then Some (mk_violation ''ERC005'' ERC_WARNING
               (''I2C net '' @ sq @ net_name n @ sq @ '' has no pull-up resistor tied to a power rail'')
               [] [net_id n]
               (Some ''Add 4.7k-10k pull-up resistors from SDA/SCL to the I2C voltage rail''))
        else None))"

definition count_pins :: "net \<Rightarrow> (string \<Rightarrow> bool) \<Rightarrow> nat" where
  "count_pins n P = count_if (\<lambda>nd. P (node_pin_name nd)) (net_nodes n)"

definition rule_erc006 :: "design \<Rightarrow> erc_violation list" where
  "rule_erc006 d =
     for_nets d (\<lambda>n.
       if contains ''mosi'' (lower (net_name n))
          \<and> count_pins n (\<lambda>p. contains ''mosi'' (lower p)) > 1
          \<and> count_pins n (\<lambda>p. contains ''miso'' (lower p)) = 0
       then Some (mk_violation ''ERC006'' ERC_ERROR
              (''MOSI connected to MOSI (should connect to MISO) on net '' @ sq @ net_name n @ sq)
              [] [net_id n]
              (Some ''Verify SPI wiring: master MOSI -> slave MOSI, master MISO <- slave MISO''))
       else None)"

definition REGULATOR_TYPE_KEYWORDS :: "string list" where
  "REGULATOR_TYPE_KEYWORDS =
     [''regulator'', ''ldo'', ''buck'', ''boost'', ''buck-boost'', ''dc-dc'', ''dcdc'', ''tlv'',
      ''tps'', ''max'', ''lt'', ''adp'', ''mic'', ''mcp'']"

definition INDUCTOR_KEYWORDS :: "string list" where
  "INDUCTOR_KEYWORDS = [''inductor'', ''choke'', ''ferrite'']"

definition is_power_source_component :: "component \<Rightarrow> string \<Rightarrow> bool" where
  "is_power_source_component c p =
     (if (case dict_get (comp_pins c) p of None \<Rightarrow> False | Some pn \<Rightarrow> pin_type pn = PIN_OUTPUT) then True
      else if contains_any REGULATOR_TYPE_KEYWORDS (lower (comp_type c)) then True
      else contains_any CONNECTOR_TYPE_KEYWORDS (lower (comp_type c)))"

definition component_type_contains :: "component \<Rightarrow> string list \<Rightarrow> bool" where
  "component_type_contains c kws = contains_any kws (lower (comp_type c))"

definition net_has_direct_power_source :: "design \<Rightarrow> net \<Rightarrow> bool" where
  "net_has_direct_power_source d n =
     list_ex (\<lambda>nd. case get_component d (node_component_ref nd) of
                     None \<Rightarrow> False
                   | Some c \<Rightarrow> is_power_source_component c (node_pin_name nd)) (net_nodes n)"

definition net_contains_component_reference :: "net \<Rightarrow> string \<Rightarrow> bool" where
  "net_contains_component_reference n r = list_ex (\<lambda>nd. node_component_ref nd = r) (net_nodes n)"

definition net_has_regulator_component :: "design \<Rightarrow> net \<Rightarrow> bool" where
  "net_has_regulator_component d n =
     list_ex (\<lambda>nd. case get_component d (node_component_ref nd) of
                     None \<Rightarrow> False
                   | Some c \<Rightarrow> component_type_contains c REGULATOR_TYPE_KEYWORDS) (net_nodes n)"

definition inductor_connects_to_regulator :: "design \<Rightarrow> string \<Rightarrow> string \<Rightarrow> bool" where
  "inductor_connects_to_regulator d src r =
     list_ex (\<lambda>other. net_id other \<noteq> src \<and> net_contains_component_reference other r
                      \<and> net_has_regulator_component d other) (nets d)"

definition power_net_has_source :: "design \<Rightarrow> string \<Rightarrow> bool" where
  "power_net_has_source d nid =
     (case dict_get (des_nets d) nid of
        None \<Rightarrow> False
      | Some n \<Rightarrow>
          if net_has_direct_power_source d n then True
          else list_ex (\<lambda>nd. case get_component d (node_component_ref nd) of
                               None \<Rightarrow> False
                             | Some c \<Rightarrow> component_type_contains c INDUCTOR_KEYWORDS
                                 \<and> inductor_connects_to_regulator d nid (node_component_ref nd))
                 (net_nodes n))"

definition rule_erc007 :: "design \<Rightarrow> erc_violation list" where
  "rule_erc007 d =
     for_nets d (\<lambda>n.
       if net_type n = NET_POWER \<and> \<not> power_net_has_source d (net_id n)
       then Some (mk_violation ''ERC007'' ERC_WARNING
              (''Power net '' @ sq @ net_name n @ sq @ '' has no driving source (output pin)'')
              [] [net_id n]
              (Some (''Connect a regulator or power source to '' @ net_name n)))
       else None)"

text \<open>A component other than \<open>c\<close> with property \<open>P\<close> on one of the nets of \<open>c\<close>.\<close>

definition other_on_nets ::
  "design \<Rightarrow> electrical_graph \<Rightarrow> component \<Rightarrow> (component \<Rightarrow> bool) \<Rightarrow> bool" where
  "other_on_nets d g c P =
     (\<exists>nid \<in> nets_for_component g (comp_ref c) \<union> nets_for_component g (comp_id c).
        list_ex (\<lambda>ep. case get_component d (ep_component_ref ep) of
                        None \<Rightarrow> False
                      | Some other \<Rightarrow> comp_ref other \<notin> {comp_ref c, comp_id c} \<and> P other)
          (endpoints g nid))"

definition rule_erc008 :: "design \<Rightarrow> erc_violation list" where
  "rule_erc008 d =
     (let g = from_design d in
      for_components d (\<lambda>c.
        if comp_type c \<notin> {''LED'', ''LED-0603'', ''LED-0805'', ''LED-0402''} then None
        else case dict_get (comp_pins c) ''ANODE'' of
               None \<Rightarrow> None
             | Some anode \<Rightarrow>
                 if pin_net anode = None \<or> pin_net anode = Some [] then None
                 else case get_net_for_pin d (comp_ref c) ''ANODE'' of
                        None \<Rightarrow> None
                      | Some nn \<Rightarrow>
                          if net_type nn \<noteq> NET_POWER then None
                          else if other_on_nets d g c (\<lambda>o'. upper (comp_type o') \<in> set res_types) then None
                          else Some (mk_violation ''ERC008'' ERC_ERROR
                                 (comp_ref c @ '' LED anode on power net without series resistor'')
                                 [comp_ref c] []
                                 (Some ''Add a current-limiting resistor (220-470 ohms) in series with the LED''))))"

definition rule_erc009 :: "design \<Rightarrow> erc_violation list" where
  "rule_erc009 d =
     for_nets d (\<lambda>n.
       if (contains ''uart'' (lower (net_name n)) \<or> contains ''tx'' (lower (net_name n)))
          \<and> count_pins n (\<lambda>p. upper p \<in> {''TX'', ''TXD'', ''TX1'', ''TX0''}) \<ge> 2
          \<and> count_pins n (\<lambda>p. upper p \<in> {''RX'', ''RXD'', ''RX1'', ''RX0''}) = 0
       then Some (mk_violation ''ERC009'' ERC_ERROR
              (''TX connected to TX on net '' @ sq @ net_name n @ sq @ '' (should connect TX to RX)'')
              [] [net_id n] (Some ''Connect UART TX to RX, not TX to TX''))
       else None)"

section \<open>ERC010 to ERC013\<close>

definition is_crystal_component :: "component \<Rightarrow> bool" where
  "is_crystal_component c =
     contains_any [''xtal'', ''crystal'', ''32khz'', ''32.768khz''] (lower (comp_type c))"

definition connected_capacitor_count :: "design \<Rightarrow> component \<Rightarrow> nat" where
  "connected_capacitor_count d c =
     sum_list (map (\<lambda>n.
       count_if (\<lambda>nd. node_component_ref nd \<noteq> comp_ref c
                      \<and> (case get_component d (node_component_ref nd) of
                           None \<Rightarrow> False
                         | Some other \<Rightarrow> lower (comp_type other) \<in> {''cap'', ''capacitor''})) (net_nodes n))
       (filter (\<lambda>n. list_ex (\<lambda>nd. node_component_ref nd = comp_ref c) (net_nodes n)) (nets d)))"

definition erc010_violation :: "design \<Rightarrow> component \<Rightarrow> erc_violation option" where
  "erc010_violation d c =
     (if \<not> is_crystal_component c \<or> connected_capacitor_count d c \<ge> 2 then None
      else Some (mk_violation ''ERC010'' ERC_WARNING
             (comp_ref c @ '' ('' @ comp_type c @ '') may be missing load capacitors'')
             [comp_ref c] [] (Some ''Add 12-22pF load capacitors between crystal pins and ground'')))"

definition rule_erc010 :: "design \<Rightarrow> erc_violation list" where
  "rule_erc010 d = for_components d (erc010_violation d)"

definition is_esd :: "component \<Rightarrow> bool" where
  "is_esd c =
     (let t = upper (comp_type c) in
      t \<in> {''ESD'', ''TVS'', ''ESD_PROTECTION''} \<or> contains ''USBLC'' t \<or> contains ''ESD'' t \<or> contains ''TVS'' t)"

definition rule_erc011 :: "design \<Rightarrow> erc_violation list" where
  "rule_erc011 d =
     (let g = from_design d in
      for_components d (\<lambda>c.
        if \<not> contains ''usb'' (lower (comp_type c)) \<or> is_esd c then None
        else if other_on_nets d g c is_esd then None
        else Some (mk_violation ''ERC011'' ERC_INFO
               (comp_ref c @ '' ('' @ comp_type c @ '') has no ESD protection on its lines'')
               [comp_ref c] []
               (Some ''Add ESD protection diodes (e.g., USBLC6-2) on D+/D- lines''))))"

definition rule_erc012 :: "design \<Rightarrow> erc_violation list" where
  "rule_erc012 d =
     for_nets d (\<lambda>n.
       if length (net_nodes n) < 2
       then Some (mk_violation ''ERC012'' ERC_WARNING
              (''Net '' @ sq @ net_name n @ sq @ '' has only '' @ str_of_nat (length (net_nodes n))
               @ '' connected pin(s)'')
              [] [net_id n]
              (Some (''Connect more components to '' @ sq @ net_name n @ sq @ '' or remove unused net'')))
       else None)"

definition rule_erc013 :: "design \<Rightarrow> erc_violation list" where
  "rule_erc013 d =
     for_components d (\<lambda>c.
       if comp_type c \<in> {''CAP-ELEC'', ''cap-electrolytic-5mm''}
          \<or> contains ''electrolytic'' (lower (comp_type c))
       then Some (mk_violation ''ERC013'' ERC_WARNING
              (comp_ref c @ '' is a polarized capacitor '' @ em_dash @ '' verify correct polarity'')
              [comp_ref c] []
              (Some ''Ensure positive pin connects to higher potential and negative to GND''))
       else None)"

section \<open>ERC015 to ERC020\<close>

definition rule_erc015 :: "design \<Rightarrow> erc_violation list" where
  "rule_erc015 d =
     (let gnds = filter (\<lambda>n. net_type n = NET_GROUND) (nets d) in
      if length gnds > 1
      then [mk_violation ''ERC015'' ERC_ERROR
             (''Multiple ground nets found: '' @ repr_str_list (map net_name gnds)
              @ ''. All grounds must be connected.'')
             [] (map net_id gnds)
             (Some ''Join all ground nets into a single GND net or use a 0-ohm jumper'')]
      else [])"

definition RESET_PIN_NAMES :: "string list" where
  "RESET_PIN_NAMES = [''NRST'', ''RESET'', ''RST'', ''nRESET'', ''RSTB'', ''RUN'']"

text \<open>\<^verbatim>\<open>design.nets.get(i) or next((n for n in design.nets.values() if n.name == i), None)\<close>.\<close>

definition net_by_id_or_name :: "design \<Rightarrow> string \<Rightarrow> net option" where
  "net_by_id_or_name d i =
     (case dict_get (des_nets d) i of
        Some n \<Rightarrow> Some n
      | None \<Rightarrow> find (\<lambda>n. net_name n = i) (nets d))"

definition reset_pin_violation ::
  "design \<Rightarrow> electrical_graph \<Rightarrow> component \<Rightarrow> string \<Rightarrow> pin \<Rightarrow> erc_violation option" where
  "reset_pin_violation d g c p pn =
     (case pin_net pn of
        None \<Rightarrow> None
      | Some i \<Rightarrow>
          if p \<notin> set RESET_PIN_NAMES \<or> i = [] then None
          else case net_by_id_or_name d i of
                 None \<Rightarrow> None
               | Some n \<Rightarrow>
                   if net_type n = NET_POWER \<or> has_resistor_to_power g (net_id n) None then None
                   else Some (mk_violation ''ERC016'' ERC_INFO
                          (comp_ref c @ ''.'' @ p
                           @ '' reset pin is not held high (no pull-up or rail tie)'')
                          [comp_ref c] []
                          (Some (''Add a 10k pull-up resistor from '' @ p @ '' to VCC''))))"

definition rule_erc016 :: "design \<Rightarrow> erc_violation list" where
  "rule_erc016 d = (let g = from_design d in for_pins d (reset_pin_violation d g))"

definition rule_erc017 :: "design \<Rightarrow> erc_violation list" where
  "rule_erc017 d =
     concat (map (\<lambda>(r, cnt).
       if cnt > 1 then
         (let ids = map comp_id (filter (\<lambda>c. comp_ref c = r) (components d)) in
          [mk_violation ''ERC017'' ERC_ERROR
             (''Reference '' @ sq @ r @ sq @ '' is used '' @ str_of_nat cnt @ '' times (IDs: ''
              @ repr_str_list ids @ '')'')
             ids []
             (Some (''Rename duplicate references to unique values (e.g., '' @ r @ ''_A, '' @ r @ ''_B)''))])
       else []) (counter_items (map comp_ref (components d))))"

definition rule_erc018 :: "design \<Rightarrow> erc_violation list" where
  "rule_erc018 d =
     for_nets d (\<lambda>n.
       if contains_any [''uart'', ''i2c'', ''swd'', ''spi''] (lower (net_name n))
          \<and> \<not> list_ex (\<lambda>nd. case get_component d (node_component_ref nd) of
                               None \<Rightarrow> False
                             | Some c \<Rightarrow> contains ''tp'' (lower (comp_ref c))) (net_nodes n)
       then Some (mk_violation ''ERC018'' ERC_INFO
              (''Net '' @ sq @ net_name n @ sq @ '' ('' @ net_type_value (net_type n) @ '') has no test point'')
              [] [net_id n]
              (Some (''Add a test point (TP) on '' @ net_name n @ '' for debugging'')))
       else None)"

text \<open>\<^verbatim>\<open>[^a-zA-Z0-9_+\-\.]\<close> occurs in the name.\<close>

definition invalid_net_name :: "string \<Rightarrow> bool" where
  "invalid_net_name s = list_ex (\<lambda>c. \<not> is_alnum c \<and> c \<notin> set ''_+-.'') s"

definition rule_erc019 :: "design \<Rightarrow> erc_violation list" where
  "rule_erc019 d =
     for_nets d (\<lambda>n.
       if invalid_net_name (net_name n)
       then Some (mk_violation ''ERC019'' ERC_INFO
              (''Net name '' @ sq @ net_name n @ sq @ '' contains illegal characters'')
              [] [net_id n]
              (Some ''Use only letters, digits, underscores, and hyphens in net names''))
       else None)"

definition rule_erc020 :: "design \<Rightarrow> erc_violation list" where
  "rule_erc020 d =
     for_components d (\<lambda>c.
       if comp_footprint c = []
       then Some (mk_violation ''ERC020'' ERC_WARNING
              (comp_ref c @ '' ('' @ comp_type c @ '') has no footprint assigned'')
              [comp_ref c] [] (Some (''Assign a footprint to '' @ comp_ref c)))
       else None)"

section \<open>ERC021 to ERC025\<close>

definition USBC_TYPE_KEYWORDS :: "string list" where
  "USBC_TYPE_KEYWORDS = [''usb-c'', ''usbc'', ''usb_c'', ''type-c'', ''typec'', ''usb_type_c'']"

definition USBC_CC_RD_VALUES :: "string list" where
  "USBC_CC_RD_VALUES = [''5.1k'', ''5k1'', ''5.1K'', ''5K1'']"

text \<open>
  \<^verbatim>\<open>(?<![a-z0-9])(?:cs|ss|nss|csb|ssel|ncs)\d*(?![a-z0-9])\<close>, ignoring case. Giving back
  a digit of \<^verbatim>\<open>\d*\<close> leaves an alphanumeric next character, so only the maximal run of
  digits can match.
\<close>

definition cs_match_here :: "string \<Rightarrow> bool" where
  "cs_match_here s =
     list_ex (\<lambda>k. prefix k (lower s)
                  \<and> (case dropWhile is_digit (drop (length k) s) of [] \<Rightarrow> True | c # _ \<Rightarrow> \<not> is_alnum c))
       [''cs'', ''ss'', ''nss'', ''csb'', ''ssel'', ''ncs'']"

fun cs_search :: "bool \<Rightarrow> string \<Rightarrow> bool" where
  "cs_search boundary [] = False"
| "cs_search boundary (c # cs) =
     ((boundary \<and> cs_match_here (c # cs)) \<or> cs_search (\<not> is_alnum c) cs)"

definition cs_net_name :: "string \<Rightarrow> bool" where
  "cs_net_name s = cs_search True s"

definition CS_PULLUP_VALUES :: "string list" where
  "CS_PULLUP_VALUES = [''10k'', ''4.7k'', ''47k'', ''22k'', ''100k'', ''1k'']"

definition rule_erc021 :: "design \<Rightarrow> erc_violation list" where
  "rule_erc021 d =
     (let g = from_design d in
      for_pins d (\<lambda>c p pn.
        if \<not> contains_any USBC_TYPE_KEYWORDS (lower (comp_type c)) \<or> upper p \<notin> {''CC'', ''CC1'', ''CC2''}
        then None
        else case get_net_for_pin d (comp_ref c) p of
               None \<Rightarrow> None
             | Some n \<Rightarrow>
                 if has_resistor_to_power g (net_id n) (Some USBC_CC_RD_VALUES) then None
                 else Some (mk_violation ''ERC021'' ERC_WARNING
                        (comp_ref c @ ''.'' @ p @ '' (USB-C CC) has no termination resistor'')
                        [comp_ref c] [net_id n]
                        (Some ''Add a 5.1k resistor from each CC pin to GND (sink/UFP), or Rp for a source''))))"

definition rule_erc022 :: "design \<Rightarrow> erc_violation list" where
  "rule_erc022 d =
     (let g = from_design d in
      for_nets d (\<lambda>n.
        if net_type n \<in> {NET_POWER, NET_GROUND} then None
        else if \<not> cs_net_name (net_name n) then None
        else if has_resistor_to_power g (net_id n) (Some CS_PULLUP_VALUES) then None
        else Some (mk_violation ''ERC022'' ERC_INFO
               (''SPI chip-select net '' @ sq @ net_name n @ sq @ '' has no idle pull-up resistor'')
               [] [net_id n] (Some ''Add a 10k-100k pull-up from the CS net to its logic rail''))))"

definition pin_net_of :: "design \<Rightarrow> component \<Rightarrow> string \<Rightarrow> pin \<Rightarrow> net option" where
  "pin_net_of d c p pn =
     (case pin_net pn of
        None \<Rightarrow> get_net_for_pin d (comp_ref c) p
      | Some i \<Rightarrow>
          if i = [] then get_net_for_pin d (comp_ref c) p
          else case net_by_id_or_name d i of
                 Some n \<Rightarrow> Some n
               | None \<Rightarrow> get_net_for_pin d (comp_ref c) p)"

definition erc023_violation ::
  "design \<Rightarrow> electrical_graph \<Rightarrow> component \<Rightarrow> string \<Rightarrow> pin \<Rightarrow> erc_violation option" where
  "erc023_violation d g c p pn =
     (if pin_type pn \<noteq> PIN_NO_CONNECT then None
      else case pin_net_of d c p pn of
             None \<Rightarrow> None
           | Some n \<Rightarrow>
               (let others = filter (\<lambda>ep. \<not> (ep_component_ref ep \<in> {comp_ref c, comp_id c} \<and> ep_pin_name ep = p))
                               (endpoints g (net_id n)) in
                if others = [] then None
                else Some (mk_violation ''ERC023'' ERC_WARNING
                       (comp_ref c @ ''.'' @ p @ '' is a no-connect pin but is wired to ''
                        @ str_join '', '' (sorted_set (map ep_component_ref others)))
                       [comp_ref c] [net_id n]
                       (Some (''Leave '' @ comp_ref c @ ''.'' @ p
                              @ '' unconnected unless the datasheet says otherwise'')))))"

definition rule_erc023 :: "design \<Rightarrow> erc_violation list" where
  "rule_erc023 d = (let g = from_design d in for_pins d (erc023_violation d g))"

definition RS485_TYPE_KEYWORDS :: "string list" where
  "RS485_TYPE_KEYWORDS =
     [''rs485'', ''rs-485'', ''sp3485'', ''max485'', ''sn75176'', ''lt1785'', ''max3485'']"

text \<open>
  \<^verbatim>\<open>^(?:de|re|oe|nre|de_re|driver_enable|receiver_enable)$\<close>, ignoring case; \<^verbatim>\<open>$\<close> also
  matches before one final newline.
\<close>

definition drop_final_newline :: "string \<Rightarrow> string" where
  "drop_final_newline s =
     (if s \<noteq> [] \<and> (of_char (last s) :: nat) = 10 then butlast s else s)"

definition rs485_de_re :: "string \<Rightarrow> bool" where
  "rs485_de_re p =
     (let names = {''de'', ''re'', ''oe'', ''nre'', ''de_re'', ''driver_enable'', ''receiver_enable''}
      in lower p \<in> names \<or> lower (drop_final_newline p) \<in> names)"

definition RS485_PULL_VALUES :: "string list" where
  "RS485_PULL_VALUES = [''1k'', ''4.7k'', ''10k'', ''22k'', ''47k'', ''100k'']"

definition is_rs485_component :: "component \<Rightarrow> bool" where
  "is_rs485_component c = contains_any RS485_TYPE_KEYWORDS (lower (comp_type c))"

definition erc024_violation ::
  "design \<Rightarrow> electrical_graph \<Rightarrow> component \<Rightarrow> string \<Rightarrow> erc_violation option" where
  "erc024_violation d g c p =
     (case get_net_for_pin d (comp_ref c) p of
        None \<Rightarrow> Some (mk_violation ''ERC024'' ERC_ERROR
                 (comp_ref c @ ''.'' @ p @ '' (RS485 direction control) is unconnected and will float'')
                 [comp_ref c] []
                 (Some (''Pull '' @ comp_ref c @ ''.'' @ p @ '' to a defined level via a 10k resistor'')))
      | Some n \<Rightarrow>
          if is_power_net g (net_id n) \<or> has_resistor_to_power g (net_id n) (Some RS485_PULL_VALUES) then None
          else Some (mk_violation ''ERC024'' ERC_WARNING
                 (comp_ref c @ ''.'' @ p
                  @ '' (RS485 direction control) has no pull resistor; direction is undefined at power-up'')
                 [comp_ref c] [net_id n]
                 (Some (''Add a 10k pull-up or pull-down to fix the idle bus direction for '' @ p))))"

definition rule_erc024 :: "design \<Rightarrow> erc_violation list" where
  "rule_erc024 d =
     (let g = from_design d in
      for_pins d (\<lambda>c p pn. if is_rs485_component c \<and> rs485_de_re p then erc024_violation d g c p else None))"

definition peripheral_refs :: "design \<Rightarrow> pin_endpoint list \<Rightarrow> string list" where
  "peripheral_refs d eps =
     option_list (map (\<lambda>ep. case get_component d (ep_component_ref ep) of
                              None \<Rightarrow> None
                            | Some c \<Rightarrow> if contains_any PASSIVE_TYPE_KEYWORDS (lower (comp_type c)) then None
                                        else Some (comp_ref c)) eps)"

definition rule_erc025 :: "design \<Rightarrow> erc_violation list" where
  "rule_erc025 d =
     (let g = from_design d in
      for_nets d (\<lambda>n.
        if net_type n \<in> {NET_POWER, NET_GROUND} then None
        else if \<not> cs_net_name (net_name n) then None
        else (let refs = peripheral_refs d (endpoints g (net_id n)) in
              if length refs > 2
              then Some (mk_violation ''ERC025'' ERC_ERROR
                     (''SPI chip-select net '' @ sq @ net_name n @ sq @ '' connects to ''
                      @ str_of_nat (length refs) @ '' non-passive components (''
                      @ str_join '', '' refs @ ''); each SPI slave needs its own CS net'')
                     refs [net_id n]
                     (Some (''Route separate CS nets '' @ em_dash @ '' one per SPI peripheral ''
                            @ em_dash @ '' from the MCU'')))
              else None)))"

section \<open>ERC026, ERC027, ERC029\<close>

definition LIPO_BATT_KEYWORDS :: "string list" where
  "LIPO_BATT_KEYWORDS = [''battery'', ''batt'', ''lipo'', ''li-ion'', ''liion'', ''cell'']"

definition LIPO_PROT_KEYWORDS :: "string list" where
  "LIPO_PROT_KEYWORDS =
     [''dw01'', ''bq2'', ''ap9101'', ''s8261'', ''mcp73'', ''tc4056'', ''ip5306'', ''lp2771'', ''protection'']"

definition rule_erc026 :: "design \<Rightarrow> erc_violation list" where
  "rule_erc026 d =
     (let refs = map comp_ref (filter (\<lambda>c. contains_any LIPO_BATT_KEYWORDS (lower (comp_type c))) (components d)) in
      if refs = [] then []
      else if list_ex (\<lambda>c. contains_any LIPO_PROT_KEYWORDS (lower (comp_type c))) (components d) then []
      else [mk_violation ''ERC026'' ERC_WARNING
              (''Li-ion/LiPo battery ('' @ str_join '', '' refs @ '') detected but no protection IC found; ''
               @ ''overdischarge or overcurrent can permanently damage the cell'')
              refs []
              (Some (''Add a protection IC (e.g. DW01A + FS8205A) or a charger with built-in protection ''
                     @ ''(e.g. BQ24xxx, MCP73xxx)''))])"

definition rule_erc027 :: "design \<Rightarrow> erc_violation list" where
  "rule_erc027 d =
     for_nets d (\<lambda>n.
       if net_type n = NET_GROUND then None
       else if net_type n \<noteq> NET_POWER then None
       else if \<not> power_net_has_source d (net_id n)
       then Some (mk_violation ''ERC027'' ERC_WARNING
              (''Power net '' @ sq @ net_name n @ sq
               @ '' has no identified driving source (no regulator, output pin, or connector on this net)'')
              [] [net_id n]
              (Some (''Verify that '' @ sq @ net_name n @ sq
                     @ '' is fed by a regulator, power-source output, or external connector'')))
       else None)"

definition net_components_of_types :: "design \<Rightarrow> net \<Rightarrow> string list \<Rightarrow> component list" where
  "net_components_of_types d n types =
     option_list (map (\<lambda>nd. case get_component d (node_component_ref nd) of
                              None \<Rightarrow> None
                            | Some c \<Rightarrow> if upper (comp_type c) \<in> set types then Some c else None) (net_nodes n))"

definition erc029_power_violation :: "design \<Rightarrow> net \<Rightarrow> erc_violation option" where
  "erc029_power_violation d n =
     (if net_type n \<noteq> NET_POWER then None
      else (let caps = net_components_of_types d n CAP_TYPES in
            if caps = [] \<or> \<not> list_all comp_dnp caps then None
            else Some (mk_violation ''ERC029'' ERC_WARNING
                   (''All decoupling capacitors on power net '' @ sq @ net_name n @ sq @ '' are DNP ''
                    @ em_dash @ '' no decoupling in the populated variant'')
                   (map comp_ref caps) [net_id n]
                   (Some ''Review DNP assignments: at least one decoupling cap per power rail must be populated''))))"

definition erc029_i2c_violation :: "design \<Rightarrow> net \<Rightarrow> erc_violation option" where
  "erc029_i2c_violation d n =
     (if \<not> is_i2c_net n then None
      else (let pullups = net_components_of_types d n res_types in
            if pullups = [] \<or> \<not> list_all comp_dnp pullups then None
            else Some (mk_violation ''ERC029'' ERC_ERROR
                   (''I2C net '' @ sq @ net_name n @ sq @ '' has all pull-up resistors DNP '' @ em_dash
                    @ '' bus will not work'')
                   (map comp_ref pullups) [net_id n]
                   (Some ''Ensure at least one pull-up resistor per I2C line is populated in all variants''))))"

definition rule_erc029 :: "design \<Rightarrow> erc_violation list" where
  "rule_erc029 d =
     (if \<not> list_ex comp_dnp (components d) then []
      else concat (map (\<lambda>n. option_list [erc029_power_violation d n, erc029_i2c_violation d n]) (nets d)))"

end
