(* ===== verification/ERC_Runner.thy ===== *)
theory ERC_Runner
  imports ERC_Rules
begin

text \<open>
  \<^verbatim>\<open>src/zaptrace/erc/runner.py\<close>: the rule table and \<open>ERCRunner.run\<close>. A rule that
  raises is recorded as an \<open>ERC_INTERNAL\<close> error. The contract every rule keeps (its
  own id, its declared severities, never waived) is the locale \<open>erc_rule\<close>,
  interpreted for each rule of the table; \<open>violations_passed\<close> and
  \<open>erc_run_passed\<close> rest on those interpretations.
\<close>

section \<open>The runner\<close>

record rule_spec =
  rs_rule_id :: string
  rs_title :: string
  rs_category :: string
  rs_fn_name :: string
  rs_fn :: "design \<Rightarrow> erc_violation list result"

definition mk_spec ::
  "string \<Rightarrow> string \<Rightarrow> string \<Rightarrow> string \<Rightarrow> (design \<Rightarrow> erc_violation list result) \<Rightarrow> rule_spec" where
  "mk_spec rid title cat fname f =
     \<lparr> rs_rule_id = rid, rs_title = title, rs_category = cat, rs_fn_name = fname, rs_fn = f \<rparr>"

definition total_rule :: "(design \<Rightarrow> erc_violation list) \<Rightarrow> design \<Rightarrow> erc_violation list result" where
  "total_rule f d = Inr (f d)"

text \<open>The table, with the functions of rules 014 and 028 as arguments.\<close>

definition ALL_RULES ::
  "(design \<Rightarrow> erc_violation list result) \<Rightarrow> (design \<Rightarrow> erc_violation list result) \<Rightarrow> rule_spec list" where
  "ALL_RULES erc014 erc028 =
     [mk_spec ''ERC001'' ''Power pin without a net'' ''connectivity'' ''rule_erc001'' (total_rule rule_erc001),
      mk_spec ''ERC002'' ''Floating input pin'' ''connectivity'' ''rule_erc002'' (total_rule rule_erc002),
      mk_spec ''ERC003'' ''IC decoupling capacitor present'' ''power'' ''rule_erc003'' rule_erc003,
      mk_spec ''ERC004'' ''Duplicate net names'' ''naming'' ''rule_erc004'' (total_rule rule_erc004),
      mk_spec ''ERC005'' ''I2C pull-up resistors'' ''interface'' ''rule_erc005'' (total_rule rule_erc005),
      mk_spec ''ERC006'' ''SPI MOSI/MISO orientation'' ''interface'' ''rule_erc006'' (total_rule rule_erc006),
      mk_spec ''ERC007'' ''Power net has a driver'' ''power'' ''rule_erc007'' (total_rule rule_erc007),
      mk_spec ''ERC008'' ''LED series resistor'' ''analog'' ''rule_erc008'' (total_rule rule_erc008),
      mk_spec ''ERC009'' ''UART TX/RX orientation'' ''interface'' ''rule_erc009'' (total_rule rule_erc009),
      mk_spec ''ERC010'' ''Crystal load capacitors'' ''clock'' ''rule_erc010'' (total_rule rule_erc010),
      mk_spec ''ERC011'' ''Connector ESD protection'' ''protection'' ''rule_erc011'' (total_rule rule_erc011),
      mk_spec ''ERC012'' ''Single-pin (unconnected) net'' ''connectivity'' ''rule_erc012'' (total_rule rule_erc012),
      mk_spec ''ERC013'' ''Polarized component polarity'' ''polarity'' ''rule_erc013'' (total_rule rule_erc013),
      mk_spec ''ERC014'' ''Voltage-domain mismatch on net'' ''power'' ''rule_erc014'' erc014,
      mk_spec ''ERC015'' ''Disjoint ground nets'' ''power'' ''rule_erc015'' (total_rule rule_erc015),
      mk_spec ''ERC016'' ''Reset pin pull-up'' ''reset/boot'' ''rule_erc016'' (total_rule rule_erc016),
      mk_spec ''ERC017'' ''Duplicate component references'' ''naming'' ''rule_erc017'' (total_rule rule_erc017),
      mk_spec ''ERC018'' ''Debug/protocol test points'' ''test'' ''rule_erc018'' (total_rule rule_erc018),
      mk_spec ''ERC019'' ''Illegal characters in net name'' ''naming'' ''rule_erc019'' (total_rule rule_erc019),
      mk_spec ''ERC020'' ''Component footprint assigned'' ''manufacturing'' ''rule_erc020'' (total_rule rule_erc020),
      mk_spec ''ERC021'' ''USB-C CC termination resistors'' ''interface'' ''rule_erc021'' (total_rule rule_erc021),
      mk_spec ''ERC022'' ''SPI chip-select idle pull-up'' ''interface'' ''rule_erc022'' (total_rule rule_erc022),
      mk_spec ''ERC023'' ''No-connect pin wired'' ''connectivity'' ''rule_erc023'' (total_rule rule_erc023),
      mk_spec ''ERC024'' ''RS485 direction control defined state'' ''interface'' ''rule_erc024'' (total_rule rule_erc024),
      mk_spec ''ERC025'' ''SPI chip-select uniqueness per peripheral'' ''interface'' ''rule_erc025'' (total_rule rule_erc025),
      mk_spec ''ERC026'' ''Li-ion/LiPo battery protection IC'' ''protection'' ''rule_erc026'' (total_rule rule_erc026),
      mk_spec ''ERC027'' (''Power-tree completeness '' @ em_dash @ '' every power net needs a source'') ''power''
        ''rule_erc027'' (total_rule rule_erc027),
      mk_spec ''ERC028'' ''Regulator headroom and current budget'' ''power'' ''rule_erc028'' erc028,
      mk_spec ''ERC029'' ''DNP/variant-aware ERC'' ''manufacturing'' ''rule_erc029'' (total_rule rule_erc029)]"

definition ERC_COVERAGE_GAPS :: "string list" where
  "ERC_COVERAGE_GAPS =
     [''Decoupling (ERC003) is checked at net-ownership level, not by physical ''
      @ ''pin-to-capacitor distance (requires placement data).'',
      ''IC and pin-function detection is structural/heuristic, not datasheet-grounded.'',
      ''Return-path continuity and decoupling-distance ownership are not yet checked.'',
      ''RS485 (ERC024) and LiPo protection (ERC026) use keyword heuristics, not datasheet pin maps.'',
      ''Current-budget (ERC028) uses value-string heuristics '' @ em_dash
      @ '' datasheet-grounded consumption would be more precise.'']"

definition rule_violations :: "design \<Rightarrow> rule_spec \<Rightarrow> erc_violation list" where
  "rule_violations d spec =
     (case rs_fn spec d of
        Inr vs \<Rightarrow> vs
      | Inl exc \<Rightarrow> [mk_violation ''ERC_INTERNAL'' ERC_ERROR
                      (''Rule '' @ rs_rule_id spec @ '' ('' @ rs_fn_name spec @ '') raised: '' @ exc_str exc)
                      [] [] None])"

definition run_rules :: "rule_spec list \<Rightarrow> design \<Rightarrow> erc_result" where
  "run_rules specs d =
     from_violations
       (concat (map (rule_violations d) specs))
       (meta_name (des_meta d))
       (map (\<lambda>s. \<lparr> chk_rule_id = rs_rule_id s, chk_title = rs_title s, chk_category = rs_category s,
                    chk_violation_count = length (rule_violations d s) \<rparr>) specs)
       ERC_COVERAGE_GAPS"

definition erc_run ::
  "(design \<Rightarrow> erc_violation list result) \<Rightarrow> (design \<Rightarrow> erc_violation list result) \<Rightarrow> design \<Rightarrow> erc_result" where
  "erc_run erc014 erc028 d = run_rules (ALL_RULES erc014 erc028) d"

lemma rs_sel [simp]:
  "rs_rule_id (mk_spec r t c n f) = r" "rs_title (mk_spec r t c n f) = t"
  "rs_category (mk_spec r t c n f) = c" "rs_fn_name (mk_spec r t c n f) = n"
  "rs_fn (mk_spec r t c n f) = f"
  by (simp_all add: mk_spec_def)

section \<open>The contract of a rule\<close>

definition blocking :: "erc_violation \<Rightarrow> bool" where
  "blocking v = (\<not> is_waived v \<and> v_severity v = ERC_ERROR)"

lemma blocking_mk [simp]: "blocking (mk_violation r s m cs ns p) \<longleftrightarrow> s = ERC_ERROR"
  by (simp add: blocking_def)

definition no_blocking :: "design \<Rightarrow> (design \<Rightarrow> erc_violation list result) \<Rightarrow> bool" where
  "no_blocking d f = (case f d of Inl _ \<Rightarrow> False | Inr vs \<Rightarrow> \<not> list_ex blocking vs)"

definition conforms :: "string \<Rightarrow> erc_severity set \<Rightarrow> erc_violation \<Rightarrow> bool" where
  "conforms rid sevs v = (v_rule_id v = rid \<and> v_severity v \<in> sevs \<and> \<not> is_waived v)"

locale erc_rule =
  fixes rid :: string
    and sevs :: "erc_severity set"
    and fn :: "design \<Rightarrow> erc_violation list result"
  assumes reports: "fn d = Inr vs \<Longrightarrow> list_all (conforms rid sevs) vs"
begin

text \<open>A rule without error severity blocks a design only by raising.\<close>

lemma no_error_unless_raise:
  assumes "ERC_ERROR \<notin> sevs"
  shows "no_blocking d fn \<longleftrightarrow> is_ok (fn d)"
proof (cases "fn d")
  case (Inl e)
  then show ?thesis by (simp add: no_blocking_def)
next
  case (Inr vs)
  then show ?thesis
    using assms reports [OF Inr]
    by (auto simp: no_blocking_def list_all_iff list_ex_iff conforms_def blocking_def)
qed

text \<open>A rule with error severity only blocks exactly when it reports something.\<close>

lemma error_iff_nonempty:
  assumes "sevs = {ERC_ERROR}"
  shows "no_blocking d fn \<longleftrightarrow> fn d = Inr []"
proof (cases "fn d")
  case (Inl e)
  then show ?thesis by (simp add: no_blocking_def)
next
  case (Inr vs)
  then show ?thesis
    using assms reports [OF Inr] by (cases vs) (simp_all add: no_blocking_def conforms_def blocking_def)
qed

text \<open>What a rule reports under its own id is what the runner attributes to it.\<close>

lemma violations_of_rule:
  assumes "v \<in> set (rule_violations d (mk_spec rid t c n fn))"
  shows "v_rule_id v \<in> {rid, ''ERC_INTERNAL''} \<and> \<not> is_waived v"
proof (cases "fn d")
  case (Inl e)
  then show ?thesis using assms by (simp add: rule_violations_def)
next
  case (Inr vs)
  then show ?thesis
    using assms reports [OF Inr] by (auto simp: rule_violations_def list_all_iff conforms_def)
qed

end

lemma conforms_mk [simp]:
  "conforms rid sevs (mk_violation r s m cs ns f) \<longleftrightarrow> r = rid \<and> s \<in> sevs"
  by (simp add: conforms_def)

lemma erc_rule_total:
  assumes "\<And>d. list_all (conforms rid sevs) (f d)"
  shows "erc_rule rid sevs (total_rule f)"
  using assms by unfold_locales (auto simp: total_rule_def)

lemma list_all_for_pins:
  "(\<And>c p pn. pred_option P (f c p pn)) \<Longrightarrow> list_all P (for_pins d f)"
  by (force simp: list_all_iff set_for_pins option.pred_set)

lemma list_all_for_nets: "(\<And>n. pred_option P (f n)) \<Longrightarrow> list_all P (for_nets d f)"
  by (force simp: list_all_iff set_for_nets option.pred_set)

lemma list_all_for_components: "(\<And>c. pred_option P (f c)) \<Longrightarrow> list_all P (for_components d f)"
  by (force simp: list_all_iff set_for_components option.pred_set)

lemma list_all_concat_map: "(\<And>x. list_all P (f x)) \<Longrightarrow> list_all P (concat (map f xs))"
  by (induction xs) simp_all

lemma list_all_option_list: "list_all (pred_option P) xs \<Longrightarrow> list_all P (option_list xs)"
  by (force simp: list_all_iff option.pred_set)

lemmas list_all_rule =
  list_all_for_pins list_all_for_nets list_all_for_components list_all_concat_map

lemma set_collect_results:
  "collect_results rs = Inr vs \<Longrightarrow> set vs = {v. Inr (Some v) \<in> set rs}"
  by (induction rs arbitrary: vs rule: collect_results.induct)
     (auto split: sum.splits option.splits)

lemma collect_results_ok: "is_ok (collect_results rs) \<longleftrightarrow> (\<forall>r\<in>set rs. is_ok r)"
  by (induction rs rule: collect_results.induct) (auto split: sum.splits)

lemma erc003_violation_shape:
  "erc003_violation d c cs u g l = Inr (Some v) \<Longrightarrow> conforms ''ERC003'' {ERC_WARNING} v"
  by (auto simp: erc003_violation_def Let_def split: if_splits sum.splits)

lemma erc003_reports:
  "rule_erc003 d = Inr vs \<Longrightarrow> list_all (conforms ''ERC003'' {ERC_WARNING}) vs"
  by (auto simp: rule_erc003_def case_prod_beta Let_def list_all_iff
           dest!: set_collect_results sym [of "Inr _"] erc003_violation_shape)

interpretation erc001: erc_rule "''ERC001''" "{ERC_ERROR}" "total_rule rule_erc001"
  by (rule erc_rule_total)
     (simp add: rule_erc001_def Let_def list_all_rule split: option.split)

interpretation erc002: erc_rule "''ERC002''" "{ERC_WARNING}" "total_rule rule_erc002"
  by (rule erc_rule_total)
     (simp add: rule_erc002_def Let_def list_all_rule split: option.split)

interpretation erc003: erc_rule "''ERC003''" "{ERC_WARNING}" rule_erc003
  by unfold_locales (rule erc003_reports)

interpretation erc004: erc_rule "''ERC004''" "{ERC_ERROR}" "total_rule rule_erc004"
  by (rule erc_rule_total) (auto simp: rule_erc004_def Let_def intro!: list_all_concat_map)

interpretation erc005: erc_rule "''ERC005''" "{ERC_WARNING}" "total_rule rule_erc005"
  by (rule erc_rule_total)
     (simp add: rule_erc005_def Let_def list_all_rule split: option.split)

interpretation erc006: erc_rule "''ERC006''" "{ERC_ERROR}" "total_rule rule_erc006"
  by (rule erc_rule_total)
     (simp add: rule_erc006_def Let_def list_all_rule split: option.split)

interpretation erc007: erc_rule "''ERC007''" "{ERC_WARNING}" "total_rule rule_erc007"
  by (rule erc_rule_total)
     (simp add: rule_erc007_def Let_def list_all_rule split: option.split)

interpretation erc008: erc_rule "''ERC008''" "{ERC_ERROR}" "total_rule rule_erc008"
  by (rule erc_rule_total)
     (simp add: rule_erc008_def Let_def list_all_rule split: option.split)

interpretation erc009: erc_rule "''ERC009''" "{ERC_ERROR}" "total_rule rule_erc009"
  by (rule erc_rule_total)
     (simp add: rule_erc009_def Let_def list_all_rule split: option.split)

interpretation erc010: erc_rule "''ERC010''" "{ERC_WARNING}" "total_rule rule_erc010"
  by (rule erc_rule_total)
     (simp add: rule_erc010_def Let_def list_all_rule erc010_violation_def split: option.split)

interpretation erc011: erc_rule "''ERC011''" "{ERC_INFO}" "total_rule rule_erc011"
  by (rule erc_rule_total)
     (simp add: rule_erc011_def Let_def list_all_rule split: option.split)

interpretation erc012: erc_rule "''ERC012''" "{ERC_WARNING}" "total_rule rule_erc012"
  by (rule erc_rule_total)
     (simp add: rule_erc012_def Let_def list_all_rule split: option.split)

interpretation erc013: erc_rule "''ERC013''" "{ERC_WARNING}" "total_rule rule_erc013"
  by (rule erc_rule_total)
     (simp add: rule_erc013_def Let_def list_all_rule split: option.split)

interpretation erc015: erc_rule "''ERC015''" "{ERC_ERROR}" "total_rule rule_erc015"
  by (rule erc_rule_total) (simp add: rule_erc015_def Let_def)

interpretation erc016: erc_rule "''ERC016''" "{ERC_INFO}" "total_rule rule_erc016"
  by (rule erc_rule_total)
     (simp add: rule_erc016_def Let_def list_all_rule reset_pin_violation_def split: option.split)

interpretation erc017: erc_rule "''ERC017''" "{ERC_ERROR}" "total_rule rule_erc017"
  by (rule erc_rule_total) (auto simp: rule_erc017_def Let_def intro!: list_all_concat_map)

interpretation erc018: erc_rule "''ERC018''" "{ERC_INFO}" "total_rule rule_erc018"
  by (rule erc_rule_total)
     (simp add: rule_erc018_def Let_def list_all_rule split: option.split)

interpretation erc019: erc_rule "''ERC019''" "{ERC_INFO}" "total_rule rule_erc019"
  by (rule erc_rule_total)
     (simp add: rule_erc019_def Let_def list_all_rule split: option.split)

interpretation erc020: erc_rule "''ERC020''" "{ERC_WARNING}" "total_rule rule_erc020"
  by (rule erc_rule_total)
     (simp add: rule_erc020_def Let_def list_all_rule split: option.split)

interpretation erc021: erc_rule "''ERC021''" "{ERC_WARNING}" "total_rule rule_erc021"
  by (rule erc_rule_total)
     (simp add: rule_erc021_def Let_def list_all_rule split: option.split)

interpretation erc022: erc_rule "''ERC022''" "{ERC_INFO}" "total_rule rule_erc022"
  by (rule erc_rule_total)
     (simp add: rule_erc022_def Let_def list_all_rule split: option.split)

interpretation erc023: erc_rule "''ERC023''" "{ERC_WARNING}" "total_rule rule_erc023"
  by (rule erc_rule_total)
     (simp add: rule_erc023_def Let_def list_all_rule erc023_violation_def split: option.split)

interpretation erc024: erc_rule "''ERC024''" "{ERC_ERROR, ERC_WARNING}" "total_rule rule_erc024"
  by (rule erc_rule_total)
     (simp add: rule_erc024_def Let_def list_all_rule erc024_violation_def split: option.split)

interpretation erc025: erc_rule "''ERC025''" "{ERC_ERROR}" "total_rule rule_erc025"
  by (rule erc_rule_total)
     (simp add: rule_erc025_def Let_def list_all_rule split: option.split)

interpretation erc026: erc_rule "''ERC026''" "{ERC_WARNING}" "total_rule rule_erc026"
  by (rule erc_rule_total) (simp add: rule_erc026_def Let_def)

interpretation erc027: erc_rule "''ERC027''" "{ERC_WARNING}" "total_rule rule_erc027"
  by (rule erc_rule_total)
     (simp add: rule_erc027_def Let_def list_all_rule split: option.split)

interpretation erc029: erc_rule "''ERC029''" "{ERC_ERROR, ERC_WARNING}" "total_rule rule_erc029"
  by (rule erc_rule_total)
     (auto simp: rule_erc029_def erc029_power_violation_def erc029_i2c_violation_def Let_def
           intro!: list_all_concat_map list_all_option_list)

section \<open>When a run passes\<close>

definition clean :: "design \<Rightarrow> rule_spec \<Rightarrow> bool" where
  "clean d s = (\<forall>v \<in> set (rule_violations d s). is_waived v \<or> v_severity v \<noteq> ERC_ERROR)"

lemma clean_mk_spec: "clean d (mk_spec r t c n f) \<longleftrightarrow> no_blocking d f"
  by (auto simp: clean_def no_blocking_def blocking_def rule_violations_def list_ex_iff split: sum.splits)

lemma run_rules_passed: "passed (run_rules specs d) \<longleftrightarrow> (\<forall>s\<in>set specs. clean d s)"
  by (auto simp: run_rules_def passed_from_violations clean_def)

lemma total_rule_simps [simp]:
  "is_ok (total_rule f d)" "total_rule f d = Inr vs \<longleftrightarrow> f d = vs"
  by (simp_all add: total_rule_def)

lemma no_blocking_total: "no_blocking d (total_rule f) \<longleftrightarrow> \<not> list_ex blocking (f d)"
  by (simp add: total_rule_def no_blocking_def)

lemmas warning_rules_clean =
  erc002.no_error_unless_raise erc003.no_error_unless_raise erc005.no_error_unless_raise
  erc007.no_error_unless_raise erc010.no_error_unless_raise erc011.no_error_unless_raise
  erc012.no_error_unless_raise erc013.no_error_unless_raise erc016.no_error_unless_raise
  erc018.no_error_unless_raise erc019.no_error_unless_raise erc020.no_error_unless_raise
  erc021.no_error_unless_raise erc022.no_error_unless_raise erc023.no_error_unless_raise
  erc026.no_error_unless_raise erc027.no_error_unless_raise

lemmas error_rules_clean =
  erc001.error_iff_nonempty erc004.error_iff_nonempty erc006.error_iff_nonempty
  erc008.error_iff_nonempty erc009.error_iff_nonempty erc015.error_iff_nonempty
  erc017.error_iff_nonempty erc025.error_iff_nonempty

end
