(* ===== verification/ERC_Properties.thy ===== *)
theory ERC_Properties
  imports ERC_Runner
begin

text \<open>
  What the electrical-rule check of \<^verbatim>\<open>src/zaptrace/erc\<close> guarantees: the accounting of a
  run, that a rule that raises blocks the design, exactly when a run passes and what a
  passing design satisfies, that \<open>rule_erc003\<close> cannot raise on a well-formed design,
  what the electrical graph contains, and how the pull-resistor query behaves.
\<close>

section \<open>Concrete designs\<close>

text \<open>One controller on a supply and a ground; and the same with an I2C line whose only
  resistor goes to ground.\<close>

definition demo_mcu :: component where
  "demo_mcu = (mk_component ''u1'' ''U1'' ''MCU'')\<lparr> comp_pins :=
     [(''VCC'', mk_pin ''VCC'' PIN_POWER None), (''SDA'', mk_pin ''SDA'' PIN_BIDIRECTIONAL None)] \<rparr>"

definition demo_design :: design where
  "demo_design = mk_design ''demo'' [(''u1'', demo_mcu)]
     [(''vcc'', mk_net ''vcc'' ''VCC'' NET_POWER [mk_node ''U1'' ''VCC'']),
      (''gnd'', mk_net ''gnd'' ''GND'' NET_GROUND [mk_node ''U1'' ''GND''])]"

definition misfiled_design :: design where
  "misfiled_design = mk_design ''demo'' [(''u1'', demo_mcu)]
     [(''k1'', mk_net ''vcc'' ''VCC'' NET_POWER [mk_node ''U1'' ''VCC''])]"

definition pulldown_design :: design where
  "pulldown_design = mk_design ''demo''
     [(''u1'', demo_mcu), (''r1'', (mk_component ''r1'' ''R1'' ''RES'')\<lparr> comp_value := Some ''10k'' \<rparr>)]
     [(''sda'', mk_net ''sda'' ''I2C_SDA'' NET_SIGNAL [mk_node ''U1'' ''SDA'', mk_node ''R1'' ''1'']),
      (''gnd'', mk_net ''gnd'' ''GND'' NET_GROUND [mk_node ''R1'' ''2''])]"

section \<open>Accounting\<close>

lemma sum_chk_counts:
  "sum_list (map chk_violation_count (res_checks_run (run_rules specs d)))
   = length (res_violations (run_rules specs d))"
  by (simp add: run_rules_def from_violations_def Let_def length_concat comp_def)

text \<open>
  Every run executes the 29 rules in the order of the table, the counts it records
  per rule add up to the number of violations, and its error, warning, info and waiver
  totals partition the violations, whatever rules 014 and 028 return.
\<close>

theorem erc_run_accounting:
  "map chk_rule_id (res_checks_run (erc_run e14 e28 d)) =
     [''ERC001'', ''ERC002'', ''ERC003'', ''ERC004'', ''ERC005'', ''ERC006'', ''ERC007'', ''ERC008'',
      ''ERC009'', ''ERC010'', ''ERC011'', ''ERC012'', ''ERC013'', ''ERC014'', ''ERC015'', ''ERC016'',
      ''ERC017'', ''ERC018'', ''ERC019'', ''ERC020'', ''ERC021'', ''ERC022'', ''ERC023'', ''ERC024'',
      ''ERC025'', ''ERC026'', ''ERC027'', ''ERC028'', ''ERC029'']
   \<and> sum_list (map chk_violation_count (res_checks_run (erc_run e14 e28 d)))
     = length (res_violations (erc_run e14 e28 d))
   \<and> res_total_errors (erc_run e14 e28 d) + res_total_warnings (erc_run e14 e28 d)
     + res_total_info (erc_run e14 e28 d) + res_total_waivers (erc_run e14 e28 d)
     = length (res_violations (erc_run e14 e28 d))
   \<and> length (active_violations (erc_run e14 e28 d)) + res_total_waivers (erc_run e14 e28 d)
     = length (res_violations (erc_run e14 e28 d))"
proof -
  have ids: "map chk_rule_id (res_checks_run (erc_run e14 e28 d)) =
     [''ERC001'', ''ERC002'', ''ERC003'', ''ERC004'', ''ERC005'', ''ERC006'', ''ERC007'', ''ERC008'',
      ''ERC009'', ''ERC010'', ''ERC011'', ''ERC012'', ''ERC013'', ''ERC014'', ''ERC015'', ''ERC016'',
      ''ERC017'', ''ERC018'', ''ERC019'', ''ERC020'', ''ERC021'', ''ERC022'', ''ERC023'', ''ERC024'',
      ''ERC025'', ''ERC026'', ''ERC027'', ''ERC028'', ''ERC029'']"
    by (simp add: erc_run_def run_rules_def from_violations_def Let_def ALL_RULES_def)
  have tot: "res_total_errors (erc_run e14 e28 d) + res_total_warnings (erc_run e14 e28 d)
     + res_total_info (erc_run e14 e28 d) + res_total_waivers (erc_run e14 e28 d)
     = length (res_violations (erc_run e14 e28 d))"
    by (simp add: erc_run_def run_rules_def from_violations_totals)
       (simp add: from_violations_def Let_def)
  have act: "length (active_violations (from_violations vs n c g)) + res_total_waivers (from_violations vs n c g)
     = length vs" for vs n c g
    by (induction vs) (auto simp: active_violations_def from_violations_def Let_def)
  show ?thesis
    using ids tot act sum_chk_counts
    by (simp add: erc_run_def run_rules_def) (simp add: from_violations_def Let_def)
qed

section \<open>Fail closed\<close>

text \<open>
  C4: A rule that raises cannot make a design pass: the run records an
  \<open>ERC_INTERNAL\<close> error for it and does not pass, whatever the other rules report.
\<close>

theorem erc_run_fail_closed:
  assumes "spec \<in> set specs" and "rs_fn spec d = Inl e"
  shows "\<not> passed (run_rules specs d)
    \<and> (\<exists>v\<in>set (res_violations (run_rules specs d)).
         v_rule_id v = ''ERC_INTERNAL'' \<and> v_severity v = ERC_ERROR
         \<and> v_message v = ''Rule '' @ rs_rule_id spec @ '' ('' @ rs_fn_name spec @ '') raised: '' @ exc_str e)"
proof -
  let ?v = "mk_violation ''ERC_INTERNAL'' ERC_ERROR
      (''Rule '' @ rs_rule_id spec @ '' ('' @ rs_fn_name spec @ '') raised: '' @ exc_str e) [] [] None"
  have mem: "?v \<in> set (rule_violations d spec)"
    using assms(2) by (simp add: rule_violations_def)
  then have "\<not> clean d spec" by (force simp: clean_def)
  then have "\<not> passed (run_rules specs d)" using assms(1) by (auto simp: run_rules_passed)
  moreover have "?v \<in> set (res_violations (run_rules specs d))"
    using mem assms(1) by (auto simp: run_rules_def from_violations_def Let_def)
  ultimately show ?thesis by (intro conjI bexI [of _ ?v]) simp_all
qed

theorem erc_run_fail_closed_witness:
  "rule_erc003 misfiled_design = Inl (KeyError ''vcc'')
   \<and> \<not> passed (run_rules (ALL_RULES (total_rule (\<lambda>_. [])) (total_rule (\<lambda>_. []))) misfiled_design)"
proof -
  have raise: "rule_erc003 misfiled_design = Inl (KeyError ''vcc'')" by code_simp
  show ?thesis
    using raise erc_run_fail_closed
      [of "mk_spec ''ERC003'' ''IC decoupling capacitor present'' ''power'' ''rule_erc003'' rule_erc003"
          "ALL_RULES (total_rule (\<lambda>_. [])) (total_rule (\<lambda>_. []))" misfiled_design]
    by (simp add: ALL_RULES_def)
qed

section \<open>Which designs pass\<close>

text \<open>
  C3: A run passes exactly when the error rules 001, 004, 006, 008, 009, 015, 017 and
  025 report nothing, the mixed rules 024 and 029 report no error, rule 003 does not
  raise, and rules 014 and 028 neither raise nor report an unwaived error; the
  warning and info rules never matter.
\<close>

theorem erc_run_passed:
  "passed (erc_run e14 e28 d) \<longleftrightarrow>
     rule_erc001 d = [] \<and> rule_erc004 d = [] \<and> rule_erc006 d = [] \<and> rule_erc008 d = []
     \<and> rule_erc009 d = [] \<and> rule_erc015 d = [] \<and> rule_erc017 d = [] \<and> rule_erc025 d = []
     \<and> \<not> list_ex blocking (rule_erc024 d) \<and> \<not> list_ex blocking (rule_erc029 d)
     \<and> is_ok (rule_erc003 d) \<and> no_blocking d e14 \<and> no_blocking d e28"
  by (simp add: erc_run_def run_rules_passed ALL_RULES_def clean_mk_spec
        warning_rules_clean error_rules_clean)
     (simp add: no_blocking_total conj_ac)


lemma distinct_iff_count_if: "distinct xs \<longleftrightarrow> (\<forall>x\<in>set xs. count_if (\<lambda>y. y = x) xs \<le> Suc 0)"
proof (induction xs)
  case (Cons a xs)
  have "count_if (\<lambda>y. y = a) xs = 0 \<longleftrightarrow> a \<notin> set xs"
    by (auto simp: count_if_0_iff)
  with Cons show ?case by auto
qed simp

lemma counter_items_all_le_1:
  "(\<forall>p\<in>set (counter_items xs). \<not> 1 < snd p) \<longleftrightarrow> distinct xs"
  by (auto simp: counter_items_def distinct_iff_count_if not_less)

lemma rule_erc017_empty: "rule_erc017 d = [] \<longleftrightarrow> distinct (map comp_ref (components d))"
  using counter_items_all_le_1 [of "map comp_ref (components d)"]
  by (auto simp: rule_erc017_def Let_def case_prod_beta split: if_splits)

lemma rule_erc004_empty: "rule_erc004 d = [] \<longleftrightarrow> distinct (map net_name (nets d))"
  using counter_items_all_le_1 [of "map net_name (nets d)"]
  by (auto simp: rule_erc004_def Let_def case_prod_beta split: if_splits)


lemma for_pins_empty:
  "for_pins d f = [] \<longleftrightarrow>
     (\<forall>c\<in>set (components d). \<forall>(p, pn)\<in>set (comp_pins c). f c p pn = None)"
proof -
  have "option_list (map (\<lambda>(p, pn). g p pn) ps) = [] \<longleftrightarrow> (\<forall>(p, pn)\<in>set ps. g p pn = None)"
    for g :: "string \<Rightarrow> pin \<Rightarrow> erc_violation option" and ps
    by (induction ps) (auto simp: option_list_def split: option.splits)
  then show ?thesis by (auto simp: for_pins_def)
qed

lemma rule_erc001_empty:
  "rule_erc001 d = [] \<longleftrightarrow>
     (\<forall>c\<in>set (components d). \<forall>(p, pn)\<in>set (comp_pins c).
        \<not> (pin_type pn = PIN_POWER \<and> pin_net pn = None \<and> get_net_for_pin d (comp_ref c) p = None))"
  by (simp add: rule_erc001_def for_pins_empty case_prod_beta)

lemma rule_erc015_empty:
  "rule_erc015 d = [] \<longleftrightarrow> length (filter (\<lambda>n. net_type n = NET_GROUND) (nets d)) \<le> 1"
  by (simp add: rule_erc015_def Let_def not_less)

lemma passed_error_rules:
  assumes "passed (erc_run e14 e28 d)"
  shows "rule_erc001 d = []" "rule_erc004 d = []" "rule_erc015 d = []" "rule_erc017 d = []"
  using assms
  by (simp_all add: erc_run_def run_rules_passed ALL_RULES_def clean_mk_spec error_rules_clean)

text \<open>
  C5: A design that passes the check has unique reference designators and unique net
  names, at most one ground net, and no power pin that is left off every net.
\<close>

theorem erc_passed_design:
  assumes "passed (erc_run e14 e28 d)"
  shows "distinct (map comp_ref (components d)) \<and> distinct (map net_name (nets d))
    \<and> length (filter (\<lambda>n. net_type n = NET_GROUND) (nets d)) \<le> 1
    \<and> (\<forall>c\<in>set (components d). \<forall>(p, pn)\<in>set (comp_pins c).
         pin_type pn = PIN_POWER \<longrightarrow>
           pin_net pn \<noteq> None \<or> (\<exists>n\<in>set (nets d). net_has_pin n (comp_ref c) p))"
  using passed_error_rules [OF assms]
  by (fastforce simp: rule_erc001_empty rule_erc004_empty rule_erc015_empty rule_erc017_empty
        get_net_for_pin_None)

theorem erc_passed_design_witness:
  "passed (erc_run (total_rule (\<lambda>_. [])) (total_rule (\<lambda>_. [])) demo_design)
   \<and> distinct (map comp_ref (components demo_design))"
proof -
  have "passed (erc_run (total_rule (\<lambda>_. [])) (total_rule (\<lambda>_. [])) demo_design)" by code_simp
  then show ?thesis using erc_passed_design by blast
qed

section \<open>Rule 003 on well-formed designs\<close>

lemma lookup_net_names_ok:
  "is_ok (lookup_net_names d ids) \<longleftrightarrow> (\<forall>i\<in>set ids. dict_get (des_nets d) i \<noteq> None)"
  by (induction ids) (auto split: option.splits sum.splits)

lemma component_power_net_ids:
  assumes "design_wf d" "i \<in> set (fst (component_power_net_state d c))"
  shows "dict_get (des_nets d) i \<noteq> None"
proof -
  obtain p n where "get_net_for_pin d (comp_ref c) p = Some n" "i = net_id n"
    using assms(2) by (force simp: component_power_net_state_def Let_def)
  then show ?thesis
    using design_wf_get_net [OF assms(1)] by (auto dest!: get_net_for_pin_Some)
qed

lemma erc003_violation_ok:
  assumes "\<forall>i\<in>set ids. dict_get (des_nets d) i \<noteq> None"
  shows "is_ok (erc003_violation d c ids u g l)"
proof -
  have "is_ok (lookup_net_names d (sorted_set (filter (\<lambda>i. \<not> net_owns_decoupling d i g) ids)))"
    using assms by (simp add: lookup_net_names_ok)
  then obtain ns where
    "lookup_net_names d (sorted_set (filter (\<lambda>i. \<not> net_owns_decoupling d i g) ids)) = Inr ns"
    by (auto simp: is_ok_iff)
  then show ?thesis by (simp add: erc003_violation_def Let_def)
qed

text \<open>
  On a well-formed design (every net stored under its own id) the decoupling rule
  003 never raises, so it cannot turn into an internal error of the run.
\<close>

theorem rule_erc003_total:
  assumes "design_wf d"
  shows "is_ok (rule_erc003 d)"
  using component_power_net_ids [OF assms]
  by (auto simp: rule_erc003_def collect_results_ok case_prod_beta Let_def intro!: erc003_violation_ok)

theorem rule_erc003_total_witness: "design_wf demo_design \<and> is_ok (rule_erc003 demo_design)"
proof -
  have "design_wf demo_design" by code_simp
  then show ?thesis using rule_erc003_total by blast
qed

section \<open>The electrical graph\<close>

text \<open>
  The graph lists, for each net, exactly the endpoints given by the net's own nodes
  and by the pins that name the net, without duplicates and sorted by component, pin
  and net.
\<close>

theorem graph_endpoints_exact:
  "set (endpoints (from_design d) k) =
     make_endpoint d k `
       ({nd. \<exists>n. (k, n) \<in> set (des_nets d) \<and> nd \<in> set (net_nodes n)} \<union>
        {mk_node (comp_ref c) p | c p. c \<in> set (components d) \<and> k \<noteq> [] \<and> k \<in> set (dict_keys (des_nets d))
           \<and> (\<exists>pn. (p, pn) \<in> set (comp_pins c) \<and> pin_net pn = Some k)})
   \<and> distinct (endpoints (from_design d) k)
   \<and> sorted (map (\<lambda>ep. (ep_component_ref ep, ep_pin_name ep, ep_net_id ep)) (endpoints (from_design d) k))"
proof -
  have "{nd. connected_node d k nd} =
       {nd. \<exists>n. (k, n) \<in> set (des_nets d) \<and> nd \<in> set (net_nodes n)} \<union>
        {mk_node (comp_ref c) p | c p. c \<in> set (components d) \<and> k \<noteq> [] \<and> k \<in> set (dict_keys (des_nets d))
           \<and> (\<exists>pn. (p, pn) \<in> set (comp_pins c) \<and> pin_net pn = Some k)}"
    unfolding connected_node_def set_net_node_adds set_pin_net_adds pydict.set_keys by blast
  then show ?thesis
    by (simp only: set_endpoints_from_design distinct_endpoints_from_design
          sorted_endpoints_from_design simp_thms)
qed

section \<open>Power-source and pull-resistor rules\<close>

lemma map_for_nets:
  "(\<And>n. n \<in> set (nets d) \<Longrightarrow> map_option h (f n) = map_option h (f' n)) \<Longrightarrow>
   map h (for_nets d f) = map h (for_nets d f')"
proof -
  have "map h (option_list (map f ns)) = map h (option_list (map f' ns))"
    if "\<And>n. n \<in> set ns \<Longrightarrow> map_option h (f n) = map_option h (f' n)" for ns
    using that
  proof (induction ns)
    case (Cons n ns)
    then have "map_option h (f n) = map_option h (f' n)" by simp
    then show ?case using Cons by (cases "f n"; cases "f' n") auto
  qed simp
  then show "(\<And>n. n \<in> set (nets d) \<Longrightarrow> map_option h (f n) = map_option h (f' n)) \<Longrightarrow> ?thesis"
    by (simp add: for_nets_def)
qed

text \<open>
  Rules 007 and 027 flag exactly the same power nets, in the same order: every
  unsourced power net is reported twice.
\<close>

theorem erc007_erc027_same_nets:
  "map v_net_refs (rule_erc007 d) = map v_net_refs (rule_erc027 d)"
  unfolding rule_erc007_def rule_erc027_def by (rule map_for_nets) simp

text \<open>The pull-resistor query answers over the design: a resistor on the net that also
  sits on another net of type power or ground.\<close>

lemma has_resistor_to_power_iff:
  "has_resistor_to_power (from_design d) sid allowed \<longleftrightarrow>
     (\<exists>nd c. connected_node d sid nd \<and> get_component d (node_component_ref nd) = Some c
        \<and> resistor_bridges_to_power (from_design d) sid allowed c)"
  by (fastforce simp: has_resistor_to_power_def list_ex_iff set_endpoints_from_design split: option.splits)

lemma resistor_bridgeI:
  assumes "upper (comp_type c) \<in> set res_types" "comp_value c = Some v" "v \<in> set vs"
    and "connected_node d nid nd" "get_component d (node_component_ref nd) = Some c" "nid \<noteq> sid"
    and "dict_get (des_nets d) nid = Some m" "net_type m \<in> {NET_POWER, NET_GROUND}"
  shows "resistor_bridges_to_power (from_design d) sid (Some vs) c"
proof -
  have "nid \<in> nets_for_component (from_design d) (comp_ref c)"
    using assms by (auto simp: nets_for_component_from_design)
  moreover have "is_power_net (from_design d) nid"
    using assms by (simp add: is_power_net_from_design)
  ultimately show ?thesis
    using assms by (auto simp: resistor_bridges_to_power_def)
qed

text \<open>
  An I2C net whose only resistor goes to ground is accepted by rule 005: the query
  counts ground nets as power rails, so a pull-down satisfies the pull-up check.
\<close>

theorem erc005_accepts_pulldown:
  assumes "get_component d r = Some c" "upper (comp_type c) \<in> set res_types" "comp_value c = Some ''10k''"
    and "dict_get (des_nets d) (net_id sda) = Some sda" "mk_node r p \<in> set (net_nodes sda)"
    and "dict_get (des_nets d) (net_id gnd) = Some gnd" "mk_node r q \<in> set (net_nodes gnd)"
    and "net_type gnd = NET_GROUND" "net_id gnd \<noteq> net_id sda"
  shows "\<forall>v \<in> set (rule_erc005 d). net_id sda \<notin> set (v_net_refs v)"
proof -
  have node: "connected_node d (net_id m) (mk_node r p)"
    if "dict_get (des_nets d) (net_id m) = Some m" "mk_node r p \<in> set (net_nodes m)" for m p
    using that by (auto simp: connected_node_def set_net_node_adds dest: dict_get_mem)
  have r: "node_component_ref (mk_node r p) = r" for p by (simp add: mk_node_def)
  have "resistor_bridges_to_power (from_design d) (net_id sda) (Some pullup_values) c"
    by (rule resistor_bridgeI [OF assms(2,3) _ node [OF assms(6,7)] _ assms(9,6)])
       (simp_all add: pullup_values_def r assms)
  then have "has_resistor_to_power (from_design d) (net_id sda) (Some pullup_values)"
    unfolding has_resistor_to_power_iff using node [OF assms(4,5)] r assms(1) by metis
  then show ?thesis
    by (auto simp: rule_erc005_def Let_def set_for_nets split: if_splits)
qed

theorem erc005_accepts_pulldown_witness:
  "rule_erc005 pulldown_design = [] \<and> {v \<in> set (rule_erc005 pulldown_design). ''sda'' \<in> set (v_net_refs v)} = {}"
proof -
  let ?sda = "mk_net ''sda'' ''I2C_SDA'' NET_SIGNAL [mk_node ''U1'' ''SDA'', mk_node ''R1'' ''1'']"
  let ?gnd = "mk_net ''gnd'' ''GND'' NET_GROUND [mk_node ''R1'' ''2'']"
  let ?r = "(mk_component ''r1'' ''R1'' ''RES'')\<lparr> comp_value := Some ''10k'' \<rparr>"
  have r: "get_component pulldown_design ''R1'' = Some ?r" by code_simp
  have r': "upper (comp_type ?r) \<in> set res_types" "comp_value ?r = Some ''10k''" by code_simp+
  have n: "dict_get (des_nets pulldown_design) (net_id ?sda) = Some ?sda"
    "mk_node ''R1'' ''1'' \<in> set (net_nodes ?sda)"
    "dict_get (des_nets pulldown_design) (net_id ?gnd) = Some ?gnd"
    "mk_node ''R1'' ''2'' \<in> set (net_nodes ?gnd)"
    by code_simp+
  have "net_type ?gnd = NET_GROUND" "net_id ?gnd \<noteq> net_id ?sda" by (simp_all add: mk_net_def)
  from erc005_accepts_pulldown [OF r r' n this]
  have "\<forall>v \<in> set (rule_erc005 pulldown_design). ''sda'' \<notin> set (v_net_refs v)"
    by (simp add: mk_net_def)
  moreover have "rule_erc005 pulldown_design = []" by code_simp
  ultimately show ?thesis by blast
qed

end
