(* ===== verification/Net_Identity.thy ===== *)
theory Net_Identity
  imports Design_Model
begin

text \<open>
  \<^verbatim>\<open>src/zaptrace/core/net_identity.py\<close>: resolving a net reference to the canonical
  \<open>Net.id\<close> and normalising the traces and vias of a routing in place. The routing is
  returned beside the report. The net-name voltage parser of the same file computes
  with binary floating point and is not modelled.
\<close>

record net_identity_report =
  nir_changed_trace_count :: nat
  nir_changed_via_count :: nat
  nir_unknown_refs :: "string list"

definition nir_ok :: "net_identity_report \<Rightarrow> bool" where
  "nir_ok r = (nir_unknown_refs r = [])"

definition canonical_net_id :: "design \<Rightarrow> string \<Rightarrow> string option" where
  "canonical_net_id d ref =
     (if ref = [] then None
      else if ref \<in> set (dict_keys (des_nets d)) then Some ref
      else (case map net_id (filter (\<lambda>n. net_name n = ref) (nets d)) of
              [i] \<Rightarrow> Some i
            | _ \<Rightarrow> None))"

fun normalize_trace_net_ids ::
  "design \<Rightarrow> trace_segment list \<Rightarrow> trace_segment list \<times> nat \<times> string list" where
  "normalize_trace_net_ids d [] = ([], 0, [])"
| "normalize_trace_net_ids d (t # ts) =
     (let (normalized, changed, unknown) = normalize_trace_net_ids d ts in
      case canonical_net_id d (ts_net_id t) of
        None \<Rightarrow> (t # normalized, changed, (if ts_net_id t \<noteq> [] then ts_net_id t # unknown else unknown))
      | Some i \<Rightarrow>
          if i \<noteq> ts_net_id t then (t\<lparr> ts_net_id := i \<rparr> # normalized, Suc changed, unknown)
          else (t # normalized, changed, unknown))"

fun normalize_via_net_ids :: "design \<Rightarrow> via list \<Rightarrow> via list \<times> nat \<times> string list" where
  "normalize_via_net_ids d [] = ([], 0, [])"
| "normalize_via_net_ids d (Via4 x y dia hole # vs) =
     (let (normalized, changed, unknown) = normalize_via_net_ids d vs
      in (Via4 x y dia hole # normalized, changed, unknown))"
| "normalize_via_net_ids d (Via5 x y dia hole ref # vs) =
     (let (normalized, changed, unknown) = normalize_via_net_ids d vs in
      case canonical_net_id d ref of
        None \<Rightarrow> (Via5 x y dia hole ref # normalized, changed, (if ref \<noteq> [] then ref # unknown else unknown))
      | Some i \<Rightarrow>
          if i \<noteq> ref then (Via5 x y dia hole i # normalized, Suc changed, unknown)
          else (Via5 x y dia hole ref # normalized, changed, unknown))"

definition canonical_routing_net_ids ::
  "design \<Rightarrow> route_result option \<Rightarrow> route_result option \<times> net_identity_report" where
  "canonical_routing_net_ids d routing =
     (case routing of
        None \<Rightarrow> (None, \<lparr> nir_changed_trace_count = 0, nir_changed_via_count = 0, nir_unknown_refs = [] \<rparr>)
      | Some r \<Rightarrow>
          (let (ts, ct, tu) = normalize_trace_net_ids d (rr_traces r);
               (vs, cv, vu) = normalize_via_net_ids d (rr_vias r)
           in (Some (r\<lparr> rr_traces := ts, rr_vias := vs \<rparr>),
               \<lparr> nir_changed_trace_count = ct, nir_changed_via_count = cv,
                 nir_unknown_refs = sorted_set (tu @ vu) \<rparr>)))"

section \<open>Lemmas\<close>

text \<open>The nets a routing refers to.\<close>

fun via_refs :: "via \<Rightarrow> string list" where
  "via_refs (Via4 x y dia hole) = []"
| "via_refs (Via5 x y dia hole ref) = (if ref = [] then [] else [ref])"

definition trace_refs :: "trace_segment \<Rightarrow> string list" where
  "trace_refs t = (if ts_net_id t = [] then [] else [ts_net_id t])"

definition routing_refs :: "route_result \<Rightarrow> string list" where
  "routing_refs r = concat (map trace_refs (rr_traces r)) @ concat (map via_refs (rr_vias r))"

definition canonical :: "design \<Rightarrow> string \<Rightarrow> string" where
  "canonical d ref = (case canonical_net_id d ref of None \<Rightarrow> ref | Some i \<Rightarrow> i)"

fun canonical_via :: "design \<Rightarrow> via \<Rightarrow> via" where
  "canonical_via d (Via4 x y dia hole) = Via4 x y dia hole"
| "canonical_via d (Via5 x y dia hole ref) = Via5 x y dia hole (canonical d ref)"

lemma canonical_Nil [simp]: "canonical_net_id d [] = None" "canonical d [] = []"
  by (simp_all add: canonical_net_id_def canonical_def)

lemma canonical_key [simp]: "ref \<noteq> [] \<Longrightarrow> ref \<in> set (dict_keys (des_nets d)) \<Longrightarrow> canonical_net_id d ref = Some ref"
  by (simp add: canonical_net_id_def)

lemma canonical_net_id_key:
  assumes "design_wf d" "canonical_net_id d ref = Some i"
  shows "i \<in> set (dict_keys (des_nets d))"
proof (cases "ref \<in> set (dict_keys (des_nets d))")
  case True
  then show ?thesis using assms(2) by (auto simp: canonical_net_id_def split: if_splits)
next
  case False
  then have "map net_id (filter (\<lambda>n. net_name n = ref) (nets d)) = [i]"
    using assms(2) by (auto simp: canonical_net_id_def split: if_splits list.splits)
  then have "i \<in> set (map net_id (filter (\<lambda>n. net_name n = ref) (nets d)))" by simp
  then have "i \<in> net_id ` set (nets d)" by auto
  then show ?thesis using assms(1) by (auto simp: pydict.set_keys dest: design_wf_get_net)
qed

lemma via_refs_nonempty: "[] \<notin> set (via_refs v)"
  by (cases v) auto

lemma routing_refs_nonempty: "[] \<notin> set (routing_refs r)"
  by (auto simp: routing_refs_def trace_refs_def via_refs_nonempty)

lemma normalize_trace_eq:
  "normalize_trace_net_ids d ts =
     (map (\<lambda>t. t\<lparr> ts_net_id := canonical d (ts_net_id t) \<rparr>) ts,
      count_if (\<lambda>t. canonical d (ts_net_id t) \<noteq> ts_net_id t) ts,
      filter (\<lambda>r. canonical_net_id d r = None) (concat (map trace_refs ts)))"
  by (induction ts) (auto simp: canonical_def trace_refs_def split: option.splits)

lemma normalize_via_eq:
  "normalize_via_net_ids d vs =
     (map (canonical_via d) vs,
      count_if (\<lambda>v. canonical_via d v \<noteq> v) vs,
      filter (\<lambda>r. canonical_net_id d r = None) (concat (map via_refs vs)))"
  by (induction d vs rule: normalize_via_net_ids.induct) (auto simp: canonical_def split: option.splits)

lemma canonical_routing_eq:
  "canonical_routing_net_ids d (Some r) =
     (Some (r\<lparr> rr_traces := map (\<lambda>t. t\<lparr> ts_net_id := canonical d (ts_net_id t) \<rparr>) (rr_traces r),
              rr_vias := map (canonical_via d) (rr_vias r) \<rparr>),
      \<lparr> nir_changed_trace_count = count_if (\<lambda>t. canonical d (ts_net_id t) \<noteq> ts_net_id t) (rr_traces r),
        nir_changed_via_count = count_if (\<lambda>v. canonical_via d v \<noteq> v) (rr_vias r),
        nir_unknown_refs = sorted_set (filter (\<lambda>r. canonical_net_id d r = None) (routing_refs r)) \<rparr>)"
  by (simp add: canonical_routing_net_ids_def normalize_trace_eq normalize_via_eq routing_refs_def)

lemma canonical_known:
  assumes "design_wf d" "[] \<notin> set (dict_keys (des_nets d))" "canonical_net_id d ref \<noteq> None"
  shows "canonical d ref \<noteq> []" "canonical d ref \<in> set (dict_keys (des_nets d))"
  using assms canonical_net_id_key [OF assms(1)] by (auto simp: canonical_def)

lemma canonical_idem:
  assumes "design_wf d" "[] \<notin> set (dict_keys (des_nets d))"
  shows "canonical d (canonical d ref) = canonical d ref"
proof (cases "canonical_net_id d ref")
  case None
  then show ?thesis by (simp add: canonical_def)
next
  case (Some i)
  then have "i \<in> set (dict_keys (des_nets d))" "i \<noteq> []"
    using canonical_known [OF assms, of ref] by (auto simp: canonical_def)
  then show ?thesis using Some by (simp add: canonical_def)
qed

lemma canonical_via_idem:
  assumes "design_wf d" "[] \<notin> set (dict_keys (des_nets d))"
  shows "canonical_via d (canonical_via d v) = canonical_via d v"
  by (cases v) (simp_all add: canonical_idem [OF assms])

lemma trace_refs_canonical:
  assumes "design_wf d" "[] \<notin> set (dict_keys (des_nets d))"
  shows "trace_refs (t\<lparr> ts_net_id := canonical d (ts_net_id t) \<rparr>) = map (canonical d) (trace_refs t)"
  using canonical_known [OF assms, of "ts_net_id t"]
  by (cases "canonical_net_id d (ts_net_id t)") (auto simp: trace_refs_def canonical_def)

lemma via_refs_canonical:
  assumes "design_wf d" "[] \<notin> set (dict_keys (des_nets d))"
  shows "via_refs (canonical_via d v) = map (canonical d) (via_refs v)"
proof (cases v)
  case (Via5 x y dia hole ref)
  then show ?thesis
    using canonical_known [OF assms, of ref]
    by (cases "canonical_net_id d ref") (auto simp: canonical_def)
qed simp

lemma routing_refs_canonical:
  assumes "design_wf d" "[] \<notin> set (dict_keys (des_nets d))"
  shows "routing_refs (r\<lparr> rr_traces := map (\<lambda>t. t\<lparr> ts_net_id := canonical d (ts_net_id t) \<rparr>) (rr_traces r),
                         rr_vias := map (canonical_via d) (rr_vias r) \<rparr>)
         = map (canonical d) (routing_refs r)"
  by (simp add: routing_refs_def map_concat comp_def trace_refs_canonical [OF assms] via_refs_canonical [OF assms])

lemma canonical_unknown:
  assumes "design_wf d" "[] \<notin> set (dict_keys (des_nets d))"
  shows "canonical_net_id d (canonical d x) = None \<longleftrightarrow> canonical_net_id d x = None"
  using canonical_known [OF assms, of x]
  by (cases "canonical_net_id d x") (auto simp: canonical_def)

lemma filter_unknown_canonical:
  assumes "design_wf d" "[] \<notin> set (dict_keys (des_nets d))"
  shows "filter (\<lambda>x. canonical_net_id d x = None) (map (canonical d) xs)
         = filter (\<lambda>x. canonical_net_id d x = None) xs"
proof -
  have "canonical d x = x" if "canonical_net_id d x = None" for x
    using that by (simp add: canonical_def)
  then show ?thesis by (induction xs) (auto simp: canonical_unknown [OF assms])
qed

section \<open>Properties\<close>

text \<open>
  After normalisation the report is ok exactly when every net reference of the
  routing is the id of a net of the design: unknown and ambiguous references are
  always reported, and every resolvable alias has been rewritten to the net's id.
\<close>

theorem canonical_routing_ok_iff:
  assumes "design_wf d" "[] \<notin> set (dict_keys (des_nets d))"
    and "canonical_routing_net_ids d (Some r) = (Some r', rep)"
  shows "nir_ok rep \<longleftrightarrow> set (routing_refs r') \<subseteq> set (dict_keys (des_nets d))"
proof -
  have refs: "routing_refs r' = map (canonical d) (routing_refs r)"
    and ok: "nir_ok rep \<longleftrightarrow> (\<forall>x\<in>set (routing_refs r). canonical_net_id d x \<noteq> None)"
    using assms(3) routing_refs_canonical [OF assms(1,2), of r]
    by (auto simp: canonical_routing_eq nir_ok_def filter_empty_conv)
  have "canonical_net_id d x \<noteq> None \<longleftrightarrow> canonical d x \<in> set (dict_keys (des_nets d))"
    if "x \<in> set (routing_refs r)" for x
  proof -
    have "x \<noteq> []" using that routing_refs_nonempty by metis
    then show ?thesis
      using canonical_known [OF assms(1,2), of x]
      by (cases "canonical_net_id d x") (auto simp: canonical_def)
  qed
  then show ?thesis unfolding refs ok by auto
qed

text \<open>
  Normalisation is idempotent and touches nothing but net references: a second pass
  changes no trace and no via, reports the same unknown references, and every trace
  keeps its layer, geometry and width.
\<close>

theorem canonical_routing_idempotent:
  assumes "design_wf d" "[] \<notin> set (dict_keys (des_nets d))"
    and "canonical_routing_net_ids d (Some r) = (Some r', rep)"
  shows "fst (canonical_routing_net_ids d (Some r')) = Some r'
    \<and> nir_changed_trace_count (snd (canonical_routing_net_ids d (Some r'))) = 0
    \<and> nir_changed_via_count (snd (canonical_routing_net_ids d (Some r'))) = 0
    \<and> nir_unknown_refs (snd (canonical_routing_net_ids d (Some r'))) = nir_unknown_refs rep
    \<and> map (\<lambda>t. (ts_layer t, ts_start t, ts_end t, ts_width t)) (rr_traces r')
      = map (\<lambda>t. (ts_layer t, ts_start t, ts_end t, ts_width t)) (rr_traces r)
    \<and> length (rr_vias r') = length (rr_vias r)"
proof -
  have r': "r' = r\<lparr> rr_traces := map (\<lambda>t. t\<lparr> ts_net_id := canonical d (ts_net_id t) \<rparr>) (rr_traces r),
                     rr_vias := map (canonical_via d) (rr_vias r) \<rparr>"
    and rep: "nir_unknown_refs rep = sorted_set (filter (\<lambda>x. canonical_net_id d x = None) (routing_refs r))"
    using assms(3) by (auto simp: canonical_routing_eq)
  have "routing_refs r' = map (canonical d) (routing_refs r)"
    unfolding r' by (rule routing_refs_canonical [OF assms(1,2)])
  then have unk: "nir_unknown_refs (snd (canonical_routing_net_ids d (Some r'))) = nir_unknown_refs rep"
    by (simp add: canonical_routing_eq rep filter_unknown_canonical [OF assms(1,2)])
  show ?thesis
    by (simp only: unk) (simp add: canonical_routing_eq r' canonical_idem [OF assms(1,2)]
      canonical_via_idem [OF assms(1,2)] count_if_0_iff comp_def)
qed

text \<open>A routing that refers to one net by name and to another that does not exist.\<close>

definition alias_design :: design where
  "alias_design = mk_design ''demo'' [] [(''n1'', mk_net ''n1'' ''VCC'' NET_POWER [])]"

definition alias_routing :: route_result where
  "alias_routing = \<lparr> rr_traces = [\<lparr> ts_layer = ''F.Cu'', ts_start = (0, 0), ts_end = (1, 0),
     ts_width = 1/4, ts_net_id = ''VCC'', ts_via = False, ts_via_diameter = 0, ts_via_hole = 0 \<rparr>],
     rr_vias = [Via5 0 0 1 1 ''lost''], rr_layers_used = [''F.Cu''],
     rr_total_trace_length_mm = 1, rr_net_count = 1, rr_routed_net_count = 1 \<rparr>"

definition alias_routing_normalized :: route_result where
  "alias_routing_normalized = alias_routing\<lparr> rr_traces :=
     map (\<lambda>t. t\<lparr> ts_net_id := ''n1'' \<rparr>) (rr_traces alias_routing) \<rparr>"

lemma alias_premises:
  "design_wf alias_design" "[] \<notin> set (dict_keys (des_nets alias_design))"
  "canonical_routing_net_ids alias_design (Some alias_routing) =
     (Some alias_routing_normalized,
      \<lparr> nir_changed_trace_count = 1, nir_changed_via_count = 0, nir_unknown_refs = [''lost''] \<rparr>)"
  by code_simp+

theorem canonical_routing_ok_iff_witness:
  "\<not> nir_ok \<lparr> nir_changed_trace_count = 1, nir_changed_via_count = 0, nir_unknown_refs = [''lost''] \<rparr>
   \<and> \<not> set (routing_refs alias_routing_normalized) \<subseteq> set (dict_keys (des_nets alias_design))"
  using canonical_routing_ok_iff [OF alias_premises] by (simp add: nir_ok_def)

theorem canonical_routing_idempotent_witness:
  "canonical_routing_net_ids alias_design (Some alias_routing) \<noteq> (Some alias_routing,
     \<lparr> nir_changed_trace_count = 0, nir_changed_via_count = 0, nir_unknown_refs = [] \<rparr>)
   \<and> fst (canonical_routing_net_ids alias_design (Some alias_routing_normalized)) = Some alias_routing_normalized"
  using canonical_routing_idempotent [OF alias_premises] alias_premises(3) by simp

end
