(* ===== verification/Design_Diff.thy ===== *)
theory Design_Diff
  imports Design_Model
begin

text \<open>
  \<^verbatim>\<open>src/zaptrace/core/diff.py\<close>: the semantic difference of two designs and its Markdown
  rendering. Python's \<^verbatim>\<open>str\<close> on the board's floats is the argument \<open>float_str\<close>.
\<close>

datatype diff_type =
  COMPONENT_ADDED | COMPONENT_REMOVED | COMPONENT_CHANGED | NET_ADDED | NET_REMOVED
| NET_NODE_ADDED | NET_NODE_REMOVED | VALUE_CHANGED | FOOTPRINT_CHANGED | BOARD_CHANGED

fun diff_type_value :: "diff_type \<Rightarrow> string" where
  "diff_type_value COMPONENT_ADDED = ''component_added''"
| "diff_type_value COMPONENT_REMOVED = ''component_removed''"
| "diff_type_value COMPONENT_CHANGED = ''component_changed''"
| "diff_type_value NET_ADDED = ''net_added''"
| "diff_type_value NET_REMOVED = ''net_removed''"
| "diff_type_value NET_NODE_ADDED = ''net_node_added''"
| "diff_type_value NET_NODE_REMOVED = ''net_node_removed''"
| "diff_type_value VALUE_CHANGED = ''value_changed''"
| "diff_type_value FOOTPRINT_CHANGED = ''footprint_changed''"
| "diff_type_value BOARD_CHANGED = ''board_changed''"

record diff_entry =
  diff_type :: diff_type
  diff_ref :: string
  diff_detail :: string
  diff_old_value :: "string option"
  diff_new_value :: "string option"

definition mk_entry ::
  "diff_type \<Rightarrow> string \<Rightarrow> string \<Rightarrow> string option \<Rightarrow> string option \<Rightarrow> diff_entry" where
  "mk_entry t r det ov nv =
     \<lparr> diff_type = t, diff_ref = r, diff_detail = det, diff_old_value = ov, diff_new_value = nv \<rparr>"

definition comps_by_ref :: "design \<Rightarrow> (string, component) dict" where
  "comps_by_ref d = dict_comp comp_ref (\<lambda>c. c) (components d)"

definition nets_by_name :: "design \<Rightarrow> (string, net) dict" where
  "nets_by_name d = dict_comp net_name (\<lambda>n. n) (nets d)"

text \<open>\<^verbatim>\<open>sorted(a.keys() - b.keys())\<close> and \<^verbatim>\<open>sorted(a.keys() & b.keys())\<close>.\<close>

definition keys_minus :: "(string, 'a) dict \<Rightarrow> (string, 'a) dict \<Rightarrow> string list" where
  "keys_minus a b = sorted_set (filter (\<lambda>k. k \<notin> set (dict_keys b)) (dict_keys a))"

definition keys_inter :: "(string, 'a) dict \<Rightarrow> (string, 'a) dict \<Rightarrow> string list" where
  "keys_inter a b = sorted_set (filter (\<lambda>k. k \<in> set (dict_keys b)) (dict_keys a))"

definition type_in :: "(string, component) dict \<Rightarrow> string \<Rightarrow> string" where
  "type_in cs r = (case dict_get cs r of None \<Rightarrow> [] | Some c \<Rightarrow> comp_type c)"

definition changed_entries ::
  "(string, component) dict \<Rightarrow> (string, component) dict \<Rightarrow> string \<Rightarrow> diff_entry list" where
  "changed_entries oldc newc r =
     (case (dict_get oldc r, dict_get newc r) of
        (Some oc, Some nc) \<Rightarrow>
          (if comp_value oc \<noteq> comp_value nc
           then [mk_entry VALUE_CHANGED r (r @ '' value changed'') (comp_value oc) (comp_value nc)] else [])
          @ (if comp_footprint oc \<noteq> comp_footprint nc
             then [mk_entry FOOTPRINT_CHANGED r (r @ '' footprint changed'')
                     (Some (comp_footprint oc)) (Some (comp_footprint nc))] else [])
      | _ \<Rightarrow> [])"

definition board_entry :: "string \<Rightarrow> string \<Rightarrow> string \<Rightarrow> bool \<Rightarrow> diff_entry list" where
  "board_entry field ov nv same =
     (if same then []
      else [mk_entry BOARD_CHANGED ''board'' (''board.'' @ field @ '' changed'') (Some ov) (Some nv)])"

definition board_entries :: "(pyfloat \<Rightarrow> string) \<Rightarrow> board_config \<Rightarrow> board_config \<Rightarrow> diff_entry list" where
  "board_entries float_str ob nb =
     board_entry ''width_mm'' (float_str (board_width_mm ob)) (float_str (board_width_mm nb))
       (board_width_mm ob = board_width_mm nb)
     @ board_entry ''height_mm'' (float_str (board_height_mm ob)) (float_str (board_height_mm nb))
         (board_height_mm ob = board_height_mm nb)
     @ board_entry ''layers'' (str_of_int (board_layers ob)) (str_of_int (board_layers nb))
         (board_layers ob = board_layers nb)"

definition diff_designs :: "(pyfloat \<Rightarrow> string) \<Rightarrow> design \<Rightarrow> design \<Rightarrow> diff_entry list" where
  "diff_designs float_str old new =
     (let oc = comps_by_ref old; nc = comps_by_ref new; on = nets_by_name old; nn = nets_by_name new in
      map (\<lambda>r. mk_entry COMPONENT_REMOVED r (r @ '' ('' @ type_in oc r @ '') removed'') None None) (keys_minus oc nc)
      @ map (\<lambda>r. mk_entry COMPONENT_ADDED r (r @ '' ('' @ type_in nc r @ '') added'') None None) (keys_minus nc oc)
      @ concat (map (changed_entries oc nc) (keys_inter oc nc))
      @ map (\<lambda>n. mk_entry NET_REMOVED n (''net '' @ sq @ n @ sq @ '' removed'') None None) (keys_minus on nn)
      @ map (\<lambda>n. mk_entry NET_ADDED n (''net '' @ sq @ n @ sq @ '' added'') None None) (keys_minus nn on)
      @ board_entries float_str (des_board old) (des_board new))"

definition backtick :: string where "backtick = [char_of (96::nat)]"

definition format_entry :: "diff_entry \<Rightarrow> string" where
  "format_entry e =
     (case (diff_old_value e, diff_new_value e) of
        (Some ov, Some nv) \<Rightarrow>
          ''- **'' @ diff_type_value (diff_type e) @ ''**: '' @ diff_detail e @ '' ('' @ backtick @ ov @ backtick
          @ '' -> '' @ backtick @ nv @ backtick @ '')''
      | _ \<Rightarrow> ''- **'' @ diff_type_value (diff_type e) @ ''**: '' @ diff_detail e)"

definition format_diff :: "diff_entry list \<Rightarrow> string" where
  "format_diff entries =
     (if entries = [] then ''No differences found.''
      else str_join [char_of (10::nat)] (map format_entry entries))"

section \<open>Lemmas\<close>

lemma keys_minus_empty [simp]: "keys_minus a b = [] \<longleftrightarrow> set (dict_keys a) \<subseteq> set (dict_keys b)"
  by (auto simp: keys_minus_def filter_empty_conv)

lemma set_keys_inter [simp]: "set (keys_inter a b) = set (dict_keys a) \<inter> set (dict_keys b)"
  by (auto simp: keys_inter_def)

lemma changed_entries_empty:
  "r \<in> set (dict_keys a) \<Longrightarrow> r \<in> set (dict_keys b) \<Longrightarrow>
   changed_entries a b r = [] \<longleftrightarrow>
     map_option (\<lambda>c. (comp_value c, comp_footprint c)) (dict_get a r)
     = map_option (\<lambda>c. (comp_value c, comp_footprint c)) (dict_get b r)"
  by (auto simp: changed_entries_def pydict.set_keys split: if_splits)

lemma board_entries_empty:
  "board_entries fs ob nb = [] \<longleftrightarrow>
     board_width_mm ob = board_width_mm nb \<and> board_height_mm ob = board_height_mm nb
     \<and> board_layers ob = board_layers nb"
  by (simp add: board_entries_def board_entry_def)

lemma keys_comps [simp]: "set (dict_keys (comps_by_ref d)) = comp_ref ` set (components d)"
  by (simp add: comps_by_ref_def set_keys_comp)

lemma keys_nets [simp]: "set (dict_keys (nets_by_name d)) = net_name ` set (nets d)"
  by (simp add: nets_by_name_def set_keys_comp)

lemma comps_by_ref_get:
  assumes "distinct (map comp_ref (components d))" "c \<in> set (components d)"
  shows "dict_get (comps_by_ref d) (comp_ref c) = Some c"
proof -
  obtain c' where c': "find (\<lambda>x. comp_ref x = comp_ref c) (rev (components d)) = Some c'"
    using assms(2) by (cases "find (\<lambda>x. comp_ref x = comp_ref c) (rev (components d))")
      (auto simp: find_None_props)
  then have "c' \<in> set (components d)" "comp_ref c' = comp_ref c"
    using find_Some_props [OF c'] by auto
  then have "c' = c" using assms by (auto simp: distinct_map inj_on_def)
  then show ?thesis using c' by (simp add: comps_by_ref_def dict_get_comp)
qed

lemma subset_pairs:
  "(A \<subseteq> B \<and> B \<subseteq> A \<and> X \<and> C \<subseteq> D \<and> D \<subseteq> C \<and> Y) \<longleftrightarrow> (A = B \<and> C = D \<and> X \<and> Y)"
  by blast

lemma conj_third_cong: "(E \<Longrightarrow> P \<longleftrightarrow> Q) \<Longrightarrow> (E \<and> N \<and> P \<and> B) \<longleftrightarrow> (E \<and> N \<and> Q \<and> B)"
  by blast

lemma eq_cong_ball_inter:
  "(\<And>r. r \<in> A \<Longrightarrow> r \<in> B \<Longrightarrow> P r \<longleftrightarrow> Q r) \<Longrightarrow>
   (A = B \<and> X \<and> (\<forall>r \<in> A \<inter> B. P r) \<and> Y) \<longleftrightarrow> (A = B \<and> X \<and> (\<forall>r \<in> A. Q r) \<and> Y)"
  by auto

lemma diff_empty_iff:
  "diff_designs fs old new = [] \<longleftrightarrow>
     comp_ref ` set (components old) = comp_ref ` set (components new)
     \<and> net_name ` set (nets old) = net_name ` set (nets new)
     \<and> (\<forall>r \<in> comp_ref ` set (components old).
          map_option (\<lambda>c. (comp_value c, comp_footprint c)) (dict_get (comps_by_ref old) r)
          = map_option (\<lambda>c. (comp_value c, comp_footprint c)) (dict_get (comps_by_ref new) r))
     \<and> board_entries fs (des_board old) (des_board new) = []"
  (is "?l \<longleftrightarrow> ?r")
proof -
  have "?l \<longleftrightarrow> comp_ref ` set (components old) = comp_ref ` set (components new)
     \<and> net_name ` set (nets old) = net_name ` set (nets new)
     \<and> (\<forall>r \<in> comp_ref ` set (components old) \<inter> comp_ref ` set (components new).
          changed_entries (comps_by_ref old) (comps_by_ref new) r = [])
     \<and> board_entries fs (des_board old) (des_board new) = []"
    unfolding diff_designs_def Let_def append_is_Nil_conv map_is_Nil_conv keys_minus_empty concat_eq_Nil_conv
      set_map ball_simps set_keys_inter keys_comps keys_nets
    by (rule subset_pairs)
  also have "\<dots> \<longleftrightarrow> ?r" by (rule eq_cong_ball_inter) (simp add: changed_entries_empty)
  finally show ?thesis .
qed

section \<open>Properties\<close>

text \<open>
  For designs with unique references, the difference is empty exactly when both have
  the same references, the same net names, the same board width, height and layer
  count, and every shared component has the same value and the same footprint.
\<close>

theorem diff_designs_empty_iff:
  assumes "distinct (map comp_ref (components old))" "distinct (map comp_ref (components new))"
  shows "diff_designs fs old new = [] \<longleftrightarrow>
     comp_ref ` set (components old) = comp_ref ` set (components new)
     \<and> net_name ` set (nets old) = net_name ` set (nets new)
     \<and> (\<forall>c\<in>set (components old). \<forall>c'\<in>set (components new). comp_ref c = comp_ref c' \<longrightarrow>
          comp_value c = comp_value c' \<and> comp_footprint c = comp_footprint c')
     \<and> board_width_mm (des_board old) = board_width_mm (des_board new)
     \<and> board_height_mm (des_board old) = board_height_mm (des_board new)
     \<and> board_layers (des_board old) = board_layers (des_board new)"
proof -
  have "(\<forall>r \<in> comp_ref ` set (components old).
          map_option (\<lambda>c. (comp_value c, comp_footprint c)) (dict_get (comps_by_ref old) r)
          = map_option (\<lambda>c. (comp_value c, comp_footprint c)) (dict_get (comps_by_ref new) r))
     \<longleftrightarrow> (\<forall>c\<in>set (components old). \<forall>c'\<in>set (components new). comp_ref c = comp_ref c' \<longrightarrow>
          comp_value c = comp_value c' \<and> comp_footprint c = comp_footprint c')"
    if refs: "comp_ref ` set (components old) = comp_ref ` set (components new)"
  proof -
    have "map_option (\<lambda>c. (comp_value c, comp_footprint c)) (dict_get (comps_by_ref old) (comp_ref c))
          = map_option (\<lambda>c. (comp_value c, comp_footprint c)) (dict_get (comps_by_ref new) (comp_ref c))
        \<longleftrightarrow> (\<forall>c'\<in>set (components new). comp_ref c = comp_ref c' \<longrightarrow>
          comp_value c = comp_value c' \<and> comp_footprint c = comp_footprint c')"
      if c: "c \<in> set (components old)" for c
    proof -
      obtain c' where c': "c' \<in> set (components new)" "comp_ref c' = comp_ref c"
        using refs c by (metis imageE imageI)
      have "inj_on comp_ref (set (components new))" using assms(2) by (simp add: distinct_map)
      then have "(\<forall>x\<in>set (components new). comp_ref c = comp_ref x \<longrightarrow> P x) \<longleftrightarrow> P c'" for P
        using c' by (metis inj_onD)
      then show ?thesis
        using comps_by_ref_get [OF assms(1) c] comps_by_ref_get [OF assms(2) c'(1)]
        by (simp add: c'(2))
    qed
    then show ?thesis by simp
  qed
  note same = this
  show ?thesis
    unfolding diff_empty_iff board_entries_empty
    by (rule conj_third_cong) (rule same)
qed

text \<open>
  Rewiring is invisible to the difference: designs that differ only in the nodes of
  their nets have an empty difference, so no net-node entry is ever produced.
\<close>

theorem diff_ignores_connectivity:
  "diff_designs fs d (d\<lparr> des_nets := map (\<lambda>(k, n). (k, n\<lparr> net_nodes := rewire k n \<rparr>)) (des_nets d) \<rparr>) = []
   \<and> \<not> list_ex (\<lambda>e. diff_type e \<in> {NET_NODE_ADDED, NET_NODE_REMOVED, COMPONENT_CHANGED})
        (diff_designs fs old new)"
proof -
  have names: "net_name ` set (dict_values (map (\<lambda>(k, n). (k, n\<lparr> net_nodes := rewire k n \<rparr>)) ns))
      = net_name ` set (dict_values ns)" for ns
    by (simp add: dict_values_def image_image case_prod_beta)
  have "diff_designs fs d (d\<lparr> des_nets := map (\<lambda>(k, n). (k, n\<lparr> net_nodes := rewire k n \<rparr>)) (des_nets d) \<rparr>) = []"
    by (simp add: diff_empty_iff board_entries_empty names comps_by_ref_def)
  moreover have "diff_type e \<notin> {NET_NODE_ADDED, NET_NODE_REMOVED, COMPONENT_CHANGED}"
    if "e \<in> set (diff_designs fs old new)" for e
    using that
    by (auto simp: diff_designs_def Let_def mk_entry_def changed_entries_def board_entries_def board_entry_def
             split: option.splits if_splits)
  ultimately show ?thesis by (auto simp: list_ex_iff)
qed

definition led_design :: "string \<Rightarrow> design" where
  "led_design v = mk_design ''demo''
     [(''d1'', (mk_component ''d1'' ''D1'' ''LED'')\<lparr> comp_value := Some v \<rparr>)] []"

theorem diff_designs_empty_iff_witness:
  "diff_designs (\<lambda>_. []) (led_design ''red'') (led_design ''red'') = []
   \<and> diff_designs (\<lambda>_. []) (led_design ''red'') (led_design ''blue'') \<noteq> []"
proof -
  have "distinct (map comp_ref (components (led_design v)))" for v
    by (simp add: led_design_def mk_design_def dict_values_def)
  from diff_designs_empty_iff [OF this this]
  show ?thesis by (simp add: led_design_def mk_design_def dict_values_def mk_component_def)
qed

end
