(* ===== verification/Sexp_Codec.thy ===== *)
theory Sexp_Codec
  imports Zap_Prelude
begin

text \<open>
  \<^verbatim>\<open>src/zaptrace/io/sexp.py\<close>: the S-expression tokenizer, parser and writer. The cursor
  of the tokenizer is the line, the column and the rest of the source; the parser
  walks the rest of the token list instead of a position in it. Python's recursive
  node type \<^verbatim>\<open>str | list\<close> is the datatype \<open>sexp\<close>.
\<close>

datatype sexp = Atom string | SList "sexp list"

record token =
  tok_value :: string
  tok_line :: nat
  tok_col :: nat
  tok_is_quoted :: bool

section \<open>The tokenizer\<close>

datatype pos = Pos (pos_line: nat) (pos_col: nat)

type_synonym cursor = "pos \<times> string"

fun next_pos :: "pos \<Rightarrow> char \<Rightarrow> pos" where
  "next_pos (Pos l c) ch = (if ch = CHR 0x0A then Pos (l + 1) 1 else Pos l (c + 1))"

fun advance :: "cursor \<Rightarrow> cursor" where
  "advance (p, []) = (Pos (pos_line p) (pos_col p + 1), [])"
| "advance (p, ch # s) = (next_pos p ch, s)"

fun skip_comment :: "cursor \<Rightarrow> cursor" where
  "skip_comment (p, []) = (p, [])"
| "skip_comment (p, ch # s) =
     (if ch = CHR 0x0A then (p, ch # s) else skip_comment (next_pos p ch, s))"

definition decode_escape :: "char \<Rightarrow> char" where
  "decode_escape ch =
     (if ch = CHR ''n'' then CHR 0x0A else if ch = CHR ''t'' then CHR 0x09
      else if ch = CHR ''r'' then CHR 0x0D else if ch = CHR ''0'' then CHR 0x00 else ch)"

text \<open>The loop of \<open>quoted_token\<close> after the opening quote; \<open>None\<close> when the source ends first.\<close>

fun quoted_chars :: "pos \<Rightarrow> string \<Rightarrow> (string \<times> cursor) option" where
  "quoted_chars p [] = None"
| "quoted_chars p (ch # s) =
     (if ch = CHR 0x5C \<and> s \<noteq> [] then
        map_option (apfst (Cons (decode_escape (hd s))))
          (quoted_chars (next_pos (next_pos p ch) (hd s)) (tl s))
      else if ch = CHR 0x22 then Some ([], next_pos p ch, s)
      else map_option (apfst (Cons ch)) (quoted_chars (next_pos p ch) s))"

definition quoted_token :: "pos \<Rightarrow> string \<Rightarrow> (token \<times> cursor) result" where
  "quoted_token p s =
     (case quoted_chars (next_pos p (hd s)) (tl s) of
        None \<Rightarrow> Inl (SexpParseError ''Unterminated quoted string'' (pos_line p) (pos_col p))
      | Some (cs, cur) \<Rightarrow>
          Inr (\<lparr> tok_value = cs, tok_line = pos_line p, tok_col = pos_col p, tok_is_quoted = True \<rparr>, cur))"

definition bare_stop :: "char \<Rightarrow> bool" where
  "bare_stop ch =
     (ch \<in> {CHR '' '', CHR 0x09, CHR 0x0D, CHR 0x0A, CHR ''('', CHR '')'', CHR 0x22, CHR '';'', CHR 0x5C})"

fun bare_chars :: "cursor \<Rightarrow> string \<times> cursor" where
  "bare_chars (p, []) = ([], p, [])"
| "bare_chars (p, ch # s) =
     (if bare_stop ch then ([], p, ch # s) else apfst (Cons ch) (bare_chars (next_pos p ch, s)))"

definition bare_token :: "pos \<Rightarrow> string \<Rightarrow> token \<times> cursor" where
  "bare_token p s =
     (case bare_chars (p, s) of
        (cs, cur) \<Rightarrow>
          (\<lparr> tok_value = cs, tok_line = pos_line p, tok_col = pos_col p, tok_is_quoted = False \<rparr>, cur))"

definition paren_token :: "char \<Rightarrow> pos \<Rightarrow> token" where
  "paren_token ch p = \<lparr> tok_value = [ch], tok_line = pos_line p, tok_col = pos_col p, tok_is_quoted = False \<rparr>"

lemma length_skip_comment: "length (snd (skip_comment (p, s))) \<le> length s"
  by (induction s arbitrary: p) (auto intro: le_SucI)

lemma length_quoted_chars: "quoted_chars p s = Some (cs, q, s') \<Longrightarrow> length s' < length s"
  by (induction p s arbitrary: cs rule: quoted_chars.induct) (fastforce split: if_splits)+

lemma length_bare_chars: "length (snd (snd (bare_chars (p, s)))) \<le> length s"
  by (induction s arbitrary: p) (auto intro: le_SucI)

lemma quoted_token_shorter:
  "quoted_token p (ch # s) = Inr (t, q, s') \<Longrightarrow> length s' < Suc (length s)"
  by (auto simp: quoted_token_def split: option.splits dest!: length_quoted_chars)

function tokenize_at :: "pos \<Rightarrow> string \<Rightarrow> token list result" where
  "tokenize_at p [] = Inr []"
| "tokenize_at p (ch # s) =
     (if ch \<in> {CHR '' '', CHR 0x09, CHR 0x0D, CHR 0x0A} then tokenize_at (next_pos p ch) s
      else if ch = CHR '';'' then
        tokenize_at (fst (skip_comment (p, ch # s))) (snd (skip_comment (p, ch # s)))
      else if ch = CHR ''('' \<or> ch = CHR '')'' then
        map_sum id (Cons (paren_token ch p)) (tokenize_at (next_pos p ch) s)
      else if ch = CHR 0x22 then
        (case quoted_token p (ch # s) of
           Inl e \<Rightarrow> Inl e
         | Inr (t, q, s') \<Rightarrow> map_sum id (Cons t) (tokenize_at q s'))
      else if ch = CHR 0x5C then
        Inl (SexpParseError ''Unexpected backslash outside quoted string'' (pos_line p) (pos_col p))
      else map_sum id (Cons (fst (bare_token p (ch # s))))
             (tokenize_at (fst (snd (bare_token p (ch # s)))) (snd (snd (bare_token p (ch # s))))))"
  by pat_completeness auto
termination
  by (relation "measure (\<lambda>(p, s). length s)")
     (auto simp: less_Suc_eq_le length_skip_comment length_bare_chars bare_token_def bare_stop_def
        case_prod_beta dest: quoted_token_shorter)

declare tokenize_at.simps(2) [simp del]

definition tokenize :: "string \<Rightarrow> token list result" where
  "tokenize s = tokenize_at (Pos 1 1) s"

section \<open>The parser\<close>

function (sequential) parse_tokens :: "token list \<Rightarrow> (sexp \<times> token list) result"
  and parse_items :: "token \<Rightarrow> sexp list \<Rightarrow> token list \<Rightarrow> (sexp \<times> token list) result" where
  "parse_tokens [] = Inl (SexpParseError ''Unexpected end of input'' 0 0)"
| "parse_tokens (t # ts) =
     (if tok_value t = '')'' then
        Inl (SexpParseError (''Unexpected '' @ sq @ '')'' @ sq) (tok_line t) (tok_col t))
      else if tok_value t = ''('' then parse_items t [] ts
      else Inr (Atom (tok_value t), ts))"
| "parse_items t items [] =
     Inl (SexpParseError (''Unclosed '' @ sq @ ''('' @ sq @ '' '' @ em_dash @ '' missing '' @ sq @ '')'' @ sq)
            (tok_line t) (tok_col t))"
| "parse_items t items (u # us) =
     (if tok_value u = '')'' then Inr (SList items, us)
      else (case parse_tokens (u # us) of
              Inl e \<Rightarrow> Inl e
            | Inr (child, rest) \<Rightarrow> parse_items t (items @ [child]) rest))"
  by pat_completeness auto

termination
proof (relation "measure (\<lambda>x. case x of Inl ts \<Rightarrow> 2 * length ts | Inr (t, items, us) \<Rightarrow> 2 * length us + 1)")
  have shorter: "parse_tokens_parse_items_dom (Inl ts) \<Longrightarrow> parse_tokens ts = Inr (n, rest) \<Longrightarrow> length rest < length ts"
    and "parse_tokens_parse_items_dom (Inr (t, items, us)) \<Longrightarrow>
      parse_items t items us = Inr (n, rest) \<Longrightarrow> length rest < length us"
    for ts n rest t items us
    by (induction arbitrary: n rest and n rest rule: parse_tokens_parse_items.pinduct)
       (auto simp: parse_tokens.psimps parse_items.psimps split: if_splits sum.splits, metis less_trans)
  show "(Inr (t, items @ [child], rest), Inr (t, items, u # us))
      \<in> measure (\<lambda>x. case x of Inl ts \<Rightarrow> 2 * length ts | Inr (t, items, us) \<Rightarrow> 2 * length us + 1)"
    if "parse_tokens (u # us) = Inr z" "(child, rest) = z" "parse_tokens_parse_items_dom (Inl (u # us))"
    for t items u us z child rest
    using shorter [of "u # us" child rest] that by simp
qed auto

lemma parse_tokens_shorter:
  "parse_tokens ts = Inr (n, rest) \<Longrightarrow> length rest < length ts"
  "parse_items t items us = Inr (n, rest) \<Longrightarrow> length rest < length us"
  by (induction ts and t items us arbitrary: n rest and n rest rule: parse_tokens_parse_items.induct)
     (auto split: if_splits sum.splits intro: less_SucI, metis less_trans)

function parse_roots :: "token list \<Rightarrow> sexp list result" where
  "parse_roots ts =
     (if ts = [] then Inr []
      else (case parse_tokens ts of
              Inl e \<Rightarrow> Inl e
            | Inr (n, rest) \<Rightarrow> map_sum id (Cons n) (parse_roots rest)))"
  by auto
termination
  by (relation "measure length") (auto dest: parse_tokens_shorter)


declare parse_roots.simps [simp del]

definition parse :: "string \<Rightarrow> sexp result" where
  "parse s =
     (case tokenize s of
        Inl e \<Rightarrow> Inl e
      | Inr ts \<Rightarrow>
          (case parse_roots ts of
             Inl e \<Rightarrow> Inl e
           | Inr roots \<Rightarrow> Inr (case roots of [] \<Rightarrow> SList [] | [r] \<Rightarrow> r | _ \<Rightarrow> SList roots)))"

section \<open>The writer\<close>

definition NEEDS_QUOTE_CHARS :: "char set" where
  "NEEDS_QUOTE_CHARS = {CHR '' '', CHR 0x09, CHR 0x0A, CHR 0x0D, CHR 0x22, CHR 0x5C, CHR ''('', CHR '')''}"

definition escape_char :: "char \<Rightarrow> string" where
  "escape_char ch =
     (if ch = CHR 0x22 then [CHR 0x5C, CHR 0x22] else if ch = CHR 0x5C then [CHR 0x5C, CHR 0x5C]
      else if ch = CHR 0x0A then [CHR 0x5C, CHR ''n''] else if ch = CHR 0x09 then [CHR 0x5C, CHR ''t'']
      else [ch])"

definition write_atom :: "string \<Rightarrow> string" where
  "write_atom a =
     (if a = [] then [CHR 0x22, CHR 0x22]
      else if list_ex (\<lambda>ch. ch \<in> NEEDS_QUOTE_CHARS) a
      then CHR 0x22 # concat (map escape_char a) @ [CHR 0x22]
      else a)"

fun is_atom :: "sexp \<Rightarrow> bool" where
  "is_atom (Atom a) = True"
| "is_atom (SList ns) = False"

definition pad :: "nat \<Rightarrow> string" where
  "pad n = replicate (2 * n) (CHR '' '')"

fun write_sexp :: "nat \<Rightarrow> nat \<Rightarrow> sexp \<Rightarrow> string" where
  "write_sexp indent max_inline (Atom a) = write_atom a"
| "write_sexp indent max_inline (SList ns) =
     (if ns = [] then ''()''
      else if list_all is_atom ns \<and> length ns \<le> max_inline
      then ''('' @ str_join '' '' (map (write_sexp indent max_inline) ns) @ '')''
      else ''('' @ [CHR 0x0A]
           @ str_join [CHR 0x0A] (map (\<lambda>child. pad (indent + 1) @ write_sexp (indent + 1) max_inline child) ns)
           @ [CHR 0x0A] @ pad indent @ '')'')"

section \<open>Tokenizing what the writer wrote\<close>

text \<open>The token values of a node, and the atoms the codec carries faithfully.\<close>

fun flat :: "sexp \<Rightarrow> string list" where
  "flat (Atom a) = [a]"
| "flat (SList ns) = ''('' # concat (map flat ns) @ ['')'']"

definition safe_atom :: "string \<Rightarrow> bool" where
  "safe_atom a =
     (a \<noteq> ''('' \<and> a \<noteq> '')''
      \<and> (CHR '';'' \<in> set a \<longrightarrow> list_ex (\<lambda>ch. ch \<in> NEEDS_QUOTE_CHARS) a))"

fun safe :: "sexp \<Rightarrow> bool" where
  "safe (Atom a) = safe_atom a"
| "safe (SList ns) = list_all safe ns"

definition vals :: "pos \<Rightarrow> string \<Rightarrow> string list result" where
  "vals p s = map_sum id (map tok_value) (tokenize_at p s)"

definition yields :: "string \<Rightarrow> string list \<Rightarrow> string \<Rightarrow> bool" where
  "yields s vs r = (\<forall>p. \<exists>q. vals p (s @ r) = map_sum id ((@) vs) (vals q r))"

definition delimited :: "string \<Rightarrow> bool" where
  "delimited r = (r = [] \<or> bare_stop (hd r))"


lemma vals_Nil [simp]: "vals p [] = Inr []"
  by (simp add: vals_def)

lemma map_sum_append: "map_sum id ((@) vs) (map_sum id ((@) ws) x) = map_sum id ((@) (vs @ ws)) x"
  by (cases x) auto

lemma yields_append:
  assumes "yields s vs (t @ r)" "yields t ws r"
  shows "yields (s @ t) (vs @ ws) r"
  unfolding yields_def
proof
  fix p
  obtain q where q: "vals p (s @ t @ r) = map_sum id ((@) vs) (vals q (t @ r))"
    using assms(1) by (auto simp: yields_def)
  obtain q' where "vals q (t @ r) = map_sum id ((@) ws) (vals q' r)"
    using assms(2) by (auto simp: yields_def)
  with q have "vals p ((s @ t) @ r) = map_sum id ((@) (vs @ ws)) (vals q' r)"
    by (simp add: map_sum_append)
  then show "\<exists>q. vals p ((s @ t) @ r) = map_sum id ((@) (vs @ ws)) (vals q r)" ..
qed

definition blank :: "char \<Rightarrow> bool" where
  "blank ch = (ch \<in> {CHR '' '', CHR 0x09, CHR 0x0D, CHR 0x0A})"

lemma map_sum_append_Nil: "map_sum id ((@) []) x = x"
  by (cases x) auto

lemma yields_Nil: "yields [] [] r"
  by (auto simp: yields_def map_sum_append_Nil)

lemma yields_blank: "blank ch \<Longrightarrow> yields [ch] [] r"
  by (auto simp: yields_def blank_def vals_def tokenize_at.simps(2) map_sum_append_Nil sum.map_id0)

lemma yields_blanks: "list_all blank bs \<Longrightarrow> yields bs [] r"
proof (induction bs)
  case (Cons b bs)
  then have "yields ([b] @ bs) ([] @ []) r" by (intro yields_append yields_blank) auto
  then show ?case by simp
qed (rule yields_Nil)

lemma yields_paren:
  assumes "ch = CHR ''('' \<or> ch = CHR '')''"
  shows "yields [ch] [[ch]] r"
proof -
  have "vals p ([ch] @ r) = map_sum id ((@) [[ch]]) (vals (next_pos p ch) r)" for p
    using assms by (cases "tokenize_at (next_pos p ch) r")
      (auto simp: vals_def tokenize_at.simps(2) paren_token_def)
  then show ?thesis by (auto simp: yields_def)
qed

lemma quoted_chars_escape:
  "\<exists>q. quoted_chars p (concat (map escape_char a) @ CHR 0x22 # r) = Some (a, q, r)"
proof (induction a arbitrary: p)
  case (Cons ch a)
  have step: "quoted_chars p (escape_char ch @ s)
      = map_option (apfst (Cons ch)) (quoted_chars (foldl next_pos p (escape_char ch)) s)" for s
    by (simp add: escape_char_def decode_escape_def)
  obtain q where "quoted_chars (foldl next_pos p (escape_char ch)) (concat (map escape_char a) @ CHR 0x22 # r)
      = Some (a, q, r)"
    using Cons by blast
  then show ?case using step [of "concat (map escape_char a) @ CHR 0x22 # r"] by simp
qed simp

lemma yields_quoted: "yields (CHR 0x22 # concat (map escape_char a) @ [CHR 0x22]) [a] r"
  unfolding yields_def
proof
  fix p
  obtain q where q:
    "quoted_chars (next_pos p (CHR 0x22)) (concat (map escape_char a) @ CHR 0x22 # r) = Some (a, q, r)"
    using quoted_chars_escape by blast
  show "\<exists>q. vals p ((CHR 0x22 # concat (map escape_char a) @ [CHR 0x22]) @ r) = map_sum id ((@) [a]) (vals q r)"
    by (rule exI [of _ q], cases "tokenize_at q r")
       (auto simp: vals_def tokenize_at.simps(2) quoted_token_def q simp del: next_pos.simps)
qed

lemma bare_chars_run:
  "list_all (\<lambda>ch. \<not> bare_stop ch) a \<Longrightarrow> delimited r \<Longrightarrow> \<exists>q. bare_chars (p, a @ r) = (a, q, r)"
proof (induction a arbitrary: p)
  case Nil
  then show ?case by (cases r) (auto simp: delimited_def)
next
  case (Cons ch a)
  then obtain q where "bare_chars (next_pos p ch, a @ r) = (a, q, r)" by auto
  then show ?case using Cons.prems by simp
qed

lemma yields_bare:
  assumes "a \<noteq> []" "list_all (\<lambda>ch. \<not> bare_stop ch) a" "delimited r"
  shows "yields a [a] r"
  unfolding yields_def
proof
  fix p
  obtain q where q: "bare_chars (p, a @ r) = (a, q, r)" using bare_chars_run assms by blast
  obtain ch a' where a: "a = ch # a'" using assms(1) by (cases a) auto
  then have "\<not> bare_stop ch" using assms(2) by simp
  then show "\<exists>q. vals p (a @ r) = map_sum id ((@) [a]) (vals q r)"
    using q by (intro exI [of _ q], cases "tokenize_at q r")
      (auto simp: a vals_def tokenize_at.simps(2) bare_token_def bare_stop_def simp del: next_pos.simps bare_chars.simps)
qed

lemma yields_atom:
  assumes "safe_atom a" "delimited r"
  shows "yields (write_atom a) [a] r"
proof (cases "a = [] \<or> list_ex (\<lambda>ch. ch \<in> NEEDS_QUOTE_CHARS) a")
  case True
  then show ?thesis using yields_quoted [of a r] by (auto simp: write_atom_def)
next
  case False
  then have "list_all (\<lambda>ch. \<not> bare_stop ch) a"
    using assms(1) by (auto simp: safe_atom_def list_all_iff list_ex_iff bare_stop_def NEEDS_QUOTE_CHARS_def)
  then show ?thesis using False assms(2) by (auto simp: write_atom_def intro: yields_bare)
qed


lemma yields_join:
  assumes "\<And>n r. n \<in> set ns \<Longrightarrow> delimited r \<Longrightarrow> yields (f n) (flat n) r"
    and "blank w" "delimited r"
  shows "yields (str_join [w] (map f ns)) (concat (map flat ns)) r"
  using assms(1)
proof (induction ns)
  case Nil
  show ?case by (simp add: yields_Nil)
next
  case (Cons n ns)
  show ?case
  proof (cases ns)
    case Nil
    then show ?thesis using Cons.prems assms(3) by simp
  next
    case (Cons m ms)
    have rest: "yields (str_join [w] (map f ns)) (concat (map flat ns)) r"
      using Cons.IH Cons.prems by simp
    have "yields ([w] @ str_join [w] (map f ns)) ([] @ concat (map flat ns)) r"
      by (rule yields_append [OF yields_blank [OF assms(2)] rest])
    moreover have "delimited ([w] @ x)" for x
      using assms(2) by (auto simp: delimited_def blank_def bare_stop_def)
    ultimately have "yields (f n @ [w] @ str_join [w] (map f ns)) (flat n @ concat (map flat ns)) r"
      using Cons.prems by (intro yields_append) (auto simp del: append_Cons)
    then show ?thesis using Cons by simp
  qed
qed

lemma blank_pad: "list_all blank (pad n)"
  by (simp add: pad_def blank_def list_all_iff)

lemma delimited_simps [simp]:
  "delimited (CHR '')'' # r)" "delimited (CHR '' '' # r)" "delimited (CHR 0x0A # r)" "delimited []"
  by (simp_all add: delimited_def bare_stop_def)

lemma yields_write:
  "safe n \<Longrightarrow> delimited r \<Longrightarrow> yields (write_sexp i m n) (flat n) r"
proof (induction n arbitrary: i r)
  case (Atom a)
  then show ?case by (simp add: yields_atom)
next
  case (SList ns)
  have IH: "yields (write_sexp j m n) (flat n) r'" if "n \<in> set ns" "delimited r'" for n j r'
    using SList.IH [OF that(1)] SList.prems(1) that by (auto simp: list_all_iff)
  have open_paren: "yields ''('' [''(''] x" and close_paren: "yields '')'' ['')''] x" for x
    by (rule yields_paren, simp)+
  consider "ns = []" | "ns \<noteq> []" "list_all is_atom ns \<and> length ns \<le> m"
    | "ns \<noteq> []" "\<not> (list_all is_atom ns \<and> length ns \<le> m)" by blast
  then show ?case
  proof cases
    case 1
    then show ?thesis using yields_append [OF open_paren close_paren] by simp
  next
    case 2
    have "yields (str_join '' '' (map (write_sexp i m) ns)) (concat (map flat ns)) ('')'' @ r)"
      by (rule yields_join) (auto simp: IH blank_def)
    from yields_append [OF open_paren yields_append [OF this close_paren]]
    show ?thesis using 2 by simp
  next
    case 3
    have child: "yields (pad (i + 1) @ write_sexp (i + 1) m n) (flat n) r'"
      if "n \<in> set ns" "delimited r'" for n r'
      using yields_append [OF yields_blanks [OF blank_pad] IH [OF that]] by simp
    have items: "yields (str_join [CHR 0x0A] (map (\<lambda>child. pad (i + 1) @ write_sexp (i + 1) m child) ns))
        (concat (map flat ns)) (([CHR 0x0A] @ pad i @ '')'') @ r)"
      by (rule yields_join) (use child in \<open>auto simp: blank_def\<close>)
    have newline: "yields [CHR 0x0A] [] x" for x by (rule yields_blank) (simp add: blank_def)
    have tail: "yields ([CHR 0x0A] @ pad i @ '')'') ([] @ [] @ ['')'']) r"
      by (intro yields_append newline yields_blanks close_paren blank_pad)
    from yields_append [OF open_paren yields_append [OF newline yields_append [OF items tail]]]
    show ?thesis using 3 by auto
  qed
qed

section \<open>Parsing the tokens of a node\<close>

lemma parse_flat:
  "safe n \<Longrightarrow> map tok_value ts = flat n @ vs \<Longrightarrow>
   \<exists>ts'. parse_tokens ts = Inr (n, ts') \<and> map tok_value ts' = vs"
proof (induction n arbitrary: ts vs)
  case (Atom a)
  then show ?case by (cases ts) (auto simp: safe_atom_def)
next
  case (SList ns)
  have items: "\<exists>ts'. parse_items t items us = Inr (SList (items @ ms), ts') \<and> map tok_value ts' = vs"
    if "set ms \<subseteq> set ns" "map tok_value us = concat (map flat ms) @ '')'' # vs" for t items ms us
    using that
  proof (induction ms arbitrary: items us)
    case Nil
    then show ?case by (cases us) auto
  next
    case (Cons m ms)
    then have "safe m" using SList.prems(1) by (auto simp: list_all_iff)
    with Cons.prems SList.IH [of m us "concat (map flat ms) @ '')'' # vs"]
    obtain us' where us': "parse_tokens us = Inr (m, us')"
      "map tok_value us' = concat (map flat ms) @ '')'' # vs" by auto
    with Cons obtain ts' where "parse_items t (items @ [m]) us' = Inr (SList ((items @ [m]) @ ms), ts')"
      "map tok_value ts' = vs" by fastforce
    moreover obtain u us'' where "us = u # us''" "tok_value u \<noteq> '')''"
      using us' by (cases us) (auto split: if_splits)
    ultimately show ?case using us' by (auto simp del: parse_tokens.simps)
  qed
  from SList.prems obtain t us where ts: "ts = t # us" "tok_value t = ''(''"
    "map tok_value us = concat (map flat ns) @ '')'' # vs" by (cases ts) auto
  then show ?case using items [of ns us t "[]"] by simp
qed

section \<open>Properties\<close>

text \<open>
  C25: Round trip: writing a node and parsing the text gives the node back, at every
  indentation and inline limit, for every node whose atoms are not a lone parenthesis
  and contain a semicolon only beside a character that forces quoting.
\<close>

theorem sexp_round_trip:
  assumes "safe n"
  shows "parse (write_sexp indent max_inline n) = Inr n"
proof -
  obtain q where "vals (Pos 1 1) (write_sexp indent max_inline n @ []) = map_sum id ((@) (flat n)) (vals q [])"
    using yields_write [OF assms, of "[]"] unfolding yields_def by fastforce
  then obtain ts where ts: "tokenize (write_sexp indent max_inline n) = Inr ts" "map tok_value ts = flat n @ []"
    by (cases "tokenize (write_sexp indent max_inline n)") (auto simp: vals_def tokenize_def)
  from parse_flat [OF assms ts(2)] obtain "parse_tokens ts = Inr (n, [])" by auto
  moreover from this have "ts \<noteq> []" by auto
  ultimately have "parse_roots ts = Inr [n]" by (simp add: parse_roots.simps)
  then show ?thesis using ts(1) by (simp add: parse_def)
qed

theorem sexp_round_trip_witness:
  "safe (SList [Atom ''net'', Atom ''a b'', SList [Atom ''at'', Atom [], SList []]])
   \<and> parse (write_sexp 0 8 (SList [Atom ''net'', Atom ''a b'', SList [Atom ''at'', Atom [], SList []]]))
     = Inr (SList [Atom ''net'', Atom ''a b'', SList [Atom ''at'', Atom [], SList []]])"
proof -
  have "safe (SList [Atom ''net'', Atom ''a b'', SList [Atom ''at'', Atom [], SList []]])"
    by (simp add: safe_atom_def)
  then show ?thesis using sexp_round_trip by blast
qed

lemma skip_comment_no_newline: "CHR 0x0A \<notin> set s \<Longrightarrow> snd (skip_comment (p, s)) = []"
  by (induction s arbitrary: p) auto

lemma tokenize_comment:
  assumes "CHR 0x0A \<notin> set y"
  shows "vals p (CHR '';'' # y) = Inr []"
  using assms skip_comment_no_newline [of "CHR '';'' # y" p]
  by (simp add: vals_def tokenize_at.simps(2))

text \<open>
  The writer emits an atom with a semicolon bare, and the tokenizer reads the
  semicolon as the start of a comment: everything from it on is lost.
\<close>

theorem sexp_semicolon_lost:
  assumes "x \<noteq> []" "list_all (\<lambda>ch. \<not> bare_stop ch) x"
    and "list_all (\<lambda>ch. ch \<notin> NEEDS_QUOTE_CHARS) y"
  shows "parse (write_sexp indent max_inline (Atom (x @ '';'' @ y))) = Inr (Atom x)"
proof -
  have "write_atom (x @ '';'' @ y) = x @ '';'' @ y"
    using assms by (auto simp: write_atom_def list_ex_iff list_all_iff bare_stop_def NEEDS_QUOTE_CHARS_def)
  moreover have "yields x [x] ('';'' @ y)"
    using assms(1,2) by (rule yields_bare) (simp add: delimited_def bare_stop_def)
  moreover have "CHR 0x0A \<notin> set y"
    using assms(3) by (auto simp: list_all_iff NEEDS_QUOTE_CHARS_def)
  ultimately have "vals (Pos 1 1) (write_sexp indent max_inline (Atom (x @ '';'' @ y))) = Inr [x]"
    by (auto simp: yields_def tokenize_comment)
  then obtain t where t: "tokenize (write_sexp indent max_inline (Atom (x @ '';'' @ y))) = Inr [t]" "tok_value t = x"
    by (cases "tokenize (write_sexp indent max_inline (Atom (x @ '';'' @ y)))")
       (auto simp: vals_def tokenize_def)
  have "x \<noteq> ''(''" "x \<noteq> '')''" using assms(2) by (auto simp: bare_stop_def)
  then have "parse_roots [t] = Inr [Atom x]" by (simp add: parse_roots.simps t(2))
  then show ?thesis using t(1) by (simp add: parse_def)
qed

theorem sexp_semicolon_lost_witness:
  "parse (write_sexp 0 8 (Atom ''R1;DNP'')) = Inr (Atom ''R1'')"
  using sexp_semicolon_lost [of "''R1''" "''DNP''" 0 8] by (simp add: bare_stop_def NEEDS_QUOTE_CHARS_def)

end
