(* ===== verification/Signoff_Policy.thy ===== *)
theory Signoff_Policy
  imports Zap_Prelude
begin

text \<open>
  \<^verbatim>\<open>src/zaptrace/proof/signoff.py\<close> (the autonomous sign-off policy) and
  \<^verbatim>\<open>src/zaptrace/proof/claims.py\<close> (the guard on fabrication claims). The statuses are
  ordered by how conservative they are, the precedence the source documents.
\<close>

section \<open>Statuses and evidence\<close>

datatype signoff_status =
    AUTONOMOUS_PASS
  | HUMAN_REVIEW_REQUIRED
  | BLOCKED_INSUFFICIENT_EVIDENCE
  | UNSUPPORTED_DOMAIN
  | UNSAFE_TO_FABRICATE

fun signoff_status_value :: "signoff_status \<Rightarrow> string" where
  "signoff_status_value AUTONOMOUS_PASS = ''autonomous-pass''"
| "signoff_status_value HUMAN_REVIEW_REQUIRED = ''human-review-required''"
| "signoff_status_value BLOCKED_INSUFFICIENT_EVIDENCE = ''blocked-insufficient-evidence''"
| "signoff_status_value UNSUPPORTED_DOMAIN = ''unsupported-domain''"
| "signoff_status_value UNSAFE_TO_FABRICATE = ''unsafe-to-fabricate''"

fun conservatism :: "signoff_status \<Rightarrow> nat" where
  "conservatism AUTONOMOUS_PASS = 0"
| "conservatism HUMAN_REVIEW_REQUIRED = 1"
| "conservatism BLOCKED_INSUFFICIENT_EVIDENCE = 2"
| "conservatism UNSUPPORTED_DOMAIN = 3"
| "conservatism UNSAFE_TO_FABRICATE = 4"

lemma conservatism_inj: "conservatism a = conservatism b \<longleftrightarrow> a = b"
  by (cases a; cases b) simp_all

instantiation signoff_status :: linorder
begin

definition less_eq_signoff_status :: "signoff_status \<Rightarrow> signoff_status \<Rightarrow> bool" where
  "less_eq_signoff_status a b \<longleftrightarrow> conservatism a \<le> conservatism b"

definition less_signoff_status :: "signoff_status \<Rightarrow> signoff_status \<Rightarrow> bool" where
  "less_signoff_status a b \<longleftrightarrow> conservatism a < conservatism b"

instance
  by standard
     (auto simp: less_eq_signoff_status_def less_signoff_status_def conservatism_inj
           dest: le_antisym [of "conservatism _"])

end

datatype signoff_check_status = SC_PASS | SC_WARNING | SC_FAIL | SC_SKIPPED | SC_UNKNOWN

record signoff_evidence =
  se_name :: string
  se_status :: signoff_check_status
  se_source :: string
  se_summary :: string
  se_release_blocking :: bool
  se_evidence_required :: bool
  se_human_review_required :: bool
  se_unsupported :: bool
  se_unsafe :: bool
  se_approval_id :: string

definition is_missing_required_evidence :: "signoff_evidence \<Rightarrow> bool" where
  "is_missing_required_evidence e = (se_evidence_required e \<and> se_status e \<in> {SC_SKIPPED, SC_UNKNOWN})"

definition is_release_blocking_failure :: "signoff_evidence \<Rightarrow> bool" where
  "is_release_blocking_failure e = (se_release_blocking e \<and> se_status e = SC_FAIL)"

definition requires_human_review :: "signoff_evidence \<Rightarrow> bool" where
  "requires_human_review e = (se_human_review_required e \<or> se_status e = SC_WARNING)"

record signoff_decision =
  sd_status :: signoff_status
  sd_summary :: string
  sd_evidence :: "signoff_evidence list"
  sd_blocking_checks :: "string list"
  sd_human_review_checks :: "string list"
  sd_unsupported_checks :: "string list"
  sd_unsafe_checks :: "string list"

definition autonomous_pass :: "signoff_decision \<Rightarrow> bool" where
  "autonomous_pass d = (sd_status d = AUTONOMOUS_PASS)"

definition blocks_autonomous_pass :: "signoff_decision \<Rightarrow> bool" where
  "blocks_autonomous_pass d = (sd_status d \<noteq> AUTONOMOUS_PASS)"

definition to_evidence_record :: "signoff_decision \<Rightarrow> (string, pyval) dict" where
  "to_evidence_record d =
     [(''status'', PStr (signoff_status_value (sd_status d))), (''summary'', PStr (sd_summary d)),
      (''blocking_checks'', PList (map PStr (sd_blocking_checks d))),
      (''human_review_checks'', PList (map PStr (sd_human_review_checks d))),
      (''unsupported_checks'', PList (map PStr (sd_unsupported_checks d))),
      (''unsafe_checks'', PList (map PStr (sd_unsafe_checks d))),
      (''evidence_count'', PInt (int (length (sd_evidence d))))]"

section \<open>The policy\<close>

definition names_where :: "(signoff_evidence \<Rightarrow> bool) \<Rightarrow> signoff_evidence list \<Rightarrow> string list" where
  "names_where P ev = map se_name (filter P ev)"

definition evaluate :: "bool \<Rightarrow> signoff_evidence list \<Rightarrow> signoff_decision" where
  "evaluate require_at_least_one_evidence_item ev =
     (if require_at_least_one_evidence_item \<and> ev = [] then
        \<lparr> sd_status = BLOCKED_INSUFFICIENT_EVIDENCE, sd_summary = ''No sign-off evidence was provided.'',
          sd_evidence = [], sd_blocking_checks = [''missing-signoff-evidence''],
          sd_human_review_checks = [], sd_unsupported_checks = [], sd_unsafe_checks = [] \<rparr>
      else
        (let unsafe = names_where se_unsafe ev;
             unsupported = names_where se_unsupported ev;
             blocking = names_where (\<lambda>e. is_release_blocking_failure e \<or> is_missing_required_evidence e) ev;
             human_review = names_where (\<lambda>e. requires_human_review e \<and> se_name e \<notin> set blocking
                              \<and> se_name e \<notin> set unsafe \<and> se_name e \<notin> set unsupported) ev
         in
         if unsafe \<noteq> [] then
           \<lparr> sd_status = UNSAFE_TO_FABRICATE,
             sd_summary = ''Unsafe-to-fabricate evidence present: '' @ str_join '', '' unsafe @ ''.'',
             sd_evidence = ev, sd_blocking_checks = blocking, sd_human_review_checks = human_review,
             sd_unsupported_checks = unsupported, sd_unsafe_checks = unsafe \<rparr>
         else if unsupported \<noteq> [] then
           \<lparr> sd_status = UNSUPPORTED_DOMAIN,
             sd_summary = ''Design is outside the supported autonomous domain: '' @ str_join '', '' unsupported @ ''.'',
             sd_evidence = ev, sd_blocking_checks = blocking, sd_human_review_checks = human_review,
             sd_unsupported_checks = unsupported, sd_unsafe_checks = [] \<rparr>
         else if blocking \<noteq> [] then
           \<lparr> sd_status = BLOCKED_INSUFFICIENT_EVIDENCE,
             sd_summary = ''Required sign-off evidence failed or is missing: '' @ str_join '', '' blocking @ ''.'',
             sd_evidence = ev, sd_blocking_checks = blocking, sd_human_review_checks = human_review,
             sd_unsupported_checks = [], sd_unsafe_checks = [] \<rparr>
         else if human_review \<noteq> [] then
           \<lparr> sd_status = HUMAN_REVIEW_REQUIRED,
             sd_summary = ''Human engineering review is required for: '' @ str_join '', '' human_review @ ''.'',
             sd_evidence = ev, sd_blocking_checks = [], sd_human_review_checks = human_review,
             sd_unsupported_checks = [], sd_unsafe_checks = [] \<rparr>
         else
           \<lparr> sd_status = AUTONOMOUS_PASS,
             sd_summary = ''All required sign-off evidence passed for the supported autonomous domain.'',
             sd_evidence = ev, sd_blocking_checks = [], sd_human_review_checks = [],
             sd_unsupported_checks = [], sd_unsafe_checks = [] \<rparr>))"

section \<open>Fabrication claims\<close>

definition FORBIDDEN_FABRICATION_CLAIMS :: "string list" where
  "FORBIDDEN_FABRICATION_CLAIMS =
     [''generates manufacturing-ready'', ''produces manufacturing-ready'', ''manufacturing-ready output'',
      ''fabrication-ready output'', ''fabrication-ready by default'', ''production-ready output'',
      ''one command to production'', ''ready for fabrication'', ''ready to fabricate'',
      ''ready for manufacturing'', ''manufacturer-approved'', ''no-human-review'',
      ''no human review required'']"

record fabrication_claim_violation =
  fcv_claim :: string
  fcv_context :: string

definition context_snippet :: "string \<Rightarrow> nat \<Rightarrow> nat \<Rightarrow> string" where
  "context_snippet txt start stop =
     (let left = start - 48; right = min (length txt) (stop + 48)
      in str_join '' '' (split_ws (take (right - left) (drop left txt))))"

definition status_of_string :: "string \<Rightarrow> signoff_status result" where
  "status_of_string s =
     (case find (\<lambda>st. signoff_status_value st = s)
             [AUTONOMOUS_PASS, HUMAN_REVIEW_REQUIRED, BLOCKED_INSUFFICIENT_EVIDENCE, UNSUPPORTED_DOMAIN,
              UNSAFE_TO_FABRICATE] of
        None \<Rightarrow> Inl (ValueError (repr_str s @ '' is not a valid AutonomousSignoffStatus''))
      | Some st \<Rightarrow> Inr st)"

definition find_unapproved_fabrication_claims ::
  "string \<Rightarrow> string \<Rightarrow> bool \<Rightarrow> fabrication_claim_violation list result" where
  "find_unapproved_fabrication_claims txt signoff_status allows =
     rbind (status_of_string signoff_status) (\<lambda>status.
       if allows \<and> status = AUTONOMOUS_PASS then Inr []
       else Inr (option_list (map (\<lambda>claim.
              map_option (\<lambda>start. \<lparr> fcv_claim = claim,
                                    fcv_context = context_snippet txt start (start + length claim) \<rparr>)
                (str_find claim (lower txt))) FORBIDDEN_FABRICATION_CLAIMS)))"

definition assert_no_unapproved_fabrication_claims :: "string \<Rightarrow> string \<Rightarrow> bool \<Rightarrow> unit result" where
  "assert_no_unapproved_fabrication_claims txt signoff_status allows =
     rbind (find_unapproved_fabrication_claims txt signoff_status allows) (\<lambda>vs.
       if vs = [] then Inr ()
       else Inl (ValueError (''Unapproved fabrication/manufacturing readiness claim(s): ''
                             @ str_join '', '' (map fcv_claim vs))))"

section \<open>Lemmas\<close>

definition evidence_status :: "signoff_evidence \<Rightarrow> signoff_status" where
  "evidence_status e =
     (if se_unsafe e then UNSAFE_TO_FABRICATE
      else if se_unsupported e then UNSUPPORTED_DOMAIN
      else if is_release_blocking_failure e \<or> is_missing_required_evidence e then BLOCKED_INSUFFICIENT_EVIDENCE
      else if requires_human_review e then HUMAN_REVIEW_REQUIRED
      else AUTONOMOUS_PASS)"

lemma names_where_Nil [simp]: "names_where P ev = [] \<longleftrightarrow> (\<forall>e\<in>set ev. \<not> P e)"
  by (auto simp: names_where_def filter_empty_conv)

lemma names_where_mem: "e \<in> set ev \<Longrightarrow> P e \<Longrightarrow> se_name e \<in> set (names_where P ev)"
  by (auto simp: names_where_def)

lemma status_le_simps [simp]:
  "AUTONOMOUS_PASS \<le> s" "s \<le> UNSAFE_TO_FABRICATE"
  "s \<le> AUTONOMOUS_PASS \<longleftrightarrow> s = AUTONOMOUS_PASS"
  "s \<le> HUMAN_REVIEW_REQUIRED \<longleftrightarrow> s \<in> {AUTONOMOUS_PASS, HUMAN_REVIEW_REQUIRED}"
  "s \<le> BLOCKED_INSUFFICIENT_EVIDENCE \<longleftrightarrow> s \<notin> {UNSUPPORTED_DOMAIN, UNSAFE_TO_FABRICATE}"
  "s \<le> UNSUPPORTED_DOMAIN \<longleftrightarrow> s \<noteq> UNSAFE_TO_FABRICATE"
  by (cases s; simp add: less_eq_signoff_status_def)+

lemma evaluate_status:
  "sd_status (evaluate req ev) =
     (if req \<and> ev = [] then BLOCKED_INSUFFICIENT_EVIDENCE
      else if \<exists>e\<in>set ev. se_unsafe e then UNSAFE_TO_FABRICATE
      else if \<exists>e\<in>set ev. se_unsupported e then UNSUPPORTED_DOMAIN
      else if \<exists>e\<in>set ev. is_release_blocking_failure e \<or> is_missing_required_evidence e
        then BLOCKED_INSUFFICIENT_EVIDENCE
      else if \<exists>e\<in>set ev. requires_human_review e then HUMAN_REVIEW_REQUIRED
      else AUTONOMOUS_PASS)"
proof -
  have empty: "set (names_where P ev) = {}" if "\<not> (\<exists>e\<in>set ev. P e)" for P
    using that by (simp add: names_where_def)
  show ?thesis
    by (cases "\<exists>e\<in>set ev. se_unsafe e"; cases "\<exists>e\<in>set ev. se_unsupported e";
        cases "\<exists>e\<in>set ev. is_release_blocking_failure e \<or> is_missing_required_evidence e")
       (simp_all add: evaluate_def Let_def empty)
qed

section \<open>Properties\<close>


text \<open>
  The default policy passes autonomously exactly when there is evidence and no item
  is unsafe, unsupported, a blocking failure, missing although required, a warning
  or marked for human review.
\<close>

theorem evaluate_pass_iff:
  "autonomous_pass (evaluate True ev) \<longleftrightarrow>
     ev \<noteq> [] \<and> list_all (\<lambda>e. \<not> (se_unsafe e \<or> se_unsupported e
       \<or> se_release_blocking e \<and> se_status e = SC_FAIL
       \<or> se_evidence_required e \<and> se_status e \<in> {SC_SKIPPED, SC_UNKNOWN}
       \<or> se_human_review_required e \<or> se_status e = SC_WARNING)) ev"
  by (auto simp: autonomous_pass_def evaluate_status list_all_iff is_release_blocking_failure_def
        is_missing_required_evidence_def requires_human_review_def)

lemma find_claims_empty:
  "find_unapproved_fabrication_claims txt (signoff_status_value st) allows = Inr [] \<longleftrightarrow>
     (allows \<and> st = AUTONOMOUS_PASS) \<or> \<not> contains_any FORBIDDEN_FABRICATION_CLAIMS (lower txt)"
proof -
  have st: "status_of_string (signoff_status_value st) = Inr st"
    by (cases st) (simp_all add: status_of_string_def)
  have "option_list (map (\<lambda>claim. map_option (f claim) (str_find claim (lower txt))) cs) = []
      \<longleftrightarrow> \<not> contains_any cs (lower txt)" for f :: "string \<Rightarrow> nat \<Rightarrow> fabrication_claim_violation" and cs
  proof (induction cs)
    case (Cons c cs)
    then show ?case using str_find_None [of c "lower txt"] by (cases "str_find c (lower txt)") auto
  qed simp
  then show ?thesis by (auto simp: find_unapproved_fabrication_claims_def st)
qed

text \<open>
  Generated text is accepted exactly when it contains none of the forbidden claims
  in any capitalisation, or the release policy allows them and the design has an
  autonomous pass; permission alone, or a pass alone, is not enough.
\<close>

theorem claims_guard_exact:
  "is_ok (assert_no_unapproved_fabrication_claims txt (signoff_status_value st) allows) \<longleftrightarrow>
     (allows \<and> st = AUTONOMOUS_PASS) \<or> list_all (\<lambda>c. \<nexists>before after. lower txt = before @ c @ after)
                                            FORBIDDEN_FABRICATION_CLAIMS"
proof -
  have "is_ok (find_unapproved_fabrication_claims txt (signoff_status_value st) allows)"
    by (cases st) (simp_all add: find_unapproved_fabrication_claims_def status_of_string_def)
  then have "is_ok (assert_no_unapproved_fabrication_claims txt (signoff_status_value st) allows) \<longleftrightarrow>
      find_unapproved_fabrication_claims txt (signoff_status_value st) allows = Inr []"
    by (auto simp: assert_no_unapproved_fabrication_claims_def is_ok_iff split: if_splits)
  then show ?thesis
    by (simp only: find_claims_empty contains_any_def contains_iff list_all_iff list_ex_iff) blast
qed

definition skipped_item :: signoff_evidence where
  "skipped_item = \<lparr> se_name = ''drc'', se_status = SC_SKIPPED, se_source = ''kicad'', se_summary = [],
     se_release_blocking = True, se_evidence_required = True, se_human_review_required = False,
     se_unsupported = False, se_unsafe = False, se_approval_id = [] \<rparr>"


end
