(* ===== verification/Review_Workflow.thy ===== *)
theory Review_Workflow
  imports Zap_Prelude
begin

text \<open>
  \<^verbatim>\<open>src/zaptrace/review/workflow.py\<close> and \<^verbatim>\<open>src/zaptrace/review/storage.py\<close>: the human
  review state machine, the process-wide session cache and its durable records.
  The clock and the random tokens are arguments. The durable store is the
  \<^verbatim>\<open>session_records\<close> table of \<^verbatim>\<open>core/state_store_records.py\<close> restricted to review
  records: an upsert keyed by parent design session and record id, listed in row
  order; it holds the session itself (its JSON dump and validation are inverse) and
  is \<open>None\<close> when persistence is off. Failures of SQLite itself are not modelled.
\<close>

section \<open>Data\<close>

datatype checklist_status = CL_PENDING | CL_APPROVED | CL_REJECTED | CL_WAIVED

datatype decision_type = APPROVE | REJECT | REQUEST_REPAIR | ACCEPT_RISK | ROLLBACK

datatype review_status =
  RV_PENDING | HUMAN_APPROVED | RV_REJECTED | REPAIR_REQUESTED | RISK_ACCEPTED | ROLLED_BACK

record human_checklist_item =
  item_id :: string
  item_panel_id :: string
  item_label :: string
  item_description :: string
  item_status :: checklist_status
  item_decided_by :: string
  item_decided_at :: string
  item_reason :: string
  item_waiver_notes :: string
  item_is_blocking :: bool

record review_decision =
  rd_decision_id :: string
  rd_review_session_id :: string
  rd_design_name :: string
  rd_design_state_hash :: string
  rd_transaction_id :: string
  rd_decision :: decision_type
  rd_decided_by :: string
  rd_decided_at :: string
  rd_reason :: string
  rd_waiver_notes :: string
  rd_checklist_results :: "(string, checklist_status) dict"
  rd_approval_id :: string

record review_session =
  rvs_session_id :: string
  rvs_design_name :: string
  rvs_design_state_hash :: string
  rvs_design_session_id :: string
  rvs_owner_principal :: string
  rvs_checklist :: "(string, human_checklist_item) dict"
  rvs_decisions :: "review_decision list"
  rvs_created_at :: string
  rvs_updated_at :: string
  rvs_finalized_at :: string

definition all_approved :: "review_session \<Rightarrow> bool" where
  "all_approved s =
     list_all (\<lambda>i. item_status i \<in> {CL_APPROVED, CL_WAIVED})
       (filter item_is_blocking (dict_values (rvs_checklist s)))"

definition any_rejected :: "review_session \<Rightarrow> bool" where
  "any_rejected s = list_ex (\<lambda>i. item_status i = CL_REJECTED) (dict_values (rvs_checklist s))"

definition any_waived :: "review_session \<Rightarrow> bool" where
  "any_waived s = list_ex (\<lambda>i. item_status i = CL_WAIVED) (dict_values (rvs_checklist s))"

definition latest_decision :: "review_session \<Rightarrow> review_decision option" where
  "latest_decision s = (if rvs_decisions s = [] then None else Some (last (rvs_decisions s)))"

definition finalized :: "review_session \<Rightarrow> bool" where
  "finalized s = (rvs_finalized_at s \<noteq> [] \<or> rvs_decisions s \<noteq> [])"

fun status_of_decision :: "decision_type \<Rightarrow> review_status" where
  "status_of_decision APPROVE = HUMAN_APPROVED"
| "status_of_decision REJECT = RV_REJECTED"
| "status_of_decision REQUEST_REPAIR = REPAIR_REQUESTED"
| "status_of_decision ACCEPT_RISK = RISK_ACCEPTED"
| "status_of_decision ROLLBACK = ROLLED_BACK"

definition review_session_status :: "review_session \<Rightarrow> review_status" where
  "review_session_status s =
     (case latest_decision s of None \<Rightarrow> RV_PENDING | Some d \<Rightarrow> status_of_decision (rd_decision d))"

section \<open>Operations on a session\<close>

definition generate_id :: "string \<Rightarrow> string \<Rightarrow> string" where
  "generate_id pre token = pre @ ''-'' @ token"

definition ensure_mutable :: "review_session \<Rightarrow> unit result" where
  "ensure_mutable s =
     (if finalized s then Inl (ReviewTransitionError ''review session is finalized and cannot be mutated'')
      else Inr ())"

definition require_identity_and_reason :: "string \<Rightarrow> string \<Rightarrow> (string \<times> string) result" where
  "require_identity_and_reason decided_by reason =
     (if strip decided_by = [] then
        Inl (ReviewTransitionError ''authenticated reviewer identity is required'')
      else if strip reason = [] then
        Inl (ReviewTransitionError ''review decision rationale is required'')
      else Inr (strip decided_by, strip reason))"

text \<open>Python's \<^verbatim>\<open>str.title\<close> on ASCII text.\<close>

fun title_aux :: "bool \<Rightarrow> string \<Rightarrow> string" where
  "title_aux in_word [] = []"
| "title_aux in_word (c # cs) = (if in_word then lower_char c else upper_char c) # title_aux (is_alpha c) cs"

definition title :: "string \<Rightarrow> string" where
  "title s = title_aux False s"

definition default_panel_ids :: "string list" where
  "default_panel_ids =
     [''requirements'', ''assumptions'', ''erc'', ''drc'', ''dfm'', ''bom'', ''supply'', ''manufacturing'',
      ''simulation'', ''proof_pack'', ''benchmark'', ''decision_log'']"

definition checklist_item_for :: "string \<Rightarrow> human_checklist_item" where
  "checklist_item_for pid =
     \<lparr> item_id = pid @ ''-review'', item_panel_id = pid,
       item_label = ''Review '' @ title (replace_char (CHR ''_'') '' '' pid),
       item_description = ''Human must inspect '' @ pid @ '' panel evidence and confirm acceptability.'',
       item_status = CL_PENDING, item_decided_by = [], item_decided_at = [], item_reason = [],
       item_waiver_notes = [], item_is_blocking = (pid \<notin> {''decision_log'', ''simulation''}) \<rparr>"

definition new_review_session ::
  "string \<Rightarrow> string \<Rightarrow> string \<Rightarrow> string \<Rightarrow> string list option \<Rightarrow> string \<Rightarrow> string \<Rightarrow> review_session" where
  "new_review_session token now design_name design_state_hash panel_ids design_session_id owner =
     (let ids = (case panel_ids of None \<Rightarrow> default_panel_ids
                                 | Some ps \<Rightarrow> if ps = [] then default_panel_ids else ps)
      in \<lparr> rvs_session_id = generate_id ''session'' token, rvs_design_name = design_name,
           rvs_design_state_hash = design_state_hash, rvs_design_session_id = design_session_id,
           rvs_owner_principal = owner,
           rvs_checklist = dict_comp (\<lambda>p. p @ ''-review'') checklist_item_for ids,
           rvs_decisions = [], rvs_created_at = now, rvs_updated_at = now, rvs_finalized_at = [] \<rparr>)"

text \<open>The common body of the three item operations; \<open>upd\<close> sets the item's fields.\<close>

definition update_checklist_item ::
  "(human_checklist_item \<Rightarrow> human_checklist_item) \<Rightarrow> string \<Rightarrow> string \<Rightarrow> review_session \<Rightarrow> review_session result" where
  "update_checklist_item upd now iid s =
     rbind (ensure_mutable s) (\<lambda>_.
       case dict_get (rvs_checklist s) iid of
         None \<Rightarrow> Inl (KeyError (''Checklist item not found: '' @ iid))
       | Some i \<Rightarrow> Inr (s\<lparr> rvs_checklist := dict_set iid (upd i) (rvs_checklist s), rvs_updated_at := now \<rparr>))"

definition approve_checklist_item ::
  "string \<Rightarrow> string \<Rightarrow> string \<Rightarrow> string \<Rightarrow> string \<Rightarrow> review_session \<Rightarrow> review_session result" where
  "approve_checklist_item now now' iid decided_by reason =
     update_checklist_item (\<lambda>i. i\<lparr> item_status := CL_APPROVED, item_decided_by := decided_by,
       item_decided_at := now, item_reason := reason \<rparr>) now' iid"

definition reject_checklist_item ::
  "string \<Rightarrow> string \<Rightarrow> string \<Rightarrow> string \<Rightarrow> string \<Rightarrow> review_session \<Rightarrow> review_session result" where
  "reject_checklist_item now now' iid decided_by reason =
     update_checklist_item (\<lambda>i. i\<lparr> item_status := CL_REJECTED, item_decided_by := decided_by,
       item_decided_at := now, item_reason := reason \<rparr>) now' iid"

definition add_waiver ::
  "string \<Rightarrow> string \<Rightarrow> string \<Rightarrow> string \<Rightarrow> string \<Rightarrow> string \<Rightarrow> review_session \<Rightarrow> review_session result" where
  "add_waiver now now' iid decided_by reason notes =
     update_checklist_item (\<lambda>i. i\<lparr> item_status := CL_WAIVED, item_decided_by := decided_by,
       item_decided_at := now, item_reason := reason, item_waiver_notes := notes \<rparr>) now' iid"

definition decision_guard :: "review_session \<Rightarrow> decision_type \<Rightarrow> unit result" where
  "decision_guard s d =
     (if d = APPROVE then
        (if any_rejected s \<or> \<not> all_approved s then
           Inl (ReviewTransitionError ''all blocking checklist items must be approved or waived before approval'')
         else Inr ())
      else if d = ACCEPT_RISK then
        (if any_rejected s \<or> \<not> all_approved s then
           Inl (ReviewTransitionError ''all blocking checklist items must be resolved before accepting risk'')
         else if \<not> any_waived s then
           Inl (ReviewTransitionError ''accept-risk requires at least one explicit waiver'')
         else Inr ())
      else Inr ())"

definition decision_record ::
  "string \<Rightarrow> string \<Rightarrow> string \<Rightarrow> decision_type \<Rightarrow> string \<Rightarrow> string \<Rightarrow> string \<Rightarrow> review_session \<Rightarrow> review_decision" where
  "decision_record now token1 token2 d actor rationale notes s =
     \<lparr> rd_decision_id = generate_id ''decision'' token1, rd_review_session_id = rvs_session_id s,
       rd_design_name = rvs_design_name s, rd_design_state_hash = rvs_design_state_hash s,
       rd_transaction_id = [], rd_decision = d, rd_decided_by = actor, rd_decided_at = now,
       rd_reason = rationale, rd_waiver_notes = strip notes,
       rd_checklist_results = map (\<lambda>(k, i). (k, item_status i)) (rvs_checklist s),
       rd_approval_id = (if d \<in> {APPROVE, ACCEPT_RISK} then generate_id ''approval'' token2 else []) \<rparr>"

definition resolve_decision ::
  "string \<Rightarrow> string \<Rightarrow> string \<Rightarrow> decision_type \<Rightarrow> string \<Rightarrow> string \<Rightarrow> string \<Rightarrow> review_session
   \<Rightarrow> review_session result" where
  "resolve_decision now token1 token2 d decided_by reason notes s =
     rbind (ensure_mutable s) (\<lambda>_.
     rbind (require_identity_and_reason decided_by reason) (\<lambda>(actor, rationale).
     rbind (decision_guard s d) (\<lambda>_.
       Inr (s\<lparr> rvs_decisions := rvs_decisions s @ [decision_record now token1 token2 d actor rationale notes s],
               rvs_updated_at := now, rvs_finalized_at := now \<rparr>))))"

section \<open>The state machine\<close>

text \<open>The clock never returns the empty string (\<^verbatim>\<open>datetime.isoformat\<close>).\<close>

inductive review_step :: "review_session \<Rightarrow> review_session \<Rightarrow> bool" where
  step_approve: "approve_checklist_item now now' iid by r s = Inr s' \<Longrightarrow> review_step s s'"
| step_reject: "reject_checklist_item now now' iid by r s = Inr s' \<Longrightarrow> review_step s s'"
| step_waive: "add_waiver now now' iid by r notes s = Inr s' \<Longrightarrow> review_step s s'"
| step_resolve: "now \<noteq> [] \<Longrightarrow> resolve_decision now t1 t2 d by r notes s = Inr s' \<Longrightarrow> review_step s s'"

inductive reachable_review :: "review_session \<Rightarrow> bool" where
  reach_new: "reachable_review (new_review_session tok now nm h panels dsid owner)"
| reach_step: "reachable_review s \<Longrightarrow> review_step s s' \<Longrightarrow> reachable_review s'"

inductive_cases review_stepE: "review_step s s'"

definition decision_ok :: "review_session \<Rightarrow> review_decision \<Rightarrow> bool" where
  "decision_ok s d =
     (rd_review_session_id d = rvs_session_id s \<and> rd_design_state_hash d = rvs_design_state_hash s
      \<and> rd_decided_by d \<noteq> [] \<and> rd_reason d \<noteq> []
      \<and> rd_checklist_results d = map (\<lambda>(k, i). (k, item_status i)) (rvs_checklist s)
      \<and> (rd_approval_id d \<noteq> [] \<longleftrightarrow> rd_decision d \<in> {APPROVE, ACCEPT_RISK})
      \<and> (rd_decision d \<in> {APPROVE, ACCEPT_RISK} \<longrightarrow> all_approved s \<and> \<not> any_rejected s)
      \<and> (rd_decision d = ACCEPT_RISK \<longrightarrow> any_waived s))"

definition review_inv :: "review_session \<Rightarrow> bool" where
  "review_inv s =
     (dict_wf (rvs_checklist s)
      \<and> ((rvs_decisions s = [] \<and> rvs_finalized_at s = [])
         \<or> (\<exists>d. rvs_decisions s = [d] \<and> rvs_finalized_at s \<noteq> [] \<and> decision_ok s d)))"

lemma review_step_mutable: "review_step s s' \<Longrightarrow> \<not> finalized s"
  by (auto elim!: review_stepE simp: approve_checklist_item_def reject_checklist_item_def add_waiver_def
        update_checklist_item_def resolve_decision_def ensure_mutable_def split: if_splits)

lemma update_item_inv:
  assumes "update_checklist_item upd now iid s = Inr s'" "review_inv s"
  shows "review_inv s'"
  using assms by (auto simp: update_checklist_item_def ensure_mutable_def finalized_def review_inv_def
      intro: pydict.wf_put split: if_splits option.splits)

lemma resolve_inv:
  assumes "resolve_decision now t1 t2 d by r notes s = Inr s'" "review_inv s" "now \<noteq> []"
  shows "review_inv s'"
proof -
  let ?rec = "decision_record now t1 t2 d (strip by) (strip r) notes s"
  have fin: "\<not> finalized s" and id: "strip by \<noteq> []" "strip r \<noteq> []"
    and guard: "decision_guard s d = Inr ()"
    and s': "s' = s\<lparr> rvs_decisions := rvs_decisions s @ [?rec], rvs_updated_at := now, rvs_finalized_at := now \<rparr>"
    using assms(1)
    by (auto simp: resolve_decision_def ensure_mutable_def require_identity_and_reason_def rbind_eq_Inr
        split: if_splits)
  have same: "all_approved s' = all_approved s" "any_rejected s' = any_rejected s" "any_waived s' = any_waived s"
    by (simp_all add: s' all_approved_def any_rejected_def any_waived_def)
  have "d \<in> {APPROVE, ACCEPT_RISK} \<longrightarrow> all_approved s \<and> \<not> any_rejected s"
    and "d = ACCEPT_RISK \<longrightarrow> any_waived s"
    using guard by (auto simp: decision_guard_def split: if_splits)
  then have "decision_ok s' ?rec"
    unfolding decision_ok_def same
    using id by (simp add: decision_record_def s' generate_id_def)
  then show ?thesis
    using assms(2,3) fin by (simp add: review_inv_def finalized_def s')
qed

lemma review_step_inv: "review_step s s' \<Longrightarrow> review_inv s \<Longrightarrow> review_inv s'"
  by (auto elim!: review_stepE simp: approve_checklist_item_def reject_checklist_item_def add_waiver_def
        intro: update_item_inv resolve_inv)

lemma new_session_inv: "review_inv (new_review_session tok now nm h panels dsid owner)"
  by (simp add: new_review_session_def Let_def review_inv_def)

section \<open>The cache and the durable records\<close>

record review_state =
  rv_cache :: "(string, review_session) dict"
  rv_store :: "(string \<times> string, review_session) dict option"

definition persist_review_session :: "review_session \<Rightarrow> review_state \<Rightarrow> review_state" where
  "persist_review_session s st =
     (if rvs_design_session_id s = [] then st
      else case rv_store st of
             None \<Rightarrow> st
           | Some tbl \<Rightarrow> st\<lparr> rv_store := Some (dict_set (rvs_design_session_id s, rvs_session_id s) s tbl) \<rparr>)"

text \<open>\<^verbatim>\<open>list_session_records(design_session_id)\<close>: record id and session, in row order.\<close>

definition list_session_records ::
  "string \<Rightarrow> (string \<times> string, review_session) dict \<Rightarrow> (string \<times> review_session) list" where
  "list_session_records dsid tbl = map (\<lambda>((d, r), s). (r, s)) (filter (\<lambda>((d, r), s). d = dsid) tbl)"

definition hydrate_review_session ::
  "string \<Rightarrow> string \<Rightarrow> review_state \<Rightarrow> review_session option \<times> review_state" where
  "hydrate_review_session sid dsid st =
     (if dsid = [] then (None, st)
      else case rv_store st of
             None \<Rightarrow> (None, st)
           | Some tbl \<Rightarrow>
               (case find (\<lambda>(r, s). r = sid) (list_session_records dsid tbl) of
                  None \<Rightarrow> (None, st)
                | Some (r, s) \<Rightarrow> (Some s, st\<lparr> rv_cache := dict_set sid s (rv_cache st) \<rparr>)))"

definition create_review_session ::
  "string \<Rightarrow> string \<Rightarrow> string \<Rightarrow> string \<Rightarrow> string list option \<Rightarrow> string \<Rightarrow> string \<Rightarrow> review_state
   \<Rightarrow> review_session \<times> review_state" where
  "create_review_session token now nm h panels dsid owner st =
     (let s = new_review_session token now nm h panels dsid owner in
      (s, persist_review_session s (st\<lparr> rv_cache := dict_set (rvs_session_id s) s (rv_cache st) \<rparr>)))"

definition get_review_session ::
  "string \<Rightarrow> string \<Rightarrow> review_state \<Rightarrow> review_session option \<times> review_state" where
  "get_review_session sid dsid st =
     (case dict_get (rv_cache st) sid of
        Some s \<Rightarrow> (Some s, st)
      | None \<Rightarrow> hydrate_review_session sid dsid st)"

text \<open>The loop over durable records: those not yet collected are restored into the cache.\<close>

definition restore_records ::
  "(string \<times> review_session) list \<Rightarrow> (string, review_session) dict \<times> (string, review_session) dict
   \<Rightarrow> (string, review_session) dict \<times> (string, review_session) dict" where
  "restore_records recs =
     fold (\<lambda>(r, s) (sessions, cache).
       if r \<in> set (dict_keys sessions) then (sessions, cache)
       else (dict_set (rvs_session_id s) s sessions, dict_set (rvs_session_id s) s cache)) recs"

definition review_sessions_for_design_session ::
  "string \<Rightarrow> review_state \<Rightarrow> review_session list \<times> review_state" where
  "review_sessions_for_design_session dsid st =
     (let sessions = dict_comp rvs_session_id (\<lambda>s. s)
                       (filter (\<lambda>s. rvs_design_session_id s = dsid) (dict_values (rv_cache st))) in
      case rv_store st of
        None \<Rightarrow> (dict_values sessions, st)
      | Some tbl \<Rightarrow>
          if dsid = [] then (dict_values sessions, st)
          else (let (sessions', cache') = restore_records (list_session_records dsid tbl) (sessions, rv_cache st)
                in (dict_values sessions', st\<lparr> rv_cache := cache' \<rparr>)))"

definition remove_review_sessions_for_design_session :: "string \<Rightarrow> review_state \<Rightarrow> string list \<times> review_state" where
  "remove_review_sessions_for_design_session dsid st =
     (let (sessions, st') = review_sessions_for_design_session dsid st;
          removed = sort (map rvs_session_id sessions)
      in (removed, st'\<lparr> rv_cache := fold dict_pop removed (rv_cache st') \<rparr>))"

text \<open>An operation on a cached session: the object in the cache is the one mutated, and
  a successful operation ends by persisting it.\<close>

definition mutate_review ::
  "(review_session \<Rightarrow> review_session result) \<Rightarrow> string \<Rightarrow> review_state \<Rightarrow> review_state result" where
  "mutate_review f sid st =
     (case dict_get (rv_cache st) sid of
        None \<Rightarrow> Inl (KeyError sid)
      | Some s \<Rightarrow> rbind (f s) (\<lambda>s'.
          Inr (persist_review_session s' (st\<lparr> rv_cache := dict_set sid s' (rv_cache st) \<rparr>))))"

text \<open>Write-through: every cached session with a parent equals its durable record, and
  both tables file sessions under their own ids.\<close>

definition rv_synced :: "review_state \<Rightarrow> bool" where
  "rv_synced st =
     ((\<forall>sid s. dict_get (rv_cache st) sid = Some s \<longrightarrow> rvs_session_id s = sid)
      \<and> (case rv_store st of
           None \<Rightarrow> True
         | Some tbl \<Rightarrow>
             dict_wf tbl
             \<and> (\<forall>d r s. dict_get tbl (d, r) = Some s \<longrightarrow> rvs_design_session_id s = d \<and> rvs_session_id s = r)
             \<and> (\<forall>sid s. dict_get (rv_cache st) sid = Some s \<longrightarrow> rvs_design_session_id s \<noteq> [] \<longrightarrow>
                  dict_get tbl (rvs_design_session_id s, sid) = Some s)))"

inductive review_op :: "review_state \<Rightarrow> review_state \<Rightarrow> bool" where
  op_create: "create_review_session tok now nm h panels dsid owner st = (s, st') \<Longrightarrow> review_op st st'"
| op_get: "get_review_session sid dsid st = (r, st') \<Longrightarrow> review_op st st'"
| op_remove: "remove_review_sessions_for_design_session dsid st = (rs, st') \<Longrightarrow> review_op st st'"
| op_mutate: "(\<And>s s'. f s = Inr s' \<Longrightarrow> review_step s s') \<Longrightarrow> mutate_review f sid st = Inr st' \<Longrightarrow> review_op st st'"

lemma review_step_ids:
  "review_step s s' \<Longrightarrow>
   rvs_session_id s' = rvs_session_id s \<and> rvs_design_session_id s' = rvs_design_session_id s
   \<and> rvs_design_state_hash s' = rvs_design_state_hash s"
  by (auto elim!: review_stepE simp: approve_checklist_item_def reject_checklist_item_def add_waiver_def
        update_checklist_item_def resolve_decision_def rbind_eq_Inr split: option.splits)

text \<open>Caching and persisting one session keeps the two in step.\<close>

lemma synced_put:
  assumes "rv_synced st" "rvs_session_id s = sid"
  shows "rv_synced (persist_review_session s (st\<lparr> rv_cache := dict_set sid s (rv_cache st) \<rparr>))"
  using assms
  by (auto simp: rv_synced_def persist_review_session_def pydict.get_put pydict.wf_put
        split: option.splits if_splits)

lemma find_session_record:
  assumes "dict_wf tbl"
  shows "find (\<lambda>(r, s). r = sid) (list_session_records dsid tbl) = map_option (\<lambda>s. (sid, s)) (dict_get tbl (dsid, sid))"
  using assms
  by (induction tbl) (auto simp: list_session_records_def dict_get_def dict_wf_def)

lemma synced_restore:
  assumes "rv_synced st" "rv_store st = Some tbl" "dict_get tbl (d, r) = Some s"
  shows "rv_synced (st\<lparr> rv_cache := dict_set r s (rv_cache st) \<rparr>)"
  using assms by (auto simp: rv_synced_def pydict.get_put)

lemma get_review_session_cases:
  assumes "rv_synced st" "get_review_session sid dsid st = (r, st')"
  shows "st' = st \<or> (\<exists>tbl s. rv_store st = Some tbl \<and> dict_get tbl (dsid, sid) = Some s
                          \<and> st' = st\<lparr> rv_cache := dict_set sid s (rv_cache st) \<rparr>)"
proof -
  have "dict_wf tbl" if "rv_store st = Some tbl" for tbl
    using assms(1) that by (simp add: rv_synced_def)
  then show ?thesis
    using assms(2)
    by (auto simp: get_review_session_def hydrate_review_session_def find_session_record
          split: option.splits if_splits)
qed

lemma synced_get:
  assumes "rv_synced st" "get_review_session sid dsid st = (r, st')"
  shows "rv_synced st'"
  using get_review_session_cases [OF assms] assms(1) synced_restore [OF assms(1)] by blast

lemma synced_pop: "rv_synced st \<Longrightarrow> rv_synced (st\<lparr> rv_cache := fold dict_pop ks (rv_cache st) \<rparr>)"
  by (auto simp: rv_synced_def pydict.get_fold_pop split: option.splits if_splits)

lemma restore_records_Cons [simp]:
  "restore_records ((r, s) # recs) (ss, c) =
     restore_records recs (if r \<in> set (dict_keys ss) then (ss, c)
                           else (dict_set (rvs_session_id s) s ss, dict_set (rvs_session_id s) s c))"
  by (simp add: restore_records_def)

lemma synced_restore_records:
  assumes "rv_synced (st\<lparr> rv_cache := c \<rparr>)" "rv_store st = Some tbl"
    and "\<forall>(r, s)\<in>set recs. \<exists>d. dict_get tbl (d, r) = Some s"
    and "restore_records recs (ss, c) = (ss', c')"
  shows "rv_synced (st\<lparr> rv_cache := c' \<rparr>)"
  using assms
proof (induction recs arbitrary: ss c)
  case Nil
  then show ?case by (simp add: restore_records_def)
next
  case (Cons rec recs)
  obtain r s where rec: "rec = (r, s)" by (cases rec)
  then obtain d where d: "dict_get tbl (d, r) = Some s" using Cons.prems by auto
  then have id: "rvs_session_id s = r"
    using Cons.prems(1,2) by (simp add: rv_synced_def)
  have "rv_synced (st\<lparr> rv_cache := dict_set r s c \<rparr>)"
    using synced_restore [OF Cons.prems(1) _ d] Cons.prems(2) by simp
  then show ?case
    using Cons.IH [OF Cons.prems(1,2)] Cons.IH [of "dict_set r s c"] Cons.prems
    by (simp add: rec id split: if_splits)
qed

lemma set_list_session_records:
  "dict_wf tbl \<Longrightarrow> (r, s) \<in> set (list_session_records dsid tbl) \<Longrightarrow> dict_get tbl (dsid, r) = Some s"
  by (auto simp: list_session_records_def intro: dict_get_of_mem)

lemma synced_remove:
  assumes "rv_synced st" "remove_review_sessions_for_design_session dsid st = (rs, st')"
  shows "rv_synced st'"
proof -
  obtain ss st1 where st1: "review_sessions_for_design_session dsid st = (ss, st1)" by fastforce
  have "rv_synced st1"
  proof (cases "rv_store st")
    case None
    then show ?thesis using assms(1) st1 by (auto simp: review_sessions_for_design_session_def Let_def)
  next
    case (Some tbl)
    then have wf: "dict_wf tbl" using assms(1) by (simp add: rv_synced_def)
    show ?thesis
    proof (cases "dsid = []")
      case True
      then show ?thesis using assms(1) st1 Some by (auto simp: review_sessions_for_design_session_def Let_def)
    next
      case False
      then obtain sessions ss' c' where r:
        "restore_records (list_session_records dsid tbl) (sessions, rv_cache st) = (ss', c')"
        "st1 = st\<lparr> rv_cache := c' \<rparr>"
        using st1 Some by (auto simp: review_sessions_for_design_session_def Let_def split: prod.splits)
      moreover have "\<forall>(r, s)\<in>set (list_session_records dsid tbl). \<exists>d. dict_get tbl (d, r) = Some s"
        using set_list_session_records [OF wf] by blast
      moreover have "rv_synced (st\<lparr> rv_cache := rv_cache st \<rparr>)" using assms(1) by simp
      ultimately show ?thesis using synced_restore_records [OF _ Some] by blast
    qed
  qed
  then show ?thesis
    using assms(2) st1 by (auto simp: remove_review_sessions_for_design_session_def Let_def intro: synced_pop)
qed

lemma review_op_synced: "review_op st st' \<Longrightarrow> rv_synced st \<Longrightarrow> rv_synced st'"
proof (induction rule: review_op.induct)
  case (op_create tok now nm h panels dsid owner st s st')
  then show ?case by (auto simp: create_review_session_def Let_def intro: synced_put)
next
  case (op_get sid dsid st r st')
  then show ?case by (auto intro: synced_get)
next
  case (op_remove dsid st rs st')
  then show ?case by (auto intro: synced_remove)
next
  case (op_mutate f sid st st')
  then obtain s s' where s: "dict_get (rv_cache st) sid = Some s" "f s = Inr s'"
    "st' = persist_review_session s' (st\<lparr> rv_cache := dict_set sid s' (rv_cache st) \<rparr>)"
    by (auto simp: mutate_review_def rbind_eq_Inr split: option.splits)
  have "rvs_session_id s' = rvs_session_id s"
    using op_mutate.hyps(1) [OF s(2)] review_step_ids by blast
  then have "rvs_session_id s' = sid"
    using s(1) op_mutate.prems by (simp add: rv_synced_def)
  then show ?case using op_mutate.prems s(3) by (auto intro: synced_put)
qed

section \<open>Properties\<close>

text \<open>
  C7: Every session reachable by creating a review and applying checklist operations and
  decisions in any order keeps the review invariant: it has at most one decision; a
  decision is bound to the session, its design hash and the checklist statuses it was
  taken on, names a reviewer and a reason, carries an approval id exactly when it
  approves or accepts risk, and then every blocking item is approved or waived, no
  item is rejected, and accepting risk had a waiver.
\<close>

theorem reachable_review_inv:
  assumes "reachable_review s"
  shows "review_inv s"
  using assms by induction (auto intro: new_session_inv review_step_inv)

definition demo_review :: review_session where
  "demo_review = new_review_session ''t0'' ''2026-01-01'' ''demo'' ''h0'' (Some [''erc'']) ''ds1'' ''alice''"

definition demo_review_waived :: review_session where
  "demo_review_waived = demo_review\<lparr>
     rvs_checklist := dict_set ''erc-review'' ((checklist_item_for ''erc'')\<lparr> item_status := CL_WAIVED,
       item_decided_by := ''bob'', item_decided_at := ''2026-01-02'', item_reason := ''ok'' \<rparr>)
       (rvs_checklist demo_review),
     rvs_updated_at := ''2026-01-02'' \<rparr>"

definition demo_review_final :: review_session where
  "demo_review_final = demo_review_waived\<lparr>
     rvs_decisions := [decision_record ''2026-01-03'' ''t1'' ''t2'' ACCEPT_RISK ''bob'' ''bench'' [] demo_review_waived],
     rvs_updated_at := ''2026-01-03'', rvs_finalized_at := ''2026-01-03'' \<rparr>"

lemma demo_review_steps:
  "review_step demo_review demo_review_waived" "review_step demo_review_waived demo_review_final"
proof -
  have "add_waiver ''2026-01-02'' ''2026-01-02'' ''erc-review'' ''bob'' ''ok'' [] demo_review = Inr demo_review_waived"
    by code_simp
  then show "review_step demo_review demo_review_waived" by (rule step_waive)
  have "resolve_decision ''2026-01-03'' ''t1'' ''t2'' ACCEPT_RISK '' bob '' ''bench'' [] demo_review_waived
      = Inr demo_review_final"
    by code_simp
  then show "review_step demo_review_waived demo_review_final" by (intro step_resolve) auto
qed

lemma demo_review_reachable: "reachable_review demo_review_final"
  unfolding demo_review_def [symmetric]
  by (rule reach_step [OF reach_step [OF reach_new [of "''t0''" "''2026-01-01''" "''demo''" "''h0''"
        "Some [''erc'']" "''ds1''" "''alice''", folded demo_review_def] demo_review_steps(1)] demo_review_steps(2)])

theorem reachable_review_inv_witness:
  "reachable_review demo_review_final \<and> review_inv demo_review_final
   \<and> review_session_status demo_review_final = RISK_ACCEPTED"
proof -
  have "review_session_status demo_review_final = RISK_ACCEPTED" by code_simp
  then show ?thesis using reachable_review_inv [OF demo_review_reachable] demo_review_reachable by blast
qed

text \<open>
  A finalized review is frozen: every operation on it fails with the transition
  error, so no sequence of steps changes it and a recorded decision is never replaced.
\<close>

theorem finalized_frozen:
  assumes "finalized s"
  shows "approve_checklist_item now now' iid by r s
       = Inl (ReviewTransitionError ''review session is finalized and cannot be mutated'')
    \<and> reject_checklist_item now now' iid by r s
       = Inl (ReviewTransitionError ''review session is finalized and cannot be mutated'')
    \<and> add_waiver now now' iid by r notes s
       = Inl (ReviewTransitionError ''review session is finalized and cannot be mutated'')
    \<and> resolve_decision now t1 t2 d by r notes s
       = Inl (ReviewTransitionError ''review session is finalized and cannot be mutated'')
    \<and> {s'. review_step\<^sup>*\<^sup>* s s'} = {s}"
proof -
  have "s' = s" if "review_step\<^sup>*\<^sup>* s s'" for s'
    using that assms by (induction rule: converse_rtranclp_induct) (auto dest: review_step_mutable)
  then show ?thesis
    using assms
    by (auto simp: approve_checklist_item_def reject_checklist_item_def add_waiver_def
          update_checklist_item_def resolve_decision_def ensure_mutable_def)
qed

theorem finalized_frozen_witness:
  "finalized demo_review_final \<and> {s'. review_step\<^sup>*\<^sup>* demo_review_final s'} = {demo_review_final}"
proof -
  have "finalized demo_review_final" by code_simp
  then show ?thesis using finalized_frozen [of demo_review_final] by blast
qed

text \<open>
  Approval is granted exactly when the review is open, the reviewer and the reason
  are not blank, no item is rejected and every blocking item is approved or waived.
\<close>

theorem approve_iff:
  "is_ok (resolve_decision now t1 t2 APPROVE by r notes s) \<longleftrightarrow>
     \<not> finalized s \<and> strip by \<noteq> [] \<and> strip r \<noteq> []
     \<and> list_all (\<lambda>i. item_status i \<noteq> CL_REJECTED) (dict_values (rvs_checklist s))
     \<and> list_all (\<lambda>i. item_status i \<in> {CL_APPROVED, CL_WAIVED})
          (filter item_is_blocking (dict_values (rvs_checklist s)))"
  by (auto simp: resolve_decision_def ensure_mutable_def require_identity_and_reason_def decision_guard_def
        any_rejected_def all_approved_def list_ex_iff list_all_iff is_ok_def split: if_splits)



end
