(* ===== verification/Access_Control.thy ===== *)
theory Access_Control
  imports Zap_Prelude
begin

text \<open>
  Who may do what: the capability policy of \<^verbatim>\<open>src/zaptrace/security/policy.py\<close> (levels,
  header parsing, authorization, the tool and operation tables, the start-up inventory
  check, audit events) and the team roles of \<^verbatim>\<open>src/zaptrace/enterprise/rbac.py\<close>. Clock
  and identifiers are arguments. The mirroring of audit events to the durable store and
  the table of path parameters are not modelled.
\<close>

section \<open>Capabilities\<close>

definition CAPABILITY_LEVELS :: "string list" where
  "CAPABILITY_LEVELS = [''read'', ''preview-write'', ''sandbox-write'', ''approved-commit'', ''release-export'']"

definition CAPABILITY_RANK :: "string \<Rightarrow> nat option" where
  "CAPABILITY_RANK name = map_of (zip CAPABILITY_LEVELS [0..<length CAPABILITY_LEVELS]) name"

record audit_event =
  ae_event_id :: string
  ae_timestamp :: string
  ae_surface :: string
  ae_session_id :: string
  ae_actor :: string
  ae_tool :: string
  ae_capability :: string
  ae_decision :: string
  ae_reason :: string
  ae_metadata :: "(string, pyval) dict"

definition granted_capabilities_from_header :: "string option \<Rightarrow> string set" where
  "granted_capabilities_from_header raw =
     (case raw of
        None \<Rightarrow> {}
      | Some r \<Rightarrow>
          if r = [] then {}
          else (let tokens = split_ws (replace_char (CHR '','') '' '' r)
                in set (map (\<lambda>t. lower (strip t)) (filter (\<lambda>t. CAPABILITY_RANK (strip t) \<noteq> None) tokens))))"

definition rank_or_minus_one :: "string \<Rightarrow> int" where
  "rank_or_minus_one cap = (case CAPABILITY_RANK cap of None \<Rightarrow> -1 | Some n \<Rightarrow> int n)"

definition authorize_capability :: "string \<Rightarrow> string set \<Rightarrow> bool \<times> string" where
  "authorize_capability required granted =
     (if required = ''read'' then (True, ''read-only operation'')
      else case CAPABILITY_RANK required of
             None \<Rightarrow> (False, ''unknown required capability: '' @ required)
           | Some rank \<Rightarrow>
               if granted = {} then (False, ''missing required capability: '' @ required)
               else if \<exists>cap\<in>granted. rank_or_minus_one cap \<ge> int rank
               then (True, ''capability grant satisfies '' @ required)
               else (False, ''requires '' @ required @ ''; granted '' @ repr_str_list (sorted_list_of_set granted)))"

definition record_audit_event :: "audit_event \<Rightarrow> audit_event list option \<Rightarrow> audit_event list" where
  "record_audit_event e events = (case events of None \<Rightarrow> [] | Some es \<Rightarrow> es) @ [e]"

section \<open>The capability tables\<close>

definition TOOL_CAPABILITIES :: "(string, string) dict" where
  "TOOL_CAPABILITIES =
     [(''design_parse_file'', ''preview-write''), (''design_parse_str'', ''preview-write''),
      (''design_inspect'', ''read''), (''design_list_nets'', ''read''),
      (''synthesize_design'', ''preview-write''), (''list_synthesis_templates'', ''read''),
      (''erc_validate'', ''sandbox-write''), (''erc_get_result'', ''read''),
      (''erc_list_rules'', ''read''), (''place_components'', ''sandbox-write''),
      (''route_nets'', ''sandbox-write''), (''library_search'', ''read''), (''library_get'', ''read''),
      (''library_list_categories'', ''read''), (''export_bom_csv'', ''read''),
      (''export_bom_json'', ''read''), (''export_report'', ''sandbox-write''),
      (''export_svg'', ''sandbox-write''), (''export_kicad'', ''release-export''),
      (''kicad_import_project'', ''preview-write''), (''design_diff'', ''read''),
      (''kicad_to_easyeda_pro'', ''sandbox-write''), (''pipeline_run'', ''preview-write''),
      (''pipeline_run_stage'', ''preview-write''), (''pipeline_status'', ''read''),
      (''patch_suggest'', ''read''), (''board_update'', ''sandbox-write''),
      (''component_add'', ''sandbox-write''), (''component_remove'', ''sandbox-write''),
      (''export_gerber'', ''release-export''), (''export_excellon'', ''release-export''),
      (''drc_run'', ''sandbox-write''), (''drc_get_result'', ''read''), (''drc_list_rules'', ''read''),
      (''mechanical_review'', ''read''), (''security_review'', ''read''),
      (''testability_report'', ''read''), (''electrical_analysis'', ''read''),
      (''requirements_parse'', ''read''), (''requirements_review'', ''read''),
      (''power_tree_plan'', ''read''), (''synthesize_power_tree'', ''preview-write''),
      (''synthesize_and_check'', ''preview-write''), (''board_plan'', ''read''),
      (''synthesize_board'', ''preview-write''), (''synthesize_board_and_check'', ''preview-write''),
      (''synthesize_board_repair'', ''preview-write''),
      (''synthesize_board_manufacture'', ''release-export''), (''synthesis_benchmark'', ''read''),
      (''synthesize_board_score'', ''preview-write''), (''resolve_footprints'', ''sandbox-write''),
      (''dc_bias_check'', ''read''), (''simulation_gate'', ''sandbox-write''),
      (''compliance_checklist'', ''read''), (''board_classify_nets'', ''sandbox-write''),
      (''board_summarize_nets'', ''read''), (''design_route_smart'', ''sandbox-write''),
      (''design_classify_nets'', ''sandbox-write''), (''footprint_search'', ''read''),
      (''footprint_get'', ''read''), (''design_snapshot'', ''sandbox-write''),
      (''design_rollback'', ''sandbox-write''), (''design_list_snapshots'', ''read''),
      (''design_commit'', ''approved-commit''), (''design_transaction_preview'', ''preview-write''),
      (''design_transaction_validate'', ''sandbox-write''),
      (''design_transaction_commit'', ''approved-commit''),
      (''design_transaction_rollback'', ''sandbox-write''), (''design_transaction_list'', ''read''),
      (''board_export'', ''read''), (''schematic_render'', ''read''),
      (''footprint_generate'', ''read''), (''footprint_list_packages'', ''read''),
      (''export_manufacturing'', ''release-export''), (''export_pick_and_place'', ''release-export''),
      (''proof_run'', ''sandbox-write''), (''proof_run_design'', ''sandbox-write''),
      (''proof_list_checks'', ''read''), (''audit_list_events'', ''read''),
      (''export_spice'', ''read''), (''calc_led_resistor'', ''read''),
      (''calc_voltage_divider'', ''read''), (''calc_rc_filter'', ''read''),
      (''calc_i2c_pullup'', ''read''), (''calc_e_series'', ''read''), (''calc_usb_c_cc'', ''read''),
      (''calc_decoupling'', ''read''), (''calc_lipo_charge'', ''read''), (''calc_buck_lc'', ''read''),
      (''easyeda_std_roundtrip'', ''read''), (''altium_import_fidelity'', ''read''),
      (''kicad_3d_model_coverage'', ''read''), (''kicad_step_export'', ''sandbox-write'')]"

definition OPERATION_CAPABILITIES :: "(string, string) dict" where
  "OPERATION_CAPABILITIES =
     [(''artifact_create'', ''preview-write''), (''artifact_delete'', ''sandbox-write''),
      (''artifact_cleanup'', ''sandbox-write''), (''review_start'', ''sandbox-write''),
      (''review_approve'', ''sandbox-write''), (''review_reject'', ''sandbox-write''),
      (''review_waive'', ''preview-write''), (''review_decide'', ''approved-commit'')]"

definition required_tool_capability :: "string \<Rightarrow> string result" where
  "required_tool_capability tool =
     (case dict_get TOOL_CAPABILITIES tool of
        Some c \<Rightarrow> Inr c
      | None \<Rightarrow> Inl (KeyError (''No explicit capability policy for public tool '' @ sq @ tool @ sq)))"

definition required_operation_capability :: "string \<Rightarrow> string result" where
  "required_operation_capability op =
     (case dict_get OPERATION_CAPABILITIES op of
        Some c \<Rightarrow> Inr c
      | None \<Rightarrow> required_tool_capability op)"

definition repr_str_dict :: "(string \<times> string) list \<Rightarrow> string" where
  "repr_str_dict d = ''{'' @ str_join '', '' (map (\<lambda>(k, v). repr_str k @ '': '' @ repr_str v) d) @ ''}''"

text \<open>The check of a registry against a capability table.\<close>

definition inventory_check :: "(string, string) dict \<Rightarrow> string list \<Rightarrow> unit result" where
  "inventory_check table tool_names =
     (let missing = sorted_set (filter (\<lambda>n. n \<notin> set (dict_keys table)) tool_names);
          extra = sorted_set (filter (\<lambda>n. n \<notin> set tool_names) (dict_keys table));
          invalid = filter (\<lambda>(n, c). CAPABILITY_RANK c = None) (sort_key fst table)
      in if missing \<noteq> [] \<or> extra \<noteq> [] \<or> invalid \<noteq> []
         then Inl (RuntimeError (''Tool capability inventory mismatch: missing='' @ repr_str_list missing
                     @ ''; extra='' @ repr_str_list extra @ ''; invalid='' @ repr_str_dict invalid))
         else Inr ())"

definition validate_tool_capability_inventory :: "string list \<Rightarrow> unit result" where
  "validate_tool_capability_inventory tool_names = inventory_check TOOL_CAPABILITIES tool_names"

section \<open>Team roles\<close>

datatype permission =
  DESIGN_READ | DESIGN_WRITE | DESIGN_DELETE | DESIGN_EXPORT | PROOF_READ | PROOF_APPROVE | BOM_READ
| BOM_EXPORT | ERC_RUN | DRC_RUN | LIBRARY_READ | LIBRARY_WRITE | PLUGIN_INSTALL | TEAM_ADMIN | AUDIT_READ

fun permission_value :: "permission \<Rightarrow> string" where
  "permission_value DESIGN_READ = ''design:read''"
| "permission_value DESIGN_WRITE = ''design:write''"
| "permission_value DESIGN_DELETE = ''design:delete''"
| "permission_value DESIGN_EXPORT = ''design:export''"
| "permission_value PROOF_READ = ''proof:read''"
| "permission_value PROOF_APPROVE = ''proof:approve''"
| "permission_value BOM_READ = ''bom:read''"
| "permission_value BOM_EXPORT = ''bom:export''"
| "permission_value ERC_RUN = ''erc:run''"
| "permission_value DRC_RUN = ''drc:run''"
| "permission_value LIBRARY_READ = ''library:read''"
| "permission_value LIBRARY_WRITE = ''library:write''"
| "permission_value PLUGIN_INSTALL = ''plugin:install''"
| "permission_value TEAM_ADMIN = ''team:admin''"
| "permission_value AUDIT_READ = ''audit:read''"

datatype role = VIEWER | REVIEWER | ENGINEER | LEAD | ADMIN

fun role_value :: "role \<Rightarrow> string" where
  "role_value VIEWER = ''viewer''"
| "role_value REVIEWER = ''reviewer''"
| "role_value ENGINEER = ''engineer''"
| "role_value LEAD = ''lead''"
| "role_value ADMIN = ''admin''"

fun ROLE_PERMISSIONS :: "role \<Rightarrow> permission set" where
  "ROLE_PERMISSIONS VIEWER = {DESIGN_READ, PROOF_READ, BOM_READ, LIBRARY_READ}"
| "ROLE_PERMISSIONS REVIEWER = {DESIGN_EXPORT, ERC_RUN, DRC_RUN}"
| "ROLE_PERMISSIONS ENGINEER = {DESIGN_WRITE, BOM_EXPORT, LIBRARY_WRITE}"
| "ROLE_PERMISSIONS LEAD = {PROOF_APPROVE, DESIGN_DELETE, AUDIT_READ}"
| "ROLE_PERMISSIONS ADMIN = {PLUGIN_INSTALL, TEAM_ADMIN}"

definition ROLE_ORDER :: "role list" where
  "ROLE_ORDER = [VIEWER, REVIEWER, ENGINEER, LEAD, ADMIN]"

fun accumulate_permissions :: "role \<Rightarrow> role list \<Rightarrow> permission set \<Rightarrow> permission set" where
  "accumulate_permissions role [] perms = perms"
| "accumulate_permissions role (r # rs) perms =
     (let perms' = perms \<union> ROLE_PERMISSIONS r
      in if r = role then perms' else accumulate_permissions role rs perms')"

definition role_effective_permissions :: "role \<Rightarrow> permission set" where
  "role_effective_permissions role = accumulate_permissions role ROLE_ORDER {}"

record team_member =
  tm_user_id :: string
  tm_display_name :: string
  tm_role :: role
  tm_grants :: "permission set"
  tm_revocations :: "permission set"

definition effective_permissions :: "team_member \<Rightarrow> permission set" where
  "effective_permissions m = (role_effective_permissions (tm_role m) \<union> tm_grants m) - tm_revocations m"

record team =
  team_id :: string
  team_name :: string
  team_members :: "team_member list"

definition get_member :: "team \<Rightarrow> string \<Rightarrow> team_member option" where
  "get_member t uid = find (\<lambda>m. tm_user_id m = uid) (team_members t)"

record access_event =
  acc_timestamp :: string
  acc_user_id :: string
  acc_permission :: string
  acc_resource_id :: "string option"
  acc_allowed :: bool
  acc_reason :: string

definition check_permission ::
  "string \<Rightarrow> team_member \<Rightarrow> permission \<Rightarrow> string option \<Rightarrow> access_event list option
   \<Rightarrow> bool \<times> access_event list option" where
  "check_permission now m p resource_id audit_log =
     (let allowed = (p \<in> effective_permissions m) in
      (allowed,
       map_option (\<lambda>log. log @ [\<lparr> acc_timestamp = now, acc_user_id = tm_user_id m,
          acc_permission = permission_value p, acc_resource_id = resource_id, acc_allowed = allowed,
          acc_reason = (if allowed then ''role grants'' else ''role denies'') \<rparr>]) audit_log))"

definition role_permissions_table :: "(string, string list) dict" where
  "role_permissions_table =
     map (\<lambda>r. (role_value r, sorted_list_of_set (permission_value ` role_effective_permissions r))) ROLE_ORDER"

section \<open>Lemmas\<close>

lemma rank_cases:
  "CAPABILITY_RANK c =
     (if c = ''read'' then Some 0 else if c = ''preview-write'' then Some 1
      else if c = ''sandbox-write'' then Some 2 else if c = ''approved-commit'' then Some 3
      else if c = ''release-export'' then Some 4 else None)"
  by (simp add: CAPABILITY_RANK_def CAPABILITY_LEVELS_def upt_rec)

lemma map_of_zip_upt:
  assumes "distinct xs"
  shows "map_of (zip xs [0..<length xs]) x = Some i \<longleftrightarrow> i < length xs \<and> x = xs ! i"
proof -
  have "map_of (zip xs [0..<length xs]) x = Some i \<longleftrightarrow> (x, i) \<in> set (zip xs [0..<length xs])"
    using assms by (intro map_of_eq_Some_iff) simp
  then show ?thesis by (auto simp: set_zip)
qed

lemma rank_iff: "CAPABILITY_RANK c = Some i \<longleftrightarrow> i < 5 \<and> c = CAPABILITY_LEVELS ! i"
proof -
  have "distinct CAPABILITY_LEVELS" "length CAPABILITY_LEVELS = 5" by (simp_all add: CAPABILITY_LEVELS_def)
  then show ?thesis using map_of_zip_upt [of CAPABILITY_LEVELS c i] by (simp add: CAPABILITY_RANK_def)
qed

lemma sorted_set_filter_empty: "sorted_set (filter P xs) = [] \<longleftrightarrow> (\<forall>x\<in>set xs. \<not> P x)"
  by (simp add: filter_empty_conv)

lemma tool_table_valid: "list_all (\<lambda>(n, c). CAPABILITY_RANK c \<noteq> None) TOOL_CAPABILITIES"
  by (simp add: TOOL_CAPABILITIES_def rank_cases)

fun role_rank :: "role \<Rightarrow> nat" where
  "role_rank VIEWER = 0"
| "role_rank REVIEWER = 1"
| "role_rank ENGINEER = 2"
| "role_rank LEAD = 3"
| "role_rank ADMIN = 4"

lemma role_effective_eq:
  "role_effective_permissions r = (\<Union>r' \<in> {r'. role_rank r' \<le> role_rank r}. ROLE_PERMISSIONS r')"
proof -
  have "{r'. role_rank r' \<le> role_rank r} = set (filter (\<lambda>r'. role_rank r' \<le> role_rank r) ROLE_ORDER)"
  proof -
    have "set ROLE_ORDER = UNIV" using role.nchotomy by (auto simp: ROLE_ORDER_def)
    then show ?thesis by auto
  qed
  then show ?thesis
    by (cases r) (auto simp: role_effective_permissions_def ROLE_ORDER_def)
qed

section \<open>Properties\<close>

text \<open>
  Authorization is deny-by-default: apart from reading, an operation is allowed
  exactly when its capability is a known level and some granted level is at least as
  high; unknown grants count for nothing.
\<close>

theorem authorize_capability_exact:
  "fst (authorize_capability required granted) \<longleftrightarrow>
     required = ''read''
     \<or> (\<exists>i j. i < 5 \<and> j < 5 \<and> i \<le> j \<and> required = CAPABILITY_LEVELS ! i \<and> CAPABILITY_LEVELS ! j \<in> granted)"
proof -
  have "(\<exists>cap\<in>granted. rank_or_minus_one cap \<ge> int r) \<longleftrightarrow> (\<exists>j<5. r \<le> j \<and> CAPABILITY_LEVELS ! j \<in> granted)" for r
  proof -
    have "rank_or_minus_one cap \<ge> int r \<longleftrightarrow> (\<exists>j<5. r \<le> j \<and> cap = CAPABILITY_LEVELS ! j)" for cap
    proof -
      have "rank_or_minus_one cap \<ge> int r \<longleftrightarrow> (\<exists>j. CAPABILITY_RANK cap = Some j \<and> r \<le> j)"
        by (auto simp: rank_or_minus_one_def split: option.splits)
      then show ?thesis by (simp only: rank_iff) auto
    qed
    then show ?thesis by (simp only:) auto
  qed
  note grant = this
  show ?thesis
  proof (cases "CAPABILITY_RANK required")
    case None
    then have "\<not> (\<exists>i<5. required = CAPABILITY_LEVELS ! i)" by (metis option.distinct(1) rank_iff)
    then show ?thesis using None by (auto simp: authorize_capability_def)
  next
    case (Some r)
    then have r: "r < 5" "required = CAPABILITY_LEVELS ! r" by (simp_all add: rank_iff)
    then have uniq: "i < 5 \<and> required = CAPABILITY_LEVELS ! i \<longleftrightarrow> i = r" for i
      by (metis rank_iff Some option.inject)
    have eq1: "(\<exists>i j. i < 5 \<and> j < 5 \<and> i \<le> j \<and> required = CAPABILITY_LEVELS ! i \<and> CAPABILITY_LEVELS ! j \<in> granted)
        \<longleftrightarrow> (\<exists>j<5. r \<le> j \<and> CAPABILITY_LEVELS ! j \<in> granted)"
      using uniq r by metis
    have eq2: "fst (authorize_capability required granted) \<longleftrightarrow>
        required = ''read'' \<or> (\<exists>cap\<in>granted. rank_or_minus_one cap \<ge> int r)"
      using Some by (auto simp: authorize_capability_def)
    show ?thesis unfolding eq1 eq2 grant ..
  qed
qed

text \<open>
  The grant header is matched before it is lower-cased: a level is granted when it
  is written in lower case and silently dropped when written in capitals.
\<close>

theorem header_case_sensitive:
  "list_all (\<lambda>l. granted_capabilities_from_header (Some l) = {l}
               \<and> granted_capabilities_from_header (Some (upper l)) = {}) CAPABILITY_LEVELS
   \<and> granted_capabilities_from_header (Some ''read, Sandbox-Write'') = {''read''}"
  by code_simp

text \<open>
  The start-up check accepts a tool registry exactly when its names are those of the
  capability table, and then every registered tool has a capability that
  authorization knows.
\<close>

theorem inventory_exact:
  "is_ok (validate_tool_capability_inventory names) \<longleftrightarrow> set names = set (dict_keys TOOL_CAPABILITIES)"
proof -
  have "is_ok (inventory_check table names) \<longleftrightarrow> set names = set (dict_keys table)"
    if "list_all (\<lambda>(n, c). CAPABILITY_RANK c \<noteq> None) table" for table
  proof -
    have "filter (\<lambda>(n, c). CAPABILITY_RANK c = None) (sort_key fst table) = []"
      using that by (auto simp: filter_empty_conv list_all_iff)
    then show ?thesis
      by (auto simp: inventory_check_def Let_def filter_empty_conv)
  qed
  then show ?thesis using tool_table_valid by (simp add: validate_tool_capability_inventory_def)
qed

text \<open>
  Team permissions: a member holds a permission exactly when it is granted
  explicitly or by the member's role or a lower one, and it is not revoked; and the
  audit log grows by exactly one event with that outcome.
\<close>

theorem check_permission_exact:
  "(fst (check_permission now m p res alog) \<longleftrightarrow>
      p \<notin> tm_revocations m
      \<and> (p \<in> tm_grants m \<or> (\<exists>r. role_rank r \<le> role_rank (tm_role m) \<and> p \<in> ROLE_PERMISSIONS r)))
   \<and> map_option (map acc_allowed) (snd (check_permission now m p res alog))
     = map_option (\<lambda>l. map acc_allowed l @ [fst (check_permission now m p res alog)]) alog
   \<and> map_option butlast (snd (check_permission now m p res alog)) = alog"
  by (cases alog) (auto simp: check_permission_def Let_def effective_permissions_def role_effective_eq)

end
