(* ===== verification/Verify_Repair.thy ===== *)
theory Verify_Repair
  imports Design_Diff
begin

text \<open>
  The bounded verify/repair orchestrator: \<^verbatim>\<open>src/zaptrace/pipeline/verify_repair.py\<close> and
  the evidence contracts of \<^verbatim>\<open>verify_repair_models.py\<close>. Designs are values, so Python's
  \<^verbatim>\<open>copy.deepcopy\<close> isolation is implicit: a gate adapter returns evidence or raises,
  a repair adapter returns the mutated working design with its application record, or
  raises. The adapters, the SHA-256 digests of designs, policies and reports, and
  \<^verbatim>\<open>str\<close> on floats are arguments; the theorems hold for all of them. Path resolution
  and JSON output are not modelled.
\<close>

section \<open>Evidence\<close>

datatype gate_domain = D_ERC | D_DRC | D_KICAD_ORACLE | D_DFM | D_SIMULATION | D_SUPPLY_CHAIN | D_PROOF_PACK

fun gate_domain_value :: "gate_domain \<Rightarrow> string" where
  "gate_domain_value D_ERC = ''erc''"
| "gate_domain_value D_DRC = ''drc''"
| "gate_domain_value D_KICAD_ORACLE = ''kicad-oracle''"
| "gate_domain_value D_DFM = ''dfm''"
| "gate_domain_value D_SIMULATION = ''simulation''"
| "gate_domain_value D_SUPPLY_CHAIN = ''supply-chain''"
| "gate_domain_value D_PROOF_PACK = ''proof-pack''"

datatype gate_verdict = V_PASS | V_WARNING | V_BLOCKED | V_HUMAN_REVIEW | V_SKIPPED | V_ERROR

datatype failure_severity = FS_INFO | FS_WARNING | FS_ERROR | FS_CRITICAL

datatype repairability = AUTO_REPAIRABLE | HUMAN_REPAIRABLE | NON_REPAIRABLE

datatype stop_reason =
    ALL_GATES_PASSED | STOP_HUMAN_REVIEW | STOP_NON_REPAIRABLE | NO_PROGRESS
  | ITERATION_BUDGET_EXHAUSTED | GATE_EXECUTION_ERROR | REPAIR_EXECUTION_ERROR

fun stop_reason_value :: "stop_reason \<Rightarrow> string" where
  "stop_reason_value ALL_GATES_PASSED = ''all-gates-passed''"
| "stop_reason_value STOP_HUMAN_REVIEW = ''human-review-required''"
| "stop_reason_value STOP_NON_REPAIRABLE = ''non-repairable''"
| "stop_reason_value NO_PROGRESS = ''no-progress''"
| "stop_reason_value ITERATION_BUDGET_EXHAUSTED = ''iteration-budget-exhausted''"
| "stop_reason_value GATE_EXECUTION_ERROR = ''gate-execution-error''"
| "stop_reason_value REPAIR_EXECUTION_ERROR = ''repair-execution-error''"

record failure_evidence =
  fe_failure_id :: string
  fe_domain :: gate_domain
  fe_rule_id :: string
  fe_severity :: failure_severity
  fe_verdict :: gate_verdict
  fe_repairability :: repairability
  fe_message :: string
  fe_affected_refs :: "string list"
  fe_requires_human_review :: bool
  fe_details :: "(string, pyval) dict"

record gate_evidence =
  ge_domain :: gate_domain
  ge_verdict :: gate_verdict
  ge_design_state_hash :: string
  ge_summary :: string
  ge_blocks_autonomous_release :: bool
  ge_human_review_required :: bool
  ge_findings :: "failure_evidence list"
  ge_metadata :: "(string, pyval) dict"

definition ge_passed :: "gate_evidence \<Rightarrow> bool" where
  "ge_passed g = (ge_verdict g \<in> {V_PASS, V_WARNING})"

definition blocking_verdict :: "gate_verdict \<Rightarrow> bool" where
  "blocking_verdict v = (v \<in> {V_BLOCKED, V_HUMAN_REVIEW, V_ERROR})"

definition ge_blocking_count :: "gate_evidence \<Rightarrow> nat" where
  "ge_blocking_count g =
     (let n = count_if (\<lambda>f. blocking_verdict (fe_verdict f)) (ge_findings g)
      in if n \<noteq> 0 then n else if ge_blocks_autonomous_release g then 1 else 0)"

definition pass_result :: "gate_domain \<Rightarrow> string \<Rightarrow> string \<Rightarrow> gate_evidence" where
  "pass_result dm h summary =
     \<lparr> ge_domain = dm, ge_verdict = V_PASS, ge_design_state_hash = h, ge_summary = summary,
       ge_blocks_autonomous_release = False, ge_human_review_required = False, ge_findings = [],
       ge_metadata = [] \<rparr>"

definition worst_verdict :: "failure_evidence list \<Rightarrow> gate_verdict" where
  "worst_verdict findings =
     (let verdicts = fe_verdict ` set findings in
      if V_ERROR \<in> verdicts then V_ERROR
      else if V_BLOCKED \<in> verdicts then V_BLOCKED
      else if V_HUMAN_REVIEW \<in> verdicts then V_HUMAN_REVIEW
      else if V_WARNING \<in> verdicts then V_WARNING
      else if V_SKIPPED \<in> verdicts then V_SKIPPED
      else V_PASS)"

definition from_findings ::
  "gate_domain \<Rightarrow> string \<Rightarrow> failure_evidence list \<Rightarrow> string \<Rightarrow> (string, pyval) dict \<Rightarrow> gate_evidence" where
  "from_findings dm h findings summary metadata =
     (let verdict = worst_verdict findings in
      \<lparr> ge_domain = dm, ge_verdict = verdict, ge_design_state_hash = h, ge_summary = summary,
        ge_blocks_autonomous_release = (verdict \<in> {V_BLOCKED, V_HUMAN_REVIEW, V_SKIPPED, V_ERROR}),
        ge_human_review_required = (list_ex fe_requires_human_review findings \<or> verdict = V_HUMAN_REVIEW),
        ge_findings = findings, ge_metadata = metadata \<rparr>)"

record semantic_diff_evidence =
  sde_type :: string
  sde_ref :: string
  sde_detail :: string
  sde_old_value :: "string option"
  sde_new_value :: "string option"

record repair_application =
  ra_repair_id :: string
  ra_domains :: "gate_domain list"
  ra_rationale :: string
  ra_patches :: "(string, pyval) dict list"
  ra_decisions :: "(string, pyval) dict list"
  ra_human_review_required :: bool

record repair_evidence =
  re_iteration :: nat
  re_repair_id :: string
  re_domains :: "gate_domain list"
  re_rationale :: string
  re_before_state_hash :: string
  re_after_state_hash :: string
  re_before_blocking_count :: nat
  re_after_blocking_count :: nat
  re_improved :: bool
  re_semantic_diff :: "semantic_diff_evidence list"
  re_patches :: "(string, pyval) dict list"
  re_decisions :: "(string, pyval) dict list"
  re_human_review_required :: bool

record gate_history_entry =
  gh_iteration :: nat
  gh_phase :: string
  gh_design_state_hash :: string
  gh_blocking_count :: nat
  gh_human_review_count :: nat
  gh_gates :: "gate_evidence list"

record verify_repair_policy =
  vp_schema_version :: string
  vp_policy_version :: string
  vp_max_iterations :: nat
  vp_enabled_domains :: "gate_domain list"
  vp_fab_profile :: string
  vp_strict_simulation :: bool
  vp_erc_warnings_require_review :: bool
  vp_drc_warnings_require_review :: bool
  vp_non_claims :: "string list"

text \<open>The validator of \<open>enabled_domains\<close> and the bounds of \<open>max_iterations\<close>.\<close>

definition domains_are_unique :: "gate_domain list \<Rightarrow> gate_domain list result" where
  "domains_are_unique value =
     (if value = [] then Inl (ValueError ''at least one verify/repair domain is required'')
      else if length value \<noteq> card (set value) then Inl (ValueError ''verify/repair domains must be unique'')
      else Inr value)"

definition release_default :: verify_repair_policy where
  "release_default =
     \<lparr> vp_schema_version = ''1.0'', vp_policy_version = ''1.0'', vp_max_iterations = 3,
       vp_enabled_domains = [D_ERC, D_DRC, D_KICAD_ORACLE, D_DFM, D_SIMULATION, D_SUPPLY_CHAIN, D_PROOF_PACK],
       vp_fab_profile = ''jlcpcb-2layer'', vp_strict_simulation = True,
       vp_erc_warnings_require_review = True, vp_drc_warnings_require_review = False,
       vp_non_claims =
         [''Convergence is bounded software evidence, not electrical or fabrication approval.'',
          ''Skipped, missing, high-risk, or unsupported evidence never becomes an autonomous pass.'',
          ''Physical validation and qualified human engineering review remain separate evidence domains.''] \<rparr>"

definition automated_convergence :: verify_repair_policy where
  "automated_convergence = release_default\<lparr>
     vp_policy_version := ''1.0-automated-convergence'', vp_max_iterations := 3,
     vp_enabled_domains := [D_ERC], vp_strict_simulation := False, vp_erc_warnings_require_review := False,
     vp_non_claims :=
       [''This policy measures ERC repair convergence only.'',
        ''It does not run or waive release DRC, DFM, simulation, KiCad, supply-chain, or physical gates.'',
        ''A benchmark pass is not release, manufacturing, or fabrication readiness.''] \<rparr>"

record verify_repair_report =
  vr_schema_version :: string
  vr_design_name :: string
  vr_policy_version :: string
  vr_policy_sha256 :: string
  vr_enabled_domains :: "gate_domain list"
  vr_initial_design_state_hash :: string
  vr_final_design_state_hash :: string
  vr_converged :: bool
  vr_stop_reason :: stop_reason
  vr_blocks_autonomous_release :: bool
  vr_human_review_required :: bool
  vr_iteration_budget :: nat
  vr_iterations_used :: nat
  vr_gate_history :: "gate_history_entry list"
  vr_repairs :: "repair_evidence list"
  vr_final_gates :: "gate_evidence list"
  vr_human_review_reasons :: "string list"
  vr_non_claims :: "string list"
  vr_report_sha256 :: string

text \<open>\<^verbatim>\<open>finalize\<close> and the digest check of \<^verbatim>\<open>release_verify_repair_report_json\<close>, with the
  digest of the report without its own hash field as an argument.\<close>

definition finalize :: "(verify_repair_report \<Rightarrow> string) \<Rightarrow> verify_repair_report \<Rightarrow> verify_repair_report" where
  "finalize sha r = r\<lparr> vr_report_sha256 := sha (r\<lparr> vr_report_sha256 := [] \<rparr>) \<rparr>"

definition release_report_check ::
  "(verify_repair_report \<Rightarrow> string) \<Rightarrow> verify_repair_report \<Rightarrow> verify_repair_report result" where
  "release_report_check sha r =
     (let r' = (if vr_report_sha256 r = [] then finalize sha r else r)
      in if vr_report_sha256 r' \<noteq> sha (r'\<lparr> vr_report_sha256 := [] \<rparr>)
         then Inl (ValueError ''verify/repair report hash does not match report contents'')
         else Inr r')"

section \<open>The orchestrator\<close>

record vr_context =
  ctx_policy :: verify_repair_policy
  ctx_output_dir :: "string option"

type_synonym gate_adapter = "design \<Rightarrow> vr_context \<Rightarrow> gate_evidence result"
type_synonym repair_adapter =
  "design \<Rightarrow> failure_evidence list \<Rightarrow> vr_context \<Rightarrow> (design \<times> repair_application option) result"

text \<open>The digests and number formatting of the environment.\<close>

record vr_env =
  env_design_hash :: "design \<Rightarrow> string"
  env_policy_hash :: "verify_repair_policy \<Rightarrow> string"
  env_report_hash :: "verify_repair_report \<Rightarrow> string"
  env_float_str :: "pyfloat \<Rightarrow> string"

definition error_finding :: "gate_domain \<Rightarrow> string \<Rightarrow> string \<Rightarrow> string \<Rightarrow> failure_evidence" where
  "error_finding dm sfx rule message =
     \<lparr> fe_failure_id = gate_domain_value dm @ sfx, fe_domain = dm, fe_rule_id = rule,
       fe_severity = FS_CRITICAL, fe_verdict = V_ERROR, fe_repairability = NON_REPAIRABLE,
       fe_message = message, fe_affected_refs = [], fe_requires_human_review = True, fe_details = [] \<rparr>"

definition gate_error :: "gate_domain \<Rightarrow> string \<Rightarrow> string \<Rightarrow> gate_evidence" where
  "gate_error dm h message =
     from_findings dm h [error_finding dm '':gate-error'' ''gate-execution'' message] message []"

definition run_gate ::
  "vr_env \<Rightarrow> (gate_domain, gate_adapter) dict \<Rightarrow> vr_context \<Rightarrow> design \<Rightarrow> gate_domain \<Rightarrow> gate_evidence" where
  "run_gate env adapters ctx d dm =
     (let h = env_design_hash env d in
      case dict_get adapters dm of
        None \<Rightarrow> gate_error dm h (''no gate adapter configured for '' @ gate_domain_value dm)
      | Some adapter \<Rightarrow>
          (let result = (case adapter d ctx of
                           Inl exc \<Rightarrow> gate_error dm h
                             (gate_domain_value dm @ '' gate raised '' @ exc_name exc @ '': '' @ exc_str exc)
                         | Inr g \<Rightarrow> g)
           in if ge_domain result \<noteq> dm
              then gate_error dm h
                (gate_domain_value dm @ '' adapter returned evidence for '' @ gate_domain_value (ge_domain result))
              else if ge_design_state_hash result \<noteq> h
              then gate_error dm h (gate_domain_value dm @ '' evidence is not bound to the current design state'')
              else result))"

definition run_gates ::
  "vr_env \<Rightarrow> (gate_domain, gate_adapter) dict \<Rightarrow> vr_context \<Rightarrow> design \<Rightarrow> gate_evidence list" where
  "run_gates env adapters ctx d = map (run_gate env adapters ctx d) (vp_enabled_domains (ctx_policy ctx))"

definition replace_gate_with_repair_error ::
  "gate_evidence list \<Rightarrow> gate_domain \<Rightarrow> string \<Rightarrow> string \<Rightarrow> gate_evidence list" where
  "replace_gate_with_repair_error gates dm h message =
     (let previous = find (\<lambda>g. ge_domain g = dm) gates;
          error_gate = from_findings dm h
            ((case previous of None \<Rightarrow> [] | Some p \<Rightarrow> ge_findings p)
             @ [error_finding dm '':repair-error'' ''repair-execution'' message]) message
            (dict_set ''repair_execution_error'' (PStr message)
               (case previous of None \<Rightarrow> [] | Some p \<Rightarrow> ge_metadata p))
      in case previous of
           None \<Rightarrow> gates @ [error_gate]
         | Some p \<Rightarrow> map (\<lambda>g. if ge_domain g = dm then error_gate else g) gates)"

definition blocking_count :: "gate_evidence list \<Rightarrow> nat" where
  "blocking_count gates = sum_list (map ge_blocking_count gates)"

definition human_review_count :: "gate_evidence list \<Rightarrow> nat" where
  "human_review_count gates = count_if ge_human_review_required gates"

definition auto_repairable_count :: "gate_evidence list \<Rightarrow> nat" where
  "auto_repairable_count gates =
     count_if (\<lambda>f. fe_repairability f = AUTO_REPAIRABLE) (concat (map ge_findings gates))"

definition history_entry :: "vr_env \<Rightarrow> nat \<Rightarrow> string \<Rightarrow> design \<Rightarrow> gate_evidence list \<Rightarrow> gate_history_entry" where
  "history_entry env iteration phase d gates =
     \<lparr> gh_iteration = iteration, gh_phase = phase, gh_design_state_hash = env_design_hash env d,
       gh_blocking_count = blocking_count gates, gh_human_review_count = human_review_count gates,
       gh_gates = gates \<rparr>"

definition active_failures :: "gate_evidence list \<Rightarrow> failure_evidence list" where
  "active_failures gates =
     filter (\<lambda>f. blocking_verdict (fe_verdict f) \<or> fe_repairability f = AUTO_REPAIRABLE)
       (concat (map ge_findings gates))"

definition all_gates_pass :: "gate_evidence list \<Rightarrow> bool" where
  "all_gates_pass gates =
     (list_all (\<lambda>g. \<not> ge_blocks_autonomous_release g \<and> \<not> ge_human_review_required g) gates
      \<and> \<not> list_ex (\<lambda>f. fe_repairability f = AUTO_REPAIRABLE) (concat (map ge_findings gates)))"

definition semantic_diff :: "vr_env \<Rightarrow> design \<Rightarrow> design \<Rightarrow> semantic_diff_evidence list" where
  "semantic_diff env before after =
     map (\<lambda>e. \<lparr> sde_type = diff_type_value (diff_type e), sde_ref = diff_ref e, sde_detail = diff_detail e,
                sde_old_value = diff_old_value e, sde_new_value = diff_new_value e \<rparr>)
       (diff_designs (env_float_str env) before after)"

definition ordered_human_review_reasons :: "gate_evidence list \<Rightarrow> string list" where
  "ordered_human_review_reasons gates =
     dedup (map fe_message (filter fe_requires_human_review (concat (map ge_findings gates))))"

definition terminal_reason_before_repair :: "gate_evidence list \<Rightarrow> stop_reason option" where
  "terminal_reason_before_repair gates =
     (let failures = active_failures gates in
      if list_ex (\<lambda>g. ge_verdict g = V_ERROR) gates then Some GATE_EXECUTION_ERROR
      else if list_ex (\<lambda>f. fe_repairability f = AUTO_REPAIRABLE) failures then None
      else if list_ex (\<lambda>f. fe_repairability f = NON_REPAIRABLE) failures then Some STOP_NON_REPAIRABLE
      else if failures \<noteq> [] then Some STOP_HUMAN_REVIEW
      else None)"

definition build_report ::
  "vr_env \<Rightarrow> design \<Rightarrow> string \<Rightarrow> verify_repair_policy \<Rightarrow> gate_evidence list \<Rightarrow> gate_history_entry list
   \<Rightarrow> repair_evidence list \<Rightarrow> nat \<Rightarrow> stop_reason \<Rightarrow> verify_repair_report" where
  "build_report env d initial_hash policy gates history repairs iterations_used stop =
     (let converged = (stop = ALL_GATES_PASSED);
          reasons = ordered_human_review_reasons gates;
          reasons' = (if \<not> converged \<and> reasons = []
                      then [''verify/repair stopped with '' @ stop_reason_value stop] else reasons)
      in finalize (env_report_hash env)
           \<lparr> vr_schema_version = ''1.0'', vr_design_name = meta_name (des_meta d),
             vr_policy_version = vp_policy_version policy, vr_policy_sha256 = env_policy_hash env policy,
             vr_enabled_domains = vp_enabled_domains policy,
             vr_initial_design_state_hash = initial_hash,
             vr_final_design_state_hash = env_design_hash env d, vr_converged = converged,
             vr_stop_reason = stop, vr_blocks_autonomous_release = (\<not> converged),
             vr_human_review_required = (\<not> converged), vr_iteration_budget = vp_max_iterations policy,
             vr_iterations_used = iterations_used, vr_gate_history = history, vr_repairs = repairs,
             vr_final_gates = gates, vr_human_review_reasons = reasons',
             vr_non_claims = vp_non_claims policy, vr_report_sha256 = [] \<rparr>)"

record repair_cycle_result =
  rc_design :: design
  rc_gates :: "gate_evidence list"
  rc_history :: gate_history_entry
  rc_repairs :: "repair_evidence list"
  rc_progress :: bool
  rc_stop_reason :: "stop_reason option"

fun apply_repairs ::
  "repair_adapter list \<Rightarrow> failure_evidence list \<Rightarrow> vr_context \<Rightarrow> design
   \<Rightarrow> (design \<times> repair_application list) result" where
  "apply_repairs [] failures ctx working = Inr (working, [])"
| "apply_repairs (a # as) failures ctx working =
     rbind (a working failures ctx) (\<lambda>(working', app).
     rbind (apply_repairs as failures ctx working') (\<lambda>(working'', apps).
       Inr (working'', (case app of None \<Rightarrow> apps | Some x \<Rightarrow> x # apps))))"

definition repair_error_cycle ::
  "vr_env \<Rightarrow> nat \<Rightarrow> design \<Rightarrow> gate_evidence list \<Rightarrow> gate_domain \<Rightarrow> string \<Rightarrow> repair_cycle_result" where
  "repair_error_cycle env iteration before gates dm message =
     (let error_gates = replace_gate_with_repair_error gates dm (env_design_hash env before) message
      in \<lparr> rc_design = before, rc_gates = error_gates,
           rc_history = history_entry env iteration ''post-repair'' before error_gates,
           rc_repairs = [], rc_progress = False, rc_stop_reason = Some REPAIR_EXECUTION_ERROR \<rparr>)"

definition run_repair_cycle ::
  "vr_env \<Rightarrow> (gate_domain, gate_adapter) dict \<Rightarrow> repair_adapter list \<Rightarrow> vr_context \<Rightarrow> nat
   \<Rightarrow> gate_evidence list \<Rightarrow> design \<Rightarrow> repair_cycle_result" where
  "run_repair_cycle env gate_adapters repair_adapters ctx iteration gates before =
     (let failures = active_failures gates;
          before_hash = env_design_hash env before;
          dm = (case failures of f # _ \<Rightarrow> fe_domain f | [] \<Rightarrow> hd (vp_enabled_domains (ctx_policy ctx)))
      in case apply_repairs repair_adapters failures ctx before of
           Inl exc \<Rightarrow>
             repair_error_cycle env iteration before gates dm
               (gate_domain_value dm @ '' repair raised '' @ exc_name exc @ '': '' @ exc_str exc)
         | Inr (working, applications) \<Rightarrow>
             let after_hash = env_design_hash env working in
             if applications = [] \<and> after_hash \<noteq> before_hash then
               repair_error_cycle env iteration before gates dm
                 (gate_domain_value dm @ '' repair mutated design without RepairApplication evidence'')
             else
               (let after_gates = run_gates env gate_adapters ctx working;
                    improved = (blocking_count after_gates < blocking_count gates
                                \<or> auto_repairable_count after_gates < auto_repairable_count gates)
                in \<lparr> rc_design = working, rc_gates = after_gates,
                     rc_history = history_entry env iteration ''post-repair'' working after_gates,
                     rc_repairs = map (\<lambda>a.
                       \<lparr> re_iteration = iteration, re_repair_id = ra_repair_id a, re_domains = ra_domains a,
                         re_rationale = ra_rationale a, re_before_state_hash = before_hash,
                         re_after_state_hash = after_hash,
                         re_before_blocking_count = blocking_count gates,
                         re_after_blocking_count = blocking_count after_gates, re_improved = improved,
                         re_semantic_diff = semantic_diff env before working, re_patches = ra_patches a,
                         re_decisions = ra_decisions a,
                         re_human_review_required = ra_human_review_required a \<rparr>) applications,
                     rc_progress = (applications \<noteq> [] \<and> after_hash \<noteq> before_hash \<and> improved),
                     rc_stop_reason = None \<rparr>))"

record iteration_result =
  ir_design :: design
  ir_gates :: "gate_evidence list"
  ir_history :: "gate_history_entry list"
  ir_repairs :: "repair_evidence list"
  ir_iterations_used :: nat
  ir_stop_reason :: stop_reason

definition cycle_stop_reason :: "repair_cycle_result \<Rightarrow> gate_evidence list \<Rightarrow> stop_reason option" where
  "cycle_stop_reason cycle gates =
     (case rc_stop_reason cycle of
        Some r \<Rightarrow> Some r
      | None \<Rightarrow>
          if all_gates_pass gates then Some ALL_GATES_PASSED
          else if \<not> rc_progress cycle then Some NO_PROGRESS
          else None)"

text \<open>The \<^verbatim>\<open>for iteration in range(1, max_iterations + 1)\<close> loop: \<open>n\<close> iterations are left
  and the next one has number \<open>i\<close>.\<close>

fun iterate ::
  "vr_env \<Rightarrow> (gate_domain, gate_adapter) dict \<Rightarrow> repair_adapter list \<Rightarrow> vr_context \<Rightarrow> nat \<Rightarrow> nat
   \<Rightarrow> design \<Rightarrow> gate_evidence list \<Rightarrow> gate_history_entry list \<Rightarrow> repair_evidence list \<Rightarrow> iteration_result" where
  "iterate env gas ras ctx 0 i d gates history repairs =
     \<lparr> ir_design = d, ir_gates = gates, ir_history = history, ir_repairs = repairs,
       ir_iterations_used = vp_max_iterations (ctx_policy ctx), ir_stop_reason = ITERATION_BUDGET_EXHAUSTED \<rparr>"
| "iterate env gas ras ctx (Suc n) i d gates history repairs =
     (case terminal_reason_before_repair gates of
        Some r \<Rightarrow> \<lparr> ir_design = d, ir_gates = gates, ir_history = history, ir_repairs = repairs,
                    ir_iterations_used = i - 1, ir_stop_reason = r \<rparr>
      | None \<Rightarrow>
          (let cycle = run_repair_cycle env gas ras ctx i gates d;
               history' = history @ [rc_history cycle];
               repairs' = repairs @ rc_repairs cycle
           in case cycle_stop_reason cycle (rc_gates cycle) of
                Some r \<Rightarrow> \<lparr> ir_design = rc_design cycle, ir_gates = rc_gates cycle, ir_history = history',
                            ir_repairs = repairs', ir_iterations_used = i, ir_stop_reason = r \<rparr>
              | None \<Rightarrow> iterate env gas ras ctx n (Suc i) (rc_design cycle) (rc_gates cycle) history' repairs'))"

definition run_iterations ::
  "vr_env \<Rightarrow> (gate_domain, gate_adapter) dict \<Rightarrow> repair_adapter list \<Rightarrow> vr_context \<Rightarrow> design \<Rightarrow> iteration_result" where
  "run_iterations env gas ras ctx d =
     (let gates = run_gates env gas ctx d;
          history = [history_entry env 0 ''initial'' d gates]
      in if all_gates_pass gates
         then \<lparr> ir_design = d, ir_gates = gates, ir_history = history, ir_repairs = [],
                ir_iterations_used = 0, ir_stop_reason = ALL_GATES_PASSED \<rparr>
         else iterate env gas ras ctx (vp_max_iterations (ctx_policy ctx)) 1 d gates history [])"

definition run_verify_repair ::
  "vr_env \<Rightarrow> (gate_domain, gate_adapter) dict \<Rightarrow> repair_adapter list \<Rightarrow> verify_repair_policy
   \<Rightarrow> string option \<Rightarrow> design \<Rightarrow> design \<times> verify_repair_report" where
  "run_verify_repair env gas ras policy output_dir d =
     (let ctx = \<lparr> ctx_policy = policy, ctx_output_dir = output_dir \<rparr>;
          r = run_iterations env gas ras ctx d
      in (ir_design r,
          build_report env (ir_design r) (env_design_hash env d) policy (ir_gates r) (ir_history r)
            (ir_repairs r) (ir_iterations_used r) (ir_stop_reason r)))"

section \<open>Gates are state-bound\<close>

text \<open>
  What the loop relies on from a gate run: one result per enabled domain, in order,
  each bound to the hash of the design it was run on. \<open>run_gates\<close> provides it for
  every set of adapters, because it replaces a result that breaks it by an error.
\<close>

locale state_bound_gates =
  fixes run :: "design \<Rightarrow> gate_evidence list"
    and domains :: "gate_domain list"
    and hash :: "design \<Rightarrow> string"
  assumes covers: "map ge_domain (run d) = domains"
    and bound: "g \<in> set (run d) \<Longrightarrow> ge_design_state_hash g = hash d"
begin

lemma length_run: "length (run d) = length domains"
  by (metis covers length_map)

lemma every_domain_reported: "dm \<in> set domains \<Longrightarrow> \<exists>g\<in>set (run d). ge_domain g = dm \<and> ge_design_state_hash g = hash d"
  by (metis (no_types, lifting) bound covers imageE list.set_map)

text \<open>Evidence of one state is never evidence of a state with another hash.\<close>

lemma no_stale_evidence: "hash d \<noteq> hash d' \<Longrightarrow> set (run d) \<inter> set (run d') = {}"
  by (metis bound disjoint_iff)

end

lemma from_findings_sel [simp]:
  "ge_domain (from_findings dm h fs s m) = dm"
  "ge_design_state_hash (from_findings dm h fs s m) = h"
  "ge_verdict (from_findings dm h fs s m) = worst_verdict fs"
  "ge_findings (from_findings dm h fs s m) = fs"
  "ge_blocks_autonomous_release (from_findings dm h fs s m) \<longleftrightarrow>
     worst_verdict fs \<in> {V_BLOCKED, V_HUMAN_REVIEW, V_SKIPPED, V_ERROR}"
  by (simp_all add: from_findings_def Let_def)

lemma gate_error_sel [simp]:
  "ge_domain (gate_error dm h msg) = dm" "ge_design_state_hash (gate_error dm h msg) = h"
  "ge_verdict (gate_error dm h msg) = V_ERROR" "ge_blocks_autonomous_release (gate_error dm h msg)"
  by (simp_all add: gate_error_def worst_verdict_def error_finding_def)

lemma run_gate_bound:
  "ge_domain (run_gate env gas ctx d dm) = dm"
  "ge_design_state_hash (run_gate env gas ctx d dm) = env_design_hash env d"
  by (auto simp: run_gate_def Let_def split: option.split sum.split)

interpretation gates: state_bound_gates
  "run_gates env gas ctx" "vp_enabled_domains (ctx_policy ctx)" "env_design_hash env" for env gas ctx
  by unfold_locales (auto simp: run_gates_def comp_def run_gate_bound)

section \<open>The loop invariant\<close>

definition entry_for :: "vr_env \<Rightarrow> design \<Rightarrow> gate_evidence list \<Rightarrow> gate_history_entry \<Rightarrow> bool" where
  "entry_for env d gates h =
     (gh_design_state_hash h = env_design_hash env d \<and> gh_gates h = gates
      \<and> gh_blocking_count h = blocking_count gates)"

definition trail_ok :: "gate_history_entry list \<Rightarrow> repair_evidence list \<Rightarrow> bool" where
  "trail_ok hist repairs =
     ((\<forall>k<length hist. gh_iteration (hist ! k) = k)
      \<and> (\<forall>e\<in>set repairs. 0 < re_iteration e \<and> re_iteration e < length hist
           \<and> re_before_state_hash e = gh_design_state_hash (hist ! (re_iteration e - 1))
           \<and> re_after_state_hash e = gh_design_state_hash (hist ! re_iteration e)))"

definition improves :: "gate_history_entry \<Rightarrow> gate_history_entry \<Rightarrow> bool" where
  "improves a b =
     (gh_design_state_hash b \<noteq> gh_design_state_hash a
      \<and> (gh_blocking_count b < gh_blocking_count a
         \<or> auto_repairable_count (gh_gates b) < auto_repairable_count (gh_gates a)))"

definition improving :: "nat \<Rightarrow> gate_history_entry list \<Rightarrow> bool" where
  "improving m hist = (\<forall>k. 0 < k \<and> k < m \<longrightarrow> improves (hist ! (k - 1)) (hist ! k))"

definition vr_post ::
  "vr_env \<Rightarrow> (gate_domain, gate_adapter) dict \<Rightarrow> vr_context \<Rightarrow> iteration_result \<Rightarrow> bool" where
  "vr_post env gas ctx r =
     (ir_iterations_used r \<le> vp_max_iterations (ctx_policy ctx)
      \<and> length (ir_history r) = Suc (ir_iterations_used r)
      \<and> trail_ok (ir_history r) (ir_repairs r)
      \<and> improving (ir_iterations_used r) (ir_history r)
      \<and> entry_for env (ir_design r) (ir_gates r) (last (ir_history r))
      \<and> (ir_stop_reason r = ALL_GATES_PASSED \<longrightarrow>
           all_gates_pass (ir_gates r) \<and> ir_gates r = run_gates env gas ctx (ir_design r)))"

lemma cycle_facts:
  assumes "c = run_repair_cycle env gas ras ctx i gates d"
  shows "rc_history c = history_entry env i ''post-repair'' (rc_design c) (rc_gates c)"
    and "e \<in> set (rc_repairs c) \<Longrightarrow> re_iteration e = i \<and> re_before_state_hash e = env_design_hash env d
           \<and> re_after_state_hash e = env_design_hash env (rc_design c)"
    and "rc_stop_reason c = None \<and> rc_gates c = run_gates env gas ctx (rc_design c)
         \<or> rc_stop_reason c = Some REPAIR_EXECUTION_ERROR \<and> rc_design c = d"
    and "rc_progress c \<Longrightarrow> env_design_hash env (rc_design c) \<noteq> env_design_hash env d
           \<and> (blocking_count (rc_gates c) < blocking_count gates
              \<or> auto_repairable_count (rc_gates c) < auto_repairable_count gates)"
  unfolding assms run_repair_cycle_def repair_error_cycle_def Let_def
  by (auto split: sum.splits if_splits)

lemma trail_ok_append:
  assumes "trail_ok hist repairs" "hist \<noteq> []" "gh_iteration h = length hist"
    and "\<And>e. e \<in> set new \<Longrightarrow> re_iteration e = length hist
           \<and> re_before_state_hash e = gh_design_state_hash (last hist)
           \<and> re_after_state_hash e = gh_design_state_hash h"
  shows "trail_ok (hist @ [h]) (repairs @ new)"
  using assms
  by (auto simp: trail_ok_def nth_append last_conv_nth less_Suc_eq)

lemma improving_append:
  assumes "improving (length hist) hist" "hist \<noteq> []" "improves (last hist) h"
  shows "improving (Suc (length hist)) (hist @ [h])"
  using assms by (auto simp: improving_def nth_append last_conv_nth less_Suc_eq)

lemma improving_prefix: "improving (length hist) hist \<Longrightarrow> improving (length hist) (hist @ hs)"
  by (auto simp: improving_def nth_append)

lemma entry_for_history: "entry_for env d gates (history_entry env i ph d gates)"
  by (simp add: entry_for_def history_entry_def)

lemma terminal_not_all_passed: "terminal_reason_before_repair gates \<noteq> Some ALL_GATES_PASSED"
  by (simp add: terminal_reason_before_repair_def Let_def)

lemma iterate_post:
  assumes "n + i = Suc (vp_max_iterations (ctx_policy ctx))" "length hist = i" "0 < i"
    and "trail_ok hist repairs" "improving i hist" "entry_for env d gates (last hist)"
    and "gates = run_gates env gas ctx d"
  shows "vr_post env gas ctx (iterate env gas ras ctx n i d gates hist repairs)"
  using assms
proof (induction n arbitrary: i d gates hist repairs)
  case 0
  then show ?case by (auto simp: vr_post_def improving_def)
next
  case (Suc n)
  define c where "c = run_repair_cycle env gas ras ctx i gates d"
  note c = cycle_facts [OF c_def]
  have ne: "hist \<noteq> []" using Suc.prems(2,3) by auto
  have trail: "trail_ok (hist @ [rc_history c]) (repairs @ rc_repairs c)"
    using Suc.prems(2,4,6) c(2) ne
    by (intro trail_ok_append) (auto simp: c(1) history_entry_def entry_for_def)
  have entry: "entry_for env (rc_design c) (rc_gates c) (last (hist @ [rc_history c]))"
    by (simp add: c(1) entry_for_history)
  show ?case
  proof (cases "terminal_reason_before_repair gates")
    case (Some r)
    then show ?thesis
      using Suc.prems terminal_not_all_passed [of gates] by (auto simp: vr_post_def improving_def)
  next
    case None
    show ?thesis
    proof (cases "cycle_stop_reason c (rc_gates c)")
      case (Some r)
      then have pass: "r = ALL_GATES_PASSED \<longrightarrow>
          all_gates_pass (rc_gates c) \<and> rc_gates c = run_gates env gas ctx (rc_design c)"
        using c(3) by (auto simp: cycle_stop_reason_def split: option.splits if_splits)
      have "iterate env gas ras ctx (Suc n) i d gates hist repairs =
          \<lparr> ir_design = rc_design c, ir_gates = rc_gates c, ir_history = hist @ [rc_history c],
            ir_repairs = repairs @ rc_repairs c, ir_iterations_used = i, ir_stop_reason = r \<rparr>"
        using None Some by (simp add: c_def [symmetric] Let_def)
      then show ?thesis
        using Suc.prems trail entry pass improving_prefix [of hist "[rc_history c]"] by (auto simp: vr_post_def)
    next
      case cont: None
      then have c': "rc_gates c = run_gates env gas ctx (rc_design c)" "rc_progress c"
        using c(3) by (auto simp: cycle_stop_reason_def split: option.splits if_splits)
      have "improves (last hist) (rc_history c)"
        using c(4) [OF c'(2)] Suc.prems(6)
        by (auto simp: improves_def c(1) history_entry_def entry_for_def)
      then have "improving (Suc i) (hist @ [rc_history c])"
        using improving_append ne Suc.prems(2,5) by blast
      then have "vr_post env gas ctx (iterate env gas ras ctx n (Suc i) (rc_design c) (rc_gates c)
          (hist @ [rc_history c]) (repairs @ rc_repairs c))"
        using Suc.prems trail entry c'(1) by (intro Suc.IH) simp_all
      then show ?thesis using None cont by (simp add: c_def [symmetric] Let_def)
    qed
  qed
qed

lemma run_iterations_post: "vr_post env gas ctx (run_iterations env gas ras ctx d)"
proof (cases "all_gates_pass (run_gates env gas ctx d)")
  case True
  then show ?thesis
    by (simp add: run_iterations_def Let_def vr_post_def trail_ok_def improving_def entry_for_history)
       (simp add: history_entry_def)
next
  case False
  have "vr_post env gas ctx (iterate env gas ras ctx (vp_max_iterations (ctx_policy ctx)) 1 d
      (run_gates env gas ctx d) [history_entry env 0 ''initial'' d (run_gates env gas ctx d)] [])"
    by (rule iterate_post) (simp_all add: trail_ok_def improving_def entry_for_def history_entry_def)
  then show ?thesis using False by (simp add: run_iterations_def Let_def)
qed

lemma build_report_sel [simp]:
  fixes env d h p gates hist reps n r
  defines "rep \<equiv> build_report env d h p gates hist reps n r"
  shows "vr_converged rep \<longleftrightarrow> r = ALL_GATES_PASSED" "vr_stop_reason rep = r" "vr_final_gates rep = gates"
    "vr_gate_history rep = hist" "vr_repairs rep = reps" "vr_iterations_used rep = n"
    "vr_iteration_budget rep = vp_max_iterations p"
    "vr_final_design_state_hash rep = env_design_hash env d" "vr_initial_design_state_hash rep = h"
    "vr_blocks_autonomous_release rep \<longleftrightarrow> r \<noteq> ALL_GATES_PASSED"
    "vr_human_review_required rep \<longleftrightarrow> r \<noteq> ALL_GATES_PASSED"
  by (simp_all add: rep_def build_report_def finalize_def Let_def)

lemma build_report_reasons:
  "r \<noteq> ALL_GATES_PASSED \<Longrightarrow> vr_human_review_reasons (build_report env d h p gates hist reps n r) \<noteq> []"
  by (simp add: build_report_def finalize_def Let_def)

section \<open>Properties\<close>

text \<open>
  A concrete run used by the witnesses: the design's revision counts how many of two
  auto-repairable findings have been repaired.
\<close>

definition demo_env :: vr_env where
  "demo_env = \<lparr> env_design_hash = (\<lambda>d. str_of_int (meta_revision (des_meta d))),
     env_policy_hash = vp_policy_version, env_report_hash = vr_design_name, env_float_str = (\<lambda>_. []) \<rparr>"

definition demo_gate :: gate_adapter where
  "demo_gate d ctx = Inr (from_findings D_ERC (env_design_hash demo_env d)
     (replicate (nat (3 - meta_revision (des_meta d)))
        ((error_finding D_ERC '':demo'' ''ERC005'' ''missing pull-up'')\<lparr> fe_verdict := V_BLOCKED,
           fe_repairability := AUTO_REPAIRABLE, fe_requires_human_review := False \<rparr>)) [] [])"

definition demo_repair :: repair_adapter where
  "demo_repair d fs ctx = Inr (d\<lparr> des_meta := (des_meta d)\<lparr> meta_revision := meta_revision (des_meta d) + 1 \<rparr> \<rparr>,
     Some \<lparr> ra_repair_id = ''r'', ra_domains = [D_ERC], ra_rationale = ''add pull-up'', ra_patches = [],
            ra_decisions = [], ra_human_review_required = False \<rparr>)"

definition demo_run :: "repair_adapter list \<Rightarrow> design \<times> verify_repair_report" where
  "demo_run ras =
     run_verify_repair demo_env [(D_ERC, demo_gate)] ras automated_convergence None (mk_design ''demo'' [] [])"

lemma demo_run_converges:
  "vr_converged (snd (demo_run [demo_repair]))" "vr_iterations_used (snd (demo_run [demo_repair])) = 2"
  "\<not> vr_converged (snd (demo_run []))"
  by code_simp+

lemma demo_run_eq:
  "run_verify_repair demo_env [(D_ERC, demo_gate)] ras automated_convergence None (mk_design ''demo'' [] [])
   = (fst (demo_run ras), snd (demo_run ras))"
  by (simp add: demo_run_def)

text \<open>
  C1: A converged run is backed by evidence for the very design it returns: every
  enabled domain has exactly one final gate, in policy order, bound to the hash of the
  returned design; none blocks, needs a human or carries an auto-repairable finding;
  and the gates are those of a run on the returned design. This holds for every set of
  gate and repair adapters, including ones that raise or misreport.
\<close>

theorem converged_sound:
  assumes "run_verify_repair env gas ras policy out d = (d', rep)" "vr_converged rep"
  shows "map ge_domain (vr_final_gates rep) = vp_enabled_domains policy
    \<and> (\<forall>g\<in>set (vr_final_gates rep).
         ge_design_state_hash g = env_design_hash env d' \<and> \<not> ge_blocks_autonomous_release g
         \<and> \<not> ge_human_review_required g
         \<and> (\<forall>f\<in>set (ge_findings g). fe_repairability f \<noteq> AUTO_REPAIRABLE))
    \<and> vr_final_design_state_hash rep = env_design_hash env d'
    \<and> vr_final_gates rep = run_gates env gas \<lparr> ctx_policy = policy, ctx_output_dir = out \<rparr> d'"
proof -
  let ?ctx = "\<lparr> ctx_policy = policy, ctx_output_dir = out \<rparr>"
  let ?r = "run_iterations env gas ras ?ctx d"
  have r: "d' = ir_design ?r" "vr_final_gates rep = ir_gates ?r" "ir_stop_reason ?r = ALL_GATES_PASSED"
    "vr_final_design_state_hash rep = env_design_hash env d'"
    using assms by (auto simp: run_verify_repair_def Let_def)
  have "ir_stop_reason ?r = ALL_GATES_PASSED \<longrightarrow>
      all_gates_pass (ir_gates ?r) \<and> ir_gates ?r = run_gates env gas ?ctx (ir_design ?r)"
    using run_iterations_post [of env gas ?ctx ras d] unfolding vr_post_def by blast
  with r have g: "all_gates_pass (ir_gates ?r)" "ir_gates ?r = run_gates env gas ?ctx d'" by blast+
  have "map ge_domain (vr_final_gates rep) = vp_enabled_domains policy"
    using gates.covers [of env gas ?ctx d'] by (simp add: r(2) g(2))
  moreover have "\<forall>x\<in>set (vr_final_gates rep). ge_design_state_hash x = env_design_hash env d'"
    using gates.bound [of _ env gas ?ctx d'] by (simp add: r(2) g(2))
  ultimately show ?thesis
    using g r(2,4) by (auto simp: all_gates_pass_def list_all_iff list_ex_iff)
qed

theorem converged_sound_witness:
  "vr_converged (snd (demo_run [demo_repair])) \<and> map ge_domain (vr_final_gates (snd (demo_run [demo_repair]))) = [D_ERC]"
proof -
  have "vp_enabled_domains automated_convergence = [D_ERC]" by (simp add: automated_convergence_def)
  then show ?thesis
    using converged_sound [OF demo_run_eq demo_run_converges(1), THEN conjunct1] demo_run_converges(1) by simp
qed



text \<open>
  C26: The run is bounded and its trail is complete: at most the budgeted iterations are
  used, the history has one entry per state numbered from 0, the last entry is the
  final gates and final hash, and every repair is recorded with the hashes of the
  history entries before and after its iteration.
\<close>

theorem bounded_and_traced:
  assumes "run_verify_repair env gas ras policy out d = (d', rep)"
  shows "vr_iterations_used rep \<le> vp_max_iterations policy
    \<and> length (vr_gate_history rep) = Suc (vr_iterations_used rep)
    \<and> map gh_iteration (vr_gate_history rep) = [0..<Suc (vr_iterations_used rep)]
    \<and> gh_gates (last (vr_gate_history rep)) = vr_final_gates rep
    \<and> gh_design_state_hash (last (vr_gate_history rep)) = env_design_hash env d'
    \<and> (\<forall>e\<in>set (vr_repairs rep). 0 < re_iteration e \<and> re_iteration e \<le> vr_iterations_used rep
         \<and> re_before_state_hash e = gh_design_state_hash (vr_gate_history rep ! (re_iteration e - 1))
         \<and> re_after_state_hash e = gh_design_state_hash (vr_gate_history rep ! re_iteration e))"
proof -
  let ?ctx = "\<lparr> ctx_policy = policy, ctx_output_dir = out \<rparr>"
  let ?r = "run_iterations env gas ras ?ctx d"
  have r: "d' = ir_design ?r" "vr_final_gates rep = ir_gates ?r" "vr_gate_history rep = ir_history ?r"
    "vr_repairs rep = ir_repairs ?r" "vr_iterations_used rep = ir_iterations_used ?r"
    using assms by (auto simp: run_verify_repair_def Let_def)
  have p: "vr_post env gas ?ctx ?r" by (rule run_iterations_post)
  then have "map gh_iteration (ir_history ?r) = [0..<Suc (ir_iterations_used ?r)]"
    by (intro nth_equalityI) (auto simp: vr_post_def trail_ok_def simp del: upt_Suc)
  then show ?thesis
    using p unfolding r vr_post_def trail_ok_def entry_for_def
    by (auto simp: less_Suc_eq_le simp del: upt_Suc)
qed

theorem bounded_and_traced_witness:
  "vr_iterations_used (snd (demo_run [demo_repair])) = 2
   \<and> length (vr_gate_history (snd (demo_run [demo_repair]))) = 3"
  using bounded_and_traced [OF demo_run_eq, of "[demo_repair]"] demo_run_converges(2) by simp

text \<open>
  The loop goes on only while it improves: every iteration before the last one
  changed the design state and reduced the number of blocking findings or of
  auto-repairable findings.
\<close>

theorem iterations_improve:
  assumes "run_verify_repair env gas ras policy out d = (d', rep)"
    and "0 < k" "k < vr_iterations_used rep"
  shows "gh_design_state_hash (vr_gate_history rep ! k) \<noteq> gh_design_state_hash (vr_gate_history rep ! (k - 1))
    \<and> (gh_blocking_count (vr_gate_history rep ! k) < gh_blocking_count (vr_gate_history rep ! (k - 1))
       \<or> auto_repairable_count (gh_gates (vr_gate_history rep ! k))
         < auto_repairable_count (gh_gates (vr_gate_history rep ! (k - 1))))"
  using assms run_iterations_post [of env gas "\<lparr> ctx_policy = policy, ctx_output_dir = out \<rparr>" ras d]
  by (auto simp: run_verify_repair_def Let_def vr_post_def improving_def improves_def)

theorem iterations_improve_witness:
  "gh_design_state_hash (vr_gate_history (snd (demo_run [demo_repair])) ! 1)
   \<noteq> gh_design_state_hash (vr_gate_history (snd (demo_run [demo_repair])) ! 0)"
  using iterations_improve [OF demo_run_eq, of 1 "[demo_repair]"] demo_run_converges(2) by simp

lemma repair_error_never_passes: "\<not> all_gates_pass (replace_gate_with_repair_error gates dm h msg)"
proof -
  have w: "worst_verdict (fs @ [error_finding dm sfx rl msg]) = V_ERROR" for fs sfx rl
    by (simp add: worst_verdict_def error_finding_def)
  show ?thesis
  proof (cases "find (\<lambda>g. ge_domain g = dm) gates")
    case None
    then show ?thesis
      using w [of "[]"] by (simp add: replace_gate_with_repair_error_def all_gates_pass_def)
  next
    case (Some p)
    then have "p \<in> set gates" "ge_domain p = dm" by (auto dest: find_Some_props)
    moreover define e where "e = from_findings dm h
        (ge_findings p @ [error_finding dm '':repair-error'' ''repair-execution'' msg]) msg
        (dict_set ''repair_execution_error'' (PStr msg) (ge_metadata p))"
    ultimately have "e \<in> set (replace_gate_with_repair_error gates dm h msg)"
      using Some by (auto simp: replace_gate_with_repair_error_def Let_def)
    moreover have "ge_blocks_autonomous_release e" using w by (simp add: e_def)
    ultimately show ?thesis by (auto simp: all_gates_pass_def list_all_iff)
  qed
qed



text \<open>
  Skipped evidence is masked by a warning: a gate whose findings are a skipped check
  and a warning, none needing review, gets the verdict of the warning and neither
  blocks autonomous release nor asks for review, although skipped evidence alone does.
\<close>

theorem skipped_masked_by_warning:
  assumes "fe_verdict s = V_SKIPPED" "fe_verdict w = V_WARNING"
    and "\<not> fe_requires_human_review s" "\<not> fe_requires_human_review w"
  shows "ge_blocks_autonomous_release (from_findings dm h [s] summary md)
    \<and> ge_verdict (from_findings dm h [s, w] summary md) = V_WARNING
    \<and> \<not> ge_blocks_autonomous_release (from_findings dm h [s, w] summary md)
    \<and> \<not> ge_human_review_required (from_findings dm h [s, w] summary md)
    \<and> ge_blocking_count (from_findings dm h [s, w] summary md) = 0"
  using assms by (simp add: worst_verdict_def ge_blocking_count_def blocking_verdict_def from_findings_def Let_def)

theorem skipped_masked_by_warning_witness:
  "ge_verdict (from_findings D_SIMULATION ''h''
     [(error_finding D_SIMULATION [] [] [])\<lparr> fe_verdict := V_SKIPPED, fe_requires_human_review := False \<rparr>,
      (error_finding D_SIMULATION [] [] [])\<lparr> fe_verdict := V_WARNING, fe_requires_human_review := False \<rparr>] [] [])
   = V_WARNING"
  by (rule skipped_masked_by_warning [THEN conjunct2, THEN conjunct1]) simp_all

end
