(* ===== verification/Rate_Limit.thy ===== *)
theory Rate_Limit
  imports Zap_Prelude
begin

text \<open>
  \<^verbatim>\<open>src/zaptrace/api/abuse_control.py\<close>: client identification behind proxies, the
  in-memory sliding-window rate limiter and its configuration. The parsers of Python's
  \<^verbatim>\<open>ipaddress\<close> module are arguments. Times are exact rationals: on the clock's values
  (multiples of the spacing of a binary64 number near the current time) the only
  arithmetic of the limiter, \<^verbatim>\<open>now - window\<close> with a whole number of seconds, is exact.
  Every operation holds the lock for its whole body, so operations are atomic steps.
  The ASGI body-limit middleware is event-loop code and is not modelled.
\<close>

section \<open>Client identification\<close>

fun split_on_aux :: "char \<Rightarrow> string \<Rightarrow> string \<Rightarrow> string list" where
  "split_on_aux sep acc [] = [rev acc]"
| "split_on_aux sep acc (c # cs) =
     (if c = sep then rev acc # split_on_aux sep [] cs else split_on_aux sep (c # acc) cs)"

definition split_on :: "char \<Rightarrow> string \<Rightarrow> string list" where
  "split_on sep s = split_on_aux sep [] s"

definition strip_chars :: "char set \<Rightarrow> string \<Rightarrow> string" where
  "strip_chars cs s = rev (dropWhile (\<lambda>c. c \<in> cs) (rev (dropWhile (\<lambda>c. c \<in> cs) s)))"

definition parse_address :: "(string \<Rightarrow> 'ip option) \<Rightarrow> string \<Rightarrow> 'ip option" where
  "parse_address ip_address raw =
     (let v = strip_chars {CHR ''['', CHR '']''} (strip raw)
      in if v = [] then None else ip_address v)"

text \<open>A trusted network is given by its version and its membership test.\<close>

type_synonym 'ip network = "nat \<times> ('ip \<Rightarrow> bool)"

definition trusts :: "('ip \<Rightarrow> nat) \<Rightarrow> 'ip network list \<Rightarrow> 'ip \<Rightarrow> bool" where
  "trusts version networks a = list_ex (\<lambda>(v, member). version a = v \<and> member a) networks"

definition from_strings :: "(string \<Rightarrow> 'ip network option) \<Rightarrow> string list \<Rightarrow> 'ip network list result" where
  "from_strings ip_network values =
     fold (\<lambda>raw acc. rbind acc (\<lambda>nets.
       let v = strip raw in
       if v = [] then Inr nets
       else case ip_network v of
              None \<Rightarrow> Inl (RuntimeError (''ZAPTRACE_API_TRUSTED_PROXIES contains invalid network '' @ repr_str v))
            | Some n \<Rightarrow> Inr (nets @ [n]))) values (Inr [])"

fun parse_chain :: "(string \<Rightarrow> 'ip option) \<Rightarrow> string list \<Rightarrow> 'ip list option" where
  "parse_chain parse [] = Some []"
| "parse_chain parse (i # is) =
     (case parse i of
        None \<Rightarrow> None
      | Some a \<Rightarrow> map_option (Cons a) (parse_chain parse is))"

definition resolve_client_ip ::
  "(string \<Rightarrow> 'ip option) \<Rightarrow> ('ip \<Rightarrow> string) \<Rightarrow> ('ip \<Rightarrow> bool) \<Rightarrow> string \<Rightarrow> string \<Rightarrow> string" where
  "resolve_client_ip ip_address ip_str trusted peer_host forwarded_for =
     (case parse_address ip_address peer_host of
        None \<Rightarrow> ''unknown''
      | Some peer \<Rightarrow>
          if forwarded_for = [] \<or> \<not> trusted peer then ip_str peer
          else case parse_chain (parse_address ip_address) (split_on (CHR '','') forwarded_for) of
                 None \<Rightarrow> ip_str peer
               | Some chain \<Rightarrow>
                   if chain = [] then ip_str peer
                   else (case find (\<lambda>a. \<not> trusted a) (rev chain) of
                           Some a \<Rightarrow> ip_str a
                         | None \<Rightarrow> ip_str (hd chain)))"

section \<open>The limiter\<close>

record rate_limit_decision =
  rld_allowed :: bool
  rld_limit :: nat
  rld_remaining :: nat
  rld_window_seconds :: nat
  rld_reason :: string

record limiter =
  rl_limit :: nat
  rl_window_seconds :: nat
  rl_max_keys :: nat
  rl_cleanup_interval_seconds :: nat
  rl_hits :: "(string, pyfloat list) dict"
  rl_last_cleanup :: pyfloat

definition new_limiter :: "nat \<Rightarrow> nat \<Rightarrow> nat \<Rightarrow> nat \<Rightarrow> limiter result" where
  "new_limiter limit window max_keys interval =
     (if min (min limit window) (min max_keys interval) \<le> 0
      then Inl (ValueError ''rate-limit values must be positive'')
      else Inr \<lparr> rl_limit = limit, rl_window_seconds = window, rl_max_keys = max_keys,
                 rl_cleanup_interval_seconds = interval, rl_hits = [], rl_last_cleanup = 0 \<rparr>)"

definition key_count :: "limiter \<Rightarrow> nat" where
  "key_count st = length (rl_hits st)"

definition limiter_keys :: "limiter \<Rightarrow> string list" where
  "limiter_keys st = sorted_set (dict_keys (rl_hits st))"

definition hits_of :: "string \<Rightarrow> limiter \<Rightarrow> pyfloat list" where
  "hits_of key st = (case dict_get (rl_hits st) key of None \<Rightarrow> [] | Some hs \<Rightarrow> hs)"

definition prune_key :: "string \<Rightarrow> pyfloat \<Rightarrow> limiter \<Rightarrow> pyfloat list \<times> limiter" where
  "prune_key key window_start st =
     (let hits = dropWhile (\<lambda>h. h \<le> window_start) (hits_of key st)
      in (hits, st\<lparr> rl_hits := (if hits \<noteq> [] then dict_set key hits (rl_hits st)
                                else dict_pop key (rl_hits st)) \<rparr>))"

definition window_start :: "pyfloat \<Rightarrow> limiter \<Rightarrow> pyfloat" where
  "window_start now st = now - of_nat (rl_window_seconds st)"

definition cleanup :: "pyfloat \<Rightarrow> bool \<Rightarrow> limiter \<Rightarrow> limiter" where
  "cleanup now force st =
     (if \<not> force \<and> now - rl_last_cleanup st < of_nat (rl_cleanup_interval_seconds st) then st
      else (fold (\<lambda>key s. snd (prune_key key (window_start now st) s)) (dict_keys (rl_hits st)) st)
             \<lparr> rl_last_cleanup := now \<rparr>)"

definition decision :: "limiter \<Rightarrow> bool \<Rightarrow> nat \<Rightarrow> string \<Rightarrow> rate_limit_decision" where
  "decision st allowed remaining reason =
     \<lparr> rld_allowed = allowed, rld_limit = rl_limit st, rld_remaining = remaining,
       rld_window_seconds = rl_window_seconds st, rld_reason = reason \<rparr>"

text \<open>The end of \<open>check\<close>: the request limit, then recording the hit.\<close>

definition admit :: "string \<Rightarrow> pyfloat \<Rightarrow> pyfloat list \<Rightarrow> limiter \<Rightarrow> rate_limit_decision \<times> limiter" where
  "admit key now hits st =
     (if length hits \<ge> rl_limit st then (decision st False 0 ''request-limit'', st)
      else (decision st True (rl_limit st - length (hits @ [now])) ''allowed'',
            st\<lparr> rl_hits := dict_set key (hits @ [now]) (rl_hits st) \<rparr>))"

definition check :: "string \<Rightarrow> pyfloat \<Rightarrow> limiter \<Rightarrow> rate_limit_decision \<times> limiter" where
  "check key now st =
     (let st1 = cleanup now False st;
          (hits, st2) = prune_key key (window_start now st) st1
      in if dict_get (rl_hits st2) key = None \<and> key_count st2 \<ge> rl_max_keys st then
           (let st3 = cleanup now True st2
            in if key_count st3 \<ge> rl_max_keys st then (decision st False 0 ''key-capacity'', st3)
               else admit key now [] st3)
         else admit key now hits st2)"

definition info :: "string \<Rightarrow> pyfloat \<Rightarrow> limiter \<Rightarrow> rate_limit_decision \<times> limiter" where
  "info key now st =
     (let (hits, st') = prune_key key (window_start now st) st
      in (decision st (length hits < rl_limit st) (rl_limit st - length hits)
            (if length hits \<ge> rl_limit st then ''request-limit'' else ''allowed''), st'))"

definition reset :: "limiter \<Rightarrow> limiter" where
  "reset st = st\<lparr> rl_hits := [], rl_last_cleanup := 0 \<rparr>"

section \<open>Configuration\<close>

definition digit_value :: "char \<Rightarrow> nat" where
  "digit_value c = of_char c - 48"

definition int_of_decimal :: "string \<Rightarrow> nat" where
  "int_of_decimal s = foldl (\<lambda>n c. 10 * n + digit_value c) 0 s"

definition positive_int :: "(string, string) dict \<Rightarrow> string \<Rightarrow> nat \<Rightarrow> nat result" where
  "positive_int env name dflt =
     (case dict_get env name of
        None \<Rightarrow> Inr dflt
      | Some raw \<Rightarrow>
          (let v = strip raw in
           if v = [] \<or> \<not> list_all is_digit v \<or> int_of_decimal v \<le> 0
           then Inl (RuntimeError (name @ '' must be a positive integer''))
           else Inr (int_of_decimal v)))"

record 'ip abuse_control_configuration =
  acc_max_body_bytes :: nat
  acc_trusted_proxies :: "'ip network list"
  acc_rate_limit_requests :: nat
  acc_rate_limit_window_seconds :: nat
  acc_rate_limit_max_keys :: nat
  acc_rate_limit_cleanup_interval_seconds :: nat
  acc_rate_limit_backend :: string
  acc_workers :: nat

definition from_environment ::
  "(string \<Rightarrow> 'ip network option) \<Rightarrow> (string, string) dict \<Rightarrow> 'ip abuse_control_configuration result" where
  "from_environment ip_network env =
     (let trusted_raw = (case dict_get env ''ZAPTRACE_API_TRUSTED_PROXIES'' of None \<Rightarrow> [] | Some v \<Rightarrow> v);
          backend = lower (strip (case dict_get env ''ZAPTRACE_API_RATE_LIMIT_BACKEND'' of
                                    None \<Rightarrow> ''memory'' | Some v \<Rightarrow> v))
      in if backend \<noteq> ''memory''
         then Inl (RuntimeError (''ZAPTRACE_API_RATE_LIMIT_BACKEND must be '' @ sq @ ''memory'' @ sq
                @ '' in this distribution; inject a RateLimitBackend for a controlled shared deployment''))
         else
           rbind (positive_int env ''ZAPTRACE_API_MAX_BODY_BYTES'' (10 * 1024 * 1024)) (\<lambda>body.
           rbind (from_strings ip_network (split_on (CHR '','') trusted_raw)) (\<lambda>proxies.
           rbind (positive_int env ''ZAPTRACE_API_RATE_LIMIT_REQUESTS'' 120) (\<lambda>requests.
           rbind (positive_int env ''ZAPTRACE_API_RATE_LIMIT_WINDOW_SECONDS'' 60) (\<lambda>window.
           rbind (positive_int env ''ZAPTRACE_API_RATE_LIMIT_MAX_KEYS'' 10000) (\<lambda>keys.
           rbind (positive_int env ''ZAPTRACE_API_RATE_LIMIT_CLEANUP_INTERVAL_SECONDS'' 300) (\<lambda>interval.
           rbind (positive_int env ''ZAPTRACE_API_WORKERS'' 1) (\<lambda>workers.
             Inr \<lparr> acc_max_body_bytes = body, acc_trusted_proxies = proxies, acc_rate_limit_requests = requests,
                   acc_rate_limit_window_seconds = window, acc_rate_limit_max_keys = keys,
                   acc_rate_limit_cleanup_interval_seconds = interval, acc_rate_limit_backend = backend,
                   acc_workers = workers \<rparr>))))))))"

definition validate_deployment :: "'ip abuse_control_configuration \<Rightarrow> unit result" where
  "validate_deployment c =
     (if acc_workers c > 1 \<and> acc_rate_limit_backend c = ''memory''
      then Inl (RuntimeError (''ZapTrace REST API multi-worker deployment requires a shared rate-limit backend; ''
                              @ ''the built-in memory backend is single-process only''))
      else Inr ())"

definition build_backend :: "'ip abuse_control_configuration \<Rightarrow> limiter result" where
  "build_backend c =
     rbind (validate_deployment c) (\<lambda>_.
       new_limiter (acc_rate_limit_requests c) (acc_rate_limit_window_seconds c)
         (acc_rate_limit_max_keys c) (acc_rate_limit_cleanup_interval_seconds c))"

section \<open>Pruning\<close>

abbreviation pruned :: "pyfloat \<Rightarrow> pyfloat list \<Rightarrow> pyfloat list" where
  "pruned ws hs \<equiv> dropWhile (\<lambda>h. h \<le> ws) hs"

declare dropWhile_eq_Nil_conv [simp del]

lemma pruned_idem [simp]: "pruned ws (pruned ws hs) = pruned ws hs"
  by (induction hs) auto

lemma config_simps [simp]:
  "rl_limit (snd (prune_key k ws st)) = rl_limit st"
  "rl_window_seconds (snd (prune_key k ws st)) = rl_window_seconds st"
  "rl_max_keys (snd (prune_key k ws st)) = rl_max_keys st"
  by (simp_all add: prune_key_def Let_def)

lemma fst_prune_key [simp]: "fst (prune_key k ws st) = pruned ws (hits_of k st)"
  by (simp add: prune_key_def Let_def)

lemma hits_of_prune_key:
  "hits_of k' (snd (prune_key k ws st)) = (if k' = k then pruned ws (hits_of k st) else hits_of k' st)"
  by (auto simp: prune_key_def Let_def hits_of_def pydict.get_put pydict.get_pop
        simp del: dropWhile_eq_Nil_conv split: option.splits)

definition prune_all :: "pyfloat \<Rightarrow> string list \<Rightarrow> limiter \<Rightarrow> limiter" where
  "prune_all ws ks st = fold (\<lambda>key s. snd (prune_key key ws s)) ks st"

lemma prune_all_config [simp]:
  "rl_limit (prune_all ws ks st) = rl_limit st"
  "rl_window_seconds (prune_all ws ks st) = rl_window_seconds st"
  "rl_max_keys (prune_all ws ks st) = rl_max_keys st"
  by (induction ks arbitrary: st) (simp_all add: prune_all_def)

lemma hits_of_prune_all:
  "hits_of k (prune_all ws ks st) = (if k \<in> set ks then pruned ws (hits_of k st) else hits_of k st)"
  by (induction ks arbitrary: st) (auto simp: prune_all_def hits_of_prune_key)

lemma hits_of_absent: "k \<notin> set (dict_keys (rl_hits st)) \<Longrightarrow> hits_of k st = []"
  by (simp add: hits_of_def pydict.set_keys)

lemma cleanup_eq:
  "cleanup now force st =
     (if \<not> force \<and> now - rl_last_cleanup st < of_nat (rl_cleanup_interval_seconds st) then st
      else (prune_all (window_start now st) (dict_keys (rl_hits st)) st)\<lparr> rl_last_cleanup := now \<rparr>)"
  by (simp add: cleanup_def prune_all_def)

lemma cleanup_config [simp]:
  "rl_limit (cleanup now f st) = rl_limit st"
  "rl_window_seconds (cleanup now f st) = rl_window_seconds st"
  "rl_max_keys (cleanup now f st) = rl_max_keys st"
  by (simp_all add: cleanup_eq)

lemma hits_of_last_cleanup [simp]: "hits_of k (st\<lparr> rl_last_cleanup := t \<rparr>) = hits_of k st"
  by (simp add: hits_of_def)

lemma hits_of_cleanup:
  "hits_of k (cleanup now f st) = hits_of k st
   \<or> hits_of k (cleanup now f st) = pruned (window_start now st) (hits_of k st)"
  by (auto simp: cleanup_eq hits_of_prune_all)

lemma hits_of_forced_cleanup:
  "hits_of k (cleanup now True st) = pruned (window_start now st) (hits_of k st)"
  using hits_of_absent [of k st] by (auto simp: cleanup_eq hits_of_prune_all)

section \<open>The invariant\<close>

definition rl_inv :: "limiter \<Rightarrow> bool" where
  "rl_inv st =
     (dict_wf (rl_hits st) \<and> key_count st \<le> rl_max_keys st
      \<and> (\<forall>k hs. dict_get (rl_hits st) k = Some hs \<longrightarrow> hs \<noteq> [] \<and> length hs \<le> rl_limit st))"

lemma key_count_eq: "key_count st = length (dict_keys (rl_hits st))"
  by (simp add: key_count_def dict_keys_def)

lemma prune_key_inv:
  assumes "rl_inv st"
  shows "rl_inv (snd (prune_key k ws st))" "key_count (snd (prune_key k ws st)) \<le> key_count st"
proof -
  let ?hs = "pruned ws (hits_of k st)"
  have wf: "dict_wf (rl_hits st)" using assms by (simp add: rl_inv_def)
  have mem: "k \<in> set (dict_keys (rl_hits st))" if "?hs \<noteq> []"
    using that hits_of_absent by fastforce
  have len: "length ?hs \<le> rl_limit st"
    using assms length_dropWhile_le [of "\<lambda>h. h \<le> ws" "hits_of k st"]
    by (cases "dict_get (rl_hits st) k") (force simp: rl_inv_def hits_of_def)+
  show count: "key_count (snd (prune_key k ws st)) \<le> key_count st"
    using mem pydict.length_keys_put [OF wf] pydict.length_keys_pop_le [OF wf]
    by (simp add: key_count_eq prune_key_def Let_def)
  show "rl_inv (snd (prune_key k ws st))"
    using assms count len wf
    by (auto simp: rl_inv_def prune_key_def Let_def pydict.get_put pydict.get_pop pydict.wf_put pydict.wf_pop
          split: if_splits)
qed

lemma prune_all_inv:
  "rl_inv st \<Longrightarrow> rl_inv (prune_all ws ks st) \<and> key_count (prune_all ws ks st) \<le> key_count st"
proof (induction ks arbitrary: st)
  case Nil
  then show ?case by (simp add: prune_all_def)
next
  case (Cons k ks)
  have "prune_all ws (k # ks) st = prune_all ws ks (snd (prune_key k ws st))"
    by (simp add: prune_all_def)
  then show ?case
    using Cons.IH [OF prune_key_inv(1) [OF Cons.prems]] prune_key_inv(2) [OF Cons.prems] by (metis le_trans)
qed

lemma rl_inv_last_cleanup [simp]:
  "rl_inv (st\<lparr> rl_last_cleanup := t \<rparr>) = rl_inv st" "key_count (st\<lparr> rl_last_cleanup := t \<rparr>) = key_count st"
  by (simp_all add: rl_inv_def key_count_def)

lemma cleanup_inv: "rl_inv st \<Longrightarrow> rl_inv (cleanup now f st)"
  using prune_all_inv by (simp add: cleanup_eq)

lemma admit_inv:
  assumes "rl_inv st" "dict_get (rl_hits st) k \<noteq> None \<or> key_count st < rl_max_keys st"
  shows "rl_inv (snd (admit k now hs st))"
proof (cases "length hs \<ge> rl_limit st")
  case True
  then show ?thesis using assms by (simp add: admit_def)
next
  case False
  have "length (dict_keys (dict_set k (hs @ [now]) (rl_hits st))) \<le> rl_max_keys st"
    using assms pydict.length_keys_put [of "rl_hits st" k "hs @ [now]"]
    by (auto simp: rl_inv_def key_count_eq pydict.set_keys)
  then show ?thesis
    using assms False by (auto simp: admit_def rl_inv_def key_count_eq pydict.get_put pydict.wf_put)
qed

text \<open>The three ways through \<open>check\<close>.\<close>

lemma check_cases:
  defines "st2 k now st \<equiv> snd (prune_key k (window_start now st) (cleanup now False st))"
  obtains (capacity) "check k now st = (decision st False 0 ''key-capacity'', cleanup now True (st2 k now st))"
  | (admit_new) "check k now st = admit k now [] (cleanup now True (st2 k now st))"
      "key_count (cleanup now True (st2 k now st)) < rl_max_keys st"
      "dict_get (rl_hits (st2 k now st)) k = None"
  | (admit_old) "check k now st = admit k now (pruned (window_start now st) (hits_of k (cleanup now False st))) (st2 k now st)"
      "dict_get (rl_hits (st2 k now st)) k \<noteq> None \<or> key_count (st2 k now st) < rl_max_keys st"
proof -
  have "check k now st =
    (if dict_get (rl_hits (st2 k now st)) k = None \<and> key_count (st2 k now st) \<ge> rl_max_keys st then
       (if key_count (cleanup now True (st2 k now st)) \<ge> rl_max_keys st
        then (decision st False 0 ''key-capacity'', cleanup now True (st2 k now st))
        else admit k now [] (cleanup now True (st2 k now st)))
     else admit k now (pruned (window_start now st) (hits_of k (cleanup now False st))) (st2 k now st))"
    by (simp add: check_def Let_def st2_def case_prod_beta)
  then show thesis
    using that by (metis not_le)
qed

lemma check_inv:
  assumes "rl_inv st"
  shows "rl_inv (snd (check k now st))"
  using assms
  by (cases rule: check_cases [of k now st])
     (auto intro!: admit_inv cleanup_inv prune_key_inv simp: cleanup_inv prune_key_inv)

lemma info_inv: "rl_inv st \<Longrightarrow> rl_inv (snd (info k now st))"
  using prune_key_inv by (simp add: info_def Let_def case_prod_beta)

lemma reset_inv: "rl_inv (reset st)"
  by (simp add: rl_inv_def reset_def key_count_def)

section \<open>The backend contract\<close>

text \<open>\<open>RateLimitBackend\<close>: what a client of any backend may rely on.\<close>

datatype backend_op = Check string pyfloat | Info string pyfloat | Reset

locale rate_limit_backend =
  fixes chk :: "string \<Rightarrow> pyfloat \<Rightarrow> 's \<Rightarrow> rate_limit_decision \<times> 's"
    and inf :: "string \<Rightarrow> pyfloat \<Rightarrow> 's \<Rightarrow> rate_limit_decision \<times> 's"
    and rst :: "'s \<Rightarrow> 's"
    and inv :: "'s \<Rightarrow> bool"
  assumes inv_chk: "inv st \<Longrightarrow> inv (snd (chk k t st))"
    and inv_inf: "inv st \<Longrightarrow> inv (snd (inf k t st))"
    and inv_rst: "inv st \<Longrightarrow> inv (rst st)"
    and denied: "\<not> rld_allowed (fst (chk k t st)) \<Longrightarrow> rld_remaining (fst (chk k t st)) = 0"
    and remaining: "rld_remaining (fst (chk k t st)) \<le> rld_limit (fst (chk k t st))"
begin

lemma inv_ops:
  "inv st \<Longrightarrow> inv (fold (\<lambda>op s. case op of Check k t \<Rightarrow> snd (chk k t s) | Info k t \<Rightarrow> snd (inf k t s) | Reset \<Rightarrow> rst s) ops st)"
  by (induction ops arbitrary: st) (auto simp: inv_chk inv_inf inv_rst split: backend_op.split)

end

definition apply_op :: "backend_op \<Rightarrow> limiter \<Rightarrow> limiter" where
  "apply_op op st = (case op of Check k t \<Rightarrow> snd (check k t st) | Info k t \<Rightarrow> snd (info k t st) | Reset \<Rightarrow> reset st)"

lemma decision_sel [simp]:
  "rld_allowed (decision st a r why) = a" "rld_remaining (decision st a r why) = r"
  "rld_limit (decision st a r why) = rl_limit st" "rld_reason (decision st a r why) = why"
  by (simp_all add: decision_def)

interpretation memory: rate_limit_backend check info reset rl_inv
proof
  show "rl_inv (snd (check k t st))" if "rl_inv st" for k t st using that by (rule check_inv)
  show "rl_inv (snd (info k t st))" if "rl_inv st" for k t st using that by (rule info_inv)
  show "rl_inv (reset st)" for st by (rule reset_inv)
  show "rld_remaining (fst (check k t st)) = 0" if "\<not> rld_allowed (fst (check k t st))" for k t st
    using that by (cases rule: check_cases [of k t st]) (auto simp: admit_def split: if_splits)
  show "rld_remaining (fst (check k t st)) \<le> rld_limit (fst (check k t st))" for k t st
    by (cases rule: check_cases [of k t st]) (auto simp: admit_def)
qed

section \<open>The sliding log\<close>

text \<open>
  The specification is the log of the requests allowed so far, per key; the limiter
  keeps a suffix of it and has dropped only what no later window can contain.
\<close>

definition tracks :: "limiter \<Rightarrow> (string \<Rightarrow> pyfloat list) \<Rightarrow> pyfloat \<Rightarrow> bool" where
  "tracks st hist now =
     (\<forall>k. sorted (hist k) \<and> (\<forall>x\<in>set (hist k). x \<le> now)
          \<and> (\<exists>dropped. hist k = dropped @ hits_of k st \<and> (\<forall>x\<in>set dropped. x \<le> window_start now st)))"

definition in_window :: "pyfloat \<Rightarrow> nat \<Rightarrow> pyfloat list \<Rightarrow> nat" where
  "in_window T w xs = length (filter (\<lambda>x. T - of_nat w < x \<and> x \<le> T) xs)"

lemma dropWhile_sorted: "sorted xs \<Longrightarrow> pruned ws xs = filter (\<lambda>x. ws < x) xs"
  by (induction xs) (auto simp: filter_id_conv intro!: filter_True [symmetric])

lemma tracks_hits:
  assumes "tracks st hist now"
  shows "pruned (window_start now st) (hits_of k st) = filter (\<lambda>x. window_start now st < x) (hist k)"
proof -
  obtain dropped where d: "hist k = dropped @ hits_of k st" "\<forall>x\<in>set dropped. x \<le> window_start now st"
    "sorted (hist k)" using assms unfolding tracks_def by blast
  then have "filter (\<lambda>x. window_start now st < x) dropped = []" by (auto simp: filter_empty_conv not_less)
  then show ?thesis using d dropWhile_sorted [of "hits_of k st"] by (simp add: sorted_append)
qed

lemma tracks_later:
  assumes "tracks st hist now" "now \<le> now'"
  shows "tracks st hist now'"
proof -
  have "window_start now st \<le> window_start now' st" using assms(2) by (simp add: window_start_def)
  then show ?thesis using assms unfolding tracks_def by (meson order_trans)
qed

lemma tracks_pruned:
  assumes "tracks st hist now" "window_start now st' = window_start now st"
    and "\<And>k. hits_of k st' = hits_of k st \<or> hits_of k st' = pruned (window_start now st) (hits_of k st)"
  shows "tracks st' hist now"
  unfolding tracks_def assms(2)
proof (intro allI conjI)
  fix k
  obtain dropped where d: "hist k = dropped @ hits_of k st" "\<forall>x\<in>set dropped. x \<le> window_start now st"
    using assms(1) unfolding tracks_def by blast
  let ?t = "takeWhile (\<lambda>h. h \<le> window_start now st) (hits_of k st)"
  have "hits_of k st = ?t @ pruned (window_start now st) (hits_of k st)" by simp
  moreover have "\<forall>x\<in>set ?t. x \<le> window_start now st" by (auto dest: set_takeWhileD)
  ultimately have "hist k = (dropped @ ?t) @ pruned (window_start now st) (hits_of k st)"
      "\<forall>x\<in>set (dropped @ ?t). x \<le> window_start now st" using d by auto
  then show "\<exists>dropped. hist k = dropped @ hits_of k st' \<and> (\<forall>x\<in>set dropped. x \<le> window_start now st)"
    using d assms(3) [of k] by metis
  show "sorted (hist k)" using assms(1) by (simp add: tracks_def)
  show "\<forall>x\<in>set (hist k). x \<le> now" using assms(1) by (simp add: tracks_def)
qed

lemma admit_tracks:
  assumes "tracks st hist now" "hs = pruned (window_start now st) (hits_of k st)"
    and "admit k now hs st = (d, st')"
  shows "tracks st' (if rld_allowed d then hist(k := hist k @ [now]) else hist) now"
    and "rld_allowed d \<longleftrightarrow> length (filter (\<lambda>x. window_start now st < x) (hist k)) < rl_limit st"
proof -
  let ?st = "snd (prune_key k (window_start now st) st)"
  show "rld_allowed d \<longleftrightarrow> length (filter (\<lambda>x. window_start now st < x) (hist k)) < rl_limit st"
    using assms tracks_hits [OF assms(1)] by (auto simp: admit_def split: if_splits)
  have t: "tracks ?st hist now"
    by (rule tracks_pruned [OF assms(1)]) (auto simp: window_start_def hits_of_prune_key)
  show "tracks st' (if rld_allowed d then hist(k := hist k @ [now]) else hist) now"
  proof (cases "rld_allowed d")
    case True
    then have st': "hits_of k' st' = (if k' = k then hs @ [now] else hits_of k' ?st)"
      "window_start now st' = window_start now ?st" for k'
      using assms by (auto simp: admit_def hits_of_def pydict.get_put window_start_def hits_of_prune_key [unfolded hits_of_def]
          split: if_splits)
    have "hits_of k ?st = hs" by (simp add: hits_of_prune_key assms(2))
    then show ?thesis
      using t True by (auto simp: tracks_def st' sorted_append)
  next
    case False
    then show ?thesis using assms by (auto simp: admit_def split: if_splits)
  qed
qed

lemma check_tracks:
  assumes "tracks st hist now0" "now0 \<le> now" "check k now st = (d, st')"
  shows "tracks st' (if rld_allowed d then hist(k := hist k @ [now]) else hist) now"
    and "rld_reason d = ''key-capacity'' \<and> \<not> rld_allowed d
         \<or> (rld_allowed d \<longleftrightarrow> length (filter (\<lambda>x. window_start now st < x) (hist k)) < rl_limit st)"
    and "rl_limit st' = rl_limit st \<and> rl_window_seconds st' = rl_window_seconds st"
proof -
  let ?ws = "window_start now st"
  let ?st1 = "cleanup now False st"
  let ?st2 = "snd (prune_key k ?ws ?st1)"
  let ?st3 = "cleanup now True ?st2"
  have ws: "window_start now ?st1 = ?ws" "window_start now ?st2 = ?ws" "window_start now ?st3 = ?ws"
    by (simp_all add: window_start_def)
  have t1: "tracks ?st1 hist now"
    by (rule tracks_pruned [OF tracks_later [OF assms(1,2)]]) (simp_all add: ws hits_of_cleanup)
  have t2: "tracks ?st2 hist now"
    by (rule tracks_pruned [OF t1]) (auto simp: ws hits_of_prune_key)
  have t3: "tracks ?st3 hist now"
    by (rule tracks_pruned [OF t2]) (simp_all add: ws hits_of_forced_cleanup)
  have goals: "tracks st' (if rld_allowed d then hist(k := hist k @ [now]) else hist) now
     \<and> (rld_reason d = ''key-capacity'' \<and> \<not> rld_allowed d
         \<or> (rld_allowed d \<longleftrightarrow> length (filter (\<lambda>x. ?ws < x) (hist k)) < rl_limit st))
     \<and> rl_limit st' = rl_limit st \<and> rl_window_seconds st' = rl_window_seconds st"
  proof (cases rule: check_cases [of k now st])
    case capacity
    then show ?thesis using assms(3) t3 by auto
  next
    case admit_new
    then have e: "[] = pruned (window_start now ?st3) (hits_of k ?st3)"
      using hits_of_forced_cleanup [of k now ?st2] by (simp add: hits_of_def)
    show ?thesis
      using admit_tracks [OF t3 e, of d st'] admit_new(1) assms(3)
      by (auto simp: ws admit_def split: if_splits)
  next
    case admit_old
    have e: "pruned ?ws (hits_of k ?st1) = pruned (window_start now ?st2) (hits_of k ?st2)"
      by (simp add: ws hits_of_prune_key)
    show ?thesis
      using admit_tracks [OF t2 e, of d st'] admit_old(1) assms(3)
      by (auto simp: ws admit_def split: if_splits)
  qed
  then show "tracks st' (if rld_allowed d then hist(k := hist k @ [now]) else hist) now"
    and "rld_reason d = ''key-capacity'' \<and> \<not> rld_allowed d
         \<or> (rld_allowed d \<longleftrightarrow> length (filter (\<lambda>x. ?ws < x) (hist k)) < rl_limit st)"
    and "rl_limit st' = rl_limit st \<and> rl_window_seconds st' = rl_window_seconds st"
    by blast+
qed

text \<open>Serving a sequence of requests, and the log it leaves.\<close>

fun serve :: "limiter \<Rightarrow> (string \<times> pyfloat) list \<Rightarrow> limiter \<times> (string \<times> pyfloat \<times> rate_limit_decision) list" where
  "serve st [] = (st, [])"
| "serve st ((k, t) # rs) =
     (case check k t st of (d, st') \<Rightarrow> (case serve st' rs of (st'', tr) \<Rightarrow> (st'', (k, t, d) # tr)))"

definition allowed_times :: "string \<Rightarrow> (string \<times> pyfloat \<times> rate_limit_decision) list \<Rightarrow> pyfloat list" where
  "allowed_times k tr = map (\<lambda>(k', t, d). t) (filter (\<lambda>(k', t, d). k' = k \<and> rld_allowed d) tr)"

lemma allowed_times_simps [simp]:
  "allowed_times k [] = []"
  "allowed_times k ((k', t, d) # tr) = (if k' = k \<and> rld_allowed d then t # allowed_times k tr else allowed_times k tr)"
  by (simp_all add: allowed_times_def)

lemma in_window_snoc:
  assumes "\<forall>T. in_window T w xs \<le> l" "\<forall>x\<in>set xs. x \<le> t"
    and "length (filter (\<lambda>x. t - of_nat w < x) xs) < l"
  shows "in_window T w (xs @ [t]) \<le> l"
proof (cases "t \<le> T")
  case True
  have "in_window T w xs \<le> length (filter (\<lambda>x. t - of_nat w < x) xs)"
    unfolding in_window_def
  proof (induction xs)
    case (Cons x xs)
    have "t - of_nat w < x" if "T - of_nat w < x" using that True by linarith
    then show ?case using Cons by auto
  qed simp
  then show ?thesis using assms(3) True by (simp add: in_window_def)
next
  case False
  then show ?thesis using assms(1) by (simp add: in_window_def)
qed

lemma serve_tracks:
  assumes "tracks st hist now" "\<forall>k T. in_window T (rl_window_seconds st) (hist k) \<le> rl_limit st"
    and "sorted (now # map snd reqs)" "serve st reqs = (st', tr)"
  shows "tracks st' (\<lambda>k. hist k @ allowed_times k tr) (last (now # map snd reqs))
    \<and> (\<forall>k T. in_window T (rl_window_seconds st) (hist k @ allowed_times k tr) \<le> rl_limit st)
    \<and> rl_limit st' = rl_limit st \<and> rl_window_seconds st' = rl_window_seconds st"
  using assms
proof (induction reqs arbitrary: st hist now tr)
  case Nil
  then show ?case by simp
next
  case (Cons r reqs)
  obtain k t where r: "r = (k, t)" by (cases r)
  obtain d st1 where c: "check k t st = (d, st1)" by fastforce
  obtain tr1 where tr: "serve st1 reqs = (st', tr1)" "tr = (k, t, d) # tr1"
    using Cons.prems(4) by (auto simp: r c split: prod.splits)
  define hist1 where "hist1 = (if rld_allowed d then hist(k := hist k @ [t]) else hist)"
  have "now \<le> t" using Cons.prems(3) by (simp add: r)
  note step = check_tracks [OF Cons.prems(1) this c]
  have old: "\<forall>x\<in>set (hist k). x \<le> t" using Cons.prems(1) \<open>now \<le> t\<close> unfolding tracks_def by (meson order_trans)
  have "in_window T (rl_window_seconds st1) (hist1 k') \<le> rl_limit st1" for k' T
    using Cons.prems(2) in_window_snoc [of "rl_window_seconds st" "hist k" "rl_limit st" t T] step(2,3) old
    by (auto simp: hist1_def window_start_def)
  with Cons.IH [of st1 hist1 t tr1] step tr(1) Cons.prems(3)
  have "tracks st' (\<lambda>k. hist1 k @ allowed_times k tr1) (last (t # map snd reqs))
    \<and> (\<forall>k T. in_window T (rl_window_seconds st) (hist1 k @ allowed_times k tr1) \<le> rl_limit st)
    \<and> rl_limit st' = rl_limit st \<and> rl_window_seconds st' = rl_window_seconds st"
    by (simp add: r hist1_def)
  moreover have "hist1 k @ allowed_times k tr1 = hist k @ allowed_times k tr" for k
    by (auto simp: hist1_def tr(2))
  ultimately show ?case by (simp add: r)
qed

lemma new_limiter_tracks:
  assumes "new_limiter l w m i = Inr st"
  shows "tracks st (\<lambda>_. []) now" "rl_inv st" "rl_limit st = l" "rl_window_seconds st = w" "rl_max_keys st = m"
  using assms by (auto simp: new_limiter_def tracks_def hits_of_def rl_inv_def key_count_def split: if_splits)

section \<open>Properties\<close>

definition demo_limiter :: limiter where
  "demo_limiter = \<lparr> rl_limit = 1, rl_window_seconds = 60, rl_max_keys = 2, rl_cleanup_interval_seconds = 300,
     rl_hits = [], rl_last_cleanup = 0 \<rparr>"

lemma demo_limiter_new: "new_limiter 1 60 2 300 = Inr demo_limiter"
  by (simp add: new_limiter_def demo_limiter_def)

lemma demo_serve:
  "map (\<lambda>(k, t, d). rld_allowed d) (snd (serve demo_limiter [(''a'', 0), (''a'', 59), (''a'', 60)])) = [True, False, True]"
  "rld_reason (fst (check ''a'' 59 (fst (serve demo_limiter [(''a'', 0)])))) = ''request-limit''"
  by code_simp+

text \<open>
  C33: For requests in time order, in every window of the configured length, wherever it
  starts, at most the configured number of requests is allowed per key.
\<close>

theorem sliding_window_limit:
  assumes "new_limiter limit window max_keys interval = Inr st" "sorted (map snd reqs)"
    and "serve st reqs = (st', tr)"
  shows "in_window T window (allowed_times k tr) \<le> limit"
proof -
  define now where "now = (case reqs of [] \<Rightarrow> 0 | r # _ \<Rightarrow> snd r)"
  have "sorted (now # map snd reqs)" using assms(2) by (cases reqs) (auto simp: now_def)
  then show ?thesis
    using serve_tracks [OF new_limiter_tracks(1) [OF assms(1)] _ _ assms(3), of now]
      new_limiter_tracks(3,4) [OF assms(1)]
    by (simp add: in_window_def)
qed

theorem sliding_window_limit_witness:
  "in_window 60 60 (allowed_times ''a'' (snd (serve demo_limiter [(''a'', 0), (''a'', 59), (''a'', 60)]))) \<le> 1"
  by (rule sliding_window_limit [OF demo_limiter_new _ prod.collapse [symmetric]]) simp

text \<open>
  The limiter is exact: after any requests in time order, the next one is allowed if
  and only if fewer than the limit were allowed to the same key in the window ending
  now, unless the table of keys is full.
\<close>

theorem sliding_window_exact:
  assumes "new_limiter limit window max_keys interval = Inr st" "sorted (map snd reqs @ [t])"
    and "serve st reqs = (st', tr)" "rld_reason (fst (check k t st')) \<noteq> ''key-capacity''"
  shows "rld_allowed (fst (check k t st')) \<longleftrightarrow> in_window t window (allowed_times k tr) < limit"
proof -
  define now where "now = (case reqs of [] \<Rightarrow> t | r # _ \<Rightarrow> snd r)"
  have le: "sorted (map snd reqs)" "\<forall>x\<in>set (map snd reqs). x \<le> t"
    using assms(2) by (simp_all add: sorted_append)
  have s: "sorted (now # map snd reqs)" "last (now # map snd reqs) \<le> t"
  proof -
    show "sorted (now # map snd reqs)" using le(1) by (cases reqs) (simp_all add: now_def)
    show "last (now # map snd reqs) \<le> t"
    proof (cases "reqs = []")
      case False
      then have "last (map snd reqs) \<in> set (map snd reqs)" by (intro last_in_set) simp
      then have "last (map snd reqs) \<le> t" using le(2) by blast
      then show ?thesis using False by simp
    qed (simp add: now_def)
  qed
  have p: "tracks st' (\<lambda>k. allowed_times k tr) (last (now # map snd reqs))"
    "rl_limit st' = limit" "rl_window_seconds st' = window"
    using serve_tracks [OF new_limiter_tracks(1) [OF assms(1)] _ s(1) assms(3)]
      new_limiter_tracks(3,4) [OF assms(1)] by (simp_all add: in_window_def)
  have "\<forall>x\<in>set (allowed_times k tr). x \<le> t"
    using tracks_later [OF p(1) s(2)] unfolding tracks_def by blast
  then have "filter (\<lambda>x. t - of_nat window < x \<and> x \<le> t) (allowed_times k tr)
      = filter (\<lambda>x. window_start t st' < x) (allowed_times k tr)"
    by (intro filter_cong) (simp_all add: window_start_def p(3))
  then have "in_window t window (allowed_times k tr) = length (filter (\<lambda>x. window_start t st' < x) (allowed_times k tr))"
    by (simp only: in_window_def)
  then show ?thesis
    using check_tracks(2) [OF p(1) s(2), of k "fst (check k t st')" "snd (check k t st')"] assms(4) p(2) by simp
qed

theorem sliding_window_exact_witness:
  "rld_allowed (fst (check ''a'' 59 (fst (serve demo_limiter [(''a'', 0)]))))
   = (in_window 59 60 (allowed_times ''a'' (snd (serve demo_limiter [(''a'', 0)]))) < 1)"
  by (rule sliding_window_exact [OF demo_limiter_new _ prod.collapse [symmetric]]) (simp_all add: demo_serve(2) del: serve.simps)

text \<open>
  Memory is bounded: after any sequence of checks, queries and resets, in any time
  order, the limiter holds at most the configured number of keys, no empty entry and
  at most the limit of timestamps per key.
\<close>

theorem limiter_bounded:
  assumes "new_limiter limit window max_keys interval = Inr st"
  shows "key_count (fold apply_op ops st) \<le> max_keys
    \<and> (\<forall>hs\<in>set (dict_values (rl_hits (fold apply_op ops st))). hs \<noteq> [] \<and> length hs \<le> limit)"
proof -
  have "rl_inv (fold apply_op ops st)"
    using memory.inv_ops [OF new_limiter_tracks(2) [OF assms], of ops] by (simp add: apply_op_def [abs_def])
  moreover have "rl_limit (fold apply_op ops s) = rl_limit s \<and> rl_max_keys (fold apply_op ops s) = rl_max_keys s" for s
  proof (induction ops arbitrary: s)
    case (Cons op ops)
    have "rl_limit (snd (check k t s)) = rl_limit s \<and> rl_max_keys (snd (check k t s)) = rl_max_keys s" for k t
      by (cases rule: check_cases [of k t s]) (auto simp: admit_def)
    then have "rl_limit (apply_op op s) = rl_limit s \<and> rl_max_keys (apply_op op s) = rl_max_keys s"
      by (cases op) (simp_all add: apply_op_def info_def reset_def Let_def case_prod_beta)
    then show ?case using Cons by simp
  qed simp
  ultimately show ?thesis
    using new_limiter_tracks(3,5) [OF assms]
    by (auto simp: rl_inv_def set_dict_values dest: dict_get_of_mem)
qed

theorem limiter_bounded_witness:
  "key_count (fold apply_op [Check ''a'' 0, Check ''b'' 1, Check ''c'' 2, Info ''a'' 90] demo_limiter) \<le> 2"
  using limiter_bounded [OF demo_limiter_new] by blast

text \<open>
  Forwarding headers cannot spoof the identity of a client: an untrusted peer is
  identified by its own address whatever it sends, and behind a trusted peer the
  identity is the nearest untrusted address of the chain, so addresses a client puts
  in front of it do not matter.
\<close>

theorem client_identity:
  assumes "parse_address ip_address peer_host = Some peer"
  shows "(trusted peer \<or> resolve_client_ip ip_address ip_str trusted peer_host fwd = ip_str peer)
    \<and> (parse_chain (parse_address ip_address) (split_on (CHR '','') fwd) = Some (pre @ a # post) \<longrightarrow>
       trusted peer \<longrightarrow> fwd \<noteq> [] \<longrightarrow> \<not> trusted a \<longrightarrow> list_all trusted post \<longrightarrow>
       resolve_client_ip ip_address ip_str trusted peer_host fwd = ip_str a)"
proof -
  have "find (\<lambda>a. \<not> trusted a) (rev (pre @ a # post)) = Some a" if "\<not> trusted a" "list_all trusted post"
  proof -
    have "find (\<lambda>a. \<not> trusted a) (rev post) = None" using that(2) by (simp add: find_None_props list_all_iff)
    then show ?thesis using that(1) by (simp add: find_append)
  qed
  then show ?thesis using assms by (auto simp: resolve_client_ip_def)
qed

definition demo_ip :: "string \<Rightarrow> string option" where
  "demo_ip s = (if list_all (\<lambda>c. is_digit c \<or> c = CHR ''.'') s then Some s else None)"

theorem client_identity_witness:
  "resolve_client_ip demo_ip (\<lambda>a. a) (\<lambda>a. a = ''10.0.0.1'') ''10.0.0.1'' ''6.6.6.6, 1.2.3.4, 10.0.0.1'' = ''1.2.3.4''"
proof -
  have "parse_address demo_ip ''10.0.0.1'' = Some ''10.0.0.1''"
    "parse_chain (parse_address demo_ip) (split_on (CHR '','') ''6.6.6.6, 1.2.3.4, 10.0.0.1'')
     = Some ([''6.6.6.6''] @ ''1.2.3.4'' # [''10.0.0.1''])"
    by code_simp+
  then show ?thesis
    using client_identity [of demo_ip "''10.0.0.1''" "''10.0.0.1''" "\<lambda>a. a = ''10.0.0.1''" "\<lambda>a. a"
        "''6.6.6.6, 1.2.3.4, 10.0.0.1''" "[''6.6.6.6'']" "''1.2.3.4''" "[''10.0.0.1'']"] by simp
qed

end
