(* ===== verification/State_Store.thy ===== *)
theory State_Store
  imports Design_Model
begin

text \<open>
  \<^verbatim>\<open>src/zaptrace/core/state_store.py\<close>, \<^verbatim>\<open>state_store_records.py\<close>, \<^verbatim>\<open>state_store_schema.py\<close>
  and \<^verbatim>\<open>session_store.py\<close>: the durable state of the agent sessions. The database is a
  record of its tables, one definition per repository method, one \<open>exec\<close> per SQL
  statement that writes. \<open>exec\<close> checks the foreign keys of the schema after the statement,
  as SQLite does with \<^verbatim>\<open>PRAGMA foreign_keys = ON\<close>, and an error leaves the database as it
  was, as \<^verbatim>\<open>transaction\<close> rolls back. A table with a primary key is a dictionary on it: an
  upsert keeps the row's place, so the order is that of \<^verbatim>\<open>rowid\<close>.

  SHA-256, JSON and pydantic are the fields of the record \<open>codec\<close>; times and UUIDs are
  arguments. Opening the file, migrations, backups and the import of the older
  file-per-design layout are file-system code and are not modelled.
\<close>

section \<open>The schema\<close>

record codec =
  c_sha256 :: "string \<Rightarrow> string"
  c_model_dump :: "design \<Rightarrow> pyval"
  c_model_validate_json :: "string \<Rightarrow> string + design"
  c_dumps :: "pyval \<Rightarrow> string"
  c_loads :: "string \<Rightarrow> pyval option"
  c_str :: "pyval \<Rightarrow> string"

record blob_row =
  blob_media_type :: string
  blob_payload :: string
  blob_size_bytes :: nat
  blob_created_at :: string

record design_identity =
  di_session_id :: string
  di_design_name :: string
  di_content_id :: string
  di_version_id :: string
  di_parent_version_id :: "string option"
  di_operation :: string
  di_created_at :: string

record record_row =
  row_design_name :: string
  row_content_id :: "string option"
  row_metadata_json :: string
  row_active :: bool
  row_protected :: bool
  row_created_at :: string
  row_updated_at :: string

record session_record =
  sr_session_id :: string
  sr_record_type :: string
  sr_record_id :: string
  sr_design_name :: string
  sr_content_id :: "string option"
  sr_metadata :: "(string \<times> pyval) list"
  sr_active :: bool
  sr_protected :: bool
  sr_created_at :: string
  sr_updated_at :: string

record audit_row =
  au_session_id :: string
  au_principal_id :: string
  au_surface :: string
  au_object_type :: string
  au_object_id :: string
  au_request_id :: string
  au_design_name :: string
  au_payload_json :: string
  au_created_at :: string

record access_row =
  acc_owner_principal :: string
  acc_delegates_json :: string
  acc_parent_object_type :: string
  acc_parent_object_id :: string
  acc_created_at :: string
  acc_updated_at :: string

record state_db =
  db_sessions :: "(string, string \<times> string) dict"
  db_blobs :: "(string, blob_row) dict"
  db_versions :: "design_identity list"
  db_heads :: "(string \<times> string, string \<times> string) dict"
  db_records :: "(string \<times> string \<times> string, record_row) dict"
  db_audit :: "(string, audit_row) dict"
  db_access :: "(string \<times> string, access_row) dict"

definition empty_db :: state_db where
  "empty_db = \<lparr> db_sessions = [], db_blobs = [], db_versions = [], db_heads = [], db_records = [],
     db_audit = [], db_access = [] \<rparr>"

text \<open>The foreign keys of the schema.\<close>

definition fk_ok :: "state_db \<Rightarrow> bool" where
  "fk_ok db =
     (let ss = set (dict_keys (db_sessions db)); bs = set (dict_keys (db_blobs db));
          vs = set (map di_version_id (db_versions db)) in
      list_all (\<lambda>v. di_session_id v \<in> ss \<and> di_content_id v \<in> bs
                   \<and> (case di_parent_version_id v of None \<Rightarrow> True | Some p \<Rightarrow> p \<in> vs)) (db_versions db)
      \<and> list_all (\<lambda>((s, n), (v, u)). s \<in> ss \<and> v \<in> vs) (db_heads db)
      \<and> list_all (\<lambda>((s, t, i), r). s \<in> ss
                   \<and> (case row_content_id r of None \<Rightarrow> True | Some c \<Rightarrow> c \<in> bs)) (db_records db)
      \<and> list_all (\<lambda>(e, a). au_session_id a \<in> ss) (db_audit db))"

definition exec :: "(state_db \<Rightarrow> state_db) \<Rightarrow> state_db \<Rightarrow> state_db result" where
  "exec stmt db =
     (let db' = stmt db in
      if fk_ok db' then Inr db' else Inl (IntegrityError ''FOREIGN KEY constraint failed''))"

section \<open>Designs, content blobs and lineage\<close>

definition canonical_json_payload :: "codec \<Rightarrow> pyval \<Rightarrow> string" where
  "canonical_json_payload c v = c_dumps c v"

definition canonical_design_payload :: "codec \<Rightarrow> design \<Rightarrow> string" where
  "canonical_design_payload c d = c_dumps c (c_model_dump c d)"

definition put_session :: "string \<Rightarrow> string \<Rightarrow> state_db \<Rightarrow> state_db" where
  "put_session sid ts db = db\<lparr> db_sessions :=
     dict_set sid (case dict_get (db_sessions db) sid of None \<Rightarrow> (ts, ts) | Some (cr, _) \<Rightarrow> (cr, ts))
       (db_sessions db) \<rparr>"

definition ensure_session :: "string \<Rightarrow> string \<Rightarrow> state_db \<Rightarrow> state_db result" where
  "ensure_session sid ts = exec (put_session sid ts)"

definition content_id_of :: "codec \<Rightarrow> string \<Rightarrow> string" where
  "content_id_of c payload = ''sha256:'' @ c_sha256 c payload"

definition design_media_type :: string where
  "design_media_type = ''application/vnd.zaptrace.design+json''"

definition put_blob :: "string \<Rightarrow> string \<Rightarrow> string \<Rightarrow> string \<Rightarrow> state_db \<Rightarrow> state_db" where
  "put_blob cid payload media_type now db = db\<lparr> db_blobs :=
     (case dict_get (db_blobs db) cid of
        Some _ \<Rightarrow> db_blobs db
      | None \<Rightarrow> dict_set cid \<lparr> blob_media_type = media_type, blob_payload = payload,
                  blob_size_bytes = length payload, blob_created_at = now \<rparr> (db_blobs db)) \<rparr>"

definition store_blob ::
  "codec \<Rightarrow> string \<Rightarrow> string \<Rightarrow> string \<Rightarrow> state_db \<Rightarrow> (string \<times> state_db) result" where
  "store_blob c payload media_type now db =
     (let cid = content_id_of c payload in
      rbind (exec (put_blob cid payload media_type now) db) (\<lambda>db'. Inr (cid, db')))"

definition current_design_identity :: "string \<Rightarrow> string \<Rightarrow> state_db \<Rightarrow> design_identity option" where
  "current_design_identity sid nm db =
     (case dict_get (db_heads db) (sid, nm) of
        None \<Rightarrow> None
      | Some (vid, _) \<Rightarrow> find (\<lambda>v. di_version_id v = vid) (db_versions db))"

definition put_version :: "design_identity \<Rightarrow> state_db \<Rightarrow> state_db" where
  "put_version v db = db\<lparr> db_versions := db_versions db @ [v] \<rparr>"

definition insert_version :: "design_identity \<Rightarrow> state_db \<Rightarrow> state_db result" where
  "insert_version v db =
     (if di_version_id v \<in> set (map di_version_id (db_versions db))
      then Inl (IntegrityError ''UNIQUE constraint failed: design_versions.version_id'')
      else exec (put_version v) db)"

definition put_head :: "string \<Rightarrow> string \<Rightarrow> string \<Rightarrow> string \<Rightarrow> state_db \<Rightarrow> state_db" where
  "put_head sid nm vid ts db = db\<lparr> db_heads := dict_set (sid, nm) (vid, ts) (db_heads db) \<rparr>"

text \<open>The values a call draws: the time, the time of the blob, the random part of the version id.\<close>

type_synonym draws = "string \<times> string \<times> string"

definition store_design_with_connection ::
  "codec \<Rightarrow> draws \<Rightarrow> string \<Rightarrow> string \<Rightarrow> design \<Rightarrow> string \<Rightarrow> bool \<Rightarrow> state_db
   \<Rightarrow> (design_identity \<times> state_db) result" where
  "store_design_with_connection c draw sid nm d operation record_duplicate db =
     (case draw of (ts, ts_blob, uuid) \<Rightarrow>
      rbind (ensure_session sid ts db) (\<lambda>db.
      rbind (store_blob c (canonical_design_payload c d) design_media_type ts_blob db) (\<lambda>(cid, db).
        case current_design_identity sid nm db of
          current \<Rightarrow>
            if (case current of None \<Rightarrow> False | Some v \<Rightarrow> di_content_id v = cid) \<and> \<not> record_duplicate
            then Inr (the current, db)
            else
              (let v = \<lparr> di_session_id = sid, di_design_name = nm, di_content_id = cid,
                         di_version_id = ''version-'' @ uuid,
                         di_parent_version_id = map_option di_version_id current,
                         di_operation = operation, di_created_at = ts \<rparr> in
               rbind (insert_version v db) (\<lambda>db.
               rbind (exec (put_head sid nm (di_version_id v) ts) db) (\<lambda>db. Inr (v, db)))))))"

definition store_design ::
  "codec \<Rightarrow> draws \<Rightarrow> string \<Rightarrow> string \<Rightarrow> design \<Rightarrow> string \<Rightarrow> bool \<Rightarrow> state_db
   \<Rightarrow> (design_identity \<times> state_db) result" where
  "store_design = store_design_with_connection"

definition store_design_content :: "codec \<Rightarrow> design \<Rightarrow> string \<Rightarrow> state_db \<Rightarrow> (string \<times> state_db) result" where
  "store_design_content c d now = store_blob c (canonical_design_payload c d) design_media_type now"

definition load_design_content :: "codec \<Rightarrow> string \<Rightarrow> state_db \<Rightarrow> design result" where
  "load_design_content c cid db =
     (case dict_get (db_blobs db) cid of
        None \<Rightarrow> Inl (KeyError (''content blob not found: '' @ cid))
      | Some b \<Rightarrow>
          (case c_model_validate_json c (blob_payload b) of
             Inl _ \<Rightarrow> Inl (StateStoreCorruptionError (''stored design payload is invalid: '' @ cid))
           | Inr d \<Rightarrow> Inr d))"

definition list_design_versions :: "string \<Rightarrow> string \<Rightarrow> state_db \<Rightarrow> design_identity list" where
  "list_design_versions sid nm db =
     filter (\<lambda>v. di_session_id v = sid \<and> di_design_name v = nm) (db_versions db)"

text \<open>The joined rows of \<^verbatim>\<open>load_designs\<close>: heads without a version or a blob drop out.\<close>

fun head_row :: "string \<Rightarrow> state_db \<Rightarrow> (string \<times> string) \<times> (string \<times> string) \<Rightarrow> (string \<times> string) option" where
  "head_row sid db ((s, nm), (vid, _)) =
     (if s \<noteq> sid then None
      else case find (\<lambda>v. di_version_id v = vid) (db_versions db) of
             None \<Rightarrow> None
           | Some v \<Rightarrow> map_option (\<lambda>b. (nm, blob_payload b)) (dict_get (db_blobs db) (di_content_id v)))"

definition head_rows :: "string \<Rightarrow> state_db \<Rightarrow> (string \<times> string) list" where
  "head_rows sid db = sort_key fst (option_list (map (head_row sid db) (db_heads db)))"

fun load_rows :: "codec \<Rightarrow> string \<Rightarrow> (string \<times> string) list \<Rightarrow> (string, design) dict \<Rightarrow> (string, design) dict result" where
  "load_rows c sid [] designs = Inr designs"
| "load_rows c sid ((nm, payload) # rows) designs =
     (case c_model_validate_json c payload of
        Inl exc \<Rightarrow> Inl (StateStoreCorruptionError
          (''stored design payload is invalid for session '' @ repr_str sid @ '': '' @ exc))
      | Inr d \<Rightarrow> load_rows c sid rows (dict_set nm d designs))"

definition load_designs :: "codec \<Rightarrow> string \<Rightarrow> state_db \<Rightarrow> (string, design) dict result" where
  "load_designs c sid db = load_rows c sid (head_rows sid db) []"

definition delete_heads_except :: "string \<Rightarrow> string list \<Rightarrow> state_db \<Rightarrow> state_db" where
  "delete_heads_except sid names db =
     db\<lparr> db_heads := filter (\<lambda>((s, nm), _). \<not> (s = sid \<and> nm \<notin> set names)) (db_heads db) \<rparr>"

fun store_all ::
  "codec \<Rightarrow> (string \<Rightarrow> draws) \<Rightarrow> string \<Rightarrow> (string, design) dict \<Rightarrow> string \<Rightarrow> string list
   \<Rightarrow> (string, design_identity) dict \<Rightarrow> state_db \<Rightarrow> ((string, design_identity) dict \<times> state_db) result" where
  "store_all c draw sid designs operation [] ids db = Inr (ids, db)"
| "store_all c draw sid designs operation (nm # names) ids db =
     (case dict_get designs nm of
        None \<Rightarrow> Inl (KeyError nm)
      | Some d \<Rightarrow>
          rbind (store_design_with_connection c (draw nm) sid nm d operation True db)
            (\<lambda>(v, db). store_all c draw sid designs operation names (dict_set nm v ids) db))"

definition replace_session_designs ::
  "codec \<Rightarrow> string \<Rightarrow> (string \<Rightarrow> draws) \<Rightarrow> string \<Rightarrow> (string, design) dict \<Rightarrow> string \<Rightarrow> state_db
   \<Rightarrow> ((string, design_identity) dict \<times> state_db) result" where
  "replace_session_designs c ts draw sid designs operation db =
     (let names = sort (dict_keys designs) in
      rbind (ensure_session sid ts db) (\<lambda>db.
      rbind (exec (delete_heads_except sid names) db) (\<lambda>db.
        store_all c draw sid designs operation names [] db)))"

section \<open>Sessions\<close>

definition session_exists :: "string \<Rightarrow> state_db \<Rightarrow> bool" where
  "session_exists sid db = (dict_get (db_sessions db) sid \<noteq> None)"

definition referenced :: "state_db \<Rightarrow> string list" where
  "referenced db = map di_content_id (db_versions db) @ option_list (map (\<lambda>(k, r). row_content_id r) (db_records db))"

definition delete_heads_of :: "string \<Rightarrow> state_db \<Rightarrow> state_db" where
  "delete_heads_of sid db = db\<lparr> db_heads := filter (\<lambda>((s, _), _). s \<noteq> sid) (db_heads db) \<rparr>"

definition delete_records_of :: "string \<Rightarrow> state_db \<Rightarrow> state_db" where
  "delete_records_of sid db = db\<lparr> db_records := filter (\<lambda>((s, _), _). s \<noteq> sid) (db_records db) \<rparr>"

definition delete_audit_of :: "string \<Rightarrow> state_db \<Rightarrow> state_db" where
  "delete_audit_of sid db = db\<lparr> db_audit := filter (\<lambda>(_, a). au_session_id a \<noteq> sid) (db_audit db) \<rparr>"

definition delete_versions_of :: "string \<Rightarrow> state_db \<Rightarrow> state_db" where
  "delete_versions_of sid db = db\<lparr> db_versions := filter (\<lambda>v. di_session_id v \<noteq> sid) (db_versions db) \<rparr>"

text \<open>The statement on \<^verbatim>\<open>sessions\<close> with its \<^verbatim>\<open>ON DELETE CASCADE\<close> clauses.\<close>

definition delete_session_row :: "string \<Rightarrow> state_db \<Rightarrow> state_db" where
  "delete_session_row sid db =
     (delete_heads_of sid (delete_records_of sid (delete_audit_of sid (delete_versions_of sid db))))
       \<lparr> db_sessions := dict_pop sid (db_sessions db) \<rparr>"

definition collect_blobs :: "state_db \<Rightarrow> state_db" where
  "collect_blobs db = db\<lparr> db_blobs := filter (\<lambda>(cid, _). cid \<in> set (referenced db)) (db_blobs db) \<rparr>"

definition delete_session :: "string \<Rightarrow> state_db \<Rightarrow> (bool \<times> state_db) result" where
  "delete_session sid db =
     rbind (exec (delete_heads_of sid) db) (\<lambda>db1.
     rbind (exec (delete_records_of sid) db1) (\<lambda>db2.
     rbind (exec (delete_audit_of sid) db2) (\<lambda>db3.
     rbind (exec (delete_versions_of sid) db3) (\<lambda>db4.
     rbind (exec (delete_session_row sid) db4) (\<lambda>db5.
     rbind (exec collect_blobs db5) (\<lambda>db6. Inr (session_exists sid db, db6)))))))"

section \<open>Session records\<close>

definition record_from_row :: "codec \<Rightarrow> (string \<times> string \<times> string) \<times> record_row \<Rightarrow> session_record result" where
  "record_from_row c =
     (\<lambda>((sid, ty, rid), r).
        case c_loads c (row_metadata_json r) of
          None \<Rightarrow> Inl (StateStoreCorruptionError
            (''stored session record metadata is invalid: '' @ ty @ ''/'' @ rid))
        | Some (PDict m) \<Rightarrow>
            Inr \<lparr> sr_session_id = sid, sr_record_type = ty, sr_record_id = rid,
                  sr_design_name = row_design_name r,
                  sr_content_id = (case row_content_id r of Some cid \<Rightarrow> if cid = [] then None else Some cid | None \<Rightarrow> None),
                  sr_metadata = m, sr_active = row_active r, sr_protected = row_protected r,
                  sr_created_at = row_created_at r, sr_updated_at = row_updated_at r \<rparr>
        | Some _ \<Rightarrow> Inl (StateStoreCorruptionError
            (''stored session record metadata is not an object: '' @ ty @ ''/'' @ rid)))"

definition put_record :: "string \<times> string \<times> string \<Rightarrow> record_row \<Rightarrow> state_db \<Rightarrow> state_db" where
  "put_record key row db = db\<lparr> db_records := dict_set key row (db_records db) \<rparr>"

definition row_of :: "codec \<Rightarrow> session_record \<Rightarrow> string \<Rightarrow> string \<Rightarrow> record_row" where
  "row_of c r created ts =
     \<lparr> row_design_name = sr_design_name r, row_content_id = sr_content_id r,
       row_metadata_json = canonical_json_payload c (PDict (sr_metadata r)),
       row_active = sr_active r, row_protected = sr_protected r,
       row_created_at = created, row_updated_at = ts \<rparr>"

definition upsert_record_with_connection ::
  "codec \<Rightarrow> session_record \<Rightarrow> string \<Rightarrow> state_db \<Rightarrow> (session_record \<times> state_db) result" where
  "upsert_record_with_connection c r ts db =
     (let key = (sr_session_id r, sr_record_type r, sr_record_id r);
          created = (case dict_get (db_records db) key of None \<Rightarrow> ts | Some old \<Rightarrow> row_created_at old) in
      rbind (exec (put_record key (row_of c r created ts)) db)
        (\<lambda>db. Inr (r\<lparr> sr_created_at := created, sr_updated_at := ts \<rparr>, db)))"

definition new_record ::
  "string \<Rightarrow> string \<Rightarrow> string \<Rightarrow> string \<Rightarrow> string option \<Rightarrow> (string \<times> pyval) list \<Rightarrow> bool \<Rightarrow> bool \<Rightarrow> session_record" where
  "new_record sid ty rid nm cid m active protected =
     \<lparr> sr_session_id = sid, sr_record_type = ty, sr_record_id = rid, sr_design_name = nm, sr_content_id = cid,
       sr_metadata = m, sr_active = active, sr_protected = protected, sr_created_at = [], sr_updated_at = [] \<rparr>"

definition upsert_session_record ::
  "codec \<Rightarrow> string \<Rightarrow> string \<Rightarrow> string \<Rightarrow> string \<Rightarrow> (string \<times> pyval) list \<Rightarrow> string \<Rightarrow> string option \<Rightarrow> bool \<Rightarrow> bool
   \<Rightarrow> state_db \<Rightarrow> (session_record \<times> state_db) result" where
  "upsert_session_record c ts sid ty rid m nm cid active protected db =
     rbind (ensure_session sid ts db)
       (upsert_record_with_connection c (new_record sid ty rid nm cid m active protected) ts)"

definition upsert_design_record ::
  "codec \<Rightarrow> string \<Rightarrow> string \<Rightarrow> string \<Rightarrow> string \<Rightarrow> string \<Rightarrow> design \<Rightarrow> (string \<times> pyval) list \<Rightarrow> string \<Rightarrow> bool \<Rightarrow> bool
   \<Rightarrow> state_db \<Rightarrow> (session_record \<times> state_db) result" where
  "upsert_design_record c ts ts_blob sid ty rid d m nm active protected db =
     rbind (ensure_session sid ts db) (\<lambda>db.
     rbind (store_blob c (canonical_design_payload c d) design_media_type ts_blob db) (\<lambda>(cid, db).
       upsert_record_with_connection c (new_record sid ty rid nm (Some cid) m active protected) ts db))"

fun rmap :: "('a \<Rightarrow> 'b result) \<Rightarrow> 'a list \<Rightarrow> 'b list result" where
  "rmap f [] = Inr []"
| "rmap f (x # xs) = rbind (f x) (\<lambda>y. rbind (rmap f xs) (\<lambda>ys. Inr (y # ys)))"

definition list_session_records ::
  "codec \<Rightarrow> string \<Rightarrow> string option \<Rightarrow> bool option \<Rightarrow> state_db \<Rightarrow> session_record list result" where
  "list_session_records c sid ty active db =
     rmap (record_from_row c)
       (filter (\<lambda>((s, t, i), r). s = sid
          \<and> (case ty of None \<Rightarrow> True | Some t' \<Rightarrow> t = t')
          \<and> (case active of None \<Rightarrow> True | Some a \<Rightarrow> row_active r = a)) (db_records db))"

definition delete_records_where ::
  "((string \<times> string \<times> string) \<times> record_row \<Rightarrow> bool) \<Rightarrow> state_db \<Rightarrow> state_db" where
  "delete_records_where hit db = db\<lparr> db_records := filter (\<lambda>x. \<not> hit x) (db_records db) \<rparr>"

definition delete_session_record :: "string \<Rightarrow> string \<Rightarrow> string \<Rightarrow> state_db \<Rightarrow> (bool \<times> state_db) result" where
  "delete_session_record sid ty rid db =
     rbind (exec (delete_records_where (\<lambda>(k, r). k = (sid, ty, rid))) db)
       (\<lambda>db'. Inr (dict_get (db_records db) (sid, ty, rid) \<noteq> None, db'))"

definition delete_session_records :: "string \<Rightarrow> string \<Rightarrow> string option \<Rightarrow> state_db \<Rightarrow> (nat \<times> state_db) result" where
  "delete_session_records sid ty nm db =
     (let hit = (\<lambda>((s, t, i), r). s = sid \<and> t = ty \<and> (case nm of None \<Rightarrow> True | Some n \<Rightarrow> row_design_name r = n)) in
      rbind (exec (delete_records_where hit) db)
        (\<lambda>db'. Inr (length (filter hit (db_records db)), db')))"

definition register_artifact_reference ::
  "codec \<Rightarrow> string \<Rightarrow> string \<Rightarrow> string \<Rightarrow> string \<Rightarrow> string \<Rightarrow> state_db \<Rightarrow> (session_record \<times> state_db) result" where
  "register_artifact_reference c ts sid aid refid ref_kind db =
     upsert_session_record c ts sid ''artifact-reference'' (aid @ '':'' @ refid)
       [(''artifact_id'', PStr aid), (''reference_id'', PStr refid), (''reference_kind'', PStr ref_kind)]
       [] None True True db"

definition release_artifact_reference :: "string \<Rightarrow> string \<Rightarrow> string \<Rightarrow> state_db \<Rightarrow> (bool \<times> state_db) result" where
  "release_artifact_reference sid aid refid =
     delete_session_record sid ''artifact-reference'' (aid @ '':'' @ refid)"

definition artifact_is_referenced :: "codec \<Rightarrow> string \<Rightarrow> string \<Rightarrow> state_db \<Rightarrow> bool result" where
  "artifact_is_referenced c sid aid db =
     rbind (list_session_records c sid (Some ''artifact-reference'') (Some True) db)
       (\<lambda>rs. Inr (list_ex (\<lambda>r. map_of (sr_metadata r) ''artifact_id'' = Some (PStr aid)) rs))"

section \<open>Audit events\<close>

text \<open>The columns of an event and of its \<^verbatim>\<open>metadata\<close>, which hold strings; \<open>ev_payload\<close> is the
  whole event.\<close>

record audit_event_in =
  ev_fields :: "(string, string) dict"
  ev_metadata :: "(string, string) dict"
  ev_payload :: pyval

definition str_or_empty :: "(string, string) dict \<Rightarrow> string \<Rightarrow> string" where
  "str_or_empty d k = (case dict_get d k of None \<Rightarrow> [] | Some s \<Rightarrow> s)"

definition field_or_meta :: "audit_event_in \<Rightarrow> string \<Rightarrow> string \<Rightarrow> string" where
  "field_or_meta ev k mk =
     (let s = str_or_empty (ev_fields ev) k in if s \<noteq> [] then s else str_or_empty (ev_metadata ev) mk)"

definition put_audit :: "string \<Rightarrow> audit_row \<Rightarrow> state_db \<Rightarrow> state_db" where
  "put_audit eid row db = db\<lparr> db_audit :=
     (case dict_get (db_audit db) eid of Some _ \<Rightarrow> db_audit db | None \<Rightarrow> dict_set eid row (db_audit db)) \<rparr>"

definition append_audit_event :: "codec \<Rightarrow> string \<Rightarrow> audit_event_in \<Rightarrow> state_db \<Rightarrow> state_db result" where
  "append_audit_event c now ev db =
     (let sid = str_or_empty (ev_fields ev) ''session_id''; eid = str_or_empty (ev_fields ev) ''event_id'';
          t = str_or_empty (ev_fields ev) ''timestamp''; ts = (if t \<noteq> [] then t else now) in
      if sid = [] \<or> eid = [] then Inl (ValueError ''audit event requires session_id and event_id'')
      else
        rbind (ensure_session sid ts db)
          (exec (put_audit eid
             \<lparr> au_session_id = sid, au_principal_id = field_or_meta ev ''principal_id'' ''principal_id'',
               au_surface = str_or_empty (ev_fields ev) ''surface'',
               au_object_type = field_or_meta ev ''object_type'' ''target_object_type'',
               au_object_id = field_or_meta ev ''object_id'' ''target_object_id'',
               au_request_id = field_or_meta ev ''request_id'' ''request_id'',
               au_design_name = field_or_meta ev ''design_name'' ''design_name'',
               au_payload_json = canonical_json_payload c (ev_payload ev), au_created_at = ts \<rparr>)))"

definition load_audit_events :: "codec \<Rightarrow> string \<Rightarrow> int option \<Rightarrow> state_db \<Rightarrow> (string \<times> pyval) list list result" where
  "load_audit_events c sid limit db =
     (let rows = filter (\<lambda>a. au_session_id a = sid) (dict_values (db_audit db));
          rows = (case limit of None \<Rightarrow> rows | Some n \<Rightarrow> take (nat (max 1 n)) rows) in
      rmap (\<lambda>a. case c_loads c (au_payload_json a) of
                  None \<Rightarrow> Inl (StateStoreCorruptionError ''stored audit event payload is invalid'')
                | Some (PDict m) \<Rightarrow> Inr m
                | Some _ \<Rightarrow> Inl (StateStoreCorruptionError ''stored audit event payload is not an object'')) rows)"

section \<open>Object access\<close>

record access_payload =
  ap_object_type :: string
  ap_object_id :: string
  ap_owner_principal :: string
  ap_delegates :: "string list"
  ap_parent_object_type :: string
  ap_parent_object_id :: string
  ap_created_at :: string

definition put_access :: "string \<times> string \<Rightarrow> access_row \<Rightarrow> state_db \<Rightarrow> state_db" where
  "put_access key row db = db\<lparr> db_access :=
     dict_set key (case dict_get (db_access db) key of
                     Some old \<Rightarrow> row\<lparr> acc_created_at := acc_created_at old \<rparr>
                   | None \<Rightarrow> row) (db_access db) \<rparr>"

definition upsert_object_access :: "codec \<Rightarrow> string \<Rightarrow> access_payload \<Rightarrow> state_db \<Rightarrow> state_db result" where
  "upsert_object_access c ts p =
     exec (put_access (lower (strip (ap_object_type p)), strip (ap_object_id p))
       \<lparr> acc_owner_principal = ap_owner_principal p,
         acc_delegates_json = canonical_json_payload c (PList (map PStr (sort (ap_delegates p)))),
         acc_parent_object_type = lower (strip (ap_parent_object_type p)),
         acc_parent_object_id = strip (ap_parent_object_id p),
         acc_created_at = (if ap_created_at p \<noteq> [] then ap_created_at p else ts), acc_updated_at = ts \<rparr>)"

definition delegate_str :: "codec \<Rightarrow> pyval \<Rightarrow> string" where
  "delegate_str c v = (case v of PStr s \<Rightarrow> s | _ \<Rightarrow> c_str c v)"

definition load_object_access :: "codec \<Rightarrow> string \<Rightarrow> string \<Rightarrow> state_db \<Rightarrow> access_payload option result" where
  "load_object_access c oty oid db =
     (let key = (lower (strip oty), strip oid) in
      case dict_get (db_access db) key of
        None \<Rightarrow> Inr None
      | Some r \<Rightarrow>
          (case c_loads c (acc_delegates_json r) of
             None \<Rightarrow> Inl (StateStoreCorruptionError ''stored object access delegates are invalid'')
           | Some (PList ds) \<Rightarrow>
               Inr (Some \<lparr> ap_object_type = fst key, ap_object_id = snd key,
                           ap_owner_principal = acc_owner_principal r, ap_delegates = map (delegate_str c) ds,
                           ap_parent_object_type = acc_parent_object_type r,
                           ap_parent_object_id = acc_parent_object_id r, ap_created_at = acc_created_at r \<rparr>)
           | Some _ \<Rightarrow> Inl (StateStoreCorruptionError ''stored object access delegates are not a list'')))"

definition access_children :: "(string \<times> string, access_row) dict \<Rightarrow> string \<times> string \<Rightarrow> (string \<times> string) list" where
  "access_children tbl k =
     map fst (filter (\<lambda>(_, r). (acc_parent_object_type r, acc_parent_object_id r) = k) tbl)"

text \<open>
  The loop of \<^verbatim>\<open>delete_object_access\<close>, with the stack of \<^verbatim>\<open>pending\<close> kept top first: \<^verbatim>\<open>pop\<close> takes
  the last element pushed. It ends on cyclic parents too: a key with a row takes the row
  out, and a key without one either pushes keys that have rows or shortens the stack.
\<close>

lemma dict_pop_absent: "dict_get d k = None \<Longrightarrow> dict_pop k d = d"
  by (simp add: dict_get_def dict_pop_def delete_idem map_of_eq_None_iff)

lemma length_dict_pop: "dict_get d k \<noteq> None \<Longrightarrow> length (dict_pop k d) < length d"
proof (induction d)
  case (Cons x d)
  have "length (AList.delete k d) \<le> length d" by (rule length_delete_le)
  then show ?case using Cons
    by (cases x) (auto simp: dict_get_def dict_pop_def delete_simps split: if_splits)
qed simp

lemma access_children_keys: "k' \<in> set (access_children tbl k) \<Longrightarrow> dict_get tbl k' \<noteq> None"
  using pydict.set_keys [of tbl] by (fastforce simp: access_children_def dict_keys_def)

function delete_pending ::
  "bool \<Rightarrow> (string \<times> string) list \<Rightarrow> (string \<times> string, access_row) dict \<Rightarrow> nat
   \<Rightarrow> nat \<times> (string \<times> string, access_row) dict" where
  "delete_pending cascade [] tbl removed = (removed, tbl)"
| "delete_pending cascade (k # pending) tbl removed =
     delete_pending cascade ((if cascade then rev (access_children tbl k) else []) @ pending) (dict_pop k tbl)
       (removed + (if dict_get tbl k = None then 0 else 1))"
  by pat_completeness auto
termination
proof (relation "measures [\<lambda>(c, p, t, r). length t,
    \<lambda>(c, p, t, r). (if p \<noteq> [] \<and> dict_get t (hd p) \<noteq> None then 0 else 1), \<lambda>(c, p, t, r). length p]",
    goal_cases)
  case 1
  then show ?case by simp
next
  case (2 cascade k pending tbl removed)
  show ?case
  proof (cases "dict_get tbl k")
    case (Some r)
    then show ?thesis using length_dict_pop [of tbl k] by simp
  next
    case None
    show ?thesis
    proof (cases "cascade \<and> access_children tbl k \<noteq> []")
      case True
      then have "dict_get tbl (hd (rev (access_children tbl k))) \<noteq> None"
        by (intro access_children_keys [of _ tbl k]) (metis hd_in_set rev_is_Nil_conv set_rev)
      then show ?thesis using None True by (auto simp: dict_pop_absent hd_append)
    next
      case False
      then have "(if cascade then rev (access_children tbl k) else []) = []" by auto
      then show ?thesis using None by (simp add: dict_pop_absent)
    qed
  qed
qed

definition delete_object_access :: "string \<Rightarrow> string \<Rightarrow> bool \<Rightarrow> state_db \<Rightarrow> (nat \<times> state_db) result" where
  "delete_object_access oty oid cascade db =
     (case delete_pending cascade [(lower (strip oty), strip oid)] (db_access db) 0 of
        (n, tbl) \<Rightarrow> rbind (exec (\<lambda>db. db\<lparr> db_access := tbl \<rparr>) db) (\<lambda>db'. Inr (n, db')))"

section \<open>The design mapping of a session\<close>

text \<open>
  \<^verbatim>\<open>PersistentDesignDict\<close> of \<^verbatim>\<open>session_store.py\<close> over the database. An item assignment
  changes the memory before it writes, so its memory is part of the result when the
  write fails; \<^verbatim>\<open>commit_design\<close> and \<^verbatim>\<open>replace_all\<close> write first.
\<close>

type_synonym design_map = "(string, design) dict"

definition make_design_mapping :: "codec \<Rightarrow> string \<Rightarrow> state_db \<Rightarrow> design_map result" where
  "make_design_mapping c sid db = load_designs c sid db"

definition pdd_write :: "codec \<Rightarrow> draws \<Rightarrow> string \<Rightarrow> string \<Rightarrow> design \<Rightarrow> string \<Rightarrow> state_db \<Rightarrow> state_db result" where
  "pdd_write c draw sid key d operation db =
     rbind (store_design c draw sid key d operation True db) (\<lambda>(v, db'). Inr db')"

definition pdd_setitem ::
  "codec \<Rightarrow> draws \<Rightarrow> string \<Rightarrow> string \<Rightarrow> design \<Rightarrow> design_map \<Rightarrow> state_db \<Rightarrow> design_map \<times> state_db result" where
  "pdd_setitem c draw sid key d mem db =
     (dict_set key d mem, pdd_write c draw sid key d ''mapping-assignment'' db)"

definition pdd_persist ::
  "codec \<Rightarrow> draws \<Rightarrow> string \<Rightarrow> string \<Rightarrow> string \<Rightarrow> design_map \<Rightarrow> state_db \<Rightarrow> state_db result" where
  "pdd_persist c draw sid key operation mem db =
     (case dict_get mem key of None \<Rightarrow> Inr db | Some d \<Rightarrow> pdd_write c draw sid key d operation db)"

definition commit_design ::
  "codec \<Rightarrow> draws \<Rightarrow> string \<Rightarrow> string \<Rightarrow> design \<Rightarrow> string \<Rightarrow> design_map \<Rightarrow> state_db \<Rightarrow> (design_map \<times> state_db) result" where
  "commit_design c draw sid key d operation mem db =
     rbind (store_design c draw sid key d operation True db) (\<lambda>(v, db'). Inr (dict_set key d mem, db'))"

definition replace_all ::
  "codec \<Rightarrow> string \<Rightarrow> (string \<Rightarrow> draws) \<Rightarrow> string \<Rightarrow> design_map \<Rightarrow> string \<Rightarrow> state_db \<Rightarrow> (design_map \<times> state_db) result" where
  "replace_all c ts draw sid designs operation db =
     rbind (replace_session_designs c ts draw sid designs operation db)
       (\<lambda>(ids, db'). Inr (fold (\<lambda>(k, d). dict_set k d) designs [], db'))"

text \<open>A use of the mapping. \<open>EditPersist\<close> is an edit of the mapped object in place followed by
  \<^verbatim>\<open>persist\<close>.\<close>

datatype pdd_op =
    SetItem draws string design
  | EditPersist draws string design string
  | Commit draws string design string
  | ReplaceAll string "string \<Rightarrow> draws" design_map string

fun pdd_apply :: "codec \<Rightarrow> string \<Rightarrow> pdd_op \<Rightarrow> design_map \<Rightarrow> state_db \<Rightarrow> (design_map \<times> state_db) result" where
  "pdd_apply c sid (SetItem draw key d) mem db =
     (case pdd_setitem c draw sid key d mem db of (mem', r) \<Rightarrow> rbind r (\<lambda>db'. Inr (mem', db')))"
| "pdd_apply c sid (EditPersist draw key d operation) mem db =
     (let mem' = (case dict_get mem key of None \<Rightarrow> mem | Some _ \<Rightarrow> dict_set key d mem)
      in rbind (pdd_persist c draw sid key operation mem' db) (\<lambda>db'. Inr (mem', db')))"
| "pdd_apply c sid (Commit draw key d operation) mem db = commit_design c draw sid key d operation mem db"
| "pdd_apply c sid (ReplaceAll ts draw designs operation) mem db = replace_all c ts draw sid designs operation db"

fun pdd_run :: "codec \<Rightarrow> string \<Rightarrow> pdd_op list \<Rightarrow> design_map \<Rightarrow> state_db \<Rightarrow> (design_map \<times> state_db) result" where
  "pdd_run c sid [] mem db = Inr (mem, db)"
| "pdd_run c sid (op # ops) mem db = rbind (pdd_apply c sid op mem db) (\<lambda>(mem', db'). pdd_run c sid ops mem' db')"

fun op_designs :: "pdd_op \<Rightarrow> design set" where
  "op_designs (SetItem draw key d) = {d}"
| "op_designs (EditPersist draw key d operation) = {d}"
| "op_designs (Commit draw key d operation) = {d}"
| "op_designs (ReplaceAll ts draw designs operation) = set (dict_values designs)"

fun op_wf :: "pdd_op \<Rightarrow> bool" where
  "op_wf (ReplaceAll ts draw designs operation) = dict_wf designs"
| "op_wf _ = True"

section \<open>Cascading deletion\<close>

definition acc_parent :: "access_row \<Rightarrow> string \<times> string" where
  "acc_parent r = (acc_parent_object_type r, acc_parent_object_id r)"

definition acc_child :: "(string \<times> string, access_row) dict \<Rightarrow> ((string \<times> string) \<times> (string \<times> string)) set" where
  "acc_child tbl = {(k, k'). map_option acc_parent (dict_get tbl k') = Some k}"

lemma set_access_children:
  "dict_wf tbl \<Longrightarrow> set (access_children tbl k) = {k'. (k, k') \<in> acc_child tbl}"
  by (force simp: access_children_def acc_child_def acc_parent_def dest: dict_get_mem dict_get_of_mem)

lemma acc_child_pop: "acc_child (dict_pop k tbl) = {(a, b) \<in> acc_child tbl. b \<noteq> k}"
  by (auto simp: acc_child_def pydict.get_pop)

lemma path_avoids:
  assumes "(p, x) \<in> C\<^sup>*" "x \<noteq> k"
  shows "(p, x) \<in> {(a, b) \<in> C. b \<noteq> k}\<^sup>* \<or> (\<exists>c. (k, c) \<in> C \<and> (c, x) \<in> {(a, b) \<in> C. b \<noteq> k}\<^sup>*)"
  using assms
proof (induction rule: rtrancl_induct)
  case (step y x)
  show ?case
  proof (cases "y = k")
    case True
    then show ?thesis using step.hyps(2) by blast
  next
    case False
    have "(y, x) \<in> {(a, b) \<in> C. b \<noteq> k}" using step by auto
    then show ?thesis using step.IH [OF False] by (meson rtrancl.rtrancl_into_rtrancl)
  qed
qed simp

lemma reach_step:
  assumes "x \<noteq> k"
  shows "(\<exists>p\<in>insert k P. (p, x) \<in> C\<^sup>*)
    \<longleftrightarrow> (\<exists>p\<in>{k'. (k, k') \<in> C} \<union> P. (p, x) \<in> {(a, b) \<in> C. b \<noteq> k}\<^sup>*)" (is "?L \<longleftrightarrow> ?R")
proof
  have mono: "{(a, b) \<in> C. b \<noteq> k}\<^sup>* \<subseteq> C\<^sup>*" by (rule rtrancl_mono) auto
  show ?L if ?R
  proof -
    from that obtain p where p: "(k, p) \<in> C \<or> p \<in> P" "(p, x) \<in> C\<^sup>*" using mono by auto
    then show ?thesis by (meson converse_rtrancl_into_rtrancl insertI1 insertI2)
  qed
  show ?R if ?L
  proof -
    from that obtain p where p: "p \<in> insert k P" "(p, x) \<in> C\<^sup>*" by auto
    from path_avoids [OF p(2) assms] show ?thesis
    proof
      assume a: "(p, x) \<in> {(a, b) \<in> C. b \<noteq> k}\<^sup>*"
      show ?thesis
      proof (cases "p = k")
        case True
        with a assms obtain c where "(k, c) \<in> C" "(c, x) \<in> {(a, b) \<in> C. b \<noteq> k}\<^sup>*"
          by (auto elim: converse_rtranclE)
        then show ?thesis by blast
      next
        case False
        then show ?thesis using a p(1) by blast
      qed
    qed blast
  qed
qed

lemma length_pop_present:
  "dict_wf tbl \<Longrightarrow> length tbl = length (dict_pop k tbl) + (if dict_get tbl k = None then 0 else 1)"
proof (cases "dict_get tbl k")
  case (Some v)
  assume wf: "dict_wf tbl"
  have "length (dict_keys (dict_pop k tbl)) = card (set (dict_keys tbl) - {k})"
    using wf pydict.wf_pop pydict.distinct_keys pydict.set_keys_pop by (metis distinct_card)
  moreover have "k \<in> set (dict_keys tbl)" using Some by (simp add: pydict.set_keys)
  ultimately have "Suc (length (dict_keys (dict_pop k tbl))) = card (set (dict_keys tbl))"
    using card_Suc_Diff1 [of "set (dict_keys tbl)" k] by simp
  then show ?thesis
    using Some distinct_card [OF pydict.distinct_keys [OF wf]] by (simp add: dict_keys_def)
qed (simp add: dict_pop_absent)

lemma delete_pending_exact:
  assumes "dict_wf tbl" "delete_pending True pending tbl n = (m, tbl')"
  shows "(\<forall>x. dict_get tbl' x = (if \<exists>p\<in>set pending. (p, x) \<in> (acc_child tbl)\<^sup>* then None else dict_get tbl x))
    \<and> dict_wf tbl' \<and> m + length tbl' = n + length tbl"
  using assms
proof (induction "True" pending tbl n rule: delete_pending.induct)
  case (2 k pending tbl removed)
  let ?t = "dict_pop k tbl"
  have wf: "dict_wf ?t" using 2 by (simp add: pydict.wf_pop)
  have rest: "delete_pending True (rev (access_children tbl k) @ pending) ?t
      (removed + (if dict_get tbl k = None then 0 else 1)) = (m, tbl')"
    using 2(3) by simp
  have IH: "dict_get tbl' x = (if \<exists>p\<in>{k'. (k, k') \<in> acc_child tbl} \<union> set pending.
        (p, x) \<in> {(a, b) \<in> acc_child tbl. b \<noteq> k}\<^sup>* then None else dict_get ?t x)"
    "dict_wf tbl'" "m + length tbl' = removed + (if dict_get tbl k = None then 0 else 1) + length ?t" for x
    using 2(1) wf rest 2(2) by (simp_all add: set_access_children acc_child_pop del: split_paired_All)
  have "dict_get tbl' x = (if \<exists>p\<in>set (k # pending). (p, x) \<in> (acc_child tbl)\<^sup>* then None else dict_get tbl x)" for x
  proof (cases "x = k")
    case False
    then show ?thesis
      unfolding IH(1) list.set(2) reach_step [OF False, of "set pending" "acc_child tbl"]
      by (simp add: pydict.get_pop)
  qed (use IH(1) [of k] in \<open>auto simp: pydict.get_pop\<close>)
  then show ?case using IH(2,3) length_pop_present [OF 2(2), of k] by simp
qed simp

lemma fk_ok_access [simp]: "fk_ok (db\<lparr> db_access := t \<rparr>) = fk_ok db"
  by (simp add: fk_ok_def)

lemma exec_eq_Inr: "exec stmt db = Inr db' \<longleftrightarrow> db' = stmt db \<and> fk_ok (stmt db)"
  by (auto simp: exec_def Let_def)

section \<open>The invariant of the database\<close>

text \<open>
  Beside the foreign keys: primary keys are unique, a blob sits under the hash of its
  payload, a head points at a version of its own design, and the parent of a version is
  an earlier version of the same design.
\<close>

definition parent_ok :: "design_identity set \<Rightarrow> design_identity \<Rightarrow> bool" where
  "parent_ok S v =
     (\<forall>p. di_parent_version_id v = Some p \<longrightarrow>
        (\<exists>u\<in>S. di_version_id u = p \<and> di_session_id u = di_session_id v \<and> di_design_name u = di_design_name v))"

fun lineage_ok :: "design_identity set \<Rightarrow> design_identity list \<Rightarrow> bool" where
  "lineage_ok S [] = True"
| "lineage_ok S (v # vs) = (parent_ok S v \<and> lineage_ok (insert v S) vs)"

definition blobs_ok :: "codec \<Rightarrow> state_db \<Rightarrow> bool" where
  "blobs_ok c db = (\<forall>cid b. dict_get (db_blobs db) cid = Some b \<longrightarrow>
     cid = content_id_of c (blob_payload b) \<and> blob_size_bytes b = length (blob_payload b))"

definition heads_ok :: "state_db \<Rightarrow> bool" where
  "heads_ok db = (\<forall>s nm vid u. dict_get (db_heads db) (s, nm) = Some (vid, u) \<longrightarrow>
     (\<exists>v\<in>set (db_versions db). di_version_id v = vid \<and> di_session_id v = s \<and> di_design_name v = nm))"

definition keys_ok :: "state_db \<Rightarrow> bool" where
  "keys_ok db = (dict_wf (db_sessions db) \<and> dict_wf (db_blobs db) \<and> dict_wf (db_heads db) \<and> dict_wf (db_records db)
     \<and> dict_wf (db_audit db) \<and> dict_wf (db_access db) \<and> distinct (map di_version_id (db_versions db)))"

definition db_inv :: "codec \<Rightarrow> state_db \<Rightarrow> bool" where
  "db_inv c db = (fk_ok db \<and> keys_ok db \<and> blobs_ok c db \<and> heads_ok db \<and> lineage_ok {} (db_versions db))"

text \<open>The foreign keys, read off the dictionaries.\<close>

lemma fk_ok_iff:
  "fk_ok db \<longleftrightarrow>
     (\<forall>v\<in>set (db_versions db). di_session_id v \<in> set (dict_keys (db_sessions db))
        \<and> di_content_id v \<in> set (dict_keys (db_blobs db))
        \<and> (\<forall>p. di_parent_version_id v = Some p \<longrightarrow> p \<in> di_version_id ` set (db_versions db)))
     \<and> (\<forall>s nm vid u. ((s, nm), vid, u) \<in> set (db_heads db) \<longrightarrow>
          s \<in> set (dict_keys (db_sessions db)) \<and> vid \<in> di_version_id ` set (db_versions db))
     \<and> (\<forall>s t i r. ((s, t, i), r) \<in> set (db_records db) \<longrightarrow> s \<in> set (dict_keys (db_sessions db))
          \<and> (\<forall>cid. row_content_id r = Some cid \<longrightarrow> cid \<in> set (dict_keys (db_blobs db))))
     \<and> (\<forall>e a. (e, a) \<in> set (db_audit db) \<longrightarrow> au_session_id a \<in> set (dict_keys (db_sessions db)))"
  unfolding fk_ok_def Let_def list_all_iff set_map
  by (intro conj_cong) (fastforce split: option.splits prod.splits)+

lemma fk_okI:
  assumes "\<And>v. v \<in> set (db_versions db) \<Longrightarrow> di_session_id v \<in> set (dict_keys (db_sessions db))"
    and "\<And>v. v \<in> set (db_versions db) \<Longrightarrow> di_content_id v \<in> set (dict_keys (db_blobs db))"
    and "\<And>v p. v \<in> set (db_versions db) \<Longrightarrow> di_parent_version_id v = Some p \<Longrightarrow> \<exists>u\<in>set (db_versions db). di_version_id u = p"
    and "\<And>s nm vid u. ((s, nm), vid, u) \<in> set (db_heads db) \<Longrightarrow> s \<in> set (dict_keys (db_sessions db))"
    and "\<And>s nm vid u. ((s, nm), vid, u) \<in> set (db_heads db) \<Longrightarrow> \<exists>v\<in>set (db_versions db). di_version_id v = vid"
    and "\<And>s t i r. ((s, t, i), r) \<in> set (db_records db) \<Longrightarrow> s \<in> set (dict_keys (db_sessions db))"
    and "\<And>s t i r cid. ((s, t, i), r) \<in> set (db_records db) \<Longrightarrow> row_content_id r = Some cid \<Longrightarrow> cid \<in> set (dict_keys (db_blobs db))"
    and "\<And>e a. (e, a) \<in> set (db_audit db) \<Longrightarrow> au_session_id a \<in> set (dict_keys (db_sessions db))"
  shows "fk_ok db"
proof (unfold fk_ok_iff, intro conjI ballI allI impI)
  show "p \<in> di_version_id ` set (db_versions db)"
    if "v \<in> set (db_versions db)" "di_parent_version_id v = Some p" for v p
    using assms(3) [OF that] by blast
  show "vid \<in> di_version_id ` set (db_versions db)" if "((s, nm), vid, u) \<in> set (db_heads db)" for s nm vid u
    using assms(5) [OF that] by blast
qed (erule assms(1,2,4,6,7,8); assumption?)+

lemma fk_okD:
  assumes "fk_ok db"
  shows "v \<in> set (db_versions db) \<Longrightarrow> di_session_id v \<in> set (dict_keys (db_sessions db))"
    and "v \<in> set (db_versions db) \<Longrightarrow> di_content_id v \<in> set (dict_keys (db_blobs db))"
    and "((s, nm), vid, u) \<in> set (db_heads db) \<Longrightarrow> s \<in> set (dict_keys (db_sessions db))"
    and "((s, nm), vid, u) \<in> set (db_heads db) \<Longrightarrow> \<exists>v\<in>set (db_versions db). di_version_id v = vid"
    and "((s, t, i), r) \<in> set (db_records db) \<Longrightarrow> s \<in> set (dict_keys (db_sessions db))"
    and "((s, t, i), r) \<in> set (db_records db) \<Longrightarrow> row_content_id r = Some cid \<Longrightarrow> cid \<in> set (dict_keys (db_blobs db))"
    and "(e, a) \<in> set (db_audit db) \<Longrightarrow> au_session_id a \<in> set (dict_keys (db_sessions db))"
    and "v \<in> set (db_versions db) \<Longrightarrow> di_parent_version_id v = Some p \<Longrightarrow> \<exists>u\<in>set (db_versions db). di_version_id u = p"
proof -
  note fk = assms [unfolded fk_ok_iff]
  show "v \<in> set (db_versions db) \<Longrightarrow> di_session_id v \<in> set (dict_keys (db_sessions db))"
    "v \<in> set (db_versions db) \<Longrightarrow> di_content_id v \<in> set (dict_keys (db_blobs db))"
    "v \<in> set (db_versions db) \<Longrightarrow> di_parent_version_id v = Some p \<Longrightarrow> \<exists>u\<in>set (db_versions db). di_version_id u = p"
    using fk [THEN conjunct1] by auto
  show "((s, nm), vid, u) \<in> set (db_heads db) \<Longrightarrow> s \<in> set (dict_keys (db_sessions db))"
    "((s, nm), vid, u) \<in> set (db_heads db) \<Longrightarrow> \<exists>v\<in>set (db_versions db). di_version_id v = vid"
    using fk [THEN conjunct2, THEN conjunct1] by blast+
  show "((s, t, i), r) \<in> set (db_records db) \<Longrightarrow> s \<in> set (dict_keys (db_sessions db))"
    "((s, t, i), r) \<in> set (db_records db) \<Longrightarrow> row_content_id r = Some cid \<Longrightarrow> cid \<in> set (dict_keys (db_blobs db))"
    using fk [THEN conjunct2, THEN conjunct2, THEN conjunct1] by blast+
  show "(e, a) \<in> set (db_audit db) \<Longrightarrow> au_session_id a \<in> set (dict_keys (db_sessions db))"
    using fk [THEN conjunct2, THEN conjunct2, THEN conjunct2] by blast
qed

lemma set_dict_set: "set (dict_set k v d) \<subseteq> insert (k, v) (set d)"
proof (induction d)
  case (Cons x d)
  then show ?case by (cases x) (auto simp: dict_set_def)
qed (simp add: dict_set_def)

lemma set_dict_setD: "x \<in> set (dict_set k v d) \<Longrightarrow> x = (k, v) \<or> x \<in> set d"
  using set_dict_set [of k v d] by blast

lemma dict_wf_filter: "dict_wf d \<Longrightarrow> dict_wf (filter P d)"
  unfolding dict_wf_def by (rule distinct_map_filter)

lemma dict_get_filter:
  "dict_wf d \<Longrightarrow> dict_get (filter P d) k = (case dict_get d k of None \<Rightarrow> None | Some v \<Rightarrow> if P (k, v) then Some v else None)"
proof (induction d)
  case (Cons x d)
  have "dict_get d (fst x) = None" using Cons.prems by (simp add: dict_wf_def dict_get_def map_of_eq_None_iff)
  moreover have "dict_wf d" using Cons.prems by (simp add: dict_wf_def)
  ultimately show ?case using Cons.IH by (cases x) (auto simp: dict_get_def)
qed simp

lemma exec_ok: "fk_ok (stmt db) \<Longrightarrow> exec stmt db = Inr (stmt db)"
  by (simp add: exec_def)

lemma lineage_ok_snoc: "lineage_ok S (vs @ [v]) \<longleftrightarrow> lineage_ok S vs \<and> parent_ok (S \<union> set vs) v"
  by (induction vs arbitrary: S) auto

lemma parent_ok_mono: "parent_ok S v \<Longrightarrow> S \<subseteq> T \<Longrightarrow> parent_ok T v"
  unfolding parent_ok_def by blast

lemma lineage_ok_filter:
  "lineage_ok S vs \<Longrightarrow> lineage_ok {u \<in> S. di_session_id u \<noteq> sid} (filter (\<lambda>v. di_session_id v \<noteq> sid) vs)"
proof (induction vs arbitrary: S)
  case (Cons v vs)
  have e: "{u \<in> insert v S. di_session_id u \<noteq> sid}
      = (if di_session_id v \<noteq> sid then insert v {u \<in> S. di_session_id u \<noteq> sid} else {u \<in> S. di_session_id u \<noteq> sid})"
    by auto
  have "parent_ok {u \<in> S. di_session_id u \<noteq> sid} v" if "di_session_id v \<noteq> sid"
    using Cons.prems that unfolding lineage_ok.simps parent_ok_def by fastforce
  then show ?case using Cons.IH [of "insert v S"] Cons.prems unfolding e by auto
qed simp

lemma put_session_inv:
  assumes "db_inv c db"
  shows "db_inv c (put_session sid ts db)"
proof -
  have "dict_wf (dict_set sid x (db_sessions db))" for x
    using assms by (simp add: db_inv_def keys_ok_def pydict.wf_put)
  moreover have "set (dict_keys (dict_set sid x (db_sessions db))) = insert sid (set (dict_keys (db_sessions db)))" for x
    by (rule pydict.set_keys_put)
  ultimately show ?thesis
    using assms by (auto simp: db_inv_def keys_ok_def blobs_ok_def heads_ok_def fk_ok_iff put_session_def)
qed

lemma put_blob_props:
  "set (dict_keys (db_blobs (put_blob cid p m t db))) = insert cid (set (dict_keys (db_blobs db)))"
  "dict_wf (db_blobs db) \<Longrightarrow> dict_wf (db_blobs (put_blob cid p m t db))"
  by (auto simp: put_blob_def pydict.get_put pydict.set_keys pydict.wf_put split: option.splits if_splits)

lemma put_blob_other [simp]:
  "db_sessions (put_blob cid p m t db) = db_sessions db" "db_versions (put_blob cid p m t db) = db_versions db"
  "db_heads (put_blob cid p m t db) = db_heads db" "db_records (put_blob cid p m t db) = db_records db"
  "db_audit (put_blob cid p m t db) = db_audit db" "db_access (put_blob cid p m t db) = db_access db"
  by (simp_all add: put_blob_def)

lemma get_put_blob:
  "dict_get (db_blobs (put_blob cid p m t db)) k =
     (if k = cid \<and> dict_get (db_blobs db) cid = None
      then Some \<lparr> blob_media_type = m, blob_payload = p, blob_size_bytes = length p, blob_created_at = t \<rparr>
      else dict_get (db_blobs db) k)"
  by (auto simp: put_blob_def pydict.get_put split: option.splits)

lemma put_blob_inv:
  assumes "db_inv c db"
  shows "db_inv c (put_blob (content_id_of c p) p m t db)"
  using assms unfolding db_inv_def keys_ok_def blobs_ok_def heads_ok_def fk_ok_iff
  by (auto simp: put_blob_props get_put_blob split: if_splits)

lemma put_version_inv:
  assumes "db_inv c db" "di_version_id v \<notin> di_version_id ` set (db_versions db)"
    and "di_session_id v \<in> set (dict_keys (db_sessions db))" "di_content_id v \<in> set (dict_keys (db_blobs db))"
    and "parent_ok (set (db_versions db)) v"
  shows "db_inv c (put_version v db)"
proof -
  have "fk_ok (put_version v db)"
    using assms unfolding db_inv_def fk_ok_iff put_version_def parent_ok_def by auto
  moreover have "keys_ok (put_version v db)" "blobs_ok c (put_version v db)" "heads_ok (put_version v db)"
    "lineage_ok {} (db_versions (put_version v db))"
    using assms by (auto simp: db_inv_def keys_ok_def blobs_ok_def heads_ok_def put_version_def lineage_ok_snoc)
  ultimately show ?thesis by (simp add: db_inv_def)
qed

lemma put_head_inv:
  assumes "db_inv c db" "sid \<in> set (dict_keys (db_sessions db))"
    and "\<exists>v\<in>set (db_versions db). di_version_id v = vid \<and> di_session_id v = sid \<and> di_design_name v = nm"
  shows "db_inv c (put_head sid nm vid ts db)"
proof -
  have "fk_ok (put_head sid nm vid ts db)"
    using assms unfolding db_inv_def fk_ok_iff put_head_def by (auto dest!: set_dict_setD; blast)
  moreover have "keys_ok (put_head sid nm vid ts db)" "blobs_ok c (put_head sid nm vid ts db)"
    "heads_ok (put_head sid nm vid ts db)"
    using assms by (auto simp: db_inv_def keys_ok_def blobs_ok_def heads_ok_def put_head_def pydict.get_put pydict.wf_put)
  ultimately show ?thesis using assms(1) by (simp add: db_inv_def put_head_def)
qed

text \<open>Deleting rows nothing refers to.\<close>

lemma fk_ok_fewer:
  assumes "fk_ok db" "db_sessions db' = db_sessions db" "db_blobs db' = db_blobs db" "db_versions db' = db_versions db"
    and "set (db_heads db') \<subseteq> set (db_heads db)" "set (db_records db') \<subseteq> set (db_records db)"
    and "set (db_audit db') \<subseteq> set (db_audit db)"
  shows "fk_ok db'"
  using assms(1) unfolding fk_ok_iff assms(2-4) using assms(5-7) by (meson subsetD)

lemma filter_rows_inv:
  assumes "db_inv c db"
  shows "db_inv c (db\<lparr> db_heads := filter P (db_heads db) \<rparr>)"
    and "db_inv c (db\<lparr> db_records := filter Q (db_records db) \<rparr>)"
    and "db_inv c (db\<lparr> db_audit := filter R (db_audit db) \<rparr>)"
proof -
  note inv = assms [unfolded db_inv_def keys_ok_def blobs_ok_def heads_ok_def]
  have fk: "fk_ok (db\<lparr> db_heads := filter P (db_heads db) \<rparr>)" "fk_ok (db\<lparr> db_records := filter Q (db_records db) \<rparr>)"
    "fk_ok (db\<lparr> db_audit := filter R (db_audit db) \<rparr>)"
    using assms by (auto simp: db_inv_def intro: fk_ok_fewer)
  show "db_inv c (db\<lparr> db_heads := filter P (db_heads db) \<rparr>)"
    using inv fk(1) unfolding db_inv_def keys_ok_def blobs_ok_def heads_ok_def
    by (auto simp: dict_wf_filter dict_get_filter split: option.splits if_splits)
  show "db_inv c (db\<lparr> db_records := filter Q (db_records db) \<rparr>)" "db_inv c (db\<lparr> db_audit := filter R (db_audit db) \<rparr>)"
    using inv fk(2,3) unfolding db_inv_def keys_ok_def blobs_ok_def heads_ok_def
    by (simp_all add: dict_wf_filter)
qed

lemma put_record_inv:
  assumes "db_inv c db" "fst key \<in> set (dict_keys (db_sessions db))"
    and "\<forall>cid. row_content_id r = Some cid \<longrightarrow> cid \<in> set (dict_keys (db_blobs db))"
  shows "db_inv c (put_record key r db)"
proof -
  have "fk_ok (put_record key r db)"
    using assms unfolding db_inv_def fk_ok_iff put_record_def by (auto dest!: set_dict_setD)
  then show ?thesis
    using assms by (auto simp: db_inv_def keys_ok_def blobs_ok_def heads_ok_def put_record_def pydict.wf_put)
qed

lemma put_audit_inv:
  assumes "db_inv c db" "au_session_id a \<in> set (dict_keys (db_sessions db))"
  shows "db_inv c (put_audit e a db)"
proof -
  have "fk_ok (put_audit e a db)"
    using assms unfolding db_inv_def fk_ok_iff put_audit_def
    by (auto dest!: set_dict_setD split: option.splits)
  then show ?thesis
    using assms by (auto simp: db_inv_def keys_ok_def blobs_ok_def heads_ok_def put_audit_def pydict.wf_put
        split: option.splits)
qed

lemma access_inv: "db_inv c db \<Longrightarrow> dict_wf t \<Longrightarrow> db_inv c (db\<lparr> db_access := t \<rparr>)"
  by (simp add: db_inv_def keys_ok_def blobs_ok_def heads_ok_def)

section \<open>The operations on a sound database\<close>

lemma inv_fk: "db_inv c db \<Longrightarrow> fk_ok db"
  by (simp add: db_inv_def)

lemma ensure_session_ok: "db_inv c db \<Longrightarrow> ensure_session sid ts db = Inr (put_session sid ts db)"
  by (simp add: ensure_session_def exec_ok inv_fk [OF put_session_inv])

lemma put_session_simps [simp]:
  "db_blobs (put_session sid ts db) = db_blobs db" "db_versions (put_session sid ts db) = db_versions db"
  "db_heads (put_session sid ts db) = db_heads db" "db_records (put_session sid ts db) = db_records db"
  "db_audit (put_session sid ts db) = db_audit db" "db_access (put_session sid ts db) = db_access db"
  "set (dict_keys (db_sessions (put_session sid ts db))) = insert sid (set (dict_keys (db_sessions db)))"
  by (simp_all add: put_session_def pydict.set_keys_put)

lemma store_blob_ok:
  "db_inv c db \<Longrightarrow> store_blob c p m t db = Inr (content_id_of c p, put_blob (content_id_of c p) p m t db)"
  by (simp add: store_blob_def exec_ok inv_fk [OF put_blob_inv] Let_def)

lemma unique_version:
  assumes "db_inv c db" "v \<in> set (db_versions db)"
  shows "find (\<lambda>u. di_version_id u = di_version_id v) (db_versions db) = Some v"
proof -
  obtain u where u: "find (\<lambda>u. di_version_id u = di_version_id v) (db_versions db) = Some u"
    using assms(2) find_None_props [of "\<lambda>u. di_version_id u = di_version_id v" "db_versions db"] by fastforce
  then have "u \<in> set (db_versions db)" "di_version_id u = di_version_id v" by (auto dest: find_Some_props)
  then show ?thesis using u assms by (auto simp: db_inv_def keys_ok_def distinct_map inj_on_def)
qed

lemma current_cases:
  assumes "db_inv c db"
  shows "dict_get (db_heads db) (sid, nm) = None \<and> current_design_identity sid nm db = None
    \<or> (\<exists>v u. dict_get (db_heads db) (sid, nm) = Some (di_version_id v, u) \<and> v \<in> set (db_versions db)
         \<and> di_session_id v = sid \<and> di_design_name v = nm \<and> current_design_identity sid nm db = Some v)"
proof (cases "dict_get (db_heads db) (sid, nm)")
  case (Some h)
  then obtain vid u where h: "h = (vid, u)" by (cases h)
  then obtain v where "v \<in> set (db_versions db)" "di_version_id v = vid" "di_session_id v = sid" "di_design_name v = nm"
    using assms Some unfolding db_inv_def heads_ok_def h by blast
  then show ?thesis using Some h unique_version [OF assms] by (auto simp: current_design_identity_def)
qed (simp add: current_design_identity_def)

definition new_version :: "codec \<Rightarrow> draws \<Rightarrow> string \<Rightarrow> string \<Rightarrow> design \<Rightarrow> string \<Rightarrow> state_db \<Rightarrow> design_identity" where
  "new_version c draw sid nm d operation db =
     \<lparr> di_session_id = sid, di_design_name = nm, di_content_id = content_id_of c (canonical_design_payload c d),
       di_version_id = ''version-'' @ snd (snd draw),
       di_parent_version_id = map_option di_version_id (current_design_identity sid nm db),
       di_operation = operation, di_created_at = fst draw \<rparr>"

definition with_content :: "codec \<Rightarrow> draws \<Rightarrow> string \<Rightarrow> design \<Rightarrow> state_db \<Rightarrow> state_db" where
  "with_content c draw sid d db =
     put_blob (content_id_of c (canonical_design_payload c d)) (canonical_design_payload c d) design_media_type
       (fst (snd draw)) (put_session sid (fst draw) db)"

lemma with_content_simps [simp]:
  "db_versions (with_content c draw sid d db) = db_versions db" "db_heads (with_content c draw sid d db) = db_heads db"
  "db_records (with_content c draw sid d db) = db_records db"
  "current_design_identity sid' nm (with_content c draw sid d db) = current_design_identity sid' nm db"
  "set (dict_keys (db_sessions (with_content c draw sid d db))) = insert sid (set (dict_keys (db_sessions db)))"
  "set (dict_keys (db_blobs (with_content c draw sid d db)))
     = insert (content_id_of c (canonical_design_payload c d)) (set (dict_keys (db_blobs db)))"
  by (simp_all add: with_content_def current_design_identity_def put_blob_props split: option.splits prod.splits)

lemma with_content_inv: "db_inv c db \<Longrightarrow> db_inv c (with_content c draw sid d db)"
  by (simp add: with_content_def put_blob_inv put_session_inv)

lemma stored_inv:
  fixes sid nm operation :: string and d :: design
  assumes "db_inv c db" "''version-'' @ snd (snd draw) \<notin> di_version_id ` set (db_versions db)"
  defines "v \<equiv> new_version c draw sid nm d operation db"
  shows "db_inv c (put_version v (with_content c draw sid d db))"
    and "db_inv c (put_head sid nm (di_version_id v) (fst draw) (put_version v (with_content c draw sid d db)))"
proof -
  have p: "parent_ok (set (db_versions db)) v"
    using current_cases [OF assms(1), of sid nm] by (auto simp: v_def new_version_def parent_ok_def)
  show i: "db_inv c (put_version v (with_content c draw sid d db))"
    using assms(2) p by (intro put_version_inv with_content_inv assms(1)) (simp_all add: v_def new_version_def)
  show "db_inv c (put_head sid nm (di_version_id v) (fst draw) (put_version v (with_content c draw sid d db)))"
    by (rule put_head_inv [OF i]) (auto simp: put_version_def v_def new_version_def)
qed

lemma store_design_eq:
  assumes "db_inv c db"
  shows "store_design_with_connection c draw sid nm d operation dup db =
    (let v = new_version c draw sid nm d operation db; db' = with_content c draw sid d db in
     case current_design_identity sid nm db of
       Some u \<Rightarrow> if di_content_id u = di_content_id v \<and> \<not> dup then Inr (u, db')
                 else if di_version_id v \<in> di_version_id ` set (db_versions db)
                 then Inl (IntegrityError ''UNIQUE constraint failed: design_versions.version_id'')
                 else Inr (v, put_head sid nm (di_version_id v) (fst draw) (put_version v db'))
     | None \<Rightarrow> if di_version_id v \<in> di_version_id ` set (db_versions db)
               then Inl (IntegrityError ''UNIQUE constraint failed: design_versions.version_id'')
               else Inr (v, put_head sid nm (di_version_id v) (fst draw) (put_version v db')))"
proof -
  obtain ts tb uuid where draw: "draw = (ts, tb, uuid)" by (cases draw)
  let ?p = "canonical_design_payload c d"
  have c1: "ensure_session sid ts db = Inr (put_session sid ts db)" by (rule ensure_session_ok [OF assms])
  have c2: "store_blob c ?p design_media_type tb (put_session sid ts db)
      = Inr (content_id_of c ?p, with_content c draw sid d db)"
    by (simp add: store_blob_ok [OF put_session_inv [OF assms]] with_content_def draw)
  define vid where "vid = ''version-'' @ uuid"
  have c3: "insert_version (new_version c draw sid nm d operation db) (with_content c draw sid d db)
      = Inr (put_version (new_version c draw sid nm d operation db) (with_content c draw sid d db))"
    if "vid \<notin> di_version_id ` set (db_versions db)"
    using that stored_inv(1) [OF assms, of draw sid nm d operation]
    by (simp add: insert_version_def exec_ok inv_fk new_version_def vid_def draw)
  have c4: "exec (put_head sid nm (vid) ts)
        (put_version (new_version c draw sid nm d operation db) (with_content c draw sid d db))
      = Inr (put_head sid nm (vid) ts
          (put_version (new_version c draw sid nm d operation db) (with_content c draw sid d db)))"
    if "vid \<notin> di_version_id ` set (db_versions db)"
    using that stored_inv(2) [OF assms, of draw sid nm d operation]
    by (simp add: vid_def exec_ok inv_fk new_version_def vid_def draw)
  have c5: "insert_version (new_version c draw sid nm d operation db) (with_content c draw sid d db)
      = Inl (IntegrityError ''UNIQUE constraint failed: design_versions.version_id'')"
    if "vid \<in> di_version_id ` set (db_versions db)"
    using that by (simp add: insert_version_def new_version_def vid_def draw)
  have v: "\<lparr> di_session_id = sid, di_design_name = nm, di_content_id = content_id_of c ?p,
      di_version_id = ''version-'' @ uuid, di_parent_version_id = map_option di_version_id (current_design_identity sid nm db),
      di_operation = operation, di_created_at = ts \<rparr> = new_version c draw sid nm d operation db"
    by (simp add: new_version_def draw)
  have v': "di_version_id (new_version c draw sid nm d operation db) = vid"
    "di_content_id (new_version c draw sid nm d operation db) = content_id_of c ?p"
    by (simp_all add: new_version_def vid_def draw)
  show ?thesis
    unfolding store_design_with_connection_def draw prod.case c1 rbind.simps c2 [unfolded draw]
      with_content_simps Let_def v [unfolded draw]
    by (auto simp: c3 [unfolded draw] c4 [unfolded draw] c5 [unfolded draw] v' [unfolded draw] split: option.splits)
qed

lemma store_design_inv:
  assumes "db_inv c db" "store_design_with_connection c draw sid nm d operation dup db = Inr (v, db')"
  shows "db_inv c db'"
  using assms stored_inv(2) [OF assms(1), of draw sid nm d operation] with_content_inv [OF assms(1), of draw sid d]
  by (auto simp: store_design_eq Let_def new_version_def split: option.splits if_splits)

lemma store_all_inv:
  "db_inv c db \<Longrightarrow> store_all c draw sid designs operation names ids db = Inr (ids', db') \<Longrightarrow> db_inv c db'"
  by (induction names arbitrary: ids db)
     (auto simp: rbind_eq_Inr split: option.splits prod.splits dest: store_design_inv)

lemma delete_heads_except_inv: "db_inv c db \<Longrightarrow> db_inv c (delete_heads_except sid names db)"
  unfolding delete_heads_except_def by (rule filter_rows_inv(1))

lemma replace_session_designs_inv:
  assumes "db_inv c db" "replace_session_designs c ts draw sid designs operation db = Inr (ids, db')"
  shows "db_inv c db'"
proof -
  have i: "db_inv c (delete_heads_except sid (sort (dict_keys designs)) (put_session sid ts db))"
    by (intro delete_heads_except_inv put_session_inv assms(1))
  then show ?thesis
    using assms by (auto simp: replace_session_designs_def Let_def ensure_session_ok exec_ok inv_fk intro: store_all_inv)
qed

lemma upsert_record_inv:
  assumes "db_inv c db" "sr_session_id r \<in> set (dict_keys (db_sessions db))"
    and "upsert_record_with_connection c r ts db = Inr (r', db')"
  shows "db_inv c db'"
proof -
  let ?key = "(sr_session_id r, sr_record_type r, sr_record_id r)"
  obtain row where row: "db' = put_record ?key row db" "fk_ok (put_record ?key row db)"
    using assms(3) unfolding upsert_record_with_connection_def Let_def rbind_eq_Inr exec_eq_Inr by blast
  have "(?key, row) \<in> set (db_records (put_record ?key row db))"
    by (simp add: put_record_def dict_get_mem)
  then have "\<forall>cid. row_content_id row = Some cid \<longrightarrow> cid \<in> set (dict_keys (db_blobs db))"
    using row(2) unfolding fk_ok_iff by (fastforce simp: put_record_def)
  then show ?thesis unfolding row(1) by (intro put_record_inv assms(1)) (simp_all add: assms(2))
qed

section \<open>Deleting a session\<close>

lemma delete_versions_inv:
  assumes "db_inv c db" "\<forall>nm vid u. ((sid, nm), vid, u) \<notin> set (db_heads db)"
  shows "db_inv c (delete_versions_of sid db)"
proof -
  let ?vs = "filter (\<lambda>v. di_session_id v \<noteq> sid) (db_versions db)"
  have lin: "lineage_ok {} ?vs"
    using assms(1) lineage_ok_filter [of "{}" "db_versions db" sid] by (simp add: db_inv_def)
  have par: "\<exists>u\<in>S \<union> set vs. di_version_id u = p"
    if "lineage_ok S vs" "v \<in> set vs" "di_parent_version_id v = Some p" for S vs v p
    using that
  proof (induction vs arbitrary: S)
    case (Cons a vs)
    show ?case
    proof (cases "v = a")
      case True
      then show ?thesis using Cons.prems by (auto simp: parent_ok_def)
    next
      case False
      then show ?thesis using Cons.IH [of "insert a S"] Cons.prems by auto
    qed
  qed simp
  have hd: "\<exists>v\<in>set ?vs. di_version_id v = vid \<and> di_session_id v = s \<and> di_design_name v = nm"
    if "((s, nm), vid, u) \<in> set (db_heads db)" for s nm vid u
  proof -
    have "dict_get (db_heads db) (s, nm) = Some (vid, u)"
      using that assms(1) by (auto simp: db_inv_def keys_ok_def intro: dict_get_of_mem)
    then have "\<exists>v\<in>set (db_versions db). di_version_id v = vid \<and> di_session_id v = s \<and> di_design_name v = nm"
      using assms(1) unfolding db_inv_def heads_ok_def by blast
    moreover have "s \<noteq> sid" using assms(2) that by auto
    ultimately show ?thesis by auto
  qed
  have "fk_ok (delete_versions_of sid db)"
  proof (rule fk_okI)
    show "\<exists>u\<in>set (db_versions (delete_versions_of sid db)). di_version_id u = p"
      if "v \<in> set (db_versions (delete_versions_of sid db))" "di_parent_version_id v = Some p" for v p
      using par [OF lin, of v p] that by (simp add: delete_versions_of_def)
    show "\<exists>v\<in>set (db_versions (delete_versions_of sid db)). di_version_id v = vid"
      if "((s, nm), vid, u) \<in> set (db_heads (delete_versions_of sid db))" for s nm vid u
      using hd [of s nm vid u] that by (auto simp: delete_versions_of_def)
  qed (auto simp: delete_versions_of_def dest: fk_okD(1-3,5-7) [OF inv_fk [OF assms(1)]])
  moreover have "heads_ok (delete_versions_of sid db)"
    using hd unfolding heads_ok_def delete_versions_of_def by (fastforce dest: dict_get_mem)
  ultimately show ?thesis
    using assms(1) lin by (simp add: db_inv_def keys_ok_def blobs_ok_def delete_versions_of_def distinct_map_filter)
qed

lemma collect_blobs_inv:
  assumes "db_inv c db"
  shows "db_inv c (collect_blobs db)"
proof -
  have "set (dict_keys (db_blobs (collect_blobs db))) = {cid \<in> set (dict_keys (db_blobs db)). cid \<in> set (referenced db)}"
    by (force simp: collect_blobs_def dict_keys_def)
  moreover have "di_content_id v \<in> set (referenced db)" if "v \<in> set (db_versions db)" for v
    using that by (simp add: referenced_def)
  moreover have "cid \<in> set (referenced db)" if "(k, r) \<in> set (db_records db)" "row_content_id r = Some cid" for k r cid
    using that by (force simp: referenced_def)
  ultimately have "fk_ok (collect_blobs db)"
    by (intro fk_okI) (auto simp: collect_blobs_def dest: fk_okD(1-3,5-7) [OF inv_fk [OF assms]] intro: fk_okD(4,8) [OF inv_fk [OF assms]])
  then show ?thesis
    using assms unfolding db_inv_def keys_ok_def blobs_ok_def heads_ok_def
    by (auto simp: collect_blobs_def dict_wf_filter dict_get_filter split: option.splits if_splits)
qed

text \<open>What is left of a session after its rows are deleted, before the collection of blobs.\<close>

definition without_session :: "string \<Rightarrow> state_db \<Rightarrow> state_db" where
  "without_session sid db =
     delete_versions_of sid (delete_audit_of sid (delete_records_of sid (delete_heads_of sid db)))"

lemma without_session_simps [simp]:
  "db_sessions (without_session sid db) = db_sessions db" "db_blobs (without_session sid db) = db_blobs db"
  "db_access (without_session sid db) = db_access db"
  "db_heads (without_session sid db) = filter (\<lambda>((s, _), _). s \<noteq> sid) (db_heads db)"
  "db_records (without_session sid db) = filter (\<lambda>((s, _), _). s \<noteq> sid) (db_records db)"
  "db_audit (without_session sid db) = filter (\<lambda>(_, a). au_session_id a \<noteq> sid) (db_audit db)"
  "db_versions (without_session sid db) = filter (\<lambda>v. di_session_id v \<noteq> sid) (db_versions db)"
  by (simp_all add: without_session_def delete_versions_of_def delete_audit_of_def delete_records_of_def delete_heads_of_def)

lemma delete_session_row_without:
  "delete_session_row sid (without_session sid db) = (without_session sid db)\<lparr> db_sessions := dict_pop sid (db_sessions db) \<rparr>"
  by (rule state_db.equality)
     (simp_all add: delete_session_row_def delete_versions_of_def delete_audit_of_def delete_records_of_def
        delete_heads_of_def conj_absorb cong: conj_cong)

lemma drop_session_inv:
  assumes "db_inv c (without_session sid db)"
  shows "db_inv c ((without_session sid db)\<lparr> db_sessions := dict_pop sid (db_sessions db) \<rparr>)"
proof -
  have "set (dict_keys (dict_pop sid (db_sessions db))) = set (dict_keys (db_sessions db)) - {sid}"
    by (rule pydict.set_keys_pop)
  note keys = this
  note fk = fk_okD [OF inv_fk [OF assms]]
  have "fk_ok ((without_session sid db)\<lparr> db_sessions := dict_pop sid (db_sessions db) \<rparr>)"
  proof (rule fk_okI, goal_cases)
    case (1 v) then show ?case using fk(1) [of v] keys by simp
  next
    case (2 v) then show ?case using fk(2) [of v] by simp
  next
    case (3 v p) then show ?case using fk(8) [of v p] by simp
  next
    case (4 s nm vid u) then show ?case using fk(3) [of s nm vid u] keys by simp
  next
    case (5 s nm vid u) then show ?case using fk(4) [of s nm vid u] by simp
  next
    case (6 s t i r) then show ?case using fk(5) [of s t i r] keys by simp
  next
    case (7 s t i r cid) then show ?case using fk(6) [of s t i r cid] by simp
  next
    case (8 e a) then show ?case using fk(7) [of e a] keys by simp
  qed
  then show ?thesis
    using assms by (simp add: db_inv_def keys_ok_def blobs_ok_def heads_ok_def pydict.wf_pop)
qed

lemma delete_session_eq:
  assumes "db_inv c db"
  shows "delete_session sid db = Inr (session_exists sid db,
      collect_blobs ((without_session sid db)\<lparr> db_sessions := dict_pop sid (db_sessions db) \<rparr>))"
    and "db_inv c (collect_blobs ((without_session sid db)\<lparr> db_sessions := dict_pop sid (db_sessions db) \<rparr>))"
proof -
  have i1: "db_inv c (delete_heads_of sid db)"
    unfolding delete_heads_of_def by (rule filter_rows_inv(1) [OF assms])
  have i2: "db_inv c (delete_records_of sid (delete_heads_of sid db))"
    unfolding delete_records_of_def by (rule filter_rows_inv(2) [OF i1])
  have i3: "db_inv c (delete_audit_of sid (delete_records_of sid (delete_heads_of sid db)))"
    unfolding delete_audit_of_def by (rule filter_rows_inv(3) [OF i2])
  have i4: "db_inv c (without_session sid db)"
    unfolding without_session_def
    by (rule delete_versions_inv [OF i3]) (simp add: delete_audit_of_def delete_records_of_def delete_heads_of_def)
  note i5 = drop_session_inv [OF i4]
  show i6: "db_inv c (collect_blobs ((without_session sid db)\<lparr> db_sessions := dict_pop sid (db_sessions db) \<rparr>))"
    by (rule collect_blobs_inv [OF i5])
  have x: "exec (delete_heads_of sid) db = Inr (delete_heads_of sid db)"
    "exec (delete_records_of sid) (delete_heads_of sid db) = Inr (delete_records_of sid (delete_heads_of sid db))"
    "exec (delete_audit_of sid) (delete_records_of sid (delete_heads_of sid db))
      = Inr (delete_audit_of sid (delete_records_of sid (delete_heads_of sid db)))"
    "exec (delete_versions_of sid) (delete_audit_of sid (delete_records_of sid (delete_heads_of sid db)))
      = Inr (without_session sid db)"
    using inv_fk [OF i1] inv_fk [OF i2] inv_fk [OF i3] inv_fk [OF i4] by (simp_all add: exec_ok without_session_def)
  show "delete_session sid db = Inr (session_exists sid db,
      collect_blobs ((without_session sid db)\<lparr> db_sessions := dict_pop sid (db_sessions db) \<rparr>))"
    using inv_fk [OF i5] inv_fk [OF i6]
    by (simp add: delete_session_def x exec_ok delete_session_row_without)
qed

lemma dict_get_Cons: "dict_get ((k', d) # ds) k = (if k = k' then Some d else dict_get ds k)"
  by (simp add: dict_get_def)

lemma option_list_filter:
  "(\<And>x. x \<in> set xs \<Longrightarrow> \<not> P x \<Longrightarrow> g x = None) \<Longrightarrow> (\<And>x. x \<in> set xs \<Longrightarrow> P x \<Longrightarrow> f x = g x)
   \<Longrightarrow> option_list (map f (filter P xs)) = option_list (map g xs)"
  by (induction xs) (auto simp: option_list_def)

lemma filter_filter_absorb: "(\<And>x. x \<in> set xs \<Longrightarrow> P x \<Longrightarrow> Q x) \<Longrightarrow> filter P (filter Q xs) = filter P xs"
  by (induction xs) auto

text \<open>The database after \<^verbatim>\<open>delete_session\<close>.\<close>

definition session_deleted :: "string \<Rightarrow> state_db \<Rightarrow> state_db" where
  "session_deleted sid db =
     collect_blobs ((without_session sid db)\<lparr> db_sessions := dict_pop sid (db_sessions db) \<rparr>)"

lemma session_deleted_simps [simp]:
  "db_sessions (session_deleted sid db) = dict_pop sid (db_sessions db)"
  "db_access (session_deleted sid db) = db_access db"
  "db_heads (session_deleted sid db) = filter (\<lambda>((s, _), _). s \<noteq> sid) (db_heads db)"
  "db_records (session_deleted sid db) = filter (\<lambda>((s, _), _). s \<noteq> sid) (db_records db)"
  "db_audit (session_deleted sid db) = filter (\<lambda>(_, a). au_session_id a \<noteq> sid) (db_audit db)"
  "db_versions (session_deleted sid db) = filter (\<lambda>v. di_session_id v \<noteq> sid) (db_versions db)"
  by (simp_all add: session_deleted_def collect_blobs_def)

lemma session_deleted_blobs:
  assumes "db_inv c db"
  shows "set (dict_keys (db_blobs (session_deleted sid db))) = set (referenced (session_deleted sid db))"
    and "cid \<in> set (referenced (session_deleted sid db)) \<Longrightarrow>
      dict_get (db_blobs (session_deleted sid db)) cid = dict_get (db_blobs db) cid"
proof -
  have r: "referenced (session_deleted sid db) = referenced ((without_session sid db)\<lparr> db_sessions := dict_pop sid (db_sessions db) \<rparr>)"
    by (simp add: referenced_def)
  have b: "db_blobs (session_deleted sid db) = filter (\<lambda>(k, _). k \<in> set (referenced (session_deleted sid db))) (db_blobs db)"
    unfolding r by (simp add: session_deleted_def collect_blobs_def)
  have i: "db_inv c (session_deleted sid db)"
    using delete_session_eq(2) [OF assms] by (simp add: session_deleted_def)
  note fk = fk_okD(2,6) [OF inv_fk [OF i]]
  have "cid \<in> set (dict_keys (db_blobs (session_deleted sid db)))" if "cid \<in> set (referenced (session_deleted sid db))" for cid
    using that fk unfolding referenced_def by fastforce
  moreover have "set (dict_keys (db_blobs (session_deleted sid db))) \<subseteq> set (referenced (session_deleted sid db))"
    unfolding b by (auto simp: dict_keys_def)
  ultimately show "set (dict_keys (db_blobs (session_deleted sid db))) = set (referenced (session_deleted sid db))"
    by blast
  show "dict_get (db_blobs (session_deleted sid db)) cid = dict_get (db_blobs db) cid"
    if "cid \<in> set (referenced (session_deleted sid db))"
    using that assms unfolding b by (simp add: dict_get_filter db_inv_def keys_ok_def split: option.splits)
qed

lemma head_rows_deleted:
  assumes "db_inv c db" "sid' \<noteq> sid"
  shows "head_rows sid' (session_deleted sid db) = head_rows sid' db"
proof -
  have i: "db_inv c (session_deleted sid db)"
    using delete_session_eq(2) [OF assms(1)] by (simp add: session_deleted_def)
  have "head_row sid' (session_deleted sid db) ((s, nm), vid, u) = head_row sid' db ((s, nm), vid, u)"
    if "((s, nm), vid, u) \<in> set (db_heads db)" "s \<noteq> sid" for s nm vid u
  proof (cases "s = sid'")
    case True
    have "dict_get (db_heads db) (s, nm) = Some (vid, u)"
      using that(1) assms(1) by (auto simp: db_inv_def keys_ok_def intro: dict_get_of_mem)
    then obtain v where v: "v \<in> set (db_versions db)" "di_version_id v = vid" "di_session_id v = s"
      using assms(1) unfolding db_inv_def heads_ok_def by blast
    then have v': "v \<in> set (db_versions (session_deleted sid db))" using that(2) by simp
    then have "di_content_id v \<in> set (referenced (session_deleted sid db))" by (simp add: referenced_def)
    then show ?thesis
      using unique_version [OF assms(1) v(1)] unique_version [OF i v'] session_deleted_blobs(2) [OF assms(1)]
      by (simp add: v(2) True)
  qed simp
  moreover have "head_row sid' db ((sid, nm), vid, u) = None" for nm vid u
    using assms(2) by simp
  ultimately show ?thesis
    unfolding head_rows_def session_deleted_simps
    by (intro arg_cong [where f = "sort_key fst"] option_list_filter) (auto simp del: head_row.simps)
qed

lemma session_deleted_others:
  assumes "db_inv c db" "sid' \<noteq> sid"
  shows "load_designs c sid' (session_deleted sid db) = load_designs c sid' db"
    and "list_session_records c sid' ty active (session_deleted sid db) = list_session_records c sid' ty active db"
    and "list_design_versions sid' nm (session_deleted sid db) = list_design_versions sid' nm db"
    and "load_audit_events c sid' limit (session_deleted sid db) = load_audit_events c sid' limit db"
proof -
  show "load_designs c sid' (session_deleted sid db) = load_designs c sid' db"
    by (simp add: load_designs_def head_rows_deleted [OF assms])
  have "filter (\<lambda>((s, t, i), r). s = sid' \<and> A t r) (filter (\<lambda>((s, _), _). s \<noteq> sid) (db_records db))
      = filter (\<lambda>((s, t, i), r). s = sid' \<and> A t r) (db_records db)" for A
    by (rule filter_filter_absorb) (use assms(2) in auto)
  then show "list_session_records c sid' ty active (session_deleted sid db) = list_session_records c sid' ty active db"
    by (simp add: list_session_records_def)
  show "list_design_versions sid' nm (session_deleted sid db) = list_design_versions sid' nm db"
    unfolding list_design_versions_def session_deleted_simps
    by (rule filter_filter_absorb) (use assms(2) in auto)
  have "filter (\<lambda>a. au_session_id a = sid') (map snd (filter (\<lambda>(_, a). au_session_id a \<noteq> sid) xs))
      = filter (\<lambda>a. au_session_id a = sid') (map snd xs)" for xs :: "(string \<times> audit_row) list"
    using assms(2) by (induction xs) auto
  then show "load_audit_events c sid' limit (session_deleted sid db) = load_audit_events c sid' limit db"
    by (simp add: load_audit_events_def dict_values_def)
qed

lemma session_deleted_own:
  shows "load_designs c sid (session_deleted sid db) = Inr []"
    and "list_session_records c sid ty active (session_deleted sid db) = Inr []"
    and "list_design_versions sid nm (session_deleted sid db) = []"
    and "load_audit_events c sid limit (session_deleted sid db) = Inr []"
proof -
  have "option_list (map (head_row sid db') (filter (\<lambda>((s, _), _). s \<noteq> sid) hs)) = []" for db' hs
    by (induction hs) auto
  then show "load_designs c sid (session_deleted sid db) = Inr []"
    by (simp add: load_designs_def head_rows_def)
  have "filter (\<lambda>((s, t, i), r). s = sid \<and> A t r) (filter (\<lambda>((s, _), _). s \<noteq> sid) (db_records db)) = []" for A
    by (auto simp: filter_empty_conv)
  then show "list_session_records c sid ty active (session_deleted sid db) = Inr []"
    by (simp add: list_session_records_def)
  show "list_design_versions sid nm (session_deleted sid db) = []"
    by (simp add: list_design_versions_def filter_empty_conv)
  have "filter (\<lambda>a. au_session_id a = sid) (map snd (filter (\<lambda>(_, a). au_session_id a \<noteq> sid) (db_audit db))) = []"
    by (auto simp: filter_empty_conv)
  then show "load_audit_events c sid limit (session_deleted sid db) = Inr []"
    by (simp add: load_audit_events_def dict_values_def split: option.splits)
qed

section \<open>Reachable databases\<close>

inductive db_step :: "codec \<Rightarrow> state_db \<Rightarrow> state_db \<Rightarrow> bool" for c where
  step_store: "store_design c draw sid nm d operation dup db = Inr (v, db') \<Longrightarrow> db_step c db db'"
| step_content: "store_design_content c d now db = Inr (cid, db') \<Longrightarrow> db_step c db db'"
| step_replace: "replace_session_designs c ts rdraw sid designs operation db = Inr (ids, db') \<Longrightarrow> db_step c db db'"
| step_delete: "delete_session sid db = Inr (b, db') \<Longrightarrow> db_step c db db'"
| step_record: "upsert_session_record c ts sid ty rid m nm cid active protected db = Inr (r, db') \<Longrightarrow> db_step c db db'"
| step_design_record: "upsert_design_record c ts tb sid ty rid d m nm active protected db = Inr (r, db') \<Longrightarrow> db_step c db db'"
| step_delete_record: "delete_session_record sid ty rid db = Inr (b, db') \<Longrightarrow> db_step c db db'"
| step_delete_records: "delete_session_records sid ty nm db = Inr (n, db') \<Longrightarrow> db_step c db db'"
| step_audit: "append_audit_event c now ev db = Inr db' \<Longrightarrow> db_step c db db'"
| step_access: "upsert_object_access c ts ap db = Inr db' \<Longrightarrow> db_step c db db'"
| step_delete_access: "delete_object_access oty oid cascade db = Inr (n, db') \<Longrightarrow> db_step c db db'"

lemma delete_pending_wf: "dict_wf tbl \<Longrightarrow> dict_wf (snd (delete_pending cascade pending tbl n))"
  by (induction cascade pending tbl n rule: delete_pending.induct) (simp_all add: pydict.wf_pop)

lemma db_step_inv:
  assumes "db_step c db db'" "db_inv c db"
  shows "db_inv c db'"
  using assms
proof cases
  case step_store
  then show ?thesis using assms(2) by (auto simp: store_design_def intro: store_design_inv)
next
  case step_content
  then show ?thesis using assms(2) by (auto simp: store_design_content_def store_blob_ok intro: put_blob_inv)
next
  case step_replace
  then show ?thesis using assms(2) by (rule replace_session_designs_inv [rotated])
next
  case step_delete
  then show ?thesis using delete_session_eq [OF assms(2)] by auto
next
  case (step_record ts sid ty rid m nm cid active protected r)
  then have "upsert_record_with_connection c (new_record sid ty rid nm cid m active protected) ts (put_session sid ts db)
      = Inr (r, db')"
    using assms(2) by (simp add: upsert_session_record_def ensure_session_ok)
  then show ?thesis
    by (rule upsert_record_inv [OF put_session_inv [OF assms(2)], rotated]) (simp add: new_record_def)
next
  case (step_design_record ts tb sid ty rid d m nm active protected r)
  let ?db = "put_blob (content_id_of c (canonical_design_payload c d)) (canonical_design_payload c d) design_media_type tb
    (put_session sid ts db)"
  have "db_inv c ?db" by (intro put_blob_inv put_session_inv assms(2))
  moreover have "upsert_record_with_connection c (new_record sid ty rid nm
      (Some (content_id_of c (canonical_design_payload c d))) m active protected) ts ?db = Inr (r, db')"
    using step_design_record assms(2)
    by (simp add: upsert_design_record_def ensure_session_ok store_blob_ok put_session_inv)
  ultimately show ?thesis
    by (elim upsert_record_inv [rotated -1]) (simp_all add: new_record_def)
next
  case step_delete_record
  then show ?thesis
    using filter_rows_inv(2) [OF assms(2)]
    by (auto simp: delete_session_record_def rbind_eq_Inr exec_eq_Inr delete_records_where_def)
next
  case step_delete_records
  then show ?thesis
    using filter_rows_inv(2) [OF assms(2)]
    by (auto simp: delete_session_records_def Let_def rbind_eq_Inr exec_eq_Inr delete_records_where_def)
next
  case step_audit
  then show ?thesis
    using assms(2) by (auto simp: append_audit_event_def Let_def ensure_session_ok exec_eq_Inr
        intro!: put_audit_inv put_session_inv split: if_splits)
next
  case step_access
  then show ?thesis
    using assms(2) by (auto simp: upsert_object_access_def exec_eq_Inr put_access_def db_inv_def keys_ok_def
        blobs_ok_def heads_ok_def pydict.wf_put)
next
  case (step_delete_access oty oid cascade n)
  then show ?thesis
    using assms(2) delete_pending_wf [of "db_access db" cascade "[(lower (strip oty), strip oid)]" 0]
    by (auto simp: delete_object_access_def rbind_eq_Inr exec_eq_Inr split: prod.splits
        intro!: access_inv) (simp_all add: db_inv_def keys_ok_def)
qed

lemma empty_db_inv: "db_inv c empty_db"
  by (simp add: db_inv_def fk_ok_def keys_ok_def blobs_ok_def heads_ok_def empty_db_def)

section \<open>The repository of designs\<close>

text \<open>
  What a session relies on: storing a design changes what is loaded back at its name
  only, replacing makes the given designs the loaded ones. The lemmas of the locale are
  the coherence of a mapping kept in memory over it.
\<close>

locale design_repository =
  fixes ok :: "'s \<Rightarrow> bool"
    and good :: "'d \<Rightarrow> bool"
    and load :: "'s \<Rightarrow> string \<Rightarrow> 'd option"
    and store :: "'x \<Rightarrow> string \<Rightarrow> 'd \<Rightarrow> 's \<Rightarrow> 's option"
    and replace :: "'y \<Rightarrow> (string, 'd) dict \<Rightarrow> 's \<Rightarrow> 's option"
  assumes store_ok: "ok s \<Longrightarrow> good d \<Longrightarrow> store x n d s = Some s' \<Longrightarrow> ok s'"
    and load_store: "ok s \<Longrightarrow> good d \<Longrightarrow> store x n d s = Some s' \<Longrightarrow> load s' = (load s)(n \<mapsto> d)"
    and replace_ok: "ok s \<Longrightarrow> dict_wf ds \<Longrightarrow> list_all good (dict_values ds) \<Longrightarrow> replace y ds s = Some s' \<Longrightarrow> ok s'"
    and load_replace:
      "ok s \<Longrightarrow> dict_wf ds \<Longrightarrow> list_all good (dict_values ds) \<Longrightarrow> replace y ds s = Some s' \<Longrightarrow> load s' = dict_get ds"
begin

lemma coherent_store:
  assumes "ok s" "good d" "store x n d s = Some s'" "load s = dict_get m"
  shows "ok s' \<and> load s' = dict_get (dict_set n d m)"
  using store_ok [OF assms(1-3)] load_store [OF assms(1-3)] assms(4) by (auto simp: pydict.get_put)

lemma coherent_persist:
  assumes "ok s" "good d" "store x n d s = Some s'" "load s = dict_get m" "dict_get m n = Some d"
  shows "ok s' \<and> load s' = dict_get m"
  using store_ok [OF assms(1-3)] load_store [OF assms(1-3)] assms(4,5) by (auto simp: fun_eq_iff)

lemma coherent_replace:
  assumes "ok s" "dict_wf ds" "list_all good (dict_values ds)" "replace y ds s = Some s'"
  shows "ok s' \<and> load s' = dict_get (fold (\<lambda>(k, d). dict_set k d) ds [])"
proof -
  have "dict_get (fold (\<lambda>(k, d). dict_set k d) ds e) k = (case dict_get ds k of None \<Rightarrow> dict_get e k | Some d \<Rightarrow> Some d)"
    if "dict_wf ds" for ds :: "(string, 'd) dict" and e k
    using that
  proof (induction ds arbitrary: e)
    case (Cons x ds)
    obtain k' d where x: "x = (k', d)" by (cases x)
    have "dict_get ds k' = None" "dict_wf ds"
      using Cons.prems by (simp_all add: x dict_wf_def dict_get_def map_of_eq_None_iff)
    then show ?case using Cons.IH [of "dict_set k' d e"]
      by (auto simp: x pydict.get_put dict_get_Cons split: option.splits)
  qed simp
  then have "dict_get (fold (\<lambda>(k, d). dict_set k d) ds []) = dict_get ds"
    using assms(2) by (auto simp: fun_eq_iff split: option.splits)
  then show ?thesis using replace_ok [OF assms] load_replace [OF assms] by simp
qed

end

text \<open>
  The assumptions on the codec, for the set \<open>D\<close> of designs in play: a dumped design
  validates to itself, and no two of their payloads have the same hash.
\<close>

definition codec_ok :: "codec \<Rightarrow> design set \<Rightarrow> bool" where
  "codec_ok c D = ((\<forall>d\<in>D. c_model_validate_json c (canonical_design_payload c d) = Inr d)
     \<and> inj_on (c_sha256 c) (canonical_design_payload c ` D))"

definition db_ok :: "codec \<Rightarrow> design set \<Rightarrow> state_db \<Rightarrow> bool" where
  "db_ok c D db = (codec_ok c D \<and> db_inv c db
     \<and> (\<forall>cid b. dict_get (db_blobs db) cid = Some b \<longrightarrow> blob_payload b \<in> canonical_design_payload c ` D))"

definition design_at :: "codec \<Rightarrow> string \<Rightarrow> state_db \<Rightarrow> string \<Rightarrow> design option" where
  "design_at c sid db nm =
     (case current_design_identity sid nm db of
        None \<Rightarrow> None
      | Some v \<Rightarrow> (case dict_get (db_blobs db) (di_content_id v) of
                    None \<Rightarrow> None
                  | Some b \<Rightarrow> (case c_model_validate_json c (blob_payload b) of Inl _ \<Rightarrow> None | Inr d \<Rightarrow> Some d)))"

lemma set_head_rows:
  assumes "db_inv c db"
  shows "(nm, p) \<in> set (head_rows sid db) \<longleftrightarrow>
    (\<exists>v b. current_design_identity sid nm db = Some v \<and> dict_get (db_blobs db) (di_content_id v) = Some b \<and> blob_payload b = p)"
proof -
  have "(nm, p) \<in> set (head_rows sid db) \<longleftrightarrow> (\<exists>vid u. ((sid, nm), vid, u) \<in> set (db_heads db)
      \<and> head_row sid db ((sid, nm), vid, u) = Some (nm, p))"
  proof
    assume "(nm, p) \<in> set (head_rows sid db)"
    then obtain h where h: "h \<in> set (db_heads db)" "head_row sid db h = Some (nm, p)"
      by (auto simp: head_rows_def image_iff simp del: head_row.simps)
    moreover obtain s n vid u where "h = ((s, n), vid, u)" by (metis prod.exhaust)
    moreover have "s = sid" "n = nm" using h(2) \<open>h = _\<close> by (auto split: if_splits option.splits)
    ultimately show "\<exists>vid u. ((sid, nm), vid, u) \<in> set (db_heads db) \<and> head_row sid db ((sid, nm), vid, u) = Some (nm, p)"
      by blast
  next
    assume "\<exists>vid u. ((sid, nm), vid, u) \<in> set (db_heads db) \<and> head_row sid db ((sid, nm), vid, u) = Some (nm, p)"
    then have "Some (nm, p) \<in> head_row sid db ` set (db_heads db)" by (metis image_eqI)
    then show "(nm, p) \<in> set (head_rows sid db)" by (simp add: head_rows_def)
  qed
  also have "\<dots> \<longleftrightarrow> (\<exists>vid u. dict_get (db_heads db) (sid, nm) = Some (vid, u)
      \<and> head_row sid db ((sid, nm), vid, u) = Some (nm, p))"
    using assms by (meson db_inv_def keys_ok_def dict_get_mem dict_get_of_mem)
  also have "\<dots> \<longleftrightarrow> (\<exists>v b. current_design_identity sid nm db = Some v \<and> dict_get (db_blobs db) (di_content_id v) = Some b \<and> blob_payload b = p)"
    by (auto simp: current_design_identity_def split: option.splits)
  finally show ?thesis .
qed

lemma load_rows_ok:
  "(\<And>nm p. (nm, p) \<in> set rows \<Longrightarrow> \<exists>d. c_model_validate_json c p = Inr d) \<Longrightarrow>
   load_rows c sid rows ds = Inr (fold (\<lambda>r. dict_set (fst r) (projr (c_model_validate_json c (snd r)))) rows ds)"
proof (induction rows arbitrary: ds)
  case (Cons r rows)
  obtain nm p where r: "r = (nm, p)" by (cases r)
  then obtain d where "c_model_validate_json c p = Inr d" using Cons.prems by fastforce
  moreover have "\<exists>d. c_model_validate_json c p = Inr d" if "(nm, p) \<in> set rows" for nm p
    using Cons.prems [of nm p] that by simp
  ultimately show ?case using Cons.IH by (simp add: r)
qed simp

lemma load_designs_ok:
  assumes "db_ok c D db"
  shows "\<exists>ds. load_designs c sid db = Inr ds \<and> dict_get ds = design_at c sid db"
proof -
  have inv: "db_inv c db" using assms by (simp add: db_ok_def)
  let ?rows = "head_rows sid db"
  let ?ds = "fold (\<lambda>r. dict_set (fst r) (projr (c_model_validate_json c (snd r)))) ?rows []"
  have val: "\<exists>d. c_model_validate_json c p = Inr d" if "(nm, p) \<in> set ?rows" for nm p
    using that assms unfolding set_head_rows [OF inv] by (auto simp: db_ok_def codec_ok_def, metis imageE)
  have "dict_get ?ds nm = design_at c sid db nm" for nm
  proof (cases "find (\<lambda>r. fst r = nm) (rev ?rows)")
    case None
    then have "(nm, p) \<notin> set ?rows" for p unfolding find_None_props by auto
    then have "design_at c sid db nm = None"
      unfolding set_head_rows [OF inv] by (auto simp: design_at_def split: option.splits)
    then show ?thesis using None by (simp add: dict_get_fold_set)
  next
    case (Some r)
    then obtain p where r: "r = (nm, p)" "(nm, p) \<in> set ?rows" by (cases r) (auto dest: find_Some_props)
    then obtain d where d: "c_model_validate_json c p = Inr d" using val by blast
    have "design_at c sid db nm = Some d"
      using r(2) d unfolding set_head_rows [OF inv] by (auto simp: design_at_def)
    then show ?thesis using Some r(1) d by (simp add: dict_get_fold_set)
  qed
  then show ?thesis using load_rows_ok [OF val, of ?rows] by (auto simp: load_designs_def fun_eq_iff)
qed

lemma with_content_ok:
  assumes "db_ok c D db" "d \<in> D"
  shows "db_ok c D (with_content c draw sid d db)"
    and "\<exists>b. dict_get (db_blobs (with_content c draw sid d db)) (content_id_of c (canonical_design_payload c d)) = Some b
      \<and> blob_payload b = canonical_design_payload c d"
    and "dict_get (db_blobs db) k = Some b \<Longrightarrow> dict_get (db_blobs (with_content c draw sid d db)) k = Some b"
proof -
  let ?p = "canonical_design_payload c d"
  have inv: "db_inv c db" using assms by (simp add: db_ok_def)
  show keep: "dict_get (db_blobs db) k = Some b \<Longrightarrow> dict_get (db_blobs (with_content c draw sid d db)) k = Some b" for k b
    by (auto simp: with_content_def get_put_blob)
  show "db_ok c D (with_content c draw sid d db)"
    using assms with_content_inv [OF inv]
    by (auto simp: db_ok_def with_content_def get_put_blob split: if_splits)
  show "\<exists>b. dict_get (db_blobs (with_content c draw sid d db)) (content_id_of c ?p) = Some b \<and> blob_payload b = ?p"
  proof (cases "dict_get (db_blobs db) (content_id_of c ?p)")
    case (Some b)
    then have "content_id_of c ?p = content_id_of c (blob_payload b)" using inv by (auto simp: db_inv_def blobs_ok_def)
    then have "c_sha256 c ?p = c_sha256 c (blob_payload b)" by (simp add: content_id_of_def)
    moreover have "blob_payload b \<in> canonical_design_payload c ` D" using assms(1) Some by (simp add: db_ok_def)
    ultimately have "?p = blob_payload b"
      using assms unfolding db_ok_def codec_ok_def by (meson image_eqI inj_onD)
    then show ?thesis using keep [OF Some] by auto
  qed (simp add: with_content_def get_put_blob)
qed

lemma current_blob:
  assumes "db_inv c db" "current_design_identity sid nm db = Some v"
  shows "\<exists>b. dict_get (db_blobs db) (di_content_id v) = Some b"
proof -
  have "v \<in> set (db_versions db)" using current_cases [OF assms(1), of sid nm] assms(2) by auto
  then show ?thesis using fk_okD(2) [OF inv_fk [OF assms(1)]] by (simp add: pydict.set_keys)
qed

lemma design_at_with_content:
  assumes "db_ok c D db" "d \<in> D"
  shows "design_at c s (with_content c draw sid d db) n = design_at c s db n"
proof (cases "current_design_identity s n db")
  case (Some v)
  then obtain b where "dict_get (db_blobs db) (di_content_id v) = Some b"
    using current_blob [OF _ Some] assms(1) unfolding db_ok_def by blast
  then show ?thesis using Some with_content_ok(3) [OF assms] by (simp add: design_at_def)
qed (simp add: design_at_def)

lemma current_stored:
  assumes "db_inv c db" "di_version_id v \<notin> di_version_id ` set (db_versions db)"
  shows "current_design_identity s n (put_head sid nm (di_version_id v) ts (put_version v db))
    = (if s = sid \<and> n = nm then Some v else current_design_identity s n db)"
proof (cases "s = sid \<and> n = nm")
  case True
  have "find (\<lambda>u. di_version_id u = di_version_id v) (db_versions db) = None"
    using assms(2) unfolding find_None_props by (metis imageI)
  then show ?thesis using True
    by (simp add: current_design_identity_def put_head_def put_version_def pydict.get_put find_append)
next
  case False
  show ?thesis
    using current_cases [OF assms(1), of s n] False
    by (auto simp: current_design_identity_def put_head_def put_version_def pydict.get_put find_append split: option.splits)
qed

lemma store_law:
  assumes "db_ok c D db" "d \<in> D" "store_design_with_connection c draw sid nm d operation dup db = Inr (v, db')"
  shows "db_ok c D db'"
    and "design_at c s db' n = (if s = sid \<and> n = nm then Some d else design_at c s db n)"
proof -
  let ?p = "canonical_design_payload c d" and ?wc = "with_content c draw sid d db"
  have inv: "db_inv c db" using assms(1) by (simp add: db_ok_def)
  have val: "c_model_validate_json c ?p = Inr d" using assms(1,2) by (simp add: db_ok_def codec_ok_def)
  obtain b where b: "dict_get (db_blobs ?wc) (content_id_of c ?p) = Some b" "blob_payload b = ?p"
    using with_content_ok(2) [OF assms(1,2)] by blast
  have blobs: "db_blobs db' = db_blobs ?wc"
    using assms(3) by (auto simp: store_design_eq [OF inv] Let_def put_head_def put_version_def split: option.splits if_splits)
  show "db_ok c D db'"
    using with_content_ok(1) [OF assms(1,2), of draw sid] store_design_inv [OF inv assms(3)] by (simp add: db_ok_def blobs)
  define w where "w = new_version c draw sid nm d operation db"
  have w: "di_content_id w = content_id_of c ?p" by (simp add: w_def new_version_def)
  consider (dup) u where "current_design_identity sid nm db = Some u" "di_content_id u = content_id_of c ?p" "db' = ?wc"
    | (new) "di_version_id w \<notin> di_version_id ` set (db_versions ?wc)"
        "db' = put_head sid nm (di_version_id w) (fst draw) (put_version w ?wc)"
    using assms(3) unfolding store_design_eq [OF inv] Let_def w_def [symmetric]
    by (auto simp: w split: option.splits if_splits)
  then show "design_at c s db' n = (if s = sid \<and> n = nm then Some d else design_at c s db n)"
  proof cases
    case dup
    then have "design_at c sid db' nm = Some d" using b val by (simp add: design_at_def)
    then show ?thesis using design_at_with_content [OF assms(1,2)] dup(3) by auto
  next
    case new
    have cur: "current_design_identity s n db' = (if s = sid \<and> n = nm then Some w else current_design_identity s n ?wc)"
      unfolding new(2) by (rule current_stored [OF with_content_inv [OF inv] new(1)])
    show ?thesis
    proof (cases "s = sid \<and> n = nm")
      case True
      then show ?thesis using cur b val w by (simp add: design_at_def blobs)
    next
      case False
      have "design_at c s db' n = design_at c s ?wc n"
        unfolding design_at_def cur blobs using False by (simp only: if_False)
      then show ?thesis using False design_at_with_content [OF assms(1,2)] by auto
    qed
  qed
qed

lemma store_all_law:
  assumes "db_ok c D db" "set (dict_values designs) \<subseteq> D"
    and "store_all c draw sid designs operation names ids db = Inr (ids', db')"
  shows "db_ok c D db' \<and> (\<forall>s n. design_at c s db' n = (if s = sid \<and> n \<in> set names then dict_get designs n else design_at c s db n))"
  using assms(1,3)
proof (induction names arbitrary: ids db)
  case (Cons nm names)
  obtain d v db1 where d: "dict_get designs nm = Some d"
    "store_design_with_connection c (draw nm) sid nm d operation True db = Inr (v, db1)"
    "store_all c draw sid designs operation names (dict_set nm v ids) db1 = Inr (ids', db')"
    using Cons.prems(2) by (auto simp: rbind_eq_Inr split: option.splits)
  have "d \<in> D" using d(1) assms(2) by (auto dest: dict_get_values)
  note law = store_law [OF Cons.prems(1) this d(2)]
  show ?case using Cons.IH [OF law(1) d(3)] law(2) d(1) by auto
qed simp

lemma delete_heads_except_law:
  assumes "db_ok c D db"
  shows "db_ok c D (delete_heads_except sid names db)"
    and "design_at c s (delete_heads_except sid names db) n =
      (if s = sid \<and> n \<notin> set names then None else design_at c s db n)"
proof -
  have wf: "dict_wf (db_heads db)" using assms by (simp add: db_ok_def db_inv_def keys_ok_def)
  show "db_ok c D (delete_heads_except sid names db)"
    using assms delete_heads_except_inv [of c db sid names] by (auto simp: db_ok_def delete_heads_except_def)
  show "design_at c s (delete_heads_except sid names db) n = (if s = sid \<and> n \<notin> set names then None else design_at c s db n)"
    by (auto simp: design_at_def current_design_identity_def delete_heads_except_def dict_get_filter [OF wf] split: option.splits)
qed

lemma put_session_law:
  assumes "db_ok c D db"
  shows "db_ok c D (put_session sid ts db)" "design_at c s (put_session sid ts db) n = design_at c s db n"
  using assms put_session_inv [of c db sid ts] by (simp_all add: db_ok_def design_at_def current_design_identity_def split: option.splits prod.splits)

lemma replace_law:
  assumes "db_ok c D db" "set (dict_values designs) \<subseteq> D"
    and "replace_session_designs c ts draw sid designs operation db = Inr (ids, db')"
  shows "db_ok c D db'" "design_at c s db' n = (if s = sid then dict_get designs n else design_at c s db n)"
proof -
  let ?names = "sort (dict_keys designs)"
  let ?db1 = "delete_heads_except sid ?names (put_session sid ts db)"
  note p = put_session_law [OF assms(1), where sid = sid and ts = ts]
  note e = delete_heads_except_law [OF p(1), where sid = sid and names = ?names]
  have inv: "db_inv c db" "db_inv c ?db1" using assms(1) e(1) by (simp_all add: db_ok_def)
  have "store_all c draw sid designs operation ?names [] ?db1 = Inr (ids, db')"
    using assms(3) inv by (simp add: replace_session_designs_def Let_def ensure_session_ok exec_ok inv_fk)
  note a = store_all_law [OF e(1) assms(2) this]
  show "db_ok c D db'" using a by simp
  show "design_at c s db' n = (if s = sid then dict_get designs n else design_at c s db n)"
    using a e(2) p(2) by (auto simp: pydict.set_keys)
qed

definition repo_store :: "codec \<Rightarrow> string \<Rightarrow> draws \<times> string \<Rightarrow> string \<Rightarrow> design \<Rightarrow> state_db \<Rightarrow> state_db option" where
  "repo_store c sid = (\<lambda>(draw, operation) nm d db.
     case store_design c draw sid nm d operation True db of Inl _ \<Rightarrow> None | Inr (v, db') \<Rightarrow> Some db')"

definition repo_replace ::
  "codec \<Rightarrow> string \<Rightarrow> string \<times> (string \<Rightarrow> draws) \<times> string \<Rightarrow> design_map \<Rightarrow> state_db \<Rightarrow> state_db option" where
  "repo_replace c sid = (\<lambda>(ts, draw, operation) ds db.
     case replace_session_designs c ts draw sid ds operation db of Inl _ \<Rightarrow> None | Inr (ids, db') \<Rightarrow> Some db')"

interpretation sqlite: design_repository "db_ok c D" "\<lambda>d. d \<in> D" "design_at c sid" "repo_store c sid" "repo_replace c sid"
  for c D sid
proof unfold_locales
  fix db db' :: state_db and d x n
  assume a: "db_ok c D db" "d \<in> D" "repo_store c sid x n d db = Some db'"
  obtain draw operation where x: "x = (draw, operation)" by (cases x)
  obtain v where "store_design_with_connection c draw sid n d operation True db = Inr (v, db')"
    using a(3) by (auto simp: repo_store_def store_design_def x split: sum.splits)
  note law = store_law [OF a(1,2) this]
  show "db_ok c D db'" "design_at c sid db' = (design_at c sid db)(n \<mapsto> d)"
    using law by (auto simp: fun_eq_iff)
next
  fix db db' :: state_db and ds y
  assume a: "db_ok c D db" "dict_wf ds" "list_all (\<lambda>d. d \<in> D) (dict_values ds)" "repo_replace c sid y ds db = Some db'"
  obtain ts draw operation where y: "y = (ts, draw, operation)" by (cases y)
  obtain ids where "replace_session_designs c ts draw sid ds operation db = Inr (ids, db')"
    using a(4) by (auto simp: repo_replace_def y split: sum.splits)
  moreover have "set (dict_values ds) \<subseteq> D" using a(3) by (auto simp: list_all_iff)
  ultimately show "db_ok c D db'" "design_at c sid db' = dict_get ds"
    using replace_law [OF a(1)] by (auto simp: fun_eq_iff)
qed

section \<open>Properties\<close>

definition coherent :: "codec \<Rightarrow> design set \<Rightarrow> string \<Rightarrow> design_map \<Rightarrow> state_db \<Rightarrow> bool" where
  "coherent c D sid mem db = (db_ok c D db \<and> design_at c sid db = dict_get mem)"

lemma pdd_write_repo:
  "pdd_write c draw sid key d operation db = Inr db' \<Longrightarrow> repo_store c sid (draw, operation) key d db = Some db'"
  by (auto simp: pdd_write_def repo_store_def rbind_eq_Inr)

lemma pdd_apply_coherent:
  assumes "coherent c D sid mem db" "op_designs op \<subseteq> D" "op_wf op" "pdd_apply c sid op mem db = Inr (mem', db')"
  shows "coherent c D sid mem' db'"
proof -
  have ok: "db_ok c D db" "design_at c sid db = dict_get mem" using assms(1) by (simp_all add: coherent_def)
  show ?thesis
  proof (cases op)
    case (SetItem draw key d)
    then have "repo_store c sid (draw, ''mapping-assignment'') key d db = Some db'" "mem' = dict_set key d mem"
      using assms(4) by (auto simp: pdd_setitem_def rbind_eq_Inr intro: pdd_write_repo)
    then show ?thesis
      using sqlite.coherent_store [OF ok(1) _ _ ok(2)] assms(2) SetItem by (simp add: coherent_def)
  next
    case (EditPersist draw key d operation)
    show ?thesis
    proof (cases "dict_get mem key")
      case None
      then show ?thesis using assms(1,4) EditPersist by (simp add: pdd_persist_def)
    next
      case (Some old)
      then have "repo_store c sid (draw, operation) key d db = Some db'" "mem' = dict_set key d mem"
        using assms(4) EditPersist by (auto simp: pdd_persist_def rbind_eq_Inr intro: pdd_write_repo)
      then show ?thesis
        using sqlite.coherent_store [OF ok(1) _ _ ok(2)] assms(2) EditPersist by (simp add: coherent_def)
    qed
  next
    case (Commit draw key d operation)
    then have "repo_store c sid (draw, operation) key d db = Some db'" "mem' = dict_set key d mem"
      using assms(4) by (auto simp: commit_design_def repo_store_def rbind_eq_Inr)
    then show ?thesis
      using sqlite.coherent_store [OF ok(1) _ _ ok(2)] assms(2) Commit by (simp add: coherent_def)
  next
    case (ReplaceAll ts draw designs operation)
    then have "repo_replace c sid (ts, draw, operation) designs db = Some db'"
      "mem' = fold (\<lambda>(k, d). dict_set k d) designs []"
      using assms(4) by (auto simp: replace_all_def repo_replace_def rbind_eq_Inr)
    moreover have "list_all (\<lambda>d. d \<in> D) (dict_values designs)" "dict_wf designs"
      using assms(2,3) ReplaceAll by (auto simp: list_all_iff)
    ultimately show ?thesis
      using sqlite.coherent_replace [OF ok(1), of designs sid "(ts, draw, operation)" db'] by (simp add: coherent_def)
  qed
qed

lemma pdd_run_coherent:
  "coherent c D sid mem db \<Longrightarrow> list_all (\<lambda>op. op_designs op \<subseteq> D \<and> op_wf op) ops
   \<Longrightarrow> pdd_run c sid ops mem db = Inr (mem', db') \<Longrightarrow> coherent c D sid mem' db'"
  by (induction ops arbitrary: mem db) (auto simp: rbind_eq_Inr dest: pdd_apply_coherent)

definition demo_design :: design where
  "demo_design = mk_design ''d'' [] []"

definition demo_codec :: codec where
  "demo_codec = \<lparr> c_sha256 = (\<lambda>s. s), c_model_dump = (\<lambda>_. PStr ''d''), c_model_validate_json = (\<lambda>_. Inr demo_design),
     c_dumps = (\<lambda>_. ''{}''), c_loads = (\<lambda>_. Some (PDict [])), c_str = (\<lambda>_. []) \<rparr>"

definition demo_version :: design_identity where
  "demo_version = \<lparr> di_session_id = ''s'', di_design_name = ''d'', di_content_id = ''sha256:{}'',
     di_version_id = ''version-1'', di_parent_version_id = None, di_operation = ''create'', di_created_at = ''t'' \<rparr>"

definition demo_db :: state_db where
  "demo_db = \<lparr> db_sessions = [(''s'', (''t'', ''t''))],
     db_blobs = [(''sha256:{}'', \<lparr> blob_media_type = design_media_type, blob_payload = ''{}'', blob_size_bytes = 2,
                    blob_created_at = ''t'' \<rparr>)],
     db_versions = [demo_version], db_heads = [((''s'', ''d''), (''version-1'', ''t''))], db_records = [], db_audit = [],
     db_access = [] \<rparr>"

lemma demo_store:
  "store_design demo_codec (''t'', ''t'', ''1'') ''s'' ''d'' demo_design ''create'' True empty_db = Inr (demo_version, demo_db)"
  by code_simp

text \<open>
  C30: Whatever operations run, in any order and with any arguments, the database keeps
  its foreign keys, unique keys, blobs stored under the hash of their payload, heads that
  point at a version of their own design, and a lineage in which the parent of a version
  is an earlier version of the same design.
\<close>

theorem reachable_db_inv:
  assumes "(db_step c)\<^sup>*\<^sup>* empty_db db"
  shows "db_inv c db"
  using assms by (induction rule: rtranclp_induct) (auto simp: empty_db_inv intro: db_step_inv)

theorem reachable_db_inv_witness: "db_inv demo_codec demo_db"
  by (rule reachable_db_inv [OF r_into_rtranclp [where r = "db_step demo_codec", OF step_store [OF demo_store]]])

text \<open>
  C32: Deleting a session succeeds on every sound database (no statement of it violates a
  foreign key), leaves nothing of the session, leaves every other session's designs,
  versions, records and audit events as they were, and keeps exactly the blobs still
  referenced.
\<close>

theorem delete_session_exact:
  assumes "db_inv c db"
  shows "\<exists>db'. delete_session sid db = Inr (session_exists sid db, db') \<and> db_inv c db' \<and> \<not> session_exists sid db'
    \<and> load_designs c sid db' = Inr [] \<and> list_session_records c sid None None db' = Inr []
    \<and> list_design_versions sid nm db' = [] \<and> load_audit_events c sid None db' = Inr []
    \<and> (\<forall>sid'. sid' \<noteq> sid \<longrightarrow>
         load_designs c sid' db' = load_designs c sid' db
         \<and> list_session_records c sid' ty active db' = list_session_records c sid' ty active db
         \<and> list_design_versions sid' nm db' = list_design_versions sid' nm db
         \<and> load_audit_events c sid' limit db' = load_audit_events c sid' limit db)
    \<and> set (dict_keys (db_blobs db')) = set (referenced db')"
proof (intro exI [of _ "session_deleted sid db"] conjI allI impI)
  show "delete_session sid db = Inr (session_exists sid db, session_deleted sid db)" "db_inv c (session_deleted sid db)"
    using delete_session_eq [OF assms] by (simp_all add: session_deleted_def)
qed (simp_all add: session_exists_def session_deleted_own session_deleted_others [OF assms] session_deleted_blobs(1) [OF assms])

theorem delete_session_exact_witness:
  "\<exists>db'. delete_session ''s'' demo_db = Inr (True, db') \<and> load_designs demo_codec ''s'' db' = Inr []
    \<and> set (dict_keys (db_blobs db')) = set (referenced db')"
proof -
  have inv: "db_inv demo_codec demo_db"
    by (rule db_step_inv [OF step_store [OF demo_store] empty_db_inv])
  have ex: "session_exists ''s'' demo_db = True" by code_simp
  obtain db' where "delete_session ''s'' demo_db = Inr (session_exists ''s'' demo_db, db')" "load_designs demo_codec ''s'' db' = Inr []"
    "set (dict_keys (db_blobs db')) = set (referenced db')"
    using delete_session_exact [OF inv, of "''s''" "''d''" None None None] by (elim exE conjE)
  then show ?thesis unfolding ex by blast
qed


lemma demo_db_ok: "db_ok demo_codec {demo_design} empty_db"
  by (simp add: db_ok_def empty_db_inv codec_ok_def demo_codec_def) (simp add: empty_db_def)


text \<open>
  A cascading deletion of an object's access record ends, also on cyclic parents,
  and removes exactly the records reachable from the object through the parent columns;
  it returns their number.
\<close>

theorem delete_object_access_exact:
  assumes "db_inv c db"
  shows "\<exists>n db'. delete_object_access oty oid True db = Inr (n, db') \<and> db_inv c db'
    \<and> (\<forall>k. dict_get (db_access db') k =
        (if ((lower (strip oty), strip oid), k) \<in> (acc_child (db_access db))\<^sup>* then None else dict_get (db_access db) k))
    \<and> n + length (db_access db') = length (db_access db)"
proof -
  let ?root = "(lower (strip oty), strip oid)"
  obtain n t where nt: "delete_pending True [?root] (db_access db) 0 = (n, t)" by fastforce
  have wf: "dict_wf (db_access db)" using assms by (simp add: db_inv_def keys_ok_def)
  note ex = delete_pending_exact [OF wf nt]
  have "delete_object_access oty oid True db = Inr (n, db\<lparr> db_access := t \<rparr>)"
    by (simp add: delete_object_access_def nt exec_ok inv_fk [OF assms] del: delete_pending.simps)
  moreover have "db_inv c (db\<lparr> db_access := t \<rparr>)" using ex assms by (simp add: access_inv)
  ultimately show ?thesis using ex by (intro exI [of _ n] exI [of _ "db\<lparr> db_access := t \<rparr>"]) simp
qed

definition demo_access :: "string \<times> string \<Rightarrow> access_row" where
  "demo_access parent = \<lparr> acc_owner_principal = ''me'', acc_delegates_json = ''[]'', acc_parent_object_type = fst parent,
     acc_parent_object_id = snd parent, acc_created_at = ''t'', acc_updated_at = ''t'' \<rparr>"

definition demo_access_table :: "(string \<times> string, access_row) dict" where
  "demo_access_table = [((''session'', ''s''), demo_access (''design'', ''d'')),
     ((''design'', ''d''), demo_access (''session'', ''s'')), ((''session'', ''z''), demo_access ([], []))]"

theorem delete_object_access_exact_witness:
  "\<exists>n db'. delete_object_access ''Session'' '' s'' True (empty_db\<lparr> db_access := demo_access_table \<rparr>) = Inr (n, db')
    \<and> dict_get (db_access db') (''design'', ''d'') = None \<and> n + length (db_access db') = 3"
proof -
  have inv: "db_inv demo_codec (empty_db\<lparr> db_access := demo_access_table \<rparr>)"
    by (rule access_inv [OF empty_db_inv]) code_simp
  have root: "(lower (strip ''Session''), strip '' s'') = (''session'', ''s'')" by code_simp
  have "map_option acc_parent (dict_get demo_access_table (''design'', ''d'')) = Some (''session'', ''s'')" by code_simp
  then have "((''session'', ''s''), (''design'', ''d'')) \<in> (acc_child demo_access_table)\<^sup>*"
    by (intro r_into_rtrancl) (simp add: acc_child_def)
  then show ?thesis
    using delete_object_access_exact [OF inv, of "''Session''" "'' s''"] root
    by (auto simp: demo_access_table_def)
qed

end
