(* ===== verification/Transactions.thy ===== *)
theory Transactions
  imports ERC_Runner Design_Diff
begin

text \<open>
  \<^verbatim>\<open>src/zaptrace/agent/tool_impls/transactions.py\<close> with \<^verbatim>\<open>_get_session\<close> and \<^verbatim>\<open>_set_design\<close> of
  \<^verbatim>\<open>runtime.py\<close>: snapshots, rollbacks and previewed transactions of an agent session. The
  configuration is the one without a state store (\<^verbatim>\<open>_get_state_store() is None\<close>), in which
  the \<^verbatim>\<open>_persist_*\<close> and \<^verbatim>\<open>_delete_persistent_*\<close> calls return at once and the mapping of
  designs is a plain dictionary; the theory \<open>State_Store\<close> has the durable mapping.

  Every tool returns its result together with the session: some error paths change it.
  A key of the session dictionary that may be missing is an option. The values of the
  ancillary tables (positions and analysis results) are opaque. The state hash, the ERC
  runner, Python's conversions from text, the clock and the random tokens are arguments.
\<close>

section \<open>The session\<close>

record tx_env =
  te_hash :: "design \<Rightarrow> string"
  te_erc :: "design \<Rightarrow> erc_result"
  te_float_str :: "pyfloat \<Rightarrow> string"
  te_float_of_str :: "string \<Rightarrow> pyfloat result"
  te_int_of_str :: "string \<Rightarrow> int result"
  te_str :: "pyval \<Rightarrow> string"
  te_validation_text :: "pyval \<Rightarrow> string"

datatype tx_state = PREVIEWED | VALIDATED | REJECTED | COMMITTED | ROLLED_BACK

fun tx_state_value :: "tx_state \<Rightarrow> string" where
  "tx_state_value PREVIEWED = ''previewed''"
| "tx_state_value VALIDATED = ''validated''"
| "tx_state_value REJECTED = ''rejected''"
| "tx_state_value COMMITTED = ''committed''"
| "tx_state_value ROLLED_BACK = ''rolled_back''"

text \<open>The two shapes of the \<^verbatim>\<open>validation\<close> entry.\<close>

datatype tx_validation =
    NotRun
  | Ran (ran_passed: bool) (ran_errors: nat) (ran_warnings: nat) (ran_info: nat)

fun validation_status :: "tx_validation \<Rightarrow> string" where
  "validation_status NotRun = ''not_run''"
| "validation_status (Ran p _ _ _) = (if p then ''passed'' else ''failed'')"

record diff_record =
  dr_type :: string
  dr_ref :: string
  dr_detail :: string
  dr_old_value :: "string option"
  dr_new_value :: "string option"

record tx_public =
  tx_id :: string
  tx_session_id :: string
  tx_design_name :: string
  tx_operation :: string
  tx_params :: "(string, pyval) dict"
  tx_state :: tx_state
  tx_reason :: string
  tx_parent_state_hash :: string
  tx_preview_state_hash :: string
  tx_changed_entities :: "string list"
  tx_semantic_diff :: "diff_record list"
  tx_validation :: tx_validation
  tx_approval_id :: "string option"
  tx_committed_state_hash :: "string option"

record tx = tx_public +
  tx_candidate :: design

record 'v ancillary =
  an_positions :: "'v option"
  an_erc_results :: "'v option"
  an_drc_results :: "'v option"
  an_routing_results :: "'v option"

record 'v agent_session =
  as_designs :: "(string, design) dict"
  as_snapshots :: "(string, (string, design) dict) dict option"
  as_snapshots_ancillary :: "(string, (string, 'v ancillary) dict) dict option"
  as_positions :: "(string, 'v) dict option"
  as_erc_results :: "(string, 'v) dict option"
  as_drc_results :: "(string, 'v) dict option"
  as_routing_results :: "(string, 'v) dict option"
  as_transactions :: "(string, tx) dict option"
  as_transaction_history :: "tx_public list option"
  as_audit_events :: "pyval list option"

definition new_session :: "'v agent_session" where
  "new_session = \<lparr> as_designs = [], as_snapshots = None, as_snapshots_ancillary = None, as_positions = None,
     as_erc_results = None, as_drc_results = None, as_routing_results = None, as_transactions = None,
     as_transaction_history = None, as_audit_events = None \<rparr>"

text \<open>\<^verbatim>\<open>session.get(key, {})\<close>, and \<^verbatim>\<open>.get(name)\<close> of it.\<close>

definition or_empty :: "'a list option \<Rightarrow> 'a list" where
  "or_empty x = (case x of None \<Rightarrow> [] | Some d \<Rightarrow> d)"

definition nested_get :: "(string, 'a) dict option \<Rightarrow> string \<Rightarrow> 'a option" where
  "nested_get x k = dict_get (or_empty x) k"

definition nested_dict :: "(string, (string, 'a) dict) dict option \<Rightarrow> string \<Rightarrow> (string, 'a) dict" where
  "nested_dict x k = or_empty (nested_get x k)"

text \<open>\<^verbatim>\<open>session.setdefault(key, {}).setdefault(name, {})[label] = v\<close>.\<close>

definition nested_set ::
  "string \<Rightarrow> string \<Rightarrow> 'a \<Rightarrow> (string, (string, 'a) dict) dict option \<Rightarrow> (string, (string, 'a) dict) dict option" where
  "nested_set name label v x = Some (dict_set name (dict_set label v (nested_dict x name)) (or_empty x))"

record 'v agent_state =
  ag_sessions :: "(string, 'v agent_session) dict"
  ag_destroyed :: "string list"

definition get_session :: "string \<Rightarrow> 'v agent_state \<Rightarrow> 'v agent_session result \<times> 'v agent_state" where
  "get_session sid st =
     (if sid \<in> set (ag_destroyed st)
      then (Inl (AdapterError ''SessionDestroyedError'' (''Session '' @ sq @ sid @ sq @ '' has been destroyed'')), st)
      else case dict_get (ag_sessions st) sid of
             Some s \<Rightarrow> (Inr s, st)
           | None \<Rightarrow> (Inr new_session, st\<lparr> ag_sessions := dict_set sid new_session (ag_sessions st) \<rparr>))"

text \<open>A tool works on the session object in the table.\<close>

definition with_session ::
  "string \<Rightarrow> ('v agent_session \<Rightarrow> 'a result \<times> 'v agent_session) \<Rightarrow> 'v agent_state \<Rightarrow> 'a result \<times> 'v agent_state" where
  "with_session sid tool st =
     (case get_session sid st of
        (Inl e, st') \<Rightarrow> (Inl e, st')
      | (Inr s, st') \<Rightarrow>
          (case tool s of (r, s') \<Rightarrow> (r, st'\<lparr> ag_sessions := dict_set sid s' (ag_sessions st') \<rparr>)))"

definition set_design :: "string \<Rightarrow> design \<Rightarrow> 'v agent_session \<Rightarrow> 'v agent_session" where
  "set_design name d s = s\<lparr> as_designs := dict_set name d (as_designs s) \<rparr>"

definition design_not_found :: "string \<Rightarrow> py_error" where
  "design_not_found name = ValueError (''Design '' @ sq @ name @ sq @ '' not found'')"

section \<open>Snapshots\<close>

record snapshot_summary =
  ss_design :: string
  ss_label :: string
  ss_component_count :: nat
  ss_net_count :: nat

definition summary :: "string \<Rightarrow> string \<Rightarrow> design \<Rightarrow> snapshot_summary" where
  "summary name label d = \<lparr> ss_design = name, ss_label = label, ss_component_count = length (des_components d),
     ss_net_count = length (des_nets d) \<rparr>"

definition take_ancillary :: "string \<Rightarrow> 'v agent_session \<Rightarrow> 'v ancillary" where
  "take_ancillary name s = \<lparr> an_positions = nested_get (as_positions s) name,
     an_erc_results = nested_get (as_erc_results s) name, an_drc_results = nested_get (as_drc_results s) name,
     an_routing_results = nested_get (as_routing_results s) name \<rparr>"

definition tool_design_snapshot ::
  "nat \<Rightarrow> string \<Rightarrow> string option \<Rightarrow> 'v agent_session \<Rightarrow> snapshot_summary result \<times> 'v agent_session" where
  "tool_design_snapshot now_ms name label s =
     (case dict_get (as_designs s) name of
        None \<Rightarrow> (Inl (design_not_found name), s)
      | Some d \<Rightarrow>
          (let l = (case label of None \<Rightarrow> ''snap-'' @ str_of_nat now_ms
                    | Some l \<Rightarrow> if l = [] then ''snap-'' @ str_of_nat now_ms else l) in
           (Inr (summary name l d),
            s\<lparr> as_snapshots := nested_set name l d (as_snapshots s),
               as_snapshots_ancillary := nested_set name l (take_ancillary name s) (as_snapshots_ancillary s) \<rparr>)))"

text \<open>One key of the loop over \<^verbatim>\<open>ancillary.items()\<close>.\<close>

definition restore_key :: "string \<Rightarrow> 'v option \<Rightarrow> (string, 'v) dict option \<Rightarrow> (string, 'v) dict option" where
  "restore_key name value x =
     (case value of
        Some v \<Rightarrow> Some (dict_set name v (or_empty x))
      | None \<Rightarrow> map_option (dict_pop name) x)"

definition restore_ancillary :: "string \<Rightarrow> 'v ancillary \<Rightarrow> 'v agent_session \<Rightarrow> 'v agent_session" where
  "restore_ancillary name a s =
     s\<lparr> as_positions := restore_key name (an_positions a) (as_positions s),
        as_erc_results := restore_key name (an_erc_results a) (as_erc_results s),
        as_drc_results := restore_key name (an_drc_results a) (as_drc_results s),
        as_routing_results := restore_key name (an_routing_results a) (as_routing_results s) \<rparr>"

definition tool_design_rollback ::
  "string \<Rightarrow> string \<Rightarrow> 'v agent_session \<Rightarrow> snapshot_summary result \<times> 'v agent_session" where
  "tool_design_rollback name label s =
     (let snapshots = nested_dict (as_snapshots s) name in
      case dict_get snapshots label of
        None \<Rightarrow> (Inl (ValueError (''Snapshot '' @ sq @ label @ sq @ '' not found for design '' @ sq @ name @ sq
                   @ ''. Available: '' @ repr_str_list (dict_keys snapshots))), s)
      | Some d \<Rightarrow>
          (let s' = set_design name d s in
           (Inr (summary name label d),
            (case dict_get (nested_dict (as_snapshots_ancillary s') name) label of
               None \<Rightarrow> s'
             | Some a \<Rightarrow> restore_ancillary name a s'))))"

definition tool_design_list_snapshots ::
  "string option \<Rightarrow> 'v agent_session \<Rightarrow> (string, snapshot_summary list) dict \<times> nat" where
  "tool_design_list_snapshots name s =
     (case name of
        Some n \<Rightarrow>
          (if n \<noteq> [] then
             (let snaps = nested_dict (as_snapshots s) n
              in ([(n, map (\<lambda>(l, d). summary n l d) snaps)], length snaps))
           else (map (\<lambda>(n, snaps). (n, map (\<lambda>(l, d). summary n l d) snaps)) (or_empty (as_snapshots s)),
                 sum_list (map (\<lambda>(n, snaps). length snaps) (or_empty (as_snapshots s)))))
      | None \<Rightarrow> (map (\<lambda>(n, snaps). (n, map (\<lambda>(l, d). summary n l d) snaps)) (or_empty (as_snapshots s)),
                 sum_list (map (\<lambda>(n, snaps). length snaps) (or_empty (as_snapshots s)))))"

text \<open>\<^verbatim>\<open>session.get(key, {}).get(name, {}).pop(label, None)\<close>, which changes the session only
  when the inner dictionary is there.\<close>

definition nested_pop ::
  "string \<Rightarrow> string \<Rightarrow> (string, (string, 'a) dict) dict option \<Rightarrow> (string, (string, 'a) dict) dict option" where
  "nested_pop name label x =
     (case nested_get x name of
        None \<Rightarrow> x
      | Some inner \<Rightarrow> Some (dict_set name (dict_pop label inner) (or_empty x)))"

definition clear_snapshots :: "string \<Rightarrow> 'v agent_session \<Rightarrow> nat result \<times> 'v agent_session" where
  "clear_snapshots name s =
     (case as_snapshots s of
        None \<Rightarrow> (Inl (KeyError ''snapshots''), s)
      | Some snaps \<Rightarrow>
          (let s1 = s\<lparr> as_snapshots := Some (dict_set name [] snaps) \<rparr> in
           case as_snapshots_ancillary s1 of
             None \<Rightarrow> (Inl (KeyError ''snapshots_ancillary''), s1)
           | Some anc \<Rightarrow>
               (Inr (length (nested_dict (as_snapshots s) name)),
                s1\<lparr> as_snapshots_ancillary := Some (dict_set name [] anc) \<rparr>)))"

text \<open>The result is the number of removed and of remaining snapshots.\<close>

definition tool_design_commit ::
  "string \<Rightarrow> string option \<Rightarrow> 'v agent_session \<Rightarrow> (nat \<times> nat) result \<times> 'v agent_session" where
  "tool_design_commit name label s =
     (let remaining = (\<lambda>s'. length (nested_dict (as_snapshots s') name));
          clear = (case clear_snapshots name s of (r, s') \<Rightarrow> (rbind r (\<lambda>n. Inr (n, remaining s')), s')) in
      case label of
        None \<Rightarrow> clear
      | Some l \<Rightarrow>
          if l = [] then clear
          else
            (let s' = s\<lparr> as_snapshots := nested_pop name l (as_snapshots s),
                         as_snapshots_ancillary := nested_pop name l (as_snapshots_ancillary s) \<rparr> in
             if dict_get (nested_dict (as_snapshots s) name) l = None
             then (Inl (ValueError (''Snapshot '' @ sq @ l @ sq @ '' not found for '' @ sq @ name @ sq
                     @ ''. Available: '' @ repr_str_list (dict_keys (nested_dict (as_snapshots s') name)))), s')
             else (Inr (1, remaining s'), s')))"

section \<open>The operations of a transaction\<close>

text \<open>\<^verbatim>\<open>float(i)\<close> of an integer: the nearest binary64 value, ties to even.\<close>

fun bit_length :: "nat \<Rightarrow> nat" where
  "bit_length n = (if n = 0 then 0 else Suc (bit_length (n div 2)))"

declare bit_length.simps [simp del]

definition round_53 :: "nat \<Rightarrow> nat" where
  "round_53 n =
     (let e = bit_length n - 53; q = n div 2 ^ e; r = n mod 2 ^ e
      in (if 2 * r > 2 ^ e \<or> 2 * r = 2 ^ e \<and> odd q then q + 1 else q) * 2 ^ e)"

definition float_of_int :: "int \<Rightarrow> pyfloat result" where
  "float_of_int i =
     (let m = round_53 (nat \<bar>i\<bar>) in
      if m \<ge> 2 ^ 1024 then Inl (AdapterError ''OverflowError'' ''int too large to convert to float'')
      else Inr (if i < 0 then - of_nat m else of_nat m))"

text \<open>\<^verbatim>\<open>float(v)\<close> and \<^verbatim>\<open>int(v)\<close>.\<close>

fun py_float :: "tx_env \<Rightarrow> pyval \<Rightarrow> pyfloat result" where
  "py_float env (PFloat x) = Inr x"
| "py_float env (PBool b) = Inr (if b then 1 else 0)"
| "py_float env (PInt i) = float_of_int i"
| "py_float env (PStr s) = te_float_of_str env s"
| "py_float env PNone = Inl (TypeError (''float() argument must be a string or a real number, not '' @ sq @ ''NoneType'' @ sq))"
| "py_float env (PList _) = Inl (TypeError (''float() argument must be a string or a real number, not '' @ sq @ ''list'' @ sq))"
| "py_float env (PDict _) = Inl (TypeError (''float() argument must be a string or a real number, not '' @ sq @ ''dict'' @ sq))"

fun py_int :: "tx_env \<Rightarrow> pyval \<Rightarrow> int result" where
  "py_int env (PInt i) = Inr i"
| "py_int env (PBool b) = Inr (if b then 1 else 0)"
| "py_int env (PFloat x) = Inr (if x < 0 then - \<lfloor>- x\<rfloor> else \<lfloor>x\<rfloor>)"
| "py_int env (PStr s) = te_int_of_str env s"
| "py_int env PNone = Inl (TypeError (''int() argument must be a string, a bytes-like object or a real number, not '' @ sq @ ''NoneType'' @ sq))"
| "py_int env (PList _) = Inl (TypeError (''int() argument must be a string, a bytes-like object or a real number, not '' @ sq @ ''list'' @ sq))"
| "py_int env (PDict _) = Inl (TypeError (''int() argument must be a string, a bytes-like object or a real number, not '' @ sq @ ''dict'' @ sq))"

fun py_str :: "tx_env \<Rightarrow> pyval \<Rightarrow> string" where
  "py_str env (PStr s) = s"
| "py_str env (PInt i) = str_of_int i"
| "py_str env (PBool b) = (if b then ''True'' else ''False'')"
| "py_str env PNone = ''None''"
| "py_str env v = te_str env v"

text \<open>\<^verbatim>\<open>params.get(k)\<close>, \<^verbatim>\<open>params[k]\<close>.\<close>

definition param :: "(string, pyval) dict \<Rightarrow> string \<Rightarrow> pyval" where
  "param ps k = (case dict_get ps k of None \<Rightarrow> PNone | Some v \<Rightarrow> v)"

definition need :: "(string, pyval) dict \<Rightarrow> string \<Rightarrow> pyval result" where
  "need ps k = (case dict_get ps k of None \<Rightarrow> Inl (KeyError k) | Some v \<Rightarrow> Inr v)"

definition apply_board_update :: "tx_env \<Rightarrow> design \<Rightarrow> (string, pyval) dict \<Rightarrow> design result" where
  "apply_board_update env d ps =
     rbind (if param ps ''width_mm'' = PNone then Inr d
            else rbind (py_float env (param ps ''width_mm''))
                   (\<lambda>x. Inr (d\<lparr> des_board := (des_board d)\<lparr> board_width_mm := x \<rparr> \<rparr>))) (\<lambda>d.
     rbind (if param ps ''height_mm'' = PNone then Inr d
            else rbind (py_float env (param ps ''height_mm''))
                   (\<lambda>x. Inr (d\<lparr> des_board := (des_board d)\<lparr> board_height_mm := x \<rparr> \<rparr>))) (\<lambda>d.
       if param ps ''layers'' = PNone then Inr d
       else rbind (py_int env (param ps ''layers''))
              (\<lambda>n. Inr (d\<lparr> des_board := (des_board d)\<lparr> board_layers := n \<rparr> \<rparr>))))"

text \<open>The value field of the new component, as pydantic validates it.\<close>

fun component_value :: "tx_env \<Rightarrow> pyval \<Rightarrow> string option result" where
  "component_value env PNone = Inr None"
| "component_value env (PStr s) = Inr (Some s)"
| "component_value env v = Inl (AdapterError ''ValidationError'' (te_validation_text env v))"

definition apply_component_add :: "tx_env \<Rightarrow> string \<Rightarrow> design \<Rightarrow> (string, pyval) dict \<Rightarrow> design result" where
  "apply_component_add env uuid d ps =
     (let cid = (if truthy (param ps ''component_id'') then py_str env (param ps ''component_id'') else take 8 uuid) in
      rbind (need ps ''ref'') (\<lambda>ref.
      rbind (need ps ''type_name'') (\<lambda>ty.
      rbind (component_value env (param ps ''value'')) (\<lambda>val.
        Inr (d\<lparr> des_components := dict_set cid
               ((mk_component cid (py_str env ref) (py_str env ty))
                  \<lparr> comp_value := val,
                    comp_footprint := (if truthy (param ps ''footprint'') then py_str env (param ps ''footprint'') else []) \<rparr>)
               (des_components d) \<rparr>)))))"

definition drop_ref :: "string \<Rightarrow> net \<Rightarrow> net" where
  "drop_ref r n = n\<lparr> net_nodes := filter (\<lambda>nd. node_component_ref nd \<noteq> r) (net_nodes n) \<rparr>"

definition apply_component_remove :: "tx_env \<Rightarrow> design \<Rightarrow> (string, pyval) dict \<Rightarrow> design result" where
  "apply_component_remove env d ps =
     rbind (need ps ''component_id'') (\<lambda>v.
       let cid = py_str env v in
       case dict_get (des_components d) cid of
         None \<Rightarrow> Inl (ValueError (''Component '' @ sq @ cid @ sq @ '' not in design''))
       | Some c \<Rightarrow>
           (let nets = map (\<lambda>(k, n). (k, drop_ref (comp_ref c) n)) (des_nets d);
                empty_nets = map fst (filter (\<lambda>(k, n). net_nodes n = []) nets) in
            Inr (d\<lparr> des_components := dict_pop cid (des_components d), des_nets := fold dict_pop empty_nets nets \<rparr>)))"

definition apply_transaction_operation ::
  "tx_env \<Rightarrow> string \<Rightarrow> design \<Rightarrow> string \<Rightarrow> (string, pyval) dict \<Rightarrow> design result" where
  "apply_transaction_operation env uuid d operation ps =
     (if operation = ''board_update'' then apply_board_update env d ps
      else if operation = ''component_add'' then apply_component_add env uuid d ps
      else if operation = ''component_remove'' then apply_component_remove env d ps
      else Inl (ValueError (''Unsupported transaction operation: '' @ operation)))"

definition semantic_diff_records :: "diff_entry list \<Rightarrow> diff_record list" where
  "semantic_diff_records entries =
     map (\<lambda>e. \<lparr> dr_type = diff_type_value (diff_type e), dr_ref = diff_ref e, dr_detail = diff_detail e,
                dr_old_value = diff_old_value e, dr_new_value = diff_new_value e \<rparr>) entries"

section \<open>Transactions\<close>

definition transaction_public_record :: "tx \<Rightarrow> tx_public" where
  "transaction_public_record t = tx_public.truncate t"

definition put_tx :: "string \<Rightarrow> tx \<Rightarrow> 'v agent_session \<Rightarrow> 'v agent_session" where
  "put_tx i t s = s\<lparr> as_transactions := Some (dict_set i t (or_empty (as_transactions s))) \<rparr>"

definition append_history :: "tx_public \<Rightarrow> 'v agent_session \<Rightarrow> 'v agent_session" where
  "append_history r s = s\<lparr> as_transaction_history := Some (or_empty (as_transaction_history s) @ [r]) \<rparr>"

definition preview_record ::
  "tx_env \<Rightarrow> string \<Rightarrow> string \<Rightarrow> string \<Rightarrow> string \<Rightarrow> (string, pyval) dict \<Rightarrow> string \<Rightarrow> design \<Rightarrow> design \<Rightarrow> tx" where
  "preview_record env token sid name operation ps reason d candidate =
     (let entries = diff_designs (te_float_str env) d candidate in
      \<lparr> tx_id = ''tx-'' @ token, tx_session_id = sid, tx_design_name = name, tx_operation = operation,
        tx_params = ps, tx_state = PREVIEWED, tx_reason = reason, tx_parent_state_hash = te_hash env d,
        tx_preview_state_hash = te_hash env candidate, tx_changed_entities = map diff_ref entries,
        tx_semantic_diff = semantic_diff_records entries, tx_validation = NotRun, tx_approval_id = None,
        tx_committed_state_hash = None, tx_candidate = candidate \<rparr>)"

definition tool_design_transaction_preview ::
  "tx_env \<Rightarrow> string \<Rightarrow> string \<Rightarrow> string \<Rightarrow> string \<Rightarrow> string \<Rightarrow> (string, pyval) dict \<Rightarrow> string
   \<Rightarrow> 'v agent_session \<Rightarrow> tx_public result \<times> 'v agent_session" where
  "tool_design_transaction_preview env uuid token sid name operation ps reason s =
     (case dict_get (as_designs s) name of
        None \<Rightarrow> (Inl (design_not_found name), s)
      | Some d \<Rightarrow>
          (case apply_transaction_operation env uuid d operation ps of
             Inl e \<Rightarrow> (Inl e, s)
           | Inr candidate \<Rightarrow>
               (let t = preview_record env token sid name operation ps reason d candidate
                in (Inr (transaction_public_record t), put_tx (tx_id t) t s))))"

definition tx_not_found :: "string \<Rightarrow> py_error" where
  "tx_not_found i = ValueError (''Transaction '' @ sq @ i @ sq @ '' not found'')"

definition tool_design_transaction_validate ::
  "tx_env \<Rightarrow> string \<Rightarrow> 'v agent_session \<Rightarrow> tx_public result \<times> 'v agent_session" where
  "tool_design_transaction_validate env i s =
     (case nested_get (as_transactions s) i of
        None \<Rightarrow> (Inl (tx_not_found i), s)
      | Some t \<Rightarrow>
          if tx_state t \<notin> {PREVIEWED, VALIDATED}
          then (Inl (ValueError (''Transaction '' @ sq @ i @ sq @ '' cannot be validated from state ''
                  @ tx_state_value (tx_state t))), s)
          else
            (let r = te_erc env (tx_candidate t);
                 t' = t\<lparr> tx_validation := Ran (passed r) (res_total_errors r) (res_total_warnings r) (res_total_info r),
                         tx_state := (if passed r then VALIDATED else REJECTED) \<rparr>
             in (Inr (transaction_public_record t'), put_tx i t' s)))"

definition commit_tx :: "tx_env \<Rightarrow> string \<Rightarrow> tx \<Rightarrow> tx" where
  "commit_tx env approval t =
     t\<lparr> tx_state := COMMITTED, tx_approval_id := Some approval,
        tx_committed_state_hash := Some (te_hash env (tx_candidate t)) \<rparr>"

definition tool_design_transaction_commit ::
  "tx_env \<Rightarrow> string \<Rightarrow> string \<Rightarrow> 'v agent_session \<Rightarrow> tx_public result \<times> 'v agent_session" where
  "tool_design_transaction_commit env i approval s =
     (if approval = [] \<or> strip approval = []
      then (Inl (ValueError ''approval_id is required to commit a transaction''), s)
      else case nested_get (as_transactions s) i of
        None \<Rightarrow> (Inl (tx_not_found i), s)
      | Some t \<Rightarrow>
          if tx_state t \<noteq> VALIDATED
          then (Inl (ValueError (''Transaction '' @ sq @ i @ sq @ '' must be validated before commit'')), s)
          else if validation_status (tx_validation t) \<noteq> ''passed''
          then (Inl (ValueError (''Transaction '' @ sq @ i @ sq @ '' validation did not pass'')), s)
          else (case dict_get (as_designs s) (tx_design_name t) of
             None \<Rightarrow> (Inl (design_not_found (tx_design_name t)), s)
           | Some previous \<Rightarrow>
               if te_hash env previous \<noteq> tx_parent_state_hash t
               then (Inl (ValueError ''Primary design state changed since preview; re-preview is required''),
                     put_tx i (t\<lparr> tx_state := REJECTED \<rparr>) s)
               else
                 (let t' = commit_tx env approval t; r = transaction_public_record t'
                  in (Inr r, append_history r (put_tx i t' (set_design (tx_design_name t) (tx_candidate t) s))))))"

definition tool_design_transaction_rollback ::
  "string \<Rightarrow> 'v agent_session \<Rightarrow> tx_public result \<times> 'v agent_session" where
  "tool_design_transaction_rollback i s =
     (case nested_get (as_transactions s) i of
        None \<Rightarrow> (Inl (tx_not_found i), s)
      | Some t \<Rightarrow>
          if tx_state t = COMMITTED
          then (Inl (ValueError ''Committed transactions cannot be rolled back by preview rollback''), s)
          else (let t' = t\<lparr> tx_state := ROLLED_BACK \<rparr>; r = transaction_public_record t'
                in (Inr r, append_history r (put_tx i t' s))))"

definition tool_design_transaction_list :: "'v agent_session \<Rightarrow> tx_public list" where
  "tool_design_transaction_list s = map transaction_public_record (dict_values (or_empty (as_transactions s)))"

definition tool_audit_list_events :: "int \<Rightarrow> 'v agent_session \<Rightarrow> nat \<times> pyval list" where
  "tool_audit_list_events limit s =
     (let events = or_empty (as_audit_events s); n = nat (if limit < 1 then 1 else limit)
      in (length events, drop (length events - n) events))"

section \<open>Uses of a session\<close>

text \<open>
  The calls of a session in the order they run. \<open>SetDesign\<close> and \<open>SetResults\<close> stand for the
  other tools, which replace a design or the ancillary results of one.
\<close>

datatype 'v session_op =
    Snapshot nat string "string option"
  | Rollback string string
  | CommitSnapshots string "string option"
  | Preview string string string string string "(string, pyval) dict" string
  | Validate string
  | CommitTx string string
  | RollbackTx string
  | SetDesign string design
  | SetResults string "'v ancillary"

fun session_apply :: "tx_env \<Rightarrow> 'v session_op \<Rightarrow> 'v agent_session \<Rightarrow> 'v agent_session" where
  "session_apply env (Snapshot now name label) s = snd (tool_design_snapshot now name label s)"
| "session_apply env (Rollback name label) s = snd (tool_design_rollback name label s)"
| "session_apply env (CommitSnapshots name label) s = snd (tool_design_commit name label s)"
| "session_apply env (Preview uuid token sid name operation ps reason) s =
     snd (tool_design_transaction_preview env uuid token sid name operation ps reason s)"
| "session_apply env (Validate i) s = snd (tool_design_transaction_validate env i s)"
| "session_apply env (CommitTx i approval) s = snd (tool_design_transaction_commit env i approval s)"
| "session_apply env (RollbackTx i) s = snd (tool_design_transaction_rollback i s)"
| "session_apply env (SetDesign name d) s = set_design name d s"
| "session_apply env (SetResults name a) s = restore_ancillary name a s"

definition session_run :: "tx_env \<Rightarrow> 'v session_op list \<Rightarrow> 'v agent_session \<Rightarrow> 'v agent_session" where
  "session_run env ops s = fold (session_apply env) ops s"

fun preview_ids :: "'v session_op list \<Rightarrow> string list" where
  "preview_ids [] = []"
| "preview_ids (Preview uuid token sid name operation ps reason # ops) = (''tx-'' @ token) # preview_ids ops"
| "preview_ids (_ # ops) = preview_ids ops"

section \<open>Lemmas\<close>

lemma or_empty_simps [simp]: "or_empty None = []" "or_empty (Some d) = d"
  by (simp_all add: or_empty_def)

lemma nested_get_put_tx [simp]:
  "nested_get (as_transactions (put_tx i t s)) j = (if j = i then Some t else nested_get (as_transactions s) j)"
  by (simp add: put_tx_def nested_get_def pydict.get_put)

lemma put_tx_simps [simp]:
  "as_designs (put_tx i t s) = as_designs s" "as_transaction_history (put_tx i t s) = as_transaction_history s"
  "as_snapshots (put_tx i t s) = as_snapshots s" "as_snapshots_ancillary (put_tx i t s) = as_snapshots_ancillary s"
  "as_designs (append_history r s) = as_designs s" "as_transactions (append_history r s) = as_transactions s"
  "as_snapshots (append_history r s) = as_snapshots s"
  "as_snapshots_ancillary (append_history r s) = as_snapshots_ancillary s"
  "as_transaction_history (append_history r s) = Some (or_empty (as_transaction_history s) @ [r])"
  "as_transactions (set_design n d s) = as_transactions s"
  "as_transaction_history (set_design n d s) = as_transaction_history s"
  "as_snapshots (set_design n d s) = as_snapshots s"
  "as_snapshots_ancillary (set_design n d s) = as_snapshots_ancillary s"
  "as_designs (set_design n d s) = dict_set n d (as_designs s)"
  "as_designs (restore_ancillary n a s) = as_designs s"
  "as_transactions (restore_ancillary n a s) = as_transactions s"
  "as_transaction_history (restore_ancillary n a s) = as_transaction_history s"
  "as_snapshots (restore_ancillary n a s) = as_snapshots s"
  "as_snapshots_ancillary (restore_ancillary n a s) = as_snapshots_ancillary s"
  by (simp_all add: put_tx_def append_history_def set_design_def restore_ancillary_def)

text \<open>What the transactions of a session satisfy.\<close>

definition tx_ok :: "tx_env \<Rightarrow> string \<Rightarrow> tx \<Rightarrow> bool" where
  "tx_ok env i t =
     (tx_id t = i \<and> tx_preview_state_hash t = te_hash env (tx_candidate t)
      \<and> (tx_state t \<in> {VALIDATED, COMMITTED} \<longrightarrow>
           passed (te_erc env (tx_candidate t)) \<and> validation_status (tx_validation t) = ''passed'')
      \<and> (tx_state t = COMMITTED \<longrightarrow>
           tx_committed_state_hash t = Some (te_hash env (tx_candidate t))
           \<and> (\<exists>a. tx_approval_id t = Some a \<and> strip a \<noteq> [])))"

definition commits :: "string \<Rightarrow> 'v agent_session \<Rightarrow> tx_public list" where
  "commits i s = filter (\<lambda>r. tx_id r = i \<and> tx_state r = COMMITTED) (or_empty (as_transaction_history s))"

fun entry_ok :: "tx_env \<Rightarrow> string \<Rightarrow> tx option \<Rightarrow> tx_public list \<Rightarrow> bool" where
  "entry_ok env i None cs = (cs = [])"
| "entry_ok env i (Some t) cs =
     (tx_ok env i t \<and> cs = (if tx_state t = COMMITTED then [transaction_public_record t] else []))"

definition session_inv :: "tx_env \<Rightarrow> 'v agent_session \<Rightarrow> bool" where
  "session_inv env s = (\<forall>i. entry_ok env i (nested_get (as_transactions s) i) (commits i s))"

lemma public_simps [simp]:
  "tx_id (transaction_public_record t) = tx_id t" "tx_state (transaction_public_record t) = tx_state t"
  by (simp_all add: transaction_public_record_def tx_public.truncate_def)

lemma commits_append [simp]:
  "commits i (append_history r s) = commits i s @ (if tx_id r = i \<and> tx_state r = COMMITTED then [r] else [])"
  "commits i (put_tx j t s) = commits i s" "commits i (set_design n d s) = commits i s"
  "commits i (restore_ancillary n a s) = commits i s"
  by (simp_all add: commits_def)

lemma session_invD: "session_inv env s \<Longrightarrow> nested_get (as_transactions s) i = Some t \<Longrightarrow>
  tx_ok env i t \<and> commits i s = (if tx_state t = COMMITTED then [transaction_public_record t] else [])"
  unfolding session_inv_def by (metis entry_ok.simps(2))

lemma session_inv_put:
  "session_inv env s \<Longrightarrow> entry_ok env i (Some t) (commits i s) \<Longrightarrow> session_inv env (put_tx i t s)"
  by (simp add: session_inv_def)

lemma session_inv_transfer:
  assumes "session_inv env s" "as_transactions s' = as_transactions s" "as_transaction_history s' = as_transaction_history s"
  shows "session_inv env s'"
proof -
  have "commits i s' = commits i s" for i using assms(3) by (simp add: commits_def)
  then show ?thesis using assms(1,2) by (simp add: session_inv_def)
qed

lemma preview_inv:
  assumes "session_inv env s" "nested_get (as_transactions s) (''tx-'' @ token) = None"
  shows "session_inv env (snd (tool_design_transaction_preview env uuid token sid name operation ps reason s))"
proof -
  have "commits (''tx-'' @ token) s = []"
    using assms unfolding session_inv_def by (metis entry_ok.simps(1))
  then have "session_inv env (put_tx (''tx-'' @ token) (preview_record env token sid name operation ps reason d c) s)" for d c
    by (intro session_inv_put assms(1)) (simp add: preview_record_def Let_def tx_ok_def)
  then show ?thesis
    using assms(1) by (auto simp: tool_design_transaction_preview_def preview_record_def Let_def
        split: option.splits sum.splits)
qed

lemma validate_inv:
  assumes "session_inv env s"
  shows "session_inv env (snd (tool_design_transaction_validate env i s))"
proof (cases "nested_get (as_transactions s) i")
  case (Some t)
  then show ?thesis
    using assms session_invD [OF assms Some]
    by (auto simp: tool_design_transaction_validate_def Let_def tx_ok_def intro!: session_inv_put)
qed (use assms in \<open>simp add: tool_design_transaction_validate_def\<close>)

lemma rollback_tx_inv:
  assumes "session_inv env s"
  shows "session_inv env (snd (tool_design_transaction_rollback i s))"
proof (cases "nested_get (as_transactions s) i")
  case (Some t)
  show ?thesis
  proof (cases "tx_state t = COMMITTED")
    case False
    then have "session_inv env (put_tx i (t\<lparr> tx_state := ROLLED_BACK \<rparr>) s)"
      using session_invD [OF assms Some] by (intro session_inv_put assms) (simp add: tx_ok_def)
    then show ?thesis using Some False
      by (auto simp: tool_design_transaction_rollback_def Let_def session_inv_def)
  qed (use assms Some in \<open>simp add: tool_design_transaction_rollback_def\<close>)
qed (use assms in \<open>simp add: tool_design_transaction_rollback_def\<close>)

text \<open>The outcome of a commit, by its guards.\<close>

lemma commit_cases:
  obtains (error) e where "tool_design_transaction_commit env i approval s = (Inl e, s)"
  | (stale) t previous where "nested_get (as_transactions s) i = Some t" "tx_state t = VALIDATED"
      "dict_get (as_designs s) (tx_design_name t) = Some previous" "te_hash env previous \<noteq> tx_parent_state_hash t"
      "tool_design_transaction_commit env i approval s =
        (Inl (ValueError ''Primary design state changed since preview; re-preview is required''),
         put_tx i (t\<lparr> tx_state := REJECTED \<rparr>) s)"
  | (committed) t previous where "nested_get (as_transactions s) i = Some t" "tx_state t = VALIDATED"
      "strip approval \<noteq> []" "validation_status (tx_validation t) = ''passed''"
      "dict_get (as_designs s) (tx_design_name t) = Some previous" "te_hash env previous = tx_parent_state_hash t"
      "tool_design_transaction_commit env i approval s =
        (Inr (transaction_public_record (commit_tx env approval t)),
         append_history (transaction_public_record (commit_tx env approval t))
           (put_tx i (commit_tx env approval t) (set_design (tx_design_name t) (tx_candidate t) s)))"
proof -
  show ?thesis
  proof (cases "approval = [] \<or> strip approval = []")
    case True
    then show ?thesis by (intro error) (auto simp: tool_design_transaction_commit_def)
  next
    case ap: False
    show ?thesis
    proof (cases "nested_get (as_transactions s) i")
      case None
      then show ?thesis using ap by (intro error) (auto simp: tool_design_transaction_commit_def)
    next
      case (Some t)
      note stale' = stale [OF Some] and committed' = committed [OF Some]
      show ?thesis
      proof (cases "tx_state t = VALIDATED \<and> validation_status (tx_validation t) = ''passed''")
        case False
        then show ?thesis using ap Some
          by (cases "tx_state t = VALIDATED") (simp_all add: error tool_design_transaction_commit_def)
      next
        case v: True
        show ?thesis
        proof (cases "dict_get (as_designs s) (tx_design_name t)")
          case None
          then show ?thesis using ap Some v by (intro error) (auto simp: tool_design_transaction_commit_def)
        next
          case d: (Some previous)
          show ?thesis
            using stale' [OF _ d] committed' [OF _ _ _ d] ap Some v d
            by (cases "te_hash env previous = tx_parent_state_hash t") (auto simp: tool_design_transaction_commit_def Let_def)
        qed
      qed
    qed
  qed
qed

lemma commit_tx_simps [simp]:
  "tx_id (commit_tx env a t) = tx_id t" "tx_state (commit_tx env a t) = COMMITTED"
  "tx_candidate (commit_tx env a t) = tx_candidate t" "tx_design_name (commit_tx env a t) = tx_design_name t"
  by (simp_all add: commit_tx_def)

lemma commit_inv:
  assumes "session_inv env s"
  shows "session_inv env (snd (tool_design_transaction_commit env i approval s))"
proof (cases rule: commit_cases [of env i approval s])
  case error
  then show ?thesis using assms by simp
next
  case (stale t previous)
  then show ?thesis using session_invD [OF assms stale(1)]
    by (auto simp: tx_ok_def intro!: session_inv_put assms)
next
  case (committed t previous)
  have ok: "tx_ok env i (commit_tx env approval t)" "commits i s = []"
    using session_invD [OF assms committed(1)] committed(2,3,4) by (auto simp: tx_ok_def commit_tx_def)
  then have "tx_id t = i" by (simp add: tx_ok_def)
  then show ?thesis
    using assms ok committed(7) by (auto simp: session_inv_def)
qed

lemma snapshot_tx [simp]:
  "as_transactions (snd (tool_design_snapshot now name label s)) = as_transactions s"
  "as_transaction_history (snd (tool_design_snapshot now name label s)) = as_transaction_history s"
  "as_designs (snd (tool_design_snapshot now name label s)) = as_designs s"
  by (simp_all add: tool_design_snapshot_def Let_def split: option.splits)

lemma rollback_tx [simp]:
  "as_transactions (snd (tool_design_rollback name label s)) = as_transactions s"
  "as_transaction_history (snd (tool_design_rollback name label s)) = as_transaction_history s"
  "as_snapshots (snd (tool_design_rollback name label s)) = as_snapshots s"
  "as_snapshots_ancillary (snd (tool_design_rollback name label s)) = as_snapshots_ancillary s"
  by (simp_all add: tool_design_rollback_def Let_def split: option.splits)

lemma commit_snapshots_tx [simp]:
  "as_transactions (snd (tool_design_commit name label s)) = as_transactions s"
  "as_transaction_history (snd (tool_design_commit name label s)) = as_transaction_history s"
  "as_designs (snd (tool_design_commit name label s)) = as_designs s"
  by (simp_all add: tool_design_commit_def clear_snapshots_def Let_def split: option.splits prod.splits)

lemma session_apply_inv:
  assumes "session_inv env s" "\<forall>i\<in>set (preview_ids [op]). nested_get (as_transactions s) i = None"
  shows "session_inv env (session_apply env op s)"
proof (cases op)
  case Preview
  then show ?thesis using assms by (simp add: preview_inv)
qed (use assms(1) in \<open>simp_all add: validate_inv commit_inv rollback_tx_inv session_inv_transfer\<close>)

lemma session_apply_ids:
  assumes "nested_get (as_transactions s) i = None" "i \<notin> set (preview_ids [op])"
  shows "nested_get (as_transactions (session_apply env op s)) i = None"
proof (cases op)
  case (CommitTx j approval)
  then show ?thesis using assms(1) by (cases rule: commit_cases [of env j approval s]) auto
qed (use assms in \<open>auto simp: tool_design_transaction_preview_def tool_design_transaction_validate_def
    tool_design_transaction_rollback_def preview_record_def Let_def split: option.splits sum.splits\<close>)

lemma preview_ids_Cons: "preview_ids (op # ops) = preview_ids [op] @ preview_ids ops"
  by (cases op) simp_all

lemma session_run_inv:
  "session_inv env s \<Longrightarrow> distinct (preview_ids ops) \<Longrightarrow> \<forall>i\<in>set (preview_ids ops). nested_get (as_transactions s) i = None
   \<Longrightarrow> session_inv env (session_run env ops s)"
proof (induction ops arbitrary: s)
  case (Cons op ops)
  have d: "distinct (preview_ids ops)" "set (preview_ids [op]) \<inter> set (preview_ids ops) = {}"
    "\<forall>i\<in>set (preview_ids [op]) \<union> set (preview_ids ops). nested_get (as_transactions s) i = None"
    using Cons.prems(2,3) unfolding preview_ids_Cons [of op ops] by auto
  then have "\<forall>i\<in>set (preview_ids ops). nested_get (as_transactions (session_apply env op s)) i = None"
    using session_apply_ids [of s _ op env] by blast
  then have "session_inv env (session_run env ops (session_apply env op s))"
    using Cons.IH [OF session_apply_inv] Cons.prems(1) d by blast
  then show ?case by (simp add: session_run_def)
qed (simp add: session_run_def)

lemma empty_session_inv: "session_inv env new_session"
  by (simp add: session_inv_def new_session_def nested_get_def commits_def)

lemma reachable_session_inv: "distinct (preview_ids ops) \<Longrightarrow> session_inv env (session_run env ops new_session)"
  by (rule session_run_inv [OF empty_session_inv]) (simp_all add: new_session_def nested_get_def)

section \<open>Snapshots are kept until touched\<close>

definition effective_label :: "nat \<Rightarrow> string option \<Rightarrow> string" where
  "effective_label now label = (case label of None \<Rightarrow> ''snap-'' @ str_of_nat now
     | Some l \<Rightarrow> if l = [] then ''snap-'' @ str_of_nat now else l)"

fun touches :: "string \<Rightarrow> string \<Rightarrow> 'v session_op \<Rightarrow> bool" where
  "touches name l (Snapshot now n label) = (n = name \<and> effective_label now label = l)"
| "touches name l (CommitSnapshots n label) = (n = name \<and> label \<in> {None, Some [], Some l})"
| "touches name l _ = False"

definition kept :: "string \<Rightarrow> string \<Rightarrow> 'v agent_session \<Rightarrow> design option \<times> 'v ancillary option" where
  "kept name l s = (dict_get (nested_dict (as_snapshots s) name) l, dict_get (nested_dict (as_snapshots_ancillary s) name) l)"

lemma nested_dict_set:
  "nested_dict (nested_set n l v x) m = (if m = n then dict_set l v (nested_dict x n) else nested_dict x m)"
  by (simp add: nested_set_def nested_dict_def nested_get_def pydict.get_put)

lemma nested_dict_pop:
  "dict_get (nested_dict (nested_pop n l x) m) k = (if m = n \<and> k = l then None else dict_get (nested_dict x m) k)"
  by (auto simp: nested_pop_def nested_dict_def nested_get_def pydict.get_put pydict.get_pop split: option.splits)

lemma nested_dict_clear: "nested_dict (Some (dict_set n [] x)) m = (if m = n then [] else nested_dict (Some x) m)"
  by (simp add: nested_dict_def nested_get_def pydict.get_put)

lemma kept_snapshot:
  "fst (tool_design_snapshot now n label s) = Inr sm \<Longrightarrow> ss_label sm = effective_label now label \<and> ss_design sm = n
   \<and> kept n (effective_label now label) (snd (tool_design_snapshot now n label s))
     = (dict_get (as_designs s) n, Some (take_ancillary n s))"
  by (auto simp: tool_design_snapshot_def effective_label_def Let_def summary_def kept_def nested_dict_set split: option.splits)

lemma kept_apply:
  assumes "\<not> touches name l op"
  shows "kept name l (session_apply env op s) = kept name l s"
proof (cases op)
  case (Snapshot now n label)
  then show ?thesis using assms
    by (auto simp: tool_design_snapshot_def effective_label_def [symmetric] Let_def kept_def nested_dict_set pydict.get_put
        split: option.splits)
next
  case (CommitSnapshots n label)
  then show ?thesis using assms
    by (auto simp: tool_design_commit_def clear_snapshots_def Let_def kept_def nested_dict_pop nested_dict_clear
        split: option.splits prod.splits if_splits)
next
  case (CommitTx i approval)
  then show ?thesis by (cases rule: commit_cases [of env i approval s]) (simp_all add: kept_def)
qed (simp_all add: kept_def tool_design_transaction_preview_def tool_design_transaction_validate_def
    tool_design_transaction_rollback_def Let_def split: option.splits sum.splits)

lemma kept_run: "list_all (\<lambda>op. \<not> touches name l op) ops \<Longrightarrow> kept name l (session_run env ops s) = kept name l s"
  by (induction ops arbitrary: s) (simp_all add: session_run_def kept_apply)

lemma nested_get_restore_key: "nested_get (restore_key n v x) m = (if m = n then v else nested_get x m)"
  by (cases x) (auto simp: restore_key_def nested_get_def pydict.get_put pydict.get_pop split: option.splits)

lemma restored_ancillary:
  "take_ancillary n (restore_ancillary n a s) = a"
  "m \<noteq> n \<Longrightarrow> take_ancillary m (restore_ancillary n a s) = take_ancillary m s"
  by (simp_all add: take_ancillary_def restore_ancillary_def nested_get_restore_key)

lemma take_ancillary_set_design [simp]: "take_ancillary m (set_design n d s) = take_ancillary m s"
  by (simp add: take_ancillary_def set_design_def)

section \<open>Well-formed designs stay well-formed\<close>

lemma get_map_nets: "dict_get (map (\<lambda>(k, n). (k, f n)) d) k = map_option f (dict_get d k)"
  by (induction d) (auto simp: dict_get_def)

lemma fold_pop_nets:
  assumes "dict_wf d"
  shows "dict_get (fold dict_pop (map fst (filter (\<lambda>(k, n). P n) d)) d) k
    = (case dict_get d k of None \<Rightarrow> None | Some n \<Rightarrow> if P n then None else Some n)"
proof -
  have "k \<in> set (map fst (filter (\<lambda>(k, n). P n) d)) \<longleftrightarrow> (\<exists>n. dict_get d k = Some n \<and> P n)"
    using assms by (force dest: dict_get_mem intro: dict_get_of_mem)
  then show ?thesis by (auto simp: pydict.get_fold_pop split: option.splits)
qed

lemma dict_wf_fold_pop: "dict_wf d \<Longrightarrow> dict_wf (fold dict_pop ks d)"
  by (induction ks arbitrary: d) (simp_all add: pydict.wf_pop)

lemma design_wf_iff:
  "design_wf d \<longleftrightarrow> dict_wf (des_components d) \<and> dict_wf (des_nets d)
     \<and> (\<forall>k c. dict_get (des_components d) k = Some c \<longrightarrow> k = comp_id c \<and> dict_wf (comp_pins c))
     \<and> (\<forall>k n. dict_get (des_nets d) k = Some n \<longrightarrow> k = net_id n)" (is "?L \<longleftrightarrow> ?R")
proof
  show ?R if ?L using that by (auto simp: design_wf_def list_all_iff dest!: dict_get_mem)
  show ?L if ?R using that by (auto simp: design_wf_def list_all_iff dest: dict_get_of_mem)
qed

lemma board_update_eq:
  assumes "apply_board_update env d ps = Inr d'"
  shows "\<exists>b. d' = d\<lparr> des_board := b \<rparr>"
proof -
  have "\<exists>b. x = d\<lparr> des_board := b \<rparr>" if "x = d" for x by (intro exI [of _ "des_board d"]) (simp add: that)
  then show ?thesis
    using assms by (auto simp: apply_board_update_def rbind_eq_Inr split: if_splits)
qed

lemma component_remove_eq:
  assumes "apply_component_remove env d ps = Inr d'" "dict_wf (des_nets d)"
  shows "\<exists>v c. need ps ''component_id'' = Inr v \<and> dict_get (des_components d) (py_str env v) = Some c
    \<and> des_components d' = dict_pop (py_str env v) (des_components d)
    \<and> (\<forall>k. dict_get (des_nets d') k = (case dict_get (des_nets d) k of None \<Rightarrow> None
        | Some n \<Rightarrow> if net_nodes (drop_ref (comp_ref c) n) = [] then None else Some (drop_ref (comp_ref c) n)))
    \<and> dict_wf (des_nets d')"
proof -
  from assms(1) obtain v c where vc: "need ps ''component_id'' = Inr v" "dict_get (des_components d) (py_str env v) = Some c"
    "d' = d\<lparr> des_components := dict_pop (py_str env v) (des_components d),
       des_nets := fold dict_pop (map fst (filter (\<lambda>(k, n). net_nodes n = [])
         (map (\<lambda>(k, n). (k, drop_ref (comp_ref c) n)) (des_nets d)))) (map (\<lambda>(k, n). (k, drop_ref (comp_ref c) n)) (des_nets d)) \<rparr>"
    by (auto simp: apply_component_remove_def rbind_eq_Inr Let_def split: option.splits)
  have wf: "dict_wf (map (\<lambda>(k, n). (k, drop_ref (comp_ref c) n)) (des_nets d))"
    using assms(2) by (simp add: dict_wf_def comp_def case_prod_beta)
  have "dict_get (des_nets d') k = (case dict_get (des_nets d) k of None \<Rightarrow> None
        | Some n \<Rightarrow> if net_nodes (drop_ref (comp_ref c) n) = [] then None else Some (drop_ref (comp_ref c) n))" for k
    unfolding vc(3) by (simp add: fold_pop_nets [OF wf] get_map_nets split: option.splits)
  then show ?thesis using vc dict_wf_fold_pop [OF wf] by auto
qed

section \<open>Properties\<close>

definition demo_erc :: "design \<Rightarrow> erc_violation list result" where
  "demo_erc = total_rule (\<lambda>_. [])"

definition demo_env :: tx_env where
  "demo_env = \<lparr> te_hash = (\<lambda>d. str_of_int (board_layers (des_board d))), te_erc = erc_run demo_erc demo_erc,
     te_float_str = (\<lambda>_. []), te_float_of_str = (\<lambda>_. Inr 0), te_int_of_str = (\<lambda>_. Inr 0), te_str = (\<lambda>_. []),
     te_validation_text = (\<lambda>_. []) \<rparr>"

definition demo_board :: design where
  "demo_board = mk_design ''d'' [] []"

definition demo_ops :: "unit session_op list" where
  "demo_ops = [SetDesign ''d'' demo_board, Preview ''u'' ''1'' ''s'' ''d'' ''board_update'' [(''layers'', PInt 4)] [],
     Validate ''tx-1'']"

lemma demo_commit: "is_ok (fst (tool_design_transaction_commit demo_env ''tx-1'' ''me'' (session_run demo_env demo_ops new_session)))"
  by code_simp

text \<open>
  C16: A successful commit installs exactly the previewed candidate at the name of its
  design and nothing else, only with an approval that is not blank, only when the primary
  design still has the hash it had at the preview, and only for a candidate that passes
  every blocking electrical rule. This holds in every session, whatever tools ran before,
  in any order, when the random transaction ids do not repeat.
\<close>

theorem tx_commit_sound:
  fixes ops :: "'v session_op list"
  assumes "distinct (preview_ids ops)" "s = session_run env ops new_session"
    and "te_erc env = erc_run erc014 erc028"
    and "tool_design_transaction_commit env i approval s = (Inr r, s')"
  shows "\<exists>t previous. nested_get (as_transactions s) i = Some t \<and> tx_state t = VALIDATED \<and> strip approval \<noteq> []
    \<and> dict_get (as_designs s) (tx_design_name t) = Some previous \<and> te_hash env previous = tx_parent_state_hash t
    \<and> passed (erc_run erc014 erc028 (tx_candidate t)) \<and> tx_preview_state_hash t = te_hash env (tx_candidate t)
    \<and> as_designs s' = dict_set (tx_design_name t) (tx_candidate t) (as_designs s)
    \<and> nested_get (as_transactions s') i = Some (commit_tx env approval t)"
proof (cases rule: commit_cases [of env i approval s])
  case (committed t previous)
  have "tx_ok env i t"
    using session_invD [OF reachable_session_inv [OF assms(1), of env]] committed(1) assms(2) by blast
  then show ?thesis using committed assms(3,4) by (auto simp: tx_ok_def)
qed (use assms(4) in simp_all)

theorem tx_commit_sound_witness:
  "\<exists>t. nested_get (as_transactions (session_run demo_env demo_ops new_session)) ''tx-1'' = Some t
    \<and> passed (erc_run demo_erc demo_erc (tx_candidate t))"
proof -
  let ?s = "session_run demo_env demo_ops new_session"
  obtain r where "fst (tool_design_transaction_commit demo_env ''tx-1'' ''me'' ?s) = Inr r"
    using demo_commit unfolding is_ok_iff by blast
  then have c: "tool_design_transaction_commit demo_env ''tx-1'' ''me'' ?s
      = (Inr r, snd (tool_design_transaction_commit demo_env ''tx-1'' ''me'' ?s))"
    by (simp add: prod_eq_iff)
  have "distinct (preview_ids demo_ops)" by (simp add: demo_ops_def)
  moreover have "te_erc demo_env = erc_run demo_erc demo_erc" by (simp add: demo_env_def)
  ultimately show ?thesis using tx_commit_sound [OF _ refl _ c] by blast
qed

text \<open>
  A transaction commits at most once: the history never holds two commits of one id,
  and once a transaction is committed, committing it again, validating it and rolling it
  back all fail and leave the session as it is.
\<close>

theorem tx_commits_once:
  fixes ops :: "'v session_op list"
  assumes "distinct (preview_ids ops)" "s = session_run env ops new_session"
  shows "length (commits i s) \<le> 1
    \<and> (\<forall>t. nested_get (as_transactions s) i = Some t \<longrightarrow> tx_state t = COMMITTED \<longrightarrow>
        commits i s = [transaction_public_record t]
        \<and> (\<exists>e. tool_design_transaction_commit env i approval s = (Inl e, s))
        \<and> (\<exists>e. tool_design_transaction_validate env i s = (Inl e, s))
        \<and> (\<exists>e. tool_design_transaction_rollback i s = (Inl e, s)))"
proof -
  have inv: "session_inv env s" unfolding assms(2) by (rule reachable_session_inv [OF assms(1)])
  then have e: "entry_ok env i (nested_get (as_transactions s) i) (commits i s)" by (simp add: session_inv_def)
  have "length (commits i s) \<le> 1" using e by (cases "nested_get (as_transactions s) i") auto
  moreover have "\<exists>e. tool_design_transaction_commit env i approval s = (Inl e, s)"
    if "nested_get (as_transactions s) i = Some t" "tx_state t = COMMITTED" for t
    using that by (cases rule: commit_cases [of env i approval s]) auto
  ultimately show ?thesis
    using e by (auto simp: tool_design_transaction_validate_def tool_design_transaction_rollback_def)
qed

theorem tx_commits_once_witness:
  "length (commits ''tx-1'' (session_run demo_env (demo_ops @ [CommitTx ''tx-1'' ''me'', CommitTx ''tx-1'' ''me'']) new_session)) \<le> 1"
proof -
  have "distinct (preview_ids (demo_ops @ [CommitTx ''tx-1'' ''me'', CommitTx ''tx-1'' ''me'']))" by (simp add: demo_ops_def)
  then show ?thesis using tx_commits_once [OF _ refl] by blast
qed

text \<open>
  A snapshot is a restore point: after it, whatever tools run except a new snapshot
  or a snapshot commit of the same design and label, rolling back to it succeeds and
  restores the design and its ancillary results as they were, and leaves every other
  design and its results alone.
\<close>

theorem snapshot_round_trip:
  fixes ops :: "'v session_op list"
  assumes "tool_design_snapshot now name label s = (Inr sm, s1)"
    and "list_all (\<lambda>op. \<not> touches name (ss_label sm) op) ops" "s2 = session_run env ops s1"
    and "tool_design_rollback name (ss_label sm) s2 = (r, s3)"
  shows "is_ok r \<and> dict_get (as_designs s3) name = dict_get (as_designs s) name
    \<and> take_ancillary name s3 = take_ancillary name s
    \<and> (\<forall>m. m = name \<or> dict_get (as_designs s3) m = dict_get (as_designs s2) m \<and> take_ancillary m s3 = take_ancillary m s2)"
proof -
  obtain d where d: "dict_get (as_designs s) name = Some d"
    using assms(1) by (cases "dict_get (as_designs s) name") (auto simp: tool_design_snapshot_def)
  have "kept name (ss_label sm) s1 = (Some d, Some (take_ancillary name s))"
    using kept_snapshot [of now name label s sm] assms(1) d by simp
  then have k: "dict_get (nested_dict (as_snapshots s2) name) (ss_label sm) = Some d"
    "dict_get (nested_dict (as_snapshots_ancillary s2) name) (ss_label sm) = Some (take_ancillary name s)"
    using kept_run [OF assms(2), of env s1] by (simp_all add: assms(3) kept_def)
  then have "r = Inr (summary name (ss_label sm) d)"
    "s3 = restore_ancillary name (take_ancillary name s) (set_design name d s2)"
    using assms(4) by (simp_all add: tool_design_rollback_def)
  then show ?thesis using d by (auto simp: restored_ancillary pydict.get_put)
qed

definition demo_start :: "nat agent_session" where
  "demo_start = new_session\<lparr> as_designs := [(''d'', demo_board)], as_positions := Some [(''d'', 7)] \<rparr>"

definition demo_edits :: "nat session_op list" where
  "demo_edits = [SetDesign ''d'' (mk_design ''x'' [] []),
     SetResults ''d'' \<lparr> an_positions = None, an_erc_results = Some 3, an_drc_results = None, an_routing_results = None \<rparr>]"

theorem snapshot_round_trip_witness:
  "take_ancillary ''d'' (snd (tool_design_rollback ''d'' ''a''
      (session_run demo_env demo_edits (snd (tool_design_snapshot 0 ''d'' (Some ''a'') demo_start)))))
   = \<lparr> an_positions = Some 7, an_erc_results = None, an_drc_results = None, an_routing_results = None \<rparr>"
proof -
  let ?s1 = "snd (tool_design_snapshot 0 ''d'' (Some ''a'') demo_start)"
  let ?s2 = "session_run demo_env demo_edits ?s1"
  have snap: "tool_design_snapshot 0 ''d'' (Some ''a'') demo_start = (Inr (summary ''d'' ''a'' demo_board), ?s1)"
    by (simp add: tool_design_snapshot_def demo_start_def dict_get_def Let_def)
  have "list_all (\<lambda>op. \<not> touches ''d'' (ss_label (summary ''d'' ''a'' demo_board)) op) demo_edits"
    by (simp add: demo_edits_def)
  moreover have "tool_design_rollback ''d'' (ss_label (summary ''d'' ''a'' demo_board)) ?s2
      = (fst (tool_design_rollback ''d'' ''a'' ?s2), snd (tool_design_rollback ''d'' ''a'' ?s2))"
    by (simp add: summary_def)
  ultimately have "take_ancillary ''d'' (snd (tool_design_rollback ''d'' ''a'' ?s2)) = take_ancillary ''d'' demo_start"
    using snapshot_round_trip [OF snap _ refl] by blast
  then show ?thesis
    by (simp add: take_ancillary_def demo_start_def new_session_def nested_get_def dict_get_def)
qed

text \<open>
  C35: Every transaction operation keeps a design well-formed: keys unique, components and
  nets stored under their own ids. A removal takes out exactly the component, every node
  with its reference, and the nets left without nodes.
\<close>

theorem transaction_operation_wf:
  assumes "design_wf d" "apply_transaction_operation env uuid d operation ps = Inr d'"
  shows "design_wf d' \<and> (operation = ''component_remove'' \<longrightarrow>
    (\<exists>v c. need ps ''component_id'' = Inr v \<and> dict_get (des_components d) (py_str env v) = Some c
      \<and> des_components d' = dict_pop (py_str env v) (des_components d)
      \<and> (\<forall>k. dict_get (des_nets d') k = (case dict_get (des_nets d) k of None \<Rightarrow> None
          | Some n \<Rightarrow> if net_nodes (drop_ref (comp_ref c) n) = [] then None else Some (drop_ref (comp_ref c) n)))))"
proof -
  have wf: "dict_wf (des_nets d)" using assms(1) by (simp add: design_wf_def)
  consider (board) "operation = ''board_update''" "apply_board_update env d ps = Inr d'"
    | (add) "operation = ''component_add''" "apply_component_add env uuid d ps = Inr d'"
    | (remove) "operation = ''component_remove''" "apply_component_remove env d ps = Inr d'"
    using assms(2) by (auto simp: apply_transaction_operation_def split: if_splits)
  then show ?thesis
  proof cases
    case board
    then show ?thesis using assms(1) board_update_eq [OF board(2)] by (auto simp: design_wf_def)
  next
    case add
    then show ?thesis using assms(1)
      by (auto simp: apply_component_add_def rbind_eq_Inr Let_def design_wf_iff pydict.get_put pydict.wf_put mk_component_def
          split: if_splits)
  next
    case remove
    obtain v c where vc: "need ps ''component_id'' = Inr v" "dict_get (des_components d) (py_str env v) = Some c"
      "des_components d' = dict_pop (py_str env v) (des_components d)" "dict_wf (des_nets d')"
      and nets: "\<And>k. dict_get (des_nets d') k = (case dict_get (des_nets d) k of None \<Rightarrow> None
          | Some n \<Rightarrow> if net_nodes (drop_ref (comp_ref c) n) = [] then None else Some (drop_ref (comp_ref c) n))"
      using component_remove_eq [OF remove(2) wf] by blast
    have "k = net_id n" if "dict_get (des_nets d') k = Some n" for k n
      using that assms(1) unfolding nets design_wf_iff by (auto simp: drop_ref_def split: option.splits if_splits)
    then have "design_wf d'"
      using assms(1) vc unfolding design_wf_iff by (simp add: pydict.get_pop pydict.wf_pop)
    then show ?thesis using vc nets by blast
  qed
qed

theorem transaction_operation_wf_witness:
  "design_wf (demo_board\<lparr> des_board := default_board\<lparr> board_layers := 4 \<rparr> \<rparr>)"
proof -
  have "apply_transaction_operation demo_env ''u'' demo_board ''board_update'' [(''layers'', PInt 4)]
      = Inr (demo_board\<lparr> des_board := default_board\<lparr> board_layers := 4 \<rparr> \<rparr>)"
    by (simp add: apply_transaction_operation_def apply_board_update_def param_def dict_get_def demo_board_def mk_design_def)
  moreover have "design_wf demo_board" by code_simp
  ultimately show ?thesis using transaction_operation_wf by blast
qed

text \<open>
  Board sizes are not checked: a negative width is installed as given, although the
  function is documented as applying bounded updates.
\<close>

lemma board_update_unbounded:
  "apply_board_update env d [(''width_mm'', PFloat x)] = Inr (d\<lparr> des_board := (des_board d)\<lparr> board_width_mm := x \<rparr> \<rparr>)"
  by (simp add: apply_board_update_def param_def dict_get_def)

text \<open>
  Clearing the snapshots of a session that never took one raises \<^verbatim>\<open>KeyError\<close>, while clearing
  those of another design, or listing, treats the missing table as empty.
\<close>

lemma commit_without_snapshots:
  "tool_design_commit name None (new_session :: 'v agent_session) = (Inl (KeyError ''snapshots''), new_session)"
  by (simp add: tool_design_commit_def clear_snapshots_def new_session_def)

end
