(* ===== verification/Object_Access.thy ===== *)
theory Object_Access
  imports State_Store
begin

text \<open>
  \<^verbatim>\<open>src/zaptrace/security/objects.py\<close> over the access and audit tables of the state store:
  ownership, delegation and inheritance of access to session-scoped objects. The cache, the
  event list and the optional database form one state; every function returns its result
  together with the state, because some of its error paths change it. Random ids and times
  are drawn from two streams, at positions counted in the state.

  \<^verbatim>\<open>authorize_object\<close> and \<^verbatim>\<open>remove_object_access\<close> call themselves along the parent columns.
  Their first argument is the number of nested calls Python's recursion limit leaves; when
  it is used up they raise \<^verbatim>\<open>RecursionError\<close>, as the interpreter does.
\<close>

section \<open>State\<close>

record request_principal =
  rp_principal_id :: string
  rp_actor :: string
  rp_scopes :: "string list"
  rp_authenticated :: bool
  rp_local_development :: bool

definition is_admin :: "request_principal \<Rightarrow> bool" where
  "is_admin p = (''object-admin'' \<in> set (rp_scopes p))"

record object_access_record =
  oar_object_type :: string
  oar_object_id :: string
  oar_owner_principal :: string
  oar_delegates :: "string set"
  oar_parent_object_type :: string
  oar_parent_object_id :: string
  oar_created_at :: string

record authorization_event =
  av_event_id :: string
  av_timestamp :: string
  av_principal_id :: string
  av_actor :: string
  av_authenticated :: bool
  av_object_type :: string
  av_object_id :: string
  av_parent_object_type :: string
  av_parent_object_id :: string
  av_action :: string
  av_decision :: string
  av_reason :: string
  av_request_id :: string

record access_env =
  oe_codec :: codec
  oe_uuid :: "nat \<Rightarrow> string"
  oe_now :: "nat \<Rightarrow> string"

type_synonym object_key = "string \<times> string"

record access_state =
  oa_cache :: "(object_key, object_access_record) dict"
  oa_events :: "authorization_event list"
  oa_db :: "state_db option"
  oa_tick :: nat

definition denied :: "string \<Rightarrow> py_error" where
  "denied msg = AdapterError ''ObjectAccessDeniedError'' msg"

fun is_denied :: "py_error \<Rightarrow> bool" where
  "is_denied (AdapterError n m) = (n = ''ObjectAccessDeniedError'')"
| "is_denied _ = False"

definition recursion_error :: py_error where
  "recursion_error = AdapterError ''RecursionError'' ''maximum recursion depth exceeded''"

definition TARGET_OBJECT_DENIED :: string where
  "TARGET_OBJECT_DENIED = ''principal is not authorized for the target object''"

definition DELEGATE_PRINCIPAL_REQUIRED :: string where
  "DELEGATE_PRINCIPAL_REQUIRED = ''delegate principal is required''"

definition object_key :: "string \<Rightarrow> string \<Rightarrow> object_key" where
  "object_key oty oid = (lower (strip oty), strip oid)"

section \<open>Persistence\<close>

definition record_to_payload :: "object_access_record \<Rightarrow> access_payload" where
  "record_to_payload r = \<lparr> ap_object_type = oar_object_type r, ap_object_id = oar_object_id r,
     ap_owner_principal = oar_owner_principal r, ap_delegates = sorted_list_of_set (oar_delegates r),
     ap_parent_object_type = oar_parent_object_type r, ap_parent_object_id = oar_parent_object_id r,
     ap_created_at = oar_created_at r \<rparr>"

definition record_from_payload :: "string \<Rightarrow> access_payload \<Rightarrow> object_access_record" where
  "record_from_payload now p = \<lparr> oar_object_type = ap_object_type p, oar_object_id = ap_object_id p,
     oar_owner_principal = ap_owner_principal p, oar_delegates = set (ap_delegates p),
     oar_parent_object_type = ap_parent_object_type p, oar_parent_object_id = ap_parent_object_id p,
     oar_created_at = (if ap_created_at p \<noteq> [] then ap_created_at p else now) \<rparr>"

definition persist_object_access ::
  "access_env \<Rightarrow> object_access_record \<Rightarrow> access_state \<Rightarrow> unit result \<times> access_state" where
  "persist_object_access env r st =
     (case oa_db st of
        None \<Rightarrow> (Inr (), st)
      | Some db \<Rightarrow>
          (case upsert_object_access (oe_codec env) (oe_now env (oa_tick st)) (record_to_payload r) db of
             Inl e \<Rightarrow> (Inl e, st)
           | Inr db' \<Rightarrow> (Inr (), st\<lparr> oa_db := Some db' \<rparr>)))"

definition get_object_access ::
  "access_env \<Rightarrow> string \<Rightarrow> string \<Rightarrow> access_state \<Rightarrow> object_access_record option result \<times> access_state" where
  "get_object_access env oty oid st =
     (let k = object_key oty oid in
      case dict_get (oa_cache st) k of
        Some r \<Rightarrow> (Inr (Some r), st)
      | None \<Rightarrow>
          (case oa_db st of
             None \<Rightarrow> (Inr None, st)
           | Some db \<Rightarrow>
               (case load_object_access (oe_codec env) (fst k) (snd k) db of
                  Inl e \<Rightarrow> (Inl e, st)
                | Inr None \<Rightarrow> (Inr None, st)
                | Inr (Some p) \<Rightarrow>
                    (let r = record_from_payload (oe_now env (oa_tick st)) p
                     in (Inr (Some r), st\<lparr> oa_cache := dict_set k r (oa_cache st) \<rparr>)))))"

text \<open>\<^verbatim>\<open>append_object_authorization_event\<close> of the state store: the session the event is filed under.\<close>

definition event_session_id :: "authorization_event \<Rightarrow> string" where
  "event_session_id ev =
     (let sid = (if av_object_type ev = ''session'' then av_object_id ev
                 else if av_parent_object_type ev = ''session'' then av_parent_object_id ev else [])
      in if sid = [] then ''object:'' @ av_object_type ev @ '':'' @ av_object_id ev else sid)"

definition event_strings :: "authorization_event \<Rightarrow> (string, string) dict" where
  "event_strings ev =
     [(''event_id'', av_event_id ev), (''timestamp'', av_timestamp ev), (''surface'', ''object-authorization''),
      (''principal_id'', av_principal_id ev), (''actor'', av_actor ev), (''object_type'', av_object_type ev),
      (''object_id'', av_object_id ev), (''parent_object_type'', av_parent_object_type ev),
      (''parent_object_id'', av_parent_object_id ev), (''action'', av_action ev), (''decision'', av_decision ev),
      (''reason'', av_reason ev), (''request_id'', av_request_id ev)]"

definition event_dict :: "authorization_event \<Rightarrow> (string \<times> pyval) list" where
  "event_dict ev = (''authenticated'', PBool (av_authenticated ev)) # map (\<lambda>(k, v). (k, PStr v)) (event_strings ev)"

definition append_object_authorization_event ::
  "codec \<Rightarrow> string \<Rightarrow> authorization_event \<Rightarrow> state_db \<Rightarrow> state_db result" where
  "append_object_authorization_event c now ev db =
     append_audit_event c now
       \<lparr> ev_fields = (''session_id'', event_session_id ev) # event_strings ev, ev_metadata = [],
         ev_payload = PDict ((''session_id'', PStr (event_session_id ev)) # event_dict ev) \<rparr> db"

definition record_authorization_event ::
  "access_env \<Rightarrow> request_principal \<Rightarrow> string \<Rightarrow> string \<Rightarrow> string \<Rightarrow> string \<Rightarrow> string \<Rightarrow> string
   \<Rightarrow> access_state \<Rightarrow> unit result \<times> access_state" where
  "record_authorization_event env p oty oid action decision reason rid st =
     (let access = dict_get (oa_cache st) (object_key oty oid);
          ev = \<lparr> av_event_id = oe_uuid env (oa_tick st), av_timestamp = oe_now env (oa_tick st),
                 av_principal_id = rp_principal_id p, av_actor = rp_actor p, av_authenticated = rp_authenticated p,
                 av_object_type = oty, av_object_id = oid,
                 av_parent_object_type = (case access of None \<Rightarrow> [] | Some r \<Rightarrow> oar_parent_object_type r),
                 av_parent_object_id = (case access of None \<Rightarrow> [] | Some r \<Rightarrow> oar_parent_object_id r),
                 av_action = action, av_decision = decision, av_reason = reason, av_request_id = rid \<rparr>;
          st1 = st\<lparr> oa_events := oa_events st @ [ev], oa_tick := Suc (oa_tick st) \<rparr> in
      case oa_db st1 of
        None \<Rightarrow> (Inr (), st1)
      | Some db \<Rightarrow>
          (case append_object_authorization_event (oe_codec env) (oe_now env (oa_tick st1)) ev db of
             Inl e \<Rightarrow> (Inl e, st1)
           | Inr db' \<Rightarrow> (Inr (), st1\<lparr> oa_db := Some db' \<rparr>)))"

section \<open>Sequencing\<close>

text \<open>\<^verbatim>\<open>try: m except ObjectAccessDeniedError\<close>: whether \<open>m\<close> was allowed.\<close>

definition try_denied :: "('s \<Rightarrow> 'a result \<times> 's) \<Rightarrow> 's \<Rightarrow> bool result \<times> 's" where
  "try_denied m s =
     (case m s of
        (Inr _, s') \<Rightarrow> (Inr True, s')
      | (Inl e, s') \<Rightarrow> if is_denied e then (Inr False, s') else (Inl e, s'))"

section \<open>Authorization\<close>

definition claim_object ::
  "access_env \<Rightarrow> string \<Rightarrow> string \<Rightarrow> request_principal \<Rightarrow> string \<Rightarrow> string \<Rightarrow> string \<Rightarrow> string
   \<Rightarrow> access_state \<Rightarrow> object_access_record result \<times> access_state" where
  "claim_object env oty oid p action rid pty pid st =
     (let r = \<lparr> oar_object_type = oty, oar_object_id = oid, oar_owner_principal = rp_principal_id p, oar_delegates = {},
                oar_parent_object_type = lower (strip pty), oar_parent_object_id = strip pid,
                oar_created_at = oe_now env (oa_tick st) \<rparr> in
      sbind (supdate (\<lambda>st. st\<lparr> oa_cache := dict_set (oty, oid) r (oa_cache st) \<rparr>)) (\<lambda>_.
      sbind (persist_object_access env r) (\<lambda>_.
      sbind (record_authorization_event env p oty oid action ''allow'' ''object claimed by principal'' rid) (\<lambda>_.
        sreturn r))) st)"

definition direct_access_decision :: "object_access_record \<Rightarrow> request_principal \<Rightarrow> bool \<times> string" where
  "direct_access_decision r p =
     (if is_admin p then (True, ''administrator override'')
      else if rp_principal_id p = oar_owner_principal r then (True, ''object owner'')
      else if rp_principal_id p \<in> oar_delegates r then (True, ''delegated object access'')
      else (False, ''principal is not owner, delegate, or administrator''))"

definition parent_access_decision ::
  "object_access_record \<Rightarrow> bool \<times> string \<Rightarrow> ('s \<Rightarrow> 'a result \<times> 's) \<Rightarrow> 's \<Rightarrow> (bool \<times> string) result \<times> 's" where
  "parent_access_decision r direct authorize_parent =
     (if oar_parent_object_type r = [] \<or> oar_parent_object_id r = [] then sreturn direct
      else sbind (try_denied authorize_parent) (\<lambda>parent_allowed.
        sreturn (if \<not> parent_allowed then (False, ''principal is not authorized for the parent object'')
                 else if fst direct then (True, snd direct)
                 else (True, ''access inherited from authorized parent object''))))"

fun authorize_object ::
  "nat \<Rightarrow> access_env \<Rightarrow> string \<Rightarrow> string \<Rightarrow> request_principal \<Rightarrow> string \<Rightarrow> string \<Rightarrow> bool \<Rightarrow> string \<Rightarrow> string
   \<Rightarrow> access_state \<Rightarrow> object_access_record result \<times> access_state" where
  "authorize_object 0 env oty oid p action rid allow_claim pty pid = sraise recursion_error"
| "authorize_object (Suc n) env oty oid p action rid allow_claim pty pid =
     (let k = object_key oty oid; event = record_authorization_event env p (fst k) (snd k) action in
      if snd k = [] then
        sbind (event ''deny'' ''empty object identifier'' rid) (\<lambda>_. sraise (denied ''object identifier is required''))
      else
        sbind (get_object_access env (fst k) (snd k)) (\<lambda>found.
          case found of
            None \<Rightarrow>
              if allow_claim then claim_object env (fst k) (snd k) p action rid pty pid
              else sbind (event ''deny'' ''object is not registered for this principal'' rid)
                     (\<lambda>_. sraise (denied TARGET_OBJECT_DENIED))
          | Some r \<Rightarrow>
              sbind (parent_access_decision r (direct_access_decision r p)
                       (authorize_object n env (oar_parent_object_type r) (oar_parent_object_id r) p
                          (''parent:'' @ action) rid False [] [])) (\<lambda>(allowed, reason).
              sbind (event (if allowed then ''allow'' else ''deny'') reason rid) (\<lambda>_.
                if allowed then sreturn r else sraise (denied TARGET_OBJECT_DENIED)))))"

definition change_delegates ::
  "access_env \<Rightarrow> string \<Rightarrow> string \<Rightarrow> request_principal \<Rightarrow> string \<Rightarrow> string \<Rightarrow> string \<Rightarrow> string \<Rightarrow> string
   \<Rightarrow> (string \<Rightarrow> string set \<Rightarrow> string set) \<Rightarrow> object_access_record
   \<Rightarrow> access_state \<Rightarrow> object_access_record result \<times> access_state" where
  "change_delegates env oty oid p delegate action deny_reason done_text rid change r =
     (let event = record_authorization_event env p (oar_object_type r) (oar_object_id r) action in
      if \<not> is_admin p \<and> rp_principal_id p \<noteq> oar_owner_principal r then
        sbind (event ''deny'' (''only owner or administrator may '' @ deny_reason @ '' access'') rid) (\<lambda>_.
          sraise (denied (''only owner or administrator may '' @ deny_reason @ '' object access'')))
      else if strip delegate = [] then
        sbind (event ''deny'' DELEGATE_PRINCIPAL_REQUIRED rid) (\<lambda>_. sraise (ValueError DELEGATE_PRINCIPAL_REQUIRED))
      else
        (let r' = r\<lparr> oar_delegates := change (strip delegate) (oar_delegates r) \<rparr> in
         sbind (supdate (\<lambda>st. st\<lparr> oa_cache := dict_set (object_key oty oid) r' (oa_cache st) \<rparr>)) (\<lambda>_.
         sbind (persist_object_access env r') (\<lambda>_.
         sbind (event ''allow'' (done_text @ strip delegate) rid) (\<lambda>_. sreturn r')))))"

definition delegate_object_access ::
  "nat \<Rightarrow> access_env \<Rightarrow> string \<Rightarrow> string \<Rightarrow> request_principal \<Rightarrow> string \<Rightarrow> string
   \<Rightarrow> access_state \<Rightarrow> object_access_record result \<times> access_state" where
  "delegate_object_access n env oty oid p delegate rid =
     sbind (get_object_access env oty oid) (\<lambda>found.
     sbind (case found of Some r \<Rightarrow> sreturn r
            | None \<Rightarrow> authorize_object n env oty oid p ''delegate'' rid False [] [])
       (change_delegates env oty oid p delegate ''delegate'' ''delegate'' ''delegated access to '' rid insert))"

definition revoke_object_access ::
  "access_env \<Rightarrow> string \<Rightarrow> string \<Rightarrow> request_principal \<Rightarrow> string \<Rightarrow> string
   \<Rightarrow> access_state \<Rightarrow> object_access_record result \<times> access_state" where
  "revoke_object_access env oty oid p delegate rid =
     (let k = object_key oty oid in
      sbind (get_object_access env (fst k) (snd k)) (\<lambda>found.
        case found of
          None \<Rightarrow>
            sbind (record_authorization_event env p (fst k) (snd k) ''revoke-delegate'' ''deny''
                     ''object is not registered for this principal'' rid)
              (\<lambda>_. sraise (denied TARGET_OBJECT_DENIED))
        | Some r \<Rightarrow>
            change_delegates env (fst k) (snd k) p delegate ''revoke-delegate'' ''revoke'' ''revoked delegated access from ''
              rid (\<lambda>x ds. ds - {x}) r))"

definition cached_children :: "object_key \<Rightarrow> access_state \<Rightarrow> object_key list" where
  "cached_children k st =
     map fst (filter (\<lambda>(_, r). (oar_parent_object_type r, oar_parent_object_id r) = k) (oa_cache st))"

definition delete_stored_access ::
  "object_key \<Rightarrow> bool \<Rightarrow> access_state \<Rightarrow> unit result \<times> access_state" where
  "delete_stored_access k cascade st =
     (case oa_db st of
        None \<Rightarrow> (Inr (), st)
      | Some db \<Rightarrow>
          (case delete_object_access (fst k) (snd k) cascade db of
             Inl e \<Rightarrow> (Inl e, st)
           | Inr (_, db') \<Rightarrow> (Inr (), st\<lparr> oa_db := Some db' \<rparr>)))"

fun remove_object_access :: "nat \<Rightarrow> string \<Rightarrow> string \<Rightarrow> bool \<Rightarrow> access_state \<Rightarrow> unit result \<times> access_state" where
  "remove_object_access 0 oty oid cascade = sraise recursion_error"
| "remove_object_access (Suc n) oty oid cascade =
     (let k = object_key oty oid in
      sbind (supdate (\<lambda>st. st\<lparr> oa_cache := dict_pop k (oa_cache st) \<rparr>)) (\<lambda>_.
      sbind (delete_stored_access k cascade) (\<lambda>_ st.
        if cascade
        then sfor (cached_children k st) (\<lambda>(cty, cid). remove_object_access n cty cid True) st
        else sreturn () st)))"

definition reset_object_authorization_state :: "access_state \<Rightarrow> access_state" where
  "reset_object_authorization_state st = st\<lparr> oa_cache := [], oa_events := [] \<rparr>"

section \<open>Listing events\<close>

definition dict_str :: "(string \<times> pyval) list \<Rightarrow> string \<Rightarrow> string option" where
  "dict_str d k = (case map_of d k of Some (PStr s) \<Rightarrow> Some s | _ \<Rightarrow> None)"

definition opt_eq :: "string option \<Rightarrow> string option \<Rightarrow> bool" where
  "opt_eq want got = (case want of None \<Rightarrow> True | Some w \<Rightarrow> got = Some w)"

definition last_n :: "int \<Rightarrow> 'a list \<Rightarrow> 'a list" where
  "last_n limit xs = drop (length xs - nat (max 1 limit)) xs"

definition load_object_authorization_events ::
  "codec \<Rightarrow> string option \<Rightarrow> string option \<Rightarrow> string option \<Rightarrow> string option \<Rightarrow> string option \<Rightarrow> int \<Rightarrow> state_db
   \<Rightarrow> (string \<times> pyval) list list result" where
  "load_object_authorization_events c oty oid pty pid who limit db =
     rbind (rmap (\<lambda>a. case c_loads c (au_payload_json a) of
                        None \<Rightarrow> Inl (StateStoreCorruptionError ''stored object authorization event is invalid'')
                      | Some v \<Rightarrow> Inr v)
              (filter (\<lambda>a. au_surface a = ''object-authorization'' \<and> opt_eq oty (Some (au_object_type a))
                 \<and> opt_eq oid (Some (au_object_id a)) \<and> opt_eq who (Some (au_principal_id a))) (dict_values (db_audit db))))
       (\<lambda>vs. Inr (last_n limit (filter (\<lambda>d. opt_eq pty (dict_str d ''parent_object_type'')
                 \<and> opt_eq pid (dict_str d ''parent_object_id''))
               (option_list (map (\<lambda>v. case v of PDict d \<Rightarrow> Some d | _ \<Rightarrow> None) vs)))))"

definition object_authorization_events ::
  "access_env \<Rightarrow> string option \<Rightarrow> string option \<Rightarrow> string option \<Rightarrow> string option \<Rightarrow> string option \<Rightarrow> int \<Rightarrow> access_state
   \<Rightarrow> (string \<times> pyval) list list result" where
  "object_authorization_events env oty oid pty pid who limit st =
     rbind (case oa_db st of None \<Rightarrow> Inr []
            | Some db \<Rightarrow> load_object_authorization_events (oe_codec env) oty oid pty pid who limit db) (\<lambda>persisted.
       let events = map event_dict (filter (\<lambda>ev. opt_eq oty (Some (av_object_type ev)) \<and> opt_eq oid (Some (av_object_id ev))
              \<and> opt_eq pty (Some (av_parent_object_type ev)) \<and> opt_eq pid (Some (av_parent_object_id ev))
              \<and> opt_eq who (Some (av_principal_id ev))) (oa_events st));
           ident = (\<lambda>d. case dict_str d ''event_id'' of Some s \<Rightarrow> if s \<noteq> [] then s else c_str (oe_codec env) (PDict d)
                        | None \<Rightarrow> c_str (oe_codec env) (PDict d));
           combined = dict_comp ident (\<lambda>d. d) (persisted @ events)
       in Inr (last_n limit (sort_key (\<lambda>d. case dict_str d ''timestamp'' of Some s \<Rightarrow> s | None \<Rightarrow> []) (dict_values combined))))"

section \<open>What an authorization sees\<close>

definition core :: "object_access_record \<Rightarrow> object_access_record" where
  "core r = r\<lparr> oar_created_at := [] \<rparr>"

definition view :: "access_env \<Rightarrow> access_state \<Rightarrow> string \<Rightarrow> string \<Rightarrow> object_access_record option" where
  "view env st oty oid =
     (case fst (get_object_access env oty oid st) of Inl _ \<Rightarrow> None | Inr x \<Rightarrow> map_option core x)"

text \<open>A sound state: events get ids, and a configured database is sound and its delegate lists parse.\<close>

definition st_ok :: "access_env \<Rightarrow> access_state \<Rightarrow> bool" where
  "st_ok env st = ((\<forall>t. oe_uuid env t \<noteq> []) \<and>
     (\<forall>db. oa_db st = Some db \<longrightarrow> db_inv (oe_codec env) db
        \<and> (\<forall>k r. dict_get (db_access db) k = Some r \<longrightarrow> (\<exists>ds. c_loads (oe_codec env) (acc_delegates_json r) = Some (PList ds)))))"

definition stored :: "access_state \<Rightarrow> (object_key, access_row) dict option" where
  "stored st = map_option db_access (oa_db st)"

lemma is_space_lower: "is_space (lower_char c) = is_space c"
proof (cases "65 \<le> (of_char c :: nat) \<and> (of_char c :: nat) \<le> 90")
  case True
  then have "(of_char (lower_char c) :: nat) = of_char c + 32" by (simp add: lower_char_def Let_def)
  then show ?thesis using True by (simp add: is_space_def Let_def)
qed (auto simp: lower_char_def Let_def)

lemma strip_lower: "strip (lower s) = lower (strip s)"
proof -
  have "dropWhile is_space (map lower_char xs) = map lower_char (dropWhile is_space xs)" for xs
    by (simp add: dropWhile_map comp_def is_space_lower)
  then show ?thesis by (simp add: strip_def lower_def rev_map)
qed

lemma dropWhile_fix: "dropWhile P xs = xs \<Longrightarrow> dropWhile P (rev (dropWhile P (rev xs))) = rev (dropWhile P (rev xs))"
proof -
  assume fixed: "dropWhile P xs = xs"
  show ?thesis
  proof (cases "rev (dropWhile P (rev xs))")
    case (Cons y ys)
    have "xs = rev (dropWhile P (rev xs)) @ rev (takeWhile P (rev xs))"
      by (metis rev_append rev_rev_ident takeWhile_dropWhile_id)
    then have "hd xs = y" "xs \<noteq> []" unfolding Cons by (metis append_Cons list.sel(1), auto)
    then have "\<not> P y" using fixed by (metis hd_dropWhile)
    then show ?thesis unfolding Cons by simp
  next
    case Nil
    then show ?thesis unfolding Nil by simp
  qed
qed

lemma strip_strip [simp]: "strip (strip s) = strip s"
proof -
  let ?t = "dropWhile is_space s"
  have "dropWhile is_space ?t = ?t" by simp
  from dropWhile_fix [OF this] show ?thesis by (simp add: strip_def)
qed

lemma object_key_idem [simp]: "object_key (fst (object_key a b)) (snd (object_key a b)) = object_key a b"
  by (simp add: object_key_def strip_lower)

lemma object_key_idem' [simp]: "object_key (lower (strip a)) (strip b) = object_key a b"
  by (simp add: object_key_def strip_lower)

lemma get_object_access_key [simp]:
  "get_object_access env (fst (object_key a b)) (snd (object_key a b)) st = get_object_access env a b st"
  by (simp add: get_object_access_def)

lemma load_object_access_tbl:
  "load_object_access c oty oid db =
     (case dict_get (db_access db) (object_key oty oid) of
        None \<Rightarrow> Inr None
      | Some r \<Rightarrow>
          (case c_loads c (acc_delegates_json r) of
             None \<Rightarrow> Inl (StateStoreCorruptionError ''stored object access delegates are invalid'')
           | Some (PList ds) \<Rightarrow>
               Inr (Some \<lparr> ap_object_type = fst (object_key oty oid), ap_object_id = snd (object_key oty oid),
                           ap_owner_principal = acc_owner_principal r, ap_delegates = map (delegate_str c) ds,
                           ap_parent_object_type = acc_parent_object_type r,
                           ap_parent_object_id = acc_parent_object_id r, ap_created_at = acc_created_at r \<rparr>)
           | Some _ \<Rightarrow> Inl (StateStoreCorruptionError ''stored object access delegates are not a list'')))"
  unfolding load_object_access_def Let_def object_key_def fst_conv snd_conv by (rule refl)

text \<open>The lookup depends on the cache and the access table only.\<close>

lemma view_eq:
  "view env st oty oid =
     (case dict_get (oa_cache st) (object_key oty oid) of
        Some r \<Rightarrow> Some (core r)
      | None \<Rightarrow>
          (case stored st of
             None \<Rightarrow> None
           | Some tbl \<Rightarrow>
               (case dict_get tbl (object_key oty oid) of
                  None \<Rightarrow> None
                | Some r \<Rightarrow>
                    (case c_loads (oe_codec env) (acc_delegates_json r) of
                       Some (PList ds) \<Rightarrow>
                         Some \<lparr> oar_object_type = fst (object_key oty oid), oar_object_id = snd (object_key oty oid),
                                oar_owner_principal = acc_owner_principal r,
                                oar_delegates = set (map (delegate_str (oe_codec env)) ds),
                                oar_parent_object_type = acc_parent_object_type r,
                                oar_parent_object_id = acc_parent_object_id r, oar_created_at = [] \<rparr>
                     | _ \<Rightarrow> None))))"
  by (auto simp: view_def get_object_access_def stored_def load_object_access_tbl Let_def record_from_payload_def core_def
      split: option.splits pyval.splits)

lemma view_cong:
  assumes "oa_cache st' = oa_cache st" "stored st' = stored st"
  shows "view env st' = view env st"
  unfolding fun_eq_iff view_eq assms by simp

lemma get_object_access_ok:
  assumes "st_ok env st"
  shows "\<exists>x st'. get_object_access env oty oid st = (Inr x, st') \<and> st_ok env st' \<and> view env st' = view env st
    \<and> map_option core x = view env st oty oid \<and> oa_events st' = oa_events st
    \<and> (\<forall>r. x = Some r \<longrightarrow> dict_get (oa_cache st') (object_key oty oid) = Some r)"
proof (cases "dict_get (oa_cache st) (object_key oty oid)")
  case (Some r)
  then show ?thesis using assms by (simp add: get_object_access_def Let_def view_eq)
next
  case None
  show ?thesis
  proof (cases "oa_db st")
    case (Some db)
    show ?thesis
    proof (cases "dict_get (db_access db) (object_key oty oid)")
      case row: (Some r)
      obtain ds where ds: "c_loads (oe_codec env) (acc_delegates_json r) = Some (PList ds)"
        using assms Some row unfolding st_ok_def by blast
      define rec where "rec = \<lparr> oar_object_type = fst (object_key oty oid), oar_object_id = snd (object_key oty oid),
         oar_owner_principal = acc_owner_principal r, oar_delegates = set (map (delegate_str (oe_codec env)) ds),
         oar_parent_object_type = acc_parent_object_type r, oar_parent_object_id = acc_parent_object_id r,
         oar_created_at = (if acc_created_at r \<noteq> [] then acc_created_at r else oe_now env (oa_tick st)) \<rparr>"
      define st' where "st' = st\<lparr> oa_cache := dict_set (object_key oty oid) rec (oa_cache st) \<rparr>"
      have g: "get_object_access env oty oid st = (Inr (Some rec), st')"
        using None Some row ds
        by (simp add: get_object_access_def Let_def load_object_access_tbl record_from_payload_def rec_def st'_def)
      have v: "view env st oty oid = Some (core rec)"
        using None Some row ds by (simp add: view_eq stored_def rec_def core_def)
      have "view env st' a b = view env st a b" for a b
      proof (cases "object_key a b = object_key oty oid")
        case True
        have "view env st a b = view env st oty oid" unfolding view_eq True by (rule refl)
        moreover have "dict_get (oa_cache st') (object_key a b) = Some rec" by (simp add: st'_def True)
        ultimately show ?thesis using v by (simp add: view_eq [of env st'])
      next
        case False
        then have e: "dict_get (oa_cache st') (object_key a b) = dict_get (oa_cache st) (object_key a b)" "stored st' = stored st"
          by (simp_all add: st'_def pydict.get_put stored_def)
        show ?thesis unfolding view_eq e by (rule refl)
      qed
      moreover have "st_ok env st'" using assms by (simp add: st_ok_def st'_def)
      ultimately show ?thesis
        using g v by (intro exI [of _ "Some rec"] exI [of _ st']) (auto simp: fun_eq_iff st'_def)
    qed (use None Some assms in \<open>simp add: get_object_access_def Let_def load_object_access_tbl view_eq stored_def\<close>)
  qed (use None assms in \<open>simp add: get_object_access_def Let_def view_eq stored_def\<close>)
qed

lemma event_session_id_nonempty: "event_session_id ev \<noteq> []"
  by (simp add: event_session_id_def Let_def)

lemma append_audit_ok:
  assumes "db_inv c db" "str_or_empty (ev_fields ev) ''session_id'' \<noteq> []" "str_or_empty (ev_fields ev) ''event_id'' \<noteq> []"
  shows "\<exists>db'. append_audit_event c now ev db = Inr db' \<and> db_inv c db' \<and> db_access db' = db_access db"
proof -
  let ?sid = "str_or_empty (ev_fields ev) ''session_id''" and ?eid = "str_or_empty (ev_fields ev) ''event_id''"
  have "\<exists>ts a. append_audit_event c now ev db = rbind (ensure_session ?sid ts db) (exec (put_audit ?eid a)) \<and> au_session_id a = ?sid"
    unfolding append_audit_event_def Let_def
    by (rule exI, rule exI, rule conjI, (subst if_not_P, simp add: assms(2,3), rule refl), simp)
  then obtain ts a where a: "append_audit_event c now ev db = exec (put_audit ?eid a) (put_session ?sid ts db)" "au_session_id a = ?sid"
    using ensure_session_ok [OF assms(1)] by auto
  have "db_inv c (put_audit ?eid a (put_session ?sid ts db))"
    by (intro put_audit_inv put_session_inv assms(1)) (simp add: a(2))
  then show ?thesis using a(1) by (auto simp: exec_ok inv_fk put_audit_def)
qed

lemma append_event_ok:
  assumes "db_inv c db" "av_event_id ev \<noteq> []"
  shows "\<exists>db'. append_object_authorization_event c now ev db = Inr db' \<and> db_inv c db' \<and> db_access db' = db_access db"
  unfolding append_object_authorization_event_def
  by (rule append_audit_ok [OF assms(1)])
     (simp_all add: str_or_empty_def dict_get_def event_strings_def event_session_id_nonempty assms(2))

text \<open>Recording an event appends it and changes nothing an authorization sees.\<close>

lemma record_event_ok:
  assumes "st_ok env st"
  shows "\<exists>st' ev. record_authorization_event env p oty oid action decision reason rid st = (Inr (), st') \<and> st_ok env st'
    \<and> oa_cache st' = oa_cache st \<and> stored st' = stored st \<and> oa_events st' = oa_events st @ [ev]
    \<and> av_decision ev = decision \<and> av_principal_id ev = rp_principal_id p \<and> av_object_type ev = oty \<and> av_object_id ev = oid"
proof (cases "oa_db st")
  case None
  then show ?thesis using assms
    by (simp add: record_authorization_event_def Let_def st_ok_def stored_def)
next
  case (Some db)
  define ev where "ev = \<lparr> av_event_id = oe_uuid env (oa_tick st), av_timestamp = oe_now env (oa_tick st),
     av_principal_id = rp_principal_id p, av_actor = rp_actor p, av_authenticated = rp_authenticated p,
     av_object_type = oty, av_object_id = oid,
     av_parent_object_type = (case dict_get (oa_cache st) (object_key oty oid) of None \<Rightarrow> [] | Some r \<Rightarrow> oar_parent_object_type r),
     av_parent_object_id = (case dict_get (oa_cache st) (object_key oty oid) of None \<Rightarrow> [] | Some r \<Rightarrow> oar_parent_object_id r),
     av_action = action, av_decision = decision, av_reason = reason, av_request_id = rid \<rparr>"
  have inv: "db_inv (oe_codec env) db" and id: "av_event_id ev \<noteq> []"
    using assms Some by (auto simp: st_ok_def ev_def)
  obtain db' where db': "append_object_authorization_event (oe_codec env) (oe_now env (Suc (oa_tick st))) ev db = Inr db'"
    "db_inv (oe_codec env) db'" "db_access db' = db_access db"
    using append_event_ok [OF inv id] by blast
  define st' where "st' = st\<lparr> oa_events := oa_events st @ [ev], oa_tick := Suc (oa_tick st), oa_db := Some db' \<rparr>"
  have "record_authorization_event env p oty oid action decision reason rid st = (Inr (), st')"
    unfolding record_authorization_event_def Let_def ev_def [symmetric] by (simp add: Some db'(1) st'_def)
  moreover have "st_ok env st'" using assms Some db' by (simp add: st_ok_def st'_def)
  ultimately show ?thesis
    using Some db'(3) by (intro exI [of _ st'] exI [of _ ev]) (simp add: st'_def stored_def ev_def)
qed

section \<open>The decision\<close>

text \<open>
  What a call decides, on the view alone: an object without a parent by direct access, an
  object with a parent as its parent.
\<close>

definition has_parent :: "object_access_record \<Rightarrow> bool" where
  "has_parent r = (oar_parent_object_type r \<noteq> [] \<and> oar_parent_object_id r \<noteq> [])"

fun decide :: "nat \<Rightarrow> (string \<Rightarrow> string \<Rightarrow> object_access_record option) \<Rightarrow> request_principal \<Rightarrow> string \<Rightarrow> string \<Rightarrow> bool option" where
  "decide 0 v p oty oid = None"
| "decide (Suc n) v p oty oid =
     (if strip oid = [] then Some False
      else case v oty oid of
             None \<Rightarrow> Some False
           | Some r \<Rightarrow> if has_parent r then decide n v p (oar_parent_object_type r) (oar_parent_object_id r)
                       else Some (fst (direct_access_decision r p)))"

fun outcome_ok :: "bool option \<Rightarrow> object_access_record option \<Rightarrow> object_access_record result \<Rightarrow> bool" where
  "outcome_ok None seen res = (res = Inl recursion_error)"
| "outcome_ok (Some True) seen res = (\<exists>r. res = Inr r \<and> Some (core r) = seen)"
| "outcome_ok (Some False) seen res = (\<exists>e. res = Inl e \<and> is_denied e)"

lemma core_simps [simp]:
  "oar_parent_object_type (core r) = oar_parent_object_type r" "oar_parent_object_id (core r) = oar_parent_object_id r"
  "oar_owner_principal (core r) = oar_owner_principal r" "oar_delegates (core r) = oar_delegates r"
  "has_parent (core r) = has_parent r" "direct_access_decision (core r) p = direct_access_decision r p"
  by (simp_all add: core_def has_parent_def direct_access_decision_def)

lemma is_denied_simps [simp]: "is_denied (denied m)" "\<not> is_denied recursion_error"
  by (simp_all add: denied_def recursion_error_def)

lemma snd_object_key [simp]: "snd (object_key a b) = strip b"
  by (simp add: object_key_def)

lemma object_key_fst_strip [simp]: "object_key (fst (object_key a b)) (strip b) = object_key a b"
  by (simp add: object_key_def strip_lower)

text \<open>One event, then an outcome.\<close>

lemma event_then:
  assumes "st_ok env st"
  shows "\<exists>st'. (\<forall>f. sbind (record_authorization_event env p oty oid action decision reason rid) f st = f () st')
    \<and> st_ok env st' \<and> view env st' = view env st
    \<and> (\<exists>ev. oa_events st' = oa_events st @ [ev] \<and> av_decision ev = decision)
    \<and> oa_cache st' = oa_cache st \<and> stored st' = stored st"
  using record_event_ok [OF assms, of p oty oid action decision reason rid] view_cong sbind_simps(1) by (metis (no_types, lifting))

lemma authorize_refines:
  assumes "st_ok env st" "authorize_object n env oty oid p action rid False [] [] st = (res, st')"
  shows "st_ok env st' \<and> view env st' = view env st \<and> outcome_ok (decide n (view env st) p oty oid) (view env st oty oid) res
    \<and> (decide n (view env st) p oty oid \<noteq> None \<longrightarrow> (\<exists>evs ev. oa_events st' = oa_events st @ evs @ [ev]
         \<and> av_decision ev = (if is_ok res then ''allow'' else ''deny'')))"
  using assms
proof (induction n arbitrary: oty oid action st res st')
  case 0
  then show ?case by (simp add: sraise_def)
next
  case (Suc n)
  let ?k = "object_key oty oid"
  note auth = Suc.prems(2) [unfolded authorize_object.simps Let_def snd_object_key]
  show ?case
  proof (cases "strip oid = []")
    case True
    obtain st1 where e: "sbind (record_authorization_event env p (fst ?k) (strip oid) action ''deny'' ''empty object identifier'' rid)
        (\<lambda>_. sraise (denied ''object identifier is required'')) st = (sraise (denied ''object identifier is required'') st1 :: object_access_record result \<times> access_state)"
      "st_ok env st1" "view env st1 = view env st" "\<exists>ev. oa_events st1 = oa_events st @ [ev] \<and> av_decision ev = ''deny''"
      using event_then [OF Suc.prems(1), of p "fst ?k" "strip oid" action "''deny''" "''empty object identifier''" rid] by blast
    then have "res = Inl (denied ''object identifier is required'')" "st' = st1" using auth True by (simp_all add: sraise_def)
    then show ?thesis using e True by (auto intro!: exI [of _ "[]"])
  next
    case idn: False
    obtain x st1 where g: "get_object_access env (fst ?k) (strip oid) st = (Inr x, st1)" "st_ok env st1" "view env st1 = view env st"
      "map_option core x = view env st oty oid" "oa_events st1 = oa_events st"
      using get_object_access_ok [OF Suc.prems(1), of oty oid] get_object_access_key [of env oty oid st] by auto
    have g0: "sbind (get_object_access env (fst ?k) (strip oid)) f st = f x st1"
      for f :: "object_access_record option \<Rightarrow> access_state \<Rightarrow> object_access_record result \<times> access_state"
      by (simp add: sbind_def g(1))
    show ?thesis
    proof (cases x)
      case None
      obtain st2 where e: "sbind (record_authorization_event env p (fst ?k) (strip oid) action ''deny'' ''object is not registered for this principal'' rid)
          (\<lambda>_. sraise (denied TARGET_OBJECT_DENIED)) st1 = (sraise (denied TARGET_OBJECT_DENIED) st2 :: object_access_record result \<times> access_state)"
        "st_ok env st2" "view env st2 = view env st1" "\<exists>ev. oa_events st2 = oa_events st1 @ [ev] \<and> av_decision ev = ''deny''"
        using event_then [OF g(2), of p "fst ?k" "strip oid" action "''deny''" "''object is not registered for this principal''" rid] by blast
      then have "res = Inl (denied TARGET_OBJECT_DENIED)" "st' = st2"
        using auth idn None by (simp_all add: g0 sraise_def)
      then show ?thesis using e g None idn by (auto intro!: exI [of _ "[]"])
    next
      case (Some r)
      define direct where "direct = direct_access_decision r p"
      define parent :: "access_state \<Rightarrow> object_access_record result \<times> access_state" where
        "parent = authorize_object n env (oar_parent_object_type r) (oar_parent_object_id r) p (''parent:'' @ action) rid False [] []"
      define finish where "finish = (\<lambda>(allowed, reason).
        sbind (record_authorization_event env p (fst ?k) (strip oid) action (if allowed then ''allow'' else ''deny'') reason rid)
          (\<lambda>_. if allowed then sreturn r else sraise (denied TARGET_OBJECT_DENIED)))"
      have seen: "view env st oty oid = Some (core r)" using g(4) Some by simp
      have auth': "sbind (parent_access_decision r direct parent) finish st1 = (res, st')"
        using auth idn Some by (simp add: g0 direct_def parent_def finish_def)
      have fin: "finish (b, reason) st2 = (res, st') \<Longrightarrow> st_ok env st2 \<Longrightarrow> st_ok env st' \<and> view env st' = view env st2
          \<and> outcome_ok (Some b) (Some (core r)) res
          \<and> (\<exists>ev. oa_events st' = oa_events st2 @ [ev] \<and> av_decision ev = (if is_ok res then ''allow'' else ''deny''))" for b reason st2
      proof -
        assume a: "finish (b, reason) st2 = (res, st')" "st_ok env st2"
        obtain st3 where e: "\<And>f. sbind (record_authorization_event env p (fst ?k) (strip oid) action (if b then ''allow'' else ''deny'') reason rid) f st2
              = (f () st3 :: object_access_record result \<times> access_state)"
          "st_ok env st3" "view env st3 = view env st2" "\<exists>ev. oa_events st3 = oa_events st2 @ [ev] \<and> av_decision ev = (if b then ''allow'' else ''deny'')"
          using event_then [OF a(2), of p "fst ?k" "strip oid" action "if b then ''allow'' else ''deny''" reason rid] by blast
        show ?thesis
        proof (cases b)
          case True
          then show ?thesis using a(1) e by (auto simp: finish_def sreturn_def)
        next
          case False
          then show ?thesis using a(1) e by (auto simp: finish_def sraise_def)
        qed
      qed
      show ?thesis
      proof (cases "has_parent r")
        case False
        then have "finish direct st1 = (res, st')"
          using auth' by (auto simp: parent_access_decision_def has_parent_def sbind_def sreturn_def)
        then show ?thesis
          using fin [of "fst direct" "snd direct" st1] g seen idn False by (auto simp: direct_def intro!: exI [of _ "[]"])
      next
        case True
        obtain pres st2 where p: "parent st1 = (pres, st2)" by fastforce
        note IH = Suc.IH [OF g(2) p [unfolded parent_def]]
        have dec: "decide (Suc n) (view env st) p oty oid = decide n (view env st) p (oar_parent_object_type r) (oar_parent_object_id r)"
          using True idn seen by simp
        have auth2: "sbind (sbind (try_denied parent) (\<lambda>ok. sreturn (if \<not> ok then (False, ''principal is not authorized for the parent object'')
            else if fst direct then (True, snd direct) else (True, ''access inherited from authorized parent object'')))) finish st1 = (res, st')"
          using auth' True by (simp add: parent_access_decision_def has_parent_def)
        show ?thesis
        proof (cases "decide n (view env st) p (oar_parent_object_type r) (oar_parent_object_id r)")
          case None
          then have "pres = Inl recursion_error" using IH g(3) by simp
          then have "res = Inl recursion_error" "st' = st2"
            using auth2 p by (simp_all add: sbind_def try_denied_def)
          then show ?thesis using IH g(3) dec None by simp
        next
          case (Some b)
          obtain reason where "finish (b, reason) st2 = (res, st')"
          proof (cases b)
            case True
            then obtain pr where "pres = Inr pr" using IH g(3) Some by auto
            then show ?thesis using auth2 p that True
              by (cases "fst direct") (auto simp: sbind_def try_denied_def sreturn_def split: prod.splits sum.splits)
          next
            case False
            then obtain e where "pres = Inl e" "is_denied e" using IH g(3) Some by auto
            then show ?thesis using auth2 p that False
              by (auto simp: sbind_def try_denied_def sreturn_def split: prod.splits sum.splits)
          qed
          with IH have f: "st_ok env st'" "view env st' = view env st2" "outcome_ok (Some b) (Some (core r)) res"
            "\<exists>ev. oa_events st' = oa_events st2 @ [ev] \<and> av_decision ev = (if is_ok res then ''allow'' else ''deny'')"
            using fin [of b reason st2] by blast+
          have "\<exists>evs. oa_events st2 = oa_events st @ evs" using IH g(3,5) Some by auto
          then have "\<exists>evs ev. oa_events st' = oa_events st @ evs @ [ev] \<and> av_decision ev = (if is_ok res then ''allow'' else ''deny'')"
            using f(4) by (metis append.assoc)
          then show ?thesis unfolding dec Some seen using f IH g(3) by simp
        qed
      qed
    qed
  qed
qed

text \<open>The chain of parents of an object, and its outermost record.\<close>

inductive ancestry :: "(string \<Rightarrow> string \<Rightarrow> object_access_record option) \<Rightarrow> string \<Rightarrow> string \<Rightarrow> nat \<Rightarrow> object_access_record \<Rightarrow> bool"
  for v where
  ancestry_root: "strip oid \<noteq> [] \<Longrightarrow> v oty oid = Some r \<Longrightarrow> \<not> has_parent r \<Longrightarrow> ancestry v oty oid 1 r"
| ancestry_parent: "strip oid \<noteq> [] \<Longrightarrow> v oty oid = Some r \<Longrightarrow> has_parent r
    \<Longrightarrow> ancestry v (oar_parent_object_type r) (oar_parent_object_id r) m top_rec \<Longrightarrow> ancestry v oty oid (Suc m) top_rec"

inductive_cases ancestryE: "ancestry v oty oid m top_rec"

lemma ancestry_pos: "ancestry v oty oid m top_rec \<Longrightarrow> 0 < m"
  by (induction rule: ancestry.induct) simp_all

lemma decide_ancestry:
  "decide n v p oty oid = Some True \<longleftrightarrow> (\<exists>m top_rec. m \<le> n \<and> ancestry v oty oid m top_rec \<and> fst (direct_access_decision top_rec p))"
proof (induction n arbitrary: oty oid)
  case 0
  then show ?case using ancestry_pos by fastforce
next
  case (Suc n)
  show ?case
  proof
    assume d: "decide (Suc n) v p oty oid = Some True"
    then obtain r where r: "strip oid \<noteq> []" "v oty oid = Some r" by (auto split: if_splits option.splits)
    show "\<exists>m top_rec. m \<le> Suc n \<and> ancestry v oty oid m top_rec \<and> fst (direct_access_decision top_rec p)"
    proof (cases "has_parent r")
      case True
      then obtain m top_rec where "m \<le> n" "ancestry v (oar_parent_object_type r) (oar_parent_object_id r) m top_rec"
        "fst (direct_access_decision top_rec p)"
        using d r Suc.IH by auto
      then show ?thesis using ancestry_parent [of oid v oty r m top_rec] r True by (intro exI [of _ "Suc m"]) auto
    next
      case False
      then show ?thesis using d r ancestry_root [of oid v oty r] by (intro exI [of _ 1] exI [of _ r]) simp
    qed
  next
    assume "\<exists>m top_rec. m \<le> Suc n \<and> ancestry v oty oid m top_rec \<and> fst (direct_access_decision top_rec p)"
    then obtain m top_rec where m: "m \<le> Suc n" "ancestry v oty oid m top_rec" "fst (direct_access_decision top_rec p)" by blast
    from m(2) show "decide (Suc n) v p oty oid = Some True"
    proof cases
      case ancestry_root
      then show ?thesis using m(3) by simp
    next
      case (ancestry_parent r m')
      then show ?thesis using m Suc.IH [of "oar_parent_object_type r" "oar_parent_object_id r"] by auto
    qed
  qed
qed

text \<open>Objects whose parents form a cycle.\<close>

definition parent_closed :: "(string \<Rightarrow> string \<Rightarrow> object_access_record option) \<Rightarrow> (string \<times> string) set \<Rightarrow> bool" where
  "parent_closed v S = (\<forall>(oty, oid)\<in>S. strip oid \<noteq> [] \<and> (\<exists>r. v oty oid = Some r \<and> has_parent r
     \<and> (oar_parent_object_type r, oar_parent_object_id r) \<in> S))"

lemma decide_cyclic: "parent_closed v S \<Longrightarrow> (oty, oid) \<in> S \<Longrightarrow> decide n v p oty oid = None"
proof (induction n arbitrary: oty oid)
  case (Suc n)
  then obtain r where "strip oid \<noteq> []" "v oty oid = Some r" "has_parent r"
    "(oar_parent_object_type r, oar_parent_object_id r) \<in> S"
    unfolding parent_closed_def by fastforce
  then show ?case using Suc by simp
qed simp

section \<open>Properties of authorization\<close>


text \<open>
  An object with a parent is accessible exactly when its parent is: neither owning it
  nor a delegation on it gives access.
\<close>

theorem child_access_is_parent_access:
  assumes "st_ok env st" "view env st oty oid = Some r" "has_parent r" "strip oid \<noteq> []"
  shows "is_ok (fst (authorize_object (Suc n) env oty oid p action rid False [] [] st))
    = is_ok (fst (authorize_object n env (oar_parent_object_type r) (oar_parent_object_id r) p action' rid' False [] [] st))"
proof -
  have ok: "is_ok (fst (authorize_object k env a b p act i False [] [] st)) = (decide k (view env st) p a b = Some True)" for k a b act i
  proof -
    obtain res st' where e: "authorize_object k env a b p act i False [] [] st = (res, st')" by fastforce
    show ?thesis using authorize_refines [OF assms(1) e] e
      by (cases "(decide k (view env st) p a b, view env st a b, res)" rule: outcome_ok.cases) auto
  qed
  show ?thesis unfolding ok using assms(2-4) by simp
qed

text \<open>
  Objects whose parents form a cycle, which \<^verbatim>\<open>authorize_object\<close> with \<^verbatim>\<open>allow_claim\<close> does not
  prevent: an access check never decides, it ends in \<^verbatim>\<open>RecursionError\<close>.
\<close>

theorem cyclic_parents_recursion_error:
  assumes "st_ok env st" "parent_closed (view env st) S" "(oty, oid) \<in> S"
  shows "fst (authorize_object n env oty oid p action rid False [] [] st) = Inl recursion_error"
proof -
  obtain res st' where e: "authorize_object n env oty oid p action rid False [] [] st = (res, st')" by fastforce
  show ?thesis using authorize_refines [OF assms(1) e] decide_cyclic [OF assms(2,3)] e by simp
qed

section \<open>The access-control list\<close>

text \<open>Preservation of a state predicate, operation by operation.\<close>

definition keeps :: "('s \<Rightarrow> bool) \<Rightarrow> ('s \<Rightarrow> 'a result \<times> 's) \<Rightarrow> bool" where
  "keeps I m = (\<forall>s. I s \<longrightarrow> I (snd (m s)))"

lemma keeps_intros:
  "keeps I (sreturn x)" "keeps I (sraise e)"
  "keeps I m \<Longrightarrow> (\<And>x. keeps I (f x)) \<Longrightarrow> keeps I (sbind m f)"
  "keeps I m \<Longrightarrow> keeps I (try_denied m)"
  by (auto simp: keeps_def sreturn_def sraise_def sbind_def try_denied_def split: prod.splits sum.splits)

lemma parent_access_decision_keeps: "keeps I m \<Longrightarrow> keeps I (parent_access_decision r direct m)"
  by (auto simp: parent_access_decision_def intro!: keeps_intros)

lemma authorize_keeps:
  assumes "\<And>a b. keeps I (get_object_access env a b)"
    and "\<And>a b act dec reason. keeps I (record_authorization_event env p a b act dec reason rid)"
  shows "keeps I (authorize_object n env oty oid p action rid False [] [])"
proof (induction n arbitrary: oty oid action)
  case 0
  show ?case by (simp add: keeps_intros)
next
  case (Suc n)
  show ?case
    unfolding authorize_object.simps Let_def
    by (auto intro!: keeps_intros assms Suc parent_access_decision_keeps split: option.splits)
qed

text \<open>The record a stored row decodes to, and the lookup in terms of it.\<close>

definition row_record :: "codec \<Rightarrow> object_key \<Rightarrow> access_row \<Rightarrow> object_access_record option" where
  "row_record c k row =
     (case c_loads c (acc_delegates_json row) of
        Some (PList ds) \<Rightarrow>
          Some \<lparr> oar_object_type = fst k, oar_object_id = snd k, oar_owner_principal = acc_owner_principal row,
                 oar_delegates = set (map (delegate_str c) ds), oar_parent_object_type = acc_parent_object_type row,
                 oar_parent_object_id = acc_parent_object_id row, oar_created_at = [] \<rparr>
      | _ \<Rightarrow> None)"

lemma view_row:
  "view env st oty oid =
     (case dict_get (oa_cache st) (object_key oty oid) of
        Some r \<Rightarrow> Some (core r)
      | None \<Rightarrow> Option.bind (stored st) (\<lambda>tbl. Option.bind (dict_get tbl (object_key oty oid)) (row_record (oe_codec env) (object_key oty oid))))"
  by (simp add: view_eq row_record_def split: option.splits pyval.splits)

definition key_ok :: "object_key \<Rightarrow> bool" where
  "key_ok k = (object_key (fst k) (snd k) = k)"

definition record_ok :: "object_key \<Rightarrow> object_access_record \<Rightarrow> bool" where
  "record_ok k r = (key_ok k \<and> (oar_object_type r, oar_object_id r) = k \<and> finite (oar_delegates r)
     \<and> key_ok (oar_parent_object_type r, oar_parent_object_id r))"

text \<open>
  What the module keeps: cached records lie under their normalised keys, stored rows have
  normalised keys and parents, and with a database every cached record is what its row says.
  The last conjunct is the law of JSON the module relies on: lists of strings are read back.
\<close>

definition json_lists_ok :: "codec \<Rightarrow> bool" where
  "json_lists_ok c = (\<forall>xs. c_loads c (canonical_json_payload c (PList (map PStr xs))) = Some (PList (map PStr xs)))"

definition rows_ok :: "access_state \<Rightarrow> bool" where
  "rows_ok st = (\<forall>tbl k row. stored st = Some tbl \<longrightarrow> dict_get tbl k = Some row \<longrightarrow>
     key_ok k \<and> key_ok (acc_parent_object_type row, acc_parent_object_id row))"

definition cache_ok :: "access_env \<Rightarrow> access_state \<Rightarrow> bool" where
  "cache_ok env st = (\<forall>k r. dict_get (oa_cache st) k = Some r \<longrightarrow> record_ok k r \<and>
     (\<forall>tbl. stored st = Some tbl \<longrightarrow> Option.bind (dict_get tbl k) (row_record (oe_codec env) k) = Some (core r)))"

definition acl_inv :: "access_env \<Rightarrow> access_state \<Rightarrow> bool" where
  "acl_inv env st = (st_ok env st \<and> rows_ok st \<and> cache_ok env st \<and> json_lists_ok (oe_codec env))"

lemma acl_inv_cong:
  "oa_cache st' = oa_cache st \<Longrightarrow> stored st' = stored st \<Longrightarrow> st_ok env st' \<Longrightarrow> acl_inv env st \<Longrightarrow> acl_inv env st'"
  by (simp add: acl_inv_def rows_ok_def cache_ok_def)

lemma event_inv: "keeps (acl_inv env) (record_authorization_event env p a b act dec reason rid)"
  unfolding keeps_def
proof (intro allI impI)
  fix st assume "acl_inv env st"
  moreover from this have "st_ok env st" by (simp add: acl_inv_def)
  ultimately show "acl_inv env (snd (record_authorization_event env p a b act dec reason rid st))"
    using record_event_ok [of env st p a b act dec reason rid] acl_inv_cong by fastforce
qed

lemma row_record_ok:
  assumes "row_record c k row = Some r" "key_ok k" "key_ok (acc_parent_object_type row, acc_parent_object_id row)"
  shows "record_ok k (r\<lparr> oar_created_at := t \<rparr>)"
  using assms by (auto simp: row_record_def record_ok_def split: option.splits pyval.splits)

lemma get_inv: "keeps (acl_inv env) (get_object_access env a b)"
  unfolding keeps_def
proof (intro allI impI)
  fix st assume inv: "acl_inv env st"
  let ?k = "object_key a b"
  show "acl_inv env (snd (get_object_access env a b st))"
  proof (cases "\<exists>db row. dict_get (oa_cache st) ?k = None \<and> oa_db st = Some db \<and> dict_get (db_access db) ?k = Some row")
    case True
    then obtain db row where h: "dict_get (oa_cache st) ?k = None" "oa_db st = Some db" "dict_get (db_access db) ?k = Some row" by blast
    then obtain ds where ds: "c_loads (oe_codec env) (acc_delegates_json row) = Some (PList ds)"
      using inv unfolding acl_inv_def st_ok_def by blast
    define t where "t = (if acc_created_at row \<noteq> [] then acc_created_at row else oe_now env (oa_tick st))"
    obtain r where rr: "row_record (oe_codec env) ?k row = Some r"
      and g: "snd (get_object_access env a b st) = st\<lparr> oa_cache := dict_set ?k (r\<lparr> oar_created_at := t \<rparr>) (oa_cache st) \<rparr>"
      and c: "core (r\<lparr> oar_created_at := t \<rparr>) = r"
      using h ds by (simp add: get_object_access_def Let_def load_object_access_tbl record_from_payload_def row_record_def core_def t_def)
    have "key_ok ?k" "key_ok (acc_parent_object_type row, acc_parent_object_id row)"
      using inv h(2,3) by (simp_all add: acl_inv_def rows_ok_def stored_def split_paired_All [symmetric] del: split_paired_All)
    then have "record_ok ?k (r\<lparr> oar_created_at := t \<rparr>)" by (rule row_record_ok [OF rr])
    then show ?thesis
      using inv h rr c unfolding g
      by (auto simp: acl_inv_def st_ok_def rows_ok_def cache_ok_def stored_def pydict.get_put)
  next
    case False
    then have "snd (get_object_access env a b st) = st"
      by (auto simp: get_object_access_def Let_def load_object_access_tbl split: option.splits)
    then show ?thesis using inv by simp
  qed
qed

lemma authorize_inv: "keeps (acl_inv env) (authorize_object n env oty oid p action rid False [] [])"
  by (rule authorize_keeps) (rule get_inv event_inv)+

lemma key_ok_object_key [simp]: "key_ok (object_key a b)"
  by (simp add: key_ok_def object_key_def strip_lower)

lemma key_ok_parts: "key_ok (a, b) \<Longrightarrow> lower (strip a) = a \<and> strip b = b"
  by (simp add: key_ok_def object_key_def)

text \<open>Replacing one record.\<close>

definition acl_put ::
  "object_key \<Rightarrow> object_access_record \<Rightarrow> (string \<Rightarrow> string \<Rightarrow> object_access_record option) \<Rightarrow> string \<Rightarrow> string \<Rightarrow> object_access_record option" where
  "acl_put k r v a b = (if object_key a b = k then Some (core r) else v a b)"

lemma write_row:
  assumes "json_lists_ok c" "record_ok k r"
  shows "row_record c k \<lparr> acc_owner_principal = ap_owner_principal (record_to_payload r),
     acc_delegates_json = canonical_json_payload c (PList (map PStr (sort (ap_delegates (record_to_payload r))))),
     acc_parent_object_type = lower (strip (ap_parent_object_type (record_to_payload r))),
     acc_parent_object_id = strip (ap_parent_object_id (record_to_payload r)), acc_created_at = t, acc_updated_at = u \<rparr> = Some (core r)"
proof -
  have "oar_object_type r = fst k" "oar_object_id r = snd k" using assms(2) by (auto simp: record_ok_def)
  then show ?thesis using assms key_ok_parts [of "oar_parent_object_type r" "oar_parent_object_id r"]
    by (cases r) (simp add: row_record_def record_to_payload_def json_lists_ok_def record_ok_def core_def delegate_str_def comp_def)
qed

lemma write_ok:
  assumes inv: "acl_inv env st" and r: "record_ok k r"
  shows "\<exists>st'. (\<forall>f. sbind (supdate (\<lambda>st. st\<lparr> oa_cache := dict_set k r (oa_cache st) \<rparr>)) (\<lambda>_. sbind (persist_object_access env r) f) st = f () st')
    \<and> acl_inv env st' \<and> view env st' = acl_put k r (view env st)"
proof (cases "oa_db st")
  case None
  define st' where "st' = st\<lparr> oa_cache := dict_set k r (oa_cache st) \<rparr>"
  have "acl_inv env st'"
    using inv r None by (simp add: st'_def acl_inv_def st_ok_def rows_ok_def cache_ok_def stored_def pydict.get_put)
  moreover have "view env st' = acl_put k r (view env st)"
  proof -
    have e: "stored st' = stored st" "oa_cache st' = dict_set k r (oa_cache st)" by (simp_all add: st'_def stored_def)
    show ?thesis unfolding fun_eq_iff view_row acl_put_def e by (simp add: pydict.get_put)
  qed
  ultimately show ?thesis
    using None by (intro exI [of _ st']) (simp add: persist_object_access_def st'_def sbind_def supdate_def)
next
  case (Some db)
  let ?c = "oe_codec env" and ?p = "record_to_payload r"
  have kp: "(lower (strip (ap_object_type ?p)), strip (ap_object_id ?p)) = k"
    using r key_ok_parts [of "fst k" "snd k"] by (auto simp: record_ok_def record_to_payload_def)
  obtain row where up: "upsert_object_access ?c (oe_now env (oa_tick st)) ?p db = exec (\<lambda>db. db\<lparr> db_access := dict_set k row (db_access db) \<rparr>) db"
    and row: "row_record ?c k row = Some (core r)" "key_ok (acc_parent_object_type row, acc_parent_object_id row)"
      "\<exists>ds. c_loads ?c (acc_delegates_json row) = Some (PList ds)"
  proof -
    define row0 where "row0 = \<lparr> acc_owner_principal = ap_owner_principal ?p,
      acc_delegates_json = canonical_json_payload ?c (PList (map PStr (sort (ap_delegates ?p)))),
      acc_parent_object_type = lower (strip (ap_parent_object_type ?p)), acc_parent_object_id = strip (ap_parent_object_id ?p),
      acc_created_at = (if ap_created_at ?p \<noteq> [] then ap_created_at ?p else oe_now env (oa_tick st)),
      acc_updated_at = oe_now env (oa_tick st) \<rparr>"
    have js: "json_lists_ok ?c" using inv by (simp add: acl_inv_def)
    have row0: "upsert_object_access ?c (oe_now env (oa_tick st)) ?p db = exec (put_access k row0) db"
      "\<And>t. row_record ?c k (row0\<lparr> acc_created_at := t \<rparr>) = Some (core r)" "row_record ?c k row0 = Some (core r)"
      "key_ok (acc_parent_object_type row0, acc_parent_object_id row0)"
      "\<exists>ds. c_loads ?c (acc_delegates_json row0) = Some (PList ds)"
      using js unfolding upsert_object_access_def kp
      by (simp_all add: row0_def write_row [OF js r] key_ok_def object_key_def strip_lower json_lists_ok_def)
    define row where "row = (case dict_get (db_access db) k of Some old \<Rightarrow> row0\<lparr> acc_created_at := acc_created_at old \<rparr> | None \<Rightarrow> row0)"
    have "exec (put_access k row0) db = exec (\<lambda>db. db\<lparr> db_access := dict_set k row (db_access db) \<rparr>) db"
      by (simp add: exec_def put_access_def row_def)
    then show ?thesis using row0 that [of row] by (auto simp: row_def split: option.splits)
  qed
  have inv_db: "db_inv ?c db" using inv Some by (simp add: acl_inv_def st_ok_def)
  define db' where "db' = db\<lparr> db_access := dict_set k row (db_access db) \<rparr>"
  have inv': "db_inv ?c db'" using inv_db unfolding db'_def
    by (intro access_inv) (auto simp: db_inv_def keys_ok_def intro: pydict.wf_put)
  define st' where "st' = st\<lparr> oa_cache := dict_set k r (oa_cache st), oa_db := Some db' \<rparr>"
  have run: "sbind (supdate (\<lambda>st. st\<lparr> oa_cache := dict_set k r (oa_cache st) \<rparr>)) (\<lambda>_. sbind (persist_object_access env r) f) st = f () st'" for f
    using up inv_fk [OF inv'] Some
    by (simp add: persist_object_access_def st'_def sbind_def supdate_def db'_def exec_ok)
  have tbl: "stored st' = Some (dict_set k row (db_access db))" "stored st = Some (db_access db)"
    using Some by (simp_all add: stored_def st'_def db'_def)
  have "st_ok env st'"
    using inv inv' row(3) Some by (auto simp: acl_inv_def st_ok_def st'_def db'_def pydict.get_put)
  moreover have "rows_ok st'"
    using inv row(2) r unfolding acl_inv_def rows_ok_def tbl by (auto simp: pydict.get_put record_ok_def)
  moreover have "cache_ok env st'"
    using inv row(1) r unfolding acl_inv_def cache_ok_def tbl by (auto simp: pydict.get_put st'_def)
  moreover have "view env st' = acl_put k r (view env st)"
    unfolding fun_eq_iff view_row tbl acl_put_def by (auto simp: st'_def pydict.get_put split: option.splits)
  ultimately show ?thesis using run inv by (auto simp: acl_inv_def)
qed

text \<open>
  The operations on the access-control list as a specification: a claim adds a record to a
  free key, and owners and administrators change delegates.
\<close>

datatype access_op =
  Authorize string string bool string string
| Delegate string string string
| Revoke string string string

fun run_access ::
  "nat \<Rightarrow> access_env \<Rightarrow> request_principal \<Rightarrow> string \<Rightarrow> string \<Rightarrow> access_op \<Rightarrow> access_state
   \<Rightarrow> object_access_record result \<times> access_state" where
  "run_access n env p action rid (Authorize oty oid allow_claim pty pid) =
     authorize_object n env oty oid p action rid allow_claim pty pid"
| "run_access n env p action rid (Delegate oty oid who) = delegate_object_access n env oty oid p who rid"
| "run_access n env p action rid (Revoke oty oid who) = revoke_object_access env oty oid p who rid"

definition may_share :: "request_principal \<Rightarrow> string \<Rightarrow> object_access_record \<Rightarrow> bool" where
  "may_share p who r = ((is_admin p \<or> rp_principal_id p = oar_owner_principal r) \<and> strip who \<noteq> [])"

fun acl_spec ::
  "request_principal \<Rightarrow> access_op \<Rightarrow> (string \<Rightarrow> string \<Rightarrow> object_access_record option) \<Rightarrow> string \<Rightarrow> string \<Rightarrow> object_access_record option" where
  "acl_spec p (Authorize oty oid allow_claim pty pid) v =
     (if allow_claim \<and> strip oid \<noteq> [] \<and> v oty oid = None
      then acl_put (object_key oty oid)
             \<lparr> oar_object_type = lower (strip oty), oar_object_id = strip oid, oar_owner_principal = rp_principal_id p,
               oar_delegates = {}, oar_parent_object_type = lower (strip pty), oar_parent_object_id = strip pid,
               oar_created_at = [] \<rparr> v
      else v)"
| "acl_spec p (Delegate oty oid who) v =
     (case v oty oid of
        Some r \<Rightarrow> if may_share p who r then acl_put (object_key oty oid) (r\<lparr> oar_delegates := insert (strip who) (oar_delegates r) \<rparr>) v else v
      | None \<Rightarrow> v)"
| "acl_spec p (Revoke oty oid who) v =
     (case v oty oid of
        Some r \<Rightarrow> if may_share p who r then acl_put (object_key oty oid) (r\<lparr> oar_delegates := oar_delegates r - {strip who} \<rparr>) v else v
      | None \<Rightarrow> v)"

lemma core_idem [simp]: "core (core r) = core r"
  by (simp add: core_def)

lemma core_update [simp]: "core ((core r)\<lparr> oar_delegates := D \<rparr>) = core (r\<lparr> oar_delegates := D \<rparr>)"
  by (simp add: core_def)

lemma acl_put_core: "core r = core r' \<Longrightarrow> acl_put k r v = acl_put k r' v"
  by (simp add: acl_put_def fun_eq_iff)

lemma event_end:
  assumes "acl_inv env st"
  shows "\<exists>st'. (\<forall>f. sbind (record_authorization_event env p oty oid action decision reason rid) f st = f () st')
    \<and> acl_inv env st' \<and> view env st' = view env st"
proof -
  have st: "st_ok env st" using assms by (simp add: acl_inv_def)
  show ?thesis
    using record_event_ok [OF st, of p oty oid action decision reason rid] view_cong acl_inv_cong [OF _ _ _ assms] sbind_simps(1)
    by (metis (no_types, lifting))
qed

text \<open>Sharing: the checks on a record that is cached, and the change.\<close>

lemma change_delegates_ok:
  assumes inv: "acl_inv env st" and cached: "dict_get (oa_cache st) (object_key oty oid) = Some r"
    and fin: "\<And>x D. finite D \<Longrightarrow> finite (change x D)"
    and run: "change_delegates env oty oid p who action dr dt rid change r st = (res, st')"
  shows "acl_inv env st' \<and> is_ok res = may_share p who r \<and> view env st' = (if may_share p who r
    then acl_put (object_key oty oid) (r\<lparr> oar_delegates := change (strip who) (oar_delegates r) \<rparr>) (view env st) else view env st)"
proof -
  let ?ev = "record_authorization_event env p (oar_object_type r) (oar_object_id r) action"
  have fails: "acl_inv env st' \<and> view env st' = view env s \<and> \<not> is_ok res"
    if a: "sbind (?ev ''deny'' reason rid) (\<lambda>_. sraise e) s = (res, st')" "acl_inv env s" for reason e s
  proof -
    obtain s' where "\<And>f. sbind (?ev ''deny'' reason rid) f s = (f () s' :: object_access_record result \<times> access_state)"
      "acl_inv env s'" "view env s' = view env s"
      using event_end [OF a(2), of p "oar_object_type r" "oar_object_id r" action "''deny''" reason rid] by blast
    then show ?thesis using a(1) by (auto simp: sraise_def)
  qed
  show ?thesis
  proof (cases "may_share p who r")
    case False
    then show ?thesis using run fails [OF _ inv]
      by (auto simp: change_delegates_def Let_def may_share_def split: if_splits)
  next
    case True
    define r' where "r' = r\<lparr> oar_delegates := change (strip who) (oar_delegates r) \<rparr>"
    have "record_ok (object_key oty oid) r" using inv cached unfolding acl_inv_def cache_ok_def by blast
    then have "record_ok (object_key oty oid) r'" using fin by (simp add: record_ok_def r'_def)
    from write_ok [OF inv this] obtain st1 where w: "\<And>f. sbind (supdate (\<lambda>st. st\<lparr> oa_cache := dict_set (object_key oty oid) r' (oa_cache st) \<rparr>))
        (\<lambda>_. sbind (persist_object_access env r') f) st = (f () st1 :: object_access_record result \<times> access_state)"
      "acl_inv env st1" "view env st1 = acl_put (object_key oty oid) r' (view env st)" by blast
    obtain st2 where e: "\<And>f. sbind (?ev ''allow'' (dt @ strip who) rid) f st1 = (f () st2 :: object_access_record result \<times> access_state)"
      "acl_inv env st2" "view env st2 = view env st1"
      using event_end [OF w(2), of p "oar_object_type r" "oar_object_id r" action "''allow''" "dt @ strip who" rid] by blast
    have "(res, st') = (Inr r', st2)"
      using run True unfolding change_delegates_def Let_def r'_def [symmetric] may_share_def
      by (auto simp: w(1) e(1) sreturn_def)
    then show ?thesis using w e True by (simp add: r'_def)
  qed
qed

lemma get_ok:
  assumes "acl_inv env st"
  shows "\<exists>x st1. get_object_access env oty oid st = (Inr x, st1) \<and> acl_inv env st1 \<and> view env st1 = view env st
    \<and> map_option core x = view env st oty oid
    \<and> (\<forall>r. x = Some r \<longrightarrow> dict_get (oa_cache st1) (object_key oty oid) = Some r)"
proof -
  have st: "st_ok env st" using assms by (simp add: acl_inv_def)
  show ?thesis using get_object_access_ok [OF st, of oty oid] get_inv [of env oty oid] assms unfolding keeps_def by (metis snd_conv)
qed

lemma delegate_refines:
  assumes inv: "acl_inv env st" and run: "delegate_object_access n env oty oid p who rid st = (res, st')"
  shows "acl_inv env st' \<and> view env st' = acl_spec p (Delegate oty oid who) (view env st)"
proof -
  obtain x st1 where g: "get_object_access env oty oid st = (Inr x, st1)" "acl_inv env st1" "view env st1 = view env st"
    "map_option core x = view env st oty oid" "\<And>r. x = Some r \<Longrightarrow> dict_get (oa_cache st1) (object_key oty oid) = Some r"
    using get_ok [OF inv] by blast
  show ?thesis
  proof (cases x)
    case (Some r)
    have "change_delegates env oty oid p who ''delegate'' ''delegate'' ''delegated access to '' rid insert r st1 = (res, st')"
      using run g(1) Some by (simp add: delegate_object_access_def sbind_def sreturn_def)
    from change_delegates_ok [OF g(2) g(5) [OF Some] _ this] show ?thesis
      using g(3,4) Some by (auto simp: may_share_def acl_put_def fun_eq_iff dest!: sym [of "Some _"])
  next
    case None
    obtain ares st2 where a: "authorize_object n env oty oid p ''delegate'' rid False [] [] st1 = (ares, st2)" by fastforce
    have st1: "st_ok env st1" using g(2) by (simp add: acl_inv_def)
    have none: "view env st1 oty oid = None" using g(3,4) None by simp
    note ref = authorize_refines [OF st1 a]
    have "\<not> is_ok ares" using ref none
      by (cases "(decide n (view env st1) p oty oid, view env st1 oty oid, ares)" rule: outcome_ok.cases) auto
    then have "st' = st2" using run g(1) None a by (cases ares) (auto simp: delegate_object_access_def sbind_def)
    moreover have "acl_inv env st2" using authorize_inv [of env n oty oid p "''delegate''" rid] a g(2) unfolding keeps_def by (metis snd_conv)
    ultimately show ?thesis using ref g(3) none by simp
  qed
qed

lemma revoke_refines:
  assumes inv: "acl_inv env st" and run: "revoke_object_access env oty oid p who rid st = (res, st')"
  shows "acl_inv env st' \<and> view env st' = acl_spec p (Revoke oty oid who) (view env st)"
proof -
  obtain x st1 where g: "get_object_access env oty oid st = (Inr x, st1)" "acl_inv env st1" "view env st1 = view env st"
    "map_option core x = view env st oty oid" "\<And>r. x = Some r \<Longrightarrow> dict_get (oa_cache st1) (object_key oty oid) = Some r"
    using get_ok [OF inv] by blast
  have g0: "get_object_access env (fst (object_key oty oid)) (strip oid) st = (Inr x, st1)"
    using g(1) get_object_access_key [of env oty oid st] by simp
  have g1: "sbind (get_object_access env (fst (object_key oty oid)) (strip oid)) f st = f x st1"
    for f :: "object_access_record option \<Rightarrow> access_state \<Rightarrow> object_access_record result \<times> access_state"
    by (simp add: sbind_def g0)
  show ?thesis
  proof (cases x)
    case (Some r)
    have c: "change_delegates env (fst (object_key oty oid)) (strip oid) p who ''revoke-delegate'' ''revoke'' ''revoked delegated access from ''
        rid (\<lambda>x ds. ds - {x}) r st1 = (res, st')"
      using run Some by (simp add: revoke_object_access_def Let_def sbind_def g0)
    have k: "dict_get (oa_cache st1) (object_key (fst (object_key oty oid)) (strip oid)) = Some r" using g(5) [OF Some] by simp
    from change_delegates_ok [OF g(2) k _ c] show ?thesis
      using g(3,4) Some by (auto simp: may_share_def acl_put_def fun_eq_iff dest!: sym [of "Some _"])
  next
    case None
    obtain st2 where "\<And>f. sbind (record_authorization_event env p (fst (object_key oty oid)) (strip oid) ''revoke-delegate'' ''deny''
        ''object is not registered for this principal'' rid) f st1 = (f () st2 :: object_access_record result \<times> access_state)"
      "acl_inv env st2" "view env st2 = view env st1"
      using event_end [OF g(2), of p "fst (object_key oty oid)" "strip oid" "''revoke-delegate''" "''deny''"
        "''object is not registered for this principal''" rid] by blast
    then show ?thesis using run g(3,4) None by (simp add: revoke_object_access_def Let_def g1 sraise_def)
  qed
qed

lemma claim_refines:
  assumes inv: "acl_inv env st" and none: "view env st oty oid = None" and idn: "strip oid \<noteq> []"
    and run: "authorize_object (Suc n) env oty oid p action rid True pty pid st = (res, st')"
  shows "acl_inv env st' \<and> is_ok res \<and> view env st' = acl_spec p (Authorize oty oid True pty pid) (view env st)"
proof -
  let ?k = "object_key oty oid"
  obtain x st1 where g: "get_object_access env oty oid st = (Inr x, st1)" "acl_inv env st1" "view env st1 = view env st"
    "map_option core x = view env st oty oid"
    using get_ok [OF inv] by blast
  have g1: "sbind (get_object_access env (fst ?k) (strip oid)) f st = f x st1"
    for f :: "object_access_record option \<Rightarrow> access_state \<Rightarrow> object_access_record result \<times> access_state"
    using g(1) get_object_access_key [of env oty oid st] by (simp add: sbind_def)
  define r where "r = \<lparr> oar_object_type = fst ?k, oar_object_id = strip oid, oar_owner_principal = rp_principal_id p, oar_delegates = {},
    oar_parent_object_type = lower (strip pty), oar_parent_object_id = strip pid, oar_created_at = oe_now env (oa_tick st1) \<rparr>"
  have k: "(fst ?k, strip oid) = ?k" by (simp add: object_key_def)
  have claim: "claim_object env (fst ?k) (strip oid) p action rid pty pid st1 = (res, st')"
    using run idn g(4) none by (simp add: Let_def g1)
  have "record_ok ?k r" by (simp add: record_ok_def r_def k key_ok_def object_key_def strip_lower)
  from write_ok [OF g(2) this] obtain st2 where w: "\<And>f. sbind (supdate (\<lambda>st. st\<lparr> oa_cache := dict_set ?k r (oa_cache st) \<rparr>))
      (\<lambda>_. sbind (persist_object_access env r) f) st1 = (f () st2 :: object_access_record result \<times> access_state)"
    "acl_inv env st2" "view env st2 = acl_put ?k r (view env st1)" by blast
  obtain st3 where e: "\<And>f. sbind (record_authorization_event env p (fst ?k) (strip oid) action ''allow'' ''object claimed by principal'' rid) f st2
      = (f () st3 :: object_access_record result \<times> access_state)"
    "acl_inv env st3" "view env st3 = view env st2"
    using event_end [OF w(2), of p "fst ?k" "strip oid" action "''allow''" "''object claimed by principal''" rid] by blast
  have "(res, st') = (Inr r, st3)"
    using claim unfolding claim_object_def Let_def k r_def [symmetric] by (simp add: w(1) e(1) sreturn_def)
  then show ?thesis using w e g(3) none idn
    by (simp add: acl_put_def fun_eq_iff r_def core_def object_key_def)
qed

lemma authorize_no_claim:
  "authorize_object n env oty oid p action rid False pty pid = authorize_object n env oty oid p action rid False [] []"
  by (cases n) (simp_all only: authorize_object.simps if_False)

lemma authorize_claim_irrelevant:
  assumes "acl_inv env st" "view env st oty oid \<noteq> None \<or> strip oid = []"
  shows "authorize_object n env oty oid p action rid True pty pid st = authorize_object n env oty oid p action rid False [] [] st"
proof (cases n)
  case (Suc m)
  obtain x st1 where g: "get_object_access env oty oid st = (Inr x, st1)" "map_option core x = view env st oty oid"
    using get_ok [OF assms(1)] by blast
  have g1: "sbind (get_object_access env (fst (object_key oty oid)) (strip oid)) f st = f x st1"
    for f :: "object_access_record option \<Rightarrow> access_state \<Rightarrow> object_access_record result \<times> access_state"
    using g(1) get_object_access_key [of env oty oid st] by (simp add: sbind_def)
  show ?thesis using assms(2) g(2) by (cases x) (auto simp: Suc Let_def g1)
qed simp

lemma restart_view:
  assumes "acl_inv env st" "oa_db st \<noteq> None"
  shows "view env (reset_object_authorization_state st) = view env st"
proof -
  obtain tbl where tbl: "stored st = Some tbl" "stored (reset_object_authorization_state st) = Some tbl"
    using assms(2) unfolding stored_def reset_object_authorization_state_def by fastforce
  have row: "Option.bind (dict_get tbl k) (row_record (oe_codec env) k) = Some (core r)"
    if "dict_get (oa_cache st) k = Some r" for k r
    using assms(1) tbl(1) that unfolding acl_inv_def cache_ok_def by blast
  have "oa_cache (reset_object_authorization_state st) = []" by (simp add: reset_object_authorization_state_def)
  then show ?thesis unfolding fun_eq_iff view_row tbl by (auto simp: row split: option.splits)
qed

text \<open>
  C17: The module refines the access-control list of its specification, over the cache and
  the database together: whatever the outcome, an operation changes at most the record of its
  own object; a record appears only by a claim on a free key and then belongs to the caller;
  only owners and administrators change delegates; owners and parents never change. The
  invariant is kept, and with a database the list is the same after a restart, when the cache
  is empty.
\<close>

theorem access_refines_spec:
  assumes "acl_inv env st" "run_access (Suc n) env p action rid op st = (res, st')"
  shows "acl_inv env st' \<and> view env st' = acl_spec p op (view env st)
    \<and> (oa_db st' \<noteq> None \<longrightarrow> view env (reset_object_authorization_state st') = view env st')"
proof -
  have keep: "acl_inv env st' \<and> view env st' = view env st"
    if "authorize_object (Suc n) env oty oid p action rid False [] [] st = (res, st')" for oty oid
  proof -
    have "st_ok env st" using assms(1) by (simp add: acl_inv_def)
    then show ?thesis
      using authorize_refines [OF _ that] authorize_inv [of env "Suc n" oty oid p action rid] that assms(1)
      unfolding keeps_def by (metis snd_conv)
  qed
  have "acl_inv env st' \<and> view env st' = acl_spec p op (view env st)"
  proof (cases op)
    case (Authorize oty oid allow_claim pty pid)
    consider (claim) "allow_claim" "view env st oty oid = None" "strip oid \<noteq> []"
      | (keep) "\<not> allow_claim" | (known) "allow_claim" "view env st oty oid \<noteq> None \<or> strip oid = []" by blast
    then show ?thesis
    proof cases
      case claim
      then show ?thesis using claim_refines [OF assms(1) claim(2,3), of n p action rid pty pid] assms(2) Authorize by simp
    next
      case known
      then show ?thesis using authorize_claim_irrelevant [OF assms(1) known(2)] keep [of oty oid] assms(2) Authorize
        by (auto simp del: authorize_object.simps)
    qed (use assms(2) Authorize keep [of oty oid] authorize_no_claim [of "Suc n" env oty oid p action rid pty pid] in \<open>simp del: authorize_object.simps\<close>)
  next
    case (Delegate oty oid who)
    then show ?thesis using delegate_refines [OF assms(1)] assms(2) by simp
  next
    case (Revoke oty oid who)
    then show ?thesis using revoke_refines [OF assms(1)] assms(2) by simp
  qed
  then show ?thesis using restart_view by blast
qed

section \<open>Removal\<close>

definition cached_child :: "(object_key, object_access_record) dict \<Rightarrow> (object_key \<times> object_key) set" where
  "cached_child d = {(q, x). \<exists>r. dict_get d x = Some r \<and> (oar_parent_object_type r, oar_parent_object_id r) = q}"

definition rows :: "access_state \<Rightarrow> object_key \<Rightarrow> access_row option" where
  "rows st x = Option.bind (stored st) (\<lambda>tbl. dict_get tbl x)"

definition row_child :: "(object_key \<Rightarrow> access_row option) \<Rightarrow> (object_key \<times> object_key) set" where
  "row_child f = {(q, x). map_option acc_parent (f x) = Some q}"

definition inert :: "access_state \<Rightarrow> object_key \<Rightarrow> bool" where
  "inert st k = (\<forall>x. (k, x) \<in> (row_child (rows st))\<^sup>* \<longrightarrow> rows st x = None)"

lemma closed_reach:
  assumes "E `` X \<subseteq> X"
  shows "X \<union> {(q, x). (q, x) \<in> E \<and> x \<notin> X}\<^sup>* `` S = X \<union> E\<^sup>* `` S"
proof -
  have "y \<in> X \<union> {(q, x). (q, x) \<in> E \<and> x \<notin> X}\<^sup>* `` S" if "(c, y) \<in> E\<^sup>*" "c \<in> S" for c y
    using that
  proof (induction rule: rtrancl_induct)
    case (step y z)
    show ?case
    proof (cases "z \<in> X")
      case False
      then have "y \<notin> X" using step.hyps(2) assms by blast
      then obtain a where a: "a \<in> S" "(a, y) \<in> {(q, x). (q, x) \<in> E \<and> x \<notin> X}\<^sup>*" using step.IH step.prems by blast
      have "(y, z) \<in> {(q, x). (q, x) \<in> E \<and> x \<notin> X}" using False step.hyps(2) by simp
      with a show ?thesis by (meson ImageI UnI2 rtrancl_into_rtrancl)
    qed simp
  qed blast
  moreover have "{(q, x). (q, x) \<in> E \<and> x \<notin> X}\<^sup>* \<subseteq> E\<^sup>*" by (rule rtrancl_mono) blast
  ultimately show ?thesis by blast
qed

lemma dict_length_mono:
  assumes "dict_wf a" "\<And>x. dict_get a x \<noteq> None \<Longrightarrow> dict_get b x \<noteq> None"
  shows "length a \<le> length b"
proof -
  have "length a = card (set (dict_keys a))" using pydict.distinct_keys [OF assms(1)] distinct_card by (metis dict_keys_def length_map)
  also have "\<dots> \<le> card (set (dict_keys b))" using assms(2) by (intro card_mono finite_set) (auto simp: pydict.set_keys)
  also have "\<dots> \<le> length b" by (metis card_length dict_keys_def length_map)
  finally show ?thesis .
qed

lemma length_pop_less: "dict_wf d \<Longrightarrow> dict_get d k \<noteq> None \<Longrightarrow> length (dict_pop k d) < length d"
proof -
  assume d: "dict_wf d" "dict_get d k \<noteq> None"
  have len: "length e = card (set (dict_keys e))" if "dict_wf e" for e :: "('a, 'b) dict"
    using pydict.distinct_keys [OF that] distinct_card by (metis dict_keys_def length_map)
  have "set (dict_keys (dict_pop k d)) = set (dict_keys d) - {k}" by (rule pydict.set_keys_pop)
  moreover have "k \<in> set (dict_keys d)" using d(2) by (simp add: pydict.set_keys)
  ultimately show ?thesis using d by (metis card_Diff1_less finite_set len pydict.wf_pop)
qed

lemma delete_stored_ok:
  assumes "st_ok env st" "key_ok k"
  shows "\<exists>st1. delete_stored_access k True st = (Inr (), st1) \<and> st_ok env st1 \<and> oa_cache st1 = oa_cache st \<and> oa_events st1 = oa_events st
    \<and> (\<forall>x. rows st1 x = (if (k, x) \<in> (row_child (rows st))\<^sup>* then None else rows st x))"
proof (cases "oa_db st")
  case None
  then show ?thesis using assms by (simp add: delete_stored_access_def rows_def stored_def)
next
  case (Some db)
  have k: "(lower (strip (fst k)), strip (snd k)) = k" using assms(2) by (simp add: key_ok_def object_key_def)
  have wf: "dict_wf (db_access db)" and inv: "db_inv (oe_codec env) db"
    using assms Some by (auto simp: st_ok_def db_inv_def keys_ok_def)
  obtain n t where nt: "delete_pending True [k] (db_access db) 0 = (n, t)" by fastforce
  note ex = delete_pending_exact [OF wf nt]
  have rc: "row_child (rows st) = acc_child (db_access db)"
    by (simp add: row_child_def rows_def stored_def Some acc_child_def)
  have "delete_object_access (fst k) (snd k) True db = Inr (n, db\<lparr> db_access := t \<rparr>)"
    by (simp add: delete_object_access_def k nt exec_ok inv_fk [OF inv] del: delete_pending.simps)
  then have "delete_stored_access k True st = (Inr (), st\<lparr> oa_db := Some (db\<lparr> db_access := t \<rparr>) \<rparr>)"
    by (simp add: delete_stored_access_def Some)
  moreover have "db_inv (oe_codec env) (db\<lparr> db_access := t \<rparr>)" using ex inv by (simp add: access_inv)
  ultimately show ?thesis
    using ex assms(1) Some unfolding rc by (auto simp: st_ok_def rows_def stored_def split: if_splits)
qed

text \<open>What a call needs: enough nesting for the records left, and nothing stored below the cached records it will visit.\<close>

definition removable :: "nat \<Rightarrow> access_env \<Rightarrow> access_state \<Rightarrow> object_key set \<Rightarrow> bool" where
  "removable n env st S = (st_ok env st \<and> dict_wf (oa_cache st) \<and> (\<forall>x. dict_get (oa_cache st) x \<noteq> None \<longrightarrow> key_ok x)
     \<and> (\<forall>k\<in>S. key_ok k \<and> length (dict_pop k (oa_cache st)) < n)
     \<and> (\<forall>k\<in>S. \<forall>x. (k, x) \<in> (cached_child (oa_cache st))\<^sup>* \<longrightarrow> inert st x))"

definition pruned :: "access_env \<Rightarrow> object_key set \<Rightarrow> access_state \<Rightarrow> access_state \<Rightarrow> bool" where
  "pruned env S st st' = (st_ok env st' \<and> dict_wf (oa_cache st') \<and> rows st' = rows st \<and> oa_events st' = oa_events st
     \<and> (\<forall>x. dict_get (oa_cache st') x = (if x \<in> (cached_child (oa_cache st))\<^sup>* `` S then None else dict_get (oa_cache st) x)))"

lemma cached_child_pruned:
  assumes "\<And>x. dict_get d' x = (if x \<in> X then None else dict_get d x)"
  shows "cached_child d' = {(q, x). (q, x) \<in> cached_child d \<and> x \<notin> X}"
  by (auto simp: cached_child_def assms)

lemma set_cached_children:
  "dict_wf (oa_cache st) \<Longrightarrow> set (cached_children k st) = {x. (k, x) \<in> cached_child (oa_cache st)}"
proof -
  assume wf: "dict_wf (oa_cache st)"
  have "x \<in> set (cached_children k st) \<longleftrightarrow> (\<exists>r. (x, r) \<in> set (oa_cache st) \<and> (oar_parent_object_type r, oar_parent_object_id r) = k)" for x
    unfolding cached_children_def by force
  moreover have "(x, r) \<in> set (oa_cache st) \<longleftrightarrow> dict_get (oa_cache st) x = Some r" for x r
    using dict_get_mem dict_get_of_mem [OF wf] by metis
  ultimately show ?thesis unfolding cached_child_def by blast
qed

lemma removable_pruned:
  assumes "removable n env st (insert a S)" "pruned env {a} st st'"
  shows "removable n env st' S"
proof -
  let ?X = "(cached_child (oa_cache st))\<^sup>* `` {a}"
  have get: "dict_get (oa_cache st') x = (if x \<in> ?X then None else dict_get (oa_cache st) x)" for x
    using assms(2) unfolding pruned_def by blast
  have wf: "dict_wf (oa_cache st')" using assms(2) by (simp add: pruned_def)
  have less: "length (dict_pop k (oa_cache st')) \<le> length (dict_pop k (oa_cache st))" for k
    by (rule dict_length_mono) (auto simp: wf pydict.wf_pop pydict.get_pop get split: if_splits)
  have sub: "(cached_child (oa_cache st'))\<^sup>* \<subseteq> (cached_child (oa_cache st))\<^sup>*"
    unfolding cached_child_pruned [OF get] by (rule rtrancl_mono) blast
  have "rows st' = rows st" using assms(2) unfolding pruned_def by blast
  then have "inert st' = inert st" unfolding inert_def fun_eq_iff by presburger
  moreover have "\<forall>x. dict_get (oa_cache st') x \<noteq> None \<longrightarrow> key_ok x"
    using assms(1) unfolding get removable_def by presburger
  moreover have "\<forall>k\<in>S. key_ok k \<and> length (dict_pop k (oa_cache st')) < n"
    using assms(1) less unfolding removable_def by (meson insertCI le_less_trans)
  moreover have "inert st x" if "k \<in> S" "(k, x) \<in> (cached_child (oa_cache st'))\<^sup>*" for k x
    using assms(1) sub that unfolding removable_def by blast
  moreover have "st_ok env st'" using assms(2) unfolding pruned_def by blast
  ultimately show ?thesis using wf unfolding removable_def by (intro conjI) (assumption | metis)+
qed

lemma pruned_trans:
  assumes "pruned env {a} st st1" "pruned env S st1 st2"
  shows "pruned env (insert a S) st st2"
proof -
  let ?E = "cached_child (oa_cache st)"
  let ?X = "?E\<^sup>* `` {a}"
  have get: "dict_get (oa_cache st1) x = (if x \<in> ?X then None else dict_get (oa_cache st) x)" for x
    using assms(1) unfolding pruned_def by blast
  have closed: "?E `` ?X \<subseteq> ?X" by (auto intro: rtrancl_into_rtrancl)
  have "?X \<union> (cached_child (oa_cache st1))\<^sup>* `` S = ?E\<^sup>* `` insert a S"
    unfolding cached_child_pruned [OF get] closed_reach [OF closed] by blast
  then have "x \<in> ?E\<^sup>* `` insert a S \<longleftrightarrow> x \<in> ?X \<or> x \<in> (cached_child (oa_cache st1))\<^sup>* `` S" for x by blast
  then have "dict_get (oa_cache st2) x = (if x \<in> ?E\<^sup>* `` insert a S then None else dict_get (oa_cache st) x)" for x
    using assms(2) get [of x] unfolding pruned_def by presburger
  then show ?thesis using assms unfolding pruned_def by presburger
qed

lemma remove_loop:
  assumes call: "\<And>st k. removable n env st {k} \<Longrightarrow>
      \<exists>st'. remove_object_access n (fst k) (snd k) True st = (Inr (), st') \<and> pruned env {k} st st'"
  shows "removable n env st (set cs) \<Longrightarrow>
    \<exists>st'. sfor cs (\<lambda>(cty, cid). remove_object_access n cty cid True) st = (Inr (), st') \<and> pruned env (set cs) st st'"
proof (induction cs arbitrary: st)
  case Nil
  then show ?case by (auto simp: sreturn_def pruned_def removable_def)
next
  case (Cons c cs)
  have "removable n env st {c}" using Cons.prems by (auto simp: removable_def)
  then obtain st1 where 1: "remove_object_access n (fst c) (snd c) True st = (Inr (), st1)" "pruned env {c} st st1"
    using call by blast
  have "removable n env st1 (set cs)" using removable_pruned [OF _ 1(2)] Cons.prems by simp
  then obtain st2 where 2: "sfor cs (\<lambda>(cty, cid). remove_object_access n cty cid True) st1 = (Inr (), st2)" "pruned env (set cs) st1 st2"
    using Cons.IH by blast
  have "sfor (c # cs) (\<lambda>(cty, cid). remove_object_access n cty cid True) st = (Inr (), st2)"
    using 1(1) 2(1) by (cases c) (simp add: sbind_def)
  then show ?case using pruned_trans [OF 1(2) 2(2)] by auto
qed

lemma inert_delete:
  assumes "inert st k" "\<forall>x. rows st1 x = (if (k, x) \<in> (row_child (rows st))\<^sup>* then None else rows st x)"
  shows "rows st1 = rows st"
  using assms by (auto simp: inert_def fun_eq_iff)

text \<open>Below the removed record, the records it reaches are its children and theirs.\<close>

lemma reach_children:
  "{k} \<union> {(q, x). (q, x) \<in> E \<and> x \<noteq> k}\<^sup>* `` {x. (k, x) \<in> E \<and> x \<noteq> k} = E\<^sup>* `` {k}"
proof -
  let ?F = "{(q, x). (q, x) \<in> E \<and> x \<noteq> k}"
  have sub: "?F\<^sup>* \<subseteq> E\<^sup>*" by (rule rtrancl_mono) blast
  have "y \<in> {k} \<union> ?F\<^sup>* `` {x. (k, x) \<in> E \<and> x \<noteq> k}" if "(k, y) \<in> E\<^sup>*" for y
    using that
  proof (induction rule: rtrancl_induct)
    case (step y z)
    show ?case
    proof (cases "z = k \<or> y = k")
      case True
      then show ?thesis using step.hyps(2) by (cases "z = k") auto
    next
      case False
      then obtain a where a: "(k, a) \<in> E" "a \<noteq> k" "(a, y) \<in> ?F\<^sup>*" using step.IH by blast
      have "(y, z) \<in> ?F" using False step.hyps(2) by simp
      with a(3) have "(a, z) \<in> ?F\<^sup>*" by (rule rtrancl_into_rtrancl)
      with a show ?thesis by blast
    qed
  qed simp
  moreover have "y \<in> E\<^sup>* `` {k}" if "y \<in> ?F\<^sup>* `` {x. (k, x) \<in> E \<and> x \<noteq> k}" for y
    using that sub by (blast intro: converse_rtrancl_into_rtrancl)
  ultimately show ?thesis by blast
qed

lemma remove_body:
  assumes call: "\<And>st k. removable n env st {k} \<Longrightarrow>
      \<exists>st'. remove_object_access n (fst k) (snd k) True st = (Inr (), st') \<and> pruned env {k} st st'"
    and st: "st_ok env st" "dict_wf (oa_cache st)" "\<forall>x. dict_get (oa_cache st) x \<noteq> None \<longrightarrow> key_ok x"
    and k: "key_ok k" "length (dict_pop k (oa_cache st)) < Suc n"
    and below: "\<And>st1 x. \<forall>x. rows st1 x = (if (k, x) \<in> (row_child (rows st))\<^sup>* then None else rows st x) \<Longrightarrow>
      (k, x) \<in> (cached_child (oa_cache st))\<^sup>* \<Longrightarrow> inert st1 x"
  shows "\<exists>st'. remove_object_access (Suc n) (fst k) (snd k) True st = (Inr (), st') \<and> st_ok env st' \<and> dict_wf (oa_cache st')
    \<and> oa_events st' = oa_events st
    \<and> (\<forall>x. rows st' x = (if (k, x) \<in> (row_child (rows st))\<^sup>* then None else rows st x))
    \<and> (\<forall>x. dict_get (oa_cache st') x = (if (k, x) \<in> (cached_child (oa_cache st))\<^sup>* then None else dict_get (oa_cache st) x))"
proof -
  let ?E = "cached_child (oa_cache st)"
  define st0 where "st0 = st\<lparr> oa_cache := dict_pop k (oa_cache st) \<rparr>"
  have r0: "rows st0 = rows st" by (simp add: st0_def rows_def stored_def fun_eq_iff)
  have "st_ok env st0" using st(1) by (simp add: st_ok_def st0_def)
  from delete_stored_ok [OF this k(1)] obtain st1 where d: "delete_stored_access k True st0 = (Inr (), st1)" "st_ok env st1"
    "oa_cache st1 = dict_pop k (oa_cache st)" "oa_events st1 = oa_events st"
    "\<forall>x. rows st1 x = (if (k, x) \<in> (row_child (rows st))\<^sup>* then None else rows st x)"
    unfolding r0 by (auto simp: st0_def)
  have get1: "dict_get (oa_cache st1) x = (if x \<in> {k} then None else dict_get (oa_cache st) x)" for x
    by (simp add: d(3) pydict.get_pop)
  have E1: "cached_child (oa_cache st1) = {(q, x). (q, x) \<in> ?E \<and> x \<noteq> k}"
    using cached_child_pruned [OF get1] by simp
  have wf1: "dict_wf (oa_cache st1)" using st(2) by (simp add: d(3) pydict.wf_pop)
  have ch: "set (cached_children k st1) = {x. (k, x) \<in> ?E \<and> x \<noteq> k}" by (simp add: set_cached_children [OF wf1] E1)
  have "removable n env st1 (set (cached_children k st1))"
    unfolding removable_def ch
  proof (intro conjI d(2) wf1 ballI allI impI)
    show "key_ok x" if "dict_get (oa_cache st1) x \<noteq> None" for x using that st(3) get1 by (metis (full_types))
    fix c assume c: "c \<in> {x. (k, x) \<in> ?E \<and> x \<noteq> k}"
    then have cached: "dict_get (oa_cache st1) c \<noteq> None" by (auto simp: get1 cached_child_def)
    then show "key_ok c" using st(3) get1 by (metis (full_types))
    show "length (dict_pop c (oa_cache st1)) < n" using length_pop_less [OF wf1 cached] k(2) d(3) by simp
    show "inert st1 x" if "(c, x) \<in> (cached_child (oa_cache st1))\<^sup>*" for x
      using that reach_children [of k ?E] c unfolding E1 by (intro below [OF d(5)]) blast
  qed
  from remove_loop [OF call this] obtain st2 where l: "sfor (cached_children k st1) (\<lambda>(cty, cid). remove_object_access n cty cid True) st1 = (Inr (), st2)"
    "pruned env (set (cached_children k st1)) st1 st2" by blast
  have kk: "object_key (fst k) (snd k) = k" using k(1) by (simp add: key_ok_def)
  have run: "remove_object_access (Suc n) (fst k) (snd k) True st = (Inr (), st2)"
    using d(1) l(1) unfolding st0_def by (simp add: Let_def kk sbind_def supdate_def)
  have "dict_get (oa_cache st2) x = (if (k, x) \<in> ?E\<^sup>* then None else dict_get (oa_cache st) x)" for x
  proof -
    have "dict_get (oa_cache st2) x = (if x \<in> (cached_child (oa_cache st1))\<^sup>* `` set (cached_children k st1) then None else dict_get (oa_cache st1) x)"
      using l(2) unfolding pruned_def by blast
    moreover have "(k, x) \<in> ?E\<^sup>* \<longleftrightarrow> x = k \<or> x \<in> (cached_child (oa_cache st1))\<^sup>* `` set (cached_children k st1)"
      using reach_children [of k ?E] unfolding E1 ch by blast
    ultimately show ?thesis by (simp add: get1)
  qed
  then show ?thesis using run l(2) d(4,5) by (auto simp: pruned_def)
qed

lemma remove_cascade:
  "removable n env st {k} \<Longrightarrow> \<exists>st'. remove_object_access n (fst k) (snd k) True st = (Inr (), st') \<and> pruned env {k} st st'"
proof (induction n arbitrary: st k)
  case 0
  then show ?case by (simp add: removable_def)
next
  case (Suc n)
  note r = Suc.prems [unfolded removable_def]
  have ik: "inert st k" using r by blast
  have "\<exists>st'. remove_object_access (Suc n) (fst k) (snd k) True st = (Inr (), st') \<and> st_ok env st' \<and> dict_wf (oa_cache st')
    \<and> oa_events st' = oa_events st
    \<and> (\<forall>x. rows st' x = (if (k, x) \<in> (row_child (rows st))\<^sup>* then None else rows st x))
    \<and> (\<forall>x. dict_get (oa_cache st') x = (if (k, x) \<in> (cached_child (oa_cache st))\<^sup>* then None else dict_get (oa_cache st) x))"
  proof (rule remove_body [OF Suc.IH])
    show "inert st1 x" if "\<forall>x. rows st1 x = (if (k, x) \<in> (row_child (rows st))\<^sup>* then None else rows st x)"
      "(k, x) \<in> (cached_child (oa_cache st))\<^sup>*" for st1 x
      using r that inert_delete [OF ik that(1)] unfolding inert_def by (metis singletonI)
  qed (use r in blast)+
  then show ?case using inert_delete [OF ik] unfolding pruned_def by (metis Image_singleton_iff)
qed

lemma cached_child_rows:
  assumes "acl_inv env st" "stored st \<noteq> None"
  shows "cached_child (oa_cache st) \<subseteq> row_child (rows st)"
proof
  fix e assume "e \<in> cached_child (oa_cache st)"
  then obtain x r where e: "e = ((oar_parent_object_type r, oar_parent_object_id r), x)" "dict_get (oa_cache st) x = Some r"
    unfolding cached_child_def by blast
  obtain tbl where tbl: "stored st = Some tbl" using assms(2) by blast
  have "Option.bind (dict_get tbl x) (row_record (oe_codec env) x) = Some (core r)"
    using assms(1) e(2) tbl unfolding acl_inv_def cache_ok_def by blast
  then obtain row where row: "dict_get tbl x = Some row" "row_record (oe_codec env) x row = Some (core r)"
    by (auto simp: bind_eq_Some_conv)
  have "oar_parent_object_type (core r) = acc_parent_object_type row" "oar_parent_object_id (core r) = acc_parent_object_id row"
    using row(2) by (cases r, auto simp: row_record_def core_def split: option.splits pyval.splits)+
  then show "e \<in> row_child (rows st)" using e(1) row(1) tbl by (simp add: row_child_def rows_def acc_parent_def)
qed

text \<open>
  C34: Removal with its cascade ends with success, on cyclic parents too, once it may nest as
  deep as there are cached records. It removes from the database exactly the stored
  descendants of the object, and from the cache exactly its cached descendants; no event is
  recorded.
\<close>

theorem remove_object_access_exact:
  assumes "acl_inv env st" "dict_wf (oa_cache st)" "length (oa_cache st) \<le> n"
  shows "\<exists>st'. remove_object_access (Suc n) oty oid True st = (Inr (), st') \<and> oa_events st' = oa_events st
    \<and> (\<forall>x. rows st' x = (if (object_key oty oid, x) \<in> (row_child (rows st))\<^sup>* then None else rows st x))
    \<and> (\<forall>x. dict_get (oa_cache st') x =
         (if (object_key oty oid, x) \<in> (cached_child (oa_cache st))\<^sup>* then None else dict_get (oa_cache st) x))"
proof -
  let ?k = "object_key oty oid"
  have same: "remove_object_access (Suc n) oty oid True = remove_object_access (Suc n) (fst ?k) (snd ?k) True"
    by (simp add: Let_def)
  have below: "inert st1 x" if st1: "\<forall>x. rows st1 x = (if (?k, x) \<in> (row_child (rows st))\<^sup>* then None else rows st x)"
    and x: "(?k, x) \<in> (cached_child (oa_cache st))\<^sup>*" for st1 x
  proof (cases "stored st")
    case None
    then have "rows st y = None" for y by (simp add: rows_def)
    then show ?thesis using st1 by (simp add: inert_def)
  next
    case (Some tbl)
    then have kx: "(?k, x) \<in> (row_child (rows st))\<^sup>*"
      using x rtrancl_mono [OF cached_child_rows [OF assms(1)]] by blast
    have "row_child (rows st1) \<subseteq> row_child (rows st)"
      using st1 unfolding row_child_def by (clarify, metis option.map_disc_iff option.distinct(1))
    from rtrancl_mono [OF this] have "(?k, y) \<in> (row_child (rows st))\<^sup>*" if "(x, y) \<in> (row_child (rows st1))\<^sup>*" for y
      using kx that by (meson rtrancl_trans subsetD)
    then show ?thesis using st1 unfolding inert_def by presburger
  qed
  have "length (dict_pop ?k (oa_cache st)) \<le> length (oa_cache st)"
    by (rule dict_length_mono) (auto simp: assms(2) pydict.wf_pop pydict.get_pop split: if_splits)
  moreover have "st_ok env st" "\<forall>x. dict_get (oa_cache st) x \<noteq> None \<longrightarrow> key_ok x"
    using assms(1) unfolding acl_inv_def cache_ok_def record_ok_def by blast+
  ultimately have "\<exists>st'. remove_object_access (Suc n) (fst ?k) (snd ?k) True st = (Inr (), st') \<and> st_ok env st' \<and> dict_wf (oa_cache st')
    \<and> oa_events st' = oa_events st
    \<and> (\<forall>x. rows st' x = (if (?k, x) \<in> (row_child (rows st))\<^sup>* then None else rows st x))
    \<and> (\<forall>x. dict_get (oa_cache st') x = (if (?k, x) \<in> (cached_child (oa_cache st))\<^sup>* then None else dict_get (oa_cache st) x))"
    using assms(2,3) by (intro remove_body [OF remove_cascade]) (auto intro: below)
  then show ?thesis unfolding same by metis
qed

section \<open>Instances\<close>

text \<open>A codec that reads lists of strings back: every character is marked, every string ends in a dot.\<close>

definition demo_encode :: "string \<Rightarrow> string" where
  "demo_encode s = concat (map (\<lambda>ch. [CHR ''x'', ch]) s) @ ''.''"

fun demo_decode :: "string \<Rightarrow> string \<Rightarrow> string list" where
  "demo_decode (m # ch # cs) acc = (if m = CHR ''x'' then demo_decode cs (acc @ [ch]) else acc # demo_decode (ch # cs) [])"
| "demo_decode [m] acc = [acc]"
| "demo_decode [] acc = []"

definition acl_codec :: codec where
  "acl_codec = \<lparr> c_sha256 = (\<lambda>s. s), c_model_dump = (\<lambda>_. PStr ''d''), c_model_validate_json = (\<lambda>_. Inl ''unused''),
     c_dumps = (\<lambda>v. case v of PList vs \<Rightarrow> concat (map (\<lambda>v. case v of PStr s \<Rightarrow> demo_encode s | _ \<Rightarrow> []) vs) | _ \<Rightarrow> []),
     c_loads = (\<lambda>t. Some (PList (map PStr (demo_decode t [])))), c_str = (\<lambda>_. []) \<rparr>"

lemma demo_decode_string: "demo_decode (demo_encode s @ t) acc = (acc @ s) # demo_decode t []"
proof (induction s arbitrary: acc)
  case Nil
  show ?case by (cases t) (simp_all add: demo_encode_def)
next
  case (Cons ch s)
  then show ?case by (simp add: demo_encode_def)
qed

lemma demo_decode_list: "demo_decode (concat (map demo_encode xs)) [] = xs"
proof (induction xs)
  case (Cons x xs)
  then show ?case by (simp add: demo_decode_string)
qed simp

lemma acl_codec_ok: "json_lists_ok acl_codec"
  by (simp add: json_lists_ok_def acl_codec_def canonical_json_payload_def comp_def demo_decode_list)

definition acl_env :: access_env where
  "acl_env = \<lparr> oe_codec = acl_codec, oe_uuid = (\<lambda>_. ''e''), oe_now = (\<lambda>_. ''t'') \<rparr>"

definition acl_start :: access_state where
  "acl_start = \<lparr> oa_cache = [], oa_events = [], oa_db = Some empty_db, oa_tick = 0 \<rparr>"

definition caller :: "string \<Rightarrow> request_principal" where
  "caller who = \<lparr> rp_principal_id = who, rp_actor = who, rp_scopes = [], rp_authenticated = True, rp_local_development = False \<rparr>"

lemma acl_start_inv: "acl_inv acl_env acl_start"
  by (simp add: acl_inv_def st_ok_def rows_ok_def cache_ok_def stored_def acl_start_def acl_env_def acl_codec_ok empty_db_inv)
     (simp add: empty_db_def)

definition acl_record :: "object_key \<Rightarrow> string \<Rightarrow> object_key \<Rightarrow> object_access_record" where
  "acl_record k owner parent = \<lparr> oar_object_type = fst k, oar_object_id = snd k, oar_owner_principal = owner, oar_delegates = {},
     oar_parent_object_type = fst parent, oar_parent_object_id = snd parent, oar_created_at = ''t'' \<rparr>"

text \<open>A session of \<open>a\<close> and, below it, a review of \<open>b\<close>, without a database.\<close>

definition acl_demo :: access_state where
  "acl_demo = \<lparr> oa_cache = [((''session'', ''s''), acl_record (''session'', ''s'') ''a'' ([], [])),
      ((''review'', ''r''), acl_record (''review'', ''r'') ''b'' (''session'', ''s''))], oa_events = [], oa_db = None, oa_tick = 0 \<rparr>"

lemma acl_demo_view:
  "view acl_env acl_demo ''session'' ''s'' = Some (core (acl_record (''session'', ''s'') ''a'' ([], [])))"
  "view acl_env acl_demo ''review'' ''r'' = Some (core (acl_record (''review'', ''r'') ''b'' (''session'', ''s'')))"
  by (simp_all add: view_eq acl_demo_def object_key_def) code_simp+

lemma acl_demo_inv: "acl_inv acl_env acl_demo"
proof -
  have "record_ok k r" if "dict_get (oa_cache acl_demo) k = Some r" for k r
  proof -
    have "(k, r) \<in> set (oa_cache acl_demo)" by (rule dict_get_mem [OF that])
    moreover have "key_ok (''session'', ''s'')" "key_ok (''review'', ''r'')" "key_ok ([], [])" by code_simp+
    ultimately show ?thesis by (auto simp: acl_demo_def acl_record_def record_ok_def)
  qed
  then show ?thesis
    by (simp add: acl_inv_def st_ok_def rows_ok_def cache_ok_def stored_def acl_codec_ok acl_env_def) (simp add: acl_demo_def)
qed

lemma acl_demo_ancestry: "ancestry (view acl_env acl_demo) ''review'' ''r'' 2 (core (acl_record (''session'', ''s'') ''a'' ([], [])))"
proof -
  have "ancestry (view acl_env acl_demo) ''session'' ''s'' 1 (core (acl_record (''session'', ''s'') ''a'' ([], [])))"
    by (rule ancestry_root) (simp_all add: acl_demo_view has_parent_def acl_record_def core_def, code_simp)
  then show ?thesis
    using ancestry_parent [of "''r''" "view acl_env acl_demo" "''review''" _ 1, OF _ acl_demo_view(2)]
    by (simp add: has_parent_def acl_record_def core_def numeral_2_eq_2) (simp add: strip_def is_space_def)
qed


theorem child_access_is_parent_access_witness:
  "is_ok (fst (authorize_object 2 acl_env ''review'' ''r'' (caller ''b'') ''read'' ''q'' False [] [] acl_demo))
    = is_ok (fst (authorize_object 1 acl_env ''session'' ''s'' (caller ''b'') ''read'' ''q'' False [] [] acl_demo))"
proof -
  have "st_ok acl_env acl_demo" using acl_demo_inv by (simp add: acl_inv_def)
  moreover have "strip ''r'' \<noteq> []" by code_simp
  moreover have "has_parent (core (acl_record (''review'', ''r'') ''b'' (''session'', ''s'')))" by code_simp
  ultimately show ?thesis
    using child_access_is_parent_access [OF _ acl_demo_view(2), of 1 "caller ''b''" "''read''" "''q''" "''read''" "''q''"]
    by (simp add: acl_record_def numeral_2_eq_2 del: authorize_object.simps)
qed

theorem access_refines_spec_witness:
  "\<exists>res st'. run_access 3 acl_env (caller ''a'') ''read'' ''q'' (Authorize ''session'' ''s'' True [] []) acl_start = (res, st')
    \<and> acl_inv acl_env st' \<and> map_option oar_owner_principal (view acl_env st' ''session'' ''s'') = Some ''a''"
proof -
  obtain res st' where e: "run_access 3 acl_env (caller ''a'') ''read'' ''q'' (Authorize ''session'' ''s'' True [] []) acl_start = (res, st')"
    by fastforce
  have "strip ''s'' \<noteq> []" by code_simp
  moreover have "view acl_env acl_start ''session'' ''s'' = None"
    by (simp add: view_eq acl_start_def stored_def empty_db_def)
  ultimately show ?thesis
    using access_refines_spec [OF acl_start_inv e [unfolded numeral_3_eq_3]] e
    by (simp add: acl_put_def core_def caller_def del: authorize_object.simps)
qed

theorem remove_object_access_exact_witness:
  "\<exists>st'. remove_object_access 3 ''Session'' '' s'' True acl_demo = (Inr (), st') \<and> dict_get (oa_cache st') (''review'', ''r'') = None"
proof -
  have k: "object_key ''Session'' '' s'' = (''session'', ''s'')" by code_simp
  have "((''session'', ''s''), (''review'', ''r'')) \<in> (cached_child (oa_cache acl_demo))\<^sup>*"
    by (intro r_into_rtrancl) (simp add: cached_child_def acl_demo_def dict_get_def acl_record_def)
  moreover have "dict_wf (oa_cache acl_demo)" by (simp add: acl_demo_def dict_wf_def)
  moreover have "length (oa_cache acl_demo) \<le> 2" by (simp add: acl_demo_def)
  ultimately show ?thesis
    using remove_object_access_exact [OF acl_demo_inv, of 2 "''Session''" "'' s''"] unfolding k numeral_3_eq_3 numeral_2_eq_2 by metis
qed

text \<open>
  A record in the cache outlives the removal of its grandparent when the record between them
  is in the database only: the cascade over the cache does not reach it.
\<close>

definition acl_split :: access_state where
  "acl_split = \<lparr> oa_cache = [((''review'', ''r''), acl_record (''review'', ''r'') ''b'' (''design'', ''d''))], oa_events = [],
     oa_db = Some (empty_db\<lparr> db_access := [((''session'', ''s''), demo_access ([], [])), ((''design'', ''d''), demo_access (''session'', ''s'')),
       ((''review'', ''r''), demo_access (''design'', ''d''))] \<rparr>), oa_tick = 0 \<rparr>"

lemma stale_descendant:
  "(case remove_object_access 3 ''session'' ''s'' True acl_split of
      (res, st') \<Rightarrow> is_ok res \<and> stored st' = Some [] \<and> dict_keys (oa_cache st') = [(''review'', ''r'')])"
  by code_simp

end
