(* ===== verification/Grid_Map.thy ===== *)
theory Grid_Map
  imports Design_Model
begin

text \<open>
  \<^verbatim>\<open>ObstacleMap\<close> of \<^verbatim>\<open>src/zaptrace/algo/grid_router.py\<close>: the occupancy grid of the router, with
  blocked cells, copper owned by nets, and pads. Cells are nested lists indexed by layer, row
  and column, as in the code; \<^verbatim>\<open>_copper\<close> and \<^verbatim>\<open>_pads\<close> are dictionaries. Python's indexing of a
  list by a negative number and its \<^verbatim>\<open>IndexError\<close> are written out.
\<close>

section \<open>Positions and maps\<close>

record grid_pos =
  gp_x :: int
  gp_y :: int
  gp_layer :: int

definition mk_pos :: "int \<Rightarrow> int \<Rightarrow> int \<Rightarrow> grid_pos" where
  "mk_pos x y l = \<lparr> gp_x = x, gp_y = y, gp_layer = l \<rparr>"

record obstacle_map =
  om_width :: int
  om_height :: int
  om_layers :: int
  om_cells :: "int list list list"
  om_copper :: "(grid_pos, string) dict"
  om_pads :: "(grid_pos, string option) dict"
  om_pad_conflicts :: "grid_pos set"
  om_enforce_static_clearance :: bool

definition new_obstacle_map :: "int \<Rightarrow> int \<Rightarrow> int \<Rightarrow> obstacle_map" where
  "new_obstacle_map w h n =
     \<lparr> om_width = w, om_height = h, om_layers = n,
       om_cells = replicate (nat n) (replicate (nat h) (replicate (nat w) 0)),
       om_copper = [], om_pads = [], om_pad_conflicts = {}, om_enforce_static_clearance = False \<rparr>"

text \<open>Values of the model are immutable, so the copy is the map itself.\<close>

definition clone :: "obstacle_map \<Rightarrow> obstacle_map" where
  "clone m = (new_obstacle_map (om_width m) (om_height m) (om_layers m))
     \<lparr> om_cells := om_cells m, om_copper := om_copper m, om_pads := om_pads m,
       om_pad_conflicts := om_pad_conflicts m, om_enforce_static_clearance := om_enforce_static_clearance m \<rparr>"

definition cell :: "obstacle_map \<Rightarrow> grid_pos \<Rightarrow> int" where
  "cell m p = om_cells m ! nat (gp_layer p) ! nat (gp_y p) ! nat (gp_x p)"

definition set_cell :: "grid_pos \<Rightarrow> int \<Rightarrow> obstacle_map \<Rightarrow> obstacle_map" where
  "set_cell p v m =
     (let l = nat (gp_layer p); y = nat (gp_y p); layer = om_cells m ! l
      in m\<lparr> om_cells := (om_cells m)[l := layer[y := (layer ! y)[nat (gp_x p) := v]]] \<rparr>)"

section \<open>Queries\<close>

definition in_bounds :: "obstacle_map \<Rightarrow> grid_pos \<Rightarrow> bool" where
  "in_bounds m p = (0 \<le> gp_layer p \<and> gp_layer p < om_layers m \<and> 0 \<le> gp_x p \<and> gp_x p < om_width m
     \<and> 0 \<le> gp_y p \<and> gp_y p < om_height m)"

definition owner :: "obstacle_map \<Rightarrow> grid_pos \<Rightarrow> string option" where
  "owner m p = dict_get (om_copper m) p"

definition is_free :: "obstacle_map \<Rightarrow> grid_pos \<Rightarrow> string option \<Rightarrow> bool" where
  "is_free m p net =
     (if \<not> in_bounds m p \<or> cell m p \<noteq> 0 then False
      else if p \<in> om_pad_conflicts m then False
      else case dict_get (om_pads m) p of
             Some pad_net \<Rightarrow> if net = None \<or> pad_net \<noteq> net then False
                            else owner m p = None \<or> (net \<noteq> None \<and> owner m p = net)
           | None \<Rightarrow> owner m p = None \<or> (net \<noteq> None \<and> owner m p = net))"

definition is_corridor_free :: "obstacle_map \<Rightarrow> grid_pos \<Rightarrow> string option \<Rightarrow> int \<Rightarrow> bool" where
  "is_corridor_free m p net radius =
     (if radius < 0 then False
      else list_all (\<lambda>dy. list_all (\<lambda>dx. is_free m (mk_pos (gp_x p + dx) (gp_y p + dy) (gp_layer p)) net)
             [- radius..radius]) [- radius..radius])"

definition can_place_through_via :: "obstacle_map \<Rightarrow> grid_pos \<Rightarrow> string \<Rightarrow> int \<Rightarrow> bool" where
  "can_place_through_via m p net r =
     (if r < 0 \<or> \<not> in_bounds m p then False
      else list_all (\<lambda>layer. list_all (\<lambda>dy. list_all (\<lambda>dx.
               dx * dx + dy * dy > r * r \<or> is_free m (mk_pos (gp_x p + dx) (gp_y p + dy) layer) (Some net))
             [- r..r]) [- r..r]) [0..om_layers m - 1])"

section \<open>Changes\<close>

definition mark_pad :: "grid_pos \<Rightarrow> string option \<Rightarrow> obstacle_map \<Rightarrow> obstacle_map" where
  "mark_pad p net m =
     (let conflict = (case dict_get (om_pads m) p of Some old \<Rightarrow> old \<noteq> net | None \<Rightarrow> False)
      in m\<lparr> om_pad_conflicts := (if conflict then insert p (om_pad_conflicts m) else om_pad_conflicts m),
            om_pads := dict_set p net (om_pads m) \<rparr>)"

definition block :: "grid_pos \<Rightarrow> obstacle_map \<Rightarrow> obstacle_map" where
  "block p m = (if in_bounds m p then set_cell p 1 m else m)"

definition unblock :: "grid_pos \<Rightarrow> obstacle_map \<Rightarrow> obstacle_map" where
  "unblock p m = (if in_bounds m p then set_cell p 0 m else m)"

definition open_for_net :: "grid_pos \<Rightarrow> string \<Rightarrow> obstacle_map \<Rightarrow> obstacle_map" where
  "open_for_net p net m =
     (if in_bounds m p \<and> p \<notin> om_pad_conflicts m
         \<and> (case dict_get (om_pads m) p of None \<Rightarrow> True | Some pad_net \<Rightarrow> pad_net = Some net)
         \<and> owner m p \<in> {None, Some net}
      then (unblock p m)\<lparr> om_copper := dict_set p net (om_copper m) \<rparr>
      else m)"

definition py_index :: "int \<Rightarrow> int \<Rightarrow> int option" where
  "py_index n i = (if 0 \<le> i \<and> i < n then Some i else if - n \<le> i \<and> i < 0 then Some (i + n) else None)"

definition index_error :: py_error where
  "index_error = AdapterError ''IndexError'' ''list index out of range''"

definition block_rect :: "int \<Rightarrow> int \<Rightarrow> int \<Rightarrow> int \<Rightarrow> int \<Rightarrow> obstacle_map \<Rightarrow> obstacle_map result" where
  "block_rect x0 y0 x1 y1 layer m =
     (let ys = [max 0 y0..min (om_height m - 1) y1]; xs = [max 0 x0..min (om_width m - 1) x1] in
      if ys = [] then Inr m
      else case py_index (om_layers m) layer of
             None \<Rightarrow> Inl index_error
           | Some l \<Rightarrow> Inr (fold (\<lambda>y. fold (\<lambda>x. set_cell (mk_pos x y l) 1) xs) ys m))"

text \<open>
  The loop of \<^verbatim>\<open>block_line\<close>: the cells it visits from \<open>(x, y)\<close> on, or \<open>None\<close> when the first
  argument is used up. \<open>line_cells\<close> allows as many rounds as there are steps in both directions.
\<close>

fun bresenham :: "nat \<Rightarrow> int \<Rightarrow> int \<Rightarrow> int \<Rightarrow> int \<Rightarrow> int \<times> int \<Rightarrow> int \<Rightarrow> int \<Rightarrow> int \<Rightarrow> (int \<times> int) list option" where
  "bresenham 0 dx dy sx sy goal x y err = None"
| "bresenham (Suc n) dx dy sx sy goal x y err =
     (if (x, y) = goal then Some [(x, y)]
      else let e2 = 2 * err;
               (err1, x1) = (if e2 \<ge> dy then (err + dy, x + sx) else (err, x));
               (err2, y1) = (if e2 \<le> dx then (err1 + dx, y + sy) else (err1, y))
           in map_option (\<lambda>rest. (x, y) # rest) (bresenham n dx dy sx sy goal x1 y1 err2))"

definition line_cells :: "grid_pos \<Rightarrow> grid_pos \<Rightarrow> (int \<times> int) list option" where
  "line_cells p q =
     (let dx = \<bar>gp_x q - gp_x p\<bar>; sx = (if gp_x p < gp_x q then 1 else - 1);
          dy = - \<bar>gp_y q - gp_y p\<bar>; sy = (if gp_y p < gp_y q then 1 else - 1)
      in bresenham (Suc (nat (dx - dy))) dx dy sx sy (gp_x q, gp_y q) (gp_x p) (gp_y p) (dx + dy))"

definition dilated :: "obstacle_map \<Rightarrow> int \<Rightarrow> int \<Rightarrow> int \<times> int \<Rightarrow> grid_pos list" where
  "dilated m layer r c =
     filter (in_bounds m) (concat (map (\<lambda>yy. map (\<lambda>xx. mk_pos xx yy layer) [fst c - r..fst c + r]) [snd c - r..snd c + r]))"

definition clearance_conflict :: "obstacle_map \<Rightarrow> string \<Rightarrow> grid_pos \<Rightarrow> bool" where
  "clearance_conflict m net p =
     (owner m p \<notin> {None, Some net} \<or> p \<in> om_pad_conflicts m
      \<or> (case dict_get (om_pads m) p of None \<Rightarrow> False | Some pad_net \<Rightarrow> pad_net \<noteq> Some net)
      \<or> (om_enforce_static_clearance m \<and> cell m p \<noteq> 0))"

definition own_all :: "string \<Rightarrow> grid_pos list \<Rightarrow> obstacle_map \<Rightarrow> obstacle_map" where
  "own_all net ps m = m\<lparr> om_copper := fold (\<lambda>p. dict_set p net) ps (om_copper m) \<rparr>"

definition block_around :: "int \<Rightarrow> int \<Rightarrow> int \<times> int \<Rightarrow> obstacle_map \<Rightarrow> obstacle_map result" where
  "block_around layer r c m =
     (let m1 = block (mk_pos (fst c) (snd c) layer) m in
      if r > 0 then block_rect (fst c - r) (snd c - r) (fst c + r) (snd c + r) layer m1 else Inr m1)"

fun block_cells :: "int \<Rightarrow> int \<Rightarrow> (int \<times> int) list \<Rightarrow> obstacle_map \<Rightarrow> obstacle_map result" where
  "block_cells layer r [] m = Inr m"
| "block_cells layer r (c # cs) m = rbind (block_around layer r c m) (block_cells layer r cs)"

definition clearance_reserved :: py_error where
  "clearance_reserved = ValueError ''Copper clearance is reserved by another net or a static obstacle''"

definition block_line :: "grid_pos \<Rightarrow> grid_pos \<Rightarrow> int \<Rightarrow> string option \<Rightarrow> obstacle_map \<Rightarrow> obstacle_map result" where
  "block_line p q radius net m =
     (case line_cells p q of
        None \<Rightarrow> Inl (RuntimeError ''the loop does not end'')
      | Some cs \<Rightarrow>
          (case net of
             None \<Rightarrow> block_cells (gp_layer p) radius cs m
           | Some n \<Rightarrow>
               (let reservations = concat (map (dilated m (gp_layer p) radius) cs) in
                if list_ex (clearance_conflict m n) reservations then Inl clearance_reserved
                else Inr (own_all n reservations m))))"

definition dilate_layer :: "int \<Rightarrow> obstacle_map \<Rightarrow> int \<Rightarrow> obstacle_map result" where
  "dilate_layer r m layer =
     fold (\<lambda>y acc. fold (\<lambda>x acc.
         if cell m (mk_pos x y layer) \<noteq> 0 then rbind acc (block_rect (x - r) (y - r) (x + r) (y + r) layer) else acc)
       [0..om_width m - 1] acc) [0..om_height m - 1] (Inr m)"

definition dilate :: "int \<Rightarrow> obstacle_map \<Rightarrow> obstacle_map result" where
  "dilate r m = (if r \<le> 0 then Inr m
     else fold (\<lambda>layer acc. rbind acc (\<lambda>m. dilate_layer r m layer)) [0..om_layers m - 1] (Inr m))"

section \<open>Cells\<close>

definition om_wf :: "obstacle_map \<Rightarrow> bool" where
  "om_wf m = (0 \<le> om_width m \<and> 0 \<le> om_height m \<and> 0 \<le> om_layers m \<and> length (om_cells m) = nat (om_layers m)
     \<and> (\<forall>layer\<in>set (om_cells m). length layer = nat (om_height m) \<and> (\<forall>row\<in>set layer. length row = nat (om_width m))))"

lemma mk_pos_sel [simp]: "gp_x (mk_pos x y l) = x" "gp_y (mk_pos x y l) = y" "gp_layer (mk_pos x y l) = l"
  by (simp_all add: mk_pos_def)

lemma mk_pos_collapse [simp]: "mk_pos (gp_x p) (gp_y p) (gp_layer p) = p"
  by (simp add: mk_pos_def)

lemma mk_pos_eq_iff [simp]: "mk_pos x y l = p \<longleftrightarrow> x = gp_x p \<and> y = gp_y p \<and> l = gp_layer p"
  by (cases p) (auto simp: mk_pos_def)

lemma grid_pos_eq_iff: "(p :: grid_pos) = q \<longleftrightarrow> gp_x p = gp_x q \<and> gp_y p = gp_y q \<and> gp_layer p = gp_layer q"
  by (cases p; cases q) auto

lemma clone_eq [simp]: "clone m = m"
  by (cases m) (simp add: clone_def new_obstacle_map_def)

lemma new_obstacle_map_wf: "0 \<le> w \<Longrightarrow> 0 \<le> h \<Longrightarrow> 0 \<le> n \<Longrightarrow> om_wf (new_obstacle_map w h n)"
  by (auto simp: om_wf_def new_obstacle_map_def set_replicate_conv_if split: if_splits)

lemma set_cell_fields [simp]:
  "om_width (set_cell p v m) = om_width m" "om_height (set_cell p v m) = om_height m" "om_layers (set_cell p v m) = om_layers m"
  "om_copper (set_cell p v m) = om_copper m" "om_pads (set_cell p v m) = om_pads m"
  "om_pad_conflicts (set_cell p v m) = om_pad_conflicts m"
  "om_enforce_static_clearance (set_cell p v m) = om_enforce_static_clearance m"
  "in_bounds (set_cell p v m) q = in_bounds m q"
  by (simp_all add: set_cell_def Let_def in_bounds_def)

lemma om_wf_lengths:
  assumes "om_wf m" "in_bounds m p"
  shows "nat (gp_layer p) < length (om_cells m)" "nat (gp_y p) < length (om_cells m ! nat (gp_layer p))"
    "nat (gp_x p) < length (om_cells m ! nat (gp_layer p) ! nat (gp_y p))"
    "length (om_cells m ! nat (gp_layer p)) = nat (om_height m)"
    "length (om_cells m ! nat (gp_layer p) ! nat (gp_y p)) = nat (om_width m)"
proof -
  show l: "nat (gp_layer p) < length (om_cells m)" using assms by (auto simp: om_wf_def in_bounds_def)
  then have mem: "om_cells m ! nat (gp_layer p) \<in> set (om_cells m)" by simp
  then show h: "length (om_cells m ! nat (gp_layer p)) = nat (om_height m)" using assms(1) by (simp add: om_wf_def)
  then show y: "nat (gp_y p) < length (om_cells m ! nat (gp_layer p))" using assms(2) by (auto simp: in_bounds_def)
  then have "om_cells m ! nat (gp_layer p) ! nat (gp_y p) \<in> set (om_cells m ! nat (gp_layer p))" by simp
  then show w: "length (om_cells m ! nat (gp_layer p) ! nat (gp_y p)) = nat (om_width m)"
    using assms(1) mem unfolding om_wf_def by blast
  then show "nat (gp_x p) < length (om_cells m ! nat (gp_layer p) ! nat (gp_y p))" using assms(2) by (auto simp: in_bounds_def)
qed

lemma set_cell_wf:
  assumes "om_wf m" "in_bounds m p"
  shows "om_wf (set_cell p v m)"
proof -
  have mem: "om_cells m ! nat (gp_layer p) \<in> set (om_cells m)" using om_wf_lengths(1) [OF assms] by simp
  show ?thesis
    using assms(1) mem om_wf_lengths(5) [OF assms] unfolding om_wf_def set_cell_def Let_def
    by (auto dest!: set_update_subset_insert [THEN subsetD])
qed

lemma cell_set_cell:
  assumes "om_wf m" "in_bounds m p" "in_bounds m q"
  shows "cell (set_cell p v m) q = (if q = p then v else cell m q)"
proof (cases "gp_layer q = gp_layer p")
  case False
  then have "nat (gp_layer q) \<noteq> nat (gp_layer p)" using assms(2,3) by (auto simp: in_bounds_def)
  then show ?thesis using False by (auto simp: cell_def set_cell_def Let_def)
next
  case l: True
  show ?thesis
  proof (cases "gp_y q = gp_y p")
    case False
    then have "nat (gp_y q) \<noteq> nat (gp_y p)" using assms(2,3) by (auto simp: in_bounds_def)
    then show ?thesis using False l om_wf_lengths(1) [OF assms(1,2)] by (auto simp: cell_def set_cell_def Let_def)
  next
    case True
    have "gp_x q \<noteq> gp_x p \<Longrightarrow> nat (gp_x q) \<noteq> nat (gp_x p)" using assms(2,3) by (auto simp: in_bounds_def)
    then show ?thesis using True l om_wf_lengths [OF assms(1,2)]
      by (auto simp: cell_def set_cell_def Let_def grid_pos_eq_iff nth_list_update)
  qed
qed

text \<open>Writing a 1 to a list of cells.\<close>

lemma fold_set_cell:
  assumes "om_wf m" "\<And>p. p \<in> set ps \<Longrightarrow> in_bounds m p"
  shows "om_wf (fold (\<lambda>p. set_cell p 1) ps m) \<and> (\<forall>q. in_bounds (fold (\<lambda>p. set_cell p 1) ps m) q = in_bounds m q)
    \<and> (\<forall>q. in_bounds m q \<longrightarrow> cell (fold (\<lambda>p. set_cell p 1) ps m) q = (if q \<in> set ps then 1 else cell m q))"
  using assms
proof (induction ps arbitrary: m)
  case (Cons p ps)
  have "om_wf (set_cell p 1 m)" using Cons.prems by (simp add: set_cell_wf)
  from Cons.IH [OF this] Cons.prems show ?case by (auto simp: cell_set_cell)
qed simp

definition same_besides_cells :: "obstacle_map \<Rightarrow> obstacle_map \<Rightarrow> bool" where
  "same_besides_cells m m' = (m' = m\<lparr> om_cells := om_cells m' \<rparr>)"

lemma same_besides_cells_refl [simp]: "same_besides_cells m m"
  by (simp add: same_besides_cells_def)

lemma same_besides_cells_trans: "same_besides_cells a b \<Longrightarrow> same_besides_cells b c \<Longrightarrow> same_besides_cells a c"
  unfolding same_besides_cells_def by (cases a; cases b; cases c) simp

lemma same_besides_cellsD:
  "same_besides_cells m m' \<Longrightarrow> om_width m' = om_width m \<and> om_height m' = om_height m \<and> om_layers m' = om_layers m
     \<and> om_copper m' = om_copper m \<and> (\<forall>q. in_bounds m' q = in_bounds m q)"
  unfolding same_besides_cells_def in_bounds_def by (cases m; cases m') simp

lemma fold_set_cell_same: "same_besides_cells m (fold (\<lambda>p. set_cell p v) ps m)"
proof (induction ps arbitrary: m)
  case (Cons p ps)
  have "same_besides_cells m (set_cell p v m)" by (simp add: same_besides_cells_def set_cell_def Let_def)
  then show ?case using Cons same_besides_cells_trans by simp
qed simp

lemma block_rect_exact:
  assumes "om_wf m" "0 \<le> layer" "layer < om_layers m"
  shows "\<exists>m'. block_rect x0 y0 x1 y1 layer m = Inr m' \<and> om_wf m' \<and> same_besides_cells m m'
    \<and> (\<forall>q. in_bounds m q \<longrightarrow> cell m' q =
         (if gp_layer q = layer \<and> x0 \<le> gp_x q \<and> gp_x q \<le> x1 \<and> y0 \<le> gp_y q \<and> gp_y q \<le> y1 then 1 else cell m q))"
proof -
  let ?ys = "[max 0 y0..min (om_height m - 1) y1]" and ?xs = "[max 0 x0..min (om_width m - 1) x1]"
  define ps where "ps = concat (map (\<lambda>y. map (\<lambda>x. mk_pos x y layer) ?xs) ?ys)"
  have mem: "q \<in> set ps \<longleftrightarrow> in_bounds m q \<and> gp_layer q = layer \<and> x0 \<le> gp_x q \<and> gp_x q \<le> x1 \<and> y0 \<le> gp_y q \<and> gp_y q \<le> y1" for q
  proof -
    have "q \<in> set ps \<longleftrightarrow> (\<exists>y\<in>set ?ys. \<exists>x\<in>set ?xs. q = mk_pos x y layer)" unfolding ps_def by auto
    then show ?thesis using assms(2,3) unfolding eq_commute [of q] mk_pos_eq_iff in_bounds_def set_upto by auto
  qed
  have "block_rect x0 y0 x1 y1 layer m = Inr (fold (\<lambda>p. set_cell p 1) ps m)"
  proof (cases "?ys = []")
    case False
    have "fold (\<lambda>p. set_cell p 1) ps m = fold (\<lambda>y. fold (\<lambda>x. set_cell (mk_pos x y layer) 1) ?xs) ?ys m"
    proof -
      have "fold (\<lambda>p. set_cell p 1) (concat (map (\<lambda>y. map (\<lambda>x. mk_pos x y layer) xs) ys)) s
          = fold (\<lambda>y. fold (\<lambda>x. set_cell (mk_pos x y layer) 1) xs) ys s" for xs ys s
      proof (induction ys arbitrary: s)
        case (Cons y ys)
        then show ?case by (simp add: fold_map comp_def)
      qed simp
      then show ?thesis by (simp add: ps_def)
    qed
    then show ?thesis using False assms(2,3) by (simp add: block_rect_def Let_def py_index_def)
  next
    case True
    then show ?thesis by (simp add: block_rect_def ps_def)
  qed
  moreover have "om_wf (fold (\<lambda>p. set_cell p 1) ps m) \<and> (\<forall>q. in_bounds m q \<longrightarrow> cell (fold (\<lambda>p. set_cell p 1) ps m) q = (if q \<in> set ps then 1 else cell m q))"
    using fold_set_cell [OF assms(1), of ps] mem by blast
  ultimately show ?thesis
    using fold_set_cell_same [of m 1 ps] by (auto simp: mem)
qed

section \<open>Lines\<close>

text \<open>
  After \<open>i\<close> steps in x and \<open>j\<close> in y the error term is \<open>dx * (1 + j) - a * (1 + i)\<close>, for
  \<open>a = - dy\<close>. Every round takes a step, and no coordinate passes its end.
\<close>

lemma bresenham_step:
  "(x, y) \<noteq> goal \<Longrightarrow> bresenham (Suc n) dx dy sx sy goal x y err =
     map_option (\<lambda>rest. (x, y) # rest)
       (bresenham n dx dy sx sy goal (if dy \<le> 2 * err then x + sx else x) (if 2 * err \<le> dx then y + sy else y)
         (err + (if dy \<le> 2 * err then dy else 0) + (if 2 * err \<le> dx then dx else 0)))"
  by (simp add: Let_def)

declare bresenham.simps(2) [simp del]

lemma bresenham_total:
  assumes "0 \<le> i" "i \<le> dx" "0 \<le> j" "j \<le> a" "nat (dx - i + (a - j)) < n"
  shows "\<exists>cs. bresenham n dx (- a) sx sy (x0 + sx * dx, y0 + sy * a) (x0 + sx * i) (y0 + sy * j) (dx * (1 + j) - a * (1 + i)) = Some cs
    \<and> hd cs = (x0 + sx * i, y0 + sy * j) \<and> cs \<noteq> [] \<and> last cs = (x0 + sx * dx, y0 + sy * a)"
  using assms
proof (induction n arbitrary: i j)
  case (Suc n)
  let ?err = "dx * (1 + j) - a * (1 + i)"
  show ?case
  proof (cases "(x0 + sx * i, y0 + sy * j) = (x0 + sx * dx, y0 + sy * a)")
    case True
    then show ?thesis by (simp add: bresenham.simps(2))
  next
    case ne: False
    then have "i < dx \<or> j < a" using Suc.prems by fastforce
    have stepx: "i < dx" if "- a \<le> 2 * ?err"
    proof (rule ccontr)
      assume "\<not> i < dx"
      then have [simp]: "i = dx" and j: "1 + j \<le> a" using Suc.prems \<open>i < dx \<or> j < a\<close> by auto
      have "dx * (1 + j) \<le> dx * a" using j Suc.prems by (intro mult_left_mono) auto
      then show False using that j Suc.prems by (simp add: algebra_simps)
    qed
    have stepy: "j < a" if "2 * ?err \<le> dx"
    proof (rule ccontr)
      assume "\<not> j < a"
      then have [simp]: "j = a" and i: "1 + i \<le> dx" using Suc.prems \<open>i < dx \<or> j < a\<close> by auto
      have "a * (1 + i) \<le> a * dx" using i Suc.prems by (intro mult_left_mono) auto
      then show False using that i Suc.prems by (simp add: algebra_simps)
    qed
    have some: "- a \<le> 2 * ?err \<or> 2 * ?err \<le> dx" using Suc.prems by linarith
    define i' j' where "i' = (if - a \<le> 2 * ?err then i + 1 else i)" and "j' = (if 2 * ?err \<le> dx then j + 1 else j)"
    have "bresenham (Suc n) dx (- a) sx sy (x0 + sx * dx, y0 + sy * a) (x0 + sx * i) (y0 + sy * j) ?err
        = map_option (\<lambda>rest. (x0 + sx * i, y0 + sy * j) # rest)
            (bresenham n dx (- a) sx sy (x0 + sx * dx, y0 + sy * a) (x0 + sx * i') (y0 + sy * j') (dx * (1 + j') - a * (1 + i')))"
    proof -
      have "(if - a \<le> 2 * ?err then x0 + sx * i + sx else x0 + sx * i) = x0 + sx * i'"
        "(if 2 * ?err \<le> dx then y0 + sy * j + sy else y0 + sy * j) = y0 + sy * j'"
        "?err + (if - a \<le> 2 * ?err then - a else 0) + (if 2 * ?err \<le> dx then dx else 0) = dx * (1 + j') - a * (1 + i')"
        unfolding i'_def j'_def by (simp_all add: algebra_simps)
      then show ?thesis using bresenham_step [OF ne, of n dx "- a" sx sy ?err] by simp
    qed
    moreover have "0 \<le> i'" "i' \<le> dx" "0 \<le> j'" "j' \<le> a" "nat (dx - i' + (a - j')) < n"
      using Suc.prems stepx stepy some by (auto simp: i'_def j'_def)
    ultimately show ?thesis using Suc.IH [of i' j'] by fastforce
  qed
qed simp

text \<open>The loop of \<^verbatim>\<open>block_line\<close> ends for all end points, from the first to the second.\<close>

lemma line_cells_total:
  "\<exists>cs. line_cells p q = Some cs \<and> cs \<noteq> [] \<and> hd cs = (gp_x p, gp_y p) \<and> last cs = (gp_x q, gp_y q)"
proof -
  define dx a sx sy where "dx = \<bar>gp_x q - gp_x p\<bar>" and "a = \<bar>gp_y q - gp_y p\<bar>"
    and "sx = (if gp_x p < gp_x q then 1 else - 1 :: int)" and "sy = (if gp_y p < gp_y q then 1 else - 1 :: int)"
  have goal: "gp_x q = gp_x p + sx * dx" "gp_y q = gp_y p + sy * a" by (auto simp: dx_def a_def sx_def sy_def)
  have "line_cells p q = bresenham (Suc (nat (dx + a))) dx (- a) sx sy (gp_x q, gp_y q) (gp_x p) (gp_y p) (dx - a)"
    by (simp add: line_cells_def Let_def dx_def a_def sx_def sy_def)
  moreover have "0 \<le> dx" "0 \<le> a" by (simp_all add: dx_def a_def)
  ultimately show ?thesis
    using bresenham_total [of 0 dx 0 a "Suc (nat (dx + a))" sx sy "gp_x p" "gp_y p", folded goal] by auto
qed

text \<open>On horizontal, vertical and diagonal lines it visits exactly the cells of the line.\<close>

lemma bresenham_straight:
  assumes "(ux, uy) \<in> {(1, 0), (0, 1), (1, 1)}" "0 \<le> k" "k \<le> len" "nat (len - k) < n"
    and "sx \<in> {1, - 1}" "sy \<in> {1, - 1}"
  shows "bresenham n (ux * len) (- (uy * len)) sx sy (x0 + sx * (ux * len), y0 + sy * (uy * len)) (x0 + sx * (ux * k)) (y0 + sy * (uy * k))
      (ux * len * (1 + uy * k) - uy * len * (1 + ux * k))
    = Some (map (\<lambda>t. (x0 + sx * (ux * t), y0 + sy * (uy * t))) [k..len])"
  using assms(2-4)
proof (induction n arbitrary: k)
  case (Suc n)
  show ?case
  proof (cases "k = len")
    case True
    then show ?thesis by (simp add: bresenham.simps(2))
  next
    case False
    then have k: "k < len" using Suc.prems by simp
    have ne: "(x0 + sx * (ux * k), y0 + sy * (uy * k)) \<noteq> (x0 + sx * (ux * len), y0 + sy * (uy * len))"
      using assms(1,5,6) k by auto
    have "bresenham (Suc n) (ux * len) (- (uy * len)) sx sy (x0 + sx * (ux * len), y0 + sy * (uy * len)) (x0 + sx * (ux * k)) (y0 + sy * (uy * k))
        (ux * len * (1 + uy * k) - uy * len * (1 + ux * k))
      = map_option (\<lambda>rest. (x0 + sx * (ux * k), y0 + sy * (uy * k)) # rest)
          (bresenham n (ux * len) (- (uy * len)) sx sy (x0 + sx * (ux * len), y0 + sy * (uy * len)) (x0 + sx * (ux * (k + 1))) (y0 + sy * (uy * (k + 1)))
            (ux * len * (1 + uy * (k + 1)) - uy * len * (1 + ux * (k + 1))))"
    proof -
      let ?err = "ux * len * (1 + uy * k) - uy * len * (1 + ux * k)"
      have "(if - (uy * len) \<le> 2 * ?err then x0 + sx * (ux * k) + sx else x0 + sx * (ux * k)) = x0 + sx * (ux * (k + 1))"
        "(if 2 * ?err \<le> ux * len then y0 + sy * (uy * k) + sy else y0 + sy * (uy * k)) = y0 + sy * (uy * (k + 1))"
        "?err + (if - (uy * len) \<le> 2 * ?err then - (uy * len) else 0) + (if 2 * ?err \<le> ux * len then ux * len else 0)
          = ux * len * (1 + uy * (k + 1)) - uy * len * (1 + ux * (k + 1))"
        using assms(1) k Suc.prems by (auto simp: algebra_simps)
      then show ?thesis using bresenham_step [OF ne, of n "ux * len" "- (uy * len)" sx sy ?err] by simp
    qed
    also have "\<dots> = Some ((x0 + sx * (ux * k), y0 + sy * (uy * k)) # map (\<lambda>t. (x0 + sx * (ux * t), y0 + sy * (uy * t))) [k + 1..len])"
      using Suc.IH [of "k + 1"] Suc.prems k by simp
    finally show ?thesis using k by (simp add: upto_rec1)
  qed
qed simp

lemma line_cells_straight:
  assumes "dx \<in> {- 1, 0, 1}" "dy \<in> {- 1, 0, 1}" "(dx, dy) \<noteq> (0, 0)" "0 \<le> len"
    and "gp_x q = gp_x p + dx * len" "gp_y q = gp_y p + dy * len"
  shows "line_cells p q = Some (map (\<lambda>t. (gp_x p + dx * t, gp_y p + dy * t)) [0..len])"
proof (cases "len = 0")
  case True
  then show ?thesis using assms(5,6) by (simp add: line_cells_def Let_def bresenham.simps(2))
next
  case False
  define sx sy where "sx = (if gp_x p < gp_x q then 1 else - 1 :: int)" and "sy = (if gp_y p < gp_y q then 1 else - 1 :: int)"
  have u: "(\<bar>dx\<bar>, \<bar>dy\<bar>) \<in> {(1, 0), (0, 1), (1, 1)}" "sx \<in> {1, - 1}" "sy \<in> {1, - 1}" using assms(1-3) by (auto simp: sx_def sy_def)
  have d: "\<bar>gp_x q - gp_x p\<bar> = \<bar>dx\<bar> * len" "\<bar>gp_y q - gp_y p\<bar> = \<bar>dy\<bar> * len"
    using assms(4-6) by (simp_all add: abs_mult)
  have s: "sx * (\<bar>dx\<bar> * t) = dx * t" "sy * (\<bar>dy\<bar> * t) = dy * t" for t
    using assms False by (auto simp: sx_def sy_def)
  have "line_cells p q = bresenham (Suc (nat (\<bar>dx\<bar> * len + \<bar>dy\<bar> * len))) (\<bar>dx\<bar> * len) (- (\<bar>dy\<bar> * len)) sx sy
      (gp_x q, gp_y q) (gp_x p) (gp_y p) (\<bar>dx\<bar> * len - \<bar>dy\<bar> * len)"
    by (simp add: line_cells_def Let_def sx_def sy_def d)
  moreover have "nat (len - 0) < Suc (nat (\<bar>dx\<bar> * len + \<bar>dy\<bar> * len))" using u(1) assms(4) by auto
  ultimately show ?thesis
    using bresenham_straight [OF u(1) order.refl assms(4) _ u(2,3), of "Suc (nat (\<bar>dx\<bar> * len + \<bar>dy\<bar> * len))" "gp_x p" "gp_y p"] assms(5,6)
    by (simp add: s)
qed

section \<open>Ownership\<close>

definition keeps_owners :: "obstacle_map \<Rightarrow> obstacle_map \<Rightarrow> bool" where
  "keeps_owners m m' = (om_width m' = om_width m \<and> om_height m' = om_height m \<and> om_layers m' = om_layers m
     \<and> (\<forall>p n. owner m p = Some n \<longrightarrow> owner m' p = Some n))"

lemma keeps_owners_refl [simp]: "keeps_owners m m"
  by (simp add: keeps_owners_def)

lemma keeps_owners_trans: "keeps_owners a b \<Longrightarrow> keeps_owners b c \<Longrightarrow> keeps_owners a c"
  by (simp add: keeps_owners_def)

lemma keeps_owners_bounds: "keeps_owners m m' \<Longrightarrow> in_bounds m' p = in_bounds m p"
  by (simp add: keeps_owners_def in_bounds_def)

lemma owner_own_all: "owner (own_all n ps m) p = (if p \<in> set ps then Some n else owner m p)"
proof -
  have "dict_get (fold (\<lambda>p. dict_set p n) ps d) p = (if p \<in> set ps then Some n else dict_get d p)" for d
    by (induction ps arbitrary: d) (auto simp: pydict.get_put)
  then show ?thesis by (simp add: owner_def own_all_def)
qed

lemma set_dilated:
  "q \<in> set (dilated m layer r c) \<longleftrightarrow> in_bounds m q \<and> gp_layer q = layer \<and> \<bar>gp_x q - fst c\<bar> \<le> r \<and> \<bar>gp_y q - snd c\<bar> \<le> r"
proof -
  have "q \<in> set (dilated m layer r c) \<longleftrightarrow> in_bounds m q \<and> (\<exists>yy\<in>{snd c - r..snd c + r}. \<exists>xx\<in>{fst c - r..fst c + r}. q = mk_pos xx yy layer)"
    unfolding dilated_def by auto
  then show ?thesis unfolding eq_commute [of q] mk_pos_eq_iff by auto
qed

text \<open>Reserving a line for a net fails without effect, or takes free cells only and all cells of the line.\<close>

lemma block_line_net:
  assumes "block_line p q r (Some n) m = Inr m'"
  shows "keeps_owners m m'
    \<and> om_cells m' = om_cells m \<and> om_pads m' = om_pads m \<and> om_pad_conflicts m' = om_pad_conflicts m
    \<and> (\<forall>c. c \<in> set (the (line_cells p q)) \<longrightarrow> 0 \<le> r \<longrightarrow> in_bounds m (mk_pos (fst c) (snd c) (gp_layer p)) \<longrightarrow>
         owner m' (mk_pos (fst c) (snd c) (gp_layer p)) = Some n)
    \<and> (\<forall>x. gp_layer x \<noteq> gp_layer p \<longrightarrow> owner m' x = owner m x)"
proof -
  obtain cs where cs: "line_cells p q = Some cs" using line_cells_total by blast
  define res where "res = concat (map (dilated m (gp_layer p) r) cs)"
  have ok: "\<not> list_ex (clearance_conflict m n) res" and m': "m' = own_all n res m"
    using assms by (simp_all add: block_line_def cs Let_def res_def split: if_splits)
  have own: "owner m' x = (if x \<in> set res then Some n else owner m x)" for x by (simp add: m' owner_own_all)
  have free: "owner m x \<in> {None, Some n}" if "x \<in> set res" for x
    using ok that by (auto simp: list_ex_iff clearance_conflict_def)
  have "owner m' x = Some k" if "owner m x = Some k" for x k using free [of x] that by (auto simp: own)
  then have "keeps_owners m m'" by (simp add: keeps_owners_def) (simp add: m' own_all_def)
  moreover have "mk_pos (fst c) (snd c) (gp_layer p) \<in> set res"
    if "c \<in> set cs" "0 \<le> r" "in_bounds m (mk_pos (fst c) (snd c) (gp_layer p))" for c
    using that by (auto simp: res_def set_dilated intro!: bexI [of _ c])
  moreover have "x \<notin> set res" if "gp_layer x \<noteq> gp_layer p" for x using that by (auto simp: res_def set_dilated)
  moreover have "om_cells m' = om_cells m" "om_pads m' = om_pads m" "om_pad_conflicts m' = om_pad_conflicts m"
    by (simp_all add: m' own_all_def)
  ultimately show ?thesis unfolding cs option.sel by (simp add: own)
qed

lemma open_for_net_owners: "keeps_owners m (open_for_net p n m)"
proof (cases "open_for_net p n m = m")
  case False
  then have o: "owner m p \<in> {None, Some n}" and e: "open_for_net p n m = (unblock p m)\<lparr> om_copper := dict_set p n (om_copper m) \<rparr>"
    unfolding open_for_net_def by (metis (full_types))+
  have "owner (open_for_net p n m) q = (if q = p then Some n else owner m q)" for q
    unfolding e by (simp add: owner_def pydict.get_put)
  then show ?thesis using o by (auto simp: keeps_owners_def) (simp_all add: e unblock_def)
qed simp

section \<open>Dilation\<close>

definition near :: "int \<Rightarrow> grid_pos \<Rightarrow> grid_pos \<Rightarrow> bool" where
  "near r p q = (gp_layer p = gp_layer q \<and> \<bar>gp_x q - gp_x p\<bar> \<le> r \<and> \<bar>gp_y q - gp_y p\<bar> \<le> r)"

lemma dilate_fold:
  assumes "om_wf m1" "same_besides_cells m m1" "\<And>p. p \<in> set ps \<Longrightarrow> in_bounds m p"
  shows "\<exists>m2. fold (\<lambda>p acc. if cell m p \<noteq> 0 then rbind acc (block_rect (gp_x p - r) (gp_y p - r) (gp_x p + r) (gp_y p + r) (gp_layer p)) else acc)
      ps (Inr m1) = Inr m2 \<and> om_wf m2 \<and> same_besides_cells m m2
    \<and> (\<forall>q. in_bounds m q \<longrightarrow> cell m2 q = (if \<exists>p\<in>set ps. cell m p \<noteq> 0 \<and> near r p q then 1 else cell m1 q))"
  using assms
proof (induction ps arbitrary: m1)
  case (Cons p ps)
  show ?case
  proof (cases "cell m p = 0")
    case True
    then show ?thesis using Cons.IH [OF Cons.prems(1,2)] Cons.prems(3) by auto
  next
    case False
    have "0 \<le> gp_layer p" "gp_layer p < om_layers m1"
      using Cons.prems(3) [of p] same_besides_cellsD [OF Cons.prems(2)] by (auto simp: in_bounds_def)
    from block_rect_exact [OF Cons.prems(1) this] obtain m3 where m3:
      "block_rect (gp_x p - r) (gp_y p - r) (gp_x p + r) (gp_y p + r) (gp_layer p) m1 = Inr m3" "om_wf m3" "same_besides_cells m1 m3"
      "\<forall>q. in_bounds m1 q \<longrightarrow> cell m3 q = (if gp_layer q = gp_layer p \<and> gp_x p - r \<le> gp_x q \<and> gp_x q \<le> gp_x p + r
         \<and> gp_y p - r \<le> gp_y q \<and> gp_y q \<le> gp_y p + r then 1 else cell m1 q)" by blast
    have same: "same_besides_cells m m3" by (rule same_besides_cells_trans [OF Cons.prems(2) m3(3)])
    have c3: "cell m3 q = (if near r p q then 1 else cell m1 q)" if "in_bounds m q" for q
      using m3(4) that same_besides_cellsD [OF Cons.prems(2)] by (auto simp: near_def)
    from Cons.IH [OF m3(2) same] Cons.prems(3) obtain m2 where m2:
      "fold (\<lambda>p acc. if cell m p \<noteq> 0 then rbind acc (block_rect (gp_x p - r) (gp_y p - r) (gp_x p + r) (gp_y p + r) (gp_layer p)) else acc)
        ps (Inr m3) = Inr m2" "om_wf m2" "same_besides_cells m m2"
      "\<forall>q. in_bounds m q \<longrightarrow> cell m2 q = (if \<exists>p\<in>set ps. cell m p \<noteq> 0 \<and> near r p q then 1 else cell m3 q)" by auto
    then show ?thesis using False m3(1) c3 by (intro exI [of _ m2]) auto
  qed
qed simp

lemma dilate_layer_exact:
  assumes "om_wf m" "0 \<le> layer" "layer < om_layers m"
  shows "\<exists>m'. dilate_layer r m layer = Inr m' \<and> om_wf m' \<and> same_besides_cells m m'
    \<and> (\<forall>q. in_bounds m q \<longrightarrow> cell m' q =
         (if \<exists>p. in_bounds m p \<and> gp_layer p = layer \<and> cell m p \<noteq> 0 \<and> near r p q then 1 else cell m q))"
proof -
  define ps where "ps = concat (map (\<lambda>y. map (\<lambda>x. mk_pos x y layer) [0..om_width m - 1]) [0..om_height m - 1])"
  have mem: "p \<in> set ps \<longleftrightarrow> in_bounds m p \<and> gp_layer p = layer" for p
  proof -
    have "p \<in> set ps \<longleftrightarrow> (\<exists>y\<in>set [0..om_height m - 1]. \<exists>x\<in>set [0..om_width m - 1]. p = mk_pos x y layer)" unfolding ps_def by auto
    then show ?thesis using assms(2,3) unfolding eq_commute [of p] mk_pos_eq_iff in_bounds_def set_upto by auto
  qed
  let ?f = "\<lambda>p acc. if cell m p \<noteq> 0 then rbind acc (block_rect (gp_x p - r) (gp_y p - r) (gp_x p + r) (gp_y p + r) (gp_layer p)) else acc"
  have "dilate_layer r m layer = fold ?f ps (Inr m)"
  proof -
    have "fold ?f (concat (map (\<lambda>y. map (\<lambda>x. mk_pos x y layer) xs) ys)) s = fold (\<lambda>y acc. fold (\<lambda>x acc.
        if cell m (mk_pos x y layer) \<noteq> 0 then rbind acc (block_rect (x - r) (y - r) (x + r) (y + r) layer) else acc) xs acc) ys s" for xs ys s
    proof (induction ys arbitrary: s)
      case (Cons y ys)
      have "fold ?f (map (\<lambda>x. mk_pos x y layer) xs) s = fold (\<lambda>x acc.
          if cell m (mk_pos x y layer) \<noteq> 0 then rbind acc (block_rect (x - r) (y - r) (x + r) (y + r) layer) else acc) xs s"
        by (simp add: fold_map comp_def cong: if_cong)
      then show ?case by (simp only: list.map concat.simps fold_append fold_simps comp_apply Cons.IH)
    qed simp
    then show ?thesis by (simp add: dilate_layer_def ps_def)
  qed
  moreover have "(\<exists>p\<in>set ps. cell m p \<noteq> 0 \<and> near r p q) \<longleftrightarrow> (\<exists>p. in_bounds m p \<and> gp_layer p = layer \<and> cell m p \<noteq> 0 \<and> near r p q)" for q
    using mem by blast
  ultimately show ?thesis using dilate_fold [OF assms(1) same_besides_cells_refl, of ps r] mem by simp
qed

lemma dilate_layers:
  assumes "om_wf m1" "same_besides_cells m m1" "distinct ls" "set ls \<subseteq> {0..<om_layers m}"
    and "\<And>q. in_bounds m q \<Longrightarrow> gp_layer q \<in> set ls \<Longrightarrow> cell m1 q = cell m q"
  shows "\<exists>m2. fold (\<lambda>layer acc. rbind acc (\<lambda>m. dilate_layer r m layer)) ls (Inr m1) = Inr m2 \<and> same_besides_cells m m2
    \<and> (\<forall>q. in_bounds m q \<longrightarrow> cell m2 q =
        (if gp_layer q \<in> set ls \<and> (\<exists>p. in_bounds m p \<and> cell m p \<noteq> 0 \<and> near r p q) then 1 else cell m1 q))"
  using assms
proof (induction ls arbitrary: m1)
  case (Cons l ls)
  have D: "om_layers m1 = om_layers m" "\<And>q. in_bounds m1 q = in_bounds m q" using same_besides_cellsD [OF Cons.prems(2)] by auto
  have "0 \<le> l" "l < om_layers m1" using Cons.prems(4) D(1) by auto
  from dilate_layer_exact [OF Cons.prems(1) this, of r] obtain m3 where m3: "dilate_layer r m1 l = Inr m3" "om_wf m3" "same_besides_cells m1 m3"
    "\<forall>q. in_bounds m1 q \<longrightarrow> cell m3 q = (if \<exists>p. in_bounds m1 p \<and> gp_layer p = l \<and> cell m1 p \<noteq> 0 \<and> near r p q then 1 else cell m1 q)" by blast
  have near_l: "near r p q \<Longrightarrow> gp_layer p = gp_layer q" for p q by (simp add: near_def)
  have c3: "cell m3 q = (if gp_layer q = l \<and> (\<exists>p. in_bounds m p \<and> cell m p \<noteq> 0 \<and> near r p q) then 1 else cell m1 q)" if q: "in_bounds m q" for q
  proof -
    have "(\<exists>p. in_bounds m1 p \<and> gp_layer p = l \<and> cell m1 p \<noteq> 0 \<and> near r p q)
        \<longleftrightarrow> gp_layer q = l \<and> (\<exists>p. in_bounds m p \<and> cell m p \<noteq> 0 \<and> near r p q)"
    proof (intro iffI)
      assume "\<exists>p. in_bounds m1 p \<and> gp_layer p = l \<and> cell m1 p \<noteq> 0 \<and> near r p q"
      then obtain p where "in_bounds m p" "gp_layer p = l" "cell m1 p \<noteq> 0" "near r p q" using D(2) by blast
      then show "gp_layer q = l \<and> (\<exists>p. in_bounds m p \<and> cell m p \<noteq> 0 \<and> near r p q)"
        using Cons.prems(5) [of p] near_l [of p q] by auto
    next
      assume "gp_layer q = l \<and> (\<exists>p. in_bounds m p \<and> cell m p \<noteq> 0 \<and> near r p q)"
      then obtain p where "in_bounds m p" "gp_layer p = l" "cell m p \<noteq> 0" "near r p q" using near_l by blast
      then show "\<exists>p. in_bounds m1 p \<and> gp_layer p = l \<and> cell m1 p \<noteq> 0 \<and> near r p q"
        using Cons.prems(5) [of p] D(2) by auto
    qed
    moreover have "in_bounds m1 q" using q D(2) by simp
    ultimately show ?thesis using m3(4) by simp
  qed
  have same: "same_besides_cells m m3" by (rule same_besides_cells_trans [OF Cons.prems(2) m3(3)])
  have "cell m3 q = cell m q" if "in_bounds m q" "gp_layer q \<in> set ls" for q
    using c3 [OF that(1)] that Cons.prems(3,5) by auto
  from Cons.IH [OF m3(2) same _ _ this] Cons.prems(3,4) obtain m2 where m2:
    "fold (\<lambda>layer acc. rbind acc (\<lambda>m. dilate_layer r m layer)) ls (Inr m3) = Inr m2" "same_besides_cells m m2"
    "\<forall>q. in_bounds m q \<longrightarrow> cell m2 q = (if gp_layer q \<in> set ls \<and> (\<exists>p. in_bounds m p \<and> cell m p \<noteq> 0 \<and> near r p q) then 1 else cell m3 q)"
    by auto
  show ?case using m2 m3(1) c3 by (intro exI [of _ m2]) auto
qed auto

text \<open>
  Dilation blocks exactly the cells within \<open>r\<close> columns and \<open>r\<close> rows of a blocked cell of
  the same layer (a square, not a diamond), never fails and changes nothing else.
\<close>

theorem dilate_exact:
  assumes "om_wf m" "0 < r"
  shows "\<exists>m'. dilate r m = Inr m' \<and> m' = m\<lparr> om_cells := om_cells m' \<rparr>
    \<and> (\<forall>q. in_bounds m q \<longrightarrow> (cell m' q \<noteq> 0 \<longleftrightarrow> (\<exists>p. in_bounds m p \<and> cell m p \<noteq> 0 \<and> gp_layer p = gp_layer q
         \<and> \<bar>gp_x q - gp_x p\<bar> \<le> r \<and> \<bar>gp_y q - gp_y p\<bar> \<le> r)))"
proof -
  obtain m2 where m2: "fold (\<lambda>layer acc. rbind acc (\<lambda>m. dilate_layer r m layer)) [0..om_layers m - 1] (Inr m) = Inr m2" "same_besides_cells m m2"
    "\<forall>q. in_bounds m q \<longrightarrow> cell m2 q =
       (if gp_layer q \<in> set [0..om_layers m - 1] \<and> (\<exists>p. in_bounds m p \<and> cell m p \<noteq> 0 \<and> near r p q) then 1 else cell m q)"
  proof -
    have "distinct [0..om_layers m - 1]" "set [0..om_layers m - 1] \<subseteq> {0..<om_layers m}" by auto
    from dilate_layers [OF assms(1) same_besides_cells_refl this refl, of r] show ?thesis using that by blast
  qed
  have "cell m2 q \<noteq> 0 \<longleftrightarrow> (\<exists>p. in_bounds m p \<and> cell m p \<noteq> 0 \<and> near r p q)" if "in_bounds m q" for q
  proof -
    have "gp_layer q \<in> set [0..om_layers m - 1]" using that by (simp add: in_bounds_def)
    moreover have "near r q q" using assms(2) by (simp add: near_def)
    ultimately show ?thesis using m2(3) that by auto
  qed
  then show ?thesis using m2(1,2) assms(2) by (simp add: dilate_def near_def same_besides_cells_def)
qed

end
