(* ===== verification/Binary_Float.thy ===== *)
theory Binary_Float
  imports Complex_Main
begin

text \<open>
  Arithmetic of Python's \<^verbatim>\<open>float\<close>: a finite double is the rational it denotes, and an operation
  rounds its exact result to 53 significant bits, ties to even. Overflow and subnormal numbers
  are outside the ranges the modelled code computes in.
\<close>

function bits :: "int \<Rightarrow> int" where
  "bits n = (if n \<le> 0 then 0 else 1 + bits (n div 2))"
  by auto
termination
  by (relation "measure nat") auto

declare bits.simps [simp del]

definition scale2 :: "int \<Rightarrow> rat" where
  "scale2 k = (if 0 \<le> k then 2 ^ nat k else 1 / 2 ^ nat (- k))"

definition round_half_even :: "rat \<Rightarrow> int" where
  "round_half_even x =
     (let f = \<lfloor>x\<rfloor>; d = x - of_int f in if d < 1 / 2 \<or> (d = 1 / 2 \<and> even f) then f else f + 1)"

text \<open>The double nearest to a rational: \<open>k\<close> is the exponent, \<open>2 ^ k \<le> \<bar>x\<bar> < 2 ^ (k + 1)\<close>.\<close>

definition fl :: "rat \<Rightarrow> rat" where
  "fl x =
     (if x = 0 then 0
      else let (n, d) = quotient_of \<bar>x\<bar>; k0 = bits n - bits d;
               k = (if \<bar>x\<bar> < scale2 k0 then k0 - 1 else k0)
           in sgn x * (of_int (round_half_even (\<bar>x\<bar> * scale2 (52 - k))) * scale2 (k - 52)))"

text \<open>\<^verbatim>\<open>round(x, digits)\<close>: the exact value is rounded half to even and the decimal converted back.\<close>

definition py_round :: "nat \<Rightarrow> rat \<Rightarrow> rat" where
  "py_round digits x = fl (of_int (round_half_even (x * 10 ^ digits)) / 10 ^ digits)"

text \<open>
  \<^verbatim>\<open>sum\<close> over floats: from the first item on, with the compensation of Neumaier that the
  interpreter carries along and adds at the end.
\<close>

fun sum_loop :: "rat \<Rightarrow> rat \<Rightarrow> rat list \<Rightarrow> rat" where
  "sum_loop acc c [] = (if c \<noteq> 0 then fl (acc + c) else acc)"
| "sum_loop acc c (x # xs) =
     (let t = fl (acc + x);
          c' = (if \<bar>acc\<bar> \<ge> \<bar>x\<bar> then fl (c + fl (fl (acc - t) + x)) else fl (c + fl (fl (x - t) + acc)))
      in sum_loop t c' xs)"

definition py_sum :: "rat list \<Rightarrow> rat" where
  "py_sum xs = (case xs of [] \<Rightarrow> 0 | x # rest \<Rightarrow> sum_loop x 0 rest)"

end
