(* ===== verification/Grid_Search.thy ===== *)
theory Grid_Search
  imports Grid_Map Binary_Float "HOL-Library.Multiset"
begin

text \<open>
  The searches of \<^verbatim>\<open>GridRouter\<close> (\<^verbatim>\<open>src/zaptrace/algo/grid_router.py\<close>): the A* search over grid
  positions, with Python's \<^verbatim>\<open>heapq\<close> as its queue, and the breadth-first search for a free cell.
  Costs are rounded after every operation as doubles are; no property depends on them.
\<close>

section \<open>Costs\<close>

definition SQRT2 :: rat where
  "SQRT2 = 6369051672525773 / 4503599627370496"

definition DIRECTIONS_8 :: "(int \<times> int \<times> rat) list" where
  "DIRECTIONS_8 = [(0, 1, 1), (0, - 1, 1), (1, 0, 1), (- 1, 0, 1),
     (1, 1, SQRT2), (- 1, 1, SQRT2), (1, - 1, SQRT2), (- 1, - 1, SQRT2)]"

definition octile :: "grid_pos \<Rightarrow> grid_pos \<Rightarrow> rat \<Rightarrow> rat" where
  "octile a b via_cost =
     (let dx = \<bar>gp_x a - gp_x b\<bar>; dy = \<bar>gp_y a - gp_y b\<bar>; dz = \<bar>gp_layer a - gp_layer b\<bar>;
          diag = fl (of_int (max dx dy) + fl (fl (SQRT2 - 1) * of_int (min dx dy)))
      in fl (diag + fl (of_int dz * via_cost)))"

section \<open>The queue\<close>

text \<open>
  The algorithms of \<^verbatim>\<open>heapq\<close>: \<open>siftdown\<close> moves the item at \<open>pos\<close> towards the root while it is
  less than its parent; \<open>bubble\<close> moves smaller children up until a leaf is reached.
\<close>

definition swap_items :: "'a list \<Rightarrow> nat \<Rightarrow> nat \<Rightarrow> 'a list" where
  "swap_items xs i j = xs[j := xs ! i, i := xs ! j]"

fun siftdown :: "('a \<Rightarrow> 'a \<Rightarrow> bool) \<Rightarrow> nat \<Rightarrow> nat \<Rightarrow> 'a list \<Rightarrow> 'a list" where
  "siftdown lt start pos h =
     (if start < pos \<and> lt (h ! pos) (h ! ((pos - 1) div 2))
      then siftdown lt start ((pos - 1) div 2) (swap_items h pos ((pos - 1) div 2)) else h)"

function bubble :: "('a \<Rightarrow> 'a \<Rightarrow> bool) \<Rightarrow> nat \<Rightarrow> 'a list \<Rightarrow> 'a list \<times> nat" where
  "bubble lt pos h =
     (let c = 2 * pos + 1 in
      if c < length h then
        (let c' = (if c + 1 < length h \<and> \<not> lt (h ! c) (h ! (c + 1)) then c + 1 else c)
         in bubble lt c' (swap_items h pos c'))
      else (h, pos))"
  by pat_completeness auto
termination
  by (relation "measure (\<lambda>(lt, pos, h). length h - pos)") (auto simp: swap_items_def Let_def split: if_splits)

declare siftdown.simps [simp del] bubble.simps [simp del]

definition heappush :: "('a \<Rightarrow> 'a \<Rightarrow> bool) \<Rightarrow> 'a \<Rightarrow> 'a list \<Rightarrow> 'a list" where
  "heappush lt x h = siftdown lt 0 (length h) (h @ [x])"

definition heappop :: "('a \<Rightarrow> 'a \<Rightarrow> bool) \<Rightarrow> 'a list \<Rightarrow> ('a \<times> 'a list) option" where
  "heappop lt h =
     (if h = [] then None
      else let lastelt = last h; rest = butlast h in
           if rest = [] then Some (lastelt, [])
           else (case bubble lt 0 (rest[0 := lastelt]) of (h', pos) \<Rightarrow> Some (hd rest, siftdown lt 0 pos h')))"

text \<open>What the search relies on: the queue gives back each item it was given, once, in some order.\<close>

locale item_queue =
  fixes push :: "'a \<Rightarrow> 'a list \<Rightarrow> 'a list" and pop :: "'a list \<Rightarrow> ('a \<times> 'a list) option"
  assumes mset_push: "mset (push x q) = add_mset x (mset q)"
    and pop_None: "pop q = None \<longleftrightarrow> q = []"
    and mset_pop: "pop q = Some (x, q') \<Longrightarrow> mset q = add_mset x (mset q')"
begin

lemma set_push [simp]: "set (push x q) = insert x (set q)"
  using mset_push [of x q] by (metis set_mset_add_mset_insert set_mset_mset)

lemma length_push [simp]: "length (push x q) = Suc (length q)"
  using mset_push [of x q] by (metis size_add_mset size_mset)

lemma set_pop: "pop q = Some (x, q') \<Longrightarrow> set q = insert x (set q')"
  using mset_pop by (metis set_mset_add_mset_insert set_mset_mset)

lemma length_pop: "pop q = Some (x, q') \<Longrightarrow> length q = Suc (length q')"
  using mset_pop by (metis size_add_mset size_mset)

lemma set_fold_push: "set (fold (\<lambda>x q. if P x then push (f x) q else q) xs q) = f ` {x \<in> set xs. P x} \<union> set q"
  by (induction xs arbitrary: q) auto

lemma length_fold_push: "length (fold (\<lambda>x q. if P x then push (f x) q else q) xs q) \<le> length q + length xs"
proof (induction xs arbitrary: q)
  case (Cons x xs)
  show ?case using Cons.IH [of "push (f x) q"] Cons.IH [of q] by simp
qed simp

end

lemma mset_swap_items: "i < length xs \<Longrightarrow> j < length xs \<Longrightarrow> mset (swap_items xs i j) = mset xs"
  by (simp add: swap_items_def mset_swap)

lemma mset_siftdown: "pos < length h \<Longrightarrow> mset (siftdown lt start pos h) = mset h"
proof (induction lt start pos h rule: siftdown.induct)
  case (1 lt start pos h)
  show ?case
  proof (cases "start < pos \<and> lt (h ! pos) (h ! ((pos - 1) div 2))")
    case True
    have "(pos - 1) div 2 < length (swap_items h pos ((pos - 1) div 2))" using 1(2) by (simp add: swap_items_def)
    with 1(1) [OF True] 1(2) True show ?thesis by (subst siftdown.simps) (simp add: mset_swap_items)
  next
    case False
    then show ?thesis by (subst siftdown.simps) auto
  qed
qed

lemma bubble_mset: "pos < length h \<Longrightarrow> bubble lt pos h = (h', pos') \<Longrightarrow> mset h' = mset h \<and> pos' < length h'"
proof (induction lt pos h arbitrary: h' pos' rule: bubble.induct)
  case (1 lt pos h)
  let ?c = "2 * pos + 1"
  define c' where "c' = (if ?c + 1 < length h \<and> \<not> lt (h ! ?c) (h ! (?c + 1)) then ?c + 1 else ?c)"
  have step: "bubble lt pos h = (if ?c < length h then bubble lt c' (swap_items h pos c') else (h, pos))"
    unfolding c'_def by (subst bubble.simps) (simp only: Let_def)
  show ?case
  proof (cases "?c < length h")
    case True
    then have c': "c' < length h" by (auto simp: c'_def)
    have eq: "bubble lt c' (swap_items h pos c') = (h', pos')" using 1(3) True step by simp
    have "c' < length (swap_items h pos c')" using c' by (simp add: swap_items_def)
    from 1(1) [OF refl True c'_def this eq] show ?thesis using 1(2) c' by (simp add: mset_swap_items)
  next
    case False
    then show ?thesis using 1(2,3) step by simp
  qed
qed

interpretation heapq: item_queue "heappush lt" "heappop lt" for lt :: "'a \<Rightarrow> 'a \<Rightarrow> bool"
proof
  show "mset (heappush lt x q) = add_mset x (mset q)" for x :: 'a and q
    by (simp add: heappush_def mset_siftdown)
  show "heappop lt q = None \<longleftrightarrow> q = []" for q :: "'a list"
    by (auto simp: heappop_def Let_def split: prod.splits)
  show "mset q = add_mset x (mset q')" if pop: "heappop lt q = Some (x, q')" for q x q'
  proof -
    have ne: "q \<noteq> []" using pop by (auto simp: heappop_def)
    then have q: "mset q = add_mset (last q) (mset (butlast q))"
      by (metis append_butlast_last_id mset.simps(2) mset_append mset_single_iff_right union_code union_mset_add_mset_right add_mset_add_single)
    show ?thesis
    proof (cases "butlast q = []")
      case True
      then show ?thesis using pop ne q by (simp add: heappop_def)
    next
      case False
      obtain h' pos where b: "bubble lt 0 ((butlast q)[0 := last q]) = (h', pos)" by fastforce
      have x: "x = hd (butlast q)" "q' = siftdown lt 0 pos h'" using pop ne False b by (auto simp: heappop_def Let_def)
      have "mset h' = mset ((butlast q)[0 := last q])" "pos < length h'" using bubble_mset [OF _ b] False by (simp_all add: length_greater_0_conv [symmetric] del: length_greater_0_conv)
      moreover have "(butlast q)[0 := last q] = last q # tl (butlast q)" using False by (cases "butlast q") auto
      moreover have "mset (butlast q) = add_mset (hd (butlast q)) (mset (tl (butlast q)))" using False by (metis list.collapse mset.simps(2))
      ultimately show ?thesis using x q by (simp add: mset_siftdown)
    qed
  qed
qed

section \<open>The search for a path\<close>

datatype node = Node (n_pos: grid_pos) (n_g: rat) (n_h: rat) (n_f: rat) (n_parent: "node option")

definition node_lt :: "node \<Rightarrow> node \<Rightarrow> bool" where
  "node_lt a b = (n_f a < n_f b)"

text \<open>The positions of a node and its ancestors, the node first.\<close>

fun chain :: "node \<Rightarrow> grid_pos list" where
  "chain (Node p g h f None) = [p]"
| "chain (Node p g h f (Some parent)) = p # chain parent"

definition reconstruct :: "node \<Rightarrow> grid_pos list" where
  "reconstruct n = rev (chain n)"

record grid_router =
  gr_resolution :: rat
  gr_via_cost :: rat
  gr_turn_penalty :: rat
  gr_max_iterations :: int
  gr_max_ripup_passes :: int
  gr_pad_aware :: bool

definition new_grid_router :: "rat \<Rightarrow> rat \<Rightarrow> rat \<Rightarrow> int \<Rightarrow> int \<Rightarrow> bool \<Rightarrow> grid_router result" where
  "new_grid_router resolution via_cost turn_penalty max_iterations max_ripup_passes pad_aware =
     (if 0 \<le> max_ripup_passes \<and> max_ripup_passes \<le> 2
      then Inr \<lparr> gr_resolution = resolution, gr_via_cost = via_cost, gr_turn_penalty = turn_penalty,
                 gr_max_iterations = max_iterations, gr_max_ripup_passes = max_ripup_passes, gr_pad_aware = pad_aware \<rparr>
      else Inl (ValueError ''max_ripup_passes must be in range 0..2''))"

definition previous_direction :: "node \<Rightarrow> int \<times> int" where
  "previous_direction n =
     (case n_parent n of None \<Rightarrow> (0, 0)
      | Some q \<Rightarrow> (gp_x (n_pos n) - gp_x (n_pos q), gp_y (n_pos n) - gp_y (n_pos q)))"

definition shifted :: "grid_pos \<Rightarrow> int \<Rightarrow> int \<Rightarrow> grid_pos" where
  "shifted p dx dy = mk_pos (gp_x p + dx) (gp_y p + dy) (gp_layer p)"

text \<open>The tests on a planar step: its target, and for a diagonal both side cells.\<close>

definition planar_free :: "obstacle_map \<Rightarrow> string option \<Rightarrow> int \<Rightarrow> grid_pos \<Rightarrow> int \<Rightarrow> int \<Rightarrow> bool" where
  "planar_free m net clear p dx dy =
     (is_corridor_free m (shifted p dx dy) net clear
      \<and> \<not> (dx \<noteq> 0 \<and> dy \<noteq> 0 \<and> (\<not> is_corridor_free m (shifted p dx 0) net clear \<or> \<not> is_corridor_free m (shifted p 0 dy) net clear)))"

definition planar_node :: "grid_router \<Rightarrow> node \<Rightarrow> grid_pos \<Rightarrow> int \<times> int \<times> rat \<Rightarrow> node" where
  "planar_node r current goal = (\<lambda>(dx, dy, move_cost).
     (let position = shifted (n_pos current) dx dy;
          turn = (if (dx, dy) \<noteq> previous_direction current then gr_turn_penalty r else 0);
          cost = fl (fl (n_g current + move_cost) + turn);
          heuristic = octile position goal (gr_via_cost r)
      in Node position cost heuristic (fl (cost + heuristic)) (Some current)))"

definition push_planar_neighbors ::
  "grid_router \<Rightarrow> obstacle_map \<Rightarrow> node \<Rightarrow> grid_pos \<Rightarrow> string option \<Rightarrow> int \<Rightarrow> grid_pos set \<Rightarrow> node list \<Rightarrow> node list" where
  "push_planar_neighbors r m current goal net clear closed_set open_set =
     fold (\<lambda>d q. if planar_free m net clear (n_pos current) (fst d) (fst (snd d))
                    \<and> shifted (n_pos current) (fst d) (fst (snd d)) \<notin> closed_set
                 then heappush node_lt (planar_node r current goal d) q else q)
       DIRECTIONS_8 open_set"

definition via_position :: "grid_pos \<Rightarrow> int \<Rightarrow> grid_pos" where
  "via_position p delta = mk_pos (gp_x p) (gp_y p) (gp_layer p + delta)"

definition via_free :: "obstacle_map \<Rightarrow> string option \<Rightarrow> grid_pos \<Rightarrow> int \<Rightarrow> bool" where
  "via_free m net p delta = (0 \<le> gp_layer p + delta \<and> gp_layer p + delta < om_layers m \<and> is_free m (via_position p delta) net)"

definition via_node :: "grid_router \<Rightarrow> node \<Rightarrow> grid_pos \<Rightarrow> int \<Rightarrow> node" where
  "via_node r current goal delta =
     (let position = via_position (n_pos current) delta; cost = fl (n_g current + gr_via_cost r);
          heuristic = octile position goal (gr_via_cost r)
      in Node position cost heuristic (fl (cost + heuristic)) (Some current))"

definition push_via_neighbors ::
  "grid_router \<Rightarrow> obstacle_map \<Rightarrow> node \<Rightarrow> grid_pos \<Rightarrow> string option \<Rightarrow> grid_pos set \<Rightarrow> node list \<Rightarrow> node list" where
  "push_via_neighbors r m current goal net closed_set open_set =
     fold (\<lambda>delta q. if via_free m net (n_pos current) delta \<and> via_position (n_pos current) delta \<notin> closed_set
                     then heappush node_lt (via_node r current goal delta) q else q)
       [- 1, 1] open_set"

text \<open>The loop; its first argument is the number of iterations left of \<^verbatim>\<open>max_iterations\<close>.\<close>

fun astar_loop ::
  "nat \<Rightarrow> grid_router \<Rightarrow> obstacle_map \<Rightarrow> grid_pos \<Rightarrow> string option \<Rightarrow> int \<Rightarrow> node list \<Rightarrow> grid_pos set \<Rightarrow> node option" where
  "astar_loop 0 r m goal net clear open_set closed_set = None"
| "astar_loop (Suc n) r m goal net clear open_set closed_set =
     (case heappop node_lt open_set of
        None \<Rightarrow> None
      | Some (current, open1) \<Rightarrow>
          if n_pos current \<in> closed_set then astar_loop n r m goal net clear open1 closed_set
          else let closed1 = insert (n_pos current) closed_set in
               if n_pos current = goal then Some current
               else let open2 = push_planar_neighbors r m current goal net clear closed1 open1;
                        open3 = (if gr_pad_aware r then open2 else push_via_neighbors r m current goal net closed1 open2)
                    in astar_loop n r m goal net clear open3 closed1)"

text \<open>
  \<^verbatim>\<open>_nearest_free\<close>: the breadth-first loop, \<open>None\<close> when its first argument is used up. The
  queue and the visited set hold cells of the grid and the start, which bounds the rounds.
\<close>

definition visit_neighbors :: "obstacle_map \<Rightarrow> grid_pos \<Rightarrow> int \<Rightarrow> (grid_pos \<times> int) list \<times> grid_pos set \<Rightarrow> (grid_pos \<times> int) list \<times> grid_pos set" where
  "visit_neighbors m current d =
     fold (\<lambda>(dx, dy, _) (q, visited).
         let np = shifted current dx dy in
         if in_bounds m np \<and> np \<notin> visited then (q @ [(np, d + 1)], insert np visited) else (q, visited))
       DIRECTIONS_8"

fun bfs :: "nat \<Rightarrow> obstacle_map \<Rightarrow> int \<Rightarrow> string option \<Rightarrow> (grid_pos \<times> int) list \<Rightarrow> grid_pos set \<Rightarrow> grid_pos option option" where
  "bfs 0 m max_radius net q visited = None"
| "bfs (Suc n) m max_radius net [] visited = Some None"
| "bfs (Suc n) m max_radius net ((current, d) # q) visited =
     (if is_free m current net then Some (Some current)
      else if d \<ge> max_radius then bfs n m max_radius net q visited
      else case visit_neighbors m current d (q, visited) of (q', visited') \<Rightarrow> bfs n m max_radius net q' visited')"

definition nearest_free :: "obstacle_map \<Rightarrow> grid_pos \<Rightarrow> int \<Rightarrow> string option \<Rightarrow> grid_pos option" where
  "nearest_free m p max_radius net =
     (case bfs (nat (om_width m * om_height m * om_layers m) + 3) m max_radius net [(p, 0)] {p} of
        Some found \<Rightarrow> found
      | None \<Rightarrow> None)"

definition resolve_astar_endpoint :: "obstacle_map \<Rightarrow> grid_pos \<Rightarrow> string option \<Rightarrow> grid_pos option" where
  "resolve_astar_endpoint m p net =
     (if is_free m p net then Some p
      else if owner m p \<noteq> None \<and> owner m p \<noteq> net then None
      else nearest_free m p 48 net)"

definition astar :: "grid_router \<Rightarrow> obstacle_map \<Rightarrow> grid_pos \<Rightarrow> grid_pos \<Rightarrow> string option \<Rightarrow> int \<Rightarrow> grid_pos list option" where
  "astar r m start goal net clear =
     (if gr_pad_aware r \<and> (\<not> is_free m start net \<or> \<not> is_free m goal net) then None
      else case resolve_astar_endpoint m start net of
             None \<Rightarrow> None
           | Some s \<Rightarrow>
               (case resolve_astar_endpoint m goal net of
                  None \<Rightarrow> None
                | Some g \<Rightarrow>
                    (let h = octile s g (gr_via_cost r)
                     in map_option reconstruct
                          (astar_loop (nat (gr_max_iterations r)) r m g net clear
                             (heappush node_lt (Node s 0 h (fl (0 + h)) None) []) {}))))"

section \<open>Correctness of the search\<close>

text \<open>The steps a path may take.\<close>

definition moves :: "grid_router \<Rightarrow> obstacle_map \<Rightarrow> string option \<Rightarrow> int \<Rightarrow> grid_pos \<Rightarrow> grid_pos \<Rightarrow> bool" where
  "moves r m net clear p q =
     ((\<exists>d\<in>set DIRECTIONS_8. q = shifted p (fst d) (fst (snd d)) \<and> planar_free m net clear p (fst d) (fst (snd d)))
      \<or> (\<not> gr_pad_aware r \<and> (\<exists>delta\<in>{- 1, 1}. q = via_position p delta \<and> via_free m net p delta)))"

definition chain_ok :: "grid_router \<Rightarrow> obstacle_map \<Rightarrow> string option \<Rightarrow> int \<Rightarrow> grid_pos \<Rightarrow> node \<Rightarrow> bool" where
  "chain_ok r m net clear start n =
     (last (chain n) = start \<and> distinct (chain n) \<and> successively (\<lambda>a b. moves r m net clear b a) (chain n))"

lemma chain_Node: "chain n = n_pos n # (case n_parent n of None \<Rightarrow> [] | Some q \<Rightarrow> chain q)"
  by (cases n rule: chain.cases) auto

lemma chain_not_Nil [simp]: "chain n \<noteq> []"
  by (subst chain_Node) simp

lemma hd_chain [simp]: "hd (chain n) = n_pos n"
  by (subst chain_Node) simp

lemma corridor_free_cell: "is_corridor_free m p net clear \<Longrightarrow> is_free m p net"
proof -
  assume a: "is_corridor_free m p net clear"
  then have c: "0 \<le> clear" by (auto simp: is_corridor_free_def split: if_splits)
  then have z: "0 \<in> set [- clear..clear]" by simp
  have "list_all (\<lambda>dy. list_all (\<lambda>dx. is_free m (mk_pos (gp_x p + dx) (gp_y p + dy) (gp_layer p)) net) [- clear..clear]) [- clear..clear]"
    using a c by (simp add: is_corridor_free_def)
  then have "is_free m (mk_pos (gp_x p + 0) (gp_y p + 0) (gp_layer p)) net" unfolding list_all_iff using z by blast
  then show ?thesis by simp
qed

lemma is_free_bounds: "is_free m p net \<Longrightarrow> in_bounds m p"
  by (auto simp: is_free_def split: if_splits)

lemma moves_free: "moves r m net clear p q \<Longrightarrow> is_free m q net"
  unfolding moves_def planar_free_def via_free_def using corridor_free_cell by blast

lemma finite_bounds: "finite {p. in_bounds m p}"
  and card_bounds: "card {p. in_bounds m p} \<le> nat (om_width m * om_height m * om_layers m)"
proof -
  let ?B = "{0..<om_width m} \<times> {0..<om_height m} \<times> {0..<om_layers m}"
  have sub: "{p. in_bounds m p} \<subseteq> (\<lambda>(x, y, l). mk_pos x y l) ` ?B"
  proof
    fix p assume "p \<in> {p. in_bounds m p}"
    then have "(gp_x p, gp_y p, gp_layer p) \<in> ?B" by (simp add: in_bounds_def)
    then show "p \<in> (\<lambda>(x, y, l). mk_pos x y l) ` ?B" by (intro image_eqI [of _ _ "(gp_x p, gp_y p, gp_layer p)"]) simp_all
  qed
  then show "finite {p. in_bounds m p}" by (rule finite_subset) simp
  have "card {p. in_bounds m p} \<le> card ?B" by (rule order.trans [OF card_mono [OF _ sub] card_image_le]) simp_all
  also have "\<dots> = nat (om_width m) * (nat (om_height m) * nat (om_layers m))" by (simp add: card_cartesian_product)
  also have "\<dots> \<le> nat (om_width m * om_height m * om_layers m)"
    by (cases "0 \<le> om_width m \<and> 0 \<le> om_height m \<and> 0 \<le> om_layers m") (auto simp: nat_mult_distrib not_le)
  finally show "card {p. in_bounds m p} \<le> nat (om_width m * om_height m * om_layers m)" .
qed

text \<open>What the pushes of one expansion add.\<close>

definition expand ::
  "grid_router \<Rightarrow> obstacle_map \<Rightarrow> node \<Rightarrow> grid_pos \<Rightarrow> string option \<Rightarrow> int \<Rightarrow> grid_pos set \<Rightarrow> node list \<Rightarrow> node list" where
  "expand r m current goal net clear closed_set open_set =
     (let open2 = push_planar_neighbors r m current goal net clear closed_set open_set
      in if gr_pad_aware r then open2 else push_via_neighbors r m current goal net closed_set open2)"

lemma set_expand_eq:
  "set (expand r m current goal net clear C q) = set q
     \<union> planar_node r current goal ` {d \<in> set DIRECTIONS_8. planar_free m net clear (n_pos current) (fst d) (fst (snd d))
         \<and> shifted (n_pos current) (fst d) (fst (snd d)) \<notin> C}
     \<union> (if gr_pad_aware r then {} else via_node r current goal `
         {delta \<in> set [- 1, 1]. via_free m net (n_pos current) delta \<and> via_position (n_pos current) delta \<notin> C})"
  unfolding expand_def Let_def push_planar_neighbors_def push_via_neighbors_def
  by (simp only: heapq.set_fold_push if_distrib [of set] Un_ac split: if_split) auto

lemma node_pos:
  "n_pos (planar_node r current goal d) = shifted (n_pos current) (fst d) (fst (snd d))"
  "n_pos (via_node r current goal delta) = via_position (n_pos current) delta"
  "n_parent (planar_node r current goal d) = Some current" "n_parent (via_node r current goal delta) = Some current"
  by (simp_all add: planar_node_def via_node_def Let_def split: prod.splits)

lemma set_expand:
  assumes "n \<in> set (expand r m current goal net clear C q)" "n \<notin> set q"
  shows "n_parent n = Some current \<and> n_pos n \<notin> C \<and> moves r m net clear (n_pos current) (n_pos n)"
proof -
  consider (planar) d where "d \<in> set DIRECTIONS_8" "planar_free m net clear (n_pos current) (fst d) (fst (snd d))"
      "shifted (n_pos current) (fst d) (fst (snd d)) \<notin> C" "n = planar_node r current goal d"
    | (via) delta where "\<not> gr_pad_aware r" "delta \<in> {- 1, 1}" "via_free m net (n_pos current) delta"
      "via_position (n_pos current) delta \<notin> C" "n = via_node r current goal delta"
    using assms unfolding set_expand_eq by (auto split: if_splits)
  then show ?thesis by cases (auto simp: node_pos moves_def)
qed

lemma expand_covers:
  assumes "moves r m net clear (n_pos current) p" "p \<notin> C"
  shows "p \<in> n_pos ` set (expand r m current goal net clear C q)"
proof -
  from assms(1) consider (planar) d where "d \<in> set DIRECTIONS_8" "p = shifted (n_pos current) (fst d) (fst (snd d))"
      "planar_free m net clear (n_pos current) (fst d) (fst (snd d))"
    | (via) delta where "\<not> gr_pad_aware r" "delta \<in> {- 1, 1}" "p = via_position (n_pos current) delta" "via_free m net (n_pos current) delta"
    unfolding moves_def by blast
  then show ?thesis
  proof cases
    case planar
    then have "planar_node r current goal d \<in> set (expand r m current goal net clear C q)"
      using assms(2) unfolding set_expand_eq by blast
    then show ?thesis using planar(2) node_pos(1) by (metis image_eqI)
  next
    case via
    then have "via_node r current goal delta \<in> set (expand r m current goal net clear C q)"
      using assms(2) unfolding set_expand_eq by auto
    then show ?thesis using via(3) node_pos(2) by (metis image_eqI)
  qed
qed

lemma set_expand_old: "set q \<subseteq> set (expand r m current goal net clear C q)"
  unfolding set_expand_eq by blast

lemma length_expand: "length (expand r m current goal net clear C q) \<le> length q + 10"
proof -
  have 1: "length (push_planar_neighbors r m current goal net clear C q) \<le> length q + 8"
    unfolding push_planar_neighbors_def using heapq.length_fold_push [where xs = DIRECTIONS_8] by (simp add: DIRECTIONS_8_def)
  have 2: "length (push_via_neighbors r m current goal net C q') \<le> length q' + 2" for q'
    unfolding push_via_neighbors_def using heapq.length_fold_push [where xs = "[- 1, 1]"] by simp
  show ?thesis using 1 2 [of "push_planar_neighbors r m current goal net clear C q"] by (simp add: expand_def Let_def)
qed

text \<open>The invariant of the loop.\<close>

definition search_inv ::
  "grid_router \<Rightarrow> obstacle_map \<Rightarrow> string option \<Rightarrow> int \<Rightarrow> grid_pos \<Rightarrow> grid_pos \<Rightarrow> node list \<Rightarrow> grid_pos set \<Rightarrow> bool" where
  "search_inv r m net clear start goal q C =
     ((\<forall>n\<in>set q. chain_ok r m net clear start n \<and> set (tl (chain n)) \<subseteq> C \<and> in_bounds m (n_pos n))
      \<and> start \<in> C \<union> n_pos ` set q \<and> goal \<notin> C
      \<and> (\<forall>p\<in>C. \<forall>p'. moves r m net clear p p' \<longrightarrow> p' \<in> C \<union> n_pos ` set q))"

definition budget :: "obstacle_map \<Rightarrow> node list \<Rightarrow> grid_pos set \<Rightarrow> nat" where
  "budget m q C = length q + 10 * card ({p. in_bounds m p} - C)"

lemma expand_inv:
  assumes inv: "search_inv r m net clear start goal q C" and pop: "heappop node_lt q = Some (n, q')"
    and new: "n_pos n \<notin> C" "n_pos n \<noteq> goal"
  shows "search_inv r m net clear start goal (expand r m n goal net clear (insert (n_pos n) C) q') (insert (n_pos n) C)"
proof -
  let ?C = "insert (n_pos n) C" and ?q = "expand r m n goal net clear (insert (n_pos n) C) q'"
  have qs: "set q = insert n (set q')" by (rule heapq.set_pop [OF pop])
  have n: "chain_ok r m net clear start n" "set (tl (chain n)) \<subseteq> C" using inv qs by (auto simp: search_inv_def)
  have chain_n: "set (chain n) \<subseteq> ?C" using n(2) by (cases "chain n") (auto, metis hd_chain list.sel(1))
  have old: "n_pos ` set q' \<subseteq> n_pos ` set ?q" using set_expand_old by blast
  have "chain_ok r m net clear start k \<and> set (tl (chain k)) \<subseteq> ?C \<and> in_bounds m (n_pos k)" if "k \<in> set ?q" for k
  proof (cases "k \<in> set q'")
    case True
    then show ?thesis using inv qs by (auto simp: search_inv_def)
  next
    case False
    note k = set_expand [OF that False]
    have ck: "chain k = n_pos k # chain n" using k chain_Node [of k] by simp
    have "successively (\<lambda>a b. moves r m net clear b a) (chain k)"
      using n(1) k by (simp add: ck chain_ok_def successively_Cons)
    then show ?thesis using k n(1) chain_n is_free_bounds [OF moves_free [of r m net clear "n_pos n" "n_pos k"]]
      by (auto simp: chain_ok_def ck)
  qed
  moreover have "start \<in> ?C \<union> n_pos ` set ?q" using inv qs old by (auto simp: search_inv_def)
  moreover have "p' \<in> ?C \<union> n_pos ` set ?q" if "p \<in> ?C" "moves r m net clear p p'" for p p'
  proof (cases "p = n_pos n")
    case True
    then show ?thesis using expand_covers [of r m net clear n p' ?C] that by blast
  next
    case False
    then have "p' \<in> C \<union> n_pos ` set q" using that inv by (auto simp: search_inv_def)
    then show ?thesis using qs old by auto
  qed
  moreover have "goal \<notin> ?C" using inv new by (auto simp: search_inv_def)
  ultimately show ?thesis unfolding search_inv_def by blast
qed

lemma expand_budget:
  assumes inv: "search_inv r m net clear start goal q C" and pop: "heappop node_lt q = Some (n, q')" and new: "n_pos n \<notin> C"
  shows "budget m (expand r m n goal net clear (insert (n_pos n) C) q') (insert (n_pos n) C) < budget m q C"
proof -
  have qs: "set q = insert n (set q')" by (rule heapq.set_pop [OF pop])
  have "n_pos n \<in> {p. in_bounds m p} - C" using inv qs new by (auto simp: search_inv_def)
  moreover have "{p. in_bounds m p} - insert (n_pos n) C = ({p. in_bounds m p} - C) - {n_pos n}" by blast
  ultimately have "card ({p. in_bounds m p} - C) = Suc (card ({p. in_bounds m p} - insert (n_pos n) C))"
    using finite_bounds [of m] by (metis card_Suc_Diff1 finite_Diff)
  then show ?thesis
    using heapq.length_pop [OF pop] length_expand [of r m n goal net clear "insert (n_pos n) C" q'] by (simp add: budget_def)
qed

lemma stale_inv:
  assumes inv: "search_inv r m net clear start goal q C" and pop: "heappop node_lt q = Some (n, q')" and old: "n_pos n \<in> C"
  shows "search_inv r m net clear start goal q' C \<and> budget m q' C < budget m q C"
proof -
  have qs: "set q = insert n (set q')" by (rule heapq.set_pop [OF pop])
  then have "C \<union> n_pos ` set q = C \<union> n_pos ` set q'" using old by auto
  then show ?thesis using inv qs heapq.length_pop [OF pop] by (auto simp: search_inv_def budget_def)
qed

lemma astar_loop_correct:
  assumes "search_inv r m net clear start goal q C"
  shows "(\<forall>n. astar_loop k r m goal net clear q C = Some n \<longrightarrow> chain_ok r m net clear start n \<and> n_pos n = goal)
    \<and> (astar_loop k r m goal net clear q C = None \<longrightarrow> budget m q C < k \<longrightarrow> \<not> (moves r m net clear)\<^sup>*\<^sup>* start goal)"
  using assms
proof (induction k arbitrary: q C)
  case (Suc k)
  show ?case
  proof (cases "heappop node_lt q")
    case None
    then have "q = []" by (simp add: heapq.pop_None)
    then have C: "start \<in> C" "goal \<notin> C" "\<And>p p'. p \<in> C \<Longrightarrow> moves r m net clear p p' \<Longrightarrow> p' \<in> C"
      using Suc.prems by (auto simp: search_inv_def)
    have "p \<in> C" if "(moves r m net clear)\<^sup>*\<^sup>* start p" for p
      using that by (induction rule: rtranclp_induct) (auto intro: C)
    then show ?thesis using None C(2) by auto
  next
    case (Some np)
    obtain n q' where np: "np = (n, q')" by fastforce
    note pop = Some [unfolded np]
    have qs: "set q = insert n (set q')" by (rule heapq.set_pop [OF pop])
    consider (stale) "n_pos n \<in> C" | (goal) "n_pos n \<notin> C" "n_pos n = goal" | (expand) "n_pos n \<notin> C" "n_pos n \<noteq> goal" by blast
    then show ?thesis
    proof cases
      case stale
      have eq: "astar_loop (Suc k) r m goal net clear q C = astar_loop k r m goal net clear q' C" using stale pop by simp
      have "budget m q C < Suc k \<Longrightarrow> budget m q' C < k" using stale_inv [OF Suc.prems pop stale] by simp
      then show ?thesis unfolding eq using Suc.IH [of q' C] stale_inv [OF Suc.prems pop stale] by blast
    next
      case goal
      then have "chain_ok r m net clear start n" using Suc.prems qs by (auto simp: search_inv_def)
      then show ?thesis using goal pop by simp
    next
      case expand
      let ?C = "insert (n_pos n) C" and ?q = "expand r m n goal net clear (insert (n_pos n) C) q'"
      have eq: "astar_loop (Suc k) r m goal net clear q C = astar_loop k r m goal net clear ?q ?C"
        using expand pop by (simp add: expand_def Let_def)
      have "budget m q C < Suc k \<Longrightarrow> budget m ?q ?C < k" using expand_budget [OF Suc.prems pop expand(1)] by simp
      then show ?thesis unfolding eq using Suc.IH [OF expand_inv [OF Suc.prems pop expand]] by blast
    qed
  qed
qed simp

section \<open>Correctness of the nearest-cell search\<close>

definition cheb :: "grid_pos \<Rightarrow> grid_pos \<Rightarrow> int" where
  "cheb p q = max \<bar>gp_x q - gp_x p\<bar> \<bar>gp_y q - gp_y p\<bar>"

definition nbr :: "grid_pos \<Rightarrow> grid_pos \<Rightarrow> bool" where
  "nbr c c' = (\<exists>d\<in>set DIRECTIONS_8. c' = shifted c (fst d) (fst (snd d)))"

lemma eight_directions:
  fixes x y x' y' :: int
  shows "(x = x' \<and> y + 1 = y') \<or> (x = x' \<and> y - 1 = y') \<or> (x + 1 = x' \<and> y = y') \<or> (x - 1 = x' \<and> y = y')
    \<or> (x + 1 = x' \<and> y + 1 = y') \<or> (x - 1 = x' \<and> y + 1 = y') \<or> (x + 1 = x' \<and> y - 1 = y') \<or> (x - 1 = x' \<and> y - 1 = y')
    \<longleftrightarrow> \<bar>x' - x\<bar> \<le> 1 \<and> \<bar>y' - y\<bar> \<le> 1 \<and> (x' \<noteq> x \<or> y' \<noteq> y)"
  unfolding abs_le_iff by presburger

lemma nbr_iff:
  "nbr c c' \<longleftrightarrow> gp_layer c' = gp_layer c \<and> \<bar>gp_x c' - gp_x c\<bar> \<le> 1 \<and> \<bar>gp_y c' - gp_y c\<bar> \<le> 1 \<and> c' \<noteq> c"
proof -
  have "c' = shifted c dx dy \<longleftrightarrow> gp_x c + dx = gp_x c' \<and> gp_y c + dy = gp_y c' \<and> gp_layer c = gp_layer c'" for dx dy
    unfolding shifted_def eq_commute [of c'] mk_pos_eq_iff by (rule refl)
  then have "nbr c c' \<longleftrightarrow> gp_layer c = gp_layer c' \<and> ((gp_x c = gp_x c' \<and> gp_y c + 1 = gp_y c') \<or> (gp_x c = gp_x c' \<and> gp_y c - 1 = gp_y c')
      \<or> (gp_x c + 1 = gp_x c' \<and> gp_y c = gp_y c') \<or> (gp_x c - 1 = gp_x c' \<and> gp_y c = gp_y c')
      \<or> (gp_x c + 1 = gp_x c' \<and> gp_y c + 1 = gp_y c') \<or> (gp_x c - 1 = gp_x c' \<and> gp_y c + 1 = gp_y c')
      \<or> (gp_x c + 1 = gp_x c' \<and> gp_y c - 1 = gp_y c') \<or> (gp_x c - 1 = gp_x c' \<and> gp_y c - 1 = gp_y c'))"
    unfolding nbr_def DIRECTIONS_8_def by (simp, blast)
  then show ?thesis unfolding eight_directions grid_pos_eq_iff [of c' c] by metis
qed

lemma nbr_cheb: "nbr c c' \<Longrightarrow> cheb p c' \<le> cheb p c + 1"
  by (auto simp: nbr_iff cheb_def)

lemma step_towards:
  assumes "in_bounds m p" "in_bounds m c" "gp_layer c = gp_layer p" "c \<noteq> p"
  shows "\<exists>c0. in_bounds m c0 \<and> gp_layer c0 = gp_layer p \<and> nbr c0 c \<and> cheb p c0 = cheb p c - 1"
proof -
  define c0 where "c0 = mk_pos (gp_x c - sgn (gp_x c - gp_x p)) (gp_y c - sgn (gp_y c - gp_y p)) (gp_layer p)"
  have ne: "gp_x c \<noteq> gp_x p \<or> gp_y c \<noteq> gp_y p" using assms(3,4) by (auto simp: grid_pos_eq_iff)
  then have "nbr c0 c" using assms(3) by (auto simp: nbr_iff c0_def grid_pos_eq_iff sgn_if)
  moreover have "cheb p c0 = cheb p c - 1" using ne by (auto simp: cheb_def c0_def sgn_if)
  moreover have "in_bounds m c0" using assms(1,2) by (auto simp: in_bounds_def c0_def sgn_if)
  ultimately show ?thesis by (intro exI [of _ c0]) (simp add: c0_def)
qed

lemma visit_fold:
  "\<exists>new. fold (\<lambda>(dx, dy, _) (q, visited).
        let np = shifted c dx dy in
        if in_bounds m np \<and> np \<notin> visited then (q @ [(np, d + 1)], insert np visited) else (q, visited)) ds (q, V)
      = (q @ map (\<lambda>np. (np, d + 1)) new, V \<union> set new) \<and> distinct new
    \<and> set new = {np. in_bounds m np \<and> np \<notin> V \<and> (\<exists>e\<in>set ds. np = shifted c (fst e) (fst (snd e)))}"
proof (induction ds arbitrary: q V)
  case (Cons e ds)
  obtain dx dy w where e: "e = (dx, dy, w)" by (cases e) auto
  let ?np = "shifted c dx dy"
  show ?case
  proof (cases "in_bounds m ?np \<and> ?np \<notin> V")
    case True
    from Cons.IH [of "q @ [(?np, d + 1)]" "insert ?np V"] obtain new where new:
      "fold (\<lambda>(dx, dy, _) (q, visited).
        let np = shifted c dx dy in
        if in_bounds m np \<and> np \<notin> visited then (q @ [(np, d + 1)], insert np visited) else (q, visited)) ds (q @ [(?np, d + 1)], insert ?np V)
        = ((q @ [(?np, d + 1)]) @ map (\<lambda>np. (np, d + 1)) new, insert ?np V \<union> set new)" "distinct new"
      "set new = {np. in_bounds m np \<and> np \<notin> insert ?np V \<and> (\<exists>e\<in>set ds. np = shifted c (fst e) (fst (snd e)))}" by blast
    show ?thesis using new True by (intro exI [of _ "?np # new"]) (auto simp: e Let_def)
  next
    case False
    from Cons.IH [of q V] show ?thesis using False by (auto simp: e Let_def)
  qed
qed simp

lemma visit_neighbors_spec:
  "\<exists>new. visit_neighbors m c d (q, V) = (q @ map (\<lambda>np. (np, d + 1)) new, V \<union> set new) \<and> distinct new
    \<and> set new = {np. in_bounds m np \<and> np \<notin> V \<and> nbr c np}"
  unfolding visit_neighbors_def nbr_def by (rule visit_fold)

definition entry_ok :: "int \<Rightarrow> grid_pos \<Rightarrow> grid_pos set \<Rightarrow> int \<Rightarrow> grid_pos \<times> int \<Rightarrow> bool" where
  "entry_ok R p V first e = (snd e = cheb p (fst e) \<and> fst e \<in> V \<and> snd e \<le> R \<and> snd e \<le> first + 1)"

definition done_ok :: "obstacle_map \<Rightarrow> string option \<Rightarrow> int \<Rightarrow> grid_pos \<Rightarrow> grid_pos set \<Rightarrow> grid_pos \<Rightarrow> bool" where
  "done_ok m net R p V c = (\<not> is_free m c net \<and> (cheb p c < R \<longrightarrow> (\<forall>c'. nbr c c' \<longrightarrow> in_bounds m c' \<longrightarrow> c' \<in> V)))"

definition bfs_inv :: "obstacle_map \<Rightarrow> string option \<Rightarrow> int \<Rightarrow> grid_pos \<Rightarrow> (grid_pos \<times> int) list \<Rightarrow> grid_pos set \<Rightarrow> bool" where
  "bfs_inv m net R p q V =
     ((\<forall>e\<in>set q. entry_ok R p V (snd (hd q)) e) \<and> (\<forall>c\<in>V. in_bounds m c \<and> gp_layer c = gp_layer p) \<and> p \<in> V
      \<and> sorted (map snd q) \<and> (\<forall>c\<in>V - fst ` set q. done_ok m net R p V c))"

lemma bfs_invI:
  assumes "\<And>c d. (c, d) \<in> set q \<Longrightarrow> d = cheb p c \<and> c \<in> V \<and> d \<le> R \<and> d \<le> snd (hd q) + 1"
    and "\<And>c. c \<in> V \<Longrightarrow> in_bounds m c \<and> gp_layer c = gp_layer p" "p \<in> V" "sorted (map snd q)"
    and "\<And>c. c \<in> V - fst ` set q \<Longrightarrow> done_ok m net R p V c"
  shows "bfs_inv m net R p q V"
  unfolding bfs_inv_def entry_ok_def using assms by (metis prod.collapse)

lemma bfs_inv_entry: "bfs_inv m net R p q V \<Longrightarrow> (c, d) \<in> set q \<Longrightarrow> d = cheb p c \<and> c \<in> V \<and> d \<le> R"
  unfolding bfs_inv_def entry_ok_def by (metis fst_conv snd_conv)

lemma bfs_inv_visited: "bfs_inv m net R p q V \<Longrightarrow> c \<in> V \<Longrightarrow> in_bounds m c \<and> gp_layer c = gp_layer p"
  unfolding bfs_inv_def by blast

lemma bfs_inv_start: "bfs_inv m net R p q V \<Longrightarrow> p \<in> V"
  unfolding bfs_inv_def by blast

lemma bfs_inv_done: "bfs_inv m net R p q V \<Longrightarrow> c \<in> V - fst ` set q \<Longrightarrow> done_ok m net R p V c"
  unfolding bfs_inv_def by blast

lemma bfs_invD:
  assumes "bfs_inv m net R p ((c, d) # q) V"
  shows "d = cheb p c" "c \<in> V" "gp_layer c = gp_layer p" "d \<le> R" "sorted (map snd q)"
    "\<And>c' d'. (c', d') \<in> set q \<Longrightarrow> d \<le> d' \<and> d' \<le> d + 1"
proof -
  have e: "(c, d) \<in> set ((c, d) # q)" by simp
  show "d = cheb p c" and c: "c \<in> V" and "d \<le> R" using bfs_inv_entry [OF assms e] by simp_all
  show "gp_layer c = gp_layer p" using bfs_inv_visited [OF assms c] by simp
  have s: "sorted (d # map snd q)" using assms unfolding bfs_inv_def by (simp only: list.map snd_conv)
  then show "sorted (map snd q)" by simp
  fix c' d' assume e: "(c', d') \<in> set q"
  have "d \<le> d'" using s e by auto
  moreover have "entry_ok R p V (snd (hd ((c, d) # q))) (c', d')" using assms e unfolding bfs_inv_def by (meson list.set_intros(2))
  ultimately show "d \<le> d' \<and> d' \<le> d + 1" by (simp add: entry_ok_def)
qed

lemma bfs_covered:
  assumes inv: "bfs_inv m net R p q V" and D: "\<And>c d. (c, d) \<in> set q \<Longrightarrow> D \<le> d"
    and c: "in_bounds m c" "gp_layer c = gp_layer p" "cheb p c \<le> D" "cheb p c \<le> R"
  shows "c \<in> V"
  using c
proof (induction "nat (cheb p c)" arbitrary: c)
  case 0
  then have "c = p" by (auto simp: cheb_def grid_pos_eq_iff)
  then show ?case using bfs_inv_start [OF inv] by simp
next
  case (Suc k)
  have p: "in_bounds m p" using bfs_inv_visited [OF inv bfs_inv_start [OF inv]] by simp
  have "c \<noteq> p" using Suc.hyps(2) by (auto simp: cheb_def)
  then obtain c0 where c0: "in_bounds m c0" "gp_layer c0 = gp_layer p" "nbr c0 c" "cheb p c0 = cheb p c - 1"
    using step_towards [OF p Suc.prems(1,2)] by blast
  have "c0 \<in> V" using Suc.hyps(1) [of c0] c0 Suc.prems Suc.hyps(2) by simp
  moreover have "c0 \<notin> fst ` set q"
  proof
    assume "c0 \<in> fst ` set q"
    then obtain d where d: "(c0, d) \<in> set q" by auto
    then have "d = cheb p c0" using bfs_inv_entry [OF inv d] by simp
    then show False using D [OF d] c0(4) Suc.prems(3) by simp
  qed
  moreover have "cheb p c0 < R" using c0(4) Suc.prems(4) by simp
  ultimately show ?case using bfs_inv_done [OF inv, of c0] c0(3) Suc.prems(1) unfolding done_ok_def by blast
qed

lemma bfs_skip:
  assumes "bfs_inv m net R p ((c, d) # q) V" "\<not> is_free m c net" "R \<le> d"
  shows "bfs_inv m net R p q V"
proof -
  note d = bfs_invD(1,6) [OF assms(1)]
  have "d' \<le> snd (hd q) + 1" if "(c', d') \<in> set q" for c' d'
  proof -
    have "hd q \<in> set q" using that by (intro hd_in_set) auto
    then have "d \<le> snd (hd q)" using d(2) [of "fst (hd q)" "snd (hd q)"] by simp
    then show ?thesis using d(2) [OF that] by simp
  qed
  moreover have "done_ok m net R p V x" if "x \<in> V - fst ` set q" for x
  proof (cases "x = c")
    case True
    then show ?thesis using assms(2,3) d(1) by (simp add: done_ok_def)
  next
    case False
    then have "x \<in> V - fst ` set ((c, d) # q)" using that by auto
    then show ?thesis by (rule bfs_inv_done [OF assms(1)])
  qed
  moreover have "d' = cheb p c' \<and> c' \<in> V \<and> d' \<le> R" if "(c', d') \<in> set q" for c' d'
    using bfs_inv_entry [OF assms(1), of c' d'] that by simp
  ultimately show ?thesis
    using bfs_inv_visited [OF assms(1)] bfs_inv_start [OF assms(1)] bfs_invD(5) [OF assms(1)] by (intro bfs_invI) blast+
qed

lemma bfs_expand:
  assumes inv: "bfs_inv m net R p ((c, d) # q) V" and nf: "\<not> is_free m c net" and d: "d < R"
    and new: "set new = {np. in_bounds m np \<and> np \<notin> V \<and> nbr c np}"
  shows "bfs_inv m net R p (q @ map (\<lambda>np. (np, d + 1)) new) (V \<union> set new)"
proof -
  let ?q = "q @ map (\<lambda>np. (np, d + 1)) new"
  note cd = bfs_invD(1,2,3,6,5) [OF inv]
  have dmin: "(c', d') \<in> set ((c, d) # q) \<Longrightarrow> d \<le> d'" for c' d' using cd(4) by auto
  have dist: "d + 1 = cheb p np \<and> gp_layer np = gp_layer p" if "np \<in> set new" for np
  proof -
    have np: "in_bounds m np" "np \<notin> V" "nbr c np" using that new by auto
    then have l: "gp_layer np = gp_layer p" using cd(3) by (simp add: nbr_iff)
    have "\<not> cheb p np \<le> d" using bfs_covered [OF inv dmin np(1) l] np(2) d by auto
    then show ?thesis using nbr_cheb [OF np(3), of p] cd(1) l by simp
  qed
  have entries: "d' = cheb p c' \<and> c' \<in> V \<union> set new \<and> d' \<le> R \<and> d' \<le> d + 1 \<and> d \<le> d'" if "(c', d') \<in> set ?q" for c' d'
  proof (cases "(c', d') \<in> set q")
    case True
    then have "d' = cheb p c' \<and> c' \<in> V \<and> d' \<le> R" using bfs_inv_entry [OF inv, of c' d'] by simp
    then show ?thesis using cd(4) [OF True] by auto
  next
    case False
    then have "c' \<in> set new" "d' = d + 1" using that by auto
    then show ?thesis using dist [of c'] d by simp
  qed
  have "d' \<le> snd (hd ?q) + 1" if "(c', d') \<in> set ?q" for c' d'
  proof -
    have "hd ?q \<in> set ?q" using that by (intro hd_in_set) auto
    then have "(fst (hd ?q), snd (hd ?q)) \<in> set ?q" by (simp only: prod.collapse)
    from entries [OF this] entries [OF that] show ?thesis by linarith
  qed
  moreover have "sorted (map snd ?q)"
  proof -
    have "\<forall>x\<in>set (map snd q). x \<le> d + 1" using cd(4) by auto
    moreover have "map snd (map (\<lambda>np. (np, d + 1)) new) = replicate (length new) (d + 1)" by (simp add: comp_def map_replicate_const)
    ultimately show ?thesis using cd(5) by (auto simp: sorted_append)
  qed
  moreover have "done_ok m net R p (V \<union> set new) x" if "x \<in> V \<union> set new - fst ` set ?q" for x
  proof (cases "x = c")
    case True
    then show ?thesis using nf new by (auto simp: done_ok_def)
  next
    case False
    have "x \<notin> set new"
    proof
      assume "x \<in> set new"
      then have "(x, d + 1) \<in> set ?q" by simp
      then show False using that by (metis DiffD2 fst_conv imageI)
    qed
    then have "x \<in> V - fst ` set ((c, d) # q)" using that False by auto
    from bfs_inv_done [OF inv this] show ?thesis unfolding done_ok_def by blast
  qed
  moreover have "in_bounds m x \<and> gp_layer x = gp_layer p" if "x \<in> V \<union> set new" for x
    using that bfs_inv_visited [OF inv] dist new by blast
  moreover have "p \<in> V \<union> set new" using bfs_inv_start [OF inv] by blast
  ultimately show ?thesis using entries by (intro bfs_invI) blast+
qed

definition bfs_budget :: "obstacle_map \<Rightarrow> (grid_pos \<times> int) list \<Rightarrow> grid_pos set \<Rightarrow> nat" where
  "bfs_budget m q V = length q + card ({c. in_bounds m c} - V)"

definition nearest_in :: "obstacle_map \<Rightarrow> string option \<Rightarrow> int \<Rightarrow> grid_pos \<Rightarrow> grid_pos option \<Rightarrow> bool" where
  "nearest_in m net R p found =
     (case found of
        Some c \<Rightarrow> is_free m c net \<and> gp_layer c = gp_layer p \<and> cheb p c \<le> R
                 \<and> (\<forall>c'. is_free m c' net \<longrightarrow> gp_layer c' = gp_layer p \<longrightarrow> cheb p c \<le> cheb p c')
      | None \<Rightarrow> \<forall>c'. is_free m c' net \<longrightarrow> gp_layer c' = gp_layer p \<longrightarrow> R < cheb p c')"

lemma bfs_correct:
  assumes "bfs_inv m net R p q V" "bfs_budget m q V < n"
  shows "\<exists>found. bfs n m R net q V = Some found \<and> nearest_in m net R p found"
  using assms
proof (induction n arbitrary: q V)
  case (Suc n)
  have far: "is_free m c' net \<Longrightarrow> gp_layer c' = gp_layer p \<Longrightarrow> D < cheb p c' \<or> R < cheb p c'"
    if "\<And>c d. (c, d) \<in> set q \<Longrightarrow> D < d" for c' D
  proof (rule ccontr)
    assume a: "is_free m c' net" "gp_layer c' = gp_layer p" "\<not> (D < cheb p c' \<or> R < cheb p c')"
    have c': "c' \<in> V"
      by (rule bfs_covered [OF Suc.prems(1), of D]) (use that a in \<open>auto intro: is_free_bounds less_imp_le\<close>)
    have "c' \<notin> fst ` set q"
    proof
      assume "c' \<in> fst ` set q"
      then obtain d where "(c', d) \<in> set q" by auto
      then show False using that [of c' d] bfs_inv_entry [OF Suc.prems(1), of c' d] a(3) by simp
    qed
    then show False using bfs_inv_done [OF Suc.prems(1), of c'] c' a(1) by (simp add: done_ok_def)
  qed
  show ?case
  proof (cases q)
    case Nil
    have "R < cheb p c'" if "is_free m c' net" "gp_layer c' = gp_layer p" for c' using far [of R c'] that Nil by simp
    then show ?thesis using Nil by (simp add: nearest_in_def)
  next
    case (Cons e q')
    obtain c d where e: "e = (c, d)" by fastforce
    note q = Cons [unfolded e]
    note inv = Suc.prems(1) [unfolded q] and D = bfs_invD [OF Suc.prems(1) [unfolded q]]
    consider (free) "is_free m c net" | (skip) "\<not> is_free m c net" "R \<le> d" | (expand) "\<not> is_free m c net" "d < R" by linarith
    then show ?thesis
    proof cases
      case free
      have "cheb p c \<le> cheb p c'" if "is_free m c' net" "gp_layer c' = gp_layer p" for c'
      proof -
        have "d - 1 < d'" if "(x, d') \<in> set q" for x d' using that D(6) [of x d'] by (auto simp: q)
        then show ?thesis using far [of "d - 1" c'] that D(1,4) by fastforce
      qed
      then show ?thesis using free q D(1,3,4) by (simp add: nearest_in_def)
    next
      case skip
      then show ?thesis using Suc.IH [OF bfs_skip [OF inv skip]] Suc.prems(2) q by (simp add: bfs_budget_def)
    next
      case expand
      obtain new where new: "visit_neighbors m c d (q', V) = (q' @ map (\<lambda>np. (np, d + 1)) new, V \<union> set new)" "distinct new"
        "set new = {np. in_bounds m np \<and> np \<notin> V \<and> nbr c np}" using visit_neighbors_spec by blast
      have fin: "finite ({x. in_bounds m x} - V)" using finite_bounds by simp
      have "set new \<subseteq> {x. in_bounds m x} - V" using new(3) by auto
      have "card ({x. in_bounds m x} - (V \<union> set new)) + length new = card ({x. in_bounds m x} - V)"
      proof -
        have "{x. in_bounds m x} - (V \<union> set new) = ({x. in_bounds m x} - V) - set new" by blast
        then have "card ({x. in_bounds m x} - (V \<union> set new)) = card ({x. in_bounds m x} - V) - length new"
          using card_Diff_subset [OF finite_set \<open>set new \<subseteq> {x. in_bounds m x} - V\<close>] distinct_card [OF new(2)] by simp
        then show ?thesis using card_mono [OF fin \<open>set new \<subseteq> {x. in_bounds m x} - V\<close>] distinct_card [OF new(2)] by simp
      qed
      then have "bfs_budget m (q' @ map (\<lambda>np. (np, d + 1)) new) (V \<union> set new) < n"
        using Suc.prems(2) q by (simp add: bfs_budget_def)
      then show ?thesis using Suc.IH [OF bfs_expand [OF inv expand new(3)]] expand q new(1) by simp
    qed
  qed
qed simp

lemma nearest_free_spec:
  assumes "in_bounds m p" "0 \<le> R"
  shows "case nearest_free m p R net of
      Some c \<Rightarrow> is_free m c net \<and> gp_layer c = gp_layer p \<and> cheb p c \<le> R
        \<and> (\<forall>c'. is_free m c' net \<longrightarrow> gp_layer c' = gp_layer p \<longrightarrow> cheb p c \<le> cheb p c')
    | None \<Rightarrow> \<forall>c'. is_free m c' net \<longrightarrow> gp_layer c' = gp_layer p \<longrightarrow> R < cheb p c'"
proof -
  have "bfs_inv m net R p [(p, 0)] {p}"
    by (rule bfs_invI) (use assms in \<open>auto simp: cheb_def\<close>)
  moreover have "bfs_budget m [(p, 0)] {p} < nat (om_width m * om_height m * om_layers m) + 3"
    using card_bounds [of m] card_Diff1_le [of "{c. in_bounds m c}" p] by (simp add: bfs_budget_def)
  ultimately obtain found where "bfs (nat (om_width m * om_height m * om_layers m) + 3) m R net [(p, 0)] {p} = Some found"
    "nearest_in m net R p found" using bfs_correct by blast
  then show ?thesis by (simp add: nearest_free_def nearest_in_def)
qed

text \<open>
  The search for a free cell near a cell of the grid ends, and gives a free cell of the
  same layer at the least distance within the radius (counted in king's moves), or none when
  there is none.
\<close>

theorem nearest_free_exact:
  assumes "in_bounds m p" "0 \<le> R"
  shows "case nearest_free m p R net of
      Some c \<Rightarrow> is_free m c net \<and> gp_layer c = gp_layer p \<and> cheb p c \<le> R
        \<and> (\<forall>c'. is_free m c' net \<longrightarrow> gp_layer c' = gp_layer p \<longrightarrow> cheb p c \<le> cheb p c')
    | None \<Rightarrow> \<forall>c'. is_free m c' net \<longrightarrow> gp_layer c' = gp_layer p \<longrightarrow> R < cheb p c'"
  using assms by (rule nearest_free_spec)

text \<open>The end points a search runs between.\<close>

lemma resolve_endpoint_free:
  assumes "in_bounds m p" "resolve_astar_endpoint m p net = Some s"
  shows "is_free m s net \<and> gp_layer s = gp_layer p"
  using assms nearest_free_spec [OF assms(1), of 48 net]
  by (auto simp: resolve_astar_endpoint_def split: if_splits option.splits)

lemma start_inv:
  assumes "in_bounds m s"
  shows "search_inv r m net clear s g (heappush node_lt (Node s 0 h f None) []) {}"
  using assms by (simp add: search_inv_def chain_ok_def)

lemma start_budget: "budget m (heappush node_lt (Node s 0 h f None) []) {} \<le> 1 + 10 * nat (om_width m * om_height m * om_layers m)"
  using card_bounds [of m] by (simp add: budget_def)

lemma astar_runs:
  assumes "resolve_astar_endpoint m start net = Some s" "resolve_astar_endpoint m goal net = Some g"
    and "gr_pad_aware r \<longrightarrow> is_free m start net \<and> is_free m goal net"
  shows "astar r m start goal net clear = map_option reconstruct (astar_loop (nat (gr_max_iterations r)) r m g net clear
    (heappush node_lt (Node s 0 (octile s g (gr_via_cost r)) (fl (0 + octile s g (gr_via_cost r))) None) []) {})"
  using assms by (auto simp: astar_def Let_def)

lemma astar_sound:
  assumes "in_bounds m start" "astar r m start goal net clear = Some path"
  obtains s g where "resolve_astar_endpoint m start net = Some s" "resolve_astar_endpoint m goal net = Some g"
    "gr_pad_aware r \<longrightarrow> is_free m start net \<and> is_free m goal net"
    "path \<noteq> []" "hd path = s" "last path = g" "distinct path" "successively (moves r m net clear) path"
proof -
  obtain s g where sg: "resolve_astar_endpoint m start net = Some s" "resolve_astar_endpoint m goal net = Some g"
    and pads: "gr_pad_aware r \<longrightarrow> is_free m start net \<and> is_free m goal net"
    using assms(2) by (auto simp: astar_def split: if_splits option.splits)
  have bs: "in_bounds m s" using resolve_endpoint_free [OF assms(1) sg(1)] is_free_bounds by blast
  let ?h = "octile s g (gr_via_cost r)"
  obtain n where n: "astar_loop (nat (gr_max_iterations r)) r m g net clear (heappush node_lt (Node s 0 ?h (fl (0 + ?h)) None) []) {} = Some n"
    "path = rev (chain n)"
    using assms(2) unfolding astar_runs [OF sg pads] by (auto simp: reconstruct_def)
  have "chain_ok r m net clear s n" "n_pos n = g"
    using astar_loop_correct [OF start_inv [OF bs, of r net clear g ?h "fl (0 + ?h)"], of "nat (gr_max_iterations r)"] n(1) by auto
  then show ?thesis using sg pads that by (simp add: n(2) chain_ok_def hd_rev last_rev)
qed

text \<open>
  C21: The A* search is sound and, with enough iterations, complete. A path it returns joins
  the resolved end points by steps that were all allowed: neighbouring cells free for the net
  with the clearance around them, no cut corners, layer changes only to free cells (none in
  pad-aware mode), no cell twice. When it returns nothing although an iteration limit of ten
  times the number of cells was not reached, no such path exists.
\<close>

theorem astar_correct:
  assumes "in_bounds m start" "in_bounds m goal"
    and "resolve_astar_endpoint m start net = Some s" "resolve_astar_endpoint m goal net = Some g"
    and "gr_pad_aware r \<longrightarrow> is_free m start net \<and> is_free m goal net"
  shows "(\<forall>path. astar r m start goal net clear = Some path \<longrightarrow>
      path \<noteq> [] \<and> hd path = s \<and> last path = g \<and> distinct path \<and> successively (moves r m net clear) path)
    \<and> (1 + 10 * om_width m * om_height m * om_layers m < gr_max_iterations r \<longrightarrow>
        (astar r m start goal net clear = None \<longleftrightarrow> \<not> (moves r m net clear)\<^sup>*\<^sup>* s g))"
proof -
  have bs: "in_bounds m s" using resolve_endpoint_free [OF assms(1,3)] is_free_bounds by blast
  let ?h = "octile s g (gr_via_cost r)"
  let ?q = "heappush node_lt (Node s 0 ?h (fl (0 + ?h)) None) []"
  let ?k = "nat (gr_max_iterations r)"
  have run: "astar r m start goal net clear = map_option reconstruct (astar_loop ?k r m g net clear ?q {})"
    using astar_runs [OF assms(3-5)] .
  note correct = astar_loop_correct [OF start_inv [OF bs, of r net clear g ?h "fl (0 + ?h)"], of ?k]
  have sound: "path \<noteq> [] \<and> hd path = s \<and> last path = g \<and> distinct path \<and> successively (moves r m net clear) path"
    if path: "astar r m start goal net clear = Some path" for path
    using astar_sound [OF assms(1) path] assms(3,4) by (metis option.inject)
  have reach: "(moves r m net clear)\<^sup>*\<^sup>* (hd path) (last path)" if "successively (moves r m net clear) path" "path \<noteq> []" for path
    using that
  proof (induction path rule: induct_list012)
    case (3 x y zs)
    then show ?case by (auto intro: converse_rtranclp_into_rtranclp)
  qed simp_all
  have "\<not> (moves r m net clear)\<^sup>*\<^sup>* s g" if "1 + 10 * om_width m * om_height m * om_layers m < gr_max_iterations r" "astar r m start goal net clear = None"
  proof -
    have "1 + 10 * nat (om_width m * om_height m * om_layers m) < ?k"
    proof -
      define N where "N = om_width m * om_height m * om_layers m"
      have "0 \<le> N" using bs unfolding N_def in_bounds_def by (intro mult_nonneg_nonneg) auto
      moreover have "1 + 10 * N < gr_max_iterations r" using that(1) by (simp add: N_def mult.assoc)
      ultimately show ?thesis unfolding N_def [symmetric] by linarith
    qed
    then have "budget m ?q {} < ?k" using start_budget [of m s ?h "fl (0 + ?h)"] by linarith
    moreover have "astar_loop ?k r m g net clear ?q {} = None" using that(2) run by simp
    ultimately show ?thesis using correct by blast
  qed
  moreover have "(moves r m net clear)\<^sup>*\<^sup>* s g" if "astar r m start goal net clear = Some path" for path
    using sound [OF that] reach [of path] by auto
  ultimately show ?thesis using sound by (metis not_None_eq)
qed

end
