(* ===== verification/Grid_Router.thy ===== *)
theory Grid_Router
  imports Grid_Search
begin

text \<open>
  \<^verbatim>\<open>GridRouter\<close> of \<^verbatim>\<open>src/zaptrace/algo/grid_router.py\<close> above the searches: spanning trees of
  terminals, path simplification, the transactional routing of one net, the passes over all
  nets and the retries. The board's prepared obstacle map, the terminals of a net, its class and
  its routing rule come from other modules and are fields of the environment.
\<close>

section \<open>Spanning tree of the terminals\<close>

definition manhattan_dist :: "int \<times> int \<Rightarrow> int \<times> int \<Rightarrow> rat" where
  "manhattan_dist a b = of_int (\<bar>fst a - fst b\<bar> + \<bar>snd a - snd b\<bar>)"

text \<open>The best edge so far with its distance; \<open>None\<close> goes with an infinite distance.\<close>

definition better_edge :: "nat \<times> nat \<Rightarrow> rat \<Rightarrow> ((nat \<times> nat) \<times> rat) option \<Rightarrow> ((nat \<times> nat) \<times> rat) option" where
  "better_edge e d best =
     (case best of None \<Rightarrow> Some (e, d) | Some (_, bd) \<Rightarrow> if d < bd then Some (e, d) else best)"

definition nearest_mst_edge :: "(int \<times> int) list \<Rightarrow> bool list \<Rightarrow> (nat \<times> nat) option" where
  "nearest_mst_edge points in_mst =
     map_option fst
       (fold (\<lambda>(i, source) best.
           if \<not> in_mst ! i then best
           else fold (\<lambda>(j, target) best.
               if in_mst ! j then best else better_edge (i, j) (manhattan_dist source target) best)
             (enumerate 0 points) best)
         (enumerate 0 points) None)"

fun mst_loop :: "nat \<Rightarrow> (int \<times> int) list \<Rightarrow> bool list \<Rightarrow> (nat \<times> nat) list" where
  "mst_loop 0 points in_mst = []"
| "mst_loop (Suc k) points in_mst =
     (case nearest_mst_edge points in_mst of
        None \<Rightarrow> []
      | Some e \<Rightarrow> e # mst_loop k points (in_mst[snd e := True]))"

definition mst :: "(int \<times> int) list \<Rightarrow> (nat \<times> nat) list" where
  "mst points =
     (if length points < 2 then []
      else mst_loop (length points - 1) points ((replicate (length points) False)[0 := True]))"

section \<open>Path simplification\<close>

definition collinear_step :: "grid_pos \<Rightarrow> grid_pos \<Rightarrow> grid_pos \<Rightarrow> bool" where
  "collinear_step a b c =
     (gp_layer b = gp_layer a \<and> gp_layer a = gp_layer c
      \<and> (gp_x b - gp_x a) * (gp_y c - gp_y b) = (gp_x c - gp_x b) * (gp_y b - gp_y a))"

fun interior :: "grid_pos list \<Rightarrow> grid_pos list" where
  "interior (a # b # c # rest) = (if collinear_step a b c then interior (b # c # rest) else b # interior (b # c # rest))"
| "interior _ = []"

definition simplify_path :: "grid_pos list \<Rightarrow> grid_pos list" where
  "simplify_path path = (if length path \<le> 2 then path else hd path # interior path @ [last path])"

section \<open>Routing one net\<close>

fun reserve_path :: "int \<Rightarrow> string \<Rightarrow> grid_pos list \<Rightarrow> obstacle_map \<Rightarrow> obstacle_map result" where
  "reserve_path clear net (a # b # rest) m = rbind (block_line a b clear (Some net) m) (reserve_path clear net (b # rest))"
| "reserve_path clear net _ m = Inr m"

definition terminal :: "(int \<times> int) list \<Rightarrow> int \<Rightarrow> nat \<Rightarrow> grid_pos" where
  "terminal positions layer i = mk_pos (fst (positions ! i)) (snd (positions ! i)) layer"

text \<open>
  \<^verbatim>\<open>_route_mst_paths\<close>, with the map it leaves; a failed call's map is never used. The only
  exception of \<^verbatim>\<open>block_line\<close> for a net is the \<^verbatim>\<open>ValueError\<close> that is caught
  (\<open>block_line_error\<close>).
\<close>

fun route_edges ::
  "grid_router \<Rightarrow> (int \<times> int) list \<Rightarrow> int \<Rightarrow> int \<Rightarrow> string \<Rightarrow> (nat \<times> nat) list \<Rightarrow> obstacle_map
   \<Rightarrow> (grid_pos list list \<times> obstacle_map) option" where
  "route_edges r positions layer clear net [] m = Some ([], m)"
| "route_edges r positions layer clear net ((i, j) # es) m =
     (case astar r m (terminal positions layer i) (terminal positions layer j) (Some net) (if gr_pad_aware r then clear else 0) of
        None \<Rightarrow> None
      | Some path \<Rightarrow>
          if path = [] then None
          else let smooth = simplify_path path in
               (case reserve_path clear net smooth m of
                  Inl _ \<Rightarrow> None
                | Inr m' \<Rightarrow> map_option (\<lambda>(paths, m''). (smooth # paths, m'')) (route_edges r positions layer clear net es m')))"

definition route_mst_paths ::
  "grid_router \<Rightarrow> obstacle_map \<Rightarrow> (int \<times> int) list \<Rightarrow> int \<Rightarrow> int \<Rightarrow> string \<Rightarrow> (grid_pos list list \<times> obstacle_map) option" where
  "route_mst_paths r m positions layer clear net = route_edges r positions layer clear net (mst positions) m"

definition unblock_endpoint :: "grid_pos \<Rightarrow> int \<Rightarrow> string option \<Rightarrow> obstacle_map \<Rightarrow> obstacle_map" where
  "unblock_endpoint p radius net m =
     fold (\<lambda>dy. fold (\<lambda>dx m.
         let probe = mk_pos (gp_x p + dx) (gp_y p + dy) (gp_layer p) in
         if 0 < gp_x probe \<and> gp_x probe < om_width m - 1 \<and> 0 < gp_y probe \<and> gp_y probe < om_height m - 1
         then (case net of Some n \<Rightarrow> open_for_net probe n m | None \<Rightarrow> unblock probe m)
         else m) [- radius..radius]) [- radius..radius] m"

fun layer_for_net_class :: "net_class \<Rightarrow> int \<Rightarrow> int" where
  "layer_for_net_class POWER_HIGH n = 0"
| "layer_for_net_class POWER_MED n = 0"
| "layer_for_net_class POWER_LOW n = 0"
| "layer_for_net_class CLASS_GROUND n = - 1"
| "layer_for_net_class SIGNAL_ANALOG n = 0"
| "layer_for_net_class SIGNAL_HIGH n = (if n \<ge> 4 then 1 else max 0 (n - 1))"
| "layer_for_net_class CLASS_RF n = (if n \<ge> 4 then 1 else max 0 (n - 1))"
| "layer_for_net_class CLASS_DIFFERENTIAL n = (if n \<ge> 4 then 1 else max 0 (n - 1))"
| "layer_for_net_class SIGNAL_LOW n = max 0 (n - 1)"

record routing_rule =
  rule_clearance :: pyfloat
  rule_trace_width :: pyfloat
  rule_priority :: int

record route_env =
  re_net_class :: "net \<Rightarrow> net_class"
  re_rule :: "net_class \<Rightarrow> routing_rule"
  re_route_points :: "net \<Rightarrow> point list"
  re_pad_layers :: "net_node \<Rightarrow> int set option"

record grid_route_context =
  gc_obstacles :: obstacle_map
  gc_grid_w :: int
  gc_grid_h :: int
  gc_num_layers :: int
  gc_via_pad :: pyfloat
  gc_via_hole :: pyfloat

record grid_net_plan =
  gnp_routable :: bool
  gnp_success :: bool
  gnp_net_id :: string
  gnp_width_mm :: pyfloat
  gnp_edge_paths :: "grid_pos list list"

definition no_plan :: "bool \<Rightarrow> string \<Rightarrow> grid_net_plan" where
  "no_plan routable net = \<lparr> gnp_routable = routable, gnp_success = False, gnp_net_id = net, gnp_width_mm = 0, gnp_edge_paths = [] \<rparr>"

definition to_grid_point :: "grid_router \<Rightarrow> point \<Rightarrow> grid_route_context \<Rightarrow> int \<times> int" where
  "to_grid_point r p ctx =
     (max 1 (min (gc_grid_w ctx - 2) (round_half_even (fl (fst p / gr_resolution r)))),
      max 1 (min (gc_grid_h ctx - 2) (round_half_even (fl (snd p / gr_resolution r)))))"

definition off_grid :: "grid_router \<Rightarrow> point \<Rightarrow> int \<times> int \<Rightarrow> bool" where
  "off_grid r p g =
     (\<bar>fl (fst p - fl (of_int (fst g) * gr_resolution r))\<bar> > 4722366482869645 / 4722366482869645213696
      \<or> \<bar>fl (snd p - fl (of_int (snd g) * gr_resolution r))\<bar> > 4722366482869645 / 4722366482869645213696)"

definition clearance_cells :: "grid_router \<Rightarrow> routing_rule \<Rightarrow> int" where
  "clearance_cells r rule = max \<lceil>fl (rule_clearance rule / gr_resolution r)\<rceil> 1"

text \<open>The layers all pads of a net can reach, \<open>None\<close> when a pad is missing.\<close>

fun accessible_layers :: "'a route_env_scheme \<Rightarrow> net_node list \<Rightarrow> int set \<Rightarrow> int set option" where
  "accessible_layers env [] acc = Some acc"
| "accessible_layers env (nd # nds) acc =
     (case re_pad_layers env nd of None \<Rightarrow> None | Some ls \<Rightarrow> accessible_layers env nds (acc \<inter> ls))"

definition pad_aware_layer :: "grid_router \<Rightarrow> 'a route_env_scheme \<Rightarrow> net \<Rightarrow> grid_route_context \<Rightarrow> (int \<times> int) list \<Rightarrow> int \<Rightarrow> int option" where
  "pad_aware_layer r env net ctx grid_positions layer =
     (if length (re_route_points env net) \<noteq> length (net_nodes net)
         \<or> list_ex (\<lambda>(p, g). off_grid r p g) (zip (re_route_points env net) grid_positions) then None
      else case accessible_layers env (net_nodes net) (set [0..gc_num_layers ctx - 1]) of
             None \<Rightarrow> None
           | Some acc \<Rightarrow> if acc = {} then None else Some (if layer \<notin> acc then Min acc else layer))"

definition commit_net_routes ::
  "grid_router \<Rightarrow> net \<Rightarrow> routing_rule \<Rightarrow> (int \<times> int) list \<Rightarrow> int \<Rightarrow> int \<Rightarrow> grid_route_context \<Rightarrow> grid_net_plan \<times> grid_route_context" where
  "commit_net_routes r net rule grid_positions layer clear ctx =
     (let staged = clone (gc_obstacles ctx);
          opened = (if gr_pad_aware r then staged
                    else fold (\<lambda>(gx, gy). unblock_endpoint (mk_pos gx gy layer) (max clear 1) (Some (net_id net))) grid_positions staged)
      in case route_mst_paths r opened grid_positions layer clear (net_id net) of
           None \<Rightarrow> (\<lparr> gnp_routable = True, gnp_success = False, gnp_net_id = net_id net,
                      gnp_width_mm = rule_trace_width rule, gnp_edge_paths = [] \<rparr>, ctx)
         | Some (paths, m) \<Rightarrow> (\<lparr> gnp_routable = True, gnp_success = True, gnp_net_id = net_id net,
                      gnp_width_mm = rule_trace_width rule, gnp_edge_paths = paths \<rparr>, ctx\<lparr> gc_obstacles := m \<rparr>))"

definition plan_grid_net :: "grid_router \<Rightarrow> 'a route_env_scheme \<Rightarrow> net \<Rightarrow> grid_route_context \<Rightarrow> grid_net_plan \<times> grid_route_context" where
  "plan_grid_net r env net ctx =
     (let net_class = re_net_class env net; layer = layer_for_net_class net_class (gc_num_layers ctx);
          route_points = re_route_points env net in
      if layer < 0 then (no_plan False (net_id net), ctx)
      else if length route_points < 2 then (no_plan (gr_pad_aware r \<and> length (net_nodes net) \<ge> 2) (net_id net), ctx)
      else
        (let rule = re_rule env net_class; clear = clearance_cells r rule;
             grid_positions = map (\<lambda>p. to_grid_point r p ctx) route_points in
         if gr_pad_aware r then
           (case pad_aware_layer r env net ctx grid_positions layer of
              None \<Rightarrow> (no_plan True (net_id net), ctx)
            | Some l \<Rightarrow> commit_net_routes r net rule grid_positions l clear ctx)
         else commit_net_routes r net rule grid_positions layer clear ctx))"

section \<open>The spanning tree\<close>

definition crossing :: "bool list \<Rightarrow> nat \<Rightarrow> nat \<times> nat \<Rightarrow> bool" where
  "crossing in_mst n e = (fst e < n \<and> snd e < n \<and> in_mst ! fst e \<and> \<not> in_mst ! snd e)"

lemma better_edge_Some: "better_edge e d best \<noteq> None"
  by (auto simp: better_edge_def split: option.splits if_splits)

definition best_ok :: "bool list \<Rightarrow> nat \<Rightarrow> ((nat \<times> nat) \<times> rat) option \<Rightarrow> bool" where
  "best_ok in_mst n best = (case best of None \<Rightarrow> True | Some b \<Rightarrow> crossing in_mst n (fst b))"

lemma better_edge_ok: "best_ok in_mst n best \<Longrightarrow> crossing in_mst n e \<Longrightarrow> best_ok in_mst n (better_edge e d best)"
  by (auto simp: best_ok_def better_edge_def split: option.splits)

lemma nearest_mst_edge_crossing:
  assumes "nearest_mst_edge points in_mst = Some e"
  shows "crossing in_mst (length points) e"
proof -
  let ?ok = "best_ok in_mst (length points)"
  let ?inner = "\<lambda>i source. fold (\<lambda>(j, target) best. if in_mst ! j then best else better_edge (i, j) (manhattan_dist source target) best) (enumerate 0 points)"
  have idx: "fst x < length points" if "x \<in> set (enumerate 0 points)" for x using that by (simp add: in_set_enumerate_eq)
  have inner: "?ok (?inner i source best)" if "i < length points" "in_mst ! i" "?ok best" for i source best
  proof (rule fold_invariant [where Q = "\<lambda>x. fst x < length points" and P = ?ok, OF idx that(3)])
    show "?ok ((\<lambda>(j, target) best. if in_mst ! j then best else better_edge (i, j) (manhattan_dist source target) best) x s)"
      if "fst x < length points" "?ok s" for x s
      using that \<open>i < length points\<close> \<open>in_mst ! i\<close> by (cases x) (auto simp: crossing_def intro!: better_edge_ok)
  qed
  have "?ok (fold (\<lambda>(i, source) best. if \<not> in_mst ! i then best else ?inner i source best) (enumerate 0 points) None)"
  proof (rule fold_invariant [where Q = "\<lambda>x. fst x < length points" and P = ?ok, OF idx])
    show "?ok None" by (simp add: best_ok_def)
    show "?ok ((\<lambda>(i, source) best. if \<not> in_mst ! i then best else ?inner i source best) x s)" if "fst x < length points" "?ok s" for x s
    proof -
      obtain i source where x: "x = (i, source)" by (cases x)
      show ?thesis unfolding x prod.case using inner [of i s source] that by (simp add: x)
    qed
  qed
  then show ?thesis using assms by (auto simp: nearest_mst_edge_def best_ok_def)
qed

lemma nearest_mst_edge_exists:
  assumes "crossing in_mst (length points) e"
  shows "nearest_mst_edge points in_mst \<noteq> None"
proof -
  let ?f = "\<lambda>i source. \<lambda>(j, target) best. if in_mst ! j then best else better_edge (i, j) (manhattan_dist source target) best"
  have keep: "fold (?f i source) ys best \<noteq> None" if "best \<noteq> None" for i source ys best
    using that
  proof (induction ys arbitrary: best)
    case (Cons y ys)
    have "?f i source y best \<noteq> None" using Cons.prems better_edge_Some by (cases y) (simp del: not_None_eq)
    from Cons.IH [OF this] show ?case by simp
  qed simp
  have hit: "fold (?f i source) ys best \<noteq> None" if "\<exists>(j, t)\<in>set ys. \<not> in_mst ! j" for i source ys best
    using that
  proof (induction ys arbitrary: best)
    case (Cons y ys)
    obtain j t where y: "y = (j, t)" by (cases y)
    show ?case
    proof (cases "in_mst ! j")
      case True
      then show ?thesis using Cons y by auto
    next
      case False
      then have "?f i source y best \<noteq> None" by (simp add: y better_edge_Some)
      from keep [OF this] show ?thesis by simp
    qed
  qed simp
  let ?g = "\<lambda>(i, source) best. if \<not> in_mst ! i then best else fold (?f i source) (enumerate 0 points) best"
  have target: "\<exists>(j, t)\<in>set (enumerate 0 points). \<not> in_mst ! j"
    using assms by (auto simp: crossing_def in_set_enumerate_eq intro!: bexI [of _ "(snd e, points ! snd e)"])
  have keep2: "fold ?g xs best \<noteq> None" if "best \<noteq> None" for xs best
    using that
  proof (induction xs arbitrary: best)
    case (Cons x xs)
    have "?g x best \<noteq> None" using keep [OF Cons.prems] Cons.prems by (cases x) simp
    from Cons.IH [OF this] show ?case by simp
  qed simp
  have "fold ?g xs best \<noteq> None" if "\<exists>(i, s)\<in>set xs. in_mst ! i" for xs best
    using that
  proof (induction xs arbitrary: best)
    case (Cons x xs)
    obtain i s where x: "x = (i, s)" by (cases x)
    show ?case
    proof (cases "in_mst ! i")
      case True
      then have "?g x best \<noteq> None" using hit [OF target] by (simp add: x)
      from keep2 [OF this] show ?thesis by simp
    next
      case False
      then show ?thesis using Cons x by auto
    qed
  qed simp
  moreover have "\<exists>(i, s)\<in>set (enumerate 0 points). in_mst ! i"
    using assms by (auto simp: crossing_def in_set_enumerate_eq intro!: bexI [of _ "(fst e, points ! fst e)"])
  ultimately show ?thesis by (simp add: nearest_mst_edge_def)
qed

lemma mst_loop_spans:
  assumes "length in_mst = length points" "in_mst \<noteq> []" "in_mst ! 0" "k = length (filter Not in_mst)"
  shows "length (mst_loop k points in_mst) = k \<and> (\<forall>e\<in>set (mst_loop k points in_mst). fst e < length points \<and> snd e < length points)
    \<and> (\<forall>j<length points. \<exists>i. in_mst ! i \<and> i < length points \<and> (i, j) \<in> (set (mst_loop k points in_mst))\<^sup>*)"
  using assms
proof (induction k arbitrary: in_mst)
  case 0
  then have "in_mst ! j" if "j < length points" for j using that by (auto simp: filter_empty_conv)
  then show ?case by auto
next
  case (Suc k)
  have "filter Not in_mst \<noteq> []" using Suc.prems(4) by auto
  then obtain j where "j < length points" "\<not> in_mst ! j" using Suc.prems(1) by (auto simp: filter_empty_conv in_set_conv_nth)
  then have "crossing in_mst (length points) (0, j)" using Suc.prems by (auto simp: crossing_def)
  then obtain e where e: "nearest_mst_edge points in_mst = Some e" using nearest_mst_edge_exists by blast
  have c: "crossing in_mst (length points) e" by (rule nearest_mst_edge_crossing [OF e])
  let ?in = "in_mst[snd e := True]"
  have k: "k = length (filter Not ?in)"
  proof -
    have "card {i. i < length in_mst \<and> \<not> ?in ! i} = card ({i. i < length in_mst \<and> \<not> in_mst ! i} - {snd e})"
      using c Suc.prems(1) by (intro arg_cong [where f = card]) (auto simp: crossing_def nth_list_update split: if_splits)
    moreover have "snd e \<in> {i. i < length in_mst \<and> \<not> in_mst ! i}" using c Suc.prems(1) by (simp add: crossing_def)
    ultimately show ?thesis using Suc.prems(4) by (simp add: length_filter_conv_card)
  qed
  have "?in \<noteq> []" using Suc.prems(2) by simp
  moreover have "?in ! 0" using Suc.prems(2,3) by (cases "snd e = 0") simp_all
  ultimately have IH: "length (mst_loop k points ?in) = k \<and> (\<forall>e\<in>set (mst_loop k points ?in). fst e < length points \<and> snd e < length points)
    \<and> (\<forall>j<length points. \<exists>i. ?in ! i \<and> i < length points \<and> (i, j) \<in> (set (mst_loop k points ?in))\<^sup>*)"
    using Suc.IH [OF _ _ _ k] Suc.prems(1) by simp
  let ?es = "mst_loop k points ?in"
  have "\<exists>i. in_mst ! i \<and> i < length points \<and> (i, j) \<in> (set (e # ?es))\<^sup>*" if jn: "j < length points" for j
  proof -
    obtain i where i: "?in ! i" "i < length points" "(i, j) \<in> (set ?es)\<^sup>*"
      using IH [THEN conjunct2, THEN conjunct2, rule_format, OF jn] by blast
    have ij: "(i, j) \<in> (set (e # ?es))\<^sup>*" using i(3) rtrancl_mono [of "set ?es" "set (e # ?es)"] by auto
    show ?thesis
    proof (cases "i = snd e")
      case True
      then have "(fst e, i) \<in> (set (e # ?es))\<^sup>*" by (intro r_into_rtrancl) simp
      then show ?thesis using ij c by (meson crossing_def rtrancl_trans)
    next
      case False
      then show ?thesis using i ij by auto
    qed
  qed
  moreover have "mst_loop (Suc k) points in_mst = e # ?es" using e by simp
  moreover have "fst e < length points" "snd e < length points" using c by (simp_all add: crossing_def)
  ultimately show ?case using IH by (cases e) (simp del: mst_loop.simps)
qed

lemma mst_spanning:
  assumes "points \<noteq> []"
  shows "length (mst points) = length points - 1 \<and> (\<forall>e\<in>set (mst points). fst e < length points \<and> snd e < length points)
    \<and> (\<forall>j<length points. (0, j) \<in> (set (mst points))\<^sup>*)"
proof (cases "length points < 2")
  case True
  then show ?thesis using assms by (cases points) (auto simp: mst_def)
next
  case False
  let ?in = "(replicate (length points) False)[0 := True]"
  obtain x xs where p: "points = x # xs" using assms by (cases points) auto
  have i: "?in = True # replicate (length xs) False" by (simp add: p)
  have k: "length points - 1 = length (filter Not ?in)" by (simp add: i p)
  have zero: "?in ! i \<Longrightarrow> i < length points \<Longrightarrow> i = 0" for i by (cases i) (auto simp: i p)
  have m: "mst points = mst_loop (length points - 1) points ?in" using False by (simp add: mst_def)
  have "length ?in = length points" "?in \<noteq> []" "?in ! 0" by (simp_all add: i p)
  note span = mst_loop_spans [OF this k, folded m]
  have "(0, j) \<in> (set (mst points))\<^sup>*" if jn: "j < length points" for j
  proof -
    obtain i where "?in ! i" "i < length points" "(i, j) \<in> (set (mst points))\<^sup>*"
      using span [THEN conjunct2, THEN conjunct2, rule_format, OF jn] by blast
    then show ?thesis using zero by blast
  qed
  then show ?thesis using span by auto
qed

text \<open>
  The edges chosen for the terminals of a net span them: one edge fewer than terminals,
  all between terminals, and every terminal is reached from the first along them.
\<close>

theorem mst_spans:
  assumes "points \<noteq> []"
  shows "length (mst points) = length points - 1 \<and> (\<forall>e\<in>set (mst points). fst e < length points \<and> snd e < length points)
    \<and> (\<forall>j<length points. (0, j) \<in> (set (mst points))\<^sup>*)"
  using assms by (rule mst_spanning)

section \<open>Simplified paths cover the same cells\<close>

definition seg_cells :: "grid_pos \<Rightarrow> grid_pos \<Rightarrow> grid_pos set" where
  "seg_cells p q = (\<lambda>c. mk_pos (fst c) (snd c) (gp_layer p)) ` set (the (line_cells p q))"

fun cover :: "grid_pos list \<Rightarrow> grid_pos set" where
  "cover (p # q # rest) = seg_cells p q \<union> cover (q # rest)"
| "cover _ = {}"

definition planar_step :: "grid_pos \<Rightarrow> grid_pos \<Rightarrow> int \<Rightarrow> int \<Rightarrow> bool" where
  "planar_step p q dx dy = (q = shifted p dx dy \<and> dx \<in> {- 1, 0, 1} \<and> dy \<in> {- 1, 0, 1} \<and> (dx, dy) \<noteq> (0, 0))"

definition via_step :: "grid_pos \<Rightarrow> grid_pos \<Rightarrow> bool" where
  "via_step p q = (gp_x q = gp_x p \<and> gp_y q = gp_y p \<and> gp_layer q \<noteq> gp_layer p)"

definition unit_step :: "grid_pos \<Rightarrow> grid_pos \<Rightarrow> bool" where
  "unit_step p q = ((\<exists>dx dy. planar_step p q dx dy) \<or> via_step p q)"

lemma direction_unit:
  "d \<in> set DIRECTIONS_8 \<Longrightarrow> fst d \<in> {- 1, 0, 1} \<and> fst (snd d) \<in> {- 1, 0, 1} \<and> (fst d, fst (snd d)) \<noteq> (0, 0)"
  by (auto simp: DIRECTIONS_8_def)

lemma moves_unit_step: "moves r m net clear p q \<Longrightarrow> unit_step p q"
  unfolding moves_def
proof (elim disjE bexE conjE)
  fix d assume "d \<in> set DIRECTIONS_8" "q = shifted p (fst d) (fst (snd d))"
  then show "unit_step p q" using direction_unit unfolding unit_step_def planar_step_def by blast
next
  fix delta :: int assume "delta \<in> {- 1, 1}" "q = via_position p delta"
  then show "unit_step p q" by (auto simp: unit_step_def via_step_def via_position_def)
qed

text \<open>The cells of a path that its segments cover: all but a last cell entered through a via.\<close>

definition covered :: "grid_pos list \<Rightarrow> grid_pos set" where
  "covered path = (if 2 \<le> length path \<and> via_step (last (butlast path)) (last path) then set (butlast path) else set path)"

lemma seg_cells_straight:
  assumes "dx \<in> {- 1, 0, 1}" "dy \<in> {- 1, 0, 1}" "(dx, dy) \<noteq> (0, 0)" "0 \<le> k"
  shows "seg_cells s (shifted s (dx * k) (dy * k)) = (\<lambda>t. shifted s (dx * t) (dy * t)) ` {0..k}"
  using line_cells_straight [OF assms, of "shifted s (dx * k) (dy * k)" s]
  by (simp add: seg_cells_def shifted_def image_image)

lemma seg_cells_via: "via_step p q \<Longrightarrow> seg_cells p q = {p}"
  using line_cells_straight [of 1 0 0 q p] by (simp add: seg_cells_def via_step_def)

lemma shifted_shifted: "shifted (shifted p a b) c d = shifted p (a + c) (b + d)"
  by (simp add: shifted_def)

lemma shifted_0 [simp]: "shifted p 0 0 = p"
  by (simp add: shifted_def)

lemma parallel_directions:
  fixes dx dy ex ey :: int
  assumes "dx \<in> {- 1, 0, 1}" "dy \<in> {- 1, 0, 1}" "ex \<in> {- 1, 0, 1}" "ey \<in> {- 1, 0, 1}" "(dx, dy) \<noteq> (0, 0)" "(ex, ey) \<noteq> (0, 0)"
    and "dx * ey = ex * dy" "\<not> (ex = - dx \<and> ey = - dy)"
  shows "ex = dx \<and> ey = dy"
  using assms by auto

lemma collinear_same_direction:
  assumes "planar_step a b dx dy" "unit_step b c" "a \<noteq> c"
  shows "collinear_step a b c \<longleftrightarrow> planar_step b c dx dy"
proof
  assume col: "collinear_step a b c"
  then have "\<not> via_step b c" by (auto simp: collinear_step_def via_step_def)
  then obtain ex ey where e: "planar_step b c ex ey" using assms(2) by (auto simp: unit_step_def)
  have b: "b = shifted a dx dy" and c: "c = shifted b ex ey" using assms(1) e by (simp_all add: planar_step_def)
  have "dx * ey = ex * dy" using col by (simp add: collinear_step_def b c shifted_def)
  moreover have "\<not> (ex = - dx \<and> ey = - dy)" using assms(3) b c by (auto simp: shifted_shifted)
  ultimately have "ex = dx \<and> ey = dy"
    using assms(1) e unfolding planar_step_def by (intro parallel_directions) blast+
  then show "planar_step b c dx dy" using e by simp
next
  assume "planar_step b c dx dy"
  then show "collinear_step a b c" using assms(1) by (auto simp: collinear_step_def planar_step_def shifted_def)
qed

text \<open>
  A run: the segment being drawn starts at \<open>s\<close> and has reached \<open>b\<close> after \<open>k\<close> steps in one
  direction, the last from \<open>a\<close>.
\<close>

definition run_cells :: "grid_pos \<Rightarrow> int \<Rightarrow> int \<Rightarrow> int \<Rightarrow> grid_pos set" where
  "run_cells s dx dy k = (\<lambda>t. shifted s (dx * t) (dy * t)) ` {0..k}"

definition run_covers :: "grid_pos list \<Rightarrow> bool" where
  "run_covers rest = (\<forall>s k a b dx dy. distinct (a # b # rest) \<longrightarrow> successively unit_step (a # b # rest) \<longrightarrow> planar_step a b dx dy
     \<longrightarrow> 1 \<le> k \<longrightarrow> b = shifted s (dx * k) (dy * k)
     \<longrightarrow> cover (s # interior (a # b # rest) @ [last (b # rest)]) = run_cells s dx dy k \<union> covered (b # rest))"

definition path_covers :: "grid_pos list \<Rightarrow> bool" where
  "path_covers rest = (\<forall>p q. distinct (p # q # rest) \<longrightarrow> successively unit_step (p # q # rest)
     \<longrightarrow> cover (p # interior (p # q # rest) @ [last (q # rest)]) = covered (p # q # rest))"

lemma run_cells_Suc: "0 \<le> k \<Longrightarrow> run_cells s dx dy (k + 1) = insert (shifted s (dx * (k + 1)) (dy * (k + 1))) (run_cells s dx dy k)"
proof -
  assume "0 \<le> k"
  then have "{0..k + 1} = insert (k + 1) {0..k}" by auto
  then show ?thesis by (simp add: run_cells_def)
qed

lemma run_cells_one: "planar_step p q dx dy \<Longrightarrow> run_cells p dx dy 1 = {p, q}"
proof -
  assume "planar_step p q dx dy"
  then have q: "q = shifted p dx dy" by (simp add: planar_step_def)
  have "{0..1::int} = {0, 1}" by auto
  then show ?thesis by (simp add: run_cells_def q)
qed

lemma seg_cells_run:
  assumes "planar_step a b dx dy" "0 \<le> k"
  shows "seg_cells s (shifted s (dx * k) (dy * k)) = run_cells s dx dy k"
  unfolding run_cells_def by (rule seg_cells_straight) (use assms in \<open>simp_all add: planar_step_def\<close>)

lemma run_cells_end: "0 \<le> k \<Longrightarrow> shifted s (dx * k) (dy * k) \<in> run_cells s dx dy k"
  unfolding run_cells_def by (rule imageI) simp

lemma covered_Cons: "rest \<noteq> [] \<Longrightarrow> covered (b # c # rest) = insert b (covered (c # rest))"
  by (cases rest) (auto simp: covered_def)

lemma covered_hd: "rest = [] \<or> \<not> via_step b c \<or> True \<Longrightarrow> c \<in> covered (c # rest)"
  by (auto simp: covered_def)

lemma covered_pair: "\<not> via_step b c \<Longrightarrow> covered [b, c] = {b, c}"
  by (simp add: covered_def)

lemma planar_not_via: "planar_step b c dx dy \<Longrightarrow> \<not> via_step b c"
  by (auto simp: planar_step_def via_step_def shifted_def)

lemma run_Nil: "run_covers []"
  unfolding run_covers_def
proof (intro allI impI)
  fix s k a b dx dy
  assume a: "planar_step a b dx dy" "1 \<le> k" "b = shifted s (dx * k) (dy * k)"
  have "seg_cells s b = run_cells s dx dy k"
    unfolding a(3) by (rule seg_cells_run) (use a in simp_all)
  then show "cover (s # interior [a, b] @ [last [b]]) = run_cells s dx dy k \<union> covered [b]"
    using run_cells_end [of k s dx dy] a by (simp add: covered_def insert_absorb)
qed

lemma run_Cons:
  assumes "run_covers rest" "path_covers rest"
  shows "run_covers (c # rest)"
  unfolding run_covers_def
proof (intro allI impI)
  fix s k a b dx dy
  assume a: "distinct (a # b # c # rest)" "successively unit_step (a # b # c # rest)" "planar_step a b dx dy" "1 \<le> k"
    "b = shifted s (dx * k) (dy * k)"
  have u: "unit_step b c" "successively unit_step (b # c # rest)" using a(2) by simp_all
  have bk: "b \<in> run_cells s dx dy k" using run_cells_end [of k s dx dy] a(4,5) by simp
  note col = collinear_same_direction [OF a(3) u(1)]
  show "cover (s # interior (a # b # c # rest) @ [last (b # c # rest)]) = run_cells s dx dy k \<union> covered (b # c # rest)"
  proof (cases "collinear_step a b c")
    case True
    then have p: "planar_step b c dx dy" using col a(1) by auto
    have "c = shifted s (dx * (k + 1)) (dy * (k + 1))" using p a(5) by (simp add: planar_step_def shifted_shifted algebra_simps)
    moreover from this have "cover (s # interior (b # c # rest) @ [last (c # rest)]) = run_cells s dx dy (k + 1) \<union> covered (c # rest)"
      using assms(1) a(1,4) u(2) p unfolding run_covers_def by (metis add_increasing2 distinct_length_2_or_more zero_le_one)
    moreover have "insert b (covered (c # rest)) = covered (b # c # rest)"
      using covered_Cons [of rest b c] covered_pair [OF planar_not_via [OF p]] by (cases "rest = []") (auto simp: covered_def)
    ultimately show ?thesis using True bk covered_hd [of rest b c] a(4) by (auto simp: run_cells_Suc)
  next
    case False
    have "seg_cells s b = run_cells s dx dy k"
      unfolding a(5) by (rule seg_cells_run) (use a in simp_all)
    moreover have "cover (b # interior (b # c # rest) @ [last (c # rest)]) = covered (b # c # rest)"
      using assms(2) a(1) u(2) unfolding path_covers_def by (meson distinct_length_2_or_more)
    ultimately show ?thesis using False by simp
  qed
qed

lemma path_Nil: "path_covers []"
  unfolding path_covers_def
proof (intro allI impI)
  fix p q assume "distinct [p, q]" "successively unit_step [p, q]"
  then consider (via) "via_step p q" | (planar) dx dy where "planar_step p q dx dy" by (auto simp: unit_step_def)
  then show "cover (p # interior [p, q] @ [last [q]]) = covered [p, q]"
  proof cases
    case planar
    then have "q = shifted p (dx * 1) (dy * 1)" by (simp add: planar_step_def)
    then have "seg_cells p q = {p, q}" using seg_cells_run [OF planar, of 1 p] run_cells_one [OF planar] by (simp only: zero_le_one)
    then show ?thesis using covered_pair [OF planar_not_via [OF planar]] by simp
  qed (simp add: covered_def seg_cells_via)
qed

lemma path_Cons:
  assumes "run_covers (c # rest)" "path_covers rest"
  shows "path_covers (c # rest)"
  unfolding path_covers_def
proof (intro allI impI)
  fix p q assume a: "distinct (p # q # c # rest)" "successively unit_step (p # q # c # rest)"
  have cov: "covered (p # q # c # rest) = insert p (covered (q # c # rest))" by (rule covered_Cons) simp
  from a(2) consider (via) "via_step p q" | (planar) dx dy where "planar_step p q dx dy" by (auto simp: unit_step_def)
  then show "cover (p # interior (p # q # c # rest) @ [last (q # c # rest)]) = covered (p # q # c # rest)"
  proof cases
    case planar
    have "run_cells p dx dy 1 = {p, q}" by (rule run_cells_one [OF planar])
    moreover have "cover (p # interior (p # q # c # rest) @ [last (q # c # rest)]) = run_cells p dx dy 1 \<union> covered (q # c # rest)"
      by (rule assms(1) [unfolded run_covers_def, rule_format, OF a planar]) (use planar in \<open>simp_all add: planar_step_def\<close>)
    moreover have "q \<in> covered (q # c # rest)" by (auto simp: covered_def)
    ultimately show ?thesis using cov by auto
  next
    case via
    then have "\<not> collinear_step p q c" by (auto simp: via_step_def collinear_step_def)
    moreover have "cover (q # interior (q # c # rest) @ [last (c # rest)]) = covered (q # c # rest)"
      using assms(2) a unfolding path_covers_def by (metis distinct_length_2_or_more successively.simps(3))
    ultimately show ?thesis using via cov by (simp add: seg_cells_via)
  qed
qed

lemma covers: "run_covers rest \<and> path_covers rest"
  by (induction rest) (blast intro: run_Nil run_Cons path_Nil path_Cons)+

lemma simplify_path_cover:
  assumes "distinct path" "successively unit_step path" "2 \<le> length path"
  shows "cover (simplify_path path) = covered path \<and> hd (simplify_path path) = hd path \<and> last (simplify_path path) = last path"
proof -
  obtain p q rest where path: "path = p # q # rest" using assms(3) by (cases path; cases "tl path") auto
  have s: "simplify_path path = p # interior path @ [last path]"
    by (cases rest) (auto simp: simplify_path_def path)
  have "cover (p # interior path @ [last path]) = covered path"
    using covers [of rest] assms unfolding path_covers_def path by simp
  then show ?thesis unfolding s by (simp add: path del: cover.simps interior.simps)
qed

text \<open>
  C36: Simplification loses and adds nothing: the straight segments between the points it
  keeps cover exactly the cells of the path, apart from a last cell entered through a via. It
  keeps the end points.
\<close>

theorem simplify_path_exact:
  assumes "distinct path" "successively unit_step path" "2 \<le> length path"
  shows "cover (simplify_path path) = covered path \<and> hd (simplify_path path) = hd path \<and> last (simplify_path path) = last path"
  using assms by (rule simplify_path_cover)

end
