(* ===== verification/Grid_Passes.thy ===== *)
theory Grid_Passes
  imports Grid_Router
begin

text \<open>
  The passes of \<^verbatim>\<open>GridRouter\<close> over all nets: the output of a routed net, one pass in a given
  order on a fresh occupancy map, and the retries of \<^verbatim>\<open>route\<close>. The lemmas follow the ownership of
  cells through a pass, from the reservation of one line to all nets of the board.
\<close>

section \<open>Output\<close>

text \<open>\<^verbatim>\<open>round(x, 3)\<close>: the exact value is rounded half to even and the decimal converted back.\<close>

definition round3 :: "pyfloat \<Rightarrow> pyfloat" where
  "round3 x = fl (of_int (round_half_even (x * 1000)) / 1000)"

record grid_route_state =
  gs_traces :: "trace_segment list"
  gs_vias :: "via list"
  gs_layers_used :: "string set"
  gs_routed_count :: int
  gs_total_routable :: int

definition new_grid_route_state :: grid_route_state where
  "new_grid_route_state = \<lparr> gs_traces = [], gs_vias = [], gs_layers_used = {}, gs_routed_count = 0, gs_total_routable = 0 \<rparr>"

definition layer_name :: "int \<Rightarrow> string" where
  "layer_name l = ''layer_'' @ str_of_int l"

definition to_mm :: "grid_router \<Rightarrow> grid_pos \<Rightarrow> point" where
  "to_mm r p = (round3 (fl (of_int (gp_x p) * gr_resolution r)), round3 (fl (of_int (gp_y p) * gr_resolution r)))"

definition append_segment :: "grid_router \<Rightarrow> grid_route_context \<Rightarrow> grid_net_plan \<Rightarrow> grid_pos \<Rightarrow> grid_pos \<Rightarrow> grid_route_state \<Rightarrow> grid_route_state" where
  "append_segment r ctx plan p q st =
     st\<lparr> gs_layers_used := insert (layer_name (gp_layer p)) (gs_layers_used st),
         gs_traces := gs_traces st @ [\<lparr> ts_layer = layer_name (gp_layer p), ts_start = to_mm r p, ts_end = to_mm r q,
           ts_width = gnp_width_mm plan, ts_net_id = gnp_net_id plan, ts_via = False,
           ts_via_diameter = 9 / 20, ts_via_hole = 1 / 5 \<rparr>],
         gs_vias := (if gp_layer p \<noteq> gp_layer q
           then gs_vias st @ [Via5 (fst (to_mm r p)) (snd (to_mm r p)) (gc_via_pad ctx) (gc_via_hole ctx) (gnp_net_id plan)]
           else gs_vias st) \<rparr>"

fun append_path :: "grid_router \<Rightarrow> grid_route_context \<Rightarrow> grid_net_plan \<Rightarrow> grid_pos list \<Rightarrow> grid_route_state \<Rightarrow> grid_route_state" where
  "append_path r ctx plan (p # q # rest) st = append_path r ctx plan (q # rest) (append_segment r ctx plan p q st)"
| "append_path r ctx plan _ st = st"

definition append_grid_net_output :: "grid_router \<Rightarrow> grid_route_context \<Rightarrow> grid_net_plan \<Rightarrow> grid_route_state \<Rightarrow> grid_route_state" where
  "append_grid_net_output r ctx plan st = fold (append_path r ctx plan) (gnp_edge_paths plan) st"

section \<open>Passes\<close>

text \<open>
  The environment of a run: the context \<^verbatim>\<open>_prepare_route_context\<close> builds afresh for every pass
  from the same design (or the \<^verbatim>\<open>ValueError\<close> it raises), the nets in the order
  of the design, and the sum
  of the lengths of the traces (\<^verbatim>\<open>math.dist\<close> is not exact arithmetic).
\<close>

record route_run = route_env +
  rn_context :: "grid_route_context result"
  rn_nets :: "net list"
  rn_length :: "trace_segment list \<Rightarrow> pyfloat"

fun route_nets ::
  "grid_router \<Rightarrow> route_run \<Rightarrow> net list \<Rightarrow> grid_route_context \<Rightarrow> grid_route_state \<Rightarrow> string list
   \<Rightarrow> grid_route_state \<times> string list" where
  "route_nets r run [] ctx st unsuccessful = (st, unsuccessful)"
| "route_nets r run (net # pending) ctx st unsuccessful =
     (let (plan, ctx1) = plan_grid_net r run net ctx in
      if \<not> gnp_routable plan then route_nets r run pending ctx1 st unsuccessful
      else
        (let st1 = st\<lparr> gs_total_routable := gs_total_routable st + 1 \<rparr> in
         if \<not> gnp_success plan then route_nets r run pending ctx1 st1 (unsuccessful @ [net_id net])
         else route_nets r run pending ctx1
                (append_grid_net_output r ctx1 plan (st1\<lparr> gs_routed_count := gs_routed_count st1 + 1 \<rparr>)) unsuccessful))"

definition route_ordered_nets :: "grid_router \<Rightarrow> route_run \<Rightarrow> net list \<Rightarrow> (route_result \<times> string list) result" where
  "route_ordered_nets r run pending =
     rbind (rn_context run) (\<lambda>ctx.
       let (st, unsuccessful) = route_nets r run pending ctx new_grid_route_state [] in
       Inr (\<lparr> rr_traces = gs_traces st, rr_vias = gs_vias st, rr_layers_used = sorted_list_of_set (gs_layers_used st),
              rr_total_trace_length_mm = round3 (rn_length run (gs_traces st)),
              rr_net_count = gs_total_routable st, rr_routed_net_count = gs_routed_count st \<rparr>, unsuccessful))"

definition retry_order :: "net list \<Rightarrow> string list \<Rightarrow> int \<Rightarrow> net list" where
  "retry_order sorted_nets missing index =
     (let first = set missing;
          order = filter (\<lambda>net. net_id net \<in> first) sorted_nets @ filter (\<lambda>net. net_id net \<notin> first) sorted_nets
      in if index > 0 then rev order else order)"

fun ripup_passes ::
  "grid_router \<Rightarrow> route_run \<Rightarrow> net list \<Rightarrow> int list \<Rightarrow> route_result \<Rightarrow> string list \<Rightarrow> route_result result" where
  "ripup_passes r run sorted_nets [] best missing = Inr best"
| "ripup_passes r run sorted_nets (index # rest) best missing =
     rbind (route_ordered_nets r run (retry_order sorted_nets missing index)) (\<lambda>(attempt, still_missing).
       let (best1, missing1) = (if rr_routed_net_count attempt > rr_routed_net_count best then (attempt, still_missing) else (best, missing)) in
       if missing1 = [] then Inr best1 else ripup_passes r run sorted_nets rest best1 missing1)"

definition sorted_nets :: "route_run \<Rightarrow> net list" where
  "sorted_nets run = sort_key (\<lambda>net. rule_priority (re_rule run (re_net_class run net))) (rn_nets run)"

definition route :: "grid_router \<Rightarrow> route_run \<Rightarrow> route_result result" where
  "route r run =
     rbind (route_ordered_nets r run (sorted_nets run)) (\<lambda>(best, missing).
       if missing = [] \<or> gr_max_ripup_passes r = 0 then Inr best
       else ripup_passes r run (sorted_nets run) [0..gr_max_ripup_passes r - 1] best missing)"

definition block_board_edges :: "int \<Rightarrow> int \<Rightarrow> int \<Rightarrow> obstacle_map \<Rightarrow> obstacle_map result" where
  "block_board_edges gw gh n_layers m =
     fold (\<lambda>lyr acc. rbind acc (\<lambda>m.
         rbind (block_rect 0 0 (gw - 1) 0 lyr m) (\<lambda>m.
         rbind (block_rect 0 (gh - 1) (gw - 1) (gh - 1) lyr m) (\<lambda>m.
         rbind (block_rect 0 0 0 (gh - 1) lyr m) (\<lambda>m.
         block_rect (gw - 1) 0 (gw - 1) (gh - 1) lyr m)))))
       [0..n_layers - 1] (Inr m)"

section \<open>Reservation\<close>

text \<open>What a net's reservations change: cells without an owner become the net's, nothing else.\<close>

definition only_reserves :: "string \<Rightarrow> obstacle_map \<Rightarrow> obstacle_map \<Rightarrow> bool" where
  "only_reserves net m m' = (keeps_owners m m' \<and> (\<forall>p. owner m' p = owner m p \<or> owner m' p = Some net) \<and> om_cells m' = om_cells m \<and> om_pads m' = om_pads m \<and> om_pad_conflicts m' = om_pad_conflicts m)"

lemma only_reserves_refl [simp]: "only_reserves net m m"
  by (simp add: only_reserves_def)

lemma only_reserves_trans: "only_reserves net a b \<Longrightarrow> only_reserves net b c \<Longrightarrow> only_reserves net a c"
  using keeps_owners_trans [of a b c] unfolding only_reserves_def by metis

lemma only_reserves_owner: "only_reserves net m m' \<Longrightarrow> owner m p = Some n \<Longrightarrow> owner m' p = Some n"
  by (simp add: only_reserves_def keeps_owners_def)

lemma only_reserves_bounds: "only_reserves net m m' \<Longrightarrow> in_bounds m' p = in_bounds m p"
  by (auto simp: only_reserves_def keeps_owners_bounds)

text \<open>A net owns its copper with the clearance around it, within the board.\<close>

definition owns_copper :: "obstacle_map \<Rightarrow> string \<Rightarrow> int \<Rightarrow> grid_pos set \<Rightarrow> bool" where
  "owns_copper m net clear copper = (\<forall>s\<in>copper. \<forall>x. near clear s x \<longrightarrow> in_bounds m x \<longrightarrow> owner m x = Some net)"

lemma owns_copper_Un [simp]: "owns_copper m net clear (A \<union> B) \<longleftrightarrow> owns_copper m net clear A \<and> owns_copper m net clear B"
  by (auto simp: owns_copper_def)

lemma owns_copper_empty [simp]: "owns_copper m net clear {}"
  by (simp add: owns_copper_def)

lemma owns_copper_keep: "keeps_owners m m' \<Longrightarrow> owns_copper m net clear A \<Longrightarrow> owns_copper m' net clear A"
  by (simp add: owns_copper_def keeps_owners_bounds) (simp add: keeps_owners_def)

lemma block_line_error: "block_line p q r (Some n) m = Inl e \<Longrightarrow> e = clearance_reserved"
  using line_cells_total [of p q] by (auto simp: block_line_def Let_def split: if_splits)

lemma block_line_reserves:
  assumes "block_line p q r (Some n) m = Inr m'"
  shows "only_reserves n m m' \<and> owns_copper m' n r (seg_cells p q)"
proof -
  obtain cs where cs: "line_cells p q = Some cs" using line_cells_total by blast
  define res where "res = concat (map (dilated m (gp_layer p) r) cs)"
  have m': "m' = own_all n res m"
    using assms by (simp add: block_line_def cs Let_def res_def split: if_splits)
  have "owner m' x = Some n" if s: "s \<in> seg_cells p q" and x: "near r s x" "in_bounds m x" for s x
  proof -
    obtain c where "c \<in> set cs" "s = mk_pos (fst c) (snd c) (gp_layer p)"
      using s unfolding seg_cells_def cs option.sel by blast
    then have "x \<in> set res" using x unfolding res_def set_concat by (auto simp: set_dilated near_def intro!: bexI [of _ c])
    then show ?thesis by (simp add: m' owner_own_all)
  qed
  moreover have "owner m' x = owner m x \<or> owner m' x = Some n" for x by (simp add: m' owner_own_all)
  ultimately show ?thesis
    using block_line_net [OF assms] keeps_owners_bounds [of m m'] unfolding only_reserves_def owns_copper_def by blast
qed

lemma reserve_path_reserves:
  assumes "reserve_path clear net path m = Inr m'"
  shows "only_reserves net m m' \<and> owns_copper m' net clear (cover path)"
  using assms
proof (induction clear net path m arbitrary: m' rule: reserve_path.induct)
  case (1 clear net a b rest m)
  then obtain m1 where m1: "block_line a b clear (Some net) m = Inr m1" "reserve_path clear net (b # rest) m1 = Inr m'"
    by (auto simp: rbind_eq_Inr)
  then have "only_reserves net m1 m' \<and> owns_copper m' net clear (cover (b # rest))" using 1(1) by blast
  then show ?case
    using block_line_reserves [OF m1(1)] owns_copper_keep [of m1 m'] only_reserves_trans [of net m m1 m'] by (simp add: only_reserves_def)
qed simp_all

definition copper :: "grid_pos list list \<Rightarrow> grid_pos set" where
  "copper paths = (\<Union>path\<in>set paths. cover path)"

lemma copper_simps [simp]: "copper [] = {}" "copper (path # paths) = cover path \<union> copper paths"
  by (simp_all add: copper_def)

lemma route_edges_Cons:
  assumes "route_edges r positions layer clear net ((i, j) # es) m = Some (paths, m')"
  obtains path m1 rest where "astar r m (terminal positions layer i) (terminal positions layer j) (Some net) (if gr_pad_aware r then clear else 0) = Some path"
    "path \<noteq> []" "reserve_path clear net (simplify_path path) m = Inr m1" "route_edges r positions layer clear net es m1 = Some (rest, m')"
    "paths = simplify_path path # rest"
  using assms by (auto simp: Let_def split: option.splits sum.splits if_splits)

lemma route_edges_reserves:
  assumes "route_edges r positions layer clear net es m = Some (paths, m')"
  shows "only_reserves net m m' \<and> owns_copper m' net clear (copper paths)"
  using assms
proof (induction es arbitrary: m paths)
  case (Cons e es)
  obtain i j where e: "e = (i, j)" by (cases e)
  obtain path m1 rest where s: "reserve_path clear net (simplify_path path) m = Inr m1" "route_edges r positions layer clear net es m1 = Some (rest, m')"
    "paths = simplify_path path # rest"
    using route_edges_Cons Cons.prems unfolding e by metis
  have "only_reserves net m1 m' \<and> owns_copper m' net clear (copper rest)" using Cons.IH [OF s(2)] .
  then show ?case
    using reserve_path_reserves [OF s(1)] owns_copper_keep [of m1 m'] only_reserves_trans [of net m m1 m'] by (simp add: s(3) only_reserves_def)
qed simp

section \<open>Drawn paths\<close>

text \<open>A drawn path is the outline of a walk through the grid.\<close>

definition drawn :: "obstacle_map \<Rightarrow> grid_pos list \<Rightarrow> bool" where
  "drawn m path = (\<exists>walk. path = simplify_path walk \<and> walk \<noteq> [] \<and> distinct walk \<and> successively unit_step walk \<and> (\<forall>p\<in>set walk. in_bounds m p))"

lemma walk_in_bounds:
  "successively (moves r m net clear) walk \<Longrightarrow> walk \<noteq> [] \<Longrightarrow> in_bounds m (hd walk) \<Longrightarrow> \<forall>p\<in>set walk. in_bounds m p"
proof (induction walk rule: induct_list012)
  case (3 x y zs)
  then have "in_bounds m y" using moves_free is_free_bounds by fastforce
  then show ?case using 3 by simp
qed simp_all

lemma astar_drawn:
  assumes "in_bounds m start" "astar r m start goal net clear = Some path"
  shows "drawn m (simplify_path path)"
proof -
  obtain s where s: "resolve_astar_endpoint m start net = Some s" "path \<noteq> []" "hd path = s" "distinct path"
    "successively (moves r m net clear) path"
    using astar_sound [OF assms] by metis
  have "in_bounds m (hd path)" using resolve_endpoint_free [OF assms(1) s(1)] is_free_bounds s(3) by blast
  then have "\<forall>p\<in>set path. in_bounds m p" using walk_in_bounds s by blast
  moreover have "successively unit_step path" using s(5) by (rule successively_mono) (rule moves_unit_step)
  ultimately show ?thesis using s unfolding drawn_def by blast
qed

lemma cover_simplify_subset:
  assumes "walk \<noteq> []" "distinct walk" "successively unit_step walk"
  shows "cover (simplify_path walk) \<subseteq> set walk"
proof (cases "2 \<le> length walk")
  case True
  then show ?thesis
    using simplify_path_cover [OF assms(2,3)] by (auto simp: covered_def dest: in_set_butlastD split: if_splits)
next
  case False
  then obtain x where "walk = [x]" using assms(1) by (cases walk) (auto simp: Suc_le_eq)
  then show ?thesis by (simp add: simplify_path_def)
qed

lemma drawn_in_bounds: "drawn m path \<Longrightarrow> p \<in> cover path \<Longrightarrow> in_bounds m p"
  unfolding drawn_def using cover_simplify_subset by blast

lemma drawn_cong: "only_reserves net m m' \<Longrightarrow> drawn m' path = drawn m path"
  by (simp add: drawn_def only_reserves_bounds)

lemma route_edges_drawn:
  assumes "route_edges r positions layer clear net es m = Some (paths, m')"
    and "\<forall>e\<in>set es. in_bounds m (terminal positions layer (fst e))"
  shows "\<forall>path\<in>set paths. drawn m path"
  using assms
proof (induction es arbitrary: m paths)
  case (Cons e es)
  obtain i j where e: "e = (i, j)" by (cases e)
  obtain path m1 rest where s: "astar r m (terminal positions layer i) (terminal positions layer j) (Some net) (if gr_pad_aware r then clear else 0) = Some path"
    "reserve_path clear net (simplify_path path) m = Inr m1" "route_edges r positions layer clear net es m1 = Some (rest, m')"
    "paths = simplify_path path # rest"
    using route_edges_Cons Cons.prems(1) unfolding e by metis
  have keep: "only_reserves net m m1" using reserve_path_reserves [OF s(2)] by blast
  then have "\<forall>path\<in>set rest. drawn m1 path" using Cons.IH [OF s(3)] Cons.prems(2) by (simp add: only_reserves_bounds)
  moreover have "drawn m (simplify_path path)" using astar_drawn [OF _ s(1)] Cons.prems(2) by (simp add: e)
  ultimately show ?case by (simp add: s(4) drawn_cong [OF keep])
qed simp

section \<open>Terminals\<close>

text \<open>
  A terminal is anchored when no search can move it: it is free for the net, or another net has
  it and the search refuses.
\<close>

definition anchored :: "obstacle_map \<Rightarrow> string \<Rightarrow> grid_pos \<Rightarrow> bool" where
  "anchored m net p = (is_free m p (Some net) \<or> owner m p \<notin> {None, Some net})"

lemma anchored_resolve: "anchored m net p \<Longrightarrow> resolve_astar_endpoint m p (Some net) = Some s \<Longrightarrow> s = p"
  by (auto simp: anchored_def resolve_astar_endpoint_def split: if_splits)

lemma is_free_iff:
  "is_free m p (Some net) \<longleftrightarrow> in_bounds m p \<and> cell m p = 0 \<and> p \<notin> om_pad_conflicts m
     \<and> dict_get (om_pads m) p \<in> {None, Some (Some net)} \<and> owner m p \<in> {None, Some net}"
  by (auto simp: is_free_def split: option.splits)

text \<open>Reservations for a net keep its anchors.\<close>

lemma anchored_only_reserves:
  assumes "only_reserves net m m'" "anchored m net p"
  shows "anchored m' net p"
proof -
  have "cell m' p = cell m p" using assms(1) by (simp add: only_reserves_def cell_def)
  moreover have "owner m' p = owner m p \<or> owner m' p = Some net \<and> owner m p = None"
    using assms(1) only_reserves_owner [OF assms(1), of p] unfolding only_reserves_def by (cases "owner m p") metis+
  ultimately show ?thesis
    using assms(2) only_reserves_bounds [OF assms(1)] assms(1) unfolding anchored_def is_free_iff only_reserves_def by auto
qed

lemma route_edges_ends:
  assumes "route_edges r positions layer clear net es m = Some (paths, m')"
    and "\<forall>e\<in>set es. in_bounds m (terminal positions layer (fst e))"
    and "\<forall>e\<in>set es. gr_pad_aware r \<or> anchored m net (terminal positions layer (fst e)) \<and> anchored m net (terminal positions layer (snd e))"
  shows "map (\<lambda>path. (hd path, last path)) paths = map (\<lambda>e. (terminal positions layer (fst e), terminal positions layer (snd e))) es"
  using assms
proof (induction es arbitrary: m paths)
  case (Cons e es)
  let ?t = "terminal positions layer"
  obtain i j where e: "e = (i, j)" by (cases e)
  obtain path m1 rest where s: "astar r m (?t i) (?t j) (Some net) (if gr_pad_aware r then clear else 0) = Some path"
    "reserve_path clear net (simplify_path path) m = Inr m1" "route_edges r positions layer clear net es m1 = Some (rest, m')"
    "paths = simplify_path path # rest"
    using route_edges_Cons Cons.prems(1) unfolding e by metis
  have b: "in_bounds m (?t i)" using Cons.prems(2) by (simp add: e)
  obtain a g where a: "resolve_astar_endpoint m (?t i) (Some net) = Some a" "resolve_astar_endpoint m (?t j) (Some net) = Some g"
    "gr_pad_aware r \<longrightarrow> is_free m (?t i) (Some net) \<and> is_free m (?t j) (Some net)" "path \<noteq> []" "hd path = a" "last path = g"
    using astar_sound [OF b s(1)] by metis
  have "anchored m net (?t i)" "anchored m net (?t j)" using Cons.prems(3) a(3) by (auto simp: e anchored_def)
  then have "hd path = ?t i" "last path = ?t j" using anchored_resolve a by blast+
  then have "hd (simplify_path path) = ?t i" "last (simplify_path path) = ?t j" using a(4) by (simp_all add: simplify_path_def)
  moreover have keep: "only_reserves net m m1" using reserve_path_reserves [OF s(2)] by blast
  have "map (\<lambda>path. (hd path, last path)) rest = map (\<lambda>e. (?t (fst e), ?t (snd e))) es"
    by (rule Cons.IH [OF s(3)]) (use Cons.prems(2,3) anchored_only_reserves [OF keep] in \<open>auto simp: only_reserves_bounds [OF keep]\<close>)
  ultimately show ?case by (simp add: s(4) e)
qed simp

section \<open>Opened end points\<close>

definition no_pads :: "obstacle_map \<Rightarrow> bool" where
  "no_pads m = (om_pads m = [] \<and> om_pad_conflicts m = {})"

definition opens_for :: "obstacle_map \<Rightarrow> obstacle_map \<Rightarrow> bool" where
  "opens_for m m' = (keeps_owners m m' \<and> om_wf m' \<and> om_pads m' = om_pads m \<and> om_pad_conflicts m' = om_pad_conflicts m)"

lemma opens_for_trans: "opens_for a b \<Longrightarrow> opens_for b c \<Longrightarrow> opens_for a c"
  using keeps_owners_trans [of a b c] by (simp add: opens_for_def)

lemma opens_for_no_pads: "opens_for m m' \<Longrightarrow> no_pads m \<Longrightarrow> no_pads m'"
  by (simp add: opens_for_def no_pads_def)

lemma om_wf_copper [simp]: "om_wf (m\<lparr> om_copper := c \<rparr>) = om_wf m"
  by (simp add: om_wf_def)

lemma open_for_net_opens: "om_wf m \<Longrightarrow> opens_for m (open_for_net p net m)"
  using open_for_net_owners [of m p net] by (auto simp: opens_for_def open_for_net_def unblock_def set_cell_wf)

lemma cell_copper [simp]: "cell (m\<lparr> om_copper := c \<rparr>) p = cell m p"
  by (simp add: cell_def)

lemma in_bounds_copper [simp]: "in_bounds (m\<lparr> om_copper := c \<rparr>) p = in_bounds m p"
  by (simp add: in_bounds_def)

lemma open_for_net_anchors:
  assumes "om_wf m" "no_pads m" "in_bounds m p" "p = q \<or> anchored m net p"
  shows "anchored (open_for_net q net m) net p"
proof (cases "in_bounds m q \<and> owner m q \<in> {None, Some net}")
  case True
  then have e: "open_for_net q net m = (set_cell q 0 m)\<lparr> om_copper := dict_set q net (om_copper m) \<rparr>"
    using assms(2) by (simp add: open_for_net_def no_pads_def unblock_def dict_get_def)
  have o: "owner (open_for_net q net m) p = (if p = q then Some net else owner m p)"
    unfolding e by (simp add: owner_def pydict.get_put)
  have c: "cell (open_for_net q net m) p = (if p = q then 0 else cell m p)"
    unfolding e using cell_set_cell [OF assms(1) _ assms(3), of q 0] True by simp
  have b: "in_bounds (open_for_net q net m) p" unfolding e using assms(3) by simp
  have n: "om_pads (open_for_net q net m) = om_pads m" "om_pad_conflicts (open_for_net q net m) = om_pad_conflicts m"
    unfolding e by simp_all
  show ?thesis using assms(2-4) unfolding anchored_def is_free_iff o c n no_pads_def using b by (auto simp: dict_get_def)
next
  case False
  then show ?thesis using assms by (auto simp: open_for_net_def anchored_def)
qed

lemma fold_nested: "fold (\<lambda>y. fold (f y) xs) ys m = fold (\<lambda>(y, x). f y x) (List.product ys xs) m"
  by (induction ys arbitrary: m) (simp_all add: fold_map comp_def)

definition open_probe :: "grid_pos \<Rightarrow> string \<Rightarrow> int \<times> int \<Rightarrow> obstacle_map \<Rightarrow> obstacle_map" where
  "open_probe p net d m =
     (let probe = mk_pos (gp_x p + snd d) (gp_y p + fst d) (gp_layer p) in
      if 0 < gp_x probe \<and> gp_x probe < om_width m - 1 \<and> 0 < gp_y probe \<and> gp_y probe < om_height m - 1
      then open_for_net probe net m else m)"

lemma unblock_endpoint_probes:
  "unblock_endpoint p radius (Some net) m = fold (open_probe p net) (List.product [- radius..radius] [- radius..radius]) m"
  unfolding unblock_endpoint_def fold_nested by (rule fold_cong) (auto simp: open_probe_def fun_eq_iff)

lemma opens_for_refl: "om_wf m \<Longrightarrow> opens_for m m"
  by (simp add: opens_for_def)

lemma open_probe_opens: "om_wf m \<Longrightarrow> opens_for m (open_probe p net d m)"
  by (simp add: open_probe_def Let_def open_for_net_opens opens_for_refl)

lemma open_probe_anchors: "om_wf m \<Longrightarrow> no_pads m \<Longrightarrow> in_bounds m q \<Longrightarrow> anchored m net q \<Longrightarrow> anchored (open_probe p net d m) net q"
  by (simp add: open_probe_def Let_def open_for_net_anchors)

text \<open>What a sequence of openings keeps, and that an anchor once made stays.\<close>

lemma fold_opens:
  assumes "\<And>d m. om_wf m \<Longrightarrow> opens_for m (step d m)"
  shows "om_wf m \<Longrightarrow> opens_for m (fold step ds m)"
proof (induction ds arbitrary: m)
  case (Cons d ds)
  then show ?case using assms [of m d] opens_for_trans [of m "step d m"] by (auto simp: opens_for_def)
qed (simp add: opens_for_refl)

lemma fold_anchors:
  assumes opens: "\<And>d m. om_wf m \<Longrightarrow> opens_for m (step d m)"
    and keep: "\<And>d m. om_wf m \<Longrightarrow> no_pads m \<Longrightarrow> in_bounds m q \<Longrightarrow> anchored m net q \<Longrightarrow> anchored (step d m) net q"
  shows "om_wf m \<Longrightarrow> no_pads m \<Longrightarrow> in_bounds m q \<Longrightarrow> anchored m net q \<Longrightarrow> anchored (fold step ds m) net q"
proof (induction ds arbitrary: m)
  case (Cons d ds)
  have o: "opens_for m (step d m)" by (rule opens) (rule Cons.prems)
  then have "om_wf (step d m)" "no_pads (step d m)" "in_bounds (step d m) q"
    using Cons.prems opens_for_no_pads keeps_owners_bounds [of m "step d m"] by (simp_all add: opens_for_def)
  then show ?case using Cons.IH keep Cons.prems by simp
qed simp

lemma fold_makes_anchor:
  assumes opens: "\<And>d m. om_wf m \<Longrightarrow> opens_for m (step d m)"
    and keep: "\<And>d m. om_wf m \<Longrightarrow> no_pads m \<Longrightarrow> in_bounds m q \<Longrightarrow> anchored m net q \<Longrightarrow> anchored (step d m) net q"
    and make: "\<And>m'. opens_for m m' \<Longrightarrow> no_pads m' \<Longrightarrow> in_bounds m' q \<Longrightarrow> anchored (step d m') net q"
    and "om_wf m" "no_pads m" "in_bounds m q" "d \<in> set ds"
  shows "anchored (fold step ds m) net q"
proof -
  obtain us vs where ds: "ds = us @ d # vs" using assms(7) split_list by fast
  define m1 where "m1 = fold step us m"
  have o1: "opens_for m m1" unfolding m1_def by (rule fold_opens [OF opens assms(4)])
  then have m1: "om_wf m1" "no_pads m1" "in_bounds m1 q"
    using assms(5,6) opens_for_no_pads keeps_owners_bounds [of m m1] by (simp_all add: opens_for_def)
  have a: "anchored (step d m1) net q" by (rule make [OF o1 m1(2,3)])
  have "opens_for m1 (step d m1)" by (rule opens [OF m1(1)])
  then have "om_wf (step d m1)" "no_pads (step d m1)" "in_bounds (step d m1) q"
    using m1(2,3) opens_for_no_pads keeps_owners_bounds [of m1 "step d m1"] by (simp_all add: opens_for_def)
  then have "anchored (fold step vs (step d m1)) net q" using a opens keep by (intro fold_anchors [of step q net]) simp_all
  then show ?thesis by (simp add: ds m1_def)
qed

lemma unblock_endpoint_opens: "om_wf m \<Longrightarrow> opens_for m (unblock_endpoint p radius (Some net) m)"
  unfolding unblock_endpoint_probes by (rule fold_opens) (rule open_probe_opens)

lemma unblock_endpoint_keeps_anchor:
  "om_wf m \<Longrightarrow> no_pads m \<Longrightarrow> in_bounds m q \<Longrightarrow> anchored m net q \<Longrightarrow> anchored (unblock_endpoint p radius (Some net) m) net q"
  unfolding unblock_endpoint_probes by (rule fold_anchors [OF open_probe_opens open_probe_anchors])

definition interior_pos :: "obstacle_map \<Rightarrow> grid_pos \<Rightarrow> bool" where
  "interior_pos m p = (in_bounds m p \<and> 0 < gp_x p \<and> gp_x p < om_width m - 1 \<and> 0 < gp_y p \<and> gp_y p < om_height m - 1)"

lemma unblock_endpoint_anchors:
  assumes "om_wf m" "no_pads m" "interior_pos m p" "0 \<le> radius"
  shows "anchored (unblock_endpoint p radius (Some net) m) net p"
  unfolding unblock_endpoint_probes
proof (rule fold_makes_anchor [OF open_probe_opens open_probe_anchors])
  show "(0, 0) \<in> set (List.product [- radius..radius] [- radius..radius])" using assms(4) by simp
  show "anchored (open_probe p net (0, 0) m') net p" if "opens_for m m'" "no_pads m'" "in_bounds m' p" for m'
    using that assms(3) open_for_net_anchors [of m' p p net]
    by (simp add: open_probe_def interior_pos_def opens_for_def keeps_owners_def)
qed (use assms in \<open>simp_all add: interior_pos_def\<close>)

lemma opened_terminals:
  fixes positions :: "(int \<times> int) list" and layer radius :: int and net :: string
  defines "opened \<equiv> fold (\<lambda>(gx, gy). unblock_endpoint (mk_pos gx gy layer) radius (Some net)) positions"
  assumes "om_wf m" "no_pads m" "0 \<le> radius" "\<forall>g\<in>set positions. interior_pos m (mk_pos (fst g) (snd g) layer)"
  shows "opens_for m (opened m) \<and> (\<forall>g\<in>set positions. anchored (opened m) net (mk_pos (fst g) (snd g) layer))"
proof -
  let ?step = "\<lambda>(gx, gy). unblock_endpoint (mk_pos gx gy layer) radius (Some net)"
  have o: "opens_for m' (?step d m')" if "om_wf m'" for d m' using that by (cases d) (simp add: unblock_endpoint_opens)
  have k: "anchored (?step d m') net q" if "om_wf m'" "no_pads m'" "in_bounds m' q" "anchored m' net q" for d m' q
    using that by (cases d) (simp add: unblock_endpoint_keeps_anchor)
  have "anchored (opened m) net (mk_pos (fst g) (snd g) layer)" if g: "g \<in> set positions" for g
    unfolding opened_def
  proof (rule fold_makes_anchor [OF o k _ assms(2,3) _ g])
    show "in_bounds m (mk_pos (fst g) (snd g) layer)" using assms(5) g by (simp add: interior_pos_def)
    show "anchored (?step g m') net (mk_pos (fst g) (snd g) layer)"
      if m': "opens_for m m'" "no_pads m'" "in_bounds m' (mk_pos (fst g) (snd g) layer)" for m'
    proof -
      have "interior_pos m' (mk_pos (fst g) (snd g) layer)"
        using m' assms(5) g by (auto simp: interior_pos_def opens_for_def keeps_owners_def)
      then show ?thesis using m' assms(4) unblock_endpoint_anchors [of m' _ radius net] by (simp add: case_prod_beta opens_for_def)
    qed
  qed
  moreover have "opens_for m (opened m)" unfolding opened_def by (rule fold_opens [OF o assms(2)])
  ultimately show ?thesis by blast
qed

section \<open>One net\<close>

text \<open>What the preparation of a context guarantees, and every net keeps.\<close>

definition ctx_ok :: "grid_router \<Rightarrow> grid_route_context \<Rightarrow> bool" where
  "ctx_ok r ctx = (om_wf (gc_obstacles ctx) \<and> (gr_pad_aware r \<or> no_pads (gc_obstacles ctx))
     \<and> gc_grid_w ctx = om_width (gc_obstacles ctx) \<and> gc_grid_h ctx = om_height (gc_obstacles ctx)
     \<and> gc_num_layers ctx = om_layers (gc_obstacles ctx) \<and> 3 \<le> gc_grid_w ctx \<and> 3 \<le> gc_grid_h ctx \<and> 1 \<le> gc_num_layers ctx)"

abbreviation net_rule :: "'a route_env_scheme \<Rightarrow> net \<Rightarrow> routing_rule" where
  "net_rule env net \<equiv> re_rule env (re_net_class env net)"

abbreviation net_clearance :: "grid_router \<Rightarrow> 'a route_env_scheme \<Rightarrow> net \<Rightarrow> int" where
  "net_clearance r env net \<equiv> clearance_cells r (net_rule env net)"

abbreviation net_positions :: "grid_router \<Rightarrow> 'a route_env_scheme \<Rightarrow> net \<Rightarrow> grid_route_context \<Rightarrow> (int \<times> int) list" where
  "net_positions r env net ctx \<equiv> map (\<lambda>p. to_grid_point r p ctx) (re_route_points env net)"

lemma layer_for_net_class_range: "1 \<le> n \<Longrightarrow> layer_for_net_class c n < n"
  by (cases c) auto

lemma accessible_layers_subset: "accessible_layers env nds acc = Some acc' \<Longrightarrow> acc' \<subseteq> acc"
  by (induction nds arbitrary: acc) (fastforce split: option.splits)+

lemma pad_aware_layer_range:
  assumes "pad_aware_layer r env net ctx grid_positions layer = Some l" "0 \<le> layer" "layer < gc_num_layers ctx"
  shows "0 \<le> l \<and> l < gc_num_layers ctx"
proof -
  obtain acc where a: "accessible_layers env (net_nodes net) (set [0..gc_num_layers ctx - 1]) = Some acc" "acc \<noteq> {}"
    "l = (if layer \<notin> acc then Min acc else layer)"
    using assms(1) by (auto simp: pad_aware_layer_def split: option.splits if_splits)
  have sub: "acc \<subseteq> {0..gc_num_layers ctx - 1}" using accessible_layers_subset [OF a(1)] by simp
  then have "Min acc \<in> acc" using a(2) finite_subset by (intro Min_in) blast+
  then show ?thesis using sub a(3) assms(2,3) by (auto split: if_splits)
qed

lemma plan_grid_net_cases:
  assumes "plan_grid_net r env net ctx = (plan, ctx')" "1 \<le> gc_num_layers ctx"
  obtains (none) "\<not> gnp_success plan" "ctx' = ctx"
  | (routed) layer where "0 \<le> layer" "layer < gc_num_layers ctx" "2 \<le> length (re_route_points env net)"
      "commit_net_routes r net (net_rule env net) (net_positions r env net ctx) layer (net_clearance r env net) ctx = (plan, ctx')"
proof -
  define layer where "layer = layer_for_net_class (re_net_class env net) (gc_num_layers ctx)"
  have l: "layer < gc_num_layers ctx" unfolding layer_def by (rule layer_for_net_class_range [OF assms(2)])
  show ?thesis
  proof (cases "layer < 0 \<or> length (re_route_points env net) < 2")
    case True
    then have "\<not> gnp_success plan \<and> ctx' = ctx"
      using assms(1) by (auto simp: plan_grid_net_def layer_def [symmetric] no_plan_def Let_def split: if_splits)
    then show ?thesis using none by blast
  next
    case False
    then have p: "(if gr_pad_aware r then case pad_aware_layer r env net ctx (net_positions r env net ctx) layer of
          None \<Rightarrow> (no_plan True (net_id net), ctx)
        | Some l \<Rightarrow> commit_net_routes r net (net_rule env net) (net_positions r env net ctx) l (net_clearance r env net) ctx
      else commit_net_routes r net (net_rule env net) (net_positions r env net ctx) layer (net_clearance r env net) ctx) = (plan, ctx')"
      using assms(1) unfolding plan_grid_net_def Let_def layer_def [symmetric] by simp
    show ?thesis
    proof (cases "gr_pad_aware r")
      case False
      then show ?thesis using p routed [of layer] \<open>\<not> (layer < 0 \<or> _)\<close> l by simp
    next
      case True
      show ?thesis
      proof (cases "pad_aware_layer r env net ctx (net_positions r env net ctx) layer")
        case None
        then show ?thesis using p none \<open>gr_pad_aware r\<close> by (auto simp: no_plan_def)
      next
        case (Some k)
        then have "0 \<le> k \<and> k < gc_num_layers ctx" using pad_aware_layer_range [of r env net ctx _ layer k] False l by simp
        then show ?thesis using p routed [of k] Some \<open>gr_pad_aware r\<close> \<open>\<not> (layer < 0 \<or> _)\<close> by simp
      qed
    qed
  qed
qed

lemma only_reserves_wf: "only_reserves net m m' \<Longrightarrow> om_wf m \<Longrightarrow> om_wf m'"
  by (simp add: only_reserves_def keeps_owners_def om_wf_def)

lemma to_grid_point_interior:
  assumes "ctx_ok r ctx" "0 \<le> layer" "layer < gc_num_layers ctx"
  shows "interior_pos (gc_obstacles ctx) (mk_pos (fst (to_grid_point r p ctx)) (snd (to_grid_point r p ctx)) layer)"
  using assms by (auto simp: ctx_ok_def interior_pos_def in_bounds_def to_grid_point_def)

text \<open>The paths of a routed net, on the map with its end points opened.\<close>

lemma commit_net_routes_success:
  assumes "commit_net_routes r net rule positions layer clear ctx = (plan, ctx')" "gnp_success plan"
    and "ctx_ok r ctx" "0 \<le> layer" "layer < gc_num_layers ctx" "1 \<le> clear"
    and "\<forall>g\<in>set positions. interior_pos (gc_obstacles ctx) (mk_pos (fst g) (snd g) layer)"
  obtains opened m where "opens_for (gc_obstacles ctx) opened" "ctx' = ctx\<lparr> gc_obstacles := m \<rparr>"
    "route_edges r positions layer clear (net_id net) (mst positions) opened = Some (gnp_edge_paths plan, m)"
    "gr_pad_aware r \<or> (\<forall>g\<in>set positions. anchored opened (net_id net) (mk_pos (fst g) (snd g) layer))"
proof -
  define opened where "opened = (if gr_pad_aware r then gc_obstacles ctx
    else fold (\<lambda>(gx, gy). unblock_endpoint (mk_pos gx gy layer) (max clear 1) (Some (net_id net))) positions (gc_obstacles ctx))"
  obtain paths m where "route_mst_paths r opened positions layer clear (net_id net) = Some (paths, m)"
    "gnp_edge_paths plan = paths" "ctx' = ctx\<lparr> gc_obstacles := m \<rparr>"
    using assms(1,2) unfolding commit_net_routes_def Let_def clone_eq opened_def [symmetric] by (auto split: option.splits)
  moreover have "opens_for (gc_obstacles ctx) opened \<and> (gr_pad_aware r \<or> (\<forall>g\<in>set positions. anchored opened (net_id net) (mk_pos (fst g) (snd g) layer)))"
  proof (cases "gr_pad_aware r")
    case True
    then show ?thesis using assms(3) by (simp add: opened_def ctx_ok_def opens_for_refl)
  next
    case False
    then show ?thesis
      using opened_terminals [of "gc_obstacles ctx" "max clear 1" positions layer "net_id net"] assms(3,6,7)
      by (simp add: opened_def ctx_ok_def)
  qed
  ultimately show ?thesis using that [of opened m] unfolding route_mst_paths_def by blast
qed

lemma terminal_nth: "i < length positions \<Longrightarrow> \<forall>g\<in>set positions. P (mk_pos (fst g) (snd g) layer) \<Longrightarrow> P (terminal positions layer i)"
  by (simp add: terminal_def)

definition terminals_joined :: "grid_pos list list \<Rightarrow> (int \<times> int) list \<Rightarrow> int \<Rightarrow> bool" where
  "terminals_joined paths positions layer =
     (\<forall>j<length positions. (terminal positions layer 0, terminal positions layer j) \<in> ((\<lambda>path. (hd path, last path)) ` set paths)\<^sup>*)"

lemma rtrancl_image: "(x, y) \<in> R\<^sup>* \<Longrightarrow> (f x, f y) \<in> ((\<lambda>e. (f (fst e), f (snd e))) ` R)\<^sup>*"
proof (induction rule: rtrancl_induct)
  case (step y z)
  have "(f y, f z) \<in> (\<lambda>e. (f (fst e), f (snd e))) ` R" by (rule image_eqI [OF _ step.hyps(2)]) simp
  then show ?case by (rule rtrancl_into_rtrancl [OF step.IH])
qed simp

lemma joined_by_edges:
  assumes "positions \<noteq> []"
    and "map (\<lambda>path. (hd path, last path)) paths = map (\<lambda>e. (terminal positions layer (fst e), terminal positions layer (snd e))) (mst positions)"
  shows "terminals_joined paths positions layer"
  unfolding terminals_joined_def
proof (intro allI impI)
  fix j assume "j < length positions"
  then have "(0, j) \<in> (set (mst positions))\<^sup>*" using mst_spanning [OF assms(1)] by blast
  moreover have "(\<lambda>path. (hd path, last path)) ` set paths = (\<lambda>e. (terminal positions layer (fst e), terminal positions layer (snd e))) ` set (mst positions)"
    using arg_cong [OF assms(2), of set] by simp
  ultimately show "(terminal positions layer 0, terminal positions layer j) \<in> ((\<lambda>path. (hd path, last path)) ` set paths)\<^sup>*"
    using rtrancl_image [of 0 j _ "terminal positions layer"] by simp
qed

lemma plan_routes:
  assumes "plan_grid_net r env net ctx = (plan, ctx')" "ctx_ok r ctx" "gnp_success plan"
  shows "ctx_ok r ctx' \<and> keeps_owners (gc_obstacles ctx) (gc_obstacles ctx')
    \<and> owns_copper (gc_obstacles ctx') (net_id net) (net_clearance r env net) (copper (gnp_edge_paths plan))
    \<and> (\<forall>path\<in>set (gnp_edge_paths plan). drawn (gc_obstacles ctx) path)
    \<and> (\<exists>layer. 0 \<le> layer \<and> layer < gc_num_layers ctx \<and> terminals_joined (gnp_edge_paths plan) (net_positions r env net ctx) layer)"
proof -
  have "1 \<le> gc_num_layers ctx" using assms(2) by (simp add: ctx_ok_def)
  with assms(1) obtain layer where l: "0 \<le> layer" "layer < gc_num_layers ctx" "2 \<le> length (re_route_points env net)"
    and c: "commit_net_routes r net (net_rule env net) (net_positions r env net ctx) layer (net_clearance r env net) ctx = (plan, ctx')"
    using plan_grid_net_cases assms(3) by metis
  let ?pos = "net_positions r env net ctx" and ?clear = "net_clearance r env net"
  have inside: "\<forall>g\<in>set ?pos. interior_pos (gc_obstacles ctx) (mk_pos (fst g) (snd g) layer)"
    using to_grid_point_interior [OF assms(2) l(1,2)] by simp
  have clear: "1 \<le> ?clear" by (simp add: clearance_cells_def)
  obtain opened m where o: "opens_for (gc_obstacles ctx) opened" "ctx' = ctx\<lparr> gc_obstacles := m \<rparr>"
    and e: "route_edges r ?pos layer ?clear (net_id net) (mst ?pos) opened = Some (gnp_edge_paths plan, m)"
    and a: "gr_pad_aware r \<or> (\<forall>g\<in>set ?pos. anchored opened (net_id net) (mk_pos (fst g) (snd g) layer))"
    using commit_net_routes_success [OF c assms(3,2) l(1,2) clear inside] .
  have ne: "?pos \<noteq> []" using l(3) by auto
  have reserve: "only_reserves (net_id net) opened m \<and> owns_copper m (net_id net) ?clear (copper (gnp_edge_paths plan))"
    by (rule route_edges_reserves [OF e])
  have bounds: "in_bounds opened p = in_bounds (gc_obstacles ctx) p" for p
    using o(1) keeps_owners_bounds by (auto simp: opens_for_def)
  have idx: "fst d < length ?pos \<and> snd d < length ?pos" if "d \<in> set (mst ?pos)" for d
    using mst_spanning [OF ne] that by blast
  have tb: "\<forall>d\<in>set (mst ?pos). in_bounds opened (terminal ?pos layer (fst d))"
    using idx terminal_nth [of _ ?pos "in_bounds opened" layer] inside bounds by (simp add: interior_pos_def)
  have ta: "\<forall>d\<in>set (mst ?pos). gr_pad_aware r \<or> anchored opened (net_id net) (terminal ?pos layer (fst d)) \<and> anchored opened (net_id net) (terminal ?pos layer (snd d))"
    using idx a terminal_nth [of _ ?pos "anchored opened (net_id net)" layer] by blast
  have joined: "terminals_joined (gnp_edge_paths plan) ?pos layer" by (rule joined_by_edges [OF ne route_edges_ends [OF e tb ta]])
  have "\<forall>path\<in>set (gnp_edge_paths plan). drawn opened path" by (rule route_edges_drawn [OF e tb])
  then have drawn: "\<forall>path\<in>set (gnp_edge_paths plan). drawn (gc_obstacles ctx) path" by (simp add: drawn_def bounds)
  have keep: "keeps_owners (gc_obstacles ctx) m" using o(1) reserve keeps_owners_trans by (auto simp: opens_for_def only_reserves_def)
  moreover have "om_wf m" using reserve only_reserves_wf o(1) by (auto simp: opens_for_def)
  moreover have "no_pads m" if "no_pads (gc_obstacles ctx)"
    using opens_for_no_pads [OF o(1) that] reserve by (simp add: only_reserves_def no_pads_def)
  ultimately have "ctx_ok r ctx'" using assms(2) o(2) by (auto simp: ctx_ok_def keeps_owners_def)
  then show ?thesis using keep reserve joined drawn l o(2) by auto
qed

text \<open>A net that is not routed leaves the context as it was.\<close>

lemma plan_fails:
  assumes "plan_grid_net r env net ctx = (plan, ctx')" "1 \<le> gc_num_layers ctx" "\<not> gnp_success plan"
  shows "ctx' = ctx"
  using assms(1,2)
proof (cases rule: plan_grid_net_cases)
  case (routed layer)
  then show ?thesis using assms(3) by (auto simp: commit_net_routes_def Let_def split: option.splits)
qed

section \<open>All nets of a pass\<close>

text \<open>The plans of a pass, in order, and the context after it.\<close>

fun plan_nets :: "grid_router \<Rightarrow> 'a route_env_scheme \<Rightarrow> net list \<Rightarrow> grid_route_context \<Rightarrow> (net \<times> grid_net_plan) list \<times> grid_route_context" where
  "plan_nets r env [] ctx = ([], ctx)"
| "plan_nets r env (net # pending) ctx =
     (let (plan, ctx1) = plan_grid_net r env net ctx; (plans, ctx2) = plan_nets r env pending ctx1 in ((net, plan) # plans, ctx2))"

lemma plan_nets_Cons:
  assumes "plan_nets r env (net # pending) ctx = (plans, ctx2)"
  obtains plan ctx1 rest where "plan_grid_net r env net ctx = (plan, ctx1)" "plan_nets r env pending ctx1 = (rest, ctx2)" "plans = (net, plan) # rest"
  using assms by (auto simp: Let_def split: prod.splits)

lemma plan_step:
  assumes "plan_grid_net r env net ctx = (plan, ctx1)" "ctx_ok r ctx"
  shows "ctx_ok r ctx1 \<and> keeps_owners (gc_obstacles ctx) (gc_obstacles ctx1)"
  using plan_routes [OF assms] plan_fails [OF assms(1)] assms(2) by (cases "gnp_success plan") (auto simp: ctx_ok_def)

definition routed_in :: "grid_router \<Rightarrow> 'a route_env_scheme \<Rightarrow> obstacle_map \<Rightarrow> net \<Rightarrow> grid_net_plan \<Rightarrow> bool" where
  "routed_in r env m net plan = (gnp_success plan \<longrightarrow>
     owns_copper m (net_id net) (net_clearance r env net) (copper (gnp_edge_paths plan))
     \<and> (\<forall>x\<in>copper (gnp_edge_paths plan). in_bounds m x))"

lemma routed_in_keep: "keeps_owners m m' \<Longrightarrow> routed_in r env m net plan \<Longrightarrow> routed_in r env m' net plan"
  using owns_copper_keep by (auto simp: routed_in_def keeps_owners_bounds)

lemma plan_routed_in:
  assumes "plan_grid_net r env net ctx = (plan, ctx1)" "ctx_ok r ctx"
  shows "routed_in r env (gc_obstacles ctx1) net plan"
  unfolding routed_in_def
proof
  assume s: "gnp_success plan"
  note p = plan_routes [OF assms s]
  then have "in_bounds (gc_obstacles ctx1) x" if "x \<in> copper (gnp_edge_paths plan)" for x
    using that drawn_in_bounds keeps_owners_bounds by (fastforce simp: copper_def)
  then show "owns_copper (gc_obstacles ctx1) (net_id net) (net_clearance r env net) (copper (gnp_edge_paths plan))
      \<and> (\<forall>x\<in>copper (gnp_edge_paths plan). in_bounds (gc_obstacles ctx1) x)" using p by blast
qed

lemma plan_nets_routed:
  assumes "plan_nets r env pending ctx = (plans, ctx')" "ctx_ok r ctx"
  shows "keeps_owners (gc_obstacles ctx) (gc_obstacles ctx') \<and> (\<forall>(net, plan)\<in>set plans. routed_in r env (gc_obstacles ctx') net plan)"
  using assms
proof (induction pending arbitrary: ctx plans)
  case (Cons net pending)
  obtain plan ctx1 rest where s: "plan_grid_net r env net ctx = (plan, ctx1)" "plan_nets r env pending ctx1 = (rest, ctx')" "plans = (net, plan) # rest"
    using plan_nets_Cons [OF Cons.prems(1)] .
  note step = plan_step [OF s(1) Cons.prems(2)]
  have "keeps_owners (gc_obstacles ctx1) (gc_obstacles ctx') \<and> (\<forall>(net, plan)\<in>set rest. routed_in r env (gc_obstacles ctx') net plan)"
    using Cons.IH [OF s(2)] step by blast
  then show ?case
    using step keeps_owners_trans routed_in_keep plan_routed_in [OF s(1) Cons.prems(2)] by (auto simp: s(3))
qed simp

text \<open>Two cells no further apart than the sum of two radii have a cell within both.\<close>

lemma between_int:
  fixes x y a b :: int
  assumes "\<bar>x - y\<bar> \<le> a + b" "0 \<le> a" "0 \<le> b"
  obtains z where "\<bar>z - x\<bar> \<le> a" "\<bar>z - y\<bar> \<le> b" "min x y \<le> z" "z \<le> max x y"
proof (cases "\<bar>x - y\<bar> \<le> a")
  case True
  then show ?thesis using that [of y] assms by auto
next
  case False
  show ?thesis
  proof (cases "x < y")
    case True
    then show ?thesis using that [of "x + a"] assms False by simp
  next
    case le: False
    then show ?thesis using that [of "x - a"] assms False by simp
  qed
qed

lemma between_cells:
  assumes "cheb x y \<le> a + b" "gp_layer x = gp_layer y" "in_bounds m x" "in_bounds m y" "0 \<le> a" "0 \<le> b"
  obtains z where "near a x z" "near b y z" "in_bounds m z"
proof -
  have d: "\<bar>gp_x x - gp_x y\<bar> \<le> a + b" "\<bar>gp_y x - gp_y y\<bar> \<le> a + b" using assms(1) by (auto simp: cheb_def)
  obtain zx where zx: "\<bar>zx - gp_x x\<bar> \<le> a" "\<bar>zx - gp_x y\<bar> \<le> b" "min (gp_x x) (gp_x y) \<le> zx" "zx \<le> max (gp_x x) (gp_x y)"
    using between_int [OF d(1) assms(5,6)] .
  obtain zy where zy: "\<bar>zy - gp_y x\<bar> \<le> a" "\<bar>zy - gp_y y\<bar> \<le> b" "min (gp_y x) (gp_y y) \<le> zy" "zy \<le> max (gp_y x) (gp_y y)"
    using between_int [OF d(2) assms(5,6)] .
  have "in_bounds m (mk_pos zx zy (gp_layer x))" using assms(3,4) zx zy by (auto simp: in_bounds_def)
  then show ?thesis using that [of "mk_pos zx zy (gp_layer x)"] zx zy assms(2) by (simp add: near_def)
qed


text \<open>
  C20: A net reported as routed is connected: the paths of its plan lead from its first
  terminal to every other one, on a layer of the board, and each is the outline of an unbroken
  walk over cells of the board. A net that is not routed leaves the map as it was.
\<close>

theorem plan_connects_terminals:
  assumes "ctx_ok r ctx" "plan_grid_net r env net ctx = (plan, ctx')"
  shows "if gnp_success plan
    then (\<exists>layer. 0 \<le> layer \<and> layer < gc_num_layers ctx \<and> terminals_joined (gnp_edge_paths plan) (net_positions r env net ctx) layer)
      \<and> list_all (drawn (gc_obstacles ctx)) (gnp_edge_paths plan)
    else ctx' = ctx"
  using plan_routes [OF assms(2,1)] plan_fails [OF assms(2)] assms(1) by (auto simp: ctx_ok_def list_all_iff)

section \<open>The result of a route\<close>

text \<open>Which nets count as routable does not depend on what was routed before.\<close>

definition routable_net :: "grid_router \<Rightarrow> 'a route_env_scheme \<Rightarrow> int \<Rightarrow> net \<Rightarrow> bool" where
  "routable_net r env num_layers net =
     (0 \<le> layer_for_net_class (re_net_class env net) num_layers
      \<and> (2 \<le> length (re_route_points env net) \<or> gr_pad_aware r \<and> 2 \<le> length (net_nodes net)))"

lemma commit_routable: "gnp_routable (fst (commit_net_routes r net rule positions layer clear ctx))
    \<and> gc_num_layers (snd (commit_net_routes r net rule positions layer clear ctx)) = gc_num_layers ctx"
  by (simp add: commit_net_routes_def Let_def split: option.splits)

lemma plan_routable:
  "gnp_routable (fst (plan_grid_net r env net ctx)) = routable_net r env (gc_num_layers ctx) net
    \<and> gc_num_layers (snd (plan_grid_net r env net ctx)) = gc_num_layers ctx"
proof -
  let ?layer = "layer_for_net_class (re_net_class env net) (gc_num_layers ctx)"
  consider "?layer < 0" | "0 \<le> ?layer" "length (re_route_points env net) < 2" | "0 \<le> ?layer" "2 \<le> length (re_route_points env net)"
    by linarith
  then show ?thesis
  proof cases
    case 3
    then show ?thesis
      unfolding plan_grid_net_def Let_def routable_net_def
      using commit_routable by (auto simp: no_plan_def split: option.splits)
  qed (auto simp: plan_grid_net_def Let_def no_plan_def routable_net_def)
qed

text \<open>The traces a plan is turned into.\<close>

fun path_traces :: "grid_router \<Rightarrow> grid_net_plan \<Rightarrow> grid_pos list \<Rightarrow> trace_segment list" where
  "path_traces r plan (p # q # rest) =
     \<lparr> ts_layer = layer_name (gp_layer p), ts_start = to_mm r p, ts_end = to_mm r q,
       ts_width = gnp_width_mm plan, ts_net_id = gnp_net_id plan, ts_via = False,
       ts_via_diameter = 9 / 20, ts_via_hole = 1 / 5 \<rparr> # path_traces r plan (q # rest)"
| "path_traces r plan _ = []"

definition plan_traces :: "grid_router \<Rightarrow> grid_net_plan \<Rightarrow> trace_segment list" where
  "plan_traces r plan = concat (map (path_traces r plan) (gnp_edge_paths plan))"

lemma append_path_output:
  "gs_traces (append_path r ctx plan path st) = gs_traces st @ path_traces r plan path
    \<and> gs_routed_count (append_path r ctx plan path st) = gs_routed_count st
    \<and> gs_total_routable (append_path r ctx plan path st) = gs_total_routable st"
  by (induction r ctx plan path st rule: append_path.induct) (simp_all add: append_segment_def)

lemma append_output:
  "gs_traces (append_grid_net_output r ctx plan st) = gs_traces st @ plan_traces r plan
    \<and> gs_routed_count (append_grid_net_output r ctx plan st) = gs_routed_count st
    \<and> gs_total_routable (append_grid_net_output r ctx plan st) = gs_total_routable st"
proof -
  have "gs_traces (fold (append_path r ctx plan) paths st) = gs_traces st @ concat (map (path_traces r plan) paths)
    \<and> gs_routed_count (fold (append_path r ctx plan) paths st) = gs_routed_count st
    \<and> gs_total_routable (fold (append_path r ctx plan) paths st) = gs_total_routable st" for paths
    by (induction paths arbitrary: st) (simp_all add: append_path_output)
  then show ?thesis by (simp add: append_grid_net_output_def plan_traces_def)
qed

definition is_routed :: "net \<times> grid_net_plan \<Rightarrow> bool" where
  "is_routed np = (gnp_routable (snd np) \<and> gnp_success (snd np))"

definition is_missed :: "net \<times> grid_net_plan \<Rightarrow> bool" where
  "is_missed np = (gnp_routable (snd np) \<and> \<not> gnp_success (snd np))"

lemma route_nets_output:
  assumes "plan_nets r run pending ctx = (plans, ctx')" "route_nets r run pending ctx st u = (st', u')"
  shows "gs_traces st' = gs_traces st @ concat (map (plan_traces r \<circ> snd) (filter is_routed plans))
    \<and> gs_routed_count st' = gs_routed_count st + int (count_if is_routed plans)
    \<and> gs_total_routable st' = gs_total_routable st + int (count_if (routable_net r run (gc_num_layers ctx)) pending)
    \<and> u' = u @ map (net_id \<circ> fst) (filter is_missed plans)"
  using assms
proof (induction pending arbitrary: ctx plans st u)
  case (Cons net pending)
  obtain plan ctx1 rest where s: "plan_grid_net r run net ctx = (plan, ctx1)" "plan_nets r run pending ctx1 = (rest, ctx')" "plans = (net, plan) # rest"
    using plan_nets_Cons [OF Cons.prems(1)] .
  have rt: "routable_net r run (gc_num_layers ctx) net = gnp_routable plan" "gc_num_layers ctx1 = gc_num_layers ctx"
    using plan_routable [of r run net ctx] s(1) by simp_all
  note run = Cons.prems(2) [unfolded route_nets.simps s(1) Let_def prod.case]
  note IH = Cons.IH [OF s(2), unfolded rt(2)]
  consider "\<not> gnp_routable plan" | "gnp_routable plan" "\<not> gnp_success plan" | "gnp_routable plan" "gnp_success plan" by blast
  then show ?case
  proof cases
    case 1
    then show ?thesis using IH [of st u] run rt by (simp add: s(3) is_routed_def is_missed_def)
  next
    case 2
    then show ?thesis using IH [of _ "u @ [net_id net]"] run rt by (simp add: s(3) is_routed_def is_missed_def)
  next
    case 3
    then show ?thesis using IH [of _ u] run rt by (simp add: s(3) is_routed_def is_missed_def append_output)
  qed
qed simp

lemma count_missed: "count_if is_routed plans + count_if is_missed plans = count_if (gnp_routable \<circ> snd) plans"
  by (induction plans) (auto simp: is_routed_def is_missed_def)

lemma plans_routable:
  "plan_nets r env pending ctx = (plans, ctx') \<Longrightarrow> count_if (gnp_routable \<circ> snd) plans = count_if (routable_net r env (gc_num_layers ctx)) pending"
proof (induction pending arbitrary: ctx plans)
  case (Cons net pending)
  obtain plan ctx1 rest where s: "plan_grid_net r env net ctx = (plan, ctx1)" "plan_nets r env pending ctx1 = (rest, ctx')" "plans = (net, plan) # rest"
    using plan_nets_Cons [OF Cons.prems] .
  then show ?case using Cons.IH [OF s(2)] plan_routable [of r env net ctx] by simp
qed simp

lemma pass_counts:
  assumes "route_ordered_nets r run order = Inr (res, missing)"
  obtains ctx where "rn_context run = Inr ctx" "rr_net_count res = int (count_if (routable_net r run (gc_num_layers ctx)) order)"
    "rr_routed_net_count res + int (length missing) = rr_net_count res"
proof -
  obtain ctx where ctx: "rn_context run = Inr ctx" using assms by (auto simp: route_ordered_nets_def rbind_eq_Inr)
  obtain st where st: "route_nets r run order ctx new_grid_route_state [] = (st, missing)"
    "rr_net_count res = gs_total_routable st" "rr_routed_net_count res = gs_routed_count st"
    using assms by (auto simp: route_ordered_nets_def ctx split: prod.splits)
  obtain plans ctx' where plans: "plan_nets r run order ctx = (plans, ctx')" by fastforce
  note out = route_nets_output [OF plans st(1)]
  then have "length missing = count_if is_missed plans" by (simp add: count_if_def)
  then show ?thesis
    using that [OF ctx] out st(2,3) count_missed [of plans] plans_routable [OF plans] by (simp add: new_grid_route_state_def)
qed

lemma count_if_mset: "mset xs = mset ys \<Longrightarrow> count_if P xs = count_if P ys"
  unfolding count_if_def by (metis mset_filter size_mset)

lemma retry_order_mset: "mset (retry_order ns missing index) = mset ns"
  by (simp add: retry_order_def Let_def multiset_partition [symmetric])

lemma sorted_nets_mset: "mset (sorted_nets run) = mset (rn_nets run)"
  by (simp add: sorted_nets_def)

text \<open>A pass of a run, over all its nets, and at least as good as a first one.\<close>

definition good_pass :: "grid_router \<Rightarrow> route_run \<Rightarrow> route_result \<Rightarrow> route_result \<Rightarrow> string list \<Rightarrow> bool" where
  "good_pass r run base res missing = (\<exists>order. mset order = mset (rn_nets run) \<and> route_ordered_nets r run order = Inr (res, missing)
     \<and> rr_routed_net_count base \<le> rr_routed_net_count res)"

lemma ripup_good:
  "ripup_passes r run ns indices best missing = Inr res \<Longrightarrow> mset ns = mset (rn_nets run) \<Longrightarrow> good_pass r run base best missing
    \<Longrightarrow> \<exists>missing. good_pass r run base res missing"
proof (induction indices arbitrary: best missing)
  case (Cons index rest)
  obtain attempt still where a: "route_ordered_nets r run (retry_order ns missing index) = Inr (attempt, still)"
    and rest: "(let (best1, missing1) = (if rr_routed_net_count attempt > rr_routed_net_count best then (attempt, still) else (best, missing)) in
       if missing1 = [] then Inr best1 else ripup_passes r run ns rest best1 missing1) = Inr res"
    using Cons.prems(1) by (auto simp: rbind_eq_Inr)
  define best1 missing1 where d: "best1 = (if rr_routed_net_count attempt > rr_routed_net_count best then attempt else best)"
    "missing1 = (if rr_routed_net_count attempt > rr_routed_net_count best then still else missing)"
  have "good_pass r run base best1 missing1"
    using Cons.prems(2,3) a retry_order_mset [of ns missing index] unfolding good_pass_def d
    by (cases "rr_routed_net_count attempt > rr_routed_net_count best") (auto intro: exI [of _ "retry_order ns missing index"])
  moreover have "(if missing1 = [] then Inr best1 else ripup_passes r run ns rest best1 missing1) = Inr res"
    using rest by (simp add: d Let_def split: if_splits)
  ultimately show ?case using Cons.IH [OF _ Cons.prems(2)] by (auto split: if_splits)
qed auto

text \<open>
  The result of \<open>route\<close> is the result of one pass over all nets of the design in some
  order, on a fresh map. It routes at least as many nets as the pass in priority order; it counts
  the same routable nets as that pass, and those it has not routed are the ones it misses.
\<close>

theorem route_best_pass:
  assumes "route r run = Inr res"
  shows "\<exists>order missing base base_missing. mset order = mset (rn_nets run)
    \<and> route_ordered_nets r run order = Inr (res, missing) \<and> route_ordered_nets r run (sorted_nets run) = Inr (base, base_missing)
    \<and> rr_routed_net_count base \<le> rr_routed_net_count res \<and> rr_net_count res = rr_net_count base
    \<and> rr_routed_net_count res + int (length missing) = rr_net_count res"
proof -
  obtain base base_missing where b: "route_ordered_nets r run (sorted_nets run) = Inr (base, base_missing)"
    and rest: "(if base_missing = [] \<or> gr_max_ripup_passes r = 0 then Inr base
      else ripup_passes r run (sorted_nets run) [0..gr_max_ripup_passes r - 1] base base_missing) = Inr res"
    using assms by (auto simp: route_def rbind_eq_Inr)
  have "good_pass r run base base base_missing" using b sorted_nets_mset unfolding good_pass_def by blast
  then obtain missing order where o: "mset order = mset (rn_nets run)" "route_ordered_nets r run order = Inr (res, missing)"
    "rr_routed_net_count base \<le> rr_routed_net_count res"
    using rest ripup_good [OF _ sorted_nets_mset] unfolding good_pass_def by (metis (no_types, lifting) Inr_inject)
  obtain ctx where ctx: "rn_context run = Inr ctx" "rr_net_count res = int (count_if (routable_net r run (gc_num_layers ctx)) order)"
    "rr_routed_net_count res + int (length missing) = rr_net_count res" using pass_counts [OF o(2)] .
  moreover have "rr_net_count base = int (count_if (routable_net r run (gc_num_layers ctx)) (sorted_nets run))"
    using pass_counts [OF b] ctx(1) by (metis Inr_inject)
  moreover have "mset order = mset (sorted_nets run)" using o(1) sorted_nets_mset by simp
  ultimately have "rr_net_count res = rr_net_count base" using count_if_mset by metis
  then show ?thesis using o b ctx(3) by blast
qed

end
