(* ===== verification/Grid_Demo.thy ===== *)
theory Grid_Demo
  imports Grid_Passes
begin

text \<open>
  The router at work on a small board: one layer, one free row between the board edges, two nets
  of two neighbouring terminals each. The theorems of the router are applied here.
\<close>

section \<open>A board with one free row\<close>

lemma fold_filter: "fold (\<lambda>d q. if P d then g d q else q) xs q = fold g (filter P xs) q"
  by (induction xs arbitrary: q) auto

text \<open>With a single way out that leads to the goal, the search takes it.\<close>

lemma astar_single_step:
  assumes "resolve_astar_endpoint m s net = Some s" "resolve_astar_endpoint m g net = Some g" "\<not> gr_pad_aware r" "2 \<le> gr_max_iterations r"
    and "om_layers m = 1" "gp_layer s = 0" "g = shifted s dx dy" "g \<noteq> s"
    and "filter (\<lambda>d. planar_free m net clear s (fst d) (fst (snd d))) DIRECTIONS_8 = [(dx, dy, c)]"
  shows "astar r m s g net clear = Some [s, g]"
proof -
  define start where "start = Node s 0 (octile s g (gr_via_cost r)) (fl (0 + octile s g (gr_via_cost r))) None"
  define goal where "goal = planar_node r start g (dx, dy, c)"
  have pos: "n_pos start = s" "n_parent start = None" "n_pos goal = g" "n_parent goal = Some start"
    using assms(7) by (simp_all add: start_def goal_def planar_node_def Let_def)
  have f: "filter (\<lambda>d. planar_free m net clear s (fst d) (fst (snd d)) \<and> shifted s (fst d) (fst (snd d)) \<notin> {s}) DIRECTIONS_8 = [(dx, dy, c)]"
    using assms(7-9) filter_filter [of "\<lambda>d. shifted s (fst d) (fst (snd d)) \<notin> {s}" "\<lambda>d. planar_free m net clear s (fst d) (fst (snd d))" DIRECTIONS_8]
    by (simp add: conj_commute)
  have push: "push_planar_neighbors r m start g net clear {s} [] = [goal]"
    unfolding push_planar_neighbors_def fold_filter pos using f by (simp add: heappush_def siftdown.simps goal_def)
  have via: "push_via_neighbors r m start g net {s} q = q" for q
    using assms(5,6) by (simp add: pos push_via_neighbors_def via_free_def)
  have first: "heappush node_lt x [] = [x]" for x by (simp add: heappush_def siftdown.simps)
  have pop: "heappop node_lt [x] = Some (x, [])" for x by (simp add: heappop_def)
  obtain k where k: "nat (gr_max_iterations r) = Suc (Suc k)"
    using assms(4) that [of "nat (gr_max_iterations r) - 2"] by linarith
  have "astar_loop (Suc (Suc k)) r m g net clear [start] {} = Some goal"
    using assms(3,8) by (simp add: pop push via pos)
  moreover have "chain goal = [g, s]" using chain_Node [of goal] chain_Node [of start] by (simp add: pos)
  ultimately show ?thesis
    using assms(1-3) astar_runs [OF assms(1,2), of r clear] unfolding start_def [symmetric] first k by (simp add: reconstruct_def del: astar_loop.simps)
qed

definition demo_router :: grid_router where
  "demo_router = \<lparr> gr_resolution = 1, gr_via_cost = 10, gr_turn_penalty = 0, gr_max_iterations = 300, gr_max_ripup_passes = 1, gr_pad_aware = False \<rparr>"

definition demo_map :: obstacle_map where
  "demo_map = \<lparr> om_width = 8, om_height = 3, om_layers = 1,
     om_cells = [[[1, 1, 1, 1, 1, 1, 1, 1], [1, 0, 0, 0, 0, 0, 0, 1], [1, 1, 1, 1, 1, 1, 1, 1]]],
     om_copper = [], om_pads = [], om_pad_conflicts = {}, om_enforce_static_clearance = False \<rparr>"

lemma demo_map_prepared: "block_board_edges 8 3 1 (new_obstacle_map 8 3 1) = Inr demo_map"
  by code_simp

definition demo_ctx :: grid_route_context where
  "demo_ctx = \<lparr> gc_obstacles = demo_map, gc_grid_w = 8, gc_grid_h = 3, gc_num_layers = 1, gc_via_pad = 9 / 20, gc_via_hole = 1 / 5 \<rparr>"

definition demo_net :: "string \<Rightarrow> net" where
  "demo_net n = \<lparr> net_id = n, net_name = n, net_type = NET_SIGNAL, net_nodes = [], net_constraints = None \<rparr>"

definition demo_env :: route_run where
  "demo_env = \<lparr> re_net_class = (\<lambda>_. SIGNAL_LOW), re_rule = (\<lambda>_. \<lparr> rule_clearance = 1, rule_trace_width = 1 / 4, rule_priority = 1 \<rparr>),
     re_route_points = (\<lambda>n. if net_id n = ''A'' then [(1, 1), (2, 1)] else [(6, 1), (5, 1)]), re_pad_layers = (\<lambda>_. None),
     rn_context = Inr demo_ctx, rn_nets = [demo_net ''A'', demo_net ''B''], rn_length = (\<lambda>ts. of_nat (length ts)) \<rparr>"

lemma demo_ctx_ok: "ctx_ok demo_router demo_ctx"
  by (simp add: ctx_ok_def om_wf_def demo_ctx_def demo_map_def demo_router_def no_pads_def)

text \<open>The map when cells of the one layer are owned.\<close>

definition owned :: "(int \<times> int) list \<Rightarrow> string \<Rightarrow> obstacle_map \<Rightarrow> obstacle_map" where
  "owned cs n m = m\<lparr> om_copper := om_copper m @ map (\<lambda>(x, y). (mk_pos x y 0, n)) cs \<rparr>"

definition opened_A :: obstacle_map where
  "opened_A = owned [(1, 1), (2, 1), (3, 1)] ''A'' demo_map"

definition routed_A :: obstacle_map where
  "routed_A = owned [(0, 0), (1, 0), (2, 0), (0, 1), (0, 2), (1, 2), (2, 2), (3, 0), (3, 2)] ''A'' opened_A"

definition opened_B :: obstacle_map where
  "opened_B = owned [(5, 1), (6, 1), (4, 1)] ''B'' routed_A"

definition routed_B :: obstacle_map where
  "routed_B = owned [(5, 0), (6, 0), (7, 0), (7, 1), (5, 2), (6, 2), (7, 2), (4, 0), (4, 2)] ''B'' opened_B"

lemma demo_opened:
  "fold (\<lambda>(gx, gy). unblock_endpoint (mk_pos gx gy 0) 1 (Some ''A'')) [(1, 1), (2, 1)] demo_map = opened_A"
  "fold (\<lambda>(gx, gy). unblock_endpoint (mk_pos gx gy 0) 1 (Some ''B'')) [(6, 1), (5, 1)] routed_A = opened_B"
  by code_simp+

lemma demo_mst: "mst [(1, 1), (2, 1)] = [(0, 1)]" "mst [(6, 1), (5, 1)] = [(0, 1)]"
  by code_simp+

lemma demo_astar:
  "astar demo_router opened_A (mk_pos 1 1 0) (mk_pos 2 1 0) (Some ''A'') 0 = Some [mk_pos 1 1 0, mk_pos 2 1 0]" (is ?A)
  "astar demo_router opened_B (mk_pos 6 1 0) (mk_pos 5 1 0) (Some ''B'') 0 = Some [mk_pos 6 1 0, mk_pos 5 1 0]" (is ?B)
proof -
  have router: "\<not> gr_pad_aware demo_router" "2 \<le> gr_max_iterations demo_router" by (simp_all add: demo_router_def)
  show ?A
  proof (rule astar_single_step [OF _ _ router])
    show "resolve_astar_endpoint opened_A (mk_pos 1 1 0) (Some ''A'') = Some (mk_pos 1 1 0)" by code_simp
    show "resolve_astar_endpoint opened_A (mk_pos 2 1 0) (Some ''A'') = Some (mk_pos 2 1 0)" by code_simp
    show "filter (\<lambda>d. planar_free opened_A (Some ''A'') 0 (mk_pos 1 1 0) (fst d) (fst (snd d))) DIRECTIONS_8 = [(1, 0, 1)]" by code_simp
  qed (simp_all add: opened_A_def owned_def demo_map_def shifted_def)
  show ?B
  proof (rule astar_single_step [OF _ _ router])
    show "resolve_astar_endpoint opened_B (mk_pos 5 1 0) (Some ''B'') = Some (mk_pos 5 1 0)" by code_simp
    show "resolve_astar_endpoint opened_B (mk_pos 6 1 0) (Some ''B'') = Some (mk_pos 6 1 0)" by code_simp
    show "filter (\<lambda>d. planar_free opened_B (Some ''B'') 0 (mk_pos 6 1 0) (fst d) (fst (snd d))) DIRECTIONS_8 = [(- 1, 0, 1)]" by code_simp
  qed (simp_all add: opened_B_def routed_A_def opened_A_def owned_def demo_map_def shifted_def)
qed

lemma demo_reserve:
  "reserve_path 1 ''A'' [mk_pos 1 1 0, mk_pos 2 1 0] opened_A = Inr routed_A"
  "reserve_path 1 ''B'' [mk_pos 6 1 0, mk_pos 5 1 0] opened_B = Inr routed_B"
  by code_simp+

lemma demo_commit_routes:
  "commit_net_routes demo_router (demo_net ''A'') rule [(1, 1), (2, 1)] 0 1 demo_ctx
     = (\<lparr> gnp_routable = True, gnp_success = True, gnp_net_id = ''A'', gnp_width_mm = rule_trace_width rule,
          gnp_edge_paths = [[mk_pos 1 1 0, mk_pos 2 1 0]] \<rparr>, demo_ctx\<lparr> gc_obstacles := routed_A \<rparr>)"
  "commit_net_routes demo_router (demo_net ''B'') rule [(6, 1), (5, 1)] 0 1 (demo_ctx\<lparr> gc_obstacles := routed_A \<rparr>)
     = (\<lparr> gnp_routable = True, gnp_success = True, gnp_net_id = ''B'', gnp_width_mm = rule_trace_width rule,
          gnp_edge_paths = [[mk_pos 6 1 0, mk_pos 5 1 0]] \<rparr>, demo_ctx\<lparr> gc_obstacles := routed_B \<rparr>)"
proof -
  have router: "gr_pad_aware demo_router = False" by (simp add: demo_router_def)
  have ids: "net_id (demo_net n) = n" for n by (simp add: demo_net_def)
  have ctx: "gc_obstacles demo_ctx = demo_map" "gc_obstacles (c\<lparr> gc_obstacles := m \<rparr>) = m" for c m by (simp_all add: demo_ctx_def)
  note eval = Let_def router route_mst_paths_def demo_mst demo_astar demo_reserve terminal_def simplify_path_def
  show "commit_net_routes demo_router (demo_net ''A'') rule [(1, 1), (2, 1)] 0 1 demo_ctx
     = (\<lparr> gnp_routable = True, gnp_success = True, gnp_net_id = ''A'', gnp_width_mm = rule_trace_width rule,
          gnp_edge_paths = [[mk_pos 1 1 0, mk_pos 2 1 0]] \<rparr>, demo_ctx\<lparr> gc_obstacles := routed_A \<rparr>)"
    unfolding commit_net_routes_def Let_def clone_eq router ids ctx if_False max.idem demo_opened
    by (simp add: eval del: fold_simps reserve_path.simps)
  show "commit_net_routes demo_router (demo_net ''B'') rule [(6, 1), (5, 1)] 0 1 (demo_ctx\<lparr> gc_obstacles := routed_A \<rparr>)
     = (\<lparr> gnp_routable = True, gnp_success = True, gnp_net_id = ''B'', gnp_width_mm = rule_trace_width rule,
          gnp_edge_paths = [[mk_pos 6 1 0, mk_pos 5 1 0]] \<rparr>, demo_ctx\<lparr> gc_obstacles := routed_B \<rparr>)"
    unfolding commit_net_routes_def Let_def clone_eq router ids ctx if_False max.idem demo_opened
    by (simp add: eval del: fold_simps reserve_path.simps)
qed

definition demo_plan :: "string \<Rightarrow> grid_pos list \<Rightarrow> grid_net_plan" where
  "demo_plan n path = \<lparr> gnp_routable = True, gnp_success = True, gnp_net_id = n, gnp_width_mm = 1 / 4, gnp_edge_paths = [path] \<rparr>"

definition plan_A :: grid_net_plan where
  "plan_A = demo_plan ''A'' [mk_pos 1 1 0, mk_pos 2 1 0]"

definition plan_B :: grid_net_plan where
  "plan_B = demo_plan ''B'' [mk_pos 6 1 0, mk_pos 5 1 0]"

lemma fl_small: "fl 0 = 0" "fl 1 = 1" "fl 2 = 2" "fl 5 = 5" "fl 6 = 6" "round_half_even 1 = 1" "round_half_even 2 = 2" "round_half_even 5 = 5" "round_half_even 6 = 6"
  by code_simp+

lemma demo_clearance: "net_clearance demo_router demo_env net = 1"
  by (simp add: clearance_cells_def demo_env_def demo_router_def fl_small)

lemma demo_plans:
  "plan_grid_net demo_router demo_env (demo_net ''A'') demo_ctx = (plan_A, demo_ctx\<lparr> gc_obstacles := routed_A \<rparr>)"
  "plan_grid_net demo_router demo_env (demo_net ''B'') (demo_ctx\<lparr> gc_obstacles := routed_A \<rparr>) = (plan_B, demo_ctx\<lparr> gc_obstacles := routed_B \<rparr>)"
proof -
  have router: "gr_pad_aware demo_router = False" "gr_resolution demo_router = 1" by (simp_all add: demo_router_def)
  have points: "map (\<lambda>p. to_grid_point demo_router p ctx) [(1, 1), (2, 1)] = [(1, 1), (2, 1)]"
    "map (\<lambda>p. to_grid_point demo_router p ctx) [(6, 1), (5, 1)] = [(6, 1), (5, 1)]"
    if "gc_grid_w ctx = 8" "gc_grid_h ctx = 3" for ctx
    using that by (simp_all add: to_grid_point_def router fl_small)
  have ctx: "gc_grid_w demo_ctx = 8" "gc_grid_h demo_ctx = 3" "gc_num_layers demo_ctx = 1" by (simp_all add: demo_ctx_def)
  have env: "re_net_class demo_env net = SIGNAL_LOW" "rule_trace_width (re_rule demo_env SIGNAL_LOW) = 1 / 4"
    "re_route_points demo_env (demo_net ''A'') = [(1, 1), (2, 1)]" "re_route_points demo_env (demo_net ''B'') = [(6, 1), (5, 1)]" for net
    by (simp_all add: demo_env_def demo_net_def)
  have clear: "clearance_cells demo_router (re_rule demo_env SIGNAL_LOW) = 1" using demo_clearance [of "demo_net ''A''"] by (simp add: env)
  show "plan_grid_net demo_router demo_env (demo_net ''A'') demo_ctx = (plan_A, demo_ctx\<lparr> gc_obstacles := routed_A \<rparr>)"
    using points(1) [of demo_ctx] by (simp add: plan_grid_net_def Let_def env clear router ctx demo_commit_routes plan_A_def demo_plan_def)
  show "plan_grid_net demo_router demo_env (demo_net ''B'') (demo_ctx\<lparr> gc_obstacles := routed_A \<rparr>) = (plan_B, demo_ctx\<lparr> gc_obstacles := routed_B \<rparr>)"
    using points(2) [of "demo_ctx\<lparr> gc_obstacles := routed_A \<rparr>"]
    by (simp add: plan_grid_net_def Let_def env clear router ctx demo_commit_routes plan_B_def demo_plan_def)
qed

lemma demo_pass: "plan_nets demo_router demo_env [demo_net ''A'', demo_net ''B''] demo_ctx
    = ([(demo_net ''A'', plan_A), (demo_net ''B'', plan_B)], demo_ctx\<lparr> gc_obstacles := routed_B \<rparr>)"
  by (simp add: demo_plans)

section \<open>The theorems on this board\<close>

theorem astar_correct_witness:
  "(\<exists>path. astar demo_router opened_A (mk_pos 1 1 0) (mk_pos 2 1 0) (Some ''A'') 0 = Some path \<and> path \<noteq> []
      \<and> hd path = mk_pos 1 1 0 \<and> last path = mk_pos 2 1 0 \<and> distinct path)
    \<and> (moves demo_router opened_A (Some ''A'') 0)\<^sup>*\<^sup>* (mk_pos 1 1 0) (mk_pos 2 1 0)"
proof -
  have b: "in_bounds opened_A (mk_pos 1 1 0)" "in_bounds opened_A (mk_pos 2 1 0)" by code_simp+
  have e: "resolve_astar_endpoint opened_A (mk_pos 1 1 0) (Some ''A'') = Some (mk_pos 1 1 0)"
    "resolve_astar_endpoint opened_A (mk_pos 2 1 0) (Some ''A'') = Some (mk_pos 2 1 0)" by code_simp+
  have r: "\<not> gr_pad_aware demo_router" "1 + 10 * om_width opened_A * om_height opened_A * om_layers opened_A < gr_max_iterations demo_router"
    by (simp_all add: demo_router_def opened_A_def owned_def demo_map_def)
  show ?thesis
    using astar_correct [OF b e, of demo_router 0] r demo_astar(1) by simp
qed

theorem nearest_free_exact_witness:
  "\<exists>c. nearest_free demo_map (mk_pos 0 0 0) 2 None = Some c \<and> is_free demo_map c None \<and> cheb (mk_pos 0 0 0) c \<le> 2"
proof -
  have "in_bounds demo_map (mk_pos 0 0 0)" by code_simp
  moreover have "nearest_free demo_map (mk_pos 0 0 0) 2 None = Some (mk_pos 1 1 0)" by code_simp
  ultimately show ?thesis using nearest_free_exact [of demo_map "mk_pos 0 0 0" 2 None] by (intro exI [of _ "mk_pos 1 1 0"]) simp
qed

theorem mst_spans_witness: "(0, 2) \<in> (set (mst [(1, 1), (6, 1), (3, 1)]))\<^sup>*"
  using mst_spans [of "[(1, 1), (6, 1), (3, 1)]"] by simp

theorem simplify_path_exact_witness:
  "cover [mk_pos 0 0 0, mk_pos 2 0 0, mk_pos 2 1 0] = {mk_pos 0 0 0, mk_pos 1 0 0, mk_pos 2 0 0, mk_pos 2 1 0}"
proof -
  let ?path = "[mk_pos 0 0 0, mk_pos 1 0 0, mk_pos 2 0 0, mk_pos 2 1 0]"
  have "unit_step (mk_pos 0 0 0) (mk_pos 1 0 0)" "unit_step (mk_pos 1 0 0) (mk_pos 2 0 0)"
    unfolding unit_step_def planar_step_def shifted_def by (rule disjI1, rule exI [of _ 1], rule exI [of _ 0], simp)+
  moreover have "unit_step (mk_pos 2 0 0) (mk_pos 2 1 0)"
    unfolding unit_step_def planar_step_def shifted_def by (rule disjI1, rule exI [of _ 0], rule exI [of _ 1], simp)
  ultimately have "cover (simplify_path ?path) = covered ?path"
    using simplify_path_exact [of ?path] by simp
  moreover have "simplify_path ?path = [mk_pos 0 0 0, mk_pos 2 0 0, mk_pos 2 1 0]" by code_simp
  ultimately show ?thesis by (simp add: covered_def via_step_def del: cover.simps)
qed


theorem plan_connects_terminals_witness: "\<exists>layer. 0 \<le> layer \<and> layer < gc_num_layers demo_ctx
    \<and> terminals_joined (gnp_edge_paths plan_A) (net_positions demo_router demo_env (demo_net ''A'') demo_ctx) layer"
proof -
  have "gnp_success plan_A" by (simp add: plan_A_def demo_plan_def)
  then show ?thesis using plan_connects_terminals [OF demo_ctx_ok demo_plans(1)] by simp
qed

theorem route_best_pass_witness: "\<exists>res. route demo_router demo_env = Inr res
    \<and> (\<exists>missing :: string list. rr_routed_net_count res + int (length missing) = rr_net_count res)"
proof -
  have cx: "rn_context demo_env = Inr demo_ctx" by (simp add: demo_env_def)
  have "\<exists>res. route demo_router demo_env = Inr res"
  proof -
    have run: "\<exists>res missing. route_ordered_nets demo_router demo_env order = Inr (res, missing)" for order
      by (simp add: route_ordered_nets_def cx split: prod.splits)
    then obtain base missing where "route_ordered_nets demo_router demo_env (sorted_nets demo_env) = Inr (base, missing)" by blast
    moreover obtain attempt still where "route_ordered_nets demo_router demo_env (retry_order (sorted_nets demo_env) missing 0) = Inr (attempt, still)"
      using run by blast
    ultimately show ?thesis by (auto simp: route_def demo_router_def [THEN arg_cong, of gr_max_ripup_passes] upto_rec1 Let_def split: prod.splits)
  qed
  then obtain res where res: "route demo_router demo_env = Inr res" by blast
  then show ?thesis using route_best_pass [OF res] by blast
qed

end
