(* ===== verification/Plugin_Admission.thy ===== *)
theory Plugin_Admission
  imports Access_Control
begin

text \<open>
  Admission of plugins: the manifest of \<^verbatim>\<open>src/zaptrace/plugin/manifest.py\<close> with its version
  checks, signature policy and verification (\<^verbatim>\<open>plugin/signature.py\<close>), the permission checks and
  decisions of \<^verbatim>\<open>plugin/admission.py\<close>, and the guards of \<^verbatim>\<open>plugin/runtime.py\<close> up to the
  start of the process. Cryptography, the canonical JSON of a manifest, its validation by
  pydantic, the file system and the subprocess are arguments.
\<close>

section \<open>Manifests\<close>

datatype plugin_capability =
    DESIGN_READ | DESIGN_WRITE | DESIGN_METADATA | PROOF_READ | PROOF_WRITE | LIBRARY_READ | LIBRARY_WRITE
  | FILESYSTEM_READ | FILESYSTEM_WRITE | NETWORK_CONNECT | SUBPROCESS_RUN | PLUGIN_LOAD | MCP_TOOL_CALL
  | HOST_LOG | HOST_NOTIFY

fun plugin_capability_value :: "plugin_capability \<Rightarrow> string" where
  "plugin_capability_value DESIGN_READ = ''design:read''"
| "plugin_capability_value DESIGN_WRITE = ''design:write''"
| "plugin_capability_value DESIGN_METADATA = ''design:metadata''"
| "plugin_capability_value PROOF_READ = ''proof:read''"
| "plugin_capability_value PROOF_WRITE = ''proof:write''"
| "plugin_capability_value LIBRARY_READ = ''library:read''"
| "plugin_capability_value LIBRARY_WRITE = ''library:write''"
| "plugin_capability_value FILESYSTEM_READ = ''filesystem:read''"
| "plugin_capability_value FILESYSTEM_WRITE = ''filesystem:write''"
| "plugin_capability_value NETWORK_CONNECT = ''network:connect''"
| "plugin_capability_value SUBPROCESS_RUN = ''subprocess:run''"
| "plugin_capability_value PLUGIN_LOAD = ''plugin:load''"
| "plugin_capability_value MCP_TOOL_CALL = ''mcp:tool_call''"
| "plugin_capability_value HOST_LOG = ''host:log''"
| "plugin_capability_value HOST_NOTIFY = ''host:notify''"

datatype entry_type = PYTHON_MODULE | EXECUTABLE | WASM

record plugin_entry =
  pe_type :: entry_type
  pe_path :: string

record filesystem_permissions =
  fp_read :: "string list"
  fp_write :: "string list"

record network_permissions =
  np_allowed_domains :: "string list"
  np_allowed_schemes :: "string list"

record plugin_permissions =
  pp_filesystem :: filesystem_permissions
  pp_network :: network_permissions
  pp_subprocess :: bool

record plugin_signing =
  ps_algorithm :: string
  ps_signature :: string
  ps_public_key_fingerprint :: string

record plugin_dependency =
  pd_plugin_id :: string
  pd_version_range :: string

record plugin_manifest =
  pm_schema_url :: string
  pm_api_version :: string
  pm_plugin_id :: string
  pm_name :: string
  pm_version :: string
  pm_min_zaptrace_version :: string
  pm_max_zaptrace_version :: string
  pm_entry :: plugin_entry
  pm_extension_points :: "string list"
  pm_capabilities :: "plugin_capability list"
  pm_permissions :: plugin_permissions
  pm_signing :: "plugin_signing option"
  pm_description :: string
  pm_author :: string
  pm_homepage :: string
  pm_repository :: string
  pm_documentation :: string
  pm_dependencies :: "plugin_dependency list"

definition PLUGIN_SCHEMA_URL :: string where
  "PLUGIN_SCHEMA_URL = ''https://zaptrace.dev/schemas/plugin-manifest-v1.json''"

definition SUPPORTED_PLUGIN_API_MAJOR :: nat where
  "SUPPORTED_PLUGIN_API_MAJOR = 1"

section \<open>Versions\<close>

text \<open>\<^verbatim>\<open>raw.split(sep, 1)[0]\<close> and \<^verbatim>\<open>raw.split(sep)\<close> for a one-character separator.\<close>

definition before_char :: "char \<Rightarrow> string \<Rightarrow> string" where
  "before_char sep s = takeWhile (\<lambda>c. c \<noteq> sep) s"

fun split_char :: "char \<Rightarrow> string \<Rightarrow> string list" where
  "split_char sep [] = [[]]"
| "split_char sep (c # cs) =
     (if c = sep then [] # split_char sep cs
      else case split_char sep cs of [] \<Rightarrow> [[c]] | w # ws \<Rightarrow> (c # w) # ws)"

fun digits_value :: "nat \<Rightarrow> string \<Rightarrow> nat" where
  "digits_value acc [] = acc"
| "digits_value acc (c # cs) = digits_value (10 * acc + (of_char c - 48)) cs"

fun version_values :: "string \<Rightarrow> string list \<Rightarrow> nat list result" where
  "version_values raw [] = Inr []"
| "version_values raw (part # parts) =
     (if part = [] \<or> \<not> list_all is_digit part then Inl (ValueError (''invalid semantic version: '' @ raw))
      else rbind (version_values raw parts) (\<lambda>vs. Inr (digits_value 0 part # vs)))"

definition version_tuple :: "string \<Rightarrow> (nat \<times> nat \<times> nat) result" where
  "version_tuple raw =
     (let cleaned = before_char (CHR ''-'') (before_char (CHR ''+'') raw)
      in rbind (version_values raw (take 3 (split_char (CHR ''.'') cleaned))) (\<lambda>vs.
           let values = vs @ replicate (3 - length vs) 0
           in Inr (values ! 0, values ! 1, values ! 2)))"

text \<open>The two field validators of a manifest, applied by pydantic to the parsed fields.\<close>

definition schema_url_matches_v1 :: "string \<Rightarrow> string result" where
  "schema_url_matches_v1 value =
     (if value \<noteq> PLUGIN_SCHEMA_URL then Inl (ValueError (''unsupported plugin manifest schema: '' @ value)) else Inr value)"

definition api_version_major_supported :: "string \<Rightarrow> string result" where
  "api_version_major_supported value =
     rbind (version_tuple value) (\<lambda>v.
       if fst v \<noteq> SUPPORTED_PLUGIN_API_MAJOR then Inl (ValueError (''unsupported plugin API major version: '' @ value)) else Inr value)"

definition is_host_version_compatible :: "plugin_manifest \<Rightarrow> string \<Rightarrow> bool \<times> string" where
  "is_host_version_compatible m host_version =
     (case version_tuple host_version of Inl e \<Rightarrow> (False, exc_str e) | Inr host \<Rightarrow>
     (case version_tuple (pm_min_zaptrace_version m) of Inl e \<Rightarrow> (False, exc_str e) | Inr minimum \<Rightarrow>
     (case version_tuple (pm_max_zaptrace_version m) of Inl e \<Rightarrow> (False, exc_str e) | Inr maximum \<Rightarrow>
       if host < minimum then
         (False, ''plugin requires ZapTrace >= '' @ pm_min_zaptrace_version m @ ''; current version is '' @ host_version)
       else if host > maximum then
         (False, ''plugin supports ZapTrace <= '' @ pm_max_zaptrace_version m @ ''; current version is '' @ host_version)
       else (True, ''compatible''))))"

section \<open>Signatures\<close>

type_synonym bytes = "nat list"

text \<open>
  The cryptography the verification calls: \<open>cr_installed\<close> tells whether the package imports,
  \<open>cr_key\<close> reads a raw public key, and \<open>cr_verify\<close> gives \<open>None\<close> for a good signature, an
  error text otherwise (the empty one for \<^verbatim>\<open>InvalidSignature\<close>).
\<close>

record crypto =
  cr_sha256_hex :: "bytes \<Rightarrow> string"
  cr_canonical_payload :: "plugin_manifest \<Rightarrow> bytes"
  cr_decode_b64 :: "string \<Rightarrow> bytes result"
  cr_installed :: bool
  cr_key :: "bytes \<Rightarrow> string option"
  cr_verify :: "bytes \<Rightarrow> bytes \<Rightarrow> bytes \<Rightarrow> string option"

text \<open>The payload covers everything but the signature.\<close>

definition signed_part :: "plugin_manifest \<Rightarrow> plugin_manifest" where
  "signed_part m = m\<lparr> pm_signing := None \<rparr>"

definition verify_plugin_signature :: "crypto \<Rightarrow> plugin_manifest \<Rightarrow> (string, bytes) dict \<Rightarrow> bool \<times> string" where
  "verify_plugin_signature cr m trusted_public_keys =
     (case pm_signing m of
        None \<Rightarrow> (False, ''manifest has no signing section'')
      | Some s \<Rightarrow>
          (case dict_get trusted_public_keys (ps_public_key_fingerprint s) of
             None \<Rightarrow> (False, ''public key fingerprint '' @ sq @ ps_public_key_fingerprint s @ sq @ '' not in trusted set'')
           | Some key \<Rightarrow>
               if cr_sha256_hex cr key \<noteq> ps_public_key_fingerprint s
               then (False, ''trusted public key does not match its configured fingerprint'')
               else if \<not> cr_installed cr
               then (False, ''cryptography package not installed; cannot verify Ed25519 signatures'')
               else case cr_decode_b64 cr (ps_signature s) of
                 Inl e \<Rightarrow> (False, exc_str e)
               | Inr sig \<Rightarrow>
                   (case cr_key cr key of
                      Some e \<Rightarrow> (False, ''invalid Ed25519 public key: '' @ e)
                    | None \<Rightarrow>
                        (case cr_verify cr key sig (cr_canonical_payload cr (signed_part m)) of
                           None \<Rightarrow> (True, ''verified'')
                         | Some e \<Rightarrow>
                             if e = [] then (False, ''signature verification failed '' @ em_dash @ '' manifest may have been tampered'')
                             else (False, ''unexpected verification error: '' @ e)))))"

section \<open>Admission\<close>

fun PLUGIN_TO_AGENT_CAPABILITY :: "plugin_capability \<Rightarrow> string" where
  "PLUGIN_TO_AGENT_CAPABILITY DESIGN_READ = ''read''"
| "PLUGIN_TO_AGENT_CAPABILITY DESIGN_METADATA = ''preview-write''"
| "PLUGIN_TO_AGENT_CAPABILITY DESIGN_WRITE = ''sandbox-write''"
| "PLUGIN_TO_AGENT_CAPABILITY PROOF_READ = ''read''"
| "PLUGIN_TO_AGENT_CAPABILITY PROOF_WRITE = ''sandbox-write''"
| "PLUGIN_TO_AGENT_CAPABILITY LIBRARY_READ = ''read''"
| "PLUGIN_TO_AGENT_CAPABILITY LIBRARY_WRITE = ''sandbox-write''"
| "PLUGIN_TO_AGENT_CAPABILITY FILESYSTEM_READ = ''read''"
| "PLUGIN_TO_AGENT_CAPABILITY FILESYSTEM_WRITE = ''sandbox-write''"
| "PLUGIN_TO_AGENT_CAPABILITY NETWORK_CONNECT = ''sandbox-write''"
| "PLUGIN_TO_AGENT_CAPABILITY SUBPROCESS_RUN = ''approved-commit''"
| "PLUGIN_TO_AGENT_CAPABILITY PLUGIN_LOAD = ''approved-commit''"
| "PLUGIN_TO_AGENT_CAPABILITY MCP_TOOL_CALL = ''approved-commit''"
| "PLUGIN_TO_AGENT_CAPABILITY HOST_LOG = ''read''"
| "PLUGIN_TO_AGENT_CAPABILITY HOST_NOTIFY = ''read''"

definition DANGEROUS_CAPABILITIES :: "plugin_capability list" where
  "DANGEROUS_CAPABILITIES = [SUBPROCESS_RUN, PLUGIN_LOAD, MCP_TOOL_CALL]"

record admission_result =
  ar_allowed :: bool
  ar_code :: string
  ar_message :: string
  ar_plugin_id :: string
  ar_agent_capability :: string
  ar_requested_capabilities :: "string list"
  ar_audit_event :: "audit_event option"

definition rank_or_zero :: "string \<Rightarrow> nat" where
  "rank_or_zero cap = (case CAPABILITY_RANK cap of None \<Rightarrow> 0 | Some n \<Rightarrow> n)"

definition highest_agent_capability :: "plugin_capability list \<Rightarrow> string" where
  "highest_agent_capability caps =
     fold (\<lambda>cap required. let mapped = PLUGIN_TO_AGENT_CAPABILITY cap in
         if rank_or_zero mapped > rank_or_zero required then mapped else required) caps ''read''"

text \<open>\<^verbatim>\<open>PurePosixPath(p).parts\<close> without the root.\<close>

definition posix_parts :: "string \<Rightarrow> string list" where
  "posix_parts p = filter (\<lambda>part. part \<noteq> [] \<and> part \<noteq> ''.'') (split_char (CHR ''/'') p)"

definition safe_relative_path :: "string \<Rightarrow> bool" where
  "safe_relative_path path =
     (if path = [] \<or> char_of (0::nat) \<in> set path then False
      else let pure = replace_char backslash_char ''/'' path
           in \<not> prefix ''/'' pure \<and> ''..'' \<notin> set (posix_parts pure))"

text \<open>The fields of an audit event the caller fixes; \<open>au_id\<close> and \<open>au_now\<close> are the generated ones.\<close>

record audit_env =
  au_id :: string
  au_now :: string
  au_session_id :: string
  au_actor :: string

definition requested_values :: "plugin_manifest \<Rightarrow> string list" where
  "requested_values m = map plugin_capability_value (pm_capabilities m)"

definition admission_event :: "audit_env \<Rightarrow> string \<Rightarrow> string \<Rightarrow> string \<Rightarrow> (string, pyval) dict \<Rightarrow> audit_event" where
  "admission_event au capability decision reason metadata =
     \<lparr> ae_event_id = au_id au, ae_timestamp = au_now au, ae_surface = ''plugin'', ae_session_id = au_session_id au,
       ae_actor = au_actor au, ae_tool = ''plugin_admission'', ae_capability = capability, ae_decision = decision,
       ae_reason = reason, ae_metadata = metadata \<rparr>"

text \<open>The audit session is \<open>None\<close>, or the list of its events.\<close>

definition record_admission ::
  "audit_env \<Rightarrow> plugin_manifest \<Rightarrow> string \<Rightarrow> string \<Rightarrow> string \<Rightarrow> string \<Rightarrow> audit_event list option
   \<Rightarrow> audit_event option \<times> audit_event list option" where
  "record_admission au m decision reason capability code session =
     (case session of
        None \<Rightarrow> (None, None)
      | Some es \<Rightarrow>
          (let e = admission_event au capability decision reason
                [(''code'', PStr code), (''plugin_id'', PStr (pm_plugin_id m)), (''plugin_version'', PStr (pm_version m)),
                 (''requested_capabilities'', PList (map PStr (requested_values m)))]
           in (Some e, Some (record_audit_event e (Some es)))))"

definition admission_outcome ::
  "audit_env \<Rightarrow> plugin_manifest \<Rightarrow> bool \<Rightarrow> string \<Rightarrow> string \<Rightarrow> audit_event list option
   \<Rightarrow> admission_result \<times> audit_event list option" where
  "admission_outcome au m allowed code message session =
     (let capability = highest_agent_capability (pm_capabilities m);
          (e, session') = record_admission au m (if allowed then ''allow'' else ''deny'') message capability code session
      in (\<lparr> ar_allowed = allowed, ar_code = code, ar_message = message, ar_plugin_id = pm_plugin_id m,
            ar_agent_capability = capability, ar_requested_capabilities = requested_values m, ar_audit_event = e \<rparr>, session'))"

definition deny :: "audit_env \<Rightarrow> plugin_manifest \<Rightarrow> string \<Rightarrow> string \<Rightarrow> audit_event list option \<Rightarrow> admission_result \<times> audit_event list option" where
  "deny au m code message session = admission_outcome au m False code message session"

definition allow :: "audit_env \<Rightarrow> plugin_manifest \<Rightarrow> audit_event list option \<Rightarrow> admission_result \<times> audit_event list option" where
  "allow au m session = admission_outcome au m True ''PLUGIN_ADMITTED'' ''plugin admitted'' session"

definition validate_permissions :: "plugin_manifest \<Rightarrow> bool \<times> string \<times> string" where
  "validate_permissions m =
     (let caps = set (pm_capabilities m); fs = pp_filesystem (pm_permissions m); network = pp_network (pm_permissions m) in
      case find (\<lambda>p. \<not> safe_relative_path p) (fp_read fs @ fp_write fs) of
        Some p \<Rightarrow> (False, ''PLUGIN_UNSAFE_PATH'', ''plugin declares unsafe filesystem path: '' @ p)
      | None \<Rightarrow>
          if fp_read fs \<noteq> [] \<and> FILESYSTEM_READ \<notin> caps
          then (False, ''PLUGIN_PERMISSION_MISMATCH'', ''filesystem read paths require filesystem:read capability'')
          else if fp_write fs \<noteq> [] \<and> FILESYSTEM_WRITE \<notin> caps
          then (False, ''PLUGIN_PERMISSION_MISMATCH'', ''filesystem write paths require filesystem:write capability'')
          else if (np_allowed_domains network \<noteq> [] \<or> np_allowed_schemes network \<noteq> []) \<and> NETWORK_CONNECT \<notin> caps
          then (False, ''PLUGIN_PERMISSION_MISMATCH'', ''network permissions require network:connect capability'')
          else if list_ex (\<lambda>d. CHR ''*'' \<in> set d \<or> d = []) (np_allowed_domains network)
          then (False, ''PLUGIN_NETWORK_SCOPE_INVALID'', ''network domains must be explicit and non-wildcard'')
          else if list_ex (\<lambda>sch. sch \<noteq> ''https'') (np_allowed_schemes network)
          then (False, ''PLUGIN_NETWORK_SCOPE_INVALID'', ''plugin network access is limited to https schemes'')
          else if pp_subprocess (pm_permissions m) \<and> SUBPROCESS_RUN \<notin> caps
          then (False, ''PLUGIN_PERMISSION_MISMATCH'', ''subprocess permission requires subprocess:run capability'')
          else (True, ''PLUGIN_PERMISSIONS_OK'', ''permissions are scoped''))"

record admission_policy =
  ap_host_version :: string
  ap_require_signature :: bool
  ap_trusted_fingerprints :: "string set option"
  ap_trusted_public_keys :: "(string, bytes) dict option"
  ap_allow_dangerous :: bool

definition validate_signature_policy :: "crypto \<Rightarrow> admission_policy \<Rightarrow> plugin_manifest \<Rightarrow> bool \<times> string \<times> string" where
  "validate_signature_policy cr ap m =
     (if \<not> ap_require_signature ap then (True, ''PLUGIN_SIGNATURE_OK'', ''signature verification is not required'')
      else case pm_signing m of
        None \<Rightarrow> (False, ''PLUGIN_SIGNATURE_REQUIRED'', ''signed plugin manifest is required by default'')
      | Some s \<Rightarrow>
          if (case ap_trusted_fingerprints ap of None \<Rightarrow> False | Some fps \<Rightarrow> ps_public_key_fingerprint s \<notin> fps)
          then (False, ''PLUGIN_SIGNER_UNTRUSTED'', ''plugin signer fingerprint is not trusted'')
          else case ap_trusted_public_keys ap of
            None \<Rightarrow> (False, ''PLUGIN_SIGNER_UNTRUSTED'', ''trusted public key is required for plugin signature verification'')
          | Some keys \<Rightarrow>
              if dict_get keys (ps_public_key_fingerprint s) = None
              then (False, ''PLUGIN_SIGNER_UNTRUSTED'', ''trusted public key is required for plugin signature verification'')
              else let (verified, reason) = verify_plugin_signature cr m keys in
                if \<not> verified then (False, ''PLUGIN_SIGNATURE_INVALID'', reason)
                else (True, ''PLUGIN_SIGNATURE_OK'', ''plugin signature verified''))"

definition dangerous_values :: "plugin_manifest \<Rightarrow> string list" where
  "dangerous_values m = sorted_set (map plugin_capability_value (filter (\<lambda>c. c \<in> set DANGEROUS_CAPABILITIES) (pm_capabilities m)))"

definition admit_manifest ::
  "crypto \<Rightarrow> admission_policy \<Rightarrow> audit_env \<Rightarrow> plugin_manifest \<Rightarrow> audit_event list option \<Rightarrow> admission_result \<times> audit_event list option" where
  "admit_manifest cr ap au m session =
     (let (compatible, reason) = is_host_version_compatible m (ap_host_version ap) in
      if \<not> compatible then deny au m ''PLUGIN_VERSION_INCOMPATIBLE'' reason session
      else let (signature_ok, signature_code, signature_message) = validate_signature_policy cr ap m in
      if \<not> signature_ok then deny au m signature_code signature_message session
      else if dangerous_values m \<noteq> [] \<and> \<not> ap_allow_dangerous ap
      then deny au m ''PLUGIN_DANGEROUS_CAPABILITY_DENIED''
             (''dangerous plugin capabilities require explicit admission: '' @ str_join '', '' (dangerous_values m)) session
      else let (ok, code, message) = validate_permissions m in
      if \<not> ok then deny au m code message session else allow au m session)"

text \<open>
  The error of a raw manifest that pydantic rejects: a location and a message per field, and the
  \<^verbatim>\<open>plugin_id\<close> of the raw mapping when it is a string.
\<close>

definition format_validation_error :: "(string list \<times> string) list \<Rightarrow> string" where
  "format_validation_error errors =
     str_join ''; '' (map (\<lambda>(loc, msg). (let l = str_join ''.'' loc in if l = [] then ''manifest'' else l) @ '': '' @ msg) errors)"

definition deny_invalid_schema ::
  "audit_env \<Rightarrow> string \<Rightarrow> (string list \<times> string) list \<Rightarrow> audit_event list option \<Rightarrow> admission_result \<times> audit_event list option" where
  "deny_invalid_schema au plugin_id errors session =
     (let message = ''plugin manifest schema validation failed: '' @ format_validation_error errors;
          e = admission_event au ''read'' ''deny'' message
                [(''code'', PStr ''PLUGIN_SCHEMA_INVALID''), (''plugin_id'', PStr plugin_id), (''requested_capabilities'', PList [])]
      in (\<lparr> ar_allowed = False, ar_code = ''PLUGIN_SCHEMA_INVALID'', ar_message = message, ar_plugin_id = plugin_id,
            ar_agent_capability = ''read'', ar_requested_capabilities = [],
            ar_audit_event = map_option (\<lambda>_. e) session \<rparr>, map_option (\<lambda>es. record_audit_event e (Some es)) session))"

text \<open>A manifest to admit: a validated one, or a raw mapping with what its validation gives.\<close>

datatype manifest_input =
    Validated plugin_manifest
  | Raw string "((string list \<times> string) list) + plugin_manifest"

fun admit_plugin_manifest ::
  "crypto \<Rightarrow> admission_policy \<Rightarrow> audit_env \<Rightarrow> manifest_input \<Rightarrow> audit_event list option \<Rightarrow> admission_result \<times> audit_event list option" where
  "admit_plugin_manifest cr ap au (Validated m) session = admit_manifest cr ap au m session"
| "admit_plugin_manifest cr ap au (Raw _ (Inr m)) session = admit_manifest cr ap au m session"
| "admit_plugin_manifest cr ap au (Raw plugin_id (Inl errors)) session = deny_invalid_schema au plugin_id errors session"

section \<open>Running a plugin\<close>

datatype run_outcome =
    Finished int string string \<comment> \<open>return code, standard output, standard error\<close>
  | TimedOut
  | Run_Failed string

text \<open>
  What the runtime finds on the host: the manifest, the entry point after resolution, the
  environment, and the subprocess. Durations are measured outside.
\<close>

record plugin_host =
  ph_manifest_path :: string
  ph_manifest_exists :: bool
  ph_load :: "plugin_manifest result"
  ph_resolve :: "string \<Rightarrow> string"
  ph_inside :: "string \<Rightarrow> bool"
  ph_is_file :: "string \<Rightarrow> bool"
  ph_environ :: "(string, string) dict"
  ph_python :: string
  ph_payload :: string
  ph_run :: "string list \<Rightarrow> string \<Rightarrow> (string, string) dict \<Rightarrow> run_outcome"
  ph_json :: "string \<Rightarrow> pyval option"
  ph_duration :: pyfloat
  ph_version :: string
  ph_seconds :: string

record runtime_config =
  rc_allow_unverified_signatures :: bool
  rc_allowed_env_vars :: "string set"

definition default_runtime_config :: runtime_config where
  "default_runtime_config =
     \<lparr> rc_allow_unverified_signatures = False, rc_allowed_env_vars = {''PATH'', ''SYSTEMROOT'', ''TEMP'', ''TMP''} \<rparr>"

record execution_result =
  er_plugin_id :: string
  er_success :: bool
  er_status_code :: int
  er_stdout :: string
  er_stderr :: string
  er_output_data :: pyval
  er_duration_ms :: pyfloat
  er_denial_reason :: "string option"
  er_audit_events :: "audit_event list"

definition denied_run :: "string \<Rightarrow> int \<Rightarrow> string \<Rightarrow> execution_result" where
  "denied_run plugin_id status reason =
     \<lparr> er_plugin_id = plugin_id, er_success = False, er_status_code = status, er_stdout = [], er_stderr = [],
       er_output_data = PDict [], er_duration_ms = 0, er_denial_reason = Some reason, er_audit_events = [] \<rparr>"

definition clean_env :: "runtime_config \<Rightarrow> plugin_host \<Rightarrow> string \<Rightarrow> (string, string) dict" where
  "clean_env config host plugin_id =
     dict_set ''ZAPTRACE_SANDBOX_ACTIVE'' ''1''
       (dict_set ''ZAPTRACE_PLUGIN_ID'' plugin_id
         (filter (\<lambda>(k, _). upper k \<in> rc_allowed_env_vars config) (ph_environ host)))"

definition run_result :: "plugin_host \<Rightarrow> string \<Rightarrow> run_outcome \<Rightarrow> execution_result" where
  "run_result host plugin_id out =
     (case out of
        Finished code stdout stderr \<Rightarrow>
          (let data = (if strip stdout = [] then PDict []
                       else case ph_json host (strip stdout) of None \<Rightarrow> PDict [] | Some (PDict d) \<Rightarrow> PDict d | Some v \<Rightarrow> PDict [(''raw'', v)])
           in \<lparr> er_plugin_id = plugin_id, er_success = (code = 0), er_status_code = code, er_stdout = stdout, er_stderr = stderr,
                er_output_data = data, er_duration_ms = ph_duration host, er_denial_reason = None, er_audit_events = [] \<rparr>)
      | TimedOut \<Rightarrow>
          (denied_run plugin_id (- 5) ''Plugin CPU/execution timeout expired'')
            \<lparr> er_stderr := ''Execution timed out after '' @ ph_seconds host @ ''s'', er_duration_ms := ph_duration host \<rparr>
      | Run_Failed e \<Rightarrow>
          (denied_run plugin_id (- 6) (''Subprocess execution failure: '' @ e)) \<lparr> er_stderr := e, er_duration_ms := ph_duration host \<rparr>)"

text \<open>\<open>run_plugin\<close> gives its result and the processes it started, with command and environment.\<close>

definition run_plugin ::
  "crypto \<Rightarrow> runtime_config \<Rightarrow> audit_env \<Rightarrow> plugin_host \<Rightarrow> execution_result \<times> (string list \<times> (string, string) dict) list" where
  "run_plugin cr config au host =
     (if \<not> ph_manifest_exists host then (denied_run ''unknown'' (- 1) (''Missing plugin manifest: '' @ ph_manifest_path host), [])
      else case ph_load host of
        Inl e \<Rightarrow> (denied_run ''unknown'' (- 1) (''Invalid plugin manifest: '' @ exc_str e), [])
      | Inr m \<Rightarrow>
          (let plugin_id = pm_plugin_id m;
               ap = \<lparr> ap_host_version = ph_version host, ap_require_signature = \<not> rc_allow_unverified_signatures config,
                      ap_trusted_fingerprints = None, ap_trusted_public_keys = None, ap_allow_dangerous = False \<rparr>;
               (admission, _) = admit_plugin_manifest cr ap au (Validated m) None
           in if \<not> ar_allowed admission then
                ((denied_run plugin_id (- 2) (''Admission denied ['' @ ar_code admission @ '']: '' @ ar_message admission))
                   \<lparr> er_audit_events := (case ar_audit_event admission of None \<Rightarrow> [] | Some e \<Rightarrow> [e]) \<rparr>, [])
              else
                (let entry_path = ph_resolve host (pe_path (pm_entry m)) in
                 if \<not> ph_inside host entry_path then
                   (denied_run plugin_id (- 3) ''Entry point attempts path traversal outside plugin directory'', [])
                 else if \<not> ph_is_file host entry_path then
                   (denied_run plugin_id (- 4) (''Plugin entry point is not a regular file: '' @ entry_path), [])
                 else if pe_type (pm_entry m) = WASM then
                   (denied_run plugin_id (- 7) ''WASM plugin execution requires a dedicated sandboxed WASI runtime'', [])
                 else
                   (let env = clean_env config host plugin_id;
                        cmd = (if pe_type (pm_entry m) = PYTHON_MODULE then [ph_python host, entry_path] else [entry_path])
                    in (run_result host plugin_id (ph_run host cmd (ph_payload host) env), [(cmd, env)])))))"

section \<open>What admission decides\<close>

definition properly_signed :: "crypto \<Rightarrow> admission_policy \<Rightarrow> plugin_manifest \<Rightarrow> bool" where
  "properly_signed cr ap m = (\<exists>s keys key sig. pm_signing m = Some s
     \<and> (\<forall>fps. ap_trusted_fingerprints ap = Some fps \<longrightarrow> ps_public_key_fingerprint s \<in> fps)
     \<and> ap_trusted_public_keys ap = Some keys \<and> dict_get keys (ps_public_key_fingerprint s) = Some key
     \<and> cr_sha256_hex cr key = ps_public_key_fingerprint s \<and> cr_installed cr \<and> cr_key cr key = None
     \<and> cr_decode_b64 cr (ps_signature s) = Inr sig
     \<and> cr_verify cr key sig (cr_canonical_payload cr (signed_part m)) = None)"

lemma verify_plugin_signature_iff:
  "fst (verify_plugin_signature cr m keys) \<longleftrightarrow>
     (\<exists>s key sig. pm_signing m = Some s \<and> dict_get keys (ps_public_key_fingerprint s) = Some key
        \<and> cr_sha256_hex cr key = ps_public_key_fingerprint s \<and> cr_installed cr \<and> cr_key cr key = None
        \<and> cr_decode_b64 cr (ps_signature s) = Inr sig
        \<and> cr_verify cr key sig (cr_canonical_payload cr (signed_part m)) = None)"
  by (auto simp: verify_plugin_signature_def split: option.splits sum.splits)

lemma signature_policy_iff:
  "fst (validate_signature_policy cr ap m) \<longleftrightarrow> \<not> ap_require_signature ap \<or> properly_signed cr ap m"
proof (cases "ap_require_signature ap")
  case True
  show ?thesis
  proof (cases "pm_signing m")
    case None
    then show ?thesis using True by (simp add: validate_signature_policy_def properly_signed_def)
  next
    case (Some s)
    show ?thesis
    proof (cases "ap_trusted_public_keys ap")
      case None
      then show ?thesis using True Some by (auto simp: validate_signature_policy_def properly_signed_def)
    next
      case keys: (Some keys)
      have v: "(case verify_plugin_signature cr m keys of (verified, reason) \<Rightarrow>
          if \<not> verified then (False, ''PLUGIN_SIGNATURE_INVALID'', reason) else (True, ''PLUGIN_SIGNATURE_OK'', ''plugin signature verified''))
        = (if fst (verify_plugin_signature cr m keys) then (True, ''PLUGIN_SIGNATURE_OK'', ''plugin signature verified'')
           else (False, ''PLUGIN_SIGNATURE_INVALID'', snd (verify_plugin_signature cr m keys)))"
        by (simp split: prod.splits)
      show ?thesis
        unfolding validate_signature_policy_def Let_def keys Some option.case v verify_plugin_signature_iff properly_signed_def
        using True by (auto simp: split: option.splits)
    qed
  qed
qed (simp add: validate_signature_policy_def)

definition permissions_scoped :: "plugin_manifest \<Rightarrow> bool" where
  "permissions_scoped m =
     (let caps = set (pm_capabilities m); fs = pp_filesystem (pm_permissions m); net = pp_network (pm_permissions m) in
      (\<forall>p\<in>set (fp_read fs) \<union> set (fp_write fs). safe_relative_path p)
      \<and> (fp_read fs \<noteq> [] \<longrightarrow> FILESYSTEM_READ \<in> caps) \<and> (fp_write fs \<noteq> [] \<longrightarrow> FILESYSTEM_WRITE \<in> caps)
      \<and> (np_allowed_domains net \<noteq> [] \<or> np_allowed_schemes net \<noteq> [] \<longrightarrow> NETWORK_CONNECT \<in> caps)
      \<and> (\<forall>d\<in>set (np_allowed_domains net). d \<noteq> [] \<and> CHR ''*'' \<notin> set d) \<and> set (np_allowed_schemes net) \<subseteq> {''https''}
      \<and> (pp_subprocess (pm_permissions m) \<longrightarrow> SUBPROCESS_RUN \<in> caps))"

lemma find_None: "find P xs = None \<longleftrightarrow> (\<forall>x\<in>set xs. \<not> P x)"
  by (auto simp: find_None_iff)

lemma validate_permissions_iff: "fst (validate_permissions m) \<longleftrightarrow> permissions_scoped m"
proof (cases "find (\<lambda>p. \<not> safe_relative_path p) (fp_read (pp_filesystem (pm_permissions m)) @ fp_write (pp_filesystem (pm_permissions m)))")
  case None
  then have "\<forall>p\<in>set (fp_read (pp_filesystem (pm_permissions m))) \<union> set (fp_write (pp_filesystem (pm_permissions m))). safe_relative_path p"
    by (auto simp: find_None)
  then show ?thesis by (auto simp: validate_permissions_def None permissions_scoped_def list_ex_iff Let_def)
next
  case (Some p)
  then have "\<not> (\<forall>p\<in>set (fp_read (pp_filesystem (pm_permissions m))) \<union> set (fp_write (pp_filesystem (pm_permissions m))). safe_relative_path p)"
    using find_None [of "\<lambda>p. \<not> safe_relative_path p" "fp_read (pp_filesystem (pm_permissions m)) @ fp_write (pp_filesystem (pm_permissions m))"]
    by simp
  then show ?thesis by (simp add: validate_permissions_def Some permissions_scoped_def Let_def)
qed

section \<open>Theorems\<close>

lemma admission_outcome_allowed [simp]: "ar_allowed (fst (admission_outcome au m b code msg session)) = b"
  by (simp add: admission_outcome_def record_admission_def Let_def split: option.splits)

lemma sorted_set_map_Nil: "sorted_set (map f xs) = [] \<longleftrightarrow> xs = []"
  by simp

lemma admit_manifest_cases:
  "admit_manifest cr ap au m session =
     (if \<not> fst (is_host_version_compatible m (ap_host_version ap))
      then admission_outcome au m False ''PLUGIN_VERSION_INCOMPATIBLE'' (snd (is_host_version_compatible m (ap_host_version ap))) session
      else if \<not> fst (validate_signature_policy cr ap m)
      then admission_outcome au m False (fst (snd (validate_signature_policy cr ap m))) (snd (snd (validate_signature_policy cr ap m))) session
      else if dangerous_values m \<noteq> [] \<and> \<not> ap_allow_dangerous ap
      then admission_outcome au m False ''PLUGIN_DANGEROUS_CAPABILITY_DENIED''
             (''dangerous plugin capabilities require explicit admission: '' @ str_join '', '' (dangerous_values m)) session
      else if \<not> fst (validate_permissions m)
      then admission_outcome au m False (fst (snd (validate_permissions m))) (snd (snd (validate_permissions m))) session
      else admission_outcome au m True ''PLUGIN_ADMITTED'' ''plugin admitted'' session)"
  by (simp add: admit_manifest_def deny_def allow_def split: prod.splits)

definition version_in_range :: "plugin_manifest \<Rightarrow> string \<Rightarrow> bool" where
  "version_in_range m host_version = (\<exists>host minimum maximum. version_tuple host_version = Inr host
     \<and> version_tuple (pm_min_zaptrace_version m) = Inr minimum \<and> version_tuple (pm_max_zaptrace_version m) = Inr maximum
     \<and> minimum \<le> host \<and> host \<le> maximum)"

lemma compatible_iff: "fst (is_host_version_compatible m v) \<longleftrightarrow> version_in_range m v"
  by (auto simp: is_host_version_compatible_def version_in_range_def not_less split: sum.splits)

text \<open>
  C22: A plugin is admitted exactly when the host version lies in its range, its signature over
  everything but the signature verifies under a trusted key (unless none is required), it asks
  for no dangerous capability (unless they are allowed), and its paths, domains, schemes and
  subprocess permission are scoped and covered by its capabilities.
\<close>

theorem admission_exact:
  "ar_allowed (fst (admit_plugin_manifest cr ap au (Validated m) session)) \<longleftrightarrow>
     version_in_range m (ap_host_version ap) \<and> (\<not> ap_require_signature ap \<or> properly_signed cr ap m)
     \<and> (set (pm_capabilities m) \<inter> set DANGEROUS_CAPABILITIES = {} \<or> ap_allow_dangerous ap) \<and> permissions_scoped m"
proof -
  have d: "dangerous_values m \<noteq> [] \<longleftrightarrow> set (pm_capabilities m) \<inter> set DANGEROUS_CAPABILITIES \<noteq> {}"
    unfolding dangerous_values_def sorted_set_map_Nil filter_empty_conv by blast
  show ?thesis
    unfolding admit_plugin_manifest.simps admit_manifest_cases d compatible_iff signature_policy_iff validate_permissions_iff
    by simp
qed

text \<open>The capability of a decision is the highest any requested capability maps to.\<close>

lemma plugin_capability_ranked: "\<exists>n. CAPABILITY_RANK (PLUGIN_TO_AGENT_CAPABILITY c) = Some n"
  by (cases c) (simp_all add: CAPABILITY_RANK_def CAPABILITY_LEVELS_def)

lemma highest_fold:
  "rank_or_zero (fold (\<lambda>cap required. let mapped = PLUGIN_TO_AGENT_CAPABILITY cap in
       if rank_or_zero mapped > rank_or_zero required then mapped else required) caps r)
     = Max (insert (rank_or_zero r) ((\<lambda>c. rank_or_zero (PLUGIN_TO_AGENT_CAPABILITY c)) ` set caps))"
proof (induction caps arbitrary: r)
  case (Cons c caps)
  let ?r = "if rank_or_zero (PLUGIN_TO_AGENT_CAPABILITY c) > rank_or_zero r then PLUGIN_TO_AGENT_CAPABILITY c else r"
  have m: "Max (insert (max a b) S) = Max (insert a (insert b S))" if "finite S" for a b :: nat and S
    using that by (cases "S = {}") (simp_all add: max.assoc)
  have "rank_or_zero ?r = max (rank_or_zero r) (rank_or_zero (PLUGIN_TO_AGENT_CAPABILITY c))" by (simp add: max_def)
  then show ?case using Cons.IH [of ?r] unfolding fold_Cons comp_def Let_def by (simp only: m finite_imageI finite_set list.simps image_insert)
qed simp

theorem decision_capability_exact:
  "rank_or_zero (ar_agent_capability (fst (admit_plugin_manifest cr ap au (Validated m) session)))
     = Max (insert 0 ((\<lambda>c. rank_or_zero (PLUGIN_TO_AGENT_CAPABILITY c)) ` set (pm_capabilities m)))"
proof -
  have "ar_agent_capability (fst (admission_outcome au m b code msg session)) = highest_agent_capability (pm_capabilities m)" for b code msg
    by (simp add: admission_outcome_def record_admission_def Let_def split: option.splits)
  then have "ar_agent_capability (fst (admit_plugin_manifest cr ap au (Validated m) session)) = highest_agent_capability (pm_capabilities m)"
    by (simp add: admit_manifest_cases)
  moreover have "rank_or_zero ''read'' = 0" by (simp add: rank_or_zero_def CAPABILITY_RANK_def CAPABILITY_LEVELS_def)
  ultimately show ?thesis using highest_fold [of "pm_capabilities m" "''read''"] by (simp add: highest_agent_capability_def)
qed

text \<open>
  Every decision on a manifest, valid or not, adds exactly one event to an audit session; the
  event says allow exactly for an admitted plugin and carries the message of the result.
\<close>

theorem admission_audited:
  "\<exists>e. snd (admit_plugin_manifest cr ap au input (Some es)) = Some (es @ [e])
      \<and> ar_audit_event (fst (admit_plugin_manifest cr ap au input (Some es))) = Some e
      \<and> ae_decision e = (if ar_allowed (fst (admit_plugin_manifest cr ap au input (Some es))) then ''allow'' else ''deny'')
      \<and> ae_reason e = ar_message (fst (admit_plugin_manifest cr ap au input (Some es)))
      \<and> ae_capability e = ar_agent_capability (fst (admit_plugin_manifest cr ap au input (Some es)))"
proof -
  define audited where "audited p \<longleftrightarrow> (\<exists>e. snd p = Some (es @ [e]) \<and> ar_audit_event (fst p) = Some e
      \<and> ae_decision e = (if ar_allowed (fst p) then ''allow'' else ''deny'') \<and> ae_reason e = ar_message (fst p)
      \<and> ae_capability e = ar_agent_capability (fst p))" for p :: "admission_result \<times> audit_event list option"
  have "audited (admission_outcome au m b code msg (Some es))" for m b code msg
    by (simp add: audited_def admission_outcome_def record_admission_def admission_event_def record_audit_event_def Let_def)
  then have "audited (admit_manifest cr ap au m (Some es))" for m by (simp add: admit_manifest_cases)
  moreover have "audited (deny_invalid_schema au plugin_id errors (Some es))" for plugin_id errors
    by (simp add: audited_def deny_invalid_schema_def admission_event_def record_audit_event_def Let_def)
  ultimately have "audited (admit_plugin_manifest cr ap au input (Some es))"
    by (cases "(cr, ap, au, input, Some es)" rule: admit_plugin_manifest.cases) auto
  then show ?thesis by (simp only: audited_def)
qed

text \<open>Paths a plugin may declare stay below the directory they are resolved against.\<close>

fun walk_parts :: "string list \<Rightarrow> string list \<Rightarrow> string list" where
  "walk_parts base [] = base"
| "walk_parts base (p # ps) = walk_parts (if p = ''..'' then butlast base else base @ [p]) ps"

lemma walk_parts_plain: "''..'' \<notin> set ps \<Longrightarrow> walk_parts base ps = base @ ps"
  by (induction ps arbitrary: base) auto

theorem safe_path_contained:
  assumes "safe_relative_path path"
  shows "prefix dir (walk_parts dir (posix_parts (replace_char backslash_char ''/'' path)))"
  using assms walk_parts_plain by (auto simp: safe_relative_path_def Let_def split: if_splits)

lemma env_keys: "set (dict_keys (filter (\<lambda>(k, _). P k) d)) = {k \<in> set (dict_keys d). P k}"
  by (auto simp: dict_keys_def)

text \<open>
  The runtime starts at most one process, and only for a plugin that was admitted, whose
  entry is a regular file inside the plugin directory and not a WASM module, with an
  environment of allowed names and the two sandbox variables.
\<close>

theorem run_guarded:
  assumes "run_plugin cr config au host = (res, started)" "(cmd, env) \<in> set started"
  shows "\<exists>m ap. ph_load host = Inr m \<and> ap_require_signature ap = (\<not> rc_allow_unverified_signatures config)
    \<and> ar_allowed (fst (admit_plugin_manifest cr ap au (Validated m) None))
    \<and> ph_inside host (last cmd) \<and> ph_is_file host (last cmd) \<and> pe_type (pm_entry m) \<noteq> WASM
    \<and> started = [(cmd, env)]
    \<and> (\<forall>k\<in>set (dict_keys env). upper k \<in> rc_allowed_env_vars config \<or> k = ''ZAPTRACE_PLUGIN_ID'' \<or> k = ''ZAPTRACE_SANDBOX_ACTIVE'')"
proof -
  obtain m where m: "ph_manifest_exists host" "ph_load host = Inr m"
    using assms by (auto simp: run_plugin_def split: if_splits sum.splits)
  define ap where "ap = \<lparr> ap_host_version = ph_version host, ap_require_signature = \<not> rc_allow_unverified_signatures config,
    ap_trusted_fingerprints = None, ap_trusted_public_keys = None, ap_allow_dangerous = False \<rparr>"
  define entry where "entry = ph_resolve host (pe_path (pm_entry m))"
  note run = assms(1) [unfolded run_plugin_def m(2) sum.case Let_def, folded ap_def entry_def]
  have a: "ar_allowed (fst (admit_plugin_manifest cr ap au (Validated m) None))" "ph_inside host entry" "ph_is_file host entry"
      "pe_type (pm_entry m) \<noteq> WASM" "cmd = (if pe_type (pm_entry m) = PYTHON_MODULE then [ph_python host, entry] else [entry])"
      "env = clean_env config host (pm_plugin_id m)" "started = [(cmd, env)]"
    using run assms(2) m(1) by (auto split: if_splits prod.splits)
  have "last cmd = entry" using a(5) by simp
  moreover have "upper k \<in> rc_allowed_env_vars config \<or> k = ''ZAPTRACE_PLUGIN_ID'' \<or> k = ''ZAPTRACE_SANDBOX_ACTIVE''"
    if "k \<in> set (dict_keys env)" for k
    using that unfolding a(6) clean_env_def by (auto simp: pydict.set_keys_put env_keys)
  moreover have "ap_require_signature ap = (\<not> rc_allow_unverified_signatures config)" by (simp add: ap_def)
  ultimately show ?thesis using a m(2) by blast
qed

text \<open>With signatures required, the runtime starts nothing: it passes no trusted keys to admission.\<close>

theorem signed_runtime_runs_nothing: "rc_allow_unverified_signatures config = False \<Longrightarrow> snd (run_plugin cr config au host) = []"
proof (rule ccontr)
  assume u: "rc_allow_unverified_signatures config = False" and "snd (run_plugin cr config au host) \<noteq> []"
  then obtain m where m: "ph_load host = Inr m"
    "ar_allowed (fst (admit_plugin_manifest cr \<lparr> ap_host_version = ph_version host, ap_require_signature = True,
       ap_trusted_fingerprints = None, ap_trusted_public_keys = None, ap_allow_dangerous = False \<rparr> au (Validated m) None))"
    by (auto simp: run_plugin_def Let_def split: if_splits sum.splits prod.splits)
  then have "properly_signed cr \<lparr> ap_host_version = ph_version host, ap_require_signature = True,
       ap_trusted_fingerprints = None, ap_trusted_public_keys = None, ap_allow_dangerous = False \<rparr> m"
    unfolding admit_plugin_manifest.simps admit_manifest_cases compatible_iff signature_policy_iff by (simp split: if_splits)
  then show False by (simp add: properly_signed_def)
qed

text \<open>No run leaves an audit event: the runtime opens no audit session.\<close>

theorem runtime_never_audits: "er_audit_events (fst (run_plugin cr config au host)) = []"
proof -
  have "ar_audit_event (fst (admit_plugin_manifest cr ap au (Validated m) None)) = None" for ap m
    by (simp add: admit_manifest_cases admission_outcome_def record_admission_def)
  then show ?thesis
    by (auto simp: run_plugin_def denied_run_def run_result_def Let_def split: sum.splits prod.splits run_outcome.splits option.splits)
      (metis fst_conv option.distinct(1))+
qed

text \<open>On a host whose paths have drive letters, a declared path may still be absolute.\<close>

lemma drive_path_accepted: "safe_relative_path ''C:/Windows''"
  by code_simp

section \<open>Witnesses\<close>

definition demo_manifest :: plugin_manifest where
  "demo_manifest =
     \<lparr> pm_schema_url = PLUGIN_SCHEMA_URL, pm_api_version = ''1.0'', pm_plugin_id = ''acme.drc'', pm_name = ''Acme'', pm_version = ''1.2'',
       pm_min_zaptrace_version = ''1.0'', pm_max_zaptrace_version = ''2.0'', pm_entry = \<lparr> pe_type = PYTHON_MODULE, pe_path = ''main.py'' \<rparr>,
       pm_extension_points = [''drc_rule''], pm_capabilities = [DESIGN_READ, FILESYSTEM_READ],
       pm_permissions = \<lparr> pp_filesystem = \<lparr> fp_read = [''data/rules''], fp_write = [] \<rparr>,
          pp_network = \<lparr> np_allowed_domains = [], np_allowed_schemes = [] \<rparr>, pp_subprocess = False \<rparr>,
       pm_signing = Some \<lparr> ps_algorithm = ''ed25519'', ps_signature = ''c2ln'', ps_public_key_fingerprint = ''ab'' \<rparr>,
       pm_description = [], pm_author = [], pm_homepage = [], pm_repository = [], pm_documentation = [], pm_dependencies = [] \<rparr>"

text \<open>A toy scheme: the signature of a payload under a key is the key.\<close>

definition demo_crypto :: crypto where
  "demo_crypto = \<lparr> cr_sha256_hex = (\<lambda>_. ''ab''), cr_canonical_payload = (\<lambda>m. map of_char (pm_plugin_id m)), cr_decode_b64 = (\<lambda>_. Inr [7]),
     cr_installed = True, cr_key = (\<lambda>_. None), cr_verify = (\<lambda>key sig _. if sig = key then None else Some []) \<rparr>"

definition demo_audit :: audit_env where
  "demo_audit = \<lparr> au_id = ''e1'', au_now = ''t1'', au_session_id = ''s1'', au_actor = ''loader'' \<rparr>"

definition demo_host :: plugin_host where
  "demo_host = \<lparr> ph_manifest_path = ''/p/zaptrace-plugin.json'', ph_manifest_exists = True, ph_load = Inr demo_manifest, ph_resolve = (\<lambda>p. ''/p/'' @ p),
     ph_inside = (\<lambda>p. prefix ''/p/'' p), ph_is_file = (\<lambda>p. p = ''/p/main.py''), ph_environ = [(''PATH'', ''/bin''), (''SECRET'', ''x'')],
     ph_python = ''python3'', ph_payload = ''{}'', ph_run = (\<lambda>_ _ _. Finished 0 [] []), ph_json = (\<lambda>_. None), ph_duration = 1,
     ph_version = ''1.4.0'', ph_seconds = ''15.0'' \<rparr>"

theorem admission_exact_witness:
  "ar_allowed (fst (admit_plugin_manifest demo_crypto
     \<lparr> ap_host_version = ''1.4.0'', ap_require_signature = True, ap_trusted_fingerprints = Some {''ab''},
       ap_trusted_public_keys = Some [(''ab'', [7])], ap_allow_dangerous = False \<rparr> demo_audit (Validated demo_manifest) None))"
proof -
  have v: "version_tuple ''1.4.0'' = Inr (1, 4, 0)" "version_tuple ''1.0'' = Inr (1, 0, 0)" "version_tuple ''2.0'' = Inr (2, 0, 0)"
    by code_simp+
  have "version_in_range demo_manifest ''1.4.0''"
    by (simp add: version_in_range_def demo_manifest_def v)
  moreover have "properly_signed demo_crypto
     \<lparr> ap_host_version = ''1.4.0'', ap_require_signature = True, ap_trusted_fingerprints = Some {''ab''},
       ap_trusted_public_keys = Some [(''ab'', [7])], ap_allow_dangerous = False \<rparr> demo_manifest"
    by (simp add: properly_signed_def demo_manifest_def demo_crypto_def dict_get_def)
  moreover have "safe_relative_path ''data/rules''" by code_simp
  then have "permissions_scoped demo_manifest" by (simp add: permissions_scoped_def demo_manifest_def)
  ultimately show ?thesis
    unfolding admission_exact by (simp add: demo_manifest_def DANGEROUS_CAPABILITIES_def)
qed

theorem run_guarded_witness:
  "pe_type (pm_entry demo_manifest) \<noteq> WASM \<and> ph_is_file demo_host ''/p/main.py''
   \<and> snd (run_plugin demo_crypto \<lparr> rc_allow_unverified_signatures = True, rc_allowed_env_vars = {''PATH''} \<rparr> demo_audit demo_host)
     = [([''python3'', ''/p/main.py''], [(''PATH'', ''/bin''), (''ZAPTRACE_PLUGIN_ID'', ''acme.drc''), (''ZAPTRACE_SANDBOX_ACTIVE'', ''1'')])]"
proof -
  let ?run = "run_plugin demo_crypto \<lparr> rc_allow_unverified_signatures = True, rc_allowed_env_vars = {''PATH''} \<rparr> demo_audit demo_host"
  let ?env = "[(''PATH'', ''/bin''), (''ZAPTRACE_PLUGIN_ID'', ''acme.drc''), (''ZAPTRACE_SANDBOX_ACTIVE'', ''1'')]"
  have s: "snd ?run = [([''python3'', ''/p/main.py''], ?env)]" by code_simp
  then have "?run = (fst ?run, [([''python3'', ''/p/main.py''], ?env)])" by (metis prod.collapse)
  from run_guarded [OF this, of "[''python3'', ''/p/main.py'']" ?env]
  obtain m where "ph_load demo_host = Inr m" "pe_type (pm_entry m) \<noteq> WASM" "ph_is_file demo_host ''/p/main.py''" by auto
  then show ?thesis using s by (simp add: demo_host_def)
qed

end
