(* ===== verification/MCP_Auth.thy ===== *)
theory MCP_Auth
  imports Object_Access Access_Control
begin

text \<open>
  Authentication and authorization of the MCP HTTP transport: the choice of one profile from the
  environment (\<^verbatim>\<open>src/zaptrace/mcp/auth_config.py\<close>), the rules for network binds
  (\<^verbatim>\<open>security/network.py\<close>), the OAuth scopes, principals, token checks and the boundary
  middleware of \<^verbatim>\<open>mcp/oauth_provider.py\<close>, and the principals and capabilities
  \<^verbatim>\<open>mcp/server.py\<close> derives from a call. URL parsing, IP addresses, JSON and SHA-256 are
  arguments; the token verifier of FastMCP is third-party code and an argument too.
\<close>

section \<open>Binding to the network\<close>

definition truthy_flag :: "string \<Rightarrow> bool" where
  "truthy_flag raw = (lower (strip raw) \<in> {''1'', ''true'', ''yes'', ''on''})"

record network_auth =
  na_surface :: string
  na_host :: string
  na_loopback :: bool
  na_authentication_configured :: bool
  na_local_development :: bool

definition network_mode :: "network_auth \<Rightarrow> string" where
  "network_mode na =
     (if na_authentication_configured na then ''authenticated''
      else if na_local_development na then ''loopback-development'' else ''loopback-read-only'')"

text \<open>\<^verbatim>\<open>s.strip("[]")\<close>.\<close>

definition strip_brackets :: "string \<Rightarrow> string" where
  "strip_brackets s = (let b = (\<lambda>c. c = CHR ''['' \<or> c = CHR '']'') in rev (dropWhile b (rev (dropWhile b s))))"

text \<open>
  What is read from outside: \<open>ip_is_loopback\<close> is \<open>None\<close> when the text is no address,
  \<open>url_split\<close> is \<open>None\<close> when \<^verbatim>\<open>urlsplit\<close> or its port raise.
\<close>

record url_parts =
  up_scheme :: string
  up_hostname :: "string option"
  up_port :: "nat option"
  up_username :: "string option"
  up_password :: "string option"
  up_query :: string
  up_fragment :: string

record net_env =
  ip_is_loopback :: "string \<Rightarrow> bool option"
  url_split :: "string \<Rightarrow> url_parts option"
  url_canonical :: "string \<Rightarrow> string"
  ne_sha256 :: "string \<Rightarrow> string"
  ne_json_loads :: "string \<Rightarrow> pyval option"

definition is_loopback_host :: "net_env \<Rightarrow> string \<Rightarrow> bool" where
  "is_loopback_host ne host =
     (let normalized = strip_brackets (lower (strip host))
      in if normalized = ''localhost'' \<or> normalized = ''ip6-localhost'' then True
         else case ip_is_loopback ne normalized of None \<Rightarrow> False | Some b \<Rightarrow> b)"

definition validate_network_auth_configuration :: "net_env \<Rightarrow> string \<Rightarrow> string \<Rightarrow> string \<Rightarrow> bool \<Rightarrow> network_auth result" where
  "validate_network_auth_configuration ne surface host token allow_local =
     (if strip host = [] then Inl (RuntimeError (surface @ '' bind host must not be empty''))
      else
        (let loopback = is_loopback_host ne host; configured = (token \<noteq> []) in
         if \<not> loopback \<and> \<not> configured then
           Inl (RuntimeError (surface @ '' refuses non-loopback bind '' @ repr_str host @ '' without authentication; ''
             @ ''configure the transport bearer token or bind to 127.0.0.1/::1''))
         else if \<not> loopback \<and> allow_local then
           Inl (RuntimeError (surface @ '' local-development authorization is restricted to loopback binds; ''
             @ ''disable the local-development override before binding to '' @ repr_str host))
         else Inr \<lparr> na_surface = surface, na_host = host, na_loopback = loopback, na_authentication_configured = configured,
                    na_local_development = (loopback \<and> allow_local) \<rparr>))"

definition MIN_PORT :: int where "MIN_PORT = 1"
definition MAX_PORT :: int where "MAX_PORT = 65535"

definition port_value :: "string \<Rightarrow> int" where
  "port_value s = foldl (\<lambda>acc c. 10 * acc + int (of_char c - 48)) 0 s"

definition resolve_network_bind ::
  "(string, string) dict \<Rightarrow> string \<Rightarrow> string option \<Rightarrow> int option \<Rightarrow> string \<Rightarrow> string \<Rightarrow> string \<Rightarrow> int \<Rightarrow> (string \<times> int) result" where
  "resolve_network_bind environ surface host port host_env port_env default_host default_port =
     (let resolved_host = strip (case host of Some h \<Rightarrow> h | None \<Rightarrow> (case dict_get environ host_env of None \<Rightarrow> default_host | Some h \<Rightarrow> h)) in
      if resolved_host = [] then Inl (RuntimeError (surface @ '' bind host from '' @ host_env @ '' must not be empty''))
      else
        rbind (case port of
            Some p \<Rightarrow> Inr p
          | None \<Rightarrow>
              (case dict_get environ port_env of
                 None \<Rightarrow> Inr default_port
               | Some raw \<Rightarrow>
                   (let normalized = strip raw in
                    if normalized = [] \<or> \<not> list_all is_digit normalized
                    then Inl (RuntimeError (surface @ '' '' @ port_env @ '' must be an integer between 1 and 65535''))
                    else Inr (port_value normalized))))
          (\<lambda>resolved_port.
             if \<not> (MIN_PORT \<le> resolved_port \<and> resolved_port \<le> MAX_PORT)
             then Inl (RuntimeError (surface @ '' '' @ port_env @ '' must be between 1 and 65535''))
             else Inr (resolved_host, resolved_port)))"

section \<open>The authentication profile\<close>

datatype auth_profile = LOCAL | STATIC_BEARER | OAUTH_JWT

fun auth_profile_value :: "auth_profile \<Rightarrow> string" where
  "auth_profile_value LOCAL = ''local''"
| "auth_profile_value STATIC_BEARER = ''static-bearer''"
| "auth_profile_value OAUTH_JWT = ''oauth-jwt''"

definition CONTRACT_VERSION :: string where "CONTRACT_VERSION = ''1''"

definition OAUTH_ENV_NAMES :: "string list" where
  "OAUTH_ENV_NAMES = [''ZAPTRACE_MCP_PUBLIC_BASE_URL'', ''ZAPTRACE_MCP_AUTH_RESOURCE_URI'',
     ''ZAPTRACE_MCP_AUTHORIZATION_SERVER'', ''ZAPTRACE_MCP_AUTH_JWKS_URI'']"

definition LEGACY_GRANT_ENV_NAMES :: "string list" where
  "LEGACY_GRANT_ENV_NAMES = [''ZAPTRACE_MCP_HTTP_TOKEN'', ''ZAPTRACE_MCP_TOKEN_SUBJECT'', ''ZAPTRACE_MCP_CAPABILITIES'']"

record mcp_auth_configuration =
  mc_profile :: auth_profile
  mc_host :: string
  mc_loopback :: bool
  mc_explicit :: bool
  mc_contract_version :: "string option"
  mc_static_token :: string
  mc_public_base_url :: "string option"
  mc_resource_uri :: "string option"
  mc_authorization_server :: "string option"
  mc_jwks_uri :: "string option"

definition authentication_configured :: "mcp_auth_configuration \<Rightarrow> bool" where
  "authentication_configured c = (mc_profile c \<in> {STATIC_BEARER, OAUTH_JWT})"

definition env_value :: "(string, string) dict \<Rightarrow> string \<Rightarrow> string" where
  "env_value environ name = strip (case dict_get environ name of None \<Rightarrow> [] | Some v \<Rightarrow> v)"

definition nonempty_names :: "(string, string) dict \<Rightarrow> string list \<Rightarrow> string list" where
  "nonempty_names environ names = filter (\<lambda>n. env_value environ n \<noteq> []) names"

definition parse_https_url :: "net_env \<Rightarrow> string \<Rightarrow> string \<Rightarrow> url_parts result" where
  "parse_https_url ne name value =
     (case url_split ne value of
        None \<Rightarrow> Inl (RuntimeError (name @ '' must be a valid HTTPS URL''))
      | Some u \<Rightarrow>
          if lower (up_scheme u) \<noteq> ''https'' then Inl (RuntimeError (name @ '' must use HTTPS''))
          else if up_hostname u \<in> {None, Some []} then Inl (RuntimeError (name @ '' must include a hostname''))
          else if up_username u \<noteq> None \<or> up_password u \<noteq> None then Inl (RuntimeError (name @ '' must not contain credentials''))
          else if up_query u \<noteq> [] then Inl (RuntimeError (name @ '' must not contain a query''))
          else if up_fragment u \<noteq> [] then Inl (RuntimeError (name @ '' must not contain a fragment''))
          else Inr u)"

definition origin :: "url_parts \<Rightarrow> string \<times> string \<times> nat" where
  "origin u = (lower (up_scheme u), lower (case up_hostname u of None \<Rightarrow> [] | Some h \<Rightarrow> h),
     (case up_port u of None \<Rightarrow> 443 | Some 0 \<Rightarrow> 443 | Some p \<Rightarrow> p))"

fun parse_urls :: "net_env \<Rightarrow> (string \<times> string) list \<Rightarrow> (string, url_parts) dict result" where
  "parse_urls ne [] = Inr []"
| "parse_urls ne ((name, value) # rest) =
     rbind (parse_https_url ne name value) (\<lambda>u. rbind (parse_urls ne rest) (\<lambda>d. Inr ((name, u) # d)))"

definition origin_of :: "(string, url_parts) dict \<Rightarrow> string \<Rightarrow> (string \<times> string \<times> nat) option" where
  "origin_of parsed name = map_option origin (dict_get parsed name)"

text \<open>The four URLs in the order public base, resource, authorization server, keys.\<close>

definition resolve_oauth_urls :: "net_env \<Rightarrow> (string, string) dict \<Rightarrow> (string \<times> string \<times> string \<times> string) result" where
  "resolve_oauth_urls ne environ =
     (case filter (\<lambda>n. env_value environ n = []) OAUTH_ENV_NAMES of
        missing # _ \<Rightarrow> Inl (RuntimeError (''oauth-jwt MCP auth profile requires '' @ missing))
      | [] \<Rightarrow>
          rbind (parse_urls ne (map (\<lambda>n. (n, env_value environ n)) OAUTH_ENV_NAMES)) (\<lambda>parsed.
            if origin_of parsed ''ZAPTRACE_MCP_AUTH_RESOURCE_URI'' \<noteq> origin_of parsed ''ZAPTRACE_MCP_PUBLIC_BASE_URL''
            then Inl (RuntimeError ''oauth-jwt resource URI must use the same origin as the public base URL'')
            else Inr (env_value environ ''ZAPTRACE_MCP_PUBLIC_BASE_URL'', env_value environ ''ZAPTRACE_MCP_AUTH_RESOURCE_URI'',
                      env_value environ ''ZAPTRACE_MCP_AUTHORIZATION_SERVER'', env_value environ ''ZAPTRACE_MCP_AUTH_JWKS_URI'')))"

definition resolve_explicit_profile :: "(string, string) dict \<Rightarrow> (auth_profile \<times> string) result" where
  "resolve_explicit_profile environ =
     (let raw_profile = env_value environ ''ZAPTRACE_MCP_AUTH_PROFILE''; version = env_value environ ''ZAPTRACE_MCP_AUTH_CONFIG_VERSION'' in
      if raw_profile \<noteq> [] \<and> version = [] then
        Inl (RuntimeError ''ZAPTRACE_MCP_AUTH_CONFIG_VERSION is required when ZAPTRACE_MCP_AUTH_PROFILE is set'')
      else if version \<noteq> [] \<and> raw_profile = [] then
        Inl (RuntimeError ''ZAPTRACE_MCP_AUTH_PROFILE is required when ZAPTRACE_MCP_AUTH_CONFIG_VERSION is set'')
      else if version \<noteq> CONTRACT_VERSION then
        Inl (RuntimeError (''unsupported MCP auth configuration version '' @ repr_str version
          @ ''; ZAPTRACE_MCP_AUTH_CONFIG_VERSION must be '' @ repr_str CONTRACT_VERSION))
      else case find (\<lambda>p. auth_profile_value p = raw_profile) [LOCAL, STATIC_BEARER, OAUTH_JWT] of
             None \<Rightarrow> Inl (RuntimeError (''unsupported MCP auth profile '' @ repr_str raw_profile))
           | Some p \<Rightarrow> Inr (p, version))"

definition resolve_legacy_profile :: "(string, string) dict \<Rightarrow> auth_profile result" where
  "resolve_legacy_profile environ =
     (case nonempty_names environ OAUTH_ENV_NAMES of
        name # _ \<Rightarrow> Inl (RuntimeError (name @ '' requires explicit ZAPTRACE_MCP_AUTH_PROFILE=oauth-jwt and ZAPTRACE_MCP_AUTH_CONFIG_VERSION=1''))
      | [] \<Rightarrow> Inr (if env_value environ ''ZAPTRACE_MCP_HTTP_TOKEN'' \<noteq> [] then STATIC_BEARER else LOCAL))"

definition profile_conflicts :: "auth_profile \<Rightarrow> (string, string) dict \<Rightarrow> bool \<Rightarrow> string list" where
  "profile_conflicts profile environ explicit =
     (if profile = OAUTH_JWT then nonempty_names environ LEGACY_GRANT_ENV_NAMES
      else if profile = LOCAL \<and> explicit then nonempty_names environ (LEGACY_GRANT_ENV_NAMES @ OAUTH_ENV_NAMES)
      else nonempty_names environ OAUTH_ENV_NAMES)"

definition reject_profile_conflicts :: "auth_profile \<Rightarrow> (string, string) dict \<Rightarrow> bool \<Rightarrow> unit result" where
  "reject_profile_conflicts profile environ explicit =
     (case profile_conflicts profile environ explicit of
        [] \<Rightarrow> Inr ()
      | name # _ \<Rightarrow> Inl (RuntimeError (auth_profile_value profile @ '' MCP auth profile conflicts with '' @ name)))"

text \<open>The rest of the resolution, once the profile is chosen and free of conflicts.\<close>

definition configured_profile ::
  "net_env \<Rightarrow> string \<Rightarrow> (string, string) dict \<Rightarrow> bool \<Rightarrow> auth_profile \<Rightarrow> string option \<Rightarrow> mcp_auth_configuration result" where
  "configured_profile ne host environ explicit profile version =
     (let loopback = is_loopback_host ne host; token = env_value environ ''ZAPTRACE_MCP_HTTP_TOKEN'';
          allow_local = truthy_flag (env_value environ ''ZAPTRACE_MCP_ALLOW_SESSION_CAPABILITY_GRANTS'');
          base = \<lparr> mc_profile = profile, mc_host = host, mc_loopback = loopback, mc_explicit = explicit, mc_contract_version = version,
            mc_static_token = [], mc_public_base_url = None, mc_resource_uri = None, mc_authorization_server = None, mc_jwks_uri = None \<rparr> in
      if explicit \<and> profile = LOCAL \<and> \<not> loopback then
        Inl (RuntimeError ''local MCP auth profile is restricted to loopback binds'')
      else if profile = STATIC_BEARER \<and> token = [] then
        Inl (RuntimeError ''static-bearer MCP auth profile requires ZAPTRACE_MCP_HTTP_TOKEN'')
      else if profile \<noteq> OAUTH_JWT then
        rbind (validate_network_auth_configuration ne ''ZapTrace MCP HTTP'' host token allow_local) (\<lambda>_.
          Inr (base\<lparr> mc_static_token := token \<rparr>))
      else if \<not> loopback \<and> allow_local then
        Inl (RuntimeError ''ZapTrace MCP HTTP local-development authorization is restricted to loopback binds'')
      else rbind (resolve_oauth_urls ne environ) (\<lambda>(public_base, resource, server, jwks).
        Inr (base\<lparr> mc_public_base_url := Some public_base, mc_resource_uri := Some resource,
                   mc_authorization_server := Some server, mc_jwks_uri := Some jwks \<rparr>)))"

definition resolve_mcp_http_auth_configuration :: "net_env \<Rightarrow> string \<Rightarrow> (string, string) dict \<Rightarrow> mcp_auth_configuration result" where
  "resolve_mcp_http_auth_configuration ne host environ =
     (let explicit = (env_value environ ''ZAPTRACE_MCP_AUTH_PROFILE'' \<noteq> [] \<or> env_value environ ''ZAPTRACE_MCP_AUTH_CONFIG_VERSION'' \<noteq> []) in
      rbind (if explicit then rbind (resolve_explicit_profile environ) (\<lambda>(p, v). Inr (p, Some v))
             else rbind (resolve_legacy_profile environ) (\<lambda>p. Inr (p, None))) (\<lambda>(profile, version).
      rbind (reject_profile_conflicts profile environ explicit) (\<lambda>_.
        configured_profile ne host environ explicit profile version)))"

section \<open>Scopes and principals\<close>

definition OAUTH_SUPPORTED_SCOPES :: "string list" where
  "OAUTH_SUPPORTED_SCOPES = [''zaptrace:read'', ''zaptrace:preview-write'', ''zaptrace:sandbox-write'',
     ''zaptrace:approved-commit'', ''zaptrace:release-export'']"

definition OAUTH_SCOPE_TO_CAPABILITY :: "(string, string) dict" where
  "OAUTH_SCOPE_TO_CAPABILITY =
     [(''zaptrace:read'', ''read''), (''zaptrace:preview-write'', ''preview-write''), (''zaptrace:sandbox-write'', ''sandbox-write''),
      (''zaptrace:approved-commit'', ''approved-commit''), (''zaptrace:release-export'', ''release-export'')]"

definition OAUTH_CAPABILITY_TO_SCOPE :: "(string, string) dict" where
  "OAUTH_CAPABILITY_TO_SCOPE = map (\<lambda>(scope, capability). (capability, scope)) OAUTH_SCOPE_TO_CAPABILITY"

definition oauth_capabilities_from_scopes :: "string list \<Rightarrow> string list" where
  "oauth_capabilities_from_scopes scopes = option_list (map (dict_get OAUTH_SCOPE_TO_CAPABILITY) scopes)"

definition authorize_oauth_capability :: "string \<Rightarrow> string list \<Rightarrow> bool \<times> string \<times> string" where
  "authorize_oauth_capability required scopes =
     (case dict_get OAUTH_CAPABILITY_TO_SCOPE required of
        None \<Rightarrow> (False, ''unknown required capability: '' @ required, [])
      | Some required_scope \<Rightarrow>
          (let capabilities = oauth_capabilities_from_scopes scopes in
           if capabilities = [] then (False, ''missing required OAuth scope: '' @ required_scope, required_scope)
           else if \<not> fst (authorize_capability required (set capabilities))
           then (False, ''missing required OAuth scope: '' @ required_scope, required_scope)
           else (True, ''validated OAuth scope satisfies '' @ required, required_scope)))"

record access_token =
  at_scopes :: "string list"
  at_claims :: "(string, pyval) dict"

definition text_claim :: "access_token \<Rightarrow> string \<Rightarrow> string option" where
  "text_claim t name =
     (case dict_get (at_claims t) name of Some (PStr s) \<Rightarrow> if strip s = [] then None else Some s | _ \<Rightarrow> None)"

definition oauth_principal_from_access_token :: "net_env \<Rightarrow> access_token \<Rightarrow> request_principal result" where
  "oauth_principal_from_access_token ne t =
     (case text_claim t ''iss'' of
        None \<Rightarrow> Inl (RuntimeError ''validated OAuth token is missing issuer identity'')
      | Some issuer \<Rightarrow>
          (case text_claim t ''sub'' of
             None \<Rightarrow> Inl (RuntimeError ''validated OAuth token is missing subject identity'')
           | Some subject \<Rightarrow>
               (let principal_id = ''oauth:'' @ ne_sha256 ne (issuer @ [char_of (0::nat)] @ subject)
                in Inr \<lparr> rp_principal_id = principal_id, rp_actor = principal_id,
                        rp_scopes = oauth_capabilities_from_scopes (at_scopes t), rp_authenticated = True, rp_local_development = False \<rparr>)))"

text \<open>The checks on a token FastMCP accepted, at time \<open>now\<close>; a \<^verbatim>\<open>bool\<close> is not a number here.\<close>

fun number_claim :: "pyval option \<Rightarrow> rat option" where
  "number_claim (Some (PInt i)) = Some (of_int i)"
| "number_claim (Some (PFloat x)) = Some x"
| "number_claim _ = None"

definition verify_token :: "rat \<Rightarrow> access_token option \<Rightarrow> access_token option" where
  "verify_token now accepted =
     (case accepted of
        None \<Rightarrow> None
      | Some t \<Rightarrow>
          if number_claim (dict_get (at_claims t) ''exp'') = None then None
          else case dict_get (at_claims t) ''nbf'' of
                 None \<Rightarrow> Some t
               | Some PNone \<Rightarrow> Some t
               | Some v \<Rightarrow> (case number_claim (Some v) of None \<Rightarrow> None | Some not_before \<Rightarrow> if not_before > now then None else Some t))"

definition MCP_HTTP_PATH :: string where "MCP_HTTP_PATH = ''/mcp''"

definition rstrip_slash :: "string \<Rightarrow> string" where
  "rstrip_slash s = rev (dropWhile (\<lambda>c. c = CHR ''/'') (rev s))"

definition require_oauth_configuration :: "net_env \<Rightarrow> mcp_auth_configuration \<Rightarrow> (string \<times> string \<times> string \<times> string) result" where
  "require_oauth_configuration ne c =
     (if mc_profile c \<noteq> OAUTH_JWT then Inl (RuntimeError ''OAuth provider construction requires the oauth-jwt MCP auth profile'')
      else case (mc_public_base_url c, mc_resource_uri c, mc_authorization_server c, mc_jwks_uri c) of
        (Some public_base, Some resource, Some server, Some jwks) \<Rightarrow>
          (let expected = rstrip_slash public_base @ MCP_HTTP_PATH in
           if url_canonical ne server \<noteq> server then
             Inl (RuntimeError ''oauth-jwt authorization server URL must use canonical FastMCP form'')
           else if resource \<noteq> expected then
             Inl (RuntimeError (''oauth-jwt resource URI must equal the public base URL plus '' @ MCP_HTTP_PATH @ ''; expected '' @ repr_str expected))
           else Inr (public_base, resource, server, jwks))
      | _ \<Rightarrow> Inl (RuntimeError ''oauth-jwt MCP auth profile is missing validated provider configuration''))"

section \<open>The boundary middleware\<close>

record error_response =
  re_status :: int
  re_code :: string
  re_message :: string
  re_details :: "(string, string) dict"
  re_challenge :: string

definition dquoted :: "string \<Rightarrow> string" where
  "dquoted s = dquote_char # s @ [dquote_char]"

definition oauth_error_response :: "bool \<Rightarrow> string \<Rightarrow> error_response" where
  "oauth_error_response missing resource_metadata_url =
     (let parts = (if missing then [] else [''error='' @ dquoted ''invalid_token''])
            @ [''resource_metadata='' @ dquoted resource_metadata_url, ''scope='' @ dquoted (hd OAUTH_SUPPORTED_SCOPES)]
      in \<lparr> re_status = 401, re_code = (if missing then ''AUTH_REQUIRED'' else ''AUTH_INVALID_TOKEN''),
           re_message = (if missing then ''Bearer authentication is required'' else ''Bearer token is invalid''),
           re_details = [], re_challenge = ''Bearer '' @ str_join '', '' parts \<rparr>)"

definition oauth_scope_error_response :: "string \<Rightarrow> string \<Rightarrow> string \<Rightarrow> string \<Rightarrow> error_response" where
  "oauth_scope_error_response operation required_capability required_scope resource_metadata_url =
     \<lparr> re_status = 403, re_code = ''OPERATION_NOT_AUTHORIZED'', re_message = ''missing required OAuth scope: '' @ required_scope,
       re_details = [(''operation'', operation), (''required_capability'', required_capability), (''required_scope'', required_scope)],
       re_challenge = ''Bearer error='' @ dquoted ''insufficient_scope'' @ '', scope='' @ dquoted required_scope
         @ '', resource_metadata='' @ dquoted resource_metadata_url \<rparr>"

definition classify_message :: "(string \<Rightarrow> string option) \<Rightarrow> pyval \<Rightarrow> string \<times> string" where
  "classify_message resolver item =
     (case item of
        PDict d \<Rightarrow>
          (let tool = (if dict_get d ''method'' = Some (PStr ''tools/call'')
                       then (case dict_get d ''params'' of
                               Some (PDict params) \<Rightarrow>
                                 (case dict_get params ''name'' of
                                    Some (PStr tool_name) \<Rightarrow> map_option (\<lambda>c. (tool_name, c)) (resolver tool_name)
                                  | _ \<Rightarrow> None)
                             | _ \<Rightarrow> None)
                       else None)
           in case tool of
                Some r \<Rightarrow> r
              | None \<Rightarrow> ((case dict_get d ''method'' of Some (PStr m) \<Rightarrow> m | _ \<Rightarrow> ''mcp-request''), ''read''))
      | _ \<Rightarrow> (''mcp-request'', ''read''))"

definition request_requirements :: "pyval \<Rightarrow> (string \<Rightarrow> string option) \<Rightarrow> (string \<times> string) list" where
  "request_requirements payload resolver =
     (let messages = (case payload of PList items \<Rightarrow> items | _ \<Rightarrow> [payload]);
          requirements = map (classify_message resolver) messages
      in if requirements = [] then [(''mcp-request'', ''read'')] else requirements)"

fun first_scope_denial :: "string \<Rightarrow> string list \<Rightarrow> (string \<times> string) list \<Rightarrow> error_response option" where
  "first_scope_denial url scopes [] = None"
| "first_scope_denial url scopes ((operation, required_capability) # rest) =
     (case authorize_oauth_capability required_capability scopes of
        (allowed, _, required_scope) \<Rightarrow>
          if \<not> allowed then Some (oauth_scope_error_response operation required_capability required_scope url)
          else first_scope_denial url scopes rest)"

text \<open>A token is \<open>None\<close> when the authenticated user of the request carries none.\<close>

definition oauth_authorization_response ::
  "net_env \<Rightarrow> access_token option \<Rightarrow> pyval \<Rightarrow> (string \<Rightarrow> string option) \<Rightarrow> string \<Rightarrow> error_response option" where
  "oauth_authorization_response ne token payload resolver url =
     (case token of
        None \<Rightarrow> None
      | Some t \<Rightarrow>
          (case oauth_principal_from_access_token ne t of
             Inl _ \<Rightarrow> Some (oauth_error_response False url)
           | Inr _ \<Rightarrow> first_scope_denial url (at_scopes t) (request_requirements payload resolver)))"

datatype asgi_message =
    Http_Request string bool \<comment> \<open>body and \<^verbatim>\<open>more_body\<close>\<close>
  | Http_Disconnect
  | Other_Message string

text \<open>
  The capture of a request body: the messages read so far with their bodies, and what is left of
  the stream; \<open>None\<close> when the stream stays silent before the body is complete.
\<close>

fun capture_messages :: "asgi_message list \<Rightarrow> (asgi_message list \<times> string list \<times> asgi_message list) option" where
  "capture_messages [] = None"
| "capture_messages (Http_Disconnect # rest) = Some ([Http_Disconnect], [], rest)"
| "capture_messages (Other_Message t # rest) =
     map_option (\<lambda>(ms, bs, left). (Other_Message t # ms, bs, left)) (capture_messages rest)"
| "capture_messages (Http_Request body more_body # rest) =
     (if \<not> more_body then Some ([Http_Request body more_body], [body], rest)
      else map_option (\<lambda>(ms, bs, left). (Http_Request body more_body # ms, body # bs, left)) (capture_messages rest))"

text \<open>The payload, and the stream the application reads afterwards.\<close>

definition capture_json_payload :: "net_env \<Rightarrow> asgi_message list \<Rightarrow> (pyval \<times> asgi_message list) option" where
  "capture_json_payload ne stream =
     map_option (\<lambda>(ms, bodies, left).
         ((if bodies = [] then PNone else case ne_json_loads ne (concat bodies) of None \<Rightarrow> PNone | Some v \<Rightarrow> v), ms @ left))
       (capture_messages stream)"

datatype response_message =
    Response_Start int
  | Response_Body string bool
  | Response_Other string

datatype sent =
    Sent response_message
  | Sent_Error error_response

definition authorization_header :: "(string \<times> string) list \<Rightarrow> string" where
  "authorization_header headers =
     (case find (\<lambda>(k, _). lower k = ''authorization'') headers of None \<Rightarrow> [] | Some (_, v) \<Rightarrow> v)"

text \<open>\<^verbatim>\<open>normalize\<close>, run over the messages the application sends.\<close>

fun normalize_send :: "bool \<Rightarrow> string \<Rightarrow> bool \<Rightarrow> response_message list \<Rightarrow> sent list" where
  "normalize_send missing url replace [] = []"
| "normalize_send missing url replace (Response_Start status # rest) =
     (let replace' = (status = 401) in (if \<not> replace' then [Sent (Response_Start status)] else []) @ normalize_send missing url replace' rest)"
| "normalize_send missing url replace (Response_Body body more_body # rest) =
     (if replace then (if more_body then [] else [Sent_Error (oauth_error_response missing url)]) @ normalize_send missing url replace rest
      else Sent (Response_Body body more_body) # normalize_send missing url replace rest)"
| "normalize_send missing url replace (Response_Other t # rest) = Sent (Response_Other t) # normalize_send missing url replace rest"

record http_scope =
  hs_type :: string
  hs_path :: string
  hs_method :: string
  hs_headers :: "(string \<times> string) list"
  hs_token :: "access_token option"

text \<open>The application: from the scope and the stream it reads to the messages it sends.\<close>

type_synonym asgi_app = "http_scope \<Rightarrow> asgi_message list \<Rightarrow> response_message list"

definition boundary_call ::
  "net_env \<Rightarrow> (string \<Rightarrow> string option) \<Rightarrow> string \<Rightarrow> asgi_app \<Rightarrow> http_scope \<Rightarrow> asgi_message list \<Rightarrow> sent list option" where
  "boundary_call ne resolver url app scope stream =
     (if hs_type scope \<noteq> ''http'' \<or> hs_path scope \<noteq> MCP_HTTP_PATH then Some (map Sent (app scope stream))
      else
        (case (if hs_method scope = ''POST'' \<and> hs_token scope \<noteq> None then capture_json_payload ne stream else Some (PNone, stream)) of
           None \<Rightarrow> None
         | Some (payload, stream') \<Rightarrow>
             (case oauth_authorization_response ne (hs_token scope) payload resolver url of
                Some denial \<Rightarrow> Some [Sent_Error denial]
              | None \<Rightarrow> Some (normalize_send (authorization_header (hs_headers scope) = []) url False (app scope stream')))))"

section \<open>Calls on the server\<close>

definition legacy_scopes :: "(string, string) dict \<Rightarrow> string list" where
  "legacy_scopes environ =
     map (\<lambda>item. lower (strip item))
       (split_ws (replace_char (CHR '','') '' '' (case dict_get environ ''ZAPTRACE_MCP_CAPABILITIES'' of None \<Rightarrow> [] | Some v \<Rightarrow> v)))"

definition mcp_principal :: "net_env \<Rightarrow> (string, string) dict \<Rightarrow> string option \<Rightarrow> access_token option \<Rightarrow> request_principal result" where
  "mcp_principal ne environ http_actor token =
     (case token of
        Some t \<Rightarrow> oauth_principal_from_access_token ne t
      | None \<Rightarrow>
          (case http_actor of
             Some actor \<Rightarrow> Inr \<lparr> rp_principal_id = actor, rp_actor = actor, rp_scopes = legacy_scopes environ,
                                rp_authenticated = True, rp_local_development = False \<rparr>
           | None \<Rightarrow> Inr \<lparr> rp_principal_id = ''mcp-local'', rp_actor = ''mcp-local'', rp_scopes = legacy_scopes environ,
                          rp_authenticated = False, rp_local_development = True \<rparr>))"

definition session_capabilities :: "(string, string) dict \<Rightarrow> string set \<Rightarrow> access_token option \<Rightarrow> string set" where
  "session_capabilities environ session_grants token =
     (case token of
        Some t \<Rightarrow> set (oauth_capabilities_from_scopes (at_scopes t))
      | None \<Rightarrow> session_grants \<union> granted_capabilities_from_header (dict_get environ ''ZAPTRACE_MCP_CAPABILITIES''))"

datatype oauth_denial =
    Identity_Incomplete string
  | Not_Authorized string string string string \<comment> \<open>reason, operation, capability, scope\<close>

definition oauth_capability_denial :: "net_env \<Rightarrow> access_token option \<Rightarrow> string \<Rightarrow> string \<Rightarrow> oauth_denial option" where
  "oauth_capability_denial ne token operation required_capability =
     (case token of
        None \<Rightarrow> None
      | Some t \<Rightarrow>
          (case oauth_principal_from_access_token ne t of
             Inl _ \<Rightarrow> Some (Identity_Incomplete operation)
           | Inr _ \<Rightarrow>
               (case authorize_oauth_capability required_capability (at_scopes t) of
                  (allowed, reason, required_scope) \<Rightarrow>
                    if allowed then None else Some (Not_Authorized reason operation required_capability required_scope))))"

section \<open>Scopes grant no more than they say\<close>

lemma scope_table: "dict_get OAUTH_SCOPE_TO_CAPABILITY scope = Some capability \<longleftrightarrow>
    (\<exists>i<5. scope = OAUTH_SUPPORTED_SCOPES ! i \<and> capability = CAPABILITY_LEVELS ! i)"
proof -
  have five: "(\<exists>i<5. P i) \<longleftrightarrow> P 0 \<or> P 1 \<or> P 2 \<or> P 3 \<or> P (4::nat)" for P
    by (auto simp: less_Suc_eq numeral_eq_Suc)
  show ?thesis
    unfolding five by (simp add: OAUTH_SCOPE_TO_CAPABILITY_def dict_get_def OAUTH_SUPPORTED_SCOPES_def CAPABILITY_LEVELS_def) metis
qed

lemma capability_table: "dict_get OAUTH_CAPABILITY_TO_SCOPE capability = Some scope \<longleftrightarrow>
    (\<exists>i<5. scope = OAUTH_SUPPORTED_SCOPES ! i \<and> capability = CAPABILITY_LEVELS ! i)"
proof -
  have five: "(\<exists>i<5. P i) \<longleftrightarrow> P 0 \<or> P 1 \<or> P 2 \<or> P 3 \<or> P (4::nat)" for P
    by (auto simp: less_Suc_eq numeral_eq_Suc)
  show ?thesis
    unfolding five by (simp add: OAUTH_CAPABILITY_TO_SCOPE_def OAUTH_SCOPE_TO_CAPABILITY_def dict_get_def OAUTH_SUPPORTED_SCOPES_def CAPABILITY_LEVELS_def) metis
qed

lemma oauth_capabilities_iff:
  "capability \<in> set (oauth_capabilities_from_scopes scopes) \<longleftrightarrow>
     (\<exists>i<5. OAUTH_SUPPORTED_SCOPES ! i \<in> set scopes \<and> capability = CAPABILITY_LEVELS ! i)"
proof -
  have "capability \<in> set (oauth_capabilities_from_scopes scopes) \<longleftrightarrow> (\<exists>s\<in>set scopes. dict_get OAUTH_SCOPE_TO_CAPABILITY s = Some capability)"
    by (auto simp: oauth_capabilities_from_scopes_def set_option_list image_iff) (metis option.sel)+
  then show ?thesis unfolding scope_table by blast
qed

lemma CAPABILITY_LEVELS_distinct: "distinct CAPABILITY_LEVELS" "length CAPABILITY_LEVELS = 5"
  by (simp_all add: CAPABILITY_LEVELS_def)

lemma capability_rank_iff: "CAPABILITY_RANK c = Some i \<longleftrightarrow> i < 5 \<and> c = CAPABILITY_LEVELS ! i"
proof -
  have "CAPABILITY_RANK c = Some i \<longleftrightarrow> (c, i) \<in> set (zip CAPABILITY_LEVELS [0..<5])"
    unfolding CAPABILITY_RANK_def CAPABILITY_LEVELS_distinct
    by (subst map_of_eq_Some_iff) (simp_all add: CAPABILITY_LEVELS_distinct)
  also have "\<dots> \<longleftrightarrow> i < 5 \<and> c = CAPABILITY_LEVELS ! i"
    by (auto simp: set_zip CAPABILITY_LEVELS_distinct)
  finally show ?thesis .
qed

lemma authorize_capability_rank:
  assumes "CAPABILITY_RANK required = Some i" "granted \<noteq> {}"
  shows "fst (authorize_capability required granted) \<longleftrightarrow> i = 0 \<or> (\<exists>c\<in>granted. \<exists>j. CAPABILITY_RANK c = Some j \<and> i \<le> j)"
proof -
  have r: "(\<exists>cap\<in>granted. rank_or_minus_one cap \<ge> int i) \<longleftrightarrow> (\<exists>c\<in>granted. \<exists>j. CAPABILITY_RANK c = Some j \<and> i \<le> j)"
    by (force simp: rank_or_minus_one_def split: option.splits)
  have "required = ''read'' \<longleftrightarrow> i = 0"
  proof -
    have "CAPABILITY_RANK ''read'' = Some 0" by (simp add: CAPABILITY_RANK_def CAPABILITY_LEVELS_def)
    then show ?thesis using assms(1) capability_rank_iff by (metis option.inject)
  qed
  then show ?thesis using assms r by (simp add: authorize_capability_def)
qed

lemma authorize_oauth_iff:
  "fst (authorize_oauth_capability required scopes) \<longleftrightarrow>
     (\<exists>i j. i \<le> j \<and> j < 5 \<and> required = CAPABILITY_LEVELS ! i \<and> OAUTH_SUPPORTED_SCOPES ! j \<in> set scopes)"
proof (cases "dict_get OAUTH_CAPABILITY_TO_SCOPE required")
  case None
  then have "\<not> (\<exists>i<5. required = CAPABILITY_LEVELS ! i)" using capability_table by (metis option.distinct(1))
  then have "\<not> (\<exists>i j. i \<le> j \<and> j < 5 \<and> required = CAPABILITY_LEVELS ! i \<and> OAUTH_SUPPORTED_SCOPES ! j \<in> set scopes)"
    using le_less_trans by blast
  then show ?thesis using None by (simp add: authorize_oauth_capability_def)
next
  case (Some scope)
  then obtain i where i: "i < 5" "required = CAPABILITY_LEVELS ! i" using capability_table by blast
  then have rank: "CAPABILITY_RANK required = Some i" by (simp add: capability_rank_iff)
  let ?caps = "oauth_capabilities_from_scopes scopes"
  have inj: "CAPABILITY_LEVELS ! a = CAPABILITY_LEVELS ! b \<longleftrightarrow> a = b" if "a < 5" "b < 5" for a b
    using nth_eq_iff_index_eq [OF CAPABILITY_LEVELS_distinct(1)] that by (simp add: CAPABILITY_LEVELS_distinct(2))
  have caps: "(\<exists>c\<in>set ?caps. \<exists>j. CAPABILITY_RANK c = Some j \<and> k \<le> j) \<longleftrightarrow> (\<exists>j<5. k \<le> j \<and> OAUTH_SUPPORTED_SCOPES ! j \<in> set scopes)" for k
  proof
    assume "\<exists>c\<in>set ?caps. \<exists>j. CAPABILITY_RANK c = Some j \<and> k \<le> j"
    then obtain c j where c: "c \<in> set ?caps" "CAPABILITY_RANK c = Some j" "k \<le> j" by blast
    obtain l where l: "l < 5" "OAUTH_SUPPORTED_SCOPES ! l \<in> set scopes" "c = CAPABILITY_LEVELS ! l"
      using c(1) unfolding oauth_capabilities_iff by blast
    have j: "j < 5" "c = CAPABILITY_LEVELS ! j" using c(2) capability_rank_iff by simp_all
    then have "l = j" using inj [OF l(1) j(1)] l(3) by simp
    then show "\<exists>j<5. k \<le> j \<and> OAUTH_SUPPORTED_SCOPES ! j \<in> set scopes" using l c(3) by blast
  next
    assume "\<exists>j<5. k \<le> j \<and> OAUTH_SUPPORTED_SCOPES ! j \<in> set scopes"
    then obtain j where j: "j < 5" "k \<le> j" "OAUTH_SUPPORTED_SCOPES ! j \<in> set scopes" by blast
    then have "CAPABILITY_LEVELS ! j \<in> set ?caps" "CAPABILITY_RANK (CAPABILITY_LEVELS ! j) = Some j"
      using oauth_capabilities_iff capability_rank_iff by blast+
    then show "\<exists>c\<in>set ?caps. \<exists>j. CAPABILITY_RANK c = Some j \<and> k \<le> j" using j(2) by blast
  qed
  have unique: "required = CAPABILITY_LEVELS ! k \<longleftrightarrow> k = i" if "k < 5" for k
    using inj [OF i(1) that] i(2) by auto
  show ?thesis
  proof (cases "?caps = []")
    case True
    have "OAUTH_SUPPORTED_SCOPES ! j \<notin> set scopes" if "j < 5" for j
    proof
      assume "OAUTH_SUPPORTED_SCOPES ! j \<in> set scopes"
      then have "CAPABILITY_LEVELS ! j \<in> set ?caps" using that oauth_capabilities_iff by blast
      then show False using True by simp
    qed
    then show ?thesis using Some True by (auto simp: authorize_oauth_capability_def)
  next
    case False
    then have ne: "set ?caps \<noteq> {}" by simp
    have "hd ?caps \<in> set ?caps" using False by (rule hd_in_set)
    then have some: "\<exists>j<5. OAUTH_SUPPORTED_SCOPES ! j \<in> set scopes"
      unfolding oauth_capabilities_iff by (elim exE conjE) (intro exI conjI)
    have "fst (authorize_oauth_capability required scopes) \<longleftrightarrow> fst (authorize_capability required (set ?caps))"
      using Some False by (simp add: authorize_oauth_capability_def Let_def)
    also have "\<dots> \<longleftrightarrow> i = 0 \<or> (\<exists>j<5. i \<le> j \<and> OAUTH_SUPPORTED_SCOPES ! j \<in> set scopes)"
      using authorize_capability_rank [OF rank ne] caps by simp
    also have "\<dots> \<longleftrightarrow> (\<exists>j<5. i \<le> j \<and> OAUTH_SUPPORTED_SCOPES ! j \<in> set scopes)" 
    proof (cases "i = 0")
      case True
      then show ?thesis using some by simp
    qed simp
    also have "\<dots> \<longleftrightarrow> (\<exists>a j. a \<le> j \<and> j < 5 \<and> required = CAPABILITY_LEVELS ! a \<and> OAUTH_SUPPORTED_SCOPES ! j \<in> set scopes)"
    proof
      assume "\<exists>j<5. i \<le> j \<and> OAUTH_SUPPORTED_SCOPES ! j \<in> set scopes"
      then obtain j where "j < 5" "i \<le> j" "OAUTH_SUPPORTED_SCOPES ! j \<in> set scopes" by blast
      then have "i \<le> j \<and> j < 5 \<and> required = CAPABILITY_LEVELS ! i \<and> OAUTH_SUPPORTED_SCOPES ! j \<in> set scopes" using i(2) by simp
      then show "\<exists>a j. a \<le> j \<and> j < 5 \<and> required = CAPABILITY_LEVELS ! a \<and> OAUTH_SUPPORTED_SCOPES ! j \<in> set scopes" by (intro exI)
    next
      assume "\<exists>a j. a \<le> j \<and> j < 5 \<and> required = CAPABILITY_LEVELS ! a \<and> OAUTH_SUPPORTED_SCOPES ! j \<in> set scopes"
      then obtain a j where j: "a \<le> j" "j < 5" "required = CAPABILITY_LEVELS ! a" "OAUTH_SUPPORTED_SCOPES ! j \<in> set scopes"
        by (elim exE conjE)
      moreover have "a = i" using unique [OF le_less_trans [OF j(1) j(2)]] j(3) by simp
      ultimately have "j < 5 \<and> i \<le> j \<and> OAUTH_SUPPORTED_SCOPES ! j \<in> set scopes" by simp
      then show "\<exists>j<5. i \<le> j \<and> OAUTH_SUPPORTED_SCOPES ! j \<in> set scopes" by (intro exI)
    qed
    finally show ?thesis .
  qed
qed

text \<open>
  An OAuth caller may use a capability exactly when one of its scopes is at least as high: no
  scope outside the contract counts, and an unknown capability is never granted. Its principal
  holds only capability levels, so it is never an administrator of objects.
\<close>

theorem oauth_scopes_exact:
  "(fst (authorize_oauth_capability required (at_scopes t)) \<longleftrightarrow>
      (\<exists>i j. i \<le> j \<and> j < 5 \<and> required = CAPABILITY_LEVELS ! i \<and> OAUTH_SUPPORTED_SCOPES ! j \<in> set (at_scopes t)))
   \<and> (case oauth_principal_from_access_token ne t of
        Inl _ \<Rightarrow> text_claim t ''iss'' = None \<or> text_claim t ''sub'' = None
      | Inr p \<Rightarrow> set (rp_scopes p) \<subseteq> set CAPABILITY_LEVELS \<and> is_admin p = False \<and> rp_authenticated p)"
proof -
  have sub: "set (oauth_capabilities_from_scopes scopes) \<subseteq> set CAPABILITY_LEVELS" for scopes
    using oauth_capabilities_iff CAPABILITY_LEVELS_distinct(2) by (metis nth_mem subsetI)
  have "''object-admin'' \<notin> set CAPABILITY_LEVELS" by (simp add: CAPABILITY_LEVELS_def)
  then have adm: "''object-admin'' \<notin> set (oauth_capabilities_from_scopes scopes)" for scopes using sub by blast
  show ?thesis
    by (auto simp: authorize_oauth_iff oauth_principal_from_access_token_def is_admin_def Let_def adm sub [THEN subsetD] split: option.splits)
qed

section \<open>Start-up\<close>

lemma parse_urls_keys: "parse_urls ne nvs = Inr d \<Longrightarrow> dict_get d name = Some u \<Longrightarrow>
    \<exists>v. (name, v) \<in> set nvs \<and> parse_https_url ne name v = Inr u"
proof (induction nvs arbitrary: d)
  case (Cons nv nvs)
  obtain n v where nv: "nv = (n, v)" by (cases nv)
  obtain u' d' where d: "parse_https_url ne n v = Inr u'" "parse_urls ne nvs = Inr d'" "d = (n, u') # d'"
    using Cons.prems(1) by (auto simp: nv rbind_eq_Inr)
  then show ?case using Cons.IH [OF d(2)] Cons.prems(2) by (auto simp: nv dict_get_def split: if_splits)
qed (simp add: dict_get_def)

lemma parse_urls_all: "parse_urls ne nvs = Inr d \<Longrightarrow> (name, v) \<in> set nvs \<Longrightarrow> \<exists>u. parse_https_url ne name v = Inr u"
  by (induction nvs arbitrary: d) (auto simp: rbind_eq_Inr)

lemma resolve_oauth_urls_https:
  assumes "resolve_oauth_urls ne environ = Inr (public_base, resource, server, jwks)"
  shows "\<exists>ub ur us uj. parse_https_url ne ''ZAPTRACE_MCP_PUBLIC_BASE_URL'' public_base = Inr ub
    \<and> parse_https_url ne ''ZAPTRACE_MCP_AUTH_RESOURCE_URI'' resource = Inr ur
    \<and> parse_https_url ne ''ZAPTRACE_MCP_AUTHORIZATION_SERVER'' server = Inr us
    \<and> parse_https_url ne ''ZAPTRACE_MCP_AUTH_JWKS_URI'' jwks = Inr uj \<and> origin ur = origin ub"
proof -
  obtain parsed where p: "parse_urls ne (map (\<lambda>n. (n, env_value environ n)) OAUTH_ENV_NAMES) = Inr parsed"
    and o: "origin_of parsed ''ZAPTRACE_MCP_AUTH_RESOURCE_URI'' = origin_of parsed ''ZAPTRACE_MCP_PUBLIC_BASE_URL''"
    and v: "public_base = env_value environ ''ZAPTRACE_MCP_PUBLIC_BASE_URL''" "resource = env_value environ ''ZAPTRACE_MCP_AUTH_RESOURCE_URI''"
      "server = env_value environ ''ZAPTRACE_MCP_AUTHORIZATION_SERVER''" "jwks = env_value environ ''ZAPTRACE_MCP_AUTH_JWKS_URI''"
    using assms by (auto simp: resolve_oauth_urls_def rbind_eq_Inr split: list.splits if_splits)
  obtain ub ur us uj where u: "parse_https_url ne ''ZAPTRACE_MCP_PUBLIC_BASE_URL'' public_base = Inr ub"
    "parse_https_url ne ''ZAPTRACE_MCP_AUTH_RESOURCE_URI'' resource = Inr ur"
    "parse_https_url ne ''ZAPTRACE_MCP_AUTHORIZATION_SERVER'' server = Inr us"
    "parse_https_url ne ''ZAPTRACE_MCP_AUTH_JWKS_URI'' jwks = Inr uj"
    and d: "parsed = [(''ZAPTRACE_MCP_PUBLIC_BASE_URL'', ub), (''ZAPTRACE_MCP_AUTH_RESOURCE_URI'', ur),
      (''ZAPTRACE_MCP_AUTHORIZATION_SERVER'', us), (''ZAPTRACE_MCP_AUTH_JWKS_URI'', uj)]"
    using p v by (auto simp: OAUTH_ENV_NAMES_def rbind_eq_Inr)
  then have "origin ur = origin ub" using o by (simp add: d origin_of_def dict_get_def)
  then show ?thesis using u by blast
qed

text \<open>
  A start-up that succeeds is safe to expose: a bind that is not loopback is authenticated
  and has no local-development grants. OAuth comes with four HTTPS URLs without credentials,
  the resource on the origin of the public URL, and without static token or legacy grants; an
  explicit local profile is loopback only and free of both.
\<close>

theorem startup_fail_closed:
  assumes "resolve_mcp_http_auth_configuration ne host environ = Inr c"
  shows "(mc_loopback c = is_loopback_host ne host)
    \<and> (is_loopback_host ne host \<or> authentication_configured c \<and> truthy_flag (env_value environ ''ZAPTRACE_MCP_ALLOW_SESSION_CAPABILITY_GRANTS'') = False)
    \<and> (case mc_profile c of
         STATIC_BEARER \<Rightarrow> mc_static_token c \<noteq> [] \<and> nonempty_names environ OAUTH_ENV_NAMES = []
       | LOCAL \<Rightarrow> nonempty_names environ OAUTH_ENV_NAMES = [] \<and> mc_static_token c = [] \<and> is_loopback_host ne host
       | OAUTH_JWT \<Rightarrow> mc_explicit c \<and> mc_static_token c = [] \<and> nonempty_names environ LEGACY_GRANT_ENV_NAMES = []
           \<and> (\<exists>public_base resource server jwks ub ur us uj. mc_public_base_url c = Some public_base \<and> mc_resource_uri c = Some resource
              \<and> mc_authorization_server c = Some server \<and> mc_jwks_uri c = Some jwks
              \<and> parse_https_url ne ''ZAPTRACE_MCP_PUBLIC_BASE_URL'' public_base = Inr ub
              \<and> parse_https_url ne ''ZAPTRACE_MCP_AUTH_RESOURCE_URI'' resource = Inr ur
              \<and> parse_https_url ne ''ZAPTRACE_MCP_AUTHORIZATION_SERVER'' server = Inr us
              \<and> parse_https_url ne ''ZAPTRACE_MCP_AUTH_JWKS_URI'' jwks = Inr uj \<and> origin ur = origin ub))"
proof -
  define explicit where "explicit = (env_value environ ''ZAPTRACE_MCP_AUTH_PROFILE'' \<noteq> [] \<or> env_value environ ''ZAPTRACE_MCP_AUTH_CONFIG_VERSION'' \<noteq> [])"
  define token where "token = env_value environ ''ZAPTRACE_MCP_HTTP_TOKEN''"
  define allow_local where "allow_local = truthy_flag (env_value environ ''ZAPTRACE_MCP_ALLOW_SESSION_CAPABILITY_GRANTS'')"
  let ?choice = "if explicit then rbind (resolve_explicit_profile environ) (\<lambda>(p, v). Inr (p, Some v))
      else rbind (resolve_legacy_profile environ) (\<lambda>p. Inr (p, None))"
  have run: "rbind ?choice (\<lambda>(profile, version). rbind (reject_profile_conflicts profile environ explicit)
      (\<lambda>_. configured_profile ne host environ explicit profile version)) = Inr c"
    using assms by (simp only: resolve_mcp_http_auth_configuration_def Let_def explicit_def)
  obtain pv where pv: "?choice = Inr pv" and run': "(case pv of (profile, version) \<Rightarrow> rbind (reject_profile_conflicts profile environ explicit)
      (\<lambda>_. configured_profile ne host environ explicit profile version)) = Inr c"
    using run unfolding rbind_eq_Inr by blast
  obtain profile version where split: "pv = (profile, version)" by (cases pv)
  have rest: "configured_profile ne host environ explicit profile version = Inr c" and ok: "reject_profile_conflicts profile environ explicit = Inr ()"
    using run' by (auto simp: split rbind_eq_Inr)
  have no_conflict: "profile_conflicts profile environ explicit = []"
    using ok by (simp add: reject_profile_conflicts_def split: list.splits)
  have legacy: "explicit \<or> profile \<noteq> OAUTH_JWT \<and> (profile = LOCAL \<longrightarrow> token = [])"
    using pv by (cases explicit) (auto simp: split rbind_eq_Inr resolve_legacy_profile_def token_def split: if_splits list.splits)
  have local_token: "profile = LOCAL \<Longrightarrow> token = []"
    using legacy no_conflict by (auto simp: profile_conflicts_def nonempty_names_def LEGACY_GRANT_ENV_NAMES_def token_def split: if_splits)
  show ?thesis
  proof (cases profile)
    case OAUTH_JWT
    then obtain public_base resource server jwks where u: "resolve_oauth_urls ne environ = Inr (public_base, resource, server, jwks)"
      and c: "c = \<lparr> mc_profile = OAUTH_JWT, mc_host = host, mc_loopback = is_loopback_host ne host, mc_explicit = explicit, mc_contract_version = version,
        mc_static_token = [], mc_public_base_url = Some public_base, mc_resource_uri = Some resource, mc_authorization_server = Some server, mc_jwks_uri = Some jwks \<rparr>"
      and l: "is_loopback_host ne host \<or> \<not> allow_local"
      using rest by (auto simp: configured_profile_def allow_local_def Let_def rbind_eq_Inr split: if_splits)
    then show ?thesis
      using resolve_oauth_urls_https [OF u] no_conflict OAUTH_JWT legacy
      by (auto simp: authentication_configured_def profile_conflicts_def allow_local_def)
  next
    case LOCAL
    then show ?thesis
      using rest local_token no_conflict
      by (auto simp: configured_profile_def token_def Let_def rbind_eq_Inr validate_network_auth_configuration_def profile_conflicts_def nonempty_names_def split: if_splits)
  next
    case STATIC_BEARER
    then show ?thesis
      using rest no_conflict
      by (auto simp: configured_profile_def token_def Let_def rbind_eq_Inr validate_network_auth_configuration_def profile_conflicts_def authentication_configured_def allow_local_def split: if_splits)
  qed
qed

section \<open>The boundary\<close>

lemma capture_messages_replay: "capture_messages stream = Some (ms, bodies, left) \<Longrightarrow> ms @ left = stream"
  by (induction stream arbitrary: ms bodies left rule: capture_messages.induct) (auto split: if_splits)

lemma capture_json_replay: "capture_json_payload ne stream = Some (payload, stream') \<Longrightarrow> stream' = stream"
  by (auto simp: capture_json_payload_def dest: capture_messages_replay)

lemma first_scope_denial_None: "first_scope_denial url scopes requirements = None \<longleftrightarrow>
    (\<forall>(operation, capability)\<in>set requirements. fst (authorize_oauth_capability capability scopes))"
  by (induction url scopes requirements rule: first_scope_denial.induct) (auto split: prod.splits)

lemma first_scope_denial_status: "first_scope_denial url scopes requirements = Some denial \<Longrightarrow> re_status denial = 403"
  by (induction url scopes requirements rule: first_scope_denial.induct) (auto simp: oauth_scope_error_response_def split: prod.splits if_splits)

lemma oauth_principal_iff: "(\<exists>p. oauth_principal_from_access_token ne t = Inr p) \<longleftrightarrow> text_claim t ''iss'' \<noteq> None \<and> text_claim t ''sub'' \<noteq> None"
  by (auto simp: oauth_principal_from_access_token_def Let_def split: option.splits)

lemma oauth_authorization_cases:
  "oauth_authorization_response ne (Some t) payload resolver url =
     (if text_claim t ''iss'' = None \<or> text_claim t ''sub'' = None then Some (oauth_error_response False url)
      else first_scope_denial url (at_scopes t) (request_requirements payload resolver))"
  by (auto simp: oauth_authorization_response_def oauth_principal_from_access_token_def Let_def split: option.splits)

lemma normalize_send_transparent:
  "Response_Start 401 \<notin> set messages \<Longrightarrow> normalize_send missing url False messages = map Sent messages"
proof (induction messages)
  case (Cons m messages)
  then show ?case by (cases m) auto
qed simp

lemma normalize_send_replaces:
  "normalize_send missing url True (map (\<lambda>b. Response_Body b True) parts @ [Response_Body b False]) = [Sent_Error (oauth_error_response missing url)]"
  by (induction parts) simp_all

text \<open>
  C23: A JSON-RPC call posted with a token reaches the application only with a complete identity
  and a scope for every message of the batch, over the very stream the client sent; otherwise one
  error, 401 or 403, is the whole response. A response of the application without a 401 passes
  unchanged.
\<close>

theorem boundary_exact:
  assumes "hs_type scope = ''http''" "hs_path scope = MCP_HTTP_PATH" "hs_method scope = ''POST''" "hs_token scope = Some t"
    and "boundary_call ne resolver url app scope stream = Some out"
  shows "\<exists>payload. capture_json_payload ne stream = Some (payload, stream)
    \<and> (if text_claim t ''iss'' \<noteq> None \<and> text_claim t ''sub'' \<noteq> None
          \<and> (\<forall>(operation, capability)\<in>set (request_requirements payload resolver). \<exists>i j. i \<le> j \<and> j < 5
               \<and> capability = CAPABILITY_LEVELS ! i \<and> OAUTH_SUPPORTED_SCOPES ! j \<in> set (at_scopes t))
       then out = normalize_send (authorization_header (hs_headers scope) = []) url False (app scope stream)
         \<and> (Response_Start 401 \<notin> set (app scope stream) \<longrightarrow> out = map Sent (app scope stream))
       else \<exists>denial. out = [Sent_Error denial] \<and> re_status denial \<in> {401, 403})"
proof -
  obtain payload stream' where p: "capture_json_payload ne stream = Some (payload, stream')"
    and out: "out = (case oauth_authorization_response ne (Some t) payload resolver url of
          Some denial \<Rightarrow> [Sent_Error denial]
        | None \<Rightarrow> normalize_send (authorization_header (hs_headers scope) = []) url False (app scope stream'))"
    using assms by (auto simp: boundary_call_def split: option.splits)
  have s: "stream' = stream" using p by (rule capture_json_replay)
  have denial: "first_scope_denial url (at_scopes t) (request_requirements payload resolver) = None \<longleftrightarrow>
      (\<forall>(operation, capability)\<in>set (request_requirements payload resolver). \<exists>i j. i \<le> j \<and> j < 5
               \<and> capability = CAPABILITY_LEVELS ! i \<and> OAUTH_SUPPORTED_SCOPES ! j \<in> set (at_scopes t))"
    by (simp only: first_scope_denial_None authorize_oauth_iff)
  show ?thesis
  proof (intro exI [of _ payload] conjI)
    show "capture_json_payload ne stream = Some (payload, stream)" using p s by simp
  next
    show "if text_claim t ''iss'' \<noteq> None \<and> text_claim t ''sub'' \<noteq> None
          \<and> (\<forall>(operation, capability)\<in>set (request_requirements payload resolver). \<exists>i j. i \<le> j \<and> j < 5
               \<and> capability = CAPABILITY_LEVELS ! i \<and> OAUTH_SUPPORTED_SCOPES ! j \<in> set (at_scopes t))
       then out = normalize_send (authorization_header (hs_headers scope) = []) url False (app scope stream)
         \<and> (Response_Start 401 \<notin> set (app scope stream) \<longrightarrow> out = map Sent (app scope stream))
       else \<exists>denial. out = [Sent_Error denial] \<and> re_status denial \<in> {401, 403}"
      unfolding denial [symmetric] out s oauth_authorization_cases
      by (auto simp: normalize_send_transparent oauth_error_response_def dest: first_scope_denial_status split: option.splits)
  qed
qed

section \<open>Concrete runs\<close>

definition demo_net_env :: net_env where
  "demo_net_env = \<lparr> ip_is_loopback = (\<lambda>s. if s = ''127.0.0.1'' then Some True else if s = ''10.0.0.5'' then Some False else None),
     url_split = (\<lambda>s. Some \<lparr> up_scheme = ''https'', up_hostname = Some ''mcp.example'', up_port = None, up_username = None,
       up_password = None, up_query = [], up_fragment = [] \<rparr>),
     url_canonical = (\<lambda>s. s), ne_sha256 = (\<lambda>s. ''digest-of-'' @ s),
     ne_json_loads = (\<lambda>s. if s = ''call'' then Some (PDict [(''method'', PStr ''tools/call''), (''params'', PDict [(''name'', PStr ''commit'')])]) else None) \<rparr>"

definition demo_token :: access_token where
  "demo_token = \<lparr> at_scopes = [''zaptrace:approved-commit'', ''other''], at_claims = [(''iss'', PStr ''https://idp''), (''sub'', PStr ''u1'')] \<rparr>"

definition demo_scope :: http_scope where
  "demo_scope = \<lparr> hs_type = ''http'', hs_path = MCP_HTTP_PATH, hs_method = ''POST'', hs_headers = [(''Authorization'', ''Bearer x'')],
     hs_token = Some demo_token \<rparr>"

definition demo_app :: asgi_app where
  "demo_app scope stream = [Response_Start 200, Response_Body ''ok'' False]"

definition demo_resolver :: "string \<Rightarrow> string option" where
  "demo_resolver name = (if name = ''commit'' then Some ''approved-commit'' else None)"

definition demo_oauth_environ :: "(string, string) dict" where
  "demo_oauth_environ = [(''ZAPTRACE_MCP_AUTH_PROFILE'', ''oauth-jwt''), (''ZAPTRACE_MCP_AUTH_CONFIG_VERSION'', ''1''),
     (''ZAPTRACE_MCP_PUBLIC_BASE_URL'', ''https://mcp.example''), (''ZAPTRACE_MCP_AUTH_RESOURCE_URI'', ''https://mcp.example/mcp''),
     (''ZAPTRACE_MCP_AUTHORIZATION_SERVER'', ''https://mcp.example/idp''), (''ZAPTRACE_MCP_AUTH_JWKS_URI'', ''https://mcp.example/jwks'')]"

lemma boundary_exact_witness:
  "boundary_call demo_net_env demo_resolver ''u'' demo_app demo_scope [Http_Request ''ca'' True, Http_Request ''ll'' False]
     = Some [Sent (Response_Start 200), Sent (Response_Body ''ok'' False)]
   \<and> (\<exists>payload. capture_json_payload demo_net_env [Http_Request ''ca'' True, Http_Request ''ll'' False]
        = Some (payload, [Http_Request ''ca'' True, Http_Request ''ll'' False]))"
proof -
  have run: "boundary_call demo_net_env demo_resolver ''u'' demo_app demo_scope [Http_Request ''ca'' True, Http_Request ''ll'' False]
     = Some [Sent (Response_Start 200), Sent (Response_Body ''ok'' False)]"
    by code_simp
  show ?thesis
    using run boundary_exact [OF _ _ _ _ run] by (auto simp: demo_scope_def)
qed

lemma startup_fail_closed_witness:
  "\<exists>c. resolve_mcp_http_auth_configuration demo_net_env ''10.0.0.5'' demo_oauth_environ = Inr c
     \<and> mc_profile c = OAUTH_JWT \<and> authentication_configured c"
proof -
  have run: "(case resolve_mcp_http_auth_configuration demo_net_env ''10.0.0.5'' demo_oauth_environ of Inl _ \<Rightarrow> False | Inr c \<Rightarrow> mc_profile c = OAUTH_JWT)"
    by code_simp
  have host: "\<not> is_loopback_host demo_net_env ''10.0.0.5''" by code_simp
  from run obtain c where c: "resolve_mcp_http_auth_configuration demo_net_env ''10.0.0.5'' demo_oauth_environ = Inr c" "mc_profile c = OAUTH_JWT" by (auto split: sum.splits)
  show ?thesis using startup_fail_closed [OF c(1)] host c by blast
qed

end
