(* ===== verification/Agent_Workflow.thy ===== *)
theory Agent_Workflow
  imports Access_Control "HOL-Library.Multiset" "HOL-Library.Sublist"
begin

text \<open>
  Checkpoints of long-running agent workflows (\<^verbatim>\<open>src/zaptrace/agent/workflow.py\<close>): the steps, their
  attempts, evidence and rollback handles, failure, resumption, abortion and rollback with their
  recovery events and audit events. Files and JSON are left out; clock and event ids are arguments.
  An operation that raises after it changed the checkpoint gives the changed checkpoint as well.
\<close>

section \<open>Checkpoints\<close>

datatype workflow_status = WF_RUNNING | WF_PAUSED | WF_FAILED | WF_ABORTED | WF_COMPLETED

fun workflow_status_value :: "workflow_status \<Rightarrow> string" where
  "workflow_status_value WF_RUNNING = ''running''"
| "workflow_status_value WF_PAUSED = ''paused''"
| "workflow_status_value WF_FAILED = ''failed''"
| "workflow_status_value WF_ABORTED = ''aborted''"
| "workflow_status_value WF_COMPLETED = ''completed''"

datatype step_status = STEP_PENDING | STEP_RUNNING | STEP_PASSED | STEP_FAILED | STEP_SKIPPED

datatype failure_kind = TOOL_ERROR | TIMEOUT | VALIDATION_GATE | USER_ABORT

datatype recovery_decision = DECIDE_RESUME | DECIDE_ROLLBACK | DECIDE_ABORT | DECIDE_RETRY

fun recovery_decision_value :: "recovery_decision \<Rightarrow> string" where
  "recovery_decision_value DECIDE_RESUME = ''resume''"
| "recovery_decision_value DECIDE_ROLLBACK = ''rollback''"
| "recovery_decision_value DECIDE_ABORT = ''abort''"
| "recovery_decision_value DECIDE_RETRY = ''retry''"

type_synonym evidence = "(string, pyval) dict"

record workflow_step =
  ws_step_id :: string
  ws_name :: string
  ws_tool :: string
  ws_mutates_design :: bool
  ws_status :: step_status
  ws_attempts :: nat
  ws_transaction_id :: string
  ws_diff_summary :: string
  ws_rollback_id :: string
  ws_rollback_available :: bool
  ws_evidence :: "evidence list"
  ws_failure_kind :: "failure_kind option"
  ws_error :: string

record recovery_event =
  wr_timestamp :: string
  wr_decision :: recovery_decision
  wr_reason :: string
  wr_step_id :: string
  wr_rollback_id :: string
  wr_audit_event_id :: string

record workflow_checkpoint =
  wc_schema_version :: string
  wc_workflow_id :: string
  wc_design_name :: string
  wc_status :: workflow_status
  wc_current_step_index :: nat
  wc_resume_count :: nat
  wc_steps :: "workflow_step list"
  wc_recovery_events :: "recovery_event list"
  wc_proof_evidence :: "evidence list"
  wc_created_at :: string
  wc_updated_at :: string

record workflow_step_spec =
  sp_step_id :: string
  sp_name :: string
  sp_tool :: string
  sp_mutates_design :: bool

definition step_of_spec :: "workflow_step_spec \<Rightarrow> workflow_step" where
  "step_of_spec sp = \<lparr> ws_step_id = sp_step_id sp, ws_name = sp_name sp, ws_tool = sp_tool sp, ws_mutates_design = sp_mutates_design sp,
     ws_status = STEP_PENDING, ws_attempts = 0, ws_transaction_id = [], ws_diff_summary = [], ws_rollback_id = [],
     ws_rollback_available = False, ws_evidence = [], ws_failure_kind = None, ws_error = [] \<rparr>"

definition create_checkpoint :: "string \<Rightarrow> string \<Rightarrow> string \<Rightarrow> workflow_step_spec list \<Rightarrow> workflow_checkpoint" where
  "create_checkpoint now workflow_id design_name specs =
     \<lparr> wc_schema_version = ''1.0'', wc_workflow_id = workflow_id, wc_design_name = design_name, wc_status = WF_RUNNING,
       wc_current_step_index = 0, wc_resume_count = 0, wc_steps = map step_of_spec specs, wc_recovery_events = [],
       wc_proof_evidence = [], wc_created_at = now, wc_updated_at = now \<rparr>"

text \<open>\<^verbatim>\<open>checkpoint.step(step_id)\<close> hands out the first step of that id, which the operations then change.\<close>

definition find_step :: "workflow_checkpoint \<Rightarrow> string \<Rightarrow> nat result" where
  "find_step c step_id =
     (let i = length (takeWhile (\<lambda>s. ws_step_id s \<noteq> step_id) (wc_steps c))
      in if i < length (wc_steps c) then Inr i else Inl (ValueError (''unknown workflow step: '' @ step_id)))"

text \<open>\<^verbatim>\<open>steps.index(step)\<close>: the first step equal to this one.\<close>

definition index_of :: "'a list \<Rightarrow> 'a \<Rightarrow> nat" where
  "index_of xs x = length (takeWhile (\<lambda>y. y \<noteq> x) xs)"

definition set_step :: "nat \<Rightarrow> workflow_step \<Rightarrow> workflow_checkpoint \<Rightarrow> workflow_checkpoint" where
  "set_step i s c = c\<lparr> wc_steps := (wc_steps c)[i := s] \<rparr>"

definition touch :: "string \<Rightarrow> workflow_checkpoint \<Rightarrow> workflow_checkpoint" where
  "touch now c = c\<lparr> wc_updated_at := now \<rparr>"

section \<open>Steps\<close>

definition begin_step :: "string \<Rightarrow> string \<Rightarrow> workflow_checkpoint \<Rightarrow> workflow_checkpoint result" where
  "begin_step now step_id c =
     rbind (find_step c step_id) (\<lambda>i.
       let s = (wc_steps c ! i)\<lparr> ws_status := STEP_RUNNING, ws_attempts := ws_attempts (wc_steps c ! i) + 1 \<rparr>;
           c1 = set_step i s c
       in Inr (touch now (c1\<lparr> wc_status := WF_RUNNING, wc_current_step_index := index_of (wc_steps c1) s \<rparr>)))"

text \<open>\<^verbatim>\<open>{"step_id": step_id, **evidence}\<close>: a key of the evidence takes precedence.\<close>

definition attributed :: "string \<Rightarrow> evidence \<Rightarrow> evidence" where
  "attributed step_id evidence = fold (\<lambda>(k, v). dict_set k v) evidence [(''step_id'', PStr step_id)]"

definition add_evidence :: "string \<Rightarrow> nat \<Rightarrow> evidence option \<Rightarrow> workflow_checkpoint \<Rightarrow> workflow_checkpoint" where
  "add_evidence step_id i evidence c =
     (case evidence of
        None \<Rightarrow> c
      | Some e \<Rightarrow> (set_step i ((wc_steps c ! i)\<lparr> ws_evidence := ws_evidence (wc_steps c ! i) @ [e] \<rparr>) c)
                    \<lparr> wc_proof_evidence := wc_proof_evidence c @ [attributed step_id e] \<rparr>)"

record completion =
  co_evidence :: "evidence option"
  co_transaction_id :: string
  co_diff_summary :: string
  co_rollback_id :: string

definition completed_step :: "completion \<Rightarrow> workflow_step \<Rightarrow> workflow_step" where
  "completed_step co s0 =
     (let s1 = s0\<lparr> ws_transaction_id := (if co_transaction_id co \<noteq> [] then co_transaction_id co else ws_transaction_id s0),
                    ws_diff_summary := (if co_diff_summary co \<noteq> [] then co_diff_summary co else ws_diff_summary s0) \<rparr>
      in if co_rollback_id co \<noteq> [] then s1\<lparr> ws_rollback_id := co_rollback_id co, ws_rollback_available := True \<rparr> else s1)"

definition complete_step :: "string \<Rightarrow> string \<Rightarrow> completion \<Rightarrow> workflow_checkpoint \<Rightarrow> workflow_checkpoint result" where
  "complete_step now step_id co c =
     rbind (find_step c step_id) (\<lambda>i.
       let c1 = add_evidence step_id i (co_evidence co) (set_step i ((wc_steps c ! i)\<lparr> ws_status := STEP_PASSED \<rparr>) c);
           s = completed_step co (wc_steps c1 ! i);
           c2 = set_step i s c1;
           c3 = c2\<lparr> wc_current_step_index := min (length (wc_steps c2)) (index_of (wc_steps c2) s + 1) \<rparr>
       in Inr (touch now (if wc_current_step_index c3 \<ge> length (wc_steps c3) then c3\<lparr> wc_status := WF_COMPLETED \<rparr> else c3)))"

definition fail_step :: "string \<Rightarrow> string \<Rightarrow> failure_kind \<Rightarrow> string \<Rightarrow> evidence option \<Rightarrow> workflow_checkpoint \<Rightarrow> workflow_checkpoint result" where
  "fail_step now step_id kind error evidence c =
     rbind (find_step c step_id) (\<lambda>i.
       let c1 = add_evidence step_id i evidence
                  (set_step i ((wc_steps c ! i)\<lparr> ws_status := STEP_FAILED, ws_failure_kind := Some kind, ws_error := error \<rparr>) c)
       in Inr (touch now (c1\<lparr> wc_status := (if kind = USER_ABORT then WF_ABORTED else WF_FAILED),
                               wc_current_step_index := index_of (wc_steps c1) (wc_steps c1 ! i) \<rparr>)))"

section \<open>Recovery\<close>

record workflow_env =
  we_now :: string
  we_event_id :: string
  we_session_id :: string
  we_actor :: string

definition recovery_audit ::
  "workflow_env \<Rightarrow> workflow_checkpoint \<Rightarrow> recovery_decision \<Rightarrow> string \<Rightarrow> string \<Rightarrow> string \<Rightarrow> audit_event" where
  "recovery_audit en c decision reason shown_step rollback_id =
     \<lparr> ae_event_id = we_event_id en, ae_timestamp = we_now en, ae_surface = ''agent-runtime'', ae_session_id = we_session_id en,
       ae_actor = we_actor en, ae_tool = ''workflow_recovery'', ae_capability = ''sandbox-write'',
       ae_decision = recovery_decision_value decision, ae_reason = reason,
       ae_metadata = [(''workflow_id'', PStr (wc_workflow_id c)), (''design_name'', PStr (wc_design_name c)),
         (''status'', PStr (workflow_status_value (wc_status c))), (''step_id'', PStr shown_step),
         (''rollback_id'', PStr rollback_id), (''resume_count'', PInt (int (wc_resume_count c)))] \<rparr>"

text \<open>The audit session is \<open>None\<close>, or the list of its events.\<close>

definition record_recovery ::
  "workflow_env \<Rightarrow> workflow_checkpoint \<Rightarrow> recovery_decision \<Rightarrow> string \<Rightarrow> string \<Rightarrow> string \<Rightarrow> audit_event list option
   \<Rightarrow> (recovery_event \<times> audit_event list option) result" where
  "record_recovery en c decision reason step_id rollback_id session =
     rbind (if step_id \<noteq> [] then Inr step_id
            else if wc_current_step_index c < length (wc_steps c) then Inr (ws_step_id (wc_steps c ! wc_current_step_index c))
            else Inl (IndexError ''list index out of range'')) (\<lambda>shown_step.
       let audit = recovery_audit en c decision reason shown_step rollback_id
       in Inr (\<lparr> wr_timestamp = we_now en, wr_decision = decision, wr_reason = reason, wr_step_id = shown_step, wr_rollback_id = rollback_id,
                 wr_audit_event_id = (case session of None \<Rightarrow> [] | Some _ \<Rightarrow> ae_event_id audit) \<rparr>,
               map_option (\<lambda>es. record_audit_event audit (Some es)) session))"

text \<open>What an operation leaves behind: checkpoint, audit session, and the error it raised.\<close>

type_synonym outcome = "workflow_checkpoint \<times> audit_event list option \<times> py_error option"

definition append_recovery ::
  "workflow_env \<Rightarrow> recovery_decision \<Rightarrow> string \<Rightarrow> string \<Rightarrow> string \<Rightarrow> audit_event list option \<Rightarrow> workflow_checkpoint \<Rightarrow> outcome" where
  "append_recovery en decision reason step_id rollback_id session c =
     (case record_recovery en c decision reason step_id rollback_id session of
        Inl e \<Rightarrow> (c, session, Some e)
      | Inr (event, session') \<Rightarrow> (touch (we_now en) (c\<lparr> wc_recovery_events := wc_recovery_events c @ [event] \<rparr>), session', None))"

definition resume_workflow :: "workflow_env \<Rightarrow> string \<Rightarrow> audit_event list option \<Rightarrow> workflow_checkpoint \<Rightarrow> outcome" where
  "resume_workflow en reason session c =
     (if wc_status c \<notin> {WF_FAILED, WF_PAUSED}
      then (c, session, Some (ValueError (''workflow cannot resume from '' @ workflow_status_value (wc_status c))))
      else append_recovery en DECIDE_RESUME reason [] [] session
             (c\<lparr> wc_resume_count := wc_resume_count c + 1, wc_status := WF_RUNNING \<rparr>))"

definition abort_workflow :: "workflow_env \<Rightarrow> string \<Rightarrow> audit_event list option \<Rightarrow> workflow_checkpoint \<Rightarrow> outcome" where
  "abort_workflow en reason session c = append_recovery en DECIDE_ABORT reason [] [] session (c\<lparr> wc_status := WF_ABORTED \<rparr>)"

definition rollback_after_resume :: "workflow_env \<Rightarrow> string \<Rightarrow> string \<Rightarrow> audit_event list option \<Rightarrow> workflow_checkpoint \<Rightarrow> outcome" where
  "rollback_after_resume en step_id reason session c =
     (case find_step c step_id of
        Inl e \<Rightarrow> (c, session, Some e)
      | Inr i \<Rightarrow>
          (let s = wc_steps c ! i in
           if \<not> ws_rollback_available s \<or> ws_rollback_id s = []
           then (c, session, Some (ValueError (''rollback is not available for step: '' @ step_id)))
           else append_recovery en DECIDE_ROLLBACK reason step_id (ws_rollback_id s) session c))"

section \<open>Runs\<close>

datatype workflow_op =
    Begin string
  | Complete string completion
  | Fail string failure_kind string "evidence option"
  | Resume string bool \<comment> \<open>reason, and whether the audit session is given\<close>
  | Abort string bool
  | Rollback string string bool

definition in_place :: "workflow_checkpoint \<Rightarrow> audit_event list \<Rightarrow> workflow_checkpoint result \<Rightarrow> workflow_checkpoint \<times> audit_event list \<times> py_error option" where
  "in_place c audits r = (case r of Inl e \<Rightarrow> (c, audits, Some e) | Inr c' \<Rightarrow> (c', audits, None))"

definition audited :: "bool \<Rightarrow> audit_event list \<Rightarrow> (audit_event list option \<Rightarrow> outcome) \<Rightarrow> workflow_checkpoint \<times> audit_event list \<times> py_error option" where
  "audited b audits f =
     (case f (if b then Some audits else None) of (c', session, e) \<Rightarrow> (c', (case session of None \<Rightarrow> audits | Some es \<Rightarrow> es), e))"

fun workflow_apply ::
  "workflow_env \<Rightarrow> workflow_op \<Rightarrow> workflow_checkpoint \<Rightarrow> audit_event list \<Rightarrow> workflow_checkpoint \<times> audit_event list \<times> py_error option" where
  "workflow_apply en (Begin step_id) c audits = in_place c audits (begin_step (we_now en) step_id c)"
| "workflow_apply en (Complete step_id co) c audits = in_place c audits (complete_step (we_now en) step_id co c)"
| "workflow_apply en (Fail step_id kind error evidence) c audits = in_place c audits (fail_step (we_now en) step_id kind error evidence c)"
| "workflow_apply en (Resume reason b) c audits = audited b audits (\<lambda>session. resume_workflow en reason session c)"
| "workflow_apply en (Abort reason b) c audits = audited b audits (\<lambda>session. abort_workflow en reason session c)"
| "workflow_apply en (Rollback step_id reason b) c audits = audited b audits (\<lambda>session. rollback_after_resume en step_id reason session c)"

text \<open>A caller that goes on after an error, with a clock and fresh ids per operation.\<close>

fun workflow_run :: "(workflow_env \<times> workflow_op) list \<Rightarrow> workflow_checkpoint \<times> audit_event list \<Rightarrow> workflow_checkpoint \<times> audit_event list" where
  "workflow_run [] st = st"
| "workflow_run ((en, op) # ops) (c, audits) =
     (case workflow_apply en op c audits of (c', audits', _) \<Rightarrow> workflow_run ops (c', audits'))"

section \<open>What an operation changes\<close>

lemma find_step_iff: "find_step c step_id = Inr i \<longleftrightarrow>
    i < length (wc_steps c) \<and> ws_step_id (wc_steps c ! i) = step_id \<and> (\<forall>j<i. ws_step_id (wc_steps c ! j) \<noteq> step_id)"
proof
  assume "find_step c step_id = Inr i"
  then have i: "i = length (takeWhile (\<lambda>s. ws_step_id s \<noteq> step_id) (wc_steps c))" "i < length (wc_steps c)"
    by (auto simp: find_step_def Let_def split: if_splits)
  have "ws_step_id (wc_steps c ! i) = step_id" using nth_length_takeWhile [of "\<lambda>s. ws_step_id s \<noteq> step_id" "wc_steps c"] i by simp
  moreover have "ws_step_id (wc_steps c ! j) \<noteq> step_id" if "j < i" for j
    using set_takeWhileD [OF nth_mem [of j "takeWhile (\<lambda>s. ws_step_id s \<noteq> step_id) (wc_steps c)"]] that i(1) takeWhile_nth
    by metis
  ultimately show "i < length (wc_steps c) \<and> ws_step_id (wc_steps c ! i) = step_id \<and> (\<forall>j<i. ws_step_id (wc_steps c ! j) \<noteq> step_id)"
    using i(2) by blast
next
  assume r: "i < length (wc_steps c) \<and> ws_step_id (wc_steps c ! i) = step_id \<and> (\<forall>j<i. ws_step_id (wc_steps c ! j) \<noteq> step_id)"
  then have "takeWhile (\<lambda>s. ws_step_id s \<noteq> step_id) (wc_steps c) = take i (wc_steps c)" by (intro takeWhile_eq_take_P_nth) auto
  then show "find_step c step_id = Inr i" using r by (simp add: find_step_def)
qed

lemma index_of_first:
  assumes "i < length xs" "\<And>j. j < i \<Longrightarrow> xs ! j \<noteq> xs ! i"
  shows "index_of xs (xs ! i) = i"
proof -
  have "takeWhile (\<lambda>y. y \<noteq> xs ! i) xs = take i xs" by (rule takeWhile_eq_take_P_nth) (use assms in auto)
  then show ?thesis using assms(1) by (simp add: index_of_def)
qed

lemma index_of_step:
  assumes "find_step c step_id = Inr i" "ws_step_id s = step_id"
  shows "index_of ((wc_steps c)[i := s]) s = i"
proof -
  have "index_of ((wc_steps c)[i := s]) ((wc_steps c)[i := s] ! i) = i"
    by (rule index_of_first) (use assms in \<open>auto simp: find_step_iff\<close>)
  then show ?thesis using assms by (simp add: find_step_iff)
qed

definition evidence_list :: "evidence option \<Rightarrow> evidence list" where
  "evidence_list e = (case e of None \<Rightarrow> [] | Some x \<Rightarrow> [x])"

lemma add_evidence_eq: "i < length (wc_steps c) \<Longrightarrow> add_evidence step_id i e c =
    c\<lparr> wc_steps := (wc_steps c)[i := (wc_steps c ! i)\<lparr> ws_evidence := ws_evidence (wc_steps c ! i) @ evidence_list e \<rparr>],
       wc_proof_evidence := wc_proof_evidence c @ map (attributed step_id) (evidence_list e) \<rparr>"
  by (cases e) (simp_all add: add_evidence_def evidence_list_def set_step_def)

definition begun :: "workflow_step \<Rightarrow> workflow_step" where
  "begun s = s\<lparr> ws_status := STEP_RUNNING, ws_attempts := ws_attempts s + 1 \<rparr>"

definition passed :: "completion \<Rightarrow> workflow_step \<Rightarrow> workflow_step" where
  "passed co s = completed_step co (s\<lparr> ws_status := STEP_PASSED, ws_evidence := ws_evidence s @ evidence_list (co_evidence co) \<rparr>)"

definition failed :: "failure_kind \<Rightarrow> string \<Rightarrow> evidence option \<Rightarrow> workflow_step \<Rightarrow> workflow_step" where
  "failed kind error e s = s\<lparr> ws_status := STEP_FAILED, ws_failure_kind := Some kind, ws_error := error, ws_evidence := ws_evidence s @ evidence_list e \<rparr>"

lemma step_fields [simp]:
  "ws_step_id (begun s) = ws_step_id s" "ws_evidence (begun s) = ws_evidence s" "ws_status (begun s) = STEP_RUNNING"
  "ws_step_id (passed co s) = ws_step_id s" "ws_evidence (passed co s) = ws_evidence s @ evidence_list (co_evidence co)" "ws_status (passed co s) = STEP_PASSED"
  "ws_step_id (failed kind error e s) = ws_step_id s" "ws_evidence (failed kind error e s) = ws_evidence s @ evidence_list e" "ws_status (failed kind error e s) = STEP_FAILED"
  by (simp_all add: begun_def passed_def completed_step_def failed_def Let_def)

lemma begin_step_eq:
  assumes "find_step c step_id = Inr i"
  shows "begin_step now step_id c =
    Inr (c\<lparr> wc_steps := (wc_steps c)[i := begun (wc_steps c ! i)], wc_status := WF_RUNNING, wc_current_step_index := i, wc_updated_at := now \<rparr>)"
proof -
  have i: "i < length (wc_steps c)" "ws_step_id (wc_steps c ! i) = step_id" using assms by (simp_all add: find_step_iff)
  have "index_of ((wc_steps c)[i := begun (wc_steps c ! i)]) (begun (wc_steps c ! i)) = i" using assms i(2) by (simp add: index_of_step)
  then show ?thesis using i assms by (auto simp: begin_step_def begun_def Let_def set_step_def touch_def)
qed

lemma complete_step_eq:
  assumes "find_step c step_id = Inr i"
  shows "complete_step now step_id co c =
    Inr (c\<lparr> wc_steps := (wc_steps c)[i := passed co (wc_steps c ! i)],
            wc_proof_evidence := wc_proof_evidence c @ map (attributed step_id) (evidence_list (co_evidence co)),
            wc_status := (if Suc i = length (wc_steps c) then WF_COMPLETED else wc_status c),
            wc_current_step_index := Suc i, wc_updated_at := now \<rparr>)"
proof -
  have i: "i < length (wc_steps c)" "ws_step_id (wc_steps c ! i) = step_id" using assms by (simp_all add: find_step_iff)
  have "index_of ((wc_steps c)[i := passed co (wc_steps c ! i)]) (passed co (wc_steps c ! i)) = i" using assms i(2) by (simp add: index_of_step)
  then show ?thesis using i assms by (auto simp: complete_step_def passed_def add_evidence_eq min_def Let_def set_step_def touch_def)
qed

lemma fail_step_eq:
  assumes "find_step c step_id = Inr i"
  shows "fail_step now step_id kind error e c =
    Inr (c\<lparr> wc_steps := (wc_steps c)[i := failed kind error e (wc_steps c ! i)],
            wc_proof_evidence := wc_proof_evidence c @ map (attributed step_id) (evidence_list e),
            wc_status := (if kind = USER_ABORT then WF_ABORTED else WF_FAILED), wc_current_step_index := i, wc_updated_at := now \<rparr>)"
proof -
  have i: "i < length (wc_steps c)" "ws_step_id (wc_steps c ! i) = step_id" using assms by (simp_all add: find_step_iff)
  have "index_of ((wc_steps c)[i := failed kind error e (wc_steps c ! i)]) (failed kind error e (wc_steps c ! i)) = i" using assms i(2) by (simp add: index_of_step)
  then show ?thesis using i assms by (auto simp: fail_step_def failed_def add_evidence_eq Let_def set_step_def touch_def)
qed

lemma step_raises: "find_step c step_id = Inl x \<Longrightarrow> begin_step now step_id c = Inl x"
  "find_step c step_id = Inl x \<Longrightarrow> complete_step now step_id co c = Inl x"
  "find_step c step_id = Inl x \<Longrightarrow> fail_step now step_id kind error e c = Inl x"
  by (simp_all add: begin_step_def complete_step_def fail_step_def)

text \<open>Every operation changes one step, or only the status and the logs, or nothing at all.\<close>

definition recovered :: "workflow_env \<Rightarrow> recovery_decision \<Rightarrow> string \<Rightarrow> string \<Rightarrow> string \<Rightarrow> bool \<Rightarrow> recovery_event" where
  "recovered en decision reason step_id rollback_id b = \<lparr> wr_timestamp = we_now en, wr_decision = decision, wr_reason = reason,
     wr_step_id = step_id, wr_rollback_id = rollback_id, wr_audit_event_id = (if b then we_event_id en else []) \<rparr>"

lemma append_recovery_cases:
  "append_recovery en decision reason step_id rollback_id session c =
     (if step_id = [] \<and> length (wc_steps c) \<le> wc_current_step_index c then (c, session, Some (IndexError ''list index out of range''))
      else let shown = (if step_id = [] then ws_step_id (wc_steps c ! wc_current_step_index c) else step_id) in
        (c\<lparr> wc_recovery_events := wc_recovery_events c @ [recovered en decision reason shown rollback_id (session \<noteq> None)], wc_updated_at := we_now en \<rparr>,
         map_option (\<lambda>es. es @ [recovery_audit en c decision reason shown rollback_id]) session, None))"
  by (auto simp: append_recovery_def record_recovery_def Let_def touch_def recovered_def recovery_audit_def record_audit_event_def split: option.splits)

section \<open>The invariant\<close>

definition resumes :: "workflow_checkpoint \<Rightarrow> nat" where
  "resumes c = length (filter (\<lambda>e. wr_decision e = DECIDE_RESUME) (wc_recovery_events c))"

definition collected :: "workflow_step list \<Rightarrow> evidence list" where
  "collected steps = concat (map (\<lambda>s. map (attributed (ws_step_id s)) (ws_evidence s)) steps)"

definition workflow_inv :: "workflow_checkpoint \<Rightarrow> bool" where
  "workflow_inv c \<longleftrightarrow> wc_steps c \<noteq> [] \<and> wc_status c \<noteq> WF_PAUSED \<and> wc_current_step_index c \<le> length (wc_steps c)
     \<and> (wc_status c \<in> {WF_RUNNING, WF_FAILED} \<longrightarrow> wc_current_step_index c < length (wc_steps c))
     \<and> (wc_status c = WF_COMPLETED \<longrightarrow> ws_status (last (wc_steps c)) = STEP_PASSED)
     \<and> wc_resume_count c = resumes c
     \<and> (\<forall>s\<in>set (wc_steps c). ws_rollback_available s \<longleftrightarrow> ws_rollback_id s \<noteq> [])
     \<and> mset (wc_proof_evidence c) = mset (collected (wc_steps c))"

lemma collected_update: "i < length steps \<Longrightarrow> ws_step_id s = ws_step_id (steps ! i) \<Longrightarrow> ws_evidence s = ws_evidence (steps ! i) @ es \<Longrightarrow>
    mset (collected (steps[i := s])) = mset (collected steps) + mset (map (attributed (ws_step_id s)) es)"
proof -
  assume i: "i < length steps" and s: "ws_step_id s = ws_step_id (steps ! i)" "ws_evidence s = ws_evidence (steps ! i) @ es"
  have "collected (steps[i := s]) = collected (take i steps) @ map (attributed (ws_step_id s)) (ws_evidence s) @ collected (drop (Suc i) steps)"
    using i by (simp add: upd_conv_take_nth_drop collected_def)
  moreover have "collected steps = collected (take i steps) @ map (attributed (ws_step_id (steps ! i))) (ws_evidence (steps ! i)) @ collected (drop (Suc i) steps)"
    by (subst id_take_nth_drop [OF i]) (simp add: collected_def)
  ultimately show ?thesis using s by simp
qed

lemma last_update: "steps \<noteq> [] \<Longrightarrow> last (steps[i := s]) = (if Suc i = length steps then s else last steps)"
  by (auto simp: last_conv_nth nth_list_update)

lemma rollback_update: "(\<forall>s\<in>set steps. ws_rollback_available s \<longleftrightarrow> ws_rollback_id s \<noteq> []) \<Longrightarrow>
    (ws_rollback_available s \<longleftrightarrow> ws_rollback_id s \<noteq> []) \<Longrightarrow>
    (\<forall>s\<in>set (steps[i := s]). ws_rollback_available s \<longleftrightarrow> ws_rollback_id s \<noteq> [])"
  using set_update_subset_insert [of steps i s] by blast

lemma rollback_fields:
  "ws_rollback_available (begun s) = ws_rollback_available s" "ws_rollback_id (begun s) = ws_rollback_id s"
  "ws_rollback_available (failed kind error e s) = ws_rollback_available s" "ws_rollback_id (failed kind error e s) = ws_rollback_id s"
  "(ws_rollback_available s \<longleftrightarrow> ws_rollback_id s \<noteq> []) \<Longrightarrow> (ws_rollback_available (passed co s) \<longleftrightarrow> ws_rollback_id (passed co s) \<noteq> [])"
  by (auto simp: begun_def failed_def passed_def completed_step_def Let_def)

lemma create_inv: "specs \<noteq> [] \<Longrightarrow> workflow_inv (create_checkpoint now workflow_id design_name specs)"
  by (auto simp: workflow_inv_def create_checkpoint_def step_of_spec_def resumes_def collected_def)

text \<open>One step changes into \<open>s\<close>, which gained the evidence \<open>es\<close>; status and position as given.\<close>

lemma step_inv:
  assumes inv: "workflow_inv c" and i: "find_step c step_id = Inr i"
    and s: "ws_step_id s = step_id" "ws_evidence s = ws_evidence (wc_steps c ! i) @ es"
      "(ws_rollback_available (wc_steps c ! i) \<longleftrightarrow> ws_rollback_id (wc_steps c ! i) \<noteq> []) \<Longrightarrow> (ws_rollback_available s \<longleftrightarrow> ws_rollback_id s \<noteq> [])"
    and c': "c' = c\<lparr> wc_steps := (wc_steps c)[i := s], wc_proof_evidence := wc_proof_evidence c @ map (attributed step_id) es,
      wc_status := status, wc_current_step_index := k, wc_updated_at := now \<rparr>"
    and status: "status \<noteq> WF_PAUSED" "k \<le> length (wc_steps c)" "status \<in> {WF_RUNNING, WF_FAILED} \<Longrightarrow> k < length (wc_steps c)"
      "status = WF_COMPLETED \<Longrightarrow> ws_status s = STEP_PASSED \<and> (Suc i = length (wc_steps c) \<or> wc_status c = WF_COMPLETED)"
  shows "workflow_inv c'"
proof -
  have i': "i < length (wc_steps c)" "ws_step_id (wc_steps c ! i) = step_id" using i by (simp_all add: find_step_iff)
  have "mset (collected ((wc_steps c)[i := s])) = mset (collected (wc_steps c)) + mset (map (attributed step_id) es)"
    using collected_update [OF i'(1), of s es] s i'(2) by simp
  moreover have "\<forall>s\<in>set ((wc_steps c)[i := s]). ws_rollback_available s \<longleftrightarrow> ws_rollback_id s \<noteq> []"
    using inv i'(1) s(3) by (intro rollback_update) (auto simp: workflow_inv_def)
  moreover have "status = WF_COMPLETED \<longrightarrow> ws_status (last ((wc_steps c)[i := s])) = STEP_PASSED"
    using inv status(4) by (subst last_update) (auto simp: workflow_inv_def)
  ultimately show ?thesis using inv status by (simp add: workflow_inv_def c' resumes_def)
qed

lemma workflow_inv_log:
  "workflow_inv c \<Longrightarrow> wc_steps c' = wc_steps c \<Longrightarrow> wc_current_step_index c' = wc_current_step_index c \<Longrightarrow>
   wc_proof_evidence c' = wc_proof_evidence c \<Longrightarrow> wc_resume_count c' = resumes c' \<Longrightarrow>
   wc_status c' = wc_status c \<or> wc_status c' = WF_ABORTED \<or> wc_status c' = WF_RUNNING \<and> wc_status c = WF_FAILED \<Longrightarrow> workflow_inv c'"
  unfolding workflow_inv_def by auto

lemma append_recovery_inv:
  assumes "append_recovery en decision reason step_id rollback_id session c1 = (c', session', e)" "workflow_inv c" "wc_steps c1 = wc_steps c"
    "wc_current_step_index c1 = wc_current_step_index c" "wc_proof_evidence c1 = wc_proof_evidence c" "wc_recovery_events c1 = wc_recovery_events c"
    "wc_status c1 = wc_status c \<or> wc_status c1 = WF_ABORTED \<or> wc_status c1 = WF_RUNNING \<and> wc_status c = WF_FAILED"
    "wc_resume_count c1 = wc_resume_count c + (if decision = DECIDE_RESUME then 1 else 0)"
    "decision = DECIDE_RESUME \<Longrightarrow> wc_current_step_index c < length (wc_steps c)"
  shows "workflow_inv c'"
proof (rule workflow_inv_log [OF assms(2)])
  have n: "wc_resume_count c = resumes c" using assms(2) by (simp add: workflow_inv_def)
  show "wc_steps c' = wc_steps c" "wc_current_step_index c' = wc_current_step_index c" "wc_proof_evidence c' = wc_proof_evidence c"
    "wc_status c' = wc_status c \<or> wc_status c' = WF_ABORTED \<or> wc_status c' = WF_RUNNING \<and> wc_status c = WF_FAILED"
    using assms by (auto simp: append_recovery_cases Let_def split: if_splits)
  show "wc_resume_count c' = resumes c'"
  proof (cases "step_id = [] \<and> length (wc_steps c1) \<le> wc_current_step_index c1")
    case True
    then have "decision \<noteq> DECIDE_RESUME" using assms(3,4,9) by auto
    then show ?thesis using assms(1,6,8) n True by (simp add: append_recovery_cases resumes_def)
  next
    case False
    then have "c' = c1\<lparr> wc_recovery_events := wc_recovery_events c1 @ [recovered en decision reason
        (if step_id = [] then ws_step_id (wc_steps c1 ! wc_current_step_index c1) else step_id) rollback_id (session \<noteq> None)], wc_updated_at := we_now en \<rparr>"
      using assms(1) unfolding append_recovery_cases by (simp only: if_False Let_def prod.inject)
    then show ?thesis using assms(6,8) n by (simp add: resumes_def recovered_def)
  qed
qed

lemma workflow_apply_inv: "workflow_inv c \<Longrightarrow> workflow_apply en op c audits = (c', audits', e) \<Longrightarrow> workflow_inv c'"
proof (cases op)
  case (Begin step_id)
  assume inv: "workflow_inv c" and ap: "workflow_apply en op c audits = (c', audits', e)"
  show ?thesis
  proof (cases "find_step c step_id")
    case (Inr i)
    show ?thesis
      by (rule step_inv [OF inv Inr, where s = "begun (wc_steps c ! i)" and es = "[]" and status = WF_RUNNING and k = i and now = "we_now en"])
        (use ap Inr in \<open>auto simp: Begin in_place_def begin_step_eq find_step_iff rollback_fields\<close>)
  qed (use inv ap in \<open>simp add: Begin in_place_def step_raises\<close>)
next
  case (Complete step_id co)
  assume inv: "workflow_inv c" and ap: "workflow_apply en op c audits = (c', audits', e)"
  show ?thesis
  proof (cases "find_step c step_id")
    case (Inr i)
    show ?thesis
      by (rule step_inv [OF inv Inr, where s = "passed co (wc_steps c ! i)" and es = "evidence_list (co_evidence co)"
            and status = "if Suc i = length (wc_steps c) then WF_COMPLETED else wc_status c" and k = "Suc i" and now = "we_now en"])
        (use ap Inr inv in \<open>auto simp: Complete in_place_def complete_step_eq find_step_iff rollback_fields workflow_inv_def split: if_splits\<close>)
  qed (use inv ap in \<open>simp add: Complete in_place_def step_raises\<close>)
next
  case (Fail step_id kind error ev)
  assume inv: "workflow_inv c" and ap: "workflow_apply en op c audits = (c', audits', e)"
  show ?thesis
  proof (cases "find_step c step_id")
    case (Inr i)
    show ?thesis
      by (rule step_inv [OF inv Inr, where s = "failed kind error ev (wc_steps c ! i)" and es = "evidence_list ev"
            and status = "if kind = USER_ABORT then WF_ABORTED else WF_FAILED" and k = i and now = "we_now en"])
        (use ap Inr in \<open>auto simp: Fail in_place_def fail_step_eq find_step_iff rollback_fields split: if_splits\<close>)
  qed (use inv ap in \<open>simp add: Fail in_place_def step_raises\<close>)
next
  case (Resume reason b)
  assume inv: "workflow_inv c" and ap: "workflow_apply en op c audits = (c', audits', e)"
  show ?thesis
  proof (cases "wc_status c = WF_FAILED")
    case True
    then have "wc_current_step_index c < length (wc_steps c)" using inv by (simp add: workflow_inv_def)
    then show ?thesis using ap True
      by (auto simp: Resume audited_def resume_workflow_def split: prod.splits intro: append_recovery_inv [OF _ inv])
  next
    case False
    then have "wc_status c \<notin> {WF_FAILED, WF_PAUSED}" using inv by (simp add: workflow_inv_def)
    then show ?thesis using ap inv by (simp add: Resume audited_def resume_workflow_def)
  qed
next
  case (Abort reason b)
  assume inv: "workflow_inv c" and ap: "workflow_apply en op c audits = (c', audits', e)"
  then show ?thesis by (auto simp: Abort audited_def abort_workflow_def split: prod.splits intro: append_recovery_inv [OF _ inv])
next
  case (Rollback step_id reason b)
  assume inv: "workflow_inv c" and ap: "workflow_apply en op c audits = (c', audits', e)"
  then show ?thesis
    by (auto simp: Rollback audited_def rollback_after_resume_def Let_def split: prod.splits sum.splits if_splits intro: append_recovery_inv [OF _ inv])
qed

lemma workflow_run_inv: "workflow_inv (fst st) \<Longrightarrow> workflow_inv (fst (workflow_run ops st))"
proof (induction ops st rule: workflow_run.induct)
  case (2 en op ops c audits)
  obtain c' audits' e where a: "workflow_apply en op c audits = (c', audits', e)" by (cases "workflow_apply en op c audits")
  then have "workflow_inv c'" using 2(2) by (auto intro: workflow_apply_inv)
  then show ?case using 2(1) [OF a [symmetric] refl] a by simp
qed simp


section \<open>Lineage is kept\<close>

definition step_le :: "workflow_step \<Rightarrow> workflow_step \<Rightarrow> bool" where
  "step_le s s' \<longleftrightarrow> ws_step_id s' = ws_step_id s \<and> ws_name s' = ws_name s \<and> ws_tool s' = ws_tool s
     \<and> ws_mutates_design s' = ws_mutates_design s \<and> ws_attempts s \<le> ws_attempts s' \<and> prefix (ws_evidence s) (ws_evidence s')
     \<and> (ws_rollback_available s \<longrightarrow> ws_rollback_available s') \<and> (ws_rollback_id s \<noteq> [] \<longrightarrow> ws_rollback_id s' \<noteq> [])
     \<and> (ws_transaction_id s \<noteq> [] \<longrightarrow> ws_transaction_id s' \<noteq> [])"

definition lineage_le :: "workflow_checkpoint \<Rightarrow> workflow_checkpoint \<Rightarrow> bool" where
  "lineage_le c c' \<longleftrightarrow> list_all2 step_le (wc_steps c) (wc_steps c') \<and> prefix (wc_proof_evidence c) (wc_proof_evidence c')
     \<and> prefix (wc_recovery_events c) (wc_recovery_events c') \<and> wc_resume_count c \<le> wc_resume_count c'
     \<and> wc_workflow_id c' = wc_workflow_id c \<and> wc_design_name c' = wc_design_name c \<and> wc_created_at c' = wc_created_at c"

lemma step_le_refl [simp]: "step_le s s"
  by (simp add: step_le_def)

lemma step_le_trans: "step_le a b \<Longrightarrow> step_le b c \<Longrightarrow> step_le a c"
  by (auto simp: step_le_def)

lemma lineage_le_refl [simp]: "lineage_le c c"
  by (simp add: lineage_le_def list_all2_refl)

lemma lineage_le_trans: "lineage_le a b \<Longrightarrow> lineage_le b c \<Longrightarrow> lineage_le a c"
proof -
  assume ab: "lineage_le a b" and bc: "lineage_le b c"
  have "list_all2 step_le (wc_steps a) (wc_steps c)"
    by (rule list_all2_trans [where ?P1.0 = step_le and ?P2.0 = step_le and bs = "wc_steps b"]) (use ab bc step_le_trans in \<open>auto simp: lineage_le_def\<close>)
  then show ?thesis using ab bc by (auto simp: lineage_le_def intro: prefix_order.trans)
qed

lemma step_le_changed [simp]: "step_le s (begun s)" "step_le s (passed co s)" "step_le s (failed kind error e s)"
  by (auto simp: step_le_def begun_def passed_def completed_step_def failed_def Let_def)

lemma list_all2_update_le: "step_le (steps ! i) s \<Longrightarrow> list_all2 step_le steps (steps[i := s])"
  by (cases "i < length steps") (auto simp: list_all2_conv_all_nth nth_list_update)

lemma workflow_apply_lineage: "workflow_apply en op c audits = (c', audits', e) \<Longrightarrow> lineage_le c c' \<and> prefix audits audits'"
proof (cases op)
  case (Begin step_id)
  assume "workflow_apply en op c audits = (c', audits', e)"
  then show ?thesis by (cases "find_step c step_id") (auto simp: Begin in_place_def step_raises begin_step_eq lineage_le_def list_all2_update_le)
next
  case (Complete step_id co)
  assume "workflow_apply en op c audits = (c', audits', e)"
  then show ?thesis by (cases "find_step c step_id") (auto simp: Complete in_place_def step_raises complete_step_eq lineage_le_def list_all2_update_le)
next
  case (Fail step_id kind error ev)
  assume "workflow_apply en op c audits = (c', audits', e)"
  then show ?thesis by (cases "find_step c step_id") (auto simp: Fail in_place_def step_raises fail_step_eq lineage_le_def list_all2_update_le)
next
  case (Resume reason b)
  assume "workflow_apply en op c audits = (c', audits', e)"
  then show ?thesis
    by (auto simp: Resume audited_def resume_workflow_def append_recovery_cases Let_def lineage_le_def list_all2_refl split: if_splits)
next
  case (Abort reason b)
  assume "workflow_apply en op c audits = (c', audits', e)"
  then show ?thesis
    by (auto simp: Abort audited_def abort_workflow_def append_recovery_cases Let_def lineage_le_def list_all2_refl split: if_splits)
next
  case (Rollback step_id reason b)
  assume "workflow_apply en op c audits = (c', audits', e)"
  then show ?thesis
    by (auto simp: Rollback audited_def rollback_after_resume_def append_recovery_cases Let_def lineage_le_def list_all2_refl split: if_splits sum.splits)
qed

text \<open>
  Whatever is done to a workflow, nothing of its lineage is lost: its steps keep id, name, tool,
  attempts, evidence, transactions and rollback handles, and evidence, recovery events, resume
  count and audit events only grow.
\<close>

theorem workflow_keeps_lineage:
  "lineage_le (fst st) (fst (workflow_run ops st)) \<and> prefix (snd st) (snd (workflow_run ops st))"
proof (induction ops st rule: workflow_run.induct)
  case (2 en op ops c audits)
  obtain c' audits' e where a: "workflow_apply en op c audits = (c', audits', e)" by (cases "workflow_apply en op c audits")
  then show ?case using 2 [OF a [symmetric] refl] workflow_apply_lineage [OF a]
    by (auto intro: lineage_le_trans prefix_order.trans)
qed simp

section \<open>Recoveries are audited\<close>

definition recovery_facts :: "recovery_event \<Rightarrow> string \<times> string \<times> string" where
  "recovery_facts e = (wr_audit_event_id e, recovery_decision_value (wr_decision e), wr_reason e)"

definition audit_facts :: "audit_event \<Rightarrow> string \<times> string \<times> string" where
  "audit_facts a = (ae_event_id a, ae_decision a, ae_reason a)"

fun with_audit :: "workflow_op \<Rightarrow> bool" where
  "with_audit (Resume _ b) = b"
| "with_audit (Abort _ b) = b"
| "with_audit (Rollback _ _ b) = b"
| "with_audit _ = True"

lemma workflow_apply_audited:
  "with_audit op \<Longrightarrow> workflow_apply en op c audits = (c', audits', e) \<Longrightarrow>
   map recovery_facts (wc_recovery_events c) = map audit_facts audits \<Longrightarrow>
   map recovery_facts (wc_recovery_events c') = map audit_facts audits'"
proof (cases op)
  case (Begin step_id)
  assume "workflow_apply en op c audits = (c', audits', e)" "map recovery_facts (wc_recovery_events c) = map audit_facts audits"
  then show ?thesis by (cases "find_step c step_id") (auto simp: Begin in_place_def step_raises begin_step_eq)
next
  case (Complete step_id co)
  assume "workflow_apply en op c audits = (c', audits', e)" "map recovery_facts (wc_recovery_events c) = map audit_facts audits"
  then show ?thesis by (cases "find_step c step_id") (auto simp: Complete in_place_def step_raises complete_step_eq)
next
  case (Fail step_id kind error ev)
  assume "workflow_apply en op c audits = (c', audits', e)" "map recovery_facts (wc_recovery_events c) = map audit_facts audits"
  then show ?thesis by (cases "find_step c step_id") (auto simp: Fail in_place_def step_raises fail_step_eq)
qed (auto simp: audited_def resume_workflow_def abort_workflow_def rollback_after_resume_def append_recovery_cases Let_def
    recovery_facts_def audit_facts_def recovered_def recovery_audit_def split: if_splits sum.splits)

text \<open>
  When every recovery is given the audit session, the recovery events of the checkpoint and the
  events of the session correspond one to one, in order, with id, decision and reason; so do the
  recoveries that raise, which leave neither.
\<close>

theorem recoveries_audited:
  assumes "\<forall>(en, op)\<in>set ops. with_audit op" "map recovery_facts (wc_recovery_events c) = map audit_facts audits"
    "workflow_run ops (c, audits) = (c', audits')"
  shows "map recovery_facts (wc_recovery_events c') = map audit_facts audits'"
  using assms
proof (induction ops "(c, audits)" arbitrary: c audits rule: workflow_run.induct)
  case (2 en op ops c audits)
  obtain c1 audits1 e where a: "workflow_apply en op c audits = (c1, audits1, e)" by (cases "workflow_apply en op c audits")
  have "map recovery_facts (wc_recovery_events c1) = map audit_facts audits1"
    using workflow_apply_audited [OF _ a] 2(2,3) by simp
  then show ?case using 2(1) [OF a [symmetric] refl] 2(2,4) a by simp
qed simp

section \<open>Running to completion\<close>

definition run_step :: "workflow_env \<Rightarrow> string \<times> completion \<Rightarrow> (workflow_env \<times> workflow_op) list" where
  "run_step en sc = [(en, Begin (fst sc)), (en, Complete (fst sc) (snd sc))]"

lemma find_step_nth: "distinct (map ws_step_id (wc_steps c)) \<Longrightarrow> i < length (wc_steps c) \<Longrightarrow> find_step c (ws_step_id (wc_steps c ! i)) = Inr i"
  by (auto simp: find_step_iff distinct_conv_nth)

lemma run_one_step:
  assumes d: "distinct (map ws_step_id (wc_steps c))" and i: "i < length (wc_steps c)" and sid: "fst sc = ws_step_id (wc_steps c ! i)"
  shows "workflow_run (run_step en sc @ ops) (c, audits) =
    workflow_run ops (c\<lparr> wc_steps := (wc_steps c)[i := passed (snd sc) (begun (wc_steps c ! i))],
        wc_proof_evidence := wc_proof_evidence c @ map (attributed (fst sc)) (evidence_list (co_evidence (snd sc))),
        wc_status := (if Suc i = length (wc_steps c) then WF_COMPLETED else WF_RUNNING), wc_current_step_index := Suc i,
        wc_updated_at := we_now en \<rparr>, audits)"
proof -
  have f: "find_step c (fst sc) = Inr i" using find_step_nth [OF d i] sid by simp
  let ?c1 = "c\<lparr> wc_steps := (wc_steps c)[i := begun (wc_steps c ! i)], wc_status := WF_RUNNING, wc_current_step_index := i, wc_updated_at := we_now en \<rparr>"
  have "map ws_step_id (wc_steps ?c1) = map ws_step_id (wc_steps c)" using i by (simp add: map_update list_update_same_conv)
  then have "find_step ?c1 (fst sc) = Inr i" using find_step_nth [of ?c1 i] d i sid by simp
  then show ?thesis using i by (simp add: run_step_def in_place_def begin_step_eq [OF f] complete_step_eq)
qed

lemma run_in_order:
  assumes "distinct (map ws_step_id (wc_steps c))" "map (\<lambda>(en, sc). fst sc) work = map ws_step_id (drop i (wc_steps c))"
    "i \<le> length (wc_steps c)" "\<forall>s\<in>set (take i (wc_steps c)). ws_status s = STEP_PASSED \<and> ws_attempts s = 1"
    "\<forall>s\<in>set (drop i (wc_steps c)). ws_attempts s = 0" "work = [] \<Longrightarrow> wc_status c = WF_COMPLETED \<and> wc_current_step_index c = length (wc_steps c)"
    "workflow_run (concat (map (\<lambda>(en, sc). run_step en sc) work)) (c, audits) = (c', audits')"
  shows "wc_status c' = WF_COMPLETED \<and> wc_current_step_index c' = length (wc_steps c') \<and> length (wc_steps c') = length (wc_steps c) \<and> audits' = audits
    \<and> (\<forall>s\<in>set (wc_steps c'). ws_status s = STEP_PASSED \<and> ws_attempts s = 1)"
  using assms
proof (induction work arbitrary: c i)
  case Nil
  then have "i = length (wc_steps c)" by simp
  then show ?case using Nil by simp
next
  case (Cons w work)
  obtain en sc where w: "w = (en, sc)" by (cases w)
  have lt: "i < length (wc_steps c)" using Cons.prems(2,3) by (cases "i = length (wc_steps c)") auto
  then have d: "drop i (wc_steps c) = wc_steps c ! i # drop (Suc i) (wc_steps c)" by (simp add: Cons_nth_drop_Suc)
  have sid: "fst sc = ws_step_id (wc_steps c ! i)" and rest: "map (\<lambda>(en, sc). fst sc) work = map ws_step_id (drop (Suc i) (wc_steps c))"
    using Cons.prems(2) by (simp_all add: w d)
  let ?s = "passed (snd sc) (begun (wc_steps c ! i))"
  let ?c1 = "c\<lparr> wc_steps := (wc_steps c)[i := ?s],
        wc_proof_evidence := wc_proof_evidence c @ map (attributed (fst sc)) (evidence_list (co_evidence (snd sc))),
        wc_status := (if Suc i = length (wc_steps c) then WF_COMPLETED else WF_RUNNING), wc_current_step_index := Suc i, wc_updated_at := we_now en \<rparr>"
  have run: "workflow_run (concat (map (\<lambda>(en, sc). run_step en sc) work)) (?c1, audits) = (c', audits')"
    using Cons.prems(7) run_one_step [OF Cons.prems(1) lt sid] by (simp add: w)
  have ids: "map ws_step_id (wc_steps ?c1) = map ws_step_id (wc_steps c)" using lt by (simp add: map_update list_update_same_conv)
  have attempts: "ws_attempts ?s = 1" using Cons.prems(5) d by (simp add: passed_def completed_step_def begun_def Let_def)
  have tk: "take (Suc i) (wc_steps ?c1) = take i (wc_steps c) @ [?s]" using lt by (simp add: take_Suc_conv_app_nth)
  have "wc_status c' = WF_COMPLETED \<and> wc_current_step_index c' = length (wc_steps c') \<and> length (wc_steps c') = length (wc_steps ?c1) \<and> audits' = audits
    \<and> (\<forall>s\<in>set (wc_steps c'). ws_status s = STEP_PASSED \<and> ws_attempts s = 1)"
  proof (rule Cons.IH [OF _ _ _ _ _ _ run])
    show "distinct (map ws_step_id (wc_steps ?c1))" using ids Cons.prems(1) by simp
    show "map (\<lambda>(en, sc). fst sc) work = map ws_step_id (drop (Suc i) (wc_steps ?c1))" using rest by simp
    show "Suc i \<le> length (wc_steps ?c1)" using lt by simp
    show "\<forall>s\<in>set (take (Suc i) (wc_steps ?c1)). ws_status s = STEP_PASSED \<and> ws_attempts s = 1"
      unfolding tk using Cons.prems(4) attempts by auto
    show "\<forall>s\<in>set (drop (Suc i) (wc_steps ?c1)). ws_attempts s = 0" using Cons.prems(5) d by simp
    assume "work = []"
    then have "Suc i = length (wc_steps c)" using rest lt by simp
    then show "wc_status ?c1 = WF_COMPLETED \<and> wc_current_step_index ?c1 = length (wc_steps ?c1)" by simp
  qed
  then show ?case by simp
qed

text \<open>
  Beginning and completing the steps of a new workflow in order, each once, completes it: every
  step has passed in one attempt. The ids of the steps must be distinct.
\<close>

theorem workflow_in_order_completes:
  assumes "specs \<noteq> []" "distinct (map sp_step_id specs)" "map (\<lambda>(en, sc). fst sc) work = map sp_step_id specs"
    "workflow_run (concat (map (\<lambda>(en, sc). run_step en sc) work)) (create_checkpoint now workflow_id design_name specs, []) = (c, audits)"
  shows "wc_status c = WF_COMPLETED \<and> wc_current_step_index c = length specs \<and> audits = []
    \<and> (\<forall>s\<in>set (wc_steps c). ws_status s = STEP_PASSED \<and> ws_attempts s = 1)"
proof -
  let ?c = "create_checkpoint now workflow_id design_name specs"
  have ids: "map ws_step_id (wc_steps ?c) = map sp_step_id specs" by (simp add: create_checkpoint_def step_of_spec_def)
  have "work \<noteq> []" using assms(1,3) by auto
  then have "wc_status c = WF_COMPLETED \<and> wc_current_step_index c = length (wc_steps c) \<and> length (wc_steps c) = length (wc_steps ?c) \<and> audits = []
    \<and> (\<forall>s\<in>set (wc_steps c). ws_status s = STEP_PASSED \<and> ws_attempts s = 1)"
    using assms ids by (intro run_in_order [of ?c work 0 "[]" c audits]) (simp_all, auto simp: create_checkpoint_def step_of_spec_def)
  then show ?thesis by (simp add: create_checkpoint_def)
qed

section \<open>Where the contracts leak\<close>

text \<open>An abort of a workflow that stands past its last step sets the status and then raises.\<close>

lemma abort_raises_iff:
  "(\<exists>e. snd (snd (abort_workflow en reason session c)) = Some e) \<longleftrightarrow> length (wc_steps c) \<le> wc_current_step_index c"
  "length (wc_steps c) \<le> wc_current_step_index c \<Longrightarrow> abort_workflow en reason session c =
     (c\<lparr> wc_status := WF_ABORTED \<rparr>, session, Some (IndexError ''list index out of range''))"
  by (auto simp: abort_workflow_def append_recovery_cases Let_def)

text \<open>Completing the last step first completes the workflow, whatever became of the others.\<close>

lemma completed_with_pending_steps:
  assumes "find_step c step_id = Inr i" "Suc i = length (wc_steps c)"
  shows "\<exists>c'. complete_step now step_id co c = Inr c' \<and> wc_status c' = WF_COMPLETED \<and> (\<forall>j<i. wc_steps c' ! j = wc_steps c ! j)"
  using assms by (simp add: complete_step_eq)

text \<open>Beginning a step sets an aborted or completed workflow running again; resuming it is refused.\<close>

lemma begin_revives:
  assumes "find_step c step_id = Inr i" "wc_status c \<in> {WF_ABORTED, WF_COMPLETED}"
  shows "(\<exists>c'. begin_step now step_id c = Inr c' \<and> wc_status c' = WF_RUNNING)
    \<and> snd (snd (resume_workflow en reason session c)) \<noteq> None"
  using assms by (auto simp: begin_step_eq resume_workflow_def)

text \<open>Evidence with a \<open>step_id\<close> of its own is attributed to that step.\<close>

lemma evidence_misattributed: "attributed ''a'' [(''step_id'', PStr ''b'')] = [(''step_id'', PStr ''b'')]"
  by (simp add: attributed_def dict_set_def)

section \<open>Concrete runs\<close>

definition demo_specs :: "workflow_step_spec list" where
  "demo_specs = [\<lparr> sp_step_id = ''place'', sp_name = ''Place'', sp_tool = ''placer'', sp_mutates_design = True \<rparr>,
     \<lparr> sp_step_id = ''route'', sp_name = ''Route'', sp_tool = ''router'', sp_mutates_design = True \<rparr>]"

definition demo_workflow_env :: workflow_env where
  "demo_workflow_env = \<lparr> we_now = ''t'', we_event_id = ''e1'', we_session_id = ''s'', we_actor = ''agent'' \<rparr>"

definition demo_completion :: completion where
  "demo_completion = \<lparr> co_evidence = Some [(''kind'', PStr ''diff'')], co_transaction_id = ''tx'', co_diff_summary = [], co_rollback_id = ''rb'' \<rparr>"

definition demo_recovery :: "(workflow_env \<times> workflow_op) list" where
  "demo_recovery = [(demo_workflow_env, Begin ''place''), (demo_workflow_env, Fail ''place'' TIMEOUT ''slow'' None),
     (demo_workflow_env, Resume ''retry'' True), (demo_workflow_env, Complete ''place'' demo_completion),
     (demo_workflow_env, Rollback ''place'' ''undo'' True)]"


lemma recoveries_audited_witness:
  "\<exists>c audits. workflow_run demo_recovery (create_checkpoint ''t'' ''w'' ''d'' demo_specs, []) = (c, audits)
     \<and> length audits = 2 \<and> map recovery_facts (wc_recovery_events c) = map audit_facts audits"
proof -
  obtain c audits where run: "workflow_run demo_recovery (create_checkpoint ''t'' ''w'' ''d'' demo_specs, []) = (c, audits)"
    by (cases "workflow_run demo_recovery (create_checkpoint ''t'' ''w'' ''d'' demo_specs, [])")
  have "length (snd (workflow_run demo_recovery (create_checkpoint ''t'' ''w'' ''d'' demo_specs, []))) = 2" by code_simp
  moreover have "map recovery_facts (wc_recovery_events c) = map audit_facts audits"
    by (rule recoveries_audited [OF _ _ run]) (simp_all add: demo_recovery_def create_checkpoint_def)
  ultimately show ?thesis using run by auto
qed

lemma workflow_in_order_completes_witness:
  "\<exists>c. workflow_run (concat (map (\<lambda>(en, sc). run_step en sc) [(demo_workflow_env, ''place'', demo_completion), (demo_workflow_env, ''route'', demo_completion)]))
      (create_checkpoint ''t'' ''w'' ''d'' demo_specs, []) = (c, []) \<and> wc_status c = WF_COMPLETED \<and> wc_current_step_index c = 2"
proof -
  let ?work = "[(demo_workflow_env, ''place'', demo_completion), (demo_workflow_env, ''route'', demo_completion)]"
  obtain c audits where run: "workflow_run (concat (map (\<lambda>(en, sc). run_step en sc) ?work)) (create_checkpoint ''t'' ''w'' ''d'' demo_specs, []) = (c, audits)"
    by (cases "workflow_run (concat (map (\<lambda>(en, sc). run_step en sc) ?work)) (create_checkpoint ''t'' ''w'' ''d'' demo_specs, [])")
  have "wc_status c = WF_COMPLETED \<and> wc_current_step_index c = length demo_specs \<and> audits = []
    \<and> (\<forall>s\<in>set (wc_steps c). ws_status s = STEP_PASSED \<and> ws_attempts s = 1)"
    by (rule workflow_in_order_completes [OF _ _ _ run]) (simp_all add: demo_specs_def)
  then show ?thesis using run by (auto simp: demo_specs_def)
qed

end
