(* ===== verification/Agent_Candidates.thy ===== *)
theory Agent_Candidates
  imports Zap_Prelude Binary_Float
begin

text \<open>
  The candidates of the specialist agents (\<^verbatim>\<open>src/zaptrace/agent/candidates.py\<close>): their roles, the
  deterministic scores, the verification of candidates, the selection of the best one and the
  release gate. Candidates are shared objects of one decision log: an operation on a candidate is an
  operation on its position in the log. Time stamps are arguments.
\<close>

section \<open>Roles\<close>

datatype agent_role = ARCHITECT | SCHEMATIC | CONSTRAINT | LAYOUT | VERIFICATION | SUPPLY_CHAIN | RELEASE

fun agent_role_value :: "agent_role \<Rightarrow> string" where
  "agent_role_value ARCHITECT = ''architect''"
| "agent_role_value SCHEMATIC = ''schematic''"
| "agent_role_value CONSTRAINT = ''constraint''"
| "agent_role_value LAYOUT = ''layout''"
| "agent_role_value VERIFICATION = ''verification''"
| "agent_role_value SUPPLY_CHAIN = ''supply_chain''"
| "agent_role_value RELEASE = ''release''"

record agent_contract =
  ac_role :: agent_role
  ac_permission_level :: string
  ac_inputs :: "string list"
  ac_outputs :: "string list"
  ac_writes :: string
  ac_required_evidence :: "string list"

definition specialist_agent_contracts :: "agent_contract list" where
  "specialist_agent_contracts =
     [\<lparr> ac_role = ARCHITECT, ac_permission_level = ''preview-write'', ac_inputs = [''requirements'', ''canonical_ir''],
        ac_outputs = [''structured_intent'', ''block_architecture''], ac_writes = ''sandbox-only planning artifacts'',
        ac_required_evidence = [''requirements_trace''] \<rparr>,
      \<lparr> ac_role = SCHEMATIC, ac_permission_level = ''sandbox-write'', ac_inputs = [''block_architecture'', ''library_parts''],
        ac_outputs = [''schematic_graph'', ''known_good_subcircuits''], ac_writes = ''transactional schematic candidate'',
        ac_required_evidence = [''schematic_diff''] \<rparr>,
      \<lparr> ac_role = CONSTRAINT, ac_permission_level = ''sandbox-write'', ac_inputs = [''requirements'', ''fab_profile'', ''bom_policy''],
        ac_outputs = [''electrical_constraints'', ''manufacturing_constraints'', ''supply_constraints''],
        ac_writes = ''transactional constraint candidate'', ac_required_evidence = [''constraint_trace''] \<rparr>,
      \<lparr> ac_role = LAYOUT, ac_permission_level = ''sandbox-write'', ac_inputs = [''schematic_graph'', ''constraints''],
        ac_outputs = [''placement'', ''routing'', ''layout_metrics''], ac_writes = ''transactional layout candidate'',
        ac_required_evidence = [''layout_diff'', ''rollback_id''] \<rparr>,
      \<lparr> ac_role = VERIFICATION, ac_permission_level = ''sandbox-write'', ac_inputs = [''candidate'', ''proof_pack'', ''oracle_results''],
        ac_outputs = [''validation_status'', ''gate_failures'', ''proof_evidence''], ac_writes = ''validation evidence only'',
        ac_required_evidence = [''erc'', ''drc'', ''dfm'', ''bom'', ''proof_pack''] \<rparr>,
      \<lparr> ac_role = SUPPLY_CHAIN, ac_permission_level = ''sandbox-write'', ac_inputs = [''bom'', ''provider_results''],
        ac_outputs = [''bom_risk'', ''substitutions'', ''provider_provenance''], ac_writes = ''BOM risk evidence only'',
        ac_required_evidence = [''provider_provenance''] \<rparr>,
      \<lparr> ac_role = RELEASE, ac_permission_level = ''release-export'', ac_inputs = [''selected_candidate'', ''validation_status'', ''approval_id''],
        ac_outputs = [''release_gate_result'', ''manufacturing_package''], ac_writes = ''release export only after approval'',
        ac_required_evidence = [''approval_id'', ''fresh_validation''] \<rparr>]"

section \<open>Candidates and their scores\<close>

datatype candidate_status = SANDBOX | REJECTED | SELECTED | RELEASE_READY

datatype candidate_validation = NOT_RUN | VALIDATION_PASSED | VALIDATION_FAILED

record score_dimension =
  sd_name :: string
  sd_score :: pyfloat
  sd_weight :: pyfloat
  sd_explanation :: string

record candidate_score =
  cs_total :: pyfloat
  cs_dimensions :: "score_dimension list"
  cs_explanation :: string

record candidate_lineage =
  cl_parent_design :: string
  cl_transaction_id :: string
  cl_diff_summary :: string
  cl_generated_by :: "agent_role list"
  cl_rollback_id :: string
  cl_sandbox_first :: bool

record design_candidate =
  dc_candidate_id :: string
  dc_title :: string
  dc_status :: candidate_status
  dc_lineage :: candidate_lineage
  dc_score :: candidate_score
  dc_validation_status :: candidate_validation
  dc_rejected_reasons :: "string list"
  dc_evidence :: "(string, pyval) dict list"
  dc_human_approval_id :: string

record decision_log =
  dl_schema_version :: string
  dl_generated_at :: string
  dl_requirement_id :: string
  dl_selected_candidate_id :: string
  dl_candidates :: "design_candidate list"
  dl_non_claims :: "string list"

definition non_claims :: "string list" where
  "non_claims = [''sandbox candidates are not committed design state'',
     ''release export still requires validation and approval gates'', ''human review remains required before fabrication'']"

text \<open>A decimal literal is the nearest double; every operation rounds.\<close>

definition dec :: "int \<Rightarrow> rat" where
  "dec hundredths = fl (of_int hundredths / 100)"

definition score_dimensions :: "nat \<Rightarrow> score_dimension list" where
  "score_dimensions candidate_no =
     (let base = fl (dec 62 + fl (of_nat candidate_no * dec 4)) in
      [\<lparr> sd_name = ''constraints'', sd_score = min (dec 95) (fl (base + dec 6)), sd_weight = dec 20,
         sd_explanation = ''meets declared electrical and physical constraints'' \<rparr>,
       \<lparr> sd_name = ''manufacturability'', sd_score = min (dec 95) (fl (base + dec 3)), sd_weight = dec 20,
         sd_explanation = ''fits known DFM profile limits'' \<rparr>,
       \<lparr> sd_name = ''bom_risk'', sd_score = max (dec 35) (fl (dec 92 - fl (of_nat candidate_no * dec 5))), sd_weight = dec 15,
         sd_explanation = ''lower risk means better supplier availability'' \<rparr>,
       \<lparr> sd_name = ''routing_quality'', sd_score = min (dec 95) (fl (base + dec 2)), sd_weight = dec 15,
         sd_explanation = ''shorter routes and fewer unrouted nets are preferred'' \<rparr>,
       \<lparr> sd_name = ''validation_status'', sd_score = dec 50, sd_weight = dec 15,
         sd_explanation = ''pending verification before human review'' \<rparr>,
       \<lparr> sd_name = ''evidence_completeness'', sd_score = dec 70, sd_weight = dec 15,
         sd_explanation = ''candidate contains transaction lineage and rollback evidence'' \<rparr>])"

definition total_score :: "score_dimension list \<Rightarrow> pyfloat" where
  "total_score ds = py_round 4 (fl (py_sum (map (\<lambda>d. fl (sd_score d * sd_weight d)) ds) / py_sum (map sd_weight ds)))"

text \<open>\<^verbatim>\<open>f"{n:02d}"\<close>.\<close>

definition pad2 :: "nat \<Rightarrow> string" where
  "pad2 n = (if n < 10 then ''0'' @ str_of_nat n else str_of_nat n)"

definition sandbox_candidate :: "string \<Rightarrow> string \<Rightarrow> nat \<Rightarrow> design_candidate" where
  "sandbox_candidate requirement_id parent_design index =
     (let candidate_no = index + 1; candidate_id = ''cand-'' @ pad2 candidate_no; dimensions = score_dimensions candidate_no;
          tx = ''tx-'' @ requirement_id @ ''-'' @ candidate_id in
      \<lparr> dc_candidate_id = candidate_id, dc_title = ''Candidate '' @ str_of_nat candidate_no, dc_status = SANDBOX,
        dc_lineage = \<lparr> cl_parent_design = parent_design, cl_transaction_id = tx,
          cl_diff_summary = ''sandbox candidate '' @ str_of_nat candidate_no @ '': placement/routing alternative'',
          cl_generated_by = [ARCHITECT, SCHEMATIC, CONSTRAINT, LAYOUT],
          cl_rollback_id = ''rb-'' @ requirement_id @ ''-'' @ candidate_id, cl_sandbox_first = True \<rparr>,
        dc_score = \<lparr> cs_total = total_score dimensions, cs_dimensions = dimensions,
          cs_explanation = ''weighted objective score across constraints, manufacturability, BOM risk, routing, validation, and evidence'' \<rparr>,
        dc_validation_status = NOT_RUN, dc_rejected_reasons = [],
        dc_evidence = [[(''kind'', PStr ''sandbox_transaction''), (''transaction_id'', PStr tx)]], dc_human_approval_id = [] \<rparr>)"

definition generate_candidate_set :: "string \<Rightarrow> string \<Rightarrow> string \<Rightarrow> int \<Rightarrow> decision_log result" where
  "generate_candidate_set now requirement_id parent_design count =
     (if count < 1 then Inl (ValueError ''candidate count must be at least 1'')
      else Inr \<lparr> dl_schema_version = ''1.0'', dl_generated_at = now, dl_requirement_id = requirement_id, dl_selected_candidate_id = [],
                 dl_candidates = map (sandbox_candidate requirement_id parent_design) [0..<nat count], dl_non_claims = non_claims \<rparr>)"

section \<open>Decisions\<close>

definition mark_verification_result :: "bool \<Rightarrow> string list option \<Rightarrow> design_candidate \<Rightarrow> design_candidate" where
  "mark_verification_result passed reasons c =
     (let shown = (case reasons of None \<Rightarrow> [] | Some rs \<Rightarrow> rs);
          c1 = c\<lparr> dc_validation_status := (if passed then VALIDATION_PASSED else VALIDATION_FAILED),
                 dc_evidence := dc_evidence c @ [[(''kind'', PStr ''verification''), (''passed'', PBool passed), (''reasons'', PList (map PStr shown))]] \<rparr>
      in if \<not> passed
         then c1\<lparr> dc_status := REJECTED, dc_rejected_reasons := dc_rejected_reasons c1 @ (if shown = [] then [''verification failed''] else shown) \<rparr>
         else c1)"

text \<open>\<^verbatim>\<open>max(..., key=...)\<close> keeps the first of the greatest; positions in the log instead of objects.\<close>

fun first_max :: "('a \<Rightarrow> 'b::linorder) \<Rightarrow> 'a \<Rightarrow> 'a list \<Rightarrow> 'a" where
  "first_max key best [] = best"
| "first_max key best (x # xs) = first_max key (if key x > key best then x else best) xs"

definition verified_positions :: "decision_log \<Rightarrow> nat list" where
  "verified_positions l = filter (\<lambda>i. dc_validation_status (dl_candidates l ! i) = VALIDATION_PASSED) [0..<length (dl_candidates l)]"

definition reject_other :: "string \<Rightarrow> design_candidate \<Rightarrow> design_candidate" where
  "reject_other selected_id c =
     (if dc_candidate_id c \<noteq> selected_id \<and> dc_status c \<noteq> REJECTED
      then c\<lparr> dc_status := REJECTED, dc_rejected_reasons := dc_rejected_reasons c @ [''lower score than selected '' @ selected_id] \<rparr>
      else c)"

definition select_best_verified_candidate :: "decision_log \<Rightarrow> nat option \<times> decision_log" where
  "select_best_verified_candidate l =
     (case verified_positions l of
        [] \<Rightarrow> (None, l)
      | i # rest \<Rightarrow>
          (let k = first_max (\<lambda>i. cs_total (dc_score (dl_candidates l ! i))) i rest;
               selected = (dl_candidates l ! k)\<lparr> dc_status := SELECTED \<rparr>;
               selected_id = dc_candidate_id selected
           in (Some k, l\<lparr> dl_selected_candidate_id := selected_id,
                         dl_candidates := map (reject_other selected_id) ((dl_candidates l)[k := selected]) \<rparr>)))"

datatype gate_result =
    Gate_Denied string string \<comment> \<open>code, message\<close>
  | Gate_Ready string string \<comment> \<open>candidate, approval\<close>

definition release_gate :: "string \<Rightarrow> design_candidate \<Rightarrow> gate_result \<times> design_candidate" where
  "release_gate approval_id c =
     (if dc_validation_status c \<noteq> VALIDATION_PASSED then
        (Gate_Denied ''CANDIDATE_VALIDATION_REQUIRED'' ''candidate must pass verification before release'', c)
      else if approval_id = [] then
        (Gate_Denied ''CANDIDATE_APPROVAL_REQUIRED'' ''approval_id is required before release export'', c)
      else (Gate_Ready (dc_candidate_id c) approval_id,
            c\<lparr> dc_human_approval_id := approval_id, dc_status := RELEASE_READY,
               dc_evidence := dc_evidence c @ [[(''kind'', PStr ''release_gate''), (''approval_id'', PStr approval_id), (''allowed'', PBool True)]] \<rparr>))"

definition dump_lineage :: "candidate_lineage \<Rightarrow> pyval" where
  "dump_lineage cl = PDict [(''parent_design'', PStr (cl_parent_design cl)), (''transaction_id'', PStr (cl_transaction_id cl)),
     (''diff_summary'', PStr (cl_diff_summary cl)), (''generated_by'', PList (map (\<lambda>r. PStr (agent_role_value r)) (cl_generated_by cl))),
     (''rollback_id'', PStr (cl_rollback_id cl)), (''sandbox_first'', PBool (cl_sandbox_first cl))]"

definition dump_score :: "candidate_score \<Rightarrow> pyval" where
  "dump_score cs = PDict [(''total'', PFloat (cs_total cs)),
     (''dimensions'', PList (map (\<lambda>d. PDict [(''name'', PStr (sd_name d)), (''score'', PFloat (sd_score d)), (''weight'', PFloat (sd_weight d)),
        (''explanation'', PStr (sd_explanation d))]) (cs_dimensions cs))), (''explanation'', PStr (cs_explanation cs))]"

definition proof_evidence :: "decision_log \<Rightarrow> (string, pyval) dict" where
  "proof_evidence l =
     [(''schema_version'', PStr (dl_schema_version l)), (''requirement_id'', PStr (dl_requirement_id l)),
      (''selected_candidate_id'', PStr (dl_selected_candidate_id l)),
      (''candidate_lineage'', PList (map (\<lambda>c. dump_lineage (dc_lineage c)) (dl_candidates l))),
      (''scores'', PDict (dict_comp dc_candidate_id (\<lambda>c. dump_score (dc_score c)) (dl_candidates l))),
      (''rejected'', PDict (dict_comp dc_candidate_id (\<lambda>c. PList (map PStr (dc_rejected_reasons c)))
         (filter (\<lambda>c. dc_rejected_reasons c \<noteq> []) (dl_candidates l)))),
      (''non_claims'', PList (map PStr (dl_non_claims l)))]"

section \<open>Sequences of decisions\<close>

datatype candidate_op =
    Mark nat bool "string list option"
  | Select
  | Release nat string

definition at_candidate :: "nat \<Rightarrow> (design_candidate \<Rightarrow> design_candidate) \<Rightarrow> decision_log \<Rightarrow> decision_log" where
  "at_candidate i f l = (if i < length (dl_candidates l) then l\<lparr> dl_candidates := (dl_candidates l)[i := f (dl_candidates l ! i)] \<rparr> else l)"

fun candidate_step :: "candidate_op \<Rightarrow> decision_log \<Rightarrow> decision_log" where
  "candidate_step (Mark i passed reasons) l = at_candidate i (mark_verification_result passed reasons) l"
| "candidate_step Select l = snd (select_best_verified_candidate l)"
| "candidate_step (Release i approval_id) l = at_candidate i (\<lambda>c. snd (release_gate approval_id c)) l"

inductive candidate_reachable :: "decision_log \<Rightarrow> bool" where
  start: "generate_candidate_set now requirement_id parent_design count = Inr l \<Longrightarrow> candidate_reachable l"
| step: "candidate_reachable l \<Longrightarrow> candidate_reachable (candidate_step op l)"

section \<open>Identifiers\<close>

lemma char_of_inj: "a < 256 \<Longrightarrow> b < 256 \<Longrightarrow> (char_of a :: char) = char_of b \<longleftrightarrow> a = (b :: nat)"
  by (metis of_char_of mod_less)

lemma str_of_nat_nonempty: "str_of_nat n \<noteq> []"
  by (subst str_of_nat.simps) simp

lemma pad2_inj: "pad2 m = pad2 n \<Longrightarrow> 0 < m \<Longrightarrow> 0 < n \<Longrightarrow> m = n"
proof -
  assume eq: "pad2 m = pad2 n" and pos: "0 < m" "0 < n"
  have zero: "hd (str_of_nat k) \<noteq> CHR ''0''" if "0 < k" for k
    using that
  proof (induction k rule: less_induct)
    case (less k)
    show ?case
    proof (cases "k < 10")
      case True
      have "(char_of (48 + k) :: char) \<noteq> char_of (48 :: nat)" using char_of_inj [of "48 + k" 48] True less.prems by simp
      moreover have "(char_of (48 :: nat) :: char) = CHR ''0''" by code_simp
      ultimately show ?thesis using True by (subst str_of_nat.simps) simp
    next
      case False
      then have "hd (str_of_nat (k div 10)) \<noteq> CHR ''0''" by (intro less.IH) auto
      then show ?thesis using False str_of_nat_nonempty by (subst str_of_nat.simps) (simp add: hd_append)
    qed
  qed
  show "m = n"
  proof (cases "(m < 10) = (n < 10)")
    case True
    then show ?thesis using eq str_of_nat_inj by (auto simp: pad2_def split: if_splits)
  next
    case False
    then show ?thesis using eq zero [OF pos(1)] zero [OF pos(2)] by (auto simp: pad2_def split: if_splits) (metis list.sel(1))+
  qed
qed

section \<open>Selection\<close>

lemma first_max_props:
  "first_max key best xs \<in> set (best # xs) \<and> (\<forall>y\<in>set (best # xs). key y \<le> key (first_max key best xs))"
proof (induction xs arbitrary: best)
  case (Cons x xs)
  show ?case using Cons [of "if key x > key best then x else best"] by (auto split: if_splits)
qed simp

lemma first_max_first:
  fixes xs :: "nat list"
  shows "sorted_wrt (<) (best # xs) \<Longrightarrow> y \<in> set (best # xs) \<Longrightarrow> y < first_max key best xs \<Longrightarrow> key y < key (first_max key best xs)"
proof (induction xs arbitrary: best y)
  case (Cons x xs)
  show ?case
  proof (cases "key x > key best")
    case True
    have "key best < key (first_max key x xs)"
      using first_max_props [of key x xs] True by (meson less_le_trans list.set_intros(1))
    then show ?thesis using Cons.IH [of x y] Cons.prems True by auto
  next
    case False
    have sorted: "sorted_wrt (<) (best # xs)" using Cons.prems(1) by simp
    have fm: "first_max key best (x # xs) = first_max key best xs" using False by simp
    show ?thesis
    proof (cases "y = x")
      case True
      have "best < x" using Cons.prems(1) by simp
      then have "key best < key (first_max key best xs)" using Cons.IH [OF sorted, of best] Cons.prems(3) True fm by auto
      then show ?thesis using False True fm by simp
    next
      case False
      then show ?thesis using Cons.IH [OF sorted, of y] Cons.prems(2,3) fm by auto
    qed
  qed
qed auto

lemma set_verified: "i \<in> set (verified_positions l) \<longleftrightarrow> i < length (dl_candidates l) \<and> dc_validation_status (dl_candidates l ! i) = VALIDATION_PASSED"
  by (auto simp: verified_positions_def)

lemma sorted_verified: "sorted_wrt (<) (verified_positions l)"
  unfolding verified_positions_def by (rule sorted_wrt_filter) simp

lemma reject_other_fields [simp]:
  "dc_candidate_id (reject_other x c) = dc_candidate_id c" "dc_score (reject_other x c) = dc_score c"
  "dc_validation_status (reject_other x c) = dc_validation_status c" "dc_evidence (reject_other x c) = dc_evidence c"
  "dc_lineage (reject_other x c) = dc_lineage c" "dc_human_approval_id (reject_other x c) = dc_human_approval_id c"
  by (simp_all add: reject_other_def)

lemma select_cases:
  obtains (none) "verified_positions l = []" "select_best_verified_candidate l = (None, l)"
  | (some) k where "k < length (dl_candidates l)" "dc_validation_status (dl_candidates l ! k) = VALIDATION_PASSED"
      "\<And>j. j \<in> set (verified_positions l) \<Longrightarrow> cs_total (dc_score (dl_candidates l ! j)) \<le> cs_total (dc_score (dl_candidates l ! k))"
      "\<And>j. j \<in> set (verified_positions l) \<Longrightarrow> j < k \<Longrightarrow> cs_total (dc_score (dl_candidates l ! j)) < cs_total (dc_score (dl_candidates l ! k))"
      "select_best_verified_candidate l = (Some k, l\<lparr> dl_selected_candidate_id := dc_candidate_id (dl_candidates l ! k),
         dl_candidates := map (reject_other (dc_candidate_id (dl_candidates l ! k))) ((dl_candidates l)[k := (dl_candidates l ! k)\<lparr> dc_status := SELECTED \<rparr>]) \<rparr>)"
proof (cases "verified_positions l")
  case Nil
  then show ?thesis using none by (simp add: select_best_verified_candidate_def)
next
  case (Cons i rest)
  let ?key = "\<lambda>i. cs_total (dc_score (dl_candidates l ! i))"
  define k where "k = first_max ?key i rest"
  have k: "k \<in> set (verified_positions l)" "\<And>j. j \<in> set (verified_positions l) \<Longrightarrow> ?key j \<le> ?key k"
    using first_max_props [of ?key i rest] Cons by (auto simp: k_def)
  have first: "\<And>j. j \<in> set (verified_positions l) \<Longrightarrow> j < k \<Longrightarrow> ?key j < ?key k"
    using first_max_first [of i rest _ ?key] sorted_verified [of l] Cons by (auto simp: k_def)
  have sel: "select_best_verified_candidate l = (Some k, l\<lparr> dl_selected_candidate_id := dc_candidate_id (dl_candidates l ! k),
         dl_candidates := map (reject_other (dc_candidate_id (dl_candidates l ! k))) ((dl_candidates l)[k := (dl_candidates l ! k)\<lparr> dc_status := SELECTED \<rparr>]) \<rparr>)"
    by (simp add: select_best_verified_candidate_def Cons Let_def k_def)
  show ?thesis
    by (rule some [OF _ _ k(2) first sel]) (use k(1) in \<open>simp_all add: set_verified\<close>)
qed

text \<open>
  The selection picks the first of the candidates with the greatest score among those that
  passed verification, and none when there is none; with distinct ids every other candidate ends
  rejected, keeping its reasons, and nothing but status, reasons and the recorded id changes.
\<close>

theorem select_exact:
  assumes "distinct (map dc_candidate_id (dl_candidates l))" "select_best_verified_candidate l = (r, l')"
  shows "case r of
      None \<Rightarrow> l' = l \<and> (\<forall>c\<in>set (dl_candidates l). dc_validation_status c \<noteq> VALIDATION_PASSED)
    | Some k \<Rightarrow> k < length (dl_candidates l) \<and> dc_validation_status (dl_candidates l ! k) = VALIDATION_PASSED
        \<and> (\<forall>j<length (dl_candidates l). dc_validation_status (dl_candidates l ! j) = VALIDATION_PASSED \<longrightarrow>
             cs_total (dc_score (dl_candidates l ! j)) \<le> cs_total (dc_score (dl_candidates l ! k))
             \<and> (j < k \<longrightarrow> cs_total (dc_score (dl_candidates l ! j)) < cs_total (dc_score (dl_candidates l ! k))))
        \<and> dl_selected_candidate_id l' = dc_candidate_id (dl_candidates l ! k) \<and> length (dl_candidates l') = length (dl_candidates l)
        \<and> (\<forall>j<length (dl_candidates l). \<exists>reasons. dl_candidates l' ! j = (dl_candidates l ! j)
             \<lparr> dc_status := (if j = k then SELECTED else REJECTED), dc_rejected_reasons := dc_rejected_reasons (dl_candidates l ! j) @ reasons \<rparr>)"
proof (cases rule: select_cases [of l])
  case none
  then have "dc_validation_status c \<noteq> VALIDATION_PASSED" if "c \<in> set (dl_candidates l)" for c
    using that set_verified [of _ l] by (auto simp: in_set_conv_nth)
  then show ?thesis using none assms(2) by auto
next
  case (some k)
  have "\<exists>reasons. dl_candidates l' ! j = (dl_candidates l ! j)
      \<lparr> dc_status := (if j = k then SELECTED else REJECTED), dc_rejected_reasons := dc_rejected_reasons (dl_candidates l ! j) @ reasons \<rparr>"
    if j: "j < length (dl_candidates l)" for j
  proof (cases "j = k")
    case True
    then show ?thesis using j some(5) assms(2) by (auto simp: reject_other_def intro!: exI [of _ "[]"])
  next
    case False
    then have "dc_candidate_id (dl_candidates l ! j) \<noteq> dc_candidate_id (dl_candidates l ! k)"
      using assms(1) j some(1) by (simp add: distinct_conv_nth)
    then show ?thesis using False j some(5) assms(2)
      by (cases "dc_status (dl_candidates l ! j) = REJECTED") (auto simp: reject_other_def intro: exI [of _ "[]"])
  qed
  moreover have "r = Some k" "dl_selected_candidate_id l' = dc_candidate_id (dl_candidates l ! k)" "length (dl_candidates l') = length (dl_candidates l)"
    using some(5) assms(2) by auto
  ultimately show ?thesis using some(1-4) by (simp add: set_verified)
qed

section \<open>Reachable logs\<close>

definition candidate_ok :: "string \<Rightarrow> design_candidate \<Rightarrow> bool" where
  "candidate_ok selected_id c \<longleftrightarrow> cl_sandbox_first (dc_lineage c) \<and>
     (case dc_status c of
        SANDBOX \<Rightarrow> dc_validation_status c \<noteq> VALIDATION_FAILED
      | REJECTED \<Rightarrow> dc_validation_status c = VALIDATION_FAILED \<longrightarrow> dc_rejected_reasons c \<noteq> []
      | SELECTED \<Rightarrow> dc_validation_status c = VALIDATION_PASSED \<and> dc_candidate_id c = selected_id
      | RELEASE_READY \<Rightarrow> dc_validation_status c = VALIDATION_PASSED \<and> dc_human_approval_id c \<noteq> [])"

definition log_inv :: "decision_log \<Rightarrow> bool" where
  "log_inv l \<longleftrightarrow> distinct (map dc_candidate_id (dl_candidates l)) \<and> (\<forall>c\<in>set (dl_candidates l). candidate_ok (dl_selected_candidate_id l) c)"

lemma generate_inv: "generate_candidate_set now requirement_id parent_design count = Inr l \<Longrightarrow> log_inv l"
proof -
  assume "generate_candidate_set now requirement_id parent_design count = Inr l"
  then have l: "dl_candidates l = map (sandbox_candidate requirement_id parent_design) [0..<nat count]"
    by (auto simp: generate_candidate_set_def split: if_splits)
  have "inj_on (\<lambda>i. dc_candidate_id (sandbox_candidate requirement_id parent_design i)) A" for A
    by (rule inj_onI) (auto simp: sandbox_candidate_def Let_def dest: pad2_inj)
  then show ?thesis
    by (auto simp: log_inv_def l distinct_map comp_def candidate_ok_def sandbox_candidate_def Let_def)
qed

lemma marked_ok: "candidate_ok x c \<Longrightarrow> candidate_ok x (mark_verification_result passed reasons c)"
  by (auto simp: candidate_ok_def mark_verification_result_def Let_def split: candidate_status.splits)

lemma released_ok: "candidate_ok x c \<Longrightarrow> candidate_ok x (snd (release_gate approval_id c))"
  by (auto simp: candidate_ok_def release_gate_def split: candidate_status.splits)

lemma decided_fields [simp]: "dc_candidate_id (mark_verification_result passed reasons c) = dc_candidate_id c"
  "dc_candidate_id (snd (release_gate approval_id c)) = dc_candidate_id c"
  by (simp_all add: mark_verification_result_def release_gate_def Let_def)

lemma at_candidate_inv:
  assumes "log_inv l" "\<And>c. candidate_ok (dl_selected_candidate_id l) c \<Longrightarrow> candidate_ok (dl_selected_candidate_id l) (f c)"
    "\<And>c. dc_candidate_id (f c) = dc_candidate_id c"
  shows "log_inv (at_candidate i f l)"
proof (cases "i < length (dl_candidates l)")
  case True
  have "map dc_candidate_id ((dl_candidates l)[i := f (dl_candidates l ! i)]) = map dc_candidate_id (dl_candidates l)"
    using True assms(3) by (simp add: map_update list_update_same_conv)
  moreover have "\<forall>c\<in>set ((dl_candidates l)[i := f (dl_candidates l ! i)]). candidate_ok (dl_selected_candidate_id l) c"
    using assms(1,2) True set_update_subset_insert [of "dl_candidates l" i] unfolding log_inv_def by fastforce
  ultimately show ?thesis using assms(1) True by (simp add: at_candidate_def log_inv_def)
qed (use assms(1) in \<open>simp add: at_candidate_def\<close>)

lemma rejected_ok: "candidate_ok x c \<Longrightarrow> dc_candidate_id c \<noteq> y \<Longrightarrow> candidate_ok y (reject_other y c)"
  by (auto simp: candidate_ok_def reject_other_def split: candidate_status.splits)

lemma select_inv: "log_inv l \<Longrightarrow> log_inv (snd (select_best_verified_candidate l))"
proof (cases rule: select_cases [of l])
  case (some k)
  assume inv: "log_inv l"
  let ?x = "dc_candidate_id (dl_candidates l ! k)"
  let ?s = "(dl_candidates l ! k)\<lparr> dc_status := SELECTED \<rparr>"
  have ids: "map dc_candidate_id (map (reject_other ?x) ((dl_candidates l)[k := ?s])) = map dc_candidate_id (dl_candidates l)"
    using some(1) by (simp add: comp_def map_update list_update_same_conv)
  have "candidate_ok ?x (reject_other ?x (((dl_candidates l)[k := ?s]) ! j))" if j: "j < length (dl_candidates l)" for j
  proof (cases "j = k")
    case True
    moreover have "candidate_ok (dl_selected_candidate_id l) (dl_candidates l ! k)" using inv some(1) by (simp add: log_inv_def)
    ultimately show ?thesis using some(1,2) by (simp add: candidate_ok_def reject_other_def)
  next
    case False
    then have "dc_candidate_id (dl_candidates l ! j) \<noteq> ?x" using inv j some(1) by (simp add: log_inv_def distinct_conv_nth)
    then show ?thesis using False inv j by (auto simp: log_inv_def intro: rejected_ok)
  qed
  then have "\<forall>c\<in>set (map (reject_other ?x) ((dl_candidates l)[k := ?s])). candidate_ok ?x c"
    by (auto simp: in_set_conv_nth)
  then show ?thesis using inv ids by (simp add: some(5) log_inv_def del: map_map)
qed simp

text \<open>
  Whatever is marked, selected and released, a log that was generated keeps distinct ids and
  sandbox lineage; the selected candidate is the recorded one and passed verification, so at most
  one is selected; a candidate is ready for release only with verification and an approval; a
  candidate that failed is rejected with a reason.
\<close>

theorem candidate_reachable_inv:
  assumes "candidate_reachable l"
  shows "distinct (map dc_candidate_id (dl_candidates l))
    \<and> (\<forall>c\<in>set (dl_candidates l). cl_sandbox_first (dc_lineage c)
        \<and> (dc_status c = SELECTED \<longrightarrow> dc_validation_status c = VALIDATION_PASSED \<and> dc_candidate_id c = dl_selected_candidate_id l)
        \<and> (dc_status c = RELEASE_READY \<longrightarrow> dc_validation_status c = VALIDATION_PASSED \<and> dc_human_approval_id c \<noteq> [])
        \<and> (dc_validation_status c = VALIDATION_FAILED \<longrightarrow> dc_status c = REJECTED \<and> dc_rejected_reasons c \<noteq> []))"
proof -
  have "log_inv l"
    using assms
  proof (induction rule: candidate_reachable.induct)
    case (start now requirement_id parent_design count l)
    then show ?case by (rule generate_inv)
  next
    case (step l op)
    then show ?case
      by (cases op) (auto intro: at_candidate_inv marked_ok released_ok select_inv)
  qed
  then have "distinct (map dc_candidate_id (dl_candidates l))" and ok: "\<And>c. c \<in> set (dl_candidates l) \<Longrightarrow> candidate_ok (dl_selected_candidate_id l) c"
    by (simp_all add: log_inv_def)
  moreover have "cl_sandbox_first (dc_lineage c)
        \<and> (dc_status c = SELECTED \<longrightarrow> dc_validation_status c = VALIDATION_PASSED \<and> dc_candidate_id c = dl_selected_candidate_id l)
        \<and> (dc_status c = RELEASE_READY \<longrightarrow> dc_validation_status c = VALIDATION_PASSED \<and> dc_human_approval_id c \<noteq> [])
        \<and> (dc_validation_status c = VALIDATION_FAILED \<longrightarrow> dc_status c = REJECTED \<and> dc_rejected_reasons c \<noteq> [])"
    if "c \<in> set (dl_candidates l)" for c
    using ok [OF that] by (cases "dc_status c") (simp_all add: candidate_ok_def)
  ultimately show ?thesis by blast
qed

text \<open>Each role has one contract with a known permission, and only the release role may export.\<close>

lemma contracts_cover_roles:
  "map ac_role specialist_agent_contracts = [ARCHITECT, SCHEMATIC, CONSTRAINT, LAYOUT, VERIFICATION, SUPPLY_CHAIN, RELEASE]"
  "\<forall>ac\<in>set specialist_agent_contracts. ac_permission_level ac = ''release-export'' \<longleftrightarrow> ac_role ac = RELEASE"
  by (simp_all add: specialist_agent_contracts_def)

section \<open>Where the gates leak\<close>

text \<open>The release gate asks neither for the selection nor for more than one character of approval.\<close>

lemma rejected_candidate_released:
  "dc_validation_status c = VALIDATION_PASSED \<Longrightarrow> dc_status c = REJECTED \<Longrightarrow>
   release_gate '' '' c = (Gate_Ready (dc_candidate_id c) '' '', snd (release_gate '' '' c)) \<and> dc_status (snd (release_gate '' '' c)) = RELEASE_READY"
  by (simp add: release_gate_def)

text \<open>When the selected candidate fails later and nothing else passed, its id stays recorded.\<close>

lemma stale_selection:
  assumes "\<forall>c\<in>set (dl_candidates l). dc_validation_status c \<noteq> VALIDATION_PASSED"
  shows "fst (select_best_verified_candidate l) = None \<and> dl_selected_candidate_id (snd (select_best_verified_candidate l)) = dl_selected_candidate_id l"
proof -
  have "verified_positions l = []" using assms set_verified [of _ l] by (metis last_in_set nth_mem)
  then show ?thesis by (simp add: select_best_verified_candidate_def)
qed

section \<open>Concrete runs\<close>

definition demo_candidate :: "string \<Rightarrow> rat \<Rightarrow> design_candidate" where
  "demo_candidate i s = \<lparr> dc_candidate_id = i, dc_title = i, dc_status = SANDBOX,
     dc_lineage = \<lparr> cl_parent_design = ''d'', cl_transaction_id = ''tx'', cl_diff_summary = [], cl_generated_by = [], cl_rollback_id = ''rb'', cl_sandbox_first = True \<rparr>,
     dc_score = \<lparr> cs_total = s, cs_dimensions = [], cs_explanation = [] \<rparr>, dc_validation_status = VALIDATION_PASSED, dc_rejected_reasons = [],
     dc_evidence = [], dc_human_approval_id = [] \<rparr>"

definition demo_log :: decision_log where
  "demo_log = \<lparr> dl_schema_version = ''1.0'', dl_generated_at = ''t'', dl_requirement_id = ''r'', dl_selected_candidate_id = [],
     dl_candidates = [demo_candidate ''a'' (1 / 4), demo_candidate ''b'' (3 / 4), demo_candidate ''c'' (3 / 4)], dl_non_claims = non_claims \<rparr>"

lemma select_exact_witness:
  "fst (select_best_verified_candidate demo_log) = Some 1
   \<and> dl_selected_candidate_id (snd (select_best_verified_candidate demo_log)) = ''b''"
proof -
  have d: "distinct (map dc_candidate_id (dl_candidates demo_log))" by (simp add: demo_log_def demo_candidate_def)
  have "fst (select_best_verified_candidate demo_log) = Some 1" by code_simp
  then show ?thesis using select_exact [OF d, of "Some 1" "snd (select_best_verified_candidate demo_log)"]
    by (auto simp: demo_log_def demo_candidate_def prod_eq_iff)
qed

lemma candidate_reachable_inv_witness:
  "\<exists>l. generate_candidate_set ''t'' ''r'' ''d'' 3 = Inr l \<and> candidate_reachable (candidate_step Select (candidate_step (Mark 0 True None) l))
     \<and> distinct (map dc_candidate_id (dl_candidates (candidate_step Select (candidate_step (Mark 0 True None) l))))"
proof -
  obtain l where l: "generate_candidate_set ''t'' ''r'' ''d'' 3 = Inr l" by (simp add: generate_candidate_set_def)
  then have r: "candidate_reachable (candidate_step Select (candidate_step (Mark 0 True None) l))"
    by (intro candidate_reachable.intros)
  show ?thesis using l r candidate_reachable_inv [OF r] by blast
qed

end
