(* ===== verification/Footprint_Proof.thy ===== *)
theory Footprint_Proof
  imports Design_Model
begin

text \<open>
  Footprint proofs (\<^verbatim>\<open>src/zaptrace/ee/footprint_proof.py\<close>): the evidence taken from a footprint, its
  validation against pin maps and expected pins, and the stricter policy for risky packages. File
  hashes are arguments; writing the proof to a file is left out.
\<close>

section \<open>Proofs\<close>

datatype footprint_source_type = SOURCE_GENERATED | SOURCE_VENDORED | SOURCE_IMPORTED | SOURCE_UNKNOWN

fun source_type_value :: "footprint_source_type \<Rightarrow> string" where
  "source_type_value SOURCE_GENERATED = ''generated''"
| "source_type_value SOURCE_VENDORED = ''vendored''"
| "source_type_value SOURCE_IMPORTED = ''imported''"
| "source_type_value SOURCE_UNKNOWN = ''unknown''"

record footprint_provenance =
  fs_source_type :: footprint_source_type
  fs_source_name :: string
  fs_source_path :: string
  fs_source_sha256 :: string
  fs_generator :: string
  fs_generator_version :: string
  fs_attribution :: string

record pad_proof =
  pp_pad_id :: string
  pp_layer :: layer_set
  pp_shape :: pad_shape
  pp_position_mm :: point
  pp_size_mm :: point
  pp_drill_mm :: "pyfloat option"
  pp_plated :: bool
  pp_solder_paste :: bool
  pp_solder_mask :: bool

record pin1_evidence =
  p1_present :: bool
  p1_pad_id :: string
  p1_method :: string
  p1_message :: string

record footprint_proof =
  fpr_schema_version :: string
  fpr_package_id :: string
  fpr_footprint_name :: string
  fpr_source :: footprint_provenance
  fpr_pad_count :: nat
  fpr_pin_count :: nat
  fpr_pin_map :: "(string, string) dict"
  fpr_pads :: "pad_proof list"
  fpr_courtyard_mm :: point
  fpr_paste_enabled_pad_count :: nat
  fpr_paste_disabled_pad_count :: nat
  fpr_solder_mask_policy :: string
  fpr_thermal_pads :: "string list"
  fpr_pin1 :: pin1_evidence
  fpr_notes :: "string list"

definition pad_to_proof :: "pad \<Rightarrow> pad_proof" where
  "pad_to_proof p = \<lparr> pp_pad_id = pad_id p, pp_layer = pad_layer p, pp_shape = pad_shape p, pp_position_mm = pad_position p,
     pp_size_mm = pad_size p, pp_drill_mm = pad_drill p, pp_plated = pad_plated p, pp_solder_paste = pad_solder_paste p, pp_solder_mask = True \<rparr>"

definition pin1_evidence_of :: "pad list \<Rightarrow> pin1_evidence" where
  "pin1_evidence_of pads =
     (case find (\<lambda>candidate. candidate \<in> set (map pad_id pads)) [''1'', ''A1'', ''P1''] of
        Some candidate \<Rightarrow> \<lparr> p1_present = True, p1_pad_id = candidate, p1_method = ''explicit-pad-id'',
                            p1_message = ''Pin-1 evidence found via pad id '' @ candidate \<rparr>
      | None \<Rightarrow> \<lparr> p1_present = False, p1_pad_id = [], p1_method = ''not-found'', p1_message = ''No explicit pin-1 pad id found'' \<rparr>)"

text \<open>\<open>file_digest\<close> is \<open>None\<close> for a path that does not exist; \<open>version\<close> is that of the package.\<close>

definition default_source :: "(string \<Rightarrow> string option) \<Rightarrow> string \<Rightarrow> footprint_source_type \<Rightarrow> string \<Rightarrow> string \<Rightarrow> footprint_provenance" where
  "default_source file_digest version source_type source_name source_path =
     (let digest = (if source_path = [] then [] else case file_digest source_path of None \<Rightarrow> [] | Some x \<Rightarrow> x) in
      \<lparr> fs_source_type = source_type, fs_source_name = source_name, fs_source_path = source_path, fs_source_sha256 = digest,
        fs_generator = (if source_type = SOURCE_GENERATED then ''zaptrace.ee.footprints'' else []),
        fs_generator_version = (if source_type = SOURCE_GENERATED then version else []), fs_attribution = [] \<rparr>)"

text \<open>The optional arguments of \<open>build_footprint_proof\<close>.\<close>

record proof_request =
  pq_footprint_name :: string
  pq_source :: "footprint_provenance option"
  pq_source_type :: footprint_source_type
  pq_source_path :: string
  pq_expected_pin_count :: "nat option"
  pq_pin_map :: "(string, string) dict option"

definition default_request :: proof_request where
  "default_request = \<lparr> pq_footprint_name = [], pq_source = None, pq_source_type = SOURCE_GENERATED, pq_source_path = [],
     pq_expected_pin_count = None, pq_pin_map = None \<rparr>"

definition own_pin_map :: "footprint_def \<Rightarrow> (string, string) dict" where
  "own_pin_map fp =
     (let thermal = (case fp_thermal_pads fp of None \<Rightarrow> [] | Some ts \<Rightarrow> ts)
      in dict_comp (\<lambda>p. pad_id p) (\<lambda>p. pad_id p) (filter (\<lambda>p. pad_id p \<noteq> [] \<and> pad_id p \<notin> set thermal) (fp_pads fp)))"

definition build_footprint_proof :: "(string \<Rightarrow> string option) \<Rightarrow> string \<Rightarrow> string \<Rightarrow> footprint_def \<Rightarrow> proof_request \<Rightarrow> footprint_proof" where
  "build_footprint_proof file_digest version package_id fp rq =
     (let thermal = (case fp_thermal_pads fp of None \<Rightarrow> [] | Some ts \<Rightarrow> ts);
          mapping = (case pq_pin_map rq of None \<Rightarrow> own_pin_map fp | Some pm \<Rightarrow> if pm = [] then own_pin_map fp else pm);
          paste_enabled = count_if pad_solder_paste (fp_pads fp) in
      \<lparr> fpr_schema_version = ''1.0'', fpr_package_id = package_id,
        fpr_footprint_name = (if pq_footprint_name rq \<noteq> [] then pq_footprint_name rq else if fp_description fp \<noteq> [] then fp_description fp else package_id),
        fpr_source = (case pq_source rq of Some s \<Rightarrow> s
           | None \<Rightarrow> default_source file_digest version (pq_source_type rq) (if fp_source fp \<noteq> [] then fp_source fp else package_id) (pq_source_path rq)),
        fpr_pad_count = length (fp_pads fp),
        fpr_pin_count = (case pq_expected_pin_count rq of Some n \<Rightarrow> n | None \<Rightarrow> length mapping),
        fpr_pin_map = mapping, fpr_pads = map pad_to_proof (fp_pads fp), fpr_courtyard_mm = fp_courtyard fp,
        fpr_paste_enabled_pad_count = paste_enabled, fpr_paste_disabled_pad_count = length (fp_pads fp) - paste_enabled,
        fpr_solder_mask_policy = ''mask opening assumed for all pads unless explicitly modeled'',
        fpr_thermal_pads = sorted_set thermal, fpr_pin1 = pin1_evidence_of (fp_pads fp),
        fpr_notes = (if fp_courtyard fp = (0, 0) then [''courtyard is missing or zero-sized''] else []) \<rparr>)"

section \<open>Validation\<close>

datatype proof_severity = PROOF_ERROR | PROOF_WARNING | PROOF_INFO

record proof_diagnostic =
  pd_package_id :: string
  pd_code :: string
  pd_severity :: proof_severity
  pd_message :: string
  pd_expected :: string
  pd_observed :: string

definition proof_error :: "footprint_proof \<Rightarrow> string \<Rightarrow> string \<Rightarrow> string \<Rightarrow> string \<Rightarrow> proof_diagnostic" where
  "proof_error pr code message expected observed =
     \<lparr> pd_package_id = fpr_package_id pr, pd_code = code, pd_severity = PROOF_ERROR, pd_message = message,
       pd_expected = expected, pd_observed = observed \<rparr>"

record proof_report =
  prr_schema_version :: string
  prr_proof_count :: nat
  prr_blocked :: bool
  prr_error_count :: nat
  prr_warning_count :: nat
  prr_diagnostics :: "proof_diagnostic list"

definition commas :: "string list \<Rightarrow> string" where
  "commas xs = str_join '', '' (sorted_set xs)"

definition listed_minus :: "string list \<Rightarrow> string list \<Rightarrow> string list" where
  "listed_minus xs ys = filter (\<lambda>x. x \<notin> set ys) xs"

definition unnumbered_electrical_pad_diagnostic :: "footprint_proof \<Rightarrow> proof_diagnostic option" where
  "unnumbered_electrical_pad_diagnostic pr =
     (let invalid = filter (\<lambda>p. pp_pad_id p = [] \<and> (pp_plated p \<or> pp_drill_mm p = None)) (fpr_pads pr) in
      if invalid = [] then None
      else Some (proof_error pr ''unnumbered-electrical-pad'' ''Unnumbered copper/plated pad cannot be excluded as a mechanical NPTH hole''
             ''unnumbered non-plated through-hole with known drill only'' (str_of_nat (length invalid))))"

definition pad_count_diagnostic :: "footprint_proof \<Rightarrow> proof_diagnostic option" where
  "pad_count_diagnostic pr =
     (if fpr_pad_count pr = length (fpr_pads pr) then None
      else Some (proof_error pr ''pad-count-field-mismatch'' ''pad_count does not match the number of pad records''
             (str_of_nat (length (fpr_pads pr))) (str_of_nat (fpr_pad_count pr))))"

definition pad_pin_count_diagnostic :: "footprint_proof \<Rightarrow> string list \<Rightarrow> proof_diagnostic option" where
  "pad_pin_count_diagnostic pr signal_pad_ids =
     (if length (dedup signal_pad_ids) = fpr_pin_count pr then None
      else Some (proof_error pr ''pad-pin-count-mismatch'' ''signal pad count does not match expected pin count''
             (str_of_nat (fpr_pin_count pr)) (str_of_nat (length (dedup signal_pad_ids)))))"

definition pin_map_count_diagnostic :: "footprint_proof \<Rightarrow> proof_diagnostic option" where
  "pin_map_count_diagnostic pr =
     (if length (fpr_pin_map pr) = fpr_pin_count pr then None
      else Some (proof_error pr ''pin-map-count-mismatch'' ''pin_map entry count does not match expected pin count''
             (str_of_nat (fpr_pin_count pr)) (str_of_nat (length (fpr_pin_map pr)))))"

definition pin_map_pad_missing_diagnostic :: "footprint_proof \<Rightarrow> string list \<Rightarrow> string list \<Rightarrow> proof_diagnostic option" where
  "pin_map_pad_missing_diagnostic pr pad_ids mapped_pads =
     (let missing = listed_minus mapped_pads pad_ids in
      if missing = [] then None
      else Some (proof_error pr ''pin-map-pad-missing'' ''pin_map references pad ids not present in the footprint'' ''existing pad id'' (commas missing)))"

definition unmapped_signal_pad_diagnostic :: "footprint_proof \<Rightarrow> string list \<Rightarrow> string list \<Rightarrow> proof_diagnostic option" where
  "unmapped_signal_pad_diagnostic pr signal_pad_ids mapped_pads =
     (let unmapped = listed_minus signal_pad_ids mapped_pads in
      if unmapped = [] then None
      else Some (proof_error pr ''unmapped-signal-pad'' ''signal pads are not referenced by pin_map'' ''all signal pads mapped'' (commas unmapped)))"

definition pin_name_mismatch_diagnostic :: "footprint_proof \<Rightarrow> string list \<Rightarrow> proof_diagnostic option" where
  "pin_name_mismatch_diagnostic pr expected_pins =
     (let actual = dict_keys (fpr_pin_map pr) in
      if listed_minus expected_pins actual = [] \<and> listed_minus actual expected_pins = [] then None
      else Some (proof_error pr ''pin-name-mismatch'' ''pin_map names do not match the expected component pins'' (commas expected_pins) (commas actual)))"

definition physical_pin_contract_diagnostic :: "footprint_proof \<Rightarrow> string list \<Rightarrow> string list \<Rightarrow> proof_diagnostic option" where
  "physical_pin_contract_diagnostic pr expected_physical_pins thermal =
     (let actual = dict_keys (fpr_pin_map pr) @ thermal in
      if listed_minus expected_physical_pins actual = [] \<and> listed_minus actual expected_physical_pins = [] then None
      else Some (proof_error pr ''physical-pin-mismatch'' ''signal and thermal pad identities do not match the expected physical package pins''
             (commas expected_physical_pins) (commas actual)))"

definition pin1_diagnostic :: "footprint_proof \<Rightarrow> proof_diagnostic option" where
  "pin1_diagnostic pr =
     (if p1_present (fpr_pin1 pr) then None
      else Some (proof_error pr ''missing-pin1-evidence'' ''footprint has no explicit pin-1 evidence'' [] []))"

definition courtyard_diagnostic :: "footprint_proof \<Rightarrow> proof_diagnostic option" where
  "courtyard_diagnostic pr =
     (if fpr_courtyard_mm pr \<noteq> (0, 0) then None
      else Some (proof_error pr ''missing-courtyard'' ''footprint courtyard is missing or zero-sized'' [] []))"

definition proof_report_of :: "nat \<Rightarrow> proof_diagnostic list \<Rightarrow> proof_report" where
  "proof_report_of n ds =
     (let errors = count_if (\<lambda>d. pd_severity d = PROOF_ERROR) ds in
      \<lparr> prr_schema_version = ''1.0'', prr_proof_count = n, prr_blocked = (errors > 0), prr_error_count = errors,
        prr_warning_count = count_if (\<lambda>d. pd_severity d = PROOF_WARNING) ds, prr_diagnostics = ds \<rparr>)"

definition validate_footprint_proof ::
  "string list option \<Rightarrow> string list option \<Rightarrow> bool \<Rightarrow> bool \<Rightarrow> footprint_proof \<Rightarrow> proof_report" where
  "validate_footprint_proof expected_pins expected_physical_pins require_pin1 require_courtyard pr =
     (let pad_ids = map pp_pad_id (fpr_pads pr);
          signal_pad_ids = filter (\<lambda>i. i \<noteq> [] \<and> i \<notin> set (fpr_thermal_pads pr)) pad_ids;
          mapped_pads = dict_values (fpr_pin_map pr);
          candidates =
            [unnumbered_electrical_pad_diagnostic pr, pad_count_diagnostic pr, pad_pin_count_diagnostic pr signal_pad_ids,
             pin_map_count_diagnostic pr, pin_map_pad_missing_diagnostic pr pad_ids mapped_pads,
             unmapped_signal_pad_diagnostic pr signal_pad_ids mapped_pads,
             (case expected_pins of None \<Rightarrow> None | Some ps \<Rightarrow> pin_name_mismatch_diagnostic pr ps),
             (case expected_physical_pins of None \<Rightarrow> None | Some ps \<Rightarrow> physical_pin_contract_diagnostic pr ps (fpr_thermal_pads pr)),
             (if require_pin1 then pin1_diagnostic pr else None), (if require_courtyard then courtyard_diagnostic pr else None)]
      in proof_report_of 1 (option_list candidates))"

definition validate_footprint_proofs :: "footprint_proof list \<Rightarrow> proof_report" where
  "validate_footprint_proofs prs =
     proof_report_of (length prs) (concat (map (\<lambda>pr. prr_diagnostics (validate_footprint_proof None None True True pr)) prs))"

section \<open>Risky packages\<close>

definition RISKY_PACKAGE_FAMILIES :: "string list" where
  "RISKY_PACKAGE_FAMILIES = [''ESP32-C3-MINI'', ''ESP32-MINI'', ''MODULE'', ''CASTELLATED'', ''AQFN'', ''BGA'', ''DFN'', ''LGA'', ''QFN'',
     ''RJ45'', ''USB-C'', ''USB_C'']"

definition DATASHEET_BACKED_RISKY_FAMILIES :: "string list" where
  "DATASHEET_BACKED_RISKY_FAMILIES = [''ESP32-C3-MINI'', ''ESP32-MINI'', ''MODULE'', ''CASTELLATED'', ''AQFN'', ''DFN'', ''LGA'', ''RJ45'', ''USB-C'']"

definition dashed :: "string \<Rightarrow> string" where
  "dashed s = replace_char (CHR ''_'') ''-'' s"

definition classify_risky_package :: "string \<Rightarrow> string \<Rightarrow> string" where
  "classify_risky_package package_id footprint_name =
     (let text = dashed (upper (package_id @ '' '' @ footprint_name)) in
      case find (\<lambda>family. contains (dashed family) text) RISKY_PACKAGE_FAMILIES of None \<Rightarrow> [] | Some family \<Rightarrow> dashed family)"

record risky_policy_result =
  rk_schema_version :: string
  rk_package_id :: string
  rk_risky :: bool
  rk_family :: string
  rk_reviewed :: bool
  rk_approval_id :: string
  rk_blocked :: bool
  rk_required_evidence :: "string list"
  rk_diagnostics :: "proof_diagnostic list"

definition risky_diagnostics :: "footprint_proof \<Rightarrow> string \<Rightarrow> bool \<Rightarrow> string \<Rightarrow> proof_diagnostic list" where
  "risky_diagnostics pr family reviewed approval_id =
     (if \<not> reviewed \<and> approval_id = [] then
        [proof_error pr ''unreviewed-risky-package'' (family @ '' package requires human-reviewed footprint proof or approval_id'')
           ''reviewed=true or approval_id'' ''unreviewed''] else [])
     @ (if fs_source_sha256 (fpr_source pr) = [] \<and> fs_generator_version (fpr_source pr) = [] then
        [proof_error pr ''risky-package-missing-source-provenance'' (family @ '' package requires source hash or generator version provenance'')
           ''source_sha256 or generator_version'' ''missing''] else [])
     @ (if family \<in> set DATASHEET_BACKED_RISKY_FAMILIES \<and> fs_source_type (fpr_source pr) = SOURCE_GENERATED then
        [proof_error pr ''risky-package-requires-datasheet-backed-source'' (family @ '' package requires datasheet-backed, vendored, or imported footprint evidence'')
           ''vendored/imported source with source_sha256 or reviewed datasheet-derived proof'' (source_type_value (fs_source_type (fpr_source pr)))] else [])
     @ (if \<not> p1_present (fpr_pin1 pr) then
        [proof_error pr ''risky-package-missing-pin1'' (family @ '' package requires explicit pin-1 evidence'') [] []] else [])
     @ (if fpr_courtyard_mm pr = (0, 0) then
        [proof_error pr ''risky-package-missing-courtyard'' (family @ '' package requires non-zero courtyard evidence'') [] []] else [])"

definition validate_risky_package_policy :: "footprint_proof \<Rightarrow> bool \<Rightarrow> string \<Rightarrow> risky_policy_result" where
  "validate_risky_package_policy pr reviewed approval_id =
     (let family = classify_risky_package (fpr_package_id pr) (fpr_footprint_name pr) in
      if family = [] then
        \<lparr> rk_schema_version = ''1.0'', rk_package_id = fpr_package_id pr, rk_risky = False, rk_family = [], rk_reviewed = False, rk_approval_id = [],
          rk_blocked = False, rk_required_evidence = [], rk_diagnostics = [] \<rparr>
      else
        (let diagnostics = risky_diagnostics pr family reviewed approval_id in
         \<lparr> rk_schema_version = ''1.0'', rk_package_id = fpr_package_id pr, rk_risky = True, rk_family = family, rk_reviewed = reviewed,
           rk_approval_id = approval_id, rk_blocked = (diagnostics \<noteq> []),
           rk_required_evidence = [''human-reviewed footprint proof'',
             ''datasheet-backed, vendored, or imported source for high-risk part-specific packages'', ''source SHA-256 or generator version'',
             ''pin-1 evidence'', ''non-zero courtyard'', ''complete pin_map''],
           rk_diagnostics = diagnostics \<rparr>))"

section \<open>What validation decides\<close>

lemma proof_error_severity [simp]: "pd_severity (proof_error pr code message expected observed) = PROOF_ERROR"
  by (simp add: proof_error_def)

lemma diagnostic_error:
  "unnumbered_electrical_pad_diagnostic pr = Some d \<Longrightarrow> pd_severity d = PROOF_ERROR"
  "pad_count_diagnostic pr = Some d \<Longrightarrow> pd_severity d = PROOF_ERROR"
  "pad_pin_count_diagnostic pr ids = Some d \<Longrightarrow> pd_severity d = PROOF_ERROR"
  "pin_map_count_diagnostic pr = Some d \<Longrightarrow> pd_severity d = PROOF_ERROR"
  "pin_map_pad_missing_diagnostic pr ids mapped = Some d \<Longrightarrow> pd_severity d = PROOF_ERROR"
  "unmapped_signal_pad_diagnostic pr ids mapped = Some d \<Longrightarrow> pd_severity d = PROOF_ERROR"
  "pin_name_mismatch_diagnostic pr ps = Some d \<Longrightarrow> pd_severity d = PROOF_ERROR"
  "physical_pin_contract_diagnostic pr ps thermal = Some d \<Longrightarrow> pd_severity d = PROOF_ERROR"
  "pin1_diagnostic pr = Some d \<Longrightarrow> pd_severity d = PROOF_ERROR"
  "courtyard_diagnostic pr = Some d \<Longrightarrow> pd_severity d = PROOF_ERROR"
  by (auto simp: unnumbered_electrical_pad_diagnostic_def pad_count_diagnostic_def pad_pin_count_diagnostic_def pin_map_count_diagnostic_def
      pin_map_pad_missing_diagnostic_def unmapped_signal_pad_diagnostic_def pin_name_mismatch_diagnostic_def physical_pin_contract_diagnostic_def
      pin1_diagnostic_def courtyard_diagnostic_def Let_def split: if_splits)

lemma listed_minus_Nil: "listed_minus xs ys = [] \<longleftrightarrow> set xs \<subseteq> set ys"
  by (auto simp: listed_minus_def filter_empty_conv)

lemma report_blocked: "prr_blocked (proof_report_of n ds) \<longleftrightarrow> (\<exists>d\<in>set ds. pd_severity d = PROOF_ERROR)"
  using count_if_0_iff [of "\<lambda>d. pd_severity d = PROOF_ERROR" ds] by (auto simp: proof_report_of_def Let_def)

lemma length_dedup_card: "length (dedup xs) = card (set xs)"
  by (metis distinct_card distinct_dedup set_dedup)

lemma list_ex_option: "(\<exists>d\<in>set (option_list xs). P d) \<longleftrightarrow> (\<exists>x\<in>set xs. \<exists>d. x = Some d \<and> P d)"
  by auto

lemma validate_diagnostics_None:
  "unnumbered_electrical_pad_diagnostic pr = None \<longleftrightarrow> (\<forall>p\<in>set (fpr_pads pr). pp_pad_id p = [] \<longrightarrow> \<not> pp_plated p \<and> pp_drill_mm p \<noteq> None)"
  "pad_count_diagnostic pr = None \<longleftrightarrow> fpr_pad_count pr = length (fpr_pads pr)"
  "pad_pin_count_diagnostic pr ids = None \<longleftrightarrow> card (set ids) = fpr_pin_count pr"
  "pin_map_count_diagnostic pr = None \<longleftrightarrow> length (fpr_pin_map pr) = fpr_pin_count pr"
  "pin_map_pad_missing_diagnostic pr ids mapped = None \<longleftrightarrow> set mapped \<subseteq> set ids"
  "unmapped_signal_pad_diagnostic pr ids mapped = None \<longleftrightarrow> set ids \<subseteq> set mapped"
  "pin_name_mismatch_diagnostic pr ps = None \<longleftrightarrow> set ps = set (dict_keys (fpr_pin_map pr))"
  "physical_pin_contract_diagnostic pr ps thermal = None \<longleftrightarrow> set ps = set (dict_keys (fpr_pin_map pr)) \<union> set thermal"
  "pin1_diagnostic pr = None \<longleftrightarrow> p1_present (fpr_pin1 pr)"
  "courtyard_diagnostic pr = None \<longleftrightarrow> fpr_courtyard_mm pr \<noteq> (0, 0)"
  by (auto simp: unnumbered_electrical_pad_diagnostic_def pad_count_diagnostic_def pad_pin_count_diagnostic_def pin_map_count_diagnostic_def
      pin_map_pad_missing_diagnostic_def unmapped_signal_pad_diagnostic_def pin_name_mismatch_diagnostic_def physical_pin_contract_diagnostic_def
      pin1_diagnostic_def courtyard_diagnostic_def Let_def listed_minus_Nil filter_empty_conv length_dedup_card)

lemma validate_ok_iff:
  "\<not> prr_blocked (validate_footprint_proof expected_pins expected_physical_pins require_pin1 require_courtyard pr) \<longleftrightarrow>
     (\<forall>p\<in>set (fpr_pads pr). pp_pad_id p = [] \<longrightarrow> \<not> pp_plated p \<and> pp_drill_mm p \<noteq> None)
     \<and> fpr_pad_count pr = length (fpr_pads pr)
     \<and> card ((pp_pad_id ` set (fpr_pads pr)) - {[]} - set (fpr_thermal_pads pr)) = fpr_pin_count pr
     \<and> length (fpr_pin_map pr) = fpr_pin_count pr
     \<and> set (dict_values (fpr_pin_map pr)) \<subseteq> pp_pad_id ` set (fpr_pads pr)
     \<and> (pp_pad_id ` set (fpr_pads pr)) - {[]} - set (fpr_thermal_pads pr) \<subseteq> set (dict_values (fpr_pin_map pr))
     \<and> (case expected_pins of None \<Rightarrow> True | Some ps \<Rightarrow> set ps = set (dict_keys (fpr_pin_map pr)))
     \<and> (case expected_physical_pins of None \<Rightarrow> True | Some ps \<Rightarrow> set ps = set (dict_keys (fpr_pin_map pr)) \<union> set (fpr_thermal_pads pr))
     \<and> (require_pin1 \<longrightarrow> p1_present (fpr_pin1 pr)) \<and> (require_courtyard \<longrightarrow> fpr_courtyard_mm pr \<noteq> (0, 0))"
proof -
  let ?ids = "map pp_pad_id (fpr_pads pr)"
  let ?signal = "filter (\<lambda>i. i \<noteq> [] \<and> i \<notin> set (fpr_thermal_pads pr)) ?ids"
  let ?pins = "case expected_pins of None \<Rightarrow> None | Some ps \<Rightarrow> pin_name_mismatch_diagnostic pr ps"
  let ?physical = "case expected_physical_pins of None \<Rightarrow> None | Some ps \<Rightarrow> physical_pin_contract_diagnostic pr ps (fpr_thermal_pads pr)"
  let ?p1 = "if require_pin1 then pin1_diagnostic pr else None" and ?cy = "if require_courtyard then courtyard_diagnostic pr else None"
  let ?cs = "[unnumbered_electrical_pad_diagnostic pr, pad_count_diagnostic pr, pad_pin_count_diagnostic pr ?signal, pin_map_count_diagnostic pr,
      pin_map_pad_missing_diagnostic pr ?ids (dict_values (fpr_pin_map pr)), unmapped_signal_pad_diagnostic pr ?signal (dict_values (fpr_pin_map pr)),
      ?pins, ?physical, ?p1, ?cy]"
  have signal: "set ?signal = (pp_pad_id ` set (fpr_pads pr)) - {[]} - set (fpr_thermal_pads pr)" by auto
  have err: "pd_severity d = PROOF_ERROR" if "Some d \<in> set ?cs" for d
    using that by (auto split: option.splits if_splits dest: diagnostic_error [OF sym])
  have blocked: "\<not> prr_blocked (proof_report_of 1 (option_list cs)) \<longleftrightarrow> (\<forall>c\<in>set cs. c = None)"
    if "\<And>d. Some d \<in> set cs \<Longrightarrow> pd_severity d = PROOF_ERROR" for cs
    unfolding report_blocked using that by simp (metis not_None_eq)
  have "\<not> prr_blocked (validate_footprint_proof expected_pins expected_physical_pins require_pin1 require_courtyard pr) \<longleftrightarrow> (\<forall>c\<in>set ?cs. c = None)"
    unfolding validate_footprint_proof_def Let_def by (rule blocked) (rule err)
  also have "\<dots> \<longleftrightarrow> unnumbered_electrical_pad_diagnostic pr = None \<and> pad_count_diagnostic pr = None \<and> pad_pin_count_diagnostic pr ?signal = None
      \<and> pin_map_count_diagnostic pr = None \<and> pin_map_pad_missing_diagnostic pr ?ids (dict_values (fpr_pin_map pr)) = None
      \<and> unmapped_signal_pad_diagnostic pr ?signal (dict_values (fpr_pin_map pr)) = None \<and> ?pins = None \<and> ?physical = None \<and> ?p1 = None \<and> ?cy = None"
    by simp
  also have "?pins = None \<longleftrightarrow> (case expected_pins of None \<Rightarrow> True | Some ps \<Rightarrow> set ps = set (dict_keys (fpr_pin_map pr)))"
    by (simp add: validate_diagnostics_None split: option.splits)
  also have "?physical = None \<longleftrightarrow> (case expected_physical_pins of None \<Rightarrow> True | Some ps \<Rightarrow> set ps = set (dict_keys (fpr_pin_map pr)) \<union> set (fpr_thermal_pads pr))"
    by (simp add: validate_diagnostics_None split: option.splits)
  also have "?p1 = None \<longleftrightarrow> (require_pin1 \<longrightarrow> p1_present (fpr_pin1 pr))" by (simp add: validate_diagnostics_None)
  also have "?cy = None \<longleftrightarrow> (require_courtyard \<longrightarrow> fpr_courtyard_mm pr \<noteq> (0, 0))" by (simp add: validate_diagnostics_None)
  finally show ?thesis unfolding validate_diagnostics_None signal set_map .
qed

text \<open>
  C37: A footprint proof is accepted exactly when its pads without a number are mechanical holes, its
  counts agree with its pads, pins and map, the map reaches exactly existing pads and all signal
  pads, the expected pins are those it names, and pin 1 and courtyard are there when required.
\<close>

theorem footprint_validation_exact:
  "\<not> prr_blocked (validate_footprint_proof expected_pins expected_physical_pins require_pin1 require_courtyard pr) \<longleftrightarrow>
     (\<forall>p\<in>set (fpr_pads pr). pp_pad_id p = [] \<longrightarrow> \<not> pp_plated p \<and> pp_drill_mm p \<noteq> None)
     \<and> fpr_pad_count pr = length (fpr_pads pr)
     \<and> card ((pp_pad_id ` set (fpr_pads pr)) - {[]} - set (fpr_thermal_pads pr)) = fpr_pin_count pr
     \<and> length (fpr_pin_map pr) = fpr_pin_count pr
     \<and> set (dict_values (fpr_pin_map pr)) \<subseteq> pp_pad_id ` set (fpr_pads pr)
     \<and> (pp_pad_id ` set (fpr_pads pr)) - {[]} - set (fpr_thermal_pads pr) \<subseteq> set (dict_values (fpr_pin_map pr))
     \<and> (case expected_pins of None \<Rightarrow> True | Some ps \<Rightarrow> set ps = set (dict_keys (fpr_pin_map pr)))
     \<and> (case expected_physical_pins of None \<Rightarrow> True | Some ps \<Rightarrow> set ps = set (dict_keys (fpr_pin_map pr)) \<union> set (fpr_thermal_pads pr))
     \<and> (require_pin1 \<longrightarrow> p1_present (fpr_pin1 pr)) \<and> (require_courtyard \<longrightarrow> fpr_courtyard_mm pr \<noteq> (0, 0))"
  by (rule validate_ok_iff)

section \<open>Proofs a footprint gives about itself\<close>

lemma set_dict_set_subset: "set (dict_set k v d) \<subseteq> insert (k, v) (set d)"
  unfolding dict_set_def by (induction d) auto

lemma own_pin_map_facts:
  "set (dict_keys (own_pin_map fp)) = (pad_id ` set (fp_pads fp)) - {[]} - set (case fp_thermal_pads fp of None \<Rightarrow> [] | Some ts \<Rightarrow> ts)"
  "distinct (dict_keys (own_pin_map fp))" "dict_values (own_pin_map fp) = dict_keys (own_pin_map fp)"
proof -
  let ?ts = "case fp_thermal_pads fp of None \<Rightarrow> [] | Some ts \<Rightarrow> ts"
  show "set (dict_keys (own_pin_map fp)) = (pad_id ` set (fp_pads fp)) - {[]} - set ?ts"
    by (auto simp: own_pin_map_def Let_def set_keys_comp)
  show "distinct (dict_keys (own_pin_map fp))"
    using dict_wf_comp unfolding own_pin_map_def Let_def dict_wf_def dict_keys_def by blast
  have same: "set d \<subseteq> Id \<Longrightarrow> set (fold (\<lambda>x. dict_set (f x) (f x)) xs d) \<subseteq> Id" for f :: "pad \<Rightarrow> string" and xs d
  proof (induction xs arbitrary: d)
    case (Cons x xs)
    have "set (dict_set (f x) (f x) d) \<subseteq> Id" using set_dict_set_subset [of "f x" "f x" d] Cons.prems by blast
    then show ?case using Cons.IH by simp
  qed simp
  have "set (own_pin_map fp) \<subseteq> Id"
    unfolding own_pin_map_def Let_def dict_comp_def by (rule same) simp
  then show "dict_values (own_pin_map fp) = dict_keys (own_pin_map fp)" by (auto simp: dict_values_def dict_keys_def)
qed

text \<open>
  A proof built without a pin map and a pin count compares the footprint with itself: none of the
  count and map checks can fail, so validation only looks at unnumbered pads, pin 1 and courtyard.
\<close>

lemma own_proof_unblocked_iff:
  assumes "pq_pin_map rq = None" "pq_expected_pin_count rq = None"
  shows "\<not> prr_blocked (validate_footprint_proof None None True True (build_footprint_proof file_digest version package_id fp rq)) \<longleftrightarrow>
    (\<forall>p\<in>set (fp_pads fp). pad_id p = [] \<longrightarrow> \<not> pad_plated p \<and> pad_drill p \<noteq> None)
    \<and> (\<exists>i\<in>{''1'', ''A1'', ''P1''}. i \<in> pad_id ` set (fp_pads fp)) \<and> fp_courtyard fp \<noteq> (0, 0)"
proof -
  let ?pr = "build_footprint_proof file_digest version package_id fp rq"
  let ?ts = "case fp_thermal_pads fp of None \<Rightarrow> [] | Some ts \<Rightarrow> ts"
  have ids: "pp_pad_id ` set (fpr_pads ?pr) = pad_id ` set (fp_pads fp)" by (force simp: build_footprint_proof_def Let_def pad_to_proof_def)
  have map: "fpr_pin_map ?pr = own_pin_map fp" "fpr_pin_count ?pr = length (own_pin_map fp)" "set (fpr_thermal_pads ?pr) = set ?ts"
    "fpr_pad_count ?pr = length (fpr_pads ?pr)" "fpr_courtyard_mm ?pr = fp_courtyard fp"
    using assms by (simp_all add: build_footprint_proof_def Let_def)
  have count: "card ((pad_id ` set (fp_pads fp)) - {[]} - set ?ts) = length (own_pin_map fp)"
    using own_pin_map_facts(1,2) [of fp] by (metis dict_keys_def distinct_card length_map)
  have p1: "p1_present (fpr_pin1 ?pr) \<longleftrightarrow> (\<exists>i\<in>{''1'', ''A1'', ''P1''}. i \<in> pad_id ` set (fp_pads fp))"
    by (auto simp: build_footprint_proof_def Let_def pin1_evidence_of_def)
  have pads: "(\<forall>p\<in>set (fpr_pads ?pr). pp_pad_id p = [] \<longrightarrow> \<not> pp_plated p \<and> pp_drill_mm p \<noteq> None) \<longleftrightarrow>
      (\<forall>p\<in>set (fp_pads fp). pad_id p = [] \<longrightarrow> \<not> pad_plated p \<and> pad_drill p \<noteq> None)"
    by (auto simp: build_footprint_proof_def Let_def pad_to_proof_def)
  show ?thesis
    unfolding validate_ok_iff pads ids map p1 count own_pin_map_facts(1,3) option.case
    by auto
qed

lemma risky_blocked_iff:
  "rk_blocked (validate_risky_package_policy pr reviewed approval_id) \<longleftrightarrow>
     (let family = classify_risky_package (fpr_package_id pr) (fpr_footprint_name pr) in family \<noteq> [] \<and>
       (\<not> reviewed \<and> approval_id = [] \<or> fs_source_sha256 (fpr_source pr) = [] \<and> fs_generator_version (fpr_source pr) = []
        \<or> family \<in> set DATASHEET_BACKED_RISKY_FAMILIES \<and> fs_source_type (fpr_source pr) = SOURCE_GENERATED
        \<or> \<not> p1_present (fpr_pin1 pr) \<or> fpr_courtyard_mm pr = (0, 0)))"
  by (simp add: validate_risky_package_policy_def risky_diagnostics_def Let_def)

section \<open>Concrete runs\<close>

definition demo_pad :: "string \<Rightarrow> pad" where
  "demo_pad i = \<lparr> pad_id = i, pad_layer = LAYER_TOP, pad_shape = PAD_RECT, pad_position = (0, 0), pad_size = (1, 1), pad_drill = None,
     pad_drill_slot = None, pad_roundrect_rratio = None, pad_plated = True, pad_solder_paste = True, pad_rotation = 0 \<rparr>"

definition demo_footprint :: footprint_def where
  "demo_footprint = \<lparr> fp_pads = [demo_pad ''1'', demo_pad ''2'', demo_pad ''EP''], fp_outline = [], fp_courtyard = (2, 2), fp_height = 1,
     fp_thermal_pads = Some [''EP''], fp_description = ''QFN-2'', fp_source = ''IPC'' \<rparr>"

lemma footprint_validation_exact_witness:
  "\<not> prr_blocked (validate_footprint_proof None None True True (build_footprint_proof (\<lambda>_. None) ''1'' ''QFN-2'' demo_footprint default_request))
   \<and> length (fpr_pin_map (build_footprint_proof (\<lambda>_. None) ''1'' ''QFN-2'' demo_footprint default_request)) = 2
   \<and> rk_blocked (validate_risky_package_policy (build_footprint_proof (\<lambda>_. None) ''1'' ''QFN-2'' demo_footprint default_request) False [])"
proof -
  let ?pr = "build_footprint_proof (\<lambda>_. None) ''1'' ''QFN-2'' demo_footprint default_request"
  have ok: "\<not> prr_blocked (validate_footprint_proof None None True True ?pr)"
    by (subst own_proof_unblocked_iff) (auto simp: default_request_def demo_footprint_def demo_pad_def)
  have "fpr_pin_count ?pr = 2" by code_simp
  then have "length (fpr_pin_map ?pr) = 2" using footprint_validation_exact [of None None True True ?pr] ok by simp
  moreover have "rk_blocked (validate_risky_package_policy ?pr False [])" by code_simp
  ultimately show ?thesis using ok by blast
qed

end
