(* ===== verification/Release_Gate.thy ===== *)
theory Release_Gate
  imports Footprint_Proof Review_Workflow ERC_Runner "HOL-Library.Countable"
begin

text \<open>
  The release gate: evidence status, component coverage and the binding of approvals of
  \<^verbatim>\<open>src/zaptrace/security/release.py\<close>, the resolution of engineering reviews of
  \<^verbatim>\<open>review/evidence.py\<close>, the recording of ERC and DRC evidence and the gate itself of
  \<^verbatim>\<open>agent/tool_impls/runtime.py\<close>, and the two validating tools of \<^verbatim>\<open>tool_impls/verification.py\<close>.
  JSON dumps, SHA-256, the DRC engine and the footprint libraries are arguments. A session keeps
  its designs in memory, without a state store.
\<close>

section \<open>What the gate is given\<close>

datatype release_evidence_status =
  EVIDENCE_PASS | EVIDENCE_FAIL | MISSING_EVIDENCE | SKIP_APPROVED | SKIP_UNAPPROVED | HUMAN_REVIEW_REQUIRED

fun evidence_status_value :: "release_evidence_status \<Rightarrow> string" where
  "evidence_status_value EVIDENCE_PASS = ''pass''"
| "evidence_status_value EVIDENCE_FAIL = ''fail''"
| "evidence_status_value MISSING_EVIDENCE = ''missing-evidence''"
| "evidence_status_value SKIP_APPROVED = ''skip-approved''"
| "evidence_status_value SKIP_UNAPPROVED = ''skip-unapproved''"
| "evidence_status_value HUMAN_REVIEW_REQUIRED = ''human-review-required''"

record release_env =
  le_dump :: "design \<Rightarrow> (string, pyval) dict"
  le_sha256 :: "pyval \<Rightarrow> string" \<comment> \<open>of the text of a JSON value\<close>
  le_erc014 :: "design \<Rightarrow> erc_violation list result"
  le_erc028 :: "design \<Rightarrow> erc_violation list result"
  le_drc :: "string option \<Rightarrow> design \<Rightarrow> (bool \<times> nat) result" \<comment> \<open>passed and the number of violations\<close>
  le_vendored :: "string \<Rightarrow> footprint_provenance option"
  le_resolve_vendored :: "string \<Rightarrow> footprint_def option"
  le_generate :: "string \<Rightarrow> string \<Rightarrow> footprint_def option"
  le_version :: string
  le_dump_proof :: "footprint_proof \<Rightarrow> pyval"

definition structural_state :: "(string, pyval) dict \<Rightarrow> (string, pyval) dict" where
  "structural_state d =
     (let s = filter (\<lambda>(k, _). k \<noteq> ''drc_result'') d
      in if dict_get s ''net_classes'' \<in> {None, Some PNone} then dict_set ''net_classes'' (PDict []) s else s)"

text \<open>\<^verbatim>\<open>json.dumps(value, sort_keys=True)\<close> writes the same text for dictionaries that differ in order only.\<close>

fun sort_keys :: "pyval \<Rightarrow> pyval" where
  "sort_keys (PList xs) = PList (map sort_keys xs)"
| "sort_keys (PDict d) = PDict (sort_key fst (map (map_prod id sort_keys) d))"
| "sort_keys v = v"

definition sha256_json :: "release_env \<Rightarrow> pyval \<Rightarrow> string" where
  "sha256_json ev v = le_sha256 ev (sort_keys v)"

definition design_state :: "release_env \<Rightarrow> design \<Rightarrow> pyval" where
  "design_state ev d = PDict (structural_state (le_dump ev d))"

definition release_design_state_hash :: "release_env \<Rightarrow> design \<Rightarrow> string" where
  "release_design_state_hash ev d = sha256_json ev (design_state ev d)"

section \<open>Component coverage\<close>

definition component_geometry :: "release_env \<Rightarrow> component \<Rightarrow> footprint_def option \<times> footprint_provenance option" where
  "component_geometry ev c =
     (let vendored_source = (if comp_footprint c \<noteq> [] then le_vendored ev (comp_footprint c) else None) in
      case comp_footprint_def c of
        Some fp \<Rightarrow> (Some fp, vendored_source)
      | None \<Rightarrow>
          if comp_footprint c = [] then (None, None)
          else if vendored_source \<noteq> None then (le_resolve_vendored ev (comp_footprint c), vendored_source)
          else (le_generate ev (comp_footprint c) (comp_type c), None))"

record coverage_gap =
  cg_component_id :: string
  cg_component_ref :: string
  cg_footprint :: string
  cg_reason :: string

definition placement_gap :: "component \<Rightarrow> coverage_gap" where
  "placement_gap c = \<lparr> cg_component_id = comp_id c, cg_component_ref = comp_ref c, cg_footprint = comp_footprint c,
     cg_reason = ''pick-and-place position is unresolved'' \<rparr>"

definition geometry_gap :: "component \<Rightarrow> coverage_gap" where
  "geometry_gap c = \<lparr> cg_component_id = comp_id c, cg_component_ref = comp_ref c, cg_footprint = comp_footprint c,
     cg_reason = ''footprint geometry is unresolved'' \<rparr>"

record component_row =
  cr_component_id :: string
  cr_component_ref :: string
  cr_footprint :: string
  cr_pad_count :: nat
  cr_pin_count :: nat
  cr_footprint_proof_sha256 :: string
  cr_footprint_source :: footprint_provenance
  cr_proof_blocked :: bool
  cr_proof_diagnostic_codes :: "string list"
  cr_risky :: bool
  cr_risky_family :: string
  cr_risky_policy_blocked :: bool
  cr_risky_diagnostic_codes :: "string list"

definition component_proof :: "release_env \<Rightarrow> component \<Rightarrow> footprint_def \<Rightarrow> footprint_provenance option \<Rightarrow> footprint_proof" where
  "component_proof ev c fp source =
     (let package_id = (if comp_footprint c \<noteq> [] then comp_footprint c else if comp_type c \<noteq> [] then comp_type c else comp_ref c)
      in build_footprint_proof (\<lambda>_. None) (le_version ev) package_id fp
           (default_request\<lparr> pq_footprint_name := (if comp_footprint c \<noteq> [] then comp_footprint c else package_id), pq_source := source \<rparr>))"

definition component_proof_row ::
  "release_env \<Rightarrow> component \<Rightarrow> footprint_def \<Rightarrow> footprint_provenance option \<Rightarrow> bool \<Rightarrow> string \<Rightarrow> component_row" where
  "component_proof_row ev c fp source reviewed approval_id =
     (let pr = component_proof ev c fp source;
          proof_validation = validate_footprint_proof None None True True pr;
          review_authorized = (reviewed \<and> strip approval_id \<noteq> []);
          risky_policy = validate_risky_package_policy pr review_authorized (if review_authorized then approval_id else []) in
      \<lparr> cr_component_id = comp_id c, cr_component_ref = comp_ref c, cr_footprint = comp_footprint c, cr_pad_count = fpr_pad_count pr,
        cr_pin_count = fpr_pin_count pr, cr_footprint_proof_sha256 = sha256_json ev (le_dump_proof ev pr), cr_footprint_source = fpr_source pr,
        cr_proof_blocked = prr_blocked proof_validation, cr_proof_diagnostic_codes = map pd_code (prr_diagnostics proof_validation),
        cr_risky = rk_risky risky_policy, cr_risky_family = rk_family risky_policy, cr_risky_policy_blocked = rk_blocked risky_policy,
        cr_risky_diagnostic_codes = map pd_code (rk_diagnostics risky_policy) \<rparr>)"

definition component_coverage_status :: "coverage_gap list \<Rightarrow> coverage_gap list \<Rightarrow> component_row list \<Rightarrow> release_evidence_status" where
  "component_coverage_status unresolved placement_missing blocked =
     (if unresolved \<noteq> [] \<or> placement_missing \<noteq> [] then MISSING_EVIDENCE
      else if blocked \<noteq> [] then HUMAN_REVIEW_REQUIRED else EVIDENCE_PASS)"

record component_coverage =
  cov_status :: release_evidence_status
  cov_component_count :: nat
  cov_populated_count :: nat
  cov_reviewed :: bool
  cov_approval_id :: string
  cov_checked :: "component_row list"
  cov_unresolved :: "coverage_gap list"
  cov_placement_missing :: "coverage_gap list"
  cov_risky :: "component_row list"
  cov_blocked :: "component_row list"

definition populated_components :: "design \<Rightarrow> component list" where
  "populated_components d = sort_key comp_ref (filter (\<lambda>c. \<not> comp_dnp c) (dict_values (des_components d)))"

definition is_placed :: "design \<Rightarrow> component \<Rightarrow> bool" where
  "is_placed d c = (dict_get (case des_placement d of None \<Rightarrow> [] | Some p \<Rightarrow> p) (comp_id c) \<noteq> None \<or> comp_position c \<noteq> None)"

definition usable_footprint :: "release_env \<Rightarrow> component \<Rightarrow> footprint_def option" where
  "usable_footprint ev c = (case fst (component_geometry ev c) of None \<Rightarrow> None | Some fp \<Rightarrow> if fp_pads fp = [] then None else Some fp)"

definition coverage_row :: "release_env \<Rightarrow> bool \<Rightarrow> string \<Rightarrow> component \<Rightarrow> component_row option" where
  "coverage_row ev reviewed approval_id c =
     map_option (\<lambda>fp. component_proof_row ev c fp (snd (component_geometry ev c)) reviewed approval_id) (usable_footprint ev c)"

definition build_component_coverage :: "release_env \<Rightarrow> design \<Rightarrow> bool \<Rightarrow> string \<Rightarrow> component_coverage" where
  "build_component_coverage ev d reviewed approval_id =
     (let populated = populated_components d;
          placement_missing = map placement_gap (filter (\<lambda>c. \<not> is_placed d c) populated);
          unresolved = map geometry_gap (filter (\<lambda>c. usable_footprint ev c = None) populated);
          checked = option_list (map (coverage_row ev reviewed approval_id) populated);
          blocked = filter (\<lambda>r. cr_proof_blocked r \<or> cr_risky_policy_blocked r) checked in
      \<lparr> cov_status = component_coverage_status unresolved placement_missing blocked, cov_component_count = length (des_components d),
        cov_populated_count = length populated, cov_reviewed = reviewed, cov_approval_id = strip approval_id, cov_checked = checked,
        cov_unresolved = unresolved, cov_placement_missing = placement_missing, cov_risky = filter cr_risky checked, cov_blocked = blocked \<rparr>)"

section \<open>Policies\<close>

record fab_profile_policy =
  pol_status :: release_evidence_status
  pol_fab_profile :: string
  pol_skip_reason :: string
  pol_skip_approval_id :: string

definition build_fab_profile_policy :: "string \<Rightarrow> string \<Rightarrow> string \<Rightarrow> fab_profile_policy" where
  "build_fab_profile_policy fab_profile skip_reason skip_approval_id =
     (let profile = strip fab_profile; reason = strip skip_reason; approval = strip skip_approval_id in
      \<lparr> pol_status = (if profile \<noteq> [] then EVIDENCE_PASS else if reason \<noteq> [] \<and> approval \<noteq> [] then SKIP_APPROVED
                     else if reason \<noteq> [] then SKIP_UNAPPROVED else MISSING_EVIDENCE),
        pol_fab_profile = profile, pol_skip_reason = reason, pol_skip_approval_id = approval \<rparr>)"

record erc_evidence =
  ee_status :: release_evidence_status
  ee_design_state_hash :: string
  ee_passed :: bool
  ee_total_errors :: nat
  ee_total_warnings :: nat
  ee_total_info :: nat

record drc_evidence =
  de_status :: release_evidence_status
  de_design_state_hash :: string
  de_passed :: bool
  de_total_violations :: nat
  de_fab_profile :: string

record validation_view =
  vv_design_state_hash :: string
  vv_erc :: "erc_evidence option"
  vv_drc :: "drc_evidence option"

definition release_error :: "string \<Rightarrow> string \<Rightarrow> py_error" where
  "release_error design_name message = ValueError (''Release export for '' @ sq @ design_name @ sq @ message)"

definition require_current_validation :: "string \<Rightarrow> string \<Rightarrow> validation_view option \<Rightarrow> (erc_evidence \<times> drc_evidence) result" where
  "require_current_validation design_name current_hash validation =
     (case validation of
        None \<Rightarrow> Inl (release_error design_name '' requires fresh ERC and DRC validation for the current design state'')
      | Some v \<Rightarrow>
          (case vv_erc v of
             None \<Rightarrow> Inl (release_error design_name '' requires fresh passing ERC evidence'')
           | Some erc \<Rightarrow>
               if ee_design_state_hash erc \<noteq> current_hash then Inl (release_error design_name '' requires fresh ERC for the current design state'')
               else if \<not> ee_passed erc then Inl (release_error design_name '' requires passing ERC validation'')
               else (case vv_drc v of
                       None \<Rightarrow> Inl (release_error design_name '' requires fresh passing DRC evidence'')
                     | Some drc \<Rightarrow>
                         if de_design_state_hash drc \<noteq> current_hash then Inl (release_error design_name '' requires fresh DRC for the current design state'')
                         else if \<not> de_passed drc then Inl (release_error design_name '' requires passing DRC validation'')
                         else Inr (erc, drc))))"

definition require_complete_component_coverage :: "string \<Rightarrow> component_coverage \<Rightarrow> unit result" where
  "require_complete_component_coverage design_name coverage =
     (if cov_status coverage \<noteq> EVIDENCE_PASS
      then Inl (release_error design_name ('' requires complete footprint and risky-package evidence (status='' @ evidence_status_value (cov_status coverage) @ '')''))
      else Inr ())"

definition require_approved_fab_profile_policy :: "string \<Rightarrow> fab_profile_policy \<Rightarrow> unit result" where
  "require_approved_fab_profile_policy design_name policy =
     (if pol_status policy = SKIP_UNAPPROVED
      then Inl (release_error design_name '' has an unapproved fabrication-profile skip; provide fab_profile_skip_approval_id'')
      else if pol_status policy = MISSING_EVIDENCE
      then Inl (release_error design_name '' requires a fabrication profile or an explicit approved skip reason'')
      else Inr ())"

section \<open>Engineering review evidence\<close>

fun decision_type_value :: "decision_type \<Rightarrow> string" where
  "decision_type_value APPROVE = ''approve''"
| "decision_type_value REJECT = ''reject''"
| "decision_type_value REQUEST_REPAIR = ''request-repair''"
| "decision_type_value ACCEPT_RISK = ''accept-risk''"
| "decision_type_value ROLLBACK = ''rollback''"

fun checklist_status_value :: "checklist_status \<Rightarrow> string" where
  "checklist_status_value CL_PENDING = ''pending''"
| "checklist_status_value CL_APPROVED = ''approved''"
| "checklist_status_value CL_REJECTED = ''rejected''"
| "checklist_status_value CL_WAIVED = ''waived''"

record review_evidence =
  rev_status :: string
  rev_session_id :: string
  rev_decision_id :: string
  rev_decision :: string
  rev_reviewer_id :: string
  rev_decided_at :: string
  rev_reason :: string
  rev_waiver_notes :: string
  rev_design_state_hash :: string
  rev_approval_id :: string
  rev_current :: bool
  rev_approval_id_matched :: bool
  rev_checklist :: "(string \<times> string) list"

definition decision_evidence :: "review_session \<Rightarrow> review_decision \<Rightarrow> string \<Rightarrow> bool \<Rightarrow> bool \<Rightarrow> review_evidence" where
  "decision_evidence s dn status current matched =
     \<lparr> rev_status = status, rev_session_id = rvs_session_id s, rev_decision_id = rd_decision_id dn, rev_decision = decision_type_value (rd_decision dn),
       rev_reviewer_id = rd_decided_by dn, rev_decided_at = rd_decided_at dn, rev_reason = rd_reason dn, rev_waiver_notes = rd_waiver_notes dn,
       rev_design_state_hash = rd_design_state_hash dn, rev_approval_id = rd_approval_id dn, rev_current = current, rev_approval_id_matched = matched,
       rev_checklist = map (\<lambda>(k, v). (k, checklist_status_value v)) (rd_checklist_results dn) \<rparr>"

definition default_evidence :: "string \<Rightarrow> review_evidence" where
  "default_evidence h =
     \<lparr> rev_status = ''human-review-required'', rev_session_id = [], rev_decision_id = [], rev_decision = [], rev_reviewer_id = [], rev_decided_at = [],
       rev_reason = ''No current matching engineering review approval was supplied.'', rev_waiver_notes = [], rev_design_state_hash = h,
       rev_approval_id = [], rev_current = False, rev_approval_id_matched = False, rev_checklist = [] \<rparr>"

text \<open>
  Sessions of the design with their latest decisions, the newest decision first; sorting in
  reverse keeps the order of equal time stamps.
\<close>

definition terminal_sessions :: "review_session list \<Rightarrow> string \<Rightarrow> (review_session \<times> review_decision) list" where
  "terminal_sessions sessions design_name =
     (let decided = option_list (map (\<lambda>s. if rvs_design_name s = design_name then map_option (\<lambda>dn. (s, dn)) (latest_decision s) else None) sessions)
      in rev (sort_key (\<lambda>(s, dn). rd_decided_at dn) (rev decided)))"

fun blocking_status :: "decision_type \<Rightarrow> string option" where
  "blocking_status REJECT = Some ''rejected''"
| "blocking_status REQUEST_REPAIR = Some ''repair-requested''"
| "blocking_status ROLLBACK = Some ''rolled-back''"
| "blocking_status _ = None"

definition matched_review_status :: "review_decision \<Rightarrow> bool \<Rightarrow> string" where
  "matched_review_status dn current =
     (if \<not> current then ''stale-review'' else if rd_decision dn = APPROVE then ''human-approved'' else ''risk-accepted'')"

definition resolve_engineering_review_evidence :: "review_session list \<Rightarrow> string \<Rightarrow> string \<Rightarrow> string \<Rightarrow> review_evidence" where
  "resolve_engineering_review_evidence sessions design_name h approval_id =
     (let decided = terminal_sessions sessions design_name;
          current_sessions = filter (\<lambda>(s, dn). rd_design_state_hash dn = h) decided;
          blocking = (case current_sessions of [] \<Rightarrow> None
             | (s, dn) # _ \<Rightarrow> map_option (\<lambda>status. decision_evidence s dn status True False) (blocking_status (rd_decision dn)));
          normalized_approval = strip approval_id;
          matching_sessions = filter (\<lambda>(s, dn). rd_approval_id dn \<noteq> [] \<and> rd_approval_id dn = normalized_approval) decided in
      case blocking of
        Some e \<Rightarrow> e
      | None \<Rightarrow>
          (case matching_sessions of
             (s, dn) # _ \<Rightarrow>
               (let current = (rd_design_state_hash dn = h) in decision_evidence s dn (matched_review_status dn current) current True)
           | [] \<Rightarrow>
               (case current_sessions of
                  (s, dn) # _ \<Rightarrow> decision_evidence s dn ''human-review-required'' True False
                | [] \<Rightarrow> default_evidence h)))"

section \<open>The evidence identity and its approval\<close>

definition dump_strings :: "string list \<Rightarrow> pyval" where
  "dump_strings xs = PList (map PStr xs)"

definition dump_nat :: "nat \<Rightarrow> pyval" where
  "dump_nat n = PInt (int n)"

definition dump_source :: "footprint_provenance \<Rightarrow> pyval" where
  "dump_source fs = PDict [(''source_type'', PStr (source_type_value (fs_source_type fs))), (''source_name'', PStr (fs_source_name fs)),
     (''source_path'', PStr (fs_source_path fs)), (''source_sha256'', PStr (fs_source_sha256 fs)), (''generator'', PStr (fs_generator fs)),
     (''generator_version'', PStr (fs_generator_version fs)), (''attribution'', PStr (fs_attribution fs))]"

definition dump_gap :: "coverage_gap \<Rightarrow> pyval" where
  "dump_gap g = PDict [(''component_id'', PStr (cg_component_id g)), (''component_ref'', PStr (cg_component_ref g)),
     (''footprint'', PStr (cg_footprint g)), (''reason'', PStr (cg_reason g))]"

definition dump_row :: "component_row \<Rightarrow> pyval" where
  "dump_row r = PDict [(''component_id'', PStr (cr_component_id r)), (''component_ref'', PStr (cr_component_ref r)), (''footprint'', PStr (cr_footprint r)),
     (''pad_count'', dump_nat (cr_pad_count r)), (''pin_count'', dump_nat (cr_pin_count r)), (''footprint_proof_sha256'', PStr (cr_footprint_proof_sha256 r)),
     (''footprint_source'', dump_source (cr_footprint_source r)), (''proof_blocked'', PBool (cr_proof_blocked r)),
     (''proof_diagnostic_codes'', dump_strings (cr_proof_diagnostic_codes r)), (''risky'', PBool (cr_risky r)), (''risky_family'', PStr (cr_risky_family r)),
     (''risky_policy_blocked'', PBool (cr_risky_policy_blocked r)), (''risky_diagnostic_codes'', dump_strings (cr_risky_diagnostic_codes r))]"

definition dump_coverage :: "component_coverage \<Rightarrow> pyval" where
  "dump_coverage c = PDict [(''schema_version'', PStr ''1.0''), (''status'', PStr (evidence_status_value (cov_status c))),
     (''component_count'', dump_nat (cov_component_count c)), (''populated_component_count'', dump_nat (cov_populated_count c)),
     (''dnp_component_count'', PInt (int (cov_component_count c) - int (cov_populated_count c))),
     (''bom_accounted_component_count'', dump_nat (cov_populated_count c)),
     (''pick_and_place_accounted_component_count'', PInt (int (cov_populated_count c) - int (length (cov_placement_missing c)))),
     (''checked_component_count'', dump_nat (length (cov_checked c))), (''unresolved_component_count'', dump_nat (length (cov_unresolved c))),
     (''placement_missing_component_count'', dump_nat (length (cov_placement_missing c))), (''risky_component_count'', dump_nat (length (cov_risky c))),
     (''blocked_component_count'', dump_nat (length (cov_blocked c))), (''risky_package_reviewed'', PBool (cov_reviewed c)),
     (''risky_package_approval_id'', PStr (cov_approval_id c)), (''checked_components'', PList (map dump_row (cov_checked c))),
     (''unresolved_components'', PList (map dump_gap (cov_unresolved c))), (''placement_missing_components'', PList (map dump_gap (cov_placement_missing c))),
     (''risky_components'', PList (map dump_row (cov_risky c))), (''blocked_components'', PList (map dump_row (cov_blocked c)))]"

definition dump_erc :: "erc_evidence \<Rightarrow> pyval" where
  "dump_erc e = PDict [(''status'', PStr (evidence_status_value (ee_status e))), (''design_state_hash'', PStr (ee_design_state_hash e)),
     (''passed'', PBool (ee_passed e)), (''total_errors'', dump_nat (ee_total_errors e)), (''total_warnings'', dump_nat (ee_total_warnings e)),
     (''total_info'', dump_nat (ee_total_info e))]"

definition dump_drc :: "drc_evidence \<Rightarrow> pyval" where
  "dump_drc e = PDict [(''status'', PStr (evidence_status_value (de_status e))), (''design_state_hash'', PStr (de_design_state_hash e)),
     (''passed'', PBool (de_passed e)), (''total_violations'', dump_nat (de_total_violations e)), (''fab_profile'', PStr (de_fab_profile e))]"

definition dump_review :: "review_evidence \<Rightarrow> pyval" where
  "dump_review e = PDict [(''schema_version'', PStr ''1.0''), (''status'', PStr (rev_status e)), (''review_session_id'', PStr (rev_session_id e)),
     (''decision_id'', PStr (rev_decision_id e)), (''decision'', PStr (rev_decision e)), (''reviewer_id'', PStr (rev_reviewer_id e)),
     (''decided_at'', PStr (rev_decided_at e)), (''reason'', PStr (rev_reason e)), (''waiver_notes'', PStr (rev_waiver_notes e)),
     (''design_state_hash'', PStr (rev_design_state_hash e)), (''approval_id'', PStr (rev_approval_id e)), (''current'', PBool (rev_current e)),
     (''approval_id_matched'', PBool (rev_approval_id_matched e)), (''checklist_results'', PDict (map (\<lambda>(k, v). (k, PStr v)) (rev_checklist e)))]"

definition RELEASE_GATE_VERSION :: string where
  "RELEASE_GATE_VERSION = ''2.1''"

record evidence_identity =
  id_gate_version :: string
  id_design_state_hash :: string
  id_erc :: erc_evidence
  id_drc :: drc_evidence
  id_component_coverage :: component_coverage
  id_policy :: fab_profile_policy
  id_engineering_review :: "review_evidence option"
  id_evidence_identity_hash :: string

definition dump_identity :: "string \<Rightarrow> erc_evidence \<Rightarrow> drc_evidence \<Rightarrow> component_coverage \<Rightarrow> fab_profile_policy \<Rightarrow> review_evidence option \<Rightarrow> pyval" where
  "dump_identity h erc drc coverage policy review =
     PDict ([(''gate_version'', PStr RELEASE_GATE_VERSION), (''design_state_hash'', PStr h), (''erc'', dump_erc erc), (''drc'', dump_drc drc),
       (''component_coverage'', dump_coverage coverage),
       (''fab_profile_policy'', PDict [(''status'', PStr (evidence_status_value (pol_status policy))), (''fab_profile'', PStr (pol_fab_profile policy)),
          (''skip_reason'', PStr (pol_skip_reason policy)), (''skip_approval_id'', PStr (pol_skip_approval_id policy))])]
       @ (case review of None \<Rightarrow> [] | Some r \<Rightarrow> [(''engineering_review'', dump_review r)]))"

definition build_release_evidence_identity ::
  "release_env \<Rightarrow> string \<Rightarrow> erc_evidence \<Rightarrow> drc_evidence \<Rightarrow> component_coverage \<Rightarrow> fab_profile_policy \<Rightarrow> review_evidence option \<Rightarrow> evidence_identity" where
  "build_release_evidence_identity ev h erc drc coverage policy review =
     \<lparr> id_gate_version = RELEASE_GATE_VERSION, id_design_state_hash = h, id_erc = erc, id_drc = drc, id_component_coverage = coverage, id_policy = policy,
       id_engineering_review = review, id_evidence_identity_hash = sha256_json ev (dump_identity h erc drc coverage policy review) \<rparr>"

record approval_binding =
  ab_approval_id :: string
  ab_gate_version :: string
  ab_evidence_identity_hash :: string
  ab_approval_binding_hash :: string

definition bind_release_approval ::
  "release_env \<Rightarrow> (string, approval_binding) dict \<Rightarrow> string \<Rightarrow> evidence_identity \<Rightarrow> (approval_binding \<times> (string, approval_binding) dict) result" where
  "bind_release_approval ev store approval_id identity =
     (let normalized = strip approval_id; evidence_hash = id_evidence_identity_hash identity in
      if normalized = [] then Inl (ValueError ''approval_id is required for release-export operations'')
      else if evidence_hash = [] then Inl (ValueError ''release evidence identity hash is required before approval'')
      else (case dict_get store normalized of
              Some existing \<Rightarrow>
                if ab_evidence_identity_hash existing \<noteq> evidence_hash
                then Inl (ValueError (''approval_id '' @ sq @ normalized @ sq @ '' is already bound to different release evidence''))
                else Inr (existing, store)
            | None \<Rightarrow>
                (let gate_version = (if id_gate_version identity \<noteq> [] then id_gate_version identity else RELEASE_GATE_VERSION);
                     record = \<lparr> ab_approval_id = normalized, ab_gate_version = gate_version, ab_evidence_identity_hash = evidence_hash,
                       ab_approval_binding_hash = sha256_json ev (PDict [(''approval_id'', PStr normalized), (''gate_version'', PStr gate_version),
                         (''evidence_identity_hash'', PStr evidence_hash)]) \<rparr>
                 in Inr (record, dict_set normalized record store))))"

section \<open>A session: validation and the gate\<close>

record release_gate_record =
  rg_approval_id :: string
  rg_approval_binding :: approval_binding
  rg_validation :: "validation_view option"
  rg_component_coverage :: component_coverage
  rg_fab_profile_policy :: fab_profile_policy
  rg_engineering_review :: review_evidence
  rg_evidence_identity :: evidence_identity

record release_session =
  ls_designs :: "(string, design) dict"
  ls_erc_evidence :: "(string, erc_evidence) dict"
  ls_drc_evidence :: "(string, drc_evidence) dict"
  ls_validation_status :: "(string, validation_view) dict"
  ls_release_approval_bindings :: "(string, approval_binding) dict"
  ls_release_approvals :: "(string, release_gate_record) dict"
  ls_reviews :: review_state

definition release_no_design :: "string \<Rightarrow> py_error" where
  "release_no_design design_name = ValueError (''Design '' @ sq @ design_name @ sq @ '' not found'')"

definition record_erc_evidence :: "release_env \<Rightarrow> string \<Rightarrow> design \<Rightarrow> erc_result \<Rightarrow> release_session \<Rightarrow> release_session" where
  "record_erc_evidence ev design_name d r s =
     s\<lparr> ls_erc_evidence := dict_set design_name
          \<lparr> ee_status = (if passed r then EVIDENCE_PASS else EVIDENCE_FAIL), ee_design_state_hash = release_design_state_hash ev d, ee_passed = passed r,
            ee_total_errors = res_total_errors r, ee_total_warnings = res_total_warnings r, ee_total_info = res_total_info r \<rparr> (ls_erc_evidence s) \<rparr>"

definition record_drc_evidence :: "release_env \<Rightarrow> string \<Rightarrow> design \<Rightarrow> bool \<times> nat \<Rightarrow> string option \<Rightarrow> release_session \<Rightarrow> release_session" where
  "record_drc_evidence ev design_name d r fab_profile s =
     s\<lparr> ls_drc_evidence := dict_set design_name
          \<lparr> de_status = (if fst r then EVIDENCE_PASS else EVIDENCE_FAIL), de_design_state_hash = release_design_state_hash ev d, de_passed = fst r,
            de_total_violations = snd r, de_fab_profile = strip (case fab_profile of None \<Rightarrow> [] | Some p \<Rightarrow> p) \<rparr> (ls_drc_evidence s) \<rparr>"

definition record_validation_status :: "release_env \<Rightarrow> string \<Rightarrow> design \<Rightarrow> release_session \<Rightarrow> release_session" where
  "record_validation_status ev design_name d s =
     s\<lparr> ls_validation_status := dict_set design_name
          \<lparr> vv_design_state_hash = release_design_state_hash ev d, vv_erc = dict_get (ls_erc_evidence s) design_name,
            vv_drc = dict_get (ls_drc_evidence s) design_name \<rparr> (ls_validation_status s) \<rparr>"

definition tool_erc_validate :: "release_env \<Rightarrow> string \<Rightarrow> release_session \<Rightarrow> release_session result" where
  "tool_erc_validate ev design_name s =
     (case dict_get (ls_designs s) design_name of
        None \<Rightarrow> Inl (release_no_design design_name)
      | Some d \<Rightarrow>
          Inr (record_validation_status ev design_name d (record_erc_evidence ev design_name d (erc_run (le_erc014 ev) (le_erc028 ev) d) s)))"

definition tool_drc_run :: "release_env \<Rightarrow> string \<Rightarrow> string option \<Rightarrow> release_session \<Rightarrow> release_session result" where
  "tool_drc_run ev design_name fab_profile s =
     (case dict_get (ls_designs s) design_name of
        None \<Rightarrow> Inl (release_no_design design_name)
      | Some d \<Rightarrow>
          rbind (le_drc ev (if fab_profile = Some [] then None else fab_profile) d) (\<lambda>r.
            Inr (record_validation_status ev design_name d (record_drc_evidence ev design_name d r fab_profile s))))"

text \<open>The optional arguments of an export.\<close>

record release_request =
  rq_approval_id :: "string option"
  rq_session_id :: string
  rq_skip_reason :: "string option"
  rq_skip_approval_id :: "string option"
  rq_risky_reviewed :: bool
  rq_risky_approval_id :: "string option"

definition or_blank :: "string option \<Rightarrow> string" where
  "or_blank x = (case x of None \<Rightarrow> [] | Some t \<Rightarrow> t)"

text \<open>The evidence the gate collects before it binds the approval.\<close>

definition collect_release_evidence ::
  "release_env \<Rightarrow> string \<Rightarrow> release_request \<Rightarrow> design \<Rightarrow> review_evidence \<Rightarrow> release_session \<Rightarrow> evidence_identity result" where
  "collect_release_evidence ev design_name rq d review s =
     (let current_hash = release_design_state_hash ev d in
      if rev_status review \<in> {''rejected'', ''repair-requested'', ''rolled-back''} then
        Inl (release_error design_name ('' is blocked by engineering review status='' @ rev_status review))
      else if rev_status review = ''stale-review'' \<and> rev_approval_id_matched review then
        Inl (release_error design_name '' received a stale engineering review approval'')
      else
        rbind (require_current_validation design_name current_hash (dict_get (ls_validation_status s) design_name)) (\<lambda>(erc, drc).
          let coverage = build_component_coverage ev d (rq_risky_reviewed rq) (strip (or_blank (rq_risky_approval_id rq))) in
          rbind (require_complete_component_coverage design_name coverage) (\<lambda>_.
            let policy = build_fab_profile_policy (de_fab_profile drc) (or_blank (rq_skip_reason rq)) (or_blank (rq_skip_approval_id rq)) in
            rbind (require_approved_fab_profile_policy design_name policy) (\<lambda>_.
              Inr (build_release_evidence_identity ev current_hash erc drc coverage policy (Some review))))))"

definition require_release_gate ::
  "release_env \<Rightarrow> string \<Rightarrow> release_request \<Rightarrow> release_session \<Rightarrow> release_gate_record result \<times> release_session" where
  "require_release_gate ev design_name rq s =
     (if strip (or_blank (rq_approval_id rq)) = [] then (Inl (ValueError ''approval_id is required for release-export operations''), s)
      else case dict_get (ls_designs s) design_name of
        None \<Rightarrow> (Inl (release_no_design design_name), s)
      | Some d \<Rightarrow>
          (let (sessions, reviews) = review_sessions_for_design_session (rq_session_id rq) (ls_reviews s);
               approval_id = or_blank (rq_approval_id rq);
               s1 = s\<lparr> ls_reviews := reviews \<rparr>;
               review = resolve_engineering_review_evidence sessions design_name (release_design_state_hash ev d) approval_id in
           case rbind (collect_release_evidence ev design_name rq d review s1) (\<lambda>identity.
                  rbind (bind_release_approval ev (ls_release_approval_bindings s1) approval_id identity) (\<lambda>(binding, bindings).
                    Inr (\<lparr> rg_approval_id = strip approval_id, rg_approval_binding = binding,
                           rg_validation = dict_get (ls_validation_status s1) design_name, rg_component_coverage = id_component_coverage identity,
                           rg_fab_profile_policy = id_policy identity, rg_engineering_review = review, rg_evidence_identity = identity \<rparr>, bindings))) of
             Inl e \<Rightarrow> (Inl e, s1)
           | Inr (gate, bindings) \<Rightarrow>
               (Inr gate, s1\<lparr> ls_release_approval_bindings := bindings, ls_release_approvals := dict_set design_name gate (ls_release_approvals s1) \<rparr>)))"

text \<open>What may happen in a session: any design may be stored or dropped, any review may change.\<close>

datatype release_op =
    Set_Design string design
  | Drop_Design string
  | Set_Reviews review_state
  | Erc_Validate string
  | Drc_Run string "string option"
  | Release_Request string release_request

fun release_step :: "release_env \<Rightarrow> release_op \<Rightarrow> release_session \<Rightarrow> release_session" where
  "release_step ev (Set_Design n d) s = s\<lparr> ls_designs := dict_set n d (ls_designs s) \<rparr>"
| "release_step ev (Drop_Design n) s = s\<lparr> ls_designs := dict_pop n (ls_designs s) \<rparr>"
| "release_step ev (Set_Reviews rv) s = s\<lparr> ls_reviews := rv \<rparr>"
| "release_step ev (Erc_Validate n) s = (case tool_erc_validate ev n s of Inl _ \<Rightarrow> s | Inr s' \<Rightarrow> s')"
| "release_step ev (Drc_Run n p) s = (case tool_drc_run ev n p s of Inl _ \<Rightarrow> s | Inr s' \<Rightarrow> s')"
| "release_step ev (Release_Request n rq) s = snd (require_release_gate ev n rq s)"

definition release_run :: "release_env \<Rightarrow> release_op list \<Rightarrow> release_session \<Rightarrow> release_session" where
  "release_run ev ops s = fold (release_step ev) ops s"

definition fresh_release_session :: "review_state \<Rightarrow> release_session" where
  "fresh_release_session rv = \<lparr> ls_designs = [], ls_erc_evidence = [], ls_drc_evidence = [], ls_validation_status = [],
     ls_release_approval_bindings = [], ls_release_approvals = [], ls_reviews = rv \<rparr>"

section \<open>Evidence is what it says\<close>

definition dict_all :: "('k \<Rightarrow> 'v \<Rightarrow> bool) \<Rightarrow> ('k, 'v) dict \<Rightarrow> bool" where
  "dict_all P d \<longleftrightarrow> (\<forall>k v. dict_get d k = Some v \<longrightarrow> P k v)"

lemma dict_all_set: "dict_all P d \<Longrightarrow> P k v \<Longrightarrow> dict_all P (dict_set k v d)"
  by (simp add: dict_all_def pydict.get_put)

lemma dict_all_get: "dict_all P d \<Longrightarrow> dict_get d k = Some v \<Longrightarrow> P k v"
  by (simp add: dict_all_def)

definition erc_evidence_ok :: "release_env \<Rightarrow> erc_evidence \<Rightarrow> bool" where
  "erc_evidence_ok ev e \<longleftrightarrow> (\<exists>d. ee_design_state_hash e = release_design_state_hash ev d
     \<and> ee_passed e = passed (erc_run (le_erc014 ev) (le_erc028 ev) d))"

definition drc_evidence_ok :: "release_env \<Rightarrow> drc_evidence \<Rightarrow> bool" where
  "drc_evidence_ok ev e \<longleftrightarrow> (\<exists>d fab_profile total. de_design_state_hash e = release_design_state_hash ev d
     \<and> le_drc ev fab_profile d = Inr (de_passed e, total) \<and> de_fab_profile e = strip (or_blank fab_profile))"

definition validation_ok :: "release_env \<Rightarrow> validation_view \<Rightarrow> bool" where
  "validation_ok ev v \<longleftrightarrow> (\<forall>e. vv_erc v = Some e \<longrightarrow> erc_evidence_ok ev e) \<and> (\<forall>e. vv_drc v = Some e \<longrightarrow> drc_evidence_ok ev e)"

definition release_inv :: "release_env \<Rightarrow> release_session \<Rightarrow> bool" where
  "release_inv ev s \<longleftrightarrow> dict_all (\<lambda>_. erc_evidence_ok ev) (ls_erc_evidence s) \<and> dict_all (\<lambda>_. drc_evidence_ok ev) (ls_drc_evidence s)
     \<and> dict_all (\<lambda>_. validation_ok ev) (ls_validation_status s)"

lemma record_validation_inv: "release_inv ev s \<Longrightarrow> release_inv ev (record_validation_status ev n d s)"
  by (auto simp: release_inv_def record_validation_status_def validation_ok_def intro!: dict_all_set dest: dict_all_get)

lemma erc_validate_inv: "release_inv ev s \<Longrightarrow> tool_erc_validate ev n s = Inr s' \<Longrightarrow> release_inv ev s'"
proof -
  assume inv: "release_inv ev s" and run: "tool_erc_validate ev n s = Inr s'"
  obtain d where s': "s' = record_validation_status ev n d (record_erc_evidence ev n d (erc_run (le_erc014 ev) (le_erc028 ev) d) s)"
    using run by (auto simp: tool_erc_validate_def split: option.splits)
  have "release_inv ev (record_erc_evidence ev n d (erc_run (le_erc014 ev) (le_erc028 ev) d) s)"
    using inv by (auto simp: release_inv_def record_erc_evidence_def erc_evidence_ok_def intro!: dict_all_set)
  then show ?thesis unfolding s' by (rule record_validation_inv)
qed

lemma drc_run_inv: "release_inv ev s \<Longrightarrow> tool_drc_run ev n p s = Inr s' \<Longrightarrow> release_inv ev s'"
proof -
  assume inv: "release_inv ev s" and run: "tool_drc_run ev n p s = Inr s'"
  define p' where "p' = (if p = Some [] then None else p)"
  obtain d r where r: "le_drc ev p' d = Inr r" and s': "s' = record_validation_status ev n d (record_drc_evidence ev n d r p s)"
    using run by (auto simp: tool_drc_run_def rbind_eq_Inr p'_def split: option.splits)
  have "drc_evidence_ok ev \<lparr> de_status = (if fst r then EVIDENCE_PASS else EVIDENCE_FAIL), de_design_state_hash = release_design_state_hash ev d,
      de_passed = fst r, de_total_violations = snd r, de_fab_profile = strip (case p of None \<Rightarrow> [] | Some x \<Rightarrow> x) \<rparr>"
    unfolding drc_evidence_ok_def using r by (intro exI [of _ d] exI [of _ p'] exI [of _ "snd r"]) (auto simp: p'_def or_blank_def split: option.splits)
  then have "release_inv ev (record_drc_evidence ev n d r p s)"
    using inv by (simp add: release_inv_def record_drc_evidence_def dict_all_set)
  then show ?thesis unfolding s' by (rule record_validation_inv)
qed

lemma gate_fields:
  "require_release_gate ev n rq s = (r, s') \<Longrightarrow> ls_erc_evidence s' = ls_erc_evidence s \<and> ls_drc_evidence s' = ls_drc_evidence s
     \<and> ls_validation_status s' = ls_validation_status s \<and> ls_designs s' = ls_designs s"
  by (auto simp: require_release_gate_def Let_def split: if_splits option.splits prod.splits sum.splits)

lemma release_inv_cong: "release_inv ev s \<Longrightarrow> ls_erc_evidence s' = ls_erc_evidence s \<Longrightarrow> ls_drc_evidence s' = ls_drc_evidence s \<Longrightarrow>
    ls_validation_status s' = ls_validation_status s \<Longrightarrow> release_inv ev s'"
  by (simp add: release_inv_def)

lemma release_step_inv:
  assumes inv: "release_inv ev s"
  shows "release_inv ev (release_step ev op s)"
proof (cases op)
  case (Erc_Validate n)
  then show ?thesis using inv erc_validate_inv [OF inv, of n] by (simp split: sum.splits)
next
  case (Drc_Run n p)
  then show ?thesis using inv drc_run_inv [OF inv, of n p] by (simp split: sum.splits)
next
  case (Release_Request n rq)
  obtain r s' where g: "require_release_gate ev n rq s = (r, s')" by (cases "require_release_gate ev n rq s")
  show ?thesis using gate_fields [OF g] by (intro release_inv_cong [OF inv]) (simp_all add: Release_Request g)
qed (auto intro: release_inv_cong [OF inv])

lemma release_run_inv: "release_inv ev s \<Longrightarrow> release_inv ev (release_run ev ops s)"
  unfolding release_run_def by (induction ops arbitrary: s) (auto intro: release_step_inv)

lemma fresh_inv: "release_inv ev (fresh_release_session rv)"
  by (simp add: release_inv_def fresh_release_session_def dict_all_def)

section \<open>What a passed gate means\<close>

definition component_covered :: "release_env \<Rightarrow> release_request \<Rightarrow> design \<Rightarrow> component \<Rightarrow> bool" where
  "component_covered ev rq d c \<longleftrightarrow> is_placed d c \<and> (\<exists>fp. fst (component_geometry ev c) = Some fp \<and> fp_pads fp \<noteq> []
     \<and> \<not> prr_blocked (validate_footprint_proof None None True True (component_proof ev c fp (snd (component_geometry ev c))))
     \<and> (let approval_id = strip (or_blank (rq_risky_approval_id rq)); authorized = rq_risky_reviewed rq \<and> strip approval_id \<noteq> []
        in \<not> rk_blocked (validate_risky_package_policy (component_proof ev c fp (snd (component_geometry ev c))) authorized (if authorized then approval_id else []))))"

lemma placed_gap_Nil: "map g (filter P xs) = [] \<longleftrightarrow> (\<forall>x\<in>set xs. \<not> P x)"
  by (auto simp: filter_empty_conv)

lemma coverage_pass_iff:
  "cov_status (build_component_coverage ev d reviewed approval_id) = EVIDENCE_PASS \<longleftrightarrow>
     (\<forall>c\<in>set (populated_components d). is_placed d c \<and> (\<exists>r. coverage_row ev reviewed approval_id c = Some r
        \<and> \<not> cr_proof_blocked r \<and> \<not> cr_risky_policy_blocked r))"
proof -
  have row: "coverage_row ev reviewed approval_id c = None \<longleftrightarrow> usable_footprint ev c = None" for c by (simp add: coverage_row_def)
  have "cov_status (build_component_coverage ev d reviewed approval_id) = EVIDENCE_PASS \<longleftrightarrow>
      (\<forall>c\<in>set (populated_components d). usable_footprint ev c \<noteq> None) \<and> (\<forall>c\<in>set (populated_components d). is_placed d c)
      \<and> (\<forall>r\<in>set (option_list (map (coverage_row ev reviewed approval_id) (populated_components d))). \<not> cr_proof_blocked r \<and> \<not> cr_risky_policy_blocked r)"
    by (auto simp: build_component_coverage_def component_coverage_status_def Let_def placed_gap_Nil filter_empty_conv)
  also have "\<dots> \<longleftrightarrow> (\<forall>c\<in>set (populated_components d). is_placed d c \<and> (\<exists>r. coverage_row ev reviewed approval_id c = Some r
        \<and> \<not> cr_proof_blocked r \<and> \<not> cr_risky_policy_blocked r))"
    unfolding row [symmetric] by (force simp: image_iff)
  finally show ?thesis .
qed

lemma coverage_row_covered:
  "coverage_row ev (rq_risky_reviewed rq) (strip (or_blank (rq_risky_approval_id rq))) c = Some r \<Longrightarrow> is_placed d c \<Longrightarrow>
   \<not> cr_proof_blocked r \<Longrightarrow> \<not> cr_risky_policy_blocked r \<Longrightarrow> component_covered ev rq d c"
  by (auto simp: coverage_row_def usable_footprint_def component_covered_def component_proof_row_def Let_def split: option.splits if_splits)

lemma set_populated: "set (populated_components d) = {c \<in> set (dict_values (des_components d)). \<not> comp_dnp c}"
  by (auto simp: populated_components_def)

lemma collect_evidence_Inr:
  assumes "collect_release_evidence ev n rq d review s = Inr identity"
  obtains v erc drc where "dict_get (ls_validation_status s) n = Some v" "vv_erc v = Some erc" "vv_drc v = Some drc"
    "ee_design_state_hash erc = release_design_state_hash ev d" "ee_passed erc" "de_design_state_hash drc = release_design_state_hash ev d" "de_passed drc"
    "cov_status (build_component_coverage ev d (rq_risky_reviewed rq) (strip (or_blank (rq_risky_approval_id rq)))) = EVIDENCE_PASS"
    "pol_status (build_fab_profile_policy (de_fab_profile drc) (or_blank (rq_skip_reason rq)) (or_blank (rq_skip_approval_id rq))) \<in> {EVIDENCE_PASS, SKIP_APPROVED}"
    "rev_status review \<notin> {''rejected'', ''repair-requested'', ''rolled-back''}"
    "\<not> (rev_status review = ''stale-review'' \<and> rev_approval_id_matched review)"
    "identity = build_release_evidence_identity ev (release_design_state_hash ev d) erc drc
       (build_component_coverage ev d (rq_risky_reviewed rq) (strip (or_blank (rq_risky_approval_id rq))))
       (build_fab_profile_policy (de_fab_profile drc) (or_blank (rq_skip_reason rq)) (or_blank (rq_skip_approval_id rq))) (Some review)"
proof -
  have pol: "pol_status (build_fab_profile_policy a b c) \<noteq> SKIP_UNAPPROVED \<Longrightarrow> pol_status (build_fab_profile_policy a b c) \<noteq> MISSING_EVIDENCE \<Longrightarrow>
      pol_status (build_fab_profile_policy a b c) \<in> {EVIDENCE_PASS, SKIP_APPROVED}" for a b c
    by (auto simp: build_fab_profile_policy_def Let_def split: if_splits)
  show thesis
    using assms that pol
    by (auto simp: collect_release_evidence_def Let_def rbind_eq_Inr require_current_validation_def require_complete_component_coverage_def
        require_approved_fab_profile_policy_def split: if_splits option.splits)
qed

lemma bind_Inr:
  assumes "bind_release_approval ev store approval_id identity = Inr (b, store')"
  shows "strip approval_id \<noteq> []" "dict_get store' (strip approval_id) = Some b" "ab_evidence_identity_hash b = id_evidence_identity_hash identity"
    "dict_get store k = Some x \<Longrightarrow> dict_get store' k = Some x"
  using assms by (auto simp: bind_release_approval_def Let_def pydict.get_put split: if_splits option.splits)

lemma gate_Inr:
  assumes "require_release_gate ev n rq s = (Inr gate, s')"
  obtains d review identity binding bindings where "dict_get (ls_designs s) n = Some d"
    "collect_release_evidence ev n rq d review (s\<lparr> ls_reviews := snd (review_sessions_for_design_session (rq_session_id rq) (ls_reviews s)) \<rparr>) = Inr identity"
    "bind_release_approval ev (ls_release_approval_bindings s) (or_blank (rq_approval_id rq)) identity = Inr (binding, bindings)"
    "ls_release_approval_bindings s' = bindings" "ls_designs s' = ls_designs s" "rg_approval_binding gate = binding" "rg_evidence_identity gate = identity"
    "review = resolve_engineering_review_evidence (fst (review_sessions_for_design_session (rq_session_id rq) (ls_reviews s))) n
       (release_design_state_hash ev d) (or_blank (rq_approval_id rq))" "rg_engineering_review gate = review"
  using assms
  by (auto simp: require_release_gate_def Let_def rbind_eq_Inr split: if_splits option.splits prod.splits sum.splits)

lemma gate_keeps_bindings:
  "dict_get (ls_release_approval_bindings s) k = Some b \<Longrightarrow> dict_get (ls_release_approval_bindings (snd (require_release_gate ev n rq s))) k = Some b"
proof (cases "require_release_gate ev n rq s")
  case (Pair r s')
  assume b: "dict_get (ls_release_approval_bindings s) k = Some b"
  show ?thesis
  proof (cases r)
    case (Inl e)
    then have "ls_release_approval_bindings s' = ls_release_approval_bindings s"
      using Pair by (auto simp: require_release_gate_def Let_def split: if_splits option.splits prod.splits sum.splits)
    then show ?thesis using b Pair by simp
  next
    case (Inr gate)
    from gate_Inr [OF Pair [unfolded Inr]] bind_Inr(4) b show ?thesis by (metis Pair snd_conv)
  qed
qed

lemma release_step_keeps_bindings:
  assumes "dict_get (ls_release_approval_bindings s) k = Some b"
  shows "dict_get (ls_release_approval_bindings (release_step ev op s)) k = Some b"
proof (cases op)
  case (Erc_Validate n)
  then show ?thesis using assms
    by (auto simp: tool_erc_validate_def record_validation_status_def record_erc_evidence_def split: option.splits)
next
  case (Drc_Run n p)
  then show ?thesis using assms
    by (auto simp: tool_drc_run_def record_validation_status_def record_drc_evidence_def rbind_eq_Inr split: option.splits sum.splits)
next
  case (Release_Request n rq)
  then show ?thesis using gate_keeps_bindings [OF assms] by simp
qed (use assms in simp_all)

lemma release_run_keeps_bindings:
  "dict_get (ls_release_approval_bindings s) k = Some b \<Longrightarrow> dict_get (ls_release_approval_bindings (release_run ev ops s)) k = Some b"
  unfolding release_run_def by (induction ops arbitrary: s) (auto intro: release_step_keeps_bindings)

lemma same_structure: "inj (le_sha256 ev) \<Longrightarrow> release_design_state_hash ev d = release_design_state_hash ev d' \<Longrightarrow>
    sort_keys (design_state ev d) = sort_keys (design_state ev d')"
  by (auto simp: release_design_state_hash_def sha256_json_def dest: injD)

lemma approved_policy: "pol_status (build_fab_profile_policy p a b) \<in> {EVIDENCE_PASS, SKIP_APPROVED} \<Longrightarrow>
    strip p \<noteq> [] \<or> strip a \<noteq> [] \<and> strip b \<noteq> []"
  by (simp add: build_fab_profile_policy_def Let_def split: if_splits)

lemma blank_strip: "strip [] = []"
  by (simp add: strip_def)

lemma fab_or_skip: "pol_status (build_fab_profile_policy p a b) \<in> {EVIDENCE_PASS, SKIP_APPROVED} \<Longrightarrow> p = strip q \<Longrightarrow>
    strip q \<noteq> [] \<or> strip a \<noteq> [] \<and> strip b \<noteq> []"
  using approved_policy [of p a b] blank_strip by (cases "strip q") auto

text \<open>
  C8: When the gate lets a release pass, whatever happened in the session before: the rules and a
  DRC run passed on a design of the very structure now released, the DRC against a fabrication
  profile or an approved skip; every populated component is placed and has a footprint with an
  accepted proof and, if risky, an accepted policy; no current review blocks; and the approval is
  bound to this evidence. Hashes of different JSON values are taken to differ.
\<close>

theorem release_gate_sound:
  assumes "inj (le_sha256 ev)" "require_release_gate ev n rq (release_run ev ops (fresh_release_session rv)) = (Inr gate, s')"
  shows "\<exists>d. dict_get (ls_designs s') n = Some d
    \<and> (\<exists>d0. sort_keys (design_state ev d0) = sort_keys (design_state ev d) \<and> passed (erc_run (le_erc014 ev) (le_erc028 ev) d0))
    \<and> (\<exists>d0 fab_profile total. sort_keys (design_state ev d0) = sort_keys (design_state ev d) \<and> le_drc ev fab_profile d0 = Inr (True, total)
        \<and> (strip (or_blank fab_profile) \<noteq> [] \<or> strip (or_blank (rq_skip_reason rq)) \<noteq> [] \<and> strip (or_blank (rq_skip_approval_id rq)) \<noteq> []))
    \<and> (\<forall>c\<in>set (dict_values (des_components d)). \<not> comp_dnp c \<longrightarrow> component_covered ev rq d c)
    \<and> rev_status (rg_engineering_review gate) \<notin> {''rejected'', ''repair-requested'', ''rolled-back''}
    \<and> strip (or_blank (rq_approval_id rq)) \<noteq> []
    \<and> dict_get (ls_release_approval_bindings s') (strip (or_blank (rq_approval_id rq))) = Some (rg_approval_binding gate)
    \<and> ab_evidence_identity_hash (rg_approval_binding gate) = id_evidence_identity_hash (rg_evidence_identity gate)"
proof -
  let ?s = "release_run ev ops (fresh_release_session rv)"
  have inv: "release_inv ev ?s" by (intro release_run_inv fresh_inv)
  obtain d review identity binding bindings where d: "dict_get (ls_designs ?s) n = Some d"
    and c: "collect_release_evidence ev n rq d review (?s\<lparr> ls_reviews := snd (review_sessions_for_design_session (rq_session_id rq) (ls_reviews ?s)) \<rparr>) = Inr identity"
    and b: "bind_release_approval ev (ls_release_approval_bindings ?s) (or_blank (rq_approval_id rq)) identity = Inr (binding, bindings)"
    and s': "ls_release_approval_bindings s' = bindings" "ls_designs s' = ls_designs ?s" "rg_approval_binding gate = binding" "rg_evidence_identity gate = identity"
      "rg_engineering_review gate = review"
    using gate_Inr [OF assms(2)] by metis
  define s2 where "s2 = ?s\<lparr> ls_reviews := snd (review_sessions_for_design_session (rq_session_id rq) (ls_reviews ?s)) \<rparr>"
  have ses: "ls_validation_status s2 = ls_validation_status ?s" by (simp add: s2_def)
  note ev = collect_evidence_Inr [OF c [folded s2_def]]
  obtain v erc drc where vs: "dict_get (ls_validation_status s2) n = Some v" and v: "vv_erc v = Some erc" "vv_drc v = Some drc"
    and erc: "ee_design_state_hash erc = release_design_state_hash ev d" "ee_passed erc"
    and drc: "de_design_state_hash drc = release_design_state_hash ev d" "de_passed drc"
    and cov: "cov_status (build_component_coverage ev d (rq_risky_reviewed rq) (strip (or_blank (rq_risky_approval_id rq)))) = EVIDENCE_PASS"
    and pol: "pol_status (build_fab_profile_policy (de_fab_profile drc) (or_blank (rq_skip_reason rq)) (or_blank (rq_skip_approval_id rq))) \<in> {EVIDENCE_PASS, SKIP_APPROVED}"
    and rev: "rev_status review \<notin> {''rejected'', ''repair-requested'', ''rolled-back''}"
  proof (rule ev)
    fix v erc drc
    assume a: "dict_get (ls_validation_status s2) n = Some v" "vv_erc v = Some erc" "vv_drc v = Some drc"
      "ee_design_state_hash erc = release_design_state_hash ev d" "ee_passed erc" "de_design_state_hash drc = release_design_state_hash ev d" "de_passed drc"
      "cov_status (build_component_coverage ev d (rq_risky_reviewed rq) (strip (or_blank (rq_risky_approval_id rq)))) = EVIDENCE_PASS"
      "pol_status (build_fab_profile_policy (de_fab_profile drc) (or_blank (rq_skip_reason rq)) (or_blank (rq_skip_approval_id rq))) \<in> {EVIDENCE_PASS, SKIP_APPROVED}"
      "rev_status review \<notin> {''rejected'', ''repair-requested'', ''rolled-back''}"
    show thesis by (rule that [OF a])
  qed
  have ok: "erc_evidence_ok ev erc" "drc_evidence_ok ev drc"
    using dict_all_get [of "\<lambda>_. validation_ok ev", OF _ vs [unfolded ses]] inv v(1,2) by (auto simp: release_inv_def validation_ok_def)
  have one: "\<exists>d0. sort_keys (design_state ev d0) = sort_keys (design_state ev d) \<and> passed (erc_run (le_erc014 ev) (le_erc028 ev) d0)"
    using ok(1) erc same_structure [OF assms(1)] unfolding erc_evidence_ok_def by metis
  obtain d0 fab_profile total where r: "de_design_state_hash drc = release_design_state_hash ev d0" "le_drc ev fab_profile d0 = Inr (de_passed drc, total)"
      "de_fab_profile drc = strip (or_blank fab_profile)"
    using ok(2) unfolding drc_evidence_ok_def by blast
  have "strip (or_blank fab_profile) \<noteq> [] \<or> strip (or_blank (rq_skip_reason rq)) \<noteq> [] \<and> strip (or_blank (rq_skip_approval_id rq)) \<noteq> []"
    by (rule fab_or_skip [OF pol r(3)])
  moreover have "sort_keys (design_state ev d0) = sort_keys (design_state ev d)" by (rule same_structure [OF assms(1) trans [OF r(1) [symmetric] drc(1)]])
  ultimately have two: "\<exists>d0 fab_profile total. sort_keys (design_state ev d0) = sort_keys (design_state ev d) \<and> le_drc ev fab_profile d0 = Inr (True, total)
        \<and> (strip (or_blank fab_profile) \<noteq> [] \<or> strip (or_blank (rq_skip_reason rq)) \<noteq> [] \<and> strip (or_blank (rq_skip_approval_id rq)) \<noteq> [])"
    using r(2) drc(2) by auto
  have three: "component_covered ev rq d c" if "c \<in> set (dict_values (des_components d))" "\<not> comp_dnp c" for c
    using cov that unfolding coverage_pass_iff set_populated by (blast intro: coverage_row_covered)
  show ?thesis using d one two three rev bind_Inr(1-3) [OF b] s' by simp
qed

section \<open>An approval releases one structure\<close>

lemma binding_identity:
  assumes g: "require_release_gate ev n rq s = (Inr gate, s')"
  obtains d erc drc coverage policy review where "dict_get (ls_designs s') n = Some d"
    "dict_get (ls_release_approval_bindings s') (strip (or_blank (rq_approval_id rq))) = Some (rg_approval_binding gate)"
    "ab_evidence_identity_hash (rg_approval_binding gate)
       = sha256_json ev (dump_identity (release_design_state_hash ev d) erc drc coverage policy review)"
proof -
  obtain d review identity binding bindings where a: "dict_get (ls_designs s) n = Some d"
    "collect_release_evidence ev n rq d review (s\<lparr> ls_reviews := snd (review_sessions_for_design_session (rq_session_id rq) (ls_reviews s)) \<rparr>) = Inr identity"
    and b: "bind_release_approval ev (ls_release_approval_bindings s) (or_blank (rq_approval_id rq)) identity = Inr (binding, bindings)"
    and s': "ls_release_approval_bindings s' = bindings" "ls_designs s' = ls_designs s" "rg_approval_binding gate = binding"
    using gate_Inr [OF g] by metis
  show thesis
  proof (rule collect_evidence_Inr [OF a(2)])
    fix v erc drc
    assume i: "identity = build_release_evidence_identity ev (release_design_state_hash ev d) erc drc
       (build_component_coverage ev d (rq_risky_reviewed rq) (strip (or_blank (rq_risky_approval_id rq))))
       (build_fab_profile_policy (de_fab_profile drc) (or_blank (rq_skip_reason rq)) (or_blank (rq_skip_approval_id rq))) (Some review)"
    show thesis
      by (rule that) (use a(1) s' bind_Inr(2,3) [OF b] in \<open>simp_all add: i build_release_evidence_identity_def\<close>)
  qed
qed

lemma dump_identity_hash:
  assumes "sort_keys (dump_identity h e d c p r) = sort_keys (dump_identity h' e' d' c' p' r')"
  shows "h = h'"
proof -
  have "(''design_state_hash'', PStr x) \<in> map_prod id sort_keys ` set kvs"
    if "dump_identity x e d c p r = PDict kvs" for x e d c p r kvs
    using that by (force simp: dump_identity_def image_iff)
  moreover have "v = PStr x" if "(''design_state_hash'', v) \<in> map_prod id sort_keys ` set kvs" "dump_identity x e d c p r = PDict kvs" for v x e d c p r kvs
    using that by (auto simp: dump_identity_def split: option.splits)
  moreover obtain kvs kvs' where k: "dump_identity h e d c p r = PDict kvs" "dump_identity h' e' d' c' p' r' = PDict kvs'"
    by (simp add: dump_identity_def)
  moreover have "map_prod id sort_keys ` set kvs = map_prod id sort_keys ` set kvs'"
  proof -
    have "sort_key fst (map (map_prod id sort_keys) kvs) = sort_key fst (map (map_prod id sort_keys) kvs')" using assms unfolding k by simp
    then have "set (sort_key fst (map (map_prod id sort_keys) kvs)) = set (sort_key fst (map (map_prod id sort_keys) kvs'))" by (rule arg_cong)
    then show ?thesis by simp
  qed
  ultimately show ?thesis by (metis pyval.inject(4))
qed

text \<open>
  C9: One approval releases one structure. When two requests of a session pass under the same
  approval id, whatever happened between them and whatever names they export, they are bound to the
  same evidence and the two designs agree in everything the state hash covers.
\<close>

theorem approval_releases_one_structure:
  assumes "inj (le_sha256 ev)"
    "require_release_gate ev n rq s = (Inr gate, s1)"
    "require_release_gate ev n' rq' (release_run ev ops s1) = (Inr gate', s2)"
    "strip (or_blank (rq_approval_id rq')) = strip (or_blank (rq_approval_id rq))"
  shows "rg_approval_binding gate' = rg_approval_binding gate
    \<and> (\<exists>d d'. dict_get (ls_designs s1) n = Some d \<and> dict_get (ls_designs s2) n' = Some d'
         \<and> sort_keys (design_state ev d') = sort_keys (design_state ev d))"
proof -
  obtain d e1 e2 e3 e4 e5 where a: "dict_get (ls_designs s1) n = Some d"
    "dict_get (ls_release_approval_bindings s1) (strip (or_blank (rq_approval_id rq))) = Some (rg_approval_binding gate)"
    "ab_evidence_identity_hash (rg_approval_binding gate) = sha256_json ev (dump_identity (release_design_state_hash ev d) e1 e2 e3 e4 e5)"
    by (rule binding_identity [OF assms(2)])
  obtain d' f1 f2 f3 f4 f5 where b: "dict_get (ls_designs s2) n' = Some d'"
    "dict_get (ls_release_approval_bindings s2) (strip (or_blank (rq_approval_id rq'))) = Some (rg_approval_binding gate')"
    "ab_evidence_identity_hash (rg_approval_binding gate') = sha256_json ev (dump_identity (release_design_state_hash ev d') f1 f2 f3 f4 f5)"
    by (rule binding_identity [OF assms(3)])
  have "dict_get (ls_release_approval_bindings s2) (strip (or_blank (rq_approval_id rq))) = Some (rg_approval_binding gate)"
    using gate_keeps_bindings [OF release_run_keeps_bindings [OF a(2)]] unfolding assms(3) by (metis assms(3) snd_conv)
  then have same: "rg_approval_binding gate' = rg_approval_binding gate" using b(2) assms(4) by simp
  have "sort_keys (dump_identity (release_design_state_hash ev d') f1 f2 f3 f4 f5) = sort_keys (dump_identity (release_design_state_hash ev d) e1 e2 e3 e4 e5)"
    by (rule injD [OF assms(1)]) (use a(3) b(3) same in \<open>simp add: sha256_json_def\<close>)
  from same_structure [OF assms(1) dump_identity_hash [OF this]] a(1) b(1) same show ?thesis by blast
qed

section \<open>Reviews that block\<close>

lemma sorted_rev_head:
  assumes "y \<in> set xs" "filter P (rev (sort_key k (rev xs))) = z # zs" "P y"
  shows "k y \<le> (k z :: 'b :: linorder)"
proof -
  have "sorted (map k (filter (\<lambda>x. P x) (sort_key k (rev xs))))" by (rule sorted_filter) simp
  moreover have eq: "filter P (sort_key k (rev xs)) = rev zs @ [z]" 
  proof -
    have "filter P (sort_key k (rev xs)) = rev (filter P (rev (sort_key k (rev xs))))" by (simp add: rev_filter)
    then show ?thesis using assms(2) by simp
  qed
  ultimately have "\<forall>x\<in>set (rev zs). k x \<le> k z" by (simp add: sorted_append)
  moreover have "y \<in> set (filter P (sort_key k (rev xs)))" using assms(1,3) by simp
  ultimately show ?thesis unfolding eq by auto
qed

definition decided_on :: "string \<Rightarrow> string \<Rightarrow> review_session \<Rightarrow> review_decision \<Rightarrow> bool" where
  "decided_on n h s dn \<longleftrightarrow> rvs_design_name s = n \<and> latest_decision s = Some dn \<and> rd_design_state_hash dn = h"

lemma Some_pair_map: "Some (s, dn) = map_option (Pair x) r \<longleftrightarrow> x = s \<and> r = Some dn"
  by (cases r) auto

lemma terminal_set: "(s, dn) \<in> set (terminal_sessions sessions n) \<longleftrightarrow> s \<in> set sessions \<and> rvs_design_name s = n \<and> latest_decision s = Some dn"
  by (auto simp: terminal_sessions_def Let_def Some_pair_map image_iff split: if_splits)

lemma terminal_head:
  assumes "s \<in> set sessions" "decided_on n h s dn"
  obtains s' dn' rest where "filter (\<lambda>(s, dn). rd_design_state_hash dn = h) (terminal_sessions sessions n) = (s', dn') # rest"
    "s' \<in> set sessions" "decided_on n h s' dn'" "rd_decided_at dn \<le> rd_decided_at dn'"
proof -
  let ?P = "\<lambda>(s, dn). rd_design_state_hash dn = h"
  have mem: "(s, dn) \<in> set (filter ?P (terminal_sessions sessions n))"
    using assms by (simp add: terminal_set decided_on_def)
  then obtain s' dn' rest where f: "filter ?P (terminal_sessions sessions n) = (s', dn') # rest"
    by (metis list.set_cases surj_pair)
  then have "(s', dn') \<in> set (filter ?P (terminal_sessions sessions n))" by simp
  then have d: "s' \<in> set sessions" "decided_on n h s' dn'" by (simp_all add: terminal_set decided_on_def)
  define xs where "xs = option_list (map (\<lambda>s. if rvs_design_name s = n then map_option (\<lambda>dn. (s, dn)) (latest_decision s) else None) sessions)"
  have t: "terminal_sessions sessions n = rev (sort_key (\<lambda>(s, dn). rd_decided_at dn) (rev xs))" by (simp add: terminal_sessions_def xs_def)
  have "(\<lambda>(s, dn). rd_decided_at dn) (s, dn) \<le> (\<lambda>(s, dn). rd_decided_at dn) (s', dn')"
    by (rule sorted_rev_head [OF _ f [unfolded t]]) (use mem in \<open>simp_all add: t\<close>)
  then show thesis using that [OF f d] by simp
qed

lemma blocking_evidence:
  assumes "s \<in> set sessions" "decided_on n h s dn" "blocking_status (rd_decision dn) = Some b"
    "\<And>s' dn'. s' \<in> set sessions \<Longrightarrow> decided_on n h s' dn' \<Longrightarrow> rd_decided_at dn \<le> rd_decided_at dn' \<Longrightarrow> s' = s"
  shows "rev_status (resolve_engineering_review_evidence sessions n h a) = b"
proof (rule terminal_head [OF assms(1,2)])
  fix s' dn' rest
  assume f: "filter (\<lambda>(s, dn). rd_design_state_hash dn = h) (terminal_sessions sessions n) = (s', dn') # rest"
    and d: "s' \<in> set sessions" "decided_on n h s' dn'" "rd_decided_at dn \<le> rd_decided_at dn'"
  have "s' = s" using assms(4) d by blast
  then have "dn' = dn" using assms(2) d(2) by (simp add: decided_on_def)
  then show ?thesis using f assms(3) by (simp add: resolve_engineering_review_evidence_def decision_evidence_def)
qed

lemma blocking_values: "blocking_status t = Some b \<Longrightarrow> b \<in> {''rejected'', ''repair-requested'', ''rolled-back''}"
  by (cases t) auto

text \<open>
  C10: A rejection, a repair request or a rollback that is the newest decision of a design on its
  current state blocks every export of it, whatever approval id the caller supplies, and nothing is
  recorded.
\<close>

theorem review_blocks_release:
  assumes "dict_get (ls_designs st) n = Some d" "strip (or_blank (rq_approval_id rq)) \<noteq> []"
    "review_sessions_for_design_session (rq_session_id rq) (ls_reviews st) = (sessions, reviews)"
    "s \<in> set sessions" "decided_on n (release_design_state_hash ev d) s dn" "blocking_status (rd_decision dn) = Some b"
    "\<And>s' dn'. s' \<in> set sessions \<Longrightarrow> decided_on n (release_design_state_hash ev d) s' dn' \<Longrightarrow> rd_decided_at dn \<le> rd_decided_at dn' \<Longrightarrow> s' = s"
  shows "require_release_gate ev n rq st = (Inl (release_error n ('' is blocked by engineering review status='' @ b)), st\<lparr> ls_reviews := reviews \<rparr>)"
proof -
  have r: "rev_status (resolve_engineering_review_evidence sessions n (release_design_state_hash ev d) a) = b" for a
    by (rule blocking_evidence [OF assms(4-7)])
  show ?thesis using assms(1-3) blocking_values [OF assms(6)]
    by (simp add: require_release_gate_def collect_release_evidence_def r Let_def)
qed

section \<open>Concrete releases\<close>

instance pyval :: countable
  by countable_datatype

definition demo_sha :: "pyval \<Rightarrow> string" where
  "demo_sha v = CHR ''h'' # replicate (to_nat v) CHR ''x''"

lemma demo_sha_inj: "inj demo_sha"
proof (rule injI)
  fix v w
  assume "demo_sha v = demo_sha w"
  then have "length (demo_sha v) = length (demo_sha w)" by simp
  then show "v = w" by (simp add: demo_sha_def)
qed

definition demo_release_env :: release_env where
  "demo_release_env = \<lparr> le_dump = (\<lambda>d. [(''name'', PStr (meta_name (des_meta d)))]), le_sha256 = demo_sha,
     le_erc014 = (\<lambda>_. Inr []), le_erc028 = (\<lambda>_. Inr []), le_drc = (\<lambda>_ _. Inr (True, 0)), le_vendored = (\<lambda>_. None),
     le_resolve_vendored = (\<lambda>_. None), le_generate = (\<lambda>_ _. None), le_version = ''1'', le_dump_proof = (\<lambda>_. PNone) \<rparr>"

definition release_part :: component where
  "release_part = (mk_component ''c1'' ''J1'' ''connector'')\<lparr> comp_footprint := ''SIP2'', comp_position := Some (1, 1),
     comp_footprint_def := Some (demo_footprint\<lparr> fp_description := ''SIP2'' \<rparr>) \<rparr>"

definition release_design :: design where
  "release_design = mk_design ''board'' [(''c1'', release_part)] []"

definition demo_request :: release_request where
  "demo_request = \<lparr> rq_approval_id = Some ''A-1'', rq_session_id = ''s'', rq_skip_reason = None, rq_skip_approval_id = None,
     rq_risky_reviewed = False, rq_risky_approval_id = None \<rparr>"

definition no_reviews :: review_state where
  "no_reviews = \<lparr> rv_cache = [], rv_store = None \<rparr>"

definition demo_release_ops :: "release_op list" where
  "demo_release_ops = [Set_Design ''board'' release_design, Erc_Validate ''board'', Drc_Run ''board'' (Some ''jlcpcb'')]"

lemma demo_env_sel [simp]:
  "le_sha256 demo_release_env = demo_sha" "le_drc demo_release_env = (\<lambda>_ _. Inr (True, 0))"
  by (simp_all add: demo_release_env_def)

lemma demo_erc_passes: "passed (erc_run (le_erc014 demo_release_env) (le_erc028 demo_release_env) release_design)"
  by code_simp

lemma demo_covered:
  "cov_status (build_component_coverage demo_release_env release_design False []) = EVIDENCE_PASS"
  by code_simp

lemma gate_intro:
  assumes "dict_get (ls_designs s) n = Some d" "strip (or_blank (rq_approval_id rq)) \<noteq> []"
    "review_sessions_for_design_session (rq_session_id rq) (ls_reviews s) = (sessions, reviews)"
    "collect_release_evidence ev n rq d (resolve_engineering_review_evidence sessions n (release_design_state_hash ev d) (or_blank (rq_approval_id rq)))
       (s\<lparr> ls_reviews := reviews \<rparr>) = Inr identity"
    "bind_release_approval ev (ls_release_approval_bindings s) (or_blank (rq_approval_id rq)) identity = Inr (binding, bindings)"
  shows "\<exists>gate s'. require_release_gate ev n rq s = (Inr gate, s')"
  using assms by (simp add: require_release_gate_def Let_def)

lemma collect_evidence_cong:
  "ls_validation_status s = ls_validation_status s' \<Longrightarrow> collect_release_evidence ev n rq d review s = collect_release_evidence ev n rq d review s'"
  unfolding collect_release_evidence_def by (simp only:)

lemma bind_again:
  "bind_release_approval ev store a identity = Inr (b, store') \<Longrightarrow> bind_release_approval ev store' a identity = Inr (b, store')"
  by (auto simp: bind_release_approval_def Let_def pydict.get_put split: if_splits option.splits)

lemma gate_repeats:
  assumes g: "require_release_gate ev n rq s = (Inr gate, s')"
    and reviews: "review_sessions_for_design_session (rq_session_id rq) (ls_reviews s') = review_sessions_for_design_session (rq_session_id rq) (ls_reviews s)"
  shows "\<exists>gate' s''. require_release_gate ev n rq s' = (Inr gate', s'')"
proof -
  obtain d review identity binding bindings where d: "dict_get (ls_designs s) n = Some d"
    and c: "collect_release_evidence ev n rq d review (s\<lparr> ls_reviews := snd (review_sessions_for_design_session (rq_session_id rq) (ls_reviews s)) \<rparr>) = Inr identity"
    and b: "bind_release_approval ev (ls_release_approval_bindings s) (or_blank (rq_approval_id rq)) identity = Inr (binding, bindings)"
    and s': "ls_release_approval_bindings s' = bindings" "ls_designs s' = ls_designs s"
    and r: "review = resolve_engineering_review_evidence (fst (review_sessions_for_design_session (rq_session_id rq) (ls_reviews s))) n
       (release_design_state_hash ev d) (or_blank (rq_approval_id rq))"
    using gate_Inr [OF g] by metis
  define rs where "rs = review_sessions_for_design_session (rq_session_id rq) (ls_reviews s)"
  have v: "ls_validation_status s' = ls_validation_status s" using gate_fields [OF g] by blast
  show ?thesis
  proof (rule gate_intro)
    show "dict_get (ls_designs s') n = Some d" using d s'(2) by (rule ssubst [rotated])
    show "strip (or_blank (rq_approval_id rq)) \<noteq> []" by (rule bind_Inr(1) [OF b])
    show "review_sessions_for_design_session (rq_session_id rq) (ls_reviews s') = (fst rs, snd rs)" unfolding reviews rs_def by simp
    show "collect_release_evidence ev n rq d (resolve_engineering_review_evidence (fst rs) n (release_design_state_hash ev d) (or_blank (rq_approval_id rq)))
        (s'\<lparr> ls_reviews := snd rs \<rparr>) = Inr identity"
      using c unfolding r rs_def [symmetric] by (subst collect_evidence_cong [of _ "s\<lparr> ls_reviews := snd rs \<rparr>"]) (use v in simp_all)
    show "bind_release_approval ev (ls_release_approval_bindings s') (or_blank (rq_approval_id rq)) identity = Inr (binding, bindings)"
      unfolding s'(1) by (rule bind_again [OF b])
  qed
qed

definition demo_ready :: release_session where
  "demo_ready = release_run demo_release_env demo_release_ops (fresh_release_session no_reviews)"

lemma strip_jlcpcb: "strip ''jlcpcb'' = ''jlcpcb''"
  by code_simp

lemma demo_ready_fields:
  "dict_get (ls_designs demo_ready) ''board'' = Some release_design" "ls_release_approval_bindings demo_ready = []" "ls_reviews demo_ready = no_reviews"
  "\<exists>v erc drc. dict_get (ls_validation_status demo_ready) ''board'' = Some v \<and> vv_erc v = Some erc \<and> vv_drc v = Some drc
     \<and> ee_design_state_hash erc = release_design_state_hash demo_release_env release_design \<and> ee_passed erc
     \<and> de_design_state_hash drc = release_design_state_hash demo_release_env release_design \<and> de_passed drc \<and> de_fab_profile drc = ''jlcpcb''"
  using demo_erc_passes
  by (simp_all add: demo_ready_def release_run_def demo_release_ops_def fresh_release_session_def tool_erc_validate_def tool_drc_run_def
      record_validation_status_def record_erc_evidence_def record_drc_evidence_def pydict.get_put strip_jlcpcb)

lemma demo_gate: "\<exists>gate s'. require_release_gate demo_release_env ''board'' demo_request demo_ready = (Inr gate, s')"
proof -
  obtain v erc drc where v: "dict_get (ls_validation_status demo_ready) ''board'' = Some v" "vv_erc v = Some erc" "vv_drc v = Some drc"
     "ee_design_state_hash erc = release_design_state_hash demo_release_env release_design" "ee_passed erc"
     "de_design_state_hash drc = release_design_state_hash demo_release_env release_design" "de_passed drc" "de_fab_profile drc = ''jlcpcb''"
    using demo_ready_fields(4) by blast
  have r: "resolve_engineering_review_evidence [] n h a = default_evidence h" for n h a
    by (simp add: resolve_engineering_review_evidence_def terminal_sessions_def)
  have s: "review_sessions_for_design_session ''s'' no_reviews = ([], no_reviews)" by code_simp
  have p: "pol_status (build_fab_profile_policy ''jlcpcb'' [] []) = EVIDENCE_PASS" by code_simp
  have a: "strip ''A-1'' = ''A-1''" by code_simp
  have h: "demo_sha x \<noteq> []" for x by (simp add: demo_sha_def)
  define d where "d = build_release_evidence_identity demo_release_env (release_design_state_hash demo_release_env release_design) erc drc
    (build_component_coverage demo_release_env release_design False []) (build_fab_profile_policy ''jlcpcb'' [] [])
    (Some (default_evidence (release_design_state_hash demo_release_env release_design)))"
  have c: "collect_release_evidence demo_release_env ''board'' demo_request release_design
      (default_evidence (release_design_state_hash demo_release_env release_design)) (demo_ready\<lparr> ls_reviews := no_reviews \<rparr>) = Inr d"
    unfolding collect_release_evidence_def Let_def
    using v by (simp add: demo_request_def or_blank_def blank_strip default_evidence_def require_current_validation_def demo_covered p
        require_complete_component_coverage_def require_approved_fab_profile_policy_def d_def)
  have b: "\<exists>binding bindings. bind_release_approval demo_release_env [] (or_blank (Some ''A-1'')) d = Inr (binding, bindings)"
    by (simp add: bind_release_approval_def or_blank_def a d_def build_release_evidence_identity_def sha256_json_def h Let_def)
  from b obtain binding bindings where "bind_release_approval demo_release_env [] (or_blank (Some ''A-1'')) d = Inr (binding, bindings)" by blast
  then show ?thesis
    by (intro gate_intro [where d = release_design and sessions = "[]" and reviews = no_reviews and identity = d])
      (simp_all add: demo_ready_fields demo_request_def or_blank_def a s r c [unfolded demo_request_def])
qed

text \<open>The gate passes for the demo board, so its hypotheses and conclusions are about real releases.\<close>

theorem release_gate_sound_witness:
  "\<exists>gate s'. require_release_gate demo_release_env ''board'' demo_request demo_ready = (Inr gate, s')
    \<and> (\<forall>c\<in>set (dict_values (des_components release_design)). component_covered demo_release_env demo_request release_design c)
    \<and> dict_get (ls_release_approval_bindings s') ''A-1'' = Some (rg_approval_binding gate)"
proof -
  obtain gate s' where g: "require_release_gate demo_release_env ''board'' demo_request demo_ready = (Inr gate, s')"
    using demo_gate by blast
  have i: "inj (le_sha256 demo_release_env)" by (simp add: demo_sha_inj)
  obtain d where d: "dict_get (ls_designs s') ''board'' = Some d"
    and c: "\<forall>c\<in>set (dict_values (des_components d)). \<not> comp_dnp c \<longrightarrow> component_covered demo_release_env demo_request d c"
    and b: "dict_get (ls_release_approval_bindings s') (strip (or_blank (rq_approval_id demo_request))) = Some (rg_approval_binding gate)"
    using release_gate_sound [OF i g [unfolded demo_ready_def]] by blast
  have "d = release_design" using gate_fields [OF g] d by (simp add: demo_ready_fields)
  moreover have "strip (or_blank (rq_approval_id demo_request)) = ''A-1''" by code_simp
  moreover have "\<forall>c\<in>set (dict_values (des_components release_design)). \<not> comp_dnp c"
    by (simp add: release_design_def release_part_def mk_design_def mk_component_def dict_values_def)
  ultimately show ?thesis using g c b by auto
qed

lemma demo_gate_reviews: "require_release_gate demo_release_env ''board'' demo_request demo_ready = (r, s') \<Longrightarrow> ls_reviews s' = ls_reviews demo_ready"
proof -
  have "review_sessions_for_design_session ''s'' no_reviews = ([], no_reviews)" by code_simp
  then show "require_release_gate demo_release_env ''board'' demo_request demo_ready = (r, s') \<Longrightarrow> ls_reviews s' = ls_reviews demo_ready"
    by (auto simp: require_release_gate_def Let_def demo_ready_fields demo_request_def split: if_splits sum.splits)
qed

theorem approval_releases_one_structure_witness:
  "\<exists>gate s1 gate' s2. require_release_gate demo_release_env ''board'' demo_request demo_ready = (Inr gate, s1)
    \<and> require_release_gate demo_release_env ''board'' demo_request s1 = (Inr gate', s2) \<and> rg_approval_binding gate' = rg_approval_binding gate"
proof -
  obtain gate s1 where g: "require_release_gate demo_release_env ''board'' demo_request demo_ready = (Inr gate, s1)"
    using demo_gate by blast
  obtain gate' s2 where g': "require_release_gate demo_release_env ''board'' demo_request (release_run demo_release_env [] s1) = (Inr gate', s2)"
    using gate_repeats [OF g] demo_gate_reviews [OF g] by (auto simp: release_run_def)
  have i: "inj (le_sha256 demo_release_env)" by (simp add: demo_sha_inj)
  from approval_releases_one_structure [OF i g g' refl] g g' show ?thesis by (auto simp: release_run_def)
qed

definition rejected_review :: review_session where
  "rejected_review =
     (let s = new_review_session ''t0'' ''2026-01-01'' ''board'' (release_design_state_hash demo_release_env release_design) (Some []) ''s'' ''alice''
      in s\<lparr> rvs_decisions := [decision_record ''2026-01-03'' ''t1'' ''t2'' REJECT ''bob'' ''no'' [] s] \<rparr>)"

theorem review_blocks_release_witness:
  "require_release_gate demo_release_env ''board'' demo_request (demo_ready\<lparr> ls_reviews := \<lparr> rv_cache = [(''r'', rejected_review)], rv_store = None \<rparr> \<rparr>)
   = (Inl (release_error ''board'' ('' is blocked by engineering review status='' @ ''rejected'')),
      demo_ready\<lparr> ls_reviews := \<lparr> rv_cache = [(''r'', rejected_review)], rv_store = None \<rparr> \<rparr>)"
proof -
  let ?rv = "\<lparr> rv_cache = [(''r'', rejected_review)], rv_store = None \<rparr>" and ?st = "demo_ready\<lparr> ls_reviews := \<lparr> rv_cache = [(''r'', rejected_review)], rv_store = None \<rparr> \<rparr>"
  have s: "review_sessions_for_design_session (rq_session_id demo_request) (ls_reviews ?st) = ([rejected_review], ?rv)"
    by (simp add: review_sessions_for_design_session_def demo_request_def rejected_review_def new_review_session_def Let_def dict_comp_def dict_set_def dict_values_def)
  have d: "decided_on ''board'' (release_design_state_hash demo_release_env release_design) rejected_review (last (rvs_decisions rejected_review))"
    by (simp add: decided_on_def latest_decision_def rejected_review_def new_review_session_def decision_record_def Let_def)
  have b: "blocking_status (rd_decision (last (rvs_decisions rejected_review))) = Some ''rejected''"
    by (simp add: rejected_review_def decision_record_def Let_def)
  have a: "strip (or_blank (rq_approval_id demo_request)) \<noteq> []" by code_simp
  have g: "dict_get (ls_designs ?st) ''board'' = Some release_design" by (simp add: demo_ready_fields)
  have m: "rejected_review \<in> set [rejected_review]" by simp
  have u: "s' \<in> set [rejected_review] \<Longrightarrow> s' = rejected_review" for s' by simp
  have "require_release_gate demo_release_env ''board'' demo_request ?st
      = (Inl (release_error ''board'' ('' is blocked by engineering review status='' @ ''rejected'')), ?st\<lparr> ls_reviews := ?rv \<rparr>)"
    by (rule review_blocks_release [OF g a s m d b u])
  then show ?thesis by simp
qed

end
