(* ===== verification/Tool_Staging.thy ===== *)
theory Tool_Staging
  imports Zap_Prelude
begin

text \<open>
  Staged outputs of isolated tool runs (\<^verbatim>\<open>src/zaptrace/agent/execution.py\<close>): declared output
  parameters are rewritten to private paths, and what a worker left there is published over the real
  targets by renames, with backups and a rollback. A path is the list of its components; the file map
  holds the node at a path with all that is below it, so it is used for paths of which none lies
  below another. Every call of the operating system may fail: \<open>fe_fault env n\<close> says what the \<open>n\<close>-th
  one raises. Directories made on the way to a target are not part of the file map.
\<close>

section \<open>Files and calls\<close>

datatype fs_node =
    Regular string
  | Folder string \<comment> \<open>what it holds; empty for an empty directory\<close>
  | Link bool string \<comment> \<open>whether it resolves, where it points\<close>

type_synonym path = "string list"

record fs_env =
  fe_fault :: "nat \<Rightarrow> string option"
  fe_workspace :: path \<comment> \<open>resolved\<close>
  fe_staging_root :: path \<comment> \<open>the fresh private directory of the job\<close>
  fe_resolve :: "path \<Rightarrow> string \<Rightarrow> path" \<comment> \<open>\<^verbatim>\<open>(root / raw).resolve()\<close>, or \<^verbatim>\<open>Path(raw).resolve()\<close> of an absolute path\<close>

record fs_state =
  fx_fs :: "path \<Rightarrow> fs_node option"
  fx_calls :: nat

definition os_error :: "string \<Rightarrow> py_error" where
  "os_error m = AdapterError ''OSError'' m"

definition call :: "'e fs_env_scheme \<Rightarrow> ('s fs_state_scheme \<Rightarrow> 'a result \<times> 's fs_state_scheme) \<Rightarrow> 's fs_state_scheme \<Rightarrow> 'a result \<times> 's fs_state_scheme" where
  "call env m s =
     (let s1 = s\<lparr> fx_calls := fx_calls s + 1 \<rparr>
      in case fe_fault env (fx_calls s) of Some e \<Rightarrow> (Inl (os_error e), s1) | None \<Rightarrow> m s1)"

definition path_exists :: "(path \<Rightarrow> fs_node option) \<Rightarrow> path \<Rightarrow> bool" where
  "path_exists fs p = (case fs p of None \<Rightarrow> False | Some (Link resolves _) \<Rightarrow> resolves | Some _ \<Rightarrow> True)"

text \<open>\<^verbatim>\<open>p.exists() or p.is_symlink()\<close>\<close>

definition present :: "(path \<Rightarrow> fs_node option) \<Rightarrow> path \<Rightarrow> bool" where
  "present fs p = (fs p \<noteq> None)"

fun replaceable :: "fs_node \<Rightarrow> fs_node option \<Rightarrow> bool" where
  "replaceable x None = True"
| "replaceable (Folder _) (Some (Folder c)) = (c = [])"
| "replaceable (Folder _) (Some _) = False"
| "replaceable _ (Some (Folder _)) = False"
| "replaceable _ (Some _) = True"

definition os_replace :: "'e fs_env_scheme \<Rightarrow> path \<Rightarrow> path \<Rightarrow> 's fs_state_scheme \<Rightarrow> unit result \<times> 's fs_state_scheme" where
  "os_replace env src dst = call env (\<lambda>s.
     (case fx_fs s src of
        None \<Rightarrow> (Inl (os_error ''No such file or directory''), s)
      | Some x \<Rightarrow>
          if replaceable x (fx_fs s dst) then (Inr (), s\<lparr> fx_fs := (fx_fs s)(src := None, dst := Some x) \<rparr>)
          else (Inl (os_error ''Is a directory''), s)))"

definition make_parent :: "'e fs_env_scheme \<Rightarrow> 's fs_state_scheme \<Rightarrow> unit result \<times> 's fs_state_scheme" where
  "make_parent env = call env (sreturn ())"

definition os_remove :: "'e fs_env_scheme \<Rightarrow> path \<Rightarrow> 's fs_state_scheme \<Rightarrow> unit result \<times> 's fs_state_scheme" where
  "os_remove env p = call env (supdate (\<lambda>s. s\<lparr> fx_fs := (fx_fs s)(p := None) \<rparr>))"

section \<open>Staging\<close>

record output_stage =
  sg_parameter :: string
  sg_staged_path :: path
  sg_target_path :: path
  sg_public_value :: string
  sg_backup_path :: path
  sg_had_original :: bool

definition path_str :: "path \<Rightarrow> string" where
  "path_str p = (if p = [] then ''/'' else concat (map (\<lambda>c. CHR ''/'' # c) p))"

definition path_name :: "path \<Rightarrow> string" where
  "path_name p = (if p = [] then [] else last p)"

definition resolve_workspace_path :: "'e fs_env_scheme \<Rightarrow> string \<Rightarrow> path result" where
  "resolve_workspace_path env raw =
     (let resolved = fe_resolve env (fe_workspace env) raw in
      if prefix (fe_workspace env) resolved then Inr resolved
      else Inl (ValueError (''output path is outside workspace: '' @ raw)))"

text \<open>The raw value of a declared output parameter, when it has one.\<close>

definition output_value :: "string \<Rightarrow> pyval \<Rightarrow> (string, pyval) dict \<Rightarrow> string option" where
  "output_value name spec rewritten =
     (case spec of
        PDict sd \<Rightarrow>
          (case dict_get sd ''path_policy'' of
             Some (PDict policy) \<Rightarrow>
               if dict_get policy ''access'' \<noteq> Some (PStr ''output'') then None
               else (case dict_get rewritten name of
                       Some (PStr raw) \<Rightarrow> if raw = [] then None else Some raw
                     | _ \<Rightarrow> None)
           | _ \<Rightarrow> None)
      | _ \<Rightarrow> None)"

definition stage_of :: "'e fs_env_scheme \<Rightarrow> nat \<Rightarrow> string \<Rightarrow> string \<Rightarrow> path \<Rightarrow> output_stage" where
  "stage_of env i name raw target =
     \<lparr> sg_parameter = name,
       sg_staged_path = fe_staging_root env @ [''outputs'', str_of_nat i, (if path_name target \<noteq> [] then path_name target else name)],
       sg_target_path = target, sg_public_value = raw,
       sg_backup_path = fe_staging_root env @ [''backups'', str_of_nat i], sg_had_original = False \<rparr>"

definition output_stage_for_parameter ::
  "'e fs_env_scheme \<Rightarrow> nat \<Rightarrow> string \<Rightarrow> pyval \<Rightarrow> (string, pyval) dict \<Rightarrow> 's fs_state_scheme
   \<Rightarrow> (output_stage option \<times> (string, pyval) dict) result \<times> 's fs_state_scheme" where
  "output_stage_for_parameter env i name spec rewritten =
     (case output_value name spec rewritten of
        None \<Rightarrow> sreturn (None, rewritten)
      | Some raw \<Rightarrow>
          (case resolve_workspace_path env raw of
             Inl e \<Rightarrow> sraise e
           | Inr target \<Rightarrow>
               (let sg = stage_of env i name raw target in
                sbind (make_parent env) (\<lambda>_.
                  sreturn (Some sg, dict_set name (PStr (path_str (sg_staged_path sg))) rewritten)))))"

fun stage_parameters ::
  "'e fs_env_scheme \<Rightarrow> nat \<Rightarrow> (string \<times> pyval) list \<Rightarrow> (string, pyval) dict \<Rightarrow> 's fs_state_scheme
   \<Rightarrow> ((string, pyval) dict \<times> output_stage list) result \<times> 's fs_state_scheme" where
  "stage_parameters env i [] rewritten = sreturn (rewritten, [])"
| "stage_parameters env i ((name, spec) # params) rewritten =
     sbind (output_stage_for_parameter env i name spec rewritten) (\<lambda>(sg, rewritten1).
     sbind (stage_parameters env (i + 1) params rewritten1) (\<lambda>(rewritten2, stages).
       sreturn (rewritten2, (case sg of None \<Rightarrow> stages | Some x \<Rightarrow> x # stages))))"

definition overlapping :: "path \<Rightarrow> path \<Rightarrow> bool" where
  "overlapping l r = (l = r \<or> strict_prefix l r \<or> strict_prefix r l)"

fun validate_non_overlapping_output_targets :: "path list \<Rightarrow> unit result" where
  "validate_non_overlapping_output_targets [] = Inr ()"
| "validate_non_overlapping_output_targets (l # rs) =
     (case find (overlapping l) rs of
        Some r \<Rightarrow> Inl (ValueError (''overlapping output paths are not supported: '' @ path_str l @ '' and '' @ path_str r))
      | None \<Rightarrow> validate_non_overlapping_output_targets rs)"

definition prepare_output_staging ::
  "'e fs_env_scheme \<Rightarrow> (string \<times> pyval) list \<Rightarrow> (string, pyval) dict \<Rightarrow> 's fs_state_scheme
   \<Rightarrow> ((string, pyval) dict \<times> output_stage list) result \<times> 's fs_state_scheme" where
  "prepare_output_staging env params kwargs =
     sbind (stage_parameters env 0 params kwargs) (\<lambda>(rewritten, stages).
       case validate_non_overlapping_output_targets (map sg_target_path stages) of
         Inl e \<Rightarrow> sraise e
       | Inr _ \<Rightarrow> sreturn (rewritten, stages))"

section \<open>Publishing and rolling back\<close>

definition rollback_stage :: "'e fs_env_scheme \<Rightarrow> output_stage \<Rightarrow> 's fs_state_scheme \<Rightarrow> unit result \<times> 's fs_state_scheme" where
  "rollback_stage env sg =
     sbind (\<lambda>s. if present (fx_fs s) (sg_target_path sg) then os_remove env (sg_target_path sg) s else sreturn () s) (\<lambda>_ s.
       if present (fx_fs s) (sg_backup_path sg)
       then sbind (make_parent env) (\<lambda>_. os_replace env (sg_backup_path sg) (sg_target_path sg)) s
       else sreturn () s)"

definition rollback_published_outputs :: "'e fs_env_scheme \<Rightarrow> output_stage list \<Rightarrow> 's fs_state_scheme \<Rightarrow> unit result \<times> 's fs_state_scheme" where
  "rollback_published_outputs env stages = sfor (rev stages) (rollback_stage env)"

definition backup_original :: "'e fs_env_scheme \<Rightarrow> output_stage \<Rightarrow> 's fs_state_scheme \<Rightarrow> bool result \<times> 's fs_state_scheme" where
  "backup_original env sg =
     sbind (make_parent env) (\<lambda>_ s.
       if present (fx_fs s) (sg_target_path sg)
       then sbind (make_parent env) (\<lambda>_. sbind (os_replace env (sg_target_path sg) (sg_backup_path sg)) (\<lambda>_. sreturn True)) s
       else sreturn False s)"

text \<open>The loop of \<^verbatim>\<open>_publish_staged_outputs\<close>: the stages touched so far and the exception that ended it.\<close>

fun publish_loop ::
  "'e fs_env_scheme \<Rightarrow> output_stage list \<Rightarrow> output_stage list \<Rightarrow> 's fs_state_scheme \<Rightarrow> (output_stage list \<times> py_error option) \<times> 's fs_state_scheme" where
  "publish_loop env [] touched s = ((touched, None), s)"
| "publish_loop env (sg # stages) touched s =
     (if \<not> path_exists (fx_fs s) (sg_staged_path sg) then publish_loop env stages touched s
      else case backup_original env sg s of
        (Inl e, s1) \<Rightarrow> ((touched, Some e), s1)
      | (Inr had, s1) \<Rightarrow>
          (let sg1 = sg\<lparr> sg_had_original := had \<rparr> in
           case os_replace env (sg_staged_path sg) (sg_target_path sg) s1 of
             (Inl e, s2) \<Rightarrow> ((if had then touched @ [sg1] else touched, Some e), s2)
           | (Inr _, s2) \<Rightarrow> publish_loop env stages (touched @ [sg1]) s2))"

definition publish_staged_outputs ::
  "'e fs_env_scheme \<Rightarrow> output_stage list \<Rightarrow> 's fs_state_scheme \<Rightarrow> output_stage list result \<times> 's fs_state_scheme" where
  "publish_staged_outputs env stages s =
     (case publish_loop env stages [] s of
        ((touched, None), s1) \<Rightarrow> (Inr touched, s1)
      | ((touched, Some e), s1) \<Rightarrow> sbind (rollback_published_outputs env touched) (\<lambda>_. sraise e) s1)"

text \<open>\<^verbatim>\<open>_rewrite_staged_paths\<close> on JSON values.\<close>

definition rstrip_separators :: "string \<Rightarrow> string" where
  "rstrip_separators s = rev (dropWhile (\<lambda>c. c = CHR ''/'' \<or> c = backslash_char) (rev s))"

fun rewrite_text :: "output_stage list \<Rightarrow> string \<Rightarrow> string" where
  "rewrite_text [] v = v"
| "rewrite_text (sg # stages) v =
     (let staged = path_str (sg_staged_path sg) in
      if v = staged then sg_public_value sg
      else if prefix (staged @ ''/'') v then rstrip_separators (sg_public_value sg) @ drop (length staged) v
      else rewrite_text stages v)"

fun rewrite_staged_paths :: "output_stage list \<Rightarrow> pyval \<Rightarrow> pyval" where
  "rewrite_staged_paths stages (PStr v) = PStr (rewrite_text stages v)"
| "rewrite_staged_paths stages (PDict d) = PDict (map (map_prod id (rewrite_staged_paths stages)) d)"
| "rewrite_staged_paths stages (PList xs) = PList (map (rewrite_staged_paths stages) xs)"
| "rewrite_staged_paths stages v = v"

section \<open>One call\<close>

definition no_fault_from :: "'e fs_env_scheme \<Rightarrow> nat \<Rightarrow> bool" where
  "no_fault_from env n \<longleftrightarrow> (\<forall>m\<ge>n. fe_fault env m = None)"

lemma no_fault_from_le: "no_fault_from env n \<Longrightarrow> n \<le> m \<Longrightarrow> no_fault_from env m"
  by (auto simp: no_fault_from_def)

text \<open>Between two states nothing but files and the call count changes.\<close>

definition same_rest :: "'s fs_state_scheme \<Rightarrow> 's fs_state_scheme \<Rightarrow> bool" where
  "same_rest s s' \<longleftrightarrow> fs_state.more s' = fs_state.more s \<and> fx_calls s \<le> fx_calls s'"

lemma same_rest_refl [simp]: "same_rest s s"
  by (simp add: same_rest_def)

lemma same_rest_trans: "same_rest s s1 \<Longrightarrow> same_rest s1 s2 \<Longrightarrow> same_rest s s2"
  by (simp add: same_rest_def)

definition faulted :: "'e fs_env_scheme \<Rightarrow> 's fs_state_scheme \<Rightarrow> 's fs_state_scheme \<Rightarrow> bool" where
  "faulted env s s' \<longleftrightarrow> (\<exists>k. fx_calls s \<le> k \<and> k < fx_calls s' \<and> fe_fault env k \<noteq> None)"

lemma faulted_mono: "faulted env s1 s2 \<Longrightarrow> same_rest s s1 \<Longrightarrow> same_rest s2 s3 \<Longrightarrow> faulted env s s3"
  unfolding faulted_def same_rest_def by (meson le_trans less_le_trans)

lemma not_faulted: "no_fault_from env (fx_calls s) \<Longrightarrow> \<not> faulted env s s'"
  by (auto simp: faulted_def no_fault_from_def)

lemma call_unit:
  assumes "call env (sreturn ()) s = (r, s')"
  shows "same_rest s s'" "fx_fs s' = fx_fs s" "r = Inr () \<or> (\<exists>m. r = Inl (os_error m)) \<and> faulted env s s'"
  using assms by (auto simp: call_def Let_def sreturn_def same_rest_def faulted_def split: option.splits)

lemma replace_absent:
  assumes "os_replace env src dst s = (r, s')" "fx_fs s src = Some x" "fx_fs s dst = None"
  shows "same_rest s s'" "r = Inr () \<and> fx_fs s' = (fx_fs s)(src := None, dst := Some x)
    \<or> (\<exists>m. r = Inl (os_error m)) \<and> faulted env s s' \<and> fx_fs s' = fx_fs s"
  using assms by (auto simp: os_replace_def call_def Let_def same_rest_def faulted_def split: option.splits)

lemma remove_cases:
  assumes "os_remove env p s = (r, s')"
  shows "same_rest s s'" "r = Inr () \<and> fx_fs s' = (fx_fs s)(p := None)
    \<or> (\<exists>m. r = Inl (os_error m)) \<and> faulted env s s' \<and> fx_fs s' = fx_fs s"
  using assms by (auto simp: os_remove_def call_def supdate_def Let_def same_rest_def faulted_def split: option.splits)

section \<open>Rolling back\<close>

lemma rollback_stage_ok:
  assumes "no_fault_from env (fx_calls s)" "sg_target_path sg \<noteq> sg_backup_path sg"
  shows "\<exists>s'. rollback_stage env sg s = (Inr (), s') \<and> same_rest s s'
    \<and> fx_fs s' = (fx_fs s)(sg_target_path sg := fx_fs s (sg_backup_path sg), sg_backup_path sg := None)"
proof -
  let ?t = "sg_target_path sg" and ?b = "sg_backup_path sg"
  obtain s1 where 1: "(if present (fx_fs s) ?t then os_remove env ?t s else sreturn () s) = (Inr (), s1)" "same_rest s s1"
      "fx_fs s1 = (fx_fs s)(?t := None)"
  proof (cases "present (fx_fs s) ?t")
    case True
    obtain r s1 where r: "os_remove env ?t s = (r, s1)" by (cases "os_remove env ?t s")
    with remove_cases [OF r] not_faulted [OF assms(1)] True that show thesis by auto
  next
    case False
    then show thesis by (intro that [of s]) (auto simp: sreturn_def present_def)
  qed
  have nf1: "no_fault_from env (fx_calls s1)" using 1(2) assms(1) no_fault_from_le by (auto simp: same_rest_def)
  have b: "fx_fs s1 ?b = fx_fs s ?b" using assms(2) 1(3) by auto
  show ?thesis
  proof (cases "fx_fs s ?b")
    case None
    then have "fx_fs s1 = (fx_fs s)(?t := fx_fs s ?b, ?b := None)" using 1(3) by (auto simp: fun_eq_iff)
    then show ?thesis using 1(1,2) b None by (simp add: rollback_stage_def sbind_def present_def sreturn_def)
  next
    case (Some x)
    obtain r2 s2 where r2: "make_parent env s1 = (r2, s2)" by (cases "make_parent env s1")
    note m = call_unit [OF r2 [unfolded make_parent_def]]
    have ok2: "r2 = Inr ()" using m(3) not_faulted [OF nf1] by auto
    have nf2: "no_fault_from env (fx_calls s2)" using m(1) nf1 no_fault_from_le by (auto simp: same_rest_def)
    obtain r3 s3 where r3: "os_replace env ?b ?t s2 = (r3, s3)" by (cases "os_replace env ?b ?t s2")
    have "fx_fs s2 ?b = Some x" "fx_fs s2 ?t = None" using m(2) b Some 1(3) by auto
    note p = replace_absent [OF r3 this]
    have ok3: "r3 = Inr ()" "fx_fs s3 = (fx_fs s2)(?b := None, ?t := Some x)" using p(2) not_faulted [OF nf2] by auto
    have "fx_fs s3 = (fx_fs s)(?t := fx_fs s ?b, ?b := None)"
      using ok3(2) m(2) 1(3) Some assms(2) by (auto simp: fun_eq_iff)
    then show ?thesis using 1(1) r2 r3 ok2 ok3(1) b Some same_rest_trans [OF same_rest_trans [OF 1(2) m(1)] p(1)]
      by (simp add: rollback_stage_def sbind_def present_def)
  qed
qed

definition own_paths :: "output_stage \<Rightarrow> path set" where
  "own_paths sg = {sg_target_path sg, sg_staged_path sg, sg_backup_path sg}"

definition stages_ok :: "output_stage list \<Rightarrow> bool" where
  "stages_ok sgs \<longleftrightarrow> sorted_wrt (\<lambda>x y. own_paths x \<inter> own_paths y = {}) sgs
     \<and> (\<forall>sg\<in>set sgs. distinct [sg_target_path sg, sg_staged_path sg, sg_backup_path sg])"

lemma stages_ok_append: "stages_ok (T @ U) \<longleftrightarrow> stages_ok T \<and> stages_ok U \<and> (\<forall>x\<in>set T. \<forall>y\<in>set U. own_paths x \<inter> own_paths y = {})"
  by (auto simp: stages_ok_def sorted_wrt_append)

lemma stages_ok_Cons: "stages_ok (sg # U) \<longleftrightarrow> distinct [sg_target_path sg, sg_staged_path sg, sg_backup_path sg] \<and> stages_ok U
    \<and> (\<forall>y\<in>set U. own_paths sg \<inter> own_paths y = {})"
  by (auto simp: stages_ok_def)

lemma stages_ok_Nil [simp]: "stages_ok []"
  by (simp add: stages_ok_def)

lemma stages_ok_distinct: "stages_ok sgs \<Longrightarrow> distinct (map sg_target_path sgs @ map sg_backup_path sgs)"
proof (induction sgs)
  case (Cons sg sgs)
  have o: "own_paths sg \<inter> own_paths y = {}" if "y \<in> set sgs" for y using Cons.prems that by (simp add: stages_ok_Cons)
  have "sg_target_path sg \<noteq> sg_backup_path sg" using Cons.prems by (simp add: stages_ok_Cons)
  moreover have "sg_target_path sg \<notin> sg_target_path ` set sgs" "sg_target_path sg \<notin> sg_backup_path ` set sgs"
    "sg_backup_path sg \<notin> sg_target_path ` set sgs" "sg_backup_path sg \<notin> sg_backup_path ` set sgs"
    using o by (fastforce simp: own_paths_def)+
  ultimately show ?case using Cons by (simp add: stages_ok_Cons)
qed simp

lemma stages_ok_apart:
  assumes "stages_ok (T @ sg # sgs)" "x \<in> set T"
  shows "own_paths x \<inter> own_paths sg = {}"
  using assms by (simp add: stages_ok_append)

lemma stages_ok_rev: "stages_ok (rev sgs) \<longleftrightarrow> stages_ok sgs"
  by (simp add: stages_ok_def sorted_wrt_rev Int_commute)

lemma rollback_loop:
  "no_fault_from env (fx_calls s) \<Longrightarrow> distinct (map sg_target_path sgs @ map sg_backup_path sgs) \<Longrightarrow>
   \<exists>s'. sfor sgs (rollback_stage env) s = (Inr (), s') \<and> same_rest s s'
     \<and> (\<forall>sg\<in>set sgs. fx_fs s' (sg_target_path sg) = fx_fs s (sg_backup_path sg))
     \<and> (\<forall>p. p \<notin> sg_target_path ` set sgs \<union> sg_backup_path ` set sgs \<longrightarrow> fx_fs s' p = fx_fs s p)"
proof (induction sgs arbitrary: s)
  case Nil
  then show ?case by (simp add: sreturn_def)
next
  case (Cons sg sgs)
  have "sg_target_path sg \<noteq> sg_backup_path sg" using Cons.prems(2) by auto
  from rollback_stage_ok [OF Cons.prems(1) this] obtain s1 where 1: "rollback_stage env sg s = (Inr (), s1)" "same_rest s s1"
    "fx_fs s1 = (fx_fs s)(sg_target_path sg := fx_fs s (sg_backup_path sg), sg_backup_path sg := None)" by blast
  have "no_fault_from env (fx_calls s1)" using Cons.prems(1) 1(2) no_fault_from_le by (auto simp: same_rest_def)
  moreover have "distinct (map sg_target_path sgs @ map sg_backup_path sgs)" using Cons.prems(2) by auto
  ultimately obtain s2 where 2: "sfor sgs (rollback_stage env) s1 = (Inr (), s2)" "same_rest s1 s2"
    "\<forall>sg\<in>set sgs. fx_fs s2 (sg_target_path sg) = fx_fs s1 (sg_backup_path sg)"
    "\<forall>p. p \<notin> sg_target_path ` set sgs \<union> sg_backup_path ` set sgs \<longrightarrow> fx_fs s2 p = fx_fs s1 p"
    using Cons.IH by blast
  have new: "sg_target_path sg \<notin> sg_target_path ` set sgs \<union> sg_backup_path ` set sgs"
    "sg_backup_path sg \<notin> sg_target_path ` set sgs \<union> sg_backup_path ` set sgs" "sg_target_path sg \<noteq> sg_backup_path sg"
    using Cons.prems(2) by auto
  have new4: "sg_backup_path x \<noteq> sg_target_path sg" "sg_backup_path x \<noteq> sg_backup_path sg" if "x \<in> set sgs" for x
    using new(1,2) imageI [OF that, of sg_backup_path] by (metis UnI2)+
  have "fx_fs s2 (sg_target_path sg) = fx_fs s (sg_backup_path sg)" using 2(4) new(1,3) 1(3) by simp
  moreover have "fx_fs s2 (sg_target_path x) = fx_fs s (sg_backup_path x)" if "x \<in> set sgs" for x
    using 2(3) that new4 [OF that] 1(3) by simp
  moreover have "fx_fs s2 p = fx_fs s p" if "p \<notin> sg_target_path ` set (sg # sgs) \<union> sg_backup_path ` set (sg # sgs)" for p
    using 2(4) that 1(3) by auto
  ultimately show ?case using 1(1) 2(1) same_rest_trans [OF 1(2) 2(2)] by (simp add: sbind_def)
qed

section \<open>Publishing\<close>

text \<open>What holds of the files while the stages \<open>T\<close> have been touched, in terms of the files before.\<close>

definition touched_ok :: "(path \<Rightarrow> fs_node option) \<Rightarrow> output_stage list \<Rightarrow> (path \<Rightarrow> fs_node option) \<Rightarrow> bool" where
  "touched_ok orig T fs \<longleftrightarrow> (\<forall>sg\<in>set T. fs (sg_backup_path sg) = orig (sg_target_path sg))
     \<and> (\<forall>p. p \<notin> sg_target_path ` set T \<union> sg_staged_path ` set T \<union> sg_backup_path ` set T \<longrightarrow> fs p = orig p)"

definition moved :: "(path \<Rightarrow> fs_node option) \<Rightarrow> output_stage list \<Rightarrow> (path \<Rightarrow> fs_node option) \<Rightarrow> bool" where
  "moved orig T fs \<longleftrightarrow> (\<forall>sg\<in>set T. path_exists orig (sg_staged_path sg) \<and> fs (sg_target_path sg) = orig (sg_staged_path sg))"

lemma rollback_ok:
  assumes "no_fault_from env (fx_calls s)" "stages_ok T" "touched_ok orig T (fx_fs s)"
  shows "\<exists>s'. rollback_published_outputs env T s = (Inr (), s') \<and> same_rest s s'
    \<and> (\<forall>p. p \<notin> sg_staged_path ` set T \<union> sg_backup_path ` set T \<longrightarrow> fx_fs s' p = orig p)"
proof -
  have "distinct (map sg_target_path (rev T) @ map sg_backup_path (rev T))"
    by (rule stages_ok_distinct) (simp add: stages_ok_rev assms(2))
  from rollback_loop [OF assms(1) this] obtain s' where s': "sfor (rev T) (rollback_stage env) s = (Inr (), s')" "same_rest s s'"
    "\<forall>sg\<in>set T. fx_fs s' (sg_target_path sg) = fx_fs s (sg_backup_path sg)"
    "\<forall>p. p \<notin> sg_target_path ` set T \<union> sg_backup_path ` set T \<longrightarrow> fx_fs s' p = fx_fs s p" by auto
  have "fx_fs s' p = orig p" if p: "p \<notin> sg_staged_path ` set T \<union> sg_backup_path ` set T" for p
  proof (cases "p \<in> sg_target_path ` set T")
    case True
    then show ?thesis using s'(3) assms(3) by (auto simp: touched_ok_def)
  next
    case False
    then have "fx_fs s' p = fx_fs s p" using s'(4) p by blast
    then show ?thesis using False p assms(3) by (simp add: touched_ok_def)
  qed
  then show ?thesis using s'(1,2) by (simp add: rollback_published_outputs_def)
qed

definition stage_paths :: "output_stage \<Rightarrow> path \<times> path \<times> path" where
  "stage_paths sg = (sg_target_path sg, sg_staged_path sg, sg_backup_path sg)"

lemma stages_ok_cong: "stages_ok (T @ sg\<lparr> sg_had_original := h \<rparr> # U) \<longleftrightarrow> stages_ok (T @ sg # U)"
  by (simp add: stages_ok_append stages_ok_Cons own_paths_def)

lemma touched_cong: "touched_ok orig (T @ [sg\<lparr> sg_had_original := h \<rparr>]) fs \<longleftrightarrow> touched_ok orig (T @ [sg]) fs"
  "moved orig (T @ [sg\<lparr> sg_had_original := h \<rparr>]) fs \<longleftrightarrow> moved orig (T @ [sg]) fs"
  by (simp_all add: touched_ok_def moved_def)

lemma backup_cases:
  assumes "backup_original env sg s = (r, s')" "fx_fs s (sg_backup_path sg) = None"
  shows "same_rest s s'" "(\<exists>m. r = Inl (os_error m)) \<and> faulted env s s' \<and> fx_fs s' = fx_fs s
    \<or> r = Inr (present (fx_fs s) (sg_target_path sg))
       \<and> fx_fs s' = (fx_fs s)(sg_target_path sg := None, sg_backup_path sg := fx_fs s (sg_target_path sg))"
proof -
  let ?t = "sg_target_path sg" and ?b = "sg_backup_path sg"
  obtain r1 s1 where 1: "make_parent env s = (r1, s1)" by (cases "make_parent env s")
  note m1 = call_unit [OF 1 [unfolded make_parent_def]]
  obtain r2 s2 where 2: "make_parent env s1 = (r2, s2)" by (cases "make_parent env s1")
  note m2 = call_unit [OF 2 [unfolded make_parent_def]]
  obtain r3 s3 where 3: "os_replace env ?t ?b s2 = (r3, s3)" by (cases "os_replace env ?t ?b s2")
  have b: "fx_fs s2 ?b = None" using assms(2) m1(2) m2(2) by simp
  have run: "(r, s') = (case r1 of Inl e \<Rightarrow> (Inl e, s1) | Inr _ \<Rightarrow> if present (fx_fs s) ?t
      then (case r2 of Inl e \<Rightarrow> (Inl e, s2) | Inr _ \<Rightarrow> (case r3 of Inl e \<Rightarrow> (Inl e, s3) | Inr _ \<Rightarrow> (Inr True, s3))) else (Inr False, s1))"
    using assms(1) 1 2 3 m1(2) by (auto simp: backup_original_def sbind_def sreturn_def split: sum.splits)
  have "same_rest s s' \<and> ((\<exists>m. r = Inl (os_error m)) \<and> faulted env s s' \<and> fx_fs s' = fx_fs s
    \<or> r = Inr (present (fx_fs s) ?t) \<and> fx_fs s' = (fx_fs s)(?t := None, ?b := fx_fs s ?t))"
  proof (cases r1)
    case (Inl e)
    then show ?thesis using run m1 by auto
  next
    case r1: (Inr u)
    show ?thesis
    proof (cases "present (fx_fs s) ?t")
      case False
      then have "(fx_fs s)(?t := None, ?b := fx_fs s ?t) = fx_fs s" using assms(2) by (auto simp: fun_eq_iff present_def)
      then show ?thesis using run r1 False m1 by simp
    next
      case True
      then obtain x where x: "fx_fs s ?t = Some x" by (auto simp: present_def)
      then have t: "fx_fs s2 ?t = Some x" using m1(2) m2(2) by simp
      note p = replace_absent [OF 3 t b]
      have s2: "same_rest s s2" by (rule same_rest_trans [OF m1(1) m2(1)])
      show ?thesis
      proof (cases r2)
        case (Inl e)
        then show ?thesis using run r1 True m1 m2 s2 faulted_mono [of env s1 s2 s s2] by auto
      next
        case r2: (Inr u)
        have s3: "same_rest s s3" by (rule same_rest_trans [OF s2 p(1)])
        show ?thesis
        proof (cases r3)
          case (Inl e)
          then show ?thesis using run r1 r2 True m1(2) m2(2) s3 p(2) faulted_mono [of env s2 s3 s s3] s2 by auto
        next
          case (Inr u)
          then have "fx_fs s3 = (fx_fs s)(?t := None, ?b := fx_fs s ?t)" using p(2) m1(2) m2(2) x by simp
          then show ?thesis using run r1 r2 True Inr s3 by simp
        qed
      qed
    qed
  qed
  then show "same_rest s s'" "(\<exists>m. r = Inl (os_error m)) \<and> faulted env s s' \<and> fx_fs s' = fx_fs s
    \<or> r = Inr (present (fx_fs s) ?t) \<and> fx_fs s' = (fx_fs s)(?t := None, ?b := fx_fs s ?t)" by blast+
qed

lemma touched_okD:
  assumes "touched_ok orig T fs" "stages_ok (T @ sg # sgs)" "p \<in> {sg_target_path sg, sg_staged_path sg, sg_backup_path sg}"
  shows "fs p = orig p"
proof -
  have "p \<notin> sg_target_path ` set T \<union> sg_staged_path ` set T \<union> sg_backup_path ` set T"
    using stages_ok_apart [OF assms(2)] assms(3) unfolding own_paths_def by blast
  then show ?thesis using assms(1) by (simp add: touched_ok_def)
qed

lemma touched_ok_step:
  assumes t: "touched_ok orig T fs" and ok: "stages_ok (T @ sg # sgs)"
    and fs': "fs' = fs(sg_target_path sg := v, sg_staged_path sg := w, sg_backup_path sg := orig (sg_target_path sg))"
  shows "touched_ok orig (T @ [sg]) fs'"
proof -
  have "sg_backup_path x \<notin> {sg_target_path sg, sg_staged_path sg, sg_backup_path sg}" if "x \<in> set T" for x
    using stages_ok_apart [OF ok that] by (auto simp: own_paths_def)
  then show ?thesis using t unfolding fs' touched_ok_def by auto
qed

lemma moved_step:
  assumes "moved orig T fs" "stages_ok (T @ sg # sgs)" "path_exists orig (sg_staged_path sg)"
    and fs': "fs' = fs(sg_target_path sg := orig (sg_staged_path sg), sg_staged_path sg := w, sg_backup_path sg := u)"
  shows "moved orig (T @ [sg]) fs'"
proof -
  have a: "sg_target_path x \<notin> {sg_target_path sg, sg_staged_path sg, sg_backup_path sg}" if "x \<in> set T" for x
    using stages_ok_apart [OF assms(2) that] by (auto simp: own_paths_def)
  have "sg_target_path sg \<noteq> sg_staged_path sg" "sg_target_path sg \<noteq> sg_backup_path sg" using assms(2) by (simp_all add: stages_ok_append stages_ok_Cons)
  then show ?thesis using assms(1,3) a unfolding fs' moved_def by auto
qed

definition none_backed_up :: "(path \<Rightarrow> fs_node option) \<Rightarrow> output_stage list \<Rightarrow> bool" where
  "none_backed_up orig sgs \<longleftrightarrow> (\<forall>sg\<in>set sgs. orig (sg_backup_path sg) = None)"

text \<open>What the publishing loop does, whatever call fails.\<close>

lemma publish_loop_spec:
  "publish_loop env sgs T s = ((T', r), s') \<Longrightarrow> touched_ok orig T (fx_fs s) \<Longrightarrow> moved orig T (fx_fs s) \<Longrightarrow> stages_ok (T @ sgs) \<Longrightarrow> none_backed_up orig sgs \<Longrightarrow>
   same_rest s s' \<and> touched_ok orig T' (fx_fs s') \<and> stages_ok T' \<and> stage_paths ` set T' \<subseteq> stage_paths ` set (T @ sgs)
   \<and> (case r of
        Some e \<Rightarrow> (\<exists>m. e = os_error m) \<and> faulted env s s'
      | None \<Rightarrow> moved orig T' (fx_fs s')
          \<and> stage_paths ` set T' = stage_paths ` set T \<union> stage_paths ` {sg \<in> set sgs. path_exists orig (sg_staged_path sg)})"
proof (induction env sgs T s rule: publish_loop.induct)
  case (1 env touched s)
  then show ?case by auto
next
  case (2 env sg sgs T s)
  note t = 2(4) and mv = 2(5) and ok = 2(6) and nb = 2(7)
  have now: "fx_fs s p = orig p" if "p \<in> {sg_target_path sg, sg_staged_path sg, sg_backup_path sg}" for p
    by (rule touched_okD [OF t ok that])
  have nb': "none_backed_up orig sgs" and b: "orig (sg_backup_path sg) = None" using nb by (auto simp: none_backed_up_def)
  have okT: "stages_ok T" using ok by (simp add: stages_ok_append)
  have pe: "path_exists (fx_fs s) (sg_staged_path sg) = path_exists orig (sg_staged_path sg)"
    using now [of "sg_staged_path sg"] by (simp add: path_exists_def)
  show ?case
  proof (cases "path_exists orig (sg_staged_path sg)")
    case False
    have ok': "stages_ok (T @ sgs)" using ok by (simp add: stages_ok_append stages_ok_Cons)
    have "publish_loop env sgs T s = ((T', r), s')" using 2(3) False pe by simp
    from 2(1) [OF _ this t mv ok' nb'] False pe have "same_rest s s' \<and> touched_ok orig T' (fx_fs s') \<and> stages_ok T'
        \<and> stage_paths ` set T' \<subseteq> stage_paths ` set (T @ sgs)
        \<and> (case r of Some e \<Rightarrow> (\<exists>m. e = os_error m) \<and> faulted env s s'
          | None \<Rightarrow> moved orig T' (fx_fs s') \<and> stage_paths ` set T' = stage_paths ` set T \<union> stage_paths ` {sg \<in> set sgs. path_exists orig (sg_staged_path sg)})"
      by simp
    moreover have "{x \<in> set (sg # sgs). path_exists orig (sg_staged_path x)} = {x \<in> set sgs. path_exists orig (sg_staged_path x)}" using False by auto
    ultimately show ?thesis by (auto split: option.splits)
  next
    case True
    obtain r1 s1 where 1: "backup_original env sg s = (r1, s1)" by (cases "backup_original env sg s")
    have "fx_fs s (sg_backup_path sg) = None" using now b by simp
    note bk = backup_cases [OF 1 this]
    show ?thesis
    proof (cases r1)
      case (Inl e)
      then have "T' = T" "r = Some e" "s' = s1" using 2(3) True pe 1 by simp_all
      then show ?thesis using bk Inl t okT by auto
    next
      case (Inr had)
      let ?sg = "sg\<lparr> sg_had_original := had \<rparr>"
      have fs1: "fx_fs s1 = (fx_fs s)(sg_target_path sg := None, sg_backup_path sg := orig (sg_target_path sg))"
        and had: "had = present (fx_fs s) (sg_target_path sg)" using bk(2) Inr now [of "sg_target_path sg"] by auto
      obtain r2 s2 where r2: "os_replace env (sg_staged_path sg) (sg_target_path sg) s1 = (r2, s2)"
        by (cases "os_replace env (sg_staged_path sg) (sg_target_path sg) s1")
      obtain x where x: "orig (sg_staged_path sg) = Some x" using True by (auto simp: path_exists_def split: option.splits)
      have ne: "sg_target_path sg \<noteq> sg_staged_path sg" "sg_target_path sg \<noteq> sg_backup_path sg" "sg_staged_path sg \<noteq> sg_backup_path sg"
        using ok by (simp_all add: stages_ok_append stages_ok_Cons)
      have "fx_fs s1 (sg_staged_path sg) = Some x" "fx_fs s1 (sg_target_path sg) = None" using fs1 ne x now [of "sg_staged_path sg"] by simp_all
      note p = replace_absent [OF r2 this]
      have rest: "same_rest s s2" by (rule same_rest_trans [OF bk(1) p(1)])
      have okS: "stages_ok (T @ [?sg])" "stages_ok ((T @ [?sg]) @ sgs)"
        using ok by (simp_all add: stages_ok_append stages_ok_Cons own_paths_def)
      show ?thesis
      proof (cases r2)
        case e: (Inl e)
        then have fs2: "fx_fs s2 = fx_fs s1" "(\<exists>m. e = os_error m)" "faulted env s1 s2" using p(2) by auto
        have res: "r = Some e" "s' = s2" "T' = (if had then T @ [?sg] else T)"
          using 2(3) True pe 1 Inr r2 e by (simp_all add: Let_def split: if_splits)
        have "touched_ok orig T' (fx_fs s')"
        proof (cases had)
          case True
          have "fx_fs s2 = (fx_fs s)(sg_target_path sg := None, sg_staged_path sg := orig (sg_staged_path sg), sg_backup_path sg := orig (sg_target_path sg))"
            unfolding fs2(1) fs1 using ne now [of "sg_staged_path sg"] by (auto simp: fun_eq_iff)
          from touched_ok_step [OF t ok this] show ?thesis using True res touched_cong by simp
        next
          case False
          then have "orig (sg_target_path sg) = None" using had now [of "sg_target_path sg"] by (simp add: present_def)
          then have "fx_fs s2 = fx_fs s" using fs2(1) fs1 b now by (auto simp: fun_eq_iff)
          then show ?thesis using False res t by simp
        qed
        moreover have "stages_ok T'" using res(3) okS(1) okT by (cases had) simp_all
        moreover have "stage_paths ` set T' \<subseteq> stage_paths ` set (T @ sg # sgs)" using res(3) by (auto simp: stage_paths_def)
        ultimately show ?thesis using res rest fs2(2) faulted_mono [OF fs2(3) bk(1) same_rest_refl] by simp
      next
        case u: (Inr u)
        have fs2: "fx_fs s2 = (fx_fs s)(sg_target_path sg := orig (sg_staged_path sg), sg_staged_path sg := None, sg_backup_path sg := orig (sg_target_path sg))"
          using p(2) u fs1 ne x by (auto simp: fun_eq_iff)
        have run: "publish_loop env sgs (T @ [?sg]) s2 = ((T', r), s')" using 2(3) True pe 1 Inr r2 u by (simp add: Let_def)
        have t2: "touched_ok orig (T @ [?sg]) (fx_fs s2)" unfolding touched_cong by (rule touched_ok_step [OF t ok fs2])
        have m2: "moved orig (T @ [?sg]) (fx_fs s2)" unfolding touched_cong by (rule moved_step [OF mv ok True fs2])
        have IH: "same_rest s2 s' \<and> touched_ok orig T' (fx_fs s') \<and> stages_ok T' \<and> stage_paths ` set T' \<subseteq> stage_paths ` set ((T @ [?sg]) @ sgs)
          \<and> (case r of Some e \<Rightarrow> (\<exists>m. e = os_error m) \<and> faulted env s2 s'
            | None \<Rightarrow> moved orig T' (fx_fs s') \<and> stage_paths ` set T' = stage_paths ` set (T @ [?sg]) \<union> stage_paths ` {sg \<in> set sgs. path_exists orig (sg_staged_path sg)})"
          by (rule 2(2) [OF _ 1 [unfolded Inr, symmetric] refl refl r2 [unfolded u, symmetric] refl run t2 m2 okS(2) nb']) (use True pe in simp)
        have sp: "stage_paths ?sg = stage_paths sg" by (simp add: stage_paths_def)
        have ex: "{x \<in> set (sg # sgs). path_exists orig (sg_staged_path x)} = insert sg {x \<in> set sgs. path_exists orig (sg_staged_path x)}" using True by auto
        have "faulted env s2 s' \<Longrightarrow> faulted env s s'" using faulted_mono [OF _ rest same_rest_refl] .
        then show ?thesis using IH same_rest_trans [OF rest, of s'] sp unfolding ex by (auto split: option.splits)
      qed
    qed
  qed
qed

text \<open>At most one call of the operating system fails.\<close>

definition single_fault :: "'e fs_env_scheme \<Rightarrow> bool" where
  "single_fault env \<longleftrightarrow> (\<forall>m n. fe_fault env m \<noteq> None \<longrightarrow> fe_fault env n \<noteq> None \<longrightarrow> m = n)"

lemma faulted_no_more: "single_fault env \<Longrightarrow> faulted env s s' \<Longrightarrow> no_fault_from env (fx_calls s')"
  unfolding single_fault_def faulted_def no_fault_from_def by (metis leD)

lemma stage_paths_image:
  assumes "stage_paths ` set T \<subseteq> stage_paths ` set U"
  shows "sg_target_path ` set T \<subseteq> sg_target_path ` set U" "sg_staged_path ` set T \<subseteq> sg_staged_path ` set U" "sg_backup_path ` set T \<subseteq> sg_backup_path ` set U"
proof -
  have sel: "sg_target_path sg = fst (stage_paths sg)" "sg_staged_path sg = fst (snd (stage_paths sg))" "sg_backup_path sg = snd (snd (stage_paths sg))" for sg
    by (simp_all add: stage_paths_def)
  show "sg_target_path ` set T \<subseteq> sg_target_path ` set U" "sg_staged_path ` set T \<subseteq> sg_staged_path ` set U" "sg_backup_path ` set T \<subseteq> sg_backup_path ` set U"
    using image_mono [OF assms, of fst] image_mono [OF assms, of "fst \<circ> snd"] image_mono [OF assms, of "snd \<circ> snd"]
    by (simp_all add: image_image sel)
qed

definition all_published :: "(path \<Rightarrow> fs_node option) \<Rightarrow> output_stage list \<Rightarrow> (path \<Rightarrow> fs_node option) \<Rightarrow> bool" where
  "all_published orig sgs fs \<longleftrightarrow>
     (\<forall>sg\<in>set sgs. fs (sg_target_path sg) = (if path_exists orig (sg_staged_path sg) then orig (sg_staged_path sg) else orig (sg_target_path sg)))
     \<and> (\<forall>p. p \<notin> \<Union> (own_paths ` set sgs) \<longrightarrow> fs p = orig p)"

text \<open>Files outside the private directory are as before.\<close>

definition none_published :: "(path \<Rightarrow> fs_node option) \<Rightarrow> output_stage list \<Rightarrow> (path \<Rightarrow> fs_node option) \<Rightarrow> bool" where
  "none_published orig sgs fs \<longleftrightarrow> (\<forall>p. p \<notin> sg_staged_path ` set sgs \<union> sg_backup_path ` set sgs \<longrightarrow> fs p = orig p)"

lemma stages_ok_targets:
  assumes "stages_ok sgs" "sg \<in> set sgs" "x \<in> set sgs" "p \<in> own_paths x" "p = sg_target_path sg"
  shows "x = sg \<and> p = sg_target_path x"
  using assms
proof (induction sgs)
  case (Cons y sgs)
  have apart: "own_paths y \<inter> own_paths z = {}" if "z \<in> set sgs" for z using Cons.prems(1) that by (simp add: stages_ok_Cons)
  have "sg_target_path sg \<in> own_paths sg" by (simp add: own_paths_def)
  then have "x = y \<longleftrightarrow> sg = y" using Cons.prems apart by (metis disjoint_iff set_ConsD)
  then show ?case using Cons by (auto simp: stages_ok_Cons own_paths_def)
qed simp

lemma own_paths_cong: "stage_paths x = stage_paths y \<Longrightarrow> own_paths x = own_paths y"
  by (simp add: own_paths_def stage_paths_def)

lemma loop_publishes:
  assumes t: "touched_ok orig T fs" and m: "moved orig T fs" and ok: "stages_ok sgs"
    and T: "stage_paths ` set T = stage_paths ` {sg \<in> set sgs. path_exists orig (sg_staged_path sg)}"
  shows "all_published orig sgs fs"
  unfolding all_published_def
proof (intro conjI ballI allI impI)
  fix sg assume sg: "sg \<in> set sgs"
  show "fs (sg_target_path sg) = (if path_exists orig (sg_staged_path sg) then orig (sg_staged_path sg) else orig (sg_target_path sg))"
  proof (cases "path_exists orig (sg_staged_path sg)")
    case True
    then have "stage_paths sg \<in> stage_paths ` set T" using sg T by blast
    then obtain x where "x \<in> set T" "stage_paths x = stage_paths sg" by auto
    then show ?thesis using m True by (auto simp: moved_def stage_paths_def)
  next
    case False
    have "sg_target_path sg \<notin> own_paths x" if "x \<in> set T" for x
    proof
      assume a: "sg_target_path sg \<in> own_paths x"
      have "stage_paths x \<in> stage_paths ` {sg \<in> set sgs. path_exists orig (sg_staged_path sg)}" unfolding T [symmetric] by (rule imageI [OF that])
      then obtain y where y: "y \<in> set sgs" "path_exists orig (sg_staged_path y)" "stage_paths x = stage_paths y" by (elim imageE) auto
      have "own_paths x = own_paths y" by (rule own_paths_cong [OF y(3)])
      then have "sg_target_path sg \<in> own_paths y" using a by simp
      then have "y = sg" using stages_ok_targets [OF ok sg y(1) _ refl] by blast
      then show False using y(2) False by simp
    qed
    then have "sg_target_path sg \<notin> sg_target_path ` set T \<union> sg_staged_path ` set T \<union> sg_backup_path ` set T"
      unfolding own_paths_def by blast
    then have "fs (sg_target_path sg) = orig (sg_target_path sg)" using t by (simp add: touched_ok_def)
    then show ?thesis using False by simp
  qed
next
  fix p assume p: "p \<notin> \<Union> (own_paths ` set sgs)"
  have "stage_paths ` set T \<subseteq> stage_paths ` set sgs" using T by auto
  from stage_paths_image [OF this] p have "p \<notin> sg_target_path ` set T \<union> sg_staged_path ` set T \<union> sg_backup_path ` set T"
    unfolding own_paths_def by blast
  then show "fs p = orig p" using t by (simp add: touched_ok_def)
qed

lemma publish_outcome:
  assumes run: "publish_staged_outputs env sgs s = (r, s')" and ok: "stages_ok sgs" and nb: "none_backed_up (fx_fs s) sgs" and single: "single_fault env"
  shows "same_rest s s' \<and> (case r of
      Inr T \<Rightarrow> all_published (fx_fs s) sgs (fx_fs s') \<and> touched_ok (fx_fs s) T (fx_fs s') \<and> stages_ok T \<and> stage_paths ` set T \<subseteq> stage_paths ` set sgs
    | Inl e \<Rightarrow> (\<exists>m. e = os_error m) \<and> faulted env s s' \<and> none_published (fx_fs s) sgs (fx_fs s'))"
proof -
  obtain T rr s1 where l: "publish_loop env sgs [] s = ((T, rr), s1)" by (metis prod.exhaust)
  note spec = publish_loop_spec [OF l, of "fx_fs s"]
  have start: "touched_ok (fx_fs s) [] (fx_fs s)" "moved (fx_fs s) [] (fx_fs s)" "stages_ok ([] @ sgs)" using ok by (simp_all add: touched_ok_def moved_def)
  note L = spec [OF start nb]
  show ?thesis
  proof (cases rr)
    case None
    then have res: "r = Inr T" "s' = s1" using run l by (simp_all add: publish_staged_outputs_def)
    have a: "same_rest s s1" "touched_ok (fx_fs s) T (fx_fs s1)" "stages_ok T" "stage_paths ` set T \<subseteq> stage_paths ` set sgs" "moved (fx_fs s) T (fx_fs s1)"
      and "stage_paths ` set T = stage_paths ` {sg \<in> set sgs. path_exists (fx_fs s) (sg_staged_path sg)}"
      using L unfolding None option.case append_Nil list.set(1) image_empty Un_empty_left by blast+
    then show ?thesis unfolding res sum.case using loop_publishes [OF a(2,5) ok] by blast
  next
    case (Some e)
    have sub: "stage_paths ` set T \<subseteq> stage_paths ` set sgs" and f: "faulted env s s1" and t: "touched_ok (fx_fs s) T (fx_fs s1)" "stages_ok T"
      and sr: "same_rest s s1" and e: "\<exists>m. e = os_error m" using L Some by auto
    from rollback_ok [OF faulted_no_more [OF single f] t(2,1)] obtain s2 where s2: "rollback_published_outputs env T s1 = (Inr (), s2)" "same_rest s1 s2"
      "\<forall>p. p \<notin> sg_staged_path ` set T \<union> sg_backup_path ` set T \<longrightarrow> fx_fs s2 p = fx_fs s p" by blast
    have res: "r = Inl e" "s' = s2" using run l Some s2(1) by (simp_all add: publish_staged_outputs_def sbind_def sraise_def)
    have "none_published (fx_fs s) sgs (fx_fs s')" using s2(3) stage_paths_image(2,3) [OF sub] res(2) unfolding none_published_def by blast
    then show ?thesis using res e same_rest_trans [OF sr s2(2)] faulted_mono [OF f same_rest_refl s2(2)] by simp
  qed
qed

section \<open>What staging prepares\<close>

text \<open>The private directory is fresh: no output the caller names lies in it.\<close>

definition staging_private :: "'e fs_env_scheme \<Rightarrow> bool" where
  "staging_private env \<longleftrightarrow> (\<forall>raw. \<not> prefix (fe_staging_root env) (fe_resolve env (fe_workspace env) raw))"

definition staged_by :: "'e fs_env_scheme \<Rightarrow> nat \<Rightarrow> output_stage \<Rightarrow> bool" where
  "staged_by env i sg \<longleftrightarrow> (\<exists>n raw name. i \<le> n \<and> resolve_workspace_path env raw = Inr (sg_target_path sg) \<and> sg = stage_of env n name raw (sg_target_path sg))"

lemma staged_by_mono: "staged_by env j sg \<Longrightarrow> i \<le> j \<Longrightarrow> staged_by env i sg"
  unfolding staged_by_def by (meson le_trans)

lemma one_stage:
  assumes "output_stage_for_parameter env i name spec kw s = (Inr (Some sg, kw'), s')"
  shows "\<exists>raw. resolve_workspace_path env raw = Inr (sg_target_path sg) \<and> sg = stage_of env i name raw (sg_target_path sg)"
  using assms
  by (auto simp: output_stage_for_parameter_def make_parent_def call_def sbind_def sreturn_def sraise_def Let_def stage_of_def split: option.splits sum.splits)

lemma target_outside: "staging_private env \<Longrightarrow> resolve_workspace_path env raw = Inr t \<Longrightarrow> \<not> prefix (fe_staging_root env) t"
  unfolding staging_private_def resolve_workspace_path_def Let_def by (metis Inl_Inr_False sum.inject(2))

lemma stages_disjoint:
  assumes "staging_private env" "staged_by env (Suc i) y" "sg = stage_of env i name raw t" "resolve_workspace_path env raw = Inr t"
    "\<not> overlapping t (sg_target_path y)"
  shows "own_paths sg \<inter> own_paths y = {}"
proof -
  obtain n raw' name' where y: "Suc i \<le> n" "resolve_workspace_path env raw' = Inr (sg_target_path y)" "y = stage_of env n name' raw' (sg_target_path y)"
    using assms(2) unfolding staged_by_def by blast
  note out = target_outside [OF assms(1)]
  have ne: "str_of_nat i \<noteq> str_of_nat n" using y(1) by (simp add: str_of_nat_inj)
  have yp: "sg_staged_path y = fe_staging_root env @ [''outputs'', str_of_nat n, (if path_name (sg_target_path y) \<noteq> [] then path_name (sg_target_path y) else name')]"
    "sg_backup_path y = fe_staging_root env @ [''backups'', str_of_nat n]" by (subst y(3), simp add: stage_of_def)+
  have t: "t \<noteq> fe_staging_root env @ z" "sg_target_path y \<noteq> fe_staging_root env @ z" for z using out assms(4) y(2) by (metis prefixI)+
  show ?thesis using ne t assms(5) unfolding own_paths_def yp assms(3) by (auto simp: stage_of_def overlapping_def)
qed

lemma validate_targets: "validate_non_overlapping_output_targets ps = Inr u \<Longrightarrow> sorted_wrt (\<lambda>l r. \<not> overlapping l r) ps"
  by (induction ps) (auto simp: find_None_iff split: option.splits)

lemma stage_parameters_ok:
  "stage_parameters env i params kw s = (Inr (kw', sgs), s') \<Longrightarrow> (\<forall>sg\<in>set sgs. staged_by env i sg)
     \<and> (staging_private env \<longrightarrow> sorted_wrt (\<lambda>l r. \<not> overlapping l r) (map sg_target_path sgs) \<longrightarrow> stages_ok sgs)"
proof (induction params arbitrary: i kw kw' sgs s s')
  case Nil
  then show ?case by (simp add: sreturn_def)
next
  case (Cons pr params)
  obtain name spec where pr: "pr = (name, spec)" by fastforce
  obtain sgo kw1 s1 where 1: "output_stage_for_parameter env i name spec kw s = (Inr (sgo, kw1), s1)"
    using Cons.prems by (auto simp: pr sbind_def split: prod.splits sum.splits)
  obtain sgs1 s2 where 2: "stage_parameters env (i + 1) params kw1 s1 = (Inr (kw', sgs1), s2)"
    and sgs: "sgs = (case sgo of None \<Rightarrow> sgs1 | Some x \<Rightarrow> x # sgs1)"
    using Cons.prems 1 by (auto simp: pr sbind_def sreturn_def split: prod.splits sum.splits)
  note IH = Cons.IH [OF 2]
  then have later: "staged_by env i sg" if "sg \<in> set sgs1" for sg using that staged_by_mono [of env "i + 1" sg i] by auto
  show ?case
  proof (cases sgo)
    case None
    then show ?thesis using IH later sgs by simp
  next
    case (Some x)
    obtain raw where x: "resolve_workspace_path env raw = Inr (sg_target_path x)" "x = stage_of env i name raw (sg_target_path x)"
      using one_stage [OF 1 [unfolded Some]] by blast
    have "staged_by env i x" using x unfolding staged_by_def by blast
    moreover have "stages_ok (x # sgs1)" if priv: "staging_private env" and no: "sorted_wrt (\<lambda>l r. \<not> overlapping l r) (map sg_target_path sgs)"
    proof -
      have apart: "own_paths x \<inter> own_paths y = {}" if "y \<in> set sgs1" for y
        by (rule stages_disjoint [OF priv _ x(2,1)]) (use IH that no in \<open>auto simp: sgs Some\<close>)
      have "\<not> prefix (fe_staging_root env) (sg_target_path x)" by (rule target_outside [OF priv x(1)])
      then have "sg_target_path x \<noteq> fe_staging_root env @ z" for z by (metis prefixI)
      moreover have "sg_staged_path x = fe_staging_root env @ [''outputs'', str_of_nat i, (if path_name (sg_target_path x) \<noteq> [] then path_name (sg_target_path x) else name)]"
        "sg_backup_path x = fe_staging_root env @ [''backups'', str_of_nat i]" by (subst x(2), simp add: stage_of_def)+
      ultimately have "distinct [sg_target_path x, sg_staged_path x, sg_backup_path x]" by (simp del: append_assoc)
      then show ?thesis using apart IH priv no by (simp add: stages_ok_Cons sgs Some)
    qed
    ultimately show ?thesis using later sgs Some by simp
  qed
qed

end
