(* ===== verification/Tool_Execution.thy ===== *)
theory Tool_Execution
  imports Tool_Staging Design_Model
begin

text \<open>
  The coordinator of isolated tool runs (\<^verbatim>\<open>src/zaptrace/agent/execution.py\<close>): a mutating tool works on
  a copy of the session in a process of its own, and its outputs and its session state are committed
  only when it has completed. The worker process is an argument: how it ended, what it left at its
  private output paths, its response and whether it could be stopped. Failures of the operating
  system, of the durable store and of the event sink are given by the number of the call. Durations
  and process ids are left out of events and outcomes; a session exists, and asynchronous waiting is
  the theory \<open>Execution_Locks\<close>.
\<close>

section \<open>Sessions, workers, outcomes\<close>

text \<open>A design is a model object, or plain JSON once it has come back from a worker.\<close>

datatype stored_design = Model design | Json pyval

record design_mapping =
  dm_durable :: bool \<comment> \<open>\<^verbatim>\<open>PersistentDesignDict\<close> or a plain \<^verbatim>\<open>dict\<close>\<close>
  dm_items :: "(string, stored_design) dict"

record exec_session =
  es_designs :: "design_mapping option" \<comment> \<open>the key \<^verbatim>\<open>"designs"\<close> may be missing\<close>
  es_rest :: "(string, pyval) dict"

datatype worker_ending = Ended | Timed_Out | Cancelled_Starting | Cancelled_Running

datatype response_file = No_Response | Bad_Json string | Json_Value pyval

record worker_run =
  wr_ending :: worker_ending
  wr_files :: "path \<Rightarrow> fs_node option"
  wr_response :: response_file
  wr_stderr :: string
  wr_returncode :: int
  wr_stopped :: bool

record exec_env = fs_env +
  xe_posix :: bool
  xe_sink :: bool
  xe_sink_fault :: "nat \<Rightarrow> py_error option"
  xe_store_fault :: "nat \<Rightarrow> py_error option"
  xe_cancelled_waiting :: bool \<comment> \<open>while it waits for output locks\<close>
  xe_worker :: "(string, pyval) dict \<Rightarrow> pyval \<Rightarrow> worker_run"
  xe_dump :: "design \<Rightarrow> pyval"
  xe_repr :: "pyval \<Rightarrow> string"
  xe_str :: "pyval \<Rightarrow> string"
  xe_pairs :: "pyval \<Rightarrow> (string, pyval) dict result" \<comment> \<open>\<^verbatim>\<open>dict(v)\<close> of a value that is no dictionary\<close>
  xe_float_str :: "pyfloat \<Rightarrow> string"

record exec_job =
  ej_tool_name :: string
  ej_module :: string
  ej_qualname :: string
  ej_params :: "(string \<times> pyval) list"
  ej_kwargs :: "(string, pyval) dict"
  ej_session_id :: string
  ej_timeout_s :: pyfloat
  ej_job_id :: string

record tool_execution_outcome =
  to_status :: string
  to_result :: pyval
  to_error :: "string option"
  to_worker_terminated :: bool
  to_job_id :: string
  to_exception_type :: "string option"

record exec_state = fs_state +
  xs_session :: exec_session
  xs_store :: "(string, stored_design) dict" \<comment> \<open>the session's designs in the durable store\<close>
  xs_destroyed :: bool
  xs_events :: "(string \<times> (string, pyval) dict) list"
  xs_journal :: string \<comment> \<open>the phase last recorded\<close>
  xs_locks :: "path list" \<comment> \<open>output locks held by this process\<close>
  xs_running :: "bool option" \<comment> \<open>the worker process, once there is one\<close>

type_synonym 'a exec = "exec_state \<Rightarrow> 'a result \<times> exec_state"

definition cancelled_error :: py_error where
  "cancelled_error = AdapterError ''CancelledError'' []"

definition session_destroyed_error :: "string \<Rightarrow> py_error" where
  "session_destroyed_error session_id = AdapterError ''SessionDestroyedError'' (''Session '' @ sq @ session_id @ sq @ '' has been destroyed'')"

text \<open>\<^verbatim>\<open>except (OSError, ValueError, TypeError, KeyError, RuntimeError)\<close>\<close>

fun handled :: "py_error \<Rightarrow> bool" where
  "handled (AdapterError c _) = (c \<in> {''OSError'', ''SessionDestroyedError''})"
| "handled (IntegrityError _) = False" \<comment> \<open>an exception of SQLite\<close>
| "handled (IndexError _) = False"
| "handled _ = True"

definition attempt :: "(nat \<Rightarrow> py_error option) \<Rightarrow> 'a exec \<Rightarrow> 'a exec" where
  "attempt fault m s =
     (let s1 = s\<lparr> fx_calls := fx_calls s + 1 \<rparr>
      in case fault (fx_calls s) of Some e \<Rightarrow> (Inl e, s1) | None \<Rightarrow> m s1)"

definition emit_execution_event :: "exec_env \<Rightarrow> string \<Rightarrow> (string, pyval) dict \<Rightarrow> unit exec" where
  "emit_execution_event env decision metadata =
     (if \<not> xe_sink env then sreturn ()
      else attempt (xe_sink_fault env) (supdate (\<lambda>s. s\<lparr> xs_events := xs_events s @ [(decision, metadata)] \<rparr>)))"

definition emit_lifecycle_event_safely :: "exec_env \<Rightarrow> string \<Rightarrow> (string, pyval) dict \<Rightarrow> exec_state \<Rightarrow> py_error option \<times> exec_state" where
  "emit_lifecycle_event_safely env decision metadata s =
     (case emit_execution_event env decision metadata s of (Inl e, s1) \<Rightarrow> (Some e, s1) | (Inr _, s1) \<Rightarrow> (None, s1))"

definition write_recovery_journal :: "exec_env \<Rightarrow> string \<Rightarrow> unit exec" where
  "write_recovery_journal env phase = call env (supdate (\<lambda>s. s\<lparr> xs_journal := phase \<rparr>))"

section \<open>The state of the session\<close>

definition audit_event_identity :: "exec_env \<Rightarrow> pyval \<Rightarrow> string" where
  "audit_event_identity env event =
     (let event_id = (case event of PDict d \<Rightarrow> dict_get d ''event_id'' | _ \<Rightarrow> None) in
      case event_id of
        Some v \<Rightarrow> if truthy v then (case v of PStr t \<Rightarrow> t | _ \<Rightarrow> xe_str env v) else xe_repr env event
      | None \<Rightarrow> xe_repr env event)"

definition add_event :: "exec_env \<Rightarrow> pyval \<Rightarrow> pyval list \<Rightarrow> pyval list" where
  "add_event env event combined =
     (if audit_event_identity env event \<in> set (map (audit_event_identity env) combined) then combined else combined @ [event])"

definition unique_audit_events :: "exec_env \<Rightarrow> pyval list \<Rightarrow> pyval list" where
  "unique_audit_events env collections =
     fold (add_event env) (concat (map (\<lambda>c. case c of PList xs \<Rightarrow> xs | _ \<Rightarrow> []) collections)) []"

definition event_timestamp :: "pyval \<Rightarrow> string option" where
  "event_timestamp event = (case event of PDict d \<Rightarrow> (case dict_get d ''timestamp'' of Some (PStr t) \<Rightarrow> Some t | _ \<Rightarrow> None) | _ \<Rightarrow> None)"

definition merge_audit_events :: "exec_env \<Rightarrow> pyval \<Rightarrow> pyval \<Rightarrow> pyval list" where
  "merge_audit_events env incoming current =
     (let combined = unique_audit_events env [incoming, current] in
      if list_all (\<lambda>e. event_timestamp e \<noteq> None) combined then sort_key (\<lambda>e. the (event_timestamp e)) combined else combined)"

definition audit_of :: "(string, pyval) dict \<Rightarrow> pyval" where
  "audit_of d = (case dict_get d ''audit_events'' of None \<Rightarrow> PList [] | Some v \<Rightarrow> v)"

definition merged_rest :: "exec_env \<Rightarrow> (string, pyval) dict \<Rightarrow> (string, pyval) dict \<Rightarrow> (string, pyval) dict" where
  "merged_rest env incoming current =
     (let merged = merge_audit_events env (audit_of incoming) (audit_of current)
      in if merged \<noteq> [] then dict_set ''audit_events'' (PList merged) incoming else incoming)"

text \<open>
  The session is emptied before the designs are put back, so when the durable store fails the key
  \<^verbatim>\<open>"designs"\<close> is missing.
\<close>

definition replace_session_state ::
  "exec_env \<Rightarrow> string \<Rightarrow> (string, stored_design) dict result \<Rightarrow> (string, pyval) dict \<Rightarrow> bool \<Rightarrow> unit exec" where
  "replace_session_state env session_id incoming_designs incoming_rest merge_current_audit s =
     (if xs_destroyed s then (Inl (session_destroyed_error session_id), s)
      else case incoming_designs of
        Inl e \<Rightarrow> (Inl e, s)
      | Inr ds \<Rightarrow>
          (let current = xs_session s;
               durable = (case es_designs current of None \<Rightarrow> False | Some m \<Rightarrow> dm_durable m);
               replacement = (if merge_current_audit then merged_rest env incoming_rest (es_rest current) else incoming_rest);
               s1 = s\<lparr> xs_session := \<lparr> es_designs = None, es_rest = replacement \<rparr> \<rparr>;
               filled = \<lparr> es_designs = Some \<lparr> dm_durable = durable, dm_items = ds \<rparr>, es_rest = replacement \<rparr> in
           if durable then attempt (xe_store_fault env) (supdate (\<lambda>s. s\<lparr> xs_store := ds, xs_session := filled \<rparr>)) s1
           else (Inr (), s1\<lparr> xs_session := filled \<rparr>)))"

definition clone_session_state :: "exec_session \<Rightarrow> (string, stored_design) dict \<times> (string, pyval) dict" where
  "clone_session_state x = ((case es_designs x of None \<Rightarrow> [] | Some m \<Rightarrow> dm_items m), es_rest x)"

definition restore_session_state :: "exec_env \<Rightarrow> string \<Rightarrow> (string, stored_design) dict \<times> (string, pyval) dict \<Rightarrow> unit exec" where
  "restore_session_state env session_id previous s =
     (case replace_session_state env session_id (Inr (fst previous)) (snd previous) False s of
        (Inl e, s1) \<Rightarrow>
          (Inl (if handled e then RuntimeError ''session commit failed and previous state could not be restored'' else e), s1)
      | (Inr _, s1) \<Rightarrow> (Inr (), s1))"

text \<open>\<^verbatim>\<open>dict(v)\<close>, and the designs of a decoded session.\<close>

definition as_dict :: "exec_env \<Rightarrow> pyval \<Rightarrow> (string, pyval) dict result" where
  "as_dict env v = (case v of PDict d \<Rightarrow> Inr d | _ \<Rightarrow> xe_pairs env v)"

definition incoming_designs_of :: "exec_env \<Rightarrow> (string, pyval) dict \<Rightarrow> (string, stored_design) dict result" where
  "incoming_designs_of env incoming =
     (case as_dict env (case dict_get incoming ''designs'' of None \<Rightarrow> PDict [] | Some v \<Rightarrow> v) of
        Inl e \<Rightarrow> Inl e
      | Inr ds \<Rightarrow> Inr (map (map_prod id Json) ds))"

definition commit_session_state ::
  "exec_env \<Rightarrow> string \<Rightarrow> (string, pyval) dict \<Rightarrow> ((string, stored_design) dict \<times> (string, pyval) dict) exec" where
  "commit_session_state env session_id incoming s =
     (if xs_destroyed s then (Inl (session_destroyed_error session_id), s)
      else
        let previous = clone_session_state (xs_session s) in
        case replace_session_state env session_id (incoming_designs_of env incoming) (dict_pop ''designs'' incoming) True s of
          (Inl e, s1) \<Rightarrow> if handled e then sbind (restore_session_state env session_id previous) (\<lambda>_. sraise e) s1 else (Inl e, s1)
        | (Inr _, s1) \<Rightarrow> (Inr previous, s1))"

section \<open>The worker\<close>

definition session_json :: "exec_env \<Rightarrow> exec_session \<Rightarrow> pyval" where
  "session_json env x =
     PDict (dict_set ''designs''
       (PDict (map (map_prod id (\<lambda>d. case d of Model m \<Rightarrow> xe_dump env m | Json v \<Rightarrow> v)) (fst (clone_session_state x)))) (es_rest x))"

definition resolve_tool_identity :: "exec_job \<Rightarrow> unit result" where
  "resolve_tool_identity job =
     (if ej_module job = [] \<or> ej_qualname job = [] \<or> contains ''<locals>'' (ej_qualname job)
      then Inl (ValueError ''isolated mutating tools must use importable top-level callables'') else Inr ())"

definition terminated_text :: "bool \<Rightarrow> (string, pyval) dict" where
  "terminated_text b = [(''worker_terminated'', PBool b)]"

definition reason_text :: "string \<Rightarrow> (string, pyval) dict" where
  "reason_text r = [(''reason'', PStr r)]"

text \<open>Stopping the worker: the three events are tried whatever the sink does.\<close>

definition terminate_and_record :: "exec_env \<Rightarrow> worker_run \<Rightarrow> string \<Rightarrow> string \<Rightarrow> (string, pyval) dict \<Rightarrow> bool exec" where
  "terminate_and_record env w decision reason request_metadata s =
     (let (audit_error, s1) = emit_lifecycle_event_safely env decision request_metadata s;
          terminated = wr_stopped w;
          (termination_error, s2) = emit_lifecycle_event_safely env ''worker_terminated'' (terminated_text terminated) (s1\<lparr> xs_running := Some False \<rparr>);
          (rollback_error, s3) = emit_lifecycle_event_safely env ''rollback'' (reason_text reason @ terminated_text terminated) s2 in
      case (case audit_error of Some e \<Rightarrow> Some e | None \<Rightarrow> case termination_error of Some e \<Rightarrow> Some e | None \<Rightarrow> rollback_error) of
        Some e \<Rightarrow> (Inl (RuntimeError (''execution lifecycle audit failed: '' @ exc_str e)), s3)
      | None \<Rightarrow> (Inr terminated, s3))"

definition error_outcome :: "exec_job \<Rightarrow> string \<Rightarrow> string option \<Rightarrow> bool \<Rightarrow> tool_execution_outcome" where
  "error_outcome job error exception_type terminated =
     \<lparr> to_status = ''error'', to_result = PNone, to_error = Some error, to_worker_terminated = terminated, to_job_id = ej_job_id job,
       to_exception_type = exception_type \<rparr>"

definition communicate_with_deadline :: "exec_env \<Rightarrow> exec_job \<Rightarrow> worker_run \<Rightarrow> tool_execution_outcome option exec" where
  "communicate_with_deadline env job w =
     (case wr_ending w of
        Timed_Out \<Rightarrow>
          sbind (terminate_and_record env w ''timeout'' ''timeout'' [(''timeout_s'', PFloat (ej_timeout_s job))]) (\<lambda>terminated.
            sreturn (Some \<lparr> to_status = ''timeout'', to_result = PNone,
              to_error = Some (''tool timed out after '' @ xe_float_str env (ej_timeout_s job) @ ''s''), to_worker_terminated = terminated,
              to_job_id = ej_job_id job, to_exception_type = None \<rparr>))
      | Cancelled_Running \<Rightarrow>
          sbind (terminate_and_record env w ''cancel_requested'' ''caller cancellation'' []) (\<lambda>_. sraise cancelled_error)
      | _ \<Rightarrow> sbind (supdate (\<lambda>s. s\<lparr> xs_running := Some False \<rparr>)) (\<lambda>_. sreturn None))"

definition or_empty_str :: "exec_env \<Rightarrow> pyval option \<Rightarrow> string" where
  "or_empty_str env v = (case v of None \<Rightarrow> [] | Some x \<Rightarrow> if truthy x then (case x of PStr t \<Rightarrow> t | _ \<Rightarrow> xe_str env x) else [])"

text \<open>A completed response, or the outcome of a worker that failed.\<close>

definition worker_response :: "exec_env \<Rightarrow> exec_job \<Rightarrow> worker_run \<Rightarrow> ((string, pyval) dict + tool_execution_outcome) exec" where
  "worker_response env job w =
     (case wr_response w of
        No_Response \<Rightarrow>
          (let error = (if strip (wr_stderr w) \<noteq> [] then strip (wr_stderr w)
                        else ''isolated worker exited with status '' @ str_of_int (wr_returncode w)) in
           sbind (emit_execution_event env ''rollback'' (reason_text ''worker exited without a response'' @ terminated_text True)) (\<lambda>_.
             sreturn (Inr (error_outcome job error None True))))
      | Bad_Json m \<Rightarrow> sraise (ValueError m)
      | Json_Value (PDict response) \<Rightarrow>
          if dict_get response ''status'' = Some (PStr ''completed'') then sreturn (Inl response)
          else
            (let exception_type = (case or_empty_str env (dict_get response ''exception_type'') of [] \<Rightarrow> None | c # cs \<Rightarrow> Some (c # cs));
                 error = (case or_empty_str env (dict_get response ''error'') of [] \<Rightarrow> ''isolated worker failed'' | c # cs \<Rightarrow> c # cs) in
             sbind (emit_execution_event env ''rollback'' (reason_text ''worker error'' @ terminated_text True
                 @ [(''exception_type'', case exception_type of None \<Rightarrow> PNone | Some t \<Rightarrow> PStr t)])) (\<lambda>_.
               sreturn (Inr (error_outcome job error exception_type True))))
      | Json_Value _ \<Rightarrow> sraise (TypeError ''isolated worker returned an invalid response''))"

section \<open>Committing\<close>

definition commit_worker_response ::
  "exec_env \<Rightarrow> exec_job \<Rightarrow> output_stage list \<Rightarrow> (string, pyval) dict \<Rightarrow> tool_execution_outcome exec" where
  "commit_worker_response env job stages response =
     (case (case dict_get response ''session_state'' of None \<Rightarrow> Inl (KeyError ''session_state'') | Some v \<Rightarrow> as_dict env v) of
        Inl e \<Rightarrow> sraise e
      | Inr session_state \<Rightarrow>
          (let incoming_state = map (map_prod id (rewrite_staged_paths stages)) session_state;
               answer = rewrite_staged_paths stages (case dict_get response ''result'' of None \<Rightarrow> PNone | Some v \<Rightarrow> v) in
           sbind (write_recovery_journal env ''publishing_outputs'') (\<lambda>_.
           sbind (publish_staged_outputs env stages) (\<lambda>published.
           sbind (write_recovery_journal env ''committing_state'') (\<lambda>_ s.
             case commit_session_state env (ej_session_id job) incoming_state s of
               (Inl e, s1) \<Rightarrow>
                 if handled e then sbind (rollback_published_outputs env published) (\<lambda>_. sraise e) s1 else (Inl e, s1)
             | (Inr previous_state, s1) \<Rightarrow>
                 (case sbind (emit_execution_event env ''commit'' (terminated_text True)) (\<lambda>_. write_recovery_journal env ''committed'') s1 of
                    (Inl e, s2) \<Rightarrow>
                      if handled e
                      then sbind (restore_session_state env (ej_session_id job) previous_state) (\<lambda>_.
                             sbind (rollback_published_outputs env published) (\<lambda>_. sraise e)) s2
                      else (Inl e, s2)
                  | (Inr _, s2) \<Rightarrow>
                      (Inr \<lparr> to_status = ''completed'', to_result = answer, to_error = None, to_worker_terminated = True,
                             to_job_id = ej_job_id job, to_exception_type = None \<rparr>, s2)))))))"

definition coordinator_error_outcome :: "exec_env \<Rightarrow> exec_job \<Rightarrow> worker_run \<Rightarrow> py_error \<Rightarrow> tool_execution_outcome exec" where
  "coordinator_error_outcome env job w error s =
     (let worker_terminated = (if xs_running s = Some True then wr_stopped w else True) in
      case (if xs_running s = Some True
            then emit_execution_event env ''worker_terminated'' (terminated_text worker_terminated @ reason_text ''coordinator error'') (s\<lparr> xs_running := Some False \<rparr>)
            else (Inr (), s)) of
        (Inl e, s1) \<Rightarrow> (Inl e, s1)
      | (Inr _, s1) \<Rightarrow>
          (case emit_execution_event env ''rollback'' (reason_text ''coordinator error'' @ terminated_text worker_terminated
                  @ [(''exception_type'', PStr (exc_name error))]) s1 of
             (Inl e, s2) \<Rightarrow> if handled e then (Inr (error_outcome job (exc_str error) (Some (exc_name error)) worker_terminated), s2) else (Inl e, s2)
           | (Inr _, s2) \<Rightarrow> (Inr (error_outcome job (exc_str error) (Some (exc_name error)) worker_terminated), s2)))"

section \<open>A run\<close>

definition acquire_output_locks :: "exec_env \<Rightarrow> output_stage list \<Rightarrow> unit exec" where
  "acquire_output_locks env stages =
     (if xe_cancelled_waiting env then sraise cancelled_error
      else supdate (\<lambda>s. s\<lparr> xs_locks := sort (remdups (map sg_target_path stages)) @ xs_locks s \<rparr>))"

definition private_files :: "output_stage list \<Rightarrow> worker_run \<Rightarrow> (path \<Rightarrow> fs_node option) \<Rightarrow> path \<Rightarrow> fs_node option" where
  "private_files stages w fs p = (if p \<in> sg_staged_path ` set stages then wr_files w p else fs p)"

text \<open>The worker runs on a copy of the session and writes to its private outputs.\<close>

definition run_worker :: "exec_env \<Rightarrow> exec_job \<Rightarrow> (string, pyval) dict \<Rightarrow> output_stage list \<Rightarrow> worker_run \<Rightarrow> unit exec" where
  "run_worker env job rewritten stages w =
     sbind (call env (sreturn ())) (\<lambda>_. \<comment> \<open>the request is written\<close>
     sbind (call env (supdate (\<lambda>s. s\<lparr> xs_running := Some True, fx_fs := private_files stages w (fx_fs s) \<rparr>))) (\<lambda>_.
       if wr_ending w = Cancelled_Starting
       then sbind (terminate_and_record env w ''cancel_requested'' ''caller cancellation during worker startup'' []) (\<lambda>_. sraise cancelled_error)
       else write_recovery_journal env ''worker_running''))"

definition isolated_run :: "exec_env \<Rightarrow> exec_job \<Rightarrow> (string, pyval) dict \<Rightarrow> output_stage list \<Rightarrow> worker_run \<Rightarrow> tool_execution_outcome exec" where
  "isolated_run env job rewritten stages w =
     sbind (run_worker env job rewritten stages w) (\<lambda>_.
     sbind (communicate_with_deadline env job w) (\<lambda>ended.
       case ended of
         Some outcome \<Rightarrow> sreturn outcome
       | None \<Rightarrow>
           if \<not> wr_stopped w then sraise (RuntimeError ''isolated worker process group did not terminate'')
           else
             sbind (worker_response env job w) (\<lambda>response.
               case response of
                 Inr outcome \<Rightarrow> sreturn outcome
               | Inl r \<Rightarrow> commit_worker_response env job stages r)))"

definition run_body :: "exec_env \<Rightarrow> exec_job \<Rightarrow> tool_execution_outcome exec" where
  "run_body env job =
     sbind (prepare_output_staging env (ej_params job) (ej_kwargs job)) (\<lambda>(rewritten, stages).
     sbind (acquire_output_locks env stages) (\<lambda>_.
     sbind (emit_execution_event env ''start'' []) (\<lambda>_ s.
       case resolve_tool_identity job of
         Inl e \<Rightarrow> (Inl e, s)
       | Inr _ \<Rightarrow> isolated_run env job rewritten stages (xe_worker env rewritten (session_json env (xs_session s))) s)))"

definition worker_of :: "exec_env \<Rightarrow> exec_job \<Rightarrow> exec_state \<Rightarrow> worker_run" where
  "worker_of env job s =
     xe_worker env (case fst (prepare_output_staging env (ej_params job) (ej_kwargs job) s) of Inr (rewritten, _) \<Rightarrow> rewritten | Inl _ \<Rightarrow> [])
       (session_json env (xs_session s))"

text \<open>\<^verbatim>\<open>finally\<close>: the private directory is deleted and the output locks are released.\<close>

definition clean_up :: "exec_env \<Rightarrow> path list \<Rightarrow> exec_state \<Rightarrow> exec_state" where
  "clean_up env locks s = s\<lparr> fx_fs := (\<lambda>p. if prefix (fe_staging_root env) p then None else fx_fs s p), xs_locks := locks \<rparr>"

definition execute_locked :: "exec_env \<Rightarrow> exec_job \<Rightarrow> tool_execution_outcome exec" where
  "execute_locked env job =
     sbind (call env (sreturn ())) (\<lambda>_. sbind (call env (sreturn ())) (\<lambda>_. sbind (call env (sreturn ())) (\<lambda>_ s.
       case run_body env job (s\<lparr> xs_running := None \<rparr>) of
         (Inr outcome, s1) \<Rightarrow> (Inr outcome, clean_up env (xs_locks s) s1)
       | (Inl e, s1) \<Rightarrow>
           (case (if handled e then coordinator_error_outcome env job (worker_of env job s) e s1 else (Inl e, s1)) of
              (r, s2) \<Rightarrow> (r, clean_up env (xs_locks s) s2)))))"

definition execute_mutating_tool :: "exec_env \<Rightarrow> exec_job \<Rightarrow> tool_execution_outcome exec" where
  "execute_mutating_tool env job s =
     (if ej_timeout_s job \<le> 0 then (Inl (ValueError ''timeout_s must be positive''), s)
      else if \<not> xe_posix env then
        (let error = ''isolated mutating tool execution requires a POSIX platform'' in
         sbind (emit_execution_event env ''error'' (reason_text error @ [(''exception_type'', PStr ''UnsupportedExecutionPlatformError'')])) (\<lambda>_.
           sreturn (error_outcome job error (Some ''UnsupportedExecutionPlatformError'') True)) s)
      else if xs_destroyed s then
        (Inr \<lparr> to_status = ''conflict'', to_result = PNone, to_error = Some (''Session '' @ sq @ ej_session_id job @ sq @ '' has been destroyed''),
               to_worker_terminated = False, to_job_id = ej_job_id job, to_exception_type = Some ''SessionDestroyedError'' \<rparr>, s)
      else execute_locked env job s)"

section \<open>Failures\<close>

definition failure_at :: "exec_env \<Rightarrow> nat \<Rightarrow> bool" where
  "failure_at env n \<longleftrightarrow> fe_fault env n \<noteq> None \<or> xe_sink_fault env n \<noteq> None \<or> xe_store_fault env n \<noteq> None"

text \<open>One call fails at most, and the sink and the store raise what the coordinator expects.\<close>

definition one_failure :: "exec_env \<Rightarrow> bool" where
  "one_failure env \<longleftrightarrow> (\<forall>m n. failure_at env m \<longrightarrow> failure_at env n \<longrightarrow> m = n)
     \<and> (\<forall>n e. xe_sink_fault env n = Some e \<or> xe_store_fault env n = Some e \<longrightarrow> handled e)"

definition failed :: "exec_env \<Rightarrow> exec_state \<Rightarrow> exec_state \<Rightarrow> bool" where
  "failed env s s' \<longleftrightarrow> (\<exists>k. fx_calls s \<le> k \<and> k < fx_calls s' \<and> failure_at env k)"

text \<open>Only events, the journal and the process may have changed.\<close>

definition quiet :: "exec_state \<Rightarrow> exec_state \<Rightarrow> bool" where
  "quiet s s' \<longleftrightarrow> xs_session s' = xs_session s \<and> xs_store s' = xs_store s \<and> xs_destroyed s' = xs_destroyed s \<and> xs_locks s' = xs_locks s
     \<and> fx_fs s' = fx_fs s \<and> fx_calls s \<le> fx_calls s'"

lemma quiet_refl [simp]: "quiet s s"
  by (simp add: quiet_def)

lemma quiet_trans: "quiet s s1 \<Longrightarrow> quiet s1 s2 \<Longrightarrow> quiet s s2"
  by (simp add: quiet_def)

lemma quiet_running [simp]: "quiet s (s\<lparr> xs_running := x \<rparr>)"
  by (simp add: quiet_def)

lemma failed_mono: "failed env s1 s2 \<Longrightarrow> fx_calls s \<le> fx_calls s1 \<Longrightarrow> fx_calls s2 \<le> fx_calls s3 \<Longrightarrow> failed env s s3"
  unfolding failed_def by (meson le_trans less_le_trans)

lemma failed_quiet: "failed env s1 s2 \<Longrightarrow> quiet s s1 \<Longrightarrow> quiet s2 s3 \<Longrightarrow> failed env s s3"
  by (erule failed_mono) (simp_all add: quiet_def)

lemma no_more_failures:
  assumes "one_failure env" "failed env s s'" "fx_calls s' \<le> n"
  shows "\<not> failure_at env n"
  using assms unfolding one_failure_def failed_def by (metis leD less_le_trans)

lemma no_more_faults: "one_failure env \<Longrightarrow> failed env s s' \<Longrightarrow> no_fault_from env (fx_calls s')"
  unfolding no_fault_from_def using no_more_failures failure_at_def by blast

lemma one_failure_single: "one_failure env \<Longrightarrow> single_fault env"
  unfolding one_failure_def single_fault_def failure_at_def by blast

lemma os_error_handled [simp]: "handled (os_error m)"
  by (simp add: os_error_def)

text \<open>An operation that raises only when a call fails, and then something the coordinator handles.\<close>

definition fails_well :: "exec_env \<Rightarrow> exec_state \<Rightarrow> 'a result \<times> exec_state \<Rightarrow> bool" where
  "fails_well env s rs \<longleftrightarrow> quiet s (snd rs) \<and> (case fst rs of Inr _ \<Rightarrow> True | Inl e \<Rightarrow> handled e \<and> failed env s (snd rs))"

lemma emit_well: "one_failure env \<Longrightarrow> fails_well env s (emit_execution_event env d m s)"
  by (auto simp: fails_well_def emit_execution_event_def attempt_def supdate_def sreturn_def quiet_def Let_def failed_def one_failure_def failure_at_def
      split: option.splits)

lemma call_quiet_well: "(\<And>s. quiet s (f s)) \<Longrightarrow> fails_well env s (call env (supdate f) s)"
proof -
  let ?s1 = "s\<lparr> fx_calls := fx_calls s + 1 \<rparr>"
  assume "\<And>s. quiet s (f s)"
  then have "quiet ?s1 (f ?s1)" .
  then have "quiet s (f ?s1)" "quiet s ?s1" by (simp_all add: quiet_def)
  moreover have "failed env s ?s1" if "fe_fault env (fx_calls s) \<noteq> None" using that by (auto simp: failed_def failure_at_def)
  ultimately show ?thesis
    by (cases "fe_fault env (fx_calls s)") (simp_all add: fails_well_def call_def supdate_def Let_def)
qed

lemma journal_well: "fails_well env s (write_recovery_journal env phase s)"
  unfolding write_recovery_journal_def by (rule call_quiet_well) (simp add: quiet_def)

lemma sbind_well:
  assumes "fails_well env s (m s)" "\<And>x s1. m s = (Inr x, s1) \<Longrightarrow> fails_well env s1 (f x s1)"
  shows "fails_well env s (sbind m f s)"
proof (cases "m s")
  case (Pair r s1)
  show ?thesis
  proof (cases r)
    case (Inl e)
    then show ?thesis using assms(1) Pair by (simp add: sbind_def fails_well_def)
  next
    case (Inr x)
    have q: "quiet s s1" using assms(1) Pair by (simp add: fails_well_def)
    have "fails_well env s1 (f x s1)" using assms(2) Pair Inr by simp
    then show ?thesis using q Pair Inr quiet_trans failed_quiet [OF _ q quiet_refl]
      by (auto simp: sbind_def fails_well_def split: sum.splits)
  qed
qed

lemma sreturn_well [simp]: "fails_well env s (sreturn x s)"
  by (simp add: fails_well_def sreturn_def)

lemma lifecycle_quiet: "one_failure env \<Longrightarrow> emit_lifecycle_event_safely env d m s = (e, s') \<Longrightarrow> quiet s s' \<and> (e \<noteq> None \<longrightarrow> failed env s s')"
  using emit_well [of env s d m] by (auto simp: emit_lifecycle_event_safely_def fails_well_def split: prod.splits sum.splits)

lemma terminate_well: "one_failure env \<Longrightarrow> fails_well env s (terminate_and_record env w d r m s)"
proof -
  assume one: "one_failure env"
  obtain e1 s1 where 1: "emit_lifecycle_event_safely env d m s = (e1, s1)" by fastforce
  obtain e2 s2 where 2: "emit_lifecycle_event_safely env ''worker_terminated'' (terminated_text (wr_stopped w)) (s1\<lparr> xs_running := Some False \<rparr>) = (e2, s2)" by fastforce
  obtain e3 s3 where 3: "emit_lifecycle_event_safely env ''rollback'' (reason_text r @ terminated_text (wr_stopped w)) s2 = (e3, s3)" by fastforce
  note q = lifecycle_quiet [OF one 1] lifecycle_quiet [OF one 2] lifecycle_quiet [OF one 3]
  have q2: "quiet s1 s2" using q(2) quiet_trans [OF quiet_running] by blast
  have q13: "quiet s s3" using q(1,3) q2 quiet_trans by blast
  have "failed env s s3" if "e1 \<noteq> None \<or> e2 \<noteq> None \<or> e3 \<noteq> None"
    using that
  proof (elim disjE)
    assume "e1 \<noteq> None"
    then show ?thesis using q(1,3) q2 failed_quiet quiet_refl quiet_trans by metis
  next
    assume "e2 \<noteq> None"
    then have "failed env (s1\<lparr> xs_running := Some False \<rparr>) s2" using q(2) by blast
    then show ?thesis using q(1,3) failed_quiet quiet_trans [OF _ quiet_running] by metis
  next
    assume "e3 \<noteq> None"
    then show ?thesis using q(1,3) q2 failed_quiet quiet_refl quiet_trans by metis
  qed
  then show ?thesis using q13 1 2 3 by (auto simp: terminate_and_record_def fails_well_def split: option.splits)
qed

lemma emitD:
  assumes "one_failure env"
  shows "emit_execution_event env d m s = (Inr u, s') \<Longrightarrow> quiet s s'"
    "emit_execution_event env d m s = (Inl e, s') \<Longrightarrow> quiet s s'" "emit_execution_event env d m s = (Inl e, s') \<Longrightarrow> handled e"
  using emit_well [OF assms, of s d m] by (simp_all add: fails_well_def)

lemma worker_response_quiet:
  assumes "one_failure env" "worker_response env job w s = (r, s')"
  shows "quiet s s'" "r = Inr (Inr out) \<Longrightarrow> to_status out = ''error''" "r = Inl e \<Longrightarrow> handled e"
    "r = Inr (Inl d) \<Longrightarrow> wr_response w = Json_Value (PDict d) \<and> dict_get d ''status'' = Some (PStr ''completed'') \<and> s' = s"
  using assms(2)
  by (auto simp: worker_response_def sbind_def sreturn_def sraise_def Let_def error_outcome_def
      split: response_file.splits pyval.splits prod.splits sum.splits if_splits dest: emitD [OF assms(1)])

section \<open>A commit\<close>

definition plain_session :: "exec_session \<Rightarrow> bool" where
  "plain_session x \<longleftrightarrow> (\<exists>ds. es_designs x = Some \<lparr> dm_durable = False, dm_items = ds \<rparr>)"

definition json_designs :: "(string, pyval) dict \<Rightarrow> (string, stored_design) dict" where
  "json_designs incoming = (case dict_get incoming ''designs'' of Some (PDict ds) \<Rightarrow> map (map_prod id Json) ds | _ \<Rightarrow> [])"

definition committed_session :: "exec_env \<Rightarrow> (string, pyval) dict \<Rightarrow> exec_session \<Rightarrow> exec_session" where
  "committed_session env incoming x =
     \<lparr> es_designs = Some \<lparr> dm_durable = False, dm_items = json_designs incoming \<rparr>,
       es_rest = merged_rest env (dict_pop ''designs'' incoming) (es_rest x) \<rparr>"

definition proper_session :: "(string, pyval) dict \<Rightarrow> bool" where
  "proper_session st \<longleftrightarrow> (\<forall>v. dict_get st ''designs'' = Some v \<longrightarrow> (\<exists>ds. v = PDict ds))"

lemma incoming_designs_proper: "proper_session st \<Longrightarrow> incoming_designs_of env st = Inr (json_designs st)"
  by (auto simp: proper_session_def incoming_designs_of_def as_dict_def json_designs_def split: option.splits)

lemma commit_plain:
  assumes "plain_session (xs_session s)" "\<not> xs_destroyed s" "proper_session st"
  shows "commit_session_state env sid st s = (Inr (clone_session_state (xs_session s)), s\<lparr> xs_session := committed_session env st (xs_session s) \<rparr>)"
  using assms by (auto simp: commit_session_state_def replace_session_state_def incoming_designs_proper plain_session_def Let_def committed_session_def)

lemma restore_plain:
  assumes "plain_session (xs_session s)" "\<not> xs_destroyed s" "plain_session x"
  shows "restore_session_state env sid (clone_session_state x) s = (Inr (), s\<lparr> xs_session := x \<rparr>)"
  using assms by (auto simp: restore_session_state_def replace_session_state_def plain_session_def clone_session_state_def Let_def)

lemma dict_get_map_prod: "dict_get (map (map_prod id f) d) k = map_option f (dict_get d k)"
  by (induction d) (auto simp: dict_get_def)

lemma rewritten_proper: "proper_session st \<Longrightarrow> proper_session (map (map_prod id (rewrite_staged_paths stages)) st)"
  by (auto simp: proper_session_def dict_get_map_prod)

lemma same_restD:
  assumes "same_rest (s :: exec_state) s'"
  shows "xs_session s' = xs_session s" "xs_store s' = xs_store s" "xs_destroyed s' = xs_destroyed s" "xs_locks s' = xs_locks s" "fx_calls s \<le> fx_calls s'"
  using assms by (cases s; cases s'; simp add: same_rest_def fs_state.defs exec_state.defs)+

lemma faulted_failed: "faulted env s s' \<Longrightarrow> failed env s s'"
  unfolding faulted_def failed_def failure_at_def by blast

text \<open>What a commit leaves behind, for a session whose designs are a plain dictionary.\<close>

definition commit_result ::
  "exec_env \<Rightarrow> output_stage list \<Rightarrow> (string, pyval) dict \<Rightarrow> exec_state \<Rightarrow> tool_execution_outcome result \<times> exec_state \<Rightarrow> bool" where
  "commit_result env stages st s rs \<longleftrightarrow>
     xs_locks (snd rs) = xs_locks s \<and> fx_calls s \<le> fx_calls (snd rs) \<and>
     (case fst rs of
        Inr out \<Rightarrow> to_status out = ''completed'' \<and> all_published (fx_fs s) stages (fx_fs (snd rs))
          \<and> xs_session (snd rs) = committed_session env (map (map_prod id (rewrite_staged_paths stages)) st) (xs_session s)
      | Inl e \<Rightarrow> handled e \<and> failed env s (snd rs) \<and> xs_session (snd rs) = xs_session s
          \<and> (none_published (fx_fs s) stages (fx_fs (snd rs)) \<or> all_published (fx_fs s) stages (fx_fs (snd rs))))"

lemma commit_resultI:
  assumes plain: "plain_session (xs_session s)" "\<not> xs_destroyed s" and st: "dict_get response ''session_state'' = Some (PDict st)" "proper_session st"
    and ok: "stages_ok stages" "none_backed_up (fx_fs s) stages" and one: "one_failure env"
  shows "commit_result env stages st s (commit_worker_response env job stages response s)"
proof -
  let ?st = "map (map_prod id (rewrite_staged_paths stages)) st"
  obtain r1 s1 where 1: "write_recovery_journal env ''publishing_outputs'' s = (r1, s1)" by fastforce
  have w1: "quiet s s1" "r1 = Inl e \<Longrightarrow> handled e \<and> failed env s s1" for e using journal_well [of env s "''publishing_outputs''"] 1 by (auto simp: fails_well_def)
  obtain r2 s2 where 2: "publish_staged_outputs env stages s1 = (r2, s2)" by fastforce
  have "none_backed_up (fx_fs s1) stages" using ok(2) w1(1) by (simp add: quiet_def)
  note w2 = publish_outcome [OF 2 ok(1) this one_failure_single [OF one]]
  have s2: "xs_session s2 = xs_session s" "xs_destroyed s2 = xs_destroyed s" "xs_locks s2 = xs_locks s" "fx_calls s \<le> fx_calls s2" "fx_fs s1 = fx_fs s" "fx_calls s \<le> fx_calls s1"
    using same_restD [OF conjunct1 [OF w2]] w1(1) by (simp_all add: quiet_def)
  obtain r3 s3 where 3: "write_recovery_journal env ''committing_state'' s2 = (r3, s3)" by fastforce
  have w3: "quiet s2 s3" "r3 = Inl e \<Longrightarrow> handled e \<and> failed env s2 s3" for e using journal_well [of env s2 "''committing_state''"] 3 by (auto simp: fails_well_def)
  have s3: "xs_session s3 = xs_session s" "\<not> xs_destroyed s3" "xs_locks s3 = xs_locks s" "fx_calls s \<le> fx_calls s3" "fx_fs s3 = fx_fs s2"
    using w3(1) s2 plain(2) by (simp_all add: quiet_def)
  let ?s4 = "s3\<lparr> xs_session := committed_session env ?st (xs_session s) \<rparr>"
  have c: "commit_session_state env (ej_session_id job) ?st s3 = (Inr (clone_session_state (xs_session s)), ?s4)"
    using commit_plain [OF _ s3(2) rewritten_proper [OF st(2)]] plain(1) s3(1) by simp
  obtain r5 s5 where 5: "sbind (emit_execution_event env ''commit'' (terminated_text True)) (\<lambda>_. write_recovery_journal env ''committed'') ?s4 = (r5, s5)" by fastforce
  have w5: "quiet ?s4 s5" "r5 = Inl e \<Longrightarrow> handled e \<and> failed env ?s4 s5" for e
  proof -
    have "fails_well env ?s4 (sbind (emit_execution_event env ''commit'' (terminated_text True)) (\<lambda>_. write_recovery_journal env ''committed'') ?s4)"
      by (rule sbind_well [OF emit_well [OF one] journal_well])
    then show "quiet ?s4 s5" "r5 = Inl e \<Longrightarrow> handled e \<and> failed env ?s4 s5" unfolding 5 by (auto simp: fails_well_def)
  qed
  have run: "commit_worker_response env job stages response s = (case r1 of Inl e \<Rightarrow> (Inl e, s1) | Inr _ \<Rightarrow>
      (case r2 of Inl e \<Rightarrow> (Inl e, s2) | Inr published \<Rightarrow> (case r3 of Inl e \<Rightarrow> (Inl e, s3) | Inr _ \<Rightarrow>
        (case r5 of Inl e \<Rightarrow> (if handled e then sbind (restore_session_state env (ej_session_id job) (clone_session_state (xs_session s))) (\<lambda>_.
            sbind (rollback_published_outputs env published) (\<lambda>_. sraise e)) s5 else (Inl e, s5))
        | Inr _ \<Rightarrow> (Inr \<lparr> to_status = ''completed'', to_result = rewrite_staged_paths stages (case dict_get response ''result'' of None \<Rightarrow> PNone | Some v \<Rightarrow> v),
             to_error = None, to_worker_terminated = True, to_job_id = ej_job_id job, to_exception_type = None \<rparr>, s5)))))"
    using st(1) 1 2 3 c 5 by (simp add: commit_worker_response_def as_dict_def Let_def sbind_def split: sum.splits)
  show ?thesis
  proof (cases r1)
    case (Inl e)
    then show ?thesis using run w1 by (auto simp: commit_result_def quiet_def none_published_def)
  next
    case r1: (Inr u1)
    show ?thesis
    proof (cases r2)
      case (Inl e)
      then have "(\<exists>m. e = os_error m)" "faulted env s1 s2" "none_published (fx_fs s1) stages (fx_fs s2)" using w2 by auto
      then show ?thesis using run r1 Inl s2 failed_mono [OF faulted_failed _ order_refl] by (auto simp: commit_result_def)
    next
      case r2: (Inr published)
      have pub: "all_published (fx_fs s) stages (fx_fs s2)" "touched_ok (fx_fs s) published (fx_fs s2)" "stages_ok published"
        "stage_paths ` set published \<subseteq> stage_paths ` set stages" using w2 r2 s2(5) by auto
      show ?thesis
      proof (cases r3)
        case (Inl e)
        then have "failed env s s3" "handled e" using w3(2) failed_mono [OF _ s2(4) order_refl] by auto
        then show ?thesis using run r1 r2 Inl s3 pub by (simp add: commit_result_def)
      next
        case r3: (Inr u3)
        show ?thesis
        proof (cases r5)
          case (Inr u)
          then show ?thesis using run r1 r2 r3 w5(1) s3 pub by (simp add: commit_result_def quiet_def)
        next
          case (Inl e)
          have f: "handled e" "failed env ?s4 s5" using w5(2) Inl by auto
          have q: "fx_fs s5 = fx_fs s2" "xs_session s5 = committed_session env ?st (xs_session s)" "\<not> xs_destroyed s5" "xs_locks s5 = xs_locks s" "fx_calls s3 \<le> fx_calls s5"
            using w5(1) s3 by (simp_all add: quiet_def)
          let ?s6 = "s5\<lparr> xs_session := xs_session s \<rparr>"
          have rs: "restore_session_state env (ej_session_id job) (clone_session_state (xs_session s)) s5 = (Inr (), ?s6)"
            by (rule restore_plain [OF _ q(3) plain(1)]) (simp add: q(2) plain_session_def committed_session_def)
          have "no_fault_from env (fx_calls ?s6)" using no_more_faults [OF one f(2)] by simp
          moreover have "touched_ok (fx_fs s) published (fx_fs ?s6)" using pub(2) q(1) by simp
          ultimately obtain s7 where s7: "rollback_published_outputs env published ?s6 = (Inr (), s7)" "same_rest ?s6 s7"
            "\<forall>p. p \<notin> sg_staged_path ` set published \<union> sg_backup_path ` set published \<longrightarrow> fx_fs s7 p = fx_fs s p"
            using rollback_ok [OF _ pub(3)] by blast
          have res: "commit_worker_response env job stages response s = (Inl e, s7)"
            using run r1 r2 r3 Inl f(1) rs s7(1) by (simp add: sbind_def sraise_def)
          have n: "none_published (fx_fs s) stages (fx_fs s7)" using s7(3) stage_paths_image(2,3) [OF pub(4)] unfolding none_published_def by blast
          have k: "fx_calls s5 \<le> fx_calls s7" "xs_session s7 = xs_session s" "xs_locks s7 = xs_locks s" using same_restD [OF s7(2)] q by simp_all
          have "failed env s s7" using failed_mono [OF f(2)] s3(4) k(1) by simp
          then show ?thesis using res n k f(1) q(5) s3(4) by (simp add: commit_result_def)
        qed
      qed
    qed
  qed
qed

section \<open>A run is atomic\<close>

definition proper_worker :: "exec_env \<Rightarrow> bool" where
  "proper_worker env \<longleftrightarrow> (\<forall>kw v d. wr_response (xe_worker env kw v) = Json_Value (PDict d) \<longrightarrow> dict_get d ''status'' = Some (PStr ''completed'') \<longrightarrow>
     (\<exists>st. dict_get d ''session_state'' = Some (PDict st) \<and> proper_session st))"

definition prepared :: "exec_env \<Rightarrow> exec_job \<Rightarrow> (string, pyval) dict \<Rightarrow> output_stage list \<Rightarrow> bool" where
  "prepared env job rewritten sgs \<longleftrightarrow>
     (\<exists>sa sb :: exec_state. prepare_output_staging env (ej_params job) (ej_kwargs job) sa = (Inr (rewritten, sgs), sb))"

definition published_files :: "output_stage list \<Rightarrow> worker_run \<Rightarrow> (path \<Rightarrow> fs_node option) \<Rightarrow> path \<Rightarrow> fs_node option" where
  "published_files sgs w fs p =
     (case find (\<lambda>sg. sg_target_path sg = p) sgs of
        Some sg \<Rightarrow> if path_exists (wr_files w) (sg_staged_path sg) then wr_files w (sg_staged_path sg) else fs p
      | None \<Rightarrow> fs p)"

lemma one_stage_quiet:
  "output_stage_for_parameter env i name spec kw s = (r, s') \<Longrightarrow> quiet s s' \<and> (case r of Inl e \<Rightarrow> handled e | Inr _ \<Rightarrow> True)"
  by (auto simp: output_stage_for_parameter_def resolve_workspace_path_def make_parent_def call_def sbind_def sreturn_def sraise_def Let_def quiet_def
      split: option.splits sum.splits if_splits)

lemma stage_parameters_quiet:
  "stage_parameters env i params kw s = (r, s') \<Longrightarrow> quiet s s' \<and> (case r of Inl e \<Rightarrow> handled e | Inr _ \<Rightarrow> True)"
proof (induction params arbitrary: i kw s r s')
  case Nil
  then show ?case by (auto simp: sreturn_def)
next
  case (Cons pr params)
  obtain name spec where pr: "pr = (name, spec)" by fastforce
  obtain r1 s1 where 1: "output_stage_for_parameter env i name spec kw s = (r1, s1)" by fastforce
  note q1 = one_stage_quiet [OF 1]
  show ?case
  proof (cases r1)
    case (Inl e)
    then show ?thesis using Cons.prems q1 1 by (auto simp: pr sbind_def)
  next
    case (Inr x)
    obtain r2 s2 where 2: "stage_parameters env (i + 1) params (snd x) s1 = (r2, s2)" by fastforce
    have "(r, s') = (case r2 of Inl e \<Rightarrow> (Inl e, s2) | Inr y \<Rightarrow> (Inr (fst y, (case fst x of None \<Rightarrow> snd y | Some z \<Rightarrow> z # snd y)), s2))"
      using Cons.prems 1 2 Inr by (cases x) (auto simp: pr sbind_def sreturn_def split: sum.splits option.splits)
    then show ?thesis using Cons.IH [OF 2] quiet_trans [OF conjunct1 [OF q1]] by (auto split: sum.splits)
  qed
qed

lemma validate_handled: "validate_non_overlapping_output_targets ps = Inl e \<Longrightarrow> handled e"
  by (induction ps) (auto split: option.splits)

lemma prepare_quiet:
  assumes "prepare_output_staging env params kw s = (r, s')"
  shows "quiet s s'" "r = Inl e \<Longrightarrow> handled e"
    "r = Inr (kw', sgs) \<Longrightarrow> staging_private env \<Longrightarrow> stages_ok sgs \<and> (\<forall>sg\<in>set sgs. staged_by env 0 sg)"
proof -
  obtain r1 s1 where 1: "stage_parameters env 0 params kw s = (r1, s1)" by fastforce
  have run: "(r, s') = (case r1 of Inl e \<Rightarrow> (Inl e, s1) | Inr (kw', sgs) \<Rightarrow> (case validate_non_overlapping_output_targets (map sg_target_path sgs) of Inl e \<Rightarrow> (Inl e, s1)
      | Inr _ \<Rightarrow> (Inr (kw', sgs), s1)))"
    using assms 1 by (auto simp: prepare_output_staging_def sbind_def sreturn_def sraise_def split: sum.splits)
  note q = stage_parameters_quiet [OF 1]
  show "quiet s s'" using run q by (auto split: sum.splits prod.splits)
  show "r = Inl e \<Longrightarrow> handled e" using run q by (auto split: sum.splits prod.splits dest: validate_handled)
  assume r: "r = Inr (kw', sgs)" and priv: "staging_private env"
  obtain u where sgs: "r1 = Inr (kw', sgs)" "validate_non_overlapping_output_targets (map sg_target_path sgs) = Inr u"
    using run r by (auto split: sum.splits prod.splits)
  from stage_parameters_ok [OF 1 [unfolded sgs(1)]] validate_targets [OF sgs(2)] priv
  show "stages_ok sgs \<and> (\<forall>sg\<in>set sgs. staged_by env 0 sg)" by blast
qed

lemma staged_by_paths:
  assumes "staged_by env i sg"
  shows "prefix (fe_staging_root env) (sg_staged_path sg)" "prefix (fe_staging_root env) (sg_backup_path sg)"
    "staging_private env \<Longrightarrow> \<not> prefix (fe_staging_root env) (sg_target_path sg)"
proof -
  obtain n raw name where sg: "resolve_workspace_path env raw = Inr (sg_target_path sg)" "sg = stage_of env n name raw (sg_target_path sg)"
    using assms unfolding staged_by_def by blast
  show "prefix (fe_staging_root env) (sg_staged_path sg)" by (subst sg(2)) (simp add: stage_of_def)
  show "prefix (fe_staging_root env) (sg_backup_path sg)" by (subst sg(2)) (simp add: stage_of_def)
  show "staging_private env \<Longrightarrow> \<not> prefix (fe_staging_root env) (sg_target_path sg)" by (rule target_outside [OF _ sg(1)])
qed

text \<open>Seen from outside the private directory.\<close>

lemma published_outside:
  assumes pub: "all_published (private_files sgs w fs) sgs fs'" and stg: "\<forall>sg\<in>set sgs. staged_by env 0 sg" and priv: "staging_private env"
    and p: "\<not> prefix (fe_staging_root env) p"
  shows "fs' p = published_files sgs w fs p"
proof -
  have staged: "sg_staged_path sg \<noteq> p \<and> sg_backup_path sg \<noteq> p" if "sg \<in> set sgs" for sg using staged_by_paths(1,2) stg that p by blast
  have same: "private_files sgs w fs p = fs p" using staged by (auto simp: private_files_def)
  show ?thesis
  proof (cases "find (\<lambda>sg. sg_target_path sg = p) sgs")
    case None
    then have "p \<notin> \<Union> (own_paths ` set sgs)" using staged by (auto simp: find_None_iff own_paths_def)
    then show ?thesis using pub None same by (simp add: all_published_def published_files_def)
  next
    case (Some sg)
    then have sg: "sg \<in> set sgs" "sg_target_path sg = p" using find_Some_props by fastforce+
    have pf: "private_files sgs w fs (sg_staged_path sg) = wr_files w (sg_staged_path sg)" using sg(1) by (auto simp: private_files_def)
    have "fs' p = (if path_exists (private_files sgs w fs) (sg_staged_path sg) then private_files sgs w fs (sg_staged_path sg) else private_files sgs w fs p)"
      using pub sg unfolding all_published_def by blast
    then show ?thesis using Some pf same by (simp add: published_files_def path_exists_def)
  qed
qed

lemma unpublished_outside:
  assumes "none_published (private_files sgs w fs) sgs fs'" "\<forall>sg\<in>set sgs. staged_by env 0 sg" "\<not> prefix (fe_staging_root env) p"
  shows "fs' p = fs p"
proof -
  have "p \<notin> sg_staged_path ` set sgs \<union> sg_backup_path ` set sgs" using staged_by_paths(1,2) assms(2,3) by blast
  then show ?thesis using assms(1) by (auto simp: none_published_def private_files_def)
qed

definition worker_run_of :: "exec_env \<Rightarrow> (string, pyval) dict \<Rightarrow> exec_state \<Rightarrow> worker_run" where
  "worker_run_of env rewritten s = xe_worker env rewritten (session_json env (xs_session s))"

definition worker_completed :: "worker_run \<Rightarrow> bool" where
  "worker_completed w \<longleftrightarrow> wr_ending w = Ended \<and> wr_stopped w
     \<and> (\<exists>d. wr_response w = Json_Value (PDict d) \<and> dict_get d ''status'' = Some (PStr ''completed''))"

definition nothing_done :: "exec_env \<Rightarrow> exec_state \<Rightarrow> exec_state \<Rightarrow> bool" where
  "nothing_done env s s' \<longleftrightarrow> xs_session s' = xs_session s \<and> (\<forall>p. \<not> prefix (fe_staging_root env) p \<longrightarrow> fx_fs s' p = fx_fs s p)"

definition outputs_only :: "exec_env \<Rightarrow> exec_job \<Rightarrow> exec_state \<Rightarrow> exec_state \<Rightarrow> bool" where
  "outputs_only env job s s' \<longleftrightarrow> xs_session s' = xs_session s \<and> (\<exists>rewritten sgs. prepared env job rewritten sgs \<and> worker_completed (worker_run_of env rewritten s)
     \<and> (\<forall>p. \<not> prefix (fe_staging_root env) p \<longrightarrow> fx_fs s' p = published_files sgs (worker_run_of env rewritten s) (fx_fs s) p))"

definition all_done :: "exec_env \<Rightarrow> exec_job \<Rightarrow> exec_state \<Rightarrow> exec_state \<Rightarrow> bool" where
  "all_done env job s s' \<longleftrightarrow> (\<exists>rewritten sgs d st. prepared env job rewritten sgs \<and> worker_completed (worker_run_of env rewritten s)
     \<and> wr_response (worker_run_of env rewritten s) = Json_Value (PDict d) \<and> dict_get d ''session_state'' = Some (PDict st)
     \<and> (\<forall>p. \<not> prefix (fe_staging_root env) p \<longrightarrow> fx_fs s' p = published_files sgs (worker_run_of env rewritten s) (fx_fs s) p)
     \<and> xs_session s' = committed_session env (map (map_prod id (rewrite_staged_paths sgs)) st) (xs_session s))"

definition body_ok :: "exec_env \<Rightarrow> exec_job \<Rightarrow> exec_state \<Rightarrow> tool_execution_outcome result \<times> exec_state \<Rightarrow> bool" where
  "body_ok env job s rs \<longleftrightarrow> (if \<exists>out. fst rs = Inr out \<and> to_status out = ''completed'' then all_done env job s (snd rs)
     else nothing_done env s (snd rs) \<or> outputs_only env job s (snd rs))"

text \<open>Only the session and the files outside the private directory count.\<close>

definition same_view :: "exec_env \<Rightarrow> exec_state \<Rightarrow> exec_state \<Rightarrow> bool" where
  "same_view env s s' \<longleftrightarrow> xs_session s' = xs_session s \<and> (\<forall>p. \<not> prefix (fe_staging_root env) p \<longrightarrow> fx_fs s' p = fx_fs s p)"

lemma body_ok_from:
  assumes q: "xs_session s0 = xs_session s" "fx_fs s0 = fx_fs s" and ok: "body_ok env job s0 rs"
  shows "body_ok env job s rs"
proof -
  have "worker_run_of env rewritten s0 = worker_run_of env rewritten s" for rewritten by (simp add: worker_run_of_def q(1))
  then have "all_done env job s0 = all_done env job s" "nothing_done env s0 = nothing_done env s" "outputs_only env job s0 = outputs_only env job s"
    by (simp_all only: all_done_def [abs_def] nothing_done_def [abs_def] outputs_only_def [abs_def] q)
  then show ?thesis using ok by (simp only: body_ok_def)
qed

lemma same_viewD:
  assumes "same_view env s1 s2"
  shows "all_done env job s s2 = all_done env job s s1" "nothing_done env s s2 = nothing_done env s s1" "outputs_only env job s s2 = outputs_only env job s s1"
proof -
  have v: "xs_session s2 = xs_session s1" "(\<forall>p. \<not> prefix (fe_staging_root env) p \<longrightarrow> fx_fs s2 p = f p) = (\<forall>p. \<not> prefix (fe_staging_root env) p \<longrightarrow> fx_fs s1 p = f p)" for f
    using assms by (auto simp: same_view_def)
  show "all_done env job s s2 = all_done env job s s1" by (simp only: all_done_def v)
  show "nothing_done env s s2 = nothing_done env s s1" by (simp only: nothing_done_def v)
  show "outputs_only env job s s2 = outputs_only env job s s1" by (simp only: outputs_only_def v)
qed

lemma same_view_quiet: "quiet s s' \<Longrightarrow> same_view env s s'"
  by (simp add: same_view_def quiet_def)

lemma same_view_clean_up [simp]: "same_view env s (clean_up env locks s)"
  by (simp add: same_view_def clean_up_def)

lemma body_ok_view:
  assumes "body_ok env job s (r, s1)" "same_view env s1 s2"
  shows "body_ok env job s (r, s2)"
  unfolding body_ok_def fst_conv snd_conv same_viewD [OF assms(2)] by (rule assms(1) [unfolded body_ok_def fst_conv snd_conv])

lemma body_ok_failure:
  assumes "body_ok env job s (Inl e, s1)" "same_view env s1 s2" "\<And>out. r = Inr out \<Longrightarrow> to_status out \<noteq> ''completed''"
  shows "body_ok env job s (r, s2)"
  using assms by (auto simp: body_ok_def same_viewD)

lemma body_ok_nothing:
  assumes "nothing_done env s s'" "\<And>out. r = Inr out \<Longrightarrow> to_status out \<noteq> ''completed''"
  shows "body_ok env job s (r, s')"
  using assms by (auto simp: body_ok_def)

lemma body_ok_raised: "nothing_done env s s' \<Longrightarrow> body_ok env job s (Inl e, s')"
  by (simp add: body_ok_def)

lemma nothing_done_quiet: "quiet s s' \<Longrightarrow> nothing_done env s s'"
  by (simp add: nothing_done_def quiet_def)

text \<open>The worker is at work: only its private outputs have changed.\<close>

definition at_work :: "output_stage list \<Rightarrow> worker_run \<Rightarrow> exec_state \<Rightarrow> exec_state \<Rightarrow> bool" where
  "at_work sgs w s s' \<longleftrightarrow> quiet (s\<lparr> fx_fs := private_files sgs w (fx_fs s) \<rparr>) s'"

lemma at_work_quiet: "at_work sgs w s s1 \<Longrightarrow> quiet s1 s2 \<Longrightarrow> at_work sgs w s s2"
  unfolding at_work_def by (rule quiet_trans)

lemma at_work_nothing:
  assumes "at_work sgs w s s'" "\<forall>sg\<in>set sgs. staged_by env 0 sg"
  shows "nothing_done env s s'"
proof -
  have "private_files sgs w (fx_fs s) p = fx_fs s p" if "\<not> prefix (fe_staging_root env) p" for p
    using staged_by_paths(1) assms(2) that by (auto simp: private_files_def)
  then show ?thesis using assms(1) by (simp add: at_work_def nothing_done_def quiet_def)
qed

lemma run_worker_at_work:
  assumes one: "one_failure env" and run: "run_worker env job rewritten sgs w s = (r, s')"
  shows "quiet s s' \<or> at_work sgs w s s'" "r = Inr u \<Longrightarrow> at_work sgs w s s' \<and> wr_ending w \<noteq> Cancelled_Starting"
proof -
  obtain r1 s1 where 1: "call env (sreturn ()) s = (r1, s1)" by fastforce
  have q1: "quiet s s1" using 1 by (auto simp: call_def sreturn_def Let_def quiet_def split: option.splits)
  have res: "(quiet s s' \<or> at_work sgs w s s') \<and> (r = Inr u \<longrightarrow> at_work sgs w s s' \<and> wr_ending w \<noteq> Cancelled_Starting)"
  proof (cases r1)
    case (Inl e)
    then have "r = Inl e" "s' = s1" using run 1 by (simp_all add: run_worker_def sbind_def)
    then show ?thesis using q1 by simp
  next
    case r1: (Inr u1)
    show ?thesis
    proof (cases "fe_fault env (fx_calls s1)")
      case (Some e)
      then show ?thesis using run 1 r1 q1 by (auto simp: run_worker_def sbind_def call_def supdate_def Let_def quiet_def)
    next
      case None
      let ?s2 = "s1\<lparr> fx_calls := fx_calls s1 + 1, xs_running := Some True, fx_fs := private_files sgs w (fx_fs s1) \<rparr>"
      have a: "at_work sgs w s ?s2" using q1 by (simp add: at_work_def quiet_def)
      have b: "run_worker env job rewritten sgs w s = (if wr_ending w = Cancelled_Starting
          then sbind (terminate_and_record env w ''cancel_requested'' ''caller cancellation during worker startup'' []) (\<lambda>_. sraise cancelled_error) ?s2
          else write_recovery_journal env ''worker_running'' ?s2)"
        using 1 r1 None by (simp add: run_worker_def sbind_def call_def supdate_def Let_def)
      have "quiet ?s2 s' \<and> (r = Inr u \<longrightarrow> wr_ending w \<noteq> Cancelled_Starting)"
      proof (cases "wr_ending w = Cancelled_Starting")
        case True
        obtain x s3 where 3: "terminate_and_record env w ''cancel_requested'' ''caller cancellation during worker startup'' [] ?s2 = (x, s3)" by fastforce
        have "quiet ?s2 s3" using terminate_well [OF one, of ?s2] 3 unfolding fails_well_def by (metis snd_conv)
        moreover have "s' = s3 \<and> (\<exists>e. r = Inl e)" using run [unfolded b] True 3 by (cases x) (auto simp: sbind_def sraise_def)
        ultimately show ?thesis by auto
      next
        case False
        then have "write_recovery_journal env ''worker_running'' ?s2 = (r, s')" using run [unfolded b] by simp
        then have "quiet ?s2 s'" using journal_well [of env ?s2] unfolding fails_well_def by (metis snd_conv)
        then show ?thesis using False by simp
      qed
      then show ?thesis using at_work_quiet [OF a] by blast
    qed
  qed
  show "quiet s s' \<or> at_work sgs w s s'" "r = Inr u \<Longrightarrow> at_work sgs w s s' \<and> wr_ending w \<noteq> Cancelled_Starting" using res by blast+
qed

lemma communicate_quiet:
  assumes one: "one_failure env" and run: "communicate_with_deadline env job w s = (r, s')"
  shows "quiet s s'" "r = Inr (Some out) \<Longrightarrow> to_status out = ''timeout''"
    "r = Inr None \<Longrightarrow> wr_ending w = Ended \<or> wr_ending w = Cancelled_Starting"
  using run terminate_well [OF one, of s w "''timeout''" "''timeout''" "[(''timeout_s'', PFloat (ej_timeout_s job))]"]
    terminate_well [OF one, of s w "''cancel_requested''" "''caller cancellation''" "[]"]
  by (auto simp: communicate_with_deadline_def fails_well_def sbind_def sreturn_def sraise_def supdate_def
      split: worker_ending.splits prod.splits sum.splits)

lemma emit_quiet: "one_failure env \<Longrightarrow> emit_execution_event env d m s = (r, s') \<Longrightarrow> quiet s s'"
  using emit_well [of env s d m] unfolding fails_well_def by simp

lemma coordinator_quiet:
  assumes "one_failure env" "coordinator_error_outcome env job w error s = (r, s')"
  shows "quiet s s'" "r = Inr out \<Longrightarrow> to_status out = ''error''"
proof -
  define b where "b = (if xs_running s = Some True then wr_stopped w else True)"
  obtain r1 s1 where 1: "(if xs_running s = Some True
            then emit_execution_event env ''worker_terminated'' (terminated_text b @ reason_text ''coordinator error'') (s\<lparr> xs_running := Some False \<rparr>)
            else (Inr (), s)) = (r1, s1)" by fastforce
  have q1: "quiet s s1"
  proof (cases "xs_running s = Some True")
    case True
    have "emit_execution_event env ''worker_terminated'' (terminated_text b @ reason_text ''coordinator error'') (s\<lparr> xs_running := Some False \<rparr>) = (r1, s1)"
      using 1 unfolding if_P [OF True] .
    then show ?thesis by (rule quiet_trans [OF quiet_running emit_quiet [OF assms(1)]])
  next
    case False
    then show ?thesis using 1 by simp
  qed
  obtain r2 s2 where 2: "emit_execution_event env ''rollback'' (reason_text ''coordinator error'' @ terminated_text b
                  @ [(''exception_type'', PStr (exc_name error))]) s1 = (r2, s2)" by fastforce
  have q2: "quiet s1 s2" by (rule emit_quiet [OF assms(1) 2])
  have run: "(r, s') = (case r1 of Inl e \<Rightarrow> (Inl e, s1) | Inr _ \<Rightarrow> (case r2 of
             Inl e \<Rightarrow> if handled e then (Inr (error_outcome job (exc_str error) (Some (exc_name error)) b), s2) else (Inl e, s2)
           | Inr _ \<Rightarrow> (Inr (error_outcome job (exc_str error) (Some (exc_name error)) b), s2)))"
    using assms(2) unfolding coordinator_error_outcome_def Let_def b_def [symmetric] 1 by (cases r1; cases r2) (simp_all add: 2)
  show "quiet s s'"
  proof (cases r1)
    case (Inl e)
    then show ?thesis using run q1 by simp
  next
    case (Inr u)
    then have "s' = s2" using run by (auto split: sum.splits if_splits)
    then show ?thesis using quiet_trans [OF q1 q2] by simp
  qed
  show "r = Inr out \<Longrightarrow> to_status out = ''error''" using run by (auto simp: error_outcome_def split: sum.splits if_splits)
qed

lemma sorted_wrt_apart:
  assumes "sorted_wrt P xs" "x \<in> set xs" "y \<in> set xs" "x \<noteq> y"
  shows "P x y \<or> P y x"
  using assms by (induction xs) auto

lemma committed_body_ok:
  assumes one: "one_failure env" and priv: "staging_private env" and plain: "plain_session (xs_session s)" "\<not> xs_destroyed s"
    and fresh: "\<forall>p. prefix (fe_staging_root env) p \<longrightarrow> fx_fs s p = None"
    and prep: "prepared env job rewritten sgs" and work: "at_work sgs (worker_run_of env rewritten s) s s1"
    and resp: "wr_response (worker_run_of env rewritten s) = Json_Value (PDict d)" "dict_get d ''status'' = Some (PStr ''completed'')"
      "dict_get d ''session_state'' = Some (PDict st)" "proper_session st" and completed: "worker_completed (worker_run_of env rewritten s)"
  shows "body_ok env job s (commit_worker_response env job sgs d s1)"
proof -
  let ?w = "worker_run_of env rewritten s"
  have stg: "stages_ok sgs" "\<forall>sg\<in>set sgs. staged_by env 0 sg"
    using prep prepare_quiet(3) priv unfolding prepared_def by blast+
  have s1: "xs_session s1 = xs_session s" "\<not> xs_destroyed s1" "fx_fs s1 = private_files sgs ?w (fx_fs s)"
    using work plain by (simp_all add: at_work_def quiet_def)
  have apart: "sg_backup_path sg \<notin> sg_staged_path ` set sgs" if "sg \<in> set sgs" for sg
  proof
    assume "sg_backup_path sg \<in> sg_staged_path ` set sgs"
    then obtain y where y: "y \<in> set sgs" "sg_backup_path sg = sg_staged_path y" by auto
    show False
    proof (cases "y = sg")
      case True
      then show False using stg(1) y by (auto simp: stages_ok_def)
    next
      case False
      have "sg_backup_path sg \<in> own_paths sg \<inter> own_paths y" using y(2) by (simp add: own_paths_def)
      moreover have "own_paths sg \<inter> own_paths y = {} \<or> own_paths y \<inter> own_paths sg = {}"
        using sorted_wrt_apart [OF conjunct1 [OF stg(1) [unfolded stages_ok_def]] that y(1)] False by blast
      ultimately show False by blast
    qed
  qed
  have none: "none_backed_up (fx_fs s1) sgs"
    unfolding none_backed_up_def
  proof
    fix sg assume sg: "sg \<in> set sgs"
    have "staged_by env 0 sg" using stg(2) sg ..
    then have "fx_fs s (sg_backup_path sg) = None" using fresh staged_by_paths(2) by blast
    then show "fx_fs s1 (sg_backup_path sg) = None" unfolding s1(3) private_files_def using apart [OF sg] by simp
  qed
  obtain r2 s2 where 2: "commit_worker_response env job sgs d s1 = (r2, s2)" by fastforce
  have res: "commit_result env sgs st s1 (r2, s2)"
    unfolding 2 [symmetric] by (rule commit_resultI [OF _ s1(2) resp(3,4) stg(1) none one]) (simp add: s1(1) plain)
  show ?thesis
  proof (cases r2)
    case (Inr out)
    have out: "to_status out = ''completed''" "all_published (private_files sgs ?w (fx_fs s)) sgs (fx_fs s2)"
      "xs_session s2 = committed_session env (map (map_prod id (rewrite_staged_paths sgs)) st) (xs_session s)"
      using res Inr s1 by (simp_all add: commit_result_def)
    have files: "\<forall>p. \<not> prefix (fe_staging_root env) p \<longrightarrow> fx_fs s2 p = published_files sgs ?w (fx_fs s) p"
      using published_outside [OF out(2) stg(2) priv] by blast
    have "all_done env job s s2"
      unfolding all_done_def by (intro exI conjI) (rule prep, rule completed, rule resp(1), rule resp(3), rule files, rule out(3))
    then show ?thesis unfolding 2 body_ok_def using Inr out(1) by simp
  next
    case (Inl e)
    have e: "xs_session s2 = xs_session s" "none_published (private_files sgs ?w (fx_fs s)) sgs (fx_fs s2) \<or> all_published (private_files sgs ?w (fx_fs s)) sgs (fx_fs s2)"
      using res Inl s1 by (simp_all add: commit_result_def)
    have "nothing_done env s s2 \<or> outputs_only env job s s2"
      using e(2)
    proof (elim disjE)
      assume "none_published (private_files sgs ?w (fx_fs s)) sgs (fx_fs s2)"
      then have "nothing_done env s s2" unfolding nothing_done_def using unpublished_outside [OF _ stg(2)] e(1) by (intro conjI allI impI)
      then show ?thesis ..
    next
      assume pub: "all_published (private_files sgs ?w (fx_fs s)) sgs (fx_fs s2)"
      have files: "\<forall>p. \<not> prefix (fe_staging_root env) p \<longrightarrow> fx_fs s2 p = published_files sgs ?w (fx_fs s) p"
        using published_outside [OF pub stg(2) priv] by blast
      have "outputs_only env job s s2"
        unfolding outputs_only_def by (intro conjI exI) (rule e(1), rule prep, rule completed, rule files)
      then show ?thesis ..
    qed
    then show ?thesis unfolding 2 body_ok_def using Inl by simp
  qed
qed

lemma worked_body_ok:
  assumes one: "one_failure env" and priv: "staging_private env" and worker: "proper_worker env"
    and plain: "plain_session (xs_session s)" "\<not> xs_destroyed s" and fresh: "\<forall>p. prefix (fe_staging_root env) p \<longrightarrow> fx_fs s p = None"
    and prep: "prepared env job rewritten sgs" and work: "at_work sgs (worker_run_of env rewritten s) s s1"
    and ended: "wr_ending (worker_run_of env rewritten s) = Ended" "wr_stopped (worker_run_of env rewritten s)"
    and run: "rs = sbind (worker_response env job (worker_run_of env rewritten s)) (\<lambda>response.
      case response of Inr outcome \<Rightarrow> sreturn outcome | Inl r \<Rightarrow> commit_worker_response env job sgs r) s1"
  shows "body_ok env job s rs"
proof -
  let ?w = "worker_run_of env rewritten s"
  have stg: "\<forall>sg\<in>set sgs. staged_by env 0 sg" using prep prepare_quiet(3) priv unfolding prepared_def by blast
  obtain r2 s2 where 2: "worker_response env job ?w s1 = (r2, s2)" by fastforce
  note w = worker_response_quiet [OF one 2]
  have idle: "nothing_done env s s2" by (rule at_work_nothing [OF at_work_quiet [OF work w(1)] stg])
  show ?thesis
  proof (cases r2)
    case (Inl e)
    then have "rs = (Inl e, s2)" using run 2 by (simp add: sbind_def)
    then show ?thesis using body_ok_raised [OF idle] by simp
  next
    case r2: (Inr response)
    show ?thesis
    proof (cases response)
      case (Inr outcome)
      then have "rs = (Inr outcome, s2)" "to_status outcome = ''error''" using run 2 r2 w(2) by (simp_all add: sbind_def sreturn_def)
      then show ?thesis using body_ok_nothing [OF idle, of "Inr outcome"] by simp
    next
      case (Inl d)
      have d: "wr_response ?w = Json_Value (PDict d)" "dict_get d ''status'' = Some (PStr ''completed'')" "s2 = s1" using w(4) r2 Inl by blast+
      obtain st where st: "dict_get d ''session_state'' = Some (PDict st)" "proper_session st"
        using worker d(1,2) unfolding proper_worker_def worker_run_of_def by blast
      have completed: "worker_completed ?w" using ended d(1,2) by (simp add: worker_completed_def)
      have "rs = commit_worker_response env job sgs d s1" using run 2 r2 Inl d(3) by (simp add: sbind_def)
      then show ?thesis using committed_body_ok [OF one priv plain fresh prep work d(1,2) st completed] by simp
    qed
  qed
qed

lemma isolated_body_ok:
  assumes one: "one_failure env" and priv: "staging_private env" and worker: "proper_worker env"
    and plain: "plain_session (xs_session s)" "\<not> xs_destroyed s" and fresh: "\<forall>p. prefix (fe_staging_root env) p \<longrightarrow> fx_fs s p = None"
    and prep: "prepared env job rewritten sgs"
    and rs: "rs = isolated_run env job rewritten sgs (worker_run_of env rewritten s) s"
  shows "body_ok env job s rs"
proof -
  note run = rs [unfolded isolated_run_def]
  let ?w = "worker_run_of env rewritten s"
  have stg: "\<forall>sg\<in>set sgs. staged_by env 0 sg" using prep prepare_quiet(3) priv unfolding prepared_def by blast
  obtain r1 s1 where 1: "run_worker env job rewritten sgs ?w s = (r1, s1)" by fastforce
  note w1 = run_worker_at_work [OF one 1]
  show ?thesis
  proof (cases r1)
    case (Inl e)
    have "nothing_done env s s1" using w1(1) nothing_done_quiet at_work_nothing [OF _ stg] by blast
    moreover have "rs = (Inl e, s1)" using run 1 Inl by (simp add: sbind_def)
    ultimately show ?thesis using body_ok_raised by simp
  next
    case r1: (Inr u)
    have work: "at_work sgs ?w s s1" "wr_ending ?w \<noteq> Cancelled_Starting" using w1(2) r1 by blast+
    obtain r2 s2 where 2: "communicate_with_deadline env job ?w s1 = (r2, s2)" by fastforce
    note w2 = communicate_quiet [OF one 2]
    have work2: "at_work sgs ?w s s2" by (rule at_work_quiet [OF work(1) w2(1)])
    have idle: "nothing_done env s s2" by (rule at_work_nothing [OF work2 stg])
    show ?thesis
    proof (cases r2)
      case (Inl e)
      then have "rs = (Inl e, s2)" using run 1 r1 2 by (simp add: sbind_def)
      then show ?thesis using body_ok_raised [OF idle] by simp
    next
      case r2: (Inr ended)
      show ?thesis
      proof (cases ended)
        case (Some outcome)
        then have "rs = (Inr outcome, s2)" "to_status outcome = ''timeout''" using run 1 r1 2 r2 w2(2) by (simp_all add: sbind_def sreturn_def)
        then show ?thesis using body_ok_nothing [OF idle, of "Inr outcome"] by simp
      next
        case None
        show ?thesis
        proof (cases "wr_stopped ?w")
          case False
          then have "rs = (Inl (RuntimeError ''isolated worker process group did not terminate''), s2)" using run 1 r1 2 r2 None by (simp add: sbind_def sraise_def)
          then show ?thesis using body_ok_raised [OF idle] by simp
        next
          case True
          have rs': "rs = sbind (worker_response env job ?w) (\<lambda>response.
              case response of Inr outcome \<Rightarrow> sreturn outcome | Inl r \<Rightarrow> commit_worker_response env job sgs r) s2"
            using run 1 r1 2 r2 None True by (simp add: sbind_def)
          show ?thesis
            by (rule worked_body_ok [OF one priv worker plain fresh prep work2 _ _ rs']) (use w2(3) r2 None work(2) True in auto)
        qed
      qed
    qed
  qed
qed

lemma run_body_ok:
  assumes one: "one_failure env" and priv: "staging_private env" and worker: "proper_worker env"
    and plain: "plain_session (xs_session s)" "\<not> xs_destroyed s" and fresh: "\<forall>p. prefix (fe_staging_root env) p \<longrightarrow> fx_fs s p = None"
  shows "body_ok env job s (run_body env job s)"
proof -
  obtain r1 s1 where 1: "prepare_output_staging env (ej_params job) (ej_kwargs job) s = (r1, s1)" by fastforce
  note w1 = prepare_quiet [OF 1]
  show ?thesis
  proof (cases r1)
    case (Inl e)
    then have "run_body env job s = (Inl e, s1)" using 1 by (simp add: run_body_def sbind_def)
    then show ?thesis using body_ok_raised [OF nothing_done_quiet [OF w1(1)]] by simp
  next
    case r1: (Inr x)
    obtain rewritten sgs where x: "x = (rewritten, sgs)" by fastforce
    have prep: "prepared env job rewritten sgs" using 1 r1 x unfolding prepared_def by blast
    obtain r2 s2 where 2: "acquire_output_locks env sgs s1 = (r2, s2)" by fastforce
    have s2: "xs_session s2 = xs_session s" "fx_fs s2 = fx_fs s" "xs_destroyed s2 = xs_destroyed s"
      using 2 w1(1) by (auto simp: acquire_output_locks_def sraise_def supdate_def quiet_def split: if_splits)
    obtain r3 s3 where 3: "emit_execution_event env ''start'' [] s2 = (r3, s3)" by fastforce
    have s3: "xs_session s3 = xs_session s" "fx_fs s3 = fx_fs s" "xs_destroyed s3 = xs_destroyed s"
      using emit_quiet [OF one 3] s2 by (simp_all add: quiet_def)
    have n2: "nothing_done env s s2" and n3: "nothing_done env s s3" using s2 s3 by (simp_all add: nothing_done_def)
    show ?thesis
    proof (cases r2)
      case (Inl e)
      then have "run_body env job s = (Inl e, s2)" using 1 r1 x 2 by (simp add: run_body_def sbind_def)
      then show ?thesis using body_ok_raised [OF n2] by simp
    next
      case r2: (Inr u)
      show ?thesis
      proof (cases r3)
        case (Inl e)
        then have "run_body env job s = (Inl e, s3)" using 1 r1 x 2 r2 3 by (simp add: run_body_def sbind_def)
        then show ?thesis using body_ok_raised [OF n3] by simp
      next
        case r3: (Inr u')
        show ?thesis
        proof (cases "resolve_tool_identity job")
          case (Inl e)
          then have "run_body env job s = (Inl e, s3)" using 1 r1 x 2 r2 3 r3 by (simp add: run_body_def sbind_def)
          then show ?thesis using body_ok_raised [OF n3] by simp
        next
          case (Inr u'')
          have "body_ok env job s3 (run_body env job s)"
            by (rule isolated_body_ok [OF one priv worker _ _ _ prep])
              (use Inr 1 r1 x 2 r2 3 r3 s3 plain fresh in \<open>simp_all add: run_body_def sbind_def worker_run_of_def\<close>)
          then show ?thesis by (rule body_ok_from [OF s3(1,2)])
        qed
      qed
    qed
  qed
qed

lemma execute_locked_ok:
  assumes one: "one_failure env" and priv: "staging_private env" and worker: "proper_worker env"
    and plain: "plain_session (xs_session s)" "\<not> xs_destroyed s" and fresh: "\<forall>p. prefix (fe_staging_root env) p \<longrightarrow> fx_fs s p = None"
  shows "body_ok env job s (execute_locked env job s)" "xs_locks (snd (execute_locked env job s)) = xs_locks s"
proof -
  define finish where "finish s = (case run_body env job (s\<lparr> xs_running := None \<rparr>) of
         (Inr outcome, s1) \<Rightarrow> (Inr outcome, clean_up env (xs_locks s) s1)
       | (Inl e, s1) \<Rightarrow>
           (case (if handled e then coordinator_error_outcome env job (worker_of env job s) e s1 else (Inl e, s1)) of
              (r, s2) \<Rightarrow> (r, clean_up env (xs_locks s) s2)))" for s
  have calls: "fails_well env s (call env (sreturn ()) s)" for s
    by (auto simp: fails_well_def call_def sreturn_def Let_def quiet_def failed_def failure_at_def split: option.splits)
  have finish: "body_ok env job s (finish s1) \<and> xs_locks (snd (finish s1)) = xs_locks s" if q: "quiet s s1" for s1
  proof -
    let ?s1 = "s1\<lparr> xs_running := None \<rparr>"
    have s1: "xs_session ?s1 = xs_session s" "fx_fs ?s1 = fx_fs s" "xs_destroyed ?s1 = xs_destroyed s" "xs_locks s1 = xs_locks s"
      using q by (simp_all add: quiet_def)
    obtain r2 s2 where 2: "run_body env job ?s1 = (r2, s2)" by fastforce
    have "body_ok env job ?s1 (run_body env job ?s1)"
      by (rule run_body_ok [OF one priv worker]) (use plain fresh s1 in auto)
    then have ok: "body_ok env job s (r2, s2)" unfolding 2 by (rule body_ok_from [OF s1(1,2)])
    show ?thesis
    proof (cases r2)
      case (Inr outcome)
      then show ?thesis using body_ok_view [OF ok same_view_clean_up] s1(4) 2 by (simp add: finish_def) (simp add: clean_up_def)
    next
      case (Inl e)
      obtain r3 s3 where 3: "(if handled e then coordinator_error_outcome env job (worker_of env job s1) e s2 else (Inl e, s2)) = (r3, s3)" by fastforce
      have q3: "quiet s2 s3 \<and> (\<forall>out. r3 = Inr out \<longrightarrow> to_status out \<noteq> ''completed'')"
        using 3 coordinator_quiet [OF one, of job "worker_of env job s1" e s2] by (auto split: if_splits)
      have "body_ok env job s (r3, s3)"
        by (rule body_ok_failure [OF ok [unfolded Inl] same_view_quiet]) (use q3 in blast)+
      then have "body_ok env job s (r3, clean_up env (xs_locks s1) s3)" by (rule body_ok_view [OF _ same_view_clean_up])
      then show ?thesis using 2 3 Inl s1(4) by (simp add: finish_def) (simp add: clean_up_def)
    qed
  qed
  obtain ra sa where a: "call env (sreturn ()) s = (ra, sa)" by fastforce
  obtain rb sb where b: "call env (sreturn ()) sa = (rb, sb)" by fastforce
  obtain rc sc where c: "call env (sreturn ()) sb = (rc, sc)" by fastforce
  have qa: "quiet s sa" using calls [of s] a by (simp add: fails_well_def)
  have qb: "quiet s sb" using calls [of sa] b quiet_trans [OF qa] by (simp add: fails_well_def)
  have qc: "quiet s sc" using calls [of sb] c quiet_trans [OF qb] by (simp add: fails_well_def)
  have run: "execute_locked env job s = (case ra of Inl e \<Rightarrow> (Inl e, sa) | Inr _ \<Rightarrow> (case rb of Inl e \<Rightarrow> (Inl e, sb) | Inr _ \<Rightarrow>
      (case rc of Inl e \<Rightarrow> (Inl e, sc) | Inr _ \<Rightarrow> finish sc)))"
    unfolding execute_locked_def sbind_def a prod.case finish_def by (simp add: b c split: sum.splits)
  have early: "body_ok env job s (Inl e, s1) \<and> xs_locks s1 = xs_locks s" if "quiet s s1" for e s1
    using body_ok_raised [OF nothing_done_quiet [OF that]] that by (simp add: quiet_def)
  have "body_ok env job s (execute_locked env job s) \<and> xs_locks (snd (execute_locked env job s)) = xs_locks s"
    unfolding run using early [OF qa] early [OF qb] early [OF qc] finish [OF qc] by (cases ra; cases rb; cases rc) simp_all
  then show "body_ok env job s (execute_locked env job s)" "xs_locks (snd (execute_locked env job s)) = xs_locks s" by blast+
qed

lemma run_atomic:
  assumes "one_failure env" "staging_private env" "proper_worker env" "plain_session (xs_session s)"
    "\<forall>p. prefix (fe_staging_root env) p \<longrightarrow> fx_fs s p = None" "execute_mutating_tool env job s = (r, s')"
  shows "xs_locks s' = xs_locks s \<and>
    (if \<exists>out. r = Inr out \<and> to_status out = ''completed'' then all_done env job s s' else nothing_done env s s' \<or> outputs_only env job s s')"
proof -
  have "body_ok env job s (r, s') \<and> xs_locks s' = xs_locks s"
  proof (cases "ej_timeout_s job \<le> 0 \<or> \<not> xe_posix env \<or> xs_destroyed s")
    case False
    then show ?thesis using assms(6) execute_locked_ok [OF assms(1-4) _ assms(5), of job] by (simp add: execute_mutating_tool_def)
  next
    case True
    have q: "quiet s s' \<and> (\<forall>out. r = Inr out \<longrightarrow> to_status out \<noteq> ''completed'')"
    proof (cases "ej_timeout_s job \<le> 0 \<or> xe_posix env")
      case False
      obtain r1 s1 where 1: "emit_execution_event env ''error'' (reason_text ''isolated mutating tool execution requires a POSIX platform''
          @ [(''exception_type'', PStr ''UnsupportedExecutionPlatformError'')]) s = (r1, s1)" by fastforce
      then show ?thesis using assms(6) False emit_quiet [OF assms(1) 1]
        by (cases r1) (auto simp: execute_mutating_tool_def Let_def sbind_def sreturn_def error_outcome_def)
    qed (use assms(6) True in \<open>auto simp: execute_mutating_tool_def split: if_splits\<close>)
    then have "body_ok env job s (r, s')" using body_ok_nothing [OF nothing_done_quiet] by blast
    then show ?thesis using q unfolding quiet_def by blast
  qed
  note b = this [unfolded body_ok_def fst_conv snd_conv]
  show ?thesis by (rule conjI [OF conjunct2 [OF b] conjunct1 [OF b]])
qed


section \<open>A run on a small workspace\<close>

definition demo_response :: response_file where
  "demo_response = Json_Value (PDict [(''status'', PStr ''completed''), (''result'', PStr ''ok''),
     (''session_state'', PDict [(''designs'', PDict [(''d1'', PStr ''routed'')]), (''revision'', PInt 2)])])"

definition demo_worker :: worker_run where
  "demo_worker = \<lparr> wr_ending = Ended, wr_files = (\<lambda>_. Some (Regular ''new'')), wr_response = demo_response, wr_stderr = [],
     wr_returncode = 0, wr_stopped = True \<rparr>"

definition demo_env :: "(nat \<Rightarrow> string option) \<Rightarrow> (nat \<Rightarrow> py_error option) \<Rightarrow> (nat \<Rightarrow> py_error option) \<Rightarrow> worker_run \<Rightarrow> exec_env" where
  "demo_env fault sink_fault store_fault w =
     \<lparr> fe_fault = fault, fe_workspace = [''w''], fe_staging_root = [''w'', ''job''],
       fe_resolve = (\<lambda>_ raw. if raw = ''out.txt'' then [''w'', ''out.txt''] else [''elsewhere'']),
       xe_posix = True, xe_sink = True, xe_sink_fault = sink_fault, xe_store_fault = store_fault, xe_cancelled_waiting = False,
       xe_worker = (\<lambda>_ _. w), xe_dump = (\<lambda>_. PDict []), xe_repr = (\<lambda>_. ''{}''), xe_str = (\<lambda>_. ''x''), xe_pairs = (\<lambda>_. Inl (TypeError ''not a mapping'')),
       xe_float_str = (\<lambda>_. ''5.0'') \<rparr>"

definition demo_job :: exec_job where
  "demo_job = \<lparr> ej_tool_name = ''export'', ej_module = ''zaptrace.tools'', ej_qualname = ''export'',
     ej_params = [(''path'', PDict [(''path_policy'', PDict [(''access'', PStr ''output'')])])], ej_kwargs = [(''path'', PStr ''out.txt'')],
     ej_session_id = ''s1'', ej_timeout_s = 5, ej_job_id = ''job-1'' \<rparr>"

definition demo_state :: "bool \<Rightarrow> exec_state" where
  "demo_state durable =
     \<lparr> fx_fs = (\<lambda>p. if p = [''w'', ''out.txt''] then Some (Regular ''old'') else None), fx_calls = 0,
       xs_session = \<lparr> es_designs = Some \<lparr> dm_durable = durable, dm_items = [(''d1'', Json (PStr ''placed''))] \<rparr>, es_rest = [(''revision'', PInt 1)] \<rparr>,
       xs_store = [(''d1'', Json (PStr ''placed''))], xs_destroyed = False, xs_events = [], xs_journal = [], xs_locks = [], xs_running = None \<rparr>"

definition no_failure :: "nat \<Rightarrow> 'e option" where
  "no_failure n = None"

definition fails_at :: "nat \<Rightarrow> 'e \<Rightarrow> nat \<Rightarrow> 'e option" where
  "fails_at k e n = (if n = k then Some e else None)"

text \<open>What a run shows: how it ended, the target, the session, the store and the journal.\<close>

definition observed where
  "observed x = (map_sum id to_status (fst x), fx_fs (snd x) [''w'', ''out.txt''], xs_session (snd x), xs_store (snd x), xs_journal (snd x),
     map fst (xs_events (snd x)), fx_calls (snd x))"

abbreviation "sound_env \<equiv> demo_env no_failure no_failure no_failure demo_worker"

lemma sound_env: "one_failure sound_env" "staging_private sound_env" "proper_worker sound_env"
  by (auto simp: one_failure_def failure_at_def demo_env_def no_failure_def staging_private_def proper_worker_def demo_worker_def demo_response_def
      dict_get_def proper_session_def)

lemma demo_plain: "plain_session (xs_session (demo_state False))" "\<forall>p. prefix (fe_staging_root sound_env) p \<longrightarrow> fx_fs (demo_state False) p = None"
  by (auto simp: plain_session_def demo_state_def demo_env_def)

lemma demo_completes:
  "observed (execute_mutating_tool sound_env demo_job (demo_state False)) =
     (Inr ''completed'', Some (Regular ''new''),
      \<lparr> es_designs = Some \<lparr> dm_durable = False, dm_items = [(''d1'', Json (PStr ''routed''))] \<rparr>, es_rest = [(''revision'', PInt 2)] \<rparr>,
      [(''d1'', Json (PStr ''placed''))], ''committed'', [''start'', ''commit''], 16)"
  by code_simp


text \<open>The journal entry before the commit is written outside the \<^verbatim>\<open>try\<close>: the run fails and the old output is lost.\<close>

theorem outputs_replaced_by_failed_run:
  "observed (execute_mutating_tool (demo_env (fails_at 13 ''disk full'') no_failure no_failure demo_worker) demo_job (demo_state False)) =
     (Inr ''error'', Some (Regular ''new''),
      \<lparr> es_designs = Some \<lparr> dm_durable = False, dm_items = [(''d1'', Json (PStr ''placed''))] \<rparr>, es_rest = [(''revision'', PInt 1)] \<rparr>,
      [(''d1'', Json (PStr ''placed''))], ''publishing_outputs'', [''start'', ''rollback''], 15)"
  by code_simp

text \<open>A failed durable commit is undone, but the designs come back in a plain dictionary that is no longer persisted.\<close>

theorem restored_session_not_durable:
  "observed (execute_mutating_tool (demo_env no_failure no_failure (fails_at 14 (RuntimeError ''store busy'')) demo_worker) demo_job (demo_state True)) =
     (Inr ''error'', Some (Regular ''old''),
      \<lparr> es_designs = Some \<lparr> dm_durable = False, dm_items = [(''d1'', Json (PStr ''placed''))] \<rparr>, es_rest = [(''revision'', PInt 1)] \<rparr>,
      [(''d1'', Json (PStr ''placed''))], ''committing_state'', [''start'', ''rollback''], 19)"
  by code_simp

text \<open>An error of SQLite is none of the classes handled: nothing is undone and the session has no designs.\<close>

theorem sqlite_error_not_undone:
  "observed (execute_mutating_tool (demo_env no_failure no_failure (fails_at 14 (IntegrityError ''database is locked'')) demo_worker) demo_job (demo_state True)) =
     (Inl (IntegrityError ''database is locked''), Some (Regular ''new''), \<lparr> es_designs = None, es_rest = [(''revision'', PInt 2)] \<rparr>,
      [(''d1'', Json (PStr ''placed''))], ''committing_state'', [''start''], 15)"
  by code_simp

text \<open>So it is with an event sink that raises another class after the commit: the call raises, the state stays committed.\<close>

theorem sink_error_after_commit:
  "observed (execute_mutating_tool (demo_env no_failure (fails_at 15 (IndexError ''sink'')) no_failure demo_worker) demo_job (demo_state True)) =
     (Inl (IndexError ''sink''), Some (Regular ''new''),
      \<lparr> es_designs = Some \<lparr> dm_durable = True, dm_items = [(''d1'', Json (PStr ''routed''))] \<rparr>, es_rest = [(''revision'', PInt 2)] \<rparr>,
      [(''d1'', Json (PStr ''routed''))], ''committing_state'', [''start''], 16)"
  by code_simp

text \<open>A cancellation is answered with an error outcome instead of being raised when the event sink fails meanwhile.\<close>

definition cancelled_worker :: worker_run where
  "cancelled_worker = \<lparr> wr_ending = Cancelled_Running, wr_files = (\<lambda>_. Some (Regular ''new'')), wr_response = demo_response, wr_stderr = [],
     wr_returncode = 0, wr_stopped = True \<rparr>"

theorem cancellation_lost:
  "fst (communicate_with_deadline (demo_env no_failure no_failure no_failure cancelled_worker) demo_job cancelled_worker (demo_state False)) = Inl cancelled_error"
  "fst (communicate_with_deadline (demo_env no_failure (fails_at 0 (RuntimeError ''sink'')) no_failure cancelled_worker) demo_job cancelled_worker (demo_state False))
     = Inl (RuntimeError ''execution lifecycle audit failed: sink'')"
  by code_simp+

text \<open>After a completed run no design of the session is a model object any more.\<close>

theorem completed_designs_are_json:
  assumes "all_done env job s s'"
  shows "\<exists>m. es_designs (xs_session s') = Some m \<and> (\<forall>d\<in>set (dm_items m). \<exists>v. snd d = Json v)"
proof -
  obtain st where "xs_session s' = committed_session env st (xs_session s)" using assms unfolding all_done_def by blast
  then show ?thesis by (auto simp: committed_session_def json_designs_def split: option.splits pyval.splits)
qed

end
