(* ===== verification/Execution_Locks.thy ===== *)
theory Execution_Locks
  imports Tool_Staging
begin

text \<open>
  Concurrent requests on sessions (\<^verbatim>\<open>src/zaptrace/agent/execution.py\<close>, \<^verbatim>\<open>src/zaptrace/mcp/server.py\<close>):
  mutating tool runs take the lock of their session and then the locks of their output targets in a
  fixed order, and a session is destroyed under its lock. Between two awaits a request runs alone, so a
  request advances from one await to the next in one step, and steps of different requests interleave
  freely. Lock objects live in weak dictionaries: an entry is there as long as a request refers to the
  lock. A session is what a tool reads and replaces; audit events, which are merged when a run commits,
  are left out (\<open>Tool_Execution\<close>). Waiters of one lock are served in any order.
\<close>

section \<open>Requests and locks\<close>

text \<open>What the worker makes of the session; nothing when the run fails.\<close>

datatype 'a request =
    Mutate string "path list" "'a \<Rightarrow> 'a option"
  | Destroy string

fun rq_session :: "'a request \<Rightarrow> string" where
  "rq_session (Mutate sid _ _) = sid"
| "rq_session (Destroy sid) = sid"

fun lock_targets :: "'a request \<Rightarrow> path list" where
  "lock_targets (Mutate _ ts _) = sort (remdups ts)"
| "lock_targets (Destroy _) = []"

datatype reply = Completed | Failed | Conflict | Cancelled | Destroyed | Not_Found

text \<open>Where a request is: the lock of its session, its output locks, how many of them it has.\<close>

datatype 'a phase =
    Asked
  | Waiting nat
  | Inside nat
  | Queued nat "nat list" nat
  | Working nat "nat list" 'a
  | Answered reply

record 'a exec_world =
  ew_session_locks :: "string \<Rightarrow> nat option"
  ew_output_locks :: "path \<Rightarrow> nat option"
  ew_locked :: "nat set"
  ew_fresh :: nat
  ew_destroyed :: "string set"
  ew_sessions :: "string \<Rightarrow> 'a option"
  ew_phases :: "'a phase list"

fun phase_refs :: "'a phase \<Rightarrow> nat set" where
  "phase_refs (Waiting l) = {l}"
| "phase_refs (Inside l) = {l}"
| "phase_refs (Queued l ls _) = insert l (set ls)"
| "phase_refs (Working l ls _) = insert l (set ls)"
| "phase_refs _ = {}"

text \<open>Entries of locks nobody refers to vanish.\<close>

definition live :: "nat set \<Rightarrow> ('k \<Rightarrow> nat option) \<Rightarrow> 'k \<Rightarrow> nat option" where
  "live refs m k = (case m k of Some l \<Rightarrow> if l \<in> refs then Some l else None | None \<Rightarrow> None)"

definition collect :: "'a exec_world \<Rightarrow> 'a exec_world" where
  "collect w =
     (let refs = \<Union> (set (map phase_refs (ew_phases w))) in
      w\<lparr> ew_session_locks := live refs (ew_session_locks w), ew_output_locks := live refs (ew_output_locks w) \<rparr>)"

definition at_phase :: "nat \<Rightarrow> 'a phase \<Rightarrow> 'a exec_world \<Rightarrow> 'a exec_world" where
  "at_phase j p w = w\<lparr> ew_phases := (ew_phases w)[j := p] \<rparr>"

definition lock_all :: "nat set \<Rightarrow> 'a exec_world \<Rightarrow> 'a exec_world" where
  "lock_all ls w = w\<lparr> ew_locked := ew_locked w \<union> ls \<rparr>"

text \<open>The request ends: it gives its locks back and refers to none.\<close>

definition answer :: "nat \<Rightarrow> nat set \<Rightarrow> reply \<Rightarrow> 'a exec_world \<Rightarrow> 'a exec_world" where
  "answer j held r w = collect (at_phase j (Answered r) (w\<lparr> ew_locked := ew_locked w - held \<rparr>))"

definition session_execution_lock :: "string \<Rightarrow> 'a exec_world \<Rightarrow> nat \<times> 'a exec_world" where
  "session_execution_lock session_id w =
     (case ew_session_locks w session_id of
        Some l \<Rightarrow> (l, w)
      | None \<Rightarrow> (ew_fresh w, w\<lparr> ew_session_locks := (ew_session_locks w)(session_id \<mapsto> ew_fresh w), ew_fresh := ew_fresh w + 1 \<rparr>))"

definition output_execution_lock :: "path \<Rightarrow> 'a exec_world \<Rightarrow> nat \<times> 'a exec_world" where
  "output_execution_lock target_path w =
     (case ew_output_locks w target_path of
        Some l \<Rightarrow> (l, w)
      | None \<Rightarrow> (ew_fresh w, w\<lparr> ew_output_locks := (ew_output_locks w)(target_path \<mapsto> ew_fresh w), ew_fresh := ew_fresh w + 1 \<rparr>))"

fun locks_of_all :: "('k \<Rightarrow> 'w \<Rightarrow> nat \<times> 'w) \<Rightarrow> 'k list \<Rightarrow> 'w \<Rightarrow> nat list \<times> 'w" where
  "locks_of_all obtain_lock [] w = ([], w)"
| "locks_of_all obtain_lock (k # ks) w =
     (let (l, w1) = obtain_lock k w; (ls, w2) = locks_of_all obtain_lock ks w1 in (l # ls, w2))"

definition output_execution_locks :: "path list \<Rightarrow> 'a exec_world \<Rightarrow> nat list \<times> 'a exec_world" where
  "output_execution_locks = locks_of_all output_execution_lock"

definition mark_session_destroyed :: "string \<Rightarrow> 'a exec_world \<Rightarrow> 'a exec_world" where
  "mark_session_destroyed session_id w = w\<lparr> ew_destroyed := insert session_id (ew_destroyed w) \<rparr>"

definition is_session_destroyed :: "string \<Rightarrow> 'a exec_world \<Rightarrow> bool" where
  "is_session_destroyed session_id w = (session_id \<in> ew_destroyed w)"

text \<open>\<^verbatim>\<open>_get_session\<close>: a session is made on first use, never again once it is destroyed.\<close>

definition get_session :: "'a \<Rightarrow> string \<Rightarrow> 'a exec_world \<Rightarrow> ('a \<times> 'a exec_world) option" where
  "get_session made session_id w =
     (if is_session_destroyed session_id w then None
      else case ew_sessions w session_id of
        Some x \<Rightarrow> Some (x, w)
      | None \<Rightarrow> Some (made, w\<lparr> ew_sessions := (ew_sessions w)(session_id \<mapsto> made) \<rparr>))"

definition session_destroy :: "string \<Rightarrow> 'a exec_world \<Rightarrow> reply \<times> 'a exec_world" where
  "session_destroy session_id w =
     (if ew_sessions w session_id = None then (Not_Found, w)
      else (Destroyed, (mark_session_destroyed session_id w)\<lparr> ew_sessions := (ew_sessions w)(session_id := None) \<rparr>))"

text \<open>From one await to the next; a request that waits for a lock that is taken cannot advance.\<close>

definition advance :: "'a \<Rightarrow> 'a request list \<Rightarrow> nat \<Rightarrow> 'a exec_world \<Rightarrow> 'a exec_world option" where
  "advance made jobs j w =
     (let sid = rq_session (jobs ! j) in
      case ew_phases w ! j of
        Asked \<Rightarrow> (let (l, w1) = session_execution_lock sid w in Some (at_phase j (Waiting l) w1))
      | Waiting l \<Rightarrow> if l \<in> ew_locked w then None else Some (at_phase j (Inside l) (lock_all {l} w))
      | Inside l \<Rightarrow>
          (case jobs ! j of
             Destroy _ \<Rightarrow> (let (r, w1) = session_destroy sid w in Some (answer j {l} r w1))
           | Mutate _ _ _ \<Rightarrow>
               if is_session_destroyed sid w then Some (answer j {l} Conflict w)
               else (let (ls, w1) = output_execution_locks (lock_targets (jobs ! j)) w in Some (at_phase j (Queued l ls 0) w1)))
      | Queued l ls k \<Rightarrow>
          if k < length ls then
            (if ls ! k \<in> ew_locked w then None else Some (at_phase j (Queued l ls (k + 1)) (lock_all {ls ! k} w)))
          else
            (case get_session made sid w of
               None \<Rightarrow> Some (answer j (insert l (set ls)) Failed w)
             | Some (x, w1) \<Rightarrow> Some (at_phase j (Working l ls x) w1))
      | Working l ls x \<Rightarrow>
          (case jobs ! j of
             Mutate _ _ work \<Rightarrow>
               (case work x of
                  None \<Rightarrow> Some (answer j (insert l (set ls)) Failed w)
                | Some y \<Rightarrow>
                    (case get_session made sid w of
                       None \<Rightarrow> Some (answer j (insert l (set ls)) Failed w)
                     | Some (_, w1) \<Rightarrow> Some (answer j (insert l (set ls)) Completed (w1\<lparr> ew_sessions := (ew_sessions w1)(sid \<mapsto> y) \<rparr>))))
           | Destroy _ \<Rightarrow> None)
      | Answered _ \<Rightarrow> None)"

text \<open>A request that is cancelled, or whose run fails between two awaits, gives back what it has.\<close>

definition abandon :: "'a request list \<Rightarrow> nat \<Rightarrow> reply \<Rightarrow> 'a exec_world \<Rightarrow> 'a exec_world option" where
  "abandon jobs j r w =
     (case ew_phases w ! j of
        Asked \<Rightarrow> Some (answer j {} r w)
      | Waiting l \<Rightarrow> Some (answer j {} r w)
      | Inside l \<Rightarrow> (case jobs ! j of Mutate _ _ _ \<Rightarrow> Some (answer j {l} r w) | Destroy _ \<Rightarrow> None)
      | Queued l ls k \<Rightarrow> Some (answer j (insert l (set (take k ls))) r w)
      | Working l ls x \<Rightarrow> Some (answer j (insert l (set ls)) r w)
      | Answered _ \<Rightarrow> None)"

text \<open>What happens to the sessions.\<close>

datatype event = Quiet | Made string | Committed nat | Gone string

definition event_of :: "'a request list \<Rightarrow> nat \<Rightarrow> 'a exec_world \<Rightarrow> event" where
  "event_of jobs j w =
     (let sid = rq_session (jobs ! j) in
      case (ew_phases w ! j, jobs ! j) of
        (Inside _, Destroy _) \<Rightarrow> if ew_sessions w sid = None then Quiet else Gone sid
      | (Queued _ ls k, _) \<Rightarrow> if k < length ls \<or> is_session_destroyed sid w then Quiet else Made sid
      | (Working _ _ x, Mutate _ _ work) \<Rightarrow> if work x = None \<or> is_session_destroyed sid w then Quiet else Committed j
      | _ \<Rightarrow> Quiet)"

inductive world_step :: "'a \<Rightarrow> 'a request list \<Rightarrow> event \<Rightarrow> 'a exec_world \<Rightarrow> 'a exec_world \<Rightarrow> bool" for made jobs where
  step_advance: "j < length jobs \<Longrightarrow> advance made jobs j w = Some w' \<Longrightarrow> world_step made jobs (event_of jobs j w) w w'"
| step_abandon: "j < length jobs \<Longrightarrow> abandon jobs j r w = Some w' \<Longrightarrow> r = Failed \<or> r = Cancelled \<Longrightarrow> world_step made jobs Quiet w w'"
| step_visit: "get_session made sid w = Some (x, w') \<Longrightarrow> world_step made jobs (Made sid) w w'" \<comment> \<open>a request that only looks\<close>

inductive_cases world_stepE: "world_step made jobs e w w'"

inductive world_run :: "'a \<Rightarrow> 'a request list \<Rightarrow> event list \<Rightarrow> 'a exec_world \<Rightarrow> 'a exec_world \<Rightarrow> bool" for made jobs where
  run_none: "world_run made jobs [] w w"
| run_step: "world_run made jobs es w w1 \<Longrightarrow> world_step made jobs e w1 w2 \<Longrightarrow> world_run made jobs (es @ [e]) w w2"

definition initial_world :: "'a request list \<Rightarrow> (string \<Rightarrow> 'a option) \<Rightarrow> 'a exec_world" where
  "initial_world jobs sessions =
     \<lparr> ew_session_locks = Map.empty, ew_output_locks = Map.empty, ew_locked = {}, ew_fresh = 0, ew_destroyed = {},
       ew_sessions = sessions, ew_phases = replicate (length jobs) Asked \<rparr>"

section \<open>The requests one after the other\<close>

fun replay_event :: "'a \<Rightarrow> 'a request list \<Rightarrow> event \<Rightarrow> (string \<Rightarrow> 'a option) \<Rightarrow> string \<Rightarrow> 'a option" where
  "replay_event made jobs Quiet m = m"
| "replay_event made jobs (Made sid) m = (case m sid of None \<Rightarrow> m(sid \<mapsto> made) | Some _ \<Rightarrow> m)"
| "replay_event made jobs (Gone sid) m = m(sid := None)"
| "replay_event made jobs (Committed j) m =
     (case jobs ! j of
        Mutate sid _ work \<Rightarrow> (case m sid of Some x \<Rightarrow> (case work x of Some y \<Rightarrow> m(sid \<mapsto> y) | None \<Rightarrow> m) | None \<Rightarrow> m)
      | Destroy _ \<Rightarrow> m)"

definition replay_all :: "'a \<Rightarrow> 'a request list \<Rightarrow> event list \<Rightarrow> (string \<Rightarrow> 'a option) \<Rightarrow> string \<Rightarrow> 'a option" where
  "replay_all made jobs es m = fold (replay_event made jobs) es m"

section \<open>The invariant\<close>

fun phase_held :: "'a phase \<Rightarrow> nat set" where
  "phase_held (Inside l) = {l}"
| "phase_held (Queued l ls k) = insert l (set (take k ls))"
| "phase_held (Working l ls _) = insert l (set ls)"
| "phase_held _ = {}"

fun is_mutate :: "'a request \<Rightarrow> bool" where
  "is_mutate (Mutate _ _ _) = True"
| "is_mutate (Destroy _) = False"

definition registry_ok :: "'a exec_world \<Rightarrow> bool" where
  "registry_ok w \<longleftrightarrow> inj_on (ew_session_locks w) (dom (ew_session_locks w)) \<and> inj_on (ew_output_locks w) (dom (ew_output_locks w))
     \<and> ran (ew_session_locks w) \<inter> ran (ew_output_locks w) = {} \<and> (\<forall>l\<in>ran (ew_session_locks w) \<union> ran (ew_output_locks w). l < ew_fresh w)"

fun phase_ok :: "'a exec_world \<Rightarrow> 'a request \<Rightarrow> 'a phase \<Rightarrow> bool" where
  "phase_ok w rq (Waiting l) \<longleftrightarrow> ew_session_locks w (rq_session rq) = Some l"
| "phase_ok w rq (Inside l) \<longleftrightarrow> ew_session_locks w (rq_session rq) = Some l"
| "phase_ok w rq (Queued l ls k) \<longleftrightarrow> ew_session_locks w (rq_session rq) = Some l \<and> map (ew_output_locks w) (lock_targets rq) = map Some ls
     \<and> k \<le> length ls \<and> is_mutate rq \<and> rq_session rq \<notin> ew_destroyed w"
| "phase_ok w rq (Working l ls x) \<longleftrightarrow> ew_session_locks w (rq_session rq) = Some l \<and> map (ew_output_locks w) (lock_targets rq) = map Some ls
     \<and> is_mutate rq \<and> rq_session rq \<notin> ew_destroyed w \<and> ew_sessions w (rq_session rq) = Some x"
| "phase_ok w rq _ \<longleftrightarrow> True"

definition world_inv :: "'a request list \<Rightarrow> 'a exec_world \<Rightarrow> bool" where
  "world_inv jobs w \<longleftrightarrow> length (ew_phases w) = length jobs \<and> registry_ok w
     \<and> (\<forall>j<length jobs. phase_ok w (jobs ! j) (ew_phases w ! j))
     \<and> ew_locked w = \<Union> (phase_held ` set (ew_phases w))
     \<and> (\<forall>i<length jobs. \<forall>j<length jobs. i \<noteq> j \<longrightarrow> phase_held (ew_phases w ! i) \<inter> phase_held (ew_phases w ! j) = {})
     \<and> (\<forall>sid\<in>ew_destroyed w. ew_sessions w sid = None)"

lemma world_invD:
  assumes "world_inv jobs w"
  shows "length (ew_phases w) = length jobs" "registry_ok w" "j < length jobs \<Longrightarrow> phase_ok w (jobs ! j) (ew_phases w ! j)"
    "ew_locked w = \<Union> (phase_held ` set (ew_phases w))" "sid \<in> ew_destroyed w \<Longrightarrow> ew_sessions w sid = None"
    "i < length jobs \<Longrightarrow> j < length jobs \<Longrightarrow> i \<noteq> j \<Longrightarrow> phase_held (ew_phases w ! i) \<inter> phase_held (ew_phases w ! j) = {}"
  using assms unfolding world_inv_def by blast+

lemma phase_held_refs: "phase_held p \<subseteq> phase_refs p"
  by (cases p) (auto dest: in_set_takeD)

lemma phase_ok_mono:
  assumes "phase_ok w rq p" "ew_session_locks w \<subseteq>\<^sub>m ew_session_locks w'" "ew_output_locks w \<subseteq>\<^sub>m ew_output_locks w'"
    "rq_session rq \<in> ew_destroyed w' \<Longrightarrow> rq_session rq \<in> ew_destroyed w" "\<And>l ls x. p = Working l ls x \<Longrightarrow> ew_sessions w' (rq_session rq) = ew_sessions w (rq_session rq)"
  shows "phase_ok w' rq p"
proof -
  have out: "map (ew_output_locks w') ts = map Some ls" if "map (ew_output_locks w) ts = map Some ls" for ts and ls :: "nat list"
    using that assms(3) by (induction ts arbitrary: ls) (auto simp: map_le_def dom_def Cons_eq_map_conv map_eq_Cons_conv)
  have ses: "ew_session_locks w' sid = Some l" if "ew_session_locks w sid = Some l" for sid l
    using that assms(2) unfolding map_le_def by (metis domI)
  show ?thesis using assms(1,4,5) by (cases p) (auto intro: out ses)
qed

lemma set_update_eq:
  assumes "j < length xs"
  shows "set (xs[j := p]) = insert p {xs ! i | i. i < length xs \<and> i \<noteq> j}" (is "_ = ?R")
proof
  show "set (xs[j := p]) \<subseteq> ?R"
  proof
    fix x assume "x \<in> set (xs[j := p])"
    then obtain i where i: "i < length xs" "x = xs[j := p] ! i" by (auto simp: in_set_conv_nth)
    then show "x \<in> ?R" by (cases "i = j") auto
  qed
  have "xs ! i \<in> set (xs[j := p])" if "i < length xs" "i \<noteq> j" for i
    using that nth_mem [of i "xs[j := p]"] by simp
  then show "?R \<subseteq> set (xs[j := p])" using assms by (auto intro: set_update_memI)
qed

lemma set_update_split: "j < length xs \<Longrightarrow> \<Union> (f ` set (xs[j := p])) = f p \<union> \<Union> (f ` {xs ! i | i. i < length xs \<and> i \<noteq> j})"
  by (simp only: set_update_eq image_insert Union_insert)

lemma set_split: "j < length xs \<Longrightarrow> \<Union> (f ` set xs) = f (xs ! j) \<union> \<Union> (f ` {xs ! i | i. i < length xs \<and> i \<noteq> j})"
  using set_update_split [of j xs f "xs ! j"] by simp

text \<open>A request moves on, with more locks, entries and sessions than before.\<close>

lemma inv_at_phase:
  assumes inv: "world_inv jobs w" and j: "j < length jobs"
    and reg: "registry_ok w1" "ew_session_locks w \<subseteq>\<^sub>m ew_session_locks w1" "ew_output_locks w \<subseteq>\<^sub>m ew_output_locks w1"
    and same: "ew_phases w1 = ew_phases w" "ew_destroyed w1 = ew_destroyed w"
    and locks: "ew_locked w1 = ew_locked w \<union> L" "L \<inter> ew_locked w = {}" "phase_held p = phase_held (ew_phases w ! j) \<union> L"
    and ses: "\<And>sid x. ew_sessions w sid = Some x \<Longrightarrow> ew_sessions w1 sid = Some x" "\<And>sid. sid \<in> ew_destroyed w \<Longrightarrow> ew_sessions w1 sid = None"
    and ok: "phase_ok w1 (jobs ! j) p"
  shows "world_inv jobs (at_phase j p w1)"
proof -
  note i = world_invD [OF inv]
  have len: "j < length (ew_phases w)" using i(1) j by simp
  have oks: "phase_ok (at_phase j p w1) (jobs ! k) (ew_phases (at_phase j p w1) ! k)" if k: "k < length jobs" for k
  proof (cases "k = j")
    case True
    then show ?thesis by (auto simp: at_phase_def len same(1) intro: phase_ok_mono [OF ok])
  next
    case False
    have "phase_ok w1 (jobs ! k) (ew_phases w ! k)"
    proof (rule phase_ok_mono [OF i(3) [OF k] reg(2,3)])
      show "ew_sessions w1 (rq_session (jobs ! k)) = ew_sessions w (rq_session (jobs ! k))" if "ew_phases w ! k = Working l ls x" for l ls x
        using i(3) [OF k] that ses(1) by simp
    qed (simp add: same)
    then have "phase_ok (at_phase j p w1) (jobs ! k) (ew_phases w ! k)" by (rule phase_ok_mono) (simp_all add: at_phase_def)
    then show ?thesis using False by (simp add: at_phase_def same(1))
  qed
  have others: "phase_held (ew_phases w ! k) \<inter> L = {}" if "k < length jobs" for k
    using locks(2) nth_mem [of k "ew_phases w"] that unfolding i(1,4) by blast
  have held: "phase_held (ew_phases (at_phase j p w1) ! k) = (if k = j then phase_held (ew_phases w ! j) \<union> L else phase_held (ew_phases w ! k))" for k
    using len locks(3) by (simp add: at_phase_def same(1) nth_list_update)
  have "ew_locked (at_phase j p w1) = \<Union> (phase_held ` set (ew_phases (at_phase j p w1)))"
    unfolding at_phase_def using locks(1,3) i(4) set_split [OF len, of phase_held] set_update_split [OF len, of phase_held p] by (auto simp: same(1))
  moreover have "registry_ok (at_phase j p w1)" using reg(1) by (simp add: registry_ok_def at_phase_def)
  moreover have "phase_held (ew_phases (at_phase j p w1) ! k) \<inter> phase_held (ew_phases (at_phase j p w1) ! k') = {}"
    if "k < length jobs" "k' < length jobs" "k \<noteq> k'" for k k'
    unfolding held using i(6) [OF that] others that j by auto
  ultimately show ?thesis using oks i(1,5) ses(2) same unfolding world_inv_def by (simp add: at_phase_def)
qed

lemma registry_ok_new:
  assumes "registry_ok w" "ew_session_locks w k = None"
  shows "registry_ok (w\<lparr> ew_session_locks := (ew_session_locks w)(k \<mapsto> ew_fresh w), ew_fresh := ew_fresh w + 1 \<rparr>)"
proof -
  have new: "ew_fresh w \<notin> ran (ew_session_locks w) \<union> ran (ew_output_locks w)" using assms(1) by (auto simp: registry_ok_def)
  have "inj_on ((ew_session_locks w)(k \<mapsto> ew_fresh w)) (insert k (dom (ew_session_locks w)))"
    using assms new by (auto simp: registry_ok_def inj_on_def ran_def dom_def)
  then show ?thesis using assms new by (auto simp: registry_ok_def less_Suc_eq)
qed

lemma registry_ok_new_output:
  assumes "registry_ok w" "ew_output_locks w k = None"
  shows "registry_ok (w\<lparr> ew_output_locks := (ew_output_locks w)(k \<mapsto> ew_fresh w), ew_fresh := ew_fresh w + 1 \<rparr>)"
proof -
  have new: "ew_fresh w \<notin> ran (ew_session_locks w) \<union> ran (ew_output_locks w)" using assms(1) by (auto simp: registry_ok_def)
  have "inj_on ((ew_output_locks w)(k \<mapsto> ew_fresh w)) (insert k (dom (ew_output_locks w)))"
    using assms new by (auto simp: registry_ok_def inj_on_def ran_def dom_def)
  then show ?thesis using assms new by (auto simp: registry_ok_def less_Suc_eq)
qed

text \<open>Everything but the registries is as before.\<close>

definition same_rest_world :: "'a exec_world \<Rightarrow> 'a exec_world \<Rightarrow> bool" where
  "same_rest_world w w1 \<longleftrightarrow> ew_locked w1 = ew_locked w \<and> ew_destroyed w1 = ew_destroyed w \<and> ew_sessions w1 = ew_sessions w \<and> ew_phases w1 = ew_phases w"

text \<open>
  A registry of locks: asking for a key gives the lock that is registered for it from then on, and
  leaves every other entry and the rest of the world as they are.
\<close>

locale lock_registry =
  fixes lookup :: "'w \<Rightarrow> 'k \<Rightarrow> nat option"
    and obtain_lock :: "'k \<Rightarrow> 'w \<Rightarrow> nat \<times> 'w"
    and sound :: "'w \<Rightarrow> bool"
    and untouched :: "'w \<Rightarrow> 'w \<Rightarrow> bool"
  assumes obtain_sound: "sound w \<Longrightarrow> obtain_lock k w = (l, w1) \<Longrightarrow> sound w1 \<and> untouched w w1"
    and obtain_registered: "sound w \<Longrightarrow> obtain_lock k w = (l, w1) \<Longrightarrow> lookup w1 k = Some l"
    and obtain_le: "sound w \<Longrightarrow> obtain_lock k w = (l, w1) \<Longrightarrow> lookup w \<subseteq>\<^sub>m lookup w1"
    and obtain_same: "lookup w k = Some l \<Longrightarrow> obtain_lock k w = (l, w)"
    and untouched_refl: "untouched w w"
    and untouched_trans: "untouched w w1 \<Longrightarrow> untouched w1 w2 \<Longrightarrow> untouched w w2"
begin

lemma obtain_again: "sound w \<Longrightarrow> obtain_lock k w = (l, w1) \<Longrightarrow> obtain_lock k w1 = (l, w1)"
  using obtain_registered obtain_same by blast

lemma obtain_all:
  "locks_of_all obtain_lock ks w = (ls, w1) \<Longrightarrow> sound w \<Longrightarrow>
     sound w1 \<and> untouched w w1 \<and> lookup w \<subseteq>\<^sub>m lookup w1 \<and> map (lookup w1) ks = map Some ls"
proof (induction ks arbitrary: w ls)
  case Nil
  then show ?case by (simp add: untouched_refl)
next
  case (Cons k ks)
  obtain l w2 where 1: "obtain_lock k w = (l, w2)" by fastforce
  obtain ls' where 2: "locks_of_all obtain_lock ks w2 = (ls', w1)" "ls = l # ls'" using Cons.prems(1) 1 by (auto split: prod.splits)
  note w2 = obtain_sound [OF Cons.prems(2) 1] obtain_registered [OF Cons.prems(2) 1] obtain_le [OF Cons.prems(2) 1]
  note IH = Cons.IH [OF 2(1)]
  have "sound w2" using w2(1) by blast
  note IH = IH [OF this]
  have "lookup w1 k = Some l" using w2(2) IH unfolding map_le_def by (metis domI)
  then show ?case using IH w2 2(2) map_le_trans [OF w2(3)] untouched_trans by auto
qed

end

definition only_session_locks :: "'a exec_world \<Rightarrow> 'a exec_world \<Rightarrow> bool" where
  "only_session_locks w w1 \<longleftrightarrow> same_rest_world w w1 \<and> ew_output_locks w1 = ew_output_locks w"

definition only_output_locks :: "'a exec_world \<Rightarrow> 'a exec_world \<Rightarrow> bool" where
  "only_output_locks w w1 \<longleftrightarrow> same_rest_world w w1 \<and> ew_session_locks w1 = ew_session_locks w"

interpretation session_registry: lock_registry ew_session_locks session_execution_lock registry_ok only_session_locks
  by unfold_locales
    (auto simp: session_execution_lock_def registry_ok_new [simplified] only_session_locks_def same_rest_world_def map_le_def split: option.splits)

interpretation output_registry: lock_registry ew_output_locks output_execution_lock registry_ok only_output_locks
  by unfold_locales
    (auto simp: output_execution_lock_def registry_ok_new_output [simplified] only_output_locks_def same_rest_world_def map_le_def split: option.splits)

lemma session_lock_ok:
  assumes "session_execution_lock sid w = (l, w1)" "registry_ok w"
  shows "registry_ok w1" "ew_session_locks w \<subseteq>\<^sub>m ew_session_locks w1" "ew_output_locks w1 = ew_output_locks w" "same_rest_world w w1" "ew_session_locks w1 sid = Some l"
  using session_registry.obtain_sound [OF assms(2,1)] session_registry.obtain_registered [OF assms(2,1)] session_registry.obtain_le [OF assms(2,1)]
  by (simp_all add: only_session_locks_def)

lemma output_locks_ok:
  "output_execution_locks ts w = (ls, w1) \<Longrightarrow> registry_ok w \<Longrightarrow>
     registry_ok w1 \<and> ew_output_locks w \<subseteq>\<^sub>m ew_output_locks w1 \<and> ew_session_locks w1 = ew_session_locks w \<and> same_rest_world w w1
     \<and> map (ew_output_locks w1) ts = map Some ls"
  using output_registry.obtain_all [of ts w ls w1] by (simp add: output_execution_locks_def only_output_locks_def)

lemma live_Some: "live refs m k = Some l \<longleftrightarrow> m k = Some l \<and> l \<in> refs"
  by (auto simp: live_def split: option.splits)

lemma live_le: "live refs m \<subseteq>\<^sub>m m"
  by (auto simp: map_le_def live_def split: option.splits if_splits)

lemma map_live: "map m ts = map Some ls \<Longrightarrow> set ls \<subseteq> refs \<Longrightarrow> map (live refs m) ts = map Some ls"
  by (induction ts arbitrary: ls) (auto simp: live_Some map_eq_Cons_conv Cons_eq_map_conv)

lemma inj_live:
  assumes "inj_on m (dom m)"
  shows "inj_on (live refs m) (dom (live refs m))"
proof (rule inj_onI)
  fix x y assume "x \<in> dom (live refs m)" "live refs m x = live refs m y"
  then obtain l where "live refs m x = Some l" "live refs m y = Some l" by (metis domD)
  then have "m x = Some l" "m y = Some l" by (simp_all add: live_Some)
  then show "x = y" using inj_onD [OF assms, of x y] by (simp add: domI)
qed

lemma ran_live: "ran (live refs m) \<subseteq> ran m"
  by (auto simp: ran_def live_Some)

lemma registry_collect:
  assumes "registry_ok w"
  shows "registry_ok (collect w)"
proof -
  let ?refs = "\<Union> (set (map phase_refs (ew_phases w)))"
  have r: "ran (live ?refs (ew_session_locks w)) \<subseteq> ran (ew_session_locks w)" "ran (live ?refs (ew_output_locks w)) \<subseteq> ran (ew_output_locks w)"
    by (rule ran_live)+
  have a: "inj_on (ew_session_locks w) (dom (ew_session_locks w))" "inj_on (ew_output_locks w) (dom (ew_output_locks w))"
    "ran (ew_session_locks w) \<inter> ran (ew_output_locks w) = {}" "\<forall>l\<in>ran (ew_session_locks w) \<union> ran (ew_output_locks w). l < ew_fresh w"
    using assms by (simp_all add: registry_ok_def)
  have f: "ew_session_locks (collect w) = live ?refs (ew_session_locks w)" "ew_output_locks (collect w) = live ?refs (ew_output_locks w)"
    "ew_fresh (collect w) = ew_fresh w" by (simp_all add: collect_def Let_def)
  show ?thesis unfolding registry_ok_def f using inj_live [OF a(1), of ?refs] inj_live [OF a(2), of ?refs] r a(3,4) by blast
qed

lemma collect_fields [simp]: "ew_phases (collect w) = ew_phases w" "ew_locked (collect w) = ew_locked w" "ew_destroyed (collect w) = ew_destroyed w"
  "ew_sessions (collect w) = ew_sessions w"
  by (simp_all add: collect_def Let_def)

lemma phase_ok_collect:
  assumes "phase_ok w rq p" "p \<in> set (ew_phases w)"
  shows "phase_ok (collect w) rq p"
proof -
  have "phase_refs p \<subseteq> \<Union> (set (map phase_refs (ew_phases w)))" using assms(2) by auto
  then show ?thesis using assms(1) by (cases p) (auto simp: collect_def Let_def live_Some intro!: map_live)
qed

lemma inv_collect:
  assumes inv: "world_inv jobs w"
  shows "world_inv jobs (collect w)"
  using inv registry_collect phase_ok_collect nth_mem unfolding world_inv_def collect_fields by metis

text \<open>A request ends and gives back what it has.\<close>

lemma inv_answer:
  assumes inv: "world_inv jobs w" and j: "j < length jobs" and held: "held = phase_held (ew_phases w ! j)"
    and same: "ew_phases w1 = ew_phases w" "ew_locked w1 = ew_locked w" "ew_session_locks w1 = ew_session_locks w"
      "ew_output_locks w1 = ew_output_locks w" "ew_fresh w1 = ew_fresh w"
    and dead: "\<And>sid. sid \<in> ew_destroyed w1 \<Longrightarrow> ew_sessions w1 sid = None"
    and others: "\<And>k l ls i. k < length jobs \<Longrightarrow> k \<noteq> j \<Longrightarrow> ew_phases w ! k = Queued l ls i \<Longrightarrow> rq_session (jobs ! k) \<notin> ew_destroyed w1"
      "\<And>k l ls x. k < length jobs \<Longrightarrow> k \<noteq> j \<Longrightarrow> ew_phases w ! k = Working l ls x \<Longrightarrow>
         rq_session (jobs ! k) \<notin> ew_destroyed w1 \<and> ew_sessions w1 (rq_session (jobs ! k)) = ew_sessions w (rq_session (jobs ! k))"
  shows "world_inv jobs (answer j held r w1)"
proof -
  note i = world_invD [OF inv]
  have len: "j < length (ew_phases w)" using i(1) j by simp
  let ?w2 = "at_phase j (Answered r) (w1\<lparr> ew_locked := ew_locked w1 - held \<rparr>)"
  have oks: "phase_ok ?w2 (jobs ! k) (ew_phases ?w2 ! k)" if k: "k < length jobs" for k
  proof (cases "k = j")
    case True
    then show ?thesis by (simp add: at_phase_def len same(1))
  next
    case False
    have "phase_ok ?w2 (jobs ! k) (ew_phases w ! k)"
      using i(3) [OF k] others [OF k False] by (cases "ew_phases w ! k") (simp_all add: at_phase_def same)
    then show ?thesis using False by (simp add: at_phase_def same(1))
  qed
  have held2: "phase_held (ew_phases ?w2 ! k) = (if k = j then {} else phase_held (ew_phases w ! k))" for k
    using len by (simp add: at_phase_def same(1) nth_list_update)
  have "held \<inter> \<Union> (phase_held ` {ew_phases w ! k | k. k < length (ew_phases w) \<and> k \<noteq> j}) = {}"
    unfolding held using i(6) [OF j] i(1) by fastforce
  then have "ew_locked ?w2 = \<Union> (phase_held ` set (ew_phases ?w2))"
    unfolding at_phase_def using i(4) set_split [OF len, of phase_held] set_update_split [OF len, of phase_held "Answered r"] held by (auto simp: same)
  moreover have "registry_ok ?w2" using i(2) by (simp add: registry_ok_def at_phase_def same)
  moreover have "phase_held (ew_phases ?w2 ! k) \<inter> phase_held (ew_phases ?w2 ! k') = {}"
    if "k < length jobs" "k' < length jobs" "k \<noteq> k'" for k k'
    unfolding held2 using i(6) [OF that] by simp
  ultimately have "world_inv jobs ?w2" using oks i(1) dead same unfolding world_inv_def by (simp add: at_phase_def)
  then show ?thesis unfolding answer_def by (rule inv_collect)
qed

fun in_session :: "'a phase \<Rightarrow> bool" where
  "in_session (Inside _) = True"
| "in_session (Queued _ _ _) = True"
| "in_session (Working _ _ _) = True"
| "in_session _ = False"

lemma in_session_lock: "phase_ok w rq p \<Longrightarrow> in_session p \<Longrightarrow> \<exists>l. ew_session_locks w (rq_session rq) = Some l \<and> l \<in> phase_held p"
  by (cases p) auto

lemma session_exclusive:
  assumes "world_inv jobs w" "i < length jobs" "j < length jobs" "in_session (ew_phases w ! i)" "in_session (ew_phases w ! j)"
    "rq_session (jobs ! i) = rq_session (jobs ! j)"
  shows "i = j"
proof (rule ccontr)
  assume "i \<noteq> j"
  moreover obtain l where "ew_session_locks w (rq_session (jobs ! i)) = Some l" "l \<in> phase_held (ew_phases w ! i)"
    using in_session_lock [OF world_invD(3) [OF assms(1,2)] assms(4)] by blast
  moreover obtain l' where "ew_session_locks w (rq_session (jobs ! j)) = Some l'" "l' \<in> phase_held (ew_phases w ! j)"
    using in_session_lock [OF world_invD(3) [OF assms(1,3)] assms(5)] by blast
  ultimately show False using world_invD(6) [OF assms(1-3)] assms(6) by auto
qed

lemma inv_advance:
  assumes inv: "world_inv jobs w" and j: "j < length jobs" and step: "advance made jobs j w = Some w'"
  shows "world_inv jobs w'"
proof -
  note i = world_invD [OF inv]
  have dead: "\<And>sid. sid \<in> ew_destroyed w \<Longrightarrow> ew_sessions w sid = None" by (rule i(5))
  have ok: "phase_ok w (jobs ! j) (ew_phases w ! j)" by (rule i(3) [OF j])
  have plain: "world_inv jobs (answer j held r w)" if "held = phase_held (ew_phases w ! j)" for held r
    by (rule inv_answer [OF inv j that]) (use i(3,5) in fastforce)+
  let ?sid = "rq_session (jobs ! j)"
  show ?thesis
  proof (cases "ew_phases w ! j")
    case Asked
    obtain l w1 where 1: "session_execution_lock ?sid w = (l, w1)" by fastforce
    note s = session_lock_ok [OF 1 i(2)]
    have w': "w' = at_phase j (Waiting l) w1" using step Asked 1 by (simp add: advance_def)
    show ?thesis unfolding w'
      by (rule inv_at_phase [OF inv j s(1,2), where L = "{}"]) (use s(3-5) Asked dead in \<open>auto simp: same_rest_world_def\<close>)
  next
    case (Waiting l)
    then have free: "l \<notin> ew_locked w" and w': "w' = at_phase j (Inside l) (lock_all {l} w)" using step by (auto simp: advance_def split: if_splits)
    have reg: "registry_ok (lock_all {l} w)" using i(2) by (simp add: registry_ok_def lock_all_def)
    show ?thesis unfolding w'
      by (rule inv_at_phase [OF inv j reg, where L = "{l}"]) (use free Waiting ok dead in \<open>auto simp: lock_all_def\<close>)
  next
    case (Inside l)
    have free: "rq_session (jobs ! k) \<noteq> ?sid" if "k < length jobs" "k \<noteq> j" "in_session (ew_phases w ! k)" for k
      using session_exclusive [OF inv that(1) j that(3)] Inside that(2) by auto
    show ?thesis
    proof (cases "jobs ! j")
      case (Destroy d)
      obtain r w1 where 1: "session_destroy ?sid w = (r, w1)" by fastforce
      have w': "w' = answer j {l} r w1" using step Inside Destroy 1 by (simp add: advance_def)
      have w1: "w1 = w \<or> w1 = (mark_session_destroyed ?sid w)\<lparr> ew_sessions := (ew_sessions w)(?sid := None) \<rparr>"
        using 1 by (auto simp: session_destroy_def split: if_splits)
      show ?thesis unfolding w'
      proof (rule inv_answer [OF inv j])
        show "rq_session (jobs ! k) \<notin> ew_destroyed w1" if "k < length jobs" "k \<noteq> j" "ew_phases w ! k = Queued l' ls n" for k l' ls n
          using w1 free [OF that(1,2)] that(3) i(3) [OF that(1)] by (auto simp: mark_session_destroyed_def)
        show "rq_session (jobs ! k) \<notin> ew_destroyed w1 \<and> ew_sessions w1 (rq_session (jobs ! k)) = ew_sessions w (rq_session (jobs ! k))"
          if "k < length jobs" "k \<noteq> j" "ew_phases w ! k = Working l' ls x" for k l' ls x
          using w1 free [OF that(1,2)] that(3) i(3) [OF that(1)] by (auto simp: mark_session_destroyed_def)
      qed (use w1 Inside dead in \<open>auto simp: mark_session_destroyed_def\<close>)
    next
      case (Mutate d ts work)
      show ?thesis
      proof (cases "is_session_destroyed ?sid w")
        case True
        then have "w' = answer j {l} Conflict w" using step Inside Mutate by (simp add: advance_def)
        then show ?thesis using plain Inside by simp
      next
        case False
        obtain ls w1 where 1: "output_execution_locks (lock_targets (jobs ! j)) w = (ls, w1)" by fastforce
        note s = output_locks_ok [OF 1 i(2)]
        have w': "w' = at_phase j (Queued l ls 0) w1" using step Inside Mutate False 1 by (simp add: advance_def)
        have ok1: "phase_ok w1 (jobs ! j) (Queued l ls 0)" using s ok Inside Mutate False by (simp add: same_rest_world_def is_session_destroyed_def)
        show ?thesis unfolding w'
          by (rule inv_at_phase [OF inv j, where L = "{}"]) (use s ok1 Inside dead in \<open>auto simp: same_rest_world_def\<close>)
      qed
    qed
  next
    case (Queued l ls k)
    show ?thesis
    proof (cases "k < length ls")
      case True
      then have free: "ls ! k \<notin> ew_locked w" and w': "w' = at_phase j (Queued l ls (k + 1)) (lock_all {ls ! k} w)"
        using step Queued by (auto simp: advance_def split: if_splits)
      have reg: "registry_ok (lock_all {ls ! k} w)" using i(2) by (simp add: registry_ok_def lock_all_def)
      show ?thesis unfolding w'
        by (rule inv_at_phase [OF inv j reg, where L = "{ls ! k}"]) (use free Queued ok dead True in \<open>auto simp: lock_all_def take_Suc_conv_app_nth\<close>)
    next
      case False
      have alive: "?sid \<notin> ew_destroyed w" and k: "k = length ls" using ok Queued False by auto
      obtain x w1 where 1: "get_session made ?sid w = Some (x, w1)" using alive by (cases "ew_sessions w ?sid") (auto simp: get_session_def is_session_destroyed_def)
      have w': "w' = at_phase j (Working l ls x) w1" using step Queued False 1 by (simp add: advance_def)
      have w1: "ew_sessions w1 ?sid = Some x" "w1 = w \<or> (ew_sessions w ?sid = None \<and> w1 = w\<lparr> ew_sessions := (ew_sessions w)(?sid \<mapsto> x) \<rparr>)"
        using 1 by (auto simp: get_session_def split: if_splits option.splits)
      have reg: "registry_ok w1" using w1(2) i(2) by (auto simp: registry_ok_def)
      have ok1: "phase_ok w1 (jobs ! j) (Working l ls x)" using w1 ok Queued by auto
      show ?thesis unfolding w'
        by (rule inv_at_phase [OF inv j reg, where L = "{}"]) (use w1 ok1 Queued alive dead k in auto)
    qed
  next
    case (Working l ls x)
    have ses: "ew_sessions w ?sid = Some x" "?sid \<notin> ew_destroyed w" using ok Working by simp_all
    obtain d ts work where m: "jobs ! j = Mutate d ts work" using ok Working by (cases "jobs ! j") auto
    have get: "get_session made ?sid w = Some (x, w)" using ses by (simp add: get_session_def is_session_destroyed_def)
    show ?thesis
    proof (cases "work x")
      case None
      then have "w' = answer j (insert l (set ls)) Failed w" using step Working m by (simp add: advance_def)
      then show ?thesis using plain Working by simp
    next
      case (Some y)
      let ?w1 = "w\<lparr> ew_sessions := (ew_sessions w)(?sid \<mapsto> y) \<rparr>"
      have free: "rq_session (jobs ! k) \<noteq> ?sid" if "k < length jobs" "k \<noteq> j" "in_session (ew_phases w ! k)" for k
        using session_exclusive [OF inv that(1) j that(3)] Working that(2) by auto
      have w': "w' = answer j (insert l (set ls)) Completed ?w1" using step Working m Some get by (simp add: advance_def)
      show ?thesis unfolding w'
      proof (rule inv_answer [OF inv j])
        show "rq_session (jobs ! k) \<notin> ew_destroyed ?w1" if "k < length jobs" "k \<noteq> j" "ew_phases w ! k = Queued l' ls n" for k l' ls n
          using that(3) i(3) [OF that(1)] by simp
        show "rq_session (jobs ! k) \<notin> ew_destroyed ?w1 \<and> ew_sessions ?w1 (rq_session (jobs ! k)) = ew_sessions w (rq_session (jobs ! k))"
          if "k < length jobs" "k \<noteq> j" "ew_phases w ! k = Working l' ls x" for k l' ls x
          using free [OF that(1,2)] that(3) i(3) [OF that(1)] by simp
      qed (use Working dead ses in auto)
    qed
  next
    case (Answered r)
    then show ?thesis using step by (simp add: advance_def)
  qed
qed

lemma inv_abandon:
  assumes inv: "world_inv jobs w" and j: "j < length jobs" and step: "abandon jobs j r w = Some w'"
  shows "world_inv jobs w'"
proof -
  note i = world_invD [OF inv]
  have "world_inv jobs (answer j (phase_held (ew_phases w ! j)) r w)"
    by (rule inv_answer [OF inv j refl]) (use i(3,5) in fastforce)+
  moreover have "w' = answer j (phase_held (ew_phases w ! j)) r w"
    using step by (auto simp: abandon_def split: phase.splits request.splits)
  ultimately show ?thesis by simp
qed

lemma inv_visit:
  assumes inv: "world_inv jobs w" and step: "get_session made sid w = Some (x, w')"
  shows "world_inv jobs w'"
proof -
  note i = world_invD [OF inv]
  have w': "w' = w \<or> (ew_sessions w sid = None \<and> sid \<notin> ew_destroyed w \<and> w' = w\<lparr> ew_sessions := (ew_sessions w)(sid \<mapsto> made) \<rparr>)"
    using step by (auto simp: get_session_def is_session_destroyed_def split: if_splits option.splits)
  show ?thesis
  proof (cases "w' = w")
    case False
    then have w': "ew_sessions w sid = None" "sid \<notin> ew_destroyed w" "w' = w\<lparr> ew_sessions := (ew_sessions w)(sid \<mapsto> made) \<rparr>" using w' by auto
    have "phase_ok w' (jobs ! k) (ew_phases w' ! k)" if "k < length jobs" for k
      using i(3) [OF that] w' by (cases "ew_phases w ! k") auto
    moreover have "registry_ok w'" using i(2) by (simp add: w'(3) registry_ok_def)
    ultimately show ?thesis using inv w' unfolding world_inv_def by auto
  qed (use inv in simp)
qed

lemma inv_initial: "world_inv jobs (initial_world jobs sessions)"
  by (auto simp: world_inv_def initial_world_def registry_ok_def)

lemma inv_step: "world_step made jobs e w w' \<Longrightarrow> world_inv jobs w \<Longrightarrow> world_inv jobs w'"
  by (erule world_stepE) (auto intro: inv_advance inv_abandon inv_visit)

lemma inv_run: "world_run made jobs es w w' \<Longrightarrow> world_inv jobs w \<Longrightarrow> world_inv jobs w'"
  by (induction rule: world_run.induct) (auto intro: inv_step)

lemma inv_reachable: "world_run made jobs es (initial_world jobs sessions) w \<Longrightarrow> world_inv jobs w"
  by (rule inv_run [OF _ inv_initial])

section \<open>Sessions are as if requests ran one after the other\<close>

lemma sessions_simps [simp]: "ew_sessions (at_phase j p w) = ew_sessions w" "ew_sessions (answer j held r w) = ew_sessions w"
  "ew_sessions (lock_all ls w) = ew_sessions w"
  by (simp_all add: at_phase_def answer_def lock_all_def)

lemma get_session_replay:
  "get_session made sid w = Some (x, w') \<Longrightarrow> ew_sessions w' = (case ew_sessions w sid of None \<Rightarrow> (ew_sessions w)(sid \<mapsto> made) | Some _ \<Rightarrow> ew_sessions w)"
  by (auto simp: get_session_def split: if_splits option.splits)

lemma replay_advance:
  assumes inv: "world_inv jobs w" and j: "j < length jobs" and step: "advance made jobs j w = Some w'"
  shows "ew_sessions w' = replay_event made jobs (event_of jobs j w) (ew_sessions w)"
proof -
  note i = world_invD [OF inv]
  have ok: "phase_ok w (jobs ! j) (ew_phases w ! j)" by (rule i(3) [OF j])
  let ?sid = "rq_session (jobs ! j)"
  show ?thesis
  proof (cases "ew_phases w ! j")
    case Asked
    then show ?thesis using step session_lock_ok(4) [OF _ i(2)] by (auto simp: advance_def event_of_def same_rest_world_def split: prod.splits)
  next
    case (Inside l)
    show ?thesis
    proof (cases "jobs ! j")
      case (Destroy d)
      then show ?thesis using step Inside by (auto simp: advance_def event_of_def session_destroy_def split: if_splits)
    next
      case (Mutate d ts work)
      have "ew_sessions w1 = ew_sessions w" if "output_execution_locks ts' w = (ls, w1)" for ts' ls w1
        using output_locks_ok [OF that i(2)] by (simp add: same_rest_world_def)
      then show ?thesis using step Inside Mutate by (auto simp: advance_def event_of_def split: if_splits prod.splits)
    qed
  next
    case (Queued l ls k)
    have alive: "\<not> is_session_destroyed ?sid w" using ok Queued by (simp add: is_session_destroyed_def)
    show ?thesis
    proof (cases "k < length ls")
      case True
      then show ?thesis using step Queued by (auto simp: advance_def event_of_def split: if_splits)
    next
      case False
      obtain x w1 where 1: "get_session made ?sid w = Some (x, w1)" using alive by (cases "ew_sessions w ?sid") (auto simp: get_session_def)
      then have "w' = at_phase j (Working l ls x) w1" using step Queued False by (simp add: advance_def)
      then show ?thesis using get_session_replay [OF 1] Queued False alive by (simp add: event_of_def)
    qed
  next
    case (Working l ls x)
    have ses: "ew_sessions w ?sid = Some x" "\<not> is_session_destroyed ?sid w" using ok Working by (simp_all add: is_session_destroyed_def)
    obtain d ts work where m: "jobs ! j = Mutate d ts work" using ok Working by (cases "jobs ! j") auto
    have get: "get_session made ?sid w = Some (x, w)" using ses by (simp add: get_session_def)
    show ?thesis using step Working m get ses by (auto simp: advance_def event_of_def split: option.splits)
  qed (use step in \<open>auto simp: advance_def event_of_def split: if_splits\<close>)
qed

lemma replay_step:
  assumes "world_step made jobs e w w'" "world_inv jobs w"
  shows "ew_sessions w' = replay_event made jobs e (ew_sessions w)"
  using assms(1)
proof (rule world_stepE)
  show ?thesis if "e = event_of jobs j w" "j < length jobs" "advance made jobs j w = Some w'" for j
    using that replay_advance [OF assms(2)] by simp
  show ?thesis if "e = Quiet" "abandon jobs j r w = Some w'" for j r
    using that by (auto simp: abandon_def split: phase.splits request.splits)
  show ?thesis if "e = Made sid" "get_session made sid w = Some (x, w')" for sid x
    using that get_session_replay by simp
qed

lemma replay_run: "world_run made jobs es w w' \<Longrightarrow> world_inv jobs w \<Longrightarrow> ew_sessions w' = replay_all made jobs es (ew_sessions w)"
  by (induction rule: world_run.induct) (auto simp: replay_all_def replay_step inv_run)

section \<open>No request waits for ever\<close>

lemma held_by_someone:
  assumes "world_inv jobs w" "l \<in> ew_locked w"
  obtains i where "i < length jobs" "l \<in> phase_held (ew_phases w ! i)"
proof -
  have "l \<in> \<Union> (phase_held ` set (ew_phases w))" using assms world_invD(4) by metis
  then show thesis using that world_invD(1) [OF assms(1)] by (auto simp: in_set_conv_nth)
qed

lemma strictly_sorted_targets: "sorted_wrt (<) (lock_targets rq)"
  by (cases rq) (auto simp: strict_sorted_iff)

text \<open>Who stands in the way of a request wants a target that comes later.\<close>

lemma blocker_wants_more:
  assumes inv: "world_inv jobs w" and j: "j < length jobs" "ew_phases w ! j = Queued l ls k" "k < length ls"
    and i: "i < length jobs" "ew_phases w ! i = Queued l' ls' k'" "k' < length ls'" and held: "ls ! k \<in> phase_held (ew_phases w ! i)"
  shows "lock_targets (jobs ! j) ! k < lock_targets (jobs ! i) ! k'"
proof -
  note reg = world_invD(2) [OF inv]
  have okj: "map (ew_output_locks w) (lock_targets (jobs ! j)) = map Some ls" using world_invD(3) [OF inv j(1)] j(2) by simp
  have oki: "ew_session_locks w (rq_session (jobs ! i)) = Some l'" "map (ew_output_locks w) (lock_targets (jobs ! i)) = map Some ls'"
    using world_invD(3) [OF inv i(1)] i(2) by simp_all
  have at_j: "ew_output_locks w (lock_targets (jobs ! j) ! k) = Some (ls ! k)"
    using okj j(3) by (metis length_map nth_map)
  then have "ls ! k \<noteq> l'" using reg oki(1) unfolding registry_ok_def by (metis IntI empty_iff ranI)
  then obtain m where m: "m < k'" "m < length ls'" "ls' ! m = ls ! k" using held i(2) by (auto simp: in_set_conv_nth)
  have at_i: "ew_output_locks w (lock_targets (jobs ! i) ! m) = Some (ls ! k)"
    using oki(2) m by (metis length_map nth_map)
  have "lock_targets (jobs ! i) ! m = lock_targets (jobs ! j) ! k"
    using reg at_i at_j unfolding registry_ok_def inj_on_def by (metis domI)
  moreover have "lock_targets (jobs ! i) ! m < lock_targets (jobs ! i) ! k'"
    using strictly_sorted_targets [of "jobs ! i"] m(1) i(3) oki(2) by (metis length_map sorted_wrt_nth_less)
  ultimately show ?thesis by simp
qed

definition all_answered :: "'a exec_world \<Rightarrow> bool" where
  "all_answered w \<longleftrightarrow> (\<forall>p\<in>set (ew_phases w). \<exists>r. p = Answered r)"

lemma stuck_phases:
  assumes inv: "world_inv jobs w" and j: "j < length jobs" and stuck: "advance made jobs j w = None"
  shows "(\<exists>l. ew_phases w ! j = Waiting l \<and> l \<in> ew_locked w) \<or> (\<exists>l ls k. ew_phases w ! j = Queued l ls k \<and> k < length ls \<and> ls ! k \<in> ew_locked w)
     \<or> (\<exists>r. ew_phases w ! j = Answered r)"
proof -
  have ok: "phase_ok w (jobs ! j) (ew_phases w ! j)" by (rule world_invD(3) [OF inv j])
  show ?thesis
  proof (cases "ew_phases w ! j")
    case (Inside l)
    then show ?thesis using stuck by (cases "jobs ! j") (auto simp: advance_def Let_def split: prod.splits if_splits)
  next
    case (Working l ls x)
    then show ?thesis using stuck ok by (cases "jobs ! j") (auto simp: advance_def split: option.splits prod.splits)
  qed (use stuck in \<open>auto simp: advance_def split: if_splits prod.splits option.splits\<close>)
qed

lemma someone_advances:
  assumes inv: "world_inv jobs w" and open_request: "\<not> all_answered w"
  shows "\<exists>j<length jobs. advance made jobs j w \<noteq> None"
proof (rule ccontr)
  assume "\<not> ?thesis"
  then have stuck: "(\<exists>l. ew_phases w ! j = Waiting l \<and> l \<in> ew_locked w) \<or> (\<exists>l ls k. ew_phases w ! j = Queued l ls k \<and> k < length ls \<and> ls ! k \<in> ew_locked w)
     \<or> (\<exists>r. ew_phases w ! j = Answered r)" if "j < length jobs" for j
    using stuck_phases [OF inv that] that by blast
  define wanting where "wanting = {j. j < length jobs \<and> (\<exists>l ls k. ew_phases w ! j = Queued l ls k)}"
  define want where "want j = (case ew_phases w ! j of Queued l ls k \<Rightarrow> lock_targets (jobs ! j) ! k | _ \<Rightarrow> [])" for j
  have none: "wanting = {}"
  proof (rule ccontr)
    assume "wanting \<noteq> {}"
    then have fin: "finite (want ` wanting)" "want ` wanting \<noteq> {}" unfolding wanting_def by simp_all
    obtain j where j: "j \<in> wanting" "want j = Max (want ` wanting)" using Max_in [OF fin] by (metis imageE)
    have max: "want i \<le> want j" if "i \<in> wanting" for i using Max_ge [OF fin(1)] that j(2) by simp
    obtain l ls k where q: "ew_phases w ! j = Queued l ls k" "k < length ls" "ls ! k \<in> ew_locked w" "j < length jobs"
      using j(1) stuck [of j] unfolding wanting_def by force
    obtain i where i: "i < length jobs" "ls ! k \<in> phase_held (ew_phases w ! i)" using held_by_someone [OF inv q(3)] .
    then obtain l' ls' k' where q': "ew_phases w ! i = Queued l' ls' k'" "k' < length ls'" using stuck [OF i(1)] by auto
    have "lock_targets (jobs ! j) ! k < lock_targets (jobs ! i) ! k'" by (rule blocker_wants_more [OF inv q(4,1,2) i(1) q' i(2)])
    then have "want j < want i" using q(1) q'(1) by (simp add: want_def)
    moreover have "i \<in> wanting" using i(1) q'(1) by (simp add: wanting_def)
    ultimately show False using max by (meson leD)
  qed
  have answered: "\<exists>r. ew_phases w ! j = Answered r" if j: "j < length jobs" for j
  proof (rule ccontr)
    assume "\<not> ?thesis"
    then obtain l where "l \<in> ew_locked w" using stuck [OF j] none j unfolding wanting_def by blast
    then obtain i where i: "i < length jobs" "l \<in> phase_held (ew_phases w ! i)" using held_by_someone [OF inv] by blast
    then show False using stuck [OF i(1)] none unfolding wanting_def by auto
  qed
  have "all_answered w"
    unfolding all_answered_def
  proof
    fix p assume "p \<in> set (ew_phases w)"
    then obtain j where "j < length jobs" "p = ew_phases w ! j" unfolding in_set_conv_nth world_invD(1) [OF inv] by blast
    then show "\<exists>r. p = Answered r" using answered by blast
  qed
  then show False using open_request by contradiction
qed

text \<open>The steps a request has before it.\<close>

fun phase_work :: "'a request \<Rightarrow> 'a phase \<Rightarrow> nat" where
  "phase_work rq Asked = length (lock_targets rq) + 5"
| "phase_work rq (Waiting _) = length (lock_targets rq) + 4"
| "phase_work rq (Inside _) = length (lock_targets rq) + 3"
| "phase_work rq (Queued _ _ k) = length (lock_targets rq) - k + 2"
| "phase_work rq (Working _ _ _) = 1"
| "phase_work rq (Answered _) = 0"

definition work_left :: "'a request list \<Rightarrow> 'a exec_world \<Rightarrow> nat" where
  "work_left jobs w = (\<Sum>j<length jobs. phase_work (jobs ! j) (ew_phases w ! j))"

lemma phases_simps [simp]: "ew_phases (at_phase j p w) = (ew_phases w)[j := p]" "ew_phases (answer j held r w) = (ew_phases w)[j := Answered r]"
  "ew_phases (lock_all ls w) = ew_phases w"
  by (simp_all add: at_phase_def answer_def lock_all_def)

lemma advance_phases:
  assumes inv: "world_inv jobs w" and j: "j < length jobs" and step: "advance made jobs j w = Some w'"
  shows "\<exists>p. ew_phases w' = (ew_phases w)[j := p] \<and> phase_work (jobs ! j) p < phase_work (jobs ! j) (ew_phases w ! j)"
proof -
  have reg: "registry_ok w" and ok: "phase_ok w (jobs ! j) (ew_phases w ! j)" using world_invD(2) [OF inv] world_invD(3) [OF inv j] by auto
  have visit: "ew_phases w1 = ew_phases w" if "get_session made sid w = Some (x, w1)" for sid x w1
    using that by (auto simp: get_session_def split: if_splits option.splits)
  show ?thesis
  proof (cases "ew_phases w ! j")
    case Asked
    then show ?thesis using step session_lock_ok(4) [OF _ reg] by (auto simp: advance_def same_rest_world_def split: prod.splits)
  next
    case (Waiting l)
    then show ?thesis using step by (auto simp: advance_def split: if_splits)
  next
    case (Inside l)
    show ?thesis
    proof (cases "jobs ! j")
      case (Destroy d)
      then show ?thesis using step Inside by (auto simp: advance_def session_destroy_def mark_session_destroyed_def split: if_splits)
    next
      case (Mutate d ts work)
      have "ew_phases w1 = ew_phases w" if "output_execution_locks ts' w = (ls, w1)" for ts' ls w1
        using output_locks_ok [OF that reg] by (simp add: same_rest_world_def)
      then show ?thesis using step Inside Mutate by (auto simp: advance_def split: if_splits prod.splits)
    qed
  next
    case (Queued l ls k)
    have len: "length ls = length (lock_targets (jobs ! j))" using ok Queued by (metis length_map phase_ok.simps(3))
    show ?thesis
    proof (cases "k < length ls")
      case True
      then have "ew_phases w' = (ew_phases w)[j := Queued l ls (k + 1)]" using step Queued by (auto simp: advance_def split: if_splits)
      then show ?thesis using True len Queued by auto
    next
      case False
      then show ?thesis using step Queued visit by (auto simp: advance_def split: option.splits)
    qed
  next
    case (Working l ls x)
    obtain d ts work where m: "jobs ! j = Mutate d ts work" using ok Working by (cases "jobs ! j") auto
    have ses: "get_session made (rq_session (jobs ! j)) w = Some (x, w)" using ok Working by (simp add: get_session_def is_session_destroyed_def)
    show ?thesis using step Working m ses by (cases "work x") (auto simp: advance_def)
  next
    case (Answered r)
    then show ?thesis using step by (simp add: advance_def)
  qed
qed

lemma advance_work:
  assumes inv: "world_inv jobs w" and j: "j < length jobs" and step: "advance made jobs j w = Some w'"
  shows "work_left jobs w' < work_left jobs w"
proof -
  obtain p where p: "ew_phases w' = (ew_phases w)[j := p]" "phase_work (jobs ! j) p < phase_work (jobs ! j) (ew_phases w ! j)"
    using advance_phases [OF assms] by blast
  show ?thesis unfolding work_left_def
  proof (rule sum_strict_mono_ex1)
    show "\<forall>i\<in>{..<length jobs}. phase_work (jobs ! i) (ew_phases w' ! i) \<le> phase_work (jobs ! i) (ew_phases w ! i)"
      using p j world_invD(1) [OF inv] by (auto simp: nth_list_update)
    show "\<exists>i\<in>{..<length jobs}. phase_work (jobs ! i) (ew_phases w' ! i) < phase_work (jobs ! i) (ew_phases w ! i)"
      using p j world_invD(1) [OF inv] by (intro bexI [of _ j]) auto
  qed simp
qed

text \<open>Requests advance in the order of a schedule.\<close>

fun run_schedule :: "'a \<Rightarrow> 'a request list \<Rightarrow> nat list \<Rightarrow> 'a exec_world \<Rightarrow> 'a exec_world option" where
  "run_schedule made jobs [] w = Some w"
| "run_schedule made jobs (j # js) w =
     (if j < length jobs then (case advance made jobs j w of None \<Rightarrow> None | Some w1 \<Rightarrow> run_schedule made jobs js w1) else None)"

lemma run_schedule_inv: "run_schedule made jobs js w = Some w' \<Longrightarrow> world_inv jobs w \<Longrightarrow> world_inv jobs w' \<and> length js + work_left jobs w' \<le> work_left jobs w"
proof (induction js arbitrary: w)
  case (Cons j js)
  obtain w1 where 1: "j < length jobs" "advance made jobs j w = Some w1" "run_schedule made jobs js w1 = Some w'"
    using Cons.prems(1) by (auto split: if_splits option.splits)
  then show ?case using Cons.IH [OF 1(3) inv_advance [OF Cons.prems(2) 1(1,2)]] advance_work [OF Cons.prems(2) 1(1,2)] by simp
qed simp

lemma schedule_completes: "world_inv jobs w \<Longrightarrow> \<exists>js w'. run_schedule made jobs js w = Some w' \<and> all_answered w'"
proof (induction "work_left jobs w" arbitrary: w rule: less_induct)
  case less
  show ?case
  proof (cases "all_answered w")
    case True
    then show ?thesis by (intro exI [of _ "[]"]) simp
  next
    case False
    then obtain j w1 where 1: "j < length jobs" "advance made jobs j w = Some w1" using someone_advances [OF less.prems, of made] by blast
    obtain js w' where "run_schedule made jobs js w1 = Some w'" "all_answered w'"
      using less.hyps [OF advance_work [OF less.prems 1] inv_advance [OF less.prems 1]] by blast
    then show ?thesis using 1 by (intro exI [of _ "j # js"]) simp
  qed
qed

lemma schedule_is_run:
  "run_schedule made jobs js w1 = Some w2 \<Longrightarrow> world_run made jobs es w w1 \<Longrightarrow> \<exists>es'. world_run made jobs es' w w2"
proof (induction js arbitrary: w1 es)
  case (Cons j js)
  obtain w' where 1: "j < length jobs" "advance made jobs j w1 = Some w'" "run_schedule made jobs js w' = Some w2"
    using Cons.prems(1) by (auto split: if_splits option.splits)
  show ?case by (rule Cons.IH [OF 1(3) run_step [OF Cons.prems(2) step_advance [OF 1(1,2)]]])
qed auto

text \<open>Two runs on one session, one on another with the same outputs in the opposite order, and a destruction.\<close>

definition demo_requests :: "string request list" where
  "demo_requests =
     [Mutate ''s1'' [[''w'', ''a''], [''w'', ''b'']] (\<lambda>x. Some (x @ ''1'')), Mutate ''s1'' [[''w'', ''c'']] (\<lambda>x. Some (x @ ''2'')),
      Mutate ''s2'' [[''w'', ''b''], [''w'', ''a'']] (\<lambda>x. Some (x @ ''3'')), Destroy ''s2'']"

abbreviation "demo_start \<equiv> initial_world demo_requests Map.empty"

definition demo_schedule :: "nat list" where
  "demo_schedule = [0, 1, 2, 3, 2, 0, 0, 2, 2, 2, 2, 2, 0, 0, 0, 0, 3, 3, 1, 1, 1, 1, 1]"

definition answers :: "'a exec_world \<Rightarrow> reply option list" where
  "answers w = map (\<lambda>p. case p of Answered r \<Rightarrow> Some r | _ \<Rightarrow> None) (ew_phases w)"

definition demo_view where
  "demo_view x = map_option (\<lambda>w. (answers w, ew_sessions w ''s1'', ew_sessions w ''s2'')) x"


section \<open>What the locks give\<close>

fun at_work_on :: "'a phase \<Rightarrow> bool" where
  "at_work_on (Working _ _ _) = True"
| "at_work_on _ = False"

lemma targets_exclusive:
  assumes inv: "world_inv jobs w" and ij: "i < length jobs" "j < length jobs" "at_work_on (ew_phases w ! i)" "at_work_on (ew_phases w ! j)"
    and t: "t \<in> set (lock_targets (jobs ! i))" "t \<in> set (lock_targets (jobs ! j))"
  shows "i = j"
proof (rule ccontr)
  assume ne: "i \<noteq> j"
  have lock: "\<exists>m. ew_output_locks w t = Some m \<and> m \<in> phase_held (ew_phases w ! k)"
    if k: "k < length jobs" and at: "at_work_on (ew_phases w ! k)" and tk: "t \<in> set (lock_targets (jobs ! k))" for k
  proof -
    obtain l ls x where p: "ew_phases w ! k = Working l ls x" using at by (cases "ew_phases w ! k") auto
    have "map (ew_output_locks w) (lock_targets (jobs ! k)) = map Some ls" using world_invD(3) [OF inv k] p by simp
    then have "ew_output_locks w t \<in> Some ` set ls" using tk by (metis image_set imageI)
    then show ?thesis using p by auto
  qed
  show False using lock [OF ij(1,3) t(1)] lock [OF ij(2,4) t(2)] world_invD(6) [OF inv ij(1,2) ne] by auto
qed

lemma demo_answers:
  "demo_view (run_schedule ''new'' demo_requests demo_schedule demo_start) =
     Some ([Some Completed, Some Completed, Some Completed, Some Destroyed], Some ''new12'', None)"
  by code_simp

lemma demo_contention:
  "map_option (\<lambda>w. map (\<lambda>i. (in_session (ew_phases w ! i), at_work_on (ew_phases w ! i))) [0, 2])
     (run_schedule ''new'' demo_requests (take 11 demo_schedule) demo_start) = Some [(True, False), (True, True)]"
  by code_simp

lemma demo_run:
  assumes "run_schedule made jobs js (initial_world jobs sessions) = Some w"
  shows "\<exists>es. world_run made jobs es (initial_world jobs sessions) w"
  by (rule schedule_is_run [OF assms run_none])

text \<open>
  However requests interleave, are cancelled or fail: at most one request is inside a session, at most
  one run works on an output target, and no destroyed session exists or is being worked on.
\<close>

theorem locks_exclusive:
  assumes "world_run made jobs es (initial_world jobs sessions) w" "i < length jobs" "j < length jobs" "i \<noteq> j"
  shows "(in_session (ew_phases w ! i) \<and> in_session (ew_phases w ! j) \<longrightarrow> rq_session (jobs ! i) \<noteq> rq_session (jobs ! j))
    \<and> (at_work_on (ew_phases w ! i) \<and> at_work_on (ew_phases w ! j) \<longrightarrow> set (lock_targets (jobs ! i)) \<inter> set (lock_targets (jobs ! j)) = {})
    \<and> (\<forall>sid\<in>ew_destroyed w. ew_sessions w sid = None) \<and> (at_work_on (ew_phases w ! i) \<longrightarrow> rq_session (jobs ! i) \<notin> ew_destroyed w)"
proof -
  have inv: "world_inv jobs w" by (rule inv_reachable [OF assms(1)])
  have "rq_session (jobs ! i) \<notin> ew_destroyed w" if "at_work_on (ew_phases w ! i)"
    using world_invD(3) [OF inv assms(2)] that by (cases "ew_phases w ! i") auto
  then show ?thesis
    using session_exclusive [OF inv assms(2,3)] targets_exclusive [OF inv assms(2,3)] assms(4) world_invD(5) [OF inv] by blast
qed

text \<open>
  C15: The sessions are what the commits give, one after the other in the order they were made, each
  from the state the one before left: no run overwrites what another has committed.
\<close>

theorem commits_serialized:
  assumes "world_run made jobs es (initial_world jobs sessions) w"
  shows "ew_sessions w = replay_all made jobs es sessions"
  using replay_run [OF assms inv_initial] by (simp add: initial_world_def)

text \<open>
  C14: There is no deadlock: as long as a request is open some request can advance, every schedule
  ends within the steps that are left, and it can be continued until all are answered.
\<close>

theorem requests_never_deadlock:
  assumes "world_run made jobs es (initial_world jobs sessions) w" "run_schedule made jobs js w = Some w'"
  shows "length js \<le> work_left jobs w \<and> (\<not> all_answered w' \<longrightarrow> (\<exists>j<length jobs. advance made jobs j w' \<noteq> None))
    \<and> (\<exists>js' w''. run_schedule made jobs js' w' = Some w'' \<and> all_answered w'')"
proof -
  have inv: "world_inv jobs w'" "length js \<le> work_left jobs w" using run_schedule_inv [OF assms(2) inv_reachable [OF assms(1)]] by auto
  show ?thesis using inv someone_advances [OF inv(1)] schedule_completes [OF inv(1)] by blast
qed

theorem locks_exclusive_witness:
  "\<exists>es w. world_run ''new'' demo_requests es demo_start w \<and> in_session (ew_phases w ! 0) \<and> at_work_on (ew_phases w ! 2)
     \<and> (in_session (ew_phases w ! 0) \<and> in_session (ew_phases w ! 2) \<longrightarrow> rq_session (demo_requests ! 0) \<noteq> rq_session (demo_requests ! 2))
     \<and> (\<forall>sid\<in>ew_destroyed w. ew_sessions w sid = None)"
proof -
  obtain w where w: "run_schedule ''new'' demo_requests (take 11 demo_schedule) demo_start = Some w"
    "in_session (ew_phases w ! 0)" "at_work_on (ew_phases w ! 2)"
    using demo_contention by auto
  obtain es where "world_run ''new'' demo_requests es demo_start w" using demo_run [OF w(1)] by blast
  then show ?thesis using locks_exclusive [of "''new''" demo_requests es Map.empty w 0 2] w(2,3) by (auto simp: demo_requests_def)
qed

theorem commits_serialized_witness:
  "\<exists>es w. world_run ''new'' demo_requests es demo_start w \<and> ew_sessions w = replay_all ''new'' demo_requests es Map.empty
     \<and> ew_sessions w ''s1'' = Some ''new12'' \<and> ew_sessions w ''s2'' = None"
proof -
  obtain w where w: "run_schedule ''new'' demo_requests demo_schedule demo_start = Some w" "ew_sessions w ''s1'' = Some ''new12''" "ew_sessions w ''s2'' = None"
    using demo_answers by (auto simp: demo_view_def)
  obtain es where es: "world_run ''new'' demo_requests es demo_start w" using demo_run [OF w(1)] by blast
  show ?thesis by (intro exI conjI) (rule es, rule commits_serialized [OF es], rule w(2), rule w(3))
qed

theorem requests_never_deadlock_witness:
  "\<exists>w. run_schedule ''new'' demo_requests (take 11 demo_schedule) demo_start = Some w \<and> at_work_on (ew_phases w ! 2)
     \<and> (\<exists>js w'. run_schedule ''new'' demo_requests js w = Some w' \<and> all_answered w')"
proof -
  obtain w where w: "run_schedule ''new'' demo_requests (take 11 demo_schedule) demo_start = Some w" "at_work_on (ew_phases w ! 2)"
    using demo_contention by auto
  show ?thesis using requests_never_deadlock [OF run_none w(1)] w by blast
qed

end
