(* ===== verification/MCP_Tools.thy ===== *)
theory MCP_Tools
  imports MCP_Auth Plugin_Admission Tool_Execution
begin

text \<open>
  Tool calls of the MCP server (\<^verbatim>\<open>src/zaptrace/mcp/server.py\<close>): the wrapper around every registered
  tool checks the parameters, the scopes of the token, the access to the session and the capability,
  records its decision, and runs the tool in process when it only reads and in the isolated coordinator
  otherwise. Tools of the session itself and the recorded audit events are here too. What runs a tool is
  an argument, for a mutating tool the coordinator of \<open>Tool_Execution\<close>; so are path resolution, fresh ids
  and timestamps, the environment and the validated token. A session has its granted capabilities and its
  audit events; the rest of it belongs to the tools.
\<close>

section \<open>Envelopes\<close>

definition ok_response :: "pyval \<Rightarrow> pyval" where
  "ok_response data = PDict [(''ok'', PBool True), (''data'', data)]"

definition err_response :: "string \<Rightarrow> string \<Rightarrow> (string, pyval) dict \<Rightarrow> pyval" where
  "err_response message code details =
     PDict [(''ok'', PBool False), (''error'', PDict [(''code'', PStr code), (''message'', PStr message), (''details'', PDict details)])]"

definition error_code :: "pyval \<Rightarrow> string option" where
  "error_code v =
     (case v of PDict d \<Rightarrow> (case dict_get d ''error'' of Some (PDict e) \<Rightarrow> (case dict_get e ''code'' of Some (PStr c) \<Rightarrow> Some c | _ \<Rightarrow> None) | _ \<Rightarrow> None) | _ \<Rightarrow> None)"

definition is_ok_response :: "pyval \<Rightarrow> bool" where
  "is_ok_response v = (case v of PDict d \<Rightarrow> dict_get d ''ok'' = Some (PBool True) | _ \<Rightarrow> False)"

definition tool_timeout_seconds :: "string \<Rightarrow> pyfloat" where
  "tool_timeout_seconds tool_name =
     (if list_ex (\<lambda>p. prefix p tool_name) [''proof_'', ''synthesize_'', ''route_'', ''pipeline_'', ''export_''] then 300 else 120)"

section \<open>Parameters\<close>

record path_policy =
  pp_suffixes :: "string list"
  pp_must_exist :: bool

record param_spec =
  ps_type :: string
  ps_policy :: "path_policy option"

record tool_definition =
  td_name :: string
  td_params :: "(string, param_spec) dict"
  td_capability :: string
  td_has_session :: bool

record prepared_call =
  pc_tool_name :: string
  pc_tool :: tool_definition
  pc_kwargs :: "(string, pyval) dict"
  pc_session_id :: string
  pc_capability :: string
  pc_timeout_s :: pyfloat

datatype read_outcome = Read_Value pyval | Read_Timeout | Read_Raised string

type_synonym lifecycle_event = "string \<times> (string, pyval) dict"

record 'x mcp_env =
  mc_net :: net_env
  mc_access :: access_env
  mc_depth :: nat
  mc_environ :: "(string, string) dict"
  mc_http_actor :: "string option"
  mc_token :: "access_token option"
  mc_root :: path
  mc_resolve :: "string \<Rightarrow> path option" \<comment> \<open>\<^verbatim>\<open>(root / p).resolve()\<close>, nothing when that raises\<close>
  mc_exists :: "path \<Rightarrow> bool"
  mc_str :: "pyval \<Rightarrow> string"
  mc_float_str :: "pyfloat \<Rightarrow> string"
  mc_new_id :: "string \<Rightarrow> nat \<Rightarrow> string"
  mc_event_id :: "nat \<Rightarrow> string"
  mc_now :: "nat \<Rightarrow> string"
  mc_read :: "prepared_call \<Rightarrow> 'x \<Rightarrow> read_outcome \<times> 'x"
  mc_mutate :: "prepared_call \<Rightarrow> 'x \<Rightarrow> (tool_execution_outcome result \<times> lifecycle_event list) \<times> 'x"
  mc_forget :: "string \<Rightarrow> 'x \<Rightarrow> nat \<times> 'x" \<comment> \<open>sandbox, replay and reviews of a session are removed; how many reviews there were\<close>

definition MAX_PATH_LENGTH :: nat where "MAX_PATH_LENGTH = 4096"

definition DEFAULT_SESSION_ID :: string where "DEFAULT_SESSION_ID = ''mcp-default-session''"

definition resolve_safe_path :: "'x mcp_env \<Rightarrow> string \<Rightarrow> path option \<times> string" where
  "resolve_safe_path env p =
     (if strip p = [] then (None, ''Path is empty'')
      else if length p > MAX_PATH_LENGTH then (None, ''Path exceeds max length ('' @ str_of_nat MAX_PATH_LENGTH @ '')'')
      else case mc_resolve env (replace_char backslash_char ''/'' p) of
        None \<Rightarrow> (None, ''Cannot resolve path: '' @ p)
      | Some resolved \<Rightarrow>
          if prefix (mc_root env) resolved then (Some resolved, []) else (None, ''Path escapes allowed sandbox: '' @ path_str resolved))"

fun py_type_name :: "pyval \<Rightarrow> string" where
  "py_type_name PNone = ''NoneType''"
| "py_type_name (PBool _) = ''bool''"
| "py_type_name (PInt _) = ''int''"
| "py_type_name (PFloat _) = ''float''"
| "py_type_name (PStr _) = ''str''"
| "py_type_name (PList _) = ''list''"
| "py_type_name (PDict _) = ''dict''"

text \<open>A \<^verbatim>\<open>bool\<close> is an \<^verbatim>\<open>int\<close>.\<close>

fun instance_of :: "string \<Rightarrow> pyval \<Rightarrow> bool" where
  "instance_of t (PStr _) = (t = ''string'')"
| "instance_of t (PInt _) = (t = ''integer'' \<or> t = ''number'')"
| "instance_of t (PFloat _) = (t = ''number'')"
| "instance_of t (PBool _) = (t = ''integer'' \<or> t = ''number'' \<or> t = ''boolean'')"
| "instance_of t _ = False"

definition parameter_type_error :: "string \<Rightarrow> pyval \<Rightarrow> string \<Rightarrow> string option" where
  "parameter_type_error name v parameter_type =
     (if parameter_type \<in> {''string'', ''integer'', ''number'', ''boolean''} \<and> \<not> instance_of parameter_type v
      then Some (''Parameter '' @ sq @ name @ sq @ '' expected '' @ parameter_type @ '', got '' @ py_type_name v) else None)"

text \<open>\<^verbatim>\<open>Path(value).suffix\<close>\<close>

definition name_suffix :: "string \<Rightarrow> string" where
  "name_suffix name =
     (let r = takeWhile (\<lambda>c. c \<noteq> CHR ''.'') (rev name) in
      if r \<noteq> [] \<and> length r + 1 < length name then CHR ''.'' # rev r else [])"

definition path_suffix :: "string \<Rightarrow> string" where
  "path_suffix p = (case posix_parts p of [] \<Rightarrow> [] | parts \<Rightarrow> if last parts = ''..'' then [] else name_suffix (last parts))"

definition parameter_path_error :: "'x mcp_env \<Rightarrow> string \<Rightarrow> pyval \<Rightarrow> path_policy option \<Rightarrow> string option" where
  "parameter_path_error env name v policy =
     (case (policy, v) of
        (Some pol, PStr p) \<Rightarrow>
          if pp_suffixes pol \<noteq> [] \<and> lower (path_suffix p) \<notin> set (pp_suffixes pol) then None
          else (case resolve_safe_path env p of
                  (None, reason) \<Rightarrow> Some (''Parameter '' @ sq @ name @ sq @ '': '' @ reason)
                | (Some resolved, _) \<Rightarrow>
                    if pp_must_exist pol \<and> \<not> mc_exists env resolved then Some (''Parameter '' @ sq @ name @ sq @ '': Path not found: '' @ p) else None)
      | _ \<Rightarrow> None)"

definition parameter_errors :: "'x mcp_env \<Rightarrow> tool_definition \<Rightarrow> string \<times> pyval \<Rightarrow> string list" where
  "parameter_errors env tool kv =
     (if fst kv = ''session_id'' then []
      else
        let (type_name, policy) = (case dict_get (td_params tool) (fst kv) of None \<Rightarrow> (''any'', None) | Some spec \<Rightarrow> (ps_type spec, ps_policy spec)) in
        option_list [parameter_type_error (fst kv) (snd kv) type_name, parameter_path_error env (fst kv) (snd kv) policy])"

definition validate_tool_params :: "'x mcp_env \<Rightarrow> tool_definition \<Rightarrow> (string, pyval) dict \<Rightarrow> string list" where
  "validate_tool_params env tool kwargs = concat (map (parameter_errors env tool) kwargs)"

definition prepare_tool_call :: "'x mcp_env \<Rightarrow> tool_definition \<Rightarrow> (string, pyval) dict \<Rightarrow> pyval + prepared_call" where
  "prepare_tool_call env tool kwargs =
     (let call_kwargs = (if td_has_session tool \<and> dict_get kwargs ''session_id'' = None
                         then dict_set ''session_id'' (PStr DEFAULT_SESSION_ID) kwargs else kwargs);
          errors = validate_tool_params env tool call_kwargs in
      if errors \<noteq> [] then Inl (err_response (str_join ''; '' errors) ''INVALID_PARAMETER'' [])
      else Inr \<lparr> pc_tool_name = td_name tool, pc_tool = tool, pc_kwargs = call_kwargs,
                 pc_session_id = (case dict_get call_kwargs ''session_id'' of None \<Rightarrow> DEFAULT_SESSION_ID | Some (PStr s) \<Rightarrow> s | Some v \<Rightarrow> mc_str env v),
                 pc_capability = td_capability tool, pc_timeout_s = tool_timeout_seconds (td_name tool) \<rparr>)"

section \<open>Authorization\<close>

record mcp_session =
  se_capabilities :: "string set option"
  se_audit :: "audit_event list option"

record 'x mcp_state =
  ms_access :: access_state
  ms_sessions :: "(string, mcp_session) dict"
  ms_destroyed :: "string set"
  ms_tick :: nat
  ms_tools :: 'x

type_synonym ('x, 'a) mcp = "'x mcp_state \<Rightarrow> 'a result \<times> 'x mcp_state"

definition on_access :: "(access_state \<Rightarrow> 'a result \<times> access_state) \<Rightarrow> ('x, 'a) mcp" where
  "on_access m s = (case m (ms_access s) of (r, a) \<Rightarrow> (r, s\<lparr> ms_access := a \<rparr>))"

definition new_id :: "'x mcp_env \<Rightarrow> string \<Rightarrow> ('x, string) mcp" where
  "new_id env kind s = (Inr (mc_new_id env kind (ms_tick s)), s\<lparr> ms_tick := ms_tick s + 1 \<rparr>)"

definition destroyed_text :: "string \<Rightarrow> string" where
  "destroyed_text session_id = ''Session '' @ sq @ session_id @ sq @ '' has been destroyed''"

definition new_session :: mcp_session where
  "new_session = \<lparr> se_capabilities = None, se_audit = None \<rparr>"

definition open_session :: "string \<Rightarrow> ('x, mcp_session) mcp" where
  "open_session session_id s =
     (if session_id \<in> ms_destroyed s then (Inl (AdapterError ''SessionDestroyedError'' (destroyed_text session_id)), s)
      else case dict_get (ms_sessions s) session_id of
        Some x \<Rightarrow> (Inr x, s)
      | None \<Rightarrow> (Inr new_session, s\<lparr> ms_sessions := dict_set session_id new_session (ms_sessions s) \<rparr>))"

definition object_denied_response :: "(string, pyval) dict \<Rightarrow> pyval" where
  "object_denied_response details = err_response ''Principal is not authorized for the target object'' ''OBJECT_NOT_AUTHORIZED'' details"

definition denial_response :: "oauth_denial \<Rightarrow> pyval" where
  "denial_response d =
     (case d of
        Identity_Incomplete operation \<Rightarrow> err_response ''Validated OAuth identity is incomplete'' ''AUTH_INVALID_TOKEN'' [(''operation'', PStr operation)]
      | Not_Authorized reason operation capability scope \<Rightarrow>
          err_response reason ''OPERATION_NOT_AUTHORIZED''
            [(''operation'', PStr operation), (''required_capability'', PStr capability), (''required_scope'', PStr scope)])"

definition authorize_mcp_session_object :: "'x mcp_env \<Rightarrow> string \<Rightarrow> string \<Rightarrow> ('x, request_principal \<times> string) mcp" where
  "authorize_mcp_session_object env session_id action s =
     (if session_id \<in> ms_destroyed s then (Inl (denied (destroyed_text session_id)), s)
      else case mcp_principal (mc_net env) (mc_environ env) (mc_http_actor env) (mc_token env) of
        Inl e \<Rightarrow> (Inl e, s)
      | Inr who \<Rightarrow>
          sbind (new_id env ''mcp-request'') (\<lambda>request_id.
          sbind (on_access (get_object_access (mc_access env) ''session'' session_id)) (\<lambda>found s.
            let allow_claim = (found = None \<and> dict_get (ms_sessions s) session_id = None) in
            sbind (on_access (authorize_object (mc_depth env) (mc_access env) ''session'' session_id who action request_id allow_claim [] []))
              (\<lambda>_. sreturn (who, request_id)) s)) s)"

text \<open>The token's scope, then the session object.\<close>

definition authorize_tool_principal :: "'x mcp_env \<Rightarrow> prepared_call \<Rightarrow> ('x, pyval + (request_principal \<times> string)) mcp" where
  "authorize_tool_principal env pc s =
     (case oauth_capability_denial (mc_net env) (mc_token env) (pc_tool_name pc) (pc_capability pc) of
        Some d \<Rightarrow> (Inr (Inl (denial_response d)), s)
      | None \<Rightarrow>
          (case authorize_mcp_session_object env (pc_session_id pc) (pc_tool_name pc) s of
             (Inl e, s1) \<Rightarrow>
               if is_denied e then (Inr (Inl (object_denied_response [(''tool'', PStr (pc_tool_name pc)), (''session_id'', PStr (pc_session_id pc))])), s1)
               else (Inl e, s1)
           | (Inr x, s1) \<Rightarrow> (Inr (Inr x), s1)))"

definition authorization_identity :: "'x mcp_env \<Rightarrow> request_principal \<Rightarrow> string \<times> string" where
  "authorization_identity env who =
     (case mc_token env of
        Some _ \<Rightarrow> (rp_actor who, ''oauth-jwt'')
      | None \<Rightarrow> (case mc_http_actor env of Some actor \<Rightarrow> (actor, ''bearer-token'') | None \<Rightarrow> (''mcp-client'', ''stdio-or-loopback-development'')))"

record authorized_call =
  az_prepared :: prepared_call
  az_principal :: request_principal
  az_request_id :: string
  az_granted :: "string set"
  az_actor :: string
  az_auth_source :: string

text \<open>One event is appended to the session, which is made when it is not there.\<close>

definition audit_session :: "'x mcp_env \<Rightarrow> authorized_call \<Rightarrow> string \<Rightarrow> string \<Rightarrow> (string, pyval) dict \<Rightarrow> ('x, unit) mcp" where
  "audit_session env au decision reason metadata =
     (let pc = az_prepared au in
      sbind (open_session (pc_session_id pc)) (\<lambda>session s.
        let event = \<lparr> ae_event_id = mc_event_id env (ms_tick s), ae_timestamp = mc_now env (ms_tick s), ae_surface = ''mcp'',
                      ae_session_id = pc_session_id pc, ae_actor = az_actor au, ae_tool = pc_tool_name pc, ae_capability = pc_capability pc,
                      ae_decision = decision, ae_reason = reason, ae_metadata = metadata \<rparr> in
        (Inr (), s\<lparr> ms_tick := ms_tick s + 1,
                   ms_sessions := dict_set (pc_session_id pc) (session\<lparr> se_audit := Some (record_audit_event event (se_audit session)) \<rparr>) (ms_sessions s) \<rparr>)))"

definition capability_metadata :: "authorized_call \<Rightarrow> (string, pyval) dict" where
  "capability_metadata au =
     [(''granted_capabilities'', PList (map PStr (sorted_list_of_set (az_granted au)))), (''auth_source'', PStr (az_auth_source au)),
      (''authenticated'', PBool (rp_authenticated (az_principal au))), (''principal_id'', PStr (rp_principal_id (az_principal au))),
      (''target_object_type'', PStr ''session''), (''target_object_id'', PStr (pc_session_id (az_prepared au))), (''request_id'', PStr (az_request_id au))]"

definition record_capability_decision :: "'x mcp_env \<Rightarrow> authorized_call \<Rightarrow> bool \<Rightarrow> string \<Rightarrow> ('x, unit) mcp" where
  "record_capability_decision env au allowed reason =
     (if pc_capability (az_prepared au) = ''read'' then sreturn ()
      else audit_session env au (if allowed then ''allow'' else ''deny'') reason (capability_metadata au))"

definition call_capabilities :: "'x mcp_env \<Rightarrow> string \<Rightarrow> ('x, string set) mcp" where
  "call_capabilities env session_id =
     (case mc_token env of
        Some t \<Rightarrow> sreturn (session_capabilities (mc_environ env) {} (Some t))
      | None \<Rightarrow> sbind (open_session session_id) (\<lambda>session.
          sreturn (session_capabilities (mc_environ env) (case se_capabilities session of None \<Rightarrow> {} | Some c \<Rightarrow> c) None)))"

definition authorize_tool_call :: "'x mcp_env \<Rightarrow> prepared_call \<Rightarrow> ('x, pyval + authorized_call) mcp" where
  "authorize_tool_call env pc =
     sbind (authorize_tool_principal env pc) (\<lambda>r.
       case r of
         Inl resp \<Rightarrow> sreturn (Inl resp)
       | Inr (who, request_id) \<Rightarrow>
           sbind (call_capabilities env (pc_session_id pc)) (\<lambda>granted.
             let (allowed, reason) = authorize_capability (pc_capability pc) granted;
                 (actor, auth_source) = authorization_identity env who;
                 au = \<lparr> az_prepared = pc, az_principal = who, az_request_id = request_id, az_granted = granted,
                        az_actor = actor, az_auth_source = auth_source \<rparr> in
             sbind (record_capability_decision env au allowed reason) (\<lambda>_.
               if allowed then sreturn (Inr au)
               else sreturn (Inl (err_response reason ''OPERATION_NOT_AUTHORIZED''
                      [(''tool'', PStr (pc_tool_name pc)), (''required_capability'', PStr (pc_capability pc))])))))"

section \<open>Running\<close>

definition mapped_decision :: "string \<Rightarrow> string" where
  "mapped_decision decision = (if decision = ''cancel_requested'' then ''cancel'' else decision)"

definition decision_reasons :: "(string, string) dict" where
  "decision_reasons =
     [(''start'', ''isolated mutating tool execution started''), (''timeout'', ''execution deadline elapsed''),
      (''cancel'', ''caller cancelled isolated mutating tool execution''), (''worker_terminated'', ''isolated worker termination confirmed''),
      (''conflict'', ''session was destroyed before execution''), (''rollback'', ''isolated worker state and staged artifacts were discarded''),
      (''commit'', ''isolated worker state and staged artifacts committed'')]"

definition error_reasons :: "string list" where
  "error_reasons = [''worker error'', ''coordinator error'', ''worker exited without a response'', ''tool callable is not importable'']"

definition text_or :: "'x mcp_env \<Rightarrow> pyval option \<Rightarrow> string \<Rightarrow> string" where
  "text_or env v fallback = (case v of Some x \<Rightarrow> if truthy x then (case x of PStr t \<Rightarrow> t | _ \<Rightarrow> mc_str env x) else fallback | None \<Rightarrow> fallback)"

text \<open>Decision, reason and metadata of the entries one lifecycle event gives.\<close>

definition execution_audit_entries :: "'x mcp_env \<Rightarrow> lifecycle_event \<Rightarrow> (string \<times> string \<times> (string, pyval) dict) list" where
  "execution_audit_entries env ev =
     (let d = mapped_decision (fst ev); metadata = snd ev;
          error = (case dict_get metadata ''reason'' of
                     Some (PStr r) \<Rightarrow> if d = ''rollback'' \<and> r \<in> set error_reasons then [(''error'', r, metadata)] else []
                   | _ \<Rightarrow> []) in
      error @ [(d, (case dict_get decision_reasons d of Some r \<Rightarrow> r | None \<Rightarrow> text_or env (dict_get metadata ''reason'') d), metadata)])"

definition copied_keys :: "string list" where
  "copied_keys = [''worker_terminated'', ''duration_ms'', ''timeout_s'', ''exception_type'', ''reason'']"

definition execution_metadata :: "authorized_call \<Rightarrow> (string, pyval) dict \<Rightarrow> (string, pyval) dict" where
  "execution_metadata au metadata =
     [(''execution_job_id'', (case dict_get metadata ''job_id'' of None \<Rightarrow> PNone | Some v \<Rightarrow> v)), (''principal_id'', PStr (rp_principal_id (az_principal au))),
      (''request_id'', PStr (az_request_id au)), (''target_object_type'', PStr ''session''), (''target_object_id'', PStr (pc_session_id (az_prepared au)))]
     @ option_list (map (\<lambda>k. map_option (Pair k) (dict_get metadata k)) copied_keys)"

definition record_execution_event :: "'x mcp_env \<Rightarrow> authorized_call \<Rightarrow> lifecycle_event \<Rightarrow> ('x, unit) mcp" where
  "record_execution_event env au ev =
     sfor (execution_audit_entries env ev) (\<lambda>(decision, reason, metadata). audit_session env au decision reason (execution_metadata au metadata))"

definition mutation_failure_code :: "tool_execution_outcome \<Rightarrow> string" where
  "mutation_failure_code outcome =
     (case to_exception_type outcome of
        Some t \<Rightarrow> if t = ''UnsupportedExecutionPlatformError'' then ''UNSUPPORTED_PLATFORM''
                  else if t = ''SessionDestroyedError'' then ''SESSION_CONFLICT'' else ''TOOL_ERROR''
      | None \<Rightarrow> ''TOOL_ERROR'')"

definition or_text :: "string option \<Rightarrow> string \<Rightarrow> string" where
  "or_text e fallback = (case e of None \<Rightarrow> fallback | Some t \<Rightarrow> if t = [] then fallback else t)"

definition opt_text :: "string option \<Rightarrow> pyval" where
  "opt_text e = (case e of None \<Rightarrow> PNone | Some t \<Rightarrow> PStr t)"

text \<open>The answer to an outcome that is no success; \<^verbatim>\<open>duration_ms\<close> is left out.\<close>

definition mutation_outcome_response :: "'x mcp_env \<Rightarrow> authorized_call \<Rightarrow> tool_execution_outcome \<Rightarrow> pyval option" where
  "mutation_outcome_response env au outcome =
     (let pc = az_prepared au; tool = (''tool'', PStr (pc_tool_name pc)); job = (''job_id'', PStr (to_job_id outcome));
          terminated = (''worker_terminated'', PBool (to_worker_terminated outcome));
          exception = (''exception_type'', opt_text (to_exception_type outcome)) in
      if to_status outcome = ''completed'' then None
      else if to_status outcome = ''conflict'' then
        Some (err_response (or_text (to_error outcome) (''Session '' @ sq @ pc_session_id pc @ sq @ '' is no longer available''))
                ''SESSION_CONFLICT'' [tool, (''session_id'', PStr (pc_session_id pc)), job, exception])
      else if to_status outcome = ''timeout'' then
        Some (err_response (''Tool '' @ sq @ pc_tool_name pc @ sq @ '' timed out after '' @ mc_float_str env (pc_timeout_s pc) @ ''s'') ''TOOL_TIMEOUT''
                [tool, job, terminated])
      else
        Some (err_response (or_text (to_error outcome) (''Tool '' @ sq @ pc_tool_name pc @ sq @ '' failed in isolated execution''))
                (mutation_failure_code outcome) [tool, job, terminated, exception]))"

definition normalize_tool_result :: "'x mcp_env \<Rightarrow> string \<Rightarrow> pyval \<Rightarrow> pyval" where
  "normalize_tool_result env tool_name answer =
     (case answer of
        PNone \<Rightarrow> ok_response (PDict [(''message'', PStr (''Tool '' @ sq @ tool_name @ sq @ '' completed successfully''))])
      | PDict d \<Rightarrow> ok_response (PDict d)
      | PStr t \<Rightarrow> ok_response (PDict [(''result'', PStr t)])
      | v \<Rightarrow> ok_response (PDict [(''result'', PStr (mc_str env v))]))"

text \<open>A tool that only reads runs in process, any other in the isolated coordinator.\<close>

definition execute_tool_call :: "'x mcp_env \<Rightarrow> authorized_call \<Rightarrow> ('x, pyval + pyval) mcp" where
  "execute_tool_call env au s =
     (let pc = az_prepared au in
      if pc_capability pc \<noteq> ''read'' then
        (case mc_mutate env pc (ms_tools s) of
           ((r, events), x) \<Rightarrow>
             sbind (sfor events (record_execution_event env au)) (\<lambda>_ s1.
               case r of
                 Inl e \<Rightarrow> (Inl e, s1)
               | Inr outcome \<Rightarrow>
                   (case mutation_outcome_response env au outcome of
                      Some resp \<Rightarrow> (Inr (Inl resp), s1)
                    | None \<Rightarrow> (Inr (Inr (to_result outcome)), s1))) (s\<lparr> ms_tools := x \<rparr>))
      else
        (case mc_read env pc (ms_tools s) of
           (r, x) \<Rightarrow>
             (Inr (case r of
                     Read_Value v \<Rightarrow> Inr v
                   | Read_Timeout \<Rightarrow> Inl (err_response (''Tool '' @ sq @ pc_tool_name pc @ sq @ '' timed out after '' @ mc_float_str env (pc_timeout_s pc) @ ''s'') ''TOOL_TIMEOUT'' [])
                   | Read_Raised m \<Rightarrow> Inl (err_response m ''TOOL_ERROR'' [(''tool'', PStr (pc_tool_name pc))])), s\<lparr> ms_tools := x \<rparr>)))"

definition sandboxed_call :: "'x mcp_env \<Rightarrow> tool_definition \<Rightarrow> (string, pyval) dict \<Rightarrow> ('x, pyval) mcp" where
  "sandboxed_call env tool kwargs s =
     (case prepare_tool_call env tool kwargs of
        Inl resp \<Rightarrow> (Inr resp, s)
      | Inr pc \<Rightarrow>
          sbind (authorize_tool_call env pc) (\<lambda>r.
            case r of
              Inl resp \<Rightarrow> sreturn resp
            | Inr au \<Rightarrow>
                sbind (execute_tool_call env au) (\<lambda>answer.
                  sreturn (case answer of Inl resp \<Rightarrow> resp | Inr v \<Rightarrow> normalize_tool_result env (td_name tool) v))) s)"

section \<open>Tools of the sessions\<close>

definition session_create :: "'x mcp_env \<Rightarrow> string option \<Rightarrow> bool \<Rightarrow> ('x, pyval) mcp" where
  "session_create env capabilities local_grants s =
     (case oauth_capability_denial (mc_net env) (mc_token env) ''session_create'' ''read'' of
        Some d \<Rightarrow> (Inr (denial_response d), s)
      | None \<Rightarrow>
          (case mcp_principal (mc_net env) (mc_environ env) (mc_http_actor env) (mc_token env) of
             Inl e \<Rightarrow> (Inl e, s)
           | Inr who \<Rightarrow>
               sbind (new_id env ''mcp'') (\<lambda>session_id.
               sbind (new_id env ''mcp-request'') (\<lambda>request_id.
               sbind (on_access (authorize_object (mc_depth env) (mc_access env) ''session'' session_id who ''create-session'' request_id True [] [])) (\<lambda>_.
               sbind (open_session session_id) (\<lambda>session.
                 let granted = (case capabilities of None \<Rightarrow> False | Some c \<Rightarrow> c \<noteq> []) \<and> mc_token env = None \<and> local_grants;
                     session1 = (if granted then session\<lparr> se_capabilities := Some (granted_capabilities_from_header capabilities) \<rparr> else session) in
                 sbind (supdate (\<lambda>s. s\<lparr> ms_sessions := dict_set session_id session1 (ms_sessions s) \<rparr>)) (\<lambda>_.
                   sreturn (ok_response (PDict [(''session_id'', PStr session_id),
                     (''capabilities'', PList (map PStr (sorted_list_of_set (case se_capabilities session1 of None \<Rightarrow> {} | Some c \<Rightarrow> c))))]))))))) s))"

text \<open>
  The session is already removed from the sessions in memory when its access records go. Its rows in
  the store, which are hydrated before and deleted last, are not in this state.
\<close>

definition session_destroy_tool :: "'x mcp_env \<Rightarrow> string \<Rightarrow> ('x, pyval) mcp" where
  "session_destroy_tool env session_id s =
     (case oauth_capability_denial (mc_net env) (mc_token env) ''session_destroy'' ''sandbox-write'' of
        Some d \<Rightarrow> (Inr (denial_response d), s)
      | None \<Rightarrow>
          (case mcp_principal (mc_net env) (mc_environ env) (mc_http_actor env) (mc_token env) of
             Inl e \<Rightarrow> (Inl e, s)
           | Inr who \<Rightarrow>
               sbind (new_id env ''mcp-request'') (\<lambda>request_id s1.
                 case on_access (authorize_object (mc_depth env) (mc_access env) ''session'' session_id who ''destroy-session'' request_id False [] []) s1 of
                   (Inl e, s2) \<Rightarrow> if is_denied e then (Inr (object_denied_response []), s2) else (Inl e, s2)
                 | (Inr _, s2) \<Rightarrow>
                     if dict_get (ms_sessions s2) session_id = None
                     then (Inr (err_response (''Session '' @ sq @ session_id @ sq @ '' not found'') ''SESSION_NOT_FOUND'' []), s2)
                     else
                       sbind (supdate (\<lambda>s. s\<lparr> ms_destroyed := insert session_id (ms_destroyed s), ms_sessions := dict_pop session_id (ms_sessions s) \<rparr>)) (\<lambda>_ s3.
                         case mc_forget env session_id (ms_tools s3) of
                           (removed_reviews, x) \<Rightarrow>
                             sbind (on_access (remove_object_access (mc_depth env) ''session'' session_id True)) (\<lambda>_.
                               sreturn (ok_response (PDict [(''message'', PStr (''Session '' @ sq @ session_id @ sq @ '' destroyed'')),
                                 (''removed_review_sessions'', PInt (int removed_reviews))]))) (s3\<lparr> ms_tools := x \<rparr>)) s2) s))"

section \<open>What a call changes\<close>

definition audit_of_session :: "string \<Rightarrow> 'x mcp_state \<Rightarrow> audit_event list" where
  "audit_of_session sid s = (case dict_get (ms_sessions s) sid of None \<Rightarrow> [] | Some x \<Rightarrow> (case se_audit x of None \<Rightarrow> [] | Some es \<Rightarrow> es))"

text \<open>The events are appended to one session; nothing else happens but to access records and ids.\<close>

definition appends :: "string \<Rightarrow> audit_event list \<Rightarrow> 'x mcp_state \<Rightarrow> 'x mcp_state \<Rightarrow> bool" where
  "appends sid es s s' \<longleftrightarrow> ms_tools s' = ms_tools s \<and> ms_destroyed s' = ms_destroyed s
     \<and> (\<forall>sid'. sid' \<noteq> sid \<longrightarrow> dict_get (ms_sessions s') sid' = dict_get (ms_sessions s) sid')
     \<and> audit_of_session sid s' = audit_of_session sid s @ es"

lemma appends_refl [simp]: "appends sid [] s s"
  by (simp add: appends_def)

lemma appends_trans: "appends sid es s s1 \<Longrightarrow> appends sid es' s1 s2 \<Longrightarrow> appends sid (es @ es') s s2"
  by (simp add: appends_def)

lemma appends_nil_trans: "appends sid [] s s1 \<Longrightarrow> appends sid es s1 s2 \<Longrightarrow> appends sid es s s2"
  using appends_trans by fastforce

lemma appends_access [simp]: "appends sid [] s (s\<lparr> ms_access := a \<rparr>)" "appends sid [] s (s\<lparr> ms_tick := n \<rparr>)"
  by (simp_all add: appends_def audit_of_session_def)

lemma on_access_appends: "on_access m s = (r, s') \<Longrightarrow> appends sid [] s s'"
  by (auto simp: on_access_def split: prod.splits)

lemma new_id_appends: "new_id env kind s = (r, s') \<Longrightarrow> appends sid [] s s'"
  by (auto simp: new_id_def)

lemma open_session_appends: "open_session sid s = (r, s') \<Longrightarrow> appends sid [] s s'"
  by (auto simp: open_session_def appends_def audit_of_session_def new_session_def pydict.get_put split: if_splits option.splits)

lemma open_session_found: "open_session sid s = (Inr x, s') \<Longrightarrow> dict_get (ms_sessions s') sid = Some x"
  by (auto simp: open_session_def pydict.get_put split: if_splits option.splits)

lemma authorize_object_call_appends:
  assumes "authorize_mcp_session_object env session_id action s = (r, s')"
  shows "appends sid [] s s'"
proof (cases "session_id \<in> ms_destroyed s")
  case True
  then show ?thesis using assms by (simp add: authorize_mcp_session_object_def)
next
  case False
  show ?thesis
  proof (cases "mcp_principal (mc_net env) (mc_environ env) (mc_http_actor env) (mc_token env)")
    case (Inl e)
    then show ?thesis using assms False by (simp add: authorize_mcp_session_object_def)
  next
    case (Inr who)
    obtain rid s1 where 1: "new_id env ''mcp-request'' s = (Inr rid, s1)" by (simp add: new_id_def)
    obtain r2 s2 where 2: "on_access (get_object_access (mc_access env) ''session'' session_id) s1 = (r2, s2)" by fastforce
    note a2 = appends_nil_trans [OF new_id_appends [OF 1] on_access_appends [OF 2]]
    show ?thesis
    proof (cases r2)
      case (Inl e)
      then have "s' = s2" using assms False Inr 1 2 by (simp add: authorize_mcp_session_object_def sbind_def)
      then show ?thesis using a2 by simp
    next
      case r2: (Inr found)
      obtain r3 s3 where 3: "on_access (authorize_object (mc_depth env) (mc_access env) ''session'' session_id who action rid
          (found = None \<and> dict_get (ms_sessions s2) session_id = None) [] []) s2 = (r3, s3)" by fastforce
      have "s' = s3" using assms False Inr 1 2 r2 3 by (cases r3) (simp_all add: authorize_mcp_session_object_def sbind_def sreturn_def)
      then show ?thesis using appends_nil_trans [OF a2 on_access_appends [OF 3]] by simp
    qed
  qed
qed

lemma authorize_principal_appends: "authorize_tool_principal env pc s = (r, s') \<Longrightarrow> appends sid [] s s'"
  using authorize_object_call_appends by (auto simp: authorize_tool_principal_def split: option.splits prod.splits sum.splits if_splits)

lemma call_capabilities_appends: "call_capabilities env sid s = (r, s') \<Longrightarrow> appends sid [] s s'"
  using open_session_appends by (auto simp: call_capabilities_def sbind_def sreturn_def split: option.splits prod.splits sum.splits)

definition recorded :: "authorized_call \<Rightarrow> string \<Rightarrow> string \<Rightarrow> (string, pyval) dict \<Rightarrow> audit_event \<Rightarrow> bool" where
  "recorded au decision reason metadata e \<longleftrightarrow> ae_surface e = ''mcp'' \<and> ae_session_id e = pc_session_id (az_prepared au) \<and> ae_actor e = az_actor au
     \<and> ae_tool e = pc_tool_name (az_prepared au) \<and> ae_capability e = pc_capability (az_prepared au) \<and> ae_decision e = decision \<and> ae_reason e = reason
     \<and> ae_metadata e = metadata"

lemma audit_session_appends:
  assumes "audit_session env au decision reason metadata s = (r, s')"
  shows "case r of Inl e \<Rightarrow> appends (pc_session_id (az_prepared au)) [] s s'
    | Inr _ \<Rightarrow> \<exists>ev. recorded au decision reason metadata ev \<and> appends (pc_session_id (az_prepared au)) [ev] s s'"
proof -
  let ?sid = "pc_session_id (az_prepared au)"
  obtain r1 s1 where 1: "open_session ?sid s = (r1, s1)" by fastforce
  note a1 = open_session_appends [OF 1]
  show ?thesis
  proof (cases r1)
    case (Inl e)
    then have "r = Inl e" "s' = s1" using assms 1 by (simp_all add: audit_session_def sbind_def Let_def)
    then show ?thesis using a1 by simp
  next
    case (Inr session)
    define ev where "ev = \<lparr> ae_event_id = mc_event_id env (ms_tick s1), ae_timestamp = mc_now env (ms_tick s1), ae_surface = ''mcp'',
                      ae_session_id = ?sid, ae_actor = az_actor au, ae_tool = pc_tool_name (az_prepared au), ae_capability = pc_capability (az_prepared au),
                      ae_decision = decision, ae_reason = reason, ae_metadata = metadata \<rparr>"
    have rec: "recorded au decision reason metadata ev" by (simp add: recorded_def ev_def)
    have res: "r = Inr ()" "s' = s1\<lparr> ms_tick := ms_tick s1 + 1, ms_sessions := dict_set ?sid (session\<lparr> se_audit := Some (record_audit_event ev (se_audit session)) \<rparr>) (ms_sessions s1) \<rparr>"
      using assms 1 Inr by (simp_all add: audit_session_def sbind_def ev_def Let_def)
    have "dict_get (ms_sessions s1) ?sid = Some session" using open_session_found 1 Inr by blast
    then have "appends ?sid [ev] s1 s'"
      by (auto simp: appends_def audit_of_session_def res(2) pydict.get_put record_audit_event_def split: option.splits)
    then show ?thesis using rec appends_nil_trans [OF a1] res(1) by auto
  qed
qed

lemma decision_appends:
  assumes "record_capability_decision env au allowed reason s = (Inr u, s')"
  shows "\<exists>es. appends (pc_session_id (az_prepared au)) es s s'
    \<and> (if pc_capability (az_prepared au) = ''read'' then es = []
       else \<exists>e. es = [e] \<and> recorded au (if allowed then ''allow'' else ''deny'') reason (capability_metadata au) e)"
proof (cases "pc_capability (az_prepared au) = ''read''")
  case True
  then have "s' = s" using assms by (simp add: record_capability_decision_def sreturn_def)
  then show ?thesis using True by (intro exI [of _ "[]"]) simp
next
  case False
  then have "audit_session env au (if allowed then ''allow'' else ''deny'') reason (capability_metadata au) s = (Inr u, s')"
    using assms by (simp add: record_capability_decision_def)
  from audit_session_appends [OF this] show ?thesis using False by auto
qed

text \<open>What the granted capabilities of a call are.\<close>

definition granted_set :: "'x mcp_env \<Rightarrow> string \<Rightarrow> 'x mcp_state \<Rightarrow> string set" where
  "granted_set env sid s =
     (case mc_token env of
        Some t \<Rightarrow> session_capabilities (mc_environ env) {} (Some t)
      | None \<Rightarrow> session_capabilities (mc_environ env)
          (case dict_get (ms_sessions s) sid of None \<Rightarrow> {} | Some x \<Rightarrow> (case se_capabilities x of None \<Rightarrow> {} | Some c \<Rightarrow> c)) None)"

lemma call_capabilities_granted: "call_capabilities env sid s = (Inr granted, s') \<Longrightarrow> granted = granted_set env sid s"
  by (auto simp: call_capabilities_def granted_set_def sbind_def sreturn_def open_session_def new_session_def
      split: option.splits prod.splits sum.splits if_splits)

text \<open>The checks a call passes before a tool runs, and what they leave in the audit log.\<close>

definition passed_checks :: "'x mcp_env \<Rightarrow> prepared_call \<Rightarrow> 'x mcp_state \<Rightarrow> authorized_call \<Rightarrow> bool" where
  "passed_checks env pc s au \<longleftrightarrow> az_prepared au = pc
     \<and> oauth_capability_denial (mc_net env) (mc_token env) (pc_tool_name pc) (pc_capability pc) = None
     \<and> pc_session_id pc \<notin> ms_destroyed s
     \<and> (\<exists>s1. authorize_mcp_session_object env (pc_session_id pc) (pc_tool_name pc) s = (Inr (az_principal au, az_request_id au), s1))
     \<and> az_granted au = granted_set env (pc_session_id pc) s
     \<and> fst (authorize_capability (pc_capability pc) (az_granted au))"

lemma authorize_callE:
  assumes "authorize_tool_call env pc s = (Inr r, s')"
  shows "\<exists>es. appends (pc_session_id pc) es s s' \<and> (case r of
      Inr au \<Rightarrow> passed_checks env pc s au \<and>
        (if pc_capability pc = ''read'' then es = []
         else \<exists>e. es = [e] \<and> recorded au ''allow'' (snd (authorize_capability (pc_capability pc) (az_granted au))) (capability_metadata au) e)
    | Inl resp \<Rightarrow> \<not> is_ok_response resp \<and> (es = [] \<or> (\<exists>e au. es = [e] \<and> az_prepared au = pc \<and> ae_decision e = ''deny''
        \<and> recorded au ''deny'' (ae_reason e) (capability_metadata au) e)))"
proof -
  let ?sid = "pc_session_id pc"
  obtain r1 s1 where 1: "authorize_tool_principal env pc s = (r1, s1)" by fastforce
  note a1 = authorize_principal_appends [OF 1, of ?sid]
  show ?thesis
  proof (cases r1)
    case (Inl e)
    then show ?thesis using assms 1 by (simp add: authorize_tool_call_def sbind_def)
  next
    case r1: (Inr x)
    show ?thesis
    proof (cases x)
      case (Inl resp)
      then have "r = Inl resp" "s' = s1" using assms 1 r1 by (simp_all add: authorize_tool_call_def sbind_def sreturn_def)
      moreover have "\<not> is_ok_response resp"
        using 1 r1 Inl by (auto simp: authorize_tool_principal_def is_ok_response_def denial_response_def object_denied_response_def err_response_def dict_get_def
            split: option.splits prod.splits sum.splits if_splits oauth_denial.splits)
      ultimately show ?thesis using a1 by (intro exI [of _ "[]"]) simp
    next
      case (Inr y)
      obtain who rid where y: "y = (who, rid)" by fastforce
      have no_denial: "oauth_capability_denial (mc_net env) (mc_token env) (pc_tool_name pc) (pc_capability pc) = None"
        and obj: "authorize_mcp_session_object env ?sid (pc_tool_name pc) s = (Inr (who, rid), s1)"
        using 1 r1 Inr y by (auto simp: authorize_tool_principal_def split: option.splits prod.splits sum.splits if_splits)
      have alive: "?sid \<notin> ms_destroyed s" using obj by (auto simp: authorize_mcp_session_object_def)
      have caps: "dict_get (ms_sessions s1) = dict_get (ms_sessions s)"
      proof
        fix k
        have "appends (k @ ''x'') [] s s1" by (rule authorize_object_call_appends [OF obj])
        then show "dict_get (ms_sessions s1) k = dict_get (ms_sessions s) k" by (simp add: appends_def)
      qed
      obtain r2 s2 where 2: "call_capabilities env ?sid s1 = (r2, s2)" by fastforce
      note a2 = appends_nil_trans [OF a1 call_capabilities_appends [OF 2]]
      obtain granted where r2: "r2 = Inr granted"
        using assms 1 r1 Inr y 2 by (cases r2) (auto simp: authorize_tool_call_def sbind_def)
      have granted: "granted = granted_set env ?sid s"
        using call_capabilities_granted [OF 2 [unfolded r2]] unfolding granted_set_def caps .
      obtain allowed reason where dec: "authorize_capability (pc_capability pc) granted = (allowed, reason)" by fastforce
      obtain actor source where ident: "authorization_identity env who = (actor, source)" by fastforce
      define au where "au = \<lparr> az_prepared = pc, az_principal = who, az_request_id = rid, az_granted = granted, az_actor = actor, az_auth_source = source \<rparr>"
      obtain r3 s3 where 3: "record_capability_decision env au allowed reason s2 = (r3, s3)" by fastforce
      have run: "authorize_tool_call env pc s = (case r3 of Inl e \<Rightarrow> (Inl e, s3) | Inr _ \<Rightarrow> (if allowed then (Inr (Inr au), s3)
          else (Inr (Inl (err_response reason ''OPERATION_NOT_AUTHORIZED'' [(''tool'', PStr (pc_tool_name pc)), (''required_capability'', PStr (pc_capability pc))])), s3)))"
        using 1 r1 Inr y 2 r2 dec ident 3 by (cases allowed; cases r3) (simp_all add: authorize_tool_call_def sbind_def sreturn_def au_def Let_def)
      then obtain u where r3: "r3 = Inr u" using assms by (cases r3) auto
      obtain es where es: "appends ?sid es s2 s3" "if pc_capability pc = ''read'' then es = []
          else \<exists>e. es = [e] \<and> recorded au (if allowed then ''allow'' else ''deny'') reason (capability_metadata au) e"
        using decision_appends [OF 3 [unfolded r3]] by (auto simp: au_def)
      have app: "appends ?sid es s s3" by (rule appends_nil_trans [OF a2 es(1)])
      have s': "s' = s3" using assms run r3 by (auto split: if_splits)
      show ?thesis
      proof (cases allowed)
        case True
        have "r = Inr au" using assms run r3 True by simp
        moreover have "passed_checks env pc s au"
          unfolding passed_checks_def using no_denial alive obj granted dec True by (auto simp: au_def)
        ultimately show ?thesis using app es(2) True dec s' by (intro exI [of _ es]) (auto simp: au_def)
      next
        case False
        have "r = Inl (err_response reason ''OPERATION_NOT_AUTHORIZED'' [(''tool'', PStr (pc_tool_name pc)), (''required_capability'', PStr (pc_capability pc))])"
          using assms run r3 False by simp
        moreover have "\<not> is_ok_response (err_response reason ''OPERATION_NOT_AUTHORIZED'' d)" for d
          by (simp add: is_ok_response_def err_response_def dict_get_def)
        moreover have "es = [] \<or> (\<exists>e au. es = [e] \<and> az_prepared au = pc \<and> ae_decision e = ''deny'' \<and> recorded au ''deny'' (ae_reason e) (capability_metadata au) e)"
        proof (cases "pc_capability pc = ''read''")
          case True
          then show ?thesis using es(2) by simp
        next
          case nr: False
          obtain e where e: "es = [e]" "recorded au ''deny'' reason (capability_metadata au) e" using es(2) nr False by auto
          then have "ae_decision e = ''deny''" "ae_reason e = reason" by (simp_all add: recorded_def)
          then show ?thesis using e by (intro disjI2 exI [of _ e] exI [of _ au]) (simp add: au_def)
        qed
        ultimately show ?thesis using app s' by (intro exI [of _ es]) simp
      qed
    qed
  qed
qed

lemma read_not_denied:
  assumes "authorize_tool_call env pc s = (Inr (Inl resp), s')" "pc_capability pc = ''read''"
  shows "audit_of_session (pc_session_id pc) s' = audit_of_session (pc_session_id pc) s"
proof -
  obtain r1 s1 where 1: "authorize_tool_principal env pc s = (r1, s1)" by fastforce
  note a1 = authorize_principal_appends [OF 1, of "pc_session_id pc"]
  show ?thesis
  proof (cases r1)
    case (Inr x)
    show ?thesis
    proof (cases x)
      case (Inl resp')
      then show ?thesis using assms 1 Inr a1 by (simp add: authorize_tool_call_def sbind_def sreturn_def appends_def)
    next
      case x: (Inr y)
      obtain r2 s2 where 2: "call_capabilities env (pc_session_id pc) s1 = (r2, s2)" by fastforce
      show ?thesis
        using assms 1 Inr x 2 by (cases r2) (auto simp: authorize_tool_call_def sbind_def sreturn_def authorize_capability_def record_capability_decision_def Let_def split: prod.splits)
    qed
  qed (use assms 1 in \<open>simp add: authorize_tool_call_def sbind_def\<close>)
qed

definition tools_kept :: "('x, 'a) mcp \<Rightarrow> bool" where
  "tools_kept m \<longleftrightarrow> (\<forall>s. ms_tools (snd (m s)) = ms_tools s)"

lemma tools_kept_sbind: "tools_kept m \<Longrightarrow> (\<And>x. tools_kept (f x)) \<Longrightarrow> tools_kept (sbind m f)"
  by (auto simp: tools_kept_def sbind_def split: prod.splits sum.splits) (metis snd_conv)+

lemma tools_kept_return [simp]: "tools_kept (sreturn x)"
  by (simp add: tools_kept_def sreturn_def)

lemma appends_kept: "(\<And>s r s'. m s = (r, s') \<Longrightarrow> \<exists>sid es. appends sid es s s') \<Longrightarrow> tools_kept m"
  unfolding tools_kept_def appends_def by (metis prod.collapse)

lemma tools_kept_calls [simp]: "tools_kept (authorize_tool_principal env pc)" "tools_kept (call_capabilities env sid)" "tools_kept (audit_session env au d r m)"
proof -
  show "tools_kept (authorize_tool_principal env pc)" by (rule appends_kept) (meson authorize_principal_appends)
  show "tools_kept (call_capabilities env sid)" by (rule appends_kept) (meson call_capabilities_appends)
  show "tools_kept (audit_session env au d r m)"
  proof (rule appends_kept)
    fix s r' s' assume "audit_session env au d r m s = (r', s')"
    from audit_session_appends [OF this] show "\<exists>sid es. appends sid es s s'" by (cases r') auto
  qed
qed

lemma tools_kept_authorize: "tools_kept (authorize_tool_call env pc)"
  unfolding authorize_tool_call_def record_capability_decision_def Let_def
  by (intro tools_kept_sbind) (auto split: sum.splits prod.splits intro!: tools_kept_sbind)

lemma tools_kept_for: "(\<And>x. tools_kept (f x)) \<Longrightarrow> tools_kept (sfor xs f)"
  by (induction xs) (auto intro: tools_kept_sbind)

lemma tools_kept_event: "tools_kept (record_execution_event env au ev)"
  unfolding record_execution_event_def by (rule tools_kept_for) (auto split: prod.splits)

lemma sfor_appends:
  assumes "sfor xs f s = (Inr u, s')" "\<And>x s s'. f x s = (Inr (), s') \<Longrightarrow> \<exists>es. appends sid es s s' \<and> P x es"
  shows "\<exists>ess. appends sid (concat ess) s s' \<and> list_all2 P xs ess"
  using assms(1)
proof (induction xs arbitrary: s)
  case Nil
  then show ?case by (intro exI [of _ "[]"]) (simp add: sreturn_def)
next
  case (Cons x xs)
  obtain s1 where 1: "f x s = (Inr (), s1)" "sfor xs f s1 = (Inr u, s')"
    using Cons.prems by (auto simp: sbind_def split: prod.splits sum.splits)
  obtain es where es: "appends sid es s s1" "P x es" using assms(2) [OF 1(1)] by blast
  obtain ess where "appends sid (concat ess) s1 s'" "list_all2 P xs ess" using Cons.IH [OF 1(2)] by blast
  then show ?case using es appends_trans [OF es(1)] by (intro exI [of _ "es # ess"]) simp
qed

definition logged :: "audit_event \<Rightarrow> string \<times> string" where
  "logged e = (ae_decision e, ae_reason e)"

definition entry_text :: "string \<times> string \<times> (string, pyval) dict \<Rightarrow> string \<times> string" where
  "entry_text e = (fst e, fst (snd e))"

lemma record_event_appends:
  assumes "record_execution_event env au ev s = (Inr u, s')"
  shows "\<exists>es. appends (pc_session_id (az_prepared au)) es s s' \<and> map logged es = map entry_text (execution_audit_entries env ev)"
proof -
  let ?sid = "pc_session_id (az_prepared au)"
  have "\<exists>es. appends ?sid es s s' \<and> map logged es = [entry_text x]"
    if "(case x of (decision, reason, metadata) \<Rightarrow> audit_session env au decision reason (execution_metadata au metadata)) s = (Inr (), s')" for x s s'
  proof -
    obtain d r m where x: "x = (d, r, m)" by (cases x) auto
    have "audit_session env au d r (execution_metadata au m) s = (Inr (), s')" using that x by simp
    from audit_session_appends [OF this] obtain e where "recorded au d r (execution_metadata au m) e" "appends ?sid [e] s s'" by auto
    then show ?thesis by (intro exI [of _ "[e]"]) (simp add: logged_def entry_text_def recorded_def x)
  qed
  then obtain ess where ess: "appends ?sid (concat ess) s s'" "list_all2 (\<lambda>x es. map logged es = [entry_text x]) (execution_audit_entries env ev) ess"
    using sfor_appends [OF assms [unfolded record_execution_event_def], where P = "\<lambda>x es. map logged es = [entry_text x]"] by blast
  have "map logged (concat ess) = map entry_text (execution_audit_entries env ev)"
    using ess(2) by (induction rule: list_all2_induct) auto
  then show ?thesis using ess(1) by blast
qed

lemma record_events_append:
  assumes "sfor events (record_execution_event env au) s = (Inr u, s')"
  shows "\<exists>es. appends (pc_session_id (az_prepared au)) es s s' \<and> map logged es = map entry_text (concat (map (execution_audit_entries env) events))"
proof -
  obtain ess where ess: "appends (pc_session_id (az_prepared au)) (concat ess) s s'"
    "list_all2 (\<lambda>ev es. map logged es = map entry_text (execution_audit_entries env ev)) events ess"
    using sfor_appends [OF assms, where P = "\<lambda>ev es. map logged es = map entry_text (execution_audit_entries env ev)"] record_event_appends by blast
  have "map logged (concat ess) = map entry_text (concat (map (execution_audit_entries env) events))"
    using ess(2) by (induction rule: list_all2_induct) auto
  then show ?thesis using ess(1) by blast
qed

lemma not_ok_response [simp]: "\<not> is_ok_response (err_response m c d)"
  by (simp add: is_ok_response_def err_response_def dict_get_def)

lemma ok_response_ok [simp]: "is_ok_response (ok_response d)"
  by (simp add: is_ok_response_def ok_response_def dict_get_def)

lemma normalized_ok [simp]: "is_ok_response (normalize_tool_result env t v)"
  by (simp add: normalize_tool_result_def split: pyval.splits)

lemma invalid_not_ok: "prepare_tool_call env tool kwargs = Inl resp \<Longrightarrow> \<not> is_ok_response resp"
  by (auto simp: prepare_tool_call_def Let_def split: if_splits)

lemma mutation_response_ok: "mutation_outcome_response env au outcome = Some resp \<Longrightarrow> \<not> is_ok_response resp \<and> to_status outcome \<noteq> ''completed''"
  by (auto simp: mutation_outcome_response_def Let_def split: if_splits)

lemma mutation_response_none: "mutation_outcome_response env au outcome = None \<longleftrightarrow> to_status outcome = ''completed''"
  by (auto simp: mutation_outcome_response_def Let_def)

lemma prepared_capability: "prepare_tool_call env tool kwargs = Inr pc \<Longrightarrow> pc_capability pc = td_capability tool \<and> pc_tool_name pc = td_name tool"
  by (auto simp: prepare_tool_call_def Let_def split: if_splits)

text \<open>What a call that got past authorization has done.\<close>

lemma execute_mutating:
  assumes "execute_tool_call env au s = (Inr answer, s')" "pc_capability (az_prepared au) \<noteq> ''read''"
  shows "\<exists>outcome events es. mc_mutate env (az_prepared au) (ms_tools s) = ((Inr outcome, events), ms_tools s')
    \<and> ms_destroyed s' = ms_destroyed s \<and> (\<forall>sid'. sid' \<noteq> pc_session_id (az_prepared au) \<longrightarrow> dict_get (ms_sessions s') sid' = dict_get (ms_sessions s) sid')
    \<and> audit_of_session (pc_session_id (az_prepared au)) s' = audit_of_session (pc_session_id (az_prepared au)) s @ es
    \<and> map logged es = map entry_text (concat (map (execution_audit_entries env) events))
    \<and> (case answer of Inl resp \<Rightarrow> \<not> is_ok_response resp \<and> to_status outcome \<noteq> ''completed'' | Inr v \<Rightarrow> to_status outcome = ''completed'')"
proof -
  let ?pc = "az_prepared au" let ?sid = "pc_session_id (az_prepared au)"
  obtain r events x where m: "mc_mutate env ?pc (ms_tools s) = ((r, events), x)" by (metis prod.collapse)
  obtain u s1 where s1: "sfor events (record_execution_event env au) (s\<lparr> ms_tools := x \<rparr>) = (Inr u, s1)"
    using assms m by (cases "sfor events (record_execution_event env au) (s\<lparr> ms_tools := x \<rparr>)") (auto simp: execute_tool_call_def sbind_def Let_def split: sum.splits)
  obtain outcome where r: "r = Inr outcome" using assms m s1 by (cases r) (auto simp: execute_tool_call_def sbind_def Let_def)
  have res: "s' = s1" "answer = (case mutation_outcome_response env au outcome of Some resp \<Rightarrow> Inl resp | None \<Rightarrow> Inr (to_result outcome))"
    using assms m s1 r by (auto simp: execute_tool_call_def sbind_def Let_def split: option.splits)
  obtain es where es: "appends ?sid es (s\<lparr> ms_tools := x \<rparr>) s1" "map logged es = map entry_text (concat (map (execution_audit_entries env) events))"
    using record_events_append [OF s1] by blast
  show ?thesis
  proof (intro exI [of _ outcome] exI [of _ events] exI [of _ es] conjI)
    show "mc_mutate env ?pc (ms_tools s) = ((Inr outcome, events), ms_tools s')" using m r es(1) res(1) by (simp add: appends_def)
    show "case answer of Inl resp \<Rightarrow> \<not> is_ok_response resp \<and> to_status outcome \<noteq> ''completed'' | Inr v \<Rightarrow> to_status outcome = ''completed''"
      using res(2) mutation_response_ok [of env au outcome] mutation_response_none [of env au outcome] by (cases "mutation_outcome_response env au outcome") auto
  qed (use es res(1) in \<open>auto simp: appends_def audit_of_session_def\<close>)
qed

text \<open>
  C12: A tool runs, and a call is answered with success, only when its parameters are valid, the scopes of
  the token allow it, the session is not destroyed, the principal has access to it and the granted
  capabilities reach the one the tool requires.
\<close>

theorem tool_runs_only_authorized:
  assumes "sandboxed_call env tool kwargs s = (r, s')" "ms_tools s' \<noteq> ms_tools s \<or> (\<exists>resp. r = Inr resp \<and> is_ok_response resp)"
  shows "\<exists>pc au. prepare_tool_call env tool kwargs = Inr pc \<and> validate_tool_params env tool (pc_kwargs pc) = [] \<and> passed_checks env pc s au"
proof (cases "prepare_tool_call env tool kwargs")
  case (Inl resp)
  then show ?thesis using assms invalid_not_ok [OF Inl] by (auto simp: sandboxed_call_def)
next
  case (Inr pc)
  obtain r1 s1 where 1: "authorize_tool_call env pc s = (r1, s1)" by fastforce
  have kept: "ms_tools s1 = ms_tools s" using tools_kept_authorize [of env pc] 1 unfolding tools_kept_def by (metis snd_conv)
  have "\<exists>au. r1 = Inr (Inr au)"
  proof (rule ccontr)
    assume no: "\<not> ?thesis"
    then obtain resp where "r1 = Inr (Inl resp) \<or> (\<exists>e. r1 = Inl e)" by (cases r1) (auto simp: sum.case_eq_if split: sum.splits, metis sum.exhaust)
    then show False
    proof
      assume x: "r1 = Inr (Inl resp)"
      then have "r = Inr resp" "s' = s1" using assms(1) Inr 1 by (simp_all add: sandboxed_call_def sbind_def sreturn_def)
      then show False using assms(2) kept authorize_callE [OF 1 [unfolded x]] by auto
    next
      assume "\<exists>e. r1 = Inl e"
      then show False using assms Inr 1 kept by (auto simp: sandboxed_call_def sbind_def)
    qed
  qed
  then obtain au where "r1 = Inr (Inr au)" by blast
  then have "passed_checks env pc s au" using authorize_callE 1 by fastforce
  moreover have "validate_tool_params env tool (pc_kwargs pc) = []" using Inr by (auto simp: prepare_tool_call_def Let_def split: if_splits)
  ultimately show ?thesis using Inr by blast
qed

lemma tool_call_trace:
  assumes "sandboxed_call env tool kwargs s = (Inr resp, s')" "prepare_tool_call env tool kwargs = Inr pc"
  shows "\<exists>es. (\<forall>sid'. sid' \<noteq> pc_session_id pc \<longrightarrow> dict_get (ms_sessions s') sid' = dict_get (ms_sessions s) sid')
    \<and> audit_of_session (pc_session_id pc) s' = audit_of_session (pc_session_id pc) s @ es
    \<and> (if td_capability tool = ''read'' then es = []
       else (es = [] \<and> ms_tools s' = ms_tools s \<and> \<not> is_ok_response resp)
         \<or> (\<exists>e au. es = [e] \<and> az_prepared au = pc \<and> recorded au ''deny'' (ae_reason e) (capability_metadata au) e \<and> ms_tools s' = ms_tools s \<and> \<not> is_ok_response resp)
         \<or> (\<exists>e es' au outcome events. es = e # es' \<and> passed_checks env pc s au \<and> recorded au ''allow'' (ae_reason e) (capability_metadata au) e
             \<and> mc_mutate env pc (ms_tools s) = ((Inr outcome, events), ms_tools s')
             \<and> map logged es' = map entry_text (concat (map (execution_audit_entries env) events))
             \<and> (is_ok_response resp \<longleftrightarrow> to_status outcome = ''completed'')))"
proof -
  let ?sid = "pc_session_id pc"
  obtain r1 s1 where 1: "authorize_tool_call env pc s = (r1, s1)" by fastforce
  have cap: "pc_capability pc = td_capability tool" using prepared_capability assms(2) by blast
  obtain x where r1: "r1 = Inr x" using assms 1 by (cases r1) (auto simp: sandboxed_call_def sbind_def)
  obtain es where es: "appends ?sid es s s1" "case x of
      Inr au \<Rightarrow> passed_checks env pc s au \<and>
        (if pc_capability pc = ''read'' then es = []
         else \<exists>e. es = [e] \<and> recorded au ''allow'' (snd (authorize_capability (pc_capability pc) (az_granted au))) (capability_metadata au) e)
    | Inl resp \<Rightarrow> \<not> is_ok_response resp \<and> (es = [] \<or> (\<exists>e au. es = [e] \<and> az_prepared au = pc \<and> ae_decision e = ''deny''
        \<and> recorded au ''deny'' (ae_reason e) (capability_metadata au) e))"
    using authorize_callE 1 r1 by blast
  show ?thesis
  proof (cases x)
    case (Inl resp')
    then have "resp = resp'" "s' = s1" using assms 1 r1 by (simp_all add: sandboxed_call_def sbind_def sreturn_def)
    moreover have "es = []" if "td_capability tool = ''read''"
    proof (rule ccontr)
      assume "es \<noteq> []"
      then obtain e au where "az_prepared au = pc" "recorded au ''deny'' (ae_reason e) (capability_metadata au) e" "es = [e]" using es(2) Inl by auto
      then show False using read_not_denied [OF 1 [unfolded r1 Inl]] that cap es(1) by (auto simp: appends_def)
    qed
    ultimately show ?thesis using es Inl by (intro exI [of _ es]) (auto simp: appends_def)
  next
    case (Inr au)
    have au: "az_prepared au = pc" using es(2) Inr by (simp add: passed_checks_def)
    obtain answer s2 where 2: "execute_tool_call env au s1 = (Inr answer, s2)"
      using assms 1 r1 Inr by (cases "execute_tool_call env au s1") (auto simp: sandboxed_call_def sbind_def split: sum.splits)
    have res: "s' = s2" "resp = (case answer of Inl resp \<Rightarrow> resp | Inr v \<Rightarrow> normalize_tool_result env (td_name tool) v)"
      using assms 1 r1 Inr 2 by (simp_all add: sandboxed_call_def sbind_def sreturn_def)
    show ?thesis
    proof (cases "td_capability tool = ''read''")
      case True
      then have "s2 = s1\<lparr> ms_tools := ms_tools s2 \<rparr>" "es = []" using 2 au cap es(2) Inr by (auto simp: execute_tool_call_def Let_def split: prod.splits)
      then show ?thesis using res(1) es(1) True by (intro exI [of _ "[]"]) (auto simp: appends_def audit_of_session_def dest: arg_cong [of s2 _ ms_sessions])
    next
      case False
      then have nr: "pc_capability (az_prepared au) \<noteq> ''read''" using au cap by simp
      obtain outcome events es' where run: "mc_mutate env pc (ms_tools s1) = ((Inr outcome, events), ms_tools s2)"
        "\<forall>sid'. sid' \<noteq> ?sid \<longrightarrow> dict_get (ms_sessions s2) sid' = dict_get (ms_sessions s1) sid'"
        "audit_of_session ?sid s2 = audit_of_session ?sid s1 @ es'" "map logged es' = map entry_text (concat (map (execution_audit_entries env) events))"
        "case answer of Inl resp \<Rightarrow> \<not> is_ok_response resp \<and> to_status outcome \<noteq> ''completed'' | Inr v \<Rightarrow> to_status outcome = ''completed''"
        using execute_mutating [OF 2 nr] unfolding au by blast
      obtain e where e: "es = [e]" "recorded au ''allow'' (ae_reason e) (capability_metadata au) e"
        using es(2) Inr False cap by (auto simp: recorded_def)
      have "is_ok_response resp \<longleftrightarrow> to_status outcome = ''completed''" using run(5) res(2) by (auto split: sum.splits)
      moreover have "passed_checks env pc s au" using es(2) Inr by simp
      ultimately show ?thesis using run es(1) e res(1) False by (intro exI [of _ "e # es'"]) (auto simp: appends_def)
    qed
  qed
qed


section \<open>Down to the files\<close>

text \<open>
  What the server relies on in the runner of mutating tools: from a sound state a completed run has had
  its whole effect and any other run is undone, and so is no run at all.
\<close>

locale mutating_runner =
  fixes run :: "prepared_call \<Rightarrow> 'x \<Rightarrow> (tool_execution_outcome result \<times> lifecycle_event list) \<times> 'x"
    and sound :: "'x \<Rightarrow> bool"
    and effect :: "prepared_call \<Rightarrow> 'x \<Rightarrow> 'x \<Rightarrow> bool"
    and undone :: "prepared_call \<Rightarrow> 'x \<Rightarrow> 'x \<Rightarrow> bool"
  assumes completed_effect: "sound x \<Longrightarrow> run pc x = ((Inr outcome, events), x') \<Longrightarrow> to_status outcome = ''completed'' \<Longrightarrow> effect pc x x'"
    and otherwise_undone: "sound x \<Longrightarrow> run pc x = ((Inr outcome, events), x') \<Longrightarrow> to_status outcome \<noteq> ''completed'' \<Longrightarrow> undone pc x x'"
    and idle_undone: "undone pc x x"
begin

lemma answered_call:
  assumes "mc_mutate env = run" "sound (ms_tools s)" "sandboxed_call env tool kwargs s = (Inr resp, s')"
    "prepare_tool_call env tool kwargs = Inr pc" "td_capability tool \<noteq> ''read''"
  shows "if is_ok_response resp then effect pc (ms_tools s) (ms_tools s') else undone pc (ms_tools s) (ms_tools s')"
proof -
  consider "ms_tools s' = ms_tools s \<and> \<not> is_ok_response resp"
    | outcome events where "run pc (ms_tools s) = ((Inr outcome, events), ms_tools s')" "is_ok_response resp \<longleftrightarrow> to_status outcome = ''completed''"
    using tool_call_trace [OF assms(3,4)] assms(1,5) by auto
  then show ?thesis
  proof cases
    case 1
    then show ?thesis using idle_undone by simp
  next
    case (2 outcome events)
    then show ?thesis using completed_effect [OF assms(2) 2(1)] otherwise_undone [OF assms(2) 2(1)] by auto
  qed
qed

end

text \<open>Mutating tools run in the coordinator, which emits the lifecycle events.\<close>

definition coordinator_run ::
  "exec_env \<Rightarrow> (prepared_call \<Rightarrow> exec_job) \<Rightarrow> prepared_call \<Rightarrow> exec_state \<Rightarrow> (tool_execution_outcome result \<times> lifecycle_event list) \<times> exec_state" where
  "coordinator_run xe job_of pc x =
     (case execute_mutating_tool xe (job_of pc) x of (r, x') \<Rightarrow> ((r, drop (length (xs_events x)) (xs_events x')), x'))"

definition sound_run :: "exec_env \<Rightarrow> exec_state \<Rightarrow> bool" where
  "sound_run xe x \<longleftrightarrow> one_failure xe \<and> staging_private xe \<and> proper_worker xe \<and> plain_session (xs_session x)
     \<and> (\<forall>p. prefix (fe_staging_root xe) p \<longrightarrow> fx_fs x p = None)"

definition run_undone :: "exec_env \<Rightarrow> exec_job \<Rightarrow> exec_state \<Rightarrow> exec_state \<Rightarrow> bool" where
  "run_undone xe job x x' \<longleftrightarrow> nothing_done xe x x' \<or> outputs_only xe job x x'"

lemma coordinator_outcome:
  assumes "sound_run xe x" "coordinator_run xe job_of pc x = ((Inr outcome, events), x')"
  shows "if to_status outcome = ''completed'' then all_done xe (job_of pc) x x' else run_undone xe (job_of pc) x x'"
proof -
  have "execute_mutating_tool xe (job_of pc) x = (Inr outcome, x')"
    using assms(2) by (auto simp: coordinator_run_def split: prod.splits)
  from run_atomic [OF _ _ _ _ _ this] assms(1) show ?thesis by (auto simp: sound_run_def run_undone_def)
qed

interpretation coordinator: mutating_runner "coordinator_run xe job_of" "sound_run xe" "\<lambda>pc. all_done xe (job_of pc)" "\<lambda>pc. run_undone xe (job_of pc)"
  for xe job_of
proof unfold_locales
  show "run_undone xe (job_of pc) x x" for pc x using nothing_done_quiet [OF quiet_refl] by (simp add: run_undone_def)
qed (use coordinator_outcome in fastforce)+

text \<open>
  C39: A path a tool declares is inside the workspace when the call passes validation, whatever it looks
  like, unless the declaration names suffixes and the path has none of them.
\<close>

theorem declared_paths_contained:
  assumes "prepare_tool_call env tool kwargs = Inr pc" "(k, PStr p) \<in> set (pc_kwargs pc)" "k \<noteq> ''session_id''"
    "dict_get (td_params tool) k = Some spec" "ps_policy spec = Some pol" "pp_suffixes pol = [] \<or> lower (path_suffix p) \<in> set (pp_suffixes pol)"
  shows "\<exists>resolved. mc_resolve env (replace_char backslash_char ''/'' p) = Some resolved \<and> prefix (mc_root env) resolved
    \<and> (pp_must_exist pol \<longrightarrow> mc_exists env resolved)"
proof -
  have "validate_tool_params env tool (pc_kwargs pc) = []" using assms(1) by (auto simp: prepare_tool_call_def Let_def split: if_splits)
  then have "parameter_errors env tool (k, PStr p) = []" using assms(2) by (auto simp: validate_tool_params_def)
  then have "parameter_path_error env k (PStr p) (Some pol) = None"
    using assms(3-5) by (auto simp: parameter_errors_def option_list_def split: option.splits)
  then show ?thesis using assms(6)
    by (auto simp: parameter_path_error_def resolve_safe_path_def split: if_splits option.splits prod.splits)
qed

section \<open>Calls on a small server\<close>

definition demo_mcp_env :: "exec_env \<Rightarrow> string \<Rightarrow> exec_state mcp_env" where
  "demo_mcp_env xe grants =
     \<lparr> mc_net = demo_net_env, mc_access = acl_env, mc_depth = 3, mc_environ = [(''ZAPTRACE_MCP_CAPABILITIES'', grants)],
       mc_http_actor = None, mc_token = None, mc_root = [''w''], mc_resolve = (\<lambda>p. if prefix ''..'' p then Some [''etc''] else Some [''w'', p]),
       mc_exists = (\<lambda>_. True), mc_str = (\<lambda>_. ''x''), mc_float_str = (\<lambda>_. ''120.0''), mc_new_id = (\<lambda>kind n. kind @ ''-'' @ str_of_nat n),
       mc_event_id = str_of_nat, mc_now = str_of_nat, mc_read = (\<lambda>pc x. (Read_Value (PStr ''seen''), x)),
       mc_mutate = coordinator_run xe (\<lambda>pc. demo_job), mc_forget = (\<lambda>_ x. (0, x)) \<rparr>"

definition demo_export :: tool_definition where
  "demo_export = \<lparr> td_name = ''export'', td_params = [(''path'', \<lparr> ps_type = ''string'', ps_policy = Some \<lparr> pp_suffixes = [], pp_must_exist = False \<rparr> \<rparr>)],
     td_capability = ''sandbox-write'', td_has_session = True \<rparr>"

definition demo_server :: "string set \<Rightarrow> exec_state mcp_state" where
  "demo_server gone =
     \<lparr> ms_access = \<lparr> oa_cache = [((''session'', ''s1''), acl_record (''session'', ''s1'') ''mcp-local'' ([], []))], oa_events = [], oa_db = None, oa_tick = 0 \<rparr>,
       ms_sessions = [], ms_destroyed = gone, ms_tick = 0, ms_tools = demo_state False \<rparr>"

definition demo_kwargs :: "string \<Rightarrow> (string, pyval) dict" where
  "demo_kwargs p = [(''session_id'', PStr ''s1''), (''path'', PStr p)]"

definition answered where
  "answered x = (case x of (r, s) \<Rightarrow> (map_sum id (\<lambda>v. (is_ok_response v, error_code v)) r,
     map logged (audit_of_session ''s1'' s), fx_fs (ms_tools s) [''w'', ''out.txt'']))"


abbreviation "demo_call env \<equiv> sandboxed_call env demo_export (demo_kwargs ''out.txt'') (demo_server {})"

abbreviation "granting \<equiv> demo_mcp_env sound_env ''release-export''"

lemma demo_success:
  "answered (demo_call granting) =
     (Inr (True, None), [(''allow'', ''capability grant satisfies sandbox-write''), (''start'', ''isolated mutating tool execution started''),
        (''commit'', ''isolated worker state and staged artifacts committed'')], Some (Regular ''new''))"
  by code_simp

lemma demo_prepared:
  "prepare_tool_call granting demo_export (demo_kwargs ''out.txt'') =
     Inr \<lparr> pc_tool_name = ''export'', pc_tool = demo_export, pc_kwargs = demo_kwargs ''out.txt'', pc_session_id = ''s1'', pc_capability = ''sandbox-write'',
           pc_timeout_s = 120 \<rparr>"
  by code_simp

lemma demo_answer:
  obtains resp s' where "demo_call granting = (Inr resp, s')" "is_ok_response resp" "fx_fs (ms_tools s') [''w'', ''out.txt''] = Some (Regular ''new'')"
proof -
  obtain r s' where rs: "demo_call granting = (r, s')" by fastforce
  have "map_sum id (\<lambda>v. (is_ok_response v, error_code v)) r = Inr (True, None)" "fx_fs (ms_tools s') [''w'', ''out.txt''] = Some (Regular ''new'')"
    using demo_success unfolding rs answered_def by simp_all
  then show thesis using that rs by (cases r) auto
qed

theorem tool_runs_only_authorized_witness:
  "\<exists>pc au. prepare_tool_call granting demo_export (demo_kwargs ''out.txt'') = Inr pc \<and> passed_checks granting pc (demo_server {}) au"
proof -
  obtain resp s' where "demo_call granting = (Inr resp, s')" "is_ok_response resp" using demo_answer by blast
  then show ?thesis using tool_runs_only_authorized [of granting demo_export "demo_kwargs ''out.txt''" "demo_server {}"] by blast
qed


theorem declared_paths_contained_witness:
  "\<exists>pc. prepare_tool_call granting demo_export (demo_kwargs ''out.txt'') = Inr pc
     \<and> (\<exists>resolved. mc_resolve granting (replace_char backslash_char ''/'' ''out.txt'') = Some resolved \<and> prefix [''w''] resolved)"
proof -
  have "mc_root granting = [''w'']" by (simp add: demo_mcp_env_def)
  then show ?thesis
    using declared_paths_contained [OF demo_prepared, of "''path''" "''out.txt''" "\<lparr> ps_type = ''string'', ps_policy = Some \<lparr> pp_suffixes = [], pp_must_exist = False \<rparr> \<rparr>"
        "\<lparr> pp_suffixes = [], pp_must_exist = False \<rparr>"] demo_prepared
    by (auto simp: demo_kwargs_def demo_export_def dict_get_def)
qed

text \<open>A boolean passes for a number.\<close>

theorem boolean_accepted_as_number:
  "parameter_type_error name (PBool b) ''integer'' = None" "parameter_type_error name (PBool b) ''number'' = None"
  by (simp_all add: parameter_type_error_def)

end
