(* ===== verification/Net_Classifier.thy ===== *)
theory Net_Classifier
  imports Design_Model Binary_Float
begin

text \<open>
  \<^verbatim>\<open>src/zaptrace/ee/classifier.py\<close> and the net-class rules of
  \<^verbatim>\<open>src/zaptrace/ee/constraints/net_classes.py\<close>: every net of a design is given a class from its
  name, a voltage read out of the name, and the pins and components it connects. The design is
  passed on with its classes filled in. The name patterns are regular expressions, matched by
  \<open>rests\<close>; the order in which Python walks a set of strings differs between processes and is the
  argument \<open>walk\<close>.
\<close>

section \<open>The patterns of net names\<close>

text \<open>
  A regular expression without repetition. \<open>rests r s\<close> lists what is left of \<open>s\<close> behind each match
  of \<open>r\<close> at its head; \<^verbatim>\<open>re.search\<close> looks for a match at every position, and one alternative of a
  pattern may be anchored at the start or at the end.
\<close>

datatype rx = Lit string | Cls "char list" | Opt rx | Cat rx rx | Alt "rx list"

fun rests :: "rx \<Rightarrow> string \<Rightarrow> string list" where
  "rests (Lit l) s = (if prefix l s then [drop (length l) s] else [])"
| "rests (Cls cs) s = (case s of [] \<Rightarrow> [] | c # t \<Rightarrow> if c \<in> set cs then [t] else [])"
| "rests (Opt r) s = rests r s @ [s]"
| "rests (Cat r q) s = concat (map (rests q) (rests r s))"
| "rests (Alt rs) s = concat (map (\<lambda>r. rests r s) rs)"

record pattern_branch =
  pb_start :: bool
  pb_body :: rx
  pb_end :: bool

definition branch_found :: "string \<Rightarrow> pattern_branch \<Rightarrow> bool" where
  "branch_found s b =
     list_ex (\<lambda>t. list_ex (\<lambda>r. pb_end b \<longrightarrow> r = []) (rests (pb_body b) t))
       (if pb_start b then [s] else suffixes s)"

definition lits :: "string list \<Rightarrow> rx" where
  "lits ls = Alt (map Lit ls)"

definition from_start :: "rx \<Rightarrow> pattern_branch" where
  "from_start r = \<lparr> pb_start = True, pb_body = r, pb_end = False \<rparr>"

definition at_end :: "rx \<Rightarrow> pattern_branch" where
  "at_end r = \<lparr> pb_start = False, pb_body = r, pb_end = True \<rparr>"

definition whole :: "rx \<Rightarrow> pattern_branch" where
  "whole r = \<lparr> pb_start = True, pb_body = r, pb_end = True \<rparr>"

definition somewhere :: "rx \<Rightarrow> pattern_branch" where
  "somewhere r = \<lparr> pb_start = False, pb_body = r, pb_end = False \<rparr>"

definition rx_digit :: rx where
  "rx_digit = Cls ''0123456789''"

definition rx_alnum :: rx where
  "rx_alnum = Cls ''ABCDEFGHIJKLMNOPQRSTUVWXYZ0123456789''"

text \<open>The table, matched against the name in upper case: the search ignores case.\<close>

definition NAME_RULES :: "(pattern_branch list \<times> net_class \<times> string) list" where
  "NAME_RULES =
     [([whole (Alt [lits [''GND'', ''AGND'', ''DGND'', ''PGND'', ''VSS'', ''VSSA'', ''VS S''],
                    Cat (Lit ''GND'') (Cat (Opt (Lit ''_'')) rx_alnum), Lit ''SUB_GND''])],
       CLASS_GROUND, ''ground_pattern''),
      ([from_start (Alt [lits [''GND'', ''AGND'', ''DGND'', ''PGND'', ''VSS'', ''VSSA''],
                         Cat (Lit ''VSS'') (Opt (Lit ''_''))])], CLASS_GROUND, ''ground_prefix''),
      ([from_start (lits [''ANT'', ''RF_'', ''RFIO'', ''BT_ANT'', ''WIFI_ANT''])], CLASS_RF, ''rf_pattern''),
      ([at_end (Cat (Lit ''_ANT'') (Opt (lits [''_P'', ''_N'', ''_OUT''])))], CLASS_RF, ''rf_suffix''),
      ([from_start (lits [''USB'', ''HSD'', ''DP'', ''DM''])], CLASS_DIFFERENTIAL, ''differential_prefix''),
      ([at_end (lits [''_DP'', ''_DM'', ''_P'', ''_N''])], CLASS_DIFFERENTIAL, ''differential_suffix''),
      ([from_start (Cat (Lit ''SDIO_'') (Alt [Lit ''CLK'', Lit ''CMD'', Cat (Lit ''D'') (Cls ''0123'')]))],
       SIGNAL_HIGH, ''sdio_high_speed''),
      ([from_start (Lit ''ETH_''), from_start (Lit ''RMII_'')], SIGNAL_HIGH, ''ethernet''),
      ([from_start (lits [''CLK'', ''MCLK'', ''SCLK''])], SIGNAL_HIGH, ''clock_prefix''),
      ([at_end (Lit ''_CLK''), at_end (Cat (Lit ''_CLK'') rx_digit)], SIGNAL_HIGH, ''clock_suffix''),
      ([from_start (Lit ''HS_'')], SIGNAL_HIGH, ''high_speed_prefix''),
      ([from_start (lits [''VREF'', ''VREFP'', ''VREFN''])], POWER_LOW, ''reference_voltage''),
      ([from_start (lits [''ADC'', ''AIN''])], SIGNAL_ANALOG, ''analog_prefix''),
      ([at_end (Lit ''_ADC''), somewhere (Lit ''_ADC_''), at_end (Lit ''_AIN'')], SIGNAL_ANALOG, ''analog_suffix''),
      ([from_start (lits [''SENSE'', ''SENSEP'', ''SENSEN''])], SIGNAL_ANALOG, ''sense_prefix''),
      ([from_start (lits [''I2C_'', ''I3C_''])], SIGNAL_LOW, ''i2c_prefix''),
      ([whole (lits [''SDA'', ''SCL''])], SIGNAL_LOW, ''i2c_pins''),
      ([from_start (lits [''SPI_'', ''QSPI_''])], SIGNAL_LOW, ''spi_prefix''),
      ([whole (Alt [lits [''MOSI'', ''MISO'', ''SCK'', ''NSS''], Cat (Lit ''CS'') (Opt rx_digit)])],
       SIGNAL_LOW, ''spi_pins''),
      ([from_start (lits [''UART_'', ''RS232_'', ''RS485_''])], SIGNAL_LOW, ''uart_prefix''),
      ([whole (lits [''TX'', ''RX'', ''RTS'', ''CTS'', ''TXD'', ''RXD''])], SIGNAL_LOW, ''uart_pins''),
      ([at_end (Lit ''_TX''), at_end (Lit ''_RX'')], SIGNAL_LOW, ''uart_suffix''),
      ([from_start (lits [''VCC'', ''VDD'', ''VDDIO'', ''VBAT'', ''VBUS'', ''VUSB'', ''VIN'', ''VOUT'', ''VDD_'', ''VCC_''])],
       POWER_MED, ''power_rail''),
      ([from_start (lits [''3V3'', ''3.3V'', ''1V8'', ''1.8V'', ''2V5'', ''2.5V'', ''5V'', ''12V''])],
       POWER_MED, ''voltage_power''),
      ([from_start (lits [''VREF'', ''VREFP'', ''VREFN''])], POWER_LOW, ''reference_voltage''),
      ([at_end (Lit ''_VDD''), at_end (Lit ''_VCC''), at_end (Lit ''_VIN'')], POWER_MED, ''power_suffix'')]"

definition classify_by_name :: "string \<Rightarrow> net_class option" where
  "classify_by_name nm =
     map_option (\<lambda>(_, c, _). c)
       (find (\<lambda>(branches, _). list_ex (branch_found (upper nm)) branches) NAME_RULES)"

section \<open>Voltages in names\<close>

definition VOLTAGE_POWER_MAP :: "(pyfloat \<times> net_class) list" where
  "VOLTAGE_POWER_MAP =
     [(fl (9 / 10), POWER_LOW), (fl (12 / 10), POWER_LOW), (fl (18 / 10), POWER_LOW), (fl (25 / 10), POWER_LOW),
      (fl (33 / 10), POWER_MED), (5, POWER_MED), (12, POWER_HIGH), (24, POWER_HIGH), (48, POWER_HIGH)]"

definition digits_of :: "string \<Rightarrow> string" where
  "digits_of s = takeWhile is_digit s"

definition digit_run :: "string \<Rightarrow> bool" where
  "digit_run ds = (1 \<le> length ds \<and> length ds \<le> 12)"

text \<open>The two alternatives of \<open>_VOLTAGE_PATTERN\<close> at one position: digits before a \<open>V\<close>, or with a \<open>P\<close> among them.\<close>

definition volts_at :: "string \<Rightarrow> string option" where
  "volts_at s =
     (let ds = digits_of s; r = drop (length ds) s in
      if \<not> digit_run ds then None
      else case r of
             [] \<Rightarrow> None
           | c # t \<Rightarrow>
               if upper_char c = CHR ''V'' then Some (ds @ [c])
               else if upper_char c = CHR ''P'' then
                 (let ds' = digits_of t; r' = drop (length ds') t in
                  if \<not> digit_run ds' then None
                  else case r' of
                         [] \<Rightarrow> None
                       | c' # _ \<Rightarrow> if upper_char c' = CHR ''V'' then Some (ds @ [c] @ ds' @ [c']) else None)
               else None)"

fun voltage_search :: "string \<Rightarrow> string option" where
  "voltage_search [] = None"
| "voltage_search (c # s) = (case volts_at (c # s) of Some m \<Rightarrow> Some m | None \<Rightarrow> voltage_search s)"

definition digits_value :: "string \<Rightarrow> int" where
  "digits_value ds = foldl (\<lambda>v c. 10 * v + int (of_char c - 48)) 0 ds"

text \<open>\<^verbatim>\<open>float(cleaned)\<close> of the digits before and after the point, which is \<open>P\<close> in the name.\<close>

definition volts_value :: "string \<Rightarrow> pyfloat" where
  "volts_value raw =
     (let cleaned = butlast raw; before = digits_of cleaned; frac = drop (Suc (length before)) cleaned
      in fl (of_int (digits_value (before @ frac)) / 10 ^ length frac))"

definition extract_voltage :: "string \<Rightarrow> pyfloat option" where
  "extract_voltage nm = map_option volts_value (voltage_search nm)"

definition classify_power_by_voltage :: "string \<Rightarrow> net_class option" where
  "classify_power_by_voltage nm =
     map_option (\<lambda>v. case find (\<lambda>(thresh, _). v \<le> fl (thresh + fl (5 / 100))) VOLTAGE_POWER_MAP of
                       Some (_, nc) \<Rightarrow> nc
                     | None \<Rightarrow> POWER_HIGH)
       (extract_voltage nm)"

section \<open>Pins and components\<close>

definition collect_connected_types :: "design \<Rightarrow> net \<Rightarrow> string list \<times> string list" where
  "collect_connected_types d n =
     (let found = option_list (map (\<lambda>nd. map_option (\<lambda>c. (c, nd)) (get_component d (node_component_ref nd))) (net_nodes n))
      in (dedup (option_list (map (\<lambda>(c, nd). map_option (\<lambda>p. pin_type_value (pin_type p))
                                              (dict_get (comp_pins c) (node_pin_name nd))) found)),
          dedup (map (\<lambda>(c, nd). lower (comp_type c)) found)))"

fun classify_component_types :: "string list \<Rightarrow> net_class option" where
  "classify_component_types [] = None"
| "classify_component_types (t # ts) =
     (if contains_any [''antenna'', ''rf''] t then Some CLASS_RF
      else if contains_any [''usb'', ''hdmi'', ''ethernet''] t then Some CLASS_DIFFERENTIAL
      else if contains_any [''adc'', ''analog''] t then Some SIGNAL_ANALOG
      else classify_component_types ts)"

definition classify_power_pin_types :: "string list \<Rightarrow> net_class" where
  "classify_power_pin_types pts =
     (if ''power'' \<in> set pts \<and> ''output'' \<in> set pts then POWER_MED
      else if ''power'' \<in> set pts then POWER_LOW
      else SIGNAL_LOW)"

definition classify_by_pin_types ::
  "(string list \<Rightarrow> string list) \<Rightarrow> design \<Rightarrow> string \<Rightarrow> string \<Rightarrow> net_class" where
  "classify_by_pin_types walk d nid nm =
     (case dict_get (des_nets d) nid of
        None \<Rightarrow> SIGNAL_LOW
      | Some n \<Rightarrow>
          if net_nodes n = [] then SIGNAL_LOW
          else
            (let (pts, cts) = collect_connected_types d n in
             if ''ground'' \<in> set pts
                \<or> (''power'' \<in> set pts \<and> (prefix ''GND'' (upper nm) \<or> prefix ''VSS'' (upper nm)))
             then CLASS_GROUND
             else case classify_component_types (walk cts) of
                    Some c \<Rightarrow> c
                  | None \<Rightarrow> classify_power_pin_types pts))"

section \<open>The classifier\<close>

definition classify_net :: "(string list \<Rightarrow> string list) \<Rightarrow> design \<Rightarrow> string \<Rightarrow> net \<Rightarrow> net_class" where
  "classify_net walk d nid n =
     (let nm = strip (net_name n);
          by_name = classify_by_name nm;
          refined = (if by_name \<in> {Some POWER_LOW, Some POWER_MED, Some POWER_HIGH, None}
                     then (case classify_power_by_voltage nm of Some v \<Rightarrow> Some v | None \<Rightarrow> by_name)
                     else by_name)
      in case refined of Some c \<Rightarrow> c | None \<Rightarrow> classify_by_pin_types walk d nid nm)"

definition classes_of :: "design \<Rightarrow> (string, net_class) dict" where
  "classes_of d = (case des_net_classes d of None \<Rightarrow> [] | Some cs \<Rightarrow> cs)"

definition classify_step ::
  "(string list \<Rightarrow> string list) \<Rightarrow> design \<Rightarrow> string \<times> net \<Rightarrow> (string, net_class) dict \<Rightarrow> (string, net_class) dict" where
  "classify_step walk d entry cs =
     (let (nid, n) = entry in
      if nid \<in> set (dict_keys cs) then cs else dict_set nid (classify_net walk d nid n) cs)"

definition classify_design :: "(string list \<Rightarrow> string list) \<Rightarrow> design \<Rightarrow> design" where
  "classify_design walk d = d\<lparr> des_net_classes := Some (fold (classify_step walk d) (des_nets d) (classes_of d)) \<rparr>"

definition get_net_class :: "(string list \<Rightarrow> string list) \<Rightarrow> string \<Rightarrow> design \<Rightarrow> net_class \<times> design" where
  "get_net_class walk nid d =
     (let d' = (if des_net_classes d = None \<or> nid \<notin> set (dict_keys (classes_of d)) then classify_design walk d else d)
      in (case dict_get (classes_of d') nid of Some c \<Rightarrow> c | None \<Rightarrow> SIGNAL_LOW, d'))"

text \<open>The coarse type of a net, from the same name rules.\<close>

definition net_class_to_net_type :: "net_class \<Rightarrow> net_type" where
  "net_class_to_net_type c =
     (if c = CLASS_GROUND then NET_GROUND
      else if c \<in> {POWER_LOW, POWER_MED, POWER_HIGH} then NET_POWER
      else NET_SIGNAL)"

definition classify_net_type :: "string \<Rightarrow> net_type" where
  "classify_net_type nm =
     (let name = strip nm in
      case classify_by_name name of
        None \<Rightarrow> if volts_at name \<noteq> None \<and> classify_power_by_voltage name \<noteq> None then NET_POWER else NET_SIGNAL
      | Some c \<Rightarrow> net_class_to_net_type c)"

definition assign_net_types :: "design \<Rightarrow> design" where
  "assign_net_types d =
     d\<lparr> des_nets := map (\<lambda>(k, n). (k, if net_type n = NET_SIGNAL
                                       then n\<lparr> net_type := classify_net_type (net_name n) \<rparr> else n)) (des_nets d) \<rparr>"

fun net_class_value :: "net_class \<Rightarrow> string" where
  "net_class_value SIGNAL_LOW = ''signal_low''"
| "net_class_value SIGNAL_HIGH = ''signal_high''"
| "net_class_value SIGNAL_ANALOG = ''signal_analog''"
| "net_class_value POWER_LOW = ''power_low''"
| "net_class_value POWER_MED = ''power_med''"
| "net_class_value POWER_HIGH = ''power_high''"
| "net_class_value CLASS_GROUND = ''ground''"
| "net_class_value CLASS_DIFFERENTIAL = ''differential''"
| "net_class_value CLASS_RF = ''rf''"

definition summarize_step ::
  "design \<Rightarrow> string \<times> net_class \<Rightarrow> (string, string list) dict \<Rightarrow> (string, string list) dict" where
  "summarize_step d entry summary =
     (let (nid, c) = entry; k = net_class_value c;
          listed = (case dict_get summary k of None \<Rightarrow> [] | Some xs \<Rightarrow> xs);
          name = (case dict_get (des_nets d) nid of Some n \<Rightarrow> net_name n | None \<Rightarrow> nid)
      in dict_set k (listed @ [name]) summary)"

definition summarize_classification ::
  "(string list \<Rightarrow> string list) \<Rightarrow> design \<Rightarrow> (string, string list) dict \<times> design" where
  "summarize_classification walk d =
     (let d' = (if des_net_classes d = None then classify_design walk d else d)
      in (fold (summarize_step d') (classes_of d') [], d'))"

section \<open>The rules of a class\<close>

record net_class_rule =
  ncr_trace_width :: pyfloat
  ncr_clearance :: pyfloat
  ncr_max_vias :: int
  ncr_priority :: int
  ncr_description :: string
  ncr_diff_pair_gap :: "pyfloat option"
  ncr_max_parallel_length :: "pyfloat option"
  ncr_impedance :: "pyfloat option"

definition class_rule :: "rat \<Rightarrow> rat \<Rightarrow> int \<Rightarrow> int \<Rightarrow> string \<Rightarrow> net_class_rule" where
  "class_rule w c v p text =
     \<lparr> ncr_trace_width = fl w, ncr_clearance = fl c, ncr_max_vias = v, ncr_priority = p, ncr_description = text,
       ncr_diff_pair_gap = None, ncr_max_parallel_length = None, ncr_impedance = None \<rparr>"

definition en_dash :: string where
  "en_dash = [char_of (226::nat), char_of (128::nat), char_of (147::nat)]"

definition ohm_sign :: string where
  "ohm_sign = [char_of (206::nat), char_of (169::nat)]"

definition CLASS_RULES :: "(net_class, net_class_rule) dict" where
  "CLASS_RULES =
     [(SIGNAL_LOW, class_rule (20 / 100) (15 / 100) 2 5 (''GPIO, I2C, UART, SPI <10MHz '' @ em_dash @ '' standard routing'')),
      (SIGNAL_HIGH, class_rule (25 / 100) (20 / 100) 2 4
         (''>10MHz digital '' @ em_dash @ '' tighter clearance, impedance awareness'')),
      (SIGNAL_ANALOG, class_rule (30 / 100) (25 / 100) 1 3
         (''Analog signals '' @ em_dash @ '' shielding, no vias under sensitive paths'')),
      (POWER_LOW, class_rule (30 / 100) (20 / 100) 4 2 (''<100mA power '' @ em_dash @ '' standard width'')),
      (POWER_MED, class_rule (50 / 100) (20 / 100) 4 2
         (''100'' @ en_dash @ ''500mA power '' @ em_dash @ '' medium width'')),
      (POWER_HIGH, class_rule 1 (30 / 100) 8 1
         (''>500mA power '' @ em_dash @ '' width per IPC-2221, thermal relief'')),
      (CLASS_GROUND, class_rule (50 / 100) (15 / 100) 99 0 (''Ground '' @ em_dash @ '' copper pour flood preferred'')),
      (CLASS_DIFFERENTIAL, (class_rule (20 / 100) (15 / 100) 0 3
           (''Differential pair (USB, HDMI) '' @ em_dash @ '' length matched, coupled''))
         \<lparr> ncr_diff_pair_gap := Some (fl (40 / 100)), ncr_max_parallel_length := Some 50 \<rparr>),
      (CLASS_RF, class_rule (30 / 100) (30 / 100) 0 3
         (''50'' @ ohm_sign @ '' RF '' @ em_dash @ '' impedance controlled, no vias in signal path''))]"

definition get_rule :: "(net_class, net_class_rule) dict \<Rightarrow> net_class \<Rightarrow> net_class_rule result" where
  "get_rule rules c = (case dict_get rules c of Some r \<Rightarrow> Inr r | None \<Rightarrow> Inl (KeyError (net_class_value c)))"

definition set_rule ::
  "net_class \<Rightarrow> net_class_rule \<Rightarrow> (net_class, net_class_rule) dict \<Rightarrow> (net_class, net_class_rule) dict" where
  "set_rule c r rules = dict_set c r rules"

section \<open>Lemmas\<close>

lemma classify_fold_get:
  "dict_get (fold (classify_step walk d) ns cs) k =
     (case dict_get cs k of Some c \<Rightarrow> Some c | None \<Rightarrow> map_option (classify_net walk d k) (dict_get ns k))"
proof (induction ns arbitrary: cs)
  case Nil
  then show ?case by (cases "dict_get cs k") simp_all
next
  case (Cons entry ns)
  obtain j n where entry: "entry = (j, n)" by fastforce
  have first: "dict_get (entry # ns) k = (if k = j then Some n else dict_get ns k)"
    by (auto simp: entry dict_get_def)
  have kept: "dict_get (classify_step walk d entry cs) k =
      (if k = j \<and> dict_get cs k = None then Some (classify_net walk d j n) else dict_get cs k)"
    by (auto simp: entry classify_step_def pydict.get_put pydict.set_keys)
  show ?case unfolding fold_simps comp_def Cons.IH kept first by (auto split: option.splits)
qed

lemma classified [simp]:
  "dict_get (classes_of (classify_design walk d)) k =
     (case dict_get (classes_of d) k of
        Some c \<Rightarrow> Some c
      | None \<Rightarrow> map_option (classify_net walk d k) (dict_get (des_nets d) k))"
  by (simp add: classify_design_def classes_of_def classify_fold_get)

lemma classify_steps_settled:
  "set (map fst ns) \<subseteq> set (dict_keys cs) \<Longrightarrow> fold (classify_step walk d) ns cs = cs"
  by (induction ns) (auto simp: classify_step_def)

lemma classify_settled:
  assumes "des_net_classes d \<noteq> None" "set (dict_keys (des_nets d)) \<subseteq> set (dict_keys (classes_of d))"
  shows "classify_design walk d = d"
  using assms by (auto simp: classify_design_def classify_steps_settled classes_of_def dict_keys_def)

lemma net_keys_classified:
  "set (dict_keys (classes_of (classify_design walk d))) = set (dict_keys (classes_of d)) \<union> set (dict_keys (des_nets d))"
  by (auto simp: pydict.set_keys split: option.splits)

lemma classify_design_fields [simp]:
  "des_nets (classify_design walk d) = des_nets d" "des_components (classify_design walk d) = des_components d"
  "des_routing (classify_design walk d) = des_routing d" "des_placement (classify_design walk d) = des_placement d"
  "des_board (classify_design walk d) = des_board d" "des_board_def (classify_design walk d) = des_board_def d"
  "des_copper_pours (classify_design walk d) = des_copper_pours d" "des_meta (classify_design walk d) = des_meta d"
  "des_net_classes (classify_design walk d) \<noteq> None"
  by (simp_all add: classify_design_def)

lemma get_net_class_eq:
  "get_net_class walk nid d =
     (case dict_get (classes_of d) nid of
        Some c \<Rightarrow> (c, d)
      | None \<Rightarrow> (case dict_get (des_nets d) nid of Some n \<Rightarrow> classify_net walk d nid n | None \<Rightarrow> SIGNAL_LOW,
                 classify_design walk d))"
proof (cases "dict_get (classes_of d) nid")
  case None
  then show ?thesis by (auto simp: get_net_class_def pydict.set_keys Let_def split: option.splits)
next
  case (Some c)
  then have "des_net_classes d \<noteq> None" by (auto simp: classes_of_def split: option.splits)
  with Some show ?thesis by (auto simp: get_net_class_def pydict.set_keys Let_def)
qed

section \<open>Properties\<close>

text \<open>
  C40: Classifying a design keeps every class that is already there, gives every other net the class of
  its own name, pins and components, whatever the order of the nets, and adds nothing else;
  classifying again changes nothing, and looking a class up gives that class.
\<close>

theorem classification_exact:
  "dict_get (classes_of (classify_design walk d)) k =
     (case dict_get (classes_of d) k of
        Some c \<Rightarrow> Some c
      | None \<Rightarrow> map_option (classify_net walk d k) (dict_get (des_nets d) k))
   \<and> classify_design walk d = d\<lparr> des_net_classes := des_net_classes (classify_design walk d) \<rparr>
   \<and> classify_design walk (classify_design walk d) = classify_design walk d
   \<and> fst (get_net_class walk k d) =
       (case dict_get (classes_of (classify_design walk d)) k of Some c \<Rightarrow> c | None \<Rightarrow> SIGNAL_LOW)"
proof -
  have "classify_design walk (classify_design walk d) = classify_design walk d"
    by (rule classify_settled) (simp_all add: net_keys_classified)
  moreover have "classify_design walk d = d\<lparr> des_net_classes := des_net_classes (classify_design walk d) \<rparr>"
    by (simp add: classify_design_def)
  ultimately show ?thesis by (auto simp: get_net_class_eq split: option.splits)
qed

text \<open>
  A voltage with a decimal point is read from behind the point: a 1.8 V rail counts as 8 V and so as
  high power, while its other spelling is low power.
\<close>

theorem decimal_voltage_misread:
  "extract_voltage ''1.8V'' = Some 8 \<and> extract_voltage ''1.25V'' = Some 25 \<and> extract_voltage ''1V8'' = Some 1
   \<and> classify_net walk d nid (mk_net nid ''1.8V'' NET_POWER []) = POWER_HIGH
   \<and> classify_net walk d nid (mk_net nid ''1V8'' NET_POWER []) = POWER_LOW"
proof -
  have v: "extract_voltage ''1.8V'' = Some 8" "extract_voltage ''1.25V'' = Some 25" "extract_voltage ''1V8'' = Some 1"
    by code_simp+
  have "strip ''1.8V'' = ''1.8V''" "strip ''1V8'' = ''1V8''" "classify_by_name ''1.8V'' = Some POWER_MED"
    "classify_by_name ''1V8'' = Some POWER_MED" "classify_power_by_voltage ''1.8V'' = Some POWER_HIGH"
    "classify_power_by_voltage ''1V8'' = Some POWER_LOW"
    by code_simp+
  then show ?thesis using v by (simp add: classify_net_def mk_net_def)
qed

text \<open>The class of a net that joins an antenna and a USB part depends on the order a set is walked in.\<close>

definition antenna_usb_design :: design where
  "antenna_usb_design =
     mk_design ''mixed'' [(''A1'', mk_component ''A1'' ''A1'' ''antenna''), (''J1'', mk_component ''J1'' ''J1'' ''usb'')]
       [(''n'', mk_net ''n'' ''LINK'' NET_SIGNAL [mk_node ''A1'' ''1'', mk_node ''J1'' ''1''])]"

theorem class_depends_on_set_order:
  "fst (get_net_class (\<lambda>ts. ts) ''n'' antenna_usb_design) = CLASS_RF
   \<and> fst (get_net_class rev ''n'' antenna_usb_design) = CLASS_DIFFERENTIAL"
  by code_simp

text \<open>The coarse type of a net and its class disagree on a name with a voltage inside it.\<close>

theorem net_type_disagrees:
  "classify_net walk d nid (mk_net nid ''EN_5V'' NET_SIGNAL []) = POWER_MED \<and> classify_net_type ''EN_5V'' = NET_SIGNAL"
proof -
  have "strip ''EN_5V'' = ''EN_5V''" "classify_by_name ''EN_5V'' = None"
    "classify_power_by_voltage ''EN_5V'' = Some POWER_MED" "classify_net_type ''EN_5V'' = NET_SIGNAL"
    by code_simp+
  then show ?thesis by (simp add: classify_net_def mk_net_def)
qed

end
