(* ===== verification/Float_Format.thy ===== *)
theory Float_Format
  imports Zap_Prelude Binary_Float
begin

text \<open>
  More of Python's \<^verbatim>\<open>float\<close>: the square root of \<^verbatim>\<open>math.sqrt\<close>, rounded correctly as the floating-point
  standard demands, and the text of \<^verbatim>\<open>f"{x:.3f}"\<close>.
\<close>

section \<open>Rounding leaves doubles alone\<close>

lemma scale2_powi: "scale2 k = 2 powi k"
  by (simp add: scale2_def power_int_def inverse_eq_divide power_one_over)

lemma bits_bounds: "0 < n \<Longrightarrow> 0 < bits n \<and> 2 ^ nat (bits n - 1) \<le> n \<and> n < 2 ^ nat (bits n)"
proof (induction n rule: bits.induct)
  case (1 n)
  then have b: "bits n = 1 + bits (n div 2)" by (subst bits.simps) simp
  show ?case
  proof (cases "n = 1")
    case True
    then show ?thesis by (simp add: b bits.simps)
  next
    case False
    then have "0 < n div 2" using 1(2) by linarith
    then have ih: "0 < bits (n div 2)" "2 ^ nat (bits (n div 2) - 1) \<le> n div 2" "n div 2 < 2 ^ nat (bits (n div 2))"
      using 1 by auto
    define m where "m = nat (bits (n div 2) - 1)"
    have "nat (bits n - 1) = Suc m" "nat (bits (n div 2)) = Suc m" "nat (bits n) = Suc (Suc m)"
      using ih(1) by (simp_all add: b m_def)
    then show ?thesis using ih b by (simp add: m_def [symmetric]) linarith
  qed
qed

lemma bits_powi:
  assumes "0 < n"
  shows "2 powi (bits n - 1) \<le> (of_int n :: rat)" "(of_int n :: rat) < 2 powi bits n"
proof -
  have b: "0 < bits n" "2 ^ nat (bits n - 1) \<le> n" "n < 2 ^ nat (bits n)" using bits_bounds [OF assms] by auto
  have "of_int (2 ^ nat (bits n - 1)) \<le> (of_int n :: rat)" "(of_int n :: rat) < of_int (2 ^ nat (bits n))"
    using b(2,3) by (simp_all only: of_int_le_iff of_int_less_iff)
  then show "2 powi (bits n - 1) \<le> (of_int n :: rat)" "(of_int n :: rat) < 2 powi bits n"
    using b(1) by (simp_all add: power_int_def)
qed

text \<open>The exponent \<open>fl\<close> computes is the one of the leading bit.\<close>

lemma leading_exponent:
  assumes "0 < x" "quotient_of x = (n, d)"
  shows "2 powi (bits n - bits d - 1) < x" "x < 2 powi (bits n - bits d + 1)"
proof -
  have x: "x = of_int n / of_int d" and d: "0 < d"
    using assms(2) by (simp_all add: quotient_of_div quotient_of_denom_pos)
  then have n: "0 < n" using assms(1) by (simp add: zero_less_divide_iff)
  note bn = bits_powi [OF n] and bd = bits_powi [OF d]
  have "(2 :: rat) powi (bits n - bits d - 1) * of_int d < 2 powi (bits n - bits d - 1) * 2 powi bits d"
    using bd(2) by simp
  also have "\<dots> = 2 powi (bits n - 1)" by (simp add: power_int_add [symmetric])
  also have "\<dots> \<le> of_int n" by (rule bn(1))
  finally show "2 powi (bits n - bits d - 1) < x" using d by (simp add: x pos_less_divide_eq)
  have "of_int n < (2 :: rat) powi bits n" by (rule bn(2))
  also have "\<dots> = 2 powi (bits n - bits d + 1) * 2 powi (bits d - 1)" by (simp add: power_int_add [symmetric])
  also have "\<dots> \<le> 2 powi (bits n - bits d + 1) * of_int d"
    using bd(1) by simp
  finally show "x < 2 powi (bits n - bits d + 1)" using d by (simp add: x pos_divide_less_eq)
qed

lemma round_half_even_of_int [simp]: "round_half_even (of_int z) = z"
  by (simp add: round_half_even_def)

theorem fl_double:
  assumes "\<bar>m\<bar> < 2 ^ 53"
  shows "fl (of_int m / 2 ^ s) = of_int m / 2 ^ s"
proof (cases "m = 0")
  case True
  then show ?thesis by (simp add: fl_def)
next
  case False
  define x :: rat where "x = of_int m / 2 ^ s"
  define y where "y = \<bar>x\<bar>"
  have x: "x \<noteq> 0" and y: "0 < y" "y = of_int \<bar>m\<bar> / 2 ^ s" using False by (simp_all add: x_def y_def)
  obtain n d where q: "quotient_of y = (n, d)" by fastforce
  define k0 where "k0 = bits n - bits d"
  define k where "k = (if y < scale2 k0 then k0 - 1 else k0)"
  have "2 powi (k0 - 1) < y" using leading_exponent(1) [OF y(1) q] by (simp add: k0_def)
  then have k: "2 powi k \<le> y" by (auto simp: k_def scale2_powi)
  have "(2 :: rat) powi (k + int s) \<le> of_int \<bar>m\<bar>"
  proof -
    have "(2 :: rat) powi (k + int s) = 2 powi k * 2 ^ s" by (simp add: power_int_add)
    also have "\<dots> \<le> y * 2 ^ s" using k by simp
    finally show ?thesis by (simp add: y(2))
  qed
  also have "(of_int \<bar>m\<bar> :: rat) < of_int (2 ^ 53)" using assms by (simp only: of_int_less_iff)
  also have "(of_int (2 ^ 53) :: rat) = 2 powi 53" by simp
  finally have "(2 :: rat) powi (k + int s) < 2 powi 53" .
  then have e: "k + int s < 53" by (metis not_less one_le_numeral power_int_increasing)
  define z where "z = \<bar>m\<bar> * 2 ^ nat (52 - k - int s)"
  have "y * scale2 (52 - k) = of_int \<bar>m\<bar> * (2 powi (52 - k) / 2 powi int s)"
    by (simp add: y(2) scale2_powi)
  also have "\<dots> = of_int \<bar>m\<bar> * 2 powi (52 - k - int s)"
    by (simp add: power_int_diff)
  also have "\<dots> = of_int z" using e by (simp add: z_def power_int_def)
  finally have scaled: "y * scale2 (52 - k) = of_int z" .
  have "fl x = sgn x * (of_int (round_half_even (y * scale2 (52 - k))) * scale2 (k - 52))"
    using x q by (cases "y < scale2 k0") (simp_all add: fl_def y_def [symmetric] k0_def [symmetric] k_def Let_def)
  also have "\<dots> = sgn x * (y * (scale2 (52 - k) * scale2 (k - 52)))"
    by (simp only: scaled round_half_even_of_int mult.assoc [symmetric])
  also have "\<dots> = sgn x * y" by (simp add: scale2_powi power_int_add [symmetric])
  finally show ?thesis by (simp add: y_def x_def [symmetric] sgn_mult_abs)
qed

lemma fl_of_int: "\<bar>m\<bar> < 2 ^ 53 \<Longrightarrow> fl (of_int m) = of_int m"
  using fl_double [of m 0] by simp

lemma fl_numerals [simp]:
  "fl 0 = 0" "fl 1 = 1"
  "(numeral w :: int) < 2 ^ 53 \<Longrightarrow> fl (numeral w) = numeral w"
  "(numeral w :: int) < 2 ^ 53 \<Longrightarrow> fl (- numeral w) = - numeral w"
  using fl_of_int [of 0] fl_of_int [of 1] fl_of_int [of "numeral w"] fl_of_int [of "- numeral w"] by simp_all

section \<open>Square roots\<close>

function isqrt :: "int \<Rightarrow> int" where
  "isqrt n = (if n \<le> 0 then 0 else let r = 2 * isqrt (n div 4) in if (r + 1) * (r + 1) \<le> n then r + 1 else r)"
  by auto
termination
  by (relation "measure nat") auto

declare isqrt.simps [simp del]

lemma isqrt_bounds: "0 \<le> n \<Longrightarrow> isqrt n * isqrt n \<le> n \<and> n < (isqrt n + 1) * (isqrt n + 1) \<and> 0 \<le> isqrt n"
proof (induction n rule: isqrt.induct)
  case (1 n)
  show ?case
  proof (cases "n = 0")
    case True
    then show ?thesis by (simp add: isqrt.simps)
  next
    case False
    define q where "q = isqrt (n div 4)"
    have ih: "q * q \<le> n div 4" "n div 4 < (q + 1) * (q + 1)" "0 \<le> q"
      using 1 False by (auto simp: q_def)
    have lower: "(2 * q) * (2 * q) \<le> n"
      using ih(1) by (simp add: algebra_simps)
    have "n < 4 * ((q + 1) * (q + 1))"
      using ih(2) by (simp add: algebra_simps)
    then have upper: "n < (2 * q + 1 + 1) * (2 * q + 1 + 1)"
      by (simp add: algebra_simps)
    have root: "isqrt n = (if (2 * q + 1) * (2 * q + 1) \<le> n then 2 * q + 1 else 2 * q)"
      using False 1(2) by (subst isqrt.simps) (simp add: q_def Let_def)
    show ?thesis
      using lower upper ih(3) unfolding root by auto
  qed
qed

text \<open>
  The exact root lies between two integers of at least 54 bits, scaled; half way between them rounds
  like the root itself.
\<close>

definition fl_sqrt :: "rat \<Rightarrow> rat" where
  "fl_sqrt x =
     (if x \<le> 0 then 0
      else let (n, d) = quotient_of x; s = nat ((112 - (bits n - bits d)) div 2);
               y = x * 4 ^ s; r = isqrt \<lfloor>y\<rfloor>
           in if of_int (r * r) = y then fl (of_int r / 2 ^ s) else fl (of_int (2 * r + 1) / (2 * 2 ^ s)))"

lemma fl_sqrt_0 [simp]: "fl_sqrt 0 = 0"
  by (simp add: fl_sqrt_def)

lemma isqrt_square: "0 \<le> r \<Longrightarrow> isqrt (r * r) = r"
proof -
  assume r: "0 \<le> r"
  define q where "q = isqrt (r * r)"
  have q: "q * q \<le> r * r" "r * r < (q + 1) * (q + 1)" "0 \<le> q" using isqrt_bounds [of "r * r"] by (auto simp: q_def)
  have "q \<le> r" using q(1) r by (metis power2_eq_square power2_le_imp_le)
  moreover have "r < q + 1" using mult_mono [of "q + 1" r "q + 1" r] q(2,3) r by linarith
  ultimately have "q = r" by linarith
  then show ?thesis unfolding q_def .
qed

lemma fl_sqrt_square:
  assumes "0 \<le> r" "r < 2 ^ 53"
  shows "fl_sqrt (of_int (r * r)) = of_int r"
proof (cases "r = 0")
  case True
  then show ?thesis by simp
next
  case False
  define x :: rat where "x = of_int (r * r)"
  define s where "s = nat ((112 - (bits (fst (quotient_of x)) - bits (snd (quotient_of x)))) div 2)"
  have "x * 4 ^ s = of_int ((r * 2 ^ s) * (r * 2 ^ s))"
    by (simp add: x_def power_mult_distrib [symmetric] algebra_simps)
  then have "isqrt \<lfloor>x * 4 ^ s\<rfloor> = r * 2 ^ s" "x * 4 ^ s = of_int ((r * 2 ^ s) * (r * 2 ^ s))"
    using assms(1) isqrt_square [of "r * 2 ^ s"] by (simp_all only: floor_of_int) simp
  moreover have "0 < r" using False assms(1) by simp
  then have "0 < r * r" by simp
  then have "\<not> x \<le> 0" by (simp only: x_def of_int_le_0_iff not_le)
  moreover have "fl (of_int (r * 2 ^ s) / 2 ^ s) = of_int r" using fl_of_int [of r] assms by simp
  ultimately have "fl_sqrt x = of_int r"
    by (simp add: fl_sqrt_def s_def [symmetric] Let_def case_prod_beta)
  then show ?thesis unfolding x_def .
qed

section \<open>Fixed-point text\<close>

definition zero_padded :: "nat \<Rightarrow> string \<Rightarrow> string" where
  "zero_padded k s = replicate (k - length s) CHR ''0'' @ s"

definition format_fixed :: "nat \<Rightarrow> rat \<Rightarrow> string" where
  "format_fixed k x =
     (let n = nat (round_half_even (\<bar>x\<bar> * 10 ^ k))
      in (if x < 0 then ''-'' else []) @ str_of_nat (n div 10 ^ k)
         @ (if k = 0 then [] else ''.'' @ zero_padded k (str_of_nat (n mod 10 ^ k))))"

end
