(* ===== verification/DRC_Engine.thy ===== *)
theory DRC_Engine
  imports Net_Classifier Net_Identity Float_Format
begin

text \<open>
  \<^verbatim>\<open>src/zaptrace/ee/drc/engine.py\<close>: the design rule checks on a placed and routed design, one
  definition per check, and \<open>DRCEngine.run\<close>, which runs them in the order of \<open>_ALL_CHECKS\<close>, records a check
  that raises as an error and stores the result in the design. Checks that classify nets or rewrite
  the net references of the routing return the changed design. Coordinates are doubles, computed
  with \<open>fl\<close>. The power and arc-cosine functions of the C library, the texts of a float and of a
  net, and the order of a set of strings are arguments.
\<close>

record drc_env =
  de_pow :: "pyfloat \<Rightarrow> pyfloat \<Rightarrow> pyfloat"
  de_acos :: "pyfloat \<Rightarrow> pyfloat"
  de_repr :: "pyfloat \<Rightarrow> string"
  de_net_text :: "net \<Rightarrow> string"
  de_walk :: "string list \<Rightarrow> string list"

type_synonym drc_check = "design \<Rightarrow> drc_violation list result \<times> design"

definition drc_viol ::
  "string \<Rightarrow> drc_severity \<Rightarrow> string \<Rightarrow> string option \<Rightarrow> string option \<Rightarrow> string option \<Rightarrow> drc_violation" where
  "drc_viol rid sev msg loc nid cid =
     \<lparr> drcv_rule_id = rid, drcv_severity = sev, drcv_message = msg, drcv_location = loc, drcv_net_id = nid,
       drcv_component_id = cid \<rparr>"

text \<open>A check that neither raises nor changes the design.\<close>

definition plain_check :: "(design \<Rightarrow> drc_violation list) \<Rightarrow> drc_check" where
  "plain_check f d = (Inr (f d), d)"

section \<open>Geometry\<close>

definition vec :: "point \<Rightarrow> point \<Rightarrow> point" where
  "vec a b = (fl (fst b - fst a), fl (snd b - snd a))"

definition vec_dot :: "point \<Rightarrow> point \<Rightarrow> pyfloat" where
  "vec_dot u v = fl (fl (fst u * fst v) + fl (snd u * snd v))"

definition vec_norm :: "drc_env \<Rightarrow> point \<Rightarrow> pyfloat" where
  "vec_norm env u = fl_sqrt (fl (de_pow env (fst u) 2 + de_pow env (snd u) 2))"

definition point_dist :: "drc_env \<Rightarrow> point \<Rightarrow> point \<Rightarrow> pyfloat" where
  "point_dist env a b = fl_sqrt (fl (de_pow env (fl (fst b - fst a)) 2 + de_pow env (fl (snd b - snd a)) 2))"

definition clamp01 :: "pyfloat \<Rightarrow> pyfloat" where
  "clamp01 t = max 0 (min 1 t)"

definition along :: "point \<Rightarrow> pyfloat \<Rightarrow> point \<Rightarrow> point" where
  "along p t u = (fl (fst p + fl (t * fst u)), fl (snd p + fl (t * snd u)))"

definition point_segment_dist :: "drc_env \<Rightarrow> point \<Rightarrow> point \<Rightarrow> point \<Rightarrow> pyfloat" where
  "point_segment_dist env p a b =
     (let ab = vec a b; ap = vec a p;
          t = (if 0 < vec_dot ab ab then fl (vec_dot ap ab / vec_dot ab ab) else 0)
      in point_dist env p (along a (clamp01 t) ab))"

definition segment_segment_distance :: "drc_env \<Rightarrow> point \<Rightarrow> point \<Rightarrow> point \<Rightarrow> point \<Rightarrow> pyfloat" where
  "segment_segment_distance env p1 p2 q1 q2 =
     (let u = vec p1 p2; v = vec q1 q2; w = vec p1 q1;
          a = vec_dot u u; b = vec_dot u v; c = vec_dot v v; d = vec_dot u w; e = vec_dot v w;
          D = fl (fl (a * c) - fl (b * b))
      in if \<bar>D\<bar> < fl (1 / 10 ^ 12)
         then min (min (min (point_segment_dist env p1 q1 q2) (point_segment_dist env p2 q1 q2))
                    (point_segment_dist env q1 p1 p2)) (point_segment_dist env q2 p1 p2)
         else
           (let sc = clamp01 (fl (fl (fl (b * e) - fl (c * d)) / D));
                tc = clamp01 (fl (fl (fl (a * e) - fl (b * d)) / D))
            in point_dist env (along p1 sc u) (along q1 tc v)))"

definition segment_min_distance :: "drc_env \<Rightarrow> trace_segment \<Rightarrow> trace_segment \<Rightarrow> pyfloat" where
  "segment_min_distance env s1 s2 = segment_segment_distance env (ts_start s1) (ts_end s1) (ts_start s2) (ts_end s2)"

definition trace_segments :: "design \<Rightarrow> trace_segment list" where
  "trace_segments d = (case des_routing d of None \<Rightarrow> [] | Some r \<Rightarrow> rr_traces r)"

fun pairs :: "'a list \<Rightarrow> ('a \<times> 'a) list" where
  "pairs [] = []"
| "pairs (x # xs) = map (Pair x) xs @ pairs xs"

definition shared_endpoint :: "drc_env \<Rightarrow> trace_segment \<Rightarrow> trace_segment \<Rightarrow> point option" where
  "shared_endpoint env s t =
     find (\<lambda>p. list_ex (\<lambda>q. point_dist env p q < fl (1 / 1000)) [ts_start t, ts_end t]) [ts_start s, ts_end s]"

definition trace_pair_clearance :: "drc_env \<Rightarrow> trace_segment \<Rightarrow> trace_segment \<Rightarrow> pyfloat" where
  "trace_pair_clearance env s t = fl (fl (segment_min_distance env s t - ts_width s / 2) - ts_width t / 2)"

text \<open>The texts of the messages; the arrow, the degree and the multiplication sign are in UTF-8.\<close>

definition right_arrow :: string where
  "right_arrow = [char_of (226::nat), char_of (134::nat), char_of (146::nat)]"

definition degree_sign :: string where
  "degree_sign = [char_of (194::nat), char_of (176::nat)]"

definition times_sign :: string where
  "times_sign = [char_of (195::nat), char_of (151::nat)]"

definition quoted :: "string \<Rightarrow> string" where
  "quoted s = sq @ s @ sq"

definition point_text :: "nat \<Rightarrow> string \<Rightarrow> point \<Rightarrow> string" where
  "point_text k sep p = ''('' @ format_fixed k (fst p) @ sep @ format_fixed k (snd p) @ '')''"

definition format_trace_location :: "trace_segment \<Rightarrow> string" where
  "format_trace_location s = ts_net_id s @ '' '' @ point_text 2 '','' (ts_start s) @ '' -> '' @ point_text 2 '','' (ts_end s)"

section \<open>Nets and clearances\<close>

definition check_unconnected_nets :: "design \<Rightarrow> drc_violation list" where
  "check_unconnected_nets d =
     option_list (map (\<lambda>(nid, n).
       if net_nodes n = [] then
         Some (drc_viol ''ERC-001'' DRC_WARNING (''Net '' @ quoted (net_name n) @ '' ('' @ nid @ '') has no connected nodes'')
                 None (Some nid) None)
       else if length (net_nodes n) = 1 then
         Some (drc_viol ''ERC-001'' DRC_INFO
                 (''Net '' @ quoted (net_name n) @ '' ('' @ nid @ '') has only 1 node (unconnected end)'') None (Some nid) None)
       else None) (des_nets d))"

type_synonym contact = "(string \<times> string) \<times> string \<times> pyfloat \<times> pyfloat"

definition clearance_contact_key :: "drc_env \<Rightarrow> trace_segment \<Rightarrow> trace_segment \<Rightarrow> contact option" where
  "clearance_contact_key env s t =
     map_option (\<lambda>p. (if ts_net_id s \<le> ts_net_id t then (ts_net_id s, ts_net_id t) else (ts_net_id t, ts_net_id s),
                      ts_layer s, py_round 3 (fst p), py_round 3 (snd p)))
       (shared_endpoint env s t)"

text \<open>\<open>None\<close> or the violation, with the contacts reported so far.\<close>

definition clearance_violation ::
  "drc_env \<Rightarrow> pyfloat \<Rightarrow> trace_segment \<Rightarrow> trace_segment \<Rightarrow> contact set \<Rightarrow> drc_violation option \<times> contact set" where
  "clearance_violation env min_clearance s t reported =
     (if ts_net_id s = ts_net_id t \<or> ts_layer s \<noteq> ts_layer t then (None, reported)
      else
        (let clearance = trace_pair_clearance env s t in
         if min_clearance \<le> clearance then (None, reported)
         else
           (let key = clearance_contact_key env s t in
            if key \<noteq> None \<and> the key \<in> reported then (None, reported)
            else
              (Some (drc_viol ''DRC-001'' DRC_ERROR
                 (''Clearance violation: net '' @ quoted (ts_net_id s) @ '' and '' @ quoted (ts_net_id t) @ '' are ''
                   @ format_fixed 3 clearance @ ''mm apart (min '' @ de_repr env min_clearance @ ''mm)'')
                 (Some (ts_layer s @ '': '' @ format_trace_location s @ '' | '' @ format_trace_location t))
                 (Some (ts_net_id s)) None),
               (case key of None \<Rightarrow> reported | Some k \<Rightarrow> insert k reported)))))"

fun clearance_scan ::
  "drc_env \<Rightarrow> pyfloat \<Rightarrow> (trace_segment \<times> trace_segment) list \<Rightarrow> contact set \<Rightarrow> drc_violation list" where
  "clearance_scan env m [] reported = []"
| "clearance_scan env m ((s, t) # ps) reported =
     (let (v, reported') = clearance_violation env m s t reported
      in (case v of None \<Rightarrow> [] | Some x \<Rightarrow> [x]) @ clearance_scan env m ps reported')"

definition check_clearance :: "drc_env \<Rightarrow> design \<Rightarrow> drc_violation list" where
  "check_clearance env d =
     clearance_scan env (board_min_clearance_mm (des_board d)) (pairs (trace_segments d)) {}"

fun width_scan ::
  "drc_env \<Rightarrow> (net_class, net_class_rule) dict \<Rightarrow> trace_segment list \<Rightarrow> drc_violation list \<Rightarrow> drc_check" where
  "width_scan env rules [] vio d = (Inr vio, d)"
| "width_scan env rules (s # ss) vio d =
     (let (nc, d') = get_net_class (de_walk env) (ts_net_id s) d in
      case get_rule rules nc of
        Inl e \<Rightarrow> (Inl e, d')
      | Inr rule \<Rightarrow>
          width_scan env rules ss
            (if ts_width s < fl (ncr_trace_width rule - fl (1 / 1000))
             then vio @ [drc_viol ''DRC-002'' DRC_ERROR
                    (''Trace width '' @ format_fixed 3 (ts_width s) @ ''mm below '' @ net_class_value nc @ '' minimum ''
                      @ format_fixed 3 (ncr_trace_width rule) @ ''mm on net '' @ quoted (ts_net_id s))
                    (Some (point_text 1 '', '' (ts_start s) @ '' '' @ right_arrow @ '' '' @ point_text 1 '', '' (ts_end s)))
                    (Some (ts_net_id s)) None]
             else vio) d')"

definition check_trace_width :: "drc_env \<Rightarrow> (net_class, net_class_rule) dict \<Rightarrow> drc_check" where
  "check_trace_width env rules d = width_scan env rules (trace_segments d) [] d"

section \<open>Corners\<close>

type_synonym trace_group = "(string \<times> string) \<times> trace_segment list"

definition group_segments_by_net_layer :: "trace_segment list \<Rightarrow> trace_group list" where
  "group_segments_by_net_layer segs =
     map (\<lambda>k. (k, filter (\<lambda>s. (ts_net_id s, ts_layer s) = k) segs)) (dedup (map (\<lambda>s. (ts_net_id s, ts_layer s)) segs))"

definition endpoint_key :: "string \<Rightarrow> string \<Rightarrow> point \<Rightarrow> string \<times> string \<times> pyfloat \<times> pyfloat" where
  "endpoint_key nid layer p = (nid, layer, py_round 6 (fst p), py_round 6 (snd p))"

definition endpoint_degree :: "trace_group list \<Rightarrow> string \<times> string \<times> pyfloat \<times> pyfloat \<Rightarrow> nat" where
  "endpoint_degree groups k =
     count_if (\<lambda>j. j = k)
       (concat (map (\<lambda>((nid, layer), segs).
          concat (map (\<lambda>s. [endpoint_key nid layer (ts_start s), endpoint_key nid layer (ts_end s)]) segs)) groups))"

definition vector_from_joint :: "drc_env \<Rightarrow> trace_segment \<Rightarrow> point \<Rightarrow> point" where
  "vector_from_joint env s shared =
     vec shared (if point_dist env shared (ts_start s) < fl (1 / 1000) then ts_end s else ts_start s)"

definition degrees_per_radian :: pyfloat where
  "degrees_per_radian = fl (57295779513082320877 / 10 ^ 18)"

definition joint_angle_degrees ::
  "drc_env \<Rightarrow> trace_segment \<Rightarrow> trace_segment \<Rightarrow> point \<Rightarrow> pyfloat \<Rightarrow> pyfloat option" where
  "joint_angle_degrees env s t shared min_segment_length =
     (let v = vector_from_joint env s shared; w = vector_from_joint env t shared;
          m = vec_norm env v; n = vec_norm env w
      in if min m n < min_segment_length then None
         else
           (let cosine = max (- 1) (min 1 (fl (vec_dot v w / fl (m * n))))
            in Some (fl (de_acos env cosine * degrees_per_radian))))"

definition simple_trace_joints ::
  "drc_env \<Rightarrow> trace_group list \<Rightarrow> pyfloat \<Rightarrow> trace_group \<Rightarrow> (point \<times> pyfloat) list" where
  "simple_trace_joints env groups min_segment_length grp =
     (let ((nid, layer), segs) = grp in
      option_list (map (\<lambda>(s, t).
        case shared_endpoint env s t of
          None \<Rightarrow> None
        | Some shared \<Rightarrow>
            if 2 < endpoint_degree groups (endpoint_key nid layer shared) then None
            else map_option (Pair shared) (joint_angle_degrees env s t shared min_segment_length)) (pairs segs)))"

definition joint_violations ::
  "drc_env \<Rightarrow> pyfloat \<Rightarrow> (pyfloat \<Rightarrow> bool) \<Rightarrow> (string \<Rightarrow> string \<Rightarrow> point \<Rightarrow> pyfloat \<Rightarrow> drc_violation) \<Rightarrow> design \<Rightarrow> drc_violation list" where
  "joint_violations env len bad report d =
     (let groups = group_segments_by_net_layer (trace_segments d) in
      concat (map (\<lambda>((nid, layer), segs).
        map (\<lambda>(shared, angle). report nid layer shared angle)
          (filter (\<lambda>(shared, angle). bad angle) (simple_trace_joints env groups len ((nid, layer), segs)))) groups))"

definition check_right_angle :: "drc_env \<Rightarrow> design \<Rightarrow> drc_violation list" where
  "check_right_angle env d =
     joint_violations env (fl (3 / 10)) (\<lambda>angle. 89 \<le> \<bar>angle\<bar> \<and> \<bar>angle\<bar> \<le> 91)
       (\<lambda>nid layer shared angle. drc_viol ''DRC-003'' DRC_WARNING
          (''Right-angle corner ('' @ format_fixed 1 angle @ degree_sign @ '') on net '' @ quoted nid @ '' layer '' @ layer)
          (Some (point_text 1 '', '' shared)) (Some nid) None) d"

definition check_acid_trap :: "drc_env \<Rightarrow> design \<Rightarrow> drc_violation list" where
  "check_acid_trap env d =
     joint_violations env (fl (1 / 1000)) (\<lambda>angle. 1 \<le> angle \<and> angle < 85)
       (\<lambda>nid layer shared angle. drc_viol ''DRC-023'' DRC_ERROR
          (''Acid-trap (sharp angle '' @ format_fixed 1 angle @ degree_sign @ '') on net '' @ quoted nid @ '' layer '' @ layer)
          (Some (point_text 1 '', '' shared)) (Some nid) None) d"

section \<open>Routing, vias, classes\<close>

definition unrouted_violation :: "string \<Rightarrow> string \<times> net \<Rightarrow> drc_violation" where
  "unrouted_violation text entry =
     (let (nid, n) = entry in
      drc_viol ''DRC-005'' DRC_ERROR (''Net '' @ quoted (net_name n) @ '' ('' @ nid @ text) None (Some nid) None)"

definition check_unrouted_nets :: drc_check where
  "check_unrouted_nets d =
     (case des_routing d of
        None \<Rightarrow>
          (Inr (map (unrouted_violation '') has no routing traces'') (filter (\<lambda>(nid, n). 2 \<le> length (net_nodes n)) (des_nets d))), d)
      | Some r \<Rightarrow>
          (let d' = d\<lparr> des_routing := fst (canonical_routing_net_ids d (Some r)) \<rparr>;
               routed = map ts_net_id (trace_segments d')
           in (Inr (map (unrouted_violation '') not routed (no trace segments)'')
                 (filter (\<lambda>(nid, n). 2 \<le> length (net_nodes n) \<and> nid \<notin> set routed) (des_nets d'))), d')))"

definition count_via :: "trace_segment \<Rightarrow> (string, nat) dict \<Rightarrow> (string, nat) dict" where
  "count_via s cs = dict_set (ts_net_id s) (Suc (case dict_get cs (ts_net_id s) of None \<Rightarrow> 0 | Some c \<Rightarrow> c)) cs"

definition via_counts :: "trace_segment list \<Rightarrow> (string, nat) dict" where
  "via_counts segs = fold count_via (filter ts_via segs) []"

text \<open>The message prints the \<open>Net\<close> object itself, or \<open>None\<close>, where it names the net.\<close>

fun via_scan ::
  "drc_env \<Rightarrow> (net_class, net_class_rule) dict \<Rightarrow> (string, nat) dict \<Rightarrow> drc_violation list \<Rightarrow> drc_check" where
  "via_scan env rules [] vio d = (Inr vio, d)"
| "via_scan env rules ((nid, count) # cs) vio d =
     (let (nc, d') = get_net_class (de_walk env) nid d in
      case get_rule rules nc of
        Inl e \<Rightarrow> (Inl e, d')
      | Inr rule \<Rightarrow>
          via_scan env rules cs
            (if ncr_max_vias rule < int count
             then vio @ [drc_viol ''DRC-006'' DRC_ERROR
                    (''Net '' @ quoted (case dict_get (des_nets d') nid of None \<Rightarrow> ''None'' | Some n \<Rightarrow> de_net_text env n)
                      @ '' ('' @ nid @ '') has '' @ str_of_nat count @ '' vias, exceeds '' @ net_class_value nc
                      @ '' limit of '' @ str_of_int (ncr_max_vias rule)) None (Some nid) None]
             else vio) d')"

definition check_via_count :: "drc_env \<Rightarrow> (net_class, net_class_rule) dict \<Rightarrow> drc_check" where
  "check_via_count env rules d =
     (if des_routing d = None then (Inr [], d) else via_scan env rules (via_counts (trace_segments d)) [] d)"

definition check_missing_net_class :: "design \<Rightarrow> drc_violation list" where
  "check_missing_net_class d =
     (case des_net_classes d of
        None \<Rightarrow> []
      | Some cs \<Rightarrow>
          map (\<lambda>(nid, n). drc_viol ''DRC-010'' DRC_INFO
                 (''Net '' @ quoted (net_name n) @ '' ('' @ nid @ '') has no net-class assignment'') None (Some nid) None)
            (filter (\<lambda>(nid, n). nid \<notin> set (dict_keys cs)) (des_nets d)))"

definition min_annular_ring :: "design \<Rightarrow> pyfloat" where
  "min_annular_ring d = (case des_board_def d of None \<Rightarrow> fl (13 / 100) | Some b \<Rightarrow> bc_min_annular_ring (bd_constraints b))"

definition check_min_annular_ring :: "design \<Rightarrow> drc_violation list" where
  "check_min_annular_ring d =
     option_list (map (\<lambda>s.
       let ring = fl (fl (ts_via_diameter s - ts_via_hole s) / 2) in
       if ts_via s \<and> ring < fl (min_annular_ring d - fl (1 / 1000)) then
         Some (drc_viol ''DRC-020'' DRC_ERROR
           (''Via annular ring '' @ format_fixed 3 ring @ ''mm below minimum '' @ format_fixed 3 (min_annular_ring d)
             @ ''mm on net '' @ quoted (ts_net_id s)) (Some (point_text 1 '', '' (ts_start s))) (Some (ts_net_id s)) None)
       else None) (trace_segments d))"

section \<open>The board edge\<close>

definition board_edge_outline :: "design \<Rightarrow> point list" where
  "board_edge_outline d =
     (let w = board_width_mm (des_board d); h = board_height_mm (des_board d);
          rectangle = [(0, 0), (w, 0), (w, h), (0, h)]
      in case des_board_def d of
           None \<Rightarrow> rectangle
         | Some b \<Rightarrow> if bd_outline b \<noteq> [] then bd_outline b else rectangle)"

definition rectangular_edge_distance :: "point \<Rightarrow> point list \<Rightarrow> pyfloat option" where
  "rectangular_edge_distance p outline =
     (if length outline \<noteq> 4 then None
      else
        (let xs = map fst outline; ys = map snd outline;
             lo_x = Min (set xs); hi_x = Max (set xs); lo_y = Min (set ys); hi_y = Max (set ys)
         in Some (min (min \<bar>fl (fst p - lo_x)\<bar> \<bar>fl (fst p - hi_x)\<bar>) (min \<bar>fl (snd p - lo_y)\<bar> \<bar>fl (snd p - hi_y)\<bar>))))"

definition board_edge_violation :: "trace_segment \<Rightarrow> point list \<Rightarrow> pyfloat \<Rightarrow> drc_violation option" where
  "board_edge_violation s outline min_clearance =
     map_option (\<lambda>p.
         drc_viol ''DRC-021'' DRC_ERROR
           (''Trace to board edge clearance '' @ format_fixed 3 (the (rectangular_edge_distance p outline))
             @ ''mm below minimum '' @ format_fixed 3 min_clearance @ ''mm on net '' @ quoted (ts_net_id s))
           (Some (point_text 1 '', '' p)) (Some (ts_net_id s)) None)
       (find (\<lambda>p. case rectangular_edge_distance p outline of
                    None \<Rightarrow> False
                  | Some gap \<Rightarrow> gap < fl (min_clearance - fl (1 / 1000))) [ts_start s, ts_end s])"

definition check_board_edge_clearance :: "design \<Rightarrow> drc_violation list" where
  "check_board_edge_clearance d =
     (let outline = board_edge_outline d in
      if length outline < 3 then []
      else option_list (map (\<lambda>s. board_edge_violation s outline (fl (3 / 10))) (trace_segments d)))"

section \<open>Solder mask and high voltage\<close>

definition solder_mask_limits :: "design \<Rightarrow> pyfloat \<times> pyfloat" where
  "solder_mask_limits d =
     (case des_board_def d of None \<Rightarrow> fl (1 / 10) | Some b \<Rightarrow> bc_min_solder_mask_sliver (bd_constraints b),
      board_min_clearance_mm (des_board d))"

definition solder_mask_sliver_violation ::
  "drc_env \<Rightarrow> pyfloat \<Rightarrow> pyfloat \<Rightarrow> trace_segment \<times> trace_segment \<Rightarrow> drc_violation option" where
  "solder_mask_sliver_violation env min_sliver min_copper_clearance pair =
     (let (s, t) = pair; clearance = trace_pair_clearance env s t in
      if ts_net_id s = ts_net_id t \<or> ts_layer s \<noteq> ts_layer t then None
      else if clearance < min_copper_clearance then None
      else if clearance \<le> fl (1 / 1000) \<or> fl (min_sliver - fl (1 / 1000)) \<le> clearance then None
      else Some (drc_viol ''DRC-022'' DRC_ERROR
             (''Solder-mask sliver '' @ format_fixed 3 clearance @ ''mm below minimum '' @ format_fixed 3 min_sliver
               @ ''mm between nets '' @ quoted (ts_net_id s) @ '' and '' @ quoted (ts_net_id t))
             (Some (''layer='' @ ts_layer s)) None None))"

definition check_solder_mask_sliver :: "drc_env \<Rightarrow> design \<Rightarrow> drc_violation list" where
  "check_solder_mask_sliver env d =
     (if length (trace_segments d) < 2 then []
      else (let (sliver, copper) = solder_mask_limits d
            in option_list (map (solder_mask_sliver_violation env sliver copper) (pairs (trace_segments d)))))"

definition high_voltage_min_clearance :: "design \<Rightarrow> pyfloat" where
  "high_voltage_min_clearance d =
     (case des_board_def d of None \<Rightarrow> fl (3 / 10) | Some b \<Rightarrow> bc_min_clearance_high_voltage (bd_constraints b))"

definition high_voltage_net_ids :: "design \<Rightarrow> string list" where
  "high_voltage_net_ids d = map fst (filter (\<lambda>(nid, c). c = POWER_HIGH) (classes_of d))"

definition high_voltage_clearance_violation ::
  "drc_env \<Rightarrow> string list \<Rightarrow> pyfloat \<Rightarrow> trace_segment \<times> trace_segment \<Rightarrow> drc_violation option" where
  "high_voltage_clearance_violation env hv min_clearance pair =
     (let (s, t) = pair; clearance = trace_pair_clearance env s t in
      if ts_net_id s = ts_net_id t \<or> ts_layer s \<noteq> ts_layer t then None
      else if ts_net_id s \<notin> set hv \<and> ts_net_id t \<notin> set hv then None
      else if fl (min_clearance - fl (1 / 1000)) \<le> clearance then None
      else Some (drc_viol ''DRC-024'' DRC_ERROR
             (''High-voltage clearance violation: nets '' @ quoted (ts_net_id s) @ '' and '' @ quoted (ts_net_id t) @ '' are ''
               @ format_fixed 3 clearance @ ''mm apart (min '' @ format_fixed 3 min_clearance @ ''mm)'')
             (Some (''layer='' @ ts_layer s)) (Some (ts_net_id s)) None))"

definition check_high_voltage_clearance :: "drc_env \<Rightarrow> design \<Rightarrow> drc_violation list" where
  "check_high_voltage_clearance env d =
     (let hv = high_voltage_net_ids d in
      if hv = [] then []
      else option_list (map (high_voltage_clearance_violation env hv (high_voltage_min_clearance d))
                         (pairs (trace_segments d))))"

section \<open>Copper, components, currents, holes\<close>

definition check_copper_balance :: "design \<Rightarrow> drc_violation list" where
  "check_copper_balance d =
     (if des_components d = [] \<and> des_nets d = [] then []
      else
        (let wants_pour = (case des_board_def d of
                             Some b \<Rightarrow> bd_copper_pour_gnd b
                           | None \<Rightarrow> board_copper_pour_gnd (des_board d))
         in if wants_pour \<and> des_copper_pours d = []
            then [drc_viol ''DRC-025'' DRC_INFO
                    ''Copper-balance: Board requests GND pour, but no copper pours are defined'' None None None]
            else []))"

definition component_placement_limits :: "design \<Rightarrow> ((pyfloat \<times> pyfloat \<times> pyfloat \<times> pyfloat) \<times> string) option" where
  "component_placement_limits d =
     (case des_board_def d of
        Some b \<Rightarrow>
          (let xs = map fst (bd_outline b); ys = map snd (bd_outline b) in
           if bd_outline b = [] then None
           else Some ((fl (Min (set xs) - 2), fl (Max (set xs) + 2), fl (Min (set ys) - 2), fl (Max (set ys) + 2)),
                      ''outside board outline''))
      | None \<Rightarrow>
          (let w = board_width_mm (des_board d); h = board_height_mm (des_board d) in
           Some ((- 2, fl (w + 2), - 2, fl (h + 2)),
                 ''outside board ('' @ format_fixed 0 w @ times_sign @ format_fixed 0 h @ ''mm)'')))"

definition inside_limits :: "pyfloat \<times> pyfloat \<times> pyfloat \<times> pyfloat \<Rightarrow> point \<Rightarrow> bool" where
  "inside_limits limits p =
     (let (min_x, max_x, min_y, max_y) = limits
      in min_x \<le> fst p \<and> fst p \<le> max_x \<and> min_y \<le> snd p \<and> snd p \<le> max_y)"

definition component_outside_violation ::
  "design \<Rightarrow> pyfloat \<times> pyfloat \<times> pyfloat \<times> pyfloat \<Rightarrow> string \<Rightarrow> string \<times> point \<Rightarrow> drc_violation option" where
  "component_outside_violation d limits text entry =
     (let (cid, p) = entry in
      if inside_limits limits p then None
      else
        (let ref = (case dict_get (des_components d) cid of Some c \<Rightarrow> comp_ref c | None \<Rightarrow> cid)
         in Some (drc_viol ''DRC-011'' DRC_ERROR
              (''Component '' @ quoted ref @ '' placed at '' @ point_text 1 '', '' p @ '' '' @ text) None None (Some cid))))"

definition check_component_outside_board :: "design \<Rightarrow> drc_violation list" where
  "check_component_outside_board d =
     (case component_placement_limits d of
        None \<Rightarrow> []
      | Some (limits, text) \<Rightarrow>
          option_list (map (component_outside_violation d limits text)
                         (case des_placement d of None \<Rightarrow> [] | Some places \<Rightarrow> places)))"

definition ipc2152_min_width_mm :: "drc_env \<Rightarrow> pyfloat \<Rightarrow> pyfloat \<Rightarrow> pyfloat \<Rightarrow> pyfloat" where
  "ipc2152_min_width_mm env current_a copper_oz delta_t_c =
     (let thickness_mils = fl (copper_oz * fl (137 / 100));
          area_mils2 = de_pow env (fl (current_a / fl (fl (48 / 1000) * de_pow env delta_t_c (fl (44 / 100)))))
                         (fl (1 / fl (725 / 1000)));
          width_mils = fl (area_mils2 / thickness_mils)
      in fl (width_mils * fl (254 / 10000)))"

definition high_current_min_width :: "drc_env \<Rightarrow> net \<Rightarrow> pyfloat option" where
  "high_current_min_width env n =
     (case net_constraints n of
        None \<Rightarrow> None
      | Some c \<Rightarrow>
          if \<not> nc_is_high_current c then None
          else case nc_min_trace_width_mm c of
                 Some w \<Rightarrow> Some (if w \<noteq> 0 then w else ipc2152_min_width_mm env 1 1 10)
               | None \<Rightarrow> Some (ipc2152_min_width_mm env 1 1 10))"

definition high_current_net_violations ::
  "string \<Rightarrow> net \<Rightarrow> trace_segment list \<Rightarrow> pyfloat \<Rightarrow> drc_violation list" where
  "high_current_net_violations nid n segs min_width =
     map (\<lambda>s. drc_viol ''DRC-012'' DRC_ERROR
            (''High-current net '' @ quoted (net_name n) @ '' trace width '' @ format_fixed 3 (ts_width s)
              @ ''mm below IPC-2152 minimum '' @ format_fixed 3 min_width @ ''mm'') None (Some nid) None)
       (filter (\<lambda>s. ts_width s < fl (min_width - fl (1 / 1000))) segs)"

definition check_high_current_trace_width :: "drc_env \<Rightarrow> design \<Rightarrow> drc_violation list" where
  "check_high_current_trace_width env d =
     concat (map (\<lambda>(nid, n). case high_current_min_width env n of
                               None \<Rightarrow> []
                             | Some w \<Rightarrow> high_current_net_violations nid n
                                           (filter (\<lambda>s. ts_net_id s = nid) (trace_segments d)) w)
               (if des_routing d = None then [] else des_nets d))"

type_synonym drilled_hole = "pyfloat \<times> pyfloat \<times> pyfloat \<times> string"

fun via_hole :: "via \<Rightarrow> drilled_hole" where
  "via_hole (Via4 x y dia hole) = (x, y, hole, [])"
| "via_hole (Via5 x y dia hole ref) = (x, y, hole, ref)"

definition routing_drilled_holes :: "route_result \<Rightarrow> drilled_hole list" where
  "routing_drilled_holes r =
     map via_hole (rr_vias r)
     @ map (\<lambda>s. (fst (ts_start s), snd (ts_start s), ts_via_hole s, ts_net_id s)) (filter ts_via (rr_traces r))"

definition hole_wall_clearance :: "drc_env \<Rightarrow> drilled_hole \<times> drilled_hole \<Rightarrow> pyfloat" where
  "hole_wall_clearance env pair =
     (let ((x1, y1, d1, n1), (x2, y2, d2, n2)) = pair
      in fl (point_dist env (x1, y1) (x2, y2) - fl (fl (d1 + d2) / 2)))"

definition hole_clearance_violation :: "drc_env \<Rightarrow> drilled_hole \<times> drilled_hole \<Rightarrow> drc_violation option" where
  "hole_clearance_violation env pair =
     (let ((x1, y1, d1, n1), (x2, y2, d2, n2)) = pair; wall = hole_wall_clearance env pair in
      if fl (1 / 4 - fl (1 / 1000)) \<le> wall then None
      else Some (drc_viol ''DRC-013'' DRC_ERROR
             (''Via hole-to-hole wall clearance '' @ format_fixed 3 wall @ ''mm below IPC-2221 minimum 0.25mm (nets ''
               @ quoted n1 @ '' and '' @ quoted n2 @ '')'')
             None (if n1 = [] then None else Some n1) None))"

definition check_hole_to_hole_clearance :: "drc_env \<Rightarrow> design \<Rightarrow> drc_violation list" where
  "check_hole_to_hole_clearance env d =
     (case des_routing d of
        None \<Rightarrow> []
      | Some r \<Rightarrow> option_list (map (hole_clearance_violation env) (pairs (routing_drilled_holes r))))"

section \<open>The engine\<close>

record drc_engine =
  en_rules :: "(net_class, net_class_rule) dict"
  en_enabled_rules :: "string list option"
  en_fab_check :: "drc_check option"

definition default_engine :: drc_engine where
  "default_engine = \<lparr> en_rules = CLASS_RULES, en_enabled_rules = None, en_fab_check = None \<rparr>"

text \<open>The checks in their order, each with the rule id its docstring starts with.\<close>

definition ALL_CHECKS :: "drc_env \<Rightarrow> (net_class, net_class_rule) dict \<Rightarrow> (string \<times> drc_check) list" where
  "ALL_CHECKS env rules =
     [(''ERC-001'', plain_check check_unconnected_nets),
      (''DRC-001'', plain_check (check_clearance env)),
      (''DRC-002'', check_trace_width env rules),
      (''DRC-003'', plain_check (check_right_angle env)),
      (''DRC-005'', check_unrouted_nets),
      (''DRC-006'', check_via_count env rules),
      (''DRC-010'', plain_check check_missing_net_class),
      (''DRC-011'', plain_check check_component_outside_board),
      (''DRC-020'', plain_check check_min_annular_ring),
      (''DRC-021'', plain_check check_board_edge_clearance),
      (''DRC-022'', plain_check (check_solder_mask_sliver env)),
      (''DRC-023'', plain_check (check_acid_trap env)),
      (''DRC-024'', plain_check (check_high_voltage_clearance env)),
      (''DRC-025'', plain_check check_copper_balance),
      (''DRC-012'', plain_check (check_high_current_trace_width env)),
      (''DRC-013'', plain_check (check_hole_to_hole_clearance env))]"

definition check_outcome :: "string \<times> drc_check \<Rightarrow> design \<Rightarrow> drc_violation list \<times> design" where
  "check_outcome entry d =
     (let (rid, check) = entry in
      case check d of
        (Inr vs, d') \<Rightarrow> (vs, d')
      | (Inl e, d') \<Rightarrow> ([drc_viol rid DRC_ERROR (''DRC check crashed: '' @ exc_str e) None None None], d'))"

fun run_all_checks :: "(string \<times> drc_check) list \<Rightarrow> design \<Rightarrow> drc_violation list \<times> design" where
  "run_all_checks [] d = ([], d)"
| "run_all_checks (c # cs) d =
     (let (vs, d') = check_outcome c d; (ws, d'') = run_all_checks cs d' in (vs @ ws, d''))"

fun severity_order :: "drc_severity \<Rightarrow> nat" where
  "severity_order DRC_ERROR = 0"
| "severity_order DRC_WARNING = 1"
| "severity_order DRC_INFO = 2"

definition severity_count :: "drc_severity \<Rightarrow> drc_violation list \<Rightarrow> int" where
  "severity_count sev vs = int (count_if (\<lambda>v. drcv_severity v = sev) vs)"

definition drc_result_of :: "string \<Rightarrow> drc_violation list \<Rightarrow> drc_result" where
  "drc_result_of name all =
     (let vs = sort_key (\<lambda>v. severity_order (drcv_severity v)) all in
      \<lparr> drcr_design_name = name, drcr_total_violations = int (length vs), drcr_errors = severity_count DRC_ERROR vs,
        drcr_warnings = severity_count DRC_WARNING vs, drcr_info = severity_count DRC_INFO vs, drcr_violations = vs,
        drcr_passed = (severity_count DRC_ERROR vs = 0) \<rparr>)"

definition enabled_checks :: "drc_env \<Rightarrow> drc_engine \<Rightarrow> (string \<times> drc_check) list" where
  "enabled_checks env eng =
     filter (\<lambda>(rid, check). case en_enabled_rules eng of None \<Rightarrow> True | Some ids \<Rightarrow> rid \<in> set ids)
       (ALL_CHECKS env (en_rules eng))"

definition drc_run :: "drc_env \<Rightarrow> drc_engine \<Rightarrow> design \<Rightarrow> drc_result result \<times> design" where
  "drc_run env eng d =
     (let d1 = (if classes_of d = [] then classify_design (de_walk env) d else d);
          (vs, d2) = run_all_checks (enabled_checks env eng) d1;
          (fab, d3) = (case en_fab_check eng of None \<Rightarrow> (Inr [], d2) | Some check \<Rightarrow> check d2)
      in case fab of
           Inl e \<Rightarrow> (Inl e, d3)
         | Inr ws \<Rightarrow>
             (let res = drc_result_of (meta_name (des_meta d)) (vs @ ws)
              in (Inr res, d3\<lparr> des_drc_result := Some res \<rparr>)))"

definition first_line_text :: "string \<Rightarrow> string" where
  "first_line_text rid =
     (case find (\<lambda>(k, t). k = rid)
         [(''ERC-001'', ''Unconnected net (0 or 1 node).''), (''DRC-001'', ''Clearance violation between traces of different nets.''),
          (''DRC-002'', ''Trace width below net-class minimum.''),
          (''DRC-003'', ''Right-angle (90'' @ degree_sign @ '') trace corners (use 45'' @ degree_sign @ '' or arc).''),
          (''DRC-005'', ''Net not routed (no trace segments).''), (''DRC-006'', ''Via count exceeds net-class limit.''),
          (''DRC-010'', ''Net missing net-class classification.''), (''DRC-011'', ''Component placed outside board boundary.''),
          (''DRC-020'', ''Via annular ring below minimum.''), (''DRC-021'', ''Copper to board edge clearance below minimum.''),
          (''DRC-022'', ''Solder-mask sliver below minimum.''),
          (''DRC-023'', ''Acid-trap (sharp inner-angle copper) detection.''),
          (''DRC-024'', ''Creepage/clearance for high-voltage / PoE nets.''),
          (''DRC-025'', ''Copper-balance / large-unpoured-area warning.''),
          (''DRC-012'', ''IPC-2152 current-capacity: trace too narrow for rated current.''),
          (''DRC-013'', ''Via/drill hole-to-hole spacing below IPC-2221 minimum.'')] of
        Some (k, t) \<Rightarrow> t
      | None \<Rightarrow> [])"

definition list_drc_rules :: "drc_env \<Rightarrow> drc_engine \<Rightarrow> (string \<times> string \<times> string) list" where
  "list_drc_rules env eng = map (\<lambda>(rid, check). (rid, first_line_text rid, ''varies'')) (ALL_CHECKS env (en_rules eng))"


section \<open>What a clean board is\<close>

text \<open>One predicate per check that can report an error, on the design the run leaves.\<close>

definition class_of :: "drc_env \<Rightarrow> design \<Rightarrow> string \<Rightarrow> net_class" where
  "class_of env d nid = fst (get_net_class (de_walk env) nid d)"

definition rule_of :: "drc_env \<Rightarrow> design \<Rightarrow> string \<Rightarrow> net_class_rule" where
  "rule_of env d nid = the (dict_get CLASS_RULES (class_of env d nid))"

definition meets :: "trace_segment \<times> trace_segment \<Rightarrow> bool" where
  "meets pair = (ts_net_id (fst pair) \<noteq> ts_net_id (snd pair) \<and> ts_layer (fst pair) = ts_layer (snd pair))"

definition clearance_ok :: "drc_env \<Rightarrow> design \<Rightarrow> bool" where
  "clearance_ok env d =
     (\<forall>(s, t)\<in>set (pairs (trace_segments d)). meets (s, t) \<longrightarrow> board_min_clearance_mm (des_board d) \<le> trace_pair_clearance env s t)"

definition widths_ok :: "drc_env \<Rightarrow> design \<Rightarrow> bool" where
  "widths_ok env d =
     (\<forall>s\<in>set (trace_segments d). fl (ncr_trace_width (rule_of env d (ts_net_id s)) - fl (1 / 1000)) \<le> ts_width s)"

definition routed_ok :: "design \<Rightarrow> bool" where
  "routed_ok d =
     (\<forall>(nid, n)\<in>set (des_nets d). 2 \<le> length (net_nodes n) \<longrightarrow> nid \<in> ts_net_id ` set (trace_segments d))"

definition vias_of :: "string \<Rightarrow> trace_segment list \<Rightarrow> nat" where
  "vias_of nid segs = count_if (\<lambda>t. ts_via t \<and> ts_net_id t = nid) segs"

definition vias_ok :: "drc_env \<Rightarrow> design \<Rightarrow> bool" where
  "vias_ok env d =
     (\<forall>s\<in>set (trace_segments d). ts_via s \<longrightarrow>
        int (vias_of (ts_net_id s) (trace_segments d)) \<le> ncr_max_vias (rule_of env d (ts_net_id s)))"

definition placement_ok :: "design \<Rightarrow> bool" where
  "placement_ok d =
     (case (component_placement_limits d, des_placement d) of
        (Some (limits, _), Some places) \<Rightarrow> list_all (\<lambda>(cid, p). inside_limits limits p) places
      | _ \<Rightarrow> True)"

definition rings_ok :: "design \<Rightarrow> bool" where
  "rings_ok d =
     (\<forall>s\<in>set (trace_segments d). ts_via s \<longrightarrow>
        fl (min_annular_ring d - fl (1 / 1000)) \<le> fl (fl (ts_via_diameter s - ts_via_hole s) / 2))"

definition edges_ok :: "design \<Rightarrow> bool" where
  "edges_ok d =
     (\<forall>s\<in>set (trace_segments d). \<forall>p\<in>{ts_start s, ts_end s}.
        case rectangular_edge_distance p (board_edge_outline d) of
          None \<Rightarrow> True
        | Some gap \<Rightarrow> fl (fl (3 / 10) - fl (1 / 1000)) \<le> gap)"

definition slivers_ok :: "drc_env \<Rightarrow> design \<Rightarrow> bool" where
  "slivers_ok env d =
     (let (sliver, copper) = solder_mask_limits d in
      \<forall>(s, t)\<in>set (pairs (trace_segments d)). meets (s, t) \<longrightarrow>
        (let c = trace_pair_clearance env s t
         in c < copper \<or> c \<le> fl (1 / 1000) \<or> fl (sliver - fl (1 / 1000)) \<le> c))"

definition corners_ok :: "drc_env \<Rightarrow> design \<Rightarrow> bool" where
  "corners_ok env d =
     (let groups = group_segments_by_net_layer (trace_segments d) in
      \<forall>g\<in>set groups. \<forall>(shared, angle)\<in>set (simple_trace_joints env groups (fl (1 / 1000)) g). angle < 1 \<or> 85 \<le> angle)"

definition high_voltage_ok :: "drc_env \<Rightarrow> design \<Rightarrow> bool" where
  "high_voltage_ok env d =
     (\<forall>(s, t)\<in>set (pairs (trace_segments d)). meets (s, t) \<longrightarrow>
        (ts_net_id s \<in> set (high_voltage_net_ids d) \<or> ts_net_id t \<in> set (high_voltage_net_ids d)) \<longrightarrow>
        fl (high_voltage_min_clearance d - fl (1 / 1000)) \<le> trace_pair_clearance env s t)"

definition currents_ok :: "drc_env \<Rightarrow> design \<Rightarrow> bool" where
  "currents_ok env d =
     (\<forall>(nid, n)\<in>set (des_nets d). \<forall>s\<in>set (trace_segments d). ts_net_id s = nid \<longrightarrow>
        (case high_current_min_width env n of None \<Rightarrow> True | Some w \<Rightarrow> fl (w - fl (1 / 1000)) \<le> ts_width s))"

definition holes_ok :: "drc_env \<Rightarrow> design \<Rightarrow> bool" where
  "holes_ok env d =
     (case des_routing d of
        None \<Rightarrow> True
      | Some r \<Rightarrow> \<forall>pair\<in>set (pairs (routing_drilled_holes r)). fl (1 / 4 - fl (1 / 1000)) \<le> hole_wall_clearance env pair)"

definition board_clean :: "drc_env \<Rightarrow> design \<Rightarrow> bool" where
  "board_clean env d =
     (clearance_ok env d \<and> widths_ok env d \<and> routed_ok d \<and> vias_ok env d \<and> placement_ok d \<and> rings_ok d
      \<and> edges_ok d \<and> slivers_ok env d \<and> corners_ok env d \<and> high_voltage_ok env d \<and> currents_ok env d \<and> holes_ok env d)"

section \<open>Each check reports an error exactly when its predicate fails\<close>

definition no_errors :: "drc_violation list \<Rightarrow> bool" where
  "no_errors vs = (\<forall>v\<in>set vs. drcv_severity v \<noteq> DRC_ERROR)"

lemma no_errors_simps [simp]:
  "no_errors []" "no_errors (v # vs) \<longleftrightarrow> drcv_severity v \<noteq> DRC_ERROR \<and> no_errors vs"
  "no_errors (vs @ ws) \<longleftrightarrow> no_errors vs \<and> no_errors ws"
  by (auto simp: no_errors_def)

lemma severity_drc_viol [simp]: "drcv_severity (drc_viol r s m l n c) = s"
  by (simp add: drc_viol_def)

lemma passed_iff [simp]: "drcr_passed (drc_result_of name vs) \<longleftrightarrow> no_errors vs"
  by (auto simp: drc_result_of_def Let_def severity_count_def count_if_0_iff no_errors_def)

lemma no_errors_option_list:
  "no_errors (option_list (map f xs)) \<longleftrightarrow> (\<forall>x\<in>set xs. \<forall>v. f x = Some v \<longrightarrow> drcv_severity v \<noteq> DRC_ERROR)"
  by (force simp: no_errors_def)

lemma no_errors_reported:
  assumes "\<And>x v. f x = Some v \<Longrightarrow> drcv_severity v = DRC_ERROR"
  shows "no_errors (option_list (map f xs)) \<longleftrightarrow> (\<forall>x\<in>set xs. f x = None)"
proof -
  have "(\<forall>v. f x = Some v \<longrightarrow> drcv_severity v \<noteq> DRC_ERROR) \<longleftrightarrow> f x = None" for x
    using assms by (cases "f x") auto
  then show ?thesis by (simp only: no_errors_option_list)
qed

lemma silent_checks [simp]:
  "no_errors (check_unconnected_nets d)" "no_errors (check_right_angle env d)" "no_errors (check_missing_net_class d)"
  "no_errors (check_copper_balance d)"
  by (auto simp: check_unconnected_nets_def no_errors_option_list check_right_angle_def joint_violations_def Let_def
        check_missing_net_class_def check_copper_balance_def no_errors_def split: if_splits option.splits)

lemma clearance_scan_clean:
  "no_errors (clearance_scan env m ps {}) \<longleftrightarrow> (\<forall>(s, t)\<in>set ps. meets (s, t) \<longrightarrow> m \<le> trace_pair_clearance env s t)"
proof (induction ps)
  case Nil
  then show ?case by simp
next
  case (Cons p ps)
  obtain s t where p: "p = (s, t)" by fastforce
  consider "meets (s, t)" "\<not> m \<le> trace_pair_clearance env s t"
    | "meets (s, t) \<longrightarrow> m \<le> trace_pair_clearance env s t" by blast
  then show ?case
  proof cases
    case 1
    then show ?thesis by (simp add: p meets_def clearance_violation_def Let_def)
  next
    case 2
    then have "clearance_violation env m s t {} = (None, {})"
      by (auto simp: meets_def clearance_violation_def Let_def)
    with 2 Cons.IH show ?thesis by (simp add: p)
  qed
qed

lemma check_clearance_clean [simp]: "no_errors (check_clearance env d) \<longleftrightarrow> clearance_ok env d"
  by (simp add: check_clearance_def clearance_scan_clean clearance_ok_def)

lemma outside_reported: "component_outside_violation d limits text e = Some v \<Longrightarrow> drcv_severity v = DRC_ERROR"
  by (auto simp: component_outside_violation_def Let_def split: prod.splits if_splits)

lemma outside_None: "component_outside_violation d limits text (cid, p) = None \<longleftrightarrow> inside_limits limits p"
  by (simp add: component_outside_violation_def Let_def)

lemma placement_clean [simp]: "no_errors (check_component_outside_board d) \<longleftrightarrow> placement_ok d"
  by (simp add: check_component_outside_board_def placement_ok_def no_errors_reported [OF outside_reported]
        list_all_iff Ball_def split_paired_all outside_None split: option.split)

lemma rings_clean [simp]: "no_errors (check_min_annular_ring d) \<longleftrightarrow> rings_ok d"
  by (auto simp: check_min_annular_ring_def rings_ok_def no_errors_option_list Let_def not_less)

lemma edge_distance_None: "length outline \<noteq> 4 \<Longrightarrow> rectangular_edge_distance p outline = None"
  by (simp add: rectangular_edge_distance_def)

lemma edge_reported: "board_edge_violation s outline m = Some v \<Longrightarrow> drcv_severity v = DRC_ERROR"
  by (auto simp: board_edge_violation_def)

lemma edge_None:
  "board_edge_violation s outline m = None \<longleftrightarrow>
     (\<forall>p\<in>{ts_start s, ts_end s}.
        case rectangular_edge_distance p outline of None \<Rightarrow> True | Some gap \<Rightarrow> fl (m - fl (1 / 1000)) \<le> gap)"
  by (auto simp: board_edge_violation_def find_None_props not_less simp del: find.simps split: option.splits)

lemma edges_clean [simp]: "no_errors (check_board_edge_clearance d) \<longleftrightarrow> edges_ok d"
  by (cases "length (board_edge_outline d) < 3")
     (simp_all add: check_board_edge_clearance_def edges_ok_def no_errors_reported [OF edge_reported] edge_None
        edge_distance_None Let_def)

lemma pairs_short: "length xs < 2 \<Longrightarrow> pairs xs = []"
  by (cases xs; cases "tl xs") auto

lemma sliver_reported: "solder_mask_sliver_violation env a b e = Some v \<Longrightarrow> drcv_severity v = DRC_ERROR"
  by (auto simp: solder_mask_sliver_violation_def Let_def split: prod.splits if_splits)

lemma sliver_None:
  "solder_mask_sliver_violation env a b (s, t) = None \<longleftrightarrow>
     (meets (s, t) \<longrightarrow> (let c = trace_pair_clearance env s t in c < b \<or> c \<le> fl (1 / 1000) \<or> fl (a - fl (1 / 1000)) \<le> c))"
  by (auto simp: solder_mask_sliver_violation_def meets_def Let_def)

lemma slivers_clean [simp]: "no_errors (check_solder_mask_sliver env d) \<longleftrightarrow> slivers_ok env d"
  by (simp add: check_solder_mask_sliver_def slivers_ok_def no_errors_reported [OF sliver_reported] Ball_def split_paired_all
        sliver_None pairs_short case_prod_beta)

lemma no_errors_concat: "no_errors (concat (map f xs)) \<longleftrightarrow> (\<forall>x\<in>set xs. no_errors (f x))"
  by (auto simp: no_errors_def)

lemma corner_clean:
  fixes joints :: "(point \<times> pyfloat) list"
  shows "no_errors (map (\<lambda>(shared, angle). drc_viol rid DRC_ERROR (msg shared angle) (loc shared) nid None)
               (filter (\<lambda>(shared, angle). 1 \<le> angle \<and> angle < 85) joints))
   \<longleftrightarrow> (\<forall>(shared, angle)\<in>set joints. angle < 1 \<or> 85 \<le> angle)"
  by (induction joints) (auto simp: not_le not_less)

lemma corners_clean [simp]: "no_errors (check_acid_trap env d) \<longleftrightarrow> corners_ok env d"
proof -
  have "no_errors (check_acid_trap env d) \<longleftrightarrow>
      (let groups = group_segments_by_net_layer (trace_segments d) in
       \<forall>((nid, layer), segs)\<in>set groups.
         \<forall>(shared, angle)\<in>set (simple_trace_joints env groups (fl (1 / 1000)) ((nid, layer), segs)). angle < 1 \<or> 85 \<le> angle)"
    unfolding check_acid_trap_def joint_violations_def Let_def no_errors_concat
    by (rule ball_cong) (auto simp: corner_clean split: prod.splits)
  then show ?thesis by (simp add: corners_ok_def Let_def Ball_def split_paired_all)
qed

lemma high_voltage_reported: "high_voltage_clearance_violation env hv m e = Some v \<Longrightarrow> drcv_severity v = DRC_ERROR"
  by (auto simp: high_voltage_clearance_violation_def Let_def split: prod.splits if_splits)

lemma high_voltage_None:
  "high_voltage_clearance_violation env hv m (s, t) = None \<longleftrightarrow>
     (meets (s, t) \<longrightarrow> ts_net_id s \<in> set hv \<or> ts_net_id t \<in> set hv \<longrightarrow> fl (m - fl (1 / 1000)) \<le> trace_pair_clearance env s t)"
  by (auto simp: high_voltage_clearance_violation_def meets_def Let_def)

lemma high_voltage_clean [simp]: "no_errors (check_high_voltage_clearance env d) \<longleftrightarrow> high_voltage_ok env d"
  by (simp add: check_high_voltage_clearance_def high_voltage_ok_def no_errors_reported [OF high_voltage_reported]
        Let_def Ball_def split_paired_all high_voltage_None)

lemma high_current_clean:
  "no_errors (high_current_net_violations nid n segs w) \<longleftrightarrow> (\<forall>s\<in>set segs. fl (w - fl (1 / 1000)) \<le> ts_width s)"
  by (auto simp: high_current_net_violations_def no_errors_def not_less)

lemma currents_clean [simp]: "no_errors (check_high_current_trace_width env d) \<longleftrightarrow> currents_ok env d"
proof (cases "des_routing d")
  case None
  then show ?thesis by (auto simp: check_high_current_trace_width_def currents_ok_def trace_segments_def)
next
  case (Some r)
  have "no_errors (case high_current_min_width env n of None \<Rightarrow> []
                   | Some w \<Rightarrow> high_current_net_violations nid n (filter (\<lambda>s. ts_net_id s = nid) (trace_segments d)) w)
      \<longleftrightarrow> (\<forall>s\<in>set (trace_segments d). ts_net_id s = nid \<longrightarrow>
            (case high_current_min_width env n of None \<Rightarrow> True | Some w \<Rightarrow> fl (w - fl (1 / 1000)) \<le> ts_width s))" for nid n
    by (auto simp: high_current_clean split: option.split)
  then show ?thesis
    by (simp add: Some check_high_current_trace_width_def currents_ok_def no_errors_concat Ball_def split_paired_all)
qed

lemma hole_reported: "hole_clearance_violation env e = Some v \<Longrightarrow> drcv_severity v = DRC_ERROR"
  by (auto simp: hole_clearance_violation_def Let_def split: prod.splits if_splits)

lemma hole_None:
  "hole_clearance_violation env e = None \<longleftrightarrow> fl (1 / 4 - fl (1 / 1000)) \<le> hole_wall_clearance env e"
  by (auto simp: hole_clearance_violation_def Let_def split: prod.splits)

lemma holes_clean [simp]: "no_errors (check_hole_to_hole_clearance env d) \<longleftrightarrow> holes_ok env d"
  by (simp add: check_hole_to_hole_clearance_def holes_ok_def no_errors_reported [OF hole_reported] hole_None
        split: option.split)

section \<open>Checks that classify nets\<close>

text \<open>A run changes the classes at most once: classifying is idempotent.\<close>

definition reclassified :: "drc_env \<Rightarrow> design \<Rightarrow> design set" where
  "reclassified env d = {d, classify_design (de_walk env) d}"

lemma reclassified_self [simp, intro]: "d \<in> reclassified env d"
  by (simp add: reclassified_def)

lemma classify_twice [simp]: "classify_design walk (classify_design walk d) = classify_design walk d"
  by (rule classify_settled) (simp_all add: net_keys_classified)

lemma reclassified_trans: "d' \<in> reclassified env d \<Longrightarrow> d'' \<in> reclassified env d' \<Longrightarrow> d'' \<in> reclassified env d"
  by (auto simp: reclassified_def)

lemma classify_design_lookups:
  "get_component (classify_design walk d) = get_component d"
  "collect_connected_types (classify_design walk d) = collect_connected_types d"
  "classify_by_pin_types walk' (classify_design walk d) = classify_by_pin_types walk' d"
  "classify_net walk' (classify_design walk d) = classify_net walk' d"
proof -
  show comp: "get_component (classify_design walk d) = get_component d"
    by (rule ext) (simp only: get_component_def classify_design_fields)
  show types: "collect_connected_types (classify_design walk d) = collect_connected_types d"
    by (rule ext) (simp only: collect_connected_types_def comp)
  show pins: "classify_by_pin_types walk' (classify_design walk d) = classify_by_pin_types walk' d"
    by (intro ext) (simp only: classify_by_pin_types_def types classify_design_fields)
  show "classify_net walk' (classify_design walk d) = classify_net walk' d"
    by (intro ext) (simp only: classify_net_def pins)
qed

lemma class_of_classified: "class_of env (classify_design (de_walk env) d) nid = class_of env d nid"
  by (simp add: class_of_def get_net_class_eq classify_design_lookups split: option.split)

lemma class_of_reclassified: "d' \<in> reclassified env d \<Longrightarrow> class_of env d' = class_of env d"
  by (auto simp: reclassified_def class_of_classified fun_eq_iff)

lemma class_lookup:
  obtains d' where "get_net_class (de_walk env) nid d = (class_of env d nid, d')" "d' \<in> reclassified env d"
proof
  show "get_net_class (de_walk env) nid d = (class_of env d nid, snd (get_net_class (de_walk env) nid d))"
    by (simp add: class_of_def)
  show "snd (get_net_class (de_walk env) nid d) \<in> reclassified env d"
    by (simp add: get_net_class_eq reclassified_def split: option.split)
qed

lemma rule_found: "get_rule CLASS_RULES (class_of env d nid) = Inr (rule_of env d nid)"
  by (cases "class_of env d nid") (simp_all add: rule_of_def get_rule_def CLASS_RULES_def dict_get_def)

lemma width_scan_clean:
  obtains vs d' where "width_scan env CLASS_RULES ss vio d = (Inr (vio @ vs), d')" "d' \<in> reclassified env d"
    and "no_errors vs \<longleftrightarrow>
      (\<forall>s\<in>set ss. fl (ncr_trace_width (rule_of env d (ts_net_id s)) - fl (1 / 1000)) \<le> ts_width s)"
proof (induction ss arbitrary: vio d thesis)
  case Nil
  then show ?case by (simp add: reclassified_def)
next
  case (Cons s ss)
  obtain d1 where d1: "get_net_class (de_walk env) (ts_net_id s) d = (class_of env d (ts_net_id s), d1)"
    "d1 \<in> reclassified env d"
    by (rule class_lookup)
  have same: "rule_of env d1 = rule_of env d"
    using class_of_reclassified [OF d1(2)] by (simp add: rule_of_def fun_eq_iff)
  let ?narrow = "ts_width s < fl (ncr_trace_width (rule_of env d (ts_net_id s)) - fl (1 / 1000))"
  obtain v where step: "width_scan env CLASS_RULES (s # ss) vio d
      = width_scan env CLASS_RULES ss (if ?narrow then vio @ [v] else vio) d1" "drcv_severity v = DRC_ERROR"
    using that [of "drc_viol ''DRC-002'' DRC_ERROR _ _ _ None"] by (simp add: d1(1) rule_found)
  obtain vs d2 where rest: "width_scan env CLASS_RULES ss (if ?narrow then vio @ [v] else vio) d1
      = (Inr ((if ?narrow then vio @ [v] else vio) @ vs), d2)" "d2 \<in> reclassified env d1"
    "no_errors vs \<longleftrightarrow> (\<forall>s\<in>set ss. fl (ncr_trace_width (rule_of env d1 (ts_net_id s)) - fl (1 / 1000)) \<le> ts_width s)"
    by (rule Cons.IH)
  show ?case
    using step rest d1(2)
    by (intro Cons.prems [of "(if ?narrow then [v] else []) @ vs" d2]) (auto simp: same not_less intro: reclassified_trans)
qed

lemma via_scan_clean:
  obtains vs d' where "via_scan env CLASS_RULES cs vio d = (Inr (vio @ vs), d')" "d' \<in> reclassified env d"
    and "no_errors vs \<longleftrightarrow> (\<forall>(nid, c)\<in>set cs. int c \<le> ncr_max_vias (rule_of env d nid))"
proof (induction cs arbitrary: vio d thesis)
  case Nil
  then show ?case by (simp add: reclassified_def)
next
  case (Cons e cs)
  obtain nid c where e: "e = (nid, c)" by fastforce
  obtain d1 where d1: "get_net_class (de_walk env) nid d = (class_of env d nid, d1)" "d1 \<in> reclassified env d"
    by (rule class_lookup)
  have same: "rule_of env d1 = rule_of env d"
    using class_of_reclassified [OF d1(2)] by (simp add: rule_of_def fun_eq_iff)
  let ?many = "ncr_max_vias (rule_of env d nid) < int c"
  obtain v where step: "via_scan env CLASS_RULES (e # cs) vio d
      = via_scan env CLASS_RULES cs (if ?many then vio @ [v] else vio) d1" "drcv_severity v = DRC_ERROR"
    using that [of "drc_viol ''DRC-006'' DRC_ERROR _ None _ None"] by (simp add: e d1(1) rule_found)
  obtain vs d2 where rest: "via_scan env CLASS_RULES cs (if ?many then vio @ [v] else vio) d1
      = (Inr ((if ?many then vio @ [v] else vio) @ vs), d2)" "d2 \<in> reclassified env d1"
    "no_errors vs \<longleftrightarrow> (\<forall>(nid, c)\<in>set cs. int c \<le> ncr_max_vias (rule_of env d1 nid))"
    by (rule Cons.IH)
  show ?case
    using step rest d1(2)
    by (intro Cons.prems [of "(if ?many then [v] else []) @ vs" d2]) (auto simp: e same not_less intro: reclassified_trans)
qed

lemma fold_count_via:
  "dict_get (fold count_via ss cs) nid =
     (if count_if (\<lambda>t. ts_net_id t = nid) ss = 0 then dict_get cs nid
      else Some (count_if (\<lambda>t. ts_net_id t = nid) ss + (case dict_get cs nid of None \<Rightarrow> 0 | Some c \<Rightarrow> c)))"
proof (induction ss arbitrary: cs)
  case Nil
  then show ?case by simp
next
  case (Cons s ss)
  have "dict_get (count_via s cs) nid =
      (if ts_net_id s = nid then Some (Suc (case dict_get cs nid of None \<Rightarrow> 0 | Some c \<Rightarrow> c)) else dict_get cs nid)"
    by (auto simp: count_via_def pydict.get_put)
  then show ?case by (simp add: Cons.IH)
qed

lemma via_counts_get:
  "dict_get (via_counts segs) nid = (if vias_of nid segs = 0 then None else Some (vias_of nid segs))"
proof -
  have "count_if (\<lambda>t. ts_net_id t = nid) (filter ts_via segs) = vias_of nid segs"
    by (simp add: vias_of_def count_if_def conj_commute)
  then show ?thesis by (simp add: via_counts_def fold_count_via)
qed

lemma via_counts_wf: "dict_wf (via_counts segs)"
proof -
  have "dict_wf cs \<Longrightarrow> dict_wf (fold count_via ss cs)" for ss cs
    by (induction ss arbitrary: cs) (simp_all add: count_via_def pydict.wf_put)
  then show ?thesis by (simp add: via_counts_def)
qed

lemma vias_iff:
  "(\<forall>(nid, c)\<in>set (via_counts segs). int c \<le> limit nid) \<longleftrightarrow>
   (\<forall>s\<in>set segs. ts_via s \<longrightarrow> int (vias_of (ts_net_id s) segs) \<le> limit (ts_net_id s))"
proof -
  have entry: "(nid, c) \<in> set (via_counts segs) \<longleftrightarrow> c = vias_of nid segs \<and> (\<exists>s\<in>set segs. ts_via s \<and> ts_net_id s = nid)" for nid c
  proof -
    have "(nid, c) \<in> set (via_counts segs) \<longleftrightarrow> dict_get (via_counts segs) nid = Some c"
      by (rule iffI) (erule dict_get_of_mem [OF via_counts_wf], erule dict_get_mem)
    moreover have "vias_of nid segs \<noteq> 0 \<longleftrightarrow> (\<exists>s\<in>set segs. ts_via s \<and> ts_net_id s = nid)"
      by (auto simp: vias_of_def count_if_0_iff)
    ultimately show ?thesis by (auto simp: via_counts_get)
  qed
  have "(\<forall>(nid, c)\<in>set (via_counts segs). int c \<le> limit nid)
      \<longleftrightarrow> (\<forall>nid c. (nid, c) \<in> set (via_counts segs) \<longrightarrow> int c \<le> limit nid)"
    by auto
  then show ?thesis unfolding entry by blast
qed

section \<open>A run on canonical routing\<close>

text \<open>Routing whose net references are already canonical stays as it is.\<close>

definition canonical_refs :: "design \<Rightarrow> bool" where
  "canonical_refs d = (fst (canonical_routing_net_ids d (des_routing d)) = des_routing d)"

lemma canonical_net_id_classified: "canonical_net_id (classify_design walk d) = canonical_net_id d"
  by (rule ext) (simp only: canonical_net_id_def classify_design_fields)

lemma canonical_classified: "canonical_routing_net_ids (classify_design walk d) r = canonical_routing_net_ids d r"
proof -
  have c: "canonical (classify_design walk d) = canonical d"
    by (rule ext) (simp only: canonical_def canonical_net_id_classified)
  have "canonical_via (classify_design walk d) v = canonical_via d v" for v
    by (cases v) (simp_all only: canonical_via.simps c)
  then show ?thesis
    by (cases r) (simp_all add: canonical_routing_eq c canonical_net_id_classified canonical_routing_net_ids_def [of _ None])
qed

lemma canonical_refs_reclassified: "d' \<in> reclassified env d \<Longrightarrow> canonical_refs d \<Longrightarrow> canonical_refs d'"
  by (auto simp: reclassified_def canonical_refs_def canonical_classified)

lemma trace_segments_classified: "trace_segments (classify_design walk d) = trace_segments d"
  by (simp add: trace_segments_def)

lemma early_predicates:
  assumes "d' \<in> reclassified env d"
  shows "clearance_ok env d' = clearance_ok env d" "widths_ok env d' = widths_ok env d" "routed_ok d' = routed_ok d"
  using assms class_of_reclassified [OF assms]
  by (auto simp: reclassified_def clearance_ok_def widths_ok_def routed_ok_def rule_of_def trace_segments_classified)

lemma check_unrouted_clean:
  assumes "canonical_refs d"
  obtains vs where "check_unrouted_nets d = (Inr vs, d)" "no_errors vs \<longleftrightarrow> routed_ok d"
proof (cases "des_routing d")
  case None
  then show ?thesis
    using that by (auto simp: check_unrouted_nets_def routed_ok_def trace_segments_def no_errors_def unrouted_violation_def)
next
  case (Some r)
  then have "d\<lparr> des_routing := fst (canonical_routing_net_ids d (Some r)) \<rparr> = d"
    using assms by (simp add: canonical_refs_def)
  then have "check_unrouted_nets d = (Inr (map (unrouted_violation '') not routed (no trace segments)'')
      (filter (\<lambda>(nid, n). 2 \<le> length (net_nodes n) \<and> nid \<notin> set (map ts_net_id (trace_segments d))) (des_nets d))), d)"
    by (simp only: check_unrouted_nets_def Some option.case Let_def)
  then show ?thesis
    by (rule that) (auto simp: routed_ok_def no_errors_def unrouted_violation_def)
qed

lemma check_vias_clean:
  obtains vs d' where "check_via_count env CLASS_RULES d = (Inr vs, d')" "d' \<in> reclassified env d"
    "no_errors vs \<longleftrightarrow> vias_ok env d"
proof (cases "des_routing d")
  case None
  then show ?thesis using that by (simp add: check_via_count_def vias_ok_def trace_segments_def)
next
  case (Some r)
  then show ?thesis
    using that via_scan_clean [of env "via_counts (trace_segments d)" "[]" d]
    by (auto simp: check_via_count_def vias_ok_def vias_iff)
qed

lemma outcome_plain [simp]: "check_outcome (rid, plain_check f) d = (f d, d)"
  by (simp add: check_outcome_def plain_check_def)

lemma outcome_ok: "check d = (Inr vs, d') \<Longrightarrow> check_outcome (rid, check) d = (vs, d')"
  by (simp add: check_outcome_def)

lemma vias_reclassified: "d' \<in> reclassified env d \<Longrightarrow> vias_ok env d' = vias_ok env d"
  using class_of_reclassified [of d' env d]
  by (auto simp: reclassified_def vias_ok_def rule_of_def trace_segments_classified)

lemma all_checks_clean:
  assumes "canonical_refs d"
  obtains vs d' where "run_all_checks (ALL_CHECKS env CLASS_RULES) d = (vs, d')" "d' \<in> reclassified env d"
    "no_errors vs \<longleftrightarrow> board_clean env d'"
proof -
  obtain vs2 d2 where w: "check_trace_width env CLASS_RULES d = (Inr vs2, d2)" "d2 \<in> reclassified env d"
    "no_errors vs2 \<longleftrightarrow> widths_ok env d"
    using width_scan_clean [of env "trace_segments d" "[]" d] by (auto simp: check_trace_width_def widths_ok_def)
  obtain vs5 where u: "check_unrouted_nets d2 = (Inr vs5, d2)" "no_errors vs5 \<longleftrightarrow> routed_ok d2"
    using check_unrouted_clean [OF canonical_refs_reclassified [OF w(2) assms]] by blast
  obtain vs6 d3 where v: "check_via_count env CLASS_RULES d2 = (Inr vs6, d3)" "d3 \<in> reclassified env d2"
    "no_errors vs6 \<longleftrightarrow> vias_ok env d2"
    by (rule check_vias_clean)
  have d3: "d3 \<in> reclassified env d" using w(2) v(2) by (rule reclassified_trans)
  note steps = outcome_ok [of "check_trace_width env CLASS_RULES", OF w(1)] outcome_ok [of check_unrouted_nets, OF u(1)]
    outcome_ok [of "check_via_count env CLASS_RULES", OF v(1)]
  show ?thesis
    by (rule that [OF _ d3], simp add: ALL_CHECKS_def steps)
       (simp add: w(3) u(2) v(3) board_clean_def early_predicates [OF d3] early_predicates(3) [OF w(2)]
          vias_reclassified [OF v(2)])
qed

lemma drc_result_fields:
  "des_nets (d\<lparr> des_drc_result := x \<rparr>) = des_nets d" "des_components (d\<lparr> des_drc_result := x \<rparr>) = des_components d"
  "des_routing (d\<lparr> des_drc_result := x \<rparr>) = des_routing d" "des_placement (d\<lparr> des_drc_result := x \<rparr>) = des_placement d"
  "des_board (d\<lparr> des_drc_result := x \<rparr>) = des_board d" "des_board_def (d\<lparr> des_drc_result := x \<rparr>) = des_board_def d"
  "des_net_classes (d\<lparr> des_drc_result := x \<rparr>) = des_net_classes d"
  by simp_all

lemma drc_result_lookups:
  "canonical_net_id (d\<lparr> des_drc_result := x \<rparr>) = canonical_net_id d"
  "get_component (d\<lparr> des_drc_result := x \<rparr>) = get_component d"
  "classes_of (d\<lparr> des_drc_result := x \<rparr>) = classes_of d"
  "collect_connected_types (d\<lparr> des_drc_result := x \<rparr>) = collect_connected_types d"
  "classify_by_pin_types walk (d\<lparr> des_drc_result := x \<rparr>) = classify_by_pin_types walk d"
  "classify_net walk (d\<lparr> des_drc_result := x \<rparr>) = classify_net walk d"
  "class_of env (d\<lparr> des_drc_result := x \<rparr>) = class_of env d"
  "trace_segments (d\<lparr> des_drc_result := x \<rparr>) = trace_segments d"
proof -
  show "canonical_net_id (d\<lparr> des_drc_result := x \<rparr>) = canonical_net_id d"
    by (rule ext) (simp only: canonical_net_id_def drc_result_fields)
  show comp: "get_component (d\<lparr> des_drc_result := x \<rparr>) = get_component d"
    by (rule ext) (simp only: get_component_def drc_result_fields)
  show classes: "classes_of (d\<lparr> des_drc_result := x \<rparr>) = classes_of d"
    by (simp add: classes_of_def)
  show types: "collect_connected_types (d\<lparr> des_drc_result := x \<rparr>) = collect_connected_types d"
    by (rule ext) (simp only: collect_connected_types_def comp)
  show pins: "classify_by_pin_types walk (d\<lparr> des_drc_result := x \<rparr>) = classify_by_pin_types walk d" for walk
    by (intro ext) (simp only: classify_by_pin_types_def types drc_result_fields)
  show net: "classify_net walk (d\<lparr> des_drc_result := x \<rparr>) = classify_net walk d" for walk
    by (intro ext) (simp only: classify_net_def pins)
  show "class_of env (d\<lparr> des_drc_result := x \<rparr>) = class_of env d"
    by (rule ext) (simp add: class_of_def get_net_class_eq classes net split: option.split)
  show "trace_segments (d\<lparr> des_drc_result := x \<rparr>) = trace_segments d"
    by (simp add: trace_segments_def)
qed

lemma board_clean_stored: "board_clean env (d\<lparr> des_drc_result := x \<rparr>) = board_clean env d"
  by (simp only: board_clean_def clearance_ok_def widths_ok_def routed_ok_def vias_ok_def placement_ok_def rings_ok_def
        edges_ok_def slivers_ok_def corners_ok_def high_voltage_ok_def currents_ok_def holes_ok_def drc_result_lookups
        rule_of_def component_placement_limits_def min_annular_ring_def board_edge_outline_def solder_mask_limits_def
        high_voltage_net_ids_def high_voltage_min_clearance_def drc_result_fields)

lemma sorted_by_severity: "sorted (map (\<lambda>v. severity_order (drcv_severity v)) (drcr_violations (drc_result_of name vs)))"
  by (simp add: drc_result_of_def Let_def)

lemma severity_partition: "count_if (\<lambda>v. drcv_severity v = DRC_ERROR) vs + count_if (\<lambda>v. drcv_severity v = DRC_WARNING) vs
    + count_if (\<lambda>v. drcv_severity v = DRC_INFO) vs = length vs"
proof (induction vs)
  case (Cons v vs)
  then show ?case by (cases "drcv_severity v") simp_all
qed simp

lemma drc_result_counts:
  "drcr_errors (drc_result_of name vs) + drcr_warnings (drc_result_of name vs) + drcr_info (drc_result_of name vs)
     = drcr_total_violations (drc_result_of name vs)"
proof -
  define ws where "ws = sort_key (\<lambda>v. severity_order (drcv_severity v)) vs"
  show ?thesis
    using severity_partition [of ws] by (simp add: drc_result_of_def Let_def severity_count_def ws_def [symmetric])
qed

lemma drc_run_clean:
  assumes "canonical_refs d"
  obtains vs d' where "drc_run env default_engine d =
      (Inr (drc_result_of (meta_name (des_meta d)) vs), d'\<lparr> des_drc_result := Some (drc_result_of (meta_name (des_meta d)) vs) \<rparr>)"
    "d' \<in> reclassified env d" "no_errors vs \<longleftrightarrow> board_clean env d'"
proof -
  define d1 where "d1 = (if classes_of d = [] then classify_design (de_walk env) d else d)"
  have d1: "d1 \<in> reclassified env d" by (simp add: d1_def reclassified_def)
  then have "canonical_refs d1" by (rule canonical_refs_reclassified [OF _ assms])
  then obtain vs d' where run: "run_all_checks (ALL_CHECKS env CLASS_RULES) d1 = (vs, d')" "d' \<in> reclassified env d1"
    "no_errors vs \<longleftrightarrow> board_clean env d'"
    by (rule all_checks_clean)
  show ?thesis
    using run reclassified_trans [OF d1 run(2)]
    by (intro that [of vs d']) (simp_all add: drc_run_def d1_def default_engine_def enabled_checks_def Let_def)
qed

text \<open>A design whose nets all have a class keeps them.\<close>

lemma settled_run:
  assumes "canonical_refs d" "des_net_classes d \<noteq> None" "set (dict_keys (des_nets d)) \<subseteq> set (dict_keys (classes_of d))"
  obtains r where "drc_run env default_engine d = (Inr r, d\<lparr> des_drc_result := Some r \<rparr>)" "drcr_passed r \<longleftrightarrow> board_clean env d"
proof -
  have "reclassified env d = {d}"
    using classify_settled [OF assms(2,3)] by (simp add: reclassified_def)
  then show ?thesis
    using that drc_run_clean [OF assms(1), of env] by (metis passed_iff singletonD)
qed

section \<open>Properties\<close>


section \<open>Boards the rules let through\<close>

text \<open>The C library's power function at the exponent two; angles play no part in the examples.\<close>

definition exact_env :: drc_env where
  "exact_env = \<lparr> de_pow = (\<lambda>x y. fl (x * x)), de_acos = (\<lambda>x. 0), de_repr = (\<lambda>x. []), de_net_text = net_name,
     de_walk = (\<lambda>ts. ts) \<rparr>"

definition signal_trace :: "string \<Rightarrow> point \<Rightarrow> point \<Rightarrow> trace_segment" where
  "signal_trace nid p q = \<lparr> ts_layer = ''F.Cu'', ts_start = p, ts_end = q, ts_width = 1 / 4, ts_net_id = nid, ts_via = False,
     ts_via_diameter = 0, ts_via_hole = 0 \<rparr>"

definition routed_with :: "(string, net) dict \<Rightarrow> (string, net_class) dict \<Rightarrow> trace_segment list \<Rightarrow> design" where
  "routed_with ns cs ts = (mk_design ''board'' [] ns)
     \<lparr> des_net_classes := Some cs,
       des_routing := Some \<lparr> rr_traces = ts, rr_vias = [], rr_layers_used = [''F.Cu''], rr_total_trace_length_mm = 0,
         rr_net_count = 0, rr_routed_net_count = 0 \<rparr> \<rparr>"

definition two_node_net :: "string \<Rightarrow> string \<Rightarrow> string \<times> net" where
  "two_node_net nid name = (nid, mk_net nid name NET_SIGNAL [mk_node ''U1'' ''1'', mk_node ''U2'' ''1''])"

text \<open>
  Two traces of different nets on one layer, crossing in the middle. The closest points of their lines
  are computed from the vector between the start points with the wrong sign, so both parameters are
  cut to 0 and the distance found is that of the start points.
\<close>

definition crossing_design :: design where
  "crossing_design = routed_with [two_node_net ''n1'' ''A'', two_node_net ''n2'' ''B''] [(''n1'', SIGNAL_LOW), (''n2'', SIGNAL_LOW)]
     [signal_trace ''n1'' (10, 10) (20, 20), signal_trace ''n2'' (10, 20) (20, 10)]"

lemma rounded_limits:
  "fl (fl (1 / 5) - fl (1 / 1000)) \<le> 1 / 4" "fl (fl (3 / 10) - fl (1 / 1000)) \<le> 10" "fl (fl (1 / 10) - fl (1 / 1000)) \<le> 1 / 10"
  "1 / 4 < fl (fl (1 / 2) - fl (1 / 1000))" "fl (1 / 10 ^ 12) \<le> 1"
  by code_simp+

lemma rounded_halves: "fl (- (1 / 2)) = - (1 / 2)" "fl (79 / 8) = 79 / 8" "fl (39 / 4) = 39 / 4"
  using fl_double [of "- 1" 1] fl_double [of 79 3] fl_double [of 39 2] by simp_all

lemma crossing_distance:
  "segment_min_distance exact_env (signal_trace ''n1'' (10, 10) (20, 20)) (signal_trace ''n2'' (10, 20) (20, 10)) = 10"
  "trace_pair_clearance exact_env (signal_trace ''n1'' (10, 10) (20, 20)) (signal_trace ''n2'' (10, 20) (20, 10)) = 39 / 4"
proof -
  show d: "segment_min_distance exact_env (signal_trace ''n1'' (10, 10) (20, 20)) (signal_trace ''n2'' (10, 20) (20, 10)) = 10"
    using rounded_limits(5) fl_sqrt_square [of 10]
    by (simp add: segment_min_distance_def segment_segment_distance_def signal_trace_def vec_def vec_dot_def along_def
          clamp01_def point_dist_def exact_env_def rounded_halves)
  show "trace_pair_clearance exact_env (signal_trace ''n1'' (10, 10) (20, 20)) (signal_trace ''n2'' (10, 20) (20, 10)) = 39 / 4"
    by (simp only: trace_pair_clearance_def d) (simp add: signal_trace_def rounded_halves)
qed

lemma crossing_settled:
  "canonical_refs crossing_design" "des_net_classes crossing_design \<noteq> None"
  "set (dict_keys (des_nets crossing_design)) \<subseteq> set (dict_keys (classes_of crossing_design))"
  by code_simp+

lemmas example_defs = routed_with_def two_node_net_def signal_trace_def mk_design_def mk_meta_def mk_net_def default_board_def

lemma crossing_traces: "trace_segments crossing_design = [signal_trace ''n1'' (10, 10) (20, 20), signal_trace ''n2'' (10, 20) (20, 10)]"
  by (simp add: crossing_design_def routed_with_def trace_segments_def)

lemma crossing_fields:
  "des_board crossing_design = default_board" "des_board_def crossing_design = None" "des_placement crossing_design = None"
  "des_nets crossing_design = [two_node_net ''n1'' ''A'', two_node_net ''n2'' ''B'']"
  "classes_of crossing_design = [(''n1'', SIGNAL_LOW), (''n2'', SIGNAL_LOW)]"
  by (simp_all add: crossing_design_def routed_with_def classes_of_def mk_design_def)

lemma signal_low_rule: "class_of env d nid = SIGNAL_LOW \<Longrightarrow> ncr_trace_width (rule_of env d nid) = fl (1 / 5)"
  by (simp add: rule_of_def CLASS_RULES_def dict_get_def class_rule_def)

lemma crossing_classes: "class_of env crossing_design ''n1'' = SIGNAL_LOW" "class_of env crossing_design ''n2'' = SIGNAL_LOW"
  by (simp_all add: class_of_def get_net_class_eq crossing_fields dict_get_def)

lemma crossing_edges: "edges_ok crossing_design"
proof -
  have gaps: "rectangular_edge_distance (10, 10) (board_edge_outline crossing_design) = Some 10"
    "rectangular_edge_distance (20, 20) (board_edge_outline crossing_design) = Some 20"
    "rectangular_edge_distance (10, 20) (board_edge_outline crossing_design) = Some 10"
    "rectangular_edge_distance (20, 10) (board_edge_outline crossing_design) = Some 10"
    by (simp_all add: rectangular_edge_distance_def board_edge_outline_def crossing_fields default_board_def)
  have "fl (fl (3 / 10) - fl (1 / 1000)) \<le> 20" using rounded_limits(2) by linarith
  then show ?thesis
    using rounded_limits(2) by (simp add: edges_ok_def crossing_traces signal_trace_def gaps)
qed

lemma crossing_clean: "board_clean exact_env crossing_design"
proof -
  have "clearance_ok exact_env crossing_design"
    by (simp add: clearance_ok_def crossing_traces crossing_distance crossing_fields default_board_def)
  moreover have "widths_ok exact_env crossing_design"
    using rounded_limits(1)
    by (simp add: widths_ok_def crossing_traces signal_trace_def signal_low_rule crossing_classes)
  moreover have "routed_ok crossing_design"
    by (simp add: routed_ok_def crossing_traces crossing_fields two_node_net_def signal_trace_def)
  moreover have "vias_ok exact_env crossing_design" "rings_ok crossing_design" "placement_ok crossing_design"
    by (simp_all add: vias_ok_def rings_ok_def placement_ok_def crossing_traces signal_trace_def crossing_fields split: option.split)
  moreover have "slivers_ok exact_env crossing_design"
    using rounded_limits(3)
    by (simp add: slivers_ok_def solder_mask_limits_def crossing_traces crossing_distance crossing_fields default_board_def Let_def)
  moreover have "corners_ok exact_env crossing_design"
    by (simp add: corners_ok_def crossing_traces group_segments_by_net_layer_def dedup_def signal_trace_def simple_trace_joints_def)
  moreover have "high_voltage_ok exact_env crossing_design"
    by (simp add: high_voltage_ok_def high_voltage_net_ids_def crossing_fields)
  moreover have "currents_ok exact_env crossing_design"
    by (simp add: currents_ok_def crossing_fields two_node_net_def mk_net_def high_current_min_width_def)
  moreover have "holes_ok exact_env crossing_design"
    by (simp add: holes_ok_def crossing_design_def routed_with_def routing_drilled_holes_def signal_trace_def)
  ultimately show ?thesis using crossing_edges by (simp add: board_clean_def)
qed

theorem crossing_short_passes:
  "map (\<lambda>s. (ts_layer s, (fst (ts_start s) + fst (ts_end s)) / 2, (snd (ts_start s) + snd (ts_end s)) / 2))
       (trace_segments crossing_design) = [(''F.Cu'', 15, 15), (''F.Cu'', 15, 15)]
   \<and> distinct (map ts_net_id (trace_segments crossing_design))
   \<and> (case drc_run exact_env default_engine crossing_design of (Inr r, d) \<Rightarrow> drcr_passed r | _ \<Rightarrow> False)"
proof -
  obtain r where "drc_run exact_env default_engine crossing_design = (Inr r, crossing_design\<lparr> des_drc_result := Some r \<rparr>)"
    "drcr_passed r"
    using settled_run [OF crossing_settled, of exact_env] crossing_clean by blast
  then show ?thesis by (simp add: crossing_traces signal_trace_def)
qed


text \<open>
  The width of a trace is compared before the references are rewritten: a trace that names its net
  instead of giving the id counts as an unclassified signal, and fails once its reference is canonical.
\<close>

definition alias_width_design :: design where
  "alias_width_design = routed_with [two_node_net ''n1'' ''VCC''] [(''n1'', POWER_MED)] [signal_trace ''VCC'' (10, 10) (20, 10)]"

lemma alias_rewritten:
  "snd (check_unrouted_nets alias_width_design)
     = routed_with [two_node_net ''n1'' ''VCC''] [(''n1'', POWER_MED)] [signal_trace ''n1'' (10, 10) (20, 10)]"
  by code_simp

lemma medium_power_rule: "class_of env d nid = POWER_MED \<Longrightarrow> ncr_trace_width (rule_of env d nid) = fl (1 / 2)"
  by (simp add: rule_of_def CLASS_RULES_def dict_get_def class_rule_def)

theorem width_read_before_rewriting:
  "widths_ok exact_env alias_width_design \<and> \<not> widths_ok exact_env (snd (check_unrouted_nets alias_width_design))"
proof -
  have traces: "trace_segments (routed_with ns cs ts) = ts" "classes_of (routed_with ns cs ts) = cs"
    "des_nets (routed_with ns cs ts) = ns" for ns cs ts
    by (simp_all add: routed_with_def trace_segments_def classes_of_def mk_design_def)
  have c: "class_of exact_env alias_width_design ''VCC'' = SIGNAL_LOW"
    "class_of exact_env (routed_with [two_node_net ''n1'' ''VCC''] [(''n1'', POWER_MED)] ts) ''n1'' = POWER_MED" for ts
    by (simp_all add: class_of_def get_net_class_eq alias_width_design_def traces dict_get_def two_node_net_def)
  have "widths_ok exact_env alias_width_design"
    using rounded_limits(1) signal_low_rule [OF c(1)]
    by (simp add: widths_ok_def alias_width_design_def traces signal_trace_def)
  moreover have "\<not> widths_ok exact_env (snd (check_unrouted_nets alias_width_design))"
    using rounded_limits(4) medium_power_rule [OF c(2)]
    by (simp add: widths_ok_def alias_rewritten traces signal_trace_def)
  ultimately show ?thesis ..
qed

text \<open>A trace far beyond the edge of the board keeps its distance from the edge.\<close>

theorem trace_off_board_passes:
  "check_board_edge_clearance
     (routed_with [two_node_net ''n1'' ''A''] [(''n1'', SIGNAL_LOW)] [signal_trace ''n1'' (200, 40) (210, 40)]) = []"
proof -
  have "rectangular_edge_distance p [(0, 0), (100, 0), (100, 80), (0, 80)] = Some 40" if "p \<in> {(200, 40), (210, 40)}" for p
    using that by (auto simp: rectangular_edge_distance_def)
  then have "board_edge_violation (signal_trace ''n1'' (200, 40) (210, 40)) [(0, 0), (100, 0), (100, 80), (0, 80)] (fl (3 / 10)) = None"
    using rounded_limits(2) by (simp add: edge_None signal_trace_def)
  then show ?thesis
    by (simp add: check_board_edge_clearance_def board_edge_outline_def routed_with_def mk_design_def default_board_def
          trace_segments_def Let_def)
qed

theorem edges_of_polygons_unchecked: "length (board_edge_outline d) \<noteq> 4 \<Longrightarrow> check_board_edge_clearance d = []"
proof -
  assume "length (board_edge_outline d) \<noteq> 4"
  then have "board_edge_violation s (board_edge_outline d) m = None" for s m
    by (simp add: edge_None edge_distance_None)
  then show ?thesis by (simp add: check_board_edge_clearance_def Let_def option_list_def)
qed

text \<open>Without limits of its own, a board that keeps 0.1 mm never has a mask sliver reported.\<close>

theorem sliver_rule_dead:
  assumes "des_board_def d = None" "1 / 10 \<le> board_min_clearance_mm (des_board d)"
  shows "check_solder_mask_sliver env d = []"
proof -
  have "solder_mask_sliver_violation env (fl (1 / 10)) (board_min_clearance_mm (des_board d)) e = None" for e
    using rounded_limits(3) assms(2) by (cases e) (auto simp: sliver_None Let_def)
  then show ?thesis
    using assms(1) by (simp add: check_solder_mask_sliver_def solder_mask_limits_def option_list_def)
qed

text \<open>Rules of the engine's own table that no check has.\<close>

theorem documented_rules_missing:
  "set [''DRC-004'', ''DRC-007'', ''DRC-008'', ''DRC-009''] \<inter> set (map fst (ALL_CHECKS env rules)) = {}"
  by (simp add: ALL_CHECKS_def)

end
