(* ===== verification/Spec2Isabelle.thy ===== *)
theory Spec2Isabelle
  imports
    ERC_Properties
    Net_Identity
    Design_Diff
    Sexp_Codec
    Signoff_Policy
    Review_Workflow
    Access_Control
    Verify_Repair
    Rate_Limit
    State_Store
    Transactions
    Object_Access
    Grid_Demo
    Plugin_Admission
    MCP_Auth
    Agent_Workflow
    Agent_Candidates
    Release_Gate
    Tool_Execution
    Execution_Locks
    MCP_Tools
    DRC_Engine
begin

text \<open>
  A verification development for ZapTrace, an electronic-design kernel driven by agents (the Python
  package \<^verbatim>\<open>src/zaptrace\<close>). Agents edit designs in sessions through tools; rules check the designs,
  a bounded loop repairs them, people review and approve them, and a gate decides whether they may be
  released to fabrication. The development models the part of the program that makes these decisions
  and keeps its state.

  \<^bold>\<open>The parts and how they interact.\<close> A request enters through the MCP server: the transport checks the
  token (\<open>MCP_Auth\<close>), the wrapper around every tool checks parameters, scopes, access to the session and
  capabilities (\<open>MCP_Tools\<close>, with \<open>Object_Access\<close> and \<open>Access_Control\<close>). A tool that changes a session runs
  in a process of its own under the locks of its session and of its outputs (\<open>Execution_Locks\<close>), and its
  outputs and its state are committed together (\<open>Tool_Execution\<close>, \<open>Tool_Staging\<close>). Designs, snapshots, reviews
  and access records are rows of a SQLite store (\<open>State_Store\<close>, \<open>Transactions\<close>, \<open>Review_Workflow\<close>). The
  electrical rules (\<open>ERC_Rules\<close>, \<open>ERC_Runner\<close>), the design rules (\<open>DRC_Engine\<close>) and other gates drive the repair loop (\<open>Verify_Repair\<close>), their
  results are evidence for sign-off (\<open>Signoff_Policy\<close>) and for the release gate (\<open>Release_Gate\<close>, with
  \<open>Footprint_Proof\<close>). The grid router (\<open>Grid_Map\<close> and the theories after it) makes the traces.

  \<^bold>\<open>Theories and code.\<close> Names of definitions are the code's, without the leading underscore; a record
  has the fields of the class or of the dictionary it stands for, with a prefix of two letters.

  \<^item> \<open>Zap_Prelude\<close>: values of Python, dictionaries (locale \<open>kv_store\<close>), strings, results, the sequencing
    of operations over a state that may raise. \<open>Binary_Float\<close>, \<open>Float_Format\<close>: rounding to binary64, proved to
    leave doubles alone, square roots, and numbers as text.
  \<^item> \<open>Design_Model\<close> (\<^verbatim>\<open>core/models.py\<close>), \<open>Design_Diff\<close> (\<^verbatim>\<open>core/diff.py\<close>), \<open>Net_Identity\<close>
    (\<^verbatim>\<open>core/net_identity.py\<close>), \<open>Sexp_Codec\<close> (\<^verbatim>\<open>io/sexp.py\<close>): designs, their differences, canonical net
    names, and the text format of KiCad files.
  \<^item> \<open>ERC_Models\<close>, \<open>ERC_Rules\<close>, \<open>ERC_Runner\<close>, \<open>ERC_Properties\<close> (\<^verbatim>\<open>erc/models.py\<close>, \<^verbatim>\<open>erc/graph.py\<close>,
    \<^verbatim>\<open>erc/rules.py\<close>, \<^verbatim>\<open>erc/runner.py\<close>): results, the electrical graph, the rules, and their runner. What
    the runner expects of a rule is the locale \<open>erc_rule\<close>, interpreted for every rule.
  \<^item> \<open>Net_Classifier\<close> (\<^verbatim>\<open>ee/classifier.py\<close>, \<^verbatim>\<open>ee/constraints/net_classes.py\<close>): the class of a net from the
    patterns of its name, its voltage, its pins and components. \<open>DRC_Engine\<close> (\<^verbatim>\<open>ee/drc/engine.py\<close>): the
    checks on placed and routed boards, the engine that runs them, and one predicate per check that
    says what a clean board is.
  \<^item> \<open>Grid_Map\<close>, \<open>Grid_Search\<close>, \<open>Grid_Router\<close>, \<open>Grid_Passes\<close>, \<open>Grid_Demo\<close> (\<^verbatim>\<open>algo/grid_router.py\<close>): the
    occupancy map, A* over a binary heap (locale \<open>item_queue\<close>) and the search for free cells, the routing
    of one net with its rollback, the passes, and a board on which they run.
  \<^item> \<open>Verify_Repair\<close> (\<^verbatim>\<open>pipeline/verify_repair.py\<close>, \<^verbatim>\<open>pipeline/verify_repair_models.py\<close>): the loop over
    gates and repair actions; what a gate promises is the locale \<open>state_bound_gates\<close>.
  \<^item> \<open>State_Store\<close> (\<^verbatim>\<open>core/state_store.py\<close>, \<^verbatim>\<open>core/session_store.py\<close>, \<^verbatim>\<open>core/state_store_records.py\<close>):
    the tables with their constraints, every operation as one SQL transaction, and the persistent
    mapping of designs over the locale \<open>design_repository\<close>.
  \<^item> \<open>Transactions\<close> (\<^verbatim>\<open>agent/tool_impls/transactions.py\<close>): snapshots and previewed transactions.
  \<^item> \<open>Review_Workflow\<close> (\<^verbatim>\<open>review/workflow.py\<close>, \<^verbatim>\<open>review/storage.py\<close>): review sessions as a step relation,
    and their recovery from stored records.
  \<^item> \<open>Signoff_Policy\<close> (\<^verbatim>\<open>proof/signoff.py\<close>, \<^verbatim>\<open>proof/claims.py\<close>), \<open>Footprint_Proof\<close>
    (\<^verbatim>\<open>ee/footprint_proof.py\<close>), \<open>Release_Gate\<close> (\<^verbatim>\<open>security/release.py\<close>, \<^verbatim>\<open>review/evidence.py\<close> and the tools
    that record the evidence): decisions over evidence.
  \<^item> \<open>Access_Control\<close> (\<^verbatim>\<open>security/policy.py\<close>, \<^verbatim>\<open>enterprise/rbac.py\<close>), \<open>Object_Access\<close>
    (\<^verbatim>\<open>security/objects.py\<close>), \<open>Rate_Limit\<close> (\<^verbatim>\<open>api/abuse_control.py\<close>, with the locale
    \<open>rate_limit_backend\<close>), \<open>Plugin_Admission\<close> (\<^verbatim>\<open>plugin\<close>), \<open>MCP_Auth\<close> (\<^verbatim>\<open>mcp/auth_config.py\<close>,
    \<^verbatim>\<open>mcp/oauth_provider.py\<close>, \<^verbatim>\<open>security/network.py\<close>): who may do what.
  \<^item> \<open>Agent_Workflow\<close>, \<open>Agent_Candidates\<close> (\<^verbatim>\<open>agent/workflow.py\<close>, \<^verbatim>\<open>agent/candidates.py\<close>): checkpoints of
    long workflows, and the candidates of specialist agents.
  \<^item> \<open>Tool_Staging\<close>, \<open>Tool_Execution\<close>, \<open>Execution_Locks\<close> (\<^verbatim>\<open>agent/execution.py\<close>): staged outputs, the
    coordinator of isolated runs, and the interleaving of requests over their locks (locale
    \<open>lock_registry\<close>). \<open>MCP_Tools\<close> (\<^verbatim>\<open>mcp/server.py\<close>): the wrapper of every tool, over the locale
    \<open>mutating_runner\<close>, which the coordinator is shown to satisfy.

  \<^bold>\<open>What the lemmas show.\<close> Gates fail closed: the rule runner, the repair loop, the sign-off policy, the
  release gate, plugin admission and the startup of the server pass only on the evidence they name, and
  a rule or a gate that raises is a failure. State is kept: the tables of the store, reviews, access
  records, workflows and decision logs have invariants that every operation preserves, access decisions
  and stored designs refine abstract maps, and a failed repair, a failed route, a failed tool run leaves
  what was there. The design rules pass exactly the boards their predicates describe. Searches are right: A* finds a path exactly when there is one, routed nets keep their clearance and
  join their terminals. Requests are serialized: commits to a session happen one after the other,
  there is no deadlock, and destroyed sessions stay destroyed. The text format round trips.
  Where the code does less than it says, a theorem exhibits it (for example
  \<open>DRC_Engine.crossing_short_passes\<close>, \<open>Tool_Execution.outputs_replaced_by_failed_run\<close>, \<open>Object_Access.cyclic_parents_recursion_error\<close>).

  \<^bold>\<open>Bounds.\<close> Loops are structural recursion, or recursion with a termination proof (the tokenizer and the
  parser, heap operations, rounding, the removal of pending records). \<open>Object_Access\<close> recurses along
  parents up to Python's recursion limit, which is an argument: access is decided when the ancestry is
  shorter, and the error at the limit is a result of the model, as in the code. A* makes at most the
  \<^verbatim>\<open>max_iterations\<close> of the code, and \<open>astar_correct\<close> says which number is enough. The breadth-first search
  for a free cell and the line of cells between two points carry a bound the code has not; lemmas show
  that it is not reached. The repair loop and the passes of the router are bounded by the code's own
  budgets. Rounding is to nearest even within the range of normal numbers; costs of the router stay far
  inside it.

  \<^bold>\<open>Arguments of the model.\<close> Code that is not in this package, and the outside world, are arguments with
  the documented behaviour as named hypotheses where a theorem needs it: SHA-256, JSON text and the
  pydantic codec (\<open>codec\<close>), signatures, URL and address parsing, clocks and fresh ids, the gates and
  repair adapters, what a recorded run of the design rules returned to the release gate, footprint libraries, two rules of the electrical check that read
  other packages' tables, the projection of pads onto the grid, the power and arc-cosine functions of the C library, the order of a
  set, the checks of a fabrication profile, the worker process, and failures of the
  operating system, of the durable store and of the event sink, given by the number of the call.

  \<^bold>\<open>Not modelled.\<close> The importers and exporters, the generators and synthesis, placement and the
  continuous routers, electrical analysis and the component library are numeric or textual
  transformations over formats of other programs; they are not state or decisions, and most of their
  behaviour is tables. The REST API, the command line and the viewers are glue around the modelled parts.
  Proof packs and the checker of proofs, supply clients, sandboxes of file paths and the scorecard of the
  electrical check are left out too. Inside modelled parts: signals to processes, asynchronous fairness
  (waiters of a lock are served in any order), the text of journals and reports, and durations.
\<close>

section \<open>From a tool call to the files\<close>



end
